(* ===== verification/Prelude.thy ===== *)
theory Prelude
  imports Main "HOL-Library.Word" "HOL-Library.Multiset" "HOL-Library.AList"
begin

text \<open>
  The base of the development. Nothing here is specific to memcore: results and the
  question-mark operator of Rust, stateful computations that may fail, saturating arithmetic,
  the stable \<open>sort_by\<close> of slices, and hash maps as association lists. The component theories
  carry their proofs with the collections declared here:
  \<^item> \<open>result_simps\<close>: unfolding of \<open>?\<close> chains whose result is known;
  \<^item> \<open>pres_intro\<close>: introduction rules for \<open>preserves\<close>, used to lift an invariant of the store
    operations to whole handlers;
  \<^item> \<open>spec_intro\<close>: the same for pre- and postconditions (\<open>spec\<close>);
  \<^item> \<open>frame_simps\<close>: which part of the state an operation leaves alone.
\<close>

named_theorems result_simps \<open>success and failure of sequenced results\<close>
named_theorems pres_intro \<open>a computation preserves an invariant\<close>
named_theorems frame_simps \<open>parts of the state an operation does not touch\<close>

section \<open>Results\<close>

text \<open>
  \<open>Result<T, E>\<close> is the sum \<open>'e + 'a\<close> with \<open>Inl\<close> for \<open>Err\<close> and \<open>Inr\<close> for \<open>Ok\<close>.
  \<open>and_then r f\<close> is \<open>f(r?)\<close>.
\<close>

definition and_then :: "'e + 'a \<Rightarrow> ('a \<Rightarrow> 'e + 'b) \<Rightarrow> 'e + 'b" where
  "and_then r f = (case r of Inl e \<Rightarrow> Inl e | Inr a \<Rightarrow> f a)"

definition is_ok :: "'e + 'a \<Rightarrow> bool" where
  "is_ok r = (case r of Inl _ \<Rightarrow> False | Inr _ \<Rightarrow> True)"

definition ok_or :: "'e \<Rightarrow> 'a option \<Rightarrow> 'e + 'a" where
  "ok_or e v = (case v of None \<Rightarrow> Inl e | Some a \<Rightarrow> Inr a)"

lemma and_then_simps [simp]:
  "and_then (Inl e) f = Inl e"
  "and_then (Inr a) f = f a"
  by (simp_all add: and_then_def)

lemma is_ok_simps [simp]:
  "is_ok (Inl e) = False"
  "is_ok (Inr a) = True"
  by (simp_all add: is_ok_def)

lemma ok_or_simps [simp]:
  "ok_or e None = Inl e"
  "ok_or e (Some a) = Inr a"
  by (simp_all add: ok_or_def)

lemma and_then_eq_Inr [result_simps]:
  "and_then r f = Inr b \<longleftrightarrow> (\<exists>a. r = Inr a \<and> f a = Inr b)"
  by (cases r) auto

lemma and_then_eq_Inl [result_simps]:
  "and_then r f = Inl e \<longleftrightarrow> r = Inl e \<or> (\<exists>a. r = Inr a \<and> f a = Inl e)"
  by (cases r) auto

lemma is_ok_iff [result_simps]: "is_ok r \<longleftrightarrow> (\<exists>a. r = Inr a)"
  by (cases r) auto

lemma ok_or_eq_Inr [result_simps]: "ok_or e v = Inr a \<longleftrightarrow> v = Some a"
  by (cases v) auto

section \<open>Stateful computations that may fail\<close>

text \<open>
  An \<open>async fn\<close> over shared stores that returns a \<open>Result\<close>: the state is returned on the error
  path too, because what was written before the error stays written.
\<close>

type_synonym ('s, 'e, 'a) comp = "'s \<Rightarrow> ('e + 'a) \<times> 's"

definition ret :: "'a \<Rightarrow> ('s, 'e, 'a) comp" where
  "ret a s = (Inr a, s)"

definition throw :: "'e \<Rightarrow> ('s, 'e, 'a) comp" where
  "throw e s = (Inl e, s)"

definition bindC :: "('s, 'e, 'a) comp \<Rightarrow> ('a \<Rightarrow> ('s, 'e, 'b) comp) \<Rightarrow> ('s, 'e, 'b) comp" where
  "bindC m f s = (case m s of (Inl e, t) \<Rightarrow> (Inl e, t) | (Inr a, t) \<Rightarrow> f a t)"

text \<open>\<open>seqC\<close> runs a computation for its effect; \<open>liftR\<close> is \<open>?\<close> on a pure result; \<open>attemptC\<close>
  hands the result to a \<open>match\<close> instead of returning early on an error.\<close>

definition seqC :: "('s, 'e, 'a) comp \<Rightarrow> ('s, 'e, 'b) comp \<Rightarrow> ('s, 'e, 'b) comp" where
  "seqC m n = bindC m (\<lambda>_. n)"

definition liftR :: "'e + 'a \<Rightarrow> ('s, 'e, 'a) comp" where
  "liftR r s = (r, s)"

definition attemptC :: "('s, 'e, 'a) comp \<Rightarrow> ('s, 'e, 'e + 'a) comp" where
  "attemptC m s = (case m s of (r, t) \<Rightarrow> (Inr r, t))"

definition getsC :: "('s \<Rightarrow> 'a) \<Rightarrow> ('s, 'e, 'a) comp" where
  "getsC f s = (Inr (f s), s)"

definition modifyC :: "('s \<Rightarrow> 's) \<Rightarrow> ('s, 'e, unit) comp" where
  "modifyC f s = (Inr (), f s)"

fun for_eachC :: "('a \<Rightarrow> 'b \<Rightarrow> ('s, 'e, 'b) comp) \<Rightarrow> 'a list \<Rightarrow> 'b \<Rightarrow> ('s, 'e, 'b) comp" where
  "for_eachC body [] acc = ret acc"
| "for_eachC body (x # xs) acc = bindC (body x acc) (for_eachC body xs)"

lemma ret_apply [simp]: "ret a s = (Inr a, s)"
  by (simp add: ret_def)

lemma throw_apply [simp]: "throw e s = (Inl e, s)"
  by (simp add: throw_def)

lemma liftR_apply [simp]: "liftR r s = (r, s)"
  by (simp add: liftR_def)

lemma getsC_apply [simp]: "getsC f s = (Inr (f s), s)"
  by (simp add: getsC_def)

lemma modifyC_apply [simp]: "modifyC f s = (Inr (), f s)"
  by (simp add: modifyC_def)

lemma attemptC_apply [simp]: "attemptC m s = (Inr (fst (m s)), snd (m s))"
  by (simp add: attemptC_def split: prod.split)

lemma bindC_eq_Inr [result_simps]:
  "bindC m f s = (Inr b, t) \<longleftrightarrow> (\<exists>a u. m s = (Inr a, u) \<and> f a u = (Inr b, t))"
  by (auto simp: bindC_def split: prod.splits sum.splits)

lemma bindC_eq_Inl [result_simps]:
  "bindC m f s = (Inl e, t) \<longleftrightarrow>
     m s = (Inl e, t) \<or> (\<exists>a u. m s = (Inr a, u) \<and> f a u = (Inl e, t))"
  by (auto simp: bindC_def split: prod.splits sum.splits)

lemma seqC_eq_Inr [result_simps]:
  "seqC m n s = (Inr b, t) \<longleftrightarrow> (\<exists>a u. m s = (Inr a, u) \<and> n u = (Inr b, t))"
  by (simp add: seqC_def bindC_eq_Inr)

lemma bindC_Inr [simp]: "m s = (Inr a, t) \<Longrightarrow> bindC m f s = f a t"
  by (simp add: bindC_def)

lemma bindC_Inl [simp]: "m s = (Inl e, t) \<Longrightarrow> bindC m f s = (Inl e, t)"
  by (simp add: bindC_def)

lemma seqC_Inr [simp]: "m s = (Inr a, t) \<Longrightarrow> seqC m n s = n t"
  by (simp add: seqC_def)

lemma seqC_Inl [simp]: "m s = (Inl e, t) \<Longrightarrow> seqC m n s = (Inl e, t)"
  by (simp add: seqC_def)

subsection \<open>Invariants of computations\<close>

text \<open>An invariant is kept on the success path and on every error path.\<close>

definition preserves :: "('s \<Rightarrow> bool) \<Rightarrow> ('s, 'e, 'a) comp \<Rightarrow> bool" where
  "preserves P m \<longleftrightarrow> (\<forall>s. P s \<longrightarrow> P (snd (m s)))"

lemma preservesI [intro?]: "(\<And>s. P s \<Longrightarrow> P (snd (m s))) \<Longrightarrow> preserves P m"
  by (simp add: preserves_def)

lemma preservesD: "preserves P m \<Longrightarrow> P s \<Longrightarrow> P (snd (m s))"
  by (simp add: preserves_def)

lemma preserves_result: "preserves P m \<Longrightarrow> P s \<Longrightarrow> m s = (r, t) \<Longrightarrow> P t"
  by (metis preservesD snd_conv)

lemma preserves_ret [pres_intro]: "preserves P (ret a)"
  by (simp add: preserves_def)

lemma preserves_throw [pres_intro]: "preserves P (throw e)"
  by (simp add: preserves_def)

lemma preserves_liftR [pres_intro]: "preserves P (liftR r)"
  by (simp add: preserves_def)

lemma preserves_getsC [pres_intro]: "preserves P (getsC f)"
  by (simp add: preserves_def)

lemma preserves_bindC [pres_intro]:
  "preserves P m \<Longrightarrow> (\<And>a. preserves P (f a)) \<Longrightarrow> preserves P (bindC m f)"
  by (auto simp: preserves_def bindC_def split: prod.splits sum.splits)

lemma preserves_seqC [pres_intro]:
  "preserves P m \<Longrightarrow> preserves P n \<Longrightarrow> preserves P (seqC m n)"
  by (simp add: seqC_def preserves_bindC)

lemma preserves_attemptC [pres_intro]: "preserves P m \<Longrightarrow> preserves P (attemptC m)"
  by (simp add: preserves_def)

lemma preserves_modifyC [pres_intro]: "(\<And>s. P s \<Longrightarrow> P (f s)) \<Longrightarrow> preserves P (modifyC f)"
  by (simp add: preserves_def)

lemma preserves_for_eachC [pres_intro]:
  assumes "\<And>x acc. preserves P (body x acc)"
  shows "preserves P (for_eachC body xs acc)"
  using assms by (induction xs arbitrary: acc) (auto intro: pres_intro)

lemma preserves_if [pres_intro]:
  "(b \<Longrightarrow> preserves P m) \<Longrightarrow> (\<not> b \<Longrightarrow> preserves P n) \<Longrightarrow> preserves P (if b then m else n)"
  by simp

lemma preserves_case_option [pres_intro]:
  "(v = None \<Longrightarrow> preserves P m) \<Longrightarrow> (\<And>a. v = Some a \<Longrightarrow> preserves P (f a)) \<Longrightarrow>
     preserves P (case v of None \<Rightarrow> m | Some a \<Rightarrow> f a)"
  by (cases v) auto

lemma preserves_case_sum [pres_intro]:
  "(\<And>a. v = Inl a \<Longrightarrow> preserves P (f a)) \<Longrightarrow> (\<And>b. v = Inr b \<Longrightarrow> preserves P (g b)) \<Longrightarrow>
     preserves P (case v of Inl a \<Rightarrow> f a | Inr b \<Rightarrow> g b)"
  by (cases v) auto

lemma preserves_case_prod [pres_intro]:
  "(\<And>a b. v = (a, b) \<Longrightarrow> preserves P (f a b)) \<Longrightarrow> preserves P (case v of (a, b) \<Rightarrow> f a b)"
  by (cases v) auto

lemma preserves_Let [pres_intro]: "preserves P (f v) \<Longrightarrow> preserves P (let x = v in f x)"
  by simp

subsection \<open>Pre- and postconditions\<close>

text \<open>\<open>spec P m Q E\<close>: from a state with \<open>P\<close>, a result comes with \<open>Q\<close> and an error with \<open>E\<close>. It is for the steps
  between which an invariant does not hold.\<close>

named_theorems spec_intro \<open>pre- and postconditions of computations\<close>

definition spec ::
  "('s \<Rightarrow> bool) \<Rightarrow> ('s, 'e, 'a) comp \<Rightarrow> ('a \<Rightarrow> 's \<Rightarrow> bool) \<Rightarrow> ('s \<Rightarrow> bool) \<Rightarrow> bool" where
  "spec P m Q E \<longleftrightarrow> (\<forall>s. P s \<longrightarrow> (case m s of (Inl e, t) \<Rightarrow> E t | (Inr a, t) \<Rightarrow> Q a t))"

lemma specI:
  "(\<And>s a t. P s \<Longrightarrow> m s = (Inr a, t) \<Longrightarrow> Q a t) \<Longrightarrow> (\<And>s e t. P s \<Longrightarrow> m s = (Inl e, t) \<Longrightarrow> E t) \<Longrightarrow> spec P m Q E"
  by (auto simp: spec_def split: prod.split sum.split)

lemma specD: "spec P m Q E \<Longrightarrow> P s \<Longrightarrow> m s = (Inr a, t) \<Longrightarrow> Q a t"
  by (force simp: spec_def)

lemma specD_err: "spec P m Q E \<Longrightarrow> P s \<Longrightarrow> m s = (Inl e, t) \<Longrightarrow> E t"
  by (force simp: spec_def)

lemma preserves_iff_spec: "preserves P m \<longleftrightarrow> spec P m (\<lambda>_. P) P"
  unfolding preserves_def spec_def by (intro all_cong1) (auto split: prod.split sum.split)

lemma spec_bindC [spec_intro]:
  "spec P m Q E \<Longrightarrow> (\<And>a. spec (Q a) (f a) R E) \<Longrightarrow> spec P (bindC m f) R E"
  by (fastforce simp: spec_def bindC_def split: prod.splits sum.splits)

lemma spec_seqC [spec_intro]:
  "spec P m (\<lambda>_. Q) E \<Longrightarrow> spec Q n R E \<Longrightarrow> spec P (seqC m n) R E"
  unfolding seqC_def by (rule spec_bindC)

lemma spec_ret [spec_intro]: "(\<And>s. P s \<Longrightarrow> Q a s) \<Longrightarrow> spec P (ret a) Q E"
  by (simp add: spec_def)

lemma spec_throw [spec_intro]: "(\<And>s. P s \<Longrightarrow> E s) \<Longrightarrow> spec P (throw e) Q E"
  by (simp add: spec_def)

lemma spec_liftR [spec_intro]:
  "(\<And>s a. P s \<Longrightarrow> r = Inr a \<Longrightarrow> Q a s) \<Longrightarrow> (\<And>s e. P s \<Longrightarrow> r = Inl e \<Longrightarrow> E s) \<Longrightarrow> spec P (liftR r) Q E"
  by (cases r) (simp_all add: spec_def)

lemma spec_conseq:
  "spec P' m Q' E' \<Longrightarrow> (\<And>s. P s \<Longrightarrow> P' s) \<Longrightarrow> (\<And>a s. Q' a s \<Longrightarrow> Q a s) \<Longrightarrow> (\<And>s. E' s \<Longrightarrow> E s) \<Longrightarrow> spec P m Q E"
  by (fastforce simp: spec_def split: prod.splits sum.splits)

lemma spec_pre: "spec P' m Q E \<Longrightarrow> (\<And>s. P s \<Longrightarrow> P' s) \<Longrightarrow> spec P m Q E"
  by (auto simp: spec_def)

lemma spec_pre_const: "(\<And>s. P s \<Longrightarrow> A) \<Longrightarrow> (A \<Longrightarrow> spec P m Q E) \<Longrightarrow> spec P m Q E"
  by (auto simp: spec_def)

lemma preserves_spec: "preserves P m \<Longrightarrow> (\<And>a s. P s \<Longrightarrow> Q a s) \<Longrightarrow> (\<And>s. P s \<Longrightarrow> E s) \<Longrightarrow> spec P m Q E"
  unfolding preserves_iff_spec by (erule spec_conseq)

lemma spec_if [spec_intro]:
  "(b \<Longrightarrow> spec P m Q E) \<Longrightarrow> (\<not> b \<Longrightarrow> spec P n Q E) \<Longrightarrow> spec P (if b then m else n) Q E"
  by simp

lemma spec_case_option [spec_intro]:
  "(v = None \<Longrightarrow> spec P m Q E) \<Longrightarrow> (\<And>a. v = Some a \<Longrightarrow> spec P (f a) Q E) \<Longrightarrow>
     spec P (case v of None \<Rightarrow> m | Some a \<Rightarrow> f a) Q E"
  by (cases v) auto

lemma spec_case_sum [spec_intro]:
  "(\<And>a. v = Inl a \<Longrightarrow> spec P (f a) Q E) \<Longrightarrow> (\<And>b. v = Inr b \<Longrightarrow> spec P (g b) Q E) \<Longrightarrow>
     spec P (case v of Inl a \<Rightarrow> f a | Inr b \<Rightarrow> g b) Q E"
  by (cases v) auto

lemma spec_case_prod [spec_intro]:
  "(\<And>a b. v = (a, b) \<Longrightarrow> spec P (f a b) Q E) \<Longrightarrow> spec P (case v of (a, b) \<Rightarrow> f a b) Q E"
  by (cases v) auto

lemma spec_getsC [spec_intro]: "(\<And>s. P s \<Longrightarrow> Q (f s) s) \<Longrightarrow> spec P (getsC f) Q E"
  by (simp add: spec_def)

lemma spec_modifyC [spec_intro]: "(\<And>s. P s \<Longrightarrow> Q () (f s)) \<Longrightarrow> spec P (modifyC f) Q E"
  by (simp add: spec_def)

text \<open>A loop whose invariant speaks of the elements still to come.\<close>

lemma spec_for_eachC:
  assumes "\<And>x xs acc. spec (I (x # xs)) (body x acc) (\<lambda>_. I xs) E"
  shows "spec (I xs) (for_eachC body xs acc) (\<lambda>_. I []) E"
proof (induction xs arbitrary: acc)
  case Nil
  show ?case by (simp add: spec_def)
next
  case (Cons x xs)
  show ?case unfolding for_eachC.simps by (rule spec_bindC [OF assms Cons.IH])
qed

text \<open>A loop whose invariant speaks of the number of elements done and of the accumulator.\<close>

lemma spec_for_eachC_acc:
  assumes "\<And>x k acc. spec (I k acc) (body x acc) (I (Suc k)) E"
  shows "spec (I k acc) (for_eachC body xs acc) (I (k + length xs)) E"
proof (induction xs arbitrary: k acc)
  case Nil
  show ?case by (simp add: spec_def)
next
  case (Cons x xs)
  have "spec (I k acc) (bindC (body x acc) (for_eachC body xs)) (I (Suc k + length xs)) E"
    by (rule spec_bindC [OF assms Cons.IH])
  then show ?case by simp
qed

section \<open>Saturating arithmetic\<close>

text \<open>
  A \<open>usize\<close> is a \<open>nat\<close> with its largest value written out (64-bit targets); a \<open>u64\<close> is a
  64-bit word.
\<close>

definition usize_max :: nat where
  "usize_max = 2 ^ 64 - 1"

definition usize_saturating_add :: "nat \<Rightarrow> nat \<Rightarrow> nat" where
  "usize_saturating_add a b = min (a + b) usize_max"

definition usize_saturating_mul :: "nat \<Rightarrow> nat \<Rightarrow> nat" where
  "usize_saturating_mul a b = min (a * b) usize_max"

type_synonym u32 = "32 word"
type_synonym u64 = "64 word"

definition u64_saturating_add :: "u64 \<Rightarrow> u64 \<Rightarrow> u64" where
  "u64_saturating_add a b = (if unat a + unat b < 2 ^ 64 then a + b else - 1)"

lemma unat_u64_saturating_add:
  "unat (u64_saturating_add a b) = min (unat a + unat b) (2 ^ 64 - 1)"
proof -
  have m: "unat (- 1 :: u64) = 2 ^ 64 - 1"
    by (simp add: unsigned_minus_1_eq_mask mask_eq_exp_minus_1)
  show ?thesis
  proof (cases "unat a + unat b < 2 ^ 64")
    case True
    then have "unat (a + b) = unat a + unat b"
      by (simp add: unat_word_ariths)
    with True show ?thesis by (simp add: u64_saturating_add_def)
  next
    case False
    with m show ?thesis by (simp add: u64_saturating_add_def)
  qed
qed

section \<open>Stable sorting\<close>

text \<open>
  \<open>slice::sort_by\<close> is stable. \<open>le x y\<close> says that the comparison of \<open>x\<close> with \<open>y\<close> is not
  \<open>Greater\<close>. An element is inserted before the first one it may precede, and elements are
  inserted from the right, so equal elements keep their order.
\<close>

fun insert_by :: "('a \<Rightarrow> 'a \<Rightarrow> bool) \<Rightarrow> 'a \<Rightarrow> 'a list \<Rightarrow> 'a list" where
  "insert_by le x [] = [x]"
| "insert_by le x (y # ys) = (if le x y then x # y # ys else y # insert_by le x ys)"

definition sort_by :: "('a \<Rightarrow> 'a \<Rightarrow> bool) \<Rightarrow> 'a list \<Rightarrow> 'a list" where
  "sort_by le xs = foldr (insert_by le) xs []"

lemma sort_by_simps [simp]:
  "sort_by le [] = []"
  "sort_by le (x # xs) = insert_by le x (sort_by le xs)"
  by (simp_all add: sort_by_def)

lemma mset_insert_by [simp]: "mset (insert_by le x xs) = add_mset x (mset xs)"
  by (induction xs) auto

lemma mset_sort_by [simp]: "mset (sort_by le xs) = mset xs"
  by (induction xs) auto

lemma set_insert_by [simp]: "set (insert_by le x xs) = insert x (set xs)"
  by (induction xs) auto

lemma set_sort_by [simp]: "set (sort_by le xs) = set xs"
  by (induction xs) auto

lemma length_insert_by [simp]: "length (insert_by le x xs) = Suc (length xs)"
  by (induction xs) auto

lemma length_sort_by [simp]: "length (sort_by le xs) = length xs"
  by (induction xs) auto

lemma distinct_sort_by [simp]: "distinct (sort_by le xs) = distinct xs"
  by (rule mset_eq_imp_distinct_iff) simp

text \<open>A total preorder (on the elements at hand) is what makes a comparison usable for sorting.\<close>

definition total_preorder_on :: "'a set \<Rightarrow> ('a \<Rightarrow> 'a \<Rightarrow> bool) \<Rightarrow> bool" where
  "total_preorder_on A le \<longleftrightarrow> (\<forall>x\<in>A. \<forall>y\<in>A. le x y \<or> le y x) \<and>
     (\<forall>x\<in>A. \<forall>y\<in>A. \<forall>z\<in>A. le x y \<longrightarrow> le y z \<longrightarrow> le x z)"

definition total_preorder :: "('a \<Rightarrow> 'a \<Rightarrow> bool) \<Rightarrow> bool" where
  "total_preorder le \<longleftrightarrow> (\<forall>x y. le x y \<or> le y x) \<and> (\<forall>x y z. le x y \<longrightarrow> le y z \<longrightarrow> le x z)"

lemma total_preorder_onI: "total_preorder le \<Longrightarrow> total_preorder_on A le"
  unfolding total_preorder_def total_preorder_on_def by blast

lemma sorted_wrt_insert_by:
  assumes tp: "total_preorder_on A le" and "x \<in> A" and "set xs \<subseteq> A" and "sorted_wrt le xs"
  shows "sorted_wrt le (insert_by le x xs)"
  using assms(3,4)
proof (induction xs)
  case Nil
  then show ?case by simp
next
  case (Cons y ys)
  show ?case
  proof (cases "le x y")
    case True
    have "le x z" if "z \<in> set ys" for z
    proof -
      have "le y z" and "y \<in> A" and "z \<in> A" using that Cons.prems by auto
      with tp True \<open>x \<in> A\<close> show ?thesis unfolding total_preorder_on_def by blast
    qed
    with True Cons.prems show ?thesis by auto
  next
    case False
    moreover have "y \<in> A" using Cons.prems by simp
    ultimately have "le y x"
      using tp \<open>x \<in> A\<close> unfolding total_preorder_on_def by blast
    with Cons False show ?thesis by auto
  qed
qed

lemma sorted_wrt_sort_by_on:
  "total_preorder_on A le \<Longrightarrow> set xs \<subseteq> A \<Longrightarrow> sorted_wrt le (sort_by le xs)"
  by (induction xs) (auto intro!: sorted_wrt_insert_by [of A])

lemma sorted_wrt_sort_by: "total_preorder le \<Longrightarrow> sorted_wrt le (sort_by le xs)"
  by (rule sorted_wrt_sort_by_on [OF total_preorder_onI subset_UNIV])

text \<open>Two sorted arrangements of the same elements agree when no two distinct elements tie.\<close>

lemma sorted_wrt_unique:
  assumes "sorted_wrt le xs" and "sorted_wrt le ys" and "mset xs = mset ys"
    and anti: "\<And>x y. x \<in> set xs \<Longrightarrow> y \<in> set xs \<Longrightarrow> le x y \<Longrightarrow> le y x \<Longrightarrow> x = y"
  shows "xs = ys"
  using assms
proof (induction xs arbitrary: ys)
  case Nil
  then show ?case by simp
next
  case (Cons x xs)
  from Cons.prems(3) obtain y zs where ys: "ys = y # zs"
    by (cases ys) auto
  have sets: "set ys = insert x (set xs)"
    using Cons.prems(3) by (metis list.simps(15) set_mset_mset)
  have "x = y"
  proof (rule ccontr)
    assume "x \<noteq> y"
    with sets ys have "y \<in> set xs" and "x \<in> set zs"
      by auto
    with Cons.prems(1,2) ys have "le x y" and "le y x"
      by auto
    with Cons.prems(4) \<open>y \<in> set xs\<close> \<open>x \<noteq> y\<close> show False
      by auto
  qed
  moreover have "xs = zs"
    using Cons.prems ys \<open>x = y\<close> by (intro Cons.IH) auto
  ultimately show ?case using ys by simp
qed

lemma sort_by_perm:
  assumes "total_preorder le" and "mset xs = mset ys"
    and "\<And>x y. x \<in> set xs \<Longrightarrow> y \<in> set xs \<Longrightarrow> le x y \<Longrightarrow> le y x \<Longrightarrow> x = y"
  shows "sort_by le xs = sort_by le ys"
proof (rule sorted_wrt_unique [where le = le])
  show "sorted_wrt le (sort_by le xs)" and "sorted_wrt le (sort_by le ys)"
    by (rule sorted_wrt_sort_by [OF assms(1)])+
  show "mset (sort_by le xs) = mset (sort_by le ys)"
    using assms(2) by simp
  show "\<And>x y. x \<in> set (sort_by le xs) \<Longrightarrow> y \<in> set (sort_by le xs) \<Longrightarrow> le x y \<Longrightarrow> le y x \<Longrightarrow> x = y"
    using assms(3) by simp
qed

text \<open>\<open>then_with\<close>: compare by one key, break ties with the next comparison.\<close>

definition lex_le :: "('a \<Rightarrow> 'a \<Rightarrow> bool) \<Rightarrow> ('a \<Rightarrow> 'a \<Rightarrow> bool) \<Rightarrow> 'a \<Rightarrow> 'a \<Rightarrow> bool" where
  "lex_le f g x y \<longleftrightarrow> f x y \<and> (f y x \<longrightarrow> g x y)"

lemma total_preorder_lex_le:
  "total_preorder f \<Longrightarrow> total_preorder g \<Longrightarrow> total_preorder (lex_le f g)"
  by (unfold total_preorder_def lex_le_def) blast

lemma total_preorder_key: "total_preorder (\<lambda>x y. (k x :: 'k :: linorder) \<le> k y)"
  by (auto simp: total_preorder_def)

lemma total_preorder_key_rev: "total_preorder (\<lambda>x y. (k y :: 'k :: linorder) \<le> k x)"
  by (auto simp: total_preorder_def)

lemma take_sorted_wrt: "sorted_wrt le xs \<Longrightarrow> sorted_wrt le (take n xs)"
  by (metis append_take_drop_id sorted_wrt_append)

lemma sorted_wrt_take_drop:
  "sorted_wrt le xs \<Longrightarrow> x \<in> set (take n xs) \<Longrightarrow> y \<in> set (drop n xs) \<Longrightarrow> le x y"
  by (metis append_take_drop_id sorted_wrt_append)

section \<open>Hash maps\<close>

text \<open>
  A \<open>HashMap\<close> is an association list with distinct keys. The list's order is the map's
  iteration order, which Rust leaves unspecified: theorems are about every list, and where the
  order could show they say so.
\<close>

type_synonym ('k, 'v) hash_map = "('k \<times> 'v) list"

definition hm_values :: "('k, 'v) hash_map \<Rightarrow> 'v list" where
  "hm_values m = map snd m"

definition hm_retain :: "('k \<Rightarrow> 'v \<Rightarrow> bool) \<Rightarrow> ('k, 'v) hash_map \<Rightarrow> ('k, 'v) hash_map" where
  "hm_retain p m = filter (\<lambda>(k, v). p k v) m"

definition hm_wf :: "('k, 'v) hash_map \<Rightarrow> bool" where
  "hm_wf m \<longleftrightarrow> distinct (map fst m)"

lemma hm_wf_Nil [simp]: "hm_wf []"
  by (simp add: hm_wf_def)

lemma hm_wf_update [simp]: "hm_wf m \<Longrightarrow> hm_wf (AList.update k v m)"
  by (simp add: hm_wf_def distinct_update)

lemma hm_wf_retain [simp]: "hm_wf m \<Longrightarrow> hm_wf (hm_retain p m)"
  by (simp add: hm_wf_def hm_retain_def distinct_map_filter)

lemma map_of_hm_retain:
  "hm_wf m \<Longrightarrow> map_of (hm_retain p m) k =
     (case map_of m k of None \<Rightarrow> None | Some v \<Rightarrow> if p k v then Some v else None)"
proof (induction m)
  case Nil
  then show ?case by (simp add: hm_retain_def)
next
  case (Cons kv m)
  obtain k' v' where kv: "kv = (k', v')" by (cases kv)
  show ?case
  proof (cases "k = k'")
    case True
    with Cons.prems kv have "map_of m k = None"
      by (simp add: hm_wf_def map_of_eq_None_iff)
    with Cons kv True show ?thesis
      by (auto simp: hm_retain_def hm_wf_def)
  next
    case False
    with Cons kv show ?thesis
      by (auto simp: hm_retain_def hm_wf_def split: option.splits)
  qed
qed

lemma map_of_update [simp]: "map_of (AList.update k v m) = (map_of m)(k \<mapsto> v)"
  by (rule ext) (simp add: update_conv)

lemma in_hm_iff: "hm_wf m \<Longrightarrow> (k, v) \<in> set m \<longleftrightarrow> map_of m k = Some v"
  by (simp add: hm_wf_def)

lemma in_hm_values_iff: "hm_wf m \<Longrightarrow> v \<in> set (hm_values m) \<longleftrightarrow> (\<exists>k. map_of m k = Some v)"
  by (force simp: hm_values_def hm_wf_def)

lemma hm_perm_eq:
  assumes "hm_wf m" and "hm_wf n" and "map_of m = map_of n"
  shows "mset m = mset n"
proof -
  have "set m = set n"
  proof (rule set_eqI)
    fix kv
    show "kv \<in> set m \<longleftrightarrow> kv \<in> set n"
      using assms in_hm_iff [of m "fst kv" "snd kv"] in_hm_iff [of n "fst kv" "snd kv"] by simp
  qed
  moreover have "distinct m" and "distinct n"
    using assms by (auto simp: hm_wf_def distinct_map)
  ultimately show ?thesis
    by (simp add: set_eq_iff_mset_eq_distinct)
qed

section \<open>Ordered maps\<close>

text \<open>A \<open>BTreeMap\<close> is an association list in strictly ascending key order.\<close>

fun bt_insert :: "'k :: linorder \<Rightarrow> 'v \<Rightarrow> ('k \<times> 'v) list \<Rightarrow> ('k \<times> 'v) list" where
  "bt_insert k v [] = [(k, v)]"
| "bt_insert k v ((k', v') # m) =
     (if k < k' then (k, v) # (k', v') # m
      else if k = k' then (k, v) # m
      else (k', v') # bt_insert k v m)"

definition bt_wf :: "('k :: linorder \<times> 'v) list \<Rightarrow> bool" where
  "bt_wf m \<longleftrightarrow> sorted_wrt (<) (map fst m)"

lemma bt_wf_Nil [simp]: "bt_wf []"
  by (simp add: bt_wf_def)

lemma set_keys_bt_insert [simp]: "fst ` set (bt_insert k v m) = insert k (fst ` set m)"
  by (induction k v m rule: bt_insert.induct) auto

lemma bt_wf_insert [simp]: "bt_wf m \<Longrightarrow> bt_wf (bt_insert k v m)"
proof (induction k v m rule: bt_insert.induct)
  case (2 k v k' v' m)
  show ?case
  proof (cases "k < k'")
    case True
    with 2 show ?thesis by (auto simp: bt_wf_def)
  next
    case False
    have "\<forall>x \<in> fst ` set (bt_insert k v m). k' < x" if "k \<noteq> k'"
      using 2 False that by (auto simp: bt_wf_def)
    with 2 False show ?thesis by (auto simp: bt_wf_def)
  qed
qed (simp add: bt_wf_def)

lemma map_of_bt_insert [simp]: "bt_wf m \<Longrightarrow> map_of (bt_insert k v m) = (map_of m)(k \<mapsto> v)"
proof (induction k v m rule: bt_insert.induct)
  case (2 k v k' v' m)
  then show ?case by (auto simp: bt_wf_def fun_eq_iff)
qed simp

end
