(* ===== verification/Rust_Str.thy ===== *)
theory Rust_Str
  imports Prelude "HOL-Library.Char_ord" "HOL-Library.List_Lexorder"
begin

text \<open>
  Rust strings. A \<open>str\<close> is its UTF-8 encoding, a list of bytes (\<open>char\<close>): \<open>len\<close> is the length of
  the list, \<open>Ord\<close> is the lexicographic order of the bytes, and \<open>to_ascii_lowercase\<close>,
  \<open>contains\<close> and \<open>starts_with\<close> work on the bytes. \<open>trim\<close> and \<open>split_whitespace\<close> know the byte
  sequences of every code point with the Unicode property White\_Space; no such sequence can
  match inside another code point of a well-formed string.
\<close>

section \<open>White space\<close>

definition bytes :: "nat list \<Rightarrow> string" where
  "bytes ns = map char_of ns"

definition ws_seqs :: "string list" where
  "ws_seqs = map bytes
     ([[9], [10], [11], [12], [13], [32], [194, 133], [194, 160], [225, 154, 128]] @
      map (\<lambda>b. [226, 128, b]) [128, 129, 130, 131, 132, 133, 134, 135, 136, 137, 138, 168, 169, 175] @
      [[226, 129, 159], [227, 128, 128]])"

definition match_len :: "string list \<Rightarrow> string \<Rightarrow> nat" where
  "match_len ps s = (case find (\<lambda>w. take (length w) s = w) ps of None \<Rightarrow> 0 | Some w \<Rightarrow> length w)"

lemma match_len_le: "match_len ps s \<le> length s"
  by (auto simp: match_len_def find_Some_iff split: option.splits) (metis length_take min.cobounded1)

function strip_front :: "string list \<Rightarrow> string \<Rightarrow> string" where
  "strip_front ps s = (if match_len ps s = 0 then s else strip_front ps (drop (match_len ps s) s))"
  by pat_completeness auto
termination
  by (relation "measure (\<lambda>(ps, s). length s)")
    (auto simp: Suc_le_eq dest: match_len_le [THEN le_trans, rotated] intro: diff_less
      | metis match_len_le diff_less le_zero_eq not_gr_zero)+

declare strip_front.simps [simp del]

definition trim_start :: "string \<Rightarrow> string" where
  "trim_start = strip_front ws_seqs"

definition trim_end :: "string \<Rightarrow> string" where
  "trim_end s = rev (strip_front (map rev ws_seqs) (rev s))"

definition trim :: "string \<Rightarrow> string" where
  "trim s = trim_end (trim_start s)"

definition is_blank :: "string \<Rightarrow> bool" where
  "is_blank s \<longleftrightarrow> trim s = []"

lemma strip_front_length: "length (strip_front ps s) \<le> length s"
proof (induction ps s rule: strip_front.induct)
  case (1 ps s)
  then show ?case
    by (subst strip_front.simps) (auto intro: le_trans)
qed

lemma strip_front_suffix: "\<exists>pre. s = pre @ strip_front ps s"
proof (induction ps s rule: strip_front.induct)
  case (1 ps s)
  show ?case
  proof (cases "match_len ps s = 0")
    case True
    then show ?thesis by (subst strip_front.simps) simp
  next
    case False
    from "1.IH" [OF False] obtain pre
      where pre: "drop (match_len ps s) s = pre @ strip_front ps (drop (match_len ps s) s)" ..
    have "s = (take (match_len ps s) s @ pre) @ strip_front ps (drop (match_len ps s) s)"
      by (simp add: pre [symmetric])
    moreover have "strip_front ps s = strip_front ps (drop (match_len ps s) s)"
      using False by (simp add: strip_front.simps [of ps s])
    ultimately show ?thesis by metis
  qed
qed

lemma strip_front_stop: "match_len ps (strip_front ps s) = 0"
proof (induction ps s rule: strip_front.induct)
  case (1 ps s)
  then show ?case by (subst strip_front.simps) simp
qed

lemma strip_front_fixed: "match_len ps s = 0 \<Longrightarrow> strip_front ps s = s"
  by (simp add: strip_front.simps [of ps s])

lemma strip_front_idem: "strip_front ps (strip_front ps s) = strip_front ps s"
  by (rule strip_front_fixed) (rule strip_front_stop)

lemma trim_length: "length (trim s) \<le> length s"
  using strip_front_length [of "map rev ws_seqs" "rev (trim_start s)"] strip_front_length [of ws_seqs s]
  by (simp add: trim_def trim_end_def trim_start_def)

lemma trim_Nil [simp]: "trim [] = []"
  using trim_length [of "[]"] by simp

lemma is_blank_Nil [simp]: "is_blank []"
  by (simp add: is_blank_def)

section \<open>Case, search and prefixes\<close>

definition ascii_lower :: "char \<Rightarrow> char" where
  "ascii_lower c = (if 65 \<le> (of_char c :: nat) \<and> (of_char c :: nat) \<le> 90
     then char_of ((of_char c :: nat) + 32) else c)"

definition to_ascii_lowercase :: "string \<Rightarrow> string" where
  "to_ascii_lowercase s = map ascii_lower s"

definition starts_with :: "string \<Rightarrow> string \<Rightarrow> bool" where
  "starts_with s p \<longleftrightarrow> take (length p) s = p"

fun contains :: "string \<Rightarrow> string \<Rightarrow> bool" where
  "contains [] needle = (needle = [])"
| "contains (c # cs) needle = (starts_with (c # cs) needle \<or> contains cs needle)"

lemma ascii_lower_idem [simp]: "ascii_lower (ascii_lower c) = ascii_lower c"
  by (auto simp: ascii_lower_def)

lemma to_ascii_lowercase_idem [simp]:
  "to_ascii_lowercase (to_ascii_lowercase s) = to_ascii_lowercase s"
  by (simp add: to_ascii_lowercase_def)

lemma length_to_ascii_lowercase [simp]: "length (to_ascii_lowercase s) = length s"
  by (simp add: to_ascii_lowercase_def)

lemma contains_iff: "contains s needle \<longleftrightarrow> (\<exists>pre post. s = pre @ needle @ post)"
proof (induction s)
  case Nil
  then show ?case by simp
next
  case (Cons c cs)
  have sw: "starts_with (c # cs) needle \<longleftrightarrow> (\<exists>post. c # cs = needle @ post)"
    by (metis append_eq_conv_conj starts_with_def append_take_drop_id)
  show ?case
  proof
    assume "contains (c # cs) needle"
    then consider "starts_with (c # cs) needle" | "contains cs needle" by auto
    then show "\<exists>pre post. c # cs = pre @ needle @ post"
    proof cases
      case 1
      with sw show ?thesis by (metis append_Nil)
    next
      case 2
      with Cons.IH show ?thesis by (metis append_Cons)
    qed
  next
    assume "\<exists>pre post. c # cs = pre @ needle @ post"
    then obtain pre post where *: "c # cs = pre @ needle @ post" by blast
    show "contains (c # cs) needle"
    proof (cases pre)
      case Nil
      with * sw have "starts_with (c # cs) needle" by simp
      then show ?thesis by simp
    next
      case (Cons p ps)
      with * have "cs = ps @ needle @ post" by simp
      with Cons.IH show ?thesis by auto
    qed
  qed
qed

lemma contains_refl [simp]: "contains s s"
  by (metis append_Nil append_Nil2 contains_iff)

lemma contains_Nil [simp]: "contains s []"
  by (auto simp: contains_iff)

section \<open>Splitting\<close>

text \<open>\<open>split_whitespace\<close>: \<open>cur\<close> collects the bytes of the current token in reverse.\<close>

function split_ws :: "string \<Rightarrow> string \<Rightarrow> string list" where
  "split_ws cur s =
     (if s = [] then (if cur = [] then [] else [rev cur])
      else if match_len ws_seqs s = 0 then split_ws (hd s # cur) (tl s)
      else (if cur = [] then [] else [rev cur]) @ split_ws [] (drop (match_len ws_seqs s) s))"
  by pat_completeness auto
termination
  by (relation "measure (\<lambda>(cur, s). length s)") auto

declare split_ws.simps [simp del]

definition split_whitespace :: "string \<Rightarrow> string list" where
  "split_whitespace s = split_ws [] s"

fun join :: "string \<Rightarrow> string list \<Rightarrow> string" where
  "join sep [] = []"
| "join sep [x] = x"
| "join sep (x # xs) = x @ sep @ join sep xs"

lemma split_ws_nonempty: "t \<in> set (split_ws cur s) \<Longrightarrow> t \<noteq> []"
proof (induction cur s rule: split_ws.induct)
  case (1 cur s)
  from "1.prems" show ?case
    by (subst (asm) split_ws.simps) (auto split: if_splits dest: "1.IH")
qed

lemma split_whitespace_nonempty: "t \<in> set (split_whitespace s) \<Longrightarrow> t \<noteq> []"
  by (simp add: split_whitespace_def split_ws_nonempty)

section \<open>Decimal numbers\<close>

text \<open>\<open>Display\<close> of an unsigned integer.\<close>

fun show_nat :: "nat \<Rightarrow> string" where
  "show_nat n = (if n < 10 then [char_of (48 + n)] else show_nat (n div 10) @ [char_of (48 + n mod 10)])"

declare show_nat.simps [simp del]

section \<open>Evaluation on literals\<close>

text \<open>
  The white space sequences written out, the bytes that can start or end one, and the steps of
  \<open>trim\<close> and \<open>split_whitespace\<close> on a known first byte: \<open>str_eval\<close> evaluates both on ASCII text.
\<close>

lemma ws_seqs_eval: "ws_seqs =
  [[CHR 0x09], [CHR 0x0A], [CHR 0x0B], [CHR 0x0C], [CHR 0x0D], [CHR 0x20], [CHR 0xC2, CHR 0x85], [CHR 0xC2, CHR 0xA0],
   [CHR 0xE1, CHR 0x9A, CHR 0x80],
   [CHR 0xE2, CHR 0x80, CHR 0x80], [CHR 0xE2, CHR 0x80, CHR 0x81], [CHR 0xE2, CHR 0x80, CHR 0x82],
   [CHR 0xE2, CHR 0x80, CHR 0x83], [CHR 0xE2, CHR 0x80, CHR 0x84], [CHR 0xE2, CHR 0x80, CHR 0x85],
   [CHR 0xE2, CHR 0x80, CHR 0x86], [CHR 0xE2, CHR 0x80, CHR 0x87], [CHR 0xE2, CHR 0x80, CHR 0x88],
   [CHR 0xE2, CHR 0x80, CHR 0x89], [CHR 0xE2, CHR 0x80, CHR 0x8A], [CHR 0xE2, CHR 0x80, CHR 0xA8],
   [CHR 0xE2, CHR 0x80, CHR 0xA9], [CHR 0xE2, CHR 0x80, CHR 0xAF], [CHR 0xE2, CHR 0x81, CHR 0x9F],
   [CHR 0xE3, CHR 0x80, CHR 0x80]]"
  by code_simp

definition ws_blanks :: "char list" where
  "ws_blanks = [CHR 0x09, CHR 0x0A, CHR 0x0B, CHR 0x0C, CHR 0x0D, CHR 0x20]"

definition ws_heads :: "char list" where
  "ws_heads = map hd ws_seqs"

definition ws_tails :: "char list" where
  "ws_tails = map last ws_seqs"

lemma ws_seqs_nonempty: "[] \<notin> set ws_seqs"
  by (simp add: ws_seqs_eval)

lemma match_len_no_head:
  assumes "[] \<notin> set ps" and "c \<notin> hd ` set ps"
  shows "match_len ps (c # s) = 0"
proof -
  have "take (length w) (c # s) \<noteq> w" if "w \<in> set ps" for w
  proof
    assume take: "take (length w) (c # s) = w"
    have "w \<noteq> []" using that assms(1) by auto
    then have "hd w = c" using take by (metis hd_take length_greater_0_conv list.sel(1))
    with that assms(2) show False by auto
  qed
  then show ?thesis
    by (auto simp: match_len_def find_None_iff split: option.splits dest!: find_Some_iff [THEN iffD1])
qed

lemma match_len_other: "c \<notin> set ws_heads \<Longrightarrow> match_len ws_seqs (c # s) = 0"
  using ws_seqs_nonempty by (intro match_len_no_head) (auto simp: ws_heads_def)

lemma match_len_rev_other: "c \<notin> set ws_tails \<Longrightarrow> match_len (map rev ws_seqs) (c # s) = 0"
  using ws_seqs_nonempty by (intro match_len_no_head) (auto simp: ws_tails_def hd_rev)

lemma match_len_blank: "c \<in> set ws_blanks \<Longrightarrow> match_len ws_seqs (c # s) = 1"
  by (simp add: ws_blanks_def, elim disjE) (simp_all add: match_len_def ws_seqs_eval)

lemma trim_literal:
  "s \<noteq> [] \<Longrightarrow> hd s \<notin> set ws_heads \<Longrightarrow> last s \<notin> set ws_tails \<Longrightarrow> trim s = s"
proof -
  assume s: "s \<noteq> []" "hd s \<notin> set ws_heads" "last s \<notin> set ws_tails"
  then have "trim_start s = s"
    by (cases s) (auto simp: trim_start_def strip_front_fixed match_len_other)
  moreover have "rev s = last s # rev (butlast s)"
    using s(1) by (metis append_butlast_last_id rev_eq_Cons_iff rev_rev_ident)
  then have "trim_end s = s"
    using s(3) unfolding trim_end_def by (metis match_len_rev_other rev_rev_ident strip_front_fixed)
  ultimately show ?thesis by (simp add: trim_def)
qed

lemma not_blank_literal:
  "s \<noteq> [] \<Longrightarrow> hd s \<notin> set ws_heads \<Longrightarrow> last s \<notin> set ws_tails \<Longrightarrow> \<not> is_blank s"
  by (simp add: is_blank_def trim_literal)

lemma split_ws_Nil: "split_ws cur [] = (if cur = [] then [] else [rev cur])"
  by (subst split_ws.simps) simp

lemma split_ws_other: "c \<notin> set ws_heads \<Longrightarrow> split_ws cur (c # s) = split_ws (c # cur) s"
  by (subst split_ws.simps) (simp add: match_len_other)

lemma split_ws_blank:
  "c \<in> set ws_blanks \<Longrightarrow> split_ws cur (c # s) = (if cur = [] then [] else [rev cur]) @ split_ws [] s"
  by (subst split_ws.simps) (simp add: match_len_blank)

lemma ws_heads_eval: "set ws_heads = {CHR 0x09, CHR 0x0A, CHR 0x0B, CHR 0x0C, CHR 0x0D, CHR 0x20, CHR 0xC2,
    CHR 0xE1, CHR 0xE2, CHR 0xE3}"
  by (simp add: ws_heads_def ws_seqs_eval)

lemma ws_tails_eval: "ws_tails = [CHR 0x09, CHR 0x0A, CHR 0x0B, CHR 0x0C, CHR 0x0D, CHR 0x20, CHR 0x85, CHR 0xA0,
    CHR 0x80, CHR 0x80, CHR 0x81, CHR 0x82, CHR 0x83, CHR 0x84, CHR 0x85, CHR 0x86, CHR 0x87, CHR 0x88, CHR 0x89,
    CHR 0x8A, CHR 0xA8, CHR 0xA9, CHR 0xAF, CHR 0x9F, CHR 0x80]"
  by (simp add: ws_tails_def ws_seqs_eval)

lemma ws_blanks_eval: "set ws_blanks = {CHR 0x09, CHR 0x0A, CHR 0x0B, CHR 0x0C, CHR 0x0D, CHR 0x20}"
  by (simp add: ws_blanks_def)

lemmas str_eval = trim_literal not_blank_literal split_whitespace_def split_ws_Nil split_ws_other split_ws_blank
  ws_heads_eval ws_tails_eval ws_blanks_eval

end
