(* ===== verification/Uuid.thy ===== *)
theory Uuid
  imports Rust_Str
begin

text \<open>
  Identifiers and time. A \<open>Uuid\<close> is its 128-bit value: \<open>Ord\<close> compares the big-endian bytes,
  which is the order of the words. \<open>to_string\<close> is the hyphenated lower-case form; pagination
  compares identifiers in both forms, and \<open>uuid_to_string_less\<close> shows that the two orders are
  the same. A \<open>DateTime<Utc>\<close> is the number of nanoseconds since the epoch.
\<close>

type_synonym uuid = "128 word"
type_synonym datetime = int

definition days :: "nat \<Rightarrow> int" where
  "days d = int d * 86400000000000"

section \<open>Hexadecimal digits\<close>

definition hex_digit :: "nat \<Rightarrow> char" where
  "hex_digit d = char_of (if d < 10 then 48 + d else 87 + d)"

fun hex_digits :: "nat \<Rightarrow> nat \<Rightarrow> string" where
  "hex_digits 0 n = []"
| "hex_digits (Suc k) n = hex_digit (n div 16 ^ k mod 16) # hex_digits k (n mod 16 ^ k)"

text \<open>Groups of digits separated by hyphens, most significant first.\<close>

fun hex_groups :: "nat list \<Rightarrow> nat \<Rightarrow> string" where
  "hex_groups [] n = []"
| "hex_groups [j] n = hex_digits j n"
| "hex_groups (j # js) n =
     hex_digits j (n div 16 ^ sum_list js) @ ''-'' @ hex_groups js (n mod 16 ^ sum_list js)"

definition uuid_to_string :: "uuid \<Rightarrow> string" where
  "uuid_to_string u = hex_groups [8, 4, 4, 4, 12] (unat u)"

lemma length_hex_digits [simp]: "length (hex_digits k n) = k"
  by (induction k arbitrary: n) auto

lemma hex_digit_less:
  assumes "a < 16" and "b < 16"
  shows "hex_digit a < hex_digit b \<longleftrightarrow> a < b"
proof -
  have "of_char (hex_digit a) = (if a < 10 then 48 + a else 87 + a)"
    and "of_char (hex_digit b) = (if b < 10 then 48 + b else 87 + b)"
    using assms by (auto simp: hex_digit_def)
  then show ?thesis
    using assms by (auto simp: less_char_def)
qed

lemma hex_digit_inj: "a < 16 \<Longrightarrow> b < 16 \<Longrightarrow> hex_digit a = hex_digit b \<longleftrightarrow> a = b"
  by (metis hex_digit_less less_irrefl linorder_neqE_nat)

text \<open>Comparison of two numbers by quotient and remainder.\<close>

lemma less_by_div_mod:
  fixes m n d :: nat
  assumes "0 < d"
  shows "m < n \<longleftrightarrow> m div d < n div d \<or> (m div d = n div d \<and> m mod d < n mod d)"
proof
  assume "m < n"
  then have "m div d \<le> n div d" by (simp add: div_le_mono)
  moreover have "m mod d < n mod d" if "m div d = n div d"
    using \<open>m < n\<close> that by (metis div_mult_mod_eq nat_add_left_cancel_less)
  ultimately show "m div d < n div d \<or> (m div d = n div d \<and> m mod d < n mod d)" by auto
next
  assume *: "m div d < n div d \<or> (m div d = n div d \<and> m mod d < n mod d)"
  then show "m < n"
    by (metis div_le_mono div_mult_mod_eq nat_add_left_cancel_less not_less)
qed

lemma hex_digits_less:
  "m < 16 ^ k \<Longrightarrow> n < 16 ^ k \<Longrightarrow> hex_digits k m < hex_digits k n \<longleftrightarrow> m < n"
proof (induction k arbitrary: m n)
  case 0
  then show ?case by simp
next
  case (Suc k)
  have d: "m div 16 ^ k < 16" "n div 16 ^ k < 16"
    using Suc.prems by (auto simp: less_mult_imp_div_less mult.commute)
  have IH: "hex_digits k (m mod 16 ^ k) < hex_digits k (n mod 16 ^ k) \<longleftrightarrow> m mod 16 ^ k < n mod 16 ^ k"
    by (rule Suc.IH) simp_all
  show ?case
    using d IH less_by_div_mod [of "16 ^ k" m n] by (simp add: hex_digit_less hex_digit_inj)
qed

lemma hex_digits_inj:
  "m < 16 ^ k \<Longrightarrow> n < 16 ^ k \<Longrightarrow> hex_digits k m = hex_digits k n \<longleftrightarrow> m = n"
  by (metis hex_digits_less less_irrefl linorder_neqE_nat)

lemma append_less_append:
  fixes xs ys :: "'a :: linorder list"
  assumes "length xs = length ys"
  shows "xs @ us < ys @ vs \<longleftrightarrow> xs < ys \<or> (xs = ys \<and> us < vs)"
  using assms by (induction xs ys rule: list_induct2) auto

lemma hex_groups_less:
  "m < 16 ^ sum_list js \<Longrightarrow> n < 16 ^ sum_list js \<Longrightarrow> hex_groups js m < hex_groups js n \<longleftrightarrow> m < n"
proof (induction js m arbitrary: n rule: hex_groups.induct)
  case (3 j i js m)
  define k where "k = i + sum_list js"
  have b: "m div 16 ^ k < 16 ^ j" "n div 16 ^ k < 16 ^ j"
    using "3.prems" by (simp_all add: k_def less_mult_imp_div_less power_add)
  have "hex_groups (i # js) (m mod 16 ^ k) < hex_groups (i # js) (n mod 16 ^ k)
      \<longleftrightarrow> m mod 16 ^ k < n mod 16 ^ k"
    unfolding k_def using "3.IH" by simp
  with b show ?case
    using less_by_div_mod [of "16 ^ k" m n]
    by (simp add: append_less_append hex_digits_less hex_digits_inj flip: k_def)
qed (simp_all add: hex_digits_less)

lemma uuid_to_string_less: "uuid_to_string u < uuid_to_string v \<longleftrightarrow> u < v"
proof -
  have "unat u < 16 ^ 32" "unat v < 16 ^ 32"
    using unsigned_less [of u] unsigned_less [of v] by simp_all
  then have "uuid_to_string u < uuid_to_string v \<longleftrightarrow> unat u < unat v"
    unfolding uuid_to_string_def by (intro hex_groups_less) simp_all
  then show ?thesis by (simp add: word_less_nat_alt)
qed

lemma uuid_to_string_inj [simp]: "uuid_to_string u = uuid_to_string v \<longleftrightarrow> u = v"
  by (metis less_irrefl linorder_neqE uuid_to_string_less)

end
