(* ===== verification/Rust_F32.thy ===== *)
theory Rust_F32
  imports Complex_Main Prelude
begin

text \<open>
  IEEE 754 binary32 as the code uses it. A finite value is a rational number; every arithmetic
  operation computes the exact rational result and rounds it once, to nearest with ties to
  even, into the 24-bit significands with exponents from -126 (subnormal steps below) to 127,
  and to an infinity above. The two zeros are identified: no modelled operation divides by a
  negative zero or prints one.
\<close>

datatype f32 = NaN | NegInf | PosInf | Fin rat

section \<open>Rounding\<close>

text \<open>Round to the nearest integer, ties to even.\<close>

definition round_even :: "rat \<Rightarrow> int" where
  "round_even q =
     (let f = \<lfloor>q\<rfloor>; d = q - of_int f
      in if d < 1 / 2 then f else if 1 / 2 < d then f + 1 else if even f then f else f + 1)"

fun ilog2 :: "nat \<Rightarrow> nat" where
  "ilog2 n = (if n < 2 then 0 else Suc (ilog2 (n div 2)))"

declare ilog2.simps [simp del]

text \<open>The binary exponent of a positive rational: \<open>2^e \<le> r < 2^(e+1)\<close>.\<close>

definition exponent :: "rat \<Rightarrow> int" where
  "exponent r =
     (case quotient_of r of (p, q) \<Rightarrow>
        let e = int (ilog2 (nat p)) - int (ilog2 (nat q))
        in if 2 powi e \<le> r then e else e - 1)"

text \<open>The exponent of the last place of the significand.\<close>

definition ulp_exp :: "rat \<Rightarrow> int" where
  "ulp_exp r = max (exponent r) (- 126) - 23"

definition round_pos :: "rat \<Rightarrow> rat" where
  "round_pos r = of_int (round_even (r / 2 powi ulp_exp r)) * 2 powi ulp_exp r"

definition f32_of_rat :: "rat \<Rightarrow> f32" where
  "f32_of_rat r =
     (if r = 0 then Fin 0
      else if 0 < r then (if round_pos r < 2 ^ 128 then Fin (round_pos r) else PosInf)
      else (if round_pos (- r) < 2 ^ 128 then Fin (- round_pos (- r)) else NegInf))"

section \<open>Comparison\<close>

fun f32_lt :: "f32 \<Rightarrow> f32 \<Rightarrow> bool" where
  "f32_lt NaN _ = False"
| "f32_lt _ NaN = False"
| "f32_lt NegInf y = (y \<noteq> NegInf)"
| "f32_lt PosInf _ = False"
| "f32_lt (Fin _) NegInf = False"
| "f32_lt (Fin _) PosInf = True"
| "f32_lt (Fin a) (Fin b) = (a < b)"

definition f32_eq :: "f32 \<Rightarrow> f32 \<Rightarrow> bool" where
  "f32_eq x y \<longleftrightarrow> x \<noteq> NaN \<and> x = y"

definition f32_le :: "f32 \<Rightarrow> f32 \<Rightarrow> bool" where
  "f32_le x y \<longleftrightarrow> f32_lt x y \<or> f32_eq x y"

text \<open>\<open>a.partial_cmp(b).unwrap_or(Equal)\<close> is not \<open>Greater\<close>.\<close>

definition f32_cmp_le :: "f32 \<Rightarrow> f32 \<Rightarrow> bool" where
  "f32_cmp_le x y \<longleftrightarrow> \<not> f32_lt y x"

definition f32_is_finite :: "f32 \<Rightarrow> bool" where
  "f32_is_finite x \<longleftrightarrow> (case x of Fin _ \<Rightarrow> True | _ \<Rightarrow> False)"

text \<open>\<open>f32::clamp\<close>: NaN stays NaN.\<close>

definition f32_clamp :: "f32 \<Rightarrow> f32 \<Rightarrow> f32 \<Rightarrow> f32" where
  "f32_clamp x lo hi = (if f32_lt x lo then lo else if f32_lt hi x then hi else x)"

section \<open>Arithmetic\<close>

fun f32_neg :: "f32 \<Rightarrow> f32" where
  "f32_neg NaN = NaN"
| "f32_neg NegInf = PosInf"
| "f32_neg PosInf = NegInf"
| "f32_neg (Fin a) = Fin (- a)"

fun f32_add :: "f32 \<Rightarrow> f32 \<Rightarrow> f32" where
  "f32_add NaN _ = NaN"
| "f32_add _ NaN = NaN"
| "f32_add PosInf NegInf = NaN"
| "f32_add NegInf PosInf = NaN"
| "f32_add PosInf _ = PosInf"
| "f32_add _ PosInf = PosInf"
| "f32_add NegInf _ = NegInf"
| "f32_add _ NegInf = NegInf"
| "f32_add (Fin a) (Fin b) = f32_of_rat (a + b)"

definition f32_sub :: "f32 \<Rightarrow> f32 \<Rightarrow> f32" where
  "f32_sub x y = f32_add x (f32_neg y)"

definition signed_inf :: "rat \<Rightarrow> f32" where
  "signed_inf s = (if s = 0 then NaN else if 0 < s then PosInf else NegInf)"

definition f32_sgn :: "f32 \<Rightarrow> rat" where
  "f32_sgn x = (case x of NaN \<Rightarrow> 0 | NegInf \<Rightarrow> - 1 | PosInf \<Rightarrow> 1 | Fin a \<Rightarrow> sgn a)"

fun f32_mul :: "f32 \<Rightarrow> f32 \<Rightarrow> f32" where
  "f32_mul NaN _ = NaN"
| "f32_mul _ NaN = NaN"
| "f32_mul (Fin a) (Fin b) = f32_of_rat (a * b)"
| "f32_mul x y = signed_inf (f32_sgn x * f32_sgn y)"

fun f32_div :: "f32 \<Rightarrow> f32 \<Rightarrow> f32" where
  "f32_div NaN _ = NaN"
| "f32_div _ NaN = NaN"
| "f32_div (Fin a) (Fin b) = (if b = 0 then signed_inf a else f32_of_rat (a / b))"
| "f32_div (Fin a) _ = Fin 0"
| "f32_div x (Fin b) = signed_inf (f32_sgn x * (if b < 0 then - 1 else 1))"
| "f32_div _ _ = NaN"

text \<open>\<open>n as f32\<close> and the iterator's \<open>sum\<close>.\<close>

definition f32_of_nat :: "nat \<Rightarrow> f32" where
  "f32_of_nat n = f32_of_rat (of_nat n)"

definition f32_sum :: "f32 list \<Rightarrow> f32" where
  "f32_sum xs = foldl f32_add (Fin 0) xs"

section \<open>Square root\<close>

text \<open>
  \<open>isqrt n\<close> is the integer square root. \<open>f32::sqrt\<close> is correctly rounded: the radicand is scaled
  by an even power of two so that its root has more than 24 significant bits, and the last
  place records whether the root is exact (a sticky bit).
\<close>

fun isqrt :: "nat \<Rightarrow> nat" where
  "isqrt n = (if n = 0 then 0
     else let r = 2 * isqrt (n div 4) in if (r + 1) * (r + 1) \<le> n then r + 1 else r)"

declare isqrt.simps [simp del]

definition sqrt_scaled :: "rat \<Rightarrow> int \<Rightarrow> rat" where
  "sqrt_scaled r k =
     (let n = nat \<lfloor>r * 2 powi (2 * k)\<rfloor>; m = isqrt n
      in (of_nat m + (if of_nat (m * m) = r * 2 powi (2 * k) then 0 else 1 / 2)) / 2 powi k)"

fun f32_sqrt :: "f32 \<Rightarrow> f32" where
  "f32_sqrt NaN = NaN"
| "f32_sqrt NegInf = NaN"
| "f32_sqrt PosInf = PosInf"
| "f32_sqrt (Fin a) =
     (if a < 0 then NaN else if a = 0 then Fin 0 else f32_of_rat (sqrt_scaled a (30 - exponent a div 2)))"

section \<open>Order facts\<close>

lemma f32_le_refl [simp]: "x \<noteq> NaN \<Longrightarrow> f32_le x x"
  by (simp add: f32_le_def f32_eq_def)

lemma f32_le_Fin [simp]: "f32_le (Fin a) (Fin b) \<longleftrightarrow> a \<le> b"
  by (auto simp: f32_le_def f32_eq_def)

lemma f32_lt_Fin [simp]: "f32_lt (Fin a) (Fin b) \<longleftrightarrow> a < b"
  by simp

lemma f32_le_NaN [simp]: "\<not> f32_le NaN x" "\<not> f32_le x NaN"
  by (cases x; simp add: f32_le_def f32_eq_def)+

lemma f32_lt_NaN [simp]: "\<not> f32_lt x NaN"
  by (cases x) simp_all

lemma f32_lt_irrefl [simp]: "\<not> f32_lt x x"
  by (cases x) simp_all

lemma f32_lt_trans: "f32_lt x y \<Longrightarrow> f32_lt y z \<Longrightarrow> f32_lt x z"
  by (cases x; cases y; cases z) auto

lemma f32_le_trans: "f32_le x y \<Longrightarrow> f32_le y z \<Longrightarrow> f32_le x z"
  by (auto simp: f32_le_def f32_eq_def intro: f32_lt_trans)

lemma f32_lt_linear: "x \<noteq> NaN \<Longrightarrow> y \<noteq> NaN \<Longrightarrow> f32_lt x y \<or> x = y \<or> f32_lt y x"
  by (cases x; cases y) auto

lemma f32_le_iff_not_lt: "x \<noteq> NaN \<Longrightarrow> y \<noteq> NaN \<Longrightarrow> f32_le x y \<longleftrightarrow> \<not> f32_lt y x"
  by (cases x; cases y) (auto simp: f32_le_def f32_eq_def)

text \<open>Descending order of a float key is a total preorder where the key is a number.\<close>

lemma f32_cmp_total_preorder:
  "total_preorder_on {x. k x \<noteq> NaN} (\<lambda>a b. f32_cmp_le (k b) (k a))"
proof -
  have "f32_cmp_le a b \<or> f32_cmp_le b a" for a b
    by (cases a; cases b) (auto simp: f32_cmp_le_def)
  moreover have "f32_cmp_le a b \<Longrightarrow> f32_cmp_le b c \<Longrightarrow> b \<noteq> NaN \<Longrightarrow> f32_cmp_le a c" for a b c
    by (cases a; cases b; cases c) (auto simp: f32_cmp_le_def)
  ultimately show ?thesis
    unfolding total_preorder_on_def by blast
qed

lemma f32_clamp_range:
  assumes "x \<noteq> NaN" and "f32_le lo hi"
  shows "f32_le lo (f32_clamp x lo hi) \<and> f32_le (f32_clamp x lo hi) hi"
proof -
  have "lo \<noteq> NaN" "hi \<noteq> NaN"
    using assms(2) by auto
  with assms show ?thesis
    by (auto simp: f32_clamp_def f32_le_iff_not_lt)
qed

lemma f32_clamp_id: "f32_le lo x \<Longrightarrow> f32_le x hi \<Longrightarrow> f32_clamp x lo hi = x"
  by (metis f32_clamp_def f32_le_NaN f32_le_iff_not_lt)

section \<open>Rounding is monotone\<close>

lemma round_even_of_int [simp]: "round_even (of_int n) = n"
  by (simp add: round_even_def)

lemma round_even_floor: "round_even q = \<lfloor>q\<rfloor> \<or> round_even q = \<lfloor>q\<rfloor> + 1"
  by (simp add: round_even_def Let_def)

lemma round_even_mono: "p \<le> q \<Longrightarrow> round_even p \<le> round_even q"
proof -
  assume pq: "p \<le> q"
  then have fl: "\<lfloor>p\<rfloor> \<le> \<lfloor>q\<rfloor>" by (rule floor_mono)
  show ?thesis
  proof (cases "\<lfloor>p\<rfloor> = \<lfloor>q\<rfloor>")
    case True
    with pq show ?thesis
      by (auto simp: round_even_def Let_def)
  next
    case False
    with fl have "\<lfloor>p\<rfloor> + 1 \<le> \<lfloor>q\<rfloor>" by simp
    then show ?thesis
      using round_even_floor [of p] round_even_floor [of q] by linarith
  qed
qed

lemma round_even_le_int: "q \<le> of_int n \<Longrightarrow> round_even q \<le> n"
  using round_even_mono [of q "of_int n"] by simp

lemma round_even_ge_int: "of_int n \<le> q \<Longrightarrow> n \<le> round_even q"
  using round_even_mono [of "of_int n" q] by simp

lemma ilog2_bounds: "0 < n \<Longrightarrow> 2 ^ ilog2 n \<le> n \<and> n < 2 ^ Suc (ilog2 n)"
proof (induction n rule: ilog2.induct)
  case (1 n)
  show ?case
  proof (cases "n < 2")
    case True
    with "1.prems" show ?thesis
      by (simp add: ilog2.simps [of n])
  next
    case False
    with "1.IH" have "2 ^ ilog2 (n div 2) \<le> n div 2" "n div 2 < 2 ^ Suc (ilog2 (n div 2))"
      by auto
    moreover have "ilog2 n = Suc (ilog2 (n div 2))"
      using False by (simp add: ilog2.simps [of n])
    ultimately show ?thesis by (auto simp: field_simps)
  qed
qed

lemma powi_mono: "i \<le> j \<Longrightarrow> (2::rat) powi i \<le> 2 powi j"
  by (rule power_int_increasing) simp_all

lemma powi_pos [simp]: "0 < (2::rat) powi i"
  by simp

lemma exponent_bounds:
  assumes "0 < r"
  shows "2 powi exponent r \<le> r \<and> r < 2 powi (exponent r + 1)"
proof -
  obtain p q where pq: "quotient_of r = (p, q)"
    by (cases "quotient_of r")
  have r: "r = of_int p / of_int q" and q: "0 < q"
    using pq by (simp_all add: quotient_of_div quotient_of_denom_pos)
  with assms have p: "0 < p"
    by (simp add: zero_less_divide_iff)
  define a b where "a = ilog2 (nat p)" and "b = ilog2 (nat q)"
  have "2 ^ a \<le> nat p \<and> nat p < 2 ^ Suc a" "2 ^ b \<le> nat q \<and> nat q < 2 ^ Suc b"
    unfolding a_def b_def using p q by (simp_all only: ilog2_bounds zero_less_nat_eq)
  then have "2 ^ a \<le> p" "p < 2 ^ Suc a" "2 ^ b \<le> q" "q < 2 ^ Suc b"
    using p q by (auto simp: le_nat_iff nat_less_iff)
  then have pr: "(2::rat) ^ a \<le> of_int p" "of_int p < (2::rat) ^ Suc a"
    and qr: "(2::rat) ^ b \<le> of_int q" "of_int q < (2::rat) ^ Suc b"
    by (metis of_int_le_iff of_int_less_iff of_int_numeral of_int_power)+
  have hi: "r < 2 powi (int a - int b + 1)"
  proof -
    have "r < 2 ^ Suc a / 2 ^ b"
      unfolding r using pr qr q p by (intro frac_less) auto
    also have "\<dots> = 2 powi (int a - int b + 1)"
      by (simp add: power_int_add power_int_diff power_int_minus divide_inverse)
    finally show ?thesis .
  qed
  have lo: "2 powi (int a - int b - 1) \<le> r"
  proof -
    have "2 powi (int a - int b - 1) = (2::rat) ^ a / 2 ^ Suc b"
      by (simp add: power_int_diff)
    also have "\<dots> \<le> r"
      unfolding r using pr qr q p by (intro frac_le) auto
    finally show ?thesis .
  qed
  have "exponent r = (if 2 powi (int a - int b) \<le> r then int a - int b else int a - int b - 1)"
    by (simp add: exponent_def pq a_def b_def Let_def)
  then show ?thesis using lo hi by auto
qed

lemma exponent_mono: "0 < r \<Longrightarrow> r \<le> t \<Longrightarrow> exponent r \<le> exponent t"
proof (rule ccontr)
  assume r: "0 < r" and rt: "r \<le> t" and "\<not> exponent r \<le> exponent t"
  then have "exponent t + 1 \<le> exponent r" by simp
  then have "(2::rat) powi (exponent t + 1) \<le> 2 powi exponent r" by (rule powi_mono)
  also have "\<dots> \<le> r" using exponent_bounds [OF r] by simp
  also have "\<dots> \<le> t" by (rule rt)
  also have "\<dots> < 2 powi (exponent t + 1)" using exponent_bounds [of t] r rt by simp
  finally show False by simp
qed

lemma round_pos_upper:
  assumes "0 < r" and "r \<le> 2 powi (ulp_exp r + 24)"
  shows "round_pos r \<le> 2 powi (ulp_exp r + 24)"
proof -
  have "r / 2 powi ulp_exp r \<le> of_int (2 ^ 24)"
    using assms by (simp add: power_int_add pos_divide_le_eq)
  then have "round_even (r / 2 powi ulp_exp r) \<le> 2 ^ 24"
    by (rule round_even_le_int)
  then have "of_int (round_even (r / 2 powi ulp_exp r)) \<le> (2::rat) ^ 24"
    by (metis of_int_le_iff of_int_numeral of_int_power)
  then show ?thesis
    by (simp add: round_pos_def power_int_add)
qed

lemma round_pos_lower:
  assumes "0 < r" and "ulp_exp r = exponent r - 23"
  shows "2 powi exponent r \<le> round_pos r"
proof -
  have "of_int (2 ^ 23) \<le> r / 2 powi ulp_exp r"
    using assms exponent_bounds [of r] by (simp add: power_int_diff pos_le_divide_eq)
  then have "2 ^ 23 \<le> round_even (r / 2 powi ulp_exp r)"
    by (rule round_even_ge_int)
  then have "(2::rat) ^ 23 \<le> of_int (round_even (r / 2 powi ulp_exp r))"
    by (metis of_int_le_iff of_int_numeral of_int_power)
  then have "(2::rat) ^ 23 * 2 powi ulp_exp r \<le> round_pos r"
    by (simp add: round_pos_def)
  then show ?thesis
    using assms(2) by (simp add: power_int_diff)
qed

lemma round_pos_nonneg: "0 < r \<Longrightarrow> 0 \<le> round_pos r"
  using round_even_ge_int [of 0 "r / 2 powi ulp_exp r"] by (simp add: round_pos_def)

lemma round_pos_mono:
  assumes "0 < r" and "r \<le> t"
  shows "round_pos r \<le> round_pos t"
proof (cases "ulp_exp r = ulp_exp t")
  case True
  have "r / 2 powi ulp_exp t \<le> t / 2 powi ulp_exp t"
    using assms(2) by (simp add: divide_right_mono)
  then have "round_even (r / 2 powi ulp_exp t) \<le> round_even (t / 2 powi ulp_exp t)"
    by (rule round_even_mono)
  then show ?thesis
    by (simp add: round_pos_def True)
next
  case False
  have t: "0 < t" using assms by simp
  have "exponent r \<le> exponent t"
    using assms by (rule exponent_mono)
  with False have e: "ulp_exp t = exponent t - 23" "ulp_exp r + 24 \<le> exponent t"
    "exponent r + 1 \<le> ulp_exp r + 24"
    by (auto simp: ulp_exp_def max_def split: if_splits)
  have "r \<le> 2 powi (exponent r + 1)"
    using exponent_bounds [OF assms(1)] by simp
  also have "\<dots> \<le> 2 powi (ulp_exp r + 24)"
    using e(3) by (rule powi_mono)
  finally have "round_pos r \<le> 2 powi (ulp_exp r + 24)"
    using assms(1) by (intro round_pos_upper)
  also have "\<dots> \<le> 2 powi exponent t"
    using e(2) by (rule powi_mono)
  also have "\<dots> \<le> round_pos t"
    using t e(1) by (rule round_pos_lower)
  finally show ?thesis .
qed

lemma f32_of_rat_neq_NaN [simp]: "f32_of_rat r \<noteq> NaN"
  by (simp add: f32_of_rat_def)

text \<open>Rounding keeps the order, into the infinities too.\<close>

lemma f32_of_rat_mono: "r \<le> t \<Longrightarrow> f32_le (f32_of_rat r) (f32_of_rat t)"
proof -
  assume rt: "r \<le> t"
  consider "r < 0" "t < 0" | "r \<le> 0" "0 \<le> t" | "0 < r" "0 < t"
    using rt by linarith
  then show ?thesis
  proof cases
    case 1
    then have "round_pos (- t) \<le> round_pos (- r)"
      using rt by (intro round_pos_mono) auto
    with 1 show ?thesis
      by (auto simp: f32_of_rat_def f32_le_def f32_eq_def)
  next
    case 2
    then show ?thesis
      using round_pos_nonneg [of "- r"] round_pos_nonneg [of t]
      by (auto simp: f32_of_rat_def f32_le_def f32_eq_def)
  next
    case 3
    then have "round_pos r \<le> round_pos t"
      using rt by (intro round_pos_mono) auto
    with 3 show ?thesis
      by (auto simp: f32_of_rat_def f32_le_def f32_eq_def)
  qed
qed

lemma f32_of_rat_0 [simp]: "f32_of_rat 0 = Fin 0"
  by (simp add: f32_of_rat_def)

lemma f32_of_rat_1 [simp]: "f32_of_rat 1 = Fin 1"
  by code_simp

end
