(* ===== verification/Json.thy ===== *)
theory Json
  imports Rust_Str Rust_F32
begin

text \<open>
  \<open>serde_json::Value\<close>. Objects are maps ordered by key, here association lists; numbers are
  integers or finite floats.
\<close>

datatype json =
    JNull
  | JBool bool
  | JInt int
  | JFloat rat
  | JString string
  | JArray "json list"
  | JObject "(string \<times> json) list"

fun json_as_object :: "json \<Rightarrow> (string \<times> json) list option" where
  "json_as_object (JObject kvs) = Some kvs"
| "json_as_object _ = None"

text \<open>\<open>json!\<close> of an optional value.\<close>

definition json_opt :: "('a \<Rightarrow> json) \<Rightarrow> 'a option \<Rightarrow> json" where
  "json_opt f v = (case v of None \<Rightarrow> JNull | Some a \<Rightarrow> f a)"

end
