(* ===== verification/Common_Error.thy ===== *)
theory Common_Error
  imports Rust_Str
begin

text \<open>
  \<^verbatim>\<open>crates/memcore-common/src/error.rs\<close>: the error type every crate returns, its machine
  readable codes and its messages.
\<close>

datatype memcore_error =
    Unauthorized
  | Forbidden
  | BadRequest string
  | NotFound string
  | Conflict string
  | RateLimited
  | ProviderError string
  | StorageError string
  | MigrationError string
  | ValidationError string
  | Internal string
  | Timeout string
  | QuotaExceeded (qe_message: string) (qe_kind: string) (qe_limit: u64) (qe_current: u64)
      (qe_requested: u64)
  | ProviderGuardrailViolation (gv_code: string) (gv_message: string)

type_synonym 'a memcore_result = "memcore_error + 'a"

definition PROVIDER_TIMEOUT_MESSAGE :: string where
  "PROVIDER_TIMEOUT_MESSAGE = ''provider operation timed out''"

definition PROVIDER_CIRCUIT_OPEN_MESSAGE :: string where
  "PROVIDER_CIRCUIT_OPEN_MESSAGE = ''provider circuit is open''"

definition provider_timeout :: memcore_error where
  "provider_timeout = Timeout PROVIDER_TIMEOUT_MESSAGE"

fun is_provider_timeout :: "memcore_error \<Rightarrow> bool" where
  "is_provider_timeout (Timeout msg) = (msg = PROVIDER_TIMEOUT_MESSAGE)"
| "is_provider_timeout _ = False"

definition provider_circuit_open :: memcore_error where
  "provider_circuit_open = ProviderError PROVIDER_CIRCUIT_OPEN_MESSAGE"

fun is_provider_circuit_open :: "memcore_error \<Rightarrow> bool" where
  "is_provider_circuit_open (ProviderError msg) = (msg = PROVIDER_CIRCUIT_OPEN_MESSAGE)"
| "is_provider_circuit_open _ = False"

fun error_code :: "memcore_error \<Rightarrow> string" where
  "error_code Unauthorized = ''unauthorized''"
| "error_code Forbidden = ''forbidden''"
| "error_code (BadRequest _) = ''bad_request''"
| "error_code (NotFound _) = ''not_found''"
| "error_code (Conflict _) = ''conflict''"
| "error_code RateLimited = ''rate_limited''"
| "error_code (ProviderError msg) =
     (if msg = PROVIDER_CIRCUIT_OPEN_MESSAGE then ''provider_circuit_open'' else ''provider_error'')"
| "error_code (StorageError _) = ''storage_error''"
| "error_code (MigrationError _) = ''migration_error''"
| "error_code (ValidationError _) = ''validation_error''"
| "error_code (Internal _) = ''internal''"
| "error_code (Timeout msg) =
     (if msg = PROVIDER_TIMEOUT_MESSAGE then ''provider_timeout'' else ''timeout'')"
| "error_code (QuotaExceeded _ _ _ _ _) = ''quota_exceeded''"
| "error_code (ProviderGuardrailViolation _ _) = ''provider_guardrail_violation''"

text \<open>\<open>Display\<close>, which \<open>message\<close> returns.\<close>

fun error_message :: "memcore_error \<Rightarrow> string" where
  "error_message Unauthorized = ''unauthorized''"
| "error_message Forbidden = ''forbidden''"
| "error_message (BadRequest m) = ''bad request: '' @ m"
| "error_message (NotFound m) = ''not found: '' @ m"
| "error_message (Conflict m) = ''conflict: '' @ m"
| "error_message RateLimited = ''rate limited''"
| "error_message (ProviderError m) = ''provider error: '' @ m"
| "error_message (StorageError m) = ''storage error: '' @ m"
| "error_message (MigrationError m) = ''migration error: '' @ m"
| "error_message (ValidationError m) = ''validation error: '' @ m"
| "error_message (Internal m) = ''internal error: '' @ m"
| "error_message (Timeout m) = ''timeout: '' @ m"
| "error_message (QuotaExceeded m _ _ _ _) = ''quota exceeded: '' @ m"
| "error_message (ProviderGuardrailViolation _ m) = ''provider guardrail violation: '' @ m"

fun is_provider_guardrail_violation :: "memcore_error \<Rightarrow> bool" where
  "is_provider_guardrail_violation (ProviderGuardrailViolation _ _) = True"
| "is_provider_guardrail_violation _ = False"

fun is_not_found :: "memcore_error \<Rightarrow> bool" where
  "is_not_found (NotFound _) = True"
| "is_not_found _ = False"

lemma error_code_timeout_iff: "error_code e = ''provider_timeout'' \<longleftrightarrow> e = provider_timeout"
  by (cases e) (auto simp: provider_timeout_def)

lemma error_code_circuit_iff:
  "error_code e = ''provider_circuit_open'' \<longleftrightarrow> e = provider_circuit_open"
  by (cases e) (auto simp: provider_circuit_open_def)

end
