(* ===== verification/Models.thy ===== *)
theory Models
  imports Uuid Json Common_Error
begin

text \<open>
  The domain model: \<^verbatim>\<open>crates/memcore-core/src/models\<close> (facts, candidate facts, audit events,
  tenants, API keys and their validation).
\<close>

section \<open>Enumerations (\<open>memory.rs\<close>, \<open>event.rs\<close>, \<open>api_key.rs\<close>)\<close>

datatype memory_type =
  Profile | Preference | Project | Conversation | Task | Entity | Skill | MTSystem

datatype memory_source = UserMessage | AssistantMessage | ApiImport | Manual | MSSystem

datatype fact_operation = OpAdd | OpUpdate | OpDelete | OpNoOp | OpArchive | OpSummarize

datatype memory_event_operation = EvAdd | EvUpdate | EvDelete | EvNoOp | EvForgetUser

datatype api_key_scope =
  MemoryRead | MemoryWrite | MemoryDelete | UserDelete | AuditRead | AdminRead | AdminWrite

section \<open>Validation (\<open>validation.rs\<close>)\<close>

definition validate_non_empty :: "string \<Rightarrow> string \<Rightarrow> unit memcore_result" where
  "validate_non_empty field value =
     (if is_blank value then Inl (ValidationError (field @ '' cannot be empty'')) else Inr ())"

text \<open>\<open>(0.0..=1.0).contains(&value)\<close>; false of NaN.\<close>

definition in_unit_interval :: "f32 \<Rightarrow> bool" where
  "in_unit_interval v \<longleftrightarrow> f32_le (Fin 0) v \<and> f32_le v (Fin 1)"

definition validate_unit_interval :: "string \<Rightarrow> f32 \<Rightarrow> unit memcore_result" where
  "validate_unit_interval field value =
     (if \<not> in_unit_interval value
      then Inl (ValidationError (field @ '' must be between 0.0 and 1.0'')) else Inr ())"

lemma validate_non_empty_ok [result_simps]:
  "validate_non_empty field value = Inr u \<longleftrightarrow> \<not> is_blank value"
  by (simp add: validate_non_empty_def)

lemma validate_unit_interval_ok [result_simps]:
  "validate_unit_interval field value = Inr u \<longleftrightarrow> in_unit_interval value"
  by (simp add: validate_unit_interval_def)

section \<open>Tenants (\<open>tenant.rs\<close>)\<close>

record tenant_context =
  tc_org_id :: string
  tc_user_id :: string

definition tenant_new :: "string \<Rightarrow> string \<Rightarrow> tenant_context memcore_result" where
  "tenant_new org_id user_id =
     and_then (validate_non_empty ''org_id'' org_id) (\<lambda>_.
     and_then (validate_non_empty ''user_id'' user_id) (\<lambda>_.
     Inr \<lparr>tc_org_id = org_id, tc_user_id = user_id\<rparr>))"

section \<open>Facts (\<open>fact.rs\<close>)\<close>

record fact =
  f_id :: uuid
  f_org_id :: string
  f_user_id :: string
  f_memory_type :: memory_type
  f_content :: string
  f_summary :: "string option"
  f_source :: memory_source
  f_confidence :: f32
  f_importance :: f32
  f_valid_at :: "datetime option"
  f_invalid_at :: "datetime option"
  f_recorded_at :: datetime
  f_updated_at :: datetime
  f_metadata :: json

definition fact_new ::
  "uuid \<Rightarrow> string \<Rightarrow> string \<Rightarrow> memory_type \<Rightarrow> string \<Rightarrow> string option \<Rightarrow> memory_source \<Rightarrow> f32 \<Rightarrow> f32 \<Rightarrow>
   datetime option \<Rightarrow> datetime option \<Rightarrow> datetime \<Rightarrow> datetime \<Rightarrow> json \<Rightarrow> fact memcore_result" where
  "fact_new uid org_id user_id memory_type content summary source confidence importance
      valid_at invalid_at recorded_at updated_at metadata =
     and_then (validate_non_empty ''org_id'' org_id) (\<lambda>_.
     and_then (validate_non_empty ''user_id'' user_id) (\<lambda>_.
     and_then (validate_non_empty ''content'' content) (\<lambda>_.
     and_then (validate_unit_interval ''confidence'' confidence) (\<lambda>_.
     and_then (validate_unit_interval ''importance'' importance) (\<lambda>_.
     Inr \<lparr>f_id = uid, f_org_id = org_id, f_user_id = user_id, f_memory_type = memory_type,
          f_content = content, f_summary = summary, f_source = source,
          f_confidence = confidence, f_importance = importance, f_valid_at = valid_at,
          f_invalid_at = invalid_at, f_recorded_at = recorded_at, f_updated_at = updated_at,
          f_metadata = metadata\<rparr>)))))"

record candidate_fact =
  c_content :: string
  c_memory_type :: memory_type
  c_confidence :: f32
  c_importance :: f32
  c_valid_at :: "datetime option"
  c_metadata :: json

definition candidate_new ::
  "string \<Rightarrow> memory_type \<Rightarrow> f32 \<Rightarrow> f32 \<Rightarrow> datetime option \<Rightarrow> json \<Rightarrow> candidate_fact memcore_result" where
  "candidate_new content memory_type confidence importance valid_at metadata =
     and_then (validate_non_empty ''content'' content) (\<lambda>_.
     and_then (validate_unit_interval ''confidence'' confidence) (\<lambda>_.
     and_then (validate_unit_interval ''importance'' importance) (\<lambda>_.
     Inr \<lparr>c_content = content, c_memory_type = memory_type, c_confidence = confidence,
          c_importance = importance, c_valid_at = valid_at, c_metadata = metadata\<rparr>)))"

record fact_operation_decision =
  d_operation :: fact_operation
  d_target_fact_id :: "uuid option"
  d_reason :: "string option"
  d_confidence :: f32

record memory_search_result =
  r_fact_id :: uuid
  r_content :: string
  r_memory_type :: memory_type
  r_score :: f32
  r_confidence :: f32
  r_importance :: f32
  r_valid_at :: "datetime option"
  r_metadata :: json

text \<open>The invariant that \<open>Fact::new\<close> establishes.\<close>

definition fact_valid :: "fact \<Rightarrow> bool" where
  "fact_valid f \<longleftrightarrow> \<not> is_blank (f_org_id f) \<and> \<not> is_blank (f_user_id f) \<and> \<not> is_blank (f_content f) \<and>
     in_unit_interval (f_confidence f) \<and> in_unit_interval (f_importance f)"

lemma fact_new_valid:
  "fact_new i org usr mt ct sm src cf im va ia ra ua md = Inr f \<Longrightarrow>
     fact_valid f \<and> f_id f = i \<and> f_org_id f = org \<and> f_user_id f = usr \<and> f_content f = ct \<and>
     f_memory_type f = mt \<and> f_updated_at f = ua \<and> f_metadata f = md"
  by (auto simp: fact_new_def fact_valid_def result_simps)

lemma fact_new_ok:
  "is_ok (fact_new i org usr mt ct sm src cf im va ia ra ua md) \<longleftrightarrow>
     \<not> is_blank org \<and> \<not> is_blank usr \<and> \<not> is_blank ct \<and> in_unit_interval cf \<and> in_unit_interval im"
  by (simp add: fact_new_def is_ok_iff result_simps)

lemma in_unit_interval_not_NaN [simp]: "\<not> in_unit_interval NaN"
  by (simp add: in_unit_interval_def)

section \<open>Audit events (\<open>event.rs\<close>)\<close>

record memory_event =
  e_id :: uuid
  e_org_id :: string
  e_user_id :: string
  e_fact_id :: "uuid option"
  e_operation :: memory_event_operation
  e_input_text :: "string option"
  e_previous_content :: "string option"
  e_new_content :: "string option"
  e_provider_name :: "string option"
  e_model_name :: "string option"
  e_metadata :: json
  e_created_at :: datetime

text \<open>The fresh identifier and the clock reading are arguments; \<open>input_text\<close> is never stored.\<close>

definition memory_event_new ::
  "uuid \<Rightarrow> datetime \<Rightarrow> string \<Rightarrow> string \<Rightarrow> uuid option \<Rightarrow> memory_event_operation \<Rightarrow> string option \<Rightarrow>
   string option \<Rightarrow> string option \<Rightarrow> string option \<Rightarrow> json \<Rightarrow> memory_event" where
  "memory_event_new uid now org_id user_id fact_id operation previous_content new_content
      provider_name model_name metadata =
     \<lparr>e_id = uid, e_org_id = org_id, e_user_id = user_id, e_fact_id = fact_id,
      e_operation = operation, e_input_text = None, e_previous_content = previous_content,
      e_new_content = new_content, e_provider_name = provider_name, e_model_name = model_name,
      e_metadata = metadata, e_created_at = now\<rparr>"

section \<open>API keys (\<open>api_key.rs\<close>)\<close>

record api_key_record =
  k_id :: uuid
  k_org_id :: string
  k_name :: string
  k_key_hash :: string
  k_scopes :: "api_key_scope list"
  k_created_at :: datetime
  k_revoked_at :: "datetime option"

definition is_active :: "api_key_record \<Rightarrow> bool" where
  "is_active k \<longleftrightarrow> k_revoked_at k = None"

end
