(* ===== verification/Pagination.thy ===== *)
theory Pagination
  imports Models
begin

text \<open>
  \<^verbatim>\<open>crates/memcore-core/src/pagination\<close>: forward-only pagination in descending order. The JSON
  and base64 codecs belong to other crates and are the fields of a \<open>codec\<close> record, a parameter
  of every definition that uses them. A Rust panic is a value: \<open>fault\<close> is either an error the
  code returns or a panic.

  The locale \<open>page_order\<close> is the contract between a store and the pagination code: the store
  sorts with its own comparison, the cursor filter compares rendered identifiers, and the two
  must be the same order. Under that contract, following the cursors visits every matching item
  exactly once and in order.
\<close>

section \<open>Failures\<close>

datatype fault = Err memcore_error | Panic

type_synonym 'a outcome = "fault + 'a"

definition lift_err :: "'a memcore_result \<Rightarrow> 'a outcome" where
  "lift_err r = (case r of Inl e \<Rightarrow> Inl (Err e) | Inr a \<Rightarrow> Inr a)"

lemma lift_err_simps [simp]:
  "lift_err (Inl e) = Inl (Err e)"
  "lift_err (Inr a) = Inr a"
  by (simp_all add: lift_err_def)

lemma lift_err_eq_Inr [result_simps]: "lift_err r = Inr a \<longleftrightarrow> r = Inr a"
  by (cases r) auto

lemma lift_err_eq_Inl [result_simps]: "lift_err r = Inl e \<longleftrightarrow> (\<exists>e'. e = Err e' \<and> r = Inl e')"
  by (cases r) auto

lemma lift_err_no_panic [simp]: "lift_err r \<noteq> Inl Panic"
  by (cases r) auto

section \<open>Cursors (\<open>types.rs\<close>, \<open>cursor.rs\<close>)\<close>

record page_cursor =
  last_id :: string
  last_sort_value :: datetime

record 'a page =
  p_items :: "'a list"
  p_next_cursor :: "string option"

record codec =
  to_json :: "page_cursor \<Rightarrow> string + string"
  from_json :: "string \<Rightarrow> page_cursor option"
  b64_encode :: "string \<Rightarrow> string"
  b64_decode :: "string \<Rightarrow> string option"

definition INVALID_CURSOR_MESSAGE :: string where
  "INVALID_CURSOR_MESSAGE = ''invalid cursor''"

definition page_fetch_limit :: "nat \<Rightarrow> nat" where
  "page_fetch_limit limit = usize_saturating_add limit 1"

definition is_after_cursor_in_desc_order :: "datetime \<Rightarrow> string \<Rightarrow> page_cursor \<Rightarrow> bool" where
  "is_after_cursor_in_desc_order sort_value ident cursor \<longleftrightarrow>
     sort_value < last_sort_value cursor \<or>
     (sort_value = last_sort_value cursor \<and> ident < last_id cursor)"

definition encode_cursor :: "codec \<Rightarrow> page_cursor \<Rightarrow> string memcore_result" where
  "encode_cursor cd cursor =
     (case to_json cd cursor of
        Inl err \<Rightarrow> Inl (Internal (''failed to encode cursor: '' @ err))
      | Inr j \<Rightarrow> Inr (b64_encode cd j))"

definition decode_cursor :: "codec \<Rightarrow> string \<Rightarrow> page_cursor memcore_result" where
  "decode_cursor cd cursor =
     (let trimmed = trim cursor in
      if trimmed = [] then Inl (ValidationError INVALID_CURSOR_MESSAGE)
      else case b64_decode cd trimmed of
             None \<Rightarrow> Inl (ValidationError INVALID_CURSOR_MESSAGE)
           | Some bs \<Rightarrow> (case from_json cd bs of
                 None \<Rightarrow> Inl (ValidationError INVALID_CURSOR_MESSAGE)
               | Some c \<Rightarrow> Inr c))"

definition parse_optional_cursor :: "codec \<Rightarrow> string option \<Rightarrow> page_cursor option memcore_result" where
  "parse_optional_cursor cd cursor =
     (case cursor of
        None \<Rightarrow> Inr None
      | Some value \<Rightarrow>
          if is_blank value then Inr None
          else and_then (decode_cursor cd value) (\<lambda>c. Inr (Some c)))"

text \<open>\<open>build_page\<close> panics when it has to cut a page of limit 0.\<close>

definition build_page ::
  "codec \<Rightarrow> 'a list \<Rightarrow> nat \<Rightarrow> ('a \<Rightarrow> page_cursor) \<Rightarrow> 'a page outcome" where
  "build_page cd items limit to_cursor =
     (if limit < length items then
        (let kept = take limit items in
         if kept = [] then Inl Panic
         else and_then (lift_err (encode_cursor cd (to_cursor (last kept)))) (\<lambda>next.
              Inr \<lparr>p_items = kept, p_next_cursor = Some next\<rparr>))
      else Inr \<lparr>p_items = items, p_next_cursor = None\<rparr>)"

text \<open>What the code relies on of the codecs, for one cursor.\<close>

definition codec_roundtrips :: "codec \<Rightarrow> page_cursor \<Rightarrow> bool" where
  "codec_roundtrips cd c \<longleftrightarrow>
     (\<exists>j. to_json cd c = Inr j \<and> b64_encode cd j \<noteq> [] \<and> trim (b64_encode cd j) = b64_encode cd j \<and>
          b64_decode cd (b64_encode cd j) = Some j \<and> from_json cd j = Some c)"

lemma parse_encode_cursor:
  assumes "codec_roundtrips cd c"
  shows "\<exists>s. encode_cursor cd c = Inr s \<and> parse_optional_cursor cd (Some s) = Inr (Some c)"
proof -
  from assms obtain j where j: "to_json cd c = Inr j" "b64_encode cd j \<noteq> []"
    "trim (b64_encode cd j) = b64_encode cd j" "b64_decode cd (b64_encode cd j) = Some j"
    "from_json cd j = Some c"
    by (auto simp: codec_roundtrips_def)
  then show ?thesis
    by (intro exI [where x = "b64_encode cd j"])
      (simp add: encode_cursor_def parse_optional_cursor_def decode_cursor_def is_blank_def)
qed

lemma parse_optional_cursor_errors:
  "parse_optional_cursor cd v = Inl e \<Longrightarrow> e = ValidationError INVALID_CURSOR_MESSAGE"
  by (auto simp: parse_optional_cursor_def decode_cursor_def Let_def result_simps
      split: option.splits if_splits)

lemma build_page_no_panic: "0 < limit \<Longrightarrow> build_page cd items limit f \<noteq> Inl Panic"
  by (auto simp: build_page_def Let_def result_simps)

lemma build_page_items:
  "build_page cd items limit f = Inr p \<Longrightarrow>
     p_items p = take limit items \<and> (p_next_cursor p = None \<longleftrightarrow> length items \<le> limit)"
  by (auto simp: build_page_def Let_def result_simps split: if_splits)

lemma build_page_cursor:
  "build_page cd items limit f = Inr p \<Longrightarrow> p_next_cursor p = Some c \<Longrightarrow>
     p_items p \<noteq> [] \<and> encode_cursor cd (f (last (p_items p))) = Inr c"
  by (auto simp: build_page_def Let_def result_simps split: if_splits)

lemma page_fetch_limit_eq: "limit < usize_max \<Longrightarrow> page_fetch_limit limit = Suc limit"
  by (simp add: page_fetch_limit_def usize_saturating_add_def)

section \<open>Following the cursors\<close>

text \<open>
  A client that starts without a cursor and repeats the request with the cursor of the last item
  it got, until a page is not full. \<open>fetch\<close> is the store's over-fetching query.
\<close>

fun page_walk ::
  "(page_cursor option \<Rightarrow> 'a list) \<Rightarrow> ('a \<Rightarrow> page_cursor) \<Rightarrow> nat \<Rightarrow> nat \<Rightarrow> page_cursor option \<Rightarrow> 'a list" where
  "page_walk fetch to_cursor limit 0 c = []"
| "page_walk fetch to_cursor limit (Suc n) c =
     (let items = fetch c in
      if limit < length items
      then take limit items @
           page_walk fetch to_cursor limit n (Some (to_cursor (last (take limit items))))
      else items)"

text \<open>A stable sort commutes with a filter.\<close>

lemma insert_by_filter:
  assumes tp: "total_preorder le" and so: "sorted_wrt le ys"
  shows "filter P (insert_by le x ys) = (if P x then insert_by le x (filter P ys) else filter P ys)"
  using so
proof (induction ys)
  case Nil
  then show ?case by simp
next
  case (Cons y ys)
  have front: "insert_by le x zs = x # zs" if "\<forall>z\<in>set zs. le x z" for zs
    using that by (cases zs) auto
  show ?case
  proof (cases "le x y")
    case True
    have "\<forall>z\<in>set (filter P ys). le x z"
      using True Cons.prems tp by (auto simp: total_preorder_def)
    then have "insert_by le x (filter P ys) = x # filter P ys"
      by (rule front)
    with True show ?thesis by auto
  next
    case False
    with Cons show ?thesis by auto
  qed
qed

lemma sort_by_filter: "total_preorder le \<Longrightarrow> sort_by le (filter P xs) = filter P (sort_by le xs)"
  by (induction xs) (auto simp: insert_by_filter sorted_wrt_sort_by)

locale page_order =
  fixes sort_value :: "'a \<Rightarrow> datetime"
    and ident :: "'a \<Rightarrow> string"
    and le :: "'a \<Rightarrow> 'a \<Rightarrow> bool"
  assumes le_iff: "le x y \<longleftrightarrow> sort_value y < sort_value x \<or> (sort_value x = sort_value y \<and> ident y \<le> ident x)"
begin

lemma le_total_preorder: "total_preorder le"
  by (auto simp: total_preorder_def le_iff)

lemma after_iff:
  "is_after_cursor_in_desc_order (sort_value y) (ident y) \<lparr>last_id = ident x, last_sort_value = sort_value x\<rparr>
     \<longleftrightarrow> \<not> le y x"
  by (auto simp: is_after_cursor_in_desc_order_def le_iff)

lemma filter_after_nth:
  assumes "sorted_wrt le xs" and "distinct (map ident xs)" and "n < length xs"
  shows "filter (\<lambda>y. \<not> le y (xs ! n)) xs = drop (Suc n) xs"
proof -
  let ?P = "\<lambda>y. \<not> le y (xs ! n)"
  have split: "xs = take (Suc n) xs @ drop (Suc n) xs" by simp
  have "filter ?P (take (Suc n) xs) = []"
  proof (clarsimp simp: filter_empty_conv)
    fix y assume "y \<in> set (take (Suc n) xs)"
    then obtain i where i: "i \<le> n" "y = xs ! i"
      using assms(3) by (auto simp: in_set_conv_nth less_Suc_eq_le)
    show "le y (xs ! n)"
    proof (cases "i = n")
      case True
      then show ?thesis using i by (simp add: le_iff)
    next
      case False
      then show ?thesis
        using i assms(1,3) by (simp add: sorted_wrt_iff_nth_less)
    qed
  qed
  moreover have "filter ?P (drop (Suc n) xs) = drop (Suc n) xs"
  proof (clarsimp simp: filter_id_conv)
    fix y assume "y \<in> set (drop (Suc n) xs)" and le: "le y (xs ! n)"
    then obtain i where "i < length (drop (Suc n) xs)" "y = drop (Suc n) xs ! i"
      by (auto simp: in_set_conv_nth)
    then obtain j where j: "n < j" "j < length xs" "y = xs ! j"
      by (intro that [of "Suc n + i"]) auto
    then have "le (xs ! n) y"
      using assms(1) by (simp add: sorted_wrt_iff_nth_less)
    with le have "ident y = ident (xs ! n)"
      by (auto simp: le_iff)
    then have "map ident xs ! j = map ident xs ! n"
      using j assms(3) by simp
    then have "j = n"
      using nth_eq_iff_index_eq [OF assms(2), of j n] j assms(3) by simp
    with j show False by simp
  qed
  ultimately show ?thesis
    by (metis append_Nil filter_append split)
qed

text \<open>From position \<open>k\<close> on, the walk returns the rest of the sorted list.\<close>

lemma page_walk_from:
  assumes "sorted_wrt le xs" and "distinct (map ident xs)" and "0 < limit" and "limit < usize_max"
    and fetch: "\<And>c. fetch c = take (page_fetch_limit limit)
      (filter (\<lambda>x. case c of None \<Rightarrow> True | Some c \<Rightarrow>
         is_after_cursor_in_desc_order (sort_value x) (ident x) c) xs)"
    and cur: "to_cursor = (\<lambda>x. \<lparr>last_id = ident x, last_sort_value = sort_value x\<rparr>)"
  shows "length xs - k < fuel \<Longrightarrow> k \<le> length xs \<Longrightarrow>
    (c = None \<and> k = 0 \<or> (0 < k \<and> c = Some (to_cursor (xs ! (k - 1))))) \<Longrightarrow>
    page_walk fetch to_cursor limit fuel c = drop k xs"
proof (induction fuel arbitrary: k c)
  case 0
  then show ?case by simp
next
  case (Suc fuel)
  have rest: "filter (\<lambda>x. case c of None \<Rightarrow> True | Some c \<Rightarrow>
       is_after_cursor_in_desc_order (sort_value x) (ident x) c) xs = drop k xs"
  proof (cases "k = 0")
    case True
    with Suc.prems(3) show ?thesis by simp
  next
    case False
    with Suc.prems(2,3) filter_after_nth [OF assms(1,2), of "k - 1"] show ?thesis
      by (simp add: cur after_iff)
  qed
  have items: "fetch c = take (Suc limit) (drop k xs)"
    by (simp only: fetch rest page_fetch_limit_eq [OF assms(4)])
  show ?case
  proof (cases "limit < length (drop k xs)")
    case False
    then show ?thesis by (simp add: items Let_def)
  next
    case True
    have full: "limit < length (fetch c)"
      using True by (simp add: items)
    have kept: "take limit (fetch c) = take limit (drop k xs)"
      by (simp add: items min_def)
    have lst: "last (take limit (drop k xs)) = xs ! (k + limit - 1)"
      using True assms(3) by (subst last_conv_nth) (auto simp: min_def)
    have "page_walk fetch to_cursor limit fuel (Some (to_cursor (xs ! (k + limit - 1))))
        = drop (k + limit) xs"
      using Suc.prems True assms(3) by (intro Suc.IH) auto
    then have "page_walk fetch to_cursor limit (Suc fuel) c = take limit (drop k xs) @ drop (k + limit) xs"
      using full by (simp add: Let_def kept lst)
    then show ?thesis
      by (metis add.commute append_take_drop_id drop_drop)
  qed
qed

lemma page_walk_complete:
  assumes "distinct (map ident base)" and "0 < limit" and "limit < usize_max"
    and "\<And>c. fetch c = take (page_fetch_limit limit) (sort_by le
      (filter (\<lambda>x. case c of None \<Rightarrow> True | Some c \<Rightarrow>
         is_after_cursor_in_desc_order (sort_value x) (ident x) c) base))"
    and "length base < fuel"
  shows "page_walk fetch (\<lambda>x. \<lparr>last_id = ident x, last_sort_value = sort_value x\<rparr>) limit fuel None
      = sort_by le base"
proof -
  have "mset (map ident (sort_by le base)) = mset (map ident base)"
    by simp
  then have d: "distinct (map ident (sort_by le base))"
    using assms(1) mset_eq_imp_distinct_iff by blast
  have "page_walk fetch (\<lambda>x. \<lparr>last_id = ident x, last_sort_value = sort_value x\<rparr>) limit fuel None
      = drop 0 (sort_by le base)"
    using assms(2,3,5) d
    by (intro page_walk_from [where k = 0])
      (auto simp: assms(4) sort_by_filter [OF le_total_preorder] sorted_wrt_sort_by [OF le_total_preorder])
  then show ?thesis by simp
qed

end

end
