(* ===== verification/Fact_Store.thy ===== *)
theory Fact_Store
  imports Pagination
begin

text \<open>
  The fact store: the \<open>FactStore\<close> port of \<^verbatim>\<open>crates/memcore-core/src/ports/storage.rs\<close> and its
  in-memory implementation \<open>MockFactStore\<close> of \<^verbatim>\<open>crates/memcore-storage/src/mocks.rs\<close>.
  Every operation takes the store and returns its result with the new store.

  \<open>active_facts s t\<close> is what the port promises to a tenant \<open>t\<close>: a partial map from identifiers to
  the tenant's facts that are not deleted. The locale \<open>fact_store_port\<close> states each operation in
  terms of that map; the interpretation \<open>mock_facts\<close> discharges the laws for the implementation.
\<close>

section \<open>Queries (\<open>ports/storage.rs\<close>, \<open>keyword_search.rs\<close>)\<close>

record retention_prune_result =
  prune_count :: nat
  prune_fact_ids :: "uuid list"

record org_user_summary =
  u_user_id :: string
  u_memory_count :: nat
  u_last_memory_at :: "datetime option"

record fact_search_query =
  q_tenant :: tenant_context
  q_memory_types :: "memory_type list option"
  q_query_text :: "string option"
  q_limit :: nat
  q_cursor :: "page_cursor option"
  q_include_deleted :: bool

definition fact_search_query_new :: "tenant_context \<Rightarrow> nat \<Rightarrow> fact_search_query" where
  "fact_search_query_new tenant limit =
     \<lparr>q_tenant = tenant, q_memory_types = None, q_query_text = None, q_limit = limit,
      q_cursor = None, q_include_deleted = False\<rparr>"

record org_user_list_query =
  ou_org_id :: string
  ou_limit :: nat
  ou_cursor :: "page_cursor option"

definition contains_case_insensitive :: "string \<Rightarrow> string \<Rightarrow> bool" where
  "contains_case_insensitive haystack needle \<longleftrightarrow>
     contains (to_ascii_lowercase haystack) (to_ascii_lowercase needle)"

definition optional_contains :: "string option \<Rightarrow> string \<Rightarrow> bool" where
  "optional_contains haystack needle \<longleftrightarrow>
     (case haystack of None \<Rightarrow> False | Some value \<Rightarrow> contains_case_insensitive value needle)"

definition is_none_or :: "'a option \<Rightarrow> ('a \<Rightarrow> bool) \<Rightarrow> bool" where
  "is_none_or v p \<longleftrightarrow> (case v of None \<Rightarrow> True | Some a \<Rightarrow> p a)"

lemma is_none_or_simps [simp]:
  "is_none_or None p" "is_none_or (Some a) p = p a"
  by (simp_all add: is_none_or_def)

section \<open>The store (\<open>MockFactStore\<close>)\<close>

record mock_fact_store =
  fs_facts :: "(uuid, fact) hash_map"
  fs_deleted :: "uuid set"

definition fact_store_new :: mock_fact_store where
  "fact_store_new = \<lparr>fs_facts = [], fs_deleted = {}\<rparr>"

definition fact_matches_tenant :: "fact \<Rightarrow> tenant_context \<Rightarrow> bool" where
  "fact_matches_tenant f t \<longleftrightarrow> f_org_id f = tc_org_id t \<and> f_user_id f = tc_user_id t"

definition ensure_fact_tenant :: "fact \<Rightarrow> tenant_context \<Rightarrow> unit memcore_result" where
  "ensure_fact_tenant f t = (if fact_matches_tenant f t then Inr () else Inl Forbidden)"

type_synonym 'a fact_op = "(mock_fact_store, memcore_error, 'a) comp"

definition insert_fact :: "tenant_context \<Rightarrow> fact \<Rightarrow> fact fact_op" where
  "insert_fact t f s =
     (case ensure_fact_tenant f t of
        Inl e \<Rightarrow> (Inl e, s)
      | Inr _ \<Rightarrow>
          if map_of (fs_facts s) (f_id f) \<noteq> None
          then (Inl (Conflict (''fact already exists: '' @ uuid_to_string (f_id f))), s)
          else (Inr f, s\<lparr>fs_facts := AList.update (f_id f) f (fs_facts s)\<rparr>))"

definition update_fact :: "tenant_context \<Rightarrow> fact \<Rightarrow> fact fact_op" where
  "update_fact t f s =
     (case ensure_fact_tenant f t of
        Inl e \<Rightarrow> (Inl e, s)
      | Inr _ \<Rightarrow>
          (case map_of (fs_facts s) (f_id f) of
             None \<Rightarrow> (Inl (NotFound (''fact not found: '' @ uuid_to_string (f_id f))), s)
           | Some existing \<Rightarrow>
               if \<not> fact_matches_tenant existing t then (Inl Forbidden, s)
               else (Inr f, s\<lparr>fs_facts := AList.update (f_id f) f (fs_facts s)\<rparr>)))"

definition get_fact :: "tenant_context \<Rightarrow> uuid \<Rightarrow> fact option fact_op" where
  "get_fact t i s =
     (case map_of (fs_facts s) i of
        None \<Rightarrow> (Inr None, s)
      | Some f \<Rightarrow>
          if \<not> fact_matches_tenant f t then (Inr None, s)
          else if i \<in> fs_deleted s then (Inr None, s)
          else (Inr (Some f), s))"

definition fact_query_hits :: "fact_search_query \<Rightarrow> fact \<Rightarrow> bool" where
  "fact_query_hits q f \<longleftrightarrow>
     fact_matches_tenant f (q_tenant q) \<and>
     is_none_or (q_memory_types q) (\<lambda>types. f_memory_type f \<in> set types) \<and>
     is_none_or (q_query_text q) (\<lambda>text.
       contains_case_insensitive (f_content f) text \<or> optional_contains (f_summary f) text)"

definition fact_query_matches :: "mock_fact_store \<Rightarrow> fact_search_query \<Rightarrow> fact \<Rightarrow> bool" where
  "fact_query_matches s q f \<longleftrightarrow>
     fact_query_hits q f \<and> (q_include_deleted q \<or> f_id f \<notin> fs_deleted s)"

definition fact_desc_le :: "fact \<Rightarrow> fact \<Rightarrow> bool" where
  "fact_desc_le = lex_le (\<lambda>a b. f_updated_at b \<le> f_updated_at a) (\<lambda>a b. f_id b \<le> f_id a)"

definition fact_after_cursor :: "page_cursor option \<Rightarrow> fact \<Rightarrow> bool" where
  "fact_after_cursor c f \<longleftrightarrow> is_none_or c
     (is_after_cursor_in_desc_order (f_updated_at f) (uuid_to_string (f_id f)))"

definition search_facts :: "fact_search_query \<Rightarrow> fact list fact_op" where
  "search_facts q s =
     (Inr (take (page_fetch_limit (q_limit q))
        (sort_by fact_desc_le
          (filter (fact_after_cursor (q_cursor q))
            (filter (fact_query_matches s q) (hm_values (fs_facts s)))))), s)"

definition soft_delete_fact :: "tenant_context \<Rightarrow> uuid \<Rightarrow> unit fact_op" where
  "soft_delete_fact t i s =
     (case map_of (fs_facts s) i of
        None \<Rightarrow> (Inl (NotFound (''fact not found: '' @ uuid_to_string i)), s)
      | Some f \<Rightarrow>
          if \<not> fact_matches_tenant f t then (Inl Forbidden, s)
          else (Inr (), s\<lparr>fs_deleted := insert i (fs_deleted s)\<rparr>))"

definition not_of_tenant :: "tenant_context \<Rightarrow> fact \<Rightarrow> bool" where
  "not_of_tenant t f \<longleftrightarrow> (f_org_id f, f_user_id f) \<noteq> (tc_org_id t, tc_user_id t)"

definition delete_user_data :: "tenant_context \<Rightarrow> unit fact_op" where
  "delete_user_data t s =
     (let facts = hm_retain (\<lambda>_. not_of_tenant t) (fs_facts s);
          remaining_ids = set (map fst facts)
      in (Inr (), s\<lparr>fs_facts := facts, fs_deleted := {i \<in> fs_deleted s. i \<in> remaining_ids}\<rparr>))"

definition delete_facts_older_than ::
  "tenant_context \<Rightarrow> datetime \<Rightarrow> bool \<Rightarrow> retention_prune_result fact_op" where
  "delete_facts_older_than t cutoff dry_run s =
     (let matching_ids = map f_id
            (filter (\<lambda>f. fact_matches_tenant f t \<and> f_id f \<notin> fs_deleted s \<and> f_updated_at f < cutoff)
              (hm_values (fs_facts s)))
      in if dry_run then (Inr \<lparr>prune_count = length matching_ids, prune_fact_ids = []\<rparr>, s)
         else (Inr \<lparr>prune_count = length matching_ids, prune_fact_ids = matching_ids\<rparr>,
               s\<lparr>fs_deleted := fs_deleted s \<union> set matching_ids\<rparr>))"

definition count_facts_by_org :: "string \<Rightarrow> nat fact_op" where
  "count_facts_by_org org s =
     (Inr (length (filter (\<lambda>f. f_org_id f = org \<and> f_id f \<notin> fs_deleted s) (hm_values (fs_facts s)))), s)"

definition count_facts_by_user :: "tenant_context \<Rightarrow> nat fact_op" where
  "count_facts_by_user t s =
     (Inr (length (filter (\<lambda>f. fact_matches_tenant f t \<and> f_id f \<notin> fs_deleted s)
        (hm_values (fs_facts s)))), s)"

definition count_users_by_org :: "string \<Rightarrow> nat fact_op" where
  "count_users_by_org org s =
     (Inr (card (set (map f_user_id
        (filter (\<lambda>f. f_org_id f = org \<and> f_id f \<notin> fs_deleted s) (hm_values (fs_facts s)))))), s)"

text \<open>One pass of the aggregation loop of \<open>list_users_by_org\<close>: count and latest update per user.\<close>

definition aggregate_user ::
  "string \<Rightarrow> uuid set \<Rightarrow> fact \<Rightarrow> (string, nat \<times> datetime option) hash_map \<Rightarrow>
   (string, nat \<times> datetime option) hash_map" where
  "aggregate_user org deleted f agg =
     (if f_org_id f \<noteq> org \<or> f_id f \<in> deleted then agg
      else let entry = (case map_of agg (f_user_id f) of None \<Rightarrow> (0, None) | Some e \<Rightarrow> e)
           in AList.update (f_user_id f)
                (fst entry + 1,
                 Some (case snd entry of Some current \<Rightarrow> max current (f_updated_at f)
                       | None \<Rightarrow> f_updated_at f)) agg)"

definition user_sort_value :: "datetime \<Rightarrow> org_user_summary \<Rightarrow> datetime" where
  "user_sort_value min_utc u = (case u_last_memory_at u of None \<Rightarrow> min_utc | Some d \<Rightarrow> d)"

definition user_desc_le :: "datetime \<Rightarrow> org_user_summary \<Rightarrow> org_user_summary \<Rightarrow> bool" where
  "user_desc_le min_utc = lex_le (\<lambda>a b. user_sort_value min_utc b \<le> user_sort_value min_utc a)
     (\<lambda>a b. u_user_id b \<le> u_user_id a)"

definition org_user_summaries :: "string \<Rightarrow> mock_fact_store \<Rightarrow> org_user_summary list" where
  "org_user_summaries org s =
     map (\<lambda>(user_id, (n, latest)). \<lparr>u_user_id = user_id, u_memory_count = n, u_last_memory_at = latest\<rparr>)
       (fold (aggregate_user org (fs_deleted s)) (hm_values (fs_facts s)) [])"

definition list_users_by_org :: "datetime \<Rightarrow> org_user_list_query \<Rightarrow> org_user_summary list fact_op" where
  "list_users_by_org min_utc q s =
     (Inr (take (page_fetch_limit (ou_limit q))
        (sort_by (user_desc_le min_utc)
          (filter (\<lambda>u. is_none_or (ou_cursor q)
              (is_after_cursor_in_desc_order (user_sort_value min_utc u) (u_user_id u)))
            (org_user_summaries (ou_org_id q) s)))), s)"

section \<open>What the store promises\<close>

text \<open>Keys are the facts' identifiers, and only stored facts are marked deleted.\<close>

definition fs_wf :: "mock_fact_store \<Rightarrow> bool" where
  "fs_wf s \<longleftrightarrow> hm_wf (fs_facts s) \<and> (\<forall>i f. map_of (fs_facts s) i = Some f \<longrightarrow> f_id f = i) \<and>
     fs_deleted s \<subseteq> dom (map_of (fs_facts s))"

definition active_facts :: "mock_fact_store \<Rightarrow> tenant_context \<Rightarrow> uuid \<rightharpoonup> fact" where
  "active_facts s t i =
     (case map_of (fs_facts s) i of
        None \<Rightarrow> None
      | Some f \<Rightarrow> if fact_matches_tenant f t \<and> i \<notin> fs_deleted s then Some f else None)"

lemma tenant_eqI: "fact_matches_tenant f t \<Longrightarrow> fact_matches_tenant f t' \<Longrightarrow> t = t'"
  by (simp add: fact_matches_tenant_def)

lemma active_facts_Some:
  "active_facts s t i = Some f \<longleftrightarrow>
     map_of (fs_facts s) i = Some f \<and> fact_matches_tenant f t \<and> i \<notin> fs_deleted s"
  by (auto simp: active_facts_def split: option.splits)

lemma fs_wf_new [simp]: "fs_wf fact_store_new"
  by (simp add: fs_wf_def fact_store_new_def)

lemma active_facts_new [simp]: "active_facts fact_store_new t = Map.empty"
  by (rule ext) (simp add: active_facts_def fact_store_new_def)

lemma fs_wf_insert_fact: "fs_wf s \<Longrightarrow> fs_wf (snd (insert_fact t f s))"
  by (auto simp: fs_wf_def insert_fact_def split: sum.splits)

lemma fs_wf_update_fact: "fs_wf s \<Longrightarrow> fs_wf (snd (update_fact t f s))"
  by (auto simp: fs_wf_def update_fact_def split: sum.splits option.splits)

lemma fs_wf_get_fact: "fs_wf s \<Longrightarrow> fs_wf (snd (get_fact t i s))"
  by (auto simp: get_fact_def split: option.splits)

lemma fs_wf_soft_delete_fact: "fs_wf s \<Longrightarrow> fs_wf (snd (soft_delete_fact t i s))"
  by (auto simp: fs_wf_def soft_delete_fact_def split: option.splits)

lemma fs_wf_delete_user_data: "fs_wf s \<Longrightarrow> fs_wf (snd (delete_user_data t s))"
proof -
  assume wf: "fs_wf s"
  define m where "m = hm_retain (\<lambda>_. not_of_tenant t) (fs_facts s)"
  have "hm_wf m" and "\<forall>i f. map_of m i = Some f \<longrightarrow> f_id f = i"
    using wf by (auto simp: m_def fs_wf_def map_of_hm_retain split: option.splits if_splits)
  moreover have "{i \<in> fs_deleted s. i \<in> set (map fst m)} \<subseteq> dom (map_of m)"
    by (auto simp: dom_map_of_conv_image_fst)
  ultimately show ?thesis
    by (simp add: delete_user_data_def Let_def fs_wf_def flip: m_def)
qed

lemma fs_wf_delete_facts_older_than: "fs_wf s \<Longrightarrow> fs_wf (snd (delete_facts_older_than t c d s))"
  by (auto simp: fs_wf_def delete_facts_older_than_def Let_def in_hm_values_iff)

text \<open>
  The port's contract. A write by a tenant changes that tenant's map as said and no other
  tenant's map; a failing operation changes nothing.
\<close>

locale fact_store_port =
  fixes invar :: "'s \<Rightarrow> bool"
    and view :: "'s \<Rightarrow> tenant_context \<Rightarrow> uuid \<rightharpoonup> fact"
    and ins upd :: "tenant_context \<Rightarrow> fact \<Rightarrow> ('s, memcore_error, fact) comp"
    and get :: "tenant_context \<Rightarrow> uuid \<Rightarrow> ('s, memcore_error, fact option) comp"
    and search :: "fact_search_query \<Rightarrow> ('s, memcore_error, fact list) comp"
    and del :: "tenant_context \<Rightarrow> uuid \<Rightarrow> ('s, memcore_error, unit) comp"
    and forget :: "tenant_context \<Rightarrow> ('s, memcore_error, unit) comp"
    and prune :: "tenant_context \<Rightarrow> datetime \<Rightarrow> bool \<Rightarrow> ('s, memcore_error, retention_prune_result) comp"
  assumes view_owner: "invar s \<Longrightarrow> view s t i = Some f \<Longrightarrow> fact_matches_tenant f t \<and> f_id f = i"
    and get_view: "get t i s = (Inr (view s t i), s)"
    and ins_view: "invar s \<Longrightarrow> ins t f s = (Inr f', s') \<Longrightarrow>
      f' = f \<and> fact_matches_tenant f t \<and> view s t (f_id f) = None \<and>
      view s' = (view s)(t := (view s t)(f_id f \<mapsto> f))"
    and ins_err: "ins t f s = (Inl e, s') \<Longrightarrow> s' = s"
    and upd_view: "invar s \<Longrightarrow> upd t f s = (Inr f', s') \<Longrightarrow>
      f' = f \<and> fact_matches_tenant f t \<and>
      view s' = (if view s t (f_id f) = None then view s else (view s)(t := (view s t)(f_id f \<mapsto> f)))"
    and upd_err: "upd t f s = (Inl e, s') \<Longrightarrow> s' = s"
    and del_view: "invar s \<Longrightarrow> del t i s = (Inr u, s') \<Longrightarrow> view s' = (view s)(t := (view s t)(i := None))"
    and del_err: "del t i s = (Inl e, s') \<Longrightarrow> s' = s"
    and forget_view: "invar s \<Longrightarrow> \<exists>s'. forget t s = (Inr (), s') \<and> view s' = (view s)(t := Map.empty)"
    and prune_view: "invar s \<Longrightarrow> \<exists>r s'. prune t cutoff dry s = (Inr r, s') \<and>
      (dry \<longrightarrow> s' = s \<and> prune_fact_ids r = []) \<and>
      (\<not> dry \<longrightarrow> distinct (prune_fact_ids r) \<and> length (prune_fact_ids r) = prune_count r \<and>
         set (prune_fact_ids r) = {i. \<exists>f. view s t i = Some f \<and> f_updated_at f < cutoff} \<and>
         view s' = (view s)(t := (view s t) |` (- set (prune_fact_ids r))))"
    and search_sound: "invar s \<Longrightarrow> search q s = (Inr fs, s') \<Longrightarrow> \<not> q_include_deleted q \<Longrightarrow> f \<in> set fs \<Longrightarrow>
      view s (q_tenant q) (f_id f) = Some f \<and> fact_query_hits q f"
    and search_bounds: "invar s \<Longrightarrow> \<exists>fs. search q s = (Inr fs, s) \<and> sorted_wrt fact_desc_le fs \<and>
      length fs \<le> page_fetch_limit (q_limit q) \<and> distinct (map f_id fs)"
    and search_complete: "invar s \<Longrightarrow> search q s = (Inr fs, s') \<Longrightarrow> view s (q_tenant q) i = Some f \<Longrightarrow>
      fact_query_hits q f \<Longrightarrow> fact_after_cursor (q_cursor q) f \<Longrightarrow>
      f \<in> set fs \<or> (length fs = page_fetch_limit (q_limit q) \<and> (\<forall>g \<in> set fs. fact_desc_le g f))"
    and invar_ins: "preserves invar (ins t f)"
    and invar_upd: "preserves invar (upd t f)"
    and invar_get: "preserves invar (get t i)"
    and invar_search: "preserves invar (search q)"
    and invar_del: "preserves invar (del t i)"
    and invar_forget: "preserves invar (forget t)"
    and invar_prune: "preserves invar (prune t cutoff dry)"
begin

lemmas invar_ops = invar_ins invar_upd invar_get invar_search invar_del invar_forget invar_prune

text \<open>No operation of one tenant changes what another tenant sees.\<close>

lemma ins_other: "invar s \<Longrightarrow> t \<noteq> t' \<Longrightarrow> view (snd (ins t f s)) t' = view s t'"
  by (cases "fst (ins t f s)"; cases "ins t f s") (auto dest: ins_view ins_err)

lemma upd_other: "invar s \<Longrightarrow> t \<noteq> t' \<Longrightarrow> view (snd (upd t f s)) t' = view s t'"
  by (cases "fst (upd t f s)"; cases "upd t f s") (auto dest: upd_view upd_err)

lemma del_other: "invar s \<Longrightarrow> t \<noteq> t' \<Longrightarrow> view (snd (del t i s)) t' = view s t'"
  by (cases "fst (del t i s)"; cases "del t i s") (auto dest: del_view del_err)

lemma forget_other: "invar s \<Longrightarrow> t \<noteq> t' \<Longrightarrow> view (snd (forget t s)) t' = view s t'"
  using forget_view [of s t] by auto

lemma prune_other: "invar s \<Longrightarrow> t \<noteq> t' \<Longrightarrow> view (snd (prune t c d s)) t' = view s t'"
  using prune_view [of s t c d] by (cases d) auto

lemmas other_ops = ins_other upd_other del_other forget_other prune_other

text \<open>A deleted fact stays invisible to every read.\<close>

lemma del_then_get: "invar s \<Longrightarrow> del t i s = (Inr u, s') \<Longrightarrow> get t i s' = (Inr None, s')"
  using del_view [of s t i u s'] by (simp add: get_view)

lemma ins_then_get: "invar s \<Longrightarrow> ins t f s = (Inr f', s') \<Longrightarrow> get t (f_id f) s' = (Inr (Some f), s')"
  using ins_view [of s t f f' s'] by (simp add: get_view)

lemma search_of_forgotten:
  assumes "invar s" and "forget t s = (Inr u, s')" and "search q s' = (Inr fs, s'')"
    and "q_tenant q = t" and "\<not> q_include_deleted q"
  shows "fs = []"
proof (rule ccontr)
  assume "fs \<noteq> []"
  then obtain f where f: "f \<in> set fs" by (cases fs) auto
  have "invar s'"
    using preserves_result [OF invar_forget assms(1,2)] .
  then have "view s' t (f_id f) = Some f"
    using search_sound [OF _ assms(3,5) f] assms(4) by simp
  moreover have "view s' t = Map.empty"
    using forget_view [OF assms(1), of t] assms(2) by auto
  ultimately show False by simp
qed

end

section \<open>The in-memory store keeps the promise\<close>

lemma fact_desc_le_iff:
  "fact_desc_le x y \<longleftrightarrow> f_updated_at y < f_updated_at x \<or> (f_updated_at x = f_updated_at y \<and> f_id y \<le> f_id x)"
  by (auto simp: fact_desc_le_def lex_le_def)

lemma fact_desc_le_total: "total_preorder fact_desc_le"
  unfolding fact_desc_le_def
  by (intro total_preorder_lex_le total_preorder_key_rev)

lemma fs_values_iff:
  "fs_wf s \<Longrightarrow> f \<in> set (hm_values (fs_facts s)) \<longleftrightarrow> map_of (fs_facts s) (f_id f) = Some f"
  by (auto simp: fs_wf_def in_hm_values_iff)

lemma fs_values_ids: "fs_wf s \<Longrightarrow> map f_id (hm_values (fs_facts s)) = map fst (fs_facts s)"
  by (auto simp: fs_wf_def hm_values_def hm_wf_def)

lemma fs_values_distinct: "fs_wf s \<Longrightarrow> distinct (map f_id (filter P (hm_values (fs_facts s))))"
  by (rule distinct_map_filter) (simp add: fs_values_ids fs_wf_def flip: hm_wf_def)

lemma distinct_map_sort_by: "distinct (map g xs) \<Longrightarrow> distinct (map g (take n (sort_by le xs)))"
  by (metis distinct_take mset_eq_imp_distinct_iff mset_map mset_sort_by take_map)

lemma active_in_values:
  "fs_wf s \<Longrightarrow> f \<in> set (hm_values (fs_facts s)) \<and> fact_matches_tenant f t \<and> f_id f \<notin> fs_deleted s
     \<longleftrightarrow> active_facts s t (f_id f) = Some f"
  by (simp add: fs_values_iff active_facts_Some)

lemma insert_fact_view:
  assumes "fs_wf s" and "insert_fact t f s = (Inr f', s')"
  shows "f' = f \<and> fact_matches_tenant f t \<and> active_facts s t (f_id f) = None \<and>
    active_facts s' = (active_facts s)(t := (active_facts s t)(f_id f \<mapsto> f))"
proof -
  from assms(2) have t: "fact_matches_tenant f t" and n: "map_of (fs_facts s) (f_id f) = None"
    and s': "s' = s\<lparr>fs_facts := AList.update (f_id f) f (fs_facts s)\<rparr>" and f': "f' = f"
    by (auto simp: insert_fact_def ensure_fact_tenant_def split: if_splits)
  from assms(1) n have "f_id f \<notin> fs_deleted s"
    by (auto simp: fs_wf_def)
  with t n s' have "active_facts s' t' i = ((active_facts s)(t := (active_facts s t)(f_id f \<mapsto> f))) t' i" for t' i
    by (auto simp: active_facts_def split: option.splits dest: tenant_eqI)
  with t n f' show ?thesis
    by (auto simp: fun_eq_iff active_facts_def)
qed

lemma update_fact_view:
  assumes "fs_wf s" and "update_fact t f s = (Inr f', s')"
  shows "f' = f \<and> fact_matches_tenant f t \<and>
    active_facts s' = (if active_facts s t (f_id f) = None then active_facts s
      else (active_facts s)(t := (active_facts s t)(f_id f \<mapsto> f)))"
proof -
  from assms(2) obtain g where t: "fact_matches_tenant f t" and g: "map_of (fs_facts s) (f_id f) = Some g"
    and gt: "fact_matches_tenant g t" and f': "f' = f"
    and s': "s' = s\<lparr>fs_facts := AList.update (f_id f) f (fs_facts s)\<rparr>"
    by (auto simp: update_fact_def ensure_fact_tenant_def split: if_splits option.splits)
  have "active_facts s' t' i = (if active_facts s t (f_id f) = None then active_facts s
      else (active_facts s)(t := (active_facts s t)(f_id f \<mapsto> f))) t' i" for t' i
    using t g gt s' by (auto simp: active_facts_def split: option.splits dest: tenant_eqI)
  with t f' show ?thesis by (auto simp: fun_eq_iff)
qed

lemma soft_delete_fact_view:
  assumes "fs_wf s" and "soft_delete_fact t i s = (Inr u, s')"
  shows "active_facts s' = (active_facts s)(t := (active_facts s t)(i := None))"
proof -
  from assms(2) obtain g where "map_of (fs_facts s) i = Some g" "fact_matches_tenant g t"
    "s' = s\<lparr>fs_deleted := insert i (fs_deleted s)\<rparr>"
    by (auto simp: soft_delete_fact_def split: if_splits option.splits)
  then show ?thesis
    by (auto simp: fun_eq_iff active_facts_def split: option.splits dest: tenant_eqI)
qed

lemma delete_user_data_view:
  assumes "fs_wf s"
  shows "\<exists>s'. delete_user_data t s = (Inr (), s') \<and> active_facts s' = (active_facts s)(t := Map.empty)"
proof -
  define m where "m = hm_retain (\<lambda>_. not_of_tenant t) (fs_facts s)"
  have m: "map_of m i = (case map_of (fs_facts s) i of None \<Rightarrow> None
      | Some f \<Rightarrow> if fact_matches_tenant f t then None else Some f)" for i
    using assms by (auto simp: m_def map_of_hm_retain fs_wf_def fact_matches_tenant_def not_of_tenant_def split: option.splits)
  have "i \<in> set (map fst m) \<longleftrightarrow> map_of m i \<noteq> None" for i
    by (simp add: map_of_eq_None_iff)
  then have "active_facts (s\<lparr>fs_facts := m, fs_deleted := {i \<in> fs_deleted s. i \<in> set (map fst m)}\<rparr>)
      = (active_facts s)(t := Map.empty)"
    by (auto simp: fun_eq_iff active_facts_def m split: option.splits dest: tenant_eqI)
  then show ?thesis
    by (simp add: delete_user_data_def Let_def flip: m_def)
qed

lemma delete_facts_older_than_view:
  assumes "fs_wf s"
  shows "\<exists>r s'. delete_facts_older_than t cutoff dry s = (Inr r, s') \<and>
      (dry \<longrightarrow> s' = s \<and> prune_fact_ids r = []) \<and>
      (\<not> dry \<longrightarrow> distinct (prune_fact_ids r) \<and> length (prune_fact_ids r) = prune_count r \<and>
         set (prune_fact_ids r) = {i. \<exists>f. active_facts s t i = Some f \<and> f_updated_at f < cutoff} \<and>
         active_facts s' = (active_facts s)(t := (active_facts s t) |` (- set (prune_fact_ids r))))"
proof -
  define ids where "ids = map f_id (filter (\<lambda>f. fact_matches_tenant f t \<and> f_id f \<notin> fs_deleted s \<and>
    f_updated_at f < cutoff) (hm_values (fs_facts s)))"
  have "distinct ids"
    unfolding ids_def using assms by (rule fs_values_distinct)
  moreover have ids: "set ids = {i. \<exists>f. active_facts s t i = Some f \<and> f_updated_at f < cutoff}"
  proof (intro set_eqI iffI)
    fix i assume "i \<in> set ids"
    then show "i \<in> {i. \<exists>f. active_facts s t i = Some f \<and> f_updated_at f < cutoff}"
      using active_in_values [OF assms, of _ t] by (auto simp: ids_def)
  next
    fix i assume "i \<in> {i. \<exists>f. active_facts s t i = Some f \<and> f_updated_at f < cutoff}"
    then obtain f where f: "active_facts s t i = Some f" "f_updated_at f < cutoff" by blast
    with assms have "f_id f = i" by (auto simp: active_facts_Some fs_wf_def)
    with f active_in_values [OF assms, of f t] show "i \<in> set ids"
      by (auto simp: ids_def)
  qed
  moreover have "active_facts (s\<lparr>fs_deleted := fs_deleted s \<union> set ids\<rparr>)
      = (active_facts s)(t := (active_facts s t) |` (- set ids))"
    by (auto simp: fun_eq_iff active_facts_def restrict_map_def ids split: option.splits dest: tenant_eqI)
  ultimately show ?thesis
    by (simp add: delete_facts_older_than_def Let_def flip: ids_def)
qed

lemma search_facts_mem:
  "search_facts q s = (Inr fs, s') \<Longrightarrow> f \<in> set fs \<Longrightarrow>
     f \<in> set (hm_values (fs_facts s)) \<and> fact_query_matches s q f \<and> fact_after_cursor (q_cursor q) f"
  by (auto simp: search_facts_def dest: in_set_takeD)

lemma search_facts_complete:
  assumes "fs_wf s" and "search_facts q s = (Inr fs, s')" and "active_facts s (q_tenant q) i = Some f"
    and "fact_query_hits q f" and "fact_after_cursor (q_cursor q) f"
  shows "f \<in> set fs \<or> (length fs = page_fetch_limit (q_limit q) \<and> (\<forall>g \<in> set fs. fact_desc_le g f))"
proof -
  let ?all = "sort_by fact_desc_le (filter (fact_after_cursor (q_cursor q))
    (filter (fact_query_matches s q) (hm_values (fs_facts s))))"
  let ?n = "page_fetch_limit (q_limit q)"
  have fs: "fs = take ?n ?all"
    using assms(2) by (auto simp add: search_facts_def del: filter_filter)
  have "i = f_id f" and "f \<in> set (hm_values (fs_facts s))"
    using assms(1,3) by (auto simp: active_facts_Some fs_wf_def fs_values_iff)
  with assms have "f \<in> set ?all"
    by (auto simp: active_facts_Some fact_query_matches_def)
  then have "f \<in> set (take ?n ?all) \<or> f \<in> set (drop ?n ?all)"
    by (metis UnE append_take_drop_id set_append)
  then show ?thesis
  proof
    assume "f \<in> set (take ?n ?all)"
    then show ?thesis using fs by simp
  next
    assume d: "f \<in> set (drop ?n ?all)"
    have so: "sorted_wrt fact_desc_le ?all"
      by (rule sorted_wrt_sort_by [OF fact_desc_le_total])
    have "\<forall>g \<in> set fs. fact_desc_le g f"
      using sorted_wrt_take_drop [OF so _ d] fs by simp
    moreover have "length fs = ?n"
    proof -
      from d have "drop ?n ?all \<noteq> []" by auto
      then show ?thesis using fs by simp
    qed
    ultimately show ?thesis by simp
  qed
qed

interpretation mock_facts: fact_store_port fs_wf active_facts insert_fact update_fact get_fact
    search_facts soft_delete_fact delete_user_data delete_facts_older_than
proof (unfold_locales, goal_cases)
  case (1 s t i f)
  then show ?case by (auto simp: active_facts_Some fs_wf_def)
next
  case (2 t i s)
  then show ?case by (auto simp: get_fact_def active_facts_def split: option.splits)
next
  case (3 s t f f' s')
  then show ?case by (rule insert_fact_view)
next
  case (4 t f s e s')
  then show ?case by (auto simp: insert_fact_def split: sum.splits if_splits)
next
  case (5 s t f f' s')
  then show ?case by (rule update_fact_view)
next
  case (6 t f s e s')
  then show ?case by (auto simp: update_fact_def split: sum.splits if_splits option.splits)
next
  case (7 s t i u s')
  then show ?case by (rule soft_delete_fact_view)
next
  case (8 t i s e s')
  then show ?case by (auto simp: soft_delete_fact_def split: if_splits option.splits)
next
  case (9 s t)
  then show ?case by (rule delete_user_data_view)
next
  case (10 s t cutoff dry)
  then show ?case by (rule delete_facts_older_than_view)
next
  case (11 s q fs s' f)
  then have "f \<in> set (hm_values (fs_facts s))" "fact_query_matches s q f"
    by (auto dest: search_facts_mem)
  with 11 show ?case
    by (auto simp: fact_query_matches_def fact_query_hits_def active_facts_Some fs_values_iff)
next
  case (12 s q)
  then have "distinct (map f_id (filter (fact_after_cursor (q_cursor q))
      (filter (fact_query_matches s q) (hm_values (fs_facts s)))))"
    using fs_values_distinct [of s "\<lambda>f. fact_after_cursor (q_cursor q) f \<and> fact_query_matches s q f"]
    by (simp add: filter_filter conj_commute)
  then show ?case
    by (simp add: search_facts_def distinct_map_sort_by take_sorted_wrt sorted_wrt_sort_by fact_desc_le_total)
next
  case (13 s q fs s' i f)
  then show ?case by (intro search_facts_complete)
qed (rule preservesI; auto simp: search_facts_def intro: fs_wf_insert_fact fs_wf_update_fact
  fs_wf_get_fact fs_wf_soft_delete_fact fs_wf_delete_user_data fs_wf_delete_facts_older_than)+

section \<open>Pagination over the store\<close>

text \<open>The store's comparison of identifiers agrees with the cursor's comparison of their text.\<close>

interpretation fact_pages: page_order f_updated_at "\<lambda>f. uuid_to_string (f_id f)" fact_desc_le
proof
  fix x y :: fact
  have "uuid_to_string (f_id y) \<le> uuid_to_string (f_id x) \<longleftrightarrow> f_id y \<le> f_id x"
    by (simp add: uuid_to_string_less flip: not_less)
  then show "fact_desc_le x y \<longleftrightarrow> f_updated_at y < f_updated_at x \<or>
      (f_updated_at x = f_updated_at y \<and> uuid_to_string (f_id y) \<le> uuid_to_string (f_id x))"
    by (simp add: fact_desc_le_iff)
qed

lemma user_desc_le_iff:
  "user_desc_le m x y \<longleftrightarrow> user_sort_value m y < user_sort_value m x \<or>
     (user_sort_value m x = user_sort_value m y \<and> u_user_id y \<le> u_user_id x)"
  by (auto simp: user_desc_le_def lex_le_def)

interpretation user_pages: page_order "user_sort_value min_utc" u_user_id "user_desc_le min_utc"
  for min_utc
  by unfold_locales (rule user_desc_le_iff)

section \<open>The aggregation of an organisation's users\<close>

text \<open>The facts that count for one user of an organisation.\<close>

definition counted :: "string \<Rightarrow> uuid set \<Rightarrow> string \<Rightarrow> fact \<Rightarrow> bool" where
  "counted org deleted user f \<longleftrightarrow> f_org_id f = org \<and> f_id f \<notin> deleted \<and> f_user_id f = user"

definition user_entry :: "string \<Rightarrow> uuid set \<Rightarrow> fact list \<Rightarrow> string \<Rightarrow> (nat \<times> datetime option) option" where
  "user_entry org deleted fs user =
     (let mine = filter (counted org deleted user) fs in
      if mine = [] then None else Some (length mine, Some (Max (f_updated_at ` set mine))))"

lemma user_entry_snoc:
  "user_entry org deleted (fs @ [f]) user =
     (if counted org deleted user f
      then (case user_entry org deleted fs user of
              None \<Rightarrow> Some (1, Some (f_updated_at f))
            | Some (n, l) \<Rightarrow> Some (n + 1, Some (case l of Some c \<Rightarrow> max c (f_updated_at f) | None \<Rightarrow> f_updated_at f)))
      else user_entry org deleted fs user)"
proof (cases "counted org deleted user f \<and> filter (counted org deleted user) fs \<noteq> []")
  case True
  then have "f_updated_at ` set (filter (counted org deleted user) fs) \<noteq> {}"
    by (metis image_is_empty set_empty)
  with True show ?thesis
    by (simp add: user_entry_def Let_def max.commute del: set_filter)
next
  case False
  then show ?thesis by (auto simp: user_entry_def Let_def simp del: set_filter)
qed

lemma aggregate_users_entry:
  "map_of (fold (aggregate_user org deleted) fs []) user = user_entry org deleted fs user"
proof (induction fs rule: rev_induct)
  case Nil
  then show ?case by (simp add: user_entry_def)
next
  case (snoc f fs)
  show ?case
  proof (cases "f_org_id f = org \<and> f_id f \<notin> deleted")
    case True
    then show ?thesis
      using snoc.IH
      by (auto simp: aggregate_user_def user_entry_snoc counted_def Let_def split: option.splits)
  next
    case False
    then show ?thesis
      using snoc.IH by (auto simp: aggregate_user_def user_entry_snoc counted_def)
  qed
qed

lemma aggregate_users_wf: "hm_wf (fold (aggregate_user org deleted) fs [])"
proof (induction fs rule: rev_induct)
  case (snoc f fs)
  then show ?case by (simp add: aggregate_user_def Let_def)
qed simp

lemma org_user_summaries_ids: "distinct (map u_user_id (org_user_summaries org s))"
proof -
  have "map u_user_id (org_user_summaries org s)
      = map fst (fold (aggregate_user org (fs_deleted s)) (hm_values (fs_facts s)) [])"
    by (auto simp: org_user_summaries_def)
  then show ?thesis
    using aggregate_users_wf by (simp add: hm_wf_def)
qed

lemma in_org_user_summaries:
  "u \<in> set (org_user_summaries org s) \<longleftrightarrow>
     user_entry org (fs_deleted s) (hm_values (fs_facts s)) (u_user_id u) = Some (u_memory_count u, u_last_memory_at u)"
proof -
  let ?agg = "fold (aggregate_user org (fs_deleted s)) (hm_values (fs_facts s)) []"
  have "u \<in> set (org_user_summaries org s) \<longleftrightarrow> (u_user_id u, u_memory_count u, u_last_memory_at u) \<in> set ?agg"
    by (force simp: org_user_summaries_def)
  then show ?thesis
    by (simp add: in_hm_iff [OF aggregate_users_wf] aggregate_users_entry)
qed

section \<open>Properties\<close>

text \<open>C14: Tenant isolation of the fact store: whatever a tenant inserts, updates, deletes, forgets
  or prunes (successfully or not), every other tenant sees exactly the facts it saw before.\<close>

theorem fact_store_tenant_isolation:
  assumes "fs_wf s" and "t \<noteq> t'"
  shows "active_facts (snd (insert_fact t f s)) t' = active_facts s t' \<and>
    active_facts (snd (update_fact t f s)) t' = active_facts s t' \<and>
    active_facts (snd (soft_delete_fact t i s)) t' = active_facts s t' \<and>
    active_facts (snd (delete_user_data t s)) t' = active_facts s t' \<and>
    active_facts (snd (delete_facts_older_than t cutoff dry s)) t' = active_facts s t'"
  using assms by (simp add: mock_facts.other_ops)

text \<open>Example tenants and facts for the witnesses.\<close>

definition alice :: tenant_context where
  "alice = \<lparr>tc_org_id = ''acme'', tc_user_id = ''alice''\<rparr>"

definition bob :: tenant_context where
  "bob = \<lparr>tc_org_id = ''acme'', tc_user_id = ''bob''\<rparr>"

definition sample_fact :: "uuid \<Rightarrow> tenant_context \<Rightarrow> string \<Rightarrow> datetime \<Rightarrow> fact" where
  "sample_fact i t content stamp =
     \<lparr>f_id = i, f_org_id = tc_org_id t, f_user_id = tc_user_id t, f_memory_type = Preference,
      f_content = content, f_summary = None, f_source = UserMessage, f_confidence = Fin 1,
      f_importance = Fin 1, f_valid_at = None, f_invalid_at = None, f_recorded_at = stamp,
      f_updated_at = stamp, f_metadata = JNull\<rparr>"

definition sample_facts :: mock_fact_store where
  "sample_facts = \<lparr>fs_facts = [(1, sample_fact 1 alice ''likes tea'' 10), (2, sample_fact 2 bob ''likes rust'' 20)],
     fs_deleted = {}\<rparr>"

lemma sample_facts_wf: "fs_wf sample_facts"
  by (auto simp: fs_wf_def hm_wf_def sample_facts_def sample_fact_def)

theorem fact_store_tenant_isolation_witness:
  "active_facts (snd (delete_user_data alice sample_facts)) bob = active_facts sample_facts bob"
  using fact_store_tenant_isolation [OF sample_facts_wf, of alice bob]
  by (simp add: alice_def bob_def)

text \<open>Life of a fact in the store: a fresh fact of the tenant is inserted and read back; after its
  deletion it is invisible, and its identifier stays taken, so inserting it again is a conflict.\<close>

lemma fact_lifecycle_roundtrip:
  assumes "fs_wf s" and "fact_matches_tenant f t" and "map_of (fs_facts s) (f_id f) = None"
  shows "\<exists>s1 s2. insert_fact t f s = (Inr f, s1) \<and> get_fact t (f_id f) s1 = (Inr (Some f), s1) \<and>
    soft_delete_fact t (f_id f) s1 = (Inr (), s2) \<and> get_fact t (f_id f) s2 = (Inr None, s2) \<and>
    insert_fact t f s2 = (Inl (Conflict (''fact already exists: '' @ uuid_to_string (f_id f))), s2)"
  using assms
  by (auto simp: insert_fact_def ensure_fact_tenant_def get_fact_def soft_delete_fact_def fs_wf_def)

text \<open>C15: \<open>search_facts\<close> answers exactly: what it returns is active, of the tenant, matches the query
  and lies after the cursor; the answer is in descending order without repetition and has at
  most one item more than the limit; and a matching fact that is missing comes after a full
  answer.\<close>

theorem search_facts_exact:
  assumes "fs_wf s" and "\<not> q_include_deleted q"
  shows "\<exists>fs. search_facts q s = (Inr fs, s) \<and> sorted_wrt fact_desc_le fs \<and> distinct (map f_id fs) \<and>
    length fs \<le> page_fetch_limit (q_limit q) \<and>
    (\<forall>f. f \<in> set fs \<longrightarrow> active_facts s (q_tenant q) (f_id f) = Some f \<and> fact_query_hits q f \<and>
       fact_after_cursor (q_cursor q) f) \<and>
    (\<forall>i f. active_facts s (q_tenant q) i = Some f \<longrightarrow> fact_query_hits q f \<longrightarrow>
       fact_after_cursor (q_cursor q) f \<longrightarrow> f \<in> set fs \<or>
       (length fs = page_fetch_limit (q_limit q) \<and> (\<forall>g \<in> set fs. fact_desc_le g f)))"
proof -
  obtain fs where fs: "search_facts q s = (Inr fs, s)" "sorted_wrt fact_desc_le fs" "distinct (map f_id fs)"
    "length fs \<le> page_fetch_limit (q_limit q)"
    using mock_facts.search_bounds [OF assms(1), of q] by blast
  have "active_facts s (q_tenant q) (f_id f) = Some f \<and> fact_query_hits q f \<and> fact_after_cursor (q_cursor q) f"
    if "f \<in> set fs" for f
    using mock_facts.search_sound [OF assms(1) fs(1) assms(2) that] search_facts_mem [OF fs(1) that] by blast
  then show ?thesis
    using fs mock_facts.search_complete [OF assms(1) fs(1)] by blast
qed

theorem search_facts_exact_witness:
  "\<exists>fs. search_facts (fact_search_query_new alice 5) sample_facts = (Inr fs, sample_facts) \<and>
    (\<forall>f. f \<in> set fs \<longrightarrow> active_facts sample_facts alice (f_id f) = Some f)"
proof -
  have "\<not> q_include_deleted (fact_search_query_new alice 5)" and "q_tenant (fact_search_query_new alice 5) = alice"
    by (simp_all add: fact_search_query_new_def)
  then show ?thesis
    using search_facts_exact [OF sample_facts_wf, of "fact_search_query_new alice 5"] by auto
qed

text \<open>The answer of \<open>search_facts\<close> does not depend on the iteration order of the hash map: two
  stores that hold the same facts and deletion marks give the same answer.\<close>

theorem search_facts_order_independent:
  assumes "fs_wf s" and "fs_wf s'" and "map_of (fs_facts s) = map_of (fs_facts s')"
    and "fs_deleted s = fs_deleted s'"
  shows "fst (search_facts q s) = fst (search_facts q s')"
proof -
  let ?hits = "\<lambda>s. filter (fact_after_cursor (q_cursor q)) (filter (fact_query_matches s q) (hm_values (fs_facts s)))"
  have "mset (fs_facts s) = mset (fs_facts s')"
    using assms by (intro hm_perm_eq) (auto simp: fs_wf_def)
  then have m: "mset (?hits s) = mset (?hits s')"
    using assms(4) by (simp add: hm_values_def fact_query_matches_def)
  have "f = g" if "f \<in> set (?hits s)" "g \<in> set (?hits s)" "fact_desc_le f g" "fact_desc_le g f" for f g
  proof -
    from that have "f_id f = f_id g" by (auto simp: fact_desc_le_iff)
    with that(1,2) fs_values_iff [OF assms(1), of f] fs_values_iff [OF assms(1), of g] show ?thesis
      by simp
  qed
  then show ?thesis
    using sort_by_perm [OF fact_desc_le_total m] by (simp add: search_facts_def del: filter_filter)
qed

theorem search_facts_order_independent_witness:
  "fst (search_facts (fact_search_query_new alice 5) sample_facts) =
   fst (search_facts (fact_search_query_new alice 5) (sample_facts\<lparr>fs_facts := rev (fs_facts sample_facts)\<rparr>))"
  by (rule search_facts_order_independent)
    (auto simp: fs_wf_def hm_wf_def sample_facts_def sample_fact_def fun_eq_iff)

text \<open>C17: The user directory of an organisation: a client that follows the cursors of
  \<open>list_users_by_org\<close> sees every user with an active fact exactly once, most recent first, and
  each entry holds the number of the user's active facts and the time of the latest one.\<close>

theorem org_user_directory:
  assumes "0 < limit" and "limit < usize_max" and "length (org_user_summaries org s) < fuel"
  shows "page_walk (\<lambda>c. case fst (list_users_by_org min_utc \<lparr>ou_org_id = org, ou_limit = limit, ou_cursor = c\<rparr> s) of
           Inr us \<Rightarrow> us | Inl _ \<Rightarrow> [])
         (\<lambda>u. \<lparr>last_id = u_user_id u, last_sort_value = user_sort_value min_utc u\<rparr>) limit fuel None
       = sort_by (user_desc_le min_utc) (org_user_summaries org s) \<and>
    distinct (map u_user_id (org_user_summaries org s)) \<and>
    (\<forall>u. u \<in> set (org_user_summaries org s) \<longleftrightarrow>
       (let mine = filter (counted org (fs_deleted s) (u_user_id u)) (hm_values (fs_facts s)) in
        mine \<noteq> [] \<and> u_memory_count u = length mine \<and> u_last_memory_at u = Some (Max (f_updated_at ` set mine))))"
proof (intro conjI allI)
  show "page_walk (\<lambda>c. case fst (list_users_by_org min_utc \<lparr>ou_org_id = org, ou_limit = limit, ou_cursor = c\<rparr> s) of
           Inr us \<Rightarrow> us | Inl _ \<Rightarrow> [])
         (\<lambda>u. \<lparr>last_id = u_user_id u, last_sort_value = user_sort_value min_utc u\<rparr>) limit fuel None
       = sort_by (user_desc_le min_utc) (org_user_summaries org s)"
    using assms
    by (intro user_pages.page_walk_complete) (auto simp: org_user_summaries_ids list_users_by_org_def is_none_or_def)
qed (auto simp: org_user_summaries_ids in_org_user_summaries user_entry_def Let_def split: if_splits)

theorem org_user_directory_witness:
  "page_walk (\<lambda>c. case fst (list_users_by_org (- 100) \<lparr>ou_org_id = ''acme'', ou_limit = 1, ou_cursor = c\<rparr> sample_facts) of
       Inr us \<Rightarrow> us | Inl _ \<Rightarrow> [])
     (\<lambda>u. \<lparr>last_id = u_user_id u, last_sort_value = user_sort_value (- 100) u\<rparr>) 1 3 None
   = [\<lparr>u_user_id = ''bob'', u_memory_count = 1, u_last_memory_at = Some 20\<rparr>,
      \<lparr>u_user_id = ''alice'', u_memory_count = 1, u_last_memory_at = Some 10\<rparr>]"
proof -
  have e: "org_user_summaries ''acme'' sample_facts =
    [\<lparr>u_user_id = ''alice'', u_memory_count = 1, u_last_memory_at = Some 10\<rparr>,
     \<lparr>u_user_id = ''bob'', u_memory_count = 1, u_last_memory_at = Some 20\<rparr>]"
    by (simp add: org_user_summaries_def sample_facts_def hm_values_def aggregate_user_def sample_fact_def
        alice_def bob_def)
  show ?thesis
    using org_user_directory [of 1 "''acme''" sample_facts 3 "- 100"]
    by (simp add: e usize_max_def user_desc_le_iff user_sort_value_def del: page_walk.simps)
qed

end
