(* ===== verification/Vector_Store.thy ===== *)
theory Vector_Store
  imports Fact_Store
begin

text \<open>
  The vector store: the \<open>VectorStore\<close> port of \<^verbatim>\<open>crates/memcore-core/src/ports/storage.rs\<close> and
  \<open>MockVectorStore\<close> of \<^verbatim>\<open>crates/memcore-storage/src/mocks.rs\<close>. \<open>tenant_vectors s t\<close> is the set of a
  tenant's records; the locale \<open>vector_store_port\<close> states the operations in terms of it.
\<close>

section \<open>Records and queries\<close>

record vector_record =
  v_id :: uuid
  v_fact_id :: uuid
  v_org_id :: string
  v_user_id :: string
  v_embedding :: "f32 list"
  v_content :: string
  v_memory_type :: memory_type
  v_metadata :: json

record vector_search_query =
  vq_tenant :: tenant_context
  vq_embedding :: "f32 list"
  vq_limit :: nat
  vq_memory_types :: "memory_type list option"
  vq_metadata_filter :: "json option"

record vector_search_result =
  vr_fact_id :: uuid
  vr_content :: string
  vr_score :: f32
  vr_memory_type :: memory_type
  vr_metadata :: json

section \<open>The store (\<open>MockVectorStore\<close>)\<close>

record mock_vector_store =
  vs_records :: "(uuid, vector_record) hash_map"

definition vector_store_new :: mock_vector_store where
  "vector_store_new = \<lparr>vs_records = []\<rparr>"

type_synonym 'a vector_op = "(mock_vector_store, memcore_error, 'a) comp"

definition record_matches_tenant :: "vector_record \<Rightarrow> tenant_context \<Rightarrow> bool" where
  "record_matches_tenant r t \<longleftrightarrow> v_org_id r = tc_org_id t \<and> v_user_id r = tc_user_id t"

definition ensure_record_tenant :: "vector_record \<Rightarrow> tenant_context \<Rightarrow> unit memcore_result" where
  "ensure_record_tenant r t = (if record_matches_tenant r t then Inr () else Inl Forbidden)"

definition metadata_matches :: "json \<Rightarrow> json \<Rightarrow> bool" where
  "metadata_matches record_metadata flt =
     (case json_as_object flt of
        None \<Rightarrow> False
      | Some filter_obj \<Rightarrow>
          (case json_as_object record_metadata of
             None \<Rightarrow> False
           | Some record_obj \<Rightarrow> list_all (\<lambda>(key, value). map_of record_obj key = Some value) filter_obj))"

definition cosine_similarity :: "f32 list \<Rightarrow> f32 list \<Rightarrow> f32" where
  "cosine_similarity a b =
     (if a = [] \<or> b = [] \<or> length a \<noteq> length b then Fin 0
      else let dot = f32_sum (map2 f32_mul a b);
               norm_a = f32_sqrt (f32_sum (map (\<lambda>x. f32_mul x x) a));
               norm_b = f32_sqrt (f32_sum (map (\<lambda>x. f32_mul x x) b))
           in if f32_eq norm_a (Fin 0) \<or> f32_eq norm_b (Fin 0) then Fin 0
              else f32_div dot (f32_mul norm_a norm_b))"

definition upsert_vector :: "tenant_context \<Rightarrow> vector_record \<Rightarrow> unit vector_op" where
  "upsert_vector t r s =
     (case ensure_record_tenant r t of
        Inl e \<Rightarrow> (Inl e, s)
      | Inr _ \<Rightarrow> (Inr (), s\<lparr>vs_records := AList.update (v_id r) r (vs_records s)\<rparr>))"

definition vector_query_matches :: "vector_search_query \<Rightarrow> vector_record \<Rightarrow> bool" where
  "vector_query_matches q r \<longleftrightarrow>
     record_matches_tenant r (vq_tenant q) \<and>
     is_none_or (vq_memory_types q) (\<lambda>types. v_memory_type r \<in> set types) \<and>
     is_none_or (vq_metadata_filter q) (metadata_matches (v_metadata r))"

definition score_record :: "f32 list \<Rightarrow> vector_record \<Rightarrow> vector_search_result" where
  "score_record embedding r =
     \<lparr>vr_fact_id = v_fact_id r, vr_content = v_content r,
      vr_score = cosine_similarity embedding (v_embedding r),
      vr_memory_type = v_memory_type r, vr_metadata = v_metadata r\<rparr>"

definition score_desc_le :: "vector_search_result \<Rightarrow> vector_search_result \<Rightarrow> bool" where
  "score_desc_le a b \<longleftrightarrow> f32_cmp_le (vr_score b) (vr_score a)"

definition search_vectors :: "vector_search_query \<Rightarrow> vector_search_result list vector_op" where
  "search_vectors q s =
     (Inr (take (vq_limit q)
        (sort_by score_desc_le
          (map (score_record (vq_embedding q))
            (filter (vector_query_matches q) (hm_values (vs_records s)))))), s)"

definition delete_by_fact_id :: "tenant_context \<Rightarrow> uuid \<Rightarrow> unit vector_op" where
  "delete_by_fact_id t i s =
     (let before = length (vs_records s);
          kept = hm_retain (\<lambda>_ r. \<not> (record_matches_tenant r t \<and> v_fact_id r = i)) (vs_records s)
      in if length kept = before
         then (Inl (NotFound (''vector record not found for fact: '' @ uuid_to_string i)),
               s\<lparr>vs_records := kept\<rparr>)
         else (Inr (), s\<lparr>vs_records := kept\<rparr>))"

definition delete_by_user :: "tenant_context \<Rightarrow> unit vector_op" where
  "delete_by_user t s =
     (Inr (), s\<lparr>vs_records := hm_retain (\<lambda>_ r.
        (v_org_id r, v_user_id r) \<noteq> (tc_org_id t, tc_user_id t)) (vs_records s)\<rparr>)"

section \<open>What the store promises\<close>

definition vs_wf :: "mock_vector_store \<Rightarrow> bool" where
  "vs_wf s \<longleftrightarrow> hm_wf (vs_records s) \<and> (\<forall>i r. map_of (vs_records s) i = Some r \<longrightarrow> v_id r = i)"

definition tenant_vectors :: "mock_vector_store \<Rightarrow> tenant_context \<Rightarrow> vector_record set" where
  "tenant_vectors s t = {r \<in> set (hm_values (vs_records s)). record_matches_tenant r t}"

text \<open>
  An upsert may not reuse the identifier of a record of another tenant: the map is keyed by the
  record's identifier alone, so \<open>upsert_view\<close> asks for that.
\<close>

locale vector_store_port =
  fixes invar :: "'s \<Rightarrow> bool"
    and view :: "'s \<Rightarrow> tenant_context \<Rightarrow> vector_record set"
    and upsert :: "tenant_context \<Rightarrow> vector_record \<Rightarrow> ('s, memcore_error, unit) comp"
    and search :: "vector_search_query \<Rightarrow> ('s, memcore_error, vector_search_result list) comp"
    and del_fact :: "tenant_context \<Rightarrow> uuid \<Rightarrow> ('s, memcore_error, unit) comp"
    and del_user :: "tenant_context \<Rightarrow> ('s, memcore_error, unit) comp"
  assumes view_owner: "r \<in> view s t \<Longrightarrow> record_matches_tenant r t"
    and upsert_view: "invar s \<Longrightarrow> upsert t r s = (Inr u, s') \<Longrightarrow>
      (\<And>t' r'. r' \<in> view s t' \<Longrightarrow> v_id r' = v_id r \<Longrightarrow> t' = t) \<Longrightarrow>
      view s' = (view s)(t := insert r {x \<in> view s t. v_id x \<noteq> v_id r})"
    and upsert_ok: "record_matches_tenant r t \<Longrightarrow> \<exists>s'. upsert t r s = (Inr (), s')"
    and upsert_err: "upsert t r s = (Inl e, s') \<Longrightarrow> s' = s \<and> \<not> record_matches_tenant r t"
    and del_fact_view: "invar s \<Longrightarrow> view (snd (del_fact t i s)) = (view s)(t := {r \<in> view s t. v_fact_id r \<noteq> i})"
    and del_fact_result: "invar s \<Longrightarrow>
      fst (del_fact t i s) = (if \<exists>r \<in> view s t. v_fact_id r = i then Inr ()
        else Inl (NotFound (''vector record not found for fact: '' @ uuid_to_string i)))"
    and del_user_view: "invar s \<Longrightarrow> \<exists>s'. del_user t s = (Inr (), s') \<and> view s' = (view s)(t := {})"
    and search_sound: "invar s \<Longrightarrow> search q s = (Inr rs, s') \<Longrightarrow> x \<in> set rs \<Longrightarrow>
      \<exists>r \<in> view s (vq_tenant q). vector_query_matches q r \<and> x = score_record (vq_embedding q) r"
    and search_total: "\<exists>rs. search q s = (Inr rs, s) \<and> length rs \<le> vq_limit q"
    and invar_upsert: "preserves invar (upsert t r)"
    and invar_search: "preserves invar (search q)"
    and invar_del_fact: "preserves invar (del_fact t i)"
    and invar_del_user: "preserves invar (del_user t)"
begin

lemmas invar_ops = invar_upsert invar_search invar_del_fact invar_del_user

lemma del_fact_other: "invar s \<Longrightarrow> t \<noteq> t' \<Longrightarrow> view (snd (del_fact t i s)) t' = view s t'"
  by (simp add: del_fact_view)

lemma del_user_other: "invar s \<Longrightarrow> t \<noteq> t' \<Longrightarrow> view (snd (del_user t s)) t' = view s t'"
  using del_user_view [of s t] by auto

lemma upsert_other:
  assumes "invar s" and "\<And>t' r'. r' \<in> view s t' \<Longrightarrow> v_id r' = v_id r \<Longrightarrow> t' = t" and "t \<noteq> t'"
  shows "view (snd (upsert t r s)) t' = view s t'"
proof (cases "upsert t r s")
  case (Pair a s')
  then show ?thesis
    using upsert_view [OF assms(1), of t r _ s'] upsert_err [of t r s _ s'] assms(2,3)
    by (cases a) (simp, auto)
qed

text \<open>After the deletion of a fact no search of its tenant returns it.\<close>

lemma search_after_del_fact:
  assumes "invar s" and "del_fact t i s = (res, s')" and "search q s' = (Inr rs, s'')"
    and "vq_tenant q = t" and "x \<in> set rs"
  shows "vr_fact_id x \<noteq> i"
proof -
  have "invar s'"
    using preserves_result [OF invar_del_fact assms(1,2)] .
  then obtain r where "r \<in> view s' t" "x = score_record (vq_embedding q) r"
    using search_sound [OF _ assms(3,5)] assms(4) by blast
  then show ?thesis
    using del_fact_view [OF assms(1), of t i] assms(2) by (auto simp: score_record_def)
qed

end

section \<open>The in-memory store keeps the promise\<close>

lemma record_tenant_eqI: "record_matches_tenant r t \<Longrightarrow> record_matches_tenant r t' \<Longrightarrow> t = t'"
  by (simp add: record_matches_tenant_def)

lemma vs_values_iff: "vs_wf s \<Longrightarrow> r \<in> set (hm_values (vs_records s)) \<longleftrightarrow> map_of (vs_records s) (v_id r) = Some r"
  by (auto simp: vs_wf_def in_hm_values_iff)

lemma vs_wf_new [simp]: "vs_wf vector_store_new"
  by (simp add: vs_wf_def vector_store_new_def)

lemma vs_wf_retain: "vs_wf s \<Longrightarrow> vs_wf (s\<lparr>vs_records := hm_retain p (vs_records s)\<rparr>)"
  by (auto simp: vs_wf_def map_of_hm_retain split: option.splits if_splits)

lemma values_retain: "set (hm_values (hm_retain (\<lambda>_. p) m)) = {v \<in> set (hm_values m). p v}"
  by (force simp: hm_values_def hm_retain_def)

lemma length_retain_eq: "length (hm_retain (\<lambda>_. p) m) = length m \<longleftrightarrow> (\<forall>v \<in> set (hm_values m). p v)"
proof -
  have "length (filter q m) = length m \<longleftrightarrow> (\<forall>x \<in> set m. q x)" for q
    by (metis filter_True length_filter_less less_irrefl)
  then show ?thesis
    by (force simp: hm_retain_def hm_values_def)
qed

lemma upsert_vector_view:
  assumes "vs_wf s" and "upsert_vector t r s = (Inr u, s')"
    and fresh: "\<And>t' r'. r' \<in> tenant_vectors s t' \<Longrightarrow> v_id r' = v_id r \<Longrightarrow> t' = t"
  shows "tenant_vectors s' = (tenant_vectors s)(t := insert r {x \<in> tenant_vectors s t. v_id x \<noteq> v_id r})"
proof (rule ext)
  fix t'
  from assms(2) have t: "record_matches_tenant r t"
    and s': "s' = s\<lparr>vs_records := AList.update (v_id r) r (vs_records s)\<rparr>"
    by (auto simp: upsert_vector_def ensure_record_tenant_def split: if_splits)
  have wf': "vs_wf s'"
    using assms(1) by (auto simp: s' vs_wf_def)
  have mem: "x \<in> set (hm_values (vs_records s')) \<longleftrightarrow>
      x = r \<or> (x \<in> set (hm_values (vs_records s)) \<and> v_id x \<noteq> v_id r)" for x
    using vs_values_iff [OF wf', of x] vs_values_iff [OF assms(1), of x] by (auto simp: s')
  show "tenant_vectors s' t' =
      ((tenant_vectors s)(t := insert r {x \<in> tenant_vectors s t. v_id x \<noteq> v_id r})) t'"
  proof (cases "t' = t")
    case True
    with t show ?thesis by (auto simp: tenant_vectors_def mem)
  next
    case False
    then have "\<not> record_matches_tenant r t'"
      using t record_tenant_eqI by blast
    moreover have "v_id x \<noteq> v_id r" if "x \<in> tenant_vectors s t'" for x
      using fresh [OF that] False by blast
    ultimately show ?thesis
      using False by (auto simp: tenant_vectors_def mem)
  qed
qed

interpretation mock_vectors: vector_store_port vs_wf tenant_vectors upsert_vector search_vectors
    delete_by_fact_id delete_by_user
proof (unfold_locales, goal_cases)
  case (1 r s t)
  then show ?case by (simp add: tenant_vectors_def)
next
  case (2 s t r u s')
  then show ?case by (intro upsert_vector_view)
next
  case (3 r t s)
  then show ?case by (simp add: upsert_vector_def ensure_record_tenant_def)
next
  case (4 t r s e s')
  then show ?case by (auto simp: upsert_vector_def ensure_record_tenant_def split: if_splits)
next
  case (5 s t i)
  then show ?case
    by (auto simp: fun_eq_iff delete_by_fact_id_def Let_def tenant_vectors_def values_retain
        dest: record_tenant_eqI)
next
  case (6 s t i)
  then show ?case
    by (auto simp: delete_by_fact_id_def Let_def tenant_vectors_def length_retain_eq)
next
  case (7 s t)
  then show ?case
    by (auto simp: fun_eq_iff delete_by_user_def tenant_vectors_def values_retain record_matches_tenant_def)
next
  case (8 s q rs s' x)
  then have "x \<in> score_record (vq_embedding q) ` set (filter (vector_query_matches q) (hm_values (vs_records s)))"
    by (auto simp: search_vectors_def dest: in_set_takeD)
  then show ?case
    by (auto simp: tenant_vectors_def vector_query_matches_def)
next
  case (9 q s)
  then show ?case by (simp add: search_vectors_def)
next
  case (10 t r)
  then show ?case
    by (rule preservesI) (auto simp: upsert_vector_def vs_wf_def split: sum.splits)
next
  case (11 q)
  then show ?case by (rule preservesI) (simp add: search_vectors_def)
next
  case (12 t i)
  then show ?case by (rule preservesI) (simp add: delete_by_fact_id_def Let_def vs_wf_retain)
next
  case (13 t)
  then show ?case by (rule preservesI) (simp add: delete_by_user_def vs_wf_retain)
qed

lemma score_order_sorted:
  assumes "\<And>x. x \<in> set xs \<Longrightarrow> vr_score x \<noteq> NaN"
  shows "sorted_wrt score_desc_le (sort_by score_desc_le xs)"
proof (rule sorted_wrt_sort_by_on)
  show "total_preorder_on {x. vr_score x \<noteq> NaN} score_desc_le"
    using f32_cmp_total_preorder [of vr_score] by (simp add: score_desc_le_def [abs_def])
  show "set xs \<subseteq> {x. vr_score x \<noteq> NaN}"
    using assms by auto
qed

section \<open>Properties\<close>

text \<open>Tenant isolation of the vector store: deleting by fact or by user, and upserting a record
  whose identifier no other tenant's record carries, leaves the other tenants' records alone.\<close>

theorem vector_store_tenant_isolation:
  assumes "vs_wf s" and "t \<noteq> t'"
  shows "tenant_vectors (snd (delete_by_fact_id t i s)) t' = tenant_vectors s t' \<and>
    tenant_vectors (snd (delete_by_user t s)) t' = tenant_vectors s t' \<and>
    ((\<forall>t' r'. r' \<in> tenant_vectors s t' \<longrightarrow> v_id r' = v_id r \<longrightarrow> t' = t) \<longrightarrow>
       tenant_vectors (snd (upsert_vector t r s)) t' = tenant_vectors s t')"
  using assms mock_vectors.upsert_other [OF assms(1), of r t t']
  by (simp add: mock_vectors.del_fact_other mock_vectors.del_user_other)

definition sample_vector :: "uuid \<Rightarrow> uuid \<Rightarrow> tenant_context \<Rightarrow> f32 list \<Rightarrow> vector_record" where
  "sample_vector i f t emb =
     \<lparr>v_id = i, v_fact_id = f, v_org_id = tc_org_id t, v_user_id = tc_user_id t, v_embedding = emb,
      v_content = ''likes tea'', v_memory_type = Preference, v_metadata = JNull\<rparr>"

definition sample_vectors :: mock_vector_store where
  "sample_vectors = \<lparr>vs_records = [(7, sample_vector 7 1 alice [Fin 1]), (8, sample_vector 8 2 bob [Fin 1])]\<rparr>"

lemma sample_vectors_wf: "vs_wf sample_vectors"
  by (auto simp: vs_wf_def hm_wf_def sample_vectors_def sample_vector_def)

theorem vector_store_tenant_isolation_witness:
  "tenant_vectors (snd (delete_by_user alice sample_vectors)) bob = tenant_vectors sample_vectors bob"
  using vector_store_tenant_isolation [OF sample_vectors_wf, of alice bob]
  by (simp add: alice_def bob_def)

text \<open>C18: Semantic search is exact: it returns at most \<open>limit\<close> scored records, all of the tenant and
  matching the filters, best first; a matching record that is missing scores no better than
  any of a full answer (scores that are not NaN).\<close>

theorem search_vectors_exact:
  assumes "vs_wf s"
    and num: "\<And>r. r \<in> tenant_vectors s (vq_tenant q) \<Longrightarrow> cosine_similarity (vq_embedding q) (v_embedding r) \<noteq> NaN"
  shows "\<exists>rs. search_vectors q s = (Inr rs, s) \<and> length rs \<le> vq_limit q \<and>
    sorted_wrt (\<lambda>x y. f32_le (vr_score y) (vr_score x)) rs \<and>
    (\<forall>x. x \<in> set rs \<longrightarrow> (\<exists>r. r \<in> tenant_vectors s (vq_tenant q) \<and> vector_query_matches q r \<and>
       x = score_record (vq_embedding q) r)) \<and>
    (\<forall>r. r \<in> tenant_vectors s (vq_tenant q) \<longrightarrow> vector_query_matches q r \<longrightarrow>
       score_record (vq_embedding q) r \<in> set rs \<or>
       (length rs = vq_limit q \<and>
        (\<forall>x \<in> set rs. f32_le (cosine_similarity (vq_embedding q) (v_embedding r)) (vr_score x))))"
proof -
  define all where "all = sort_by score_desc_le (map (score_record (vq_embedding q))
    (filter (vector_query_matches q) (hm_values (vs_records s))))"
  define rs where "rs = take (vq_limit q) all"
  have search: "search_vectors q s = (Inr rs, s)"
    by (simp add: search_vectors_def rs_def all_def)
  have all: "set all = score_record (vq_embedding q) ` {r \<in> tenant_vectors s (vq_tenant q). vector_query_matches q r}"
    by (auto simp: all_def tenant_vectors_def vector_query_matches_def)
  then have nan: "vr_score x \<noteq> NaN" if "x \<in> set all" for x
    using that num by (auto simp: score_record_def)
  have so: "sorted_wrt score_desc_le all"
    unfolding all_def using nan by (intro score_order_sorted) (auto simp: all_def)
  have le: "f32_le (vr_score y) (vr_score x)" if "score_desc_le x y" "x \<in> set all" "y \<in> set all" for x y
    using that nan by (auto simp: score_desc_le_def f32_cmp_le_def f32_le_iff_not_lt)
  have sub: "set rs \<subseteq> set all"
    by (simp add: rs_def set_take_subset)
  have "sorted_wrt (\<lambda>x y. f32_le (vr_score y) (vr_score x)) rs"
  proof (rule sorted_wrt_mono_rel)
    show "sorted_wrt score_desc_le rs"
      unfolding rs_def by (rule take_sorted_wrt [OF so])
  qed (use sub le in blast)
  moreover have "score_record (vq_embedding q) r \<in> set rs \<or> (length rs = vq_limit q \<and>
      (\<forall>x \<in> set rs. f32_le (cosine_similarity (vq_embedding q) (v_embedding r)) (vr_score x)))"
    if "r \<in> tenant_vectors s (vq_tenant q)" "vector_query_matches q r" for r
  proof (cases "score_record (vq_embedding q) r \<in> set rs")
    case False
    let ?y = "score_record (vq_embedding q) r"
    have y: "?y \<in> set all" using that all by auto
    with False have d: "?y \<in> set (drop (vq_limit q) all)"
      unfolding rs_def by (metis UnE append_take_drop_id set_append)
    then have "length rs = vq_limit q"
      by (cases "length all \<le> vq_limit q") (auto simp: rs_def)
    moreover have "f32_le (vr_score ?y) (vr_score x)" if "x \<in> set rs" for x
      using sorted_wrt_take_drop [OF so _ d, of x] that sub y le by (auto simp: rs_def)
    ultimately show ?thesis by (auto simp: score_record_def)
  qed simp
  ultimately show ?thesis
    using search sub all by (intro exI [of _ rs]) (auto simp: rs_def)
qed

theorem search_vectors_exact_witness:
  "\<exists>rs. search_vectors \<lparr>vq_tenant = alice, vq_embedding = [], vq_limit = 3, vq_memory_types = None,
      vq_metadata_filter = None\<rparr> sample_vectors = (Inr rs, sample_vectors) \<and> length rs \<le> 3"
  using search_vectors_exact [OF sample_vectors_wf, of "\<lparr>vq_tenant = alice, vq_embedding = [], vq_limit = 3,
      vq_memory_types = None, vq_metadata_filter = None\<rparr>"]
  by (auto simp: cosine_similarity_def)

end
