(* ===== verification/Event_Store.thy ===== *)
theory Event_Store
  imports Fact_Store
begin

text \<open>
  The audit log: the \<open>MemoryEventStore\<close> port of \<^verbatim>\<open>crates/memcore-core/src/ports/event_store.rs\<close>,
  \<open>MockMemoryEventStore\<close> of \<^verbatim>\<open>crates/memcore-storage/src/mocks.rs\<close> and the event builders of
  \<^verbatim>\<open>crates/memcore-core/src/audit/mod.rs\<close>. The log of a tenant is the list of its events in the order
  they were recorded; the locale \<open>event_store_port\<close> says that recording appends to it, that only
  retention removes from it, and that no other tenant's log is touched.
\<close>

section \<open>Queries (\<open>ports/event_store.rs\<close>)\<close>

definition DEFAULT_MEMORY_EVENT_LIST_LIMIT :: nat where
  "DEFAULT_MEMORY_EVENT_LIST_LIMIT = 50"

definition MAX_MEMORY_EVENT_LIST_LIMIT :: nat where
  "MAX_MEMORY_EVENT_LIST_LIMIT = 200"

record memory_event_query =
  eq_tenant :: tenant_context
  eq_fact_id :: "uuid option"
  eq_operation :: "memory_event_operation option"
  eq_created_after :: "datetime option"
  eq_created_before :: "datetime option"
  eq_query_text :: "string option"
  eq_limit :: nat
  eq_cursor :: "page_cursor option"

definition memory_event_query_new :: "tenant_context \<Rightarrow> nat \<Rightarrow> memory_event_query" where
  "memory_event_query_new tenant limit =
     \<lparr>eq_tenant = tenant, eq_fact_id = None, eq_operation = None, eq_created_after = None,
      eq_created_before = None, eq_query_text = None, eq_limit = limit, eq_cursor = None\<rparr>"

record org_memory_event_query =
  oq_org_id :: string
  oq_user_id :: "string option"
  oq_fact_id :: "uuid option"
  oq_operation :: "memory_event_operation option"
  oq_created_after :: "datetime option"
  oq_created_before :: "datetime option"
  oq_query_text :: "string option"
  oq_limit :: nat
  oq_cursor :: "page_cursor option"

definition org_memory_event_query_new :: "string \<Rightarrow> nat \<Rightarrow> org_memory_event_query" where
  "org_memory_event_query_new org limit =
     \<lparr>oq_org_id = org, oq_user_id = None, oq_fact_id = None, oq_operation = None,
      oq_created_after = None, oq_created_before = None, oq_query_text = None, oq_limit = limit,
      oq_cursor = None\<rparr>"

definition validate_event_date_range :: "datetime option \<Rightarrow> datetime option \<Rightarrow> unit memcore_result" where
  "validate_event_date_range created_after created_before =
     (case (created_after, created_before) of
        (Some after, Some before) \<Rightarrow>
          if before \<le> after
          then Inl (ValidationError ''created_after must be earlier than created_before'')
          else Inr ()
      | _ \<Rightarrow> Inr ())"

lemma validate_event_date_range_ok [result_simps]:
  "validate_event_date_range a b = Inr u \<longleftrightarrow> (\<forall>x y. a = Some x \<longrightarrow> b = Some y \<longrightarrow> x < y)"
  by (auto simp: validate_event_date_range_def split: option.splits)

section \<open>The store (\<open>MockMemoryEventStore\<close>)\<close>

record mock_event_store =
  es_events :: "memory_event list"

definition event_store_new :: mock_event_store where
  "event_store_new = \<lparr>es_events = []\<rparr>"

type_synonym 'a event_op = "(mock_event_store, memcore_error, 'a) comp"

definition event_matches_tenant :: "memory_event \<Rightarrow> tenant_context \<Rightarrow> bool" where
  "event_matches_tenant e t \<longleftrightarrow> e_org_id e = tc_org_id t \<and> e_user_id e = tc_user_id t"

definition ensure_event_tenant :: "memory_event \<Rightarrow> tenant_context \<Rightarrow> unit memcore_result" where
  "ensure_event_tenant e t = (if event_matches_tenant e t then Inr () else Inl Forbidden)"

definition event_matches_keyword :: "memory_event \<Rightarrow> string \<Rightarrow> bool \<Rightarrow> bool" where
  "event_matches_keyword e needle include_user_id \<longleftrightarrow>
     optional_contains (e_previous_content e) needle \<or>
     optional_contains (e_new_content e) needle \<or>
     optional_contains (e_provider_name e) needle \<or>
     optional_contains (e_model_name e) needle \<or>
     (include_user_id \<and> contains_case_insensitive (e_user_id e) needle)"

definition normalize_event_list_limit :: "nat \<Rightarrow> nat memcore_result" where
  "normalize_event_list_limit limit =
     (if limit = 0 then Inr DEFAULT_MEMORY_EVENT_LIST_LIMIT
      else if MAX_MEMORY_EVENT_LIST_LIMIT < limit
      then Inl (ValidationError (''limit cannot exceed '' @ show_nat MAX_MEMORY_EVENT_LIST_LIMIT))
      else Inr limit)"

definition event_desc_le :: "memory_event \<Rightarrow> memory_event \<Rightarrow> bool" where
  "event_desc_le = lex_le (\<lambda>a b. e_created_at b \<le> e_created_at a) (\<lambda>a b. e_id b \<le> e_id a)"

definition event_after_cursor :: "page_cursor option \<Rightarrow> memory_event \<Rightarrow> bool" where
  "event_after_cursor c e \<longleftrightarrow> is_none_or c
     (is_after_cursor_in_desc_order (e_created_at e) (uuid_to_string (e_id e)))"

definition record_event :: "tenant_context \<Rightarrow> memory_event \<Rightarrow> memory_event event_op" where
  "record_event t e s =
     (case ensure_event_tenant e t of
        Inl err \<Rightarrow> (Inl err, s)
      | Inr _ \<Rightarrow> (Inr e, s\<lparr>es_events := es_events s @ [e]\<rparr>))"

definition event_query_hits :: "memory_event_query \<Rightarrow> memory_event \<Rightarrow> bool" where
  "event_query_hits q e \<longleftrightarrow>
     event_matches_tenant e (eq_tenant q) \<and>
     is_none_or (eq_fact_id q) (\<lambda>i. e_fact_id e = Some i) \<and>
     is_none_or (eq_operation q) (\<lambda>oper. e_operation e = oper) \<and>
     is_none_or (eq_created_after q) (\<lambda>d. d \<le> e_created_at e) \<and>
     is_none_or (eq_created_before q) (\<lambda>d. e_created_at e < d) \<and>
     is_none_or (eq_query_text q) (\<lambda>text. event_matches_keyword e text False)"

definition list_events :: "memory_event_query \<Rightarrow> memory_event list event_op" where
  "list_events q s =
     (case normalize_event_list_limit (eq_limit q) of
        Inl err \<Rightarrow> (Inl err, s)
      | Inr _ \<Rightarrow>
          (Inr (take (page_fetch_limit (eq_limit q))
             (sort_by event_desc_le
               (filter (event_after_cursor (eq_cursor q)) (filter (event_query_hits q) (es_events s))))), s))"

definition org_event_query_hits :: "org_memory_event_query \<Rightarrow> memory_event \<Rightarrow> bool" where
  "org_event_query_hits q e \<longleftrightarrow>
     e_org_id e = oq_org_id q \<and>
     is_none_or (oq_user_id q) (\<lambda>u. e_user_id e = u) \<and>
     is_none_or (oq_fact_id q) (\<lambda>i. e_fact_id e = Some i) \<and>
     is_none_or (oq_operation q) (\<lambda>oper. e_operation e = oper) \<and>
     is_none_or (oq_created_after q) (\<lambda>d. d \<le> e_created_at e) \<and>
     is_none_or (oq_created_before q) (\<lambda>d. e_created_at e < d) \<and>
     is_none_or (oq_query_text q) (\<lambda>text. event_matches_keyword e text True)"

definition list_events_by_org :: "org_memory_event_query \<Rightarrow> memory_event list event_op" where
  "list_events_by_org q s =
     (case normalize_event_list_limit (oq_limit q) of
        Inl err \<Rightarrow> (Inl err, s)
      | Inr limit \<Rightarrow>
          (Inr (take (page_fetch_limit limit)
             (sort_by event_desc_le
               (filter (event_after_cursor (oq_cursor q)) (filter (org_event_query_hits q) (es_events s))))), s))"

definition delete_events_older_than :: "tenant_context \<Rightarrow> datetime \<Rightarrow> bool \<Rightarrow> nat event_op" where
  "delete_events_older_than t cutoff dry_run s =
     (let before_len = length (es_events s) in
      if dry_run
      then (Inr (length (filter (\<lambda>e. e_created_at e < cutoff)
              (filter (\<lambda>e. event_matches_tenant e t) (es_events s)))), s)
      else let kept = filter (\<lambda>e. \<not> (event_matches_tenant e t \<and> e_created_at e < cutoff)) (es_events s)
           in (Inr (before_len - length kept), s\<lparr>es_events := kept\<rparr>))"

definition count_events_by_org :: "string \<Rightarrow> nat event_op" where
  "count_events_by_org org s = (Inr (length (filter (\<lambda>e. e_org_id e = org) (es_events s))), s)"

section \<open>Event builders (\<open>audit/mod.rs\<close>)\<close>

text \<open>The fresh identifier and the time of \<open>MemoryEvent::new\<close> are the first two arguments.\<close>

definition audit_metadata_for_decision :: "fact_operation_decision \<Rightarrow> json" where
  "audit_metadata_for_decision d =
     JObject [(''classification_confidence'', case d_confidence d of Fin r \<Rightarrow> JFloat r | _ \<Rightarrow> JNull),
              (''reason'', json_opt JString (d_reason d)),
              (''target_fact_id'', json_opt (\<lambda>i. JString (uuid_to_string i)) (d_target_fact_id d))]"

definition build_add_event ::
  "uuid \<Rightarrow> datetime \<Rightarrow> tenant_context \<Rightarrow> fact \<Rightarrow> string option \<Rightarrow> string option \<Rightarrow> json \<Rightarrow> memory_event" where
  "build_add_event uid now t f provider_name model_name metadata =
     memory_event_new uid now (tc_org_id t) (tc_user_id t) (Some (f_id f)) EvAdd None
       (Some (f_content f)) provider_name model_name metadata"

definition build_update_event ::
  "uuid \<Rightarrow> datetime \<Rightarrow> tenant_context \<Rightarrow> fact \<Rightarrow> fact \<Rightarrow> string option \<Rightarrow> string option \<Rightarrow> json \<Rightarrow>
   memory_event" where
  "build_update_event uid now t previous updated provider_name model_name metadata =
     memory_event_new uid now (tc_org_id t) (tc_user_id t) (Some (f_id updated)) EvUpdate
       (Some (f_content previous)) (Some (f_content updated)) provider_name model_name metadata"

definition build_delete_event ::
  "uuid \<Rightarrow> datetime \<Rightarrow> tenant_context \<Rightarrow> fact \<Rightarrow> string option \<Rightarrow> string option \<Rightarrow> json \<Rightarrow> memory_event" where
  "build_delete_event uid now t f provider_name model_name metadata =
     memory_event_new uid now (tc_org_id t) (tc_user_id t) (Some (f_id f)) EvDelete
       (Some (f_content f)) None provider_name model_name metadata"

definition build_noop_event ::
  "uuid \<Rightarrow> datetime \<Rightarrow> tenant_context \<Rightarrow> fact_operation_decision \<Rightarrow> string option \<Rightarrow> string option \<Rightarrow>
   memory_event" where
  "build_noop_event uid now t d provider_name model_name =
     memory_event_new uid now (tc_org_id t) (tc_user_id t) (d_target_fact_id d) EvNoOp None None
       provider_name model_name (audit_metadata_for_decision d)"

definition build_import_replace_event ::
  "uuid \<Rightarrow> datetime \<Rightarrow> tenant_context \<Rightarrow> string option \<Rightarrow> string option \<Rightarrow> memory_event" where
  "build_import_replace_event uid now t provider_name model_name =
     memory_event_new uid now (tc_org_id t) (tc_user_id t) None EvNoOp None None
       provider_name model_name (JObject [(''source'', JString ''import_replace'')])"

definition build_forget_user_event ::
  "uuid \<Rightarrow> datetime \<Rightarrow> tenant_context \<Rightarrow> string option \<Rightarrow> string option \<Rightarrow> memory_event" where
  "build_forget_user_event uid now t provider_name model_name =
     memory_event_new uid now (tc_org_id t) (tc_user_id t) None EvForgetUser None None
       provider_name model_name (JObject [(''deleted'', JBool True)])"

lemmas event_builders = build_add_event_def build_update_event_def build_delete_event_def
  build_noop_event_def build_import_replace_event_def build_forget_user_event_def memory_event_new_def

text \<open>Recording is best effort: without a store nothing happens, and an error is dropped.\<close>

definition record_event_best_effort ::
  "tenant_context \<Rightarrow> memory_event \<Rightarrow> mock_event_store option \<Rightarrow> mock_event_store option" where
  "record_event_best_effort t e store = map_option (\<lambda>s. snd (record_event t e s)) store"

section \<open>What the log promises\<close>

definition tenant_log :: "mock_event_store \<Rightarrow> tenant_context \<Rightarrow> memory_event list" where
  "tenant_log s t = filter (\<lambda>e. event_matches_tenant e t) (es_events s)"

locale event_store_port =
  fixes log :: "'s \<Rightarrow> tenant_context \<Rightarrow> memory_event list"
    and put :: "tenant_context \<Rightarrow> memory_event \<Rightarrow> ('s, memcore_error, memory_event) comp"
    and listing :: "memory_event_query \<Rightarrow> ('s, memcore_error, memory_event list) comp"
    and expire :: "tenant_context \<Rightarrow> datetime \<Rightarrow> bool \<Rightarrow> ('s, memcore_error, nat) comp"
  assumes put_log: "put t e s = (Inr e', s') \<Longrightarrow> e' = e \<and> event_matches_tenant e t \<and>
      log s' = (log s)(t := log s t @ [e])"
    and put_ok: "event_matches_tenant e t \<Longrightarrow> \<exists>s'. put t e s = (Inr e, s')"
    and put_err: "put t e s = (Inl err, s') \<Longrightarrow> s' = s \<and> err = Forbidden"
    and expire_log: "\<exists>n s'. expire t cutoff dry s = (Inr n, s') \<and>
      n = length (filter (\<lambda>e. e_created_at e < cutoff) (log s t)) \<and>
      log s' = (if dry then log s else (log s)(t := filter (\<lambda>e. cutoff \<le> e_created_at e) (log s t)))"
    and listing_sound: "listing q s = (Inr es, s') \<Longrightarrow> s' = s \<and> sorted_wrt event_desc_le es \<and>
      set es \<subseteq> set (log s (eq_tenant q)) \<and> (\<forall>e \<in> set es. event_query_hits q e)"
begin

lemma put_other: "t \<noteq> t' \<Longrightarrow> log (snd (put t e s)) t' = log s t'"
  by (cases "fst (put t e s)"; cases "put t e s") (auto dest: put_log put_err)

lemma expire_other: "t \<noteq> t' \<Longrightarrow> log (snd (expire t c d s)) t' = log s t'"
  using expire_log [of t c d s] by auto

text \<open>Recording never removes or rewrites an entry: the old log is a prefix of the new one.\<close>

lemma put_prefix: "take (length (log s t')) (log (snd (put t e s)) t') = log s t'"
proof (cases "put t e s")
  case (Pair a s')
  then show ?thesis
    using put_log [of t e s _ s'] put_err [of t e s _ s'] by (cases a) (cases "t = t'"; auto)+
qed

text \<open>A dry run of retention reports the number of events that a run would remove.\<close>

lemma expire_dry_count: "fst (expire t cutoff True s) = fst (expire t cutoff False s)"
  using expire_log [of t cutoff True s] expire_log [of t cutoff False s] by auto

end

section \<open>The in-memory store keeps the promise\<close>

lemma event_tenant_eqI: "event_matches_tenant e t \<Longrightarrow> event_matches_tenant e t' \<Longrightarrow> t = t'"
  by (simp add: event_matches_tenant_def)

lemma event_desc_le_iff:
  "event_desc_le x y \<longleftrightarrow> e_created_at y < e_created_at x \<or> (e_created_at x = e_created_at y \<and> e_id y \<le> e_id x)"
  by (auto simp: event_desc_le_def lex_le_def)

lemma event_desc_le_total: "total_preorder event_desc_le"
  unfolding event_desc_le_def
  by (intro total_preorder_lex_le total_preorder_key_rev)

lemma length_filter_complement: "length xs - length (filter (\<lambda>x. \<not> P x) xs) = length (filter P xs)"
  using sum_length_filter_compl [of P xs] by simp

lemma delete_events_older_than_log:
  "\<exists>n s'. delete_events_older_than t cutoff dry s = (Inr n, s') \<and>
      n = length (filter (\<lambda>e. e_created_at e < cutoff) (tenant_log s t)) \<and>
      tenant_log s' = (if dry then tenant_log s
        else (tenant_log s)(t := filter (\<lambda>e. cutoff \<le> e_created_at e) (tenant_log s t)))"
proof (cases dry)
  case True
  then show ?thesis by (simp add: delete_events_older_than_def tenant_log_def)
next
  case False
  have n: "length (es_events s) - length (filter (\<lambda>e. \<not> (event_matches_tenant e t \<and> e_created_at e < cutoff)) (es_events s))
      = length (filter (\<lambda>e. e_created_at e < cutoff) (tenant_log s t))"
    by (simp only: length_filter_complement tenant_log_def filter_filter)
  have "filter (\<lambda>e. event_matches_tenant e t')
      (filter (\<lambda>e. \<not> (event_matches_tenant e t \<and> e_created_at e < cutoff)) (es_events s))
      = ((tenant_log s)(t := filter (\<lambda>e. cutoff \<le> e_created_at e) (tenant_log s t))) t'" for t'
    by (auto simp: tenant_log_def intro!: filter_cong dest: event_tenant_eqI)
  with False n show ?thesis
    by (simp add: delete_events_older_than_def Let_def fun_eq_iff tenant_log_def del: filter_filter)
qed

interpretation mock_events: event_store_port tenant_log record_event list_events delete_events_older_than
proof (unfold_locales, goal_cases)
  case (1 t e s e' s')
  then show ?case
    by (auto simp: record_event_def ensure_event_tenant_def tenant_log_def fun_eq_iff
        split: if_splits dest: event_tenant_eqI)
next
  case (2 e t s)
  then show ?case by (simp add: record_event_def ensure_event_tenant_def)
next
  case (3 t e s err s')
  then show ?case by (auto simp: record_event_def ensure_event_tenant_def split: if_splits)
next
  case (4 t cutoff dry s)
  then show ?case by (rule delete_events_older_than_log)
next
  case (5 q s es s')
  let ?hits = "filter (event_after_cursor (eq_cursor q)) (filter (event_query_hits q) (es_events s))"
  have es: "es = take (page_fetch_limit (eq_limit q)) (sort_by event_desc_le ?hits)" and "s' = s"
    using 5 by (auto simp: list_events_def split: sum.splits simp del: filter_filter)
  have "set es \<subseteq> set ?hits"
    unfolding es using set_take_subset by fastforce
  moreover have "sorted_wrt event_desc_le es"
    unfolding es by (intro take_sorted_wrt sorted_wrt_sort_by event_desc_le_total)
  ultimately show ?case
    using \<open>s' = s\<close> by (auto simp: tenant_log_def event_query_hits_def)
qed

interpretation event_pages: page_order e_created_at "\<lambda>e. uuid_to_string (e_id e)" event_desc_le
proof
  fix x y :: memory_event
  have "uuid_to_string (e_id y) \<le> uuid_to_string (e_id x) \<longleftrightarrow> e_id y \<le> e_id x"
    by (simp add: uuid_to_string_less flip: not_less)
  then show "event_desc_le x y \<longleftrightarrow> e_created_at y < e_created_at x \<or>
      (e_created_at x = e_created_at y \<and> uuid_to_string (e_id y) \<le> uuid_to_string (e_id x))"
    by (simp add: event_desc_le_iff)
qed

section \<open>Properties\<close>

text \<open>C19: The audit log is append-only: recording, whatever its result, keeps every entry of every
  tenant in place; a successful recording adds exactly the event at the end of its tenant's log;
  an event of another tenant is refused.\<close>

theorem audit_log_append_only:
  "take (length (tenant_log s t')) (tenant_log (snd (record_event t e s)) t') = tenant_log s t' \<and>
   (if event_matches_tenant e t
    then fst (record_event t e s) = Inr e \<and> tenant_log (snd (record_event t e s)) =
         (tenant_log s)(t := tenant_log s t @ [e])
    else record_event t e s = (Inl Forbidden, s))"
proof -
  have "record_event t e s = (Inl Forbidden, s)" if "\<not> event_matches_tenant e t"
    using that by (simp add: record_event_def ensure_event_tenant_def)
  moreover have "fst (record_event t e s) = Inr e \<and> tenant_log (snd (record_event t e s)) =
      (tenant_log s)(t := tenant_log s t @ [e])" if "event_matches_tenant e t"
    using mock_events.put_ok [OF that, of s] mock_events.put_log [of t e s e] by auto
  ultimately show ?thesis
    using mock_events.put_prefix [of s t' t e] by simp
qed

text \<open>Event retention: a dry run reports exactly what a run removes and changes nothing; a run
  removes the tenant's events before the cutoff, keeps the others in order, and touches no other
  tenant.\<close>

theorem event_retention_dry_run:
  "fst (delete_events_older_than t cutoff True s) = fst (delete_events_older_than t cutoff False s) \<and>
   snd (delete_events_older_than t cutoff True s) = s \<and>
   fst (delete_events_older_than t cutoff False s) =
     Inr (length (filter (\<lambda>e. e_created_at e < cutoff) (tenant_log s t))) \<and>
   tenant_log (snd (delete_events_older_than t cutoff False s)) =
     (tenant_log s)(t := filter (\<lambda>e. cutoff \<le> e_created_at e) (tenant_log s t))"
proof -
  have "snd (delete_events_older_than t cutoff True s) = s"
    by (simp add: delete_events_older_than_def)
  then show ?thesis
    using mock_events.expire_dry_count [of t cutoff s] mock_events.expire_log [of t cutoff False s] by auto
qed

text \<open>Following the cursors through the audit log: for every limit the store accepts, a client
  that pages through \<open>list_events\<close> sees every matching event exactly once, newest first.\<close>

theorem event_listing_complete:
  assumes "distinct (map e_id (es_events s))" and "0 < eq_limit q" and "eq_limit q \<le> MAX_MEMORY_EVENT_LIST_LIMIT"
    and "length (es_events s) < fuel"
  shows "page_walk (\<lambda>c. case fst (list_events (q\<lparr>eq_cursor := c\<rparr>) s) of Inr es \<Rightarrow> es | Inl _ \<Rightarrow> [])
      (\<lambda>e. \<lparr>last_id = uuid_to_string (e_id e), last_sort_value = e_created_at e\<rparr>) (eq_limit q) fuel None
    = sort_by event_desc_le (filter (event_query_hits q) (es_events s))"
proof (rule event_pages.page_walk_complete)
  let ?base = "filter (event_query_hits q) (es_events s)"
  have "distinct (map e_id ?base)"
    using assms(1) by (rule distinct_map_filter)
  then show "distinct (map (\<lambda>e. uuid_to_string (e_id e)) ?base)"
    by (simp add: distinct_map inj_on_def)
  show "0 < eq_limit q" by (rule assms(2))
  show "eq_limit q < usize_max"
    using assms(3) by (simp add: MAX_MEMORY_EVENT_LIST_LIMIT_def usize_max_def)
  show "length ?base < fuel"
    using assms(4) length_filter_le [of "event_query_hits q" "es_events s"] by linarith
  fix c
  have "event_query_hits (q\<lparr>eq_cursor := c\<rparr>) = event_query_hits q"
    by (simp add: event_query_hits_def fun_eq_iff)
  then show "(case fst (list_events (q\<lparr>eq_cursor := c\<rparr>) s) of Inr es \<Rightarrow> es | Inl _ \<Rightarrow> []) =
      take (page_fetch_limit (eq_limit q)) (sort_by event_desc_le (filter (\<lambda>x. case c of None \<Rightarrow> True
        | Some c \<Rightarrow> is_after_cursor_in_desc_order (e_created_at x) (uuid_to_string (e_id x)) c) ?base))"
    using assms(2,3)
    by (simp add: list_events_def normalize_event_list_limit_def event_after_cursor_def [abs_def] is_none_or_def
        del: filter_filter)
qed

definition sample_event :: "uuid \<Rightarrow> tenant_context \<Rightarrow> datetime \<Rightarrow> memory_event" where
  "sample_event i t now = build_forget_user_event i now t None None"

theorem event_listing_complete_witness:
  "page_walk (\<lambda>c. case fst (list_events ((memory_event_query_new alice 1)\<lparr>eq_cursor := c\<rparr>)
        \<lparr>es_events = [sample_event 1 alice 5, sample_event 2 bob 6, sample_event 3 alice 7]\<rparr>) of
        Inr es \<Rightarrow> es | Inl _ \<Rightarrow> [])
      (\<lambda>e. \<lparr>last_id = uuid_to_string (e_id e), last_sort_value = e_created_at e\<rparr>) 1 4 None
    = [sample_event 3 alice 7, sample_event 1 alice 5]"
proof -
  let ?es = "[sample_event 1 alice 5, sample_event 2 bob 6, sample_event 3 alice 7]"
  let ?q = "memory_event_query_new alice 1"
  have f: "filter (event_query_hits ?q) ?es = [sample_event 1 alice 5, sample_event 3 alice 7]"
    by (simp add: event_query_hits_def memory_event_query_new_def event_matches_tenant_def sample_event_def
        event_builders alice_def bob_def)
  have so: "sort_by event_desc_le [sample_event 1 alice 5, sample_event 3 alice 7]
      = [sample_event 3 alice 7, sample_event 1 alice 5]"
    by (simp add: event_desc_le_iff sample_event_def event_builders)
  have l: "eq_limit ?q = 1" by (simp add: memory_event_query_new_def)
  have d: "distinct (map e_id ?es)" by (simp add: sample_event_def event_builders)
  show ?thesis
    using event_listing_complete [of "\<lparr>es_events = ?es\<rparr>" ?q 4] d
    unfolding l mock_event_store.simps f so by (simp add: MAX_MEMORY_EVENT_LIST_LIMIT_def del: page_walk.simps)
qed

end
