(* ===== verification/Org_Plan.thy ===== *)
theory Org_Plan
  imports Models
begin

text \<open>
  Organisation plans: \<^verbatim>\<open>crates/memcore-core/src/org/plan.rs\<close>, the limit types of
  \<^verbatim>\<open>crates/memcore-core/src/quota/types.rs\<close> they translate to, and the in-memory plan store of
  \<^verbatim>\<open>crates/memcore-storage/src/org_plan/mock.rs\<close>.
\<close>

section \<open>Limits (\<open>quota/types.rs\<close>, \<open>org/plan.rs\<close>)\<close>

record org_quota_limits =
  ql_enabled :: bool
  ql_max_users_per_org :: "u64 option"
  ql_max_memories_per_user :: "u64 option"
  ql_max_memories_per_org :: "u64 option"
  ql_daily_provider_request_limit :: "u64 option"
  ql_daily_provider_token_limit :: "u64 option"

definition org_quota_limits_disabled :: org_quota_limits where
  "org_quota_limits_disabled =
     \<lparr>ql_enabled = False, ql_max_users_per_org = None, ql_max_memories_per_user = None,
      ql_max_memories_per_org = None, ql_daily_provider_request_limit = None,
      ql_daily_provider_token_limit = None\<rparr>"

definition non_zero_limit :: "u64 \<Rightarrow> u64 option" where
  "non_zero_limit value = (if value = 0 then None else Some value)"

definition org_quota_limits_from_raw ::
  "bool \<Rightarrow> u64 \<Rightarrow> u64 \<Rightarrow> u64 \<Rightarrow> u64 \<Rightarrow> u64 \<Rightarrow> org_quota_limits" where
  "org_quota_limits_from_raw enabled users mem_user mem_org requests tokens =
     \<lparr>ql_enabled = enabled, ql_max_users_per_org = non_zero_limit users,
      ql_max_memories_per_user = non_zero_limit mem_user, ql_max_memories_per_org = non_zero_limit mem_org,
      ql_daily_provider_request_limit = non_zero_limit requests,
      ql_daily_provider_token_limit = non_zero_limit tokens\<rparr>"

datatype org_plan_tier = Free | Starter | Pro | Enterprise | Custom

fun tier_as_str :: "org_plan_tier \<Rightarrow> string" where
  "tier_as_str Free = ''Free''"
| "tier_as_str Starter = ''Starter''"
| "tier_as_str Pro = ''Pro''"
| "tier_as_str Enterprise = ''Enterprise''"
| "tier_as_str Custom = ''Custom''"

fun storage_label :: "org_plan_tier \<Rightarrow> string" where
  "storage_label Free = ''free''"
| "storage_label Starter = ''starter''"
| "storage_label Pro = ''pro''"
| "storage_label Enterprise = ''enterprise''"
| "storage_label Custom = ''custom''"

definition tier_from_str :: "string \<Rightarrow> org_plan_tier memcore_result" where
  "tier_from_str value =
     (let v = to_ascii_lowercase (trim value) in
      if v = ''free'' then Inr Free
      else if v = ''starter'' then Inr Starter
      else if v = ''pro'' then Inr Pro
      else if v = ''enterprise'' then Inr Enterprise
      else if v = ''custom'' then Inr Custom
      else Inl (ValidationError (''invalid org plan tier: '' @ value)))"

record org_plan_limits =
  pl_max_users_per_org :: "u64 option"
  pl_max_memories_per_user :: "u64 option"
  pl_max_memories_per_org :: "u64 option"
  pl_daily_provider_request_limit :: "u64 option"
  pl_daily_provider_token_limit :: "u64 option"

definition org_plan_limits_from_raw :: "u64 \<Rightarrow> u64 \<Rightarrow> u64 \<Rightarrow> u64 \<Rightarrow> u64 \<Rightarrow> org_plan_limits" where
  "org_plan_limits_from_raw users mem_user mem_org requests tokens =
     \<lparr>pl_max_users_per_org = non_zero_limit users, pl_max_memories_per_user = non_zero_limit mem_user,
      pl_max_memories_per_org = non_zero_limit mem_org,
      pl_daily_provider_request_limit = non_zero_limit requests,
      pl_daily_provider_token_limit = non_zero_limit tokens\<rparr>"

definition to_quota_limits :: "org_plan_limits \<Rightarrow> bool \<Rightarrow> org_quota_limits" where
  "to_quota_limits l enabled =
     \<lparr>ql_enabled = enabled, ql_max_users_per_org = pl_max_users_per_org l,
      ql_max_memories_per_user = pl_max_memories_per_user l, ql_max_memories_per_org = pl_max_memories_per_org l,
      ql_daily_provider_request_limit = pl_daily_provider_request_limit l,
      ql_daily_provider_token_limit = pl_daily_provider_token_limit l\<rparr>"

record org_plan_config =
  op_org_id :: string
  op_tier :: org_plan_tier
  op_limits :: org_plan_limits
  op_is_active :: bool
  op_metadata :: "json option"
  op_created_at :: datetime
  op_updated_at :: datetime

section \<open>Metadata validation\<close>

definition FORBIDDEN_PLAN_KEYS :: "string list" where
  "FORBIDDEN_PLAN_KEYS =
     [''secret'', ''password'', ''token'', ''api_key'', ''apikey'', ''bearer'', ''stripe'', ''payment'', ''customer_id'']"

definition forbidden_plan_key :: "string \<Rightarrow> bool" where
  "forbidden_plan_key key \<longleftrightarrow> list_ex (contains (to_ascii_lowercase key)) FORBIDDEN_PLAN_KEYS"

text \<open>The two loops (over an object's entries, over an array) return at the first error.\<close>

fun validate_metadata_value :: "json \<Rightarrow> unit memcore_result"
  and validate_metadata_entries :: "(string \<times> json) list \<Rightarrow> unit memcore_result"
  and validate_metadata_items :: "json list \<Rightarrow> unit memcore_result" where
  "validate_metadata_value (JObject entries) = validate_metadata_entries entries"
| "validate_metadata_value (JArray items) = validate_metadata_items items"
| "validate_metadata_value _ = Inr ()"
| "validate_metadata_entries [] = Inr ()"
| "validate_metadata_entries ((key, v) # rest) =
     (if forbidden_plan_key key
      then Inl (ValidationError (''plan metadata contains a forbidden key: '' @ key))
      else and_then (validate_metadata_value v) (\<lambda>_. validate_metadata_entries rest))"
| "validate_metadata_items [] = Inr ()"
| "validate_metadata_items (v # rest) =
     and_then (validate_metadata_value v) (\<lambda>_. validate_metadata_items rest)"

definition validate_org_plan_metadata :: "json option \<Rightarrow> unit memcore_result" where
  "validate_org_plan_metadata metadata =
     (case metadata of None \<Rightarrow> Inr () | Some v \<Rightarrow> validate_metadata_value v)"

definition org_plan_validate :: "org_plan_config \<Rightarrow> unit memcore_result" where
  "org_plan_validate p =
     (if is_blank (op_org_id p) then Inl (ValidationError ''org_id cannot be empty'')
      else validate_org_plan_metadata (op_metadata p))"

section \<open>The store (\<open>MockOrgPlanStore\<close>)\<close>

record mock_org_plan_store =
  ops_plans :: "(string, org_plan_config) hash_map"

definition org_plan_store_new :: mock_org_plan_store where
  "org_plan_store_new = \<lparr>ops_plans = []\<rparr>"

type_synonym 'a plan_op = "(mock_org_plan_store, memcore_error, 'a) comp"

definition get_org_plan :: "string \<Rightarrow> org_plan_config option plan_op" where
  "get_org_plan org s =
     (if is_blank org then (Inl (ValidationError ''org_id cannot be empty''), s)
      else (Inr (map_of (ops_plans s) org), s))"

definition upsert_org_plan :: "org_plan_config \<Rightarrow> org_plan_config plan_op" where
  "upsert_org_plan p s =
     (case org_plan_validate p of
        Inl e \<Rightarrow> (Inl e, s)
      | Inr _ \<Rightarrow>
          (let p' = (case map_of (ops_plans s) (op_org_id p) of
                       Some existing \<Rightarrow> p\<lparr>op_created_at := op_created_at existing\<rparr>
                     | None \<Rightarrow> p)
           in (Inr p', s\<lparr>ops_plans := AList.update (op_org_id p') p' (ops_plans s)\<rparr>)))"

definition delete_org_plan :: "string \<Rightarrow> bool plan_op" where
  "delete_org_plan org s =
     (if is_blank org then (Inl (ValidationError ''org_id cannot be empty''), s)
      else (Inr (map_of (ops_plans s) org \<noteq> None),
            s\<lparr>ops_plans := hm_retain (\<lambda>k _. k \<noteq> org) (ops_plans s)\<rparr>))"

section \<open>What validation accepts\<close>

text \<open>The keys of a JSON value, at every depth.\<close>

fun json_keys :: "json \<Rightarrow> string set" where
  "json_keys (JObject entries) = (\<Union>(k, v) \<in> set entries. insert k (json_keys v))"
| "json_keys (JArray items) = (\<Union>v \<in> set items. json_keys v)"
| "json_keys _ = {}"

lemma validate_metadata_iff:
  "validate_metadata_value v = Inr () \<longleftrightarrow> (\<forall>k \<in> json_keys v. \<not> forbidden_plan_key k)"
  "validate_metadata_entries kvs = Inr () \<longleftrightarrow>
     (\<forall>(k, v) \<in> set kvs. \<not> forbidden_plan_key k \<and> (\<forall>k \<in> json_keys v. \<not> forbidden_plan_key k))"
  "validate_metadata_items vs = Inr () \<longleftrightarrow> (\<forall>v \<in> set vs. \<forall>k \<in> json_keys v. \<not> forbidden_plan_key k)"
  by (induction v and kvs and vs rule: validate_metadata_value_validate_metadata_entries_validate_metadata_items.induct)
    (auto simp: result_simps)

lemma tier_storage_roundtrip: "tier_from_str (storage_label t) = Inr t"
proof -
  have "to_ascii_lowercase (storage_label t) = storage_label t"
    by (cases t) (simp_all, code_simp+)
  then show ?thesis
    by (cases t) (simp_all add: tier_from_str_def str_eval)
qed

section \<open>Properties\<close>

text \<open>The plan store keeps only valid plans and answers for what was stored: after an upsert that
  succeeds, the plan without forbidden metadata keys (at any depth) is read back with the first
  creation time kept, other organisations' plans are untouched, and after its deletion nothing is
  found.\<close>

theorem org_plan_roundtrip:
  assumes "hm_wf (ops_plans s)" and "upsert_org_plan p s = (Inr p', s')"
  shows "(\<forall>k \<in> (case op_metadata p of None \<Rightarrow> {} | Some v \<Rightarrow> json_keys v). \<not> forbidden_plan_key k) \<and>
    get_org_plan (op_org_id p) s' = (Inr (Some p'), s') \<and>
    p' = p\<lparr>op_created_at := (case map_of (ops_plans s) (op_org_id p) of Some e \<Rightarrow> op_created_at e | None \<Rightarrow> op_created_at p)\<rparr> \<and>
    (\<forall>org. org \<noteq> op_org_id p \<longrightarrow> map_of (ops_plans s') org = map_of (ops_plans s) org) \<and>
    (\<exists>s''. delete_org_plan (op_org_id p) s' = (Inr True, s'') \<and> get_org_plan (op_org_id p) s'' = (Inr None, s''))"
proof -
  from assms(2) have v: "org_plan_validate p = Inr ()"
    and s': "s' = s\<lparr>ops_plans := AList.update (op_org_id p) p' (ops_plans s)\<rparr>"
    and p': "p' = p\<lparr>op_created_at := (case map_of (ops_plans s) (op_org_id p) of Some e \<Rightarrow> op_created_at e | None \<Rightarrow> op_created_at p)\<rparr>"
    by (auto simp: upsert_org_plan_def Let_def split: sum.splits option.splits)
  have b: "\<not> is_blank (op_org_id p)"
    using v by (auto simp: org_plan_validate_def split: if_splits)
  have wf: "hm_wf (AList.update (op_org_id p) p' (ops_plans s))"
    using assms(1) by simp
  have "\<forall>k \<in> (case op_metadata p of None \<Rightarrow> {} | Some v \<Rightarrow> json_keys v). \<not> forbidden_plan_key k"
    using v b by (auto simp: org_plan_validate_def validate_org_plan_metadata_def validate_metadata_iff split: option.splits)
  moreover have "\<exists>s''. delete_org_plan (op_org_id p) s' = (Inr True, s'') \<and> get_org_plan (op_org_id p) s'' = (Inr None, s'')"
    using b wf by (auto simp: delete_org_plan_def get_org_plan_def s' map_of_hm_retain)
  ultimately show ?thesis
    using b p' by (simp add: get_org_plan_def s')
qed

definition sample_plan :: org_plan_config where
  "sample_plan = \<lparr>op_org_id = ''acme'', op_tier = Pro, op_limits = org_plan_limits_from_raw 5 0 100 0 0,
     op_is_active = True, op_metadata = None, op_created_at = 1, op_updated_at = 1\<rparr>"

theorem org_plan_roundtrip_witness:
  "get_org_plan ''acme'' (snd (upsert_org_plan sample_plan org_plan_store_new)) =
     (Inr (Some sample_plan), snd (upsert_org_plan sample_plan org_plan_store_new))"
proof -
  have "upsert_org_plan sample_plan org_plan_store_new = (Inr sample_plan, \<lparr>ops_plans = [(''acme'', sample_plan)]\<rparr>)"
    by (simp add: upsert_org_plan_def org_plan_validate_def validate_org_plan_metadata_def sample_plan_def
        org_plan_store_new_def str_eval Let_def)
  then show ?thesis
    using org_plan_roundtrip [of org_plan_store_new sample_plan sample_plan "\<lparr>ops_plans = [(''acme'', sample_plan)]\<rparr>"]
    by (simp add: sample_plan_def org_plan_store_new_def)
qed

end
