(* ===== verification/Rust_F64.thy ===== *)
theory Rust_F64
  imports Rust_F32
begin

text \<open>
  Addition of \<open>f64\<close> values (IEEE binary64, round to nearest, ties to even), which the usage
  statistics need for estimated costs. The rounding is that of \<open>Rust_F32\<close> at 53 bits.
\<close>

datatype f64 = NaN64 | NegInf64 | PosInf64 | Fin64 rat

definition ulp_exp64 :: "rat \<Rightarrow> int" where
  "ulp_exp64 r = max (exponent r) (- 1022) - 52"

definition round_pos64 :: "rat \<Rightarrow> rat" where
  "round_pos64 r = of_int (round_even (r / 2 powi ulp_exp64 r)) * 2 powi ulp_exp64 r"

definition f64_of_rat :: "rat \<Rightarrow> f64" where
  "f64_of_rat r =
     (if r = 0 then Fin64 0
      else if 0 < r then (if round_pos64 r < 2 ^ 1024 then Fin64 (round_pos64 r) else PosInf64)
      else (if round_pos64 (- r) < 2 ^ 1024 then Fin64 (- round_pos64 (- r)) else NegInf64))"

fun f64_add :: "f64 \<Rightarrow> f64 \<Rightarrow> f64" where
  "f64_add NaN64 _ = NaN64"
| "f64_add _ NaN64 = NaN64"
| "f64_add PosInf64 NegInf64 = NaN64"
| "f64_add NegInf64 PosInf64 = NaN64"
| "f64_add PosInf64 _ = PosInf64"
| "f64_add _ PosInf64 = PosInf64"
| "f64_add NegInf64 _ = NegInf64"
| "f64_add _ NegInf64 = NegInf64"
| "f64_add (Fin64 a) (Fin64 b) = f64_of_rat (a + b)"

end
