(* ===== verification/Usage_Store.thy ===== *)
theory Usage_Store
  imports Event_Store Rust_F64
begin

text \<open>
  Usage accounting: provider usage events (\<^verbatim>\<open>crates/memcore-core/src/ports/provider_usage.rs\<close>,
  \<^verbatim>\<open>crates/memcore-storage/src/provider_usage/mock.rs\<close>), memory usage snapshots
  (\<^verbatim>\<open>crates/memcore-storage/src/memory_usage/mock.rs\<close>) and the admin usage types and windows
  (\<^verbatim>\<open>crates/memcore-core/src/admin/usage\<close>).
\<close>

section \<open>Provider usage events (\<open>ports/provider_usage.rs\<close>)\<close>

definition DEFAULT_PROVIDER_USAGE_LIMIT :: nat where
  "DEFAULT_PROVIDER_USAGE_LIMIT = 50"

definition MAX_PROVIDER_USAGE_LIMIT :: nat where
  "MAX_PROVIDER_USAGE_LIMIT = 100"

datatype provider_usage_capability = Llm | Embedding | Summarization

datatype provider_call_status = CallSuccess | CallError

record provider_usage_event_record =
  pu_id :: uuid
  pu_org_id :: string
  pu_user_id :: "string option"
  pu_provider_name :: string
  pu_model_name :: "string option"
  pu_capability :: provider_usage_capability
  pu_operation_name :: string
  pu_status :: provider_call_status
  pu_input_tokens :: "u64 option"
  pu_output_tokens :: "u64 option"
  pu_total_tokens :: "u64 option"
  pu_retry_count :: u64
  pu_fallback_used :: bool
  pu_circuit_blocked :: bool
  pu_timed_out :: bool
  pu_estimated_cost_usd :: "f64 option"
  pu_metadata :: "json option"
  pu_created_at :: datetime

record provider_usage_query =
  uq_org_id :: string
  uq_user_id :: "string option"
  uq_provider_name :: "string option"
  uq_model_name :: "string option"
  uq_capability :: "provider_usage_capability option"
  uq_operation_name :: "string option"
  uq_created_after :: "datetime option"
  uq_created_before :: "datetime option"
  uq_limit :: nat
  uq_cursor :: "page_cursor option"

definition provider_usage_query_new :: "string \<Rightarrow> nat \<Rightarrow> provider_usage_query" where
  "provider_usage_query_new org limit =
     \<lparr>uq_org_id = org, uq_user_id = None, uq_provider_name = None, uq_model_name = None,
      uq_capability = None, uq_operation_name = None, uq_created_after = None, uq_created_before = None,
      uq_limit = limit, uq_cursor = None\<rparr>"

record provider_usage_daily_query =
  dq_org_id :: string
  dq_provider_name :: "string option"
  dq_model_name :: "string option"
  dq_capability :: "provider_usage_capability option"
  dq_created_after :: datetime
  dq_created_before :: datetime

definition provider_usage_daily_query_new :: "string \<Rightarrow> datetime \<Rightarrow> datetime \<Rightarrow> provider_usage_daily_query" where
  "provider_usage_daily_query_new org after before =
     \<lparr>dq_org_id = org, dq_provider_name = None, dq_model_name = None, dq_capability = None,
      dq_created_after = after, dq_created_before = before\<rparr>"

record provider_usage_summary =
  su_requests :: u64
  su_successes :: u64
  su_errors :: u64
  su_retries :: u64
  su_fallbacks :: u64
  su_circuit_blocks :: u64
  su_timeouts :: u64
  su_input_tokens :: u64
  su_output_tokens :: u64
  su_tokens :: u64
  su_estimated_cost_usd :: "f64 option"

definition provider_usage_summary_default :: provider_usage_summary where
  "provider_usage_summary_default =
     \<lparr>su_requests = 0, su_successes = 0, su_errors = 0, su_retries = 0, su_fallbacks = 0,
      su_circuit_blocks = 0, su_timeouts = 0, su_input_tokens = 0, su_output_tokens = 0, su_tokens = 0,
      su_estimated_cost_usd = None\<rparr>"

record provider_usage_query_result =
  ur_events :: "provider_usage_event_record list"
  ur_next_cursor :: "string option"
  ur_summary :: provider_usage_summary

definition validate_provider_usage_limit :: "nat \<Rightarrow> nat memcore_result" where
  "validate_provider_usage_limit limit =
     (if limit = 0 then Inr DEFAULT_PROVIDER_USAGE_LIMIT
      else if MAX_PROVIDER_USAGE_LIMIT < limit
      then Inl (ValidationError (''limit cannot exceed '' @ show_nat MAX_PROVIDER_USAGE_LIMIT))
      else Inr limit)"

section \<open>Daily buckets and snapshots (\<open>admin/usage/types.rs\<close>)\<close>

text \<open>A \<open>NaiveDate\<close> is the number of the day since the epoch. A daily bucket has the fields of a
  summary and its date.\<close>

definition date_naive :: "datetime \<Rightarrow> int" where
  "date_naive d = d div days 1"

record provider_usage_daily_bucket = provider_usage_summary +
  bk_date :: int

definition bucket_empty :: "int \<Rightarrow> provider_usage_daily_bucket" where
  "bucket_empty date =
     \<lparr>su_requests = 0, su_successes = 0, su_errors = 0, su_retries = 0, su_fallbacks = 0,
      su_circuit_blocks = 0, su_timeouts = 0, su_input_tokens = 0, su_output_tokens = 0, su_tokens = 0,
      su_estimated_cost_usd = None, bk_date = date\<rparr>"

record memory_usage_snapshot =
  ms_id :: uuid
  ms_org_id :: string
  ms_total_users :: u64
  ms_total_memories :: u64
  ms_active_memories :: u64
  ms_deleted_memories :: "u64 option"
  ms_captured_at :: datetime
  ms_metadata :: "json option"

record memory_usage_snapshot_query =
  sq_org_id :: string
  sq_created_after :: "datetime option"
  sq_created_before :: "datetime option"
  sq_limit :: nat
  sq_cursor :: "page_cursor option"

record memory_usage_snapshot_query_result =
  sr_snapshots :: "memory_usage_snapshot list"
  sr_next_cursor :: "string option"

section \<open>The provider usage store (\<open>MockProviderUsageStore\<close>)\<close>

record mock_usage_store =
  us_events :: "provider_usage_event_record list"

definition usage_store_new :: mock_usage_store where
  "usage_store_new = \<lparr>us_events = []\<rparr>"

type_synonym 'a usage_op = "(mock_usage_store, fault, 'a) comp"

text \<open>The counters that \<open>compute_summary\<close> and \<open>add_event_to_bucket\<close> advance by one event.\<close>

definition count_event ::
  "provider_usage_event_record \<Rightarrow> 'a provider_usage_summary_scheme \<Rightarrow> 'a provider_usage_summary_scheme" where
  "count_event e b =
     b\<lparr>su_requests := u64_saturating_add (su_requests b) 1,
       su_successes := (if pu_status e = CallSuccess then u64_saturating_add (su_successes b) 1 else su_successes b),
       su_errors := (if pu_status e = CallError then u64_saturating_add (su_errors b) 1 else su_errors b),
       su_retries := u64_saturating_add (su_retries b) (pu_retry_count e),
       su_fallbacks := (if pu_fallback_used e then u64_saturating_add (su_fallbacks b) 1 else su_fallbacks b),
       su_circuit_blocks :=
         (if pu_circuit_blocked e then u64_saturating_add (su_circuit_blocks b) 1 else su_circuit_blocks b),
       su_timeouts := (if pu_timed_out e then u64_saturating_add (su_timeouts b) 1 else su_timeouts b),
       su_input_tokens := u64_saturating_add (su_input_tokens b) (case pu_input_tokens e of None \<Rightarrow> 0 | Some n \<Rightarrow> n),
       su_output_tokens := u64_saturating_add (su_output_tokens b) (case pu_output_tokens e of None \<Rightarrow> 0 | Some n \<Rightarrow> n),
       su_tokens := u64_saturating_add (su_tokens b) (case pu_total_tokens e of None \<Rightarrow> 0 | Some n \<Rightarrow> n)\<rparr>"

fun summary_loop ::
  "provider_usage_event_record list \<Rightarrow> provider_usage_summary \<Rightarrow> bool \<Rightarrow> f64 \<Rightarrow> provider_usage_summary" where
  "summary_loop [] summary has_cost total_cost =
     summary\<lparr>su_estimated_cost_usd := (if has_cost then Some total_cost else None)\<rparr>"
| "summary_loop (e # es) summary has_cost total_cost =
     (case pu_estimated_cost_usd e of
        Some cost \<Rightarrow> summary_loop es (count_event e summary) True (f64_add total_cost cost)
      | None \<Rightarrow> summary_loop es (count_event e summary) has_cost total_cost)"

definition compute_summary :: "provider_usage_event_record list \<Rightarrow> provider_usage_summary" where
  "compute_summary events = summary_loop events provider_usage_summary_default False (Fin64 0)"

definition usage_matches_query :: "provider_usage_query \<Rightarrow> provider_usage_event_record \<Rightarrow> bool" where
  "usage_matches_query q e \<longleftrightarrow>
     pu_org_id e = uq_org_id q \<and>
     is_none_or (uq_user_id q) (\<lambda>u. pu_user_id e = Some u) \<and>
     is_none_or (uq_provider_name q) (\<lambda>n. pu_provider_name e = n) \<and>
     is_none_or (uq_model_name q) (\<lambda>n. pu_model_name e = Some n) \<and>
     is_none_or (uq_capability q) (\<lambda>c. pu_capability e = c) \<and>
     is_none_or (uq_operation_name q) (\<lambda>n. pu_operation_name e = n) \<and>
     is_none_or (uq_created_after q) (\<lambda>d. \<not> pu_created_at e < d) \<and>
     is_none_or (uq_created_before q) (\<lambda>d. \<not> d \<le> pu_created_at e)"

definition matches_daily_query :: "provider_usage_daily_query \<Rightarrow> provider_usage_event_record \<Rightarrow> bool" where
  "matches_daily_query q e \<longleftrightarrow>
     pu_org_id e = dq_org_id q \<and>
     is_none_or (dq_provider_name q) (\<lambda>n. pu_provider_name e = n) \<and>
     is_none_or (dq_model_name q) (\<lambda>n. pu_model_name e = Some n) \<and>
     is_none_or (dq_capability q) (\<lambda>c. pu_capability e = c) \<and>
     dq_created_after q \<le> pu_created_at e \<and> pu_created_at e < dq_created_before q"

definition add_event_to_bucket ::
  "provider_usage_event_record \<Rightarrow> provider_usage_daily_bucket \<Rightarrow> provider_usage_daily_bucket" where
  "add_event_to_bucket e b =
     (let b' = count_event e b in
      case pu_estimated_cost_usd e of
        Some cost \<Rightarrow> b'\<lparr>su_estimated_cost_usd :=
          Some (f64_add (case su_estimated_cost_usd b' of None \<Rightarrow> Fin64 0 | Some c \<Rightarrow> c) cost)\<rparr>
      | None \<Rightarrow> b')"

definition record_usage_event :: "provider_usage_event_record \<Rightarrow> unit usage_op" where
  "record_usage_event e s = (Inr (), s\<lparr>us_events := us_events s @ [e]\<rparr>)"

definition usage_desc_le :: "provider_usage_event_record \<Rightarrow> provider_usage_event_record \<Rightarrow> bool" where
  "usage_desc_le = lex_le (\<lambda>a b. pu_created_at b \<le> pu_created_at a) (\<lambda>a b. pu_id b \<le> pu_id a)"

definition usage_cursor :: "provider_usage_event_record \<Rightarrow> page_cursor" where
  "usage_cursor e = \<lparr>last_id = uuid_to_string (pu_id e), last_sort_value = pu_created_at e\<rparr>"

definition query_usage :: "codec \<Rightarrow> provider_usage_query \<Rightarrow> provider_usage_query_result usage_op" where
  "query_usage cd q s =
     (and_then (lift_err (validate_provider_usage_limit (uq_limit q))) (\<lambda>limit.
        let matching = filter (usage_matches_query q) (us_events s);
            summary = compute_summary matching;
            sorted = sort_by usage_desc_le matching;
            rest = (case uq_cursor q of
                      Some c \<Rightarrow> filter (\<lambda>e. is_after_cursor_in_desc_order (pu_created_at e) (uuid_to_string (pu_id e)) c) sorted
                    | None \<Rightarrow> sorted)
        in and_then (build_page cd rest limit usage_cursor) (\<lambda>page.
             Inr \<lparr>ur_events = p_items page, ur_next_cursor = p_next_cursor page, ur_summary = summary\<rparr>)), s)"

definition bucket_step ::
  "provider_usage_event_record \<Rightarrow> (int \<times> provider_usage_daily_bucket) list \<Rightarrow>
   (int \<times> provider_usage_daily_bucket) list" where
  "bucket_step e buckets =
     (let date = date_naive (pu_created_at e);
          bucket = (case map_of buckets date of None \<Rightarrow> bucket_empty date | Some b \<Rightarrow> b)
      in bt_insert date (add_event_to_bucket e bucket) buckets)"

definition query_usage_daily :: "provider_usage_daily_query \<Rightarrow> provider_usage_daily_bucket list usage_op" where
  "query_usage_daily q s =
     (Inr (map snd (fold bucket_step (filter (matches_daily_query q) (us_events s)) [])), s)"

text \<open>Removal by index, from the last index to the first.\<close>

definition remove_at :: "nat \<Rightarrow> 'a list \<Rightarrow> 'a list" where
  "remove_at i xs = take i xs @ drop (Suc i) xs"

definition matching_indices :: "('a \<Rightarrow> bool) \<Rightarrow> 'a list \<Rightarrow> nat list" where
  "matching_indices P xs = map fst (filter (\<lambda>(i, x). P x) (zip [0..<length xs] xs))"

definition delete_usage_events_older_than :: "string \<Rightarrow> datetime \<Rightarrow> bool \<Rightarrow> nat usage_op" where
  "delete_usage_events_older_than org cutoff dry_run s =
     (let idx = matching_indices (\<lambda>e. pu_org_id e = org \<and> pu_created_at e < cutoff) (us_events s)
      in (Inr (length idx),
          if dry_run then s else s\<lparr>us_events := fold remove_at (rev idx) (us_events s)\<rparr>))"

section \<open>The snapshot store (\<open>MockMemoryUsageSnapshotStore\<close>)\<close>

record mock_snapshot_store =
  ss_snapshots :: "memory_usage_snapshot list"

definition snapshot_store_new :: mock_snapshot_store where
  "snapshot_store_new = \<lparr>ss_snapshots = []\<rparr>"

type_synonym 'a snapshot_op = "(mock_snapshot_store, fault, 'a) comp"

definition snapshot_matches_query :: "memory_usage_snapshot_query \<Rightarrow> memory_usage_snapshot \<Rightarrow> bool" where
  "snapshot_matches_query q m \<longleftrightarrow>
     ms_org_id m = sq_org_id q \<and>
     is_none_or (sq_created_after q) (\<lambda>d. \<not> ms_captured_at m < d) \<and>
     is_none_or (sq_created_before q) (\<lambda>d. \<not> d \<le> ms_captured_at m) \<and>
     is_none_or (sq_cursor q) (is_after_cursor_in_desc_order (ms_captured_at m) (uuid_to_string (ms_id m)))"

definition insert_snapshot :: "memory_usage_snapshot \<Rightarrow> memory_usage_snapshot snapshot_op" where
  "insert_snapshot m s = (Inr m, s\<lparr>ss_snapshots := ss_snapshots s @ [m]\<rparr>)"

definition snapshot_desc_le :: "memory_usage_snapshot \<Rightarrow> memory_usage_snapshot \<Rightarrow> bool" where
  "snapshot_desc_le = lex_le (\<lambda>a b. ms_captured_at b \<le> ms_captured_at a) (\<lambda>a b. ms_id b \<le> ms_id a)"

definition snapshot_cursor :: "memory_usage_snapshot \<Rightarrow> page_cursor" where
  "snapshot_cursor m = \<lparr>last_id = uuid_to_string (ms_id m), last_sort_value = ms_captured_at m\<rparr>"

definition query_snapshots :: "codec \<Rightarrow> memory_usage_snapshot_query \<Rightarrow> memory_usage_snapshot_query_result snapshot_op" where
  "query_snapshots cd q s =
     (and_then (build_page cd (sort_by snapshot_desc_le (filter (snapshot_matches_query q) (ss_snapshots s)))
        (sq_limit q) snapshot_cursor) (\<lambda>page.
        Inr \<lparr>sr_snapshots = p_items page, sr_next_cursor = p_next_cursor page\<rparr>), s)"

section \<open>Windows and limits (\<open>admin/usage/service.rs\<close>)\<close>

definition DEFAULT_ORG_USAGE_DASHBOARD_DAYS :: u32 where
  "DEFAULT_ORG_USAGE_DASHBOARD_DAYS = 30"

definition MAX_ORG_USAGE_DASHBOARD_DAYS :: u32 where
  "MAX_ORG_USAGE_DASHBOARD_DAYS = 90"

definition DEFAULT_MEMORY_USAGE_SNAPSHOT_LIMIT :: nat where
  "DEFAULT_MEMORY_USAGE_SNAPSHOT_LIMIT = 50"

definition MAX_MEMORY_USAGE_SNAPSHOT_LIMIT :: nat where
  "MAX_MEMORY_USAGE_SNAPSHOT_LIMIT = 100"

definition validate_org_usage_days :: "u32 option \<Rightarrow> u32 memcore_result" where
  "validate_org_usage_days d =
     (let n = (case d of None \<Rightarrow> DEFAULT_ORG_USAGE_DASHBOARD_DAYS | Some n \<Rightarrow> n) in
      if \<not> (1 \<le> n \<and> n \<le> MAX_ORG_USAGE_DASHBOARD_DAYS)
      then Inl (ValidationError ''days must be between 1 and 90'') else Inr n)"

definition resolve_org_usage_window ::
  "datetime option \<Rightarrow> datetime option \<Rightarrow> u32 option \<Rightarrow> datetime \<Rightarrow> (datetime \<times> datetime) memcore_result" where
  "resolve_org_usage_window created_after created_before d now =
     (case (created_after, created_before) of
        (Some after, Some before) \<Rightarrow>
          and_then (validate_event_date_range (Some after) (Some before)) (\<lambda>_. Inr (after, before))
      | (None, None) \<Rightarrow>
          and_then (validate_org_usage_days d) (\<lambda>n. Inr (now - days (unat n), now))
      | _ \<Rightarrow> Inl (ValidationError ''created_after and created_before must be provided together''))"

definition validate_memory_usage_snapshot_limit :: "nat \<Rightarrow> nat memcore_result" where
  "validate_memory_usage_snapshot_limit limit =
     (if limit = 0 then Inr DEFAULT_MEMORY_USAGE_SNAPSHOT_LIMIT
      else if MAX_MEMORY_USAGE_SNAPSHOT_LIMIT < limit
      then Inl (ValidationError (''limit cannot exceed '' @ show_nat MAX_MEMORY_USAGE_SNAPSHOT_LIMIT))
      else Inr limit)"

definition empty_provider_usage_summary :: provider_usage_summary where
  "empty_provider_usage_summary = provider_usage_summary_default"

section \<open>Removal by index is filtering\<close>

lemma remove_at_simps [simp]:
  "remove_at 0 (x # xs) = xs"
  "remove_at (Suc i) (x # xs) = x # remove_at i xs"
  by (simp_all add: remove_at_def)

lemma fold_remove_at_shift: "fold remove_at (map Suc is) (x # xs) = x # fold remove_at is xs"
  by (induction "is" arbitrary: xs) auto

lemma matching_indices_Cons:
  "matching_indices P (x # xs) = (if P x then [0] else []) @ map Suc (matching_indices P xs)"
proof -
  have "zip [0..<length (x # xs)] (x # xs) = (0, x) # map (\<lambda>(i, y). (Suc i, y)) (zip [0..<length xs] xs)"
    by (simp add: upt_conv_Cons map_Suc_upt [symmetric] zip_map1 del: upt_Suc)
  then show ?thesis
    by (simp add: matching_indices_def filter_map comp_def case_prod_unfold)
qed

lemma remove_matching: "fold remove_at (rev (matching_indices P xs)) xs = filter (\<lambda>x. \<not> P x) xs"
proof (induction xs)
  case Nil
  then show ?case by (simp add: matching_indices_def)
next
  case (Cons x xs)
  have "fold remove_at (rev (map Suc (matching_indices P xs))) (x # xs) = x # filter (\<lambda>x. \<not> P x) xs"
    unfolding rev_map fold_remove_at_shift Cons ..
  then show ?case
    by (simp add: matching_indices_Cons)
qed

lemma length_matching_indices: "length (matching_indices P xs) = length (filter P xs)"
  by (induction xs) (simp_all add: matching_indices_Cons, simp add: matching_indices_def)

section \<open>Daily buckets\<close>

definition daily_buckets :: "provider_usage_event_record list \<Rightarrow> (int \<times> provider_usage_daily_bucket) list" where
  "daily_buckets es = fold bucket_step es []"

lemma daily_buckets_wf: "bt_wf (daily_buckets es)"
proof (induction es rule: rev_induct)
  case (snoc e es)
  then show ?case by (simp add: daily_buckets_def bucket_step_def Let_def)
qed (simp add: daily_buckets_def)

lemma bucket_date [simp]: "bk_date (add_event_to_bucket e b) = bk_date b"
  by (simp add: add_event_to_bucket_def count_event_def Let_def split: option.split)

lemma daily_bucket_of:
  "map_of (daily_buckets es) d =
     (let mine = filter (\<lambda>e. date_naive (pu_created_at e) = d) es in
      if mine = [] then None else Some (fold add_event_to_bucket mine (bucket_empty d)))"
proof (induction es rule: rev_induct)
  case Nil
  then show ?case by (simp add: daily_buckets_def)
next
  case (snoc e es)
  have step: "map_of (daily_buckets (es @ [e])) =
      (map_of (daily_buckets es))(date_naive (pu_created_at e) \<mapsto>
        add_event_to_bucket e (case map_of (daily_buckets es) (date_naive (pu_created_at e)) of
          None \<Rightarrow> bucket_empty (date_naive (pu_created_at e)) | Some b \<Rightarrow> b))"
    using daily_buckets_wf [of es] by (simp add: daily_buckets_def bucket_step_def Let_def)
  show ?case
  proof (cases "date_naive (pu_created_at e) = d")
    case True
    with snoc.IH show ?thesis by (auto simp: step Let_def)
  next
    case False
    with snoc.IH show ?thesis by (simp add: step)
  qed
qed

section \<open>Properties\<close>

text \<open>Deleting provider usage events by index, from the last to the first, is exactly filtering:
  the organisation's events before the cutoff disappear, all others stay in order, the count is
  the number removed, and a dry run reports the same count and changes nothing.\<close>

theorem usage_retention_filters:
  "delete_usage_events_older_than org cutoff dry s =
     (Inr (length (filter (\<lambda>e. pu_org_id e = org \<and> pu_created_at e < cutoff) (us_events s))),
      if dry then s
      else s\<lparr>us_events := filter (\<lambda>e. \<not> (pu_org_id e = org \<and> pu_created_at e < cutoff)) (us_events s)\<rparr>)"
  by (simp only: delete_usage_events_older_than_def Let_def remove_matching length_matching_indices)

text \<open>C22: The daily usage report has one bucket per day with a matching event, in ascending order of
  days, and each bucket accumulates exactly the events of its day, in the order they were
  recorded.\<close>

theorem daily_usage_buckets:
  "\<exists>bs. query_usage_daily q s = (Inr bs, s) \<and> sorted_wrt (\<lambda>a b. bk_date a < bk_date b) bs \<and>
    (\<forall>b. b \<in> set bs \<longleftrightarrow>
      (let mine = filter (\<lambda>e. date_naive (pu_created_at e) = bk_date b) (filter (matches_daily_query q) (us_events s))
       in mine \<noteq> [] \<and> b = fold add_event_to_bucket mine (bucket_empty (bk_date b))))"
proof -
  let ?es = "filter (matches_daily_query q) (us_events s)"
  let ?m = "daily_buckets ?es"
  have dist: "distinct (map fst ?m)"
    using daily_buckets_wf [of ?es] strict_sorted_iff by (auto simp: bt_wf_def)
  have fold_date: "bk_date (fold add_event_to_bucket xs b) = bk_date b" for xs b
    by (induction xs arbitrary: b) auto
  have key: "bk_date b = d" if "(d, b) \<in> set ?m" for d b
  proof -
    have "map_of ?m d = Some b" using that dist by simp
    then show ?thesis
      by (auto simp: daily_bucket_of Let_def fold_date bucket_empty_def split: if_splits)
  qed
  have "map bk_date (map snd ?m) = map fst ?m"
    using key by auto
  then have so: "sorted_wrt (\<lambda>a b. bk_date a < bk_date b) (map snd ?m)"
    using daily_buckets_wf [of ?es] by (metis bt_wf_def sorted_wrt_map)
  have "b \<in> set (map snd ?m) \<longleftrightarrow> map_of ?m (bk_date b) = Some b" for b
    using key dist by (force simp: map_of_eq_Some_iff)
  then have "b \<in> set (map snd ?m) \<longleftrightarrow>
      (let mine = filter (\<lambda>e. date_naive (pu_created_at e) = bk_date b) ?es
       in mine \<noteq> [] \<and> b = fold add_event_to_bucket mine (bucket_empty (bk_date b)))" for b
    by (auto simp: daily_bucket_of Let_def simp del: filter_filter split: if_splits)
  with so show ?thesis
    by (simp add: query_usage_daily_def daily_buckets_def del: filter_filter)
qed

end
