(* ===== verification/Quota.thy ===== *)
theory Quota
  imports Org_Plan Usage_Store
begin

text \<open>
  Quotas: \<^verbatim>\<open>crates/memcore-core/src/quota\<close>. The service reads the fact store, the optional usage store
  and the optional plan store, and compares saturated 64-bit sums with the limits.
\<close>

section \<open>Types (\<open>types.rs\<close>)\<close>

record org_quota_usage =
  qu_org_id :: string
  qu_total_users :: u64
  qu_total_memories :: u64
  qu_user_memory_count :: "u64 option"
  qu_daily_provider_requests :: u64
  qu_daily_provider_tokens :: u64
  qu_window_start :: datetime
  qu_window_end :: datetime

datatype quota_limit_source = GlobalConfig | OrgPlanSource

fun source_as_str :: "quota_limit_source \<Rightarrow> string" where
  "source_as_str GlobalConfig = ''global_config''"
| "source_as_str OrgPlanSource = ''org_plan''"

record resolved_org_quota_limits =
  rq_source :: quota_limit_source
  rq_limits :: org_quota_limits

datatype quota_limit_kind =
  UsersPerOrg | MemoriesPerUser | MemoriesPerOrg | DailyProviderRequests | DailyProviderTokens

fun kind_as_str :: "quota_limit_kind \<Rightarrow> string" where
  "kind_as_str UsersPerOrg = ''UsersPerOrg''"
| "kind_as_str MemoriesPerUser = ''MemoriesPerUser''"
| "kind_as_str MemoriesPerOrg = ''MemoriesPerOrg''"
| "kind_as_str DailyProviderRequests = ''DailyProviderRequests''"
| "kind_as_str DailyProviderTokens = ''DailyProviderTokens''"

fun quota_message :: "quota_limit_kind \<Rightarrow> string" where
  "quota_message UsersPerOrg = ''organization user limit exceeded''"
| "quota_message MemoriesPerUser = ''user memory limit exceeded''"
| "quota_message MemoriesPerOrg = ''organization memory limit exceeded''"
| "quota_message DailyProviderRequests = ''daily provider request limit exceeded''"
| "quota_message DailyProviderTokens = ''daily provider token limit exceeded''"

record quota_violation =
  qv_kind :: quota_limit_kind
  qv_limit :: u64
  qv_current :: u64
  qv_requested :: u64
  qv_message :: string

definition quota_violation_new :: "quota_limit_kind \<Rightarrow> u64 \<Rightarrow> u64 \<Rightarrow> u64 \<Rightarrow> quota_violation" where
  "quota_violation_new kind limit current requested =
     \<lparr>qv_kind = kind, qv_limit = limit, qv_current = current, qv_requested = requested,
      qv_message = quota_message kind\<rparr>"

definition into_error :: "quota_violation \<Rightarrow> memcore_error" where
  "into_error v = QuotaExceeded (qv_message v) (kind_as_str (qv_kind v)) (qv_limit v) (qv_current v) (qv_requested v)"

record quota_check_result =
  qr_allowed :: bool
  qr_source :: quota_limit_source
  qr_violations :: "quota_violation list"
  qr_usage :: org_quota_usage
  qr_limits :: org_quota_limits

section \<open>The service (\<open>service.rs\<close>)\<close>

text \<open>What the service reads: the three stores, the global limits, the codec of the usage store's
  pages and the reading of the clock. It changes none of them.\<close>

record quota_service =
  qs_facts :: mock_fact_store
  qs_usage :: "mock_usage_store option"
  qs_plans :: "mock_org_plan_store option"
  qs_global :: org_quota_limits
  qs_codec :: codec
  qs_now :: datetime

definition resolve_org_quota_limits :: "quota_service \<Rightarrow> string \<Rightarrow> resolved_org_quota_limits outcome" where
  "resolve_org_quota_limits s org =
     and_then (case qs_plans s of
                 None \<Rightarrow> Inr None
               | Some store \<Rightarrow> lift_err (fst (get_org_plan org store))) (\<lambda>plan.
     Inr (case plan of
            Some p \<Rightarrow> if op_is_active p
              then \<lparr>rq_source = OrgPlanSource, rq_limits = to_quota_limits (op_limits p) (ql_enabled (qs_global s))\<rparr>
              else \<lparr>rq_source = GlobalConfig, rq_limits = qs_global s\<rparr>
          | None \<Rightarrow> \<lparr>rq_source = GlobalConfig, rq_limits = qs_global s\<rparr>))"

definition utc_day_window :: "datetime \<Rightarrow> datetime \<times> datetime" where
  "utc_day_window now = (let start = date_naive now * days 1 in (start, start + days 1))"

definition collect_daily_provider_usage :: "quota_service \<Rightarrow> string \<Rightarrow> datetime \<Rightarrow> datetime \<Rightarrow> (u64 \<times> u64) outcome" where
  "collect_daily_provider_usage s org window_start window_end =
     (case qs_usage s of
        None \<Rightarrow> Inr (0, 0)
      | Some store \<Rightarrow>
          and_then (fst (query_usage (qs_codec s)
             ((provider_usage_query_new org DEFAULT_PROVIDER_USAGE_LIMIT)
                \<lparr>uq_created_after := Some window_start, uq_created_before := Some window_end\<rparr>) store)) (\<lambda>result.
          Inr (su_requests (ur_summary result), su_tokens (ur_summary result))))"

definition collect_usage :: "quota_service \<Rightarrow> string \<Rightarrow> string option \<Rightarrow> org_quota_usage outcome" where
  "collect_usage s org user_id =
     (let (window_start, window_end) = utc_day_window (qs_now s) in
      and_then (lift_err (validate_event_date_range (Some window_start) (Some window_end))) (\<lambda>_.
      and_then (lift_err (fst (count_users_by_org org (qs_facts s)))) (\<lambda>users.
      and_then (lift_err (fst (count_facts_by_org org (qs_facts s)))) (\<lambda>memories.
      and_then (case user_id of
                  None \<Rightarrow> Inr None
                | Some user \<Rightarrow>
                    and_then (lift_err (tenant_new org user)) (\<lambda>tenant.
                    and_then (lift_err (fst (count_facts_by_user tenant (qs_facts s)))) (\<lambda>n.
                    Inr (Some (word_of_nat n))))) (\<lambda>user_memory_count.
      and_then (collect_daily_provider_usage s org window_start window_end) (\<lambda>(requests, tokens).
      Inr \<lparr>qu_org_id = org, qu_total_users = word_of_nat users, qu_total_memories = word_of_nat memories,
           qu_user_memory_count = user_memory_count, qu_daily_provider_requests = requests,
           qu_daily_provider_tokens = tokens, qu_window_start = window_start, qu_window_end = window_end\<rparr>))))))"

text \<open>One limit: a violation when the saturated sum exceeds it.\<close>

definition over_limit :: "quota_limit_kind \<Rightarrow> u64 option \<Rightarrow> u64 \<Rightarrow> u64 \<Rightarrow> quota_violation list" where
  "over_limit kind limit current requested =
     (case limit of
        None \<Rightarrow> []
      | Some l \<Rightarrow> if l < u64_saturating_add current requested
                 then [quota_violation_new kind l current requested] else [])"

definition evaluate_memory_limits :: "org_quota_limits \<Rightarrow> org_quota_usage \<Rightarrow> u64 \<Rightarrow> quota_violation list" where
  "evaluate_memory_limits limits usage requested =
     over_limit MemoriesPerOrg (ql_max_memories_per_org limits) (qu_total_memories usage) requested @
     (case qu_user_memory_count usage of
        None \<Rightarrow> []
      | Some current \<Rightarrow> over_limit MemoriesPerUser (ql_max_memories_per_user limits) current requested) @
     (case qu_user_memory_count usage of
        None \<Rightarrow> []
      | Some n \<Rightarrow> over_limit UsersPerOrg (ql_max_users_per_org limits) (qu_total_users usage) (if n = 0 then 1 else 0))"

definition evaluate_provider_limits ::
  "org_quota_limits \<Rightarrow> org_quota_usage \<Rightarrow> u64 \<Rightarrow> u64 \<Rightarrow> quota_violation list" where
  "evaluate_provider_limits limits usage requests tokens =
     over_limit DailyProviderRequests (ql_daily_provider_request_limit limits) (qu_daily_provider_requests usage) requests @
     over_limit DailyProviderTokens (ql_daily_provider_token_limit limits) (qu_daily_provider_tokens usage) tokens"

definition evaluate_limits :: "org_quota_limits \<Rightarrow> org_quota_usage \<Rightarrow> u64 \<Rightarrow> u64 \<Rightarrow> quota_violation list" where
  "evaluate_limits limits usage requested tokens =
     evaluate_memory_limits limits usage requested @ evaluate_provider_limits limits usage 0 tokens"

definition quota_result ::
  "resolved_org_quota_limits \<Rightarrow> org_quota_usage \<Rightarrow> quota_violation list \<Rightarrow> quota_check_result" where
  "quota_result resolved usage violations =
     \<lparr>qr_allowed = (violations = []), qr_source = rq_source resolved, qr_violations = violations,
      qr_usage = usage, qr_limits = rq_limits resolved\<rparr>"

definition get_org_quota_status :: "quota_service \<Rightarrow> string \<Rightarrow> string option \<Rightarrow> quota_check_result outcome" where
  "get_org_quota_status s org user_id =
     and_then (resolve_org_quota_limits s org) (\<lambda>resolved.
     and_then (collect_usage s org user_id) (\<lambda>usage.
     Inr (quota_result resolved usage
       (if ql_enabled (rq_limits resolved) then evaluate_limits (rq_limits resolved) usage 0 0 else []))))"

definition check_memory_write_allowed :: "quota_service \<Rightarrow> string \<Rightarrow> string \<Rightarrow> u64 \<Rightarrow> quota_check_result outcome" where
  "check_memory_write_allowed s org user requested =
     and_then (resolve_org_quota_limits s org) (\<lambda>resolved.
     and_then (collect_usage s org (Some user)) (\<lambda>usage.
     Inr (quota_result resolved usage
       (if ql_enabled (rq_limits resolved) then evaluate_memory_limits (rq_limits resolved) usage requested else []))))"

definition check_provider_call_allowed :: "quota_service \<Rightarrow> string \<Rightarrow> u64 option \<Rightarrow> quota_check_result outcome" where
  "check_provider_call_allowed s org requested_tokens =
     and_then (resolve_org_quota_limits s org) (\<lambda>resolved.
     let tokens = (case requested_tokens of None \<Rightarrow> 0 | Some n \<Rightarrow> n) in
     and_then (collect_usage s org None) (\<lambda>usage.
     Inr (quota_result resolved usage
       (if ql_enabled (rq_limits resolved) then evaluate_provider_limits (rq_limits resolved) usage 1 tokens else []))))"

section \<open>Arithmetic of the limits\<close>

text \<open>A sum within a limit, in unbounded arithmetic; the largest limit can never be exceeded.\<close>

definition fits :: "u64 option \<Rightarrow> nat \<Rightarrow> bool" where
  "fits limit n \<longleftrightarrow> is_none_or limit (\<lambda>l. n \<le> unat l \<or> l = - 1)"

lemma unat_max_word: "unat (- 1 :: u64) = 2 ^ 64 - 1"
  by (simp add: unsigned_minus_1_eq_mask mask_eq_exp_minus_1)

lemma over_limit_iff: "over_limit kind limit current requested = [] \<longleftrightarrow> fits limit (unat current + unat requested)"
proof (cases limit)
  case (Some l)
  have l: "unat l \<le> 2 ^ 64 - 1" "unat l = 2 ^ 64 - 1 \<longleftrightarrow> l = - 1"
    using unsigned_less [of l, where ?'a = nat] unat_max_word by (auto simp: word_unat_eq_iff)
  have "l < u64_saturating_add current requested \<longleftrightarrow> unat l < min (unat current + unat requested) (2 ^ 64 - 1)"
    by (simp add: word_less_nat_alt unat_u64_saturating_add)
  then have "l < u64_saturating_add current requested \<longleftrightarrow> unat l < unat current + unat requested \<and> l \<noteq> - 1"
    using l by (simp only: min_less_iff_conj) linarith
  then show ?thesis
    using Some by (auto simp: over_limit_def fits_def)
qed (simp add: over_limit_def fits_def)

lemma unat_of_count: "n < 2 ^ 64 \<Longrightarrow> unat (word_of_nat n :: u64) = n"
  by (simp add: unsigned_of_nat take_bit_nat_eq_self)

section \<open>Properties\<close>

text \<open>C23: The write quota in exact arithmetic: when limits are enabled, a write of \<open>n\<close> memories is allowed
  exactly if the organisation's and the user's active memories plus \<open>n\<close>, and the number of users
  (counting the user if it has none yet), stay within the limits of the active plan or else of the
  global configuration. Saturation of the 64-bit sums never lets a write through (the largest limit
  stands for no limit). When they are disabled everything is allowed.\<close>

theorem write_quota_exact:
  assumes "resolve_org_quota_limits s org = Inr r" and "tenant_new org user = Inr t"
    and "check_memory_write_allowed s org user n = Inr res"
    and "length (fs_facts (qs_facts s)) < 2 ^ 64"
  shows "qr_limits res = rq_limits r \<and>
    (qr_allowed res \<longleftrightarrow> (ql_enabled (rq_limits r) \<longrightarrow>
       (\<exists>org_count user_count users.
          count_facts_by_org org (qs_facts s) = (Inr org_count, qs_facts s) \<and>
          count_facts_by_user t (qs_facts s) = (Inr user_count, qs_facts s) \<and>
          count_users_by_org org (qs_facts s) = (Inr users, qs_facts s) \<and>
          fits (ql_max_memories_per_org (rq_limits r)) (org_count + unat n) \<and>
          fits (ql_max_memories_per_user (rq_limits r)) (user_count + unat n) \<and>
          fits (ql_max_users_per_org (rq_limits r)) (users + (if user_count = 0 then 1 else 0)))))"
proof -
  let ?vs = "hm_values (fs_facts (qs_facts s))"
  obtain oc where oc: "count_facts_by_org org (qs_facts s) = (Inr oc, qs_facts s)" "oc \<le> length ?vs"
    by (simp add: count_facts_by_org_def)
  obtain uc where uc: "count_facts_by_user t (qs_facts s) = (Inr uc, qs_facts s)" "uc \<le> length ?vs"
    by (simp add: count_facts_by_user_def)
  obtain us where us: "count_users_by_org org (qs_facts s) = (Inr us, qs_facts s)" "us \<le> length ?vs"
  proof -
    let ?us = "map f_user_id (filter (\<lambda>f. f_org_id f = org \<and> f_id f \<notin> fs_deleted (qs_facts s)) ?vs)"
    have "card (set ?us) \<le> length ?us" by (rule card_length)
    also have "\<dots> \<le> length ?vs" by simp
    finally show ?thesis using that by (simp add: count_users_by_org_def)
  qed
  have len: "length ?vs < 2 ^ 64"
    using assms(4) by (simp add: hm_values_def)
  have small: "oc < 2 ^ 64" "uc < 2 ^ 64" "us < 2 ^ 64"
    using oc(2) uc(2) us(2) len by linarith+
  have zero: "(word_of_nat uc :: u64) = 0 \<longleftrightarrow> uc = 0"
    using unat_of_count [OF small(2)] by (auto simp: word_unat_eq_iff)
  from assms obtain u where u: "collect_usage s org (Some user) = Inr u"
    and res: "res = quota_result r u
      (if ql_enabled (rq_limits r) then evaluate_memory_limits (rq_limits r) u n else [])"
    by (auto simp: check_memory_write_allowed_def result_simps)
  from u have "qu_total_users u = word_of_nat us" "qu_total_memories u = word_of_nat oc"
    "qu_user_memory_count u = Some (word_of_nat uc)"
    using assms(2) by (auto simp: collect_usage_def oc uc us result_simps split: prod.splits)
  then have "evaluate_memory_limits (rq_limits r) u n = [] \<longleftrightarrow>
      fits (ql_max_memories_per_org (rq_limits r)) (oc + unat n) \<and>
      fits (ql_max_memories_per_user (rq_limits r)) (uc + unat n) \<and>
      fits (ql_max_users_per_org (rq_limits r)) (us + (if uc = 0 then 1 else 0))"
    using zero by (simp add: evaluate_memory_limits_def over_limit_iff
        unat_of_count [OF small(1)] unat_of_count [OF small(2)] unat_of_count [OF small(3)])
  then show ?thesis
    by (simp add: res quota_result_def oc uc us)
qed

definition sample_quota_service :: quota_service where
  "sample_quota_service = \<lparr>qs_facts = sample_facts, qs_usage = None, qs_plans = None,
     qs_global = org_quota_limits_from_raw True 5 1 100 0 0,
     qs_codec = \<lparr>to_json = (\<lambda>_. Inr []), from_json = (\<lambda>_. None), b64_encode = id, b64_decode = Some\<rparr>,
     qs_now = 0\<rparr>"

theorem write_quota_exact_witness:
  "\<exists>res. check_memory_write_allowed sample_quota_service ''acme'' ''alice'' 1 = Inr res \<and> \<not> qr_allowed res"
proof -
  have t: "tenant_new ''acme'' ''alice'' = Inr alice"
    by (simp add: tenant_new_def validate_non_empty_def alice_def str_eval)
  have r: "resolve_org_quota_limits sample_quota_service ''acme'' =
      Inr \<lparr>rq_source = GlobalConfig, rq_limits = org_quota_limits_from_raw True 5 1 100 0 0\<rparr>"
    by (simp add: resolve_org_quota_limits_def sample_quota_service_def)
  have c: "count_facts_by_user alice sample_facts = (Inr 1, sample_facts)"
    by (simp add: count_facts_by_user_def sample_facts_def sample_fact_def hm_values_def
        fact_matches_tenant_def alice_def bob_def)
  have "\<exists>u. collect_usage sample_quota_service ''acme'' (Some ''alice'') = Inr u"
    by (simp add: collect_usage_def t count_users_by_org_def count_facts_by_org_def count_facts_by_user_def
        utc_day_window_def Let_def days_def validate_event_date_range_def collect_daily_provider_usage_def
        sample_quota_service_def)
  then have "\<exists>res. check_memory_write_allowed sample_quota_service ''acme'' ''alice'' 1 = Inr res"
    by (auto simp: check_memory_write_allowed_def r)
  then obtain res where res: "check_memory_write_allowed sample_quota_service ''acme'' ''alice'' 1 = Inr res" ..
  show ?thesis
    using write_quota_exact [OF r t res] res
    by (simp add: sample_quota_service_def sample_facts_def [symmetric] c org_quota_limits_from_raw_def
        non_zero_limit_def fits_def) (simp add: sample_facts_def)
qed

end
