(* ===== verification/Ranking.thy ===== *)
theory Ranking
  imports Models
begin

text \<open>
  \<^verbatim>\<open>crates/memcore-core/src/ranking\<close>: weighted scores, freshness, and reciprocal rank fusion of the
  semantic and the keyword hits.
\<close>

section \<open>Weighted scores (\<open>types.rs\<close>, \<open>scorer.rs\<close>, \<open>mod.rs\<close>)\<close>

record ranking_config =
  rc_semantic_weight :: f32
  rc_importance_weight :: f32
  rc_confidence_weight :: f32
  rc_freshness_weight :: f32
  rc_memory_type_weight :: f32

definition ranking_config_default :: ranking_config where
  "ranking_config_default =
     \<lparr>rc_semantic_weight = f32_of_rat (50 / 100), rc_importance_weight = f32_of_rat (20 / 100),
      rc_confidence_weight = f32_of_rat (15 / 100), rc_freshness_weight = f32_of_rat (10 / 100),
      rc_memory_type_weight = f32_of_rat (5 / 100)\<rparr>"

definition ranking_config_is_valid :: "ranking_config \<Rightarrow> bool" where
  "ranking_config_is_valid c =
     (let weights = [rc_semantic_weight c, rc_importance_weight c, rc_confidence_weight c,
                     rc_freshness_weight c, rc_memory_type_weight c]
      in list_all (\<lambda>w. f32_le (Fin 0) w) weights \<and> f32_lt (Fin 0) (f32_sum weights))"

definition clamp01 :: "f32 \<Rightarrow> f32" where
  "clamp01 value = f32_clamp value (Fin 0) (Fin 1)"

definition score :: "f32 \<Rightarrow> f32 \<Rightarrow> f32 \<Rightarrow> f32 \<Rightarrow> f32 \<Rightarrow> ranking_config \<Rightarrow> f32" where
  "score semantic_score importance confidence freshness type_boost c =
     f32_add (f32_add (f32_add (f32_add
       (f32_mul (clamp01 semantic_score) (rc_semantic_weight c))
       (f32_mul (clamp01 importance) (rc_importance_weight c)))
       (f32_mul (clamp01 confidence) (rc_confidence_weight c)))
       (f32_mul (clamp01 freshness) (rc_freshness_weight c)))
       (f32_mul (clamp01 type_boost) (rc_memory_type_weight c))"

text \<open>Whole days between two instants, towards zero; a timestamp in the future counts as 0 days.\<close>

definition age_days :: "datetime \<Rightarrow> datetime \<Rightarrow> int" where
  "age_days timestamp now = (if now < timestamp then 0 else (now - timestamp) div days 1)"

definition freshness_score :: "datetime \<Rightarrow> datetime \<Rightarrow> f32" where
  "freshness_score timestamp now =
     (let age = age_days timestamp now in
      if age \<le> 7 then Fin 1
      else if age \<le> 30 then f32_of_rat (8 / 10)
      else if age \<le> 90 then f32_of_rat (6 / 10)
      else if age \<le> 365 then f32_of_rat (4 / 10)
      else f32_of_rat (2 / 10))"

fun memory_type_boost :: "memory_type \<Rightarrow> f32" where
  "memory_type_boost Profile = Fin 1"
| "memory_type_boost Preference = f32_of_rat (95 / 100)"
| "memory_type_boost Project = f32_of_rat (9 / 10)"
| "memory_type_boost Skill = f32_of_rat (85 / 100)"
| "memory_type_boost Entity = f32_of_rat (75 / 100)"
| "memory_type_boost Task = f32_of_rat (7 / 10)"
| "memory_type_boost Conversation = f32_of_rat (55 / 100)"
| "memory_type_boost MTSystem = f32_of_rat (5 / 10)"

definition weighted_score_for ::
  "f32 \<Rightarrow> f32 \<Rightarrow> f32 \<Rightarrow> datetime option \<Rightarrow> memory_type \<Rightarrow> datetime \<Rightarrow> ranking_config \<Rightarrow> f32" where
  "weighted_score_for semantic_score importance confidence updated_at mt now c =
     (let timestamp = (case updated_at of None \<Rightarrow> now | Some d \<Rightarrow> d) in
      score semantic_score importance confidence (freshness_score timestamp now) (memory_type_boost mt) c)"

definition result_score_le :: "memory_search_result \<Rightarrow> memory_search_result \<Rightarrow> bool" where
  "result_score_le a b \<longleftrightarrow> f32_cmp_le (r_score b) (r_score a)"

definition apply_ranking ::
  "memory_search_result list \<Rightarrow> (uuid \<Rightarrow> datetime option) \<Rightarrow> datetime \<Rightarrow> ranking_config \<Rightarrow>
   memory_search_result list" where
  "apply_ranking results updated_at_for now c =
     sort_by result_score_le
       (map (\<lambda>r. r\<lparr>r_score := weighted_score_for (clamp01 (r_score r)) (r_importance r) (r_confidence r)
                 (updated_at_for (r_fact_id r)) (r_memory_type r) now c\<rparr>) results)"

section \<open>Reciprocal rank fusion (\<open>rrf.rs\<close>)\<close>

record rrf_config =
  rrf_k :: f32
  rrf_semantic_weight :: f32
  rrf_keyword_weight :: f32

definition rrf_config_default :: rrf_config where
  "rrf_config_default = \<lparr>rrf_k = Fin 60, rrf_semantic_weight = Fin 1, rrf_keyword_weight = Fin 1\<rparr>"

definition normalized :: "rrf_config \<Rightarrow> rrf_config" where
  "normalized c =
     \<lparr>rrf_k = (if f32_is_finite (rrf_k c) \<and> f32_lt (Fin 0) (rrf_k c) then rrf_k c else Fin 60),
      rrf_semantic_weight = (if f32_is_finite (rrf_semantic_weight c) \<and> f32_le (Fin 0) (rrf_semantic_weight c)
        then rrf_semantic_weight c else Fin 1),
      rrf_keyword_weight = (if f32_is_finite (rrf_keyword_weight c) \<and> f32_le (Fin 0) (rrf_keyword_weight c)
        then rrf_keyword_weight c else Fin 1)\<rparr>"

datatype ranking_source = Semantic | Keyword

record ranked_candidate =
  rk_fact_id :: uuid
  rk_source :: ranking_source
  rk_rank :: nat
  rk_score :: f32

definition contribution :: "f32 \<Rightarrow> f32 \<Rightarrow> nat \<Rightarrow> f32" where
  "contribution k weight rank = f32_mul weight (f32_div (Fin 1) (f32_add k (f32_of_nat (max rank 1))))"

definition bump :: "uuid \<Rightarrow> f32 \<Rightarrow> (uuid, f32) hash_map \<Rightarrow> (uuid, f32) hash_map" where
  "bump i c scores =
     AList.update i (f32_add (case map_of scores i of None \<Rightarrow> Fin 0 | Some x \<Rightarrow> x) c) scores"

text \<open>The closure \<open>apply_source\<close>: only the first hit of a fact in a source counts.\<close>

fun apply_source ::
  "f32 \<Rightarrow> f32 \<Rightarrow> uuid set \<Rightarrow> ranked_candidate list \<Rightarrow> (uuid, f32) hash_map \<Rightarrow> (uuid, f32) hash_map" where
  "apply_source k weight seen [] scores = scores"
| "apply_source k weight seen (c # cs) scores =
     (if rk_fact_id c \<in> seen then apply_source k weight seen cs scores
      else apply_source k weight (insert (rk_fact_id c) seen) cs
             (bump (rk_fact_id c) (contribution k weight (rk_rank c)) scores))"

definition fused_le :: "uuid \<times> f32 \<Rightarrow> uuid \<times> f32 \<Rightarrow> bool" where
  "fused_le = lex_le (\<lambda>a b. f32_cmp_le (snd b) (snd a)) (\<lambda>a b. fst a \<le> fst b)"

definition reciprocal_rank_fusion ::
  "ranked_candidate list \<Rightarrow> ranked_candidate list \<Rightarrow> rrf_config \<Rightarrow> (uuid \<times> f32) list" where
  "reciprocal_rank_fusion semantic_results keyword_results config =
     (let c = normalized config;
          scores1 = apply_source (rrf_k c) (rrf_semantic_weight c) {} semantic_results [];
          scores2 = apply_source (rrf_k c) (rrf_keyword_weight c) {} keyword_results scores1
      in sort_by fused_le scores2)"

section \<open>Scores are numbers\<close>

lemma f32_of_rat_nonneg: "0 \<le> r \<Longrightarrow> f32_le (Fin 0) (f32_of_rat r)"
  using f32_of_rat_mono [of 0 r] by simp

lemma f32_of_rat_le_1: "r \<le> 1 \<Longrightarrow> f32_le (f32_of_rat r) (Fin 1)"
  using f32_of_rat_mono [of r 1] by simp

lemma nonneg_cases:
  "f32_le (Fin 0) x \<longleftrightarrow> x = PosInf \<or> (\<exists>a. x = Fin a \<and> 0 \<le> a)"
  by (cases x) (auto simp: f32_le_def f32_eq_def)

lemma nonneg_not_NaN: "f32_le (Fin 0) x \<Longrightarrow> x \<noteq> NaN"
  by auto

lemma f32_add_nonneg: "f32_le (Fin 0) x \<Longrightarrow> f32_le (Fin 0) y \<Longrightarrow> f32_le (Fin 0) (f32_add x y)"
  by (auto simp: nonneg_cases [of x] nonneg_cases [of y] f32_of_rat_nonneg) (auto simp: nonneg_cases)

lemma reciprocal_nonneg:
  assumes "f32_is_finite k" and "f32_lt (Fin 0) k"
  shows "\<exists>y. f32_div (Fin 1) (f32_add k (f32_of_nat (max rank 1))) = Fin y \<and> 0 \<le> y"
proof -
  obtain a where a: "k = Fin a" "0 < a"
    using assms by (cases k) (auto simp: f32_is_finite_def)
  have "f32_le (Fin 1) (f32_of_nat (max rank 1))"
    using f32_of_rat_mono [of 1 "of_nat (max rank 1)"] by (simp add: f32_of_nat_def)
  then have n: "f32_of_nat (max rank 1) = PosInf \<or> (\<exists>b. f32_of_nat (max rank 1) = Fin b \<and> 1 \<le> b)"
    by (cases "f32_of_nat (max rank 1)") (auto simp: f32_le_def f32_eq_def)
  have big: "f32_add k (f32_of_nat (max rank 1)) = PosInf \<or>
      (\<exists>x. f32_add k (f32_of_nat (max rank 1)) = Fin x \<and> 1 \<le> x)"
  proof (cases "f32_of_nat (max rank 1) = PosInf")
    case False
    with n obtain b where b: "f32_of_nat (max rank 1) = Fin b" "1 \<le> b" by blast
    have "f32_le (Fin 1) (f32_of_rat (a + b))"
      using f32_of_rat_mono [of 1 "a + b"] a b by simp
    then show ?thesis
      using a b by (cases "f32_of_rat (a + b)") (auto simp: f32_le_def f32_eq_def)
  qed (use a in simp)
  show ?thesis
  proof (cases "f32_add k (f32_of_nat (max rank 1)) = PosInf")
    case False
    with big obtain x where x: "f32_add k (f32_of_nat (max rank 1)) = Fin x" "1 \<le> x" by blast
    have "f32_le (Fin 0) (f32_of_rat (1 / x))" "f32_le (f32_of_rat (1 / x)) (Fin 1)"
      using x by (auto intro: f32_of_rat_nonneg f32_of_rat_le_1)
    then obtain y where "f32_of_rat (1 / x) = Fin y" "0 \<le> y"
      by (cases "f32_of_rat (1 / x)") (auto simp: f32_le_def f32_eq_def)
    with x show ?thesis by auto
  qed simp
qed

lemma contribution_nonneg:
  assumes "f32_is_finite k" and "f32_lt (Fin 0) k" and "f32_is_finite w" and "f32_le (Fin 0) w"
  shows "f32_le (Fin 0) (contribution k w rank)"
proof -
  obtain y where y: "f32_div (Fin 1) (f32_add k (f32_of_nat (max rank 1))) = Fin y" "0 \<le> y"
    using reciprocal_nonneg [OF assms(1,2)] by blast
  obtain b where "w = Fin b" "0 \<le> b"
    using assms(3,4) by (cases w) (auto simp: f32_is_finite_def)
  with y show ?thesis
    by (simp add: contribution_def f32_of_rat_nonneg)
qed

lemma normalized_valid:
  "f32_is_finite (rrf_k (normalized c))" "f32_lt (Fin 0) (rrf_k (normalized c))"
  "f32_is_finite (rrf_semantic_weight (normalized c))" "f32_le (Fin 0) (rrf_semantic_weight (normalized c))"
  "f32_is_finite (rrf_keyword_weight (normalized c))" "f32_le (Fin 0) (rrf_keyword_weight (normalized c))"
  by (auto simp: normalized_def f32_is_finite_def)

section \<open>Fusion\<close>

text \<open>The rank at which a source first reports a fact.\<close>

definition first_rank :: "ranked_candidate list \<Rightarrow> uuid \<Rightarrow> nat option" where
  "first_rank cs i = map_option rk_rank (find (\<lambda>c. rk_fact_id c = i) cs)"

lemma apply_source_map:
  "map_of (apply_source k w seen cs scores) i =
     (if i \<in> seen then map_of scores i
      else case first_rank cs i of
             None \<Rightarrow> map_of scores i
           | Some r \<Rightarrow> Some (f32_add (case map_of scores i of None \<Rightarrow> Fin 0 | Some x \<Rightarrow> x) (contribution k w r)))"
proof (induction k w seen cs scores rule: apply_source.induct)
  case (2 k w seen c cs scores)
  have other: "map_of (bump j x scores) i = map_of scores i" if "j \<noteq> i" for j x
    using that by (simp add: bump_def)
  show ?case
  proof (cases "rk_fact_id c = i")
    case True
    with 2 show ?thesis by (auto simp: first_rank_def bump_def)
  next
    case False
    then have "first_rank (c # cs) i = first_rank cs i" by (simp add: first_rank_def)
    with 2 False other [OF False] show ?thesis by (auto split: option.split)
  qed
qed (simp add: first_rank_def)

lemma apply_source_wf: "hm_wf scores \<Longrightarrow> hm_wf (apply_source k w seen cs scores)"
  by (induction k w seen cs scores rule: apply_source.induct) (auto simp: bump_def)

definition rrf_score :: "rrf_config \<Rightarrow> ranked_candidate list \<Rightarrow> ranked_candidate list \<Rightarrow> uuid \<Rightarrow> f32 option" where
  "rrf_score c sem kw i =
     (let s = (\<lambda>r. f32_add (Fin 0) (contribution (rrf_k c) (rrf_semantic_weight c) r));
          w = (\<lambda>x r. f32_add x (contribution (rrf_k c) (rrf_keyword_weight c) r))
      in case first_rank sem i of
           None \<Rightarrow> map_option (w (Fin 0)) (first_rank kw i)
         | Some r \<Rightarrow> Some (case first_rank kw i of None \<Rightarrow> s r | Some r' \<Rightarrow> w (s r) r'))"

definition rrf_scores :: "rrf_config \<Rightarrow> ranked_candidate list \<Rightarrow> ranked_candidate list \<Rightarrow> (uuid, f32) hash_map" where
  "rrf_scores c sem kw = apply_source (rrf_k c) (rrf_keyword_weight c) {} kw
     (apply_source (rrf_k c) (rrf_semantic_weight c) {} sem [])"

lemma rrf_scores_map: "map_of (rrf_scores c sem kw) i = rrf_score c sem kw i"
  by (simp add: rrf_scores_def apply_source_map rrf_score_def Let_def split: option.splits)

lemma rrf_scores_wf: "hm_wf (rrf_scores c sem kw)"
  by (simp add: rrf_scores_def apply_source_wf)

lemma rrf_score_nonneg: "rrf_score (normalized c) sem kw i = Some x \<Longrightarrow> f32_le (Fin 0) x"
  by (auto simp: rrf_score_def Let_def normalized_valid split: option.splits
      intro!: f32_add_nonneg contribution_nonneg)

lemma fused_le_iff:
  "snd a \<noteq> NaN \<Longrightarrow> snd b \<noteq> NaN \<Longrightarrow>
     fused_le a b \<longleftrightarrow> f32_lt (snd b) (snd a) \<or> (snd a = snd b \<and> fst a \<le> fst b)"
  using f32_lt_linear [of "snd a" "snd b"]
  by (auto simp: fused_le_def lex_le_def f32_cmp_le_def dest: f32_lt_trans)

lemma fused_le_total_preorder: "total_preorder_on {p. snd p \<noteq> NaN} fused_le"
  unfolding total_preorder_on_def
proof (intro conjI ballI impI)
  fix a b :: "uuid \<times> f32"
  assume "a \<in> {p. snd p \<noteq> NaN}" "b \<in> {p. snd p \<noteq> NaN}"
  then show "fused_le a b \<or> fused_le b a"
    using f32_lt_linear [of "snd a" "snd b"] by (auto simp: fused_le_iff)
next
  fix a b c :: "uuid \<times> f32"
  assume n: "a \<in> {p. snd p \<noteq> NaN}" "b \<in> {p. snd p \<noteq> NaN}" "c \<in> {p. snd p \<noteq> NaN}"
    and "fused_le a b" "fused_le b c"
  then have "f32_lt (snd b) (snd a) \<or> (snd a = snd b \<and> fst a \<le> fst b)"
    "f32_lt (snd c) (snd b) \<or> (snd b = snd c \<and> fst b \<le> fst c)"
    by (simp_all add: fused_le_iff)
  then have "f32_lt (snd c) (snd a) \<or> (snd a = snd c \<and> fst a \<le> fst c)"
    by (elim disjE conjE) (auto dest: f32_lt_trans)
  then show "fused_le a c" using n by (simp add: fused_le_iff)
qed

lemma fused_strict:
  "fused_le a b \<Longrightarrow> snd a \<noteq> NaN \<Longrightarrow> snd b \<noteq> NaN \<Longrightarrow> fst a \<noteq> fst b \<Longrightarrow>
     f32_lt (snd b) (snd a) \<or> (snd a = snd b \<and> fst a < fst b)"
  by (auto simp: fused_le_iff)

section \<open>Properties\<close>

text \<open>C21: Reciprocal rank fusion: for every configuration, even one with NaN or negative weights, the
  result lists exactly the facts that one of the sources reports, each once, with the score of the
  formula on its first rank in each source, strictly ordered by score and then by identifier.\<close>

theorem rrf_exact:
  "distinct (map fst (reciprocal_rank_fusion sem kw cfg)) \<and>
   sorted_wrt (\<lambda>a b. f32_lt (snd b) (snd a) \<or> (snd a = snd b \<and> fst a < fst b)) (reciprocal_rank_fusion sem kw cfg) \<and>
   map_of (reciprocal_rank_fusion sem kw cfg) = rrf_score (normalized cfg) sem kw"
proof -
  let ?scores = "rrf_scores (normalized cfg) sem kw"
  define out where "out = reciprocal_rank_fusion sem kw cfg"
  have out: "out = sort_by fused_le ?scores"
    by (simp add: out_def reciprocal_rank_fusion_def rrf_scores_def Let_def)
  have "mset (map fst out) = mset (map fst ?scores)"
    by (simp add: out)
  then have d: "distinct (map fst out)"
    using rrf_scores_wf [of "normalized cfg" sem kw] mset_eq_imp_distinct_iff unfolding hm_wf_def by blast
  have "map_of out i = Some v \<longleftrightarrow> map_of ?scores i = Some v" for i v
    using d in_hm_iff [of out i v] in_hm_iff [OF rrf_scores_wf, of i v "normalized cfg" sem kw]
    by (simp add: out hm_wf_def)
  then have m: "map_of out i = map_of ?scores i" for i
    by (metis option.exhaust)
  have "p \<in> {p. snd p \<noteq> NaN}" if "p \<in> set ?scores" for p
  proof -
    have "rrf_score (normalized cfg) sem kw (fst p) = Some (snd p)"
      using that in_hm_iff [OF rrf_scores_wf, of "fst p" "snd p" "normalized cfg" sem kw] by (simp add: rrf_scores_map)
    then show ?thesis using rrf_score_nonneg nonneg_not_NaN by blast
  qed
  then have nan: "set out \<subseteq> {p. snd p \<noteq> NaN}" and "set ?scores \<subseteq> {p. snd p \<noteq> NaN}"
    by (auto simp: out)
  then have "sorted_wrt fused_le out"
    unfolding out by (intro sorted_wrt_sort_by_on [OF fused_le_total_preorder])
  moreover have "sorted_wrt (\<lambda>a b. fst a \<noteq> fst b) out"
    using d by (simp add: distinct_conv_nth sorted_wrt_iff_nth_less)
  ultimately have "sorted_wrt (\<lambda>a b. fused_le a b \<and> fst a \<noteq> fst b) out"
    by (simp add: sorted_wrt_iff_nth_less)
  then have "sorted_wrt (\<lambda>a b. f32_lt (snd b) (snd a) \<or> (snd a = snd b \<and> fst a < fst b)) out"
    by (rule sorted_wrt_mono_rel [rotated]) (use nan fused_strict in blast)
  then show ?thesis
    using d m by (simp add: out_def rrf_scores_map fun_eq_iff)
qed

end
