(* ===== verification/Dedup.thy ===== *)
theory Dedup
  imports Vector_Store
begin

text \<open>
  Duplicate detection and importance: \<^verbatim>\<open>crates/memcore-core/src/dedup\<close> (normalised text, token
  overlap, embedding similarity) and \<^verbatim>\<open>crates/memcore-core/src/importance/scorer.rs\<close>. The text
  \<open>{:.2}\<close> that reasons contain is a parameter \<open>fmt2\<close>: it is stored for people to read and never
  inspected.
\<close>

section \<open>Constants and types (\<open>dedup/types.rs\<close>)\<close>

definition EXACT_DUPLICATE_THRESHOLD :: f32 where
  "EXACT_DUPLICATE_THRESHOLD = Fin 1"

definition HIGH_SIMILARITY_DUPLICATE_THRESHOLD :: f32 where
  "HIGH_SIMILARITY_DUPLICATE_THRESHOLD = f32_of_rat (90 / 100)"

definition MODERATE_SIMILARITY_THRESHOLD :: f32 where
  "MODERATE_SIMILARITY_THRESHOLD = f32_of_rat (65 / 100)"

definition DEDUP_SEARCH_LIMIT :: nat where
  "DEDUP_SEARCH_LIMIT = 50"

record embedding_dedup_config =
  ed_enabled :: bool
  ed_similarity_threshold :: f32
  ed_search_limit :: nat

definition embedding_dedup_config_default :: embedding_dedup_config where
  "embedding_dedup_config_default =
     \<lparr>ed_enabled = True, ed_similarity_threshold = f32_of_rat (92 / 100), ed_search_limit = 5\<rparr>"

datatype dedup_decision =
    Duplicate (existing_fact_id: uuid) (dup_reason: string)
  | SimilarButDistinct (sim_reason: string)
  | NewFact

section \<open>Text similarity (\<open>dedup/detector.rs\<close>)\<close>

definition strip_trailing_punctuation :: "string \<Rightarrow> string" where
  "strip_trailing_punctuation s = rev (dropWhile (\<lambda>c. c \<in> set ''.,!?;:'') (rev s))"

definition normalize_content :: "string \<Rightarrow> string" where
  "normalize_content content =
     (let trimmed = to_ascii_lowercase (trim content);
          collapsed = join '' '' (split_whitespace trimmed)
      in strip_trailing_punctuation collapsed)"

definition token_set :: "string \<Rightarrow> string set" where
  "token_set content = set (filter (\<lambda>token. token \<noteq> []) (split_whitespace (normalize_content content)))"

definition token_overlap_ratio :: "string \<Rightarrow> string \<Rightarrow> f32" where
  "token_overlap_ratio left right =
     (let left_tokens = token_set left; right_tokens = token_set right in
      if left_tokens = {} \<and> right_tokens = {} then EXACT_DUPLICATE_THRESHOLD
      else if left_tokens = {} \<or> right_tokens = {} then Fin 0
      else f32_div (f32_of_nat (card (left_tokens \<inter> right_tokens)))
             (f32_of_nat (card (left_tokens \<union> right_tokens))))"

definition find_existing_facts_for_dedup :: "tenant_context \<Rightarrow> memory_type \<Rightarrow> fact list fact_op" where
  "find_existing_facts_for_dedup t mt =
     search_facts \<lparr>q_tenant = t, q_memory_types = Some [mt], q_query_text = None,
       q_limit = DEDUP_SEARCH_LIMIT, q_cursor = None, q_include_deleted = False\<rparr>"

fun detect_loop ::
  "(f32 \<Rightarrow> string) \<Rightarrow> candidate_fact \<Rightarrow> (f32 \<times> string) option \<Rightarrow> fact list \<Rightarrow> dedup_decision" where
  "detect_loop fmt2 c best_moderate [] =
     (case best_moderate of Some (_, reason) \<Rightarrow> SimilarButDistinct reason | None \<Rightarrow> NewFact)"
| "detect_loop fmt2 c best_moderate (existing # rest) =
     (if f_memory_type existing \<noteq> c_memory_type c then detect_loop fmt2 c best_moderate rest
      else if normalize_content (c_content c) = normalize_content (f_content existing)
      then Duplicate (f_id existing) ''exact normalized content match''
      else let overlap = token_overlap_ratio (c_content c) (f_content existing) in
        if f32_le HIGH_SIMILARITY_DUPLICATE_THRESHOLD overlap
        then Duplicate (f_id existing) (''high token overlap ('' @ fmt2 overlap @ '')'')
        else if f32_le MODERATE_SIMILARITY_THRESHOLD overlap
        then (let reason = ''moderate token overlap ('' @ fmt2 overlap @ '') with existing fact'' in
              case best_moderate of
                Some (best, _) \<Rightarrow>
                  if f32_le overlap best then detect_loop fmt2 c best_moderate rest
                  else detect_loop fmt2 c (Some (overlap, reason)) rest
              | None \<Rightarrow> detect_loop fmt2 c (Some (overlap, reason)) rest)
        else detect_loop fmt2 c best_moderate rest)"

definition detect_duplicate :: "(f32 \<Rightarrow> string) \<Rightarrow> candidate_fact \<Rightarrow> fact list \<Rightarrow> dedup_decision" where
  "detect_duplicate fmt2 c existing_facts = detect_loop fmt2 c None existing_facts"

section \<open>Embedding similarity (\<open>dedup/embedding.rs\<close>)\<close>

definition detect_embedding_duplicate ::
  "(f32 \<Rightarrow> string) \<Rightarrow> tenant_context \<Rightarrow> memory_type \<Rightarrow> f32 list \<Rightarrow> embedding_dedup_config \<Rightarrow>
   dedup_decision option vector_op" where
  "detect_embedding_duplicate fmt2 t mt embedding config =
     (if \<not> ed_enabled config then ret None
      else bindC (search_vectors \<lparr>vq_tenant = t, vq_embedding = embedding,
                    vq_limit = ed_search_limit config, vq_memory_types = Some [mt],
                    vq_metadata_filter = None\<rparr>) (\<lambda>results.
        case find (\<lambda>r. f32_le (ed_similarity_threshold config) (vr_score r)) results of
          None \<Rightarrow> ret None
        | Some r \<Rightarrow> ret (Some (Duplicate (vr_fact_id r)
            (''embedding similarity ('' @ fmt2 (vr_score r) @ '' >= '' @
             fmt2 (ed_similarity_threshold config) @ '')'')))))"

section \<open>Importance (\<open>importance/scorer.rs\<close>)\<close>

definition STABLE_TYPE_BOOST :: f32 where "STABLE_TYPE_BOOST = f32_of_rat (8 / 100)"
definition SHORT_CONTENT_PENALTY :: f32 where "SHORT_CONTENT_PENALTY = f32_of_rat (18 / 100)"
definition VAGUE_CONTENT_PENALTY :: f32 where "VAGUE_CONTENT_PENALTY = f32_of_rat (22 / 100)"
definition SHORT_CONTENT_MAX_LEN :: nat where "SHORT_CONTENT_MAX_LEN = 12"

definition is_stable_memory_type :: "memory_type \<Rightarrow> bool" where
  "is_stable_memory_type mt \<longleftrightarrow> mt \<in> {Profile, Preference, Project, Skill}"

definition is_short_content :: "string \<Rightarrow> bool" where
  "is_short_content content \<longleftrightarrow> length (trim content) < SHORT_CONTENT_MAX_LEN"

definition VAGUE_PATTERNS :: "string list" where
  "VAGUE_PATTERNS =
     [''user said okay'', ''user asked a question'', ''user is here today'', ''okay'', ''ok'',
      ''user said ok'', ''user said yes'', ''user said no'']"

definition is_vague_or_temporary :: "string \<Rightarrow> bool" where
  "is_vague_or_temporary content \<longleftrightarrow>
     (let normalized = to_ascii_lowercase (trim content) in
      list_ex (\<lambda>p. normalized = p \<or> starts_with normalized (p @ ''.'')) VAGUE_PATTERNS)"

definition adjust :: "candidate_fact \<Rightarrow> candidate_fact" where
  "adjust c =
     (let i0 = f32_clamp (c_importance c) (Fin 0) (Fin 1);
          i1 = (if is_stable_memory_type (c_memory_type c) then f32_add i0 STABLE_TYPE_BOOST else i0);
          i2 = (if is_short_content (c_content c) then f32_sub i1 SHORT_CONTENT_PENALTY else i1);
          i3 = (if is_vague_or_temporary (c_content c) then f32_sub i2 VAGUE_CONTENT_PENALTY else i2)
      in c\<lparr>c_importance := f32_clamp i3 (Fin 0) (Fin 1)\<rparr>)"

section \<open>Facts about small whole numbers as floats\<close>

lemma f32_of_nat_exact:
  assumes "n < 2 ^ 24"
  shows "f32_of_nat n = Fin (of_nat n)"
proof (cases "n = 0")
  case True
  then show ?thesis by (simp add: f32_of_nat_def)
next
  case False
  then have pos: "(0::rat) < of_nat n" by simp
  have lt: "(of_nat n :: rat) < 2 ^ 24"
    using assms by (metis of_nat_less_iff of_nat_numeral of_nat_power)
  have "exponent (of_nat n) < 24"
  proof (rule ccontr)
    assume "\<not> exponent (of_nat n) < 24"
    then have "(2::rat) powi 24 \<le> 2 powi exponent (of_nat n)" by (intro powi_mono) simp
    also have "\<dots> \<le> of_nat n" using exponent_bounds [OF pos] by simp
    finally show False using lt by simp
  qed
  then have u: "ulp_exp (of_nat n) \<le> 0" by (simp add: ulp_exp_def)
  define k where "k = nat (- ulp_exp (of_nat n))"
  have k: "(2::rat) powi ulp_exp (of_nat n) = 1 / 2 ^ k"
  proof -
    have e: "ulp_exp (of_nat n) = - int k" using u by (simp add: k_def)
    show ?thesis unfolding e power_int_minus power_int_of_nat by (simp add: divide_inverse)
  qed
  have "of_nat n / (1 / 2 ^ k) = (of_int (int n * 2 ^ k) :: rat)" by simp
  then have "round_pos (of_nat n) = of_nat n"
    unfolding round_pos_def k by (simp only: round_even_of_int) simp
  moreover have "(of_nat n :: rat) < 2 ^ 128"
    using lt by (rule less_trans) simp
  ultimately show ?thesis
    using pos by (simp add: f32_of_nat_def f32_of_rat_def)
qed

text \<open>A ratio of two small counts is the rounded rational ratio.\<close>

lemma f32_ratio:
  "i < 2 ^ 24 \<Longrightarrow> 0 < u \<Longrightarrow> u < 2 ^ 24 \<Longrightarrow>
     f32_div (f32_of_nat i) (f32_of_nat u) = f32_of_rat (of_nat i / of_nat u)"
  by (simp add: f32_of_nat_exact)

section \<open>Token overlap\<close>

lemma finite_token_set [simp]: "finite (token_set s)"
  by (simp add: token_set_def)

lemma token_overlap_sym: "token_overlap_ratio a b = token_overlap_ratio b a"
  by (simp add: token_overlap_ratio_def Let_def Int_commute Un_commute)

lemma token_overlap_jaccard:
  assumes "card (token_set a \<union> token_set b) < 2 ^ 24" and "token_set a \<noteq> {}" and "token_set b \<noteq> {}"
  shows "token_overlap_ratio a b =
    f32_of_rat (of_nat (card (token_set a \<inter> token_set b)) / of_nat (card (token_set a \<union> token_set b)))"
proof -
  have "card (token_set a \<inter> token_set b) \<le> card (token_set a \<union> token_set b)"
    by (intro card_mono) auto
  moreover have "0 < card (token_set a \<union> token_set b)"
    using assms(2) by (simp add: card_gt_0_iff)
  ultimately show ?thesis
    using assms by (simp add: token_overlap_ratio_def Let_def f32_ratio)
qed

lemma token_overlap_range:
  assumes "card (token_set a \<union> token_set b) < 2 ^ 24"
  shows "in_unit_interval (token_overlap_ratio a b)"
proof (cases "token_set a = {} \<or> token_set b = {}")
  case True
  then show ?thesis
    by (auto simp: token_overlap_ratio_def Let_def EXACT_DUPLICATE_THRESHOLD_def in_unit_interval_def)
next
  case False
  let ?i = "card (token_set a \<inter> token_set b)" and ?u = "card (token_set a \<union> token_set b)"
  have "?i \<le> ?u" by (intro card_mono) auto
  then have "0 \<le> (of_nat ?i / of_nat ?u :: rat)" "(of_nat ?i / of_nat ?u :: rat) \<le> 1"
    by (auto simp: divide_le_eq_1)
  then have "f32_le (f32_of_rat 0) (f32_of_rat (of_nat ?i / of_nat ?u))"
    "f32_le (f32_of_rat (of_nat ?i / of_nat ?u)) (f32_of_rat 1)"
    by (intro f32_of_rat_mono; simp)+
  with False assms show ?thesis
    by (simp add: token_overlap_jaccard in_unit_interval_def)
qed

section \<open>Duplicate detection\<close>

text \<open>Why a fact counts as a duplicate of a candidate.\<close>

definition duplicate_of :: "candidate_fact \<Rightarrow> fact \<Rightarrow> bool" where
  "duplicate_of c f \<longleftrightarrow> f_memory_type f = c_memory_type c \<and>
     (normalize_content (c_content c) = normalize_content (f_content f) \<or>
      f32_le HIGH_SIMILARITY_DUPLICATE_THRESHOLD (token_overlap_ratio (c_content c) (f_content f)))"

text \<open>One step: a duplicate ends the loop, any other fact only changes the moderate match.\<close>

lemma detect_loop_step:
  "duplicate_of c f \<Longrightarrow> \<exists>r. detect_loop fmt2 c b (f # fs) = Duplicate (f_id f) r"
  "\<not> duplicate_of c f \<Longrightarrow> \<exists>b'. detect_loop fmt2 c b (f # fs) = detect_loop fmt2 c b' fs"
proof -
  assume "duplicate_of c f"
  then show "\<exists>r. detect_loop fmt2 c b (f # fs) = Duplicate (f_id f) r"
    by (cases "normalize_content (c_content c) = normalize_content (f_content f)")
      (simp_all add: duplicate_of_def Let_def)
next
  assume nd: "\<not> duplicate_of c f"
  show "\<exists>b'. detect_loop fmt2 c b (f # fs) = detect_loop fmt2 c b' fs"
  proof (cases "f_memory_type f = c_memory_type c")
    case True
    with nd show ?thesis
      by (cases b) (simp_all add: duplicate_of_def Let_def split_beta; metis)+
  qed auto
qed

lemma detect_loop_find:
  "case find (duplicate_of c) fs of
     Some f \<Rightarrow> \<exists>r. detect_loop fmt2 c b fs = Duplicate (f_id f) r
   | None \<Rightarrow> \<forall>i r. detect_loop fmt2 c b fs \<noteq> Duplicate i r"
proof (induction fs arbitrary: b)
  case Nil
  then show ?case by (simp split: option.split)
next
  case (Cons f fs)
  show ?case
  proof (cases "duplicate_of c f")
    case True
    then show ?thesis using detect_loop_step(1) [of c f fmt2 b fs] by (simp del: detect_loop.simps)
  next
    case False
    then obtain b' where "detect_loop fmt2 c b (f # fs) = detect_loop fmt2 c b' fs"
      using detect_loop_step(2) by blast
    with False Cons.IH [of b'] show ?thesis by (simp del: detect_loop.simps split: option.splits)
  qed
qed

lemma detect_embedding_duplicate_frame [frame_simps]:
  "snd (detect_embedding_duplicate fmt2 t mt emb cfg s) = s"
  by (auto simp: detect_embedding_duplicate_def search_vectors_def bindC_def split: option.splits)

lemma detect_embedding_duplicate_sound:
  assumes "vs_wf s" and "detect_embedding_duplicate fmt2 t mt emb cfg s = (Inr (Some (Duplicate i r)), s')"
  shows "\<exists>v \<in> tenant_vectors s t. v_fact_id v = i \<and> v_memory_type v = mt \<and>
    f32_le (ed_similarity_threshold cfg) (cosine_similarity emb (v_embedding v))"
proof -
  let ?q = "\<lparr>vq_tenant = t, vq_embedding = emb, vq_limit = ed_search_limit cfg,
    vq_memory_types = Some [mt], vq_metadata_filter = None\<rparr>"
  from assms(2) obtain rs x where rs: "search_vectors ?q s = (Inr rs, s)"
    and x: "find (\<lambda>r. f32_le (ed_similarity_threshold cfg) (vr_score r)) rs = Some x" "vr_fact_id x = i"
    by (auto simp: detect_embedding_duplicate_def search_vectors_def split: if_splits option.splits)
  then have "x \<in> set rs" "f32_le (ed_similarity_threshold cfg) (vr_score x)"
    by (auto simp: find_Some_iff)
  with mock_vectors.search_sound [OF assms(1) rs, of x] x(2) show ?thesis
    by (auto simp: score_record_def vector_query_matches_def)
qed

section \<open>Importance adjustment\<close>

lemma adjust_constants_finite:
  "f32_is_finite STABLE_TYPE_BOOST" "f32_is_finite SHORT_CONTENT_PENALTY"
  "f32_is_finite VAGUE_CONTENT_PENALTY"
  by code_simp+

lemma f32_sub_NaN_iff: "f32_is_finite y \<Longrightarrow> f32_sub x y = NaN \<longleftrightarrow> x = NaN"
  by (cases x; cases y) (auto simp: f32_sub_def f32_is_finite_def)

lemma f32_add_finite_NaN_iff: "f32_is_finite y \<Longrightarrow> f32_add x y = NaN \<longleftrightarrow> x = NaN"
  by (cases x; cases y) (auto simp: f32_is_finite_def)

lemma f32_clamp_NaN_iff: "f32_clamp x (Fin a) (Fin b) = NaN \<longleftrightarrow> x = NaN"
  by (cases x) (auto simp: f32_clamp_def)

lemma adjust_in_unit_interval:
  assumes "c_importance c \<noteq> NaN"
  shows "in_unit_interval (c_importance (adjust c))"
proof -
  define i3 where "i3 = (let i0 = f32_clamp (c_importance c) (Fin 0) (Fin 1);
      i1 = (if is_stable_memory_type (c_memory_type c) then f32_add i0 STABLE_TYPE_BOOST else i0);
      i2 = (if is_short_content (c_content c) then f32_sub i1 SHORT_CONTENT_PENALTY else i1)
      in if is_vague_or_temporary (c_content c) then f32_sub i2 VAGUE_CONTENT_PENALTY else i2)"
  have "c_importance (adjust c) = f32_clamp i3 (Fin 0) (Fin 1)"
    by (simp add: adjust_def i3_def Let_def)
  moreover have "i3 \<noteq> NaN"
    using assms adjust_constants_finite
    by (simp add: i3_def Let_def f32_sub_NaN_iff f32_add_finite_NaN_iff f32_clamp_NaN_iff)
  ultimately show ?thesis
    using f32_clamp_range [of i3 "Fin 0" "Fin 1"] by (simp add: in_unit_interval_def)
qed

lemma adjust_other_fields [simp]:
  "c_content (adjust c) = c_content c" "c_memory_type (adjust c) = c_memory_type c"
  "c_confidence (adjust c) = c_confidence c" "c_valid_at (adjust c) = c_valid_at c"
  "c_metadata (adjust c) = c_metadata c"
  by (simp_all add: adjust_def Let_def)

section \<open>Properties\<close>

text \<open>Text deduplication is decided by the first existing fact that duplicates the candidate (same
  memory type, and equal normalised text or high token overlap): the decision names that fact, and
  without such a fact the candidate is never dropped.\<close>

theorem detect_duplicate_first_match:
  "case find (duplicate_of c) fs of
     Some f \<Rightarrow> \<exists>r. detect_duplicate fmt2 c fs = Duplicate (f_id f) r
   | None \<Rightarrow> \<forall>i r. detect_duplicate fmt2 c fs \<noteq> Duplicate i r"
  unfolding detect_duplicate_def by (rule detect_loop_find)

text \<open>Token overlap in floating point is safe: the ratio always lies in the unit interval, and
  the rounding of the ratio and of the threshold never loses a duplicate: a fact of the same type
  that shares at least nine tenths of the tokens is reported as one.\<close>

theorem high_overlap_is_duplicate:
  assumes "f \<in> set fs" and "f_memory_type f = c_memory_type c"
    and "card (token_set (c_content c) \<union> token_set (f_content f)) < 2 ^ 24"
    and "9 * card (token_set (c_content c) \<union> token_set (f_content f))
      \<le> 10 * card (token_set (c_content c) \<inter> token_set (f_content f))"
  shows "in_unit_interval (token_overlap_ratio (c_content c) (f_content f)) \<and>
    (\<exists>i r. detect_duplicate fmt2 c fs = Duplicate i r)"
proof
  let ?A = "token_set (c_content c)" and ?B = "token_set (f_content f)"
  show "in_unit_interval (token_overlap_ratio (c_content c) (f_content f))"
    using assms(3) by (rule token_overlap_range)
  have "f32_le HIGH_SIMILARITY_DUPLICATE_THRESHOLD (token_overlap_ratio (c_content c) (f_content f))"
  proof (cases "?A = {} \<or> ?B = {}")
    case True
    then have "?A = {} \<and> ?B = {}" using assms(4) by auto
    then have "token_overlap_ratio (c_content c) (f_content f) = f32_of_rat 1"
      by (simp add: token_overlap_ratio_def EXACT_DUPLICATE_THRESHOLD_def)
    then show ?thesis
      unfolding HIGH_SIMILARITY_DUPLICATE_THRESHOLD_def by (simp only:) (rule f32_of_rat_mono, simp)
  next
    case False
    then have pos: "0 < card (?A \<union> ?B)" by (simp add: card_gt_0_iff)
    have "(9 * of_nat (card (?A \<union> ?B)) :: rat) \<le> 10 * of_nat (card (?A \<inter> ?B))"
      using assms(4) by (metis of_nat_le_iff of_nat_mult of_nat_numeral)
    with pos have "(90 / 100 :: rat) \<le> of_nat (card (?A \<inter> ?B)) / of_nat (card (?A \<union> ?B))"
      by (simp add: field_simps)
    then show ?thesis
      using False assms(3)
      by (simp add: HIGH_SIMILARITY_DUPLICATE_THRESHOLD_def token_overlap_jaccard f32_of_rat_mono)
  qed
  with assms(1,2) have "find (duplicate_of c) fs \<noteq> None"
    by (auto simp: find_None_iff duplicate_of_def)
  then obtain g where g: "find (duplicate_of c) fs = Some g" by blast
  show "\<exists>i r. detect_duplicate fmt2 c fs = Duplicate i r"
    using detect_loop_find [where c = c and fs = fs] g unfolding detect_duplicate_def by fastforce
qed

definition sample_candidate :: "string \<Rightarrow> candidate_fact" where
  "sample_candidate content =
     \<lparr>c_content = content, c_memory_type = Preference, c_confidence = Fin 1, c_importance = Fin 1,
      c_valid_at = None, c_metadata = JNull\<rparr>"

theorem high_overlap_is_duplicate_witness:
  "\<exists>i r. detect_duplicate (\<lambda>_. []) (sample_candidate ''Likes  TEA.'') [sample_fact 1 alice ''likes tea'' 10]
    = Duplicate i r"
proof -
  have low: "to_ascii_lowercase ''Likes  TEA.'' = ''likes  tea.''" "to_ascii_lowercase ''likes tea'' = ''likes tea''"
    by code_simp+
  have t: "token_set ''Likes  TEA.'' = {''likes'', ''tea''}" "token_set ''likes tea'' = {''likes'', ''tea''}"
    by (simp_all add: token_set_def normalize_content_def strip_trailing_punctuation_def low str_eval)
  show ?thesis
    using high_overlap_is_duplicate [of "sample_fact 1 alice ''likes tea'' 10"
        "[sample_fact 1 alice ''likes tea'' 10]" "sample_candidate ''Likes  TEA.''"]
    by (simp add: sample_candidate_def sample_fact_def t)
qed

text \<open>Importance adjustment keeps a score a score: whatever number the provider reports, the
  adjusted importance lies in the unit interval, nothing else of the candidate changes, and a
  candidate with no boost and no penalty keeps a valid importance unchanged.\<close>

theorem adjust_importance_bounds:
  assumes "c_importance c \<noteq> NaN"
  shows "in_unit_interval (c_importance (adjust c)) \<and> adjust c = c\<lparr>c_importance := c_importance (adjust c)\<rparr> \<and>
    (in_unit_interval (c_importance c) \<longrightarrow> \<not> is_stable_memory_type (c_memory_type c) \<longrightarrow>
     \<not> is_short_content (c_content c) \<longrightarrow> \<not> is_vague_or_temporary (c_content c) \<longrightarrow> adjust c = c)"
proof -
  have "adjust c = c\<lparr>c_importance := c_importance (adjust c)\<rparr>"
    by (simp add: adjust_def Let_def)
  moreover have "adjust c = c" if "in_unit_interval (c_importance c)" "\<not> is_stable_memory_type (c_memory_type c)"
    "\<not> is_short_content (c_content c)" "\<not> is_vague_or_temporary (c_content c)"
    using that by (simp add: adjust_def Let_def f32_clamp_id in_unit_interval_def)
  ultimately show ?thesis
    using adjust_in_unit_interval [OF assms] by blast
qed

theorem adjust_importance_bounds_witness:
  "in_unit_interval (c_importance (adjust (sample_candidate ''okay'')))"
  using adjust_importance_bounds [of "sample_candidate ''okay''"] by (simp add: sample_candidate_def)

end
