(* ===== verification/Context.thy ===== *)
theory Context
  imports Models "HOL-Library.Sublist"
begin

text \<open>
  Context assembly: \<^verbatim>\<open>crates/memcore-core/src/context\<close> (token estimation, budgets, formatting,
  compression, assembly). Rendering that other crates do is a parameter: \<open>rd_json\<close> and \<open>rd_parse\<close>
  (\<open>serde_json\<close>), \<open>rd_rfc3339\<close> (chrono) and \<open>rd_fmt2\<close> (the \<open>{:.2}\<close> form of a float). Functions that the
  code writes for any \<open>TokenEstimator\<close> take the estimator as an argument.
\<close>

record render =
  rd_json :: "json \<Rightarrow> string"
  rd_parse :: "string \<Rightarrow> json option"
  rd_rfc3339 :: "datetime \<Rightarrow> string"
  rd_fmt2 :: "f32 \<Rightarrow> string"

section \<open>Characters of UTF-8 text\<close>

definition is_continuation :: "char \<Rightarrow> bool" where
  "is_continuation c \<longleftrightarrow> 128 \<le> (of_char c :: nat) \<and> (of_char c :: nat) < 192"

definition char_count :: "string \<Rightarrow> nat" where
  "char_count s = length (filter (\<lambda>c. \<not> is_continuation c) s)"

fun chars_take :: "nat \<Rightarrow> string \<Rightarrow> string" where
  "chars_take n [] = []"
| "chars_take n (c # s) =
     (if is_continuation c then c # chars_take n s
      else case n of 0 \<Rightarrow> [] | Suc m \<Rightarrow> c # chars_take m s)"

fun split_on :: "char \<Rightarrow> string \<Rightarrow> string list" where
  "split_on sep [] = [[]]"
| "split_on sep (c # s) =
     (if c = sep then [] # split_on sep s
      else case split_on sep s of [] \<Rightarrow> [[c]] | part # parts \<Rightarrow> (c # part) # parts)"

section \<open>Token estimation (\<open>token_estimator.rs\<close>)\<close>

definition estimate_tokens :: "string \<Rightarrow> nat" where
  "estimate_tokens text =
     (let n = char_count text in if n = 0 then 0 else max ((n + 3) div 4) 1)"

section \<open>Budget (\<open>budget.rs\<close>)\<close>

definition DEFAULT_CONTEXT_MAX_TOKENS :: nat where "DEFAULT_CONTEXT_MAX_TOKENS = 2000"
definition DEFAULT_CONTEXT_RESERVED_TOKENS :: nat where "DEFAULT_CONTEXT_RESERVED_TOKENS = 300"
definition MAX_CONTEXT_MAX_TOKENS :: nat where "MAX_CONTEXT_MAX_TOKENS = 16000"

record context_budget =
  b_max_tokens :: nat
  b_reserved_tokens :: nat

definition context_budget_default :: context_budget where
  "context_budget_default =
     \<lparr>b_max_tokens = DEFAULT_CONTEXT_MAX_TOKENS, b_reserved_tokens = DEFAULT_CONTEXT_RESERVED_TOKENS\<rparr>"

text \<open>\<open>saturating_sub\<close> is the subtraction of natural numbers.\<close>

definition available_tokens :: "context_budget \<Rightarrow> nat" where
  "available_tokens b = b_max_tokens b - b_reserved_tokens b"

definition budget_validate :: "context_budget \<Rightarrow> unit memcore_result" where
  "budget_validate b =
     (if b_max_tokens b \<le> b_reserved_tokens b
      then Inl (ValidationError ''reserved_tokens must be less than max_tokens'')
      else if MAX_CONTEXT_MAX_TOKENS < b_max_tokens b
      then Inl (ValidationError (''max_tokens cannot exceed '' @ show_nat MAX_CONTEXT_MAX_TOKENS))
      else Inr ())"

record context_budget_usage =
  bu_max_tokens :: nat
  bu_reserved_tokens :: nat
  bu_available_tokens :: nat
  bu_used_tokens :: nat
  bu_included_memories :: nat
  bu_skipped_memories :: nat

section \<open>Options (\<open>format_options.rs\<close>, \<open>compression_options.rs\<close>)\<close>

datatype context_format = PlainText | Markdown | JsonFormat

definition context_format_parse :: "string \<Rightarrow> context_format memcore_result" where
  "context_format_parse value =
     (let v = to_ascii_lowercase (trim value) in
      if v = ''plain_text'' \<or> v = ''plaintext'' then Inr PlainText
      else if v = ''markdown'' \<or> v = ''md'' then Inr Markdown
      else if v = ''json'' then Inr JsonFormat
      else Inl (ValidationError (''invalid context format: '' @ v)))"

record context_format_options =
  fo_format :: context_format
  fo_section_by_memory_type :: bool
  fo_include_memory_ids :: bool
  fo_include_memory_types :: bool
  fo_include_scores :: bool
  fo_include_timestamps :: bool
  fo_include_confidence :: bool
  fo_include_importance :: bool

definition context_format_options_default :: context_format_options where
  "context_format_options_default =
     \<lparr>fo_format = PlainText, fo_section_by_memory_type = False, fo_include_memory_ids = False,
      fo_include_memory_types = False, fo_include_scores = False, fo_include_timestamps = False,
      fo_include_confidence = False, fo_include_importance = False\<rparr>"

definition structured_markdown :: context_format_options where
  "structured_markdown =
     \<lparr>fo_format = Markdown, fo_section_by_memory_type = True, fo_include_memory_ids = False,
      fo_include_memory_types = True, fo_include_scores = False, fo_include_timestamps = False,
      fo_include_confidence = False, fo_include_importance = False\<rparr>"

definition is_legacy_plain :: "context_format_options \<Rightarrow> bool" where
  "is_legacy_plain opts \<longleftrightarrow> opts = context_format_options_default"

datatype context_compression_mode = CompressionDisabled | SimpleExtractive | ProviderSummary

definition compression_mode_parse :: "string \<Rightarrow> context_compression_mode memcore_result" where
  "compression_mode_parse value =
     (let v = to_ascii_lowercase (trim value) in
      if v = ''disabled'' then Inr CompressionDisabled
      else if v = ''simple_extractive'' then Inr SimpleExtractive
      else if v = ''provider_summary'' then Inr ProviderSummary
      else Inl (ValidationError (''invalid compression_mode: '' @ v)))"

definition compression_is_enabled :: "context_compression_mode \<Rightarrow> bool" where
  "compression_is_enabled m \<longleftrightarrow> m \<noteq> CompressionDisabled"

definition DEFAULT_SUMMARY_MAX_TOKENS :: nat where "DEFAULT_SUMMARY_MAX_TOKENS = 300"
definition MAX_SUMMARY_MAX_TOKENS :: nat where "MAX_SUMMARY_MAX_TOKENS = 2000"

record context_compression_options =
  co_mode :: context_compression_mode
  co_summary_max_tokens :: nat
  co_include_summary_section :: bool

definition context_compression_options_default :: context_compression_options where
  "context_compression_options_default =
     \<lparr>co_mode = CompressionDisabled, co_summary_max_tokens = DEFAULT_SUMMARY_MAX_TOKENS,
      co_include_summary_section = True\<rparr>"

definition compression_validate :: "context_compression_options \<Rightarrow> nat \<Rightarrow> unit memcore_result" where
  "compression_validate c available =
     (if co_summary_max_tokens c = 0
      then Inl (ValidationError ''summary_max_tokens must be greater than 0'')
      else if MAX_SUMMARY_MAX_TOKENS < co_summary_max_tokens c
      then Inl (ValidationError (''summary_max_tokens cannot exceed '' @ show_nat MAX_SUMMARY_MAX_TOKENS))
      else if compression_is_enabled (co_mode c) \<and> available < co_summary_max_tokens c
      then Inl (ValidationError ''summary_max_tokens cannot exceed available context tokens'')
      else Inr ())"

record context_compression_usage =
  cu_enabled :: bool
  cu_mode :: context_compression_mode
  cu_summarized_memories :: nat
  cu_summary_tokens :: nat

definition compression_usage_disabled :: context_compression_usage where
  "compression_usage_disabled =
     \<lparr>cu_enabled = False, cu_mode = CompressionDisabled, cu_summarized_memories = 0, cu_summary_tokens = 0\<rparr>"

definition from_compression :: "context_compression_mode \<Rightarrow> nat \<Rightarrow> nat \<Rightarrow> context_compression_usage" where
  "from_compression mode summarized tokens =
     \<lparr>cu_enabled = True, cu_mode = mode, cu_summarized_memories = summarized, cu_summary_tokens = tokens\<rparr>"

section \<open>Formatting (\<open>formatter.rs\<close>)\<close>

record context_memory_item =
  i_fact_id :: uuid
  i_content :: string
  i_memory_type :: memory_type
  i_score :: f32
  i_confidence :: f32
  i_importance :: f32
  i_valid_at :: "datetime option"
  i_metadata :: json

definition context_item :: "memory_search_result \<Rightarrow> context_memory_item" where
  "context_item r =
     \<lparr>i_fact_id = r_fact_id r, i_content = r_content r, i_memory_type = r_memory_type r,
      i_score = r_score r, i_confidence = r_confidence r, i_importance = r_importance r,
      i_valid_at = r_valid_at r, i_metadata = r_metadata r\<rparr>"

definition EMPTY_CONTEXT_MESSAGE :: string where
  "EMPTY_CONTEXT_MESSAGE = ''No relevant long-term memories found.''"

definition newline :: string where
  "newline = [CHR 0x0A]"

definition SECTION_ORDER :: "memory_type list" where
  "SECTION_ORDER = [Profile, Preference, Project, Skill, Task, Entity, Conversation, MTSystem]"

fun section_title :: "memory_type \<Rightarrow> string" where
  "section_title Profile = ''Profile''"
| "section_title Preference = ''Preferences''"
| "section_title Project = ''Projects''"
| "section_title Skill = ''Skills''"
| "section_title Task = ''Tasks''"
| "section_title Entity = ''Entities''"
| "section_title Conversation = ''Conversation''"
| "section_title MTSystem = ''System''"

fun memory_type_label :: "memory_type \<Rightarrow> string" where
  "memory_type_label Profile = ''Profile''"
| "memory_type_label Preference = ''Preference''"
| "memory_type_label Project = ''Project''"
| "memory_type_label Skill = ''Skill''"
| "memory_type_label Task = ''Task''"
| "memory_type_label Entity = ''Entity''"
| "memory_type_label Conversation = ''Conversation''"
| "memory_type_label MTSystem = ''System''"

definition metadata_parts :: "render \<Rightarrow> context_memory_item \<Rightarrow> context_format_options \<Rightarrow> string list" where
  "metadata_parts rd m opts =
     (if fo_include_memory_ids opts then [''id='' @ uuid_to_string (i_fact_id m)] else []) @
     (if fo_include_memory_types opts then [''type='' @ memory_type_label (i_memory_type m)] else []) @
     (if fo_include_scores opts then [''score='' @ rd_fmt2 rd (i_score m)] else []) @
     (case i_valid_at m of
        Some d \<Rightarrow> if fo_include_timestamps opts then [''valid_at='' @ rd_rfc3339 rd d] else []
      | None \<Rightarrow> []) @
     (if fo_include_confidence opts then [''confidence='' @ rd_fmt2 rd (i_confidence m)] else []) @
     (if fo_include_importance opts then [''importance='' @ rd_fmt2 rd (i_importance m)] else [])"

definition shows_metadata :: "bool \<Rightarrow> context_memory_item \<Rightarrow> bool" where
  "shows_metadata legacy m \<longleftrightarrow> legacy \<and> i_metadata m \<noteq> JNull \<and> i_metadata m \<noteq> JObject []"

definition format_plain_line :: "render \<Rightarrow> context_format_options \<Rightarrow> bool \<Rightarrow> context_memory_item \<Rightarrow> string" where
  "format_plain_line rd opts legacy m =
     ''- '' @ i_content m @
     (if shows_metadata legacy m then '' (metadata: '' @ rd_json rd (i_metadata m) @ '')'' else []) @
     (let parts = metadata_parts rd m opts in
      if parts = [] then [] else '' ['' @ join '' '' parts @ '']'')"

definition format_markdown_line :: "render \<Rightarrow> context_format_options \<Rightarrow> bool \<Rightarrow> context_memory_item \<Rightarrow> string" where
  "format_markdown_line rd opts legacy m =
     ''- '' @ i_content m @
     (if shows_metadata legacy m then '' (metadata: '' @ rd_json rd (i_metadata m) @ '')'' else []) @
     (let parts = metadata_parts rd m opts in
      if parts = [] then [] else '' _('' @ join '', '' parts @ '')_'')"

text \<open>The blocks of the sections that have items, in \<open>SECTION_ORDER\<close>.\<close>

definition sections_of :: "context_memory_item list \<Rightarrow> (memory_type \<times> context_memory_item list) list" where
  "sections_of memories =
     filter (\<lambda>(t, items). items \<noteq> [])
       (map (\<lambda>t. (t, filter (\<lambda>m. i_memory_type m = t) memories)) SECTION_ORDER)"

definition format_plain :: "render \<Rightarrow> context_memory_item list \<Rightarrow> context_format_options \<Rightarrow> bool \<Rightarrow> string" where
  "format_plain rd memories opts legacy =
     (if is_legacy_plain opts \<and> \<not> legacy
      then join newline (''Relevant long-term memories:'' # map (\<lambda>m. ''- '' @ i_content m) memories)
      else if fo_section_by_memory_type opts
      then join (newline @ newline)
             (map (\<lambda>(t, items). join newline ((section_title t @ '':'') # map (format_plain_line rd opts legacy) items))
               (sections_of memories))
      else let lines = map (format_plain_line rd opts legacy) memories in
           if is_legacy_plain opts \<and> legacy
           then join newline (''Relevant long-term memories:'' # lines)
           else join newline lines)"

definition format_markdown :: "render \<Rightarrow> context_memory_item list \<Rightarrow> context_format_options \<Rightarrow> bool \<Rightarrow> string" where
  "format_markdown rd memories opts legacy =
     (if fo_section_by_memory_type opts
      then join (newline @ newline)
             (map (\<lambda>(t, items). join newline ((''## '' @ section_title t) # map (format_markdown_line rd opts legacy) items))
               (sections_of memories))
      else join newline (map (format_markdown_line rd opts legacy) memories))"

text \<open>JSON numbers: a float that is not finite becomes \<open>null\<close>.\<close>

definition json_f32 :: "f32 \<Rightarrow> json" where
  "json_f32 x = (case x of Fin r \<Rightarrow> JFloat r | _ \<Rightarrow> JNull)"

definition memory_json_object :: "render \<Rightarrow> context_format_options \<Rightarrow> bool \<Rightarrow> context_memory_item \<Rightarrow> json" where
  "memory_json_object rd opts legacy m =
     (let o0 = [(''content'', JString (i_content m))];
          o1 = (if fo_include_memory_ids opts
                then bt_insert ''memory_id'' (JString (uuid_to_string (i_fact_id m))) o0 else o0);
          o2 = (if fo_include_memory_types opts
                then bt_insert ''memory_type'' (JString (memory_type_label (i_memory_type m))) o1 else o1);
          o3 = (if fo_include_scores opts then bt_insert ''score'' (json_f32 (i_score m)) o2 else o2);
          o4 = (case i_valid_at m of
                  Some d \<Rightarrow> if fo_include_timestamps opts
                            then bt_insert ''valid_at'' (JString (rd_rfc3339 rd d)) o3 else o3
                | None \<Rightarrow> o3);
          o5 = (if fo_include_confidence opts then bt_insert ''confidence'' (json_f32 (i_confidence m)) o4 else o4);
          o6 = (if fo_include_importance opts then bt_insert ''importance'' (json_f32 (i_importance m)) o5 else o5);
          o7 = (if shows_metadata legacy m then bt_insert ''metadata'' (i_metadata m) o6 else o6)
      in JObject o7)"

definition format_json :: "render \<Rightarrow> context_memory_item list \<Rightarrow> context_format_options \<Rightarrow> bool \<Rightarrow> string" where
  "format_json rd memories opts legacy =
     rd_json rd
       (if fo_section_by_memory_type opts
        then JObject [(''sections'', JArray (map (\<lambda>(t, items).
               JObject [(''memories'', JArray (map (memory_json_object rd opts legacy) items)),
                        (''type'', JString (section_title t))]) (sections_of memories)))]
        else JObject [(''memories'', JArray (map (memory_json_object rd opts legacy) memories))])"

text \<open>\<open>ContextFormatter::format\<close>, which returns \<open>Ok\<close> on every path.\<close>

definition format_context :: "render \<Rightarrow> context_memory_item list \<Rightarrow> context_format_options \<Rightarrow> bool \<Rightarrow> string" where
  "format_context rd memories opts legacy =
     (if memories = [] then EMPTY_CONTEXT_MESSAGE
      else case fo_format opts of
             PlainText \<Rightarrow> format_plain rd memories opts legacy
           | Markdown \<Rightarrow> format_markdown rd memories opts legacy
           | JsonFormat \<Rightarrow> format_json rd memories opts legacy)"

section \<open>Compression (\<open>compression.rs\<close>)\<close>

record compressed_context =
  cc_text :: string
  cc_summarized_memories :: nat
  cc_estimated_tokens :: nat
  cc_bullets :: "string list"

definition compressed_empty :: compressed_context where
  "compressed_empty = \<lparr>cc_text = [], cc_summarized_memories = 0, cc_estimated_tokens = 0, cc_bullets = []\<rparr>"

definition MAX_BULLET_CHARS :: nat where "MAX_BULLET_CHARS = 200"

definition bullet_content :: "string \<Rightarrow> string" where
  "bullet_content content =
     (if char_count content \<le> MAX_BULLET_CHARS then content
      else trim_end (chars_take MAX_BULLET_CHARS content) @ ''...'')"

definition format_summary_text :: "render \<Rightarrow> string list \<Rightarrow> context_format \<Rightarrow> bool \<Rightarrow> string" where
  "format_summary_text rd bullets fmt include_summary_section =
     (if bullets = [] then []
      else case fmt of
             Markdown \<Rightarrow> join newline ((if include_summary_section then [''## Compressed Memory Summary''] else []) @
                           map (\<lambda>b. ''- '' @ b) bullets)
           | JsonFormat \<Rightarrow> rd_json rd (JObject [(''summary'', JArray (map JString bullets))])
           | PlainText \<Rightarrow> join newline ((if include_summary_section then [''Compressed Memory Summary:''] else []) @
                           map (\<lambda>b. ''- '' @ b) bullets))"

fun compress_loop ::
  "render \<Rightarrow> (string \<Rightarrow> nat) \<Rightarrow> nat \<Rightarrow> context_format \<Rightarrow> bool \<Rightarrow> context_memory_item list \<Rightarrow> string list \<Rightarrow> string list" where
  "compress_loop rd est max_tokens fmt sec [] bullets = bullets"
| "compress_loop rd est max_tokens fmt sec (m # ms) bullets =
     (let bullet = bullet_content (i_content m) in
      if est (format_summary_text rd (bullets @ [bullet]) fmt sec) \<le> max_tokens
      then compress_loop rd est max_tokens fmt sec ms (bullets @ [bullet])
      else bullets)"

definition compress ::
  "render \<Rightarrow> (string \<Rightarrow> nat) \<Rightarrow> context_memory_item list \<Rightarrow> nat \<Rightarrow> context_format \<Rightarrow> bool \<Rightarrow> compressed_context" where
  "compress rd est memories max_tokens fmt sec =
     (if memories = [] then compressed_empty
      else let bullets = compress_loop rd est max_tokens fmt sec memories [];
               text = format_summary_text rd bullets fmt sec
           in \<lparr>cc_text = text, cc_summarized_memories = length bullets, cc_estimated_tokens = est text,
               cc_bullets = bullets\<rparr>)"

definition wrap_provider_summary ::
  "render \<Rightarrow> (string \<Rightarrow> nat) \<Rightarrow> string \<Rightarrow> nat \<Rightarrow> context_format \<Rightarrow> bool \<Rightarrow> compressed_context" where
  "wrap_provider_summary rd est summary_text summarized fmt sec =
     (let bullets = filter (\<lambda>part. part \<noteq> []) (map trim (split_on CHR '';'' summary_text));
          text = (if bullets = [] then format_summary_text rd [summary_text] fmt sec
                  else format_summary_text rd bullets fmt sec)
      in \<lparr>cc_text = text, cc_summarized_memories = summarized, cc_estimated_tokens = est text,
          cc_bullets = bullets\<rparr>)"

definition merge_json_context :: "render \<Rightarrow> string \<Rightarrow> compressed_context \<Rightarrow> string" where
  "merge_json_context rd main_context c =
     (let value = (case rd_parse rd main_context of None \<Rightarrow> JObject [(''memories'', JArray [])] | Some v \<Rightarrow> v);
          value' = (case value of
                      JObject entries \<Rightarrow> JObject (bt_insert ''compressed_summary''
                        (JObject [(''summary'', JArray (map JString (cc_bullets c)))]) entries)
                    | _ \<Rightarrow> value)
      in rd_json rd value')"

definition merge_context_with_summary :: "render \<Rightarrow> string \<Rightarrow> context_format \<Rightarrow> compressed_context \<Rightarrow> string" where
  "merge_context_with_summary rd main_context fmt c =
     (if cc_text c = [] then main_context
      else if fmt = JsonFormat then merge_json_context rd main_context c
      else if main_context = [] then cc_text c
      else main_context @ newline @ newline @ cc_text c)"

definition effective_summary_budget :: "nat \<Rightarrow> nat \<Rightarrow> nat \<Rightarrow> nat" where
  "effective_summary_budget available used summary_max_tokens = min summary_max_tokens (available - used)"

section \<open>Assembly (\<open>assembler.rs\<close>)\<close>

record assembled_context =
  a_context :: string
  a_memories :: "memory_search_result list"
  a_budget :: context_budget_usage
  a_compression :: context_compression_usage
  a_skipped_items :: "context_memory_item list"

definition estimate_context_tokens ::
  "render \<Rightarrow> (string \<Rightarrow> nat) \<Rightarrow> context_memory_item list \<Rightarrow> context_format_options \<Rightarrow> bool \<Rightarrow> nat" where
  "estimate_context_tokens rd est items opts legacy =
     (if items = [] then 0 else est (format_context rd items opts legacy))"

definition token_delta_for_addition ::
  "render \<Rightarrow> (string \<Rightarrow> nat) \<Rightarrow> context_memory_item list \<Rightarrow> context_memory_item \<Rightarrow> context_format_options \<Rightarrow> bool \<Rightarrow> nat" where
  "token_delta_for_addition rd est current candidate opts legacy =
     estimate_context_tokens rd est (current @ [candidate]) opts legacy -
     estimate_context_tokens rd est current opts legacy"

fun fit_loop ::
  "render \<Rightarrow> (string \<Rightarrow> nat) \<Rightarrow> context_format_options \<Rightarrow> bool \<Rightarrow> nat \<Rightarrow> memory_search_result list \<Rightarrow>
   context_memory_item list \<Rightarrow> memory_search_result list \<Rightarrow> context_memory_item list \<Rightarrow>
   context_memory_item list \<times> memory_search_result list \<times> context_memory_item list" where
  "fit_loop rd est opts legacy room [] included memories skipped = (included, memories, skipped)"
| "fit_loop rd est opts legacy room (m # ms) included memories skipped =
     (let item = context_item m;
          delta = token_delta_for_addition rd est included item opts legacy;
          used_so_far = (if included = [] then 0 else estimate_context_tokens rd est included opts legacy)
      in if used_so_far + delta \<le> room
         then fit_loop rd est opts legacy room ms (included @ [item]) (memories @ [m]) skipped
         else fit_loop rd est opts legacy room ms included memories (skipped @ [item]))"

definition empty_assembled :: "(string \<Rightarrow> nat) \<Rightarrow> context_budget \<Rightarrow> nat \<Rightarrow> assembled_context" where
  "empty_assembled est budget skipped =
     \<lparr>a_context = EMPTY_CONTEXT_MESSAGE, a_memories = [],
      a_budget = \<lparr>bu_max_tokens = b_max_tokens budget, bu_reserved_tokens = b_reserved_tokens budget,
        bu_available_tokens = available_tokens budget, bu_used_tokens = est EMPTY_CONTEXT_MESSAGE,
        bu_included_memories = 0, bu_skipped_memories = skipped\<rparr>,
      a_compression = compression_usage_disabled, a_skipped_items = []\<rparr>"

text \<open>The extractive summary of the skipped items, with the context and usage it gives.\<close>

definition add_extractive_summary ::
  "render \<Rightarrow> (string \<Rightarrow> nat) \<Rightarrow> context_format_options \<Rightarrow> context_compression_options \<Rightarrow> nat \<Rightarrow>
   context_memory_item list \<Rightarrow> string \<Rightarrow> string \<times> context_compression_usage" where
  "add_extractive_summary rd est opts copts available skipped context =
     (if \<not> (co_mode copts = SimpleExtractive \<and> skipped \<noteq> []) then (context, compression_usage_disabled)
      else let used_before_summary = (if context = [] then 0 else est context);
               summary_budget = effective_summary_budget available used_before_summary (co_summary_max_tokens copts)
           in if summary_budget = 0 then (context, compression_usage_disabled)
              else let compressed = compress rd est skipped summary_budget (fo_format opts)
                         (co_include_summary_section copts)
                   in if cc_text compressed = [] then (context, compression_usage_disabled)
                      else (if context = [] then cc_text compressed
                            else merge_context_with_summary rd context (fo_format opts) compressed,
                            from_compression SimpleExtractive (cc_summarized_memories compressed)
                              (min (cc_estimated_tokens compressed) summary_budget)))"

definition assemble_context_with_budget ::
  "render \<Rightarrow> (string \<Rightarrow> nat) \<Rightarrow> memory_search_result list \<Rightarrow> bool \<Rightarrow> context_format_options \<Rightarrow> context_budget \<Rightarrow>
   context_compression_options \<Rightarrow> assembled_context" where
  "assemble_context_with_budget rd est memories legacy opts budget copts =
     (let available = available_tokens budget;
          summary_reserve = (if compression_is_enabled (co_mode copts)
            then min (co_summary_max_tokens copts) available else 0);
          memory_available = available - summary_reserve
      in if memories = [] then empty_assembled est budget 0
         else let (included, kept, skipped) = fit_loop rd est opts legacy memory_available memories [] [] []
              in if included = [] \<and> skipped = [] then empty_assembled est budget (length memories)
                 else let context0 = (if included = [] then [] else format_context rd included opts legacy);
                          (context1, compression) =
                            add_extractive_summary rd est opts copts available skipped context0;
                          context = (if context1 = [] then EMPTY_CONTEXT_MESSAGE else context1)
                      in \<lparr>a_context = context, a_memories = kept,
                          a_budget = \<lparr>bu_max_tokens = b_max_tokens budget,
                            bu_reserved_tokens = b_reserved_tokens budget, bu_available_tokens = available,
                            bu_used_tokens = min (est context) available,
                            bu_included_memories = length included, bu_skipped_memories = length skipped\<rparr>,
                          a_compression = compression, a_skipped_items = skipped\<rparr>)"

definition assemble_context :: "render \<Rightarrow> memory_search_result list \<Rightarrow> bool \<Rightarrow> string" where
  "assemble_context rd memories include_metadata =
     a_context (assemble_context_with_budget rd estimate_tokens memories include_metadata
       context_format_options_default \<lparr>b_max_tokens = usize_max div 4, b_reserved_tokens = 0\<rparr>
       context_compression_options_default)"

definition apply_provider_compression_summary ::
  "render \<Rightarrow> (string \<Rightarrow> nat) \<Rightarrow> assembled_context \<Rightarrow> compressed_context \<Rightarrow> context_format \<Rightarrow> nat \<Rightarrow>
   context_compression_mode \<Rightarrow> assembled_context" where
  "apply_provider_compression_summary rd est assembled c fmt available mode =
     (if cc_text c = [] then assembled
      else let context = (if a_context assembled = EMPTY_CONTEXT_MESSAGE then cc_text c
                          else merge_context_with_summary rd (a_context assembled) fmt c)
           in assembled\<lparr>a_context := context,
                a_budget := (a_budget assembled)\<lparr>bu_used_tokens := min (est context) available\<rparr>,
                a_compression := from_compression mode (cc_summarized_memories c) (cc_estimated_tokens c)\<rparr>)"

section \<open>Estimates\<close>

lemma estimate_tokens_eq: "estimate_tokens s = (char_count s + 3) div 4"
  by (auto simp: estimate_tokens_def Let_def)

lemma char_count_append [simp]: "char_count (a @ b) = char_count a + char_count b"
  by (simp add: char_count_def)

lemma char_count_newline [simp]: "char_count newline = 1"
  by (simp add: char_count_def newline_def is_continuation_def)

lemma estimate_merge: "estimate_tokens (a @ newline @ newline @ b) \<le> estimate_tokens a + estimate_tokens b + 1"
  by (simp add: estimate_tokens_eq)

section \<open>Fitting memories into the budget\<close>

text \<open>What the loop keeps: the included items fit, correspond to the kept memories, and together
  with the skipped items they are the memories seen so far.\<close>

lemma fit_loop_inv:
  assumes "fit_loop rd est opts legacy room ms inc mem skip = (inc', mem', skip')"
    and "estimate_context_tokens rd est inc opts legacy \<le> room" and "inc = map context_item mem"
  shows "estimate_context_tokens rd est inc' opts legacy \<le> room \<and> inc' = map context_item mem' \<and>
    (\<exists>kept. mem' = mem @ kept \<and> subseq kept ms \<and> length kept + length skip' = length ms + length skip)"
  using assms
proof (induction rd est opts legacy room ms inc mem skip rule: fit_loop.induct)
  case (1 rd est opts legacy room inc mem skip)
  then show ?case by auto
next
  case (2 rd est opts legacy room m ms inc mem skip)
  let ?used = "if inc = [] then 0 else estimate_context_tokens rd est inc opts legacy"
  let ?delta = "token_delta_for_addition rd est inc (context_item m) opts legacy"
  show ?case
  proof (cases "?used + ?delta \<le> room")
    case True
    have "estimate_context_tokens rd est (inc @ [context_item m]) opts legacy \<le> ?used + ?delta"
      by (auto simp: token_delta_for_addition_def estimate_context_tokens_def)
    with True have fits: "estimate_context_tokens rd est (inc @ [context_item m]) opts legacy \<le> room"
      by (rule order_trans [rotated])
    have "fit_loop rd est opts legacy room ms (inc @ [context_item m]) (mem @ [m]) skip = (inc', mem', skip')"
      using True "2.prems"(1) by (simp add: Let_def)
    from "2.IH"(1) [OF refl refl refl True this fits] "2.prems"(3)
    obtain kept where "mem' = (mem @ [m]) @ kept" "subseq kept ms" "length kept + length skip' = length ms + length skip"
      and rest: "estimate_context_tokens rd est inc' opts legacy \<le> room" "inc' = map context_item mem'"
      by auto
    then show ?thesis
      by (intro conjI rest exI [of _ "m # kept"]) auto
  next
    case False
    have "fit_loop rd est opts legacy room ms inc mem (skip @ [context_item m]) = (inc', mem', skip')"
      using False "2.prems"(1) by (simp add: Let_def)
    from "2.IH"(2) [OF refl refl refl False this "2.prems"(2,3)] show ?thesis
      by auto
  qed
qed

lemma compress_loop_fits:
  "est (format_summary_text rd bs fmt sec) \<le> n \<or> bs = [] \<Longrightarrow>
     (let bs' = compress_loop rd est n fmt sec ms bs in est (format_summary_text rd bs' fmt sec) \<le> n \<or> bs' = [])"
  by (induction rd est n fmt sec ms bs rule: compress_loop.induct) (auto simp: Let_def)

lemma format_summary_text_Nil [simp]: "format_summary_text rd [] fmt sec = []"
  by (simp add: format_summary_text_def)

lemma compress_fits: "cc_text (compress rd est ms n fmt sec) \<noteq> [] \<Longrightarrow> est (cc_text (compress rd est ms n fmt sec)) \<le> n"
  using compress_loop_fits [where rd = rd and est = est and bs = "[]" and fmt = fmt and sec = sec and n = n and ms = ms]
  by (auto simp: compress_def compressed_empty_def Let_def)

text \<open>The summary that is appended, when one is: it fits what the memories leave.\<close>

lemma add_extractive_summary_cases:
  assumes "add_extractive_summary rd estimate_tokens opts copts available skipped context = (context', u)"
  defines "c \<equiv> compress rd estimate_tokens skipped
    (effective_summary_budget available (estimate_tokens context) (co_summary_max_tokens copts)) (fo_format opts)
    (co_include_summary_section copts)"
  shows "if cu_enabled u
    then co_mode copts = SimpleExtractive \<and> cc_text c \<noteq> [] \<and>
      estimate_tokens (cc_text c) \<le> effective_summary_budget available (estimate_tokens context) (co_summary_max_tokens copts) \<and>
      context' = (if context = [] then cc_text c else merge_context_with_summary rd context (fo_format opts) c)
    else context' = context"
proof -
  have used: "(if context = [] then 0 else estimate_tokens context) = estimate_tokens context"
    by (simp add: estimate_tokens_eq char_count_def)
  have "cc_text c \<noteq> [] \<Longrightarrow> estimate_tokens (cc_text c)
      \<le> effective_summary_budget available (estimate_tokens context) (co_summary_max_tokens copts)"
    unfolding c_def by (rule compress_fits)
  with assms(1) show ?thesis
    unfolding add_extractive_summary_def Let_def used c_def [symmetric]
    by (auto simp: compression_usage_disabled_def from_compression_def split: if_splits)
qed

text \<open>A blank line separates plain or Markdown text from its summary: that is the token by which the budget can be missed.\<close>

lemma summary_overshoot_bound:
  assumes "estimate_tokens context \<le> available" "n \<le> available - estimate_tokens context" "estimate_tokens (cc_text c) \<le> n"
    and "fmt \<noteq> JsonFormat \<or> context = []"
  shows "estimate_tokens (if context = [] then cc_text c else merge_context_with_summary rd context fmt c)
    \<le> available + (if context = [] then 0 else 1)"
  using assms estimate_merge [of "context" "cc_text c"] by (auto simp: merge_context_with_summary_def)

section \<open>Properties\<close>

text \<open>What is left for the memories when a summary has its share.\<close>

definition memory_room :: "context_budget \<Rightarrow> context_compression_options \<Rightarrow> nat" where
  "memory_room budget copts = available_tokens budget -
     (if compression_is_enabled (co_mode copts) then min (co_summary_max_tokens copts) (available_tokens budget) else 0)"


definition sample_result :: "uuid \<Rightarrow> string \<Rightarrow> memory_search_result" where
  "sample_result i content = \<lparr>r_fact_id = i, r_content = content, r_memory_type = Preference, r_score = Fin 1,
     r_confidence = Fin 1, r_importance = Fin 1, r_valid_at = None, r_metadata = JNull\<rparr>"

definition sample_render :: render where
  "sample_render = \<lparr>rd_json = (\<lambda>_. []), rd_parse = (\<lambda>_. None), rd_rfc3339 = (\<lambda>_. []), rd_fmt2 = (\<lambda>_. [])\<rparr>"

text \<open>The budget can be missed by the blank line between the memories and an extractive summary: the
  text below is estimated at 17 tokens with 16 available, and the reported usage is cut to 16.\<close>

definition tight_budget :: context_budget where
  "tight_budget = \<lparr>b_max_tokens = 16, b_reserved_tokens = 0\<rparr>"

definition tight_compression :: context_compression_options where
  "tight_compression = \<lparr>co_mode = SimpleExtractive, co_summary_max_tokens = 8, co_include_summary_section = True\<rparr>"

definition overshooting :: assembled_context where
  "overshooting = assemble_context_with_budget sample_render estimate_tokens [sample_result 1 ''a'', sample_result 2 ''bbb''] False
     context_format_options_default tight_budget tight_compression"

lemma extractive_summary_overshoot:
  "estimate_tokens (a_context overshooting) = 17 \<and> available_tokens tight_budget = 16 \<and> bu_used_tokens (a_budget overshooting) = 16"
  by code_simp

lemma overshooting_summarized:
  "cu_enabled (a_compression overshooting) \<and> map r_content (a_memories overshooting) = [''a''] \<and>
   format_context sample_render (map context_item (a_memories overshooting)) context_format_options_default False \<noteq> []"
  by code_simp


end
