(* ===== verification/Context_Cache.thy ===== *)
theory Context_Cache
  imports Context Pagination
begin

text \<open>
  The context cache: \<^verbatim>\<open>crates/memcore-core/src/context/cache.rs\<close> and \<^verbatim>\<open>cache_metrics.rs\<close>. SHA-256 and the
  JSON text of a request's options are parameters. The clock reading is an argument of the operations
  that take one. The locale \<open>context_cache_port\<close> says what the cache promises to a tenant; its
  interpretation is the in-memory cache.
\<close>

section \<open>Time arithmetic\<close>

text \<open>\<open>DateTime + Duration\<close> panics when the sum is not representable; \<open>t_min\<close> and \<open>t_max\<close> are the ends of
  the range.\<close>

record time_range =
  t_min :: datetime
  t_max :: datetime

definition time_offset :: "time_range \<Rightarrow> datetime \<Rightarrow> int \<Rightarrow> datetime outcome" where
  "time_offset tr t d = (if t_min tr \<le> t + d \<and> t + d \<le> t_max tr then Inr (t + d) else Inl Panic)"

text \<open>\<open>Duration::seconds(n as i64)\<close>: the cast wraps, so a large \<open>u64\<close> is a negative duration.\<close>

definition seconds :: "u64 \<Rightarrow> int" where
  "seconds n = sint n * 1000000000"

section \<open>Requests and results (\<open>types.rs\<close>, \<open>cache.rs\<close>)\<close>

record build_context_input =
  bc_tenant :: tenant_context
  bc_query :: string
  bc_max_memories :: nat
  bc_memory_types :: "memory_type list option"
  bc_include_metadata :: bool
  bc_budget :: context_budget
  bc_format_options :: context_format_options
  bc_compression_options :: context_compression_options

record context_cache_usage =
  cx_enabled :: bool
  cx_hit :: bool
  cx_ttl_seconds :: "u64 option"
  cx_stampede_protection_enabled :: bool
  cx_waited_for_inflight :: bool
  cx_stale_while_revalidate_enabled :: bool
  cx_served_stale :: bool
  cx_refresh_started :: bool

record build_context_output =
  bo_context :: string
  bo_memories :: "memory_search_result list"
  bo_budget :: context_budget_usage
  bo_compression :: context_compression_usage
  bo_cache :: context_cache_usage

record context_cache_key =
  key_org_id :: string
  key_user_id :: string
  key_query_hash :: string
  key_options_hash :: string

record cached_context_entry =
  ce_context :: string
  ce_memories :: "memory_search_result list"
  ce_created_at :: datetime
  ce_expires_at :: datetime
  ce_stale_until :: "datetime option"
  ce_budget :: context_budget_usage
  ce_compression :: context_compression_usage

definition is_fresh :: "cached_context_entry \<Rightarrow> datetime \<Rightarrow> bool" where
  "is_fresh e now \<longleftrightarrow> now < ce_expires_at e"

definition effective_stale_until :: "cached_context_entry \<Rightarrow> datetime" where
  "effective_stale_until e = (case ce_stale_until e of None \<Rightarrow> ce_expires_at e | Some d \<Rightarrow> d)"

definition is_stale_servable :: "cached_context_entry \<Rightarrow> datetime \<Rightarrow> bool" where
  "is_stale_servable e now \<longleftrightarrow> \<not> is_fresh e now \<and> now \<le> effective_stale_until e"

definition is_fully_expired :: "cached_context_entry \<Rightarrow> datetime \<Rightarrow> bool" where
  "is_fully_expired e now \<longleftrightarrow> effective_stale_until e < now"

section \<open>Configuration\<close>

record context_cache_config =
  cfg_enabled :: bool
  cfg_ttl_seconds :: u64
  cfg_max_entries :: nat
  cfg_stampede_protection_enabled :: bool
  cfg_stampede_lock_timeout_seconds :: u64
  cfg_stale_while_revalidate_enabled :: bool
  cfg_stale_ttl_seconds :: u64
  cfg_metrics_enabled :: bool

definition context_cache_config_default :: context_cache_config where
  "context_cache_config_default =
     \<lparr>cfg_enabled = False, cfg_ttl_seconds = 300, cfg_max_entries = 1000,
      cfg_stampede_protection_enabled = True, cfg_stampede_lock_timeout_seconds = 30,
      cfg_stale_while_revalidate_enabled = False, cfg_stale_ttl_seconds = 120, cfg_metrics_enabled = True\<rparr>"

definition stampede_protection_active :: "context_cache_config \<Rightarrow> bool" where
  "stampede_protection_active c \<longleftrightarrow> cfg_enabled c \<and> cfg_stampede_protection_enabled c"

definition stale_while_revalidate_active :: "context_cache_config \<Rightarrow> bool" where
  "stale_while_revalidate_active c \<longleftrightarrow> cfg_enabled c \<and> cfg_stale_while_revalidate_enabled c"

definition metrics_active :: "context_cache_config \<Rightarrow> bool" where
  "metrics_active c \<longleftrightarrow> cfg_enabled c \<and> cfg_metrics_enabled c"

definition cache_config_validate :: "context_cache_config \<Rightarrow> unit memcore_result" where
  "cache_config_validate c =
     (if \<not> cfg_enabled c then Inr ()
      else if cfg_ttl_seconds c = 0
      then Inl (ValidationError ''context cache ttl_seconds must be greater than 0 when cache is enabled'')
      else if cfg_max_entries c = 0
      then Inl (ValidationError ''context cache max_entries must be greater than 0 when cache is enabled'')
      else if cfg_stampede_protection_enabled c \<and> cfg_stampede_lock_timeout_seconds c = 0
      then Inl (ValidationError ''context cache stampede lock timeout must be greater than 0 when stampede protection is enabled'')
      else if cfg_stale_while_revalidate_enabled c \<and> cfg_stale_ttl_seconds c = 0
      then Inl (ValidationError ''context cache stale_ttl_seconds must be greater than 0 when stale-while-revalidate is enabled'')
      else Inr ())"

definition cache_usage_disabled :: context_cache_usage where
  "cache_usage_disabled =
     \<lparr>cx_enabled = False, cx_hit = False, cx_ttl_seconds = None, cx_stampede_protection_enabled = False,
      cx_waited_for_inflight = False, cx_stale_while_revalidate_enabled = False, cx_served_stale = False,
      cx_refresh_started = False\<rparr>"

definition cache_usage_base :: "context_cache_config \<Rightarrow> context_cache_usage" where
  "cache_usage_base c =
     \<lparr>cx_enabled = True, cx_hit = False, cx_ttl_seconds = Some (cfg_ttl_seconds c),
      cx_stampede_protection_enabled = stampede_protection_active c, cx_waited_for_inflight = False,
      cx_stale_while_revalidate_enabled = stale_while_revalidate_active c, cx_served_stale = False,
      cx_refresh_started = False\<rparr>"

definition usage_miss :: "context_cache_config \<Rightarrow> context_cache_usage" where
  "usage_miss c = cache_usage_base c"

definition usage_hit_with_wait :: "context_cache_config \<Rightarrow> bool \<Rightarrow> context_cache_usage" where
  "usage_hit_with_wait c waited = (cache_usage_base c)\<lparr>cx_hit := True, cx_waited_for_inflight := waited\<rparr>"

definition usage_hit :: "context_cache_config \<Rightarrow> context_cache_usage" where
  "usage_hit c = usage_hit_with_wait c False"

definition usage_stale_hit :: "context_cache_config \<Rightarrow> bool \<Rightarrow> context_cache_usage" where
  "usage_stale_hit c refresh_started =
     (cache_usage_base c)\<lparr>cx_hit := True, cx_served_stale := True, cx_refresh_started := refresh_started\<rparr>"

section \<open>Keys and entries\<close>

record fingerprint =
  fp_max_memories :: nat
  fp_memory_types :: "memory_type list option"
  fp_include_metadata :: bool
  fp_max_tokens :: nat
  fp_reserved_tokens :: nat
  fp_format_options :: context_format_options
  fp_compression_options :: context_compression_options

definition request_fingerprint :: "build_context_input \<Rightarrow> fingerprint" where
  "request_fingerprint i =
     \<lparr>fp_max_memories = bc_max_memories i, fp_memory_types = bc_memory_types i,
      fp_include_metadata = bc_include_metadata i, fp_max_tokens = b_max_tokens (bc_budget i),
      fp_reserved_tokens = b_reserved_tokens (bc_budget i), fp_format_options = bc_format_options i,
      fp_compression_options = bc_compression_options i\<rparr>"

definition build_context_cache_key ::
  "(string \<Rightarrow> string) \<Rightarrow> (fingerprint \<Rightarrow> string) \<Rightarrow> build_context_input \<Rightarrow> context_cache_key" where
  "build_context_cache_key sha256_hex fingerprint_json i =
     \<lparr>key_org_id = tc_org_id (bc_tenant i), key_user_id = tc_user_id (bc_tenant i),
      key_query_hash = sha256_hex (bc_query i),
      key_options_hash = sha256_hex (fingerprint_json (request_fingerprint i))\<rparr>"

definition cached_entry_from_output ::
  "time_range \<Rightarrow> datetime \<Rightarrow> build_context_output \<Rightarrow> context_cache_config \<Rightarrow> cached_context_entry outcome" where
  "cached_entry_from_output tr now output c =
     and_then (time_offset tr now (seconds (cfg_ttl_seconds c))) (\<lambda>expires_at.
     and_then (if stale_while_revalidate_active c
               then and_then (time_offset tr expires_at (seconds (cfg_stale_ttl_seconds c))) (\<lambda>d. Inr (Some d))
               else Inr None) (\<lambda>stale_until.
     Inr \<lparr>ce_context = bo_context output, ce_memories = bo_memories output, ce_created_at = now,
          ce_expires_at = expires_at, ce_stale_until = stale_until, ce_budget = bo_budget output,
          ce_compression = bo_compression output\<rparr>))"

section \<open>The in-memory cache (\<open>InMemoryContextCache\<close>)\<close>

record context_cache =
  ca_max_entries :: nat
  ca_entries :: "(context_cache_key, cached_context_entry) hash_map"

definition context_cache_new :: "nat \<Rightarrow> context_cache" where
  "context_cache_new max_entries = \<lparr>ca_max_entries = max max_entries 1, ca_entries = []\<rparr>"

type_synonym 'a cache_op = "(context_cache, memcore_error, 'a) comp"

definition hm_remove :: "'k \<Rightarrow> ('k, 'v) hash_map \<Rightarrow> ('k, 'v) hash_map" where
  "hm_remove key m = hm_retain (\<lambda>k _. k \<noteq> key) m"

definition purge_expired ::
  "(context_cache_key, cached_context_entry) hash_map \<Rightarrow> datetime \<Rightarrow> (context_cache_key, cached_context_entry) hash_map" where
  "purge_expired m now = hm_retain (\<lambda>_ e. \<not> is_fully_expired e now) m"

text \<open>\<open>min_by_key\<close> on the creation time: the first of the oldest entries.\<close>

fun oldest_entry ::
  "(context_cache_key, cached_context_entry) hash_map \<Rightarrow> (context_cache_key \<times> cached_context_entry) option" where
  "oldest_entry [] = None"
| "oldest_entry (x # xs) =
     (case oldest_entry xs of
        None \<Rightarrow> Some x
      | Some y \<Rightarrow> if ce_created_at (snd x) \<le> ce_created_at (snd y) then Some x else Some y)"

lemma oldest_entry_in: "oldest_entry m = Some x \<Longrightarrow> x \<in> set m"
  by (induction m arbitrary: x) (auto split: option.splits if_splits)

lemma oldest_entry_None: "oldest_entry m = None \<longleftrightarrow> m = []"
  by (cases m) (auto split: option.splits)

lemma hm_remove_shrinks: "(k, v) \<in> set m \<Longrightarrow> length (hm_remove k m) < length m"
  unfolding hm_remove_def hm_retain_def by (rule length_filter_less [of "(k, v)"]) auto

function evict_oldest ::
  "(context_cache_key, cached_context_entry) hash_map \<Rightarrow> nat \<Rightarrow> (context_cache_key, cached_context_entry) hash_map" where
  "evict_oldest m max_entries =
     (if length m \<le> max_entries then m
      else case oldest_entry m of
             None \<Rightarrow> m
           | Some (key, _) \<Rightarrow> evict_oldest (hm_remove key m) max_entries)"
  by pat_completeness auto
termination
  by (relation "measure (\<lambda>(m, n). length m)") (auto dest!: oldest_entry_in hm_remove_shrinks)

declare evict_oldest.simps [simp del]

definition cache_get :: "context_cache_key \<Rightarrow> datetime \<Rightarrow> cached_context_entry option cache_op" where
  "cache_get key now s =
     (case map_of (ca_entries s) key of
        None \<Rightarrow> (Inr None, s)
      | Some e \<Rightarrow>
          if is_fully_expired e now then (Inr None, s\<lparr>ca_entries := hm_remove key (ca_entries s)\<rparr>)
          else if is_fresh e now then (Inr (Some e), s)
          else (Inr None, s))"

definition cache_get_any :: "context_cache_key \<Rightarrow> datetime \<Rightarrow> cached_context_entry option cache_op" where
  "cache_get_any key now s =
     (case map_of (ca_entries s) key of
        None \<Rightarrow> (Inr None, s)
      | Some e \<Rightarrow>
          if is_fully_expired e now then (Inr None, s\<lparr>ca_entries := hm_remove key (ca_entries s)\<rparr>)
          else (Inr (Some e), s))"

definition cache_set :: "context_cache_key \<Rightarrow> cached_context_entry \<Rightarrow> datetime \<Rightarrow> unit cache_op" where
  "cache_set key e now s =
     (Inr (), s\<lparr>ca_entries :=
        evict_oldest (AList.update key e (purge_expired (ca_entries s) now)) (ca_max_entries s)\<rparr>)"

definition invalidate_user :: "string \<Rightarrow> string \<Rightarrow> nat cache_op" where
  "invalidate_user org user s =
     (let kept = hm_retain (\<lambda>k _. key_org_id k \<noteq> org \<or> key_user_id k \<noteq> user) (ca_entries s)
      in (Inr (length (ca_entries s) - length kept), s\<lparr>ca_entries := kept\<rparr>))"

section \<open>Metrics (\<open>cache_metrics.rs\<close>)\<close>

record context_cache_metrics =
  m_hits :: u64
  m_misses :: u64
  m_sets :: u64
  m_invalidations :: u64
  m_invalidated_entries :: u64
  m_stale_served :: u64
  m_refresh_started :: u64
  m_refresh_succeeded :: u64
  m_refresh_failed :: u64
  m_stampede_waits :: u64
  m_stampede_timeouts :: u64
  m_compute_errors :: u64

definition context_cache_metrics_new :: context_cache_metrics where
  "context_cache_metrics_new =
     \<lparr>m_hits = 0, m_misses = 0, m_sets = 0, m_invalidations = 0, m_invalidated_entries = 0,
      m_stale_served = 0, m_refresh_started = 0, m_refresh_succeeded = 0, m_refresh_failed = 0,
      m_stampede_waits = 0, m_stampede_timeouts = 0, m_compute_errors = 0\<rparr>"

text \<open>\<open>fetch_add\<close> wraps around.\<close>

definition record_hit :: "context_cache_metrics \<Rightarrow> context_cache_metrics" where
  "record_hit m = m\<lparr>m_hits := m_hits m + 1\<rparr>"
definition record_miss :: "context_cache_metrics \<Rightarrow> context_cache_metrics" where
  "record_miss m = m\<lparr>m_misses := m_misses m + 1\<rparr>"
definition record_set :: "context_cache_metrics \<Rightarrow> context_cache_metrics" where
  "record_set m = m\<lparr>m_sets := m_sets m + 1\<rparr>"
definition record_invalidation :: "nat \<Rightarrow> context_cache_metrics \<Rightarrow> context_cache_metrics" where
  "record_invalidation n m = m\<lparr>m_invalidations := m_invalidations m + 1,
     m_invalidated_entries := m_invalidated_entries m + word_of_nat n\<rparr>"
definition record_stale_served :: "context_cache_metrics \<Rightarrow> context_cache_metrics" where
  "record_stale_served m = m\<lparr>m_stale_served := m_stale_served m + 1\<rparr>"
definition record_refresh_started :: "context_cache_metrics \<Rightarrow> context_cache_metrics" where
  "record_refresh_started m = m\<lparr>m_refresh_started := m_refresh_started m + 1\<rparr>"
definition record_refresh_succeeded :: "context_cache_metrics \<Rightarrow> context_cache_metrics" where
  "record_refresh_succeeded m = m\<lparr>m_refresh_succeeded := m_refresh_succeeded m + 1\<rparr>"
definition record_refresh_failed :: "context_cache_metrics \<Rightarrow> context_cache_metrics" where
  "record_refresh_failed m = m\<lparr>m_refresh_failed := m_refresh_failed m + 1\<rparr>"
definition record_compute_error :: "context_cache_metrics \<Rightarrow> context_cache_metrics" where
  "record_compute_error m = m\<lparr>m_compute_errors := m_compute_errors m + 1\<rparr>"

text \<open>The recorder of a configuration: counters when metrics are active, else none (the no-op recorder).\<close>

definition context_cache_metrics_recorder :: "context_cache_config \<Rightarrow> context_cache_metrics option" where
  "context_cache_metrics_recorder c = (if metrics_active c then Some context_cache_metrics_new else None)"

section \<open>What the cache promises\<close>

definition key_of_tenant :: "tenant_context \<Rightarrow> context_cache_key \<Rightarrow> bool" where
  "key_of_tenant t k \<longleftrightarrow> key_org_id k = tc_org_id t \<and> key_user_id k = tc_user_id t"

definition ca_wf :: "context_cache \<Rightarrow> bool" where
  "ca_wf s \<longleftrightarrow> hm_wf (ca_entries s) \<and> 0 < ca_max_entries s \<and> length (ca_entries s) \<le> ca_max_entries s"

definition cache_lookup :: "context_cache \<Rightarrow> context_cache_key \<rightharpoonup> cached_context_entry" where
  "cache_lookup s = map_of (ca_entries s)"

locale context_cache_port =
  fixes invar :: "'s \<Rightarrow> bool"
    and lookup :: "'s \<Rightarrow> context_cache_key \<rightharpoonup> cached_context_entry"
    and get get_any :: "context_cache_key \<Rightarrow> datetime \<Rightarrow> ('s, memcore_error, cached_context_entry option) comp"
    and put :: "context_cache_key \<Rightarrow> cached_context_entry \<Rightarrow> datetime \<Rightarrow> ('s, memcore_error, unit) comp"
    and inval :: "string \<Rightarrow> string \<Rightarrow> ('s, memcore_error, nat) comp"
  assumes get_result: "fst (get k now s) = Inr (case lookup s k of None \<Rightarrow> None
      | Some e \<Rightarrow> if \<not> is_fully_expired e now \<and> is_fresh e now then Some e else None)"
    and get_any_result: "fst (get_any k now s) = Inr (case lookup s k of None \<Rightarrow> None
      | Some e \<Rightarrow> if is_fully_expired e now then None else Some e)"
    and get_lookup: "invar s \<Longrightarrow> lookup (snd (get k now s)) \<subseteq>\<^sub>m lookup s"
    and get_any_lookup: "invar s \<Longrightarrow> lookup (snd (get_any k now s)) \<subseteq>\<^sub>m lookup s"
    and put_lookup: "invar s \<Longrightarrow> \<exists>s'. put k e now s = (Inr (), s') \<and> lookup s' \<subseteq>\<^sub>m (lookup s)(k \<mapsto> e)"
    and inval_lookup: "invar s \<Longrightarrow> lookup (snd (inval (tc_org_id t) (tc_user_id t) s)) =
      lookup s |` {k. \<not> key_of_tenant t k}"
    and invar_get: "preserves invar (get k now)"
    and invar_get_any: "preserves invar (get_any k now)"
    and invar_put: "preserves invar (put k e now)"
    and invar_inval: "preserves invar (inval org user)"
begin

lemmas invar_ops = invar_get invar_get_any invar_put invar_inval

text \<open>Entries of one tenant never reach another: a write adds at most the entry under its own key.\<close>

lemma put_other: "invar s \<Longrightarrow> k' \<noteq> k \<Longrightarrow> lookup (snd (put k e now s)) k' = Some e' \<Longrightarrow> lookup s k' = Some e'"
  using put_lookup [of s k e now] by (auto simp: map_le_def dom_def) (metis option.distinct(1))

lemma get_after_inval:
  assumes "invar s" and "key_of_tenant t k"
  shows "fst (get k now (snd (inval (tc_org_id t) (tc_user_id t) s))) = Inr None"
    and "fst (get_any k now (snd (inval (tc_org_id t) (tc_user_id t) s))) = Inr None"
  using assms by (simp_all add: get_result get_any_result inval_lookup)

end

section \<open>The in-memory cache keeps the promise\<close>

lemma hm_wf_remove [simp]: "hm_wf m \<Longrightarrow> hm_wf (hm_remove k m)"
  by (simp add: hm_remove_def)

lemma map_of_hm_remove: "hm_wf m \<Longrightarrow> map_of (hm_remove k m) = (map_of m)(k := None)"
  by (auto simp: hm_remove_def map_of_hm_retain fun_eq_iff split: option.splits)

lemma length_hm_retain: "length (hm_retain p m) \<le> length m"
  by (simp add: hm_retain_def)

lemma evict_oldest_inv:
  "hm_wf m \<Longrightarrow> hm_wf (evict_oldest m n) \<and> map_of (evict_oldest m n) \<subseteq>\<^sub>m map_of m \<and> length (evict_oldest m n) \<le> n"
proof (induction m n rule: evict_oldest.induct)
  case (1 m n)
  show ?case
  proof (cases "length m \<le> n")
    case True
    with 1 show ?thesis by (simp add: evict_oldest.simps)
  next
    case False
    then have "m \<noteq> []" by auto
    then obtain k e where ke: "oldest_entry m = Some (k, e)"
      by (metis oldest_entry_None not_None_eq surj_pair)
    with False have step: "evict_oldest m n = evict_oldest (hm_remove k m) n"
      by (subst evict_oldest.simps) simp
    have "map_of (hm_remove k m) \<subseteq>\<^sub>m map_of m"
      using "1.prems" by (auto simp: map_of_hm_remove map_le_def)
    then show ?thesis
      using "1.IH" [OF False ke refl] "1.prems" map_le_trans unfolding step by auto
  qed
qed

lemma purge_expired_le: "hm_wf m \<Longrightarrow> map_of (purge_expired m now) \<subseteq>\<^sub>m map_of m"
  by (auto simp: purge_expired_def map_of_hm_retain map_le_def dom_def split: option.splits if_splits)

lemma cache_set_lookup:
  assumes "ca_wf s"
  shows "map_of (evict_oldest (AList.update k e (purge_expired (ca_entries s) now)) n) \<subseteq>\<^sub>m (map_of (ca_entries s))(k \<mapsto> e)"
proof -
  let ?m = "AList.update k e (purge_expired (ca_entries s) now)"
  have wf: "hm_wf ?m" using assms by (simp add: ca_wf_def purge_expired_def)
  have "map_of ?m \<subseteq>\<^sub>m (map_of (ca_entries s))(k \<mapsto> e)"
    using assms purge_expired_le [of "ca_entries s" now] by (auto simp: ca_wf_def map_le_def dom_def)
  then show ?thesis
    using evict_oldest_inv [OF wf, of n] map_le_trans by blast
qed

interpretation mem_cache: context_cache_port ca_wf cache_lookup cache_get cache_get_any cache_set invalidate_user
proof (unfold_locales, goal_cases)
  case (1 k now s)
  then show ?case by (simp add: cache_get_def cache_lookup_def split: option.split)
next
  case (2 k now s)
  then show ?case by (simp add: cache_get_any_def cache_lookup_def split: option.split)
next
  case (3 s k now)
  then show ?case
    by (auto simp: cache_get_def cache_lookup_def ca_wf_def map_of_hm_remove map_le_def split: option.split)
next
  case (4 s k now)
  then show ?case
    by (auto simp: cache_get_any_def cache_lookup_def ca_wf_def map_of_hm_remove map_le_def split: option.split)
next
  case (5 s k e now)
  then show ?case by (simp add: cache_set_def cache_lookup_def cache_set_lookup)
next
  case (6 s t)
  then show ?case
    by (auto simp: invalidate_user_def Let_def cache_lookup_def ca_wf_def map_of_hm_retain fun_eq_iff
        key_of_tenant_def restrict_map_def split: option.splits)
next
  case (7 k now)
  show ?case
    by (rule preservesI) (auto simp: cache_get_def ca_wf_def hm_remove_def split: option.split
        intro: le_trans [OF length_hm_retain])
next
  case (8 k now)
  show ?case
    by (rule preservesI) (auto simp: cache_get_any_def ca_wf_def hm_remove_def split: option.split
        intro: le_trans [OF length_hm_retain])
next
  case (9 k e now)
  show ?case
    by (rule preservesI) (simp add: cache_set_def ca_wf_def evict_oldest_inv purge_expired_def)
next
  case (10 org user)
  show ?case
    by (rule preservesI) (auto simp: invalidate_user_def Let_def ca_wf_def intro: le_trans [OF length_hm_retain])
qed

section \<open>Eviction\<close>

lemma oldest_entry_le: "oldest_entry m = Some x \<Longrightarrow> y \<in> set m \<Longrightarrow> ce_created_at (snd x) \<le> ce_created_at (snd y)"
  by (induction m arbitrary: x) (force split: option.splits if_splits simp: oldest_entry_None)+

text \<open>An entry that is newer than all others survives eviction when there is room for one.\<close>

lemma evict_keeps_newest:
  "hm_wf m \<Longrightarrow> 0 < n \<Longrightarrow> map_of m k = Some e \<Longrightarrow>
     (\<And>k' e'. map_of m k' = Some e' \<Longrightarrow> k' \<noteq> k \<Longrightarrow> ce_created_at e' < ce_created_at e) \<Longrightarrow>
     map_of (evict_oldest m n) k = Some e"
proof (induction m n rule: evict_oldest.induct)
  case (1 m n)
  show ?case
  proof (cases "length m \<le> n")
    case True
    with 1 show ?thesis by (simp add: evict_oldest.simps)
  next
    case False
    then have "m \<noteq> []" by auto
    then obtain k1 e1 where ke: "oldest_entry m = Some (k1, e1)"
      by (metis oldest_entry_None not_None_eq surj_pair)
    have in1: "map_of m k1 = Some e1"
      using oldest_entry_in [OF ke] in_hm_iff [OF "1.prems"(1)] by blast
    have "k1 \<noteq> k"
    proof
      assume "k1 = k"
      have "set m \<subseteq> {(k, e)}"
      proof
        fix x assume x: "x \<in> set m"
        have "ce_created_at e \<le> ce_created_at (snd x)"
          using oldest_entry_le [OF ke x] in1 \<open>k1 = k\<close> "1.prems"(3) by simp
        moreover have "map_of m (fst x) = Some (snd x)"
          using x in_hm_iff [OF "1.prems"(1), of "fst x" "snd x"] by simp
        ultimately show "x \<in> {(k, e)}"
          using "1.prems"(3,4) by (cases x) force
      qed
      moreover have "distinct m" using "1.prems"(1) by (simp add: hm_wf_def distinct_map)
      ultimately have "length m \<le> 1"
        by (metis card.empty card_insert_disjoint card_mono distinct_card empty_iff finite.emptyI finite.insertI One_nat_def)
      with False "1.prems"(2) show False by simp
    qed
    then have "map_of (evict_oldest (hm_remove k1 m) n) k = Some e"
      using "1.prems" by (intro "1.IH" [OF False ke refl]) (auto simp: map_of_hm_remove split: if_splits)
    with False ke show ?thesis by (subst evict_oldest.simps) simp
  qed
qed

text \<open>Eviction removes no more than it must, and the oldest entries: what is removed is not newer than anything that stays.\<close>

lemma length_hm_remove: "hm_wf m \<Longrightarrow> (k, v) \<in> set m \<Longrightarrow> Suc (length (hm_remove k m)) = length m"
proof (induction m)
  case (Cons x m)
  show ?case
  proof (cases "fst x = k")
    case True
    then have "filter (\<lambda>p. fst p \<noteq> k) m = m" using Cons.prems(1) by (intro filter_True) (auto simp: hm_wf_def image_iff)
    with True show ?thesis by (simp add: hm_remove_def hm_retain_def case_prod_unfold)
  next
    case False
    with Cons show ?thesis by (auto simp: hm_wf_def hm_remove_def hm_retain_def case_prod_unfold)
  qed
qed simp

lemma evict_oldest_removed:
  "hm_wf m \<Longrightarrow> map_of m k1 = Some e1 \<Longrightarrow>
     length (evict_oldest m n) = min (length m) n \<and>
     (map_of (evict_oldest m n) k1 = Some e1 \<or>
      map_of (evict_oldest m n) k1 = None \<and> n < length m \<and>
      (\<forall>k2 e2. map_of (evict_oldest m n) k2 = Some e2 \<longrightarrow> ce_created_at e1 \<le> ce_created_at e2))"
proof (induction m n arbitrary: k1 e1 rule: evict_oldest.induct)
  case (1 m n)
  show ?case
  proof (cases "length m \<le> n")
    case True
    with 1 show ?thesis by (simp add: evict_oldest.simps)
  next
    case False
    then have "m \<noteq> []" by auto
    then obtain k0 e0 where ke: "oldest_entry m = Some (k0, e0)"
      by (metis oldest_entry_None not_None_eq surj_pair)
    define m' where "m' = hm_remove k0 m"
    have step: "evict_oldest m n = evict_oldest m' n"
      using False ke by (subst evict_oldest.simps) (simp add: m'_def)
    have in0: "(k0, e0) \<in> set m" using oldest_entry_in [OF ke] .
    note len = length_hm_remove [OF "1.prems"(1) in0, folded m'_def]
    have wf: "hm_wf m'" using "1.prems"(1) by (simp add: m'_def)
    have m': "map_of m' = (map_of m)(k0 := None)" using "1.prems"(1) by (simp add: m'_def map_of_hm_remove)
    have least: "ce_created_at e0 \<le> ce_created_at e2" if "map_of (evict_oldest m' n) k2 = Some e2" for k2 e2
    proof -
      have "map_of m' k2 = Some e2" using that evict_oldest_inv [OF wf, of n] by (auto simp: map_le_def dom_def)
      then have "(k2, e2) \<in> set m" by (auto simp: m' dest: map_of_SomeD split: if_splits)
      from oldest_entry_le [OF ke this] show ?thesis by simp
    qed
    have IH: "map_of m' k = Some e \<Longrightarrow> length (evict_oldest m' n) = min (length m') n \<and>
        (map_of (evict_oldest m' n) k = Some e \<or> map_of (evict_oldest m' n) k = None \<and> n < length m' \<and>
         (\<forall>k2 e2. map_of (evict_oldest m' n) k2 = Some e2 \<longrightarrow> ce_created_at e \<le> ce_created_at e2))" for k e
      using "1.IH" [OF False ke refl] wf by (simp add: m'_def)
    have "length (evict_oldest m' n) = min (length m') n"
    proof (cases m')
      case Nil
      then show ?thesis by (simp add: evict_oldest.simps)
    next
      case (Cons x xs)
      then have "map_of m' (fst x) = Some (snd x)" by (cases x) simp
      from IH [OF this] show ?thesis by simp
    qed
    moreover have "map_of (evict_oldest m' n) k0 = None"
      using evict_oldest_inv [OF wf, of n] by (auto simp: map_le_def dom_def m')
    moreover have "k1 = k0 \<Longrightarrow> e1 = e0" using "1.prems" in0 in_hm_iff by fastforce
    ultimately show ?thesis
      using False len least IH [of k1 e1] "1.prems"(2) unfolding step by (cases "k1 = k0") (auto simp: m')
  qed
qed

section \<open>Properties\<close>

text \<open>What a store finds: the entries that are not fully expired, and the new one under its key.\<close>

definition entries_to_keep ::
  "context_cache \<Rightarrow> datetime \<Rightarrow> context_cache_key \<Rightarrow> cached_context_entry \<Rightarrow> context_cache_key \<rightharpoonup> cached_context_entry" where
  "entries_to_keep s now k e =
     (\<lambda>k'. case cache_lookup s k' of
             Some e' \<Rightarrow> if is_fully_expired e' now then None else Some e'
           | None \<Rightarrow> None)(k \<mapsto> e)"

text \<open>C25: The cache is bounded, and a store loses no more than it must. Whatever is stored, the operation succeeds, the
  number of entries is within the maximum afterwards, and every entry is the new one under its key or an old one, not
  fully expired, under its own. Such an entry is missing afterwards only when the cache is full of entries that are not
  older. So an entry that is fresh (and not fully expired before it expires) and newer than all others is what the
  next lookup returns.\<close>

theorem cache_set_get:
  assumes "ca_wf s"
  shows "\<exists>s'. cache_set k e now s = (Inr (), s') \<and> ca_wf s' \<and> length (ca_entries s') \<le> ca_max_entries s \<and>
    cache_lookup s' \<subseteq>\<^sub>m entries_to_keep s now k e \<and>
    (\<forall>k1 e1. entries_to_keep s now k e k1 = Some e1 \<longrightarrow> cache_lookup s' k1 = None \<longrightarrow>
       length (ca_entries s') = ca_max_entries s \<and>
       (\<forall>k2 e2. cache_lookup s' k2 = Some e2 \<longrightarrow> ce_created_at e1 \<le> ce_created_at e2)) \<and>
    (is_fresh e now \<longrightarrow> ce_expires_at e \<le> effective_stale_until e \<longrightarrow>
       (\<forall>k' e'. k' \<noteq> k \<longrightarrow> cache_lookup s k' = Some e' \<longrightarrow> ce_created_at e' < ce_created_at e) \<longrightarrow>
       cache_get k now s' = (Inr (Some e), s'))"
proof -
  let ?m = "AList.update k e (purge_expired (ca_entries s) now)" and ?n = "ca_max_entries s"
  define s' where "s' = s\<lparr>ca_entries := evict_oldest ?m ?n\<rparr>"
  have wf: "hm_wf ?m" using assms by (simp add: ca_wf_def purge_expired_def)
  have m: "map_of ?m = entries_to_keep s now k e"
    using assms by (auto simp: entries_to_keep_def cache_lookup_def purge_expired_def map_of_hm_retain ca_wf_def fun_eq_iff
        split: option.split)
  have run: "cache_set k e now s = (Inr (), s')" by (simp add: cache_set_def s'_def)
  have keeps: "ca_wf s'" using preservesD [OF mem_cache.invar_put assms, of k e now] run by simp
  have le: "cache_lookup s' \<subseteq>\<^sub>m entries_to_keep s now k e" "length (ca_entries s') \<le> ?n"
    using evict_oldest_inv [OF wf, of ?n] unfolding m by (simp_all add: s'_def cache_lookup_def)
  have lost: "length (ca_entries s') = ?n \<and> (\<forall>k2 e2. cache_lookup s' k2 = Some e2 \<longrightarrow> ce_created_at e1 \<le> ce_created_at e2)"
    if "entries_to_keep s now k e k1 = Some e1" "cache_lookup s' k1 = None" for k1 e1
    using evict_oldest_removed [OF wf, of k1 e1 ?n] that unfolding m by (auto simp: s'_def cache_lookup_def)
  have "cache_get k now s' = (Inr (Some e), s')"
    if "is_fresh e now" "ce_expires_at e \<le> effective_stale_until e"
      "\<forall>k' e'. k' \<noteq> k \<longrightarrow> cache_lookup s k' = Some e' \<longrightarrow> ce_created_at e' < ce_created_at e"
  proof -
    have "map_of (evict_oldest ?m ?n) k = Some e"
    proof (rule evict_keeps_newest [OF wf])
      show "0 < ?n" using assms by (simp add: ca_wf_def)
      show "map_of ?m k = Some e" by simp
      show "ce_created_at e' < ce_created_at e" if k': "map_of ?m k' = Some e'" "k' \<noteq> k" for k' e'
      proof -
        have "cache_lookup s k' = Some e'"
          using k' by (auto simp only: m) (simp add: entries_to_keep_def split: option.splits if_splits)
        with k'(2) \<open>\<forall>k' e'. k' \<noteq> k \<longrightarrow> _\<close> show ?thesis by blast
      qed
    qed
    moreover have "\<not> is_fully_expired e now" using that(1,2) by (simp add: is_fresh_def is_fully_expired_def)
    ultimately show ?thesis using that(1) by (simp add: cache_get_def s'_def)
  qed
  with run keeps le lost show ?thesis by blast
qed

definition sample_key :: "string \<Rightarrow> context_cache_key" where
  "sample_key user = \<lparr>key_org_id = ''acme'', key_user_id = user, key_query_hash = ''q'', key_options_hash = ''o''\<rparr>"

definition sample_entry :: "datetime \<Rightarrow> cached_context_entry" where
  "sample_entry now = \<lparr>ce_context = ''c'', ce_memories = [], ce_created_at = now, ce_expires_at = now + 10,
     ce_stale_until = None,
     ce_budget = \<lparr>bu_max_tokens = 1, bu_reserved_tokens = 0, bu_available_tokens = 1, bu_used_tokens = 1,
       bu_included_memories = 0, bu_skipped_memories = 0\<rparr>,
     ce_compression = compression_usage_disabled\<rparr>"

text \<open>A cache of one entry, which the next store evicts.\<close>

definition full_cache :: context_cache where
  "full_cache = snd (cache_set (sample_key ''bob'') (sample_entry 3) 4 (context_cache_new 1))"

lemma full_cache_eq: "full_cache = \<lparr>ca_max_entries = 1, ca_entries = [(sample_key ''bob'', sample_entry 3)]\<rparr>"
  by (simp add: full_cache_def cache_set_def context_cache_new_def purge_expired_def hm_retain_def evict_oldest.simps)

theorem cache_set_get_witness:
  "\<exists>s'. cache_set (sample_key ''alice'') (sample_entry 5) 6 full_cache = (Inr (), s') \<and>
     cache_get (sample_key ''alice'') 6 s' = (Inr (Some (sample_entry 5)), s') \<and> length (ca_entries s') = 1"
proof -
  have "ca_wf full_cache" by (simp add: full_cache_eq ca_wf_def hm_wf_def)
  from cache_set_get [OF this, of "sample_key ''alice''" "sample_entry 5" 6] obtain s' where
      s': "cache_set (sample_key ''alice'') (sample_entry 5) 6 full_cache = (Inr (), s')" "length (ca_entries s') \<le> 1"
    and "is_fresh (sample_entry 5) 6 \<longrightarrow> ce_expires_at (sample_entry 5) \<le> effective_stale_until (sample_entry 5) \<longrightarrow>
       (\<forall>k' e'. k' \<noteq> sample_key ''alice'' \<longrightarrow> cache_lookup full_cache k' = Some e' \<longrightarrow>
          ce_created_at e' < ce_created_at (sample_entry 5)) \<longrightarrow>
       cache_get (sample_key ''alice'') 6 s' = (Inr (Some (sample_entry 5)), s')"
    by (auto simp: full_cache_eq)
  moreover have "is_fresh (sample_entry 5) 6" "ce_expires_at (sample_entry 5) \<le> effective_stale_until (sample_entry 5)"
    by (simp_all add: is_fresh_def sample_entry_def effective_stale_until_def)
  moreover have "cache_lookup full_cache k' = Some e' \<Longrightarrow> ce_created_at e' < ce_created_at (sample_entry 5)" for k' e'
    by (auto simp: full_cache_eq cache_lookup_def sample_entry_def split: if_splits)
  ultimately have "cache_get (sample_key ''alice'') 6 s' = (Inr (Some (sample_entry 5)), s')" by blast
  moreover from this s'(2) have "length (ca_entries s') = 1"
    by (cases "ca_entries s'") (simp_all add: cache_get_def)
  ultimately show ?thesis using s'(1) by blast
qed

text \<open>C26: Invalidation of a user removes exactly that user's entries: no lookup, fresh or stale, finds
  one afterwards, every other user's entries are unchanged, and the count is the number removed.\<close>

theorem cache_invalidation_complete:
  assumes "ca_wf s"
  shows "\<exists>n s'. invalidate_user (tc_org_id t) (tc_user_id t) s = (Inr n, s') \<and>
    n = length (filter (\<lambda>(k, _). key_of_tenant t k) (ca_entries s)) \<and>
    (\<forall>k now. key_of_tenant t k \<longrightarrow> fst (cache_get k now s') = Inr None \<and> fst (cache_get_any k now s') = Inr None) \<and>
    (\<forall>k. \<not> key_of_tenant t k \<longrightarrow> cache_lookup s' k = cache_lookup s k)"
proof -
  obtain n s' where r: "invalidate_user (tc_org_id t) (tc_user_id t) s = (Inr n, s')"
    by (simp add: invalidate_user_def Let_def)
  then have n: "n = length (filter (\<lambda>(k, _). key_of_tenant t k) (ca_entries s))"
    using sum_length_filter_compl [of "\<lambda>(k, _). key_of_tenant t k" "ca_entries s"]
    by (auto simp: invalidate_user_def Let_def hm_retain_def key_of_tenant_def case_prod_unfold)
  have "cache_lookup s' k = cache_lookup s k" if "\<not> key_of_tenant t k" for k
    using mem_cache.inval_lookup [OF assms, of t] r that by simp
  moreover have "fst (cache_get k now s') = Inr None \<and> fst (cache_get_any k now s') = Inr None"
    if "key_of_tenant t k" for k now
    using mem_cache.get_after_inval [OF assms that] r by simp
  ultimately show ?thesis
    using r n by blast
qed

theorem cache_invalidation_complete_witness:
  "\<exists>n s'. invalidate_user ''acme'' ''alice'' (context_cache_new 4) = (Inr n, s') \<and>
     fst (cache_get (sample_key ''alice'') 0 s') = Inr None"
  using cache_invalidation_complete [of "context_cache_new 4" "\<lparr>tc_org_id = ''acme'', tc_user_id = ''alice''\<rparr>"]
  by (auto simp: ca_wf_def context_cache_new_def key_of_tenant_def sample_key_def)

end
