(* ===== verification/Runtime.thy ===== *)
theory Runtime
  imports Vector_Store Event_Store Quota Ranking Dedup Context_Cache
begin

text \<open>
  What the engine (\<^verbatim>\<open>crates/memcore-core/src/engine/mod.rs\<close>) is built from: its configuration, the
  components behind its \<open>Arc\<close> fields as one state record, and the code outside the engine that it
  calls as a record of functions.

  A call whose answer is not determined by its arguments (a fresh identifier, the clock, a provider)
  takes a tick: the state counts such calls, so two of them may answer differently and nothing is
  assumed of how their answers relate. An engine operation is a computation over the state; what it
  wrote before an error stays written.
\<close>

section \<open>The world outside (\<open>ports/provider.rs\<close>)\<close>

datatype message_role = RoleUser | RoleAssistant | RoleSystem

record memory_message =
  msg_role :: message_role
  msg_content :: string

datatype pii_regex = BearerRegex | ApiKeyRegex | EmailRegex | PhoneRegex | CardRegex

record env =
  env_new_v4 :: "nat \<Rightarrow> uuid"
  env_utc_now :: "nat \<Rightarrow> datetime"
  env_embed_text :: "nat \<Rightarrow> string \<Rightarrow> f32 list memcore_result"
  env_extract_facts :: "nat \<Rightarrow> tenant_context \<Rightarrow> memory_message list \<Rightarrow> json \<Rightarrow> candidate_fact list memcore_result"
  env_classify :: "nat \<Rightarrow> tenant_context \<Rightarrow> candidate_fact \<Rightarrow> fact list \<Rightarrow> fact_operation_decision memcore_result"
  env_summarize :: "nat \<Rightarrow> tenant_context \<Rightarrow> fact list \<Rightarrow> nat option \<Rightarrow> string memcore_result"
  env_replace_all :: "pii_regex \<Rightarrow> string \<Rightarrow> string \<Rightarrow> string"
  env_sha256_hex :: "string \<Rightarrow> string"
  env_fingerprint_json :: "fingerprint \<Rightarrow> string"
  env_render :: render
  env_codec :: codec
  env_time :: time_range

text \<open>\<open>env_replace_all re replacement text\<close> is \<open>Regex::replace_all\<close> for one of the five static patterns of
  \<^verbatim>\<open>privacy/pii.rs\<close>. Redaction applies them in this order.\<close>

definition redact_text :: "env \<Rightarrow> string \<Rightarrow> string" where
  "redact_text env text =
     env_replace_all env CardRegex ''[REDACTED_CARD]''
      (env_replace_all env PhoneRegex ''[REDACTED_PHONE]''
        (env_replace_all env EmailRegex ''[REDACTED_EMAIL]''
          (env_replace_all env ApiKeyRegex ''[REDACTED_SECRET]''
            (env_replace_all env BearerRegex ''Bearer [REDACTED_SECRET]'' text))))"

definition redact_messages_for_extraction :: "env \<Rightarrow> memory_message list \<Rightarrow> memory_message list" where
  "redact_messages_for_extraction env messages =
     map (\<lambda>m. \<lparr>msg_role = msg_role m, msg_content = redact_text env (msg_content m)\<rparr>) messages"

section \<open>Configuration and state (\<open>MemoryEngine\<close>)\<close>

record engine =
  en_audit_provider_name :: "string option"
  en_audit_model_name :: "string option"
  en_min_importance :: f32
  en_enable_pii_redaction :: bool
  en_embedding_dedup_config :: embedding_dedup_config
  en_ranking_config :: ranking_config
  en_rrf_config :: rrf_config
  en_context_cache_config :: context_cache_config
  en_global_quota_limits :: org_quota_limits

definition DEFAULT_MIN_IMPORTANCE :: f32 where
  "DEFAULT_MIN_IMPORTANCE = f32_of_rat (55 / 100)"

definition engine_new :: engine where
  "engine_new =
     \<lparr>en_audit_provider_name = None, en_audit_model_name = None,
      en_min_importance = DEFAULT_MIN_IMPORTANCE, en_enable_pii_redaction = False,
      en_embedding_dedup_config = embedding_dedup_config_default,
      en_ranking_config = ranking_config_default, en_rrf_config = rrf_config_default,
      en_context_cache_config = context_cache_config_default,
      en_global_quota_limits = org_quota_limits_disabled\<rparr>"

record provider_usage_attribution =
  at_org_id :: string
  at_user_id :: "string option"

text \<open>\<open>s_usage_attribution\<close> is \<open>None\<close> without a slot; the slot itself is empty until it is set.
  \<open>s_inflight\<close> is the domain of the coordinator's map of locks, \<open>s_refresh_inflight\<close> its set of keys whose
  refresh has been announced.\<close>

record sys =
  s_facts :: mock_fact_store
  s_vectors :: mock_vector_store
  s_events :: "mock_event_store option"
  s_usage :: "mock_usage_store option"
  s_plans :: "mock_org_plan_store option"
  s_snapshots :: "mock_snapshot_store option"
  s_cache :: context_cache
  s_metrics :: "context_cache_metrics option"
  s_inflight :: "context_cache_key set"
  s_refresh_inflight :: "context_cache_key set"
  s_usage_attribution :: "provider_usage_attribution option option"
  s_tick :: nat

type_synonym 'a eng = "(sys, fault, 'a) comp"

section \<open>Access to the components\<close>

definition on_facts :: "'a fact_op \<Rightarrow> 'a eng" where
  "on_facts oper s = (case oper (s_facts s) of (r, x) \<Rightarrow> (lift_err r, s\<lparr>s_facts := x\<rparr>))"

definition on_vectors :: "'a vector_op \<Rightarrow> 'a eng" where
  "on_vectors oper s = (case oper (s_vectors s) of (r, x) \<Rightarrow> (lift_err r, s\<lparr>s_vectors := x\<rparr>))"

definition on_cache :: "'a cache_op \<Rightarrow> 'a eng" where
  "on_cache oper s = (case oper (s_cache s) of (r, x) \<Rightarrow> (lift_err r, s\<lparr>s_cache := x\<rparr>))"

text \<open>An operation of an event store that is configured.\<close>

definition on_events :: "mock_event_store \<Rightarrow> 'a event_op \<Rightarrow> 'a eng" where
  "on_events store oper s = (case oper store of (r, x) \<Rightarrow> (lift_err r, s\<lparr>s_events := Some x\<rparr>))"

definition on_metrics :: "(context_cache_metrics \<Rightarrow> context_cache_metrics) \<Rightarrow> unit eng" where
  "on_metrics f = modifyC (\<lambda>s. s\<lparr>s_metrics := map_option f (s_metrics s)\<rparr>)"

definition tick :: "(nat \<Rightarrow> 'a) \<Rightarrow> 'a eng" where
  "tick f s = (Inr (f (s_tick s)), s\<lparr>s_tick := Suc (s_tick s)\<rparr>)"

definition new_v4 :: "env \<Rightarrow> uuid eng" where
  "new_v4 env = tick (env_new_v4 env)"

definition utc_now :: "env \<Rightarrow> datetime eng" where
  "utc_now env = tick (env_utc_now env)"

definition embed_text :: "env \<Rightarrow> string \<Rightarrow> f32 list eng" where
  "embed_text env text = bindC (tick (\<lambda>n. env_embed_text env n text)) (\<lambda>r. liftR (lift_err r))"

definition extract_facts :: "env \<Rightarrow> tenant_context \<Rightarrow> memory_message list \<Rightarrow> json \<Rightarrow> candidate_fact list eng" where
  "extract_facts env t messages metadata =
     bindC (tick (\<lambda>n. env_extract_facts env n t messages metadata)) (\<lambda>r. liftR (lift_err r))"

definition classify_fact_operation ::
  "env \<Rightarrow> tenant_context \<Rightarrow> candidate_fact \<Rightarrow> fact list \<Rightarrow> fact_operation_decision eng" where
  "classify_fact_operation env t candidate existing =
     bindC (tick (\<lambda>n. env_classify env n t candidate existing)) (\<lambda>r. liftR (lift_err r))"

definition summarize_memory :: "env \<Rightarrow> tenant_context \<Rightarrow> fact list \<Rightarrow> nat option \<Rightarrow> string eng" where
  "summarize_memory env t facts max_tokens =
     bindC (tick (\<lambda>n. env_summarize env n t facts max_tokens)) (\<lambda>r. liftR (lift_err r))"

text \<open>\<open>catch_err\<close> hands a returned error to a \<open>match\<close>; a panic goes through.\<close>

definition catch_err :: "'a eng \<Rightarrow> (memcore_error + 'a) eng" where
  "catch_err m s = (case m s of
     (Inl (Err e), s') \<Rightarrow> (Inr (Inl e), s')
   | (Inl Panic, s') \<Rightarrow> (Inl Panic, s')
   | (Inr a, s') \<Rightarrow> (Inr (Inr a), s'))"

text \<open>A builder of \<open>audit/mod.rs\<close> makes an event with a fresh identifier and the time; the event goes to the
  store, if there is one, and an error of the store is dropped.\<close>

definition record_audit :: "env \<Rightarrow> tenant_context \<Rightarrow> (uuid \<Rightarrow> datetime \<Rightarrow> memory_event) \<Rightarrow> unit eng" where
  "record_audit env t build =
     bindC (new_v4 env) (\<lambda>i.
     bindC (utc_now env) (\<lambda>now.
     modifyC (\<lambda>s. s\<lparr>s_events := record_event_best_effort t (build i now) (s_events s)\<rparr>)))"

definition bind_usage_attribution :: "tenant_context \<Rightarrow> unit eng" where
  "bind_usage_attribution t = modifyC (\<lambda>s. s\<lparr>s_usage_attribution :=
     map_option (\<lambda>_. Some \<lparr>at_org_id = tc_org_id t, at_user_id = Some (tc_user_id t)\<rparr>) (s_usage_attribution s)\<rparr>)"

definition invalidate_user_context_cache :: "engine \<Rightarrow> tenant_context \<Rightarrow> unit eng" where
  "invalidate_user_context_cache en t =
     (if cfg_enabled (en_context_cache_config en)
      then bindC (catch_err (on_cache (invalidate_user (tc_org_id t) (tc_user_id t)))) (\<lambda>r.
           case r of Inr removed \<Rightarrow> on_metrics (record_invalidation removed) | Inl _ \<Rightarrow> ret ())
      else ret ())"

end
