(* ===== verification/Lifecycle.thy ===== *)
theory Lifecycle
  imports Runtime
begin

text \<open>
  \<^verbatim>\<open>crates/memcore-core/src/lifecycle\<close>: how a decision of the classifier is carried out on the fact
  store and the vector store.
\<close>

section \<open>Decisions (\<open>executor.rs\<close>, \<open>detector.rs\<close>, \<open>types.rs\<close>)\<close>

definition RELATED_FACTS_SEARCH_LIMIT :: nat where
  "RELATED_FACTS_SEARCH_LIMIT = 10"

datatype lifecycle_apply_result =
    Added fact
  | Updated (previous: fact) (updated: fact)
  | Deleted fact
  | NoOp

definition require_target_fact_id :: "fact_operation_decision \<Rightarrow> string \<Rightarrow> unit memcore_result" where
  "require_target_fact_id d operation =
     (if d_target_fact_id d = None
      then Inl (ValidationError (''target_fact_id is required for '' @ operation @ '' operation''))
      else Inr ())"

definition normalize_operation :: "fact_operation_decision \<Rightarrow> fact_operation memcore_result" where
  "normalize_operation d =
     (case d_operation d of
        OpAdd \<Rightarrow> Inr OpAdd
      | OpUpdate \<Rightarrow> and_then (require_target_fact_id d ''update'') (\<lambda>_. Inr OpUpdate)
      | OpDelete \<Rightarrow> and_then (require_target_fact_id d ''delete'') (\<lambda>_. Inr OpDelete)
      | OpNoOp \<Rightarrow> Inr OpNoOp
      | OpArchive \<Rightarrow> Inr OpNoOp
      | OpSummarize \<Rightarrow> Inr OpNoOp)"

definition find_related_facts :: "tenant_context \<Rightarrow> candidate_fact \<Rightarrow> fact list fact_op" where
  "find_related_facts t c =
     search_facts \<lparr>q_tenant = t, q_memory_types = Some [c_memory_type c],
       q_query_text = Some (c_content c), q_limit = RELATED_FACTS_SEARCH_LIMIT, q_cursor = None,
       q_include_deleted = False\<rparr>"

section \<open>Carrying them out (\<open>executor.rs\<close>)\<close>

text \<open>\<open>Utc::now\<close> is read before the identifier is drawn.\<close>

definition candidate_to_fact :: "env \<Rightarrow> tenant_context \<Rightarrow> candidate_fact \<Rightarrow> fact eng" where
  "candidate_to_fact env t c =
     bindC (utc_now env) (\<lambda>now.
     bindC (new_v4 env) (\<lambda>i.
     liftR (lift_err (fact_new i (tc_org_id t) (tc_user_id t) (c_memory_type c) (c_content c) None
       UserMessage (c_confidence c) (c_importance c) (c_valid_at c) None now now (c_metadata c)))))"

definition merge_candidate_into_fact :: "env \<Rightarrow> fact \<Rightarrow> candidate_fact \<Rightarrow> fact eng" where
  "merge_candidate_into_fact env existing c =
     bindC (utc_now env) (\<lambda>now.
     liftR (lift_err (fact_new (f_id existing) (f_org_id existing) (f_user_id existing)
       (c_memory_type c) (c_content c) (f_summary existing) (f_source existing) (c_confidence c)
       (c_importance c) (c_valid_at c) (f_invalid_at existing) (f_recorded_at existing) now
       (c_metadata c))))"

definition vector_record_of :: "uuid \<Rightarrow> fact \<Rightarrow> f32 list \<Rightarrow> vector_record" where
  "vector_record_of i f embedding =
     \<lparr>v_id = i, v_fact_id = f_id f, v_org_id = f_org_id f, v_user_id = f_user_id f,
      v_embedding = embedding, v_content = f_content f, v_memory_type = f_memory_type f,
      v_metadata = f_metadata f\<rparr>"

definition vector_record_from_fact :: "env \<Rightarrow> fact \<Rightarrow> f32 list \<Rightarrow> vector_record eng" where
  "vector_record_from_fact env f embedding =
     bindC (new_v4 env) (\<lambda>i. ret (vector_record_of i f embedding))"

definition upsert_fact_vector :: "env \<Rightarrow> tenant_context \<Rightarrow> fact \<Rightarrow> f32 list option \<Rightarrow> unit eng" where
  "upsert_fact_vector env t f precomputed =
     bindC (case precomputed of Some embedding \<Rightarrow> ret embedding | None \<Rightarrow> embed_text env (f_content f)) (\<lambda>embedding.
     bindC (vector_record_from_fact env f embedding) (\<lambda>record.
     on_vectors (upsert_vector t record)))"

text \<open>The removal of a fact's vectors where \<open>NotFound\<close> is not an error.\<close>

definition delete_fact_vectors :: "tenant_context \<Rightarrow> uuid \<Rightarrow> unit eng" where
  "delete_fact_vectors t i =
     bindC (catch_err (on_vectors (delete_by_fact_id t i))) (\<lambda>r.
     case r of
       Inr _ \<Rightarrow> ret ()
     | Inl e \<Rightarrow> if is_not_found e then ret () else throw (Err e))"

definition replace_fact_vector :: "env \<Rightarrow> tenant_context \<Rightarrow> fact \<Rightarrow> unit eng" where
  "replace_fact_vector env t f =
     seqC (delete_fact_vectors t (f_id f)) (upsert_fact_vector env t f None)"

definition apply_add ::
  "env \<Rightarrow> tenant_context \<Rightarrow> candidate_fact \<Rightarrow> f32 list option \<Rightarrow> lifecycle_apply_result eng" where
  "apply_add env t c precomputed =
     bindC (candidate_to_fact env t c) (\<lambda>f.
     bindC (on_facts (insert_fact t f)) (\<lambda>inserted.
     seqC (upsert_fact_vector env t inserted precomputed)
     (ret (Added inserted))))"

definition apply_update ::
  "env \<Rightarrow> tenant_context \<Rightarrow> candidate_fact \<Rightarrow> uuid \<Rightarrow> lifecycle_apply_result eng" where
  "apply_update env t c target =
     bindC (on_facts (get_fact t target)) (\<lambda>found.
     bindC (liftR (ok_or (Err (NotFound ''memory not found'')) found)) (\<lambda>existing.
     bindC (merge_candidate_into_fact env existing c) (\<lambda>upd.
     bindC (on_facts (update_fact t upd)) (\<lambda>stored.
     seqC (replace_fact_vector env t stored)
     (ret (Updated existing stored))))))"

definition apply_delete :: "tenant_context \<Rightarrow> uuid \<Rightarrow> lifecycle_apply_result eng" where
  "apply_delete t target =
     bindC (on_facts (get_fact t target)) (\<lambda>found.
     bindC (liftR (ok_or (Err (NotFound ''memory not found'')) found)) (\<lambda>existing.
     seqC (on_facts (soft_delete_fact t target))
     (seqC (delete_fact_vectors t target)
     (ret (Deleted existing)))))"

text \<open>\<open>expect\<close> on the target cannot fail after \<open>normalize_operation\<close>, but is a panic of the code.\<close>

definition apply_fact_operation ::
  "env \<Rightarrow> tenant_context \<Rightarrow> candidate_fact \<Rightarrow> fact_operation_decision \<Rightarrow> f32 list option \<Rightarrow>
   lifecycle_apply_result eng" where
  "apply_fact_operation env t c d precomputed =
     bindC (liftR (lift_err (normalize_operation d))) (\<lambda>operation.
     case operation of
       OpAdd \<Rightarrow> apply_add env t c precomputed
     | OpUpdate \<Rightarrow> bindC (liftR (ok_or Panic (d_target_fact_id d))) (apply_update env t c)
     | OpDelete \<Rightarrow> bindC (liftR (ok_or Panic (d_target_fact_id d))) (apply_delete t)
     | OpNoOp \<Rightarrow> ret NoOp
     | OpArchive \<Rightarrow> ret NoOp
     | OpSummarize \<Rightarrow> ret NoOp)"

end
