(* ===== verification/Import_Export.thy ===== *)
theory Import_Export
  imports Lifecycle
begin

text \<open>
  Portable user data: \<^verbatim>\<open>crates/memcore-core/src/export/types.rs\<close>,
  \<^verbatim>\<open>crates/memcore-core/src/import/types.rs\<close> and the validation of an import,
  \<^verbatim>\<open>crates/memcore-core/src/import/validation.rs\<close>.
\<close>

section \<open>Exports (\<open>export/types.rs\<close>)\<close>

definition USER_EXPORT_FORMAT_VERSION :: string where
  "USER_EXPORT_FORMAT_VERSION = ''memcore.user_export.v1''"

definition MAX_LIST_MEMORIES_LIMIT :: nat where "MAX_LIST_MEMORIES_LIMIT = 100"
definition MAX_LIST_MEMORY_EVENTS_LIMIT :: nat where "MAX_LIST_MEMORY_EVENTS_LIMIT = 100"
definition EXPORT_FACTS_LIMIT :: nat where "EXPORT_FACTS_LIMIT = MAX_LIST_MEMORIES_LIMIT"
definition EXPORT_EVENTS_LIMIT :: nat where "EXPORT_EVENTS_LIMIT = MAX_LIST_MEMORY_EVENTS_LIMIT"

record user_memory_export =
  ex_org_id :: string
  ex_user_id :: string
  ex_exported_at :: datetime
  ex_format_version :: string
  ex_facts :: "fact list"
  ex_memory_events :: "memory_event list"

definition user_memory_export_new ::
  "datetime \<Rightarrow> string \<Rightarrow> string \<Rightarrow> fact list \<Rightarrow> memory_event list \<Rightarrow> user_memory_export" where
  "user_memory_export_new now org user facts events =
     \<lparr>ex_org_id = org, ex_user_id = user, ex_exported_at = now,
      ex_format_version = USER_EXPORT_FORMAT_VERSION, ex_facts = facts, ex_memory_events = events\<rparr>"

section \<open>Imports (\<open>import/types.rs\<close>)\<close>

datatype import_mode = Append | Replace

record import_user_data_input =
  im_tenant :: tenant_context
  im_export :: user_memory_export
  im_mode :: import_mode
  im_restore_events :: bool
  im_dry_run :: bool

record import_validation_issue =
  vi_code :: string
  vi_message :: string
  vi_path :: "string option"

record import_validation_summary =
  va_valid :: bool
  va_errors :: "import_validation_issue list"
  va_warnings :: "import_validation_issue list"

definition first_error_message :: "import_validation_summary \<Rightarrow> string option" where
  "first_error_message v = (case va_errors v of [] \<Rightarrow> None | i # _ \<Rightarrow> Some (vi_message i))"

record import_user_data_output =
  io_imported_facts :: nat
  io_imported_events :: nat
  io_skipped_facts :: nat
  io_replaced_existing :: bool
  io_dry_run :: bool
  io_validation :: import_validation_summary

section \<open>Validation (\<open>import/validation.rs\<close>)\<close>

definition FORBIDDEN_METADATA_KEYS :: "string list" where
  "FORBIDDEN_METADATA_KEYS =
     [''api_key'', ''key_hash'', ''raw_key'', ''bearer'', ''bearer_token'', ''secret'']"

definition forbidden_metadata_key :: "string \<Rightarrow> bool" where
  "forbidden_metadata_key key \<longleftrightarrow> list_ex (contains (to_ascii_lowercase key)) FORBIDDEN_METADATA_KEYS"

fun contains_forbidden_secret_fields :: "json \<Rightarrow> bool"
  and forbidden_in_entries :: "(string \<times> json) list \<Rightarrow> bool"
  and forbidden_in_items :: "json list \<Rightarrow> bool" where
  "contains_forbidden_secret_fields (JObject entries) = forbidden_in_entries entries"
| "contains_forbidden_secret_fields (JArray items) = forbidden_in_items items"
| "contains_forbidden_secret_fields _ = False"
| "forbidden_in_entries [] = False"
| "forbidden_in_entries ((key, nested) # rest) =
     (if forbidden_metadata_key key then True
      else if contains_forbidden_secret_fields nested then True
      else forbidden_in_entries rest)"
| "forbidden_in_items [] = False"
| "forbidden_in_items (v # rest) = (contains_forbidden_secret_fields v \<or> forbidden_in_items rest)"

definition validation_issue :: "string \<Rightarrow> string \<Rightarrow> string option \<Rightarrow> import_validation_issue" where
  "validation_issue code message path = \<lparr>vi_code = code, vi_message = message, vi_path = path\<rparr>"

text \<open>The issues one check pushes.\<close>

definition issue_if :: "bool \<Rightarrow> string \<Rightarrow> string \<Rightarrow> string \<Rightarrow> import_validation_issue list" where
  "issue_if b code message path = (if b then [validation_issue code message (Some path)] else [])"

definition collect_fact_validation_issues :: "fact \<Rightarrow> tenant_context \<Rightarrow> nat \<Rightarrow> import_validation_issue list" where
  "collect_fact_validation_issues f t index =
     (let base_path = ''export.facts['' @ show_nat index @ '']'' in
      issue_if (f_org_id f \<noteq> tc_org_id t \<or> f_user_id f \<noteq> tc_user_id t)
        ''FACT_TENANT_MISMATCH'' ''fact org_id/user_id does not match import tenant'' base_path @
      issue_if (is_blank (f_content f))
        ''EMPTY_FACT_CONTENT'' ''fact content cannot be empty'' (base_path @ ''.content'') @
      issue_if (\<not> in_unit_interval (f_confidence f))
        ''INVALID_CONFIDENCE'' ''fact confidence must be between 0.0 and 1.0'' (base_path @ ''.confidence'') @
      issue_if (\<not> in_unit_interval (f_importance f))
        ''INVALID_IMPORTANCE'' ''fact importance must be between 0.0 and 1.0'' (base_path @ ''.importance'') @
      issue_if (contains_forbidden_secret_fields (f_metadata f))
        ''FORBIDDEN_SECRET_METADATA'' ''fact metadata contains forbidden secret fields'' (base_path @ ''.metadata''))"

definition collect_event_validation_issues ::
  "memory_event \<Rightarrow> tenant_context \<Rightarrow> nat \<Rightarrow> import_validation_issue list" where
  "collect_event_validation_issues e t index =
     (let base_path = ''export.memory_events['' @ show_nat index @ '']'' in
      issue_if (e_org_id e \<noteq> tc_org_id t \<or> e_user_id e \<noteq> tc_user_id t)
        ''EVENT_TENANT_MISMATCH'' ''memory event org_id/user_id does not match import tenant'' base_path @
      issue_if (contains_forbidden_secret_fields (e_metadata e))
        ''FORBIDDEN_SECRET_METADATA'' ''memory event metadata contains forbidden secret fields''
        (base_path @ ''.metadata''))"

text \<open>The loops over \<open>iter().enumerate()\<close>.\<close>

definition enumerated :: "('a \<Rightarrow> nat \<Rightarrow> 'b list) \<Rightarrow> 'a list \<Rightarrow> 'b list" where
  "enumerated f xs = concat (map (\<lambda>(i, x). f x i) (enumerate 0 xs))"

definition collect_import_validation ::
  "user_memory_export \<Rightarrow> tenant_context \<Rightarrow> bool \<Rightarrow> import_validation_summary" where
  "collect_import_validation x t restore_events =
     (let errors =
        issue_if (ex_format_version x \<noteq> USER_EXPORT_FORMAT_VERSION) ''UNSUPPORTED_FORMAT_VERSION''
          (''unsupported format_version: '' @ ex_format_version x) ''export.format_version'' @
        issue_if (ex_org_id x \<noteq> tc_org_id t) ''ORG_ID_MISMATCH''
          ''export org_id does not match tenant org_id'' ''export.org_id'' @
        issue_if (ex_user_id x \<noteq> tc_user_id t) ''USER_ID_MISMATCH''
          ''export user_id does not match path user_id'' ''export.user_id'' @
        enumerated (\<lambda>f. collect_fact_validation_issues f t) (ex_facts x) @
        (if restore_events
         then enumerated (\<lambda>e. collect_event_validation_issues e t) (ex_memory_events x) else [])
      in \<lparr>va_valid = (errors = []), va_errors = errors, va_warnings = []\<rparr>)"

definition first_issue_error :: "import_validation_issue list \<Rightarrow> unit memcore_result" where
  "first_issue_error errors =
     (case errors of [] \<Rightarrow> Inr () | i # _ \<Rightarrow> Inl (ValidationError (vi_message i)))"

definition validate_export_for_import :: "user_memory_export \<Rightarrow> tenant_context \<Rightarrow> unit memcore_result" where
  "validate_export_for_import x t =
     (let summary = collect_import_validation x t False in
      if \<not> va_valid summary
      then Inl (ValidationError (case first_error_message summary of
             Some m \<Rightarrow> m | None \<Rightarrow> ''import validation failed''))
      else Inr ())"

definition validate_fact_for_import :: "fact \<Rightarrow> tenant_context \<Rightarrow> unit memcore_result" where
  "validate_fact_for_import f t = first_issue_error (collect_fact_validation_issues f t 0)"

definition validate_event_for_import :: "memory_event \<Rightarrow> tenant_context \<Rightarrow> unit memcore_result" where
  "validate_event_for_import e t = first_issue_error (collect_event_validation_issues e t 0)"

text \<open>The identifier to use when it has to be regenerated is drawn from the environment.\<close>

definition resolve_import_fact_id :: "env \<Rightarrow> uuid \<Rightarrow> bool \<Rightarrow> import_mode \<Rightarrow> uuid eng" where
  "resolve_import_fact_id env exported_id id_exists mode =
     (if id_exists \<and> mode = Append then new_v4 env else ret exported_id)"

section \<open>What validation accepts\<close>

lemma issue_if_Nil [simp]: "issue_if b c m p = [] \<longleftrightarrow> \<not> b"
  by (simp add: issue_if_def)

lemma enumerated_Nil: "enumerated f xs = [] \<longleftrightarrow> (\<forall>i < length xs. f (xs ! i) i = [])"
  unfolding enumerated_def concat_eq_Nil_conv
  by (fastforce simp: enumerate_eq_zip set_zip)

text \<open>No key at any depth of the value contains a forbidden word.\<close>

lemma contains_forbidden_iff:
  "contains_forbidden_secret_fields v \<longleftrightarrow> (\<exists>k \<in> json_keys v. forbidden_metadata_key k)"
  "forbidden_in_entries es \<longleftrightarrow> (\<exists>k \<in> json_keys (JObject es). forbidden_metadata_key k)"
  "forbidden_in_items vs \<longleftrightarrow> (\<exists>k \<in> json_keys (JArray vs). forbidden_metadata_key k)"
  by (induction v and es and vs
      rule: contains_forbidden_secret_fields_forbidden_in_entries_forbidden_in_items.induct) auto

definition importable_fact :: "tenant_context \<Rightarrow> fact \<Rightarrow> bool" where
  "importable_fact t f \<longleftrightarrow> fact_matches_tenant f t \<and> \<not> is_blank (f_content f) \<and>
     in_unit_interval (f_confidence f) \<and> in_unit_interval (f_importance f) \<and>
     (\<forall>k \<in> json_keys (f_metadata f). \<not> forbidden_metadata_key k)"

definition importable_event :: "tenant_context \<Rightarrow> memory_event \<Rightarrow> bool" where
  "importable_event t e \<longleftrightarrow> event_matches_tenant e t \<and>
     (\<forall>k \<in> json_keys (e_metadata e). \<not> forbidden_metadata_key k)"

lemma fact_issues_Nil: "collect_fact_validation_issues f t i = [] \<longleftrightarrow> importable_fact t f"
  by (auto simp: collect_fact_validation_issues_def Let_def importable_fact_def fact_matches_tenant_def
      contains_forbidden_iff)

lemma event_issues_Nil: "collect_event_validation_issues e t i = [] \<longleftrightarrow> importable_event t e"
  by (auto simp: collect_event_validation_issues_def Let_def importable_event_def event_matches_tenant_def
      contains_forbidden_iff)

lemma import_valid_iff:
  "va_valid (collect_import_validation x t restore) \<longleftrightarrow>
     ex_format_version x = USER_EXPORT_FORMAT_VERSION \<and> ex_org_id x = tc_org_id t \<and>
     ex_user_id x = tc_user_id t \<and> (\<forall>f \<in> set (ex_facts x). importable_fact t f) \<and>
     (restore \<longrightarrow> (\<forall>e \<in> set (ex_memory_events x). importable_event t e))"
  by (auto simp: collect_import_validation_def Let_def enumerated_Nil fact_issues_Nil event_issues_Nil
      all_set_conv_all_nth)

end
