(* ===== verification/Coordinator.thy ===== *)
theory Coordinator
  imports Runtime
begin

text \<open>
  \<^verbatim>\<open>crates/memcore-core/src/context/cache_coordinator.rs\<close>: lookups in the context cache with stale
  entries served while they are refreshed and one computation per key. Here a request runs without
  interruption, so the lock of a key is never contended and the branches of a waiting request are
  not taken; \<open>Stampede\<close> models requests that interleave.
\<close>

section \<open>Configuration\<close>

record stampede_config =
  sc_enabled :: bool
  sc_lock_timeout :: u64

definition from_cache_config :: "context_cache_config \<Rightarrow> stampede_config" where
  "from_cache_config c =
     \<lparr>sc_enabled = stampede_protection_active c, sc_lock_timeout = cfg_stampede_lock_timeout_seconds c\<rparr>"

definition stampede_validate :: "stampede_config \<Rightarrow> unit memcore_result" where
  "stampede_validate c =
     (if sc_enabled c \<and> sc_lock_timeout c = 0
      then Inl (ValidationError ''context cache stampede lock timeout must be greater than 0'')
      else Inr ())"

section \<open>Operations\<close>

definition try_start_refresh :: "context_cache_key \<Rightarrow> bool eng" where
  "try_start_refresh key s =
     (Inr (key \<notin> s_refresh_inflight s), s\<lparr>s_refresh_inflight := insert key (s_refresh_inflight s)\<rparr>)"

definition finish_refresh :: "context_cache_key \<Rightarrow> unit eng" where
  "finish_refresh key = modifyC (\<lambda>s. s\<lparr>s_refresh_inflight := s_refresh_inflight s - {key}\<rparr>)"

definition lock_for_key :: "context_cache_key \<Rightarrow> unit eng" where
  "lock_for_key key = modifyC (\<lambda>s. s\<lparr>s_inflight := insert key (s_inflight s)\<rparr>)"

definition cleanup_inflight_lock :: "context_cache_key \<Rightarrow> unit eng" where
  "cleanup_inflight_lock key = modifyC (\<lambda>s. s\<lparr>s_inflight := s_inflight s - {key}\<rparr>)"

text \<open>The clock is read inside the cache's operations.\<close>

definition coord_get :: "env \<Rightarrow> context_cache_key \<Rightarrow> cached_context_entry option eng" where
  "coord_get env key = bindC (utc_now env) (\<lambda>now. on_cache (cache_get key now))"

definition coord_get_any :: "env \<Rightarrow> context_cache_key \<Rightarrow> cached_context_entry option eng" where
  "coord_get_any env key = bindC (utc_now env) (\<lambda>now. on_cache (cache_get_any key now))"

definition coord_set :: "env \<Rightarrow> context_cache_key \<Rightarrow> cached_context_entry \<Rightarrow> unit eng" where
  "coord_set env key entry = bindC (utc_now env) (\<lambda>now. on_cache (cache_set key entry now))"

definition computed_usage :: "context_cache_config \<Rightarrow> bool \<Rightarrow> context_cache_usage" where
  "computed_usage c is_refresh = (if is_refresh then usage_hit c else usage_miss c)"

text \<open>Both branches of \<open>compute_with_stampede\<close> end in the computation; with the lock, the cache is
  looked up once more first, and the lock is taken out of the map at the end.\<close>

definition compute_and_store ::
  "env \<Rightarrow> context_cache_config \<Rightarrow> context_cache_key \<Rightarrow> cached_context_entry eng \<Rightarrow> bool \<Rightarrow> unit eng \<Rightarrow>
   (cached_context_entry \<times> context_cache_usage) eng" where
  "compute_and_store env c key compute is_refresh cleanup =
     seqC (if is_refresh then ret () else on_metrics record_miss)
     (bindC (catch_err compute) (\<lambda>result.
      case result of
        Inr entry \<Rightarrow>
          seqC (coord_set env key entry)
          (seqC cleanup
          (seqC (on_metrics record_set)
          (ret (entry, computed_usage c is_refresh))))
      | Inl e \<Rightarrow>
          seqC cleanup
          (seqC (on_metrics record_compute_error)
          (throw (Err e)))))"

definition compute_with_stampede ::
  "env \<Rightarrow> context_cache_config \<Rightarrow> context_cache_key \<Rightarrow> cached_context_entry eng \<Rightarrow> bool \<Rightarrow>
   (cached_context_entry \<times> context_cache_usage) eng" where
  "compute_with_stampede env c key compute is_refresh =
     (if \<not> sc_enabled (from_cache_config c)
      then compute_and_store env c key compute is_refresh (ret ())
      else
        seqC (lock_for_key key)
        (bindC (coord_get env key) (\<lambda>cached.
         case cached of
           Some entry \<Rightarrow>
             seqC (cleanup_inflight_lock key)
             (seqC (on_metrics record_hit)
             (ret (entry, usage_hit_with_wait c False)))
         | None \<Rightarrow> compute_and_store env c key compute is_refresh (cleanup_inflight_lock key))))"

definition get_or_compute ::
  "env \<Rightarrow> context_cache_config \<Rightarrow> context_cache_key \<Rightarrow> cached_context_entry eng \<Rightarrow>
   (cached_context_entry \<times> context_cache_usage) eng" where
  "get_or_compute env c key compute =
     seqC (liftR (lift_err (cache_config_validate c)))
     (seqC (liftR (lift_err (stampede_validate (from_cache_config c))))
     (bindC (coord_get env key) (\<lambda>cached.
      case cached of
        Some entry \<Rightarrow> seqC (on_metrics record_hit) (ret (entry, usage_hit c))
      | None \<Rightarrow>
          if \<not> stale_while_revalidate_active c then compute_with_stampede env c key compute False
          else
            bindC (utc_now env) (\<lambda>now.
            bindC (coord_get_any env key) (\<lambda>any.
            case any of
              None \<Rightarrow> compute_with_stampede env c key compute False
            | Some entry \<Rightarrow>
                if \<not> is_stale_servable entry now then compute_with_stampede env c key compute False
                else
                  bindC (try_start_refresh key) (\<lambda>refresh_started.
                  seqC (on_metrics record_stale_served)
                  (seqC (if refresh_started then on_metrics record_refresh_started else ret ())
                  (ret (entry, usage_stale_hit c refresh_started)))))))))"

definition refresh_entry ::
  "env \<Rightarrow> context_cache_config \<Rightarrow> context_cache_key \<Rightarrow> cached_context_entry eng \<Rightarrow> unit eng" where
  "refresh_entry env c key compute =
     bindC (catch_err (compute_with_stampede env c key compute True)) (\<lambda>result.
     seqC (finish_refresh key)
     (case result of
        Inr _ \<Rightarrow> on_metrics record_refresh_succeeded
      | Inl e \<Rightarrow> seqC (on_metrics record_refresh_failed) (throw (Err e))))"

end
