(* ===== verification/Engine.thy ===== *)
theory Engine
  imports Import_Export Coordinator
begin

text \<open>
  The memory engine: every operation of \<^verbatim>\<open>crates/memcore-core/src/engine/mod.rs\<close>, composed of the
  components the way the code composes them, with the summariser of
  \<^verbatim>\<open>crates/memcore-core/src/context/summarizer.rs\<close> and the types of
  \<^verbatim>\<open>engine/types.rs\<close>, \<^verbatim>\<open>retention/types.rs\<close> and \<^verbatim>\<open>admin\<close>. Inputs with several fields are records;
  those with a tenant and one more field are arguments.
\<close>

section \<open>Limits and validation\<close>

definition DEFAULT_SEARCH_LIMIT :: nat where "DEFAULT_SEARCH_LIMIT = 10"
definition MAX_SEARCH_LIMIT :: nat where "MAX_SEARCH_LIMIT = 50"
definition DEFAULT_LIST_MEMORIES_LIMIT :: nat where "DEFAULT_LIST_MEMORIES_LIMIT = 20"
definition MAX_CONTEXT_MAX_MEMORIES :: nat where "MAX_CONTEXT_MAX_MEMORIES = 20"
definition DEFAULT_LIST_ORG_USERS_LIMIT :: nat where "DEFAULT_LIST_ORG_USERS_LIMIT = 50"
definition MAX_LIST_ORG_USERS_LIMIT :: nat where "MAX_LIST_ORG_USERS_LIMIT = 100"
definition MAX_SEARCH_ORG_MEMORY_EVENTS_LIMIT :: nat where "MAX_SEARCH_ORG_MEMORY_EVENTS_LIMIT = 100"

definition validate_tenant :: "tenant_context \<Rightarrow> unit memcore_result" where
  "validate_tenant t =
     (if is_blank (tc_org_id t) then Inl (ValidationError ''org_id cannot be empty'')
      else if is_blank (tc_user_id t) then Inl (ValidationError ''user_id cannot be empty'')
      else Inr ())"

definition validate_org_id :: "string \<Rightarrow> unit memcore_result" where
  "validate_org_id org =
     (if is_blank org then Inl (ValidationError ''org_id cannot be empty'') else Inr ())"

definition validate_query :: "string \<Rightarrow> unit memcore_result" where
  "validate_query query =
     (if is_blank query then Inl (ValidationError ''query cannot be empty'') else Inr ())"

definition normalize_org_users_limit :: "nat \<Rightarrow> nat memcore_result" where
  "normalize_org_users_limit limit =
     (let normalized = (if limit = 0 then DEFAULT_LIST_ORG_USERS_LIMIT else limit) in
      if MAX_LIST_ORG_USERS_LIMIT < normalized
      then Inl (ValidationError (''limit cannot exceed '' @ show_nat MAX_LIST_ORG_USERS_LIMIT))
      else Inr normalized)"

text \<open>The four limits that must be between 1 and a maximum differ only in the name of the field.\<close>

definition bounded_limit :: "string \<Rightarrow> nat \<Rightarrow> nat \<Rightarrow> nat memcore_result" where
  "bounded_limit field maximum limit =
     (if limit = 0 then Inl (ValidationError (field @ '' must be greater than 0''))
      else if maximum < limit then Inl (ValidationError (field @ '' cannot exceed '' @ show_nat maximum))
      else Inr limit)"

definition normalize_org_memory_events_limit :: "nat \<Rightarrow> nat memcore_result" where
  "normalize_org_memory_events_limit = bounded_limit ''limit'' MAX_SEARCH_ORG_MEMORY_EVENTS_LIMIT"

definition normalize_context_max_memories :: "nat \<Rightarrow> nat memcore_result" where
  "normalize_context_max_memories = bounded_limit ''max_memories'' MAX_CONTEXT_MAX_MEMORIES"

definition normalize_list_limit :: "nat \<Rightarrow> nat memcore_result" where
  "normalize_list_limit = bounded_limit ''limit'' MAX_LIST_MEMORIES_LIMIT"

definition normalize_search_limit :: "nat \<Rightarrow> nat memcore_result" where
  "normalize_search_limit = bounded_limit ''limit'' MAX_SEARCH_LIMIT"

definition normalize_memory_event_list_limit :: "nat \<Rightarrow> nat memcore_result" where
  "normalize_memory_event_list_limit = bounded_limit ''limit'' MAX_LIST_MEMORY_EVENTS_LIMIT"

definition internal_search_limit :: "nat \<Rightarrow> nat" where
  "internal_search_limit limit = min (usize_saturating_mul limit 2) MAX_SEARCH_LIMIT"

definition validate_messages :: "memory_message list \<Rightarrow> unit memcore_result" where
  "validate_messages messages =
     (if messages = [] then Inl (ValidationError ''messages cannot be empty'')
      else if list_ex (\<lambda>m. is_blank (msg_content m)) messages
      then Inl (ValidationError ''message content cannot be empty'')
      else Inr ())"

definition validate_candidate :: "candidate_fact \<Rightarrow> unit memcore_result" where
  "validate_candidate c =
     (if is_blank (c_content c) then Inl (ValidationError ''candidate fact content cannot be empty'')
      else if \<not> in_unit_interval (c_confidence c)
      then Inl (ValidationError ''candidate confidence must be between 0.0 and 1.0'')
      else if \<not> in_unit_interval (c_importance c)
      then Inl (ValidationError ''candidate importance must be between 0.0 and 1.0'')
      else Inr ())"

definition passes_importance_threshold :: "candidate_fact \<Rightarrow> f32 \<Rightarrow> bool" where
  "passes_importance_threshold c min_importance \<longleftrightarrow> f32_le min_importance (c_importance c)"

definition dedup_noop_decision :: "uuid \<Rightarrow> string \<Rightarrow> fact_operation_decision" where
  "dedup_noop_decision existing reason =
     \<lparr>d_operation = OpNoOp, d_target_fact_id = Some existing, d_reason = Some reason, d_confidence = Fin 1\<rparr>"

definition messages_for_llm_extraction :: "env \<Rightarrow> memory_message list \<Rightarrow> bool \<Rightarrow> memory_message list" where
  "messages_for_llm_extraction env messages enable_pii_redaction =
     (if enable_pii_redaction then redact_messages_for_extraction env messages else messages)"

section \<open>Adding memories\<close>

record add_memory_input =
  ai_tenant :: tenant_context
  ai_messages :: "memory_message list"
  ai_metadata :: json

record add_memory_output =
  ao_added :: nat
  ao_updated :: nat
  ao_deleted :: nat
  ao_noop :: nat
  ao_memories :: "fact list"

definition add_memory_output_new :: add_memory_output where
  "add_memory_output_new = \<lparr>ao_added = 0, ao_updated = 0, ao_deleted = 0, ao_noop = 0, ao_memories = []\<rparr>"

definition audit_noop :: "env \<Rightarrow> engine \<Rightarrow> tenant_context \<Rightarrow> fact_operation_decision \<Rightarrow> unit eng" where
  "audit_noop env en t d =
     record_audit env t (\<lambda>i now. build_noop_event i now t d (en_audit_provider_name en) (en_audit_model_name en))"

definition count_noop :: "add_memory_output \<Rightarrow> add_memory_output" where
  "count_noop acc = acc\<lparr>ao_noop := ao_noop acc + 1\<rparr>"

text \<open>What one result of the lifecycle adds to the summary, after its audit event.\<close>

definition account_result ::
  "env \<Rightarrow> engine \<Rightarrow> tenant_context \<Rightarrow> json \<Rightarrow> fact_operation_decision \<Rightarrow> lifecycle_apply_result \<Rightarrow>
   add_memory_output \<Rightarrow> add_memory_output eng" where
  "account_result env en t metadata decision result acc =
     (case result of
        Added f \<Rightarrow>
          seqC (record_audit env t (\<lambda>i now. build_add_event i now t f
            (en_audit_provider_name en) (en_audit_model_name en) metadata))
          (ret (acc\<lparr>ao_added := ao_added acc + 1, ao_memories := ao_memories acc @ [f]\<rparr>))
      | Updated prev upd \<Rightarrow>
          seqC (record_audit env t (\<lambda>i now. build_update_event i now t prev upd
            (en_audit_provider_name en) (en_audit_model_name en) metadata))
          (ret (acc\<lparr>ao_updated := ao_updated acc + 1, ao_memories := ao_memories acc @ [upd]\<rparr>))
      | Deleted f \<Rightarrow>
          seqC (record_audit env t (\<lambda>i now. build_delete_event i now t f
            (en_audit_provider_name en) (en_audit_model_name en) metadata))
          (ret (acc\<lparr>ao_deleted := ao_deleted acc + 1\<rparr>))
      | NoOp \<Rightarrow> seqC (audit_noop env en t decision) (ret (count_noop acc)))"

text \<open>The body of the loop over the extracted candidates.\<close>

definition process_candidate ::
  "env \<Rightarrow> engine \<Rightarrow> tenant_context \<Rightarrow> json \<Rightarrow> candidate_fact \<Rightarrow> add_memory_output \<Rightarrow> add_memory_output eng" where
  "process_candidate env en t metadata raw acc =
     seqC (liftR (lift_err (validate_candidate raw)))
     (let c = adjust raw; fmt2 = rd_fmt2 (env_render env) in
      if \<not> passes_importance_threshold c (en_min_importance en) then ret (count_noop acc)
      else
        bindC (on_facts (find_existing_facts_for_dedup t (c_memory_type c))) (\<lambda>existing.
        case detect_duplicate fmt2 c existing of
          Duplicate i reason \<Rightarrow>
            seqC (audit_noop env en t (dedup_noop_decision i reason)) (ret (count_noop acc))
        | _ \<Rightarrow>
            bindC (embed_text env (c_content c)) (\<lambda>embedding.
            bindC (on_vectors (detect_embedding_duplicate fmt2 t (c_memory_type c) embedding
                     (en_embedding_dedup_config en))) (\<lambda>similar.
            case similar of
              Some (Duplicate i reason) \<Rightarrow>
                seqC (audit_noop env en t (dedup_noop_decision i reason)) (ret (count_noop acc))
            | _ \<Rightarrow>
                bindC (on_facts (find_related_facts t c)) (\<lambda>related.
                bindC (classify_fact_operation env t c related) (\<lambda>decision.
                bindC (apply_fact_operation env t c decision (Some embedding)) (\<lambda>result.
                account_result env en t metadata decision result acc)))))))"

definition add_memory :: "env \<Rightarrow> engine \<Rightarrow> add_memory_input \<Rightarrow> add_memory_output eng" where
  "add_memory env en i =
     seqC (liftR (lift_err (validate_tenant (ai_tenant i))))
     (seqC (liftR (lift_err (validate_messages (ai_messages i))))
     (seqC (bind_usage_attribution (ai_tenant i))
     (bindC (extract_facts env (ai_tenant i)
        (messages_for_llm_extraction env (ai_messages i) (en_enable_pii_redaction en)) (ai_metadata i)) (\<lambda>candidates.
      bindC (for_eachC (process_candidate env en (ai_tenant i) (ai_metadata i)) candidates add_memory_output_new) (\<lambda>out.
      seqC (if 0 < ao_added out + ao_updated out + ao_deleted out
            then invalidate_user_context_cache en (ai_tenant i) else ret ())
      (ret out))))))"

section \<open>Searching\<close>

record search_memory_input =
  si_tenant :: tenant_context
  si_query :: string
  si_limit :: nat
  si_memory_types :: "memory_type list option"
  si_metadata_filter :: "json option"

record scored_result =
  sr_result :: memory_search_result
  sr_rrf :: f32
  sr_weighted :: f32
  sr_updated_at :: datetime

definition semantic_candidates :: "vector_search_result list \<Rightarrow> ranked_candidate list" where
  "semantic_candidates rs =
     map (\<lambda>(index, r). \<lparr>rk_fact_id = vr_fact_id r, rk_source = Semantic, rk_rank = index + 1, rk_score = vr_score r\<rparr>)
       (enumerate 0 rs)"

definition keyword_candidates :: "fact list \<Rightarrow> ranked_candidate list" where
  "keyword_candidates fs =
     map (\<lambda>(index, f). \<lparr>rk_fact_id = f_id f, rk_source = Keyword, rk_rank = index + 1, rk_score = Fin 0\<rparr>)
       (enumerate 0 fs)"

text \<open>\<open>collect\<close> into a \<open>HashMap\<close>: the last pair of a key wins.\<close>

definition collect_map :: "('k \<times> 'v) list \<Rightarrow> 'k \<rightharpoonup> 'v" where
  "collect_map ps = map_of (rev ps)"

definition score_fact ::
  "engine \<Rightarrow> datetime \<Rightarrow> vector_search_result option \<Rightarrow> f32 \<Rightarrow> fact \<Rightarrow> scored_result" where
  "score_fact en now vector_result rrf f =
     (let semantic_score = (case vector_result of Some r \<Rightarrow> vr_score r | None \<Rightarrow> Fin 0);
          content = (case vector_result of Some r \<Rightarrow> vr_content r | None \<Rightarrow> f_content f);
          metadata = (case vector_result of Some r \<Rightarrow> vr_metadata r | None \<Rightarrow> f_metadata f)
      in \<lparr>sr_result = \<lparr>r_fact_id = f_id f, r_content = content, r_memory_type = f_memory_type f,
            r_score = rrf, r_confidence = f_confidence f, r_importance = f_importance f,
            r_valid_at = f_valid_at f, r_metadata = metadata\<rparr>,
          sr_rrf = rrf,
          sr_weighted = weighted_score_for semantic_score (f_importance f) (f_confidence f)
            (Some (f_updated_at f)) (f_memory_type f) now (en_ranking_config en),
          sr_updated_at = f_updated_at f\<rparr>)"

definition scored_le :: "scored_result \<Rightarrow> scored_result \<Rightarrow> bool" where
  "scored_le =
     lex_le (\<lambda>a b. f32_cmp_le (sr_rrf b) (sr_rrf a))
      (lex_le (\<lambda>a b. f32_cmp_le (sr_weighted b) (sr_weighted a))
        (lex_le (\<lambda>a b. sr_updated_at b \<le> sr_updated_at a)
          (\<lambda>a b. r_fact_id (sr_result a) \<le> r_fact_id (sr_result b))))"

text \<open>The loop over the fused candidates: a candidate without an active fact is dropped.\<close>

definition score_candidate ::
  "engine \<Rightarrow> tenant_context \<Rightarrow> datetime \<Rightarrow> (uuid \<rightharpoonup> vector_search_result) \<Rightarrow> (uuid \<rightharpoonup> fact) \<Rightarrow> uuid \<times> f32 \<Rightarrow>
   scored_result list \<Rightarrow> scored_result list eng" where
  "score_candidate en t now vector_by_fact keyword_by_fact cand acc =
     (case cand of (fact_id, rrf) \<Rightarrow>
        bindC (case keyword_by_fact fact_id of
                 Some f \<Rightarrow> ret (Some f)
               | None \<Rightarrow> on_facts (get_fact t fact_id)) (\<lambda>found.
        case found of
          None \<Rightarrow> ret acc
        | Some f \<Rightarrow> ret (acc @ [score_fact en now (vector_by_fact fact_id) rrf f])))"

definition search_memory :: "env \<Rightarrow> engine \<Rightarrow> search_memory_input \<Rightarrow> memory_search_result list eng" where
  "search_memory env en i =
     seqC (liftR (lift_err (validate_tenant (si_tenant i))))
     (seqC (liftR (lift_err (validate_query (si_query i))))
     (seqC (bind_usage_attribution (si_tenant i))
     (bindC (liftR (lift_err (normalize_search_limit (si_limit i)))) (\<lambda>limit.
      let internal_limit = internal_search_limit limit in
      bindC (embed_text env (si_query i)) (\<lambda>embedding.
      bindC (on_vectors (search_vectors \<lparr>vq_tenant = si_tenant i, vq_embedding = embedding,
               vq_limit = internal_limit, vq_memory_types = si_memory_types i,
               vq_metadata_filter = si_metadata_filter i\<rparr>)) (\<lambda>vector_results.
      bindC (on_facts (search_facts \<lparr>q_tenant = si_tenant i, q_memory_types = si_memory_types i,
               q_query_text = Some (si_query i), q_limit = internal_limit, q_cursor = None,
               q_include_deleted = False\<rparr>)) (\<lambda>keyword_facts.
      bindC (utc_now env) (\<lambda>now.
      bindC (for_eachC (score_candidate en (si_tenant i) now
               (collect_map (map (\<lambda>r. (vr_fact_id r, r)) vector_results))
               (collect_map (map (\<lambda>f. (f_id f, f)) keyword_facts)))
             (reciprocal_rank_fusion (semantic_candidates vector_results)
               (keyword_candidates keyword_facts) (en_rrf_config en)) []) (\<lambda>scored.
      ret (map (\<lambda>x. (sr_result x)\<lparr>r_score := sr_rrf x\<rparr>) (take limit (sort_by scored_le scored))))))))))))"

section \<open>Building a context (\<open>build_context\<close>, \<open>summarizer.rs\<close>)\<close>

definition context_item_to_fact :: "env \<Rightarrow> context_memory_item \<Rightarrow> fact eng" where
  "context_item_to_fact env item =
     bindC (utc_now env) (\<lambda>now.
     liftR (lift_err (fact_new (i_fact_id item) ''compression'' ''compression'' (i_memory_type item)
       (i_content item) None MSSystem (i_confidence item) (i_importance item) (i_valid_at item)
       None now now (JObject []))))"

definition llm_summarize_memories ::
  "env \<Rightarrow> tenant_context \<Rightarrow> context_memory_item list \<Rightarrow> nat \<Rightarrow> context_format \<Rightarrow> bool \<Rightarrow> compressed_context eng" where
  "llm_summarize_memories env t memories max_tokens fmt include_section =
     bindC (for_eachC (\<lambda>item acc. bindC (context_item_to_fact env item) (\<lambda>f. ret (acc @ [f]))) memories []) (\<lambda>facts.
     bindC (summarize_memory env t facts (Some max_tokens)) (\<lambda>summary.
     ret (wrap_provider_summary (env_render env) estimate_tokens summary (length memories) fmt include_section)))"

definition summarize_skipped_memories ::
  "env \<Rightarrow> context_compression_mode \<Rightarrow> tenant_context \<Rightarrow> context_memory_item list \<Rightarrow> nat \<Rightarrow> context_format \<Rightarrow> bool \<Rightarrow>
   (compressed_context \<times> context_compression_mode) eng" where
  "summarize_skipped_memories env mode t memories max_tokens fmt include_section =
     (let fallback = (compress (env_render env) estimate_tokens memories max_tokens fmt include_section,
            if mode = ProviderSummary then SimpleExtractive else mode)
      in if memories = [] then ret (compressed_empty, CompressionDisabled)
         else if mode = ProviderSummary
         then bindC (catch_err (llm_summarize_memories env t memories max_tokens fmt include_section)) (\<lambda>r.
              case r of Inr c \<Rightarrow> ret (c, ProviderSummary) | Inl _ \<Rightarrow> ret fallback)
         else ret fallback)"

definition build_context_uncached :: "env \<Rightarrow> engine \<Rightarrow> build_context_input \<Rightarrow> build_context_output eng" where
  "build_context_uncached env en i =
     bindC (liftR (lift_err (normalize_context_max_memories (bc_max_memories i)))) (\<lambda>max_memories.
     bindC (search_memory env en \<lparr>si_tenant = bc_tenant i, si_query = bc_query i, si_limit = max_memories,
              si_memory_types = bc_memory_types i, si_metadata_filter = None\<rparr>) (\<lambda>results.
     let copts = bc_compression_options i; fopts = bc_format_options i;
         assembled0 = assemble_context_with_budget (env_render env) estimate_tokens results
           (bc_include_metadata i) fopts (bc_budget i) copts;
         available = bu_available_tokens (a_budget assembled0);
         summary_budget = effective_summary_budget available (bu_used_tokens (a_budget assembled0))
           (co_summary_max_tokens copts)
     in bindC (if co_mode copts = ProviderSummary \<and> a_skipped_items assembled0 \<noteq> [] \<and> 0 < summary_budget
               then bindC (summarize_skipped_memories env (co_mode copts) (bc_tenant i)
                      (a_skipped_items assembled0) summary_budget (fo_format fopts)
                      (co_include_summary_section copts)) (\<lambda>(compressed, effective_mode).
                    if cc_text compressed \<noteq> []
                    then ret (apply_provider_compression_summary (env_render env) estimate_tokens assembled0
                           compressed (fo_format fopts) available effective_mode)
                    else ret assembled0)
               else ret assembled0) (\<lambda>assembled.
        ret \<lparr>bo_context = a_context assembled, bo_memories = a_memories assembled,
             bo_budget = a_budget assembled, bo_compression = a_compression assembled,
             bo_cache = cache_usage_disabled\<rparr>)))"

definition validate_context_request :: "engine \<Rightarrow> build_context_input \<Rightarrow> unit eng" where
  "validate_context_request en i =
     seqC (liftR (lift_err (validate_tenant (bc_tenant i))))
     (seqC (liftR (lift_err (validate_query (bc_query i))))
     (seqC (bind_usage_attribution (bc_tenant i))
     (seqC (liftR (lift_err (budget_validate (bc_budget i))))
     (seqC (liftR (lift_err (compression_validate (bc_compression_options i) (available_tokens (bc_budget i)))))
     (liftR (lift_err (cache_config_validate (en_context_cache_config en))))))))"

definition context_key :: "env \<Rightarrow> build_context_input \<Rightarrow> context_cache_key" where
  "context_key env i = build_context_cache_key (env_sha256_hex env) (env_fingerprint_json env) i"

text \<open>The closure given to the coordinator.\<close>

definition compute_entry :: "env \<Rightarrow> engine \<Rightarrow> build_context_input \<Rightarrow> cached_context_entry eng" where
  "compute_entry env en i =
     bindC (build_context_uncached env en i) (\<lambda>output.
     bindC (utc_now env) (\<lambda>now.
     liftR (cached_entry_from_output (env_time env) now output (en_context_cache_config en))))"

definition build_context :: "env \<Rightarrow> engine \<Rightarrow> build_context_input \<Rightarrow> build_context_output eng" where
  "build_context env en i =
     seqC (validate_context_request en i)
     (if \<not> cfg_enabled (en_context_cache_config en) then build_context_uncached env en i
      else bindC (get_or_compute env (en_context_cache_config en) (context_key env i)
                    (compute_entry env en i)) (\<lambda>(entry, cache_usage).
           ret \<lparr>bo_context = ce_context entry, bo_memories = ce_memories entry, bo_budget = ce_budget entry,
                bo_compression = ce_compression entry, bo_cache = cache_usage\<rparr>))"

definition refresh_stale_context :: "env \<Rightarrow> engine \<Rightarrow> build_context_input \<Rightarrow> unit eng" where
  "refresh_stale_context env en i =
     seqC (validate_context_request en i)
     (if \<not> cfg_enabled (en_context_cache_config en) then ret ()
      else refresh_entry env (en_context_cache_config en) (context_key env i) (compute_entry env en i))"

section \<open>Listing and deleting\<close>

record list_memories_input =
  li_tenant :: tenant_context
  li_memory_type :: "memory_type option"
  li_query_text :: "string option"
  li_limit :: nat
  li_cursor :: "string option"
  li_include_deleted :: bool

definition fact_cursor :: "fact \<Rightarrow> page_cursor" where
  "fact_cursor f = \<lparr>last_id = uuid_to_string (f_id f), last_sort_value = f_updated_at f\<rparr>"

definition list_memories :: "env \<Rightarrow> list_memories_input \<Rightarrow> fact page eng" where
  "list_memories env i =
     seqC (liftR (lift_err (validate_tenant (li_tenant i))))
     (bindC (liftR (lift_err (normalize_list_limit (li_limit i)))) (\<lambda>limit.
      bindC (liftR (lift_err (parse_optional_cursor (env_codec env) (li_cursor i)))) (\<lambda>cursor.
      bindC (on_facts (search_facts \<lparr>q_tenant = li_tenant i,
               q_memory_types = map_option (\<lambda>mt. [mt]) (li_memory_type i),
               q_query_text = li_query_text i, q_limit = limit, q_cursor = cursor,
               q_include_deleted = li_include_deleted i\<rparr>)) (\<lambda>memories.
      liftR (build_page (env_codec env) memories limit fact_cursor)))))"

definition delete_memory :: "env \<Rightarrow> engine \<Rightarrow> tenant_context \<Rightarrow> uuid \<Rightarrow> bool eng" where
  "delete_memory env en t memory_id =
     seqC (liftR (lift_err (validate_tenant t)))
     (bindC (on_facts (get_fact t memory_id)) (\<lambda>exists.
      case exists of
        None \<Rightarrow> throw (Err (NotFound ''memory not found''))
      | Some f \<Rightarrow>
          seqC (on_facts (soft_delete_fact t memory_id))
          (seqC (on_vectors (delete_by_fact_id t memory_id))
          (seqC (record_audit env t (\<lambda>i now. build_delete_event i now t f (en_audit_provider_name en)
                   (en_audit_model_name en) (JObject [(''source'', JString ''delete_memory'')])))
          (seqC (invalidate_user_context_cache en t)
          (ret True))))))"

definition forget_user :: "env \<Rightarrow> engine \<Rightarrow> tenant_context \<Rightarrow> bool eng" where
  "forget_user env en t =
     seqC (liftR (lift_err (validate_tenant t)))
     (seqC (on_facts (delete_user_data t))
     (seqC (on_vectors (delete_by_user t))
     (seqC (record_audit env t (\<lambda>i now. build_forget_user_event i now t (en_audit_provider_name en)
              (en_audit_model_name en)))
     (seqC (invalidate_user_context_cache en t)
     (ret True)))))"

end
