(* ===== verification/Engine_Admin.thy ===== *)
theory Engine_Admin
  imports Engine
begin

text \<open>
  The rest of \<^verbatim>\<open>crates/memcore-core/src/engine/mod.rs\<close>: retention, import and export, the audit log, and
  the operations of an organisation (summary, users, events, quotas, usage).
\<close>

section \<open>Retention (\<open>retention/types.rs\<close>)\<close>

record retention_policy =
  rp_enabled :: bool
  rp_fact_retention_days :: "u32 option"
  rp_event_retention_days :: "u32 option"

definition retention_policy_disabled :: retention_policy where
  "retention_policy_disabled =
     \<lparr>rp_enabled = False, rp_fact_retention_days = None, rp_event_retention_days = None\<rparr>"

definition active_days :: "bool \<Rightarrow> u32 option \<Rightarrow> u32 option" where
  "active_days enabled value =
     (if \<not> enabled then None
      else case value of None \<Rightarrow> None | Some d \<Rightarrow> if 0 < d then Some d else None)"

definition fact_days_active :: "retention_policy \<Rightarrow> u32 option" where
  "fact_days_active p = active_days (rp_enabled p) (rp_fact_retention_days p)"

definition event_days_active :: "retention_policy \<Rightarrow> u32 option" where
  "event_days_active p = active_days (rp_enabled p) (rp_event_retention_days p)"

record apply_retention_output =
  ro_dry_run :: bool
  ro_facts_matched :: nat
  ro_facts_deleted :: nat
  ro_events_matched :: nat
  ro_events_deleted :: nat

definition apply_retention_output_zero :: "bool \<Rightarrow> apply_retention_output" where
  "apply_retention_output_zero dry_run =
     \<lparr>ro_dry_run = dry_run, ro_facts_matched = 0, ro_facts_deleted = 0, ro_events_matched = 0,
      ro_events_deleted = 0\<rparr>"

text \<open>\<open>Utc::now() - Duration::days(d)\<close> panics when the result is not representable.\<close>

definition cutoff_before :: "env \<Rightarrow> u32 \<Rightarrow> datetime eng" where
  "cutoff_before env d =
     bindC (utc_now env) (\<lambda>now. liftR (time_offset (env_time env) now (- days (unat d))))"

definition retain_facts ::
  "env \<Rightarrow> tenant_context \<Rightarrow> bool \<Rightarrow> u32 \<Rightarrow> apply_retention_output \<Rightarrow> apply_retention_output eng" where
  "retain_facts env t dry_run d out =
     bindC (cutoff_before env d) (\<lambda>cutoff.
     bindC (on_facts (delete_facts_older_than t cutoff dry_run)) (\<lambda>result.
     if dry_run then ret (out\<lparr>ro_facts_matched := prune_count result, ro_facts_deleted := 0\<rparr>)
     else seqC (for_eachC (\<lambda>i _. delete_fact_vectors t i) (prune_fact_ids result) ())
          (ret (out\<lparr>ro_facts_matched := prune_count result, ro_facts_deleted := prune_count result\<rparr>))))"

definition retain_events ::
  "env \<Rightarrow> tenant_context \<Rightarrow> bool \<Rightarrow> u32 \<Rightarrow> mock_event_store \<Rightarrow> apply_retention_output \<Rightarrow> apply_retention_output eng" where
  "retain_events env t dry_run d store out =
     bindC (cutoff_before env d) (\<lambda>cutoff.
     bindC (on_events store (delete_events_older_than t cutoff dry_run)) (\<lambda>n.
     ret (out\<lparr>ro_events_matched := n, ro_events_deleted := (if dry_run then 0 else n)\<rparr>)))"

definition apply_retention ::
  "env \<Rightarrow> engine \<Rightarrow> tenant_context \<Rightarrow> retention_policy \<Rightarrow> bool \<Rightarrow> apply_retention_output eng" where
  "apply_retention env en t p dry_run =
     seqC (liftR (lift_err (validate_tenant t)))
     (if \<not> rp_enabled p then ret (apply_retention_output_zero dry_run)
      else
        bindC (case fact_days_active p of
                 Some d \<Rightarrow> retain_facts env t dry_run d (apply_retention_output_zero dry_run)
               | None \<Rightarrow> ret (apply_retention_output_zero dry_run)) (\<lambda>out.
        bindC (getsC s_events) (\<lambda>events.
        bindC (case (event_days_active p, events) of
                 (Some d, Some store) \<Rightarrow> retain_events env t dry_run d store out
               | _ \<Rightarrow> ret out) (\<lambda>out.
        seqC (if \<not> dry_run \<and> 0 < ro_facts_deleted out then invalidate_user_context_cache en t else ret ())
        (ret out)))))"

record provider_usage_retention_output =
  pr_dry_run :: bool
  pr_matched_events :: nat
  pr_deleted_events :: nat
  pr_cutoff :: datetime

text \<open>An operation of a usage store that is configured; its faults include panics.\<close>

definition on_usage :: "mock_usage_store \<Rightarrow> (mock_usage_store, fault, 'a) comp \<Rightarrow> 'a eng" where
  "on_usage store oper s = (case oper store of (r, x) \<Rightarrow> (r, s\<lparr>s_usage := Some x\<rparr>))"

definition usage_store_of :: "mock_usage_store eng" where
  "usage_store_of =
     bindC (getsC s_usage) (\<lambda>u.
     liftR (ok_or (Err (ValidationError ''provider usage persistence is not configured'')) u))"

definition apply_provider_usage_retention ::
  "env \<Rightarrow> string \<Rightarrow> u32 \<Rightarrow> bool \<Rightarrow> provider_usage_retention_output eng" where
  "apply_provider_usage_retention env org retention_days dry_run =
     seqC (liftR (lift_err (validate_org_id org)))
     (if retention_days = 0
      then bindC (utc_now env) (\<lambda>now.
           ret \<lparr>pr_dry_run = dry_run, pr_matched_events = 0, pr_deleted_events = 0, pr_cutoff = now\<rparr>)
      else
        seqC usage_store_of
        (bindC (cutoff_before env retention_days) (\<lambda>cutoff.
         bindC usage_store_of (\<lambda>store.
         bindC (on_usage store (delete_usage_events_older_than org cutoff True)) (\<lambda>matched.
         bindC (if dry_run then ret 0
                else bindC usage_store_of (\<lambda>store.
                     on_usage store (delete_usage_events_older_than org cutoff False))) (\<lambda>deleted.
         ret \<lparr>pr_dry_run = dry_run, pr_matched_events = matched, pr_deleted_events = deleted,
              pr_cutoff = cutoff\<rparr>))))))"

section \<open>Import and export\<close>

definition fact_for_import :: "fact \<Rightarrow> tenant_context \<Rightarrow> uuid \<Rightarrow> fact memcore_result" where
  "fact_for_import x t i =
     fact_new i (tc_org_id t) (tc_user_id t) (f_memory_type x) (f_content x) (f_summary x) (f_source x)
       (f_confidence x) (f_importance x) (f_valid_at x) (f_invalid_at x) (f_recorded_at x)
       (f_updated_at x) (f_metadata x)"

definition restored_event_from_export :: "uuid \<Rightarrow> memory_event \<Rightarrow> memory_event" where
  "restored_event_from_export i e = e\<lparr>e_id := i, e_input_text := None\<rparr>"

definition dry_run_output ::
  "import_user_data_input \<Rightarrow> import_validation_summary \<Rightarrow> bool \<Rightarrow> import_user_data_output" where
  "dry_run_output i v event_store_configured =
     (if \<not> va_valid v
      then \<lparr>io_imported_facts = 0, io_imported_events = 0, io_skipped_facts = length (ex_facts (im_export i)),
            io_replaced_existing = (im_mode i = Replace), io_dry_run = True, io_validation = v\<rparr>
      else \<lparr>io_imported_facts = length (ex_facts (im_export i)),
            io_imported_events = (if im_restore_events i \<and> event_store_configured
              then length (ex_memory_events (im_export i)) else 0),
            io_skipped_facts = 0, io_replaced_existing = (im_mode i = Replace), io_dry_run = True,
            io_validation = v\<rparr>)"

definition import_fact :: "env \<Rightarrow> tenant_context \<Rightarrow> import_mode \<Rightarrow> fact \<Rightarrow> nat \<Rightarrow> nat eng" where
  "import_fact env t mode x imported =
     bindC (on_facts (get_fact t (f_id x))) (\<lambda>found.
     bindC (resolve_import_fact_id env (f_id x) (found \<noteq> None) mode) (\<lambda>fact_id.
     bindC (liftR (lift_err (fact_for_import x t fact_id))) (\<lambda>f.
     seqC (on_facts (insert_fact t f))
     (bindC (embed_text env (f_content f)) (\<lambda>embedding.
      bindC (new_v4 env) (\<lambda>i.
      seqC (on_vectors (upsert_vector t (vector_record_of i f embedding)))
      (ret (imported + 1))))))))"

definition import_event :: "env \<Rightarrow> tenant_context \<Rightarrow> memory_event \<Rightarrow> nat \<Rightarrow> nat eng" where
  "import_event env t x imported =
     bindC (new_v4 env) (\<lambda>i.
     bindC (getsC s_events) (\<lambda>events.
     case events of
       None \<Rightarrow> ret imported
     | Some store \<Rightarrow>
         seqC (on_events store (record_event t (restored_event_from_export i x)))
         (ret (imported + 1))))"

definition clear_for_replace :: "env \<Rightarrow> engine \<Rightarrow> tenant_context \<Rightarrow> unit eng" where
  "clear_for_replace env en t =
     seqC (on_facts (delete_user_data t))
     (seqC (on_vectors (delete_by_user t))
     (record_audit env t (\<lambda>i now. build_import_replace_event i now t (en_audit_provider_name en)
        (en_audit_model_name en))))"

definition import_user_data :: "env \<Rightarrow> engine \<Rightarrow> import_user_data_input \<Rightarrow> import_user_data_output eng" where
  "import_user_data env en i =
     seqC (liftR (lift_err (validate_tenant (im_tenant i))))
     (bindC (getsC s_events) (\<lambda>events.
      let validation = collect_import_validation (im_export i) (im_tenant i) (im_restore_events i) in
      if \<not> va_valid validation \<and> \<not> im_dry_run i
      then throw (Err (ValidationError (case first_error_message validation of
             Some m \<Rightarrow> m | None \<Rightarrow> ''import validation failed'')))
      else if im_dry_run i then ret (dry_run_output i validation (events \<noteq> None))
      else
        seqC (if im_mode i = Replace then clear_for_replace env en (im_tenant i) else ret ())
        (bindC (for_eachC (import_fact env (im_tenant i) (im_mode i)) (ex_facts (im_export i)) 0) (\<lambda>imported_facts.
         bindC (if im_restore_events i \<and> events \<noteq> None
                then for_eachC (import_event env (im_tenant i)) (ex_memory_events (im_export i)) 0
                else ret 0) (\<lambda>imported_events.
         seqC (invalidate_user_context_cache en (im_tenant i))
         (ret \<lparr>io_imported_facts = imported_facts, io_imported_events = imported_events,
               io_skipped_facts = 0, io_replaced_existing = (im_mode i = Replace), io_dry_run = False,
               io_validation = validation\<rparr>))))))"

definition export_user_data :: "env \<Rightarrow> tenant_context \<Rightarrow> bool \<Rightarrow> bool \<Rightarrow> user_memory_export eng" where
  "export_user_data env t include_events include_deleted =
     seqC (liftR (lift_err (validate_tenant t)))
     (bindC (on_facts (search_facts \<lparr>q_tenant = t, q_memory_types = None, q_query_text = None,
               q_limit = EXPORT_FACTS_LIMIT, q_cursor = None, q_include_deleted = include_deleted\<rparr>)) (\<lambda>facts.
      bindC (getsC s_events) (\<lambda>events.
      bindC (case (include_events, events) of
               (True, Some store) \<Rightarrow> on_events store (list_events (memory_event_query_new t EXPORT_EVENTS_LIMIT))
             | _ \<Rightarrow> ret []) (\<lambda>memory_events.
      bindC (utc_now env) (\<lambda>now.
      ret (user_memory_export_new now (tc_org_id t) (tc_user_id t) facts memory_events))))))"

section \<open>The audit log\<close>

record list_memory_events_input =
  le_tenant :: tenant_context
  le_fact_id :: "uuid option"
  le_operation :: "memory_event_operation option"
  le_created_after :: "datetime option"
  le_created_before :: "datetime option"
  le_query_text :: "string option"
  le_limit :: nat
  le_cursor :: "string option"

definition event_cursor :: "memory_event \<Rightarrow> page_cursor" where
  "event_cursor e = \<lparr>last_id = uuid_to_string (e_id e), last_sort_value = e_created_at e\<rparr>"

definition list_memory_events :: "env \<Rightarrow> list_memory_events_input \<Rightarrow> memory_event page eng" where
  "list_memory_events env i =
     seqC (liftR (lift_err (validate_tenant (le_tenant i))))
     (bindC (liftR (lift_err (normalize_memory_event_list_limit (le_limit i)))) (\<lambda>limit.
      bindC (liftR (lift_err (parse_optional_cursor (env_codec env) (le_cursor i)))) (\<lambda>cursor.
      bindC (getsC s_events) (\<lambda>events.
      case events of
        None \<Rightarrow> ret \<lparr>p_items = [], p_next_cursor = None\<rparr>
      | Some store \<Rightarrow>
          seqC (liftR (lift_err (validate_event_date_range (le_created_after i) (le_created_before i))))
          (bindC (on_events store (list_events \<lparr>eq_tenant = le_tenant i, eq_fact_id = le_fact_id i,
                    eq_operation = le_operation i, eq_created_after = le_created_after i,
                    eq_created_before = le_created_before i, eq_query_text = le_query_text i,
                    eq_limit = limit, eq_cursor = cursor\<rparr>)) (\<lambda>found.
           liftR (build_page (env_codec env) found limit event_cursor)))))))"

record search_org_memory_events_input =
  so_org_id :: string
  so_user_id :: "string option"
  so_fact_id :: "uuid option"
  so_operation :: "memory_event_operation option"
  so_created_after :: "datetime option"
  so_created_before :: "datetime option"
  so_query_text :: "string option"
  so_limit :: nat
  so_cursor :: "string option"

definition search_org_memory_events :: "env \<Rightarrow> search_org_memory_events_input \<Rightarrow> memory_event page eng" where
  "search_org_memory_events env i =
     seqC (liftR (lift_err (validate_org_id (so_org_id i))))
     (bindC (liftR (lift_err (normalize_org_memory_events_limit (so_limit i)))) (\<lambda>limit.
      bindC (liftR (lift_err (parse_optional_cursor (env_codec env) (so_cursor i)))) (\<lambda>cursor.
      bindC (getsC s_events) (\<lambda>events.
      case events of
        None \<Rightarrow> ret \<lparr>p_items = [], p_next_cursor = None\<rparr>
      | Some store \<Rightarrow>
          seqC (liftR (lift_err (validate_event_date_range (so_created_after i) (so_created_before i))))
          (bindC (on_events store (list_events_by_org \<lparr>oq_org_id = so_org_id i, oq_user_id = so_user_id i,
                    oq_fact_id = so_fact_id i, oq_operation = so_operation i,
                    oq_created_after = so_created_after i, oq_created_before = so_created_before i,
                    oq_query_text = so_query_text i, oq_limit = limit, oq_cursor = cursor\<rparr>)) (\<lambda>found.
           liftR (build_page (env_codec env) found limit event_cursor)))))))"

section \<open>Organisations (\<open>admin/types.rs\<close>)\<close>

record org_summary_output =
  os_org_id :: string
  os_total_users :: nat
  os_total_facts :: nat
  os_total_events :: "nat option"

definition get_org_summary :: "string \<Rightarrow> org_summary_output eng" where
  "get_org_summary org =
     seqC (liftR (lift_err (validate_org_id org)))
     (bindC (on_facts (count_facts_by_org org)) (\<lambda>total_facts.
      bindC (on_facts (count_users_by_org org)) (\<lambda>total_users.
      bindC (getsC s_events) (\<lambda>events.
      bindC (case events of
               Some store \<Rightarrow> bindC (on_events store (count_events_by_org org)) (\<lambda>n. ret (Some n))
             | None \<Rightarrow> ret None) (\<lambda>total_events.
      ret \<lparr>os_org_id = org, os_total_users = total_users, os_total_facts = total_facts,
           os_total_events = total_events\<rparr>)))))"

text \<open>\<open>DateTime::MIN_UTC\<close> is the lower end of the time range. The clock stands in for a missing date
  of the last user on a page.\<close>

definition list_org_users :: "env \<Rightarrow> string \<Rightarrow> nat \<Rightarrow> string option \<Rightarrow> org_user_summary page eng" where
  "list_org_users env org raw_limit raw_cursor =
     seqC (liftR (lift_err (validate_org_id org)))
     (bindC (liftR (lift_err (normalize_org_users_limit raw_limit))) (\<lambda>limit.
      bindC (liftR (lift_err (parse_optional_cursor (env_codec env) raw_cursor))) (\<lambda>cursor.
      bindC (on_facts (list_users_by_org (t_min (env_time env))
               \<lparr>ou_org_id = org, ou_limit = limit, ou_cursor = cursor\<rparr>)) (\<lambda>users.
      bindC (utc_now env) (\<lambda>now.
      liftR (build_page (env_codec env) users limit (\<lambda>u. \<lparr>last_id = u_user_id u,
        last_sort_value = (case u_last_memory_at u of Some d \<Rightarrow> d | None \<Rightarrow> now)\<rparr>)))))))"

section \<open>Quotas and usage (\<open>admin/usage\<close>)\<close>

definition quota_service_of :: "env \<Rightarrow> engine \<Rightarrow> quota_service eng" where
  "quota_service_of env en =
     bindC (utc_now env) (\<lambda>now.
     getsC (\<lambda>s. \<lparr>qs_facts = s_facts s, qs_usage = s_usage s, qs_plans = s_plans s,
       qs_global = en_global_quota_limits en, qs_codec = env_codec env, qs_now = now\<rparr>))"

definition engine_get_org_quota_status :: "env \<Rightarrow> engine \<Rightarrow> string \<Rightarrow> string option \<Rightarrow> quota_check_result eng" where
  "engine_get_org_quota_status env en org user_id =
     seqC (liftR (lift_err (validate_org_id org)))
     (seqC (case user_id of
              None \<Rightarrow> ret ()
            | Some user \<Rightarrow> seqC (liftR (lift_err (tenant_new org user))) (ret ()))
     (bindC (quota_service_of env en) (\<lambda>q. liftR (get_org_quota_status q org user_id))))"

definition engine_resolve_org_quota_limits :: "env \<Rightarrow> engine \<Rightarrow> string \<Rightarrow> resolved_org_quota_limits eng" where
  "engine_resolve_org_quota_limits env en org =
     seqC (liftR (lift_err (validate_org_id org)))
     (bindC (quota_service_of env en) (\<lambda>q. liftR (resolve_org_quota_limits q org)))"

definition check_memory_write_quota :: "env \<Rightarrow> engine \<Rightarrow> string \<Rightarrow> string \<Rightarrow> u64 \<Rightarrow> quota_check_result eng" where
  "check_memory_write_quota env en org user requested =
     bindC (liftR (lift_err (tenant_new org user))) (\<lambda>t.
     seqC (liftR (lift_err (validate_tenant t)))
     (bindC (quota_service_of env en) (\<lambda>q. liftR (check_memory_write_allowed q org user requested))))"

definition check_provider_quota :: "env \<Rightarrow> engine \<Rightarrow> string \<Rightarrow> u64 option \<Rightarrow> quota_check_result eng" where
  "check_provider_quota env en org estimated_tokens =
     seqC (liftR (lift_err (validate_org_id org)))
     (bindC (quota_service_of env en) (\<lambda>q. liftR (check_provider_call_allowed q org estimated_tokens)))"

record memory_usage_latest_snapshot =
  lt_captured_at :: datetime
  lt_total_users :: u64
  lt_total_memories :: u64
  lt_active_memories :: u64
  lt_deleted_memories :: "u64 option"

definition latest_snapshot_from :: "memory_usage_snapshot \<Rightarrow> memory_usage_latest_snapshot" where
  "latest_snapshot_from m =
     \<lparr>lt_captured_at = ms_captured_at m, lt_total_users = ms_total_users m,
      lt_total_memories = ms_total_memories m, lt_active_memories = ms_active_memories m,
      lt_deleted_memories = ms_deleted_memories m\<rparr>"

definition on_snapshots :: "mock_snapshot_store \<Rightarrow> (mock_snapshot_store, fault, 'a) comp \<Rightarrow> 'a eng" where
  "on_snapshots store oper s = (case oper store of (r, x) \<Rightarrow> (r, s\<lparr>s_snapshots := Some x\<rparr>))"

definition memory_usage_snapshot_store :: "mock_snapshot_store eng" where
  "memory_usage_snapshot_store =
     bindC (getsC s_snapshots) (\<lambda>st.
     liftR (ok_or (Err (StorageError ''memory usage snapshot store is not configured'')) st))"

definition create_memory_usage_snapshot :: "env \<Rightarrow> string \<Rightarrow> datetime option \<Rightarrow> memory_usage_snapshot eng" where
  "create_memory_usage_snapshot env org captured_at =
     seqC (liftR (lift_err (validate_org_id org)))
     (bindC memory_usage_snapshot_store (\<lambda>store.
      bindC (on_facts (count_facts_by_org org)) (\<lambda>active.
      bindC (new_v4 env) (\<lambda>i.
      bindC (on_facts (count_users_by_org org)) (\<lambda>users.
      bindC (case captured_at of Some d \<Rightarrow> ret d | None \<Rightarrow> utc_now env) (\<lambda>at_time.
      on_snapshots store (insert_snapshot
        \<lparr>ms_id = i, ms_org_id = org, ms_total_users = word_of_nat users,
         ms_total_memories = word_of_nat active, ms_active_memories = word_of_nat active,
         ms_deleted_memories = None, ms_captured_at = at_time, ms_metadata = None\<rparr>)))))))"

definition query_memory_usage_snapshots ::
  "env \<Rightarrow> memory_usage_snapshot_query \<Rightarrow> memory_usage_snapshot_query_result eng" where
  "query_memory_usage_snapshots env q =
     seqC (liftR (lift_err (validate_org_id (sq_org_id q))))
     (seqC (liftR (lift_err (validate_event_date_range (sq_created_after q) (sq_created_before q))))
     (bindC (liftR (lift_err (validate_memory_usage_snapshot_limit (sq_limit q)))) (\<lambda>limit.
      bindC memory_usage_snapshot_store (\<lambda>store.
      on_snapshots store (query_snapshots (env_codec env) (q\<lparr>sq_limit := limit\<rparr>))))))"

definition latest_memory_usage_snapshot :: "env \<Rightarrow> string \<Rightarrow> memory_usage_latest_snapshot option eng" where
  "latest_memory_usage_snapshot env org =
     bindC (getsC s_snapshots) (\<lambda>st.
     case st of
       None \<Rightarrow> ret None
     | Some store \<Rightarrow>
         bindC (on_snapshots store (query_snapshots (env_codec env) \<lparr>sq_org_id = org, sq_created_after = None,
                  sq_created_before = None, sq_limit = 1, sq_cursor = None\<rparr>)) (\<lambda>result.
         ret (case sr_snapshots result of [] \<Rightarrow> None | m # _ \<Rightarrow> Some (latest_snapshot_from m))))"

record org_memory_usage_summary =
  om_total_users :: u64
  om_total_memories :: u64
  om_active_memories :: u64
  om_deleted_memories :: "u64 option"
  om_latest_snapshot :: "memory_usage_latest_snapshot option"

record org_usage_dashboard_output =
  od_org_id :: string
  od_generated_at :: datetime
  od_window_start :: datetime
  od_window_end :: datetime
  od_plan :: "org_plan_config option"
  od_quota :: quota_check_result
  od_memory :: org_memory_usage_summary
  od_provider :: provider_usage_summary

definition get_org_usage_dashboard :: "env \<Rightarrow> engine \<Rightarrow> string \<Rightarrow> datetime \<Rightarrow> datetime \<Rightarrow> org_usage_dashboard_output eng" where
  "get_org_usage_dashboard env en org created_after created_before =
     seqC (liftR (lift_err (validate_org_id org)))
     (seqC (liftR (lift_err (validate_event_date_range (Some created_after) (Some created_before))))
     (bindC (getsC s_plans) (\<lambda>plans.
      bindC (case plans of
               Some store \<Rightarrow> liftR (lift_err (fst (get_org_plan org store)))
             | None \<Rightarrow> ret None) (\<lambda>plan.
      bindC (engine_get_org_quota_status env en org None) (\<lambda>quota.
      bindC (on_facts (count_facts_by_org org)) (\<lambda>active.
      bindC (latest_memory_usage_snapshot env org) (\<lambda>latest.
      bindC (on_facts (count_users_by_org org)) (\<lambda>users.
      bindC (getsC s_usage) (\<lambda>usage.
      bindC (case usage of
               Some store \<Rightarrow>
                 bindC (on_usage store (query_usage (env_codec env)
                   ((provider_usage_query_new org DEFAULT_PROVIDER_USAGE_LIMIT)
                      \<lparr>uq_created_after := Some created_after, uq_created_before := Some created_before\<rparr>))) (\<lambda>r.
                 ret (ur_summary r))
             | None \<Rightarrow> ret empty_provider_usage_summary) (\<lambda>provider.
      bindC (utc_now env) (\<lambda>now.
      ret \<lparr>od_org_id = org, od_generated_at = now, od_window_start = created_after,
           od_window_end = created_before, od_plan = plan, od_quota = quota,
           od_memory = \<lparr>om_total_users = word_of_nat users, om_total_memories = word_of_nat active,
             om_active_memories = word_of_nat active, om_deleted_memories = None,
             om_latest_snapshot = latest\<rparr>,
           od_provider = provider\<rparr>)))))))))))"

definition get_provider_usage_daily ::
  "provider_usage_daily_query \<Rightarrow> provider_usage_daily_bucket list eng" where
  "get_provider_usage_daily q =
     seqC (liftR (lift_err (validate_org_id (dq_org_id q))))
     (seqC (liftR (lift_err (validate_event_date_range (Some (dq_created_after q)) (Some (dq_created_before q)))))
     (bindC (getsC s_usage) (\<lambda>usage.
      case usage of
        Some store \<Rightarrow> on_usage store (query_usage_daily q)
      | None \<Rightarrow> ret [])))"

end
