(* ===== verification/Engine_Inv.thy ===== *)
theory Engine_Inv
  imports Engine_Admin
begin

text \<open>
  What every operation of the engine keeps, on every path. \<open>sys_inv\<close> is the invariant of the state:
  the stores are well-formed, every stored fact satisfies \<open>Fact::new\<close>'s checks, and the semantic index
  holds no record whose fact is gone or says something else. \<open>iso\<close> is the invariant together with
  the frame of a request of tenant \<open>t\<close> that started in \<open>s0\<close>: nothing of another tenant has changed.

  Within an operation the index lags behind the facts for a while; the set \<open>S\<close> names the facts of \<open>t\<close>
  that are excepted meanwhile, and each step says how \<open>S\<close> changes.

  Identifiers are drawn from a finite type, so they cannot all differ. Freshness is asked up to
  a horizon: as long as the tick has not passed \<open>hi\<close>, the identifiers drawn before \<open>hi\<close> are distinct and
  not yet in the index.
\<close>

section \<open>The invariant\<close>

definition record_agrees :: "vector_record \<Rightarrow> fact \<Rightarrow> bool" where
  "record_agrees r f \<longleftrightarrow> v_content r = f_content f \<and> v_memory_type r = f_memory_type f \<and> v_metadata r = f_metadata f"

definition indexed :: "uuid set \<Rightarrow> tenant_context \<Rightarrow> mock_fact_store \<Rightarrow> mock_vector_store \<Rightarrow> bool" where
  "indexed S t fs vs \<longleftrightarrow> (\<forall>t' r. r \<in> tenant_vectors vs t' \<longrightarrow> (t' = t \<and> v_fact_id r \<in> S) \<or>
     (\<exists>f. active_facts fs t' (v_fact_id r) = Some f \<and> record_agrees r f))"

definition facts_valid :: "mock_fact_store \<Rightarrow> bool" where
  "facts_valid fs \<longleftrightarrow> (\<forall>i f. map_of (fs_facts fs) i = Some f \<longrightarrow> fact_valid f)"

definition stores_wf :: "sys \<Rightarrow> bool" where
  "stores_wf s \<longleftrightarrow> fs_wf (s_facts s) \<and> vs_wf (s_vectors s) \<and> ca_wf (s_cache s) \<and> facts_valid (s_facts s)"

definition sys_inv :: "sys \<Rightarrow> bool" where
  "sys_inv s \<longleftrightarrow> stores_wf s \<and> (\<forall>t r. r \<in> tenant_vectors (s_vectors s) t \<longrightarrow>
     (\<exists>f. active_facts (s_facts s) t (v_fact_id r) = Some f \<and> record_agrees r f))"

section \<open>The frame of a request\<close>

definition sys_log :: "sys \<Rightarrow> tenant_context \<Rightarrow> memory_event list" where
  "sys_log s t = (case s_events s of None \<Rightarrow> [] | Some es \<Rightarrow> tenant_log es t)"

definition frame :: "tenant_context \<Rightarrow> sys \<Rightarrow> sys \<Rightarrow> bool" where
  "frame t s0 s \<longleftrightarrow>
     (\<forall>t'. t' \<noteq> t \<longrightarrow> active_facts (s_facts s) t' = active_facts (s_facts s0) t' \<and> sys_log s t' = sys_log s0 t') \<and>
     (\<forall>k e. \<not> key_of_tenant t k \<longrightarrow> cache_lookup (s_cache s) k = Some e \<longrightarrow> cache_lookup (s_cache s0) k = Some e) \<and>
     s_usage s = s_usage s0 \<and> s_plans s = s_plans s0 \<and> s_snapshots s = s_snapshots s0"

definition fresh_ids :: "env \<Rightarrow> nat \<Rightarrow> sys \<Rightarrow> bool" where
  "fresh_ids env hi s \<longleftrightarrow> inj_on (env_new_v4 env) {s_tick s..<hi} \<and>
     (\<forall>n. s_tick s \<le> n \<longrightarrow> n < hi \<longrightarrow> map_of (vs_records (s_vectors s)) (env_new_v4 env n) = None)"

definition vec_frame :: "env \<Rightarrow> nat \<Rightarrow> tenant_context \<Rightarrow> sys \<Rightarrow> sys \<Rightarrow> bool" where
  "vec_frame env hi t s0 s \<longleftrightarrow> s_tick s \<le> hi \<longrightarrow> fresh_ids env hi s \<and>
     (\<forall>t'. t' \<noteq> t \<longrightarrow> tenant_vectors (s_vectors s) t' = tenant_vectors (s_vectors s0) t')"

definition iso :: "env \<Rightarrow> nat \<Rightarrow> tenant_context \<Rightarrow> sys \<Rightarrow> uuid set \<Rightarrow> sys \<Rightarrow> bool" where
  "iso env hi t s0 S s \<longleftrightarrow> stores_wf s \<and> indexed S t (s_facts s) (s_vectors s) \<and> frame t s0 s \<and> vec_frame env hi t s0 s"

lemma sys_inv_iff: "sys_inv s \<longleftrightarrow> stores_wf s \<and> indexed {} t (s_facts s) (s_vectors s)"
  by (simp add: sys_inv_def indexed_def)

lemma iso_sys_inv: "iso env hi t s0 {} s \<Longrightarrow> sys_inv s"
  by (simp add: iso_def sys_inv_iff [of _ t])

lemma frame_refl [simp]: "frame t s s"
  by (simp add: frame_def)

lemma iso_start: "sys_inv s \<Longrightarrow> fresh_ids env hi s \<Longrightarrow> iso env hi t s {} s"
  by (simp add: iso_def sys_inv_iff [of _ t] vec_frame_def)

text \<open>Below the current tick nothing is asked, so the invariant alone is a special case.\<close>

lemma fresh_ids_0 [simp]: "fresh_ids env 0 s"
  by (simp add: fresh_ids_def)

lemma indexed_mono: "indexed S t fs vs \<Longrightarrow> S \<subseteq> S' \<Longrightarrow> indexed S' t fs vs"
  by (fastforce simp: indexed_def)

section \<open>Steps that touch no tenant's data\<close>

lemma fresh_ids_tick: "fresh_ids env hi s \<Longrightarrow> fresh_ids env hi (s\<lparr>s_tick := Suc (s_tick s)\<rparr>)"
  unfolding fresh_ids_def by (auto elim: inj_on_subset)

lemma iso_tick: "iso env hi t s0 S s \<Longrightarrow> iso env hi t s0 S (s\<lparr>s_tick := Suc (s_tick s)\<rparr>)"
  by (auto simp: iso_def stores_wf_def frame_def vec_frame_def sys_log_def fresh_ids_tick)

lemma iso_other_fields:
  "iso env hi t s0 S (s\<lparr>s_metrics := m\<rparr>) = iso env hi t s0 S s"
  "iso env hi t s0 S (s\<lparr>s_usage_attribution := a\<rparr>) = iso env hi t s0 S s"
  "iso env hi t s0 S (s\<lparr>s_inflight := k\<rparr>) = iso env hi t s0 S s"
  "iso env hi t s0 S (s\<lparr>s_refresh_inflight := k\<rparr>) = iso env hi t s0 S s"
  by (simp_all add: iso_def stores_wf_def frame_def vec_frame_def sys_log_def fresh_ids_def)

text \<open>A predicate on the facts may ride along with steps that do not touch them.\<close>

lemma iso_with_facts_tick [pres_intro]: "preserves (\<lambda>s. iso env hi t s0 S s \<and> Q (s_facts s)) (tick f)"
  by (rule preservesI) (simp add: tick_def iso_tick)

lemma iso_tick_pres [pres_intro]: "preserves (iso env hi t s0 S) (tick f)"
  by (rule preservesI) (simp add: tick_def iso_tick)

lemma iso_new_v4 [pres_intro]: "preserves (iso env hi t s0 S) (new_v4 env')"
  unfolding new_v4_def by (rule pres_intro)

lemma iso_utc_now [pres_intro]: "preserves (iso env hi t s0 S) (utc_now env')"
  unfolding utc_now_def by (rule pres_intro)

lemma iso_providers [pres_intro]:
  "preserves (iso env hi t s0 S) (embed_text env' text)"
  "preserves (iso env hi t s0 S) (extract_facts env' t' ms md)"
  "preserves (iso env hi t s0 S) (classify_fact_operation env' t' c fs)"
  "preserves (iso env hi t s0 S) (summarize_memory env' t' fs n)"
  unfolding embed_text_def extract_facts_def classify_fact_operation_def summarize_memory_def
  by (intro pres_intro)+

lemma iso_on_metrics [pres_intro]: "preserves (iso env hi t s0 S) (on_metrics f)"
  unfolding on_metrics_def by (intro pres_intro) (simp add: iso_other_fields)

lemma iso_bind_usage [pres_intro]: "preserves (iso env hi t s0 S) (bind_usage_attribution t')"
  unfolding bind_usage_attribution_def by (intro pres_intro) (simp add: iso_other_fields)

lemma iso_coordinator_sets [pres_intro]:
  "preserves (iso env hi t s0 S) (lock_for_key k)"
  "preserves (iso env hi t s0 S) (cleanup_inflight_lock k)"
  "preserves (iso env hi t s0 S) (finish_refresh k)"
  unfolding lock_for_key_def cleanup_inflight_lock_def finish_refresh_def
  by (intro pres_intro; simp add: iso_other_fields)+

lemma iso_try_start_refresh [pres_intro]: "preserves (iso env hi t s0 S) (try_start_refresh k)"
  by (rule preservesI) (simp add: try_start_refresh_def iso_other_fields)

lemma preserves_catch_err [pres_intro]: "preserves P m \<Longrightarrow> preserves P (catch_err m)"
  by (auto simp: preserves_def catch_err_def split: prod.splits sum.splits fault.splits)

lemma spec_catch_err [spec_intro]:
  "spec P m (\<lambda>_. Q) Q \<Longrightarrow> spec P (catch_err m) (\<lambda>_. Q) Q"
  by (fastforce simp: spec_def catch_err_def split: prod.splits sum.splits fault.splits)

text \<open>Reads.\<close>

lemma sys_eta [simp]:
  "s\<lparr>s_facts := s_facts s\<rparr> = s" "s\<lparr>s_vectors := s_vectors s\<rparr> = s" "s\<lparr>s_events := s_events s\<rparr> = s"
  by simp_all

lemma on_facts_snd: "snd (on_facts oper s) = s\<lparr>s_facts := snd (oper (s_facts s))\<rparr>"
  by (simp add: on_facts_def split: prod.split)

lemma on_vectors_snd: "snd (on_vectors oper s) = s\<lparr>s_vectors := snd (oper (s_vectors s))\<rparr>"
  by (simp add: on_vectors_def split: prod.split)

lemma on_cache_snd: "snd (on_cache oper s) = s\<lparr>s_cache := snd (oper (s_cache s))\<rparr>"
  by (simp add: on_cache_def split: prod.split)

lemma on_events_snd: "snd (on_events store oper s) = s\<lparr>s_events := Some (snd (oper store))\<rparr>"
  by (simp add: on_events_def split: prod.split)

lemmas on_snd = on_facts_snd on_vectors_snd on_cache_snd on_events_snd

lemma preserves_on_facts_read: "(\<And>x. snd (oper x) = x) \<Longrightarrow> preserves P (on_facts oper)"
  by (simp add: preserves_def on_snd)

lemma preserves_on_vectors_read: "(\<And>x. snd (oper x) = x) \<Longrightarrow> preserves P (on_vectors oper)"
  by (simp add: preserves_def on_snd)

lemma fact_reads [simp]:
  "snd (get_fact t i x) = x" "snd (search_facts q x) = x" "snd (count_facts_by_org org x) = x"
  "snd (count_users_by_org org x) = x" "snd (list_users_by_org m uq x) = x"
  "snd (find_existing_facts_for_dedup t mt x) = x" "snd (find_related_facts t c x) = x"
  by (simp_all add: get_fact_def search_facts_def count_facts_by_org_def count_users_by_org_def
      list_users_by_org_def find_existing_facts_for_dedup_def find_related_facts_def split: option.split)

lemma vector_reads [simp]:
  "snd (search_vectors q x) = x" "snd (detect_embedding_duplicate fmt t mt e c x) = x"
  by (simp_all add: search_vectors_def detect_embedding_duplicate_def bindC_def split: option.split)

lemma fact_read_pres [pres_intro]:
  "preserves P (on_facts (get_fact t i))" "preserves P (on_facts (search_facts q))"
  "preserves P (on_facts (count_facts_by_org org))" "preserves P (on_facts (count_users_by_org org))"
  "preserves P (on_facts (list_users_by_org m uq))"
  "preserves P (on_facts (find_existing_facts_for_dedup t mt))" "preserves P (on_facts (find_related_facts t c))"
  by (simp_all add: preserves_on_facts_read)

lemma vector_read_pres [pres_intro]:
  "preserves P (on_vectors (search_vectors vq))"
  "preserves P (on_vectors (detect_embedding_duplicate fmt t mt e c))"
  by (simp_all add: preserves_on_vectors_read)


section \<open>Steps on a tenant's data\<close>

lemma iso_facts_step:
  assumes "iso env hi t s0 S s" and "fs_wf x" and "facts_valid x"
    and "\<And>t'. t' \<noteq> t \<Longrightarrow> active_facts x t' = active_facts (s_facts s) t'"
    and "indexed S' t x (s_vectors s)"
  shows "iso env hi t s0 S' (s\<lparr>s_facts := x\<rparr>)"
  using assms by (simp add: iso_def stores_wf_def frame_def vec_frame_def sys_log_def fresh_ids_def)

lemma iso_vectors_step:
  assumes "iso env hi t s0 S s" and "vs_wf x" and "indexed S' t (s_facts s) x"
    and "s_tick s \<le> hi \<Longrightarrow> fresh_ids env hi (s\<lparr>s_vectors := x\<rparr>) \<and>
      (\<forall>t'. t' \<noteq> t \<longrightarrow> tenant_vectors x t' = tenant_vectors (s_vectors s) t')"
  shows "iso env hi t s0 S' (s\<lparr>s_vectors := x\<rparr>)"
  using assms by (simp add: iso_def stores_wf_def frame_def vec_frame_def sys_log_def)

lemma iso_fs_wf: "iso env hi t s0 S s \<Longrightarrow> fs_wf (s_facts s)"
  and iso_vs_wf: "iso env hi t s0 S s \<Longrightarrow> vs_wf (s_vectors s)"
  and iso_facts_valid: "iso env hi t s0 S s \<Longrightarrow> facts_valid (s_facts s)"
  and iso_ca_wf: "iso env hi t s0 S s \<Longrightarrow> ca_wf (s_cache s)"
  and iso_indexed: "iso env hi t s0 S s \<Longrightarrow> indexed S t (s_facts s) (s_vectors s)"
  by (simp_all add: iso_def stores_wf_def)

lemmas iso_parts = iso_fs_wf iso_vs_wf iso_facts_valid iso_ca_wf iso_indexed

text \<open>A step on the facts keeps the index when it only adds active facts, and when it changes or
  removes active facts that are excepted.\<close>

lemma indexed_facts_step:
  assumes "indexed S t x vs"
    and "\<And>t'. t' \<noteq> t \<Longrightarrow> active_facts y t' = active_facts x t'"
    and "\<And>i. i \<notin> S' \<Longrightarrow> active_facts x t i \<noteq> None \<Longrightarrow> active_facts y t i = active_facts x t i"
    and "S \<subseteq> S'"
  shows "indexed S' t y vs"
  unfolding indexed_def
proof (intro allI impI)
  fix t' r assume r: "r \<in> tenant_vectors vs t'"
  with assms(1) consider "t' = t" "v_fact_id r \<in> S"
    | f where "active_facts x t' (v_fact_id r) = Some f" "record_agrees r f"
    unfolding indexed_def by blast
  then show "t' = t \<and> v_fact_id r \<in> S' \<or> (\<exists>f. active_facts y t' (v_fact_id r) = Some f \<and> record_agrees r f)"
    by cases (use assms(2-4) in \<open>cases "t' = t"; fastforce\<close>)+
qed

lemma spec_on_facts:
  "(\<And>s. P s \<Longrightarrow> (case oper (s_facts s) of (Inr a, x) \<Rightarrow> Q a (s\<lparr>s_facts := x\<rparr>) | (Inl e, x) \<Rightarrow> E (s\<lparr>s_facts := x\<rparr>))) \<Longrightarrow>
     spec P (on_facts oper) Q E"
  by (fastforce simp: spec_def on_facts_def lift_err_def split: prod.splits sum.splits)

lemma spec_on_vectors:
  "(\<And>s. P s \<Longrightarrow> (case oper (s_vectors s) of (Inr a, x) \<Rightarrow> Q a (s\<lparr>s_vectors := x\<rparr>) | (Inl e, x) \<Rightarrow> E (s\<lparr>s_vectors := x\<rparr>))) \<Longrightarrow>
     spec P (on_vectors oper) Q E"
  by (fastforce simp: spec_def on_vectors_def lift_err_def split: prod.splits sum.splits)

lemma spec_get_fact:
  "spec (iso env hi t s0 S) (on_facts (get_fact t i))
     (\<lambda>r s. iso env hi t s0 S s \<and> (\<forall>f. r = Some f \<longrightarrow> active_facts (s_facts s) t i = Some f)) E"
  by (rule spec_on_facts) (auto simp: get_fact_def active_facts_def split: option.splits)

lemma facts_valid_update:
  "facts_valid x \<Longrightarrow> fact_valid f \<Longrightarrow> facts_valid (x\<lparr>fs_facts := AList.update i f (fs_facts x)\<rparr>)"
  by (auto simp: facts_valid_def update_conv' split: if_splits)

lemma facts_valid_insert: "facts_valid x \<Longrightarrow> fact_valid f \<Longrightarrow> facts_valid (snd (insert_fact t f x))"
  by (simp add: insert_fact_def facts_valid_update split: sum.split)

lemma facts_valid_update_fact: "facts_valid x \<Longrightarrow> fact_valid f \<Longrightarrow> facts_valid (snd (update_fact t f x))"
  by (simp add: update_fact_def facts_valid_update split: sum.split option.split)

lemma spec_insert_fact:
  assumes "fact_valid f"
  shows "spec (iso env hi t s0 {}) (on_facts (insert_fact t f))
     (\<lambda>f' s. f' = f \<and> iso env hi t s0 {} s \<and> active_facts (s_facts s) t (f_id f) = Some f) (iso env hi t s0 {})"
proof (rule spec_on_facts)
  fix s assume I: "iso env hi t s0 {} s"
  show "case insert_fact t f (s_facts s) of
      (Inr a, x) \<Rightarrow> a = f \<and> iso env hi t s0 {} (s\<lparr>s_facts := x\<rparr>) \<and>
        active_facts (s_facts (s\<lparr>s_facts := x\<rparr>)) t (f_id f) = Some f
    | (Inl e, x) \<Rightarrow> iso env hi t s0 {} (s\<lparr>s_facts := x\<rparr>)"
  proof (cases "insert_fact t f (s_facts s)")
    case (Pair r x)
    have wf: "fs_wf x" and val: "facts_valid x"
      using fs_wf_insert_fact [OF iso_fs_wf [OF I], of t f]
        facts_valid_insert [OF iso_facts_valid [OF I] assms, of t] Pair by simp_all
    show ?thesis
    proof (cases r)
      case (Inl e)
      then have "x = s_facts s" using Pair by (auto simp: insert_fact_def split: sum.splits if_splits)
      with Pair Inl I show ?thesis by simp
    next
      case (Inr f')
      note v = insert_fact_view [OF iso_fs_wf [OF I] Pair [unfolded Inr]]
      have "indexed {} t x (s_vectors s)"
        by (rule indexed_facts_step [OF iso_indexed [OF I]]) (use v in auto)
      with I wf val v have "iso env hi t s0 {} (s\<lparr>s_facts := x\<rparr>)"
        by (intro iso_facts_step [OF I]) auto
      with Pair Inr v show ?thesis by simp
    qed
  qed
qed

lemma spec_update_fact:
  assumes "fact_valid f"
  shows "spec (\<lambda>s. iso env hi t s0 {} s \<and> active_facts (s_facts s) t (f_id f) \<noteq> None) (on_facts (update_fact t f))
     (\<lambda>f' s. f' = f \<and> iso env hi t s0 {f_id f} s \<and> active_facts (s_facts s) t (f_id f) = Some f) (iso env hi t s0 {})"
proof (rule spec_on_facts)
  fix s assume "iso env hi t s0 {} s \<and> active_facts (s_facts s) t (f_id f) \<noteq> None"
  then have I: "iso env hi t s0 {} s" and act: "active_facts (s_facts s) t (f_id f) \<noteq> None" by simp_all
  show "case update_fact t f (s_facts s) of
      (Inr a, x) \<Rightarrow> a = f \<and> iso env hi t s0 {f_id f} (s\<lparr>s_facts := x\<rparr>) \<and>
        active_facts (s_facts (s\<lparr>s_facts := x\<rparr>)) t (f_id f) = Some f
    | (Inl e, x) \<Rightarrow> iso env hi t s0 {} (s\<lparr>s_facts := x\<rparr>)"
  proof (cases "update_fact t f (s_facts s)")
    case (Pair r x)
    have wf: "fs_wf x" and val: "facts_valid x"
      using fs_wf_update_fact [OF iso_fs_wf [OF I], of t f]
        facts_valid_update_fact [OF iso_facts_valid [OF I] assms, of t] Pair by simp_all
    show ?thesis
    proof (cases r)
      case (Inl e)
      then have "x = s_facts s" using Pair by (auto simp: update_fact_def split: sum.splits if_splits option.splits)
      with Pair Inl I show ?thesis by simp
    next
      case (Inr f')
      note v = update_fact_view [OF iso_fs_wf [OF I] Pair [unfolded Inr]]
      have "indexed {f_id f} t x (s_vectors s)"
        by (rule indexed_facts_step [OF iso_indexed [OF I]]) (use v act in auto)
      with I wf val v act have "iso env hi t s0 {f_id f} (s\<lparr>s_facts := x\<rparr>)"
        by (intro iso_facts_step [OF I]) auto
      with Pair Inr v act show ?thesis by simp
    qed
  qed
qed


text \<open>Removals: the facts removed become exceptions until their records are gone.\<close>

lemma facts_valid_deleted: "facts_valid (x\<lparr>fs_deleted := d\<rparr>) = facts_valid x"
  by (simp add: facts_valid_def)

lemma iso_facts_removed:
  assumes I: "iso env hi t s0 S s" and "fs_wf x" and "facts_valid x"
    and view: "active_facts x = (active_facts (s_facts s))(t := (active_facts (s_facts s) t) |` (- D))"
  shows "iso env hi t s0 (S \<union> D) (s\<lparr>s_facts := x\<rparr>)"
proof (rule iso_facts_step [OF I assms(2,3)])
  show "active_facts x t' = active_facts (s_facts s) t'" if "t' \<noteq> t" for t'
    using that by (simp add: view)
  show "indexed (S \<union> D) t x (s_vectors s)"
    by (rule indexed_facts_step [OF iso_indexed [OF I]]) (auto simp: view)
qed

lemma spec_soft_delete_fact:
  "spec (iso env hi t s0 {}) (on_facts (soft_delete_fact t i)) (\<lambda>_. iso env hi t s0 {i}) (iso env hi t s0 {})"
proof (rule spec_on_facts)
  fix s assume I: "iso env hi t s0 {} s"
  show "case soft_delete_fact t i (s_facts s) of (Inr a, x) \<Rightarrow> iso env hi t s0 {i} (s\<lparr>s_facts := x\<rparr>)
    | (Inl e, x) \<Rightarrow> iso env hi t s0 {} (s\<lparr>s_facts := x\<rparr>)"
  proof (cases "soft_delete_fact t i (s_facts s)")
    case (Pair r x)
    have wf: "fs_wf x" using fs_wf_soft_delete_fact [OF iso_fs_wf [OF I], of t i] Pair by simp
    have val: "facts_valid x"
      using Pair iso_facts_valid [OF I]
      by (auto simp: soft_delete_fact_def facts_valid_deleted split: option.splits if_splits)
    show ?thesis
    proof (cases r)
      case (Inl e)
      then have "x = s_facts s" using Pair by (auto simp: soft_delete_fact_def split: option.splits if_splits)
      with Pair Inl I show ?thesis by simp
    next
      case (Inr u)
      have "active_facts x = (active_facts (s_facts s))(t := (active_facts (s_facts s) t) |` (- {i}))"
        using soft_delete_fact_view [OF iso_fs_wf [OF I] Pair [unfolded Inr]]
        by (simp add: restrict_complement_singleton_eq)
      from iso_facts_removed [OF I wf val this] Pair Inr show ?thesis by simp
    qed
  qed
qed

lemma spec_delete_facts_older_than:
  "spec (iso env hi t s0 {}) (on_facts (delete_facts_older_than t c d))
     (\<lambda>r s. iso env hi t s0 (set (prune_fact_ids r)) s \<and> (d \<longrightarrow> prune_fact_ids r = [])) (iso env hi t s0 {})"
proof (rule spec_on_facts)
  fix s assume I: "iso env hi t s0 {} s"
  obtain r x where rx: "delete_facts_older_than t c d (s_facts s) = (Inr r, x)"
    and dry: "d \<Longrightarrow> x = s_facts s \<and> prune_fact_ids r = []"
    and wet: "\<not> d \<Longrightarrow> active_facts x = (active_facts (s_facts s))
       (t := (active_facts (s_facts s) t) |` (- set (prune_fact_ids r)))"
    using delete_facts_older_than_view [OF iso_fs_wf [OF I], of t c d] by blast
  have wf: "fs_wf x" using fs_wf_delete_facts_older_than [OF iso_fs_wf [OF I], of t c d] rx by simp
  have val: "facts_valid x"
    using rx iso_facts_valid [OF I]
    by (auto simp: delete_facts_older_than_def Let_def facts_valid_deleted split: if_splits)
  show "case delete_facts_older_than t c d (s_facts s) of
      (Inr r, x) \<Rightarrow> iso env hi t s0 (set (prune_fact_ids r)) (s\<lparr>s_facts := x\<rparr>) \<and> (d \<longrightarrow> prune_fact_ids r = [])
    | (Inl e, x) \<Rightarrow> iso env hi t s0 {} (s\<lparr>s_facts := x\<rparr>)"
  proof (cases d)
    case True
    with dry rx I show ?thesis by simp
  next
    case False
    from iso_facts_removed [OF I wf val wet [OF False]] rx False show ?thesis by simp
  qed
qed

lemma spec_delete_user_data:
  "spec (iso env hi t s0 {}) (on_facts (delete_user_data t)) (\<lambda>_. iso env hi t s0 UNIV) (iso env hi t s0 {})"
proof (rule spec_on_facts)
  fix s assume I: "iso env hi t s0 {} s"
  obtain x where x: "delete_user_data t (s_facts s) = (Inr (), x)"
    and view: "active_facts x = (active_facts (s_facts s))(t := Map.empty)"
    using delete_user_data_view [OF iso_fs_wf [OF I]] by blast
  have wf: "fs_wf x" using fs_wf_delete_user_data [OF iso_fs_wf [OF I], of t] x by simp
  have val: "facts_valid x"
    using x iso_facts_valid [OF I] iso_fs_wf [OF I]
    by (auto simp: delete_user_data_def Let_def facts_valid_def fs_wf_def map_of_hm_retain
        split: option.splits if_splits)
  have "iso env hi t s0 ({} \<union> UNIV) (s\<lparr>s_facts := x\<rparr>)"
    by (rule iso_facts_removed [OF I wf val]) (simp add: view)
  with x show "case delete_user_data t (s_facts s) of (Inr a, x) \<Rightarrow> iso env hi t s0 UNIV (s\<lparr>s_facts := x\<rparr>)
    | (Inl e, x) \<Rightarrow> iso env hi t s0 {} (s\<lparr>s_facts := x\<rparr>)" by simp
qed

text \<open>The index catches up.\<close>

lemma fresh_ids_shrink:
  "fresh_ids env hi s \<Longrightarrow> map_of (vs_records x) \<subseteq>\<^sub>m map_of (vs_records (s_vectors s)) \<Longrightarrow>
     fresh_ids env hi (s\<lparr>s_vectors := x\<rparr>)"
  unfolding fresh_ids_def by (simp add: map_le_def) (metis domIff)

lemma retain_map_le: "hm_wf m \<Longrightarrow> map_of (hm_retain p m) \<subseteq>\<^sub>m map_of m"
  by (auto simp: map_le_def map_of_hm_retain split: option.splits if_splits)

lemma iso_vectors_removed:
  assumes I: "iso env hi t s0 S s" and "vs_wf x" and "map_of (vs_records x) \<subseteq>\<^sub>m map_of (vs_records (s_vectors s))"
    and view: "tenant_vectors x = (tenant_vectors (s_vectors s))(t := {r \<in> tenant_vectors (s_vectors s) t. v_fact_id r \<notin> D})"
  shows "iso env hi t s0 (S - D) (s\<lparr>s_vectors := x\<rparr>)"
proof (rule iso_vectors_step [OF I assms(2)])
  show "indexed (S - D) t (s_facts s) x"
    using iso_indexed [OF I] unfolding indexed_def view by (auto split: if_splits)
  assume "s_tick s \<le> hi"
  then have "fresh_ids env hi s" using I by (simp add: iso_def vec_frame_def)
  then show "fresh_ids env hi (s\<lparr>s_vectors := x\<rparr>) \<and> (\<forall>t'. t' \<noteq> t \<longrightarrow> tenant_vectors x t' = tenant_vectors (s_vectors s) t')"
    by (simp add: fresh_ids_shrink assms(3) view)
qed

lemma iso_delete_by_fact_id:
  assumes I: "iso env hi t s0 S s"
  shows "iso env hi t s0 (S - {i}) (s\<lparr>s_vectors := snd (delete_by_fact_id t i (s_vectors s))\<rparr>)"
proof (rule iso_vectors_removed [OF I])
  show "vs_wf (snd (delete_by_fact_id t i (s_vectors s)))"
    by (rule preservesD [OF mock_vectors.invar_del_fact iso_vs_wf [OF I]])
  show "map_of (vs_records (snd (delete_by_fact_id t i (s_vectors s)))) \<subseteq>\<^sub>m map_of (vs_records (s_vectors s))"
    using iso_vs_wf [OF I] by (simp add: delete_by_fact_id_def Let_def retain_map_le vs_wf_def)
  show "tenant_vectors (snd (delete_by_fact_id t i (s_vectors s))) = (tenant_vectors (s_vectors s))
      (t := {r \<in> tenant_vectors (s_vectors s) t. v_fact_id r \<notin> {i}})"
    using mock_vectors.del_fact_view [OF iso_vs_wf [OF I]] by simp
qed

lemma spec_delete_by_fact_id:
  "spec (\<lambda>s. iso env hi t s0 S s \<and> Q (s_facts s)) (on_vectors (delete_by_fact_id t i))
     (\<lambda>_ s. iso env hi t s0 (S - {i}) s \<and> Q (s_facts s)) (\<lambda>s. iso env hi t s0 (S - {i}) s \<and> Q (s_facts s))"
proof (rule spec_on_vectors)
  fix s assume "iso env hi t s0 S s \<and> Q (s_facts s)"
  then show "case delete_by_fact_id t i (s_vectors s) of
      (Inr a, x) \<Rightarrow> iso env hi t s0 (S - {i}) (s\<lparr>s_vectors := x\<rparr>) \<and> Q (s_facts (s\<lparr>s_vectors := x\<rparr>))
    | (Inl e, x) \<Rightarrow> iso env hi t s0 (S - {i}) (s\<lparr>s_vectors := x\<rparr>) \<and> Q (s_facts (s\<lparr>s_vectors := x\<rparr>))"
    using iso_delete_by_fact_id [of env hi t s0 S s i] by (auto split: prod.split sum.split)
qed

lemma spec_delete_fact_vectors:
  "spec (\<lambda>s. iso env hi t s0 S s \<and> Q (s_facts s)) (delete_fact_vectors t i)
     (\<lambda>_ s. iso env hi t s0 (S - {i}) s \<and> Q (s_facts s)) (\<lambda>s. iso env hi t s0 (S - {i}) s \<and> Q (s_facts s))"
  unfolding delete_fact_vectors_def
  by (rule spec_bindC [OF spec_catch_err [OF spec_delete_by_fact_id]]) (intro spec_intro)

lemma spec_delete_by_user:
  "spec (iso env hi t s0 S) (on_vectors (delete_by_user t)) (\<lambda>_. iso env hi t s0 {}) (iso env hi t s0 {})"
proof (rule spec_on_vectors)
  fix s assume I: "iso env hi t s0 S s"
  obtain x where x: "delete_by_user t (s_vectors s) = (Inr (), x)"
    and view: "tenant_vectors x = (tenant_vectors (s_vectors s))(t := {})"
    using mock_vectors.del_user_view [OF iso_vs_wf [OF I]] by blast
  have "vs_wf x" using preservesD [OF mock_vectors.invar_del_user iso_vs_wf [OF I], of t] x by simp
  moreover have "map_of (vs_records x) \<subseteq>\<^sub>m map_of (vs_records (s_vectors s))"
    using iso_vs_wf [OF I] x by (auto simp: delete_by_user_def retain_map_le vs_wf_def)
  ultimately have "iso env hi t s0 (S - UNIV) (s\<lparr>s_vectors := x\<rparr>)"
    by (rule iso_vectors_removed [OF I]) (simp add: view)
  with x show "case delete_by_user t (s_vectors s) of (Inr a, x) \<Rightarrow> iso env hi t s0 {} (s\<lparr>s_vectors := x\<rparr>)
    | (Inl e, x) \<Rightarrow> iso env hi t s0 {} (s\<lparr>s_vectors := x\<rparr>)" by simp
qed


text \<open>A new record: its identifier has just been drawn.\<close>

definition unused :: "env \<Rightarrow> nat \<Rightarrow> uuid \<Rightarrow> sys \<Rightarrow> bool" where
  "unused env hi i s \<longleftrightarrow> s_tick s \<le> hi \<longrightarrow> map_of (vs_records (s_vectors s)) i = None \<and>
     i \<notin> env_new_v4 env ` {s_tick s..<hi}"

lemma spec_new_v4:
  "spec (\<lambda>s. iso env hi t s0 S s \<and> Q (s_facts s)) (new_v4 env)
     (\<lambda>i s. iso env hi t s0 S s \<and> Q (s_facts s) \<and> unused env hi i s) E"
proof (rule specI)
  fix s i s' assume s: "iso env hi t s0 S s \<and> Q (s_facts s)" and run: "new_v4 env s = (Inr i, s')"
  from run have i: "i = env_new_v4 env (s_tick s)" and s': "s' = s\<lparr>s_tick := Suc (s_tick s)\<rparr>"
    by (simp_all add: new_v4_def tick_def)
  have "unused env hi i s'"
    unfolding unused_def
  proof
    assume "s_tick s' \<le> hi"
    then have le: "Suc (s_tick s) \<le> hi" by (simp add: s')
    with s have f: "fresh_ids env hi s" by (simp add: iso_def vec_frame_def)
    then have inj: "inj_on (env_new_v4 env) {s_tick s..<hi}" by (simp add: fresh_ids_def)
    have "i \<notin> env_new_v4 env ` {Suc (s_tick s)..<hi}"
    proof
      assume "i \<in> env_new_v4 env ` {Suc (s_tick s)..<hi}"
      then obtain n where n: "Suc (s_tick s) \<le> n" "n < hi" "env_new_v4 env (s_tick s) = env_new_v4 env n"
        by (auto simp: i)
      with inj_onD [OF inj n(3)] le show False by simp
    qed
    with f le show "map_of (vs_records (s_vectors s')) i = None \<and> i \<notin> env_new_v4 env ` {s_tick s'..<hi}"
      by (simp add: s' i fresh_ids_def)
  qed
  with s show "iso env hi t s0 S s' \<and> Q (s_facts s') \<and> unused env hi i s'"
    by (simp add: s' iso_tick)
next
  fix s e s' assume "new_v4 env s = (Inl e, s')"
  then show "E s'" by (simp add: new_v4_def tick_def)
qed

lemma tenant_vectors_upsert_subset:
  "vs_wf x \<Longrightarrow> upsert_vector t r x = (Inr u, y) \<Longrightarrow>
     vs_wf y \<and> (\<forall>t'. tenant_vectors y t' \<subseteq> tenant_vectors x t' \<union> (if t' = t then {r} else {}))"
proof -
  assume wf: "vs_wf x" and up: "upsert_vector t r x = (Inr u, y)"
  then have t: "record_matches_tenant r t" and y: "y = x\<lparr>vs_records := AList.update (v_id r) r (vs_records x)\<rparr>"
    by (auto simp: upsert_vector_def ensure_record_tenant_def split: if_splits)
  have wy: "vs_wf y" using preservesD [OF mock_vectors.invar_upsert wf, of t r] up by simp
  show ?thesis
  proof (intro conjI allI wy)
    fix t' show "tenant_vectors y t' \<subseteq> tenant_vectors x t' \<union> (if t' = t then {r} else {})"
    proof
      fix q assume q: "q \<in> tenant_vectors y t'"
      then have "map_of (vs_records y) (v_id q) = Some q" and qt: "record_matches_tenant q t'"
        using wy by (auto simp: tenant_vectors_def vs_values_iff)
      then have "q = r \<or> map_of (vs_records x) (v_id q) = Some q"
        by (auto simp: y update_conv' split: if_splits)
      then show "q \<in> tenant_vectors x t' \<union> (if t' = t then {r} else {})"
        using qt t wf record_tenant_eqI by (auto simp: tenant_vectors_def vs_values_iff)
    qed
  qed
qed

lemma spec_upsert_vector:
  "spec (\<lambda>s. iso env hi t s0 {} s \<and> active_facts (s_facts s) t (f_id f) = Some f \<and> unused env hi i s)
     (on_vectors (upsert_vector t (vector_record_of i f e))) (\<lambda>_. iso env hi t s0 {}) (iso env hi t s0 {})"
proof (rule spec_on_vectors)
  let ?r = "vector_record_of i f e"
  fix s assume *: "iso env hi t s0 {} s \<and> active_facts (s_facts s) t (f_id f) = Some f \<and> unused env hi i s"
  then have I: "iso env hi t s0 {} s" by simp
  show "case upsert_vector t ?r (s_vectors s) of (Inr a, x) \<Rightarrow> iso env hi t s0 {} (s\<lparr>s_vectors := x\<rparr>)
    | (Inl e, x) \<Rightarrow> iso env hi t s0 {} (s\<lparr>s_vectors := x\<rparr>)"
  proof (cases "upsert_vector t ?r (s_vectors s)")
    case (Pair res x)
    show ?thesis
    proof (cases res)
      case (Inl err)
      then have "x = s_vectors s" using Pair by (auto simp: upsert_vector_def split: sum.splits)
      with Pair Inl I show ?thesis by simp
    next
      case (Inr u)
      note up = tenant_vectors_upsert_subset [OF iso_vs_wf [OF I] Pair [unfolded Inr]]
      have "iso env hi t s0 {} (s\<lparr>s_vectors := x\<rparr>)"
      proof (rule iso_vectors_step [OF I])
        show "vs_wf x" using up by simp
        have "record_agrees ?r f" and "v_fact_id ?r = f_id f"
          by (simp_all add: record_agrees_def vector_record_of_def)
        then show "indexed {} t (s_facts s) x"
          using up iso_indexed [OF I] * unfolding indexed_def by (fastforce split: if_splits)
        assume le: "s_tick s \<le> hi"
        with * have f: "fresh_ids env hi s" and n: "map_of (vs_records (s_vectors s)) i = None"
          and u: "i \<notin> env_new_v4 env ` {s_tick s..<hi}"
          by (simp_all add: iso_def vec_frame_def unused_def)
        have x: "x = (s_vectors s)\<lparr>vs_records := AList.update i ?r (vs_records (s_vectors s))\<rparr>"
          using Pair Inr by (auto simp: upsert_vector_def vector_record_of_def split: sum.splits)
        have "fresh_ids env hi (s\<lparr>s_vectors := x\<rparr>)"
          using f u by (auto simp: fresh_ids_def x update_conv')
        moreover have "tenant_vectors x = (tenant_vectors (s_vectors s))
            (t := insert ?r {q \<in> tenant_vectors (s_vectors s) t. v_id q \<noteq> v_id ?r})"
        proof (rule upsert_vector_view [OF iso_vs_wf [OF I] Pair [unfolded Inr]])
          fix t' q assume "q \<in> tenant_vectors (s_vectors s) t'" and "v_id q = v_id ?r"
          with n iso_vs_wf [OF I] show "t' = t"
            by (simp add: tenant_vectors_def vs_values_iff vector_record_of_def)
        qed
        ultimately show "fresh_ids env hi (s\<lparr>s_vectors := x\<rparr>) \<and>
            (\<forall>t'. t' \<noteq> t \<longrightarrow> tenant_vectors x t' = tenant_vectors (s_vectors s) t')" by simp
      qed
      with Pair Inr show ?thesis by simp
    qed
  qed
qed


section \<open>Steps on the audit log and the cache\<close>

lemma iso_events_step:
  assumes "iso env hi t s0 S s" and "\<And>t'. t' \<noteq> t \<Longrightarrow> sys_log (s\<lparr>s_events := x\<rparr>) t' = sys_log s t'"
  shows "iso env hi t s0 S (s\<lparr>s_events := x\<rparr>)"
  using assms by (simp add: iso_def stores_wf_def frame_def vec_frame_def fresh_ids_def)

lemma sys_log_Some [simp]: "sys_log (s\<lparr>s_events := Some x\<rparr>) t = tenant_log x t"
  by (simp add: sys_log_def)

lemma iso_record_audit [pres_intro]: "preserves (iso env hi t s0 S) (record_audit env' t build)"
  unfolding record_audit_def
proof (intro pres_intro)
  fix i now s assume I: "iso env hi t s0 S s"
  show "iso env hi t s0 S (s\<lparr>s_events := record_event_best_effort t (build i now) (s_events s)\<rparr>)"
  proof (cases "s_events s")
    case None
    then have same: "s\<lparr>s_events := None\<rparr> = s" by simp
    from I show ?thesis by (simp only: None same record_event_best_effort_def option.map)
  next
    case (Some es)
    with I show ?thesis
      by (auto intro!: iso_events_step simp: record_event_best_effort_def mock_events.put_other sys_log_def [of s])
  qed
qed

lemma iso_cache_step:
  assumes I: "iso env hi t s0 S s" and "ca_wf x"
    and "\<And>k e. \<not> key_of_tenant t k \<Longrightarrow> cache_lookup x k = Some e \<Longrightarrow> cache_lookup (s_cache s) k = Some e"
  shows "iso env hi t s0 S (s\<lparr>s_cache := x\<rparr>)"
  using assms by (simp add: iso_def stores_wf_def frame_def vec_frame_def sys_log_def fresh_ids_def)

lemma map_le_Some: "m \<subseteq>\<^sub>m m' \<Longrightarrow> m k = Some v \<Longrightarrow> m' k = Some v"
  by (force simp: map_le_def)

lemma iso_on_cache:
  assumes "\<And>x. ca_wf x \<Longrightarrow> ca_wf (snd (oper x))"
    and "\<And>x k e. ca_wf x \<Longrightarrow> \<not> key_of_tenant t k \<Longrightarrow> cache_lookup (snd (oper x)) k = Some e \<Longrightarrow> cache_lookup x k = Some e"
  shows "preserves (iso env hi t s0 S) (on_cache oper)"
  by (rule preservesI) (simp add: on_snd iso_cache_step assms iso_ca_wf)

lemma iso_cache_reads [pres_intro]:
  "preserves (iso env hi t s0 S) (on_cache (cache_get k now))"
  "preserves (iso env hi t s0 S) (on_cache (cache_get_any k now))"
  "preserves (iso env hi t s0 S) (on_cache (invalidate_user org user))"
proof -
  show "preserves (iso env hi t s0 S) (on_cache (cache_get k now))"
    by (rule iso_on_cache) (auto intro: preservesD [OF mem_cache.invar_get]
        dest: map_le_Some [OF mem_cache.get_lookup])
  show "preserves (iso env hi t s0 S) (on_cache (cache_get_any k now))"
    by (rule iso_on_cache) (auto intro: preservesD [OF mem_cache.invar_get_any]
        dest: map_le_Some [OF mem_cache.get_any_lookup])
  show "preserves (iso env hi t s0 S) (on_cache (invalidate_user org user))"
  proof (rule iso_on_cache)
    fix x k e assume "ca_wf x" and "cache_lookup (snd (invalidate_user org user x)) k = Some e"
    then show "cache_lookup x k = Some e"
      using mem_cache.inval_lookup [of x "\<lparr>tc_org_id = org, tc_user_id = user\<rparr>"]
      by (simp add: restrict_map_def split: if_splits)
  qed (rule preservesD [OF mem_cache.invar_inval])
qed

lemma iso_cache_set:
  "key_of_tenant t k \<Longrightarrow> preserves (iso env hi t s0 S) (on_cache (cache_set k e now))"
proof (rule iso_on_cache)
  fix x k' e' assume k: "key_of_tenant t k" and "ca_wf x" and k': "\<not> key_of_tenant t k'"
    and "cache_lookup (snd (cache_set k e now x)) k' = Some e'"
  moreover have "k' \<noteq> k" using k k' by auto
  ultimately show "cache_lookup x k' = Some e'" by (auto dest: mem_cache.put_other)
qed (rule preservesD [OF mem_cache.invar_put])

lemma iso_coord [pres_intro]:
  "preserves (iso env hi t s0 S) (coord_get env' k)"
  "preserves (iso env hi t s0 S) (coord_get_any env' k)"
  "key_of_tenant t k \<Longrightarrow> preserves (iso env hi t s0 S) (coord_set env' k e)"
  unfolding coord_get_def coord_get_any_def coord_set_def by (intro pres_intro iso_cache_set; assumption?)+

lemma iso_invalidate [pres_intro]: "preserves (iso env hi t s0 S) (invalidate_user_context_cache en t')"
  unfolding invalidate_user_context_cache_def by (intro pres_intro)

lemma iso_get_or_compute [pres_intro]:
  assumes "preserves (iso env hi t s0 S) compute" and "key_of_tenant t k"
  shows "preserves (iso env hi t s0 S) (get_or_compute env' c k compute)"
    and "preserves (iso env hi t s0 S) (refresh_entry env' c k compute)"
  unfolding get_or_compute_def refresh_entry_def compute_with_stampede_def compute_and_store_def
  by (intro pres_intro assms)+

section \<open>The lifecycle\<close>

lemma spec_weaken_facts:
  "spec (\<lambda>s. iso env hi t s0 S s \<and> Q (s_facts s)) m R E \<Longrightarrow> (\<And>s. iso env hi t s0 S s \<Longrightarrow> Q (s_facts s)) \<Longrightarrow>
     spec (iso env hi t s0 S) m R E"
  by (erule spec_pre) simp

lemma preserves_embed_facts: "preserves (\<lambda>s. iso env hi t s0 S s \<and> Q (s_facts s)) (embed_text env' text)"
  unfolding embed_text_def by (intro pres_intro)

lemma spec_embed_facts:
  "spec (\<lambda>s. iso env hi t s0 S s \<and> Q (s_facts s)) (embed_text env' text)
     (\<lambda>_ s. iso env hi t s0 S s \<and> Q (s_facts s)) (iso env hi t s0 S)"
  by (rule preserves_spec [OF preserves_embed_facts]) auto

lemma bindC_ret_assoc: "bindC (bindC m (\<lambda>i. ret (h i))) f = bindC m (\<lambda>i. f (h i))"
  by (rule ext) (simp add: bindC_def split: prod.split sum.split)

lemma spec_upsert_fact_vector:
  "spec (\<lambda>s. iso env hi t s0 {} s \<and> active_facts (s_facts s) t (f_id f) = Some f)
     (upsert_fact_vector env t f precomputed) (\<lambda>_. iso env hi t s0 {}) (iso env hi t s0 {})"
  (is "spec (\<lambda>s. ?I s \<and> ?A s) _ _ _")
proof -
  have emb: "spec (\<lambda>s. ?I s \<and> ?A s)
      (case precomputed of Some embedding \<Rightarrow> ret embedding | None \<Rightarrow> embed_text env (f_content f))
      (\<lambda>_ s. ?I s \<and> ?A s) ?I"
    by (intro spec_intro spec_embed_facts [where Q = "\<lambda>x. active_facts x t (f_id f) = Some f"])
  have rec: "spec (\<lambda>s. ?I s \<and> ?A s) (bindC (vector_record_from_fact env f e) (\<lambda>r. on_vectors (upsert_vector t r)))
      (\<lambda>_. ?I) ?I" for e
    unfolding vector_record_from_fact_def bindC_ret_assoc
    by (rule spec_bindC [OF spec_new_v4 [where Q = "\<lambda>x. active_facts x t (f_id f) = Some f"] spec_upsert_vector])
  show ?thesis
    unfolding upsert_fact_vector_def by (rule spec_bindC [OF emb rec])
qed


lemma candidate_to_fact_valid:
  "spec (iso env hi t s0 S) (candidate_to_fact env t c)
     (\<lambda>f s. iso env hi t s0 S s \<and> fact_valid f \<and> fact_matches_tenant f t) (iso env hi t s0 S)"
proof -
  have new: "spec (iso env hi t s0 S) (liftR (lift_err (fact_new i (tc_org_id t) (tc_user_id t) a b d e f g h j k l m)))
     (\<lambda>f s. iso env hi t s0 S s \<and> fact_valid f \<and> fact_matches_tenant f t) (iso env hi t s0 S)"
    for i a b d e f g h j k l m
    by (rule spec_liftR) (auto simp: result_simps fact_matches_tenant_def dest: fact_new_valid)
  show ?thesis
    unfolding candidate_to_fact_def
    by (rule spec_bindC [OF preserves_spec [OF iso_utc_now] spec_bindC [OF preserves_spec [OF iso_new_v4] new]]) auto
qed

lemma iso_apply_add [pres_intro]: "preserves (iso env hi t s0 {}) (apply_add env t c precomputed)"
  unfolding preserves_iff_spec apply_add_def
proof (rule spec_bindC [OF candidate_to_fact_valid])
  fix f
  show "spec (\<lambda>s. iso env hi t s0 {} s \<and> fact_valid f \<and> fact_matches_tenant f t)
      (bindC (on_facts (insert_fact t f)) (\<lambda>inserted.
         seqC (upsert_fact_vector env t inserted precomputed) (ret (Added inserted))))
      (\<lambda>_. iso env hi t s0 {}) (iso env hi t s0 {})"
  proof (rule spec_pre_const [where A = "fact_valid f"])
    assume "fact_valid f"
    then show ?thesis
      by (intro spec_pre [OF spec_bindC [OF spec_insert_fact]] spec_seqC
          [OF spec_pre [OF spec_upsert_fact_vector]] spec_ret) auto
  qed simp
qed

lemma replace_fact_vector_spec:
  "spec (\<lambda>s. iso env hi t s0 {f_id f} s \<and> active_facts (s_facts s) t (f_id f) = Some f)
     (replace_fact_vector env t f) (\<lambda>_. iso env hi t s0 {}) (iso env hi t s0 {})"
  unfolding replace_fact_vector_def
  by (rule spec_seqC [OF spec_conseq [OF spec_delete_fact_vectors
        [where S = "{f_id f}" and Q = "\<lambda>x. active_facts x t (f_id f) = Some f"]] spec_upsert_fact_vector]) auto



lemma active_id: "iso env hi t s0 S s \<Longrightarrow> active_facts (s_facts s) t' i = Some f \<Longrightarrow> f_id f = i"
  by (auto dest!: iso_fs_wf simp: active_facts_Some fs_wf_def)

lemma spec_get_existing:
  "spec (iso env hi t s0 {}) (bindC (on_facts (get_fact t i)) (\<lambda>found. liftR (ok_or e found)))
     (\<lambda>f s. iso env hi t s0 {} s \<and> active_facts (s_facts s) t i = Some f) (iso env hi t s0 {})"
  by (rule spec_bindC [OF spec_get_fact]) (rule spec_liftR, auto simp: result_simps)

lemma bindC_assoc: "bindC m (\<lambda>a. bindC (f a) g) = bindC (bindC m f) g"
  by (rule ext) (simp add: bindC_def split: prod.split sum.split)

lemma spec_utc_now_facts:
  "spec (\<lambda>s. iso env hi t s0 S s \<and> Q (s_facts s)) (utc_now env')
     (\<lambda>_ s. iso env hi t s0 S s \<and> Q (s_facts s)) (iso env hi t s0 S)"
  unfolding utc_now_def by (rule preserves_spec [OF iso_with_facts_tick]) auto

lemma merge_candidate_spec:
  "spec (\<lambda>s. iso env hi t s0 {} s \<and> active_facts (s_facts s) t i = Some existing)
     (merge_candidate_into_fact env existing c)
     (\<lambda>f s. fact_valid f \<and> iso env hi t s0 {} s \<and> active_facts (s_facts s) t (f_id f) \<noteq> None) (iso env hi t s0 {})"
  unfolding merge_candidate_into_fact_def
proof (rule spec_bindC [OF spec_utc_now_facts [where Q = "\<lambda>x. active_facts x t i = Some existing"]])
  fix now
  show "spec (\<lambda>s. iso env hi t s0 {} s \<and> active_facts (s_facts s) t i = Some existing)
      (liftR (lift_err (fact_new (f_id existing) (f_org_id existing) (f_user_id existing) (c_memory_type c)
        (c_content c) (f_summary existing) (f_source existing) (c_confidence c) (c_importance c) (c_valid_at c)
        (f_invalid_at existing) (f_recorded_at existing) now (c_metadata c))))
     (\<lambda>f s. fact_valid f \<and> iso env hi t s0 {} s \<and> active_facts (s_facts s) t (f_id f) \<noteq> None) (iso env hi t s0 {})"
    by (rule spec_liftR) (auto simp: result_simps dest!: fact_new_valid dest: active_id)
qed

lemma iso_apply_update [pres_intro]: "preserves (iso env hi t s0 {}) (apply_update env t c target)"
  unfolding preserves_iff_spec apply_update_def
proof (subst bindC_assoc, rule spec_bindC [OF spec_get_existing], rule spec_bindC [OF merge_candidate_spec])
  fix existing upd
  show "spec (\<lambda>s. fact_valid upd \<and> iso env hi t s0 {} s \<and> active_facts (s_facts s) t (f_id upd) \<noteq> None)
      (bindC (on_facts (update_fact t upd)) (\<lambda>stored.
         seqC (replace_fact_vector env t stored) (ret (Updated existing stored))))
      (\<lambda>_. iso env hi t s0 {}) (iso env hi t s0 {})"
  proof (rule spec_pre_const [where A = "fact_valid upd"])
    assume "fact_valid upd"
    then show ?thesis
      by (intro spec_pre [OF spec_bindC [OF spec_update_fact]] spec_seqC
          [OF spec_pre [OF replace_fact_vector_spec]] spec_ret) auto
  qed simp
qed

text \<open>Deleting a fact: first the fact, then its records.\<close>

lemma spec_soft_delete_with_vectors:
  assumes "\<And>s. iso env hi t s0 {} s \<Longrightarrow> E s"
  shows "spec (iso env hi t s0 {i}) (delete_fact_vectors t i) (\<lambda>_. iso env hi t s0 {}) E"
  by (rule spec_conseq [OF spec_delete_fact_vectors [where S = "{i}" and Q = "\<lambda>_. True"]]) (auto intro: assms)

lemma iso_apply_delete [pres_intro]: "preserves (iso env hi t s0 {}) (apply_delete t target)"
  unfolding preserves_iff_spec apply_delete_def
  by (subst bindC_assoc, rule spec_bindC [OF spec_get_existing],
      rule spec_pre [OF spec_seqC [OF spec_soft_delete_fact spec_seqC [OF spec_soft_delete_with_vectors spec_ret]]])
    auto

lemma iso_apply_fact_operation [pres_intro]:
  "preserves (iso env hi t s0 {}) (apply_fact_operation env t c d precomputed)"
  unfolding apply_fact_operation_def
  by (rule preserves_bindC [OF preserves_liftR]) (simp split: fact_operation.split add: pres_intro del: ret_apply)

section \<open>The handlers of a tenant\<close>

lemma iso_account_result [pres_intro]:
  "preserves (iso env hi t s0 {}) (account_result env en t md d r acc)"
  unfolding account_result_def audit_noop_def
  by (cases r; simp del: ret_apply; intro pres_intro)

lemma iso_process_candidate [pres_intro]:
  "preserves (iso env hi t s0 {}) (process_candidate env en t md c acc)"
  unfolding process_candidate_def audit_noop_def Let_def
  by (intro pres_intro; simp split: dedup_decision.split option.split del: ret_apply; intro conjI impI allI pres_intro;
      simp split: dedup_decision.split option.split del: ret_apply; intro conjI impI allI pres_intro)

lemma iso_add_memory: "preserves (iso env hi (ai_tenant i) s0 {}) (add_memory env en i)"
  unfolding add_memory_def by (intro pres_intro)


lemma iso_search_memory [pres_intro]: "preserves (iso env hi t s0 S) (search_memory env' en i)"
  unfolding search_memory_def score_candidate_def Let_def by (intro pres_intro)

lemma iso_build_context_uncached [pres_intro]:
  "preserves (iso env hi t s0 S) (build_context_uncached env' en i)"
  unfolding build_context_uncached_def summarize_skipped_memories_def llm_summarize_memories_def
    context_item_to_fact_def Let_def
  by (intro pres_intro)

lemma context_key_tenant: "key_of_tenant (bc_tenant i) (context_key env i)"
  by (simp add: key_of_tenant_def context_key_def build_context_cache_key_def)

lemma iso_build_context:
  "preserves (iso env hi (bc_tenant i) s0 {}) (build_context env' en i)"
  "preserves (iso env hi (bc_tenant i) s0 {}) (refresh_stale_context env' en i)"
  unfolding build_context_def refresh_stale_context_def validate_context_request_def compute_entry_def
  by (intro pres_intro context_key_tenant)+

lemma iso_list_memories: "preserves (iso env hi t s0 {}) (list_memories env' i)"
  unfolding list_memories_def by (intro pres_intro)

lemma iso_delete_memory: "preserves (iso env hi t s0 {}) (delete_memory env' en t i)"
proof -
  have vec: "spec (iso env hi t s0 {i}) (on_vectors (delete_by_fact_id t i)) (\<lambda>_. iso env hi t s0 {}) (iso env hi t s0 {})"
    by (rule spec_conseq [OF spec_delete_by_fact_id [where S = "{i}" and Q = "\<lambda>_. True"]]) auto
  have "spec (iso env hi t s0 {}) (seqC (on_facts (soft_delete_fact t i)) (seqC (on_vectors (delete_by_fact_id t i))
      (seqC (record_audit env' t b) (seqC (invalidate_user_context_cache en t) (ret True)))))
      (\<lambda>_. iso env hi t s0 {}) (iso env hi t s0 {})" for b
    by (rule spec_seqC [OF spec_soft_delete_fact spec_seqC [OF vec]])
      (unfold preserves_iff_spec [symmetric], intro pres_intro)
  then show ?thesis
    unfolding delete_memory_def preserves_iff_spec [symmetric]
    by (intro preserves_seqC [OF preserves_liftR] preserves_bindC [OF fact_read_pres(1)]
        preserves_case_option preserves_throw)
qed

lemma iso_clear_user:
  "preserves (iso env hi t s0 {}) m \<Longrightarrow>
   preserves (iso env hi t s0 {}) (seqC (on_facts (delete_user_data t)) (seqC (on_vectors (delete_by_user t)) m))"
  unfolding preserves_iff_spec by (rule spec_seqC [OF spec_delete_user_data spec_seqC [OF spec_delete_by_user]])

lemma iso_forget_user: "preserves (iso env hi t s0 {}) (forget_user env' en t)"
  unfolding forget_user_def by (intro preserves_seqC preserves_liftR iso_clear_user pres_intro)

text \<open>Operations on an event store that is configured.\<close>

lemma spec_on_events:
  assumes "\<And>x t'. t' \<noteq> t \<Longrightarrow> tenant_log (snd (oper x)) t' = tenant_log x t'"
  shows "spec (\<lambda>s. iso env hi t s0 S s \<and> s_events s = Some store) (on_events store oper)
    (\<lambda>_. iso env hi t s0 S) (iso env hi t s0 S)"
proof -
  have "iso env hi t s0 S (s\<lparr>s_events := Some x\<rparr>)"
    if "iso env hi t s0 S s" and "s_events s = Some store" and "oper store = (r, x)" for s r x
    by (rule iso_events_step [OF that(1)]) (use assms [of _ store] that in \<open>simp add: sys_log_def [of s]\<close>)
  then show ?thesis
    by (auto simp: spec_def on_events_def split: prod.splits sum.splits)
qed

lemma spec_with_events:
  "(\<And>ev. spec (\<lambda>s. iso env hi t s0 S s \<and> s_events s = ev) (f ev) Q (iso env hi t s0 S)) \<Longrightarrow>
     spec (iso env hi t s0 S) (bindC (getsC s_events) f) Q (iso env hi t s0 S)"
  by (rule spec_bindC [OF spec_getsC [where Q = "\<lambda>ev s. iso env hi t s0 S s \<and> s_events s = ev"]]) simp_all

lemma spec_utc_now_events:
  "spec (\<lambda>s. iso env hi t s0 S s \<and> s_events s = ev) (utc_now env')
     (\<lambda>_ s. iso env hi t s0 S s \<and> s_events s = ev) (iso env hi t s0 S)"
  by (rule specI) (auto simp: utc_now_def tick_def iso_tick)

lemma spec_drop_events:
  "preserves (iso env hi t s0 S) m \<Longrightarrow>
     spec (\<lambda>s. iso env hi t s0 S s \<and> s_events s = ev) m (\<lambda>_. iso env hi t s0 S) (iso env hi t s0 S)"
  unfolding preserves_iff_spec by (erule spec_pre) simp

lemma event_reads [simp]: "snd (list_events q x) = x" "snd (list_events_by_org oq x) = x" "snd (count_events_by_org org x) = x"
  by (simp_all add: list_events_def list_events_by_org_def count_events_by_org_def split: sum.split)

lemma spec_guard: "spec P n R E \<Longrightarrow> (\<And>s. P s \<Longrightarrow> E s) \<Longrightarrow> spec P (seqC (liftR r) n) R E"
  by (rule spec_seqC [OF spec_liftR])

lemma iso_with_events:
  "(\<And>ev. spec (\<lambda>s. iso env hi t s0 S s \<and> s_events s = ev) (f ev) (\<lambda>_. iso env hi t s0 S) (iso env hi t s0 S)) \<Longrightarrow>
     preserves (iso env hi t s0 S) (bindC (getsC s_events) f)"
  unfolding preserves_iff_spec by (rule spec_with_events)

lemma iso_list_memory_events: "preserves (iso env hi t s0 {}) (list_memory_events env' i)"
  unfolding list_memory_events_def
  by (rule preserves_seqC [OF preserves_liftR preserves_bindC [OF preserves_liftR preserves_bindC
        [OF preserves_liftR iso_with_events]]], rule spec_case_option)
    (auto intro!: spec_ret spec_guard spec_bindC [OF spec_on_events] spec_liftR simp del: ret_apply liftR_apply)

lemma iso_export_user_data: "preserves (iso env hi t s0 {}) (export_user_data env' t events deleted)"
  unfolding export_user_data_def
proof (rule preserves_seqC [OF preserves_liftR preserves_bindC [OF fact_read_pres(2) iso_with_events]], rule spec_bindC)
  fix ev :: "mock_event_store option"
  show "spec (\<lambda>s. iso env hi t s0 {} s \<and> s_events s = ev)
      (case (events, ev) of
         (True, Some store) \<Rightarrow> on_events store (list_events (memory_event_query_new t EXPORT_EVENTS_LIMIT))
       | _ \<Rightarrow> ret []) (\<lambda>_. iso env hi t s0 {}) (iso env hi t s0 {})"
    by (cases events; cases ev) (auto intro!: spec_ret spec_on_events simp del: ret_apply)
qed (unfold preserves_iff_spec [symmetric], intro pres_intro)

lemma import_insert_spec:
  assumes "fact_valid f"
  shows "spec (iso env hi t s0 {}) (seqC (on_facts (insert_fact t f)) (bindC (embed_text env (f_content f)) (\<lambda>embedding.
      bindC (new_v4 env) (\<lambda>i. seqC (on_vectors (upsert_vector t (vector_record_of i f embedding))) (ret m)))))
      (\<lambda>_. iso env hi t s0 {}) (iso env hi t s0 {})"
proof -
  let ?Q = "\<lambda>x. active_facts x t (f_id f) = Some f"
  have ins: "spec (iso env hi t s0 {}) (on_facts (insert_fact t f)) (\<lambda>_ s. iso env hi t s0 {} s \<and> ?Q (s_facts s))
      (iso env hi t s0 {})"
    by (rule spec_conseq [OF spec_insert_fact [OF assms]]) auto
  have up: "spec (\<lambda>s. iso env hi t s0 {} s \<and> ?Q (s_facts s) \<and> unused env hi i s)
      (seqC (on_vectors (upsert_vector t (vector_record_of i f e))) (ret m)) (\<lambda>_. iso env hi t s0 {}) (iso env hi t s0 {})" for i e
    by (rule spec_seqC [OF spec_upsert_vector spec_ret])
  show ?thesis
    by (rule spec_seqC [OF ins spec_bindC [OF spec_embed_facts [where Q = ?Q] spec_bindC [OF spec_new_v4 [where Q = ?Q] up]]])
qed

lemma iso_import_fact [pres_intro]: "preserves (iso env hi t s0 {}) (import_fact env t mode x n)"
proof -
  have mk: "spec (iso env hi t s0 {}) (liftR (lift_err (fact_for_import x t i)))
      (\<lambda>f s. iso env hi t s0 {} s \<and> fact_valid f) (iso env hi t s0 {})" for i
    by (rule spec_liftR) (auto simp: result_simps fact_for_import_def dest: fact_new_valid)
  have "spec (\<lambda>s. iso env hi t s0 {} s \<and> fact_valid f) (seqC (on_facts (insert_fact t f)) (bindC (embed_text env (f_content f)) (\<lambda>embedding.
      bindC (new_v4 env) (\<lambda>i. seqC (on_vectors (upsert_vector t (vector_record_of i f embedding))) (ret (n + 1))))))
      (\<lambda>_. iso env hi t s0 {}) (iso env hi t s0 {})" for f
    by (rule spec_pre_const [where A = "fact_valid f"]) (auto intro: spec_pre [OF import_insert_spec] simp del: ret_apply)
  note rest = spec_bindC [OF mk this, folded preserves_iff_spec]
  show ?thesis
    unfolding import_fact_def resolve_import_fact_id_def
    by (intro preserves_bindC [OF fact_read_pres(1)] preserves_bindC [OF preserves_if [OF iso_new_v4 preserves_ret]] rest)
qed

lemma iso_import_event [pres_intro]: "preserves (iso env hi t s0 S) (import_event env' t x n)"
  unfolding import_event_def
  by (rule preserves_bindC [OF iso_new_v4 iso_with_events], rule spec_case_option)
    (auto intro!: spec_ret spec_seqC [OF spec_on_events] simp: mock_events.put_other simp del: ret_apply)

lemma iso_import_user_data: "preserves (iso env hi (im_tenant i) s0 {}) (import_user_data env en i)"
  unfolding import_user_data_def clear_for_replace_def Let_def
  by (intro preserves_seqC preserves_liftR preserves_bindC preserves_getsC preserves_if iso_clear_user pres_intro)

lemma iso_cutoff_before [pres_intro]: "preserves (iso env hi t s0 S) (cutoff_before env' d)"
  unfolding cutoff_before_def by (intro pres_intro)





lemma delete_fact_vectors_total:
  "delete_fact_vectors t i s = (Inr (), s\<lparr>s_vectors := snd (delete_by_fact_id t i (s_vectors s))\<rparr>)"
  by (auto simp: delete_fact_vectors_def bindC_def catch_err_def on_vectors_def delete_by_fact_id_def Let_def)



lemma retain_loop_spec:
  "spec (iso env hi t s0 (set ids)) (for_eachC (\<lambda>i _. delete_fact_vectors t i) ids ())
     (\<lambda>_. iso env hi t s0 {}) (iso env hi t s0 {})"
proof -
  have step: "spec (iso env hi t s0 (set (i # ids))) (delete_fact_vectors t i) (\<lambda>_. iso env hi t s0 (set ids)) E" for i ids E
  proof (rule specI)
    fix s u s' assume "iso env hi t s0 (set (i # ids)) s" and "delete_fact_vectors t i s = (Inr u, s')"
    then have "iso env hi t s0 (set (i # ids) - {i}) s'"
      using iso_delete_by_fact_id [of env hi t s0 "set (i # ids)" s i] by (simp add: delete_fact_vectors_total)
    moreover have "indexed (set (i # ids) - {i}) t (s_facts s') (s_vectors s') \<Longrightarrow> indexed (set ids) t (s_facts s') (s_vectors s')"
      by (erule indexed_mono) auto
    ultimately show "iso env hi t s0 (set ids) s'" by (simp add: iso_def)
  qed (simp add: delete_fact_vectors_total)
  show ?thesis
    using spec_for_eachC [of "\<lambda>ids. iso env hi t s0 (set ids)" "\<lambda>i _. delete_fact_vectors t i", OF step] by simp
qed

lemma iso_retain_facts [pres_intro]: "preserves (iso env hi t s0 {}) (retain_facts env' t dry d out)"
  unfolding retain_facts_def
proof (rule preserves_bindC [OF iso_cutoff_before], unfold preserves_iff_spec,
    rule spec_bindC [OF spec_delete_facts_older_than], rule spec_if)
  fix r :: retention_prune_result and out' :: apply_retention_output
  show "dry \<Longrightarrow> spec (\<lambda>s. iso env hi t s0 (set (prune_fact_ids r)) s \<and> (dry \<longrightarrow> prune_fact_ids r = [])) (ret out')
      (\<lambda>_. iso env hi t s0 {}) (iso env hi t s0 {})"
    by (rule spec_ret) auto
  show "spec (\<lambda>s. iso env hi t s0 (set (prune_fact_ids r)) s \<and> (dry \<longrightarrow> prune_fact_ids r = []))
      (seqC (for_eachC (\<lambda>i _. delete_fact_vectors t i) (prune_fact_ids r) ()) (ret out')) (\<lambda>_. iso env hi t s0 {}) (iso env hi t s0 {})"
    by (rule spec_pre [OF spec_seqC [OF retain_loop_spec spec_ret]]) auto
qed

lemma spec_retain_events:
  "spec (\<lambda>s. iso env hi t s0 S s \<and> s_events s = Some store) (retain_events env' t dry d store out)
     (\<lambda>_. iso env hi t s0 S) (iso env hi t s0 S)"
proof -
  have cut: "spec (\<lambda>s. iso env hi t s0 S s \<and> s_events s = Some store) (cutoff_before env' d)
      (\<lambda>_ s. iso env hi t s0 S s \<and> s_events s = Some store) (iso env hi t s0 S)"
    unfolding cutoff_before_def by (rule spec_bindC [OF spec_utc_now_events spec_liftR]) auto
  show ?thesis
    unfolding retain_events_def
    by (rule spec_bindC [OF cut spec_bindC [OF spec_on_events spec_ret]]) (auto simp: mock_events.expire_other)
qed

lemma iso_apply_retention: "preserves (iso env hi t s0 {}) (apply_retention env' en t p dry)"
proof -
  have ev: "preserves (iso env hi t s0 {}) (bindC (getsC s_events) (\<lambda>events.
      bindC (case (event_days_active p, events) of
               (Some d, Some store) \<Rightarrow> retain_events env' t dry d store out
             | _ \<Rightarrow> ret out) (\<lambda>out. seqC (if \<not> dry \<and> 0 < ro_facts_deleted out then invalidate_user_context_cache en t else ret ()) (ret out))))"
    for out
  proof (rule iso_with_events, rule spec_bindC)
    fix events :: "mock_event_store option"
    show "spec (\<lambda>s. iso env hi t s0 {} s \<and> s_events s = events)
        (case (event_days_active p, events) of
           (Some d, Some store) \<Rightarrow> retain_events env' t dry d store out | _ \<Rightarrow> ret out)
        (\<lambda>_. iso env hi t s0 {}) (iso env hi t s0 {})"
      by (cases "event_days_active p"; cases events)
        (auto intro: spec_retain_events intro!: spec_ret simp del: ret_apply)
  qed (unfold preserves_iff_spec [symmetric], intro pres_intro)
  show ?thesis
    unfolding apply_retention_def
    by (intro preserves_seqC [OF preserves_liftR] preserves_if preserves_ret
        preserves_bindC [OF preserves_case_option] iso_retain_facts ev)
qed

end
