(* ===== verification/Engine_Safety.thy ===== *)
theory Engine_Safety
  imports Engine_Inv
begin

text \<open>
  Safety of the whole engine: a server that answers requests one after the other keeps the invariant of
  the state, whatever the requests, the providers' answers and the errors; and a request of one tenant
  changes nothing of another.
\<close>

section \<open>Requests\<close>

datatype tenant_request =
    AddMemory add_memory_input
  | SearchMemory search_memory_input
  | BuildContext build_context_input
  | RefreshStaleContext build_context_input
  | ListMemories list_memories_input
  | DeleteMemory tenant_context uuid
  | ForgetUser tenant_context
  | ImportUserData import_user_data_input
  | ExportUserData tenant_context bool bool
  | ListMemoryEvents list_memory_events_input
  | ApplyRetention tenant_context retention_policy bool

datatype org_request =
    GetOrgSummary string
  | ListOrgUsers string nat "string option"
  | SearchOrgMemoryEvents search_org_memory_events_input
  | GetOrgQuotaStatus string "string option"
  | GetOrgUsageDashboard string datetime datetime
  | CreateMemoryUsageSnapshot string "datetime option"
  | QueryMemoryUsageSnapshots memory_usage_snapshot_query
  | GetProviderUsageDaily provider_usage_daily_query
  | ResolveOrgQuotaLimits string
  | CheckMemoryWriteQuota string string u64
  | CheckProviderQuota string "u64 option"
  | ApplyProviderUsageRetention string u32 bool

datatype request = Tenant tenant_request | Org org_request

fun request_tenant :: "tenant_request \<Rightarrow> tenant_context" where
  "request_tenant (AddMemory i) = ai_tenant i"
| "request_tenant (SearchMemory i) = si_tenant i"
| "request_tenant (BuildContext i) = bc_tenant i"
| "request_tenant (RefreshStaleContext i) = bc_tenant i"
| "request_tenant (ListMemories i) = li_tenant i"
| "request_tenant (DeleteMemory t _) = t"
| "request_tenant (ForgetUser t) = t"
| "request_tenant (ImportUserData i) = im_tenant i"
| "request_tenant (ExportUserData t _ _) = t"
| "request_tenant (ListMemoryEvents i) = le_tenant i"
| "request_tenant (ApplyRetention t _ _) = t"

text \<open>The state after a request; the answer plays no role here.\<close>

fun tenant_step :: "env \<Rightarrow> engine \<Rightarrow> tenant_request \<Rightarrow> sys \<Rightarrow> sys" where
  "tenant_step env en (AddMemory i) s = snd (add_memory env en i s)"
| "tenant_step env en (SearchMemory i) s = snd (search_memory env en i s)"
| "tenant_step env en (BuildContext i) s = snd (build_context env en i s)"
| "tenant_step env en (RefreshStaleContext i) s = snd (refresh_stale_context env en i s)"
| "tenant_step env en (ListMemories i) s = snd (list_memories env i s)"
| "tenant_step env en (DeleteMemory t i) s = snd (delete_memory env en t i s)"
| "tenant_step env en (ForgetUser t) s = snd (forget_user env en t s)"
| "tenant_step env en (ImportUserData i) s = snd (import_user_data env en i s)"
| "tenant_step env en (ExportUserData t ev del) s = snd (export_user_data env t ev del s)"
| "tenant_step env en (ListMemoryEvents i) s = snd (list_memory_events env i s)"
| "tenant_step env en (ApplyRetention t p dry) s = snd (apply_retention env en t p dry s)"

fun org_step :: "env \<Rightarrow> engine \<Rightarrow> org_request \<Rightarrow> sys \<Rightarrow> sys" where
  "org_step env en (GetOrgSummary org) s = snd (get_org_summary org s)"
| "org_step env en (ListOrgUsers org n c) s = snd (list_org_users env org n c s)"
| "org_step env en (SearchOrgMemoryEvents i) s = snd (search_org_memory_events env i s)"
| "org_step env en (GetOrgQuotaStatus org u) s = snd (engine_get_org_quota_status env en org u s)"
| "org_step env en (GetOrgUsageDashboard org a b) s = snd (get_org_usage_dashboard env en org a b s)"
| "org_step env en (CreateMemoryUsageSnapshot org d) s = snd (create_memory_usage_snapshot env org d s)"
| "org_step env en (QueryMemoryUsageSnapshots q) s = snd (query_memory_usage_snapshots env q s)"
| "org_step env en (GetProviderUsageDaily q) s = snd (get_provider_usage_daily q s)"
| "org_step env en (ResolveOrgQuotaLimits org) s = snd (engine_resolve_org_quota_limits env en org s)"
| "org_step env en (CheckMemoryWriteQuota org u n) s = snd (check_memory_write_quota env en org u n s)"
| "org_step env en (CheckProviderQuota org n) s = snd (check_provider_quota env en org n s)"
| "org_step env en (ApplyProviderUsageRetention org d dry) s = snd (apply_provider_usage_retention env org d dry s)"

fun serve :: "env \<Rightarrow> engine \<Rightarrow> request list \<Rightarrow> sys \<Rightarrow> sys" where
  "serve env en [] s = s"
| "serve env en (Tenant r # rs) s = serve env en rs (tenant_step env en r s)"
| "serve env en (Org r # rs) s = serve env en rs (org_step env en r s)"

section \<open>Tenant requests\<close>

lemma iso_tenant_step:
  "iso env hi (request_tenant r) s0 {} s \<Longrightarrow> iso env hi (request_tenant r) s0 {} (tenant_step env en r s)"
  by (cases r) (simp_all add: preservesD [OF iso_add_memory] preservesD [OF iso_search_memory]
      preservesD [OF iso_build_context(1)] preservesD [OF iso_build_context(2)] preservesD [OF iso_list_memories]
      preservesD [OF iso_delete_memory] preservesD [OF iso_forget_user] preservesD [OF iso_import_user_data]
      preservesD [OF iso_export_user_data] preservesD [OF iso_list_memory_events] preservesD [OF iso_apply_retention])

lemma sys_inv_tenant_step: "sys_inv s \<Longrightarrow> sys_inv (tenant_step env en r s)"
  by (rule iso_sys_inv [OF iso_tenant_step [OF iso_start [OF _ fresh_ids_0]]])

section \<open>Requests of an organisation\<close>

text \<open>They read the facts and write at most the usage and snapshot stores.\<close>

definition keeps :: "sys \<Rightarrow> sys \<Rightarrow> bool" where
  "keeps s0 s \<longleftrightarrow> s_facts s = s_facts s0 \<and> s_vectors s = s_vectors s0 \<and> s_cache s = s_cache s0 \<and> s_events s = s_events s0"

lemma keeps_steps [pres_intro]:
  "preserves (keeps s0) (tick f)" "preserves (keeps s0) (on_usage st uo)" "preserves (keeps s0) (on_snapshots st2 so)"
  by (simp_all add: preserves_def keeps_def tick_def on_usage_def on_snapshots_def split: prod.split)

lemma keeps_ticks [pres_intro]: "preserves (keeps s0) (new_v4 env)" "preserves (keeps s0) (utc_now env)"
  unfolding new_v4_def utc_now_def by (intro pres_intro)+

lemma keeps_on_events:
  assumes "\<And>x. snd (oper x) = x"
  shows "spec (\<lambda>s. keeps s0 s \<and> s_events s = Some st) (on_events st oper) (\<lambda>_. keeps s0) (keeps s0)"
  using assms [of st] by (auto simp: spec_def keeps_def on_events_def split: prod.splits sum.splits)

lemma keeps_with_events:
  "(\<And>ev. spec (\<lambda>s. keeps s0 s \<and> s_events s = ev) (f ev) (\<lambda>_. keeps s0) (keeps s0)) \<Longrightarrow>
     preserves (keeps s0) (bindC (getsC s_events) f)"
  unfolding preserves_iff_spec by (rule spec_bindC [OF spec_getsC [where Q = "\<lambda>ev s. keeps s0 s \<and> s_events s = ev"]]) auto

lemma keeps_get_org_summary: "preserves (keeps s0) (get_org_summary org)"
  unfolding get_org_summary_def
proof (rule preserves_seqC [OF preserves_liftR preserves_bindC [OF fact_read_pres(3) preserves_bindC
      [OF fact_read_pres(4) keeps_with_events]]], rule spec_bindC)
  fix ev :: "mock_event_store option"
  show "spec (\<lambda>s. keeps s0 s \<and> s_events s = ev)
      (case ev of Some store \<Rightarrow> bindC (on_events store (count_events_by_org org)) (\<lambda>n. ret (Some n)) | None \<Rightarrow> ret None)
      (\<lambda>_. keeps s0) (keeps s0)"
    by (rule spec_case_option) (auto intro!: spec_ret spec_bindC [OF keeps_on_events] simp del: ret_apply)
qed (auto intro: spec_ret simp del: ret_apply)

lemma keeps_search_org_memory_events: "preserves (keeps s0) (search_org_memory_events env i)"
  unfolding search_org_memory_events_def
  by (rule preserves_seqC [OF preserves_liftR preserves_bindC [OF preserves_liftR preserves_bindC
        [OF preserves_liftR keeps_with_events]]], rule spec_case_option)
    (auto intro!: spec_ret spec_guard spec_bindC [OF keeps_on_events] spec_liftR simp del: ret_apply liftR_apply)

lemma keeps_quota_service [pres_intro]: "preserves (keeps s0) (quota_service_of env en)"
  unfolding quota_service_of_def by (intro pres_intro)

lemma keeps_quota [pres_intro]:
  "preserves (keeps s0) (engine_get_org_quota_status env en org u)"
  "preserves (keeps s0) (engine_resolve_org_quota_limits env en org)"
  "preserves (keeps s0) (check_memory_write_quota env en org user n)"
  "preserves (keeps s0) (check_provider_quota env en org m)"
  unfolding engine_get_org_quota_status_def engine_resolve_org_quota_limits_def check_memory_write_quota_def
    check_provider_quota_def
  by (intro pres_intro)+

lemma keeps_usage:
  "preserves (keeps s0) (list_org_users env org l c)"
  "preserves (keeps s0) (get_org_usage_dashboard env en org a b)"
  "preserves (keeps s0) (create_memory_usage_snapshot env org d)"
  "preserves (keeps s0) (query_memory_usage_snapshots env q)"
  "preserves (keeps s0) (get_provider_usage_daily dq)"
  "preserves (keeps s0) (apply_provider_usage_retention env org n dry)"
  unfolding list_org_users_def get_org_usage_dashboard_def create_memory_usage_snapshot_def
    query_memory_usage_snapshots_def get_provider_usage_daily_def apply_provider_usage_retention_def
    latest_memory_usage_snapshot_def memory_usage_snapshot_store_def usage_store_of_def cutoff_before_def
  by (intro pres_intro)+

lemma org_step_keeps: "keeps s (org_step env en r s)"
proof -
  have "keeps s s" by (simp add: keeps_def)
  then show ?thesis
    by (cases r) (simp_all add: preservesD [OF keeps_get_org_summary] preservesD [OF keeps_search_org_memory_events]
        preservesD [OF keeps_quota(1)] preservesD [OF keeps_quota(2)] preservesD [OF keeps_quota(3)]
        preservesD [OF keeps_quota(4)] preservesD [OF keeps_usage(1)] preservesD [OF keeps_usage(2)]
        preservesD [OF keeps_usage(3)] preservesD [OF keeps_usage(4)] preservesD [OF keeps_usage(5)]
        preservesD [OF keeps_usage(6)])
qed

lemma sys_inv_org_step: "sys_inv s \<Longrightarrow> sys_inv (org_step env en r s)"
  using org_step_keeps [of s env en r] by (simp add: sys_inv_def stores_wf_def keeps_def)

section \<open>A sample system\<close>

definition sample_env :: env where
  "sample_env =
     \<lparr>env_new_v4 = (\<lambda>n. word_of_nat (1000 + n)), env_utc_now = (\<lambda>n. 1000 + int n),
      env_embed_text = (\<lambda>_ _. Inr [Fin 1]), env_extract_facts = (\<lambda>_ _ _ _. Inr [sample_candidate ''I write Rust services at work'']),
      env_classify = (\<lambda>_ _ _ _. Inr \<lparr>d_operation = OpAdd, d_target_fact_id = None, d_reason = None, d_confidence = Fin 1\<rparr>),
      env_summarize = (\<lambda>_ _ _ _. Inr ''summary''), env_replace_all = (\<lambda>_ _ text. text),
      env_sha256_hex = (\<lambda>x. x), env_fingerprint_json = (\<lambda>_. ''{}''), env_render = sample_render,
      env_codec = \<lparr>to_json = (\<lambda>c. Inr (last_id c)), from_json = (\<lambda>x. Some \<lparr>last_id = x, last_sort_value = 0\<rparr>),
        b64_encode = (\<lambda>x. x), b64_decode = Some\<rparr>,
      env_time = \<lparr>t_min = - (10 ^ 20), t_max = 10 ^ 20\<rparr>\<rparr>"

definition sample_engine :: engine where
  "sample_engine = engine_new\<lparr>en_context_cache_config := context_cache_config_default\<lparr>cfg_enabled := True\<rparr>\<rparr>"

definition sys_new :: sys where
  "sys_new =
     \<lparr>s_facts = fact_store_new, s_vectors = vector_store_new, s_events = Some event_store_new, s_usage = None,
      s_plans = None, s_snapshots = None, s_cache = context_cache_new 1000, s_metrics = None, s_inflight = {},
      s_refresh_inflight = {}, s_usage_attribution = None, s_tick = 0\<rparr>"

lemma sys_inv_new: "sys_inv sys_new"
  by (simp add: sys_inv_def stores_wf_def sys_new_def ca_wf_def context_cache_new_def facts_valid_def
      fact_store_new_def fs_wf_def vs_wf_def hm_wf_def vector_store_new_def tenant_vectors_def hm_values_def)

section \<open>Properties\<close>

text \<open>C2: Whatever requests the engine serves, in whatever order, and however they end (result, error or
  panic), the state keeps its invariant: the stores and the cache are well-formed, every stored fact
  passes the checks of \<open>Fact::new\<close>, and every record of the semantic index belongs to an active fact of its
  tenant with the same content, type and metadata. Requests of an organisation do not change facts,
  index, cache or audit log at all.\<close>

theorem engine_keeps_invariant:
  assumes "sys_inv s"
  shows "sys_inv (serve env en rs s) \<and> keeps s (org_step env en r s)"
proof
  show "sys_inv (serve env en rs s)"
    using assms by (induction env en rs s rule: serve.induct) (simp_all add: sys_inv_tenant_step sys_inv_org_step)
qed (rule org_step_keeps)

theorem engine_keeps_invariant_witness:
  "sys_inv (serve sample_env sample_engine [Tenant (ForgetUser alice), Org (GetOrgSummary ''acme'')] sys_new)"
  using engine_keeps_invariant [OF sys_inv_new] by blast

text \<open>C1: Tenant isolation of the whole engine: a request of one tenant leaves the active facts, the
  index records and the audit log of every other tenant as they were, and gives it no new cache entry.
  The identifiers the request draws must be unused, which is asked up to the tick at which it ends.\<close>

theorem engine_tenant_isolation:
  assumes "sys_inv s" and "fresh_ids env hi s" and "s_tick (tenant_step env en r s) \<le> hi"
    and "t' \<noteq> request_tenant r"
  shows "active_facts (s_facts (tenant_step env en r s)) t' = active_facts (s_facts s) t' \<and>
    tenant_vectors (s_vectors (tenant_step env en r s)) t' = tenant_vectors (s_vectors s) t' \<and>
    sys_log (tenant_step env en r s) t' = sys_log s t' \<and>
    (\<forall>k e. key_of_tenant t' k \<longrightarrow> cache_lookup (s_cache (tenant_step env en r s)) k = Some e \<longrightarrow>
       cache_lookup (s_cache s) k = Some e)"
proof -
  have iso: "iso env hi (request_tenant r) s {} (tenant_step env en r s)"
    by (rule iso_tenant_step [OF iso_start [OF assms(1,2)]])
  have "\<not> key_of_tenant (request_tenant r) k" if "key_of_tenant t' k" for k
    using that assms(4) by (auto simp: key_of_tenant_def)
  with iso assms(3,4) show ?thesis
    unfolding iso_def frame_def vec_frame_def by blast
qed

lemma fresh_sample: "fresh_ids sample_env 50 sys_new"
proof -
  have "inj_on (\<lambda>n. word_of_nat (1000 + n) :: uuid) {0..<50}"
    by (rule inj_onI) (simp add: word_of_nat_eq_iff take_bit_nat_eq_self del: of_nat_add)
  then show ?thesis by (simp add: fresh_ids_def sample_env_def sys_new_def vector_store_new_def)
qed

theorem engine_tenant_isolation_witness:
  "active_facts (s_facts (tenant_step sample_env sample_engine (ForgetUser alice) sys_new)) bob
     = active_facts (s_facts sys_new) bob"
proof -
  have "s_tick (tenant_step sample_env sample_engine (ForgetUser alice) sys_new) \<le> 50"
    by (simp add: forget_user_def seqC_def bindC_def validate_tenant_def alice_def str_eval on_facts_def on_vectors_def
        delete_user_data_def delete_by_user_def Let_def record_audit_def new_v4_def utc_now_def tick_def
        invalidate_user_context_cache_def catch_err_def on_cache_def invalidate_user_def on_metrics_def sys_new_def)
  moreover have "bob \<noteq> request_tenant (ForgetUser alice)"
    by (simp add: alice_def bob_def)
  ultimately show ?thesis
    using engine_tenant_isolation [OF sys_inv_new fresh_sample] by blast
qed

end
