(* ===== verification/Engine_Effects.thy ===== *)
theory Engine_Effects
  imports Engine_Safety
begin

text \<open>
  What the writing operations of the engine do, beyond keeping the invariant: the lifecycle refines
  updates of a finite map, \<open>add_memory\<close> accounts for every candidate, deletion and erasure leave nothing
  behind.
\<close>

section \<open>Inversion of successful steps\<close>

lemma on_facts_Inr [result_simps]:
  "on_facts oper s = (Inr a, s') \<longleftrightarrow> (\<exists>x. oper (s_facts s) = (Inr a, x) \<and> s' = s\<lparr>s_facts := x\<rparr>)"
  by (auto simp: on_facts_def result_simps split: prod.split)

lemma on_vectors_Inr [result_simps]:
  "on_vectors oper s = (Inr a, s') \<longleftrightarrow> (\<exists>x. oper (s_vectors s) = (Inr a, x) \<and> s' = s\<lparr>s_vectors := x\<rparr>)"
  by (auto simp: on_vectors_def result_simps split: prod.split)

lemma tick_Inr [result_simps]: "tick f s = (Inr a, s') \<longleftrightarrow> a = f (s_tick s) \<and> s' = s\<lparr>s_tick := Suc (s_tick s)\<rparr>"
  by (auto simp: tick_def)

lemma liftR_Inr [result_simps]: "liftR r s = (Inr a, s') \<longleftrightarrow> r = Inr a \<and> s' = s"
  by auto

lemma ret_Inr [result_simps]: "ret v s = (Inr a, s') \<longleftrightarrow> a = v \<and> s' = s"
  by auto

lemma get_fact_Inr [result_simps]: "get_fact t i x = (Inr r, y) \<longleftrightarrow> r = active_facts x t i \<and> y = x"
  by (auto simp: get_fact_def active_facts_def split: option.splits)

text \<open>The steps that touch no fact.\<close>

lemma embed_text_frame: "embed_text env text s = (r, s') \<Longrightarrow> s' = s\<lparr>s_tick := Suc (s_tick s)\<rparr>"
  by (auto simp: embed_text_def bindC_def tick_def)

lemma upsert_fact_vector_Inr:
  assumes "upsert_fact_vector env t f pre s = (Inr u, s')"
  shows "\<exists>i e n. upsert_vector t (vector_record_of i f e) (s_vectors s) = (Inr (), s_vectors s') \<and>
    s' = s\<lparr>s_tick := n, s_vectors := s_vectors s'\<rparr>"
  using assms by (auto simp: upsert_fact_vector_def vector_record_from_fact_def new_v4_def result_simps
      split: option.splits dest!: embed_text_frame) blast+

lemma upsert_vector_present:
  "vs_wf x \<Longrightarrow> upsert_vector t r x = (Inr u, y) \<Longrightarrow> r \<in> tenant_vectors y t"
  by (auto simp: upsert_vector_def ensure_record_tenant_def tenant_vectors_def vs_wf_def in_hm_values_iff split: if_splits)

lemma insert_fact_same: "insert_fact t f x = (Inr f', y) \<Longrightarrow> f' = f"
  by (auto simp: insert_fact_def ensure_fact_tenant_def split: if_splits)

lemma update_fact_same: "update_fact t f x = (Inr f', y) \<Longrightarrow> f' = f"
  by (auto simp: update_fact_def ensure_fact_tenant_def split: if_splits option.splits)

lemma tenant_vectors_delete_by_fact_id:
  "vs_wf x \<Longrightarrow> tenant_vectors (snd (delete_by_fact_id t i x)) t = {r \<in> tenant_vectors x t. v_fact_id r \<noteq> i}"
  by (auto simp: delete_by_fact_id_def Let_def tenant_vectors_def values_retain)

section \<open>The lifecycle as updates of a map\<close>

text \<open>The abstract state is the map of a tenant's active facts.\<close>

fun lifecycle_abs :: "lifecycle_apply_result \<Rightarrow> (uuid \<rightharpoonup> fact) \<Rightarrow> (uuid \<rightharpoonup> fact) \<Rightarrow> bool" where
  "lifecycle_abs (Added f) A A' \<longleftrightarrow> A (f_id f) = None \<and> A' = A(f_id f \<mapsto> f)"
| "lifecycle_abs (Updated p u) A A' \<longleftrightarrow> f_id u = f_id p \<and> A (f_id p) = Some p \<and> A' = A(f_id p \<mapsto> u)"
| "lifecycle_abs (Deleted f) A A' \<longleftrightarrow> A (f_id f) = Some f \<and> A' = A(f_id f := None)"
| "lifecycle_abs NoOp A A' \<longleftrightarrow> A' = A"

definition says :: "candidate_fact \<Rightarrow> fact \<Rightarrow> bool" where
  "says c f \<longleftrightarrow> f_content f = c_content c \<and> f_memory_type f = c_memory_type c \<and> f_metadata f = c_metadata c"

fun lifecycle_index :: "candidate_fact \<Rightarrow> tenant_context \<Rightarrow> lifecycle_apply_result \<Rightarrow> sys \<Rightarrow> bool" where
  "lifecycle_index c t (Added f) s \<longleftrightarrow> says c f \<and> (\<exists>r \<in> tenant_vectors (s_vectors s) t. v_fact_id r = f_id f)"
| "lifecycle_index c t (Updated p u) s \<longleftrightarrow> says c u \<and> (\<exists>r \<in> tenant_vectors (s_vectors s) t. v_fact_id r = f_id u)"
| "lifecycle_index c t (Deleted f) s \<longleftrightarrow> (\<forall>r \<in> tenant_vectors (s_vectors s) t. v_fact_id r \<noteq> f_id f)"
| "lifecycle_index c t NoOp s \<longleftrightarrow> True"

lemma vector_record_fact_id [simp]: "v_fact_id (vector_record_of i f e) = f_id f"
  by (simp add: vector_record_of_def)

lemma apply_add_Inr:
  assumes "apply_add env t c pre s = (Inr r, s')" and "stores_wf s"
  shows "lifecycle_abs r (active_facts (s_facts s) t) (active_facts (s_facts s') t) \<and> lifecycle_index c t r s' \<and>
    (\<exists>f. r = Added f)"
proof -
  from assms(1) obtain f n x u where f: "says c f"
    and ins: "insert_fact t f (s_facts s) = (Inr f, x)" and r: "r = Added f"
    and up: "upsert_fact_vector env t f pre (s\<lparr>s_tick := n, s_facts := x\<rparr>) = (Inr u, s')"
    using assms(2)
    by (auto simp: apply_add_def candidate_to_fact_def utc_now_def new_v4_def result_simps says_def stores_wf_def
        dest: insert_fact_same dest!: fact_new_valid)
  from upsert_fact_vector_Inr [OF up] obtain i e m where
      v: "upsert_vector t (vector_record_of i f e) (s_vectors s) = (Inr (), s_vectors s')" and x: "s_facts s' = x"
    by (auto dest: arg_cong [where f = s_facts])
  from v assms(2) have "vector_record_of i f e \<in> tenant_vectors (s_vectors s') t"
    using upsert_vector_present unfolding stores_wf_def by blast
  then have "\<exists>r \<in> tenant_vectors (s_vectors s') t. v_fact_id r = f_id f" by force
  with f r x show ?thesis
    using insert_fact_view [OF _ ins] assms(2) by (simp add: stores_wf_def)
qed

lemma apply_update_Inr:
  assumes "apply_update env t c target s = (Inr r, s')" and "stores_wf s"
  shows "lifecycle_abs r (active_facts (s_facts s) t) (active_facts (s_facts s') t) \<and> lifecycle_index c t r s' \<and>
    (\<exists>p u. r = Updated p u \<and> f_id p = target)"
proof -
  from assms(2) have wf: "fs_wf (s_facts s)" "vs_wf (s_vectors s)" by (simp_all add: stores_wf_def)
  from assms(1) obtain p f n x u where f: "says c f" "f_id f = f_id p"
    and p: "active_facts (s_facts s) t target = Some p"
    and upd: "update_fact t f (s_facts s) = (Inr f, x)" and r: "r = Updated p f"
    and up: "replace_fact_vector env t f (s\<lparr>s_tick := n, s_facts := x\<rparr>) = (Inr u, s')"
    by (auto simp: apply_update_def merge_candidate_into_fact_def utc_now_def result_simps says_def
        dest!: fact_new_valid) (metis update_fact_same)
  let ?v = "snd (delete_by_fact_id t (f_id f) (s_vectors s))"
  from up have "upsert_fact_vector env t f None (s\<lparr>s_tick := n, s_facts := x, s_vectors := ?v\<rparr>) = (Inr u, s')"
    by (simp add: replace_fact_vector_def delete_fact_vectors_total)
  from upsert_fact_vector_Inr [OF this] obtain i e m where
      v: "upsert_vector t (vector_record_of i f e) ?v = (Inr (), s_vectors s')" and x: "s_facts s' = x"
    by (auto dest: arg_cong [where f = s_facts])
  have "vs_wf ?v" using wf by (simp add: delete_by_fact_id_def Let_def vs_wf_retain)
  with v have "vector_record_of i f e \<in> tenant_vectors (s_vectors s') t"
    using upsert_vector_present by blast
  then have "\<exists>r \<in> tenant_vectors (s_vectors s') t. v_fact_id r = f_id f" by force
  moreover have "f_id p = target" using p wf by (auto simp: active_facts_Some fs_wf_def)
  ultimately show ?thesis
    using update_fact_view [OF wf(1) upd] f p r x by simp
qed

lemma apply_delete_Inr:
  assumes "apply_delete t target s = (Inr r, s')" and "stores_wf s"
  shows "lifecycle_abs r (active_facts (s_facts s) t) (active_facts (s_facts s') t) \<and> lifecycle_index c t r s' \<and>
    (\<exists>f. r = Deleted f \<and> f_id f = target)"
proof -
  from assms(2) have wf: "fs_wf (s_facts s)" "vs_wf (s_vectors s)" by (simp_all add: stores_wf_def)
  from assms(1) obtain f x where f: "active_facts (s_facts s) t target = Some f" and r: "r = Deleted f"
    and del: "soft_delete_fact t target (s_facts s) = (Inr (), x)"
    and s': "s' = s\<lparr>s_facts := x, s_vectors := snd (delete_by_fact_id t target (s_vectors s))\<rparr>"
    by (auto simp: apply_delete_def delete_fact_vectors_total result_simps)
  have "f_id f = target" using f wf by (auto simp: active_facts_Some fs_wf_def)
  then show ?thesis
    using soft_delete_fact_view [OF wf(1) del] f r s' by (simp add: tenant_vectors_delete_by_fact_id [OF wf(2)])
qed

lemmas lifecycle_ops = apply_add_Inr apply_update_Inr apply_delete_Inr

text \<open>Which result answers which decision.\<close>

definition answers :: "fact_operation_decision \<Rightarrow> lifecycle_apply_result \<Rightarrow> bool" where
  "answers d r \<longleftrightarrow>
     (case d_operation d of
        OpAdd \<Rightarrow> (\<exists>f. r = Added f)
      | OpUpdate \<Rightarrow> (\<exists>p u. r = Updated p u \<and> d_target_fact_id d = Some (f_id p))
      | OpDelete \<Rightarrow> (\<exists>f. r = Deleted f \<and> d_target_fact_id d = Some (f_id f))
      | _ \<Rightarrow> r = NoOp)"

lemma apply_fact_operation_Inr:
  assumes "apply_fact_operation env t c d pre s = (Inr r, s')" and "stores_wf s"
  shows "lifecycle_abs r (active_facts (s_facts s) t) (active_facts (s_facts s') t) \<and>
    lifecycle_index c t r s' \<and> answers d r"
proof (cases "d_operation d")
  case OpAdd
  with assms apply_add_Inr [of env t c pre s r s'] show ?thesis
    by (simp add: apply_fact_operation_def normalize_operation_def answers_def result_simps)
next
  case OpUpdate
  with assms obtain target where "d_target_fact_id d = Some target" "apply_update env t c target s = (Inr r, s')"
    by (auto simp: apply_fact_operation_def normalize_operation_def result_simps)
  with OpUpdate assms(2) apply_update_Inr [of env t c target s r s'] show ?thesis
    by (auto simp: answers_def)
next
  case OpDelete
  with assms obtain target where "d_target_fact_id d = Some target" "apply_delete t target s = (Inr r, s')"
    by (auto simp: apply_fact_operation_def normalize_operation_def result_simps)
  with OpDelete assms(2) apply_delete_Inr [of t target s r s' c] show ?thesis
    by (auto simp: answers_def)
qed (use assms in \<open>auto simp: apply_fact_operation_def normalize_operation_def answers_def result_simps\<close>)

section \<open>Adding memories\<close>

fun tally :: "lifecycle_apply_result \<Rightarrow> add_memory_output \<Rightarrow> add_memory_output" where
  "tally (Added f) acc = acc\<lparr>ao_added := ao_added acc + 1, ao_memories := ao_memories acc @ [f]\<rparr>"
| "tally (Updated p u) acc = acc\<lparr>ao_updated := ao_updated acc + 1, ao_memories := ao_memories acc @ [u]\<rparr>"
| "tally (Deleted f) acc = acc\<lparr>ao_deleted := ao_deleted acc + 1\<rparr>"
| "tally NoOp acc = count_noop acc"

fun lifecycle_run :: "lifecycle_apply_result list \<Rightarrow> (uuid \<rightharpoonup> fact) \<Rightarrow> (uuid \<rightharpoonup> fact) \<Rightarrow> bool" where
  "lifecycle_run [] A A' \<longleftrightarrow> A' = A"
| "lifecycle_run (r # rs) A A'' \<longleftrightarrow> (\<exists>A'. lifecycle_abs r A A' \<and> lifecycle_run rs A' A'')"

lemma record_audit_frame: "\<exists>n ev. record_audit env t build s = (Inr (), s\<lparr>s_tick := n, s_events := ev\<rparr>)"
  by (auto simp: record_audit_def new_v4_def utc_now_def bindC_def tick_def)

lemma audit_then_ret:
  "\<exists>n ev. seqC (record_audit env t build) (ret x) s = (Inr x, s\<lparr>s_tick := n, s_events := ev\<rparr>)"
proof -
  obtain n ev where "record_audit env t build s = (Inr (), s\<lparr>s_tick := n, s_events := ev\<rparr>)"
    using record_audit_frame by blast
  then have "seqC (record_audit env t build) (ret x) s = (Inr x, s\<lparr>s_tick := n, s_events := ev\<rparr>)" by simp
  then show ?thesis by blast
qed

lemma audit_noop_then_ret:
  "\<exists>n ev. seqC (audit_noop env en t d) (ret x) s = (Inr x, s\<lparr>s_tick := n, s_events := ev\<rparr>)"
  unfolding audit_noop_def by (rule audit_then_ret)

lemma account_result_eq:
  "\<exists>n ev. account_result env en t md d r acc s = (Inr (tally r acc), s\<lparr>s_tick := n, s_events := ev\<rparr>)"
  by (cases r) (simp_all add: account_result_def audit_noop_def audit_then_ret)

text \<open>Which result a candidate gets, from what the stores hold when its turn comes. A candidate that is too unimportant, or
  a duplicate of a stored fact by its text or by its embedding, gives no operation; for any other the classifier
  decides, given the related facts, and the result answers its decision.\<close>

definition text_duplicate :: "env \<Rightarrow> tenant_context \<Rightarrow> candidate_fact \<Rightarrow> sys \<Rightarrow> bool" where
  "text_duplicate env t c s \<longleftrightarrow>
     (\<exists>existing i reason. fst (find_existing_facts_for_dedup t (c_memory_type c) (s_facts s)) = Inr existing \<and>
        detect_duplicate (rd_fmt2 (env_render env)) c existing = Duplicate i reason)"

definition vector_duplicate :: "env \<Rightarrow> engine \<Rightarrow> tenant_context \<Rightarrow> candidate_fact \<Rightarrow> sys \<Rightarrow> bool" where
  "vector_duplicate env en t c s \<longleftrightarrow>
     (\<exists>embedding i reason. env_embed_text env (s_tick s) (c_content c) = Inr embedding \<and>
        fst (detect_embedding_duplicate (rd_fmt2 (env_render env)) t (c_memory_type c) embedding (en_embedding_dedup_config en)
          (s_vectors s)) = Inr (Some (Duplicate i reason)))"

definition classified :: "env \<Rightarrow> tenant_context \<Rightarrow> candidate_fact \<Rightarrow> sys \<Rightarrow> fact_operation_decision \<Rightarrow> bool" where
  "classified env t c s d \<longleftrightarrow>
     (\<exists>related. fst (find_related_facts t c (s_facts s)) = Inr related \<and> env_classify env (Suc (s_tick s)) t c related = Inr d)"

definition candidate_result :: "env \<Rightarrow> engine \<Rightarrow> tenant_context \<Rightarrow> candidate_fact \<Rightarrow> sys \<Rightarrow> lifecycle_apply_result \<Rightarrow> bool" where
  "candidate_result env en t raw s r \<longleftrightarrow>
     (let c = adjust raw in
      if \<not> passes_importance_threshold c (en_min_importance en) \<or> text_duplicate env t c s \<or> vector_duplicate env en t c s
      then r = NoOp
      else \<exists>d. classified env t c s d \<and> answers d r)"

text \<open>One candidate: its result, the effect of the result on the active facts and on the index, and its entry in the tally.\<close>

definition candidate_effect ::
  "env \<Rightarrow> engine \<Rightarrow> tenant_context \<Rightarrow> candidate_fact \<Rightarrow> lifecycle_apply_result \<Rightarrow> sys \<Rightarrow> sys \<Rightarrow> bool" where
  "candidate_effect env en t raw r s s' \<longleftrightarrow>
     candidate_result env en t raw s r \<and> lifecycle_abs r (active_facts (s_facts s) t) (active_facts (s_facts s') t) \<and>
     lifecycle_index (adjust raw) t r s'"

lemma search_facts_Inr [result_simps]: "search_facts q x = (Inr fs, y) \<longleftrightarrow> fst (search_facts q x) = Inr fs \<and> y = x"
  by (auto simp: search_facts_def)

lemma find_facts_Inr [result_simps]:
  "find_existing_facts_for_dedup t mt x = (Inr fs, y) \<longleftrightarrow> fst (find_existing_facts_for_dedup t mt x) = Inr fs \<and> y = x"
  "find_related_facts t c x = (Inr fs, y) \<longleftrightarrow> fst (find_related_facts t c x) = Inr fs \<and> y = x"
  by (simp_all only: find_existing_facts_for_dedup_def find_related_facts_def search_facts_Inr)

lemma detect_embedding_snd: "snd (detect_embedding_duplicate fmt2 t mt e config x) = x"
  by (simp add: detect_embedding_duplicate_def search_vectors_def bindC_def split: option.split)

lemma detect_embedding_Inr [result_simps]:
  "detect_embedding_duplicate fmt2 t mt e config x = (Inr d, y) \<longleftrightarrow>
     fst (detect_embedding_duplicate fmt2 t mt e config x) = Inr d \<and> y = x"
  using detect_embedding_snd [of fmt2 t mt e config x] by (metis fst_conv snd_conv prod.collapse)

lemma provider_calls_Inr [result_simps]:
  "embed_text env text s = (Inr e, s') \<longleftrightarrow> env_embed_text env (s_tick s) text = Inr e \<and> s' = s\<lparr>s_tick := Suc (s_tick s)\<rparr>"
  "classify_fact_operation env t c related s = (Inr d, s') \<longleftrightarrow>
     env_classify env (s_tick s) t c related = Inr d \<and> s' = s\<lparr>s_tick := Suc (s_tick s)\<rparr>"
  by (auto simp: embed_text_def classify_fact_operation_def result_simps)

lemma noop_effect: "s_facts s' = s_facts s \<Longrightarrow> candidate_result env en t raw s NoOp \<Longrightarrow> candidate_effect env en t raw NoOp s s'"
  by (simp add: candidate_effect_def)

lemma audited_noop:
  assumes "seqC (audit_noop env en t d) (ret (count_noop acc)) s = (Inr acc', s')"
  shows "acc' = tally NoOp acc \<and> s_facts s' = s_facts s"
proof -
  obtain n ev where "seqC (audit_noop env en t d) (ret (count_noop acc)) s
      = (Inr (count_noop acc), s\<lparr>s_tick := n, s_events := ev\<rparr>)"
    using audit_noop_then_ret [of env en t d "count_noop acc" s] by blast
  with assms show ?thesis by auto
qed

lemma process_candidate_Inr:
  assumes "process_candidate env en t md raw acc s = (Inr acc', s')" and "stores_wf s"
  shows "\<exists>r. candidate_effect env en t raw r s s' \<and> acc' = tally r acc"
proof -
  let ?c = "adjust raw" and ?fmt2 = "rd_fmt2 (env_render env)"
  note run = assms(1) [unfolded process_candidate_def Let_def]
  show ?thesis
  proof (cases "passes_importance_threshold ?c (en_min_importance en)")
    case False
    with run have "acc' = tally NoOp acc" "s' = s" by (auto simp: result_simps)
    moreover have "candidate_result env en t raw s NoOp" using False by (simp add: candidate_result_def)
    ultimately show ?thesis using noop_effect by blast
  next
    case imp: True
    with run obtain existing where ex: "fst (find_existing_facts_for_dedup t (c_memory_type ?c) (s_facts s)) = Inr existing"
      and rest: "(case detect_duplicate ?fmt2 ?c existing of
          Duplicate i reason \<Rightarrow> seqC (audit_noop env en t (dedup_noop_decision i reason)) (ret (count_noop acc))
        | _ \<Rightarrow> bindC (embed_text env (c_content ?c)) (\<lambda>embedding.
            bindC (on_vectors (detect_embedding_duplicate ?fmt2 t (c_memory_type ?c) embedding (en_embedding_dedup_config en))) (\<lambda>similar.
            case similar of
              Some (Duplicate i reason) \<Rightarrow> seqC (audit_noop env en t (dedup_noop_decision i reason)) (ret (count_noop acc))
            | _ \<Rightarrow> bindC (on_facts (find_related_facts t ?c)) (\<lambda>related.
                bindC (classify_fact_operation env t ?c related) (\<lambda>decision.
                bindC (apply_fact_operation env t ?c decision (Some embedding)) (\<lambda>result.
                account_result env en t md decision result acc)))))) s = (Inr acc', s')"
      by (auto simp: result_simps simp del: ret_apply)
    show ?thesis
    proof (cases "text_duplicate env t ?c s")
      case True
      then obtain i reason where "detect_duplicate ?fmt2 ?c existing = Duplicate i reason"
        using ex by (auto simp: text_duplicate_def)
      with rest have "acc' = tally NoOp acc \<and> s_facts s' = s_facts s"
        by (intro audited_noop [of env en t "dedup_noop_decision i reason"]) simp
      moreover have "candidate_result env en t raw s NoOp" using True by (simp add: candidate_result_def)
      ultimately show ?thesis using noop_effect by blast
    next
      case new: False
      let ?s1 = "s\<lparr>s_tick := Suc (s_tick s)\<rparr>"
      from new ex have "detect_duplicate ?fmt2 ?c existing \<noteq> Duplicate i reason" for i reason
        by (auto simp: text_duplicate_def)
      then obtain embedding similar where em: "env_embed_text env (s_tick s) (c_content ?c) = Inr embedding"
        and sim: "fst (detect_embedding_duplicate ?fmt2 t (c_memory_type ?c) embedding (en_embedding_dedup_config en) (s_vectors s)) = Inr similar"
        and rest2: "(case similar of
              Some (Duplicate i reason) \<Rightarrow> seqC (audit_noop env en t (dedup_noop_decision i reason)) (ret (count_noop acc))
            | _ \<Rightarrow> bindC (on_facts (find_related_facts t ?c)) (\<lambda>related.
                bindC (classify_fact_operation env t ?c related) (\<lambda>decision.
                bindC (apply_fact_operation env t ?c decision (Some embedding)) (\<lambda>result.
                account_result env en t md decision result acc)))) ?s1 = (Inr acc', s')"
        using rest by (cases "detect_duplicate ?fmt2 ?c existing") (auto simp: result_simps simp del: ret_apply)
      show ?thesis
      proof (cases "vector_duplicate env en t ?c s")
        case True
        then obtain i reason where "similar = Some (Duplicate i reason)"
          using em sim by (auto simp: vector_duplicate_def)
        with rest2 have "acc' = tally NoOp acc \<and> s_facts s' = s_facts ?s1"
          by (intro audited_noop [of env en t "dedup_noop_decision i reason"]) simp
        moreover have "candidate_result env en t raw s NoOp" using True by (simp add: candidate_result_def)
        ultimately show ?thesis using noop_effect by fastforce
      next
        case distinct: False
        with em sim have "similar \<noteq> Some (Duplicate i reason)" for i reason
          by (auto simp: vector_duplicate_def)
        then have "bindC (on_facts (find_related_facts t ?c)) (\<lambda>related.
            bindC (classify_fact_operation env t ?c related) (\<lambda>decision.
            bindC (apply_fact_operation env t ?c decision (Some embedding)) (\<lambda>result.
            account_result env en t md decision result acc))) ?s1 = (Inr acc', s')"
          using rest2 by (auto split: option.splits dedup_decision.splits)
        then obtain related d r s2 where rel: "fst (find_related_facts t ?c (s_facts s)) = Inr related"
          and d: "env_classify env (Suc (s_tick s)) t ?c related = Inr d"
          and ap: "apply_fact_operation env t ?c d (Some embedding) (?s1\<lparr>s_tick := Suc (Suc (s_tick s))\<rparr>) = (Inr r, s2)"
          and acc: "account_result env en t md d r acc s2 = (Inr acc', s')"
          by (auto simp: result_simps)
        have "stores_wf (?s1\<lparr>s_tick := Suc (Suc (s_tick s))\<rparr>)" using assms(2) by (simp add: stores_wf_def)
        from apply_fact_operation_Inr [OF ap this] have ap': "lifecycle_abs r (active_facts (s_facts s) t) (active_facts (s_facts s2) t)"
          "lifecycle_index ?c t r s2" "answers d r" by simp_all
        obtain n ev where "account_result env en t md d r acc s2 = (Inr (tally r acc), s2\<lparr>s_tick := n, s_events := ev\<rparr>)"
          using account_result_eq by blast
        with acc have s': "acc' = tally r acc" "s' = s2\<lparr>s_tick := n, s_events := ev\<rparr>" by simp_all
        have "candidate_result env en t raw s r"
          using imp new distinct rel d ap'(3) by (auto simp: candidate_result_def classified_def Let_def)
        with ap' s' show ?thesis
          by (intro exI [of _ r]) (cases r; simp add: candidate_effect_def)
      qed
    qed
  qed
qed

text \<open>The state that the first candidates leave.\<close>

definition after_candidates :: "env \<Rightarrow> engine \<Rightarrow> tenant_context \<Rightarrow> json \<Rightarrow> candidate_fact list \<Rightarrow> sys \<Rightarrow> sys" where
  "after_candidates env en t md cs s = snd (for_eachC (process_candidate env en t md) cs add_memory_output_new s)"

lemma add_loop:
  assumes "for_eachC (process_candidate env en t md) cs acc s = (Inr out, s')" and "sys_inv s"
  defines "after n \<equiv> snd (for_eachC (process_candidate env en t md) (take n cs) acc s)"
  shows "\<exists>rs. length rs = length cs \<and> out = fold tally rs acc \<and>
    lifecycle_run rs (active_facts (s_facts s) t) (active_facts (s_facts s') t) \<and> sys_inv s' \<and>
    (\<forall>i < length cs. candidate_effect env en t (cs ! i) (rs ! i) (after i) (after (Suc i)))"
  using assms(1,2) unfolding after_def
proof (induction cs arbitrary: acc s)
  case Nil
  then show ?case by simp
next
  case (Cons c cs)
  from Cons.prems(1) obtain acc1 s1 where step: "process_candidate env en t md c acc s = (Inr acc1, s1)"
    and rest: "for_eachC (process_candidate env en t md) cs acc1 s1 = (Inr out, s')"
    by (auto simp: result_simps)
  have "sys_inv s1"
    using preservesD [OF iso_process_candidate [where en = en and md = md and c = c and acc = acc]
        iso_start [OF Cons.prems(2) fresh_ids_0, of env t]] step
    by (simp add: iso_sys_inv)
  have head: "snd (for_eachC (process_candidate env en t md) (c # ds) acc s)
      = snd (for_eachC (process_candidate env en t md) ds acc1 s1)" for ds
    using step by (simp add: bindC_def)
  from Cons.IH [OF rest \<open>sys_inv s1\<close>] obtain rs where rs: "length rs = length cs" "out = fold tally rs acc1"
    "lifecycle_run rs (active_facts (s_facts s1) t) (active_facts (s_facts s') t)" "sys_inv s'"
    and each: "\<forall>i < length cs. candidate_effect env en t (cs ! i) (rs ! i)
      (snd (for_eachC (process_candidate env en t md) (take i cs) acc1 s1))
      (snd (for_eachC (process_candidate env en t md) (take (Suc i) cs) acc1 s1))" by blast
  have "stores_wf s" using Cons.prems(2) by (simp add: sys_inv_def)
  from process_candidate_Inr [OF step this] obtain r where r: "candidate_effect env en t c r s s1" "acc1 = tally r acc" by blast
  have "candidate_effect env en t ((c # cs) ! i) ((r # rs) ! i)
      (snd (for_eachC (process_candidate env en t md) (take i (c # cs)) acc s))
      (snd (for_eachC (process_candidate env en t md) (take (Suc i) (c # cs)) acc s))" if "i < length (c # cs)" for i
  proof (cases i)
    case 0
    then show ?thesis using r(1) head [of "[]"] by simp
  next
    case (Suc j)
    then show ?thesis using each that unfolding Suc take_Suc_Cons head by simp
  qed
  with rs r show ?case by (intro exI [of _ "r # rs"]) (auto simp: candidate_effect_def)
qed

text \<open>What a run of map updates says about the counts.\<close>

lemma tally_counts:
  "ao_added (fold tally rs acc) + ao_updated (fold tally rs acc) + ao_deleted (fold tally rs acc) + ao_noop (fold tally rs acc)
     = ao_added acc + ao_updated acc + ao_deleted acc + ao_noop acc + length rs"
proof (induction rs arbitrary: acc)
  case (Cons r rs)
  show ?case using Cons.IH [of "tally r acc"] by (cases r) (simp_all add: count_noop_def)
qed simp

lemma tally_memories:
  "length (ao_memories (fold tally rs acc)) + ao_added acc + ao_updated acc
     = ao_added (fold tally rs acc) + ao_updated (fold tally rs acc) + length (ao_memories acc)"
proof (induction rs arbitrary: acc)
  case (Cons r rs)
  show ?case using Cons.IH [of "tally r acc"] by (cases r) (simp_all add: count_noop_def)
qed simp

lemma lifecycle_run_card:
  "lifecycle_run rs A A' \<Longrightarrow> finite (dom A) \<Longrightarrow>
     finite (dom A') \<and> card (dom A') + ao_deleted (fold tally rs acc) + ao_added acc
       = card (dom A) + ao_added (fold tally rs acc) + ao_deleted acc"
proof (induction rs arbitrary: A acc)
  case (Cons r rs)
  then obtain B where B: "lifecycle_abs r A B" and run: "lifecycle_run rs B A'" by auto
  have fin: "finite (dom B)" and card: "card (dom B) + ao_deleted (tally r acc) + ao_added acc
      = card (dom A) + ao_added (tally r acc) + ao_deleted acc"
  proof -
    show "finite (dom B)" using B Cons.prems(2) by (cases r) auto
    show "card (dom B) + ao_deleted (tally r acc) + ao_added acc = card (dom A) + ao_added (tally r acc) + ao_deleted acc"
      using B Cons.prems(2) card_Diff_singleton [of _ "dom A"] card_gt_0_iff [of "dom A"]
      by (cases r) (auto simp: count_noop_def insert_absorb domIff)
  qed
  show ?case using Cons.IH [OF run fin, of "tally r acc"] card by simp
qed simp

lemma active_facts_finite: "finite (dom (active_facts x t))"
  by (rule finite_subset [OF _ finite_dom_map_of [of "fs_facts x"]]) (auto simp: active_facts_def split: option.splits)

section \<open>The cache and the log\<close>

definition uncached :: "tenant_context \<Rightarrow> sys \<Rightarrow> bool" where
  "uncached t s \<longleftrightarrow> (\<forall>k. key_of_tenant t k \<longrightarrow> cache_lookup (s_cache s) k = None)"

definition caching :: "engine \<Rightarrow> bool" where
  "caching en \<longleftrightarrow> cfg_enabled (en_context_cache_config en)"

lemma invalidate_total:
  "invalidate_user_context_cache en t s = (Inr (), snd (invalidate_user_context_cache en t s))"
  by (simp add: invalidate_user_context_cache_def bindC_def catch_err_def on_cache_def invalidate_user_def Let_def
      on_metrics_def)

lemma invalidate_frame [frame_simps]:
  "s_facts (snd (invalidate_user_context_cache en t s)) = s_facts s"
  "s_vectors (snd (invalidate_user_context_cache en t s)) = s_vectors s"
  "s_events (snd (invalidate_user_context_cache en t s)) = s_events s"
  by (simp_all add: invalidate_user_context_cache_def bindC_def catch_err_def on_cache_def invalidate_user_def Let_def
      on_metrics_def)

lemma invalidate_uncached:
  assumes "ca_wf (s_cache s)" and "caching en"
  shows "uncached t (snd (invalidate_user_context_cache en t s))"
proof -
  have "s_cache (snd (invalidate_user_context_cache en t s)) = snd (invalidate_user (tc_org_id t) (tc_user_id t) (s_cache s))"
    using assms(2) by (simp add: caching_def invalidate_user_context_cache_def bindC_def catch_err_def on_cache_def
        invalidate_user_def Let_def on_metrics_def)
  then show ?thesis
    using mem_cache.inval_lookup [OF assms(1), of t] by (simp add: uncached_def)
qed

lemma record_audit_log:
  assumes "\<And>i now. event_matches_tenant (build i now) t"
  shows "\<exists>i now n ev. record_audit env t build s = (Inr (), s\<lparr>s_tick := n, s_events := ev\<rparr>) \<and>
    sys_log (s\<lparr>s_tick := n, s_events := ev\<rparr>) t = sys_log s t @ (if s_events s = None then [] else [build i now])"
proof -
  let ?i = "env_new_v4 env (s_tick s)" and ?now = "env_utc_now env (Suc (s_tick s))" and ?n = "Suc (Suc (s_tick s))"
  let ?ev = "record_event_best_effort t (build ?i ?now) (s_events s)"
  have "record_audit env t build s = (Inr (), s\<lparr>s_tick := ?n, s_events := ?ev\<rparr>)"
    by (simp add: record_audit_def new_v4_def utc_now_def bindC_def tick_def)
  moreover have "sys_log (s\<lparr>s_tick := ?n, s_events := ?ev\<rparr>) t = sys_log s t @ (if s_events s = None then [] else [build ?i ?now])"
    using assms [of ?i ?now]
    by (simp add: sys_log_def record_event_best_effort_def record_event_def ensure_event_tenant_def tenant_log_def
        split: option.split)
  ultimately show ?thesis by blast
qed

text \<open>How every erasing operation ends: an event, the cache invalidated, and \<open>true\<close>.\<close>

lemma audit_and_invalidate:
  assumes "ca_wf (s_cache s)" and "\<And>i now. event_matches_tenant (build i now) t"
  shows "\<exists>s' i now. seqC (record_audit env t build) (seqC (invalidate_user_context_cache en t) (ret x)) s = (Inr x, s') \<and>
    s_facts s' = s_facts s \<and> s_vectors s' = s_vectors s \<and> (caching en \<longrightarrow> uncached t s') \<and>
    sys_log s' t = sys_log s t @ (if s_events s = None then [] else [build i now])"
proof -
  obtain i now n ev where r: "record_audit env t build s = (Inr (), s\<lparr>s_tick := n, s_events := ev\<rparr>)"
    and log: "sys_log (s\<lparr>s_tick := n, s_events := ev\<rparr>) t = sys_log s t @ (if s_events s = None then [] else [build i now])"
    using record_audit_log [of build t env s, OF assms(2)] by blast
  let ?s1 = "s\<lparr>s_tick := n, s_events := ev\<rparr>"
  let ?s2 = "snd (invalidate_user_context_cache en t ?s1)"
  have "s_facts ?s2 = s_facts s" "s_vectors ?s2 = s_vectors s"
    by (simp_all add: frame_simps)
  moreover have "sys_log ?s2 t = sys_log ?s1 t"
    by (simp add: sys_log_def frame_simps)
  moreover have "caching en \<longrightarrow> uncached t ?s2"
    using invalidate_uncached [of ?s1 en t] assms(1) by simp
  moreover have "seqC (record_audit env t build) (seqC (invalidate_user_context_cache en t) (ret x)) s = (Inr x, ?s2)"
    by (simp only: seqC_Inr [of "record_audit env t build" s, OF r]
        seqC_Inr [of "invalidate_user_context_cache en t" ?s1, OF invalidate_total] ret_apply)
  ultimately show ?thesis using log by fastforce
qed

section \<open>Deleting and erasing\<close>

lemma deleting_events [simp]:
  "event_matches_tenant (build_delete_event i now t f p m md) t"
  "event_matches_tenant (build_forget_user_event i now t p m) t"
  by (simp_all add: event_builders event_matches_tenant_def)

lemma delete_memory_found:
  assumes "validate_tenant t = Inr ()" and "active_facts (s_facts s) t i = Some f"
  shows "delete_memory env en t i s =
    (let s1 = s\<lparr>s_facts := snd (soft_delete_fact t i (s_facts s)), s_vectors := snd (delete_by_fact_id t i (s_vectors s))\<rparr> in
     case fst (delete_by_fact_id t i (s_vectors s)) of
       Inl e \<Rightarrow> (Inl (Err e), s1)
     | Inr _ \<Rightarrow> seqC (record_audit env t (\<lambda>j now. build_delete_event j now t f (en_audit_provider_name en)
           (en_audit_model_name en) (JObject [(''source'', JString ''delete_memory'')])))
         (seqC (invalidate_user_context_cache en t) (ret True)) s1)"
proof -
  have get: "on_facts (get_fact t i) s = (Inr (Some f), s)"
    using assms(2) by (simp add: result_simps)
  have del: "on_facts (soft_delete_fact t i) s = (Inr (), s\<lparr>s_facts := snd (soft_delete_fact t i (s_facts s))\<rparr>)"
    using assms(2) by (auto simp: active_facts_def on_facts_def soft_delete_fact_def split: option.splits if_splits)
  have vec: "on_vectors (delete_by_fact_id t i) (s\<lparr>s_facts := x\<rparr>) = (lift_err (fst (delete_by_fact_id t i (s_vectors s))),
      s\<lparr>s_facts := x, s_vectors := snd (delete_by_fact_id t i (s_vectors s))\<rparr>)" for x
    by (simp add: on_vectors_def split: prod.split)
  show ?thesis
    by (cases "fst (delete_by_fact_id t i (s_vectors s))") (simp_all add: delete_memory_def Let_def assms(1) get del vec)
qed

lemma delete_by_fact_id_result:
  "vs_wf x \<Longrightarrow> fst (delete_by_fact_id t i x) =
     (if \<exists>r \<in> tenant_vectors x t. v_fact_id r = i then Inr ()
      else Inl (NotFound (''vector record not found for fact: '' @ uuid_to_string i)))"
  by (auto simp: delete_by_fact_id_def Let_def tenant_vectors_def length_retain_eq)

lemma soft_delete_active:
  "fs_wf x \<Longrightarrow> active_facts x t i = Some f \<Longrightarrow>
     active_facts (snd (soft_delete_fact t i x)) t = (active_facts x t)(i := None)"
  by (subst soft_delete_fact_view [of x t i "()"])
    (auto simp: soft_delete_fact_def active_facts_def [of x] split: option.splits if_splits)

lemma clear_user_total:
  assumes "fs_wf (s_facts s)" and "vs_wf (s_vectors s)"
  shows "\<exists>x y. seqC (on_facts (delete_user_data t)) (seqC (on_vectors (delete_by_user t)) m) s = m (s\<lparr>s_facts := x, s_vectors := y\<rparr>) \<and>
    active_facts x t = Map.empty \<and> (\<forall>f \<in> set (hm_values (fs_facts x)). \<not> fact_matches_tenant f t) \<and> tenant_vectors y t = {}"
proof -
  obtain x where x: "delete_user_data t (s_facts s) = (Inr (), x)" and "active_facts x = (active_facts (s_facts s))(t := Map.empty)"
    using delete_user_data_view [OF assms(1)] by blast
  moreover have "\<forall>f \<in> set (hm_values (fs_facts x)). \<not> fact_matches_tenant f t"
    using x by (auto simp: delete_user_data_def Let_def values_retain not_of_tenant_def fact_matches_tenant_def)
  moreover obtain y where "delete_by_user t (s_vectors s) = (Inr (), y)" and "tenant_vectors y t = {}"
    using assms(2) by (auto simp: delete_by_user_def tenant_vectors_def values_retain record_matches_tenant_def)
  ultimately show ?thesis
    by (intro exI [of _ x] exI [of _ y]) (simp add: seqC_def bindC_def on_facts_def on_vectors_def)
qed

lemma add_memory_Inr:
  assumes "add_memory env en i s = (Inr out, s')"
  shows "\<exists>cands a s2.
    env_extract_facts env (s_tick s) (ai_tenant i)
      (messages_for_llm_extraction env (ai_messages i) (en_enable_pii_redaction en)) (ai_metadata i) = Inr cands \<and>
    for_eachC (process_candidate env en (ai_tenant i) (ai_metadata i)) cands add_memory_output_new
      (s\<lparr>s_usage_attribution := a, s_tick := Suc (s_tick s)\<rparr>) = (Inr out, s2) \<and>
    (if 0 < ao_added out + ao_updated out + ao_deleted out then invalidate_user_context_cache en (ai_tenant i) else ret ()) s2
      = (Inr (), s')"
proof -
  let ?a = "map_option (\<lambda>_. Some \<lparr>at_org_id = tc_org_id (ai_tenant i), at_user_id = Some (tc_user_id (ai_tenant i))\<rparr>)
    (s_usage_attribution s)"
  have bind: "bind_usage_attribution (ai_tenant i) s = (Inr (), s\<lparr>s_usage_attribution := ?a\<rparr>)"
    by (simp add: bind_usage_attribution_def)
  from assms obtain cands s1 s2 where
      "extract_facts env (ai_tenant i) (messages_for_llm_extraction env (ai_messages i) (en_enable_pii_redaction en))
        (ai_metadata i) (s\<lparr>s_usage_attribution := ?a\<rparr>) = (Inr cands, s1)"
    and "for_eachC (process_candidate env en (ai_tenant i) (ai_metadata i)) cands add_memory_output_new s1 = (Inr out, s2)"
    and "(if 0 < ao_added out + ao_updated out + ao_deleted out then invalidate_user_context_cache en (ai_tenant i) else ret ()) s2
      = (Inr (), s')"
    unfolding add_memory_def seqC_eq_Inr bindC_eq_Inr by (auto simp: bind simp del: neq0_conv)
  then show ?thesis
    by (intro exI [of _ cands] exI [of _ ?a] exI [of _ s2]) (auto simp: extract_facts_def result_simps simp del: neq0_conv)
qed

section \<open>Properties\<close>

text \<open>C4: The memory lifecycle refines updates of a finite map. When a decision of the classifier is
  carried out, the tenant's active facts change exactly as the result says: a new entry, an entry
  replaced in place, an entry removed, or nothing. The result answers the decision and its target, the new
  or updated fact says what the candidate says, it is in the semantic index when the operation returns,
  and a deleted fact is not.\<close>

theorem lifecycle_refines_map:
  assumes "sys_inv s" and "apply_fact_operation env t c d pre s = (Inr r, s')"
  shows "lifecycle_abs r (active_facts (s_facts s) t) (active_facts (s_facts s') t) \<and> lifecycle_index c t r s' \<and> answers d r"
  using apply_fact_operation_Inr [OF assms(2)] assms(1) by (simp add: sys_inv_def)

definition sample_add :: fact_operation_decision where
  "sample_add = \<lparr>d_operation = OpAdd, d_target_fact_id = None, d_reason = None, d_confidence = Fin 1\<rparr>"

theorem lifecycle_refines_map_witness:
  "\<exists>f s'. apply_fact_operation sample_env alice (sample_candidate ''tea'') sample_add None sys_new = (Inr (Added f), s') \<and>
     active_facts (s_facts s') alice = [f_id f \<mapsto> f] \<and> f_content f = ''tea''"
proof -
  let ?run = "apply_fact_operation sample_env alice (sample_candidate ''tea'') sample_add None sys_new"
  have "\<exists>r s'. ?run = (Inr r, s')"
    by (simp add: apply_fact_operation_def normalize_operation_def sample_add_def apply_add_def candidate_to_fact_def
        utc_now_def new_v4_def tick_def bindC_def seqC_def fact_new_def sample_candidate_def alice_def str_eval
        validate_non_empty_def validate_unit_interval_def in_unit_interval_def sys_new_def on_facts_def insert_fact_def
        ensure_fact_tenant_def fact_matches_tenant_def fact_store_new_def upsert_fact_vector_def embed_text_def
        vector_record_from_fact_def vector_record_of_def on_vectors_def upsert_vector_def ensure_record_tenant_def
        record_matches_tenant_def vector_store_new_def sample_env_def)
  then obtain r s' where run: "?run = (Inr r, s')" by blast
  with lifecycle_refines_map [OF sys_inv_new run] show ?thesis
    by (auto simp: answers_def sample_add_def says_def sample_candidate_def sys_new_def)
qed

definition sample_input :: add_memory_input where
  "sample_input = \<lparr>ai_tenant = alice, ai_messages = [\<lparr>msg_role = RoleUser, msg_content = ''I write Rust''\<rparr>], ai_metadata = JNull\<rparr>"

definition lenient_engine :: engine where
  "lenient_engine = sample_engine\<lparr>en_min_importance := Fin 0\<rparr>"

lemmas run_simps = bindC_def seqC_def on_facts_def on_vectors_def tick_def utc_now_def new_v4_def embed_text_def
  validate_tenant_def alice_def str_eval

lemma maybe_invalidate:
  "\<exists>s'. seqC (if b then invalidate_user_context_cache en t else ret ()) (ret x) s = (Inr x, s')"
  using invalidate_total [of en t s] by (cases b) (auto simp: seqC_def bindC_def split: prod.splits sum.splits)

lemma sample_adjusted:
  "\<exists>x. adjust (sample_candidate w) = (sample_candidate w)\<lparr>c_importance := x\<rparr> \<and> in_unit_interval x"
  using adjust_in_unit_interval [of "sample_candidate w"] by (simp add: adjust_def Let_def sample_candidate_def)

lemma sample_process:
  "\<exists>out s'. process_candidate sample_env lenient_engine alice JNull (sample_candidate ''I write Rust services at work'') acc
     (sys_new\<lparr>s_tick := n\<rparr>) = (Inr out, s')"
proof -
  obtain x where c: "adjust (sample_candidate ''I write Rust services at work'') =
      (sample_candidate ''I write Rust services at work'')\<lparr>c_importance := x\<rparr>" and x: "in_unit_interval x"
    using sample_adjusted by blast
  show ?thesis
    using x unfolding process_candidate_def c
    by (simp add: run_simps validate_candidate_def sample_candidate_def Let_def passes_importance_threshold_def
      lenient_engine_def in_unit_interval_def find_existing_facts_for_dedup_def search_facts_def sys_new_def fact_store_new_def
      hm_values_def detect_duplicate_def detect_embedding_duplicate_def search_vectors_def vector_store_new_def sample_env_def
      find_related_facts_def classify_fact_operation_def apply_fact_operation_def normalize_operation_def apply_add_def
      candidate_to_fact_def fact_new_def validate_non_empty_def validate_unit_interval_def insert_fact_def ensure_fact_tenant_def
      fact_matches_tenant_def upsert_fact_vector_def vector_record_from_fact_def vector_record_of_def upsert_vector_def
      ensure_record_tenant_def record_matches_tenant_def account_result_def record_audit_def)
qed

text \<open>C5: \<open>add_memory\<close> processes every extracted candidate once, in the order of the extraction. There is one result for each
  candidate. The i-th answers the i-th candidate from the state that the ones before it left: no operation when it is
  below the threshold of importance or a duplicate of a stored fact by its text or its embedding, and otherwise what the
  classifier decides for it, given the related facts. Its effect on the tenant's active facts is that update of a finite map,
  with the content of the candidate and the semantic index in step. The answer is the tally of the results: the four
  counts add up to the number of candidates, the memories returned are the added and updated facts, the tenant's number of
  active facts changes by added minus deleted, and when anything changed no cached context of the tenant survives.\<close>

theorem add_memory_refines:
  assumes "sys_inv s" and "add_memory env en i s = (Inr out, s')"
  shows "\<exists>cands rs s0. let t = ai_tenant i; after = (\<lambda>n. after_candidates env en t (ai_metadata i) (take n cands) s0) in
    env_extract_facts env (s_tick s) t
      (messages_for_llm_extraction env (ai_messages i) (en_enable_pii_redaction en)) (ai_metadata i) = Inr cands \<and>
    s_facts s0 = s_facts s \<and> s_vectors s0 = s_vectors s \<and> s_tick s0 = Suc (s_tick s) \<and>
    length rs = length cands \<and>
    (\<forall>n < length cands. candidate_effect env en t (cands ! n) (rs ! n) (after n) (after (Suc n))) \<and>
    s_facts s' = s_facts (after (length cands)) \<and> s_vectors s' = s_vectors (after (length cands)) \<and>
    out = fold tally rs add_memory_output_new \<and>
    ao_added out + ao_updated out + ao_deleted out + ao_noop out = length cands \<and>
    length (ao_memories out) = ao_added out + ao_updated out \<and>
    card (dom (active_facts (s_facts s') t)) + ao_deleted out = card (dom (active_facts (s_facts s) t)) + ao_added out \<and>
    (0 < ao_added out + ao_updated out + ao_deleted out \<longrightarrow> caching en \<longrightarrow> uncached t s')"
proof -
  let ?t = "ai_tenant i" and ?changed = "0 < ao_added out + ao_updated out + ao_deleted out"
  from add_memory_Inr [OF assms(2)] obtain cands a s2 where
      ex: "env_extract_facts env (s_tick s) ?t (messages_for_llm_extraction env (ai_messages i) (en_enable_pii_redaction en))
        (ai_metadata i) = Inr cands"
    and loop: "for_eachC (process_candidate env en ?t (ai_metadata i)) cands add_memory_output_new
        (s\<lparr>s_usage_attribution := a, s_tick := Suc (s_tick s)\<rparr>) = (Inr out, s2)"
    and fin: "(if ?changed then invalidate_user_context_cache en ?t else ret ()) s2 = (Inr (), s')" by blast
  define s0 where "s0 = s\<lparr>s_usage_attribution := a, s_tick := Suc (s_tick s)\<rparr>"
  have s0: "s_facts s0 = s_facts s" "s_vectors s0 = s_vectors s" "s_tick s0 = Suc (s_tick s)" by (simp_all add: s0_def)
  have inv: "sys_inv s0" using assms(1) by (simp add: s0_def sys_inv_def stores_wf_def)
  from add_loop [OF loop [folded s0_def] inv] obtain rs where rs: "length rs = length cands" "out = fold tally rs add_memory_output_new"
      "lifecycle_run rs (active_facts (s_facts s) ?t) (active_facts (s_facts s2) ?t)" "sys_inv s2"
    and each: "\<forall>n < length cands. candidate_effect env en ?t (cands ! n) (rs ! n)
        (after_candidates env en ?t (ai_metadata i) (take n cands) s0)
        (after_candidates env en ?t (ai_metadata i) (take (Suc n) cands) s0)"
    unfolding after_candidates_def s0 by blast
  then have "ca_wf (s_cache s2)" by (simp add: sys_inv_def stores_wf_def)
  then have "caching en \<Longrightarrow> ?changed \<Longrightarrow> uncached ?t s'"
    using fin invalidate_uncached [of s2 en ?t] by simp
  moreover have "s_facts s' = s_facts s2" "s_vectors s' = s_vectors s2"
    using fin invalidate_frame(1,2) [of en ?t s2] by (auto split: if_splits)
  moreover have "after_candidates env en ?t (ai_metadata i) (take (length cands) cands) s0 = s2"
    using loop by (simp add: after_candidates_def s0_def)
  ultimately show ?thesis
    using ex rs each s0 lifecycle_run_card [OF rs(3) active_facts_finite, of add_memory_output_new]
      tally_counts [of rs add_memory_output_new] tally_memories [of rs add_memory_output_new]
    by (intro exI [of _ cands] exI [of _ rs] exI [of _ s0]) (simp add: add_memory_output_new_def Let_def)
qed

theorem add_memory_refines_witness:
  "\<exists>out s'. add_memory sample_env lenient_engine sample_input sys_new = (Inr out, s') \<and>
     ao_added out + ao_updated out + ao_deleted out + ao_noop out = 1"
proof -
  let ?cands = "[sample_candidate ''I write Rust services at work'']"
  have cands: "env_extract_facts sample_env n t ms md = Inr ?cands" for n t ms md
    by (simp add: sample_env_def)
  obtain acc s2 where p: "process_candidate sample_env lenient_engine alice JNull (hd ?cands) add_memory_output_new
      (sys_new\<lparr>s_tick := 1\<rparr>) = (Inr acc, s2)"
    using sample_process [of add_memory_output_new 1] by auto
  have "bind_usage_attribution alice sys_new = (Inr (), sys_new)"
    by (simp add: bind_usage_attribution_def sys_new_def)
  moreover have "extract_facts sample_env t ms md sys_new = (Inr ?cands, sys_new\<lparr>s_tick := 1\<rparr>)" for t ms md
    by (simp add: extract_facts_def cands bindC_def tick_def) (simp add: sys_new_def)
  moreover obtain s' where "seqC (if 0 < ao_added acc + ao_updated acc + ao_deleted acc
      then invalidate_user_context_cache lenient_engine alice else ret ()) (ret acc) s2 = (Inr acc, s')"
    using maybe_invalidate [of "0 < ao_added acc + ao_updated acc + ao_deleted acc" lenient_engine alice acc s2] by blast
  moreover have "ai_tenant sample_input = alice" "ai_metadata sample_input = JNull" "validate_tenant alice = Inr ()"
      "validate_messages (ai_messages sample_input) = Inr ()"
    by (simp_all add: validate_tenant_def validate_messages_def sample_input_def alice_def str_eval)
  ultimately have run: "add_memory sample_env lenient_engine sample_input sys_new = (Inr acc, s')"
    using p by (auto simp: add_memory_def split: if_splits)
  with add_memory_refines [OF sys_inv_new run] show ?thesis by (auto simp: cands Let_def)
qed

text \<open>C7: \<open>delete_memory\<close>, every outcome. An identifier that names no active fact of the tenant is
  \<open>NotFound\<close> and changes nothing. Otherwise the fact is no longer active and no index record of it is
  left; if there was one, the answer is \<open>true\<close>, one event is logged and no cached context of the tenant
  survives. If there was none the answer is \<open>NotFound\<close> although the fact has been deleted, with
  no event and the cache as it was.\<close>

theorem delete_memory_outcomes:
  assumes "sys_inv s" and "validate_tenant t = Inr ()" and "delete_memory env en t i s = (r, s')"
  shows "case active_facts (s_facts s) t i of
      None \<Rightarrow> r = Inl (Err (NotFound ''memory not found'')) \<and> s' = s
    | Some f \<Rightarrow> active_facts (s_facts s') t = (active_facts (s_facts s) t)(i := None) \<and>
        (\<forall>x \<in> tenant_vectors (s_vectors s') t. v_fact_id x \<noteq> i) \<and>
        (if \<exists>x \<in> tenant_vectors (s_vectors s) t. v_fact_id x = i
         then r = Inr True \<and> (caching en \<longrightarrow> uncached t s') \<and>
           length (sys_log s' t) = length (sys_log s t) + (if s_events s = None then 0 else 1)
         else r = Inl (Err (NotFound (''vector record not found for fact: '' @ uuid_to_string i))) \<and>
           sys_log s' t = sys_log s t \<and> s_cache s' = s_cache s)"
proof (cases "active_facts (s_facts s) t i")
  case None
  then have "on_facts (get_fact t i) s = (Inr None, s)" by (simp add: result_simps)
  with None assms(2,3) show ?thesis by (simp add: delete_memory_def)
next
  case (Some f)
  from assms(1) have wf: "fs_wf (s_facts s)" "vs_wf (s_vectors s)" "ca_wf (s_cache s)"
    by (simp_all add: sys_inv_def stores_wf_def)
  let ?s1 = "s\<lparr>s_facts := snd (soft_delete_fact t i (s_facts s)), s_vectors := snd (delete_by_fact_id t i (s_vectors s))\<rparr>"
  let ?b = "\<lambda>j now. build_delete_event j now t f (en_audit_provider_name en) (en_audit_model_name en)
    (JObject [(''source'', JString ''delete_memory'')])"
  have log: "sys_log ?s1 t = sys_log s t" by (simp add: sys_log_def)
  note base = delete_memory_found [OF assms(2) Some, of env en, unfolded delete_by_fact_id_result [OF wf(2)] assms(3) Let_def]
  note del = soft_delete_active [OF wf(1) Some] tenant_vectors_delete_by_fact_id [OF wf(2)]
  have "ca_wf (s_cache ?s1)" using wf(3) by simp
  from audit_and_invalidate [OF this, of ?b t env en True] obtain s2 j now where
      "seqC (record_audit env t ?b) (seqC (invalidate_user_context_cache en t) (ret True)) ?s1 = (Inr True, s2)"
      "s_facts s2 = s_facts ?s1" "s_vectors s2 = s_vectors ?s1" "caching en \<longrightarrow> uncached t s2"
      "sys_log s2 t = sys_log ?s1 t @ (if s_events ?s1 = None then [] else [?b j now])"
    by auto
  with base Some del log show ?thesis
    by (cases "\<exists>x \<in> tenant_vectors (s_vectors s) t. v_fact_id x = i") (simp_all add: Let_def)
qed

definition unindexed_sys :: sys where
  "unindexed_sys = sys_new\<lparr>s_facts := sample_facts\<rparr>"

lemma sys_inv_unindexed: "sys_inv unindexed_sys"
  using sys_inv_new sample_facts_wf
  by (auto simp: sys_inv_def stores_wf_def unindexed_sys_def sys_new_def facts_valid_def sample_facts_def
      tenant_vectors_def vector_store_new_def hm_values_def fact_valid_def sample_fact_def alice_def bob_def str_eval
      in_unit_interval_def split: if_splits)

theorem delete_memory_outcomes_witness:
  "\<exists>s'. delete_memory sample_env sample_engine alice 1 unindexed_sys =
       (Inl (Err (NotFound (''vector record not found for fact: '' @ uuid_to_string 1))), s') \<and>
     active_facts (s_facts s') alice 1 = None \<and> active_facts (s_facts unindexed_sys) alice 1 \<noteq> None"
proof -
  obtain r s' where run: "delete_memory sample_env sample_engine alice 1 unindexed_sys = (r, s')"
    by (cases "delete_memory sample_env sample_engine alice 1 unindexed_sys") blast
  have "active_facts (s_facts unindexed_sys) alice 1 = Some (sample_fact 1 alice ''likes tea'' 10)"
    "tenant_vectors (s_vectors unindexed_sys) alice = {}" "validate_tenant alice = Inr ()"
    by (simp_all add: unindexed_sys_def sample_facts_def active_facts_def fact_matches_tenant_def sample_fact_def sys_new_def
        tenant_vectors_def vector_store_new_def hm_values_def validate_tenant_def alice_def str_eval)
  with delete_memory_outcomes [OF sys_inv_unindexed _ run] run show ?thesis by auto
qed

text \<open>C6: \<open>forget_user\<close> always succeeds for a well-formed tenant and erases it: no fact of the
  tenant is stored any more, not even among the soft-deleted ones, no index record and no cached context
  is left, and the erasure is the last event of the tenant's log.\<close>

theorem forget_user_erases:
  assumes "sys_inv s" and "validate_tenant t = Inr ()"
  shows "\<exists>s'. forget_user env en t s = (Inr True, s') \<and>
    (\<forall>f \<in> set (hm_values (fs_facts (s_facts s'))). \<not> fact_matches_tenant f t) \<and>
    tenant_vectors (s_vectors s') t = {} \<and> (caching en \<longrightarrow> uncached t s') \<and>
    (s_events s \<noteq> None \<longrightarrow> (\<exists>e. sys_log s' t = sys_log s t @ [e] \<and> e_operation e = EvForgetUser))"
proof -
  let ?b = "\<lambda>i now. build_forget_user_event i now t (en_audit_provider_name en) (en_audit_model_name en)"
  let ?m = "seqC (record_audit env t ?b) (seqC (invalidate_user_context_cache en t) (ret True))"
  from assms(1) have wf: "fs_wf (s_facts s)" "vs_wf (s_vectors s)" "ca_wf (s_cache s)"
    by (simp_all add: sys_inv_def stores_wf_def)
  from clear_user_total [OF wf(1,2), of t ?m] obtain x y where
      run: "forget_user env en t s = ?m (s\<lparr>s_facts := x, s_vectors := y\<rparr>)"
    and xy: "\<forall>f \<in> set (hm_values (fs_facts x)). \<not> fact_matches_tenant f t" "tenant_vectors y t = {}"
    using assms(2) by (auto simp: forget_user_def)
  have "ca_wf (s_cache (s\<lparr>s_facts := x, s_vectors := y\<rparr>))" using wf(3) by simp
  from audit_and_invalidate [OF this, of ?b t env en True] obtain s' i now where
      "?m (s\<lparr>s_facts := x, s_vectors := y\<rparr>) = (Inr True, s')" "s_facts s' = x" "s_vectors s' = y"
      "caching en \<longrightarrow> uncached t s'" "sys_log s' t = sys_log s t @ (if s_events s = None then [] else [?b i now])"
    by (auto simp: sys_log_def)
  moreover have "e_operation (?b i now) = EvForgetUser" by (simp add: event_builders)
  ultimately show ?thesis
    using run xy by (intro exI [of _ s']) auto
qed

theorem forget_user_erases_witness:
  "\<exists>s'. forget_user sample_env sample_engine alice sys_new = (Inr True, s') \<and> uncached alice s'"
  using forget_user_erases [OF sys_inv_new, of alice sample_env sample_engine]
  by (auto simp: validate_tenant_def alice_def str_eval caching_def sample_engine_def)

end
