(* ===== verification/Engine_Data.thy ===== *)
theory Engine_Data
  imports Engine_Effects
begin

text \<open>
  The operations on a whole user: retention, import and export. A dry run predicts the run, and
  an export restores what was exported.
\<close>

section \<open>Retention\<close>

lemma utc_now_eq: "utc_now env s = (Inr (env_utc_now env (s_tick s)), s\<lparr>s_tick := Suc (s_tick s)\<rparr>)"
  by (simp add: utc_now_def tick_def)

lemma cutoff_before_eq:
  "cutoff_before env d s = (time_offset (env_time env) (env_utc_now env (s_tick s)) (- days (unat d)), s\<lparr>s_tick := Suc (s_tick s)\<rparr>)"
  by (simp add: cutoff_before_def utc_now_eq bindC_def)

lemma vector_loop_total:
  "\<exists>y. for_eachC (\<lambda>i _. delete_fact_vectors t i) ids () s = (Inr (), s\<lparr>s_vectors := y\<rparr>)"
proof (induction ids arbitrary: s)
  case Nil
  show ?case by (intro exI [of _ "s_vectors s"]) simp
next
  case (Cons i ids)
  let ?s = "s\<lparr>s_vectors := snd (delete_by_fact_id t i (s_vectors s))\<rparr>"
  from Cons [of ?s] show ?case by (auto simp: delete_fact_vectors_total)
qed

text \<open>The facts of a tenant below a cutoff.\<close>

definition expired_facts :: "tenant_context \<Rightarrow> datetime \<Rightarrow> mock_fact_store \<Rightarrow> uuid set" where
  "expired_facts t cutoff x = {i. \<exists>f. active_facts x t i = Some f \<and> f_updated_at f < cutoff}"

lemma retain_facts_dry_wet:
  assumes "fs_wf (s_facts s)" and "retain_facts env t True d out s = (Inr dry, s1)"
  shows "\<exists>cutoff x y. (\<forall>out'. retain_facts env t False d out' s =
      (Inr (out'\<lparr>ro_facts_matched := ro_facts_matched dry, ro_facts_deleted := ro_facts_matched dry\<rparr>),
       s1\<lparr>s_facts := x, s_vectors := y\<rparr>)) \<and>
    s1 = s\<lparr>s_tick := Suc (s_tick s)\<rparr> \<and>
    time_offset (env_time env) (env_utc_now env (s_tick s)) (- days (unat d)) = Inr cutoff \<and>
    active_facts x t = active_facts (s_facts s) t |` (- expired_facts t cutoff (s_facts s)) \<and>
    dry = out\<lparr>ro_facts_matched := card (expired_facts t cutoff (s_facts s)), ro_facts_deleted := 0\<rparr>"
proof -
  let ?s = "s\<lparr>s_tick := Suc (s_tick s)\<rparr>"
  from assms(2) obtain cutoff where cut: "time_offset (env_time env) (env_utc_now env (s_tick s)) (- days (unat d)) = Inr cutoff"
    by (auto simp: retain_facts_def cutoff_before_eq result_simps)
  obtain r x where r: "delete_facts_older_than t cutoff False (s_facts s) = (Inr r, x)"
    and "distinct (prune_fact_ids r)" "length (prune_fact_ids r) = prune_count r"
    and ids: "set (prune_fact_ids r) = expired_facts t cutoff (s_facts s)"
    and x: "active_facts x = (active_facts (s_facts s))(t := (active_facts (s_facts s) t) |` (- set (prune_fact_ids r)))"
    using delete_facts_older_than_view [OF assms(1), of t cutoff False] by (auto simp: expired_facts_def)
  then have n: "prune_count r = card (expired_facts t cutoff (s_facts s))"
    by (metis distinct_card)
  have dry: "delete_facts_older_than t cutoff True (s_facts s) = (Inr \<lparr>prune_count = prune_count r, prune_fact_ids = []\<rparr>, s_facts s)"
    using r by (auto simp: delete_facts_older_than_def Let_def)
  obtain y where y: "for_eachC (\<lambda>i _. delete_fact_vectors t i) (prune_fact_ids r) () (?s\<lparr>s_facts := x\<rparr>)
      = (Inr (), ?s\<lparr>s_facts := x, s_vectors := y\<rparr>)"
    using vector_loop_total by blast
  have "retain_facts env t False d out' s = (Inr (out'\<lparr>ro_facts_matched := prune_count r, ro_facts_deleted := prune_count r\<rparr>),
      ?s\<lparr>s_facts := x, s_vectors := y\<rparr>)" for out'
    using cut r y by (simp add: retain_facts_def cutoff_before_eq on_facts_def bindC_def seqC_def)
  moreover have "dry = out\<lparr>ro_facts_matched := prune_count r, ro_facts_deleted := 0\<rparr>" "s1 = ?s"
    using assms(2) cut dry by (simp_all add: retain_facts_def cutoff_before_eq on_facts_def bindC_def)
  ultimately show ?thesis
    using cut x ids n by (intro exI [of _ cutoff] exI [of _ x] exI [of _ y]) auto
qed

lemma retain_events_dry_wet:
  assumes "retain_events env t True d store out s = (Inr dry, s1)" and "s_events s = Some store"
  shows "\<exists>m x. s1 = s\<lparr>s_tick := Suc (s_tick s)\<rparr> \<and> dry = out\<lparr>ro_events_matched := m, ro_events_deleted := 0\<rparr> \<and>
    (\<forall>s' out'. s_tick s' = s_tick s \<longrightarrow> retain_events env t False d store out' s' =
      (Inr (out'\<lparr>ro_events_matched := m, ro_events_deleted := m\<rparr>), s'\<lparr>s_tick := Suc (s_tick s'), s_events := Some x\<rparr>))"
proof -
  from assms(1) obtain cutoff where cut: "time_offset (env_time env) (env_utc_now env (s_tick s)) (- days (unat d)) = Inr cutoff"
    by (auto simp: retain_events_def cutoff_before_eq result_simps)
  obtain m x where wet: "delete_events_older_than t cutoff False store = (Inr m, x)"
    by (simp add: delete_events_older_than_def Let_def)
  have dry: "delete_events_older_than t cutoff True store = (Inr m, store)"
    using mock_events.expire_dry_count [of t cutoff store] wet by (simp add: delete_events_older_than_def Let_def)
  have "dry = out\<lparr>ro_events_matched := m, ro_events_deleted := 0\<rparr>" "s1 = s\<lparr>s_tick := Suc (s_tick s)\<rparr>"
    using assms cut dry by (auto simp: retain_events_def cutoff_before_eq on_events_def bindC_def)
  with cut wet show ?thesis
    by (intro exI [of _ m] exI [of _ x]) (simp add: retain_events_def cutoff_before_eq on_events_def bindC_def)
qed

lemma invalidate_if_changed:
  "seqC (if b then invalidate_user_context_cache en t else ret ()) (ret x) s =
     (Inr x, snd ((if b then invalidate_user_context_cache en t else ret ()) s))"
  by (cases b) (simp_all add: seqC_Inr [of "invalidate_user_context_cache en t" s, OF invalidate_total])

text \<open>The two phases of \<open>apply_retention\<close>, for a dry run and for a run.\<close>

definition facts_phase :: "env \<Rightarrow> tenant_context \<Rightarrow> retention_policy \<Rightarrow> bool \<Rightarrow> apply_retention_output eng" where
  "facts_phase env t p dry_run =
     (case fact_days_active p of
        Some d \<Rightarrow> retain_facts env t dry_run d (apply_retention_output_zero dry_run)
      | None \<Rightarrow> ret (apply_retention_output_zero dry_run))"

definition events_phase :: "env \<Rightarrow> tenant_context \<Rightarrow> retention_policy \<Rightarrow> bool \<Rightarrow> apply_retention_output \<Rightarrow> apply_retention_output eng" where
  "events_phase env t p dry_run out =
     bindC (getsC s_events) (\<lambda>events.
     case (event_days_active p, events) of
       (Some d, Some store) \<Rightarrow> retain_events env t dry_run d store out
     | _ \<Rightarrow> ret out)"

lemma apply_retention_phases:
  "apply_retention env en t p dry =
     seqC (liftR (lift_err (validate_tenant t)))
     (if \<not> rp_enabled p then ret (apply_retention_output_zero dry)
      else bindC (facts_phase env t p dry) (\<lambda>out.
           bindC (events_phase env t p dry out) (\<lambda>out.
           seqC (if \<not> dry \<and> 0 < ro_facts_deleted out then invalidate_user_context_cache en t else ret ()) (ret out))))"
  unfolding apply_retention_def facts_phase_def events_phase_def bindC_assoc ..

definition cutoff_of :: "env \<Rightarrow> nat \<Rightarrow> u32 option \<Rightarrow> datetime option" where
  "cutoff_of env n d = map_option (\<lambda>d. env_utc_now env n - days (unat d)) d"

definition expired :: "env \<Rightarrow> tenant_context \<Rightarrow> retention_policy \<Rightarrow> sys \<Rightarrow> uuid set" where
  "expired env t p s = (case cutoff_of env (s_tick s) (fact_days_active p) of
     None \<Rightarrow> {} | Some cutoff \<Rightarrow> expired_facts t cutoff (s_facts s))"

lemma facts_phase_dry_wet:
  assumes "fs_wf (s_facts s)" and "facts_phase env t p True s = (Inr dry, s1)"
  shows "\<exists>n x y. s1 = s\<lparr>s_tick := n\<rparr> \<and>
    dry = (apply_retention_output_zero True)\<lparr>ro_facts_matched := card (expired env t p s)\<rparr> \<and>
    facts_phase env t p False s = (Inr ((apply_retention_output_zero False)\<lparr>ro_facts_matched := card (expired env t p s),
      ro_facts_deleted := card (expired env t p s)\<rparr>), s\<lparr>s_tick := n, s_facts := x, s_vectors := y\<rparr>) \<and>
    active_facts x t = active_facts (s_facts s) t |` (- expired env t p s)"
proof (cases "fact_days_active p")
  case None
  with assms(2) show ?thesis
    by (intro exI [of _ "s_tick s"] exI [of _ "s_facts s"] exI [of _ "s_vectors s"])
      (auto simp: facts_phase_def expired_def cutoff_of_def apply_retention_output_zero_def)
next
  case (Some d)
  with assms(2) have "retain_facts env t True d (apply_retention_output_zero True) s = (Inr dry, s1)"
    by (simp add: facts_phase_def)
  from retain_facts_dry_wet [OF assms(1) this] obtain cutoff x y where
      wet: "\<And>out'. retain_facts env t False d out' s =
        (Inr (out'\<lparr>ro_facts_matched := ro_facts_matched dry, ro_facts_deleted := ro_facts_matched dry\<rparr>),
         s1\<lparr>s_facts := x, s_vectors := y\<rparr>)" and s1: "s1 = s\<lparr>s_tick := Suc (s_tick s)\<rparr>"
    and cut: "time_offset (env_time env) (env_utc_now env (s_tick s)) (- days (unat d)) = Inr cutoff"
    and act: "active_facts x t = active_facts (s_facts s) t |` (- expired_facts t cutoff (s_facts s))"
    and dry: "dry = (apply_retention_output_zero True)\<lparr>ro_facts_matched := card (expired_facts t cutoff (s_facts s)), ro_facts_deleted := 0\<rparr>"
    by blast
  have "cutoff = env_utc_now env (s_tick s) - days (unat d)" using cut by (simp add: time_offset_def split: if_splits)
  then have e: "expired env t p s = expired_facts t cutoff (s_facts s)" using Some by (simp add: expired_def cutoff_of_def)
  show ?thesis
    using Some wet s1 act dry e
    by (intro exI [of _ "Suc (s_tick s)"] exI [of _ x] exI [of _ y]) (simp add: facts_phase_def apply_retention_output_zero_def)
qed

lemma events_phase_dry_wet:
  assumes "events_phase env t p True out s = (Inr dry, s1)" and "ro_events_matched out = 0" and "ro_events_deleted out = 0"
  shows "\<exists>m n ev. s1 = s\<lparr>s_tick := n\<rparr> \<and> dry = out\<lparr>ro_events_matched := m\<rparr> \<and>
    (\<forall>s' out'. s_tick s' = s_tick s \<longrightarrow> s_events s' = s_events s \<longrightarrow> ro_events_matched out' = 0 \<longrightarrow> ro_events_deleted out' = 0 \<longrightarrow>
       events_phase env t p False out' s' = (Inr (out'\<lparr>ro_events_matched := m, ro_events_deleted := m\<rparr>),
         s'\<lparr>s_tick := n, s_events := ev\<rparr>))"
proof (cases "\<exists>d store. event_days_active p = Some d \<and> s_events s = Some store")
  case False
  then have "events_phase env t p dry' out s' = (Inr out, s')" if "s_events s' = s_events s" for dry' out s'
    using that by (auto simp: events_phase_def bindC_def split: option.splits)
  with assms show ?thesis
    by (intro exI [of _ 0] exI [of _ "s_tick s"] exI [of _ "s_events s"]) (auto intro: sym)
next
  case True
  then obtain d store where d: "event_days_active p = Some d" "s_events s = Some store" by blast
  with assms(1) have "retain_events env t True d store out s = (Inr dry, s1)"
    by (simp add: events_phase_def bindC_def)
  from retain_events_dry_wet [OF this d(2)] obtain m x where
      "s1 = s\<lparr>s_tick := Suc (s_tick s)\<rparr>" "dry = out\<lparr>ro_events_matched := m, ro_events_deleted := 0\<rparr>"
    and wet: "\<And>s' out'. s_tick s' = s_tick s \<Longrightarrow> retain_events env t False d store out' s' =
      (Inr (out'\<lparr>ro_events_matched := m, ro_events_deleted := m\<rparr>), s'\<lparr>s_tick := Suc (s_tick s'), s_events := Some x\<rparr>)"
    by blast
  then show ?thesis
    using d assms(3) by (intro exI [of _ m] exI [of _ "Suc (s_tick s)"] exI [of _ "Some x"])
      (simp add: events_phase_def bindC_def)
qed

section \<open>Import\<close>

lemma import_fact_count: "import_fact env t mode x n s = (Inr m, s') \<Longrightarrow> m = Suc n"
  by (auto simp: import_fact_def result_simps)

lemma import_event_count: "import_event env t x n s = (Inr m, s') \<Longrightarrow> s_events s \<noteq> None \<Longrightarrow> m = Suc n \<and> s_events s' \<noteq> None"
  by (auto simp: import_event_def new_v4_def result_simps on_events_def split: prod.splits)

lemma import_facts_count: "for_eachC (import_fact env t mode) xs n s = (Inr m, s') \<Longrightarrow> m = n + length xs"
proof (induction xs arbitrary: n s)
  case (Cons x xs)
  then obtain k s1 where "import_fact env t mode x n s = (Inr k, s1)" and "for_eachC (import_fact env t mode) xs k s1 = (Inr m, s')"
    by (auto simp: result_simps)
  with Cons import_fact_count [of env t mode x n s k s1] show ?case by fastforce
qed simp

lemma import_events_count:
  "for_eachC (import_event env t) xs n s = (Inr m, s') \<Longrightarrow> s_events s \<noteq> None \<Longrightarrow> m = n + length xs"
proof (induction xs arbitrary: n s)
  case (Cons x xs)
  then obtain k s1 where "import_event env t x n s = (Inr k, s1)" and "for_eachC (import_event env t) xs k s1 = (Inr m, s')"
    by (auto simp: result_simps)
  with Cons import_event_count [of env t x n s k s1] show ?case by fastforce
qed simp

text \<open>An event store that is configured stays configured.\<close>

abbreviation logging :: "sys \<Rightarrow> bool" where
  "logging s \<equiv> s_events s \<noteq> None"

lemma logging_steps [pres_intro]:
  "preserves logging (tick f)" "preserves logging (on_facts fo)" "preserves logging (on_vectors vo)"
  by (simp_all add: preserves_def tick_def on_snd)

lemma logging_import_fact: "preserves logging (import_fact env t mode x n)"
  unfolding import_fact_def resolve_import_fact_id_def new_v4_def embed_text_def by (intro pres_intro)

lemma logging_for_each: "preserves logging (for_eachC (import_fact env t mode) xs n)"
  by (rule preserves_for_eachC [OF logging_import_fact])

lemma logging_clear: "preserves logging (if b then clear_for_replace env en t else ret ())"
  unfolding clear_for_replace_def record_audit_def new_v4_def utc_now_def
  by (intro pres_intro) (simp add: record_event_best_effort_def)

section \<open>Restoring an export\<close>

definition embeds :: "env \<Rightarrow> bool" where
  "embeds env \<longleftrightarrow> (\<forall>n text. is_ok (env_embed_text env n text))"

lemma fact_for_import_same:
  "fact_valid f \<Longrightarrow> fact_matches_tenant f t \<Longrightarrow> fact_for_import f t (f_id f) = Inr f"
  by (auto simp: fact_for_import_def fact_new_def fact_valid_def fact_matches_tenant_def validate_non_empty_def
      validate_unit_interval_def)

lemma import_fact_fresh:
  assumes "embeds env" and "fact_valid f" and "fact_matches_tenant f t" and "map_of (fs_facts (s_facts s)) (f_id f) = None"
  shows "\<exists>k y. import_fact env t Replace f n s = (Inr (Suc n),
    s\<lparr>s_facts := (s_facts s)\<lparr>fs_facts := AList.update (f_id f) f (fs_facts (s_facts s))\<rparr>, s_tick := k, s_vectors := y\<rparr>)"
proof -
  obtain e where e: "env_embed_text env (s_tick s) (f_content f) = Inr e"
    using assms(1) by (auto simp: embeds_def is_ok_iff)
  have "record_matches_tenant (vector_record_of i f e) t" for i
    using assms(3) by (simp add: record_matches_tenant_def vector_record_of_def fact_matches_tenant_def)
  then show ?thesis
    using assms(2-4) e
    by (simp add: import_fact_def resolve_import_fact_id_def fact_for_import_same on_facts_def get_fact_def insert_fact_def
        ensure_fact_tenant_def embed_text_def new_v4_def tick_def on_vectors_def upsert_vector_def ensure_record_tenant_def
        bindC_def seqC_def) blast
qed

lemma import_facts_fresh:
  assumes "embeds env" and "fs_wf (s_facts s)" and "distinct (map f_id fs)"
    and "\<And>f. f \<in> set fs \<Longrightarrow> fact_valid f \<and> fact_matches_tenant f t \<and> map_of (fs_facts (s_facts s)) (f_id f) = None"
  shows "\<exists>s'. for_eachC (import_fact env t Replace) fs n s = (Inr (n + length fs), s') \<and>
    active_facts (s_facts s') t = active_facts (s_facts s) t ++ map_of (map (\<lambda>f. (f_id f, f)) fs)"
  using assms
proof (induction fs arbitrary: n s)
  case Nil
  show ?case by simp
next
  case (Cons f fs)
  let ?x = "(s_facts s)\<lparr>fs_facts := AList.update (f_id f) f (fs_facts (s_facts s))\<rparr>"
  from import_fact_fresh [OF Cons.prems(1), of f t s n] Cons.prems(4) obtain k y where
      step: "import_fact env t Replace f n s = (Inr (Suc n), s\<lparr>s_facts := ?x, s_tick := k, s_vectors := y\<rparr>)" by auto
  have ins: "insert_fact t f (s_facts s) = (Inr f, ?x)"
    using Cons.prems(4) by (simp add: insert_fact_def ensure_fact_tenant_def)
  have "fs_wf ?x" using fs_wf_insert_fact [OF Cons.prems(2), of t f] ins by simp
  moreover have "g \<in> set fs \<Longrightarrow> fact_valid g \<and> fact_matches_tenant g t \<and> map_of (fs_facts ?x) (f_id g) = None" for g
    using Cons.prems(3,4) by (auto simp: rev_image_eqI)
  ultimately obtain s' where
      rest: "for_eachC (import_fact env t Replace) fs (Suc n) (s\<lparr>s_facts := ?x, s_tick := k, s_vectors := y\<rparr>) = (Inr (Suc n + length fs), s')"
    and act: "active_facts (s_facts s') t = active_facts ?x t ++ map_of (map (\<lambda>f. (f_id f, f)) fs)"
    using Cons.IH [of "s\<lparr>s_facts := ?x, s_tick := k, s_vectors := y\<rparr>" "Suc n"] Cons.prems(1,3) by auto
  have "f_id f \<notin> fst ` set (map (\<lambda>f. (f_id f, f)) fs)"
    using Cons.prems(3) by (auto simp: image_image)
  then have "active_facts (s_facts s') t = active_facts (s_facts s) t ++ map_of (map (\<lambda>f. (f_id f, f)) (f # fs))"
    using act insert_fact_view [OF Cons.prems(2) ins] by (simp add: map_add_upd_left dom_map_of_conv_image_fst)
  moreover have "for_eachC (import_fact env t Replace) (f # fs) n s = (Inr (n + length (f # fs)), s')"
    using step rest by simp
  ultimately show ?case by blast
qed

lemma exported_facts:
  assumes "fs_wf (s_facts s)" and "export_user_data env t events False s = (Inr x, s1)"
    and "card (dom (active_facts (s_facts s) t)) \<le> page_fetch_limit EXPORT_FACTS_LIMIT"
  shows "validate_tenant t = Inr () \<and> ex_format_version x = USER_EXPORT_FORMAT_VERSION \<and> ex_org_id x = tc_org_id t \<and>
    ex_user_id x = tc_user_id t \<and> distinct (map f_id (ex_facts x)) \<and> set (ex_facts x) = ran (active_facts (s_facts s) t)"
proof -
  let ?A = "active_facts (s_facts s) t"
  let ?q = "\<lparr>q_tenant = t, q_memory_types = None, q_query_text = None, q_limit = EXPORT_FACTS_LIMIT, q_cursor = None,
    q_include_deleted = False\<rparr>"
  let ?L = "filter (fact_query_matches (s_facts s) ?q) (hm_values (fs_facts (s_facts s)))"
  have L: "distinct (map f_id ?L)" using assms(1) by (rule fs_values_distinct)
  have "f \<in> set ?L \<longleftrightarrow> f \<in> ran ?A" for f
  proof -
    have "f \<in> set ?L \<longleftrightarrow> ?A (f_id f) = Some f"
      using active_in_values [OF assms(1), of f t] by (auto simp: fact_query_matches_def fact_query_hits_def)
    also have "\<dots> \<longleftrightarrow> f \<in> ran ?A"
      using assms(1) by (auto simp: ran_def active_facts_Some fs_wf_def)
    finally show ?thesis .
  qed
  then have set: "set ?L = ran ?A" by blast
  have "dom ?A = set (map f_id ?L)"
    using assms(1) set by (force simp: ran_def active_facts_Some fs_wf_def)
  with L have "length ?L = card (dom ?A)" by (metis distinct_card length_map)
  then have "search_facts ?q (s_facts s) = (Inr (sort_by fact_desc_le ?L), s_facts s)"
    using assms(3) by (simp add: search_facts_def fact_after_cursor_def)
  with assms(2) have "ex_facts x = sort_by fact_desc_le ?L" and "validate_tenant t = Inr ()"
      "ex_format_version x = USER_EXPORT_FORMAT_VERSION" "ex_org_id x = tc_org_id t" "ex_user_id x = tc_user_id t"
    by (auto simp: export_user_data_def user_memory_export_new_def result_simps)
  moreover have "distinct (map f_id (sort_by fact_desc_le ?L))"
    using distinct_map_sort_by [OF L, of "length ?L" fact_desc_le] by simp
  ultimately show ?thesis using set by simp
qed

lemma cleared_for_replace:
  assumes "fs_wf (s_facts s)" and "\<And>i f. i \<in> I \<Longrightarrow> map_of (fs_facts (s_facts s)) i = Some f \<Longrightarrow> fact_matches_tenant f t"
  shows "\<exists>s'. clear_for_replace env en t s = (Inr (), s') \<and> fs_wf (s_facts s') \<and> active_facts (s_facts s') t = Map.empty \<and>
    (\<forall>i \<in> I. map_of (fs_facts (s_facts s')) i = None)"
proof -
  let ?x = "snd (delete_user_data t (s_facts s))" and ?y = "snd (delete_by_user t (s_vectors s))"
  obtain n ev where "record_audit env t (\<lambda>i now. build_import_replace_event i now t (en_audit_provider_name en) (en_audit_model_name en))
      (s\<lparr>s_facts := ?x, s_vectors := ?y\<rparr>) = (Inr (), s\<lparr>s_facts := ?x, s_vectors := ?y, s_tick := n, s_events := ev\<rparr>)"
    using record_audit_frame by blast
  then have "clear_for_replace env en t s = (Inr (), s\<lparr>s_facts := ?x, s_vectors := ?y, s_tick := n, s_events := ev\<rparr>)"
    by (simp add: clear_for_replace_def on_facts_def on_vectors_def delete_user_data_def delete_by_user_def Let_def)
  moreover have "fs_wf ?x" by (rule fs_wf_delete_user_data [OF assms(1)])
  moreover have "active_facts ?x t = Map.empty"
    using delete_user_data_view [OF assms(1), of t] by auto
  moreover have "map_of (fs_facts ?x) i = None" if "i \<in> I" for i
    using assms(1) assms(2) [OF that]
    by (auto simp: delete_user_data_def Let_def map_of_hm_retain fs_wf_def not_of_tenant_def fact_matches_tenant_def split: option.split)
  ultimately show ?thesis by auto
qed

section \<open>Properties\<close>

text \<open>C12: A dry run of retention changes no store, and predicts the run: started in the same state, the
  run succeeds as well, matches and deletes as many facts and events as the dry run matched, leaves exactly
  the tenant's facts that were updated within the policy's number of days, and invalidates the tenant's
  cached contexts when it deleted a fact.\<close>

theorem retention_dry_run_predicts:
  assumes "sys_inv s" and "apply_retention env en t p True s = (Inr dry, s1)"
  shows "s_facts s1 = s_facts s \<and> s_vectors s1 = s_vectors s \<and> s_events s1 = s_events s \<and> s_cache s1 = s_cache s \<and>
    (\<exists>wet s2. apply_retention env en t p False s = (Inr wet, s2) \<and>
      ro_facts_matched wet = ro_facts_matched dry \<and> ro_facts_deleted wet = ro_facts_matched dry \<and>
      ro_events_matched wet = ro_events_matched dry \<and> ro_events_deleted wet = ro_events_matched dry \<and>
      (rp_enabled p \<longrightarrow> active_facts (s_facts s2) t = active_facts (s_facts s) t |` (- expired env t p s) \<and>
         ro_facts_deleted wet = card (expired env t p s)) \<and>
      (0 < ro_facts_deleted wet \<longrightarrow> caching en \<longrightarrow> uncached t s2))"
proof (cases "rp_enabled p")
  case False
  with assms(2) show ?thesis
    by (auto simp: apply_retention_phases result_simps apply_retention_output_zero_def split: if_splits)
next
  case True
  with assms(2) obtain d1 u1 where ok: "validate_tenant t = Inr ()"
    and f: "facts_phase env t p True s = (Inr d1, u1)" and e: "events_phase env t p True d1 u1 = (Inr dry, s1)"
    by (auto simp: apply_retention_phases result_simps split: if_splits)
  have wf: "fs_wf (s_facts s)" using assms(1) by (simp add: sys_inv_def stores_wf_def)
  let ?n = "card (expired env t p s)"
  from facts_phase_dry_wet [OF wf f] obtain n x y where u1: "u1 = s\<lparr>s_tick := n\<rparr>"
    and d1: "d1 = (apply_retention_output_zero True)\<lparr>ro_facts_matched := ?n\<rparr>"
    and wf1: "facts_phase env t p False s = (Inr ((apply_retention_output_zero False)\<lparr>ro_facts_matched := ?n, ro_facts_deleted := ?n\<rparr>),
        s\<lparr>s_tick := n, s_facts := x, s_vectors := y\<rparr>)"
    and act: "active_facts x t = active_facts (s_facts s) t |` (- expired env t p s)" by blast
  from events_phase_dry_wet [OF e] d1 obtain m k ev where s1: "s1 = u1\<lparr>s_tick := k\<rparr>" and dry: "dry = d1\<lparr>ro_events_matched := m\<rparr>"
    and wet: "\<And>s' out'. s_tick s' = s_tick u1 \<Longrightarrow> s_events s' = s_events u1 \<Longrightarrow> ro_events_matched out' = 0 \<Longrightarrow>
        ro_events_deleted out' = 0 \<Longrightarrow> events_phase env t p False out' s' =
        (Inr (out'\<lparr>ro_events_matched := m, ro_events_deleted := m\<rparr>), s'\<lparr>s_tick := k, s_events := ev\<rparr>)"
    by (auto simp: apply_retention_output_zero_def)
  let ?out = "(apply_retention_output_zero False)\<lparr>ro_facts_matched := ?n, ro_facts_deleted := ?n, ro_events_matched := m, ro_events_deleted := m\<rparr>"
  let ?s2 = "s\<lparr>s_facts := x, s_vectors := y, s_tick := k, s_events := ev\<rparr>"
  let ?fin = "(if 0 < ?n then invalidate_user_context_cache en t else ret ())"
  have "apply_retention env en t p False s = seqC ?fin (ret ?out) ?s2"
    using ok True wf1 wet [of "s\<lparr>s_tick := n, s_facts := x, s_vectors := y\<rparr>"] u1
    by (simp add: apply_retention_phases apply_retention_output_zero_def)
  also have "\<dots> = (Inr ?out, snd (?fin ?s2))"
    by (rule invalidate_if_changed)
  finally have run: "apply_retention env en t p False s = (Inr ?out, snd (?fin ?s2))" .
  have "0 < ?n \<Longrightarrow> caching en \<Longrightarrow> uncached t (snd (?fin ?s2))"
    using invalidate_uncached [of ?s2 en t] assms(1) by (simp add: sys_inv_def stores_wf_def)
  with run act dry d1 s1 u1 show ?thesis
    by (auto simp: frame_simps apply_retention_output_zero_def)
qed

theorem retention_dry_run_predicts_witness:
  "\<exists>wet s2. apply_retention sample_env sample_engine alice
      \<lparr>rp_enabled = True, rp_fact_retention_days = Some 1, rp_event_retention_days = None\<rparr> False unindexed_sys = (Inr wet, s2) \<and>
     ro_facts_deleted wet = card (expired sample_env alice \<lparr>rp_enabled = True, rp_fact_retention_days = Some 1, rp_event_retention_days = None\<rparr> unindexed_sys)"
proof -
  let ?p = "\<lparr>rp_enabled = True, rp_fact_retention_days = Some 1, rp_event_retention_days = None\<rparr>"
  have "\<exists>dry s1. apply_retention sample_env sample_engine alice ?p True unindexed_sys = (Inr dry, s1)"
    by (simp add: apply_retention_def fact_days_active_def event_days_active_def active_days_def retain_facts_def cutoff_before_eq
        time_offset_def days_def run_simps unindexed_sys_def sys_new_def sample_env_def delete_facts_older_than_def Let_def)
  then obtain dry s1 where run: "apply_retention sample_env sample_engine alice ?p True unindexed_sys = (Inr dry, s1)" by blast
  show ?thesis
    using retention_dry_run_predicts [OF sys_inv_unindexed run] by auto
qed

text \<open>C11: An import is validated as a whole before anything is written. A dry run never fails once
  the tenant is well-formed and changes nothing; when it reports a problem, the real import answers a validation
  error and has written nothing; when it reports none and the real import succeeds, the dry run had
  predicted its counts.\<close>

theorem import_dry_run_predicts:
  assumes "validate_tenant (im_tenant i) = Inr ()"
  shows "\<exists>p. import_user_data env en (i\<lparr>im_dry_run := True\<rparr>) s = (Inr p, s) \<and>
    (\<not> va_valid (io_validation p) \<longrightarrow>
       (\<exists>m. import_user_data env en (i\<lparr>im_dry_run := False\<rparr>) s = (Inl (Err (ValidationError m)), s))) \<and>
    (\<forall>out s'. import_user_data env en (i\<lparr>im_dry_run := False\<rparr>) s = (Inr out, s') \<longrightarrow>
       va_valid (io_validation p) \<and> io_imported_facts out = io_imported_facts p \<and>
       io_imported_events out = io_imported_events p \<and> io_replaced_existing out = io_replaced_existing p)"
proof -
  let ?v = "collect_import_validation (im_export i) (im_tenant i) (im_restore_events i)"
  let ?p = "dry_run_output (i\<lparr>im_dry_run := True\<rparr>) ?v (s_events s \<noteq> None)"
  have dry: "import_user_data env en (i\<lparr>im_dry_run := True\<rparr>) s = (Inr ?p, s)"
    using assms by (simp add: import_user_data_def bindC_def)
  have v: "io_validation ?p = ?v" by (simp add: dry_run_output_def)
  have invalid: "\<exists>m. import_user_data env en (i\<lparr>im_dry_run := False\<rparr>) s = (Inl (Err (ValidationError m)), s)"
    if "\<not> va_valid ?v"
    using assms that by (simp add: import_user_data_def bindC_def)
  have valid: "io_imported_facts out = io_imported_facts ?p \<and> io_imported_events out = io_imported_events ?p \<and>
      io_replaced_existing out = io_replaced_existing ?p"
    if ok: "va_valid ?v" and run: "import_user_data env en (i\<lparr>im_dry_run := False\<rparr>) s = (Inr out, s')" for out s'
  proof -
    from run assms ok obtain nf ne s1 s2 s3 where
        c: "(if im_mode i = Replace then clear_for_replace env en (im_tenant i) else ret ()) s = (Inr (), s1)"
      and f: "for_eachC (import_fact env (im_tenant i) (im_mode i)) (ex_facts (im_export i)) 0 s1 = (Inr nf, s2)"
      and e: "(if im_restore_events i \<and> s_events s \<noteq> None
          then for_eachC (import_event env (im_tenant i)) (ex_memory_events (im_export i)) 0 else ret 0) s2 = (Inr ne, s3)"
      and out: "io_imported_facts out = nf" "io_imported_events out = ne" "io_replaced_existing out = (im_mode i = Replace)"
      by (auto simp: import_user_data_def result_simps Let_def simp del: ret_apply cong: if_cong)
    have "s_events s2 \<noteq> None" if "s_events s \<noteq> None"
      using preserves_result [OF logging_for_each preserves_result [OF logging_clear that c] f] .
    with e import_events_count [of env "im_tenant i" "ex_memory_events (im_export i)" 0 s2 ne s3]
    have "ne = (if im_restore_events i \<and> s_events s \<noteq> None then length (ex_memory_events (im_export i)) else 0)"
      by (auto split: if_splits)
    with ok out import_facts_count [OF f] show ?thesis by (auto simp: dry_run_output_def)
  qed
  have ok: "va_valid ?v" if "import_user_data env en (i\<lparr>im_dry_run := False\<rparr>) s = (Inr out, s')" for out s'
    using invalid that by (cases "va_valid ?v") auto
  show ?thesis
  proof (rule exI [of _ ?p], intro conjI allI impI)
    show "\<exists>m. import_user_data env en (i\<lparr>im_dry_run := False\<rparr>) s = (Inl (Err (ValidationError m)), s)"
      if "\<not> va_valid (io_validation ?p)"
      using invalid that unfolding v .
    fix out s' assume run: "import_user_data env en (i\<lparr>im_dry_run := False\<rparr>) s = (Inr out, s')"
    show "va_valid (io_validation ?p)" unfolding v by (rule ok [OF run])
    show "io_imported_facts out = io_imported_facts ?p" "io_imported_events out = io_imported_events ?p"
      "io_replaced_existing out = io_replaced_existing ?p"
      using valid [OF ok [OF run] run] by blast+
  qed (rule dry)
qed

definition sample_import :: import_user_data_input where
  "sample_import =
     \<lparr>im_tenant = alice, im_export = user_memory_export_new 0 ''acme'' ''alice'' [sample_fact 1 alice ''likes tea'' 10] [],
      im_mode = Append, im_restore_events = False, im_dry_run = False\<rparr>"

theorem import_dry_run_predicts_witness:
  "\<exists>p. import_user_data sample_env sample_engine (sample_import\<lparr>im_dry_run := True\<rparr>) sys_new = (Inr p, sys_new)"
  using import_dry_run_predicts [of sample_import sample_env sample_engine sys_new]
  by (auto simp: sample_import_def validate_tenant_def alice_def str_eval)

text \<open>C10: Export and import are inverse on a tenant's facts. If every active fact fits the export and no
  metadata has a forbidden key, then the export of a tenant, imported in replace mode into any well-formed system in
  which no other tenant uses the same identifiers, succeeds as long as texts can be embedded, and the tenant's
  active facts are again exactly the exported ones.\<close>

theorem export_import_roundtrip:
  assumes "sys_inv s" and "export_user_data env t events False s = (Inr x, s1)"
    and "card (dom (active_facts (s_facts s) t)) \<le> page_fetch_limit EXPORT_FACTS_LIMIT"
    and "\<And>f k. f \<in> ran (active_facts (s_facts s) t) \<Longrightarrow> k \<in> json_keys (f_metadata f) \<Longrightarrow> \<not> forbidden_metadata_key k"
    and "sys_inv s2" and "embeds env"
    and "\<And>i f. i \<in> dom (active_facts (s_facts s) t) \<Longrightarrow> map_of (fs_facts (s_facts s2)) i = Some f \<Longrightarrow> fact_matches_tenant f t"
  shows "\<exists>out s3. import_user_data env en \<lparr>im_tenant = t, im_export = x, im_mode = Replace, im_restore_events = False,
      im_dry_run = False\<rparr> s2 = (Inr out, s3) \<and>
    io_imported_facts out = card (dom (active_facts (s_facts s) t)) \<and>
    active_facts (s_facts s3) t = active_facts (s_facts s) t"
proof -
  let ?A = "active_facts (s_facts s) t" and ?fs = "ex_facts x"
  let ?i = "\<lparr>im_tenant = t, im_export = x, im_mode = Replace, im_restore_events = False, im_dry_run = False\<rparr>"
  have wf: "fs_wf (s_facts s)" "facts_valid (s_facts s)" "fs_wf (s_facts s2)"
    using assms(1,5) by (simp_all add: sys_inv_def stores_wf_def)
  note ex = exported_facts [OF wf(1) assms(2,3)]
  have fs: "fact_valid f \<and> fact_matches_tenant f t \<and> ?A (f_id f) = Some f" if "f \<in> set ?fs" for f
    using that ex wf(1,2) by (auto simp: ran_def active_facts_Some facts_valid_def fs_wf_def)
  then have "importable_fact t f" if "f \<in> set ?fs" for f
    using that ex assms(4) [of f] by (auto simp: importable_fact_def fact_valid_def)
  with ex have valid: "va_valid (collect_import_validation x t False)" by (simp add: import_valid_iff)
  obtain u where u: "clear_for_replace env en t s2 = (Inr (), u)" "fs_wf (s_facts u)" "active_facts (s_facts u) t = Map.empty"
      "\<forall>i \<in> dom ?A. map_of (fs_facts (s_facts u)) i = None"
    using cleared_for_replace [OF wf(3), of "dom ?A" t env en] assms(7) by blast
  have "fact_valid f \<and> fact_matches_tenant f t \<and> map_of (fs_facts (s_facts u)) (f_id f) = None" if "f \<in> set ?fs" for f
    using fs [OF that] u(4) by auto
  with import_facts_fresh [OF assms(6) u(2), of ?fs t 0] ex obtain v where
      v: "for_eachC (import_fact env t Replace) ?fs 0 u = (Inr (length ?fs), v)"
        "active_facts (s_facts v) t = map_of (map (\<lambda>f. (f_id f, f)) ?fs)"
    using u(3) by auto
  have A: "map_of (map (\<lambda>f. (f_id f, f)) ?fs) = ?A"
  proof
    fix i
    show "map_of (map (\<lambda>f. (f_id f, f)) ?fs) i = ?A i"
    proof (cases "?A i")
      case None
      then have "i \<notin> f_id ` set ?fs" using fs by force
      with None show ?thesis by (simp add: map_of_eq_None_iff image_image)
    next
      case (Some f)
      then have "f \<in> set ?fs" "f_id f = i" using ex wf(1) by (auto simp: ran_def active_facts_Some fs_wf_def)
      then show ?thesis using ex Some by (intro map_of_is_SomeI [THEN trans]) (auto simp: comp_def)
    qed
  qed
  have "dom ?A = f_id ` set ?fs"
    unfolding A [symmetric] by (simp add: dom_map_of_conv_image_fst image_image)
  then have "length ?fs = card (dom ?A)"
    using ex distinct_card [of "map f_id ?fs"] by simp
  moreover have "import_user_data env en ?i s2 = (Inr \<lparr>io_imported_facts = length ?fs, io_imported_events = 0, io_skipped_facts = 0,
      io_replaced_existing = True, io_dry_run = False, io_validation = collect_import_validation x t False\<rparr>,
      snd (invalidate_user_context_cache en t v))"
    using ex valid u(1) v(1) invalidate_total [of en t v]
    by (simp add: import_user_data_def bindC_def Let_def)
  ultimately show ?thesis
    using A v(2) by (auto simp: frame_simps)
qed

theorem export_import_roundtrip_witness:
  "\<exists>x s1 out s3. export_user_data sample_env alice False False unindexed_sys = (Inr x, s1) \<and>
     import_user_data sample_env sample_engine \<lparr>im_tenant = alice, im_export = x, im_mode = Replace, im_restore_events = False,
       im_dry_run = False\<rparr> sys_new = (Inr out, s3) \<and>
     active_facts (s_facts s3) alice = [1 \<mapsto> sample_fact 1 alice ''likes tea'' 10]"
proof -
  have "\<exists>x s1. export_user_data sample_env alice False False unindexed_sys = (Inr x, s1)"
    by (simp add: export_user_data_def run_simps search_facts_def)
  then obtain x s1 where run: "export_user_data sample_env alice False False unindexed_sys = (Inr x, s1)" by blast
  have A: "active_facts (s_facts unindexed_sys) alice = [1 \<mapsto> sample_fact 1 alice ''likes tea'' 10]"
    by (auto simp: fun_eq_iff active_facts_def unindexed_sys_def sample_facts_def fact_matches_tenant_def sample_fact_def
        alice_def bob_def)
  moreover have "embeds sample_env" by (simp add: embeds_def sample_env_def)
  moreover have "json_keys (f_metadata (sample_fact 1 alice ''likes tea'' 10)) = {}" by (simp add: sample_fact_def)
  moreover have "fs_facts (s_facts sys_new) = []" by (simp add: sys_new_def fact_store_new_def)
  ultimately show ?thesis
    using export_import_roundtrip [OF sys_inv_unindexed run _ _ sys_inv_new, where en = sample_engine] run
    by (auto simp: page_fetch_limit_def EXPORT_FACTS_LIMIT_def MAX_LIST_MEMORIES_LIMIT_def usize_saturating_add_def usize_max_def)
qed

end
