(* ===== verification/Engine_Reads.thy ===== *)
theory Engine_Reads
  imports Engine_Data
begin

text \<open>
  What the reading operations of the engine answer: a search returns current facts of the tenant, and
  following the cursors of a listing visits every fact once.
\<close>

section \<open>The loop over the fused candidates\<close>

definition scored_of ::
  "engine \<Rightarrow> datetime \<Rightarrow> (uuid \<rightharpoonup> vector_search_result) \<Rightarrow> (uuid \<rightharpoonup> fact) \<Rightarrow> (uuid \<rightharpoonup> fact) \<Rightarrow> uuid \<times> f32 \<Rightarrow> scored_result list" where
  "scored_of en now V K A cand =
     (case (case K (fst cand) of Some f \<Rightarrow> Some f | None \<Rightarrow> A (fst cand)) of
        None \<Rightarrow> [] | Some f \<Rightarrow> [score_fact en now (V (fst cand)) (snd cand) f])"

lemma score_candidate_eq:
  "score_candidate en t now V K cand acc s = (Inr (acc @ scored_of en now V K (active_facts (s_facts s) t) cand), s)"
proof -
  have get: "on_facts (get_fact t i) s = (Inr (active_facts (s_facts s) t i), s)" for i
    by (simp add: result_simps)
  show ?thesis
    by (cases cand) (simp add: score_candidate_def scored_of_def get bindC_def split: option.split)
qed

lemma score_loop:
  "for_eachC (score_candidate en t now V K) cands acc s =
     (Inr (acc @ concat (map (scored_of en now V K (active_facts (s_facts s) t)) cands)), s)"
  by (induction cands arbitrary: acc) (simp_all add: score_candidate_eq bindC_def)

lemma fused_keys:
  "distinct (map fst (reciprocal_rank_fusion sem kw cfg))"
  "i \<in> fst ` set (reciprocal_rank_fusion sem kw cfg) \<Longrightarrow> i \<in> rk_fact_id ` set sem \<or> i \<in> rk_fact_id ` set kw"
proof -
  let ?scores = "rrf_scores (normalized cfg) sem kw"
  have out: "reciprocal_rank_fusion sem kw cfg = sort_by fused_le ?scores"
    by (simp add: reciprocal_rank_fusion_def rrf_scores_def Let_def)
  then show "distinct (map fst (reciprocal_rank_fusion sem kw cfg))"
    using rrf_scores_wf [of "normalized cfg" sem kw] distinct_map_sort_by [of fst ?scores "length ?scores" fused_le]
    by (simp add: hm_wf_def)
  assume "i \<in> fst ` set (reciprocal_rank_fusion sem kw cfg)"
  then have "map_of ?scores i \<noteq> None" by (simp add: out map_of_eq_None_iff)
  then have "first_rank sem i \<noteq> None \<or> first_rank kw i \<noteq> None"
    by (auto simp: rrf_scores_map rrf_score_def Let_def split: option.splits)
  then show "i \<in> rk_fact_id ` set sem \<or> i \<in> rk_fact_id ` set kw"
    by (auto simp: first_rank_def find_None_iff)
qed

lemma candidate_ids:
  "map rk_fact_id (semantic_candidates rs) = map vr_fact_id rs" "map rk_fact_id (keyword_candidates fs) = map f_id fs"
  by (rule nth_equalityI; simp add: semantic_candidates_def keyword_candidates_def nth_enumerate_eq)+

lemma semantic_ids: "rk_fact_id ` set (semantic_candidates rs) = vr_fact_id ` set rs"
  and keyword_ids: "rk_fact_id ` set (keyword_candidates fs) = f_id ` set fs"
  using candidate_ids by (metis list.set_map)+

lemma collect_map_Some: "collect_map (map (\<lambda>x. (k x, x)) xs) i = Some x \<Longrightarrow> x \<in> set xs \<and> k x = i"
  by (auto simp: collect_map_def dest!: map_of_SomeD)

lemma collect_map_None: "collect_map (map (\<lambda>x. (k x, x)) xs) i = None \<longleftrightarrow> i \<notin> k ` set xs"
  by (simp add: collect_map_def map_of_eq_None_iff image_image)

section \<open>Searching\<close>

definition search_vector_query :: "search_memory_input \<Rightarrow> nat \<Rightarrow> f32 list \<Rightarrow> vector_search_query" where
  "search_vector_query i limit e =
     \<lparr>vq_tenant = si_tenant i, vq_embedding = e, vq_limit = internal_search_limit limit, vq_memory_types = si_memory_types i,
      vq_metadata_filter = si_metadata_filter i\<rparr>"

definition search_fact_query :: "search_memory_input \<Rightarrow> nat \<Rightarrow> fact_search_query" where
  "search_fact_query i limit =
     \<lparr>q_tenant = si_tenant i, q_memory_types = si_memory_types i, q_query_text = Some (si_query i),
      q_limit = internal_search_limit limit, q_cursor = None, q_include_deleted = False\<rparr>"

lemma search_memory_Inr:
  assumes "search_memory env en i s = (Inr rs, s')"
  shows "\<exists>e vrs kfs now. normalize_search_limit (si_limit i) = Inr (si_limit i) \<and>
    search_vectors (search_vector_query i (si_limit i) e) (s_vectors s) = (Inr vrs, s_vectors s) \<and>
    search_facts (search_fact_query i (si_limit i)) (s_facts s) = (Inr kfs, s_facts s) \<and>
    s_facts s' = s_facts s \<and> s_vectors s' = s_vectors s \<and> s_cache s' = s_cache s \<and> s_events s' = s_events s \<and>
    rs = map (\<lambda>x. (sr_result x)\<lparr>r_score := sr_rrf x\<rparr>) (take (si_limit i) (sort_by scored_le
      (concat (map (scored_of en now (collect_map (map (\<lambda>r. (vr_fact_id r, r)) vrs)) (collect_map (map (\<lambda>f. (f_id f, f)) kfs))
         (active_facts (s_facts s) (si_tenant i)))
       (reciprocal_rank_fusion (semantic_candidates vrs) (keyword_candidates kfs) (en_rrf_config en))))))"
proof -
  from assms obtain u limit e s1 vrs s2 kfs s3 now s4 where
      lim: "normalize_search_limit (si_limit i) = Inr limit" and b: "bind_usage_attribution (si_tenant i) s = (Inr (), u)"
    and em: "embed_text env (si_query i) u = (Inr e, s1)"
    and v: "on_vectors (search_vectors (search_vector_query i limit e)) s1 = (Inr vrs, s2)"
    and k: "on_facts (search_facts (search_fact_query i limit)) s2 = (Inr kfs, s3)"
    and n: "utc_now env s3 = (Inr now, s4)" and s': "s' = s4"
    and rs: "rs = map (\<lambda>x. (sr_result x)\<lparr>r_score := sr_rrf x\<rparr>) (take limit (sort_by scored_le
      (concat (map (scored_of en now (collect_map (map (\<lambda>r. (vr_fact_id r, r)) vrs)) (collect_map (map (\<lambda>f. (f_id f, f)) kfs))
         (active_facts (s_facts s4) (si_tenant i)))
       (reciprocal_rank_fusion (semantic_candidates vrs) (keyword_candidates kfs) (en_rrf_config en))))))"
    unfolding search_memory_def Let_def seqC_eq_Inr bindC_eq_Inr search_vector_query_def search_fact_query_def score_loop
    by (auto simp: result_simps)
  have "limit = si_limit i"
    using lim by (auto simp: normalize_search_limit_def bounded_limit_def split: if_splits)
  moreover have u: "\<exists>a. u = s\<lparr>s_usage_attribution := a\<rparr>" using b by (auto simp: bind_usage_attribution_def)
  moreover have s1: "s1 = u\<lparr>s_tick := Suc (s_tick u)\<rparr>" using em by (rule embed_text_frame)
  moreover have s2: "s2 = s1" "search_vectors (search_vector_query i limit e) (s_vectors s1) = (Inr vrs, s_vectors s1)"
    using v by (auto simp: result_simps search_vectors_def)
  moreover have s3: "s3 = s2" "search_facts (search_fact_query i limit) (s_facts s2) = (Inr kfs, s_facts s2)"
    using k by (auto simp: result_simps search_facts_def)
  moreover have s4: "s4 = s3\<lparr>s_tick := Suc (s_tick s3)\<rparr>" using n by (simp add: utc_now_eq)
  ultimately show ?thesis
    using lim rs s' by (intro exI [of _ e] exI [of _ vrs] exI [of _ kfs] exI [of _ now]) auto
qed

text \<open>What a search result says is what the fact says.\<close>

definition result_agrees :: "memory_search_result \<Rightarrow> fact \<Rightarrow> bool" where
  "result_agrees r f \<longleftrightarrow> r_content r = f_content f \<and> r_memory_type r = f_memory_type f \<and> r_metadata r = f_metadata f \<and>
     r_confidence r = f_confidence f \<and> r_importance r = f_importance f \<and> r_valid_at r = f_valid_at f"

lemma keyword_hit:
  assumes "fs_wf x" and "search_facts (search_fact_query i n) x = (Inr kfs, y)" and "f \<in> set kfs"
  shows "active_facts x (si_tenant i) (f_id f) = Some f \<and> is_none_or (si_memory_types i) (\<lambda>types. f_memory_type f \<in> set types)"
  using search_facts_mem [OF assms(2,3)] active_in_values [OF assms(1), of f "si_tenant i"]
  by (auto simp: fact_query_matches_def fact_query_hits_def search_fact_query_def)

lemma semantic_hit:
  assumes "sys_inv s" and "search_vectors (search_vector_query i n e) (s_vectors s) = (Inr vrs, y)" and "v \<in> set vrs"
  shows "\<exists>f. active_facts (s_facts s) (si_tenant i) (vr_fact_id v) = Some f \<and> vr_content v = f_content f \<and>
    vr_metadata v = f_metadata f \<and> is_none_or (si_memory_types i) (\<lambda>types. f_memory_type f \<in> set types)"
proof -
  from assms(2,3) obtain r where r: "v = score_record e r" "r \<in> set (hm_values (vs_records (s_vectors s)))"
      "vector_query_matches (search_vector_query i n e) r"
    by (auto simp: search_vectors_def search_vector_query_def dest!: in_set_takeD)
  then have "r \<in> tenant_vectors (s_vectors s) (si_tenant i)"
    by (simp add: tenant_vectors_def vector_query_matches_def search_vector_query_def)
  with assms(1) obtain f where "active_facts (s_facts s) (si_tenant i) (v_fact_id r) = Some f" "record_agrees r f"
    unfolding sys_inv_def by blast
  with r show ?thesis
    by (auto simp: score_record_def record_agrees_def vector_query_matches_def search_vector_query_def)
qed

lemma scored_ids:
  assumes "\<And>i f. K i = Some f \<Longrightarrow> f_id f = i" and "\<And>i f. A i = Some f \<Longrightarrow> f_id f = i"
    and "x \<in> set (scored_of en now V K A c)"
  shows "r_fact_id (sr_result x) = fst c"
  using assms by (auto simp: scored_of_def score_fact_def Let_def split: option.splits)

lemma scored_distinct:
  assumes "distinct (map fst cs)" and "\<And>i f. K i = Some f \<Longrightarrow> f_id f = i" and "\<And>i f. A i = Some f \<Longrightarrow> f_id f = i"
  shows "distinct (map (\<lambda>x. r_fact_id (sr_result x)) (concat (map (scored_of en now V K A) cs)))"
  using assms(1)
proof (induction cs)
  case (Cons c cs)
  have id: "r_fact_id (sr_result x) = fst c" if "x \<in> set (scored_of en now V K A c)" for x c
    by (rule scored_ids [OF assms(2,3) that])
  have ids: "r_fact_id (sr_result x) \<in> fst ` set cs" if "x \<in> set (concat (map (scored_of en now V K A) cs))" for x
    using that id by force
  have "distinct (map (\<lambda>x. r_fact_id (sr_result x)) (scored_of en now V K A c))"
    by (simp add: scored_of_def split: option.split)
  moreover have "r_fact_id (sr_result x) \<noteq> r_fact_id (sr_result y)"
    if "x \<in> set (scored_of en now V K A c)" "y \<in> set (concat (map (scored_of en now V K A) cs))" for x y
    using id [OF that(1)] ids [OF that(2)] Cons.prems by (metis distinct.simps(2) list.set_map list.simps(9))
  ultimately show ?case
    using Cons by (auto simp: image_iff)
qed simp

section \<open>Listing\<close>

text \<open>A client that follows \<open>next_cursor\<close>. \<open>None\<close> is a walk that failed or did not end within the number of
  requests.\<close>

fun list_walk :: "env \<Rightarrow> list_memories_input \<Rightarrow> nat \<Rightarrow> string option \<Rightarrow> sys \<Rightarrow> fact list option" where
  "list_walk env i 0 c s = None"
| "list_walk env i (Suc n) c s =
     (case list_memories env (i\<lparr>li_cursor := c\<rparr>) s of
        (Inl _, _) \<Rightarrow> None
      | (Inr p, s') \<Rightarrow>
          (case p_next_cursor p of
             None \<Rightarrow> Some (p_items p)
           | Some c' \<Rightarrow> map_option (\<lambda>xs. p_items p @ xs) (list_walk env i n (Some c') s')))"

definition list_query :: "list_memories_input \<Rightarrow> page_cursor option \<Rightarrow> fact_search_query" where
  "list_query i c =
     \<lparr>q_tenant = li_tenant i, q_memory_types = map_option (\<lambda>mt. [mt]) (li_memory_type i), q_query_text = li_query_text i,
      q_limit = li_limit i, q_cursor = c, q_include_deleted = li_include_deleted i\<rparr>"

text \<open>The facts a listing is about, newest first.\<close>

definition listed :: "list_memories_input \<Rightarrow> mock_fact_store \<Rightarrow> fact list" where
  "listed i x = sort_by fact_desc_le (filter (fact_query_matches x (list_query i None)) (hm_values (fs_facts x)))"

definition listing_ok :: "list_memories_input \<Rightarrow> bool" where
  "listing_ok i \<longleftrightarrow> validate_tenant (li_tenant i) = Inr () \<and> 0 < li_limit i \<and> li_limit i \<le> MAX_LIST_MEMORIES_LIMIT"

lemma search_facts_listed:
  "search_facts (list_query i c) x = (Inr (take (page_fetch_limit (li_limit i)) (filter (fact_after_cursor c) (listed i x))), x)"
proof -
  have "fact_query_matches x (list_query i c) = fact_query_matches x (list_query i None)"
    by (simp add: fun_eq_iff fact_query_matches_def fact_query_hits_def list_query_def)
  then show ?thesis
    by (simp add: search_facts_def listed_def list_query_def sort_by_filter [OF fact_desc_le_total] del: filter_filter)
qed

lemma list_memories_page:
  assumes "listing_ok i" and "parse_optional_cursor (env_codec env) c = Inr pc"
  shows "list_memories env (i\<lparr>li_cursor := c\<rparr>) s =
    (build_page (env_codec env) (take (Suc (li_limit i)) (filter (fact_after_cursor pc) (listed i (s_facts s)))) (li_limit i) fact_cursor, s)"
proof -
  have "on_facts (search_facts (list_query i pc)) s =
      (Inr (take (Suc (li_limit i)) (filter (fact_after_cursor pc) (listed i (s_facts s)))), s)"
    using assms(1) page_fetch_limit_eq [of "li_limit i"]
    by (simp add: result_simps search_facts_listed listing_ok_def MAX_LIST_MEMORIES_LIMIT_def usize_max_def)
  then show ?thesis
    using assms by (simp add: list_memories_def listing_ok_def normalize_list_limit_def bounded_limit_def list_query_def)
qed

lemma listed_order:
  assumes "fs_wf x"
  shows "sorted_wrt fact_desc_le (listed i x)" and "distinct (map (\<lambda>f. uuid_to_string (f_id f)) (listed i x))"
proof -
  show "sorted_wrt fact_desc_le (listed i x)"
    unfolding listed_def by (rule sorted_wrt_sort_by [OF fact_desc_le_total])
  have "distinct (map f_id (listed i x))"
    using distinct_map_sort_by [OF fs_values_distinct [OF assms], of "length (hm_values (fs_facts x))"]
    by (simp add: listed_def)
  then show "distinct (map (\<lambda>f. uuid_to_string (f_id f)) (listed i x))"
    by (simp add: distinct_map inj_on_def)
qed

lemma after_kth:
  assumes "fs_wf x" and "0 < k" and "k \<le> length (listed i x)"
  shows "filter (fact_after_cursor (Some (fact_cursor (listed i x ! (k - 1))))) (listed i x) = drop k (listed i x)"
  using fact_pages.filter_after_nth [OF listed_order [OF assms(1)], of "k - 1" i] assms(2,3)
  by (simp add: fact_after_cursor_def [abs_def] is_none_or_def fact_cursor_def fact_pages.after_iff)

lemma list_walk_from:
  assumes "fs_wf (s_facts s)" and "listing_ok i"
    and "\<And>f. f \<in> set (listed i (s_facts s)) \<Longrightarrow> codec_roundtrips (env_codec env) (fact_cursor f)"
  shows "length (listed i (s_facts s)) - k < n \<Longrightarrow> k \<le> length (listed i (s_facts s)) \<Longrightarrow>
    parse_optional_cursor (env_codec env) c = Inr pc \<Longrightarrow>
    pc = (if k = 0 then None else Some (fact_cursor (listed i (s_facts s) ! (k - 1)))) \<Longrightarrow>
    list_walk env i n c s = Some (drop k (listed i (s_facts s)))"
proof (induction n arbitrary: k c pc)
  case (Suc n)
  let ?L = "listed i (s_facts s)" and ?l = "li_limit i"
  have "filter (fact_after_cursor pc) ?L = drop k ?L"
    using Suc.prems(2,4) after_kth [OF assms(1), of k i]
    by (cases "k = 0") (simp_all add: fact_after_cursor_def [abs_def] is_none_or_def)
  then have page: "list_memories env (i\<lparr>li_cursor := c\<rparr>) s = (build_page (env_codec env) (take (Suc ?l) (drop k ?L)) ?l fact_cursor, s)"
    using list_memories_page [OF assms(2) Suc.prems(3)] by simp
  show ?case
  proof (cases "?l < length (drop k ?L)")
    case False
    then show ?thesis by (simp add: page build_page_def)
  next
    case True
    let ?f = "?L ! (k + ?l - 1)"
    have l: "0 < ?l" using assms(2) by (simp add: listing_ok_def)
    have lst: "last (take ?l (drop k ?L)) = ?f"
      using True l by (subst last_conv_nth) (auto simp: min_def)
    have "?f \<in> set ?L" using True l by (intro nth_mem) simp
    from parse_encode_cursor [OF assms(3) [OF this]] obtain c' where
        c': "encode_cursor (env_codec env) (fact_cursor ?f) = Inr c'" "parse_optional_cursor (env_codec env) (Some c') = Inr (Some (fact_cursor ?f))"
      by blast
    have "take ?l (drop k ?L) \<noteq> []" using True l by auto
    with True lst c'(1) have "build_page (env_codec env) (take (Suc ?l) (drop k ?L)) ?l fact_cursor =
        Inr \<lparr>p_items = take ?l (drop k ?L), p_next_cursor = Some c'\<rparr>"
      by (simp add: build_page_def Let_def min_def)
    moreover have "list_walk env i n (Some c') s = Some (drop (k + ?l) ?L)"
      using Suc.prems(1) True l by (intro Suc.IH [OF _ _ c'(2)]) auto
    ultimately show ?thesis
      using page append_take_drop_id [of ?l "drop k ?L"] by (simp add: add.commute)
  qed
qed simp

section \<open>Properties\<close>

text \<open>C8: What a search returns. At most as many results as asked for, no fact twice, and every result
  is an active fact of the tenant of one of the requested types, reported with the content, type, metadata, confidence,
  importance and validity it has now, although the text comes from the semantic index when that
  found it. The stores, the cache and the audit log are as before.\<close>

theorem search_memory_sound:
  assumes "sys_inv s" and "search_memory env en i s = (Inr rs, s')"
  shows "length rs \<le> si_limit i \<and> si_limit i \<le> MAX_SEARCH_LIMIT \<and> distinct (map r_fact_id rs) \<and>
    (\<forall>r \<in> set rs. \<exists>f. active_facts (s_facts s) (si_tenant i) (r_fact_id r) = Some f \<and> result_agrees r f \<and>
       is_none_or (si_memory_types i) (\<lambda>types. f_memory_type f \<in> set types)) \<and>
    s_facts s' = s_facts s \<and> s_vectors s' = s_vectors s \<and> s_cache s' = s_cache s \<and> s_events s' = s_events s"
proof -
  let ?A = "active_facts (s_facts s) (si_tenant i)"
  have wf: "fs_wf (s_facts s)" using assms(1) by (simp add: sys_inv_def stores_wf_def)
  from search_memory_Inr [OF assms(2)] obtain e vrs kfs now where
      lim: "normalize_search_limit (si_limit i) = Inr (si_limit i)"
    and v: "search_vectors (search_vector_query i (si_limit i) e) (s_vectors s) = (Inr vrs, s_vectors s)"
    and k: "search_facts (search_fact_query i (si_limit i)) (s_facts s) = (Inr kfs, s_facts s)"
    and frame: "s_facts s' = s_facts s" "s_vectors s' = s_vectors s" "s_cache s' = s_cache s" "s_events s' = s_events s"
    and rs: "rs = map (\<lambda>x. (sr_result x)\<lparr>r_score := sr_rrf x\<rparr>) (take (si_limit i) (sort_by scored_le
      (concat (map (scored_of en now (collect_map (map (\<lambda>r. (vr_fact_id r, r)) vrs)) (collect_map (map (\<lambda>f. (f_id f, f)) kfs)) ?A)
       (reciprocal_rank_fusion (semantic_candidates vrs) (keyword_candidates kfs) (en_rrf_config en))))))" by blast
  define V where "V = collect_map (map (\<lambda>r. (vr_fact_id r, r)) vrs)"
  define K where "K = collect_map (map (\<lambda>f. (f_id f, f)) kfs)"
  define cs where "cs = reciprocal_rank_fusion (semantic_candidates vrs) (keyword_candidates kfs) (en_rrf_config en)"
  note rs = rs [folded V_def K_def cs_def]
  have A: "?A j = Some f \<Longrightarrow> f_id f = j" for j f using wf by (auto simp: active_facts_Some fs_wf_def)
  have K: "K j = Some f \<Longrightarrow> f_id f = j \<and> ?A j = Some f \<and> is_none_or (si_memory_types i) (\<lambda>types. f_memory_type f \<in> set types)" for j f
    using keyword_hit [OF wf k, of f] by (auto simp: K_def dest!: collect_map_Some)
  have V: "V j = Some r \<Longrightarrow> \<exists>f. ?A j = Some f \<and> vr_content r = f_content f \<and> vr_metadata r = f_metadata f \<and>
      is_none_or (si_memory_types i) (\<lambda>types. f_memory_type f \<in> set types)" for j r
    using semantic_hit [OF assms(1) v, of r] by (auto simp: V_def dest!: collect_map_Some)
  have keys: "V j \<noteq> None \<or> K j \<noteq> None" if "j \<in> fst ` set cs" for j
    using fused_keys(2) [OF that [unfolded cs_def]] by (auto simp: V_def K_def collect_map_None semantic_ids keyword_ids)
  have sound: "\<exists>f. ?A (r_fact_id (sr_result x)) = Some f \<and> result_agrees (sr_result x) f \<and>
      is_none_or (si_memory_types i) (\<lambda>types. f_memory_type f \<in> set types)"
    if c: "c \<in> set cs" and x: "x \<in> set (scored_of en now V K ?A c)" for c x
  proof -
    from x K obtain f where f: "?A (fst c) = Some f" "x = score_fact en now (V (fst c)) (snd c) f"
      by (cases "K (fst c)"; cases "?A (fst c)") (auto simp: scored_of_def dest: K)
    moreover have "is_none_or (si_memory_types i) (\<lambda>types. f_memory_type f \<in> set types)"
      using keys [of "fst c"] c V K f(1) by fastforce
    ultimately show ?thesis
      using V [of "fst c"] A [OF f(1)] by (auto simp: result_agrees_def score_fact_def Let_def split: option.split)
  qed
  have "distinct (map (\<lambda>x. r_fact_id (sr_result x)) (concat (map (scored_of en now V K ?A) cs)))"
    by (rule scored_distinct) (use K A fused_keys(1) cs_def in blast)+
  then have "distinct (map r_fact_id rs)"
    using distinct_map_sort_by by (simp add: rs comp_def)
  moreover have "\<exists>f. ?A (r_fact_id r) = Some f \<and> result_agrees r f \<and>
      is_none_or (si_memory_types i) (\<lambda>types. f_memory_type f \<in> set types)" if "r \<in> set rs" for r
  proof -
    from that obtain x c where r: "r = (sr_result x)\<lparr>r_score := sr_rrf x\<rparr>" and "c \<in> set cs" "x \<in> set (scored_of en now V K ?A c)"
      by (auto simp: rs dest!: in_set_takeD)
    from sound [OF this(2,3)] show ?thesis by (simp add: r result_agrees_def)
  qed
  moreover have "length rs \<le> si_limit i" by (simp add: rs)
  moreover have "si_limit i \<le> MAX_SEARCH_LIMIT"
    using lim by (auto simp: normalize_search_limit_def bounded_limit_def split: if_splits)
  ultimately show ?thesis using frame by blast
qed

definition sample_search :: search_memory_input where
  "sample_search = \<lparr>si_tenant = alice, si_query = ''tea'', si_limit = 5, si_memory_types = None, si_metadata_filter = None\<rparr>"

theorem search_memory_sound_witness:
  "\<exists>rs s'. search_memory sample_env sample_engine sample_search unindexed_sys = (Inr rs, s') \<and>
     (\<forall>r \<in> set rs. r_fact_id r = 1 \<and> r_content r = ''likes tea'')"
proof -
  have "\<exists>rs s'. search_memory sample_env sample_engine sample_search unindexed_sys = (Inr rs, s')"
    by (simp add: search_memory_def run_simps sample_search_def validate_query_def bind_usage_attribution_def
        normalize_search_limit_def bounded_limit_def MAX_SEARCH_LIMIT_def Let_def search_vectors_def search_facts_def
        score_loop sample_env_def)
  then obtain rs s' where run: "search_memory sample_env sample_engine sample_search unindexed_sys = (Inr rs, s')" by blast
  have "active_facts (s_facts unindexed_sys) alice = [1 \<mapsto> sample_fact 1 alice ''likes tea'' 10]"
    by (auto simp: fun_eq_iff active_facts_def unindexed_sys_def sample_facts_def fact_matches_tenant_def sample_fact_def
        alice_def bob_def)
  with search_memory_sound [OF sys_inv_unindexed run] run show ?thesis
    by (fastforce simp: sample_search_def result_agrees_def sample_fact_def split: if_splits)
qed

text \<open>C9: A client that pages through \<open>list_memories\<close> by following \<open>next_cursor\<close> always comes to an end, after at
  most one request more than there are facts, and has then seen every fact the listing is about exactly once,
  newest first. The serialisation of cursors is assumed to be read back as it was written.\<close>

theorem list_memories_walk_ends:
  assumes "sys_inv s" and "listing_ok i"
    and "\<And>f. f \<in> set (listed i (s_facts s)) \<Longrightarrow> codec_roundtrips (env_codec env) (fact_cursor f)"
    and "length (listed i (s_facts s)) < n"
  shows "list_walk env i n None s = Some (listed i (s_facts s)) \<and> distinct (listed i (s_facts s)) \<and>
    (\<not> li_include_deleted i \<longrightarrow> set (listed i (s_facts s)) =
       {f \<in> ran (active_facts (s_facts s) (li_tenant i)). fact_query_hits (list_query i None) f})"
proof -
  have wf: "fs_wf (s_facts s)" using assms(1) by (simp add: sys_inv_def stores_wf_def)
  have "list_walk env i n None s = Some (listed i (s_facts s))"
    using list_walk_from [OF wf assms(2,3), of 0 n None None] assms(4) by (simp add: parse_optional_cursor_def)
  moreover have "distinct (listed i (s_facts s))"
    using listed_order(2) [OF wf] by (simp add: distinct_map)
  moreover have "f \<in> set (listed i (s_facts s)) \<longleftrightarrow> f \<in> ran (active_facts (s_facts s) (li_tenant i)) \<and> fact_query_hits (list_query i None) f"
    if "\<not> li_include_deleted i" for f
  proof -
    have "f \<in> ran (active_facts (s_facts s) (li_tenant i)) \<longleftrightarrow> active_facts (s_facts s) (li_tenant i) (f_id f) = Some f"
      using wf by (auto simp: ran_def active_facts_Some fs_wf_def)
    with that active_in_values [OF wf, of f "li_tenant i"] show ?thesis
      by (auto simp: listed_def fact_query_matches_def list_query_def fact_query_hits_def)
  qed
  ultimately show ?thesis by auto
qed

definition sample_listing :: list_memories_input where
  "sample_listing = \<lparr>li_tenant = alice, li_memory_type = None, li_query_text = None, li_limit = 1, li_cursor = None,
     li_include_deleted = False\<rparr>"

definition walk_env :: env where
  "walk_env = sample_env\<lparr>env_codec := \<lparr>to_json = (\<lambda>_. Inr ''c''),
     from_json = (\<lambda>_. Some (fact_cursor (sample_fact 1 alice ''likes tea'' 10))), b64_encode = (\<lambda>x. x), b64_decode = Some\<rparr>\<rparr>"

theorem list_memories_walk_ends_witness:
  "list_walk walk_env sample_listing 2 None unindexed_sys = Some [sample_fact 1 alice ''likes tea'' 10]"
proof -
  have L: "listed sample_listing (s_facts unindexed_sys) = [sample_fact 1 alice ''likes tea'' 10]"
    by (simp add: listed_def unindexed_sys_def sample_facts_def hm_values_def fact_query_matches_def fact_query_hits_def
        list_query_def sample_listing_def fact_matches_tenant_def sample_fact_def alice_def bob_def)
  have "listing_ok sample_listing"
    by (simp add: listing_ok_def sample_listing_def validate_tenant_def alice_def str_eval MAX_LIST_MEMORIES_LIMIT_def)
  moreover have "codec_roundtrips (env_codec walk_env) (fact_cursor (sample_fact 1 alice ''likes tea'' 10))"
    by (simp add: codec_roundtrips_def walk_env_def str_eval)
  ultimately show ?thesis
    using list_memories_walk_ends [OF sys_inv_unindexed, of sample_listing walk_env 2] L by simp
qed

end
