(* ===== verification/Stampede.thy ===== *)
theory Stampede
  imports Coordinator
begin

text \<open>
  \<^verbatim>\<open>crates/memcore-core/src/context/cache_coordinator.rs\<close> with requests that interleave:
  \<open>compute_with_stampede\<close> with the protection on, cut at its \<open>await\<close> points. Any number of requests,
  each a task, share the map from keys to locks, the locks, the cache and the counters. A task may enter
  at any time (after the lookups of \<open>get_or_compute\<close>, or from \<open>refresh_entry\<close>), may be dropped by its
  caller at any \<open>await\<close>, and other requests may change the cache in between. That the runtime hands a
  free lock to the longest waiting task is not assumed.
\<close>

section \<open>State\<close>

type_synonym task_id = nat
type_synonym lock_id = nat

text \<open>How a request ends: with the entry found, with the one it computed, or with an error.\<close>

datatype stampede_end =
    Was_hit cached_context_entry
  | Was_computed cached_context_entry
  | Was_error memcore_error

datatype stampede_pc =
    At_try
  | At_lock
  | At_recheck
  | At_compute
  | At_store cached_context_entry
  | At_cleanup stampede_end
  | At_return stampede_end
  | Done stampede_end
  | Cancelled

record stampede_task =
  tk_key :: context_cache_key
  tk_is_refresh :: bool
  tk_lock :: lock_id
  tk_waited :: bool
  tk_pc :: stampede_pc

text \<open>A lock is an \<open>Arc<Mutex<()>>\<close>: its identity (\<open>Arc::ptr_eq\<close>) is a number never used again, and
  \<open>sp_held\<close> says which task has its guard.\<close>

record stampede_state =
  sp_inflight :: "context_cache_key \<rightharpoonup> lock_id"
  sp_next_lock :: lock_id
  sp_held :: "lock_id \<rightharpoonup> task_id"
  sp_tasks :: "task_id \<rightharpoonup> stampede_task"
  sp_cache :: context_cache
  sp_metrics :: context_cache_metrics

definition stampede_start :: "context_cache \<Rightarrow> stampede_state" where
  "stampede_start cache =
     \<lparr>sp_inflight = Map.empty, sp_next_lock = 0, sp_held = Map.empty, sp_tasks = Map.empty,
      sp_cache = cache, sp_metrics = context_cache_metrics_new\<rparr>"

section \<open>Steps\<close>

definition record_stampede_wait :: "context_cache_metrics \<Rightarrow> context_cache_metrics" where
  "record_stampede_wait m = m\<lparr>m_stampede_waits := m_stampede_waits m + 1\<rparr>"
definition record_stampede_timeout :: "context_cache_metrics \<Rightarrow> context_cache_metrics" where
  "record_stampede_timeout m = m\<lparr>m_stampede_timeouts := m_stampede_timeouts m + 1\<rparr>"

definition record_end :: "stampede_end \<Rightarrow> context_cache_metrics \<Rightarrow> context_cache_metrics" where
  "record_end r = (case r of Was_hit _ \<Rightarrow> record_hit | Was_computed _ \<Rightarrow> record_set | Was_error _ \<Rightarrow> record_compute_error)"

definition stampede_result ::
  "context_cache_config \<Rightarrow> stampede_task \<Rightarrow> stampede_end \<Rightarrow> (cached_context_entry \<times> context_cache_usage) memcore_result" where
  "stampede_result c k r =
     (case r of
        Was_hit e \<Rightarrow> Inr (e, usage_hit_with_wait c (tk_waited k))
      | Was_computed e \<Rightarrow> Inr (e, computed_usage c (tk_is_refresh k))
      | Was_error err \<Rightarrow> Inl err)"

datatype task_event =
    Try_lock
  | Acquire
  | Lock_timeout
  | Recheck datetime
  | Compute "cached_context_entry memcore_result"
  | Store datetime
  | Cleanup
  | Return
  | Drop_request

datatype stampede_event =
    Enter task_id context_cache_key bool
  | Task task_id task_event
  | Other context_cache

definition put_task :: "task_id \<Rightarrow> stampede_task \<Rightarrow> stampede_pc \<Rightarrow> stampede_state \<Rightarrow> stampede_state" where
  "put_task t k pc s = s\<lparr>sp_tasks := (sp_tasks s)(t \<mapsto> k\<lparr>tk_pc := pc\<rparr>)\<rparr>"

definition release_guard :: "task_id \<Rightarrow> lock_id \<Rightarrow> stampede_state \<Rightarrow> stampede_state" where
  "release_guard t l s = (if sp_held s l = Some t then s\<lparr>sp_held := (sp_held s)(l := None)\<rparr> else s)"

definition finished :: "stampede_pc \<Rightarrow> bool" where
  "finished pc = (case pc of Done _ \<Rightarrow> True | Cancelled \<Rightarrow> True | _ \<Rightarrow> False)"

text \<open>\<open>lock_for_key\<close>: the lock in the map, or a new one.\<close>

definition stampede_enter :: "task_id \<Rightarrow> context_cache_key \<Rightarrow> bool \<Rightarrow> stampede_state \<Rightarrow> stampede_state" where
  "stampede_enter t key is_refresh s =
     (let l = (case sp_inflight s key of Some l \<Rightarrow> l | None \<Rightarrow> sp_next_lock s)
      in s\<lparr>sp_inflight := (sp_inflight s)(key \<mapsto> l),
           sp_next_lock := (if sp_inflight s key = None then sp_next_lock s + 1 else sp_next_lock s),
           sp_tasks := (sp_tasks s)(t \<mapsto> \<lparr>tk_key = key, tk_is_refresh = is_refresh, tk_lock = l,
                                          tk_waited = False, tk_pc = At_try\<rparr>)\<rparr>)"

text \<open>One step of a task, \<open>None\<close> where the task cannot take it. The guard of \<open>try_lock\<close> is dropped at once:
  the lock is taken by a second call, without a limit of time when the first had found it free. An error of
  the cache leaves by \<open>?\<close>, without the clean-up.\<close>

fun task_step :: "task_id \<Rightarrow> stampede_task \<Rightarrow> stampede_state \<Rightarrow> task_event \<Rightarrow> stampede_state option" where
  "task_step t k s Try_lock =
     (if tk_pc k \<noteq> At_try then None
      else if sp_held s (tk_lock k) = None then Some (put_task t k At_lock s)
      else Some (put_task t (k\<lparr>tk_waited := True\<rparr>) At_lock
                   (s\<lparr>sp_metrics := record_stampede_wait (sp_metrics s)\<rparr>)))"
| "task_step t k s Acquire =
     (if tk_pc k \<noteq> At_lock \<or> sp_held s (tk_lock k) \<noteq> None then None
      else Some (put_task t k At_recheck (s\<lparr>sp_held := (sp_held s)(tk_lock k \<mapsto> t)\<rparr>)))"
| "task_step t k s Lock_timeout =
     (if tk_pc k \<noteq> At_lock \<or> \<not> tk_waited k \<or> sp_held s (tk_lock k) = None then None
      else Some (put_task t k
                   (Done (Was_error (Timeout ''timed out waiting for context cache computation'')))
                   (s\<lparr>sp_metrics := record_stampede_timeout (sp_metrics s)\<rparr>)))"
| "task_step t k s (Recheck now) =
     (if tk_pc k \<noteq> At_recheck then None
      else case cache_get (tk_key k) now (sp_cache s) of
             (Inl err, c) \<Rightarrow>
               Some (release_guard t (tk_lock k) (put_task t k (Done (Was_error err)) (s\<lparr>sp_cache := c\<rparr>)))
           | (Inr (Some e), c) \<Rightarrow> Some (put_task t k (At_cleanup (Was_hit e)) (s\<lparr>sp_cache := c\<rparr>))
           | (Inr None, c) \<Rightarrow>
               Some (put_task t k At_compute
                 (s\<lparr>sp_cache := c,
                    sp_metrics := (if tk_is_refresh k then sp_metrics s else record_miss (sp_metrics s))\<rparr>)))"
| "task_step t k s (Compute result) =
     (if tk_pc k \<noteq> At_compute then None
      else case result of
             Inr e \<Rightarrow> Some (put_task t k (At_store e) s)
           | Inl err \<Rightarrow> Some (put_task t k (At_cleanup (Was_error err)) s))"
| "task_step t k s (Store now) =
     (case tk_pc k of
        At_store e \<Rightarrow>
          (case cache_set (tk_key k) e now (sp_cache s) of
             (Inl err, c) \<Rightarrow>
               Some (release_guard t (tk_lock k) (put_task t k (Done (Was_error err)) (s\<lparr>sp_cache := c\<rparr>)))
           | (Inr _, c) \<Rightarrow> Some (put_task t k (At_cleanup (Was_computed e)) (s\<lparr>sp_cache := c\<rparr>)))
      | _ \<Rightarrow> None)"
| "task_step t k s Cleanup =
     (case tk_pc k of
        At_cleanup r \<Rightarrow>
          Some (put_task t k (At_return r)
            (if sp_inflight s (tk_key k) = Some (tk_lock k)
             then s\<lparr>sp_inflight := (sp_inflight s)(tk_key k := None)\<rparr> else s))
      | _ \<Rightarrow> None)"
| "task_step t k s Return =
     (case tk_pc k of
        At_return r \<Rightarrow>
          Some (release_guard t (tk_lock k)
            (put_task t k (Done r) (s\<lparr>sp_metrics := record_end r (sp_metrics s)\<rparr>)))
      | _ \<Rightarrow> None)"
| "task_step t k s Drop_request =
     (if finished (tk_pc k) then None
      else Some (release_guard t (tk_lock k) (put_task t k Cancelled s)))"

fun stampede_step :: "stampede_state \<Rightarrow> stampede_event \<Rightarrow> stampede_state option" where
  "stampede_step s (Enter t key is_refresh) =
     (if sp_tasks s t = None then Some (stampede_enter t key is_refresh s) else None)"
| "stampede_step s (Task t ev) =
     (case sp_tasks s t of None \<Rightarrow> None | Some k \<Rightarrow> task_step t k s ev)"
| "stampede_step s (Other c) = Some (s\<lparr>sp_cache := c\<rparr>)"

inductive stampede_reach :: "(stampede_state \<Rightarrow> stampede_event \<Rightarrow> stampede_state \<Rightarrow> bool) \<Rightarrow> context_cache \<Rightarrow> stampede_state \<Rightarrow> bool"
  for ok c where
  start: "stampede_reach ok c (stampede_start c)"
| step: "stampede_reach ok c s \<Longrightarrow> stampede_step s ev = Some s' \<Longrightarrow> ok s ev s' \<Longrightarrow> stampede_reach ok c s'"

text \<open>Runs that can be evaluated.\<close>

primrec stampede_run ::
  "(stampede_state \<Rightarrow> stampede_event \<Rightarrow> stampede_state \<Rightarrow> bool) \<Rightarrow> stampede_event list \<Rightarrow> stampede_state \<Rightarrow> stampede_state option" where
  "stampede_run ok [] s = Some s"
| "stampede_run ok (ev # evs) s =
     (case stampede_step s ev of
        None \<Rightarrow> None
      | Some s' \<Rightarrow> if ok s ev s' then stampede_run ok evs s' else None)"

lemma stampede_run_reach:
  "stampede_run ok evs s = Some s' \<Longrightarrow> stampede_reach ok c s \<Longrightarrow> stampede_reach ok c s'"
  by (induction evs arbitrary: s) (auto intro: stampede_reach.step split: option.splits if_splits)

lemmas stampede_run_start = stampede_run_reach [OF _ stampede_reach.start]

section \<open>Locks\<close>

definition in_section :: "stampede_pc \<Rightarrow> bool" where
  "in_section pc =
     (case pc of At_recheck \<Rightarrow> True | At_compute \<Rightarrow> True | At_store _ \<Rightarrow> True | At_cleanup _ \<Rightarrow> True
      | At_return _ \<Rightarrow> True | _ \<Rightarrow> False)"

lemma in_section_simps [simp]:
  "\<not> in_section At_try" "\<not> in_section At_lock" "in_section At_recheck" "in_section At_compute"
  "in_section (At_store e)" "in_section (At_cleanup r)" "in_section (At_return r)" "\<not> in_section (Done r)"
  "\<not> in_section Cancelled"
  by (simp_all add: in_section_def)

text \<open>A lock has one key, and its holder is the one task between acquisition and return.\<close>

definition lock_keys :: "(lock_id \<Rightarrow> context_cache_key) \<Rightarrow> stampede_state \<Rightarrow> bool" where
  "lock_keys own s \<longleftrightarrow>
     (\<forall>key l. sp_inflight s key = Some l \<longrightarrow> l < sp_next_lock s \<and> own l = key) \<and>
     (\<forall>t k. sp_tasks s t = Some k \<longrightarrow> tk_lock k < sp_next_lock s \<and> own (tk_lock k) = tk_key k)"

definition holders :: "stampede_state \<Rightarrow> bool" where
  "holders s \<longleftrightarrow>
     (\<forall>l t. sp_held s l = Some t \<longleftrightarrow>
        (\<exists>k. sp_tasks s t = Some k \<and> tk_lock k = l \<and> in_section (tk_pc k)))"

lemma holders_unique:
  assumes "holders s" "sp_tasks s t = Some k" "sp_tasks s t' = Some k'" "tk_lock k = tk_lock k'"
    and "in_section (tk_pc k)" "in_section (tk_pc k')"
  shows "t = t'"
proof -
  have "sp_held s (tk_lock k) = Some t" "sp_held s (tk_lock k) = Some t'"
    using assms by (auto simp: holders_def)
  then show ?thesis by simp
qed

lemmas step_defs = put_task_def release_guard_def stampede_enter_def Let_def

text \<open>What a step of a task does to the map, the locks and the tasks.\<close>

lemma task_step_frame:
  assumes "task_step t k s ev = Some s'" "sp_tasks s t = Some k"
  obtains k' where "sp_tasks s' = (sp_tasks s)(t \<mapsto> k')" "tk_key k' = tk_key k" "tk_lock k' = tk_lock k"
    "sp_next_lock s' = sp_next_lock s" "sp_inflight s' \<subseteq>\<^sub>m sp_inflight s"
  using assms
  by (cases ev) (auto simp: step_defs map_le_def split: if_splits sum.splits option.splits stampede_pc.splits prod.splits)

lemma task_step_held:
  assumes "task_step t k s ev = Some s'" "sp_tasks s t = Some k" "holders s"
  obtains k' where "sp_tasks s' t = Some k'"
    "sp_held s' = (sp_held s)(tk_lock k := if in_section (tk_pc k') then Some t
       else if in_section (tk_pc k) then None else sp_held s (tk_lock k))"
    "in_section (tk_pc k') \<longrightarrow> sp_held s (tk_lock k) \<in> {None, Some t}"
proof -
  have "sp_held s (tk_lock k) = Some t \<longleftrightarrow> in_section (tk_pc k)"
    using assms(2,3) by (auto simp: holders_def)
  then show thesis
    using assms(1) that
    by (cases ev; cases "tk_pc k")
       (auto simp: step_defs fun_upd_idem split: if_splits sum.splits option.splits prod.splits)
qed

lemma holders_task_step:
  assumes "task_step t k s ev = Some s'" "sp_tasks s t = Some k" "holders s"
  shows "holders s'"
proof -
  obtain k' where k': "sp_tasks s' = (sp_tasks s)(t \<mapsto> k')" "tk_lock k' = tk_lock k"
    using task_step_frame [OF assms(1,2)] by metis
  obtain k'' where k'': "sp_tasks s' t = Some k''"
    "sp_held s' = (sp_held s)(tk_lock k := if in_section (tk_pc k'') then Some t
       else if in_section (tk_pc k) then None else sp_held s (tk_lock k))"
    "in_section (tk_pc k'') \<longrightarrow> sp_held s (tk_lock k) \<in> {None, Some t}"
    using task_step_held [OF assms] by metis
  have [simp]: "k'' = k'" using k'(1) k''(1) by simp
  have held: "sp_held s (tk_lock k) = Some t \<longleftrightarrow> in_section (tk_pc k)"
    using assms(2,3) by (auto simp: holders_def)
  show ?thesis
    unfolding holders_def
  proof (intro allI)
    fix l t'
    have old: "sp_held s l = Some t' \<longleftrightarrow> (\<exists>k. sp_tasks s t' = Some k \<and> tk_lock k = l \<and> in_section (tk_pc k))"
      using assms(3) by (simp add: holders_def)
    show "sp_held s' l = Some t' \<longleftrightarrow> (\<exists>k. sp_tasks s' t' = Some k \<and> tk_lock k = l \<and> in_section (tk_pc k))"
      using old held assms(2) k'(2) k''(3)
      by (cases "t' = t"; cases "l = tk_lock k") (auto simp: k'(1) k''(2))
  qed
qed

lemma lock_keys_task_step:
  assumes "task_step t k s ev = Some s'" "sp_tasks s t = Some k" "lock_keys own s"
  shows "lock_keys own s'"
proof -
  obtain k' where k': "sp_tasks s' = (sp_tasks s)(t \<mapsto> k')" "tk_key k' = tk_key k" "tk_lock k' = tk_lock k"
    "sp_next_lock s' = sp_next_lock s" "sp_inflight s' \<subseteq>\<^sub>m sp_inflight s"
    using task_step_frame [OF assms(1,2)] by metis
  have "sp_inflight s key = Some l" if "sp_inflight s' key = Some l" for key l
    using that k'(5) by (metis domI map_le_def)
  then show ?thesis using assms(2,3) k'(1-4) by (auto simp: lock_keys_def)
qed

lemma stampede_enter_task:
  obtains l where
    "sp_tasks (stampede_enter t key r s) = (sp_tasks s)(t \<mapsto> \<lparr>tk_key = key, tk_is_refresh = r, tk_lock = l,
       tk_waited = False, tk_pc = At_try\<rparr>)"
    "sp_inflight (stampede_enter t key r s) = (sp_inflight s)(key \<mapsto> l)"
    "sp_held (stampede_enter t key r s) = sp_held s" "sp_cache (stampede_enter t key r s) = sp_cache s"
    "sp_inflight s key = Some l \<and> sp_next_lock (stampede_enter t key r s) = sp_next_lock s \<or>
     sp_inflight s key = None \<and> l = sp_next_lock s \<and> sp_next_lock (stampede_enter t key r s) = l + 1"
  by (rule that [of "case sp_inflight s key of Some l \<Rightarrow> l | None \<Rightarrow> sp_next_lock s"])
     (auto simp: stampede_enter_def Let_def split: option.split)

lemma holders_enter: "holders s \<Longrightarrow> sp_tasks s t = None \<Longrightarrow> holders (stampede_enter t key r s)"
proof (rule stampede_enter_task [of t key r s], goal_cases)
  case (1 l)
  have none: "sp_held s l' \<noteq> Some t" for l' using 1(1,2) by (simp add: holders_def)
  show ?case
    unfolding holders_def 1(3,5)
  proof (intro allI)
    fix l' t'
    have old: "sp_held s l' = Some t' \<longleftrightarrow> (\<exists>k. sp_tasks s t' = Some k \<and> tk_lock k = l' \<and> in_section (tk_pc k))"
      using 1(1) by (simp add: holders_def)
    show "sp_held s l' = Some t' \<longleftrightarrow>
      (\<exists>k. ((sp_tasks s)(t \<mapsto> \<lparr>tk_key = key, tk_is_refresh = r, tk_lock = l, tk_waited = False, tk_pc = At_try\<rparr>)) t' =
         Some k \<and> tk_lock k = l' \<and> in_section (tk_pc k))"
    proof (cases "t' = t")
      case True
      then show ?thesis using none by auto
    next
      case False
      then show ?thesis by (simp add: old)
    qed
  qed
qed

lemma lock_keys_enter:
  assumes "lock_keys own s"
  obtains own' where "lock_keys own' (stampede_enter t key r s)"
proof (rule stampede_enter_task [of t key r s], goal_cases)
  case (1 l)
  show thesis
  proof (cases "sp_inflight s key")
    case None
    then have "lock_keys (own(l := key)) (stampede_enter t key r s)"
      using 1 assms by (fastforce simp: lock_keys_def)
    then show thesis by (rule that)
  next
    case Some
    then have "lock_keys own (stampede_enter t key r s)"
      using 1 assms by (auto simp: lock_keys_def)
    then show thesis by (rule that)
  qed
qed

lemma stampede_reach_locks:
  assumes "stampede_reach ok c s"
  shows "holders s \<and> (\<exists>own. lock_keys own s)"
  using assms
proof (induction rule: stampede_reach.induct)
  case start
  show ?case by (simp add: holders_def lock_keys_def stampede_start_def)
next
  case (step s ev s')
  then obtain own where *: "holders s" "lock_keys own s" by blast
  show ?case
  proof (cases ev)
    case (Enter t key r)
    then show ?thesis
      using step.hyps(2) * lock_keys_enter [OF *(2)] holders_enter
      by (metis option.distinct(1) option.sel stampede_step.simps(1))
  next
    case (Task t tev)
    then obtain k where "sp_tasks s t = Some k" "task_step t k s tev = Some s'"
      using step.hyps(2) by (auto split: option.splits)
    then show ?thesis using * holders_task_step lock_keys_task_step by metis
  next
    case (Other c')
    then have "holders s'" "lock_keys own s'" using step.hyps(2) * by (auto simp: holders_def lock_keys_def)
    then show ?thesis by blast
  qed
qed

section \<open>One computation per key\<close>

definition computing :: "stampede_pc \<Rightarrow> bool" where
  "computing pc =
     (case pc of
        At_compute \<Rightarrow> True
      | At_store _ \<Rightarrow> True
      | At_cleanup (Was_computed _) \<Rightarrow> True
      | At_return (Was_computed _) \<Rightarrow> True
      | Done (Was_computed _) \<Rightarrow> True
      | _ \<Rightarrow> False)"

definition end_entry :: "stampede_end \<Rightarrow> cached_context_entry option" where
  "end_entry r = (case r of Was_hit e \<Rightarrow> Some e | Was_computed e \<Rightarrow> Some e | Was_error _ \<Rightarrow> None)"

definition answer :: "stampede_pc \<Rightarrow> cached_context_entry option" where
  "answer pc =
     (case pc of At_cleanup r \<Rightarrow> end_entry r | At_return r \<Rightarrow> end_entry r | Done r \<Rightarrow> end_entry r | _ \<Rightarrow> None)"

definition serves :: "datetime \<Rightarrow> cached_context_entry \<Rightarrow> bool" where
  "serves T e \<longleftrightarrow> is_fresh e T \<and> \<not> is_fully_expired e T"

definition same_entry :: "context_cache_key \<Rightarrow> stampede_state \<Rightarrow> stampede_state \<Rightarrow> bool" where
  "same_entry key s s' \<longleftrightarrow> cache_lookup (sp_cache s') key = cache_lookup (sp_cache s) key"

text \<open>A step that does not disturb a key until the time \<open>T\<close>: its computations succeed, its own requests look
  it up no later than \<open>T\<close> and their store keeps an entry that can be served until then, and no other request
  stores, evicts or invalidates an entry under it.\<close>

definition undisturbed ::
  "context_cache_key \<Rightarrow> datetime \<Rightarrow> stampede_state \<Rightarrow> stampede_event \<Rightarrow> stampede_state \<Rightarrow> bool" where
  "undisturbed key T s ev s' =
     (case ev of
        Task t tev \<Rightarrow>
          (case sp_tasks s t of
             None \<Rightarrow> True
           | Some k \<Rightarrow>
               if tk_key k \<noteq> key then same_entry key s s'
               else (case tev of
                       Recheck now \<Rightarrow> now \<le> T
                     | Compute (Inl _) \<Rightarrow> False
                     | Store _ \<Rightarrow> (case tk_pc k of
                         At_store e \<Rightarrow> cache_lookup (sp_cache s') key = Some e \<and> serves T e | _ \<Rightarrow> True)
                     | _ \<Rightarrow> True))
      | _ \<Rightarrow> same_entry key s s')"

definition unserved :: "lock_id option \<Rightarrow> stampede_task \<Rightarrow> bool" where
  "unserved lock k \<longleftrightarrow>
     (case tk_pc k of
        At_cleanup _ \<Rightarrow> False
      | At_return _ \<Rightarrow> False
      | Done r \<Rightarrow> end_entry r = None
      | Cancelled \<Rightarrow> True
      | _ \<Rightarrow> lock = Some (tk_lock k))"

definition served_by :: "cached_context_entry \<Rightarrow> stampede_task \<Rightarrow> bool" where
  "served_by e k \<longleftrightarrow>
     tk_pc k \<noteq> At_compute \<and> (\<forall>e'. tk_pc k \<noteq> At_store e') \<and> (answer (tk_pc k) = None \<or> answer (tk_pc k) = Some e)"

lemmas pc_defs = computing_def answer_def end_entry_def unserved_def served_by_def

text \<open>As long as the key has no entry, all requests for it share the lock in the map; once it has one, nobody
  computes any more.\<close>

definition coalesced :: "context_cache_key \<Rightarrow> datetime \<Rightarrow> stampede_state \<Rightarrow> bool" where
  "coalesced key T s \<longleftrightarrow>
     (case cache_lookup (sp_cache s) key of
        None \<Rightarrow> \<forall>t k. sp_tasks s t = Some k \<and> tk_key k = key \<longrightarrow> unserved (sp_inflight s key) k
      | Some e \<Rightarrow> serves T e \<and>
          (\<forall>t k. sp_tasks s t = Some k \<and> tk_key k = key \<longrightarrow> served_by e k) \<and>
          (\<forall>t t' k k'. sp_tasks s t = Some k \<and> tk_key k = key \<and> computing (tk_pc k) \<and>
             sp_tasks s t' = Some k' \<and> tk_key k' = key \<and> computing (tk_pc k') \<longrightarrow> t = t'))"

lemma unserved_computing: "unserved lock k \<Longrightarrow> computing (tk_pc k) \<Longrightarrow> lock = Some (tk_lock k) \<and> in_section (tk_pc k)"
  by (auto simp: pc_defs split: stampede_pc.splits stampede_end.splits)

lemma coalesced_computing:
  assumes "coalesced key T s" "holders s"
    and "sp_tasks s t = Some k" "tk_key k = key" "computing (tk_pc k)"
    and "sp_tasks s t' = Some k'" "tk_key k' = key" "computing (tk_pc k')"
  shows "t = t'"
proof (cases "cache_lookup (sp_cache s) key")
  case None
  then have "unserved (sp_inflight s key) k" "unserved (sp_inflight s key) k'"
    using assms by (auto simp: coalesced_def)
  then have "tk_lock k = tk_lock k'" "in_section (tk_pc k)" "in_section (tk_pc k')"
    using unserved_computing assms(5,8) by (metis option.inject)+
  then show ?thesis using holders_unique assms(2,3,6) by blast
next
  case Some
  then show ?thesis using assms by (auto simp: coalesced_def)
qed

text \<open>The steps of a task, by its key and by whether the key has an entry.\<close>

lemma task_step_unserved:
  assumes "task_step t k s tev = Some s'" "sp_tasks s t = Some k" "undisturbed (tk_key k) T s (Task t tev) s'"
    and "cache_lookup (sp_cache s) (tk_key k) = None" "unserved (sp_inflight s (tk_key k)) k"
    and "\<And>now. tev \<noteq> Store now"
  obtains k' where "sp_tasks s' = (sp_tasks s)(t \<mapsto> k')" "cache_lookup (sp_cache s') (tk_key k) = None"
    "sp_inflight s' = sp_inflight s" "tk_key k' = tk_key k" "unserved (sp_inflight s (tk_key k)) k'"
  using assms
  by (cases tev)
     (auto simp: step_defs undisturbed_def cache_get_def cache_lookup_def pc_defs
           split: if_splits stampede_pc.splits sum.splits)

lemma task_step_stored:
  assumes "task_step t k s (Store now) = Some s'" "sp_tasks s t = Some k"
    and "undisturbed (tk_key k) T s (Task t (Store now)) s'"
  obtains k' e where "sp_tasks s' = (sp_tasks s)(t \<mapsto> k')" "cache_lookup (sp_cache s') (tk_key k) = Some e" "serves T e"
    "tk_pc k = At_store e" "tk_key k' = tk_key k" "tk_pc k' = At_cleanup (Was_computed e)"
  using assms
  by (cases "tk_pc k") (auto simp: step_defs undisturbed_def cache_set_def)

lemma task_step_served:
  assumes "task_step t k s tev = Some s'" "sp_tasks s t = Some k" "undisturbed (tk_key k) T s (Task t tev) s'"
    and "cache_lookup (sp_cache s) (tk_key k) = Some e" "serves T e" "served_by e k"
  obtains k' where "sp_tasks s' = (sp_tasks s)(t \<mapsto> k')" "cache_lookup (sp_cache s') (tk_key k) = Some e"
    "tk_key k' = tk_key k" "served_by e k'" "computing (tk_pc k') \<longrightarrow> computing (tk_pc k)"
proof -
  have "\<not> is_fully_expired e now \<and> is_fresh e now" if "now \<le> T" for now
    using that assms(5) by (auto simp: serves_def is_fully_expired_def is_fresh_def)
  then show thesis
    using assms that
    by (cases tev)
       (auto simp: step_defs undisturbed_def cache_get_def cache_lookup_def pc_defs
             split: if_splits stampede_pc.splits sum.splits)
qed

lemma task_step_other:
  assumes "task_step t k s tev = Some s'" "tk_key k \<noteq> key"
  obtains k' where "sp_tasks s' = (sp_tasks s)(t \<mapsto> k')" "tk_key k' = tk_key k" "sp_inflight s' key = sp_inflight s key"
  using assms
  by (cases tev) (auto simp: step_defs split: if_splits sum.splits option.splits stampede_pc.splits prod.splits)

lemma coalesced_task_step:
  assumes "task_step t k s tev = Some s'" "sp_tasks s t = Some k" "undisturbed key T s (Task t tev) s'"
    and "holders s" "coalesced key T s"
  shows "coalesced key T s'"
proof (cases "tk_key k = key")
  case False
  then have "cache_lookup (sp_cache s') key = cache_lookup (sp_cache s) key"
    using assms(2,3) by (simp add: undisturbed_def same_entry_def)
  moreover obtain k' where k': "sp_tasks s' = (sp_tasks s)(t \<mapsto> k')" "tk_key k' \<noteq> key" "sp_inflight s' key = sp_inflight s key"
    using task_step_other [OF assms(1) False] False by metis
  ultimately show ?thesis
    using assms(5) by (auto simp: coalesced_def split: option.splits if_splits)
next
  case True
  note [simp] = True [symmetric]
  show ?thesis
  proof (cases "cache_lookup (sp_cache s) key")
    case None
    then have uns: "unserved (sp_inflight s key) k2" if "sp_tasks s t2 = Some k2" "tk_key k2 = key" for t2 k2
      using assms(5) that by (simp add: coalesced_def)
    show ?thesis
    proof (cases "\<exists>now. tev = Store now")
      case False
      then obtain k' where "sp_tasks s' = (sp_tasks s)(t \<mapsto> k')" "cache_lookup (sp_cache s') key = None"
        "sp_inflight s' = sp_inflight s" "tk_key k' = key" "unserved (sp_inflight s key) k'"
        using task_step_unserved [OF assms(1,2)] assms(3) None uns [OF assms(2)] by auto
      then show ?thesis using uns by (auto simp: coalesced_def split: if_splits)
    next
      case True
      then obtain now where tev: "tev = Store now" by blast
      obtain k' e where k': "sp_tasks s' = (sp_tasks s)(t \<mapsto> k')" "cache_lookup (sp_cache s') key = Some e" "serves T e"
        "tk_pc k = At_store e" "tk_key k' = key" "tk_pc k' = At_cleanup (Was_computed e)"
        using task_step_stored [of t k s now s' T] assms(1-3) unfolding tev by auto
      have idle: "\<not> computing (tk_pc k2)" if "sp_tasks s t2 = Some k2" "tk_key k2 = key" "t2 \<noteq> t" for t2 k2
        using coalesced_computing [OF assms(5,4) assms(2) _ _ that(1,2)] that(3) k'(4) by (auto simp: computing_def)
      have "served_by e k2" if "sp_tasks s t2 = Some k2" "tk_key k2 = key" "t2 \<noteq> t" for t2 k2
        using uns [OF that(1,2)] idle [OF that] by (auto simp: pc_defs split: stampede_pc.splits)
      then show ?thesis
        using k' idle by (auto simp: coalesced_def pc_defs split: if_splits)
    qed
  next
    case (Some e)
    then have old: "serves T e" "served_by e k2" if "sp_tasks s t2 = Some k2" "tk_key k2 = key" for t2 k2
      using assms(5) that by (auto simp: coalesced_def)
    obtain k' where k': "sp_tasks s' = (sp_tasks s)(t \<mapsto> k')" "cache_lookup (sp_cache s') key = Some e"
      "tk_key k' = key" "served_by e k'" "computing (tk_pc k') \<longrightarrow> computing (tk_pc k)"
      using task_step_served [OF assms(1,2)] assms(3) Some old [OF assms(2)] by auto
    have "t1 = t2" if "computing (tk_pc k1)" "computing (tk_pc k2)" "sp_tasks s t1 = Some k1" "sp_tasks s t2 = Some k2"
      "tk_key k1 = key" "tk_key k2 = key" for t1 t2 k1 k2
      using coalesced_computing [OF assms(5,4)] that by metis
    then show ?thesis
      using k' old assms(2) by (auto simp: coalesced_def split: if_splits)
  qed
qed

lemma coalesced_enter:
  assumes "sp_tasks s t = None" "coalesced key T s"
  shows "coalesced key T (stampede_enter t key' r s)"
proof (rule stampede_enter_task [of t key' r s], goal_cases)
  case (1 l)
  have "unserved (Some l) \<lparr>tk_key = key', tk_is_refresh = r, tk_lock = l, tk_waited = False, tk_pc = At_try\<rparr>"
    "served_by e \<lparr>tk_key = key', tk_is_refresh = r, tk_lock = l, tk_waited = False, tk_pc = At_try\<rparr>"
    "\<not> computing At_try" for e
    by (simp_all add: pc_defs)
  moreover have "unserved (Some l) k" if "unserved (sp_inflight s key) k" "key' = key" for k
    using that 1(5) by (auto simp: unserved_def split: stampede_pc.splits)
  ultimately show ?case
    using assms by (auto simp: coalesced_def 1(1,2,4) split: option.splits if_splits)
qed

lemma stampede_reach_coalesced:
  assumes "stampede_reach (undisturbed key T) c s"
    and "case cache_lookup c key of None \<Rightarrow> True | Some e \<Rightarrow> serves T e"
  shows "coalesced key T s"
  using assms
proof (induction rule: stampede_reach.induct)
  case start
  then show ?case by (auto simp: coalesced_def stampede_start_def split: option.splits)
next
  case (step s ev s')
  then have inv: "coalesced key T s" "holders s" using stampede_reach_locks by blast+
  show ?case
  proof (cases ev)
    case (Enter t key' r)
    then show ?thesis using step.hyps(2) coalesced_enter inv(1) by (auto split: if_splits)
  next
    case (Task t tev)
    then obtain k where "sp_tasks s t = Some k" "task_step t k s tev = Some s'"
      using step.hyps(2) by (auto split: option.splits)
    then show ?thesis using coalesced_task_step inv step.hyps(3) Task by blast
  next
    case (Other c')
    then show ?thesis
      using step.hyps(2,3) inv(1) by (auto simp: coalesced_def undisturbed_def same_entry_def split: option.splits)
  qed
qed

text \<open>C13: Protection against stampedes, for requests that interleave in any way. While nothing disturbs a
  key until the time \<open>T\<close> (its computations succeed, its store keeps the entry, which can be served
  until then, and nobody evicts or invalidates it), however many requests for it enter, wait, time out or are
  dropped: at most one of them computes the entry or has computed it, and every request that found or
  computed an entry has the one that is in the cache.\<close>

theorem stampede_coalesces:
  assumes "stampede_reach (undisturbed key T) c s"
    and "case cache_lookup c key of None \<Rightarrow> True | Some e \<Rightarrow> serves T e"
    and "sp_tasks s t = Some k" and "tk_key k = key"
  shows "(\<forall>e. answer (tk_pc k) = Some e \<longrightarrow> cache_lookup (sp_cache s) key = Some e) \<and>
    (\<forall>t' k'. sp_tasks s t' = Some k' \<and> tk_key k' = key \<and> computing (tk_pc k) \<and> computing (tk_pc k') \<longrightarrow> t = t')"
proof -
  have inv: "coalesced key T s" "holders s"
    using stampede_reach_coalesced [OF assms(1,2)] stampede_reach_locks [OF assms(1)] by blast+
  have "cache_lookup (sp_cache s) key = Some e" if e: "answer (tk_pc k) = Some e" for e
  proof (cases "cache_lookup (sp_cache s) key")
    case None
    then have "unserved (sp_inflight s key) k" using inv(1) assms(3,4) by (simp add: coalesced_def)
    then have False using e by (simp add: pc_defs split: stampede_pc.splits)
    then show ?thesis ..
  next
    case (Some e')
    then have "served_by e' k" using inv(1) assms(3,4) by (simp add: coalesced_def)
    then show ?thesis using e Some by (simp add: served_by_def)
  qed
  then show ?thesis using coalesced_computing [OF inv assms(3,4)] by blast
qed

text \<open>Two requests for a key: the first computes, the second has waited and finds the entry.\<close>

definition two_requests :: "context_cache_key \<Rightarrow> cached_context_entry \<Rightarrow> stampede_event list" where
  "two_requests key e =
     [Enter 1 key False, Task 1 Try_lock, Task 1 Acquire, Enter 2 key False, Task 2 Try_lock,
      Task 1 (Recheck 6), Task 1 (Compute (Inr e)), Task 1 (Store 6), Task 1 Cleanup, Task 1 Return,
      Task 2 Acquire, Task 2 (Recheck 7), Task 2 Cleanup, Task 2 Return]"

lemma cache_set_new:
  "cache_set key e now \<lparr>ca_max_entries = Suc 0, ca_entries = []\<rparr> = (Inr (), \<lparr>ca_max_entries = Suc 0, ca_entries = [(key, e)]\<rparr>)"
  by (simp add: cache_set_def purge_expired_def hm_retain_def evict_oldest.simps)

lemma two_requests_end:
  assumes "is_fresh e 6" "is_fresh e 7" "\<not> is_fully_expired e 6" "\<not> is_fully_expired e 7"
  shows "\<exists>s k k'. stampede_run (undisturbed key 7) (two_requests key e) (stampede_start (context_cache_new 1)) = Some s \<and>
    sp_tasks s 1 = Some k \<and> tk_key k = key \<and> tk_pc k = Done (Was_computed e) \<and>
    sp_tasks s 2 = Some k' \<and> tk_key k' = key \<and> tk_pc k' = Done (Was_hit e) \<and> tk_waited k' \<and>
    sp_inflight s = Map.empty \<and> cache_lookup (sp_cache s) key = Some e"
  using assms
  by (simp add: two_requests_def stampede_start_def step_defs undisturbed_def same_entry_def cache_get_def cache_lookup_def
    serves_def cache_set_new context_cache_new_def)

theorem stampede_coalesces_witness:
  "\<exists>(s :: stampede_state) k k'. sp_tasks s 1 = Some k \<and> tk_pc k = Done (Was_computed (sample_entry 5)) \<and>
     sp_tasks s 2 = Some k' \<and> tk_waited k' \<and> tk_pc k' = Done (Was_hit (sample_entry 5)) \<and>
     cache_lookup (sp_cache s) (sample_key ''alice'') = Some (sample_entry 5) \<and>
     (\<forall>t k. sp_tasks s t = Some k \<and> tk_key k = sample_key ''alice'' \<and> computing (tk_pc k) \<longrightarrow> t = 1)"
proof -
  let ?key = "sample_key ''alice''" and ?c = "context_cache_new 1"
  have "is_fresh (sample_entry 5) 6" "is_fresh (sample_entry 5) 7"
    "\<not> is_fully_expired (sample_entry 5) 6" "\<not> is_fully_expired (sample_entry 5) 7"
    by (simp_all add: is_fresh_def is_fully_expired_def effective_stale_until_def sample_entry_def)
  from two_requests_end [OF this, of ?key] obtain s k k' where
    run: "stampede_run (undisturbed ?key 7) (two_requests ?key (sample_entry 5)) (stampede_start ?c) = Some s"
    and k: "sp_tasks s 1 = Some k" "tk_key k = ?key" "tk_pc k = Done (Was_computed (sample_entry 5))"
    and k': "sp_tasks s 2 = Some k'" "tk_key k' = ?key" "tk_pc k' = Done (Was_hit (sample_entry 5))" "tk_waited k'"
    and entry: "cache_lookup (sp_cache s) ?key = Some (sample_entry 5)"
    by blast
  have "case cache_lookup ?c ?key of None \<Rightarrow> True | Some e \<Rightarrow> serves 7 e"
    by (simp add: cache_lookup_def context_cache_new_def)
  note claim = stampede_coalesces [OF stampede_run_start [OF run] this k(1,2)]
  have "computing (tk_pc k)" using k(3) by (simp add: computing_def)
  then have one: "t2 = 1" if "sp_tasks s t2 = Some k2" "tk_key k2 = ?key" "computing (tk_pc k2)" for t2 k2
    using claim that by blast
  show ?thesis
    by (intro exI [of _ s] exI [of _ k] exI [of _ k'] conjI allI impI) (use k k' entry one in auto)
qed

text \<open>The hypothesis that computations succeed is needed. A failed computation takes the lock out of the map
  while others still wait for it: the next request gets a new lock, and two requests compute at once.\<close>

definition after_failure :: "context_cache_key \<Rightarrow> memcore_error \<Rightarrow> stampede_event list" where
  "after_failure key err =
     [Enter 1 key False, Task 1 Try_lock, Task 1 Acquire, Enter 2 key False, Task 2 Try_lock,
      Task 1 (Recheck 6), Task 1 (Compute (Inl err)), Task 1 Cleanup, Task 1 Return,
      Enter 3 key False, Task 3 Try_lock, Task 3 Acquire, Task 3 (Recheck 7), Task 2 Acquire, Task 2 (Recheck 7)]"

lemma two_computations_after_failure:
  "\<exists>s k k'. stampede_reach (\<lambda>_ _ _. True) (context_cache_new 1) s \<and>
     sp_tasks s 2 = Some k \<and> tk_key k = key \<and> tk_pc k = At_compute \<and>
     sp_tasks s 3 = Some k' \<and> tk_key k' = key \<and> tk_pc k' = At_compute"
proof -
  have "\<exists>s k k'. stampede_run (\<lambda>_ _ _. True) (after_failure key err) (stampede_start (context_cache_new 1)) = Some s \<and>
     sp_tasks s 2 = Some k \<and> tk_key k = key \<and> tk_pc k = At_compute \<and>
     sp_tasks s 3 = Some k' \<and> tk_key k' = key \<and> tk_pc k' = At_compute"
    by (simp add: after_failure_def stampede_start_def step_defs cache_get_def context_cache_new_def)
  then show ?thesis using stampede_run_start by blast
qed

section \<open>The map does not grow\<close>

definition no_drop :: "stampede_state \<Rightarrow> stampede_event \<Rightarrow> stampede_state \<Rightarrow> bool" where
  "no_drop s ev s' = (case ev of Task _ Drop_request \<Rightarrow> False | _ \<Rightarrow> True)"

definition pending :: "stampede_pc \<Rightarrow> bool" where
  "pending pc = (case pc of At_return _ \<Rightarrow> False | Done _ \<Rightarrow> False | Cancelled \<Rightarrow> False | _ \<Rightarrow> True)"

text \<open>A lock in the map has a request that is still to clean it up; a request that returns has done so.\<close>

definition cleaned :: "stampede_state \<Rightarrow> bool" where
  "cleaned s \<longleftrightarrow>
     (\<forall>key l. sp_inflight s key = Some l \<longrightarrow>
        (\<exists>t k. sp_tasks s t = Some k \<and> tk_lock k = l \<and> pending (tk_pc k))) \<and>
     (\<forall>t k r. sp_tasks s t = Some k \<and> tk_pc k = At_return r \<longrightarrow> sp_inflight s (tk_key k) \<noteq> Some (tk_lock k))"

text \<open>The steps of a task: it goes on or leaves without touching the map; it gives up waiting for a holder of
  its lock; or it cleans up.\<close>

definition cleaning_step :: "stampede_state \<Rightarrow> stampede_task \<Rightarrow> stampede_state \<Rightarrow> stampede_task \<Rightarrow> bool" where
  "cleaning_step s k s' k' \<longleftrightarrow>
     sp_inflight s' = sp_inflight s \<and> (\<forall>r. tk_pc k' \<noteq> At_return r) \<and> (pending (tk_pc k) \<longrightarrow> pending (tk_pc k')) \<or>
     sp_inflight s' = sp_inflight s \<and> (\<forall>r. tk_pc k' \<noteq> At_return r) \<and> sp_held s (tk_lock k) \<noteq> None \<and> \<not> in_section (tk_pc k) \<or>
     (\<exists>r. tk_pc k' = At_return r) \<and> sp_inflight s' = (if sp_inflight s (tk_key k) = Some (tk_lock k)
       then (sp_inflight s)(tk_key k := None) else sp_inflight s)"

lemma task_step_cleaning:
  assumes "task_step t k s tev = Some s'" "sp_tasks s t = Some k" "tev \<noteq> Drop_request"
  obtains k' where "sp_tasks s' = (sp_tasks s)(t \<mapsto> k')" "tk_key k' = tk_key k" "tk_lock k' = tk_lock k"
    "cleaning_step s k s' k'"
  using assms
  by (cases tev; cases "tk_pc k")
     (auto simp: step_defs cache_get_def cache_set_def cleaning_step_def pending_def split: if_splits sum.splits option.splits)

lemma cleaned_task_step:
  assumes "task_step t k s tev = Some s'" "sp_tasks s t = Some k" "tev \<noteq> Drop_request"
    and "lock_keys own s" "holders s" "cleaned s"
  shows "cleaned s'"
proof -
  have left: "sp_inflight s (tk_key k2) \<noteq> Some (tk_lock k2)" if "sp_tasks s t2 = Some k2" "tk_pc k2 = At_return r" for t2 k2 r
    using assms(6) that by (auto simp: cleaned_def)
  have owner: "\<exists>t2 k2. sp_tasks s t2 = Some k2 \<and> tk_lock k2 = l \<and> pending (tk_pc k2)" if "sp_inflight s key = Some l" for key l
    using assms(6) that by (auto simp: cleaned_def)
  obtain k' where k': "sp_tasks s' = (sp_tasks s)(t \<mapsto> k')" "tk_key k' = tk_key k" "tk_lock k' = tk_lock k"
    "cleaning_step s k s' k'"
    using task_step_cleaning [OF assms(1-3)] .
  then consider
      (1) "sp_inflight s' = sp_inflight s" "\<forall>r. tk_pc k' \<noteq> At_return r" "pending (tk_pc k) \<longrightarrow> pending (tk_pc k')"
    | (2) t' where "sp_inflight s' = sp_inflight s" "\<forall>r. tk_pc k' \<noteq> At_return r" "sp_held s (tk_lock k) = Some t'"
        "\<not> in_section (tk_pc k)"
    | (3) "sp_inflight s' = (if sp_inflight s (tk_key k) = Some (tk_lock k)
        then (sp_inflight s)(tk_key k := None) else sp_inflight s)"
    unfolding cleaning_step_def by blast
  then show ?thesis
  proof cases
    case 1
    have "\<exists>t2 k2. sp_tasks s' t2 = Some k2 \<and> tk_lock k2 = l \<and> pending (tk_pc k2)" if "sp_inflight s' key = Some l" for key l
      using owner [of key l] that 1 k'(1,3) assms(2) by (metis fun_upd_apply option.inject)
    then show ?thesis using left 1 k'(1) by (auto simp: cleaned_def split: if_splits)
  next
    case (2 t')
    then obtain k2 where k2: "sp_tasks s t' = Some k2" "tk_lock k2 = tk_lock k" "in_section (tk_pc k2)"
      using assms(5) by (auto simp: holders_def)
    then have "t' \<noteq> t" using 2(4) assms(2) by auto
    have "\<exists>t2 k2. sp_tasks s' t2 = Some k2 \<and> tk_lock k2 = l \<and> pending (tk_pc k2)" if l: "sp_inflight s' key = Some l" for key l
    proof (cases "l = tk_lock k")
      case True
      then have "tk_key k2 = key" using assms(4) k2(1,2) l 2(1) unfolding lock_keys_def by metis
      then have "\<And>r. tk_pc k2 \<noteq> At_return r" using left [OF k2(1)] True l 2(1) k2(2) by auto
      then have "pending (tk_pc k2)" using k2(3) by (auto simp: pending_def in_section_def split: stampede_pc.splits)
      then show ?thesis using k2 \<open>t' \<noteq> t\<close> k'(1) True by auto
    next
      case False
      then show ?thesis using owner [of key l] l 2(1) k'(1) assms(2) by (metis fun_upd_apply option.inject)
    qed
    then show ?thesis using left 2 k'(1) by (auto simp: cleaned_def split: if_splits)
  next
    case 3
    have sub: "sp_inflight s key = Some l \<and> l \<noteq> tk_lock k" if "sp_inflight s' key = Some l" for key l
      using that 3 assms(2,4) unfolding lock_keys_def by (metis fun_upd_apply option.discI option.inject)
    have "\<exists>t2 k2. sp_tasks s' t2 = Some k2 \<and> tk_lock k2 = l \<and> pending (tk_pc k2)" if "sp_inflight s' key = Some l" for key l
      using owner [of key l] sub [OF that] k'(1) assms(2) by (metis fun_upd_apply option.inject)
    moreover have "sp_inflight s' (tk_key k2) \<noteq> Some (tk_lock k2)" if "sp_tasks s' t2 = Some k2" "tk_pc k2 = At_return r2" for t2 k2 r2
      using that left [of t2 k2 r2] sub [of "tk_key k2"] k'(1,3) by (auto split: if_splits)
    ultimately show ?thesis by (auto simp: cleaned_def)
  qed
qed

lemma cleaned_enter:
  assumes "sp_tasks s t = None" "lock_keys own s" "cleaned s"
  shows "cleaned (stampede_enter t key r s)"
proof (rule stampede_enter_task [of t key r s], goal_cases)
  case (1 l)
  have "\<exists>t2 k2. sp_tasks (stampede_enter t key r s) t2 = Some k2 \<and> tk_lock k2 = l2 \<and> pending (tk_pc k2)"
    if l2: "sp_inflight (stampede_enter t key r s) key2 = Some l2" for key2 l2
  proof (cases "l2 = l")
    case True
    then show ?thesis by (intro exI [of _ t]) (simp add: 1(1) pending_def)
  next
    case False
    then have "sp_inflight s key2 = Some l2" using l2 1(2) by (auto split: if_splits)
    then obtain t2 k2 where "sp_tasks s t2 = Some k2" "tk_lock k2 = l2" "pending (tk_pc k2)"
      using assms(3) unfolding cleaned_def by blast
    moreover from this have "t2 \<noteq> t" using assms(1) by auto
    ultimately show ?thesis using 1(1) by (metis fun_upd_apply)
  qed
  moreover have "sp_inflight (stampede_enter t key r s) (tk_key k2) \<noteq> Some (tk_lock k2)"
    if k2: "sp_tasks (stampede_enter t key r s) t2 = Some k2" "tk_pc k2 = At_return r2" for t2 k2 r2
  proof -
    have old: "sp_tasks s t2 = Some k2" using k2 1(1) by (auto split: if_splits)
    then have "sp_inflight s (tk_key k2) \<noteq> Some (tk_lock k2)" "tk_lock k2 < sp_next_lock s"
      using assms(2,3) k2(2) by (auto simp: cleaned_def lock_keys_def)
    then show ?thesis using 1(2,5) by (auto split: if_splits)
  qed
  ultimately show ?case by (auto simp: cleaned_def)
qed

text \<open>Without dropped requests the map holds no lock once every request has returned. A request that is
  dropped while it holds the guard leaves its lock in the map until the next request for the key.\<close>

lemma stampede_map_drains:
  assumes "stampede_reach no_drop c s" and "\<And>t k. sp_tasks s t = Some k \<Longrightarrow> finished (tk_pc k)"
  shows "sp_inflight s = Map.empty"
proof -
  have "cleaned s" using assms(1)
  proof (induction rule: stampede_reach.induct)
    case start
    show ?case by (simp add: cleaned_def stampede_start_def)
  next
    case (step s ev s')
    then obtain own where *: "holders s" "lock_keys own s" "cleaned s" using stampede_reach_locks by blast
    show ?case
    proof (cases ev)
      case (Enter t key r)
      then show ?thesis using step.hyps(2) * cleaned_enter by (auto split: if_splits)
    next
      case (Task t tev)
      then obtain k where "sp_tasks s t = Some k" "task_step t k s tev = Some s'"
        using step.hyps(2) by (auto split: option.splits)
      moreover have "tev \<noteq> Drop_request" using step.hyps(3) Task by (auto simp: no_drop_def)
      ultimately show ?thesis using cleaned_task_step * by blast
    next
      case (Other c')
      then show ?thesis using step.hyps(2) * by (auto simp: cleaned_def)
    qed
  qed
  moreover have "\<not> pending pc" if "finished pc" for pc
    using that by (simp add: finished_def pending_def split: stampede_pc.splits)
  ultimately have "sp_inflight s key \<noteq> Some l" for key l using assms(2) unfolding cleaned_def by blast
  then show ?thesis by (meson option.exhaust ext)
qed

end
