(* ===== verification/Settings.thy ===== *)
theory Settings
  imports Context
begin

text \<open>
  \<^verbatim>\<open>crates/memcore-config/src/settings.rs\<close>: the settings, how they are read from the environment and
  the checks they must pass. The environment is a partial function from names to values; a variable that is missing or
  is not Unicode is \<open>None\<close>. The record has the fields of the struct, in its order, with the prefix \<open>se_\<close>.
\<close>

type_synonym u16 = "16 word"
type_synonym env_vars = "string \<Rightarrow> string option"

section \<open>Parsing of numbers (\<open>str::parse\<close>)\<close>

definition is_digit :: "char \<Rightarrow> bool" where
  "is_digit c \<longleftrightarrow> 48 \<le> (of_char c :: nat) \<and> (of_char c :: nat) \<le> 57"

definition digits_value :: "string \<Rightarrow> nat" where
  "digits_value ds = foldl (\<lambda>n c. 10 * n + (of_char c - 48)) 0 ds"

definition parse_unsigned :: "nat \<Rightarrow> string \<Rightarrow> nat option" where
  "parse_unsigned m s =
     (let ds = (case s of c # t \<Rightarrow> if c = CHR ''+'' then t else s | [] \<Rightarrow> []) in
      if ds \<noteq> [] \<and> list_all is_digit ds \<and> digits_value ds \<le> m then Some (digits_value ds) else None)"

text \<open>An optional sign is split off; a mantissa has a digit before or after its point; the value is rounded once.\<close>

definition split_sign :: "string \<Rightarrow> int \<times> string" where
  "split_sign s = (case s of c # t \<Rightarrow> if c = CHR ''-'' then (- 1, t) else if c = CHR ''+'' then (1, t) else (1, s) | [] \<Rightarrow> (1, []))"

definition parse_exponent :: "string \<Rightarrow> int option" where
  "parse_exponent s =
     (case s of
        [] \<Rightarrow> Some 0
      | c # t \<Rightarrow>
          if ascii_lower c = CHR ''e''
          then (let (sign, ds) = split_sign t in
                if ds \<noteq> [] \<and> list_all is_digit ds then Some (sign * int (digits_value ds)) else None)
          else None)"

definition parse_decimal :: "string \<Rightarrow> rat option" where
  "parse_decimal s =
     (let whole = takeWhile is_digit s; rest = dropWhile is_digit s;
          (frac, rest) = (case rest of c # t \<Rightarrow> if c = CHR ''.'' then (takeWhile is_digit t, dropWhile is_digit t) else ([], rest)
                          | [] \<Rightarrow> ([], []))
      in if whole = [] \<and> frac = [] then None
         else map_option (\<lambda>e. of_nat (digits_value (whole @ frac)) * 10 powi (e - int (length frac))) (parse_exponent rest))"

definition f32_from_str :: "string \<Rightarrow> f32 option" where
  "f32_from_str s =
     (let (sign, t) = split_sign s; lower = to_ascii_lowercase t in
      if lower = ''nan'' then Some NaN
      else if lower = ''inf'' \<or> lower = ''infinity'' then Some (signed_inf (of_int sign))
      else map_option (\<lambda>v. f32_of_rat (of_int sign * v)) (parse_decimal t))"

section \<open>Reading the environment\<close>

definition read_env_or :: "env_vars \<Rightarrow> string \<Rightarrow> string \<Rightarrow> string" where
  "read_env_or vars key d = (case vars key of Some v \<Rightarrow> v | None \<Rightarrow> d)"

definition read_env_optional :: "env_vars \<Rightarrow> string \<Rightarrow> string option" where
  "read_env_optional vars key = (case vars key of Some v \<Rightarrow> if \<not> is_blank v then Some v else None | None \<Rightarrow> None)"

definition list_parts :: "string \<Rightarrow> string list" where
  "list_parts v = filter (\<lambda>part. part \<noteq> []) (map trim (split_on (CHR '','') v))"

definition parse_provider_fallback_order :: "env_vars \<Rightarrow> string \<Rightarrow> string list \<Rightarrow> string list memcore_result" where
  "parse_provider_fallback_order vars key d =
     (case vars key of
        Some v \<Rightarrow>
          (let parsed = map to_ascii_lowercase (list_parts v) in
           if parsed = [] then Inl (ValidationError (key @ '' cannot be empty'')) else Inr parsed)
      | None \<Rightarrow> Inr d)"

definition parse_string_list :: "env_vars \<Rightarrow> string \<Rightarrow> string list \<Rightarrow> string list" where
  "parse_string_list vars key d = (case vars key of Some v \<Rightarrow> list_parts v | None \<Rightarrow> d)"

definition parse_with :: "(string \<Rightarrow> 'a option) \<Rightarrow> string \<Rightarrow> env_vars \<Rightarrow> string \<Rightarrow> 'a \<Rightarrow> 'a memcore_result" where
  "parse_with p what vars key d =
     (case vars key of
        Some v \<Rightarrow> ok_or (ValidationError (key @ '' must be a valid '' @ what)) (p v)
      | None \<Rightarrow> Inr d)"

definition parse_u16 :: "env_vars \<Rightarrow> string \<Rightarrow> u16 \<Rightarrow> u16 memcore_result" where
  "parse_u16 = parse_with (\<lambda>v. map_option of_nat (parse_unsigned (2 ^ 16 - 1) v)) ''u16 port''"

definition parse_u32 :: "env_vars \<Rightarrow> string \<Rightarrow> u32 \<Rightarrow> u32 memcore_result" where
  "parse_u32 = parse_with (\<lambda>v. map_option of_nat (parse_unsigned (2 ^ 32 - 1) v)) ''unsigned integer''"

definition parse_u64 :: "env_vars \<Rightarrow> string \<Rightarrow> u64 \<Rightarrow> u64 memcore_result" where
  "parse_u64 = parse_with (\<lambda>v. map_option of_nat (parse_unsigned (2 ^ 64 - 1) v)) ''unsigned integer''"

definition parse_usize :: "env_vars \<Rightarrow> string \<Rightarrow> nat \<Rightarrow> nat memcore_result" where
  "parse_usize = parse_with (parse_unsigned usize_max) ''unsigned integer''"

definition parse_f32 :: "env_vars \<Rightarrow> string \<Rightarrow> f32 \<Rightarrow> f32 memcore_result" where
  "parse_f32 = parse_with f32_from_str ''floating-point number''"

definition parse_bool :: "env_vars \<Rightarrow> string \<Rightarrow> bool \<Rightarrow> bool memcore_result" where
  "parse_bool vars key d =
     (case vars key of
        Some v \<Rightarrow>
          (let w = to_ascii_lowercase (trim v) in
           if w \<in> {''true'', ''1'', ''yes''} then Inr True
           else if w \<in> {''false'', ''0'', ''no''} then Inr False
           else Inl (ValidationError (key @ '' must be one of: true, false, 1, 0, yes, no'')))
      | None \<Rightarrow> Inr d)"

section \<open>Choices\<close>

text \<open>A word is looked up, without white space around it and in lower case, among the spellings of a choice.\<close>

definition pick_word :: "(string \<times> 'a) list \<Rightarrow> string \<Rightarrow> string \<Rightarrow> 'a memcore_result" where
  "pick_word spellings complaint v = ok_or (ValidationError (complaint @ v)) (map_of spellings (to_ascii_lowercase (trim v)))"

datatype config_test_mode = TestMockOnly | TestSingleReal | TestMultiReal | TestProduction

datatype context_cache_backend = CacheDisabled | CacheMemory | CacheRedis

datatype background_job_lock_backend = LockDatabase

datatype database_migration_mode = MigAuto | MigValidateOnly | MigDisabled

datatype auth_mode = AuthDev | AuthDatabase

datatype log_format = FmtJson | FmtPretty

datatype log_level = LvlTrace | LvlDebug | LvlInfo | LvlWarn | LvlError

datatype environment = EnvDevelopment | EnvProduction

datatype storage_mode = ModeEmbedded | ModeProduction

datatype vector_backend = VecMock | VecLanceDb | VecQdrant

datatype fact_backend = FactMock | FactSqlite | FactPostgres

datatype event_backend = EventMock | EventSqlite | EventPostgres

datatype llm_provider_kind = LlmMock | LlmOpenAi | LlmOpenRouter | LlmAnthropic | LlmGroq

datatype embedding_provider_kind = EmbMock | EmbOpenAi

fun config_test_mode_as_str :: "config_test_mode \<Rightarrow> string" where
  "config_test_mode_as_str TestMockOnly = ''mock_only''"
| "config_test_mode_as_str TestSingleReal = ''single_real''"
| "config_test_mode_as_str TestMultiReal = ''multi_real''"
| "config_test_mode_as_str TestProduction = ''production''"

fun database_migration_mode_as_str :: "database_migration_mode \<Rightarrow> string" where
  "database_migration_mode_as_str MigAuto = ''auto''"
| "database_migration_mode_as_str MigValidateOnly = ''validate_only''"
| "database_migration_mode_as_str MigDisabled = ''disabled''"

fun log_level_as_filter_str :: "log_level \<Rightarrow> string" where
  "log_level_as_filter_str LvlTrace = ''trace''"
| "log_level_as_filter_str LvlDebug = ''debug''"
| "log_level_as_filter_str LvlInfo = ''info''"
| "log_level_as_filter_str LvlWarn = ''warn''"
| "log_level_as_filter_str LvlError = ''error''"

definition config_test_mode_from_str :: "string \<Rightarrow> config_test_mode memcore_result" where
  "config_test_mode_from_str v =
     ok_or (ValidationError (''Invalid MEMCORE_PROVIDER_TEST_MODE value: '' @ v @ '' (expected mock_only|single_real|multi_real|production)''))
       (map_of [(''mock_only'', TestMockOnly), (''single_real'', TestSingleReal), (''multi_real'', TestMultiReal), (''production'', TestProduction)] (to_ascii_lowercase (trim v)))"

definition context_cache_backend_from_str :: "string \<Rightarrow> context_cache_backend memcore_result" where
  "context_cache_backend_from_str =
     pick_word [(''disabled'', CacheDisabled), (''memory'', CacheMemory), (''redis'', CacheRedis)] ''Invalid MEMCORE_CONTEXT_CACHE_BACKEND value: ''"

definition background_job_lock_backend_from_str :: "string \<Rightarrow> background_job_lock_backend memcore_result" where
  "background_job_lock_backend_from_str =
     pick_word [(''database'', LockDatabase)] ''Invalid MEMCORE_BACKGROUND_JOB_LOCK_BACKEND value: ''"

definition database_migration_mode_from_str :: "string \<Rightarrow> database_migration_mode memcore_result" where
  "database_migration_mode_from_str =
     pick_word [(''auto'', MigAuto), (''validate_only'', MigValidateOnly), (''validate-only'', MigValidateOnly), (''disabled'', MigDisabled)] ''Invalid MEMCORE_DATABASE_MIGRATION_MODE value: ''"

definition auth_mode_from_str :: "string \<Rightarrow> auth_mode memcore_result" where
  "auth_mode_from_str =
     pick_word [(''dev'', AuthDev), (''database'', AuthDatabase)] ''Invalid MEMCORE_AUTH_MODE value: ''"

definition log_format_from_str :: "string \<Rightarrow> log_format memcore_result" where
  "log_format_from_str =
     pick_word [(''json'', FmtJson), (''pretty'', FmtPretty)] ''Invalid MEMCORE_LOG_FORMAT value: ''"

definition log_level_from_str :: "string \<Rightarrow> log_level memcore_result" where
  "log_level_from_str =
     pick_word [(''trace'', LvlTrace), (''debug'', LvlDebug), (''info'', LvlInfo), (''warn'', LvlWarn), (''error'', LvlError)] ''Invalid MEMCORE_LOG_LEVEL value: ''"

definition environment_from_str :: "string \<Rightarrow> environment memcore_result" where
  "environment_from_str =
     pick_word [(''development'', EnvDevelopment), (''dev'', EnvDevelopment), (''production'', EnvProduction), (''prod'', EnvProduction)] ''Invalid MEMCORE_ENV value: ''"

definition storage_mode_from_str :: "string \<Rightarrow> storage_mode memcore_result" where
  "storage_mode_from_str =
     pick_word [(''embedded'', ModeEmbedded), (''production'', ModeProduction)] ''Invalid MEMCORE_STORAGE_MODE value: ''"

definition vector_backend_from_str :: "string \<Rightarrow> vector_backend memcore_result" where
  "vector_backend_from_str =
     pick_word [(''mock'', VecMock), (''lancedb'', VecLanceDb), (''qdrant'', VecQdrant)] ''Invalid MEMCORE_VECTOR_BACKEND value: ''"

definition fact_backend_from_str :: "string \<Rightarrow> fact_backend memcore_result" where
  "fact_backend_from_str =
     pick_word [(''mock'', FactMock), (''sqlite'', FactSqlite), (''postgres'', FactPostgres)] ''Invalid MEMCORE_FACT_BACKEND value: ''"

definition event_backend_from_str :: "string \<Rightarrow> event_backend memcore_result" where
  "event_backend_from_str =
     pick_word [(''mock'', EventMock), (''sqlite'', EventSqlite), (''postgres'', EventPostgres)] ''Invalid MEMCORE_EVENT_BACKEND value: ''"

definition llm_provider_kind_from_str :: "string \<Rightarrow> llm_provider_kind memcore_result" where
  "llm_provider_kind_from_str =
     pick_word [(''mock'', LlmMock), (''openai'', LlmOpenAi), (''openrouter'', LlmOpenRouter), (''anthropic'', LlmAnthropic), (''groq'', LlmGroq)] ''Invalid MEMCORE_LLM_PROVIDER value: ''"

definition embedding_provider_kind_from_str :: "string \<Rightarrow> embedding_provider_kind memcore_result" where
  "embedding_provider_kind_from_str =
     pick_word [(''mock'', EmbMock), (''openai'', EmbOpenAi)] ''Invalid MEMCORE_EMBEDDING_PROVIDER value: ''"

fun default_for_fact_backend :: "fact_backend \<Rightarrow> event_backend" where
  "default_for_fact_backend FactMock = EventMock"
| "default_for_fact_backend FactSqlite = EventSqlite"
| "default_for_fact_backend FactPostgres = EventPostgres"

section \<open>The settings\<close>

record settings =
  se_environment :: environment
  se_host :: string
  se_port :: u16
  se_storage_mode :: storage_mode
  se_vector_backend :: vector_backend
  se_fact_backend :: fact_backend
  se_event_backend :: event_backend
  se_database_url :: string
  se_postgres_url :: "string option"
  se_database_migrations_enabled :: bool
  se_database_migration_mode :: database_migration_mode
  se_database_require_clean_migrations :: bool
  se_backup_enabled :: bool
  se_backup_dir :: string
  se_backup_max_files :: nat
  se_restore_enabled :: bool
  se_security_headers_enabled :: bool
  se_max_request_body_bytes :: nat
  se_cors_enabled :: bool
  se_cors_allowed_origins :: "string list"
  se_cors_allowed_methods :: "string list"
  se_cors_allowed_headers :: "string list"
  se_cors_exposed_headers :: "string list"
  se_cors_allow_credentials :: bool
  se_qdrant_url :: string
  se_qdrant_collection :: string
  se_lancedb_path :: string
  se_lancedb_table :: string
  se_llm_provider :: llm_provider_kind
  se_llm_model :: string
  se_embedding_provider :: embedding_provider_kind
  se_embedding_model :: string
  se_enable_pii_redaction :: bool
  se_min_importance :: f32
  se_auth_enabled :: bool
  se_auth_mode :: auth_mode
  se_dev_api_key :: string
  se_api_key_pepper :: "string option"
  se_openai_api_key :: "string option"
  se_openai_base_url :: string
  se_rate_limit_enabled :: bool
  se_rate_limit_requests_per_minute :: u32
  se_log_format :: log_format
  se_log_level :: log_level
  se_request_id_header :: string
  se_metrics_enabled :: bool
  se_metrics_path :: string
  se_metrics_require_auth :: bool
  se_metrics_include_process :: bool
  se_retention_enabled :: bool
  se_fact_retention_days :: u32
  se_event_retention_days :: u32
  se_context_cache_enabled :: bool
  se_context_cache_backend :: context_cache_backend
  se_context_cache_ttl_seconds :: u64
  se_context_cache_max_entries :: nat
  se_redis_url :: "string option"
  se_context_cache_key_prefix :: string
  se_context_cache_stampede_protection_enabled :: bool
  se_context_cache_lock_timeout_seconds :: u64
  se_context_cache_stale_while_revalidate_enabled :: bool
  se_context_cache_stale_ttl_seconds :: u64
  se_context_cache_metrics_enabled :: bool
  se_provider_timeout_seconds :: u64
  se_provider_max_retries :: nat
  se_provider_initial_backoff_ms :: u64
  se_provider_max_backoff_ms :: u64
  se_provider_backoff_multiplier :: f32
  se_provider_retry_jitter_enabled :: bool
  se_provider_fallback_enabled :: bool
  se_llm_fallback_order :: "string list"
  se_embedding_fallback_order :: "string list"
  se_summarizer_fallback_order :: "string list"
  se_provider_circuit_breaker_enabled :: bool
  se_provider_circuit_breaker_failure_threshold :: nat
  se_provider_circuit_breaker_reset_timeout_seconds :: u64
  se_provider_circuit_breaker_half_open_max_calls :: nat
  se_provider_usage_metrics_enabled :: bool
  se_provider_cost_tracking_enabled :: bool
  se_provider_usage_persistence_enabled :: bool
  se_provider_usage_retention_days :: u32
  se_quotas_enabled :: bool
  se_max_users_per_org :: u64
  se_max_memories_per_user :: u64
  se_max_memories_per_org :: u64
  se_daily_provider_request_limit :: u64
  se_daily_provider_token_limit :: u64
  se_provider_guardrails_enabled :: bool
  se_real_provider_calls_enabled :: bool
  se_provider_test_mode :: config_test_mode
  se_provider_max_calls_per_run :: nat
  se_provider_max_input_chars :: nat
  se_provider_max_output_tokens :: nat
  se_provider_max_retries_per_call :: nat
  se_allow_real_providers_during_load_tests :: bool
  se_background_jobs_allow_real_providers :: bool
  se_multi_provider_validation_enabled :: bool
  se_multi_provider_validation_confirmation :: "string option"
  se_background_jobs_enabled :: bool
  se_background_job_runner_interval_seconds :: u64
  se_background_job_org_ids :: "string list"
  se_memory_usage_snapshot_job_enabled :: bool
  se_memory_usage_snapshot_job_interval_seconds :: u64
  se_provider_usage_retention_job_enabled :: bool
  se_provider_usage_retention_job_interval_seconds :: u64
  se_memory_retention_job_enabled :: bool
  se_memory_retention_job_interval_seconds :: u64
  se_background_job_history_enabled :: bool
  se_background_job_history_retention_days :: u32
  se_background_job_lock_enabled :: bool
  se_background_job_lock_backend :: background_job_lock_backend
  se_background_job_lock_ttl_seconds :: u64
  se_background_job_lock_owner_id :: "string option"
  se_background_job_retries_enabled :: bool
  se_background_job_max_retries :: nat
  se_background_job_initial_backoff_ms :: u64
  se_background_job_max_backoff_ms :: u64
  se_background_job_backoff_multiplier :: f32
  se_background_job_retry_jitter_enabled :: bool
  se_graceful_shutdown_timeout_seconds :: u64
  se_background_job_shutdown_timeout_seconds :: u64

definition DEFAULT_OPENAI_BASE_URL :: string where
  "DEFAULT_OPENAI_BASE_URL = ''https://api.openai.com/v1''"

definition DEFAULT_REQUEST_ID_HEADER :: string where
  "DEFAULT_REQUEST_ID_HEADER = ''X-Request-ID''"

definition DEFAULT_CONTEXT_CACHE_KEY_PREFIX :: string where
  "DEFAULT_CONTEXT_CACHE_KEY_PREFIX = ''memcore''"

definition DEFAULT_METRICS_PATH :: string where
  "DEFAULT_METRICS_PATH = ''/metrics''"

definition DEFAULT_MAX_REQUEST_BODY_BYTES :: nat where
  "DEFAULT_MAX_REQUEST_BODY_BYTES = 1048576"

definition DEFAULT_CORS_ALLOWED_METHODS :: "string list" where
  "DEFAULT_CORS_ALLOWED_METHODS = [''GET'', ''POST'', ''PUT'', ''DELETE'', ''OPTIONS'']"

definition DEFAULT_CORS_ALLOWED_HEADERS :: "string list" where
  "DEFAULT_CORS_ALLOWED_HEADERS = [''Authorization'', ''Content-Type'', ''X-Organization-ID'', ''X-Memcore-Test-Source'']"

definition MULTI_PROVIDER_CONFIRMATION :: string where
  "MULTI_PROVIDER_CONFIRMATION = ''I_UNDERSTAND_THIS_WILL_USE_PROVIDER_CREDITS''"

definition MAX_SAFE_PROVIDER_GUARDRAIL_RETRIES :: nat where
  "MAX_SAFE_PROVIDER_GUARDRAIL_RETRIES = 3"

definition settings_default :: settings where
  "settings_default =
     \<lparr>se_environment = EnvDevelopment, se_host = ''0.0.0.0'', se_port = 8080, se_storage_mode = ModeEmbedded,
      se_vector_backend = VecMock, se_fact_backend = FactMock, se_event_backend = EventMock,
      se_database_url = ''sqlite://./data/memcore.db'', se_postgres_url = None, se_database_migrations_enabled = True,
      se_database_migration_mode = MigAuto, se_database_require_clean_migrations = True, se_backup_enabled = False,
      se_backup_dir = ''./backups'', se_backup_max_files = 10, se_restore_enabled = False,
      se_security_headers_enabled = True, se_max_request_body_bytes = DEFAULT_MAX_REQUEST_BODY_BYTES,
      se_cors_enabled = False, se_cors_allowed_origins = [], se_cors_allowed_methods = DEFAULT_CORS_ALLOWED_METHODS,
      se_cors_allowed_headers = DEFAULT_CORS_ALLOWED_HEADERS, se_cors_exposed_headers = [],
      se_cors_allow_credentials = False, se_qdrant_url = ''http://localhost:6334'',
      se_qdrant_collection = ''memcore_vectors'', se_lancedb_path = ''./data/lancedb'',
      se_lancedb_table = ''memcore_vectors'', se_llm_provider = LlmMock, se_llm_model = ''mock-llm'',
      se_embedding_provider = EmbMock, se_embedding_model = ''mock-embedding'', se_enable_pii_redaction = True,
      se_min_importance = f32_of_rat (55 / 100), se_auth_enabled = True, se_auth_mode = AuthDev,
      se_dev_api_key = ''memcore_dev_key'', se_api_key_pepper = None, se_openai_api_key = None,
      se_openai_base_url = DEFAULT_OPENAI_BASE_URL, se_rate_limit_enabled = True, se_rate_limit_requests_per_minute = 60,
      se_log_format = FmtJson, se_log_level = LvlInfo, se_request_id_header = DEFAULT_REQUEST_ID_HEADER,
      se_metrics_enabled = False, se_metrics_path = DEFAULT_METRICS_PATH, se_metrics_require_auth = True,
      se_metrics_include_process = False, se_retention_enabled = False, se_fact_retention_days = 0,
      se_event_retention_days = 0, se_context_cache_enabled = False, se_context_cache_backend = CacheDisabled,
      se_context_cache_ttl_seconds = 300, se_context_cache_max_entries = 1000, se_redis_url = None,
      se_context_cache_key_prefix = DEFAULT_CONTEXT_CACHE_KEY_PREFIX, se_context_cache_stampede_protection_enabled = True,
      se_context_cache_lock_timeout_seconds = 30, se_context_cache_stale_while_revalidate_enabled = False,
      se_context_cache_stale_ttl_seconds = 120, se_context_cache_metrics_enabled = True, se_provider_timeout_seconds = 30,
      se_provider_max_retries = 2, se_provider_initial_backoff_ms = 250, se_provider_max_backoff_ms = 2000,
      se_provider_backoff_multiplier = Fin 2, se_provider_retry_jitter_enabled = True, se_provider_fallback_enabled = False,
      se_llm_fallback_order = [''openai''], se_embedding_fallback_order = [''openai''],
      se_summarizer_fallback_order = [''openai''], se_provider_circuit_breaker_enabled = True,
      se_provider_circuit_breaker_failure_threshold = 5, se_provider_circuit_breaker_reset_timeout_seconds = 60,
      se_provider_circuit_breaker_half_open_max_calls = 1, se_provider_usage_metrics_enabled = True,
      se_provider_cost_tracking_enabled = False, se_provider_usage_persistence_enabled = False,
      se_provider_usage_retention_days = 180, se_quotas_enabled = False, se_max_users_per_org = 0,
      se_max_memories_per_user = 0, se_max_memories_per_org = 0, se_daily_provider_request_limit = 0,
      se_daily_provider_token_limit = 0, se_provider_guardrails_enabled = True, se_real_provider_calls_enabled = False,
      se_provider_test_mode = TestMockOnly, se_provider_max_calls_per_run = 10, se_provider_max_input_chars = 4000,
      se_provider_max_output_tokens = 300, se_provider_max_retries_per_call = 1,
      se_allow_real_providers_during_load_tests = False, se_background_jobs_allow_real_providers = False,
      se_multi_provider_validation_enabled = False, se_multi_provider_validation_confirmation = None,
      se_background_jobs_enabled = False, se_background_job_runner_interval_seconds = 60, se_background_job_org_ids = [],
      se_memory_usage_snapshot_job_enabled = False, se_memory_usage_snapshot_job_interval_seconds = 86400,
      se_provider_usage_retention_job_enabled = False, se_provider_usage_retention_job_interval_seconds = 86400,
      se_memory_retention_job_enabled = False, se_memory_retention_job_interval_seconds = 86400,
      se_background_job_history_enabled = True, se_background_job_history_retention_days = 30,
      se_background_job_lock_enabled = False, se_background_job_lock_backend = LockDatabase,
      se_background_job_lock_ttl_seconds = 300, se_background_job_lock_owner_id = None,
      se_background_job_retries_enabled = True, se_background_job_max_retries = 2,
      se_background_job_initial_backoff_ms = 500, se_background_job_max_backoff_ms = 5000,
      se_background_job_backoff_multiplier = Fin 2, se_background_job_retry_jitter_enabled = True,
      se_graceful_shutdown_timeout_seconds = 30, se_background_job_shutdown_timeout_seconds = 30\<rparr>"

definition sqlite_memory :: settings where
  "sqlite_memory = settings_default\<lparr>se_fact_backend := FactSqlite, se_event_backend := EventSqlite,
     se_database_url := ''sqlite::memory:?cache=shared''\<rparr>"

section \<open>Reading the settings\<close>

text \<open>
  \<open>from_env\<close> reads one variable after the other and returns at the first error. A step reads a variable and sets its
  field, starting from the defaults: the default of a field is the field's value before its step.
\<close>

type_synonym settings_step = "settings \<Rightarrow> settings memcore_result"

fun load_steps :: "settings_step list \<Rightarrow> settings_step" where
  "load_steps [] d = Inr d"
| "load_steps (f # fs) d = and_then (f d) (load_steps fs)"

definition server_steps :: "env_vars \<Rightarrow> settings_step list" where
  "server_steps vars =
    [\<lambda>d. and_then (environment_from_str (read_env_or vars ''MEMCORE_ENV'' ''development'')) (\<lambda>x. Inr (d\<lparr>se_environment := x\<rparr>)),
     \<lambda>d. Inr (d\<lparr>se_host := read_env_or vars ''MEMCORE_HOST'' (se_host d)\<rparr>),
     \<lambda>d. and_then (parse_u16 vars ''MEMCORE_PORT'' (se_port d)) (\<lambda>x. Inr (d\<lparr>se_port := x\<rparr>)),
     \<lambda>d. and_then (storage_mode_from_str (read_env_or vars ''MEMCORE_STORAGE_MODE'' ''embedded'')) (\<lambda>x. Inr (d\<lparr>se_storage_mode := x\<rparr>)),
     \<lambda>d. and_then (vector_backend_from_str (read_env_or vars ''MEMCORE_VECTOR_BACKEND'' ''lancedb'')) (\<lambda>x. Inr (d\<lparr>se_vector_backend := x\<rparr>)),
     \<lambda>d. and_then (fact_backend_from_str (read_env_or vars ''MEMCORE_FACT_BACKEND'' ''sqlite'')) (\<lambda>x. Inr (d\<lparr>se_fact_backend := x\<rparr>)),
     \<lambda>d. and_then (case read_env_optional vars ''MEMCORE_EVENT_BACKEND'' of
        Some v \<Rightarrow> event_backend_from_str v | None \<Rightarrow> Inr (default_for_fact_backend (se_fact_backend d))) (\<lambda>x. Inr (d\<lparr>se_event_backend := x\<rparr>)),
     \<lambda>d. Inr (d\<lparr>se_database_url := read_env_or vars ''MEMCORE_DATABASE_URL'' (se_database_url d)\<rparr>),
     \<lambda>d. Inr (d\<lparr>se_postgres_url := read_env_optional vars ''MEMCORE_POSTGRES_URL''\<rparr>),
     \<lambda>d. and_then (parse_bool vars ''MEMCORE_DATABASE_MIGRATIONS_ENABLED'' (se_database_migrations_enabled d)) (\<lambda>x. Inr (d\<lparr>se_database_migrations_enabled := x\<rparr>)),
     \<lambda>d. and_then (database_migration_mode_from_str (read_env_or vars ''MEMCORE_DATABASE_MIGRATION_MODE'' (database_migration_mode_as_str (se_database_migration_mode d)))) (\<lambda>x. Inr (d\<lparr>se_database_migration_mode := x\<rparr>)),
     \<lambda>d. and_then (parse_bool vars ''MEMCORE_DATABASE_REQUIRE_CLEAN_MIGRATIONS'' (se_database_require_clean_migrations d)) (\<lambda>x. Inr (d\<lparr>se_database_require_clean_migrations := x\<rparr>)),
     \<lambda>d. and_then (parse_bool vars ''MEMCORE_BACKUP_ENABLED'' (se_backup_enabled d)) (\<lambda>x. Inr (d\<lparr>se_backup_enabled := x\<rparr>)),
     \<lambda>d. Inr (d\<lparr>se_backup_dir := read_env_or vars ''MEMCORE_BACKUP_DIR'' (se_backup_dir d)\<rparr>),
     \<lambda>d. and_then (parse_usize vars ''MEMCORE_BACKUP_MAX_FILES'' (se_backup_max_files d)) (\<lambda>x. Inr (d\<lparr>se_backup_max_files := x\<rparr>)),
     \<lambda>d. and_then (parse_bool vars ''MEMCORE_RESTORE_ENABLED'' (se_restore_enabled d)) (\<lambda>x. Inr (d\<lparr>se_restore_enabled := x\<rparr>)),
     \<lambda>d. and_then (parse_bool vars ''MEMCORE_SECURITY_HEADERS_ENABLED'' (se_security_headers_enabled d)) (\<lambda>x. Inr (d\<lparr>se_security_headers_enabled := x\<rparr>)),
     \<lambda>d. and_then (parse_usize vars ''MEMCORE_MAX_REQUEST_BODY_BYTES'' (se_max_request_body_bytes d)) (\<lambda>x. Inr (d\<lparr>se_max_request_body_bytes := x\<rparr>)),
     \<lambda>d. and_then (parse_bool vars ''MEMCORE_CORS_ENABLED'' (se_cors_enabled d)) (\<lambda>x. Inr (d\<lparr>se_cors_enabled := x\<rparr>)),
     \<lambda>d. Inr (d\<lparr>se_cors_allowed_origins := parse_string_list vars ''MEMCORE_CORS_ALLOWED_ORIGINS'' (se_cors_allowed_origins d)\<rparr>),
     \<lambda>d. Inr (d\<lparr>se_cors_allowed_methods := parse_string_list vars ''MEMCORE_CORS_ALLOWED_METHODS'' (se_cors_allowed_methods d)\<rparr>),
     \<lambda>d. Inr (d\<lparr>se_cors_allowed_headers := parse_string_list vars ''MEMCORE_CORS_ALLOWED_HEADERS'' (se_cors_allowed_headers d)\<rparr>),
     \<lambda>d. Inr (d\<lparr>se_cors_exposed_headers := parse_string_list vars ''MEMCORE_CORS_EXPOSED_HEADERS'' (se_cors_exposed_headers d)\<rparr>),
     \<lambda>d. and_then (parse_bool vars ''MEMCORE_CORS_ALLOW_CREDENTIALS'' (se_cors_allow_credentials d)) (\<lambda>x. Inr (d\<lparr>se_cors_allow_credentials := x\<rparr>))]"

definition backend_steps :: "env_vars \<Rightarrow> settings_step list" where
  "backend_steps vars =
    [\<lambda>d. Inr (d\<lparr>se_qdrant_url := read_env_or vars ''MEMCORE_QDRANT_URL'' (se_qdrant_url d)\<rparr>),
     \<lambda>d. Inr (d\<lparr>se_qdrant_collection := read_env_or vars ''MEMCORE_QDRANT_COLLECTION'' (se_qdrant_collection d)\<rparr>),
     \<lambda>d. Inr (d\<lparr>se_lancedb_path := read_env_or vars ''MEMCORE_LANCEDB_PATH'' (se_lancedb_path d)\<rparr>),
     \<lambda>d. Inr (d\<lparr>se_lancedb_table := read_env_or vars ''MEMCORE_LANCEDB_TABLE'' (se_lancedb_table d)\<rparr>),
     \<lambda>d. and_then (llm_provider_kind_from_str (read_env_or vars ''MEMCORE_LLM_PROVIDER'' ''mock'')) (\<lambda>x. Inr (d\<lparr>se_llm_provider := x\<rparr>)),
     \<lambda>d. Inr (d\<lparr>se_llm_model := read_env_or vars ''MEMCORE_LLM_MODEL'' (se_llm_model d)\<rparr>),
     \<lambda>d. and_then (embedding_provider_kind_from_str (read_env_or vars ''MEMCORE_EMBEDDING_PROVIDER'' ''mock'')) (\<lambda>x. Inr (d\<lparr>se_embedding_provider := x\<rparr>)),
     \<lambda>d. Inr (d\<lparr>se_embedding_model := read_env_or vars ''MEMCORE_EMBEDDING_MODEL'' (se_embedding_model d)\<rparr>),
     \<lambda>d. and_then (parse_bool vars ''MEMCORE_ENABLE_PII_REDACTION'' (se_enable_pii_redaction d)) (\<lambda>x. Inr (d\<lparr>se_enable_pii_redaction := x\<rparr>)),
     \<lambda>d. and_then (parse_f32 vars ''MEMCORE_MIN_IMPORTANCE'' (se_min_importance d)) (\<lambda>x. Inr (d\<lparr>se_min_importance := x\<rparr>)),
     \<lambda>d. and_then (parse_bool vars ''MEMCORE_AUTH_ENABLED'' (se_auth_enabled d)) (\<lambda>x. Inr (d\<lparr>se_auth_enabled := x\<rparr>)),
     \<lambda>d. and_then (auth_mode_from_str (read_env_or vars ''MEMCORE_AUTH_MODE'' ''dev'')) (\<lambda>x. Inr (d\<lparr>se_auth_mode := x\<rparr>)),
     \<lambda>d. Inr (d\<lparr>se_dev_api_key := read_env_or vars ''MEMCORE_DEV_API_KEY'' (se_dev_api_key d)\<rparr>),
     \<lambda>d. Inr (d\<lparr>se_api_key_pepper := read_env_optional vars ''MEMCORE_API_KEY_PEPPER''\<rparr>),
     \<lambda>d. Inr (d\<lparr>se_openai_api_key := read_env_optional vars ''OPENAI_API_KEY''\<rparr>),
     \<lambda>d. Inr (d\<lparr>se_openai_base_url := read_env_or vars ''OPENAI_BASE_URL'' (se_openai_base_url d)\<rparr>),
     \<lambda>d. and_then (parse_bool vars ''MEMCORE_RATE_LIMIT_ENABLED'' (se_rate_limit_enabled d)) (\<lambda>x. Inr (d\<lparr>se_rate_limit_enabled := x\<rparr>)),
     \<lambda>d. and_then (parse_u32 vars ''MEMCORE_RATE_LIMIT_REQUESTS_PER_MINUTE'' (se_rate_limit_requests_per_minute d)) (\<lambda>x. Inr (d\<lparr>se_rate_limit_requests_per_minute := x\<rparr>)),
     \<lambda>d. and_then (log_format_from_str (read_env_or vars ''MEMCORE_LOG_FORMAT'' ''json'')) (\<lambda>x. Inr (d\<lparr>se_log_format := x\<rparr>)),
     \<lambda>d. and_then (log_level_from_str (read_env_or vars ''MEMCORE_LOG_LEVEL'' ''info'')) (\<lambda>x. Inr (d\<lparr>se_log_level := x\<rparr>)),
     \<lambda>d. Inr (d\<lparr>se_request_id_header := read_env_or vars ''MEMCORE_REQUEST_ID_HEADER'' (se_request_id_header d)\<rparr>),
     \<lambda>d. and_then (parse_bool vars ''MEMCORE_METRICS_ENABLED'' (se_metrics_enabled d)) (\<lambda>x. Inr (d\<lparr>se_metrics_enabled := x\<rparr>)),
     \<lambda>d. Inr (d\<lparr>se_metrics_path := read_env_or vars ''MEMCORE_METRICS_PATH'' (se_metrics_path d)\<rparr>),
     \<lambda>d. and_then (parse_bool vars ''MEMCORE_METRICS_REQUIRE_AUTH'' (se_metrics_require_auth d)) (\<lambda>x. Inr (d\<lparr>se_metrics_require_auth := x\<rparr>)),
     \<lambda>d. and_then (parse_bool vars ''MEMCORE_METRICS_INCLUDE_PROCESS'' (se_metrics_include_process d)) (\<lambda>x. Inr (d\<lparr>se_metrics_include_process := x\<rparr>))]"

definition cache_steps :: "env_vars \<Rightarrow> settings_step list" where
  "cache_steps vars =
    [\<lambda>d. and_then (parse_bool vars ''MEMCORE_RETENTION_ENABLED'' (se_retention_enabled d)) (\<lambda>x. Inr (d\<lparr>se_retention_enabled := x\<rparr>)),
     \<lambda>d. and_then (parse_u32 vars ''MEMCORE_FACT_RETENTION_DAYS'' (se_fact_retention_days d)) (\<lambda>x. Inr (d\<lparr>se_fact_retention_days := x\<rparr>)),
     \<lambda>d. and_then (parse_u32 vars ''MEMCORE_EVENT_RETENTION_DAYS'' (se_event_retention_days d)) (\<lambda>x. Inr (d\<lparr>se_event_retention_days := x\<rparr>)),
     \<lambda>d. and_then (case read_env_optional vars ''MEMCORE_CONTEXT_CACHE_BACKEND'' of
        Some v \<Rightarrow> context_cache_backend_from_str v
      | None \<Rightarrow> and_then (parse_bool vars ''MEMCORE_CONTEXT_CACHE_ENABLED'' (se_context_cache_enabled d))
          (\<lambda>on. Inr (if on then CacheMemory else CacheDisabled))) (\<lambda>x. Inr (d\<lparr>se_context_cache_backend := x\<rparr>)),
     \<lambda>d. Inr (d\<lparr>se_context_cache_enabled := (se_context_cache_backend d \<noteq> CacheDisabled)\<rparr>),
     \<lambda>d. and_then (parse_u64 vars ''MEMCORE_CONTEXT_CACHE_TTL_SECONDS'' (se_context_cache_ttl_seconds d)) (\<lambda>x. Inr (d\<lparr>se_context_cache_ttl_seconds := x\<rparr>)),
     \<lambda>d. and_then (parse_usize vars ''MEMCORE_CONTEXT_CACHE_MAX_ENTRIES'' (se_context_cache_max_entries d)) (\<lambda>x. Inr (d\<lparr>se_context_cache_max_entries := x\<rparr>)),
     \<lambda>d. Inr (d\<lparr>se_redis_url := read_env_optional vars ''MEMCORE_REDIS_URL''\<rparr>),
     \<lambda>d. Inr (d\<lparr>se_context_cache_key_prefix := read_env_or vars ''MEMCORE_CONTEXT_CACHE_KEY_PREFIX'' (se_context_cache_key_prefix d)\<rparr>),
     \<lambda>d. and_then (parse_bool vars ''MEMCORE_CONTEXT_CACHE_STAMPEDE_PROTECTION_ENABLED'' (se_context_cache_stampede_protection_enabled d)) (\<lambda>x. Inr (d\<lparr>se_context_cache_stampede_protection_enabled := x\<rparr>)),
     \<lambda>d. and_then (parse_u64 vars ''MEMCORE_CONTEXT_CACHE_LOCK_TIMEOUT_SECONDS'' (se_context_cache_lock_timeout_seconds d)) (\<lambda>x. Inr (d\<lparr>se_context_cache_lock_timeout_seconds := x\<rparr>)),
     \<lambda>d. and_then (parse_bool vars ''MEMCORE_CONTEXT_CACHE_STALE_WHILE_REVALIDATE_ENABLED'' (se_context_cache_stale_while_revalidate_enabled d)) (\<lambda>x. Inr (d\<lparr>se_context_cache_stale_while_revalidate_enabled := x\<rparr>)),
     \<lambda>d. and_then (parse_u64 vars ''MEMCORE_CONTEXT_CACHE_STALE_TTL_SECONDS'' (se_context_cache_stale_ttl_seconds d)) (\<lambda>x. Inr (d\<lparr>se_context_cache_stale_ttl_seconds := x\<rparr>)),
     \<lambda>d. and_then (parse_bool vars ''MEMCORE_CONTEXT_CACHE_METRICS_ENABLED'' (se_context_cache_metrics_enabled d)) (\<lambda>x. Inr (d\<lparr>se_context_cache_metrics_enabled := x\<rparr>))]"

definition provider_steps :: "env_vars \<Rightarrow> settings_step list" where
  "provider_steps vars =
    [\<lambda>d. and_then (parse_u64 vars ''MEMCORE_PROVIDER_TIMEOUT_SECONDS'' (se_provider_timeout_seconds d)) (\<lambda>x. Inr (d\<lparr>se_provider_timeout_seconds := x\<rparr>)),
     \<lambda>d. and_then (parse_usize vars ''MEMCORE_PROVIDER_MAX_RETRIES'' (se_provider_max_retries d)) (\<lambda>x. Inr (d\<lparr>se_provider_max_retries := x\<rparr>)),
     \<lambda>d. and_then (parse_u64 vars ''MEMCORE_PROVIDER_INITIAL_BACKOFF_MS'' (se_provider_initial_backoff_ms d)) (\<lambda>x. Inr (d\<lparr>se_provider_initial_backoff_ms := x\<rparr>)),
     \<lambda>d. and_then (parse_u64 vars ''MEMCORE_PROVIDER_MAX_BACKOFF_MS'' (se_provider_max_backoff_ms d)) (\<lambda>x. Inr (d\<lparr>se_provider_max_backoff_ms := x\<rparr>)),
     \<lambda>d. and_then (parse_f32 vars ''MEMCORE_PROVIDER_BACKOFF_MULTIPLIER'' (se_provider_backoff_multiplier d)) (\<lambda>x. Inr (d\<lparr>se_provider_backoff_multiplier := x\<rparr>)),
     \<lambda>d. and_then (parse_bool vars ''MEMCORE_PROVIDER_RETRY_JITTER_ENABLED'' (se_provider_retry_jitter_enabled d)) (\<lambda>x. Inr (d\<lparr>se_provider_retry_jitter_enabled := x\<rparr>)),
     \<lambda>d. and_then (parse_bool vars ''MEMCORE_PROVIDER_FALLBACK_ENABLED'' (se_provider_fallback_enabled d)) (\<lambda>x. Inr (d\<lparr>se_provider_fallback_enabled := x\<rparr>)),
     \<lambda>d. and_then (parse_provider_fallback_order vars ''MEMCORE_LLM_FALLBACK_ORDER'' (se_llm_fallback_order d)) (\<lambda>x. Inr (d\<lparr>se_llm_fallback_order := x\<rparr>)),
     \<lambda>d. and_then (parse_provider_fallback_order vars ''MEMCORE_EMBEDDING_FALLBACK_ORDER'' (se_embedding_fallback_order d)) (\<lambda>x. Inr (d\<lparr>se_embedding_fallback_order := x\<rparr>)),
     \<lambda>d. and_then (parse_provider_fallback_order vars ''MEMCORE_SUMMARIZER_FALLBACK_ORDER'' (se_summarizer_fallback_order d)) (\<lambda>x. Inr (d\<lparr>se_summarizer_fallback_order := x\<rparr>)),
     \<lambda>d. and_then (parse_bool vars ''MEMCORE_PROVIDER_CIRCUIT_BREAKER_ENABLED'' (se_provider_circuit_breaker_enabled d)) (\<lambda>x. Inr (d\<lparr>se_provider_circuit_breaker_enabled := x\<rparr>)),
     \<lambda>d. and_then (parse_usize vars ''MEMCORE_PROVIDER_CIRCUIT_BREAKER_FAILURE_THRESHOLD'' (se_provider_circuit_breaker_failure_threshold d)) (\<lambda>x. Inr (d\<lparr>se_provider_circuit_breaker_failure_threshold := x\<rparr>)),
     \<lambda>d. and_then (parse_u64 vars ''MEMCORE_PROVIDER_CIRCUIT_BREAKER_RESET_TIMEOUT_SECONDS'' (se_provider_circuit_breaker_reset_timeout_seconds d)) (\<lambda>x. Inr (d\<lparr>se_provider_circuit_breaker_reset_timeout_seconds := x\<rparr>)),
     \<lambda>d. and_then (parse_usize vars ''MEMCORE_PROVIDER_CIRCUIT_BREAKER_HALF_OPEN_MAX_CALLS'' (se_provider_circuit_breaker_half_open_max_calls d)) (\<lambda>x. Inr (d\<lparr>se_provider_circuit_breaker_half_open_max_calls := x\<rparr>)),
     \<lambda>d. and_then (parse_bool vars ''MEMCORE_PROVIDER_USAGE_METRICS_ENABLED'' (se_provider_usage_metrics_enabled d)) (\<lambda>x. Inr (d\<lparr>se_provider_usage_metrics_enabled := x\<rparr>)),
     \<lambda>d. and_then (parse_bool vars ''MEMCORE_PROVIDER_COST_TRACKING_ENABLED'' (se_provider_cost_tracking_enabled d)) (\<lambda>x. Inr (d\<lparr>se_provider_cost_tracking_enabled := x\<rparr>)),
     \<lambda>d. and_then (parse_bool vars ''MEMCORE_PROVIDER_USAGE_PERSISTENCE_ENABLED'' (se_provider_usage_persistence_enabled d)) (\<lambda>x. Inr (d\<lparr>se_provider_usage_persistence_enabled := x\<rparr>)),
     \<lambda>d. and_then (parse_u32 vars ''MEMCORE_PROVIDER_USAGE_RETENTION_DAYS'' (se_provider_usage_retention_days d)) (\<lambda>x. Inr (d\<lparr>se_provider_usage_retention_days := x\<rparr>))]"

definition limit_steps :: "env_vars \<Rightarrow> settings_step list" where
  "limit_steps vars =
    [\<lambda>d. and_then (parse_bool vars ''MEMCORE_QUOTAS_ENABLED'' (se_quotas_enabled d)) (\<lambda>x. Inr (d\<lparr>se_quotas_enabled := x\<rparr>)),
     \<lambda>d. and_then (parse_u64 vars ''MEMCORE_MAX_USERS_PER_ORG'' (se_max_users_per_org d)) (\<lambda>x. Inr (d\<lparr>se_max_users_per_org := x\<rparr>)),
     \<lambda>d. and_then (parse_u64 vars ''MEMCORE_MAX_MEMORIES_PER_USER'' (se_max_memories_per_user d)) (\<lambda>x. Inr (d\<lparr>se_max_memories_per_user := x\<rparr>)),
     \<lambda>d. and_then (parse_u64 vars ''MEMCORE_MAX_MEMORIES_PER_ORG'' (se_max_memories_per_org d)) (\<lambda>x. Inr (d\<lparr>se_max_memories_per_org := x\<rparr>)),
     \<lambda>d. and_then (parse_u64 vars ''MEMCORE_DAILY_PROVIDER_REQUEST_LIMIT'' (se_daily_provider_request_limit d)) (\<lambda>x. Inr (d\<lparr>se_daily_provider_request_limit := x\<rparr>)),
     \<lambda>d. and_then (parse_u64 vars ''MEMCORE_DAILY_PROVIDER_TOKEN_LIMIT'' (se_daily_provider_token_limit d)) (\<lambda>x. Inr (d\<lparr>se_daily_provider_token_limit := x\<rparr>)),
     \<lambda>d. and_then (parse_bool vars ''MEMCORE_PROVIDER_GUARDRAILS_ENABLED'' (se_provider_guardrails_enabled d)) (\<lambda>x. Inr (d\<lparr>se_provider_guardrails_enabled := x\<rparr>)),
     \<lambda>d. and_then (parse_bool vars ''MEMCORE_REAL_PROVIDER_CALLS_ENABLED'' (se_real_provider_calls_enabled d)) (\<lambda>x. Inr (d\<lparr>se_real_provider_calls_enabled := x\<rparr>)),
     \<lambda>d. and_then (config_test_mode_from_str (read_env_or vars ''MEMCORE_PROVIDER_TEST_MODE'' (config_test_mode_as_str (se_provider_test_mode d)))) (\<lambda>x. Inr (d\<lparr>se_provider_test_mode := x\<rparr>)),
     \<lambda>d. and_then (parse_usize vars ''MEMCORE_PROVIDER_MAX_CALLS_PER_RUN'' (se_provider_max_calls_per_run d)) (\<lambda>x. Inr (d\<lparr>se_provider_max_calls_per_run := x\<rparr>)),
     \<lambda>d. and_then (parse_usize vars ''MEMCORE_PROVIDER_MAX_INPUT_CHARS'' (se_provider_max_input_chars d)) (\<lambda>x. Inr (d\<lparr>se_provider_max_input_chars := x\<rparr>)),
     \<lambda>d. and_then (parse_usize vars ''MEMCORE_PROVIDER_MAX_OUTPUT_TOKENS'' (se_provider_max_output_tokens d)) (\<lambda>x. Inr (d\<lparr>se_provider_max_output_tokens := x\<rparr>)),
     \<lambda>d. and_then (parse_usize vars ''MEMCORE_PROVIDER_MAX_RETRIES_PER_CALL'' (se_provider_max_retries_per_call d)) (\<lambda>x. Inr (d\<lparr>se_provider_max_retries_per_call := x\<rparr>)),
     \<lambda>d. and_then (parse_bool vars ''MEMCORE_ALLOW_REAL_PROVIDERS_DURING_LOAD_TESTS'' (se_allow_real_providers_during_load_tests d)) (\<lambda>x. Inr (d\<lparr>se_allow_real_providers_during_load_tests := x\<rparr>)),
     \<lambda>d. and_then (parse_bool vars ''MEMCORE_BACKGROUND_JOBS_ALLOW_REAL_PROVIDERS'' (se_background_jobs_allow_real_providers d)) (\<lambda>x. Inr (d\<lparr>se_background_jobs_allow_real_providers := x\<rparr>)),
     \<lambda>d. and_then (parse_bool vars ''MEMCORE_MULTI_PROVIDER_VALIDATION_ENABLED'' (se_multi_provider_validation_enabled d)) (\<lambda>x. Inr (d\<lparr>se_multi_provider_validation_enabled := x\<rparr>)),
     \<lambda>d. Inr (d\<lparr>se_multi_provider_validation_confirmation := read_env_optional vars ''MEMCORE_MULTI_PROVIDER_VALIDATION_CONFIRMATION''\<rparr>)]"

definition job_steps :: "env_vars \<Rightarrow> settings_step list" where
  "job_steps vars =
    [\<lambda>d. and_then (parse_bool vars ''MEMCORE_BACKGROUND_JOBS_ENABLED'' (se_background_jobs_enabled d)) (\<lambda>x. Inr (d\<lparr>se_background_jobs_enabled := x\<rparr>)),
     \<lambda>d. and_then (parse_u64 vars ''MEMCORE_BACKGROUND_JOB_RUNNER_INTERVAL_SECONDS'' (se_background_job_runner_interval_seconds d)) (\<lambda>x. Inr (d\<lparr>se_background_job_runner_interval_seconds := x\<rparr>)),
     \<lambda>d. Inr (d\<lparr>se_background_job_org_ids := parse_string_list vars ''MEMCORE_BACKGROUND_JOB_ORG_IDS'' (se_background_job_org_ids d)\<rparr>),
     \<lambda>d. and_then (parse_bool vars ''MEMCORE_MEMORY_USAGE_SNAPSHOT_JOB_ENABLED'' (se_memory_usage_snapshot_job_enabled d)) (\<lambda>x. Inr (d\<lparr>se_memory_usage_snapshot_job_enabled := x\<rparr>)),
     \<lambda>d. and_then (parse_u64 vars ''MEMCORE_MEMORY_USAGE_SNAPSHOT_JOB_INTERVAL_SECONDS'' (se_memory_usage_snapshot_job_interval_seconds d)) (\<lambda>x. Inr (d\<lparr>se_memory_usage_snapshot_job_interval_seconds := x\<rparr>)),
     \<lambda>d. and_then (parse_bool vars ''MEMCORE_PROVIDER_USAGE_RETENTION_JOB_ENABLED'' (se_provider_usage_retention_job_enabled d)) (\<lambda>x. Inr (d\<lparr>se_provider_usage_retention_job_enabled := x\<rparr>)),
     \<lambda>d. and_then (parse_u64 vars ''MEMCORE_PROVIDER_USAGE_RETENTION_JOB_INTERVAL_SECONDS'' (se_provider_usage_retention_job_interval_seconds d)) (\<lambda>x. Inr (d\<lparr>se_provider_usage_retention_job_interval_seconds := x\<rparr>)),
     \<lambda>d. and_then (parse_bool vars ''MEMCORE_MEMORY_RETENTION_JOB_ENABLED'' (se_memory_retention_job_enabled d)) (\<lambda>x. Inr (d\<lparr>se_memory_retention_job_enabled := x\<rparr>)),
     \<lambda>d. and_then (parse_u64 vars ''MEMCORE_MEMORY_RETENTION_JOB_INTERVAL_SECONDS'' (se_memory_retention_job_interval_seconds d)) (\<lambda>x. Inr (d\<lparr>se_memory_retention_job_interval_seconds := x\<rparr>)),
     \<lambda>d. and_then (parse_bool vars ''MEMCORE_BACKGROUND_JOB_HISTORY_ENABLED'' (se_background_job_history_enabled d)) (\<lambda>x. Inr (d\<lparr>se_background_job_history_enabled := x\<rparr>)),
     \<lambda>d. and_then (parse_u32 vars ''MEMCORE_BACKGROUND_JOB_HISTORY_RETENTION_DAYS'' (se_background_job_history_retention_days d)) (\<lambda>x. Inr (d\<lparr>se_background_job_history_retention_days := x\<rparr>)),
     \<lambda>d. and_then (parse_bool vars ''MEMCORE_BACKGROUND_JOB_LOCK_ENABLED'' (se_background_job_lock_enabled d)) (\<lambda>x. Inr (d\<lparr>se_background_job_lock_enabled := x\<rparr>)),
     \<lambda>d. and_then (background_job_lock_backend_from_str (read_env_or vars ''MEMCORE_BACKGROUND_JOB_LOCK_BACKEND'' ''database'')) (\<lambda>x. Inr (d\<lparr>se_background_job_lock_backend := x\<rparr>)),
     \<lambda>d. and_then (parse_u64 vars ''MEMCORE_BACKGROUND_JOB_LOCK_TTL_SECONDS'' (se_background_job_lock_ttl_seconds d)) (\<lambda>x. Inr (d\<lparr>se_background_job_lock_ttl_seconds := x\<rparr>)),
     \<lambda>d. Inr (d\<lparr>se_background_job_lock_owner_id := (case map_option trim (read_env_optional vars ''MEMCORE_BACKGROUND_JOB_LOCK_OWNER_ID'') of
        Some v \<Rightarrow> if v = [] then None else Some v | None \<Rightarrow> None)\<rparr>),
     \<lambda>d. and_then (parse_bool vars ''MEMCORE_BACKGROUND_JOB_RETRIES_ENABLED'' (se_background_job_retries_enabled d)) (\<lambda>x. Inr (d\<lparr>se_background_job_retries_enabled := x\<rparr>)),
     \<lambda>d. and_then (parse_usize vars ''MEMCORE_BACKGROUND_JOB_MAX_RETRIES'' (se_background_job_max_retries d)) (\<lambda>x. Inr (d\<lparr>se_background_job_max_retries := x\<rparr>)),
     \<lambda>d. and_then (parse_u64 vars ''MEMCORE_BACKGROUND_JOB_INITIAL_BACKOFF_MS'' (se_background_job_initial_backoff_ms d)) (\<lambda>x. Inr (d\<lparr>se_background_job_initial_backoff_ms := x\<rparr>)),
     \<lambda>d. and_then (parse_u64 vars ''MEMCORE_BACKGROUND_JOB_MAX_BACKOFF_MS'' (se_background_job_max_backoff_ms d)) (\<lambda>x. Inr (d\<lparr>se_background_job_max_backoff_ms := x\<rparr>)),
     \<lambda>d. and_then (parse_f32 vars ''MEMCORE_BACKGROUND_JOB_BACKOFF_MULTIPLIER'' (se_background_job_backoff_multiplier d)) (\<lambda>x. Inr (d\<lparr>se_background_job_backoff_multiplier := x\<rparr>)),
     \<lambda>d. and_then (parse_bool vars ''MEMCORE_BACKGROUND_JOB_RETRY_JITTER_ENABLED'' (se_background_job_retry_jitter_enabled d)) (\<lambda>x. Inr (d\<lparr>se_background_job_retry_jitter_enabled := x\<rparr>)),
     \<lambda>d. and_then (parse_u64 vars ''MEMCORE_GRACEFUL_SHUTDOWN_TIMEOUT_SECONDS'' (se_graceful_shutdown_timeout_seconds d)) (\<lambda>x. Inr (d\<lparr>se_graceful_shutdown_timeout_seconds := x\<rparr>)),
     \<lambda>d. and_then (parse_u64 vars ''MEMCORE_BACKGROUND_JOB_SHUTDOWN_TIMEOUT_SECONDS'' (se_background_job_shutdown_timeout_seconds d)) (\<lambda>x. Inr (d\<lparr>se_background_job_shutdown_timeout_seconds := x\<rparr>))]"

definition settings_steps :: "env_vars \<Rightarrow> settings_step list" where
  "settings_steps vars = server_steps vars @ backend_steps vars @ cache_steps vars @ provider_steps vars @ limit_steps vars @ job_steps vars"

section \<open>Checks\<close>

text \<open>The checks are made in order; the first that finds something wrong is reported.\<close>

fun first_failure :: "(bool \<times> string) list \<Rightarrow> unit memcore_result" where
  "first_failure [] = Inr ()"
| "first_failure ((wrong, message) # checks) = (if wrong then Inl (ValidationError message) else first_failure checks)"

definition blank_option :: "string option \<Rightarrow> bool" where
  "blank_option v = (case v of Some x \<Rightarrow> is_blank x | None \<Rightarrow> True)"

definition has_whitespace :: "string \<Rightarrow> bool" where
  "has_whitespace s = list_ex (contains s) ws_seqs"

definition is_valid_cors_origin :: "string \<Rightarrow> bool" where
  "is_valid_cors_origin v =
     (let origin = trim v in
      if origin = ''*'' then True
      else if has_whitespace origin then False
      else (starts_with origin ''http://'' \<or> starts_with origin ''https://'') \<and> 8 < length origin)"

definition ascii_upper :: "char \<Rightarrow> char" where
  "ascii_upper c = (if 97 \<le> (of_char c :: nat) \<and> (of_char c :: nat) \<le> 122 then char_of (of_char c - 32 :: nat) else c)"

definition is_valid_http_method :: "string \<Rightarrow> bool" where
  "is_valid_http_method m \<longleftrightarrow>
     map ascii_upper (trim m) \<in> {''GET'', ''POST'', ''PUT'', ''DELETE'', ''OPTIONS'', ''PATCH'', ''HEAD''}"

definition validate_cors_settings :: "settings \<Rightarrow> unit memcore_result" where
  "validate_cors_settings s =
     first_failure
       (map (\<lambda>origin. (\<not> is_valid_cors_origin origin, ''Invalid MEMCORE_CORS_ALLOWED_ORIGINS value: '' @ origin)) (se_cors_allowed_origins s) @
        [(se_cors_allow_credentials s \<and> list_ex (\<lambda>origin. trim origin = ''*'') (se_cors_allowed_origins s),
          ''MEMCORE_CORS_ALLOWED_ORIGINS cannot include * when MEMCORE_CORS_ALLOW_CREDENTIALS=true'')] @
        map (\<lambda>m. (\<not> is_valid_http_method m, ''Invalid MEMCORE_CORS_ALLOWED_METHODS value: '' @ m)) (se_cors_allowed_methods s) @
        concat (map (\<lambda>header.
          [(is_blank header, ''CORS header names cannot be empty''),
           (has_whitespace header, ''Invalid CORS header name: '' @ header)])
          (se_cors_allowed_headers s @ se_cors_exposed_headers s)))"

definition validate_metrics_settings :: "settings \<Rightarrow> unit memcore_result" where
  "validate_metrics_settings s =
     (let path = trim (se_metrics_path s) in
      first_failure
        [(path = [], ''MEMCORE_METRICS_PATH cannot be empty''),
         (\<not> starts_with path ''/'', ''MEMCORE_METRICS_PATH must start with '' @ [CHR 0x27] @ ''/'' @ [CHR 0x27]),
         (path \<in> {''/health'', ''/ready'', ''/api/v1/version''},
          ''MEMCORE_METRICS_PATH cannot collide with reserved path '' @ path)])"

definition server_checks :: "settings \<Rightarrow> (bool \<times> string) list" where
  "server_checks s =
    [(is_blank (se_host s),
      ''MEMCORE_HOST cannot be empty''),
     (is_blank (se_database_url s),
      ''MEMCORE_DATABASE_URL cannot be empty''),
     (is_blank (se_backup_dir s),
      ''MEMCORE_BACKUP_DIR cannot be empty''),
     (se_backup_max_files s = 0,
      ''MEMCORE_BACKUP_MAX_FILES must be greater than 0''),
     (se_max_request_body_bytes s = 0,
      ''MEMCORE_MAX_REQUEST_BODY_BYTES must be greater than 0'')]"

definition access_checks :: "settings \<Rightarrow> (bool \<times> string) list" where
  "access_checks s =
    [(is_blank (se_lancedb_path s),
      ''MEMCORE_LANCEDB_PATH cannot be empty''),
     (is_blank (se_lancedb_table s),
      ''MEMCORE_LANCEDB_TABLE cannot be empty''),
     (se_auth_enabled s \<and> se_auth_mode s = AuthDev \<and> is_blank (se_dev_api_key s),
      ''MEMCORE_DEV_API_KEY cannot be empty when MEMCORE_AUTH_ENABLED=true and MEMCORE_AUTH_MODE=dev''),
     (se_auth_mode s = AuthDatabase \<and> blank_option (se_api_key_pepper s),
      ''MEMCORE_API_KEY_PEPPER is required when MEMCORE_AUTH_MODE=database''),
     (is_blank (se_openai_base_url s),
      ''OPENAI_BASE_URL cannot be empty''),
     (se_rate_limit_requests_per_minute s = 0,
      ''MEMCORE_RATE_LIMIT_REQUESTS_PER_MINUTE must be greater than 0''),
     (is_blank (se_request_id_header s),
      ''MEMCORE_REQUEST_ID_HEADER cannot be empty'')]"

definition backend_checks :: "settings \<Rightarrow> (bool \<times> string) list" where
  "backend_checks s =
    [((se_llm_provider s = LlmOpenAi \<or> se_embedding_provider s = EmbOpenAi) \<and> blank_option (se_openai_api_key s),
      ''OPENAI_API_KEY is required when MEMCORE_LLM_PROVIDER or MEMCORE_EMBEDDING_PROVIDER is openai''),
     (se_fact_backend s = FactPostgres \<and> blank_option (se_postgres_url s),
      ''MEMCORE_POSTGRES_URL is required when MEMCORE_FACT_BACKEND=postgres''),
     (se_event_backend s = EventPostgres \<and> blank_option (se_postgres_url s),
      ''MEMCORE_POSTGRES_URL is required when MEMCORE_EVENT_BACKEND=postgres''),
     (365000 < se_fact_retention_days s,
      ''MEMCORE_FACT_RETENTION_DAYS is unreasonably large''),
     (365000 < se_event_retention_days s,
      ''MEMCORE_EVENT_RETENTION_DAYS is unreasonably large''),
     (365000 < se_provider_usage_retention_days s,
      ''MEMCORE_PROVIDER_USAGE_RETENTION_DAYS is unreasonably large''),
     (365000 < se_background_job_history_retention_days s,
      ''MEMCORE_BACKGROUND_JOB_HISTORY_RETENTION_DAYS is unreasonably large'')]"

definition job_checks :: "settings \<Rightarrow> (bool \<times> string) list" where
  "job_checks s =
    [(se_background_job_runner_interval_seconds s = 0,
      ''MEMCORE_BACKGROUND_JOB_RUNNER_INTERVAL_SECONDS must be greater than 0''),
     (se_memory_usage_snapshot_job_interval_seconds s = 0,
      ''MEMCORE_MEMORY_USAGE_SNAPSHOT_JOB_INTERVAL_SECONDS must be greater than 0''),
     (se_provider_usage_retention_job_interval_seconds s = 0,
      ''MEMCORE_PROVIDER_USAGE_RETENTION_JOB_INTERVAL_SECONDS must be greater than 0''),
     (se_memory_retention_job_interval_seconds s = 0,
      ''MEMCORE_MEMORY_RETENTION_JOB_INTERVAL_SECONDS must be greater than 0''),
     (se_background_job_lock_ttl_seconds s = 0,
      ''MEMCORE_BACKGROUND_JOB_LOCK_TTL_SECONDS must be greater than 0''),
     (se_background_job_initial_backoff_ms s = 0,
      ''MEMCORE_BACKGROUND_JOB_INITIAL_BACKOFF_MS must be greater than 0''),
     (se_background_job_max_backoff_ms s < se_background_job_initial_backoff_ms s,
      ''MEMCORE_BACKGROUND_JOB_MAX_BACKOFF_MS must be >= MEMCORE_BACKGROUND_JOB_INITIAL_BACKOFF_MS''),
     (f32_lt (se_background_job_backoff_multiplier s) (Fin 1),
      ''MEMCORE_BACKGROUND_JOB_BACKOFF_MULTIPLIER must be >= 1.0''),
     (se_graceful_shutdown_timeout_seconds s = 0,
      ''MEMCORE_GRACEFUL_SHUTDOWN_TIMEOUT_SECONDS must be greater than 0''),
     (se_background_job_shutdown_timeout_seconds s = 0,
      ''MEMCORE_BACKGROUND_JOB_SHUTDOWN_TIMEOUT_SECONDS must be greater than 0'')]"

definition cache_checks :: "settings \<Rightarrow> (bool \<times> string) list" where
  "cache_checks s =
    [(se_context_cache_backend s = CacheMemory \<and> se_context_cache_ttl_seconds s = 0,
      ''MEMCORE_CONTEXT_CACHE_TTL_SECONDS must be greater than 0 when context cache backend is memory''),
     (se_context_cache_backend s = CacheMemory \<and> se_context_cache_max_entries s = 0,
      ''MEMCORE_CONTEXT_CACHE_MAX_ENTRIES must be greater than 0 when context cache backend is memory''),
     (se_context_cache_backend s = CacheRedis \<and> se_context_cache_ttl_seconds s = 0,
      ''MEMCORE_CONTEXT_CACHE_TTL_SECONDS must be greater than 0 when context cache backend is redis''),
     (se_context_cache_backend s = CacheRedis \<and> blank_option (se_redis_url s),
      ''MEMCORE_REDIS_URL is required when MEMCORE_CONTEXT_CACHE_BACKEND=redis''),
     (is_blank (se_context_cache_key_prefix s),
      ''MEMCORE_CONTEXT_CACHE_KEY_PREFIX cannot be empty''),
     (se_context_cache_enabled s \<and> se_context_cache_stampede_protection_enabled s \<and> se_context_cache_lock_timeout_seconds s = 0,
      ''MEMCORE_CONTEXT_CACHE_LOCK_TIMEOUT_SECONDS must be greater than 0 when stampede protection is enabled''),
     (se_context_cache_enabled s \<and> se_context_cache_stale_while_revalidate_enabled s \<and> se_context_cache_stale_ttl_seconds s = 0,
      ''MEMCORE_CONTEXT_CACHE_STALE_TTL_SECONDS must be greater than 0 when stale-while-revalidate is enabled''),
     (se_vector_backend s = VecQdrant \<and> is_blank (se_qdrant_url s),
      ''MEMCORE_QDRANT_URL is required when MEMCORE_VECTOR_BACKEND=qdrant''),
     (se_vector_backend s = VecQdrant \<and> is_blank (se_qdrant_collection s),
      ''MEMCORE_QDRANT_COLLECTION cannot be empty when MEMCORE_VECTOR_BACKEND=qdrant'')]"

definition provider_checks :: "settings \<Rightarrow> (bool \<times> string) list" where
  "provider_checks s =
    [(se_provider_timeout_seconds s = 0,
      ''MEMCORE_PROVIDER_TIMEOUT_SECONDS must be greater than 0''),
     (se_provider_initial_backoff_ms s = 0,
      ''MEMCORE_PROVIDER_INITIAL_BACKOFF_MS must be greater than 0''),
     (se_provider_max_backoff_ms s < se_provider_initial_backoff_ms s,
      ''MEMCORE_PROVIDER_MAX_BACKOFF_MS must be >= MEMCORE_PROVIDER_INITIAL_BACKOFF_MS''),
     (f32_lt (se_provider_backoff_multiplier s) (Fin 1),
      ''MEMCORE_PROVIDER_BACKOFF_MULTIPLIER must be >= 1.0''),
     (se_provider_circuit_breaker_failure_threshold s = 0,
      ''MEMCORE_PROVIDER_CIRCUIT_BREAKER_FAILURE_THRESHOLD must be greater than 0''),
     (se_provider_circuit_breaker_reset_timeout_seconds s = 0,
      ''MEMCORE_PROVIDER_CIRCUIT_BREAKER_RESET_TIMEOUT_SECONDS must be greater than 0''),
     (se_provider_circuit_breaker_half_open_max_calls s = 0,
      ''MEMCORE_PROVIDER_CIRCUIT_BREAKER_HALF_OPEN_MAX_CALLS must be greater than 0''),
     (se_provider_max_calls_per_run s = 0,
      ''MEMCORE_PROVIDER_MAX_CALLS_PER_RUN must be greater than 0''),
     (se_provider_max_input_chars s = 0,
      ''MEMCORE_PROVIDER_MAX_INPUT_CHARS must be greater than 0''),
     (se_provider_max_output_tokens s = 0,
      ''MEMCORE_PROVIDER_MAX_OUTPUT_TOKENS must be greater than 0''),
     (MAX_SAFE_PROVIDER_GUARDRAIL_RETRIES < se_provider_max_retries_per_call s,
      ''MEMCORE_PROVIDER_MAX_RETRIES_PER_CALL cannot exceed '' @ show_nat MAX_SAFE_PROVIDER_GUARDRAIL_RETRIES),
     (se_provider_test_mode s = TestMultiReal \<and> \<not> se_multi_provider_validation_enabled s,
      ''MEMCORE_MULTI_PROVIDER_VALIDATION_ENABLED must be true when MEMCORE_PROVIDER_TEST_MODE=multi_real''),
     (se_provider_test_mode s = TestMultiReal \<and> map_option trim (se_multi_provider_validation_confirmation s) \<noteq> Some MULTI_PROVIDER_CONFIRMATION,
      ''MEMCORE_MULTI_PROVIDER_VALIDATION_CONFIRMATION must be exactly I_UNDERSTAND_THIS_WILL_USE_PROVIDER_CREDITS for multi_real mode'')]"

definition validate_settings :: "settings \<Rightarrow> unit memcore_result" where
  "validate_settings s =
     and_then (first_failure (server_checks s)) (\<lambda>_.
     and_then (validate_cors_settings s) (\<lambda>_.
     and_then (first_failure (access_checks s)) (\<lambda>_.
     and_then (validate_metrics_settings s) (\<lambda>_.
     first_failure (backend_checks s @ job_checks s @ cache_checks s @ provider_checks s)))))"

definition from_env :: "env_vars \<Rightarrow> settings memcore_result" where
  "from_env vars =
     and_then (load_steps (settings_steps vars) settings_default) (\<lambda>s.
     if \<not> (f32_le (Fin 0) (se_min_importance s) \<and> f32_le (se_min_importance s) (Fin 1))
     then Inl (ValidationError ''MEMCORE_MIN_IMPORTANCE must be between 0.0 and 1.0'')
     else and_then (validate_settings s) (\<lambda>_. Inr s))"

section \<open>Trimming twice\<close>

lemma match_len_0_iff: "[] \<notin> set ps \<Longrightarrow> match_len ps s = 0 \<longleftrightarrow> (\<forall>w \<in> set ps. take (length w) s \<noteq> w)"
  by (auto simp: match_len_def find_None_iff find_Some_iff split: option.splits) (metis nth_mem)

lemma match_len_0_prefix: "[] \<notin> set ps \<Longrightarrow> match_len ps (y @ z) = 0 \<Longrightarrow> match_len ps y = 0"
  unfolding match_len_0_iff by (metis append_eq_conv_conj append_take_drop_id take_append append.assoc)

lemma trim_idem: "trim (trim s) = trim s"
proof -
  obtain pre where "rev (trim_start s) = pre @ strip_front (map rev ws_seqs) (rev (trim_start s))"
    using strip_front_suffix by blast
  then have "trim_start s = trim s @ rev pre" by (metis rev_append rev_rev_ident trim_def trim_end_def)
  moreover have "match_len ws_seqs (trim_start s) = 0" unfolding trim_start_def by (rule strip_front_stop)
  ultimately have "match_len ws_seqs (trim s) = 0" using match_len_0_prefix [OF ws_seqs_nonempty] by metis
  then have "trim_start (trim s) = trim s" unfolding trim_start_def by (rule strip_front_fixed)
  then show ?thesis by (simp add: trim_def trim_end_def strip_front_idem)
qed

section \<open>What loaded settings satisfy\<close>

lemma first_failure_ok [simp]: "first_failure cs = Inr () \<longleftrightarrow> (\<forall>(wrong, m) \<in> set cs. \<not> wrong)"
  by (induction cs rule: first_failure.induct) auto

lemma first_failure_cases: "first_failure cs = Inr () \<or> (\<exists>m. first_failure cs = Inl (ValidationError m))"
  by (induction cs rule: first_failure.induct) auto

lemma from_env_Inr:
  "from_env vars = Inr s \<longleftrightarrow> load_steps (settings_steps vars) settings_default = Inr s \<and>
     f32_le (Fin 0) (se_min_importance s) \<and> f32_le (se_min_importance s) (Fin 1) \<and> validate_settings s = Inr ()"
  by (auto simp: from_env_def result_simps split: if_splits)

lemma load_steps_append: "load_steps (xs @ ys) d = and_then (load_steps xs d) (load_steps ys)"
proof (induction xs arbitrary: d)
  case (Cons f xs)
  then show ?case by (cases "f d") simp_all
qed simp

lemma load_steps_keep:
  assumes "load_steps fs d = Inr s" "P d" "\<And>f d d'. f \<in> set fs \<Longrightarrow> f d = Inr d' \<Longrightarrow> P d \<Longrightarrow> P d'"
  shows "P s"
  using assms by (induction fs arbitrary: d) (auto simp: result_simps)

text \<open>The choice of the cache decides whether it is on: no later step touches either field.\<close>

lemma steps_keep_cache:
  assumes "f \<in> set (drop 5 (cache_steps vars) @ provider_steps vars @ limit_steps vars @ job_steps vars)" "f d = Inr d'"
  shows "se_context_cache_enabled d' = se_context_cache_enabled d \<and> se_context_cache_backend d' = se_context_cache_backend d"
  using assms
  by (auto simp: cache_steps_def provider_steps_def limit_steps_def job_steps_def result_simps)

lemma settings_steps_split:
  "settings_steps vars =
     (server_steps vars @ backend_steps vars @ take 4 (cache_steps vars)) @
     (\<lambda>d. Inr (d\<lparr>se_context_cache_enabled := (se_context_cache_backend d \<noteq> CacheDisabled)\<rparr>)) #
     (drop 5 (cache_steps vars) @ provider_steps vars @ limit_steps vars @ job_steps vars)"
  by (simp add: settings_steps_def cache_steps_def)

lemma loaded_cache_enabled:
  assumes "load_steps (settings_steps vars) d = Inr s"
  shows "se_context_cache_enabled s \<longleftrightarrow> se_context_cache_backend s \<noteq> CacheDisabled"
proof -
  let ?P = "\<lambda>d. se_context_cache_enabled d \<longleftrightarrow> se_context_cache_backend d \<noteq> CacheDisabled"
  from assms obtain d1 where
    "load_steps (drop 5 (cache_steps vars) @ provider_steps vars @ limit_steps vars @ job_steps vars)
       (d1\<lparr>se_context_cache_enabled := (se_context_cache_backend d1 \<noteq> CacheDisabled)\<rparr>) = Inr s"
    by (auto simp: settings_steps_split load_steps_append result_simps simp del: append_assoc)
  then show ?thesis
    by (rule load_steps_keep [where P = ?P]) (use steps_keep_cache in \<open>auto\<close>)
qed

text \<open>What each group of checks leaves.\<close>

lemma server_checks_ok:
  "(\<forall>(wrong, m) \<in> set (server_checks s). \<not> wrong) \<longleftrightarrow>
     \<not> (is_blank (se_host s)) \<and>
     \<not> (is_blank (se_database_url s)) \<and>
     \<not> (is_blank (se_backup_dir s)) \<and>
     \<not> (se_backup_max_files s = 0) \<and>
     \<not> (se_max_request_body_bytes s = 0)"
  by (simp only: server_checks_def list.set ball_simps prod.case simp_thms)

lemma access_checks_ok:
  "(\<forall>(wrong, m) \<in> set (access_checks s). \<not> wrong) \<longleftrightarrow>
     \<not> (is_blank (se_lancedb_path s)) \<and>
     \<not> (is_blank (se_lancedb_table s)) \<and>
     \<not> (se_auth_enabled s \<and> se_auth_mode s = AuthDev \<and> is_blank (se_dev_api_key s)) \<and>
     \<not> (se_auth_mode s = AuthDatabase \<and> blank_option (se_api_key_pepper s)) \<and>
     \<not> (is_blank (se_openai_base_url s)) \<and>
     \<not> (se_rate_limit_requests_per_minute s = 0) \<and>
     \<not> (is_blank (se_request_id_header s))"
  by (simp only: access_checks_def list.set ball_simps prod.case simp_thms)

lemma backend_checks_ok:
  "(\<forall>(wrong, m) \<in> set (backend_checks s). \<not> wrong) \<longleftrightarrow>
     \<not> ((se_llm_provider s = LlmOpenAi \<or> se_embedding_provider s = EmbOpenAi) \<and> blank_option (se_openai_api_key s)) \<and>
     \<not> (se_fact_backend s = FactPostgres \<and> blank_option (se_postgres_url s)) \<and>
     \<not> (se_event_backend s = EventPostgres \<and> blank_option (se_postgres_url s)) \<and>
     \<not> (365000 < se_fact_retention_days s) \<and>
     \<not> (365000 < se_event_retention_days s) \<and>
     \<not> (365000 < se_provider_usage_retention_days s) \<and>
     \<not> (365000 < se_background_job_history_retention_days s)"
  by (simp only: backend_checks_def list.set ball_simps prod.case simp_thms)

lemma job_checks_ok:
  "(\<forall>(wrong, m) \<in> set (job_checks s). \<not> wrong) \<longleftrightarrow>
     \<not> (se_background_job_runner_interval_seconds s = 0) \<and>
     \<not> (se_memory_usage_snapshot_job_interval_seconds s = 0) \<and>
     \<not> (se_provider_usage_retention_job_interval_seconds s = 0) \<and>
     \<not> (se_memory_retention_job_interval_seconds s = 0) \<and>
     \<not> (se_background_job_lock_ttl_seconds s = 0) \<and>
     \<not> (se_background_job_initial_backoff_ms s = 0) \<and>
     \<not> (se_background_job_max_backoff_ms s < se_background_job_initial_backoff_ms s) \<and>
     \<not> (f32_lt (se_background_job_backoff_multiplier s) (Fin 1)) \<and>
     \<not> (se_graceful_shutdown_timeout_seconds s = 0) \<and>
     \<not> (se_background_job_shutdown_timeout_seconds s = 0)"
  by (simp only: job_checks_def list.set ball_simps prod.case simp_thms)

lemma cache_checks_ok:
  "(\<forall>(wrong, m) \<in> set (cache_checks s). \<not> wrong) \<longleftrightarrow>
     \<not> (se_context_cache_backend s = CacheMemory \<and> se_context_cache_ttl_seconds s = 0) \<and>
     \<not> (se_context_cache_backend s = CacheMemory \<and> se_context_cache_max_entries s = 0) \<and>
     \<not> (se_context_cache_backend s = CacheRedis \<and> se_context_cache_ttl_seconds s = 0) \<and>
     \<not> (se_context_cache_backend s = CacheRedis \<and> blank_option (se_redis_url s)) \<and>
     \<not> (is_blank (se_context_cache_key_prefix s)) \<and>
     \<not> (se_context_cache_enabled s \<and> se_context_cache_stampede_protection_enabled s \<and> se_context_cache_lock_timeout_seconds s = 0) \<and>
     \<not> (se_context_cache_enabled s \<and> se_context_cache_stale_while_revalidate_enabled s \<and> se_context_cache_stale_ttl_seconds s = 0) \<and>
     \<not> (se_vector_backend s = VecQdrant \<and> is_blank (se_qdrant_url s)) \<and>
     \<not> (se_vector_backend s = VecQdrant \<and> is_blank (se_qdrant_collection s))"
  by (simp only: cache_checks_def list.set ball_simps prod.case simp_thms)

lemma provider_checks_ok:
  "(\<forall>(wrong, m) \<in> set (provider_checks s). \<not> wrong) \<longleftrightarrow>
     \<not> (se_provider_timeout_seconds s = 0) \<and>
     \<not> (se_provider_initial_backoff_ms s = 0) \<and>
     \<not> (se_provider_max_backoff_ms s < se_provider_initial_backoff_ms s) \<and>
     \<not> (f32_lt (se_provider_backoff_multiplier s) (Fin 1)) \<and>
     \<not> (se_provider_circuit_breaker_failure_threshold s = 0) \<and>
     \<not> (se_provider_circuit_breaker_reset_timeout_seconds s = 0) \<and>
     \<not> (se_provider_circuit_breaker_half_open_max_calls s = 0) \<and>
     \<not> (se_provider_max_calls_per_run s = 0) \<and>
     \<not> (se_provider_max_input_chars s = 0) \<and>
     \<not> (se_provider_max_output_tokens s = 0) \<and>
     \<not> (MAX_SAFE_PROVIDER_GUARDRAIL_RETRIES < se_provider_max_retries_per_call s) \<and>
     \<not> (se_provider_test_mode s = TestMultiReal \<and> \<not> se_multi_provider_validation_enabled s) \<and>
     \<not> (se_provider_test_mode s = TestMultiReal \<and> map_option trim (se_multi_provider_validation_confirmation s) \<noteq> Some MULTI_PROVIDER_CONFIRMATION)"
  by (simp only: provider_checks_def list.set ball_simps prod.case simp_thms)

lemma validate_settings_ok:
  "validate_settings s = Inr () \<longleftrightarrow> validate_cors_settings s = Inr () \<and> validate_metrics_settings s = Inr () \<and>
     (\<forall>(wrong, m) \<in> set (server_checks s). \<not> wrong) \<and> (\<forall>(wrong, m) \<in> set (access_checks s). \<not> wrong) \<and>
     (\<forall>(wrong, m) \<in> set (backend_checks s). \<not> wrong) \<and> (\<forall>(wrong, m) \<in> set (job_checks s). \<not> wrong) \<and>
     (\<forall>(wrong, m) \<in> set (cache_checks s). \<not> wrong) \<and> (\<forall>(wrong, m) \<in> set (provider_checks s). \<not> wrong)"
  unfolding validate_settings_def and_then_eq_Inr first_failure_ok set_append by auto


end
