(* ===== verification/Settings_Unset.thy ===== *)
theory Settings_Unset
  imports Settings
begin

text \<open>The settings that an empty environment gives: the defaults, with the stores of an installation on one machine.\<close>


lemma empty_env [simp]:
  "parse_bool Map.empty k b = Inr b" "parse_u16 Map.empty k p = Inr p" "parse_u32 Map.empty k m = Inr m"
  "parse_u64 Map.empty k n = Inr n" "parse_usize Map.empty k u = Inr u" "parse_f32 Map.empty k x = Inr x"
  "read_env_or Map.empty k v = v" "read_env_optional Map.empty k = None" "parse_string_list Map.empty k vs = vs"
  "parse_provider_fallback_order Map.empty k vs = Inr vs"
  by (simp_all add: parse_bool_def parse_u16_def parse_u32_def parse_u64_def parse_usize_def parse_f32_def parse_with_def
      read_env_or_def read_env_optional_def parse_string_list_def parse_provider_fallback_order_def)

lemma same_value:
  "se_environment d = x1 \<Longrightarrow> d\<lparr>se_environment := x1\<rparr> = d"
  "se_storage_mode d = x2 \<Longrightarrow> d\<lparr>se_storage_mode := x2\<rparr> = d"
  "se_llm_provider d = x3 \<Longrightarrow> d\<lparr>se_llm_provider := x3\<rparr> = d"
  "se_embedding_provider d = x4 \<Longrightarrow> d\<lparr>se_embedding_provider := x4\<rparr> = d"
  "se_auth_mode d = x5 \<Longrightarrow> d\<lparr>se_auth_mode := x5\<rparr> = d"
  "se_log_format d = x6 \<Longrightarrow> d\<lparr>se_log_format := x6\<rparr> = d"
  "se_log_level d = x7 \<Longrightarrow> d\<lparr>se_log_level := x7\<rparr> = d"
  "se_background_job_lock_backend d = x8 \<Longrightarrow> d\<lparr>se_background_job_lock_backend := x8\<rparr> = d"
  "se_context_cache_backend d = x9 \<Longrightarrow> d\<lparr>se_context_cache_backend := x9\<rparr> = d"
  "se_context_cache_enabled d = x10 \<Longrightarrow> d\<lparr>se_context_cache_enabled := x10\<rparr> = d"
  "se_background_job_lock_owner_id d = x11 \<Longrightarrow> d\<lparr>se_background_job_lock_owner_id := x11\<rparr> = d"
  "se_api_key_pepper d = x12 \<Longrightarrow> d\<lparr>se_api_key_pepper := x12\<rparr> = d"
  "se_openai_api_key d = x13 \<Longrightarrow> d\<lparr>se_openai_api_key := x13\<rparr> = d"
  "se_postgres_url d = x14 \<Longrightarrow> d\<lparr>se_postgres_url := x14\<rparr> = d"
  "se_redis_url d = x15 \<Longrightarrow> d\<lparr>se_redis_url := x15\<rparr> = d"
  "se_multi_provider_validation_confirmation d = x16 \<Longrightarrow> d\<lparr>se_multi_provider_validation_confirmation := x16\<rparr> = d"
  "se_database_migration_mode d = x17 \<Longrightarrow> d\<lparr>se_database_migration_mode := x17\<rparr> = d"
  "se_provider_test_mode d = x18 \<Longrightarrow> d\<lparr>se_provider_test_mode := x18\<rparr> = d"
  by auto

lemma default_words:
  "environment_from_str ''development'' = Inr EnvDevelopment"
  "storage_mode_from_str ''embedded'' = Inr ModeEmbedded"
  "vector_backend_from_str ''lancedb'' = Inr VecLanceDb"
  "fact_backend_from_str ''sqlite'' = Inr FactSqlite"
  "llm_provider_kind_from_str ''mock'' = Inr LlmMock"
  "embedding_provider_kind_from_str ''mock'' = Inr EmbMock"
  "auth_mode_from_str ''dev'' = Inr AuthDev"
  "log_format_from_str ''json'' = Inr FmtJson"
  "log_level_from_str ''info'' = Inr LvlInfo"
  "background_job_lock_backend_from_str ''database'' = Inr LockDatabase"
  by (simp_all add: environment_from_str_def storage_mode_from_str_def vector_backend_from_str_def fact_backend_from_str_def
      llm_provider_kind_from_str_def embedding_provider_kind_from_str_def auth_mode_from_str_def log_format_from_str_def
      log_level_from_str_def background_job_lock_backend_from_str_def pick_word_def str_eval to_ascii_lowercase_def ascii_lower_def)

lemma words_roundtrip:
  "database_migration_mode_from_str (database_migration_mode_as_str m) = Inr m" "config_test_mode_from_str (config_test_mode_as_str t) = Inr t"
  by (cases m; simp add: database_migration_mode_from_str_def pick_word_def str_eval to_ascii_lowercase_def ascii_lower_def)
    (cases t; simp add: config_test_mode_from_str_def str_eval to_ascii_lowercase_def ascii_lower_def)

definition settings_unset :: settings where
  "settings_unset = settings_default\<lparr>se_vector_backend := VecLanceDb, se_fact_backend := FactSqlite, se_event_backend := EventSqlite\<rparr>"

lemma unset_server:
  assumes "se_environment d = EnvDevelopment" "se_storage_mode d = ModeEmbedded" "se_postgres_url d = None"
  shows "load_steps (server_steps Map.empty) d =
    Inr (d\<lparr>se_vector_backend := VecLanceDb, se_fact_backend := FactSqlite, se_event_backend := EventSqlite\<rparr>)"
  using assms by (simp add: server_steps_def default_words words_roundtrip same_value)

lemma unset_backend:
  assumes "se_llm_provider d = LlmMock" "se_embedding_provider d = EmbMock" "se_auth_mode d = AuthDev" "se_api_key_pepper d = None"
    "se_openai_api_key d = None" "se_log_format d = FmtJson" "se_log_level d = LvlInfo"
  shows "load_steps (backend_steps Map.empty) d = Inr d"
  using assms by (simp add: backend_steps_def default_words same_value)

lemma unset_cache:
  assumes "se_context_cache_backend d = CacheDisabled" "\<not> se_context_cache_enabled d" "se_redis_url d = None"
  shows "load_steps (cache_steps Map.empty) d = Inr d"
  using assms by (simp add: cache_steps_def same_value)

lemma unset_provider: "load_steps (provider_steps Map.empty) d = Inr d"
  by (simp add: provider_steps_def)

lemma unset_limit: "se_multi_provider_validation_confirmation d = None \<Longrightarrow> load_steps (limit_steps Map.empty) d = Inr d"
  by (simp add: limit_steps_def words_roundtrip same_value)

lemma unset_job:
  assumes "se_background_job_lock_backend d = LockDatabase" "se_background_job_lock_owner_id d = None"
  shows "load_steps (job_steps Map.empty) d = Inr d"
  using assms by (simp add: job_steps_def default_words same_value)

lemma load_unset: "load_steps (settings_steps Map.empty) settings_default = Inr settings_unset"
proof -
  have "load_steps (server_steps Map.empty) settings_default = Inr settings_unset"
    unfolding settings_unset_def by (rule unset_server) (simp_all add: settings_default_def)
  moreover have "load_steps (backend_steps Map.empty) settings_unset = Inr settings_unset"
    by (rule unset_backend) (simp_all add: settings_unset_def settings_default_def)
  moreover have "load_steps (cache_steps Map.empty) settings_unset = Inr settings_unset"
    by (rule unset_cache) (simp_all add: settings_unset_def settings_default_def)
  moreover have "load_steps (limit_steps Map.empty) settings_unset = Inr settings_unset"
    by (rule unset_limit) (simp add: settings_unset_def settings_default_def)
  moreover have "load_steps (job_steps Map.empty) settings_unset = Inr settings_unset"
    by (rule unset_job) (simp_all add: settings_unset_def settings_default_def)
  ultimately show ?thesis by (simp add: settings_steps_def load_steps_append unset_provider)
qed

lemma no_whitespace:
  assumes "set s \<inter> set ws_heads = {}"
  shows "\<not> has_whitespace s"
proof
  assume "has_whitespace s"
  then obtain w where w: "w \<in> set ws_seqs" "contains s w" by (auto simp: has_whitespace_def list_ex_iff)
  then obtain a b where "s = a @ w @ b" by (auto simp: contains_iff)
  moreover have "w \<noteq> []" using w(1) ws_seqs_nonempty by auto
  ultimately have "hd w \<in> set s" by (cases w) auto
  with w(1) assms show False by (auto simp: ws_heads_def)
qed

lemma default_cors_lists:
  "\<forall>m \<in> set DEFAULT_CORS_ALLOWED_METHODS. is_valid_http_method m"
  "\<forall>h \<in> set DEFAULT_CORS_ALLOWED_HEADERS. \<not> is_blank h \<and> \<not> has_whitespace h"
  by (simp_all add: DEFAULT_CORS_ALLOWED_METHODS_def DEFAULT_CORS_ALLOWED_HEADERS_def is_valid_http_method_def ascii_upper_def
      str_eval no_whitespace)

lemma valid_unset: "validate_settings settings_unset = Inr ()"
proof -
  have cors: "validate_cors_settings settings_unset = Inr ()"
    using default_cors_lists by (auto simp: validate_cors_settings_def settings_unset_def settings_default_def)
  have metrics: "validate_metrics_settings settings_unset = Inr ()"
    by (simp add: validate_metrics_settings_def settings_unset_def settings_default_def DEFAULT_METRICS_PATH_def starts_with_def str_eval)
  show ?thesis
    unfolding validate_settings_ok server_checks_ok access_checks_ok backend_checks_ok job_checks_ok cache_checks_ok provider_checks_ok
    using cors metrics
    by (simp add: settings_unset_def settings_default_def str_eval DEFAULT_MAX_REQUEST_BODY_BYTES_def DEFAULT_OPENAI_BASE_URL_def
        DEFAULT_REQUEST_ID_HEADER_def DEFAULT_CONTEXT_CACHE_KEY_PREFIX_def MAX_SAFE_PROVIDER_GUARDRAIL_RETRIES_def)
qed

lemma from_env_unset: "from_env Map.empty = Inr settings_unset"
proof -
  have "se_min_importance settings_unset = f32_of_rat (55 / 100)" by (simp add: settings_unset_def settings_default_def)
  moreover have "f32_le (Fin 0) (f32_of_rat (55 / 100))" using f32_of_rat_mono [of 0 "55 / 100"] by (simp add: f32_of_rat_0)
  moreover have "f32_le (f32_of_rat (55 / 100)) (Fin 1)" using f32_of_rat_mono [of "55 / 100" 1] by (simp add: f32_of_rat_1)
  ultimately show ?thesis unfolding from_env_Inr using load_unset valid_unset by simp
qed

end
