(* ===== verification/Rust_F64_Ops.thy ===== *)
theory Rust_F64_Ops
  imports Rust_F64
begin

text \<open>
  The remaining operations on \<open>f64\<close> that the provider crate uses: multiplication, division, \<open>min\<close>, \<open>max\<close>
  and the saturating cast to \<open>u64\<close>. Zero has no sign here; none of the code divides by a zero that could
  be negative.
\<close>

definition f64_of_nat :: "nat \<Rightarrow> f64" where
  "f64_of_nat n = f64_of_rat (of_nat n)"

fun f64_sgn :: "f64 \<Rightarrow> int" where
  "f64_sgn NaN64 = 0"
| "f64_sgn NegInf64 = -1"
| "f64_sgn PosInf64 = 1"
| "f64_sgn (Fin64 r) = (if r < 0 then -1 else if 0 < r then 1 else 0)"

definition f64_signed_inf :: "int \<Rightarrow> f64" where
  "f64_signed_inf s = (if s = 0 then NaN64 else if 0 < s then PosInf64 else NegInf64)"

fun f64_mul :: "f64 \<Rightarrow> f64 \<Rightarrow> f64" where
  "f64_mul NaN64 _ = NaN64"
| "f64_mul _ NaN64 = NaN64"
| "f64_mul (Fin64 a) (Fin64 b) = f64_of_rat (a * b)"
| "f64_mul x y = f64_signed_inf (f64_sgn x * f64_sgn y)"

fun f64_div :: "f64 \<Rightarrow> f64 \<Rightarrow> f64" where
  "f64_div NaN64 _ = NaN64"
| "f64_div _ NaN64 = NaN64"
| "f64_div (Fin64 a) (Fin64 b) = (if b = 0 then f64_signed_inf (f64_sgn (Fin64 a)) else f64_of_rat (a / b))"
| "f64_div (Fin64 _) _ = Fin64 0"
| "f64_div x (Fin64 b) = f64_signed_inf (f64_sgn x * (if b < 0 then -1 else 1))"
| "f64_div _ _ = NaN64"

fun f64_lt :: "f64 \<Rightarrow> f64 \<Rightarrow> bool" where
  "f64_lt NaN64 _ = False"
| "f64_lt _ NaN64 = False"
| "f64_lt NegInf64 y = (y \<noteq> NegInf64)"
| "f64_lt _ NegInf64 = False"
| "f64_lt PosInf64 _ = False"
| "f64_lt _ PosInf64 = True"
| "f64_lt (Fin64 a) (Fin64 b) = (a < b)"

text \<open>\<open>f64::min\<close> and \<open>f64::max\<close> return the other argument when one is NaN.\<close>

definition f64_min :: "f64 \<Rightarrow> f64 \<Rightarrow> f64" where
  "f64_min x y = (if x = NaN64 then y else if y = NaN64 then x else if f64_lt y x then y else x)"

definition f64_max :: "f64 \<Rightarrow> f64 \<Rightarrow> f64" where
  "f64_max x y = (if x = NaN64 then y else if y = NaN64 then x else if f64_lt x y then y else x)"

text \<open>\<open>x as u64\<close> truncates and saturates; NaN is 0.\<close>

definition u64_max :: nat where
  "u64_max = 2 ^ 64 - 1"

fun f64_to_u64 :: "f64 \<Rightarrow> nat" where
  "f64_to_u64 NaN64 = 0"
| "f64_to_u64 NegInf64 = 0"
| "f64_to_u64 PosInf64 = u64_max"
| "f64_to_u64 (Fin64 r) = min (nat \<lfloor>r\<rfloor>) u64_max"

lemma f64_lt_trans: "f64_lt x y \<Longrightarrow> f64_lt y z \<Longrightarrow> f64_lt x z"
  by (cases x; cases y; cases z) auto

lemma f64_not_lt_to_u64: "\<not> f64_lt y x \<Longrightarrow> y \<noteq> NaN64 \<Longrightarrow> f64_to_u64 x \<le> f64_to_u64 y"
  by (cases x; cases y) (auto intro: nat_mono floor_mono simp: not_less min_le_iff_disj)

lemma f64_to_u64_min: "y \<noteq> NaN64 \<Longrightarrow> f64_to_u64 (f64_min x y) \<le> f64_to_u64 y"
  by (auto simp: f64_min_def intro: f64_not_lt_to_u64)

lemma f64_of_rat_not_NaN [simp]: "f64_of_rat r \<noteq> NaN64"
  by (simp add: f64_of_rat_def)

lemma f64_to_u64_le_max: "f64_to_u64 x \<le> u64_max"
  by (cases x) auto

end
