(* ===== verification/Provider_Usage.thy ===== *)
theory Provider_Usage
  imports Runtime Rust_F64_Ops
begin

text \<open>
  \<^verbatim>\<open>crates/memcore-providers/src/usage\<close>: token estimates (\<open>tokens.rs\<close>), price hints
  (\<open>pricing.rs\<close>) and the recorders that aggregate one event per provider call (\<open>recorder.rs\<close>,
  \<open>persistent.rs\<close>).
\<close>

section \<open>Token usage (\<open>types.rs\<close>, \<open>tokens.rs\<close>)\<close>

record provider_token_usage =
  tu_input_tokens :: "u64 option"
  tu_output_tokens :: "u64 option"
  tu_total_tokens :: "u64 option"

fun sum_tokens :: "u64 option \<Rightarrow> u64 option \<Rightarrow> u64 option" where
  "sum_tokens (Some i) (Some j) = Some (u64_saturating_add i j)"
| "sum_tokens (Some i) None = Some i"
| "sum_tokens None (Some j) = Some j"
| "sum_tokens None None = None"

definition from_counts :: "u64 option \<Rightarrow> u64 option \<Rightarrow> provider_token_usage" where
  "from_counts input_tokens output_tokens =
     \<lparr>tu_input_tokens = input_tokens, tu_output_tokens = output_tokens, tu_total_tokens = sum_tokens input_tokens output_tokens\<rparr>"

definition tokens_of_chars :: "nat \<Rightarrow> u64" where
  "tokens_of_chars chars = word_of_nat (max ((chars + 3) div 4) 1)"

definition estimate_tokens_from_text :: "string \<Rightarrow> u64" where
  "estimate_tokens_from_text text = tokens_of_chars (char_count text)"

definition estimate_llm_extraction_tokens :: "memory_message list \<Rightarrow> provider_token_usage" where
  "estimate_llm_extraction_tokens messages =
     (let input_tokens = tokens_of_chars (sum_list (map (\<lambda>m. char_count (msg_content m)) messages))
      in from_counts (Some input_tokens) (Some (input_tokens div 4)))"

definition estimate_llm_classification_tokens :: "string \<Rightarrow> nat \<Rightarrow> provider_token_usage" where
  "estimate_llm_classification_tokens candidate_content existing_count =
     from_counts (Some (u64_saturating_add (estimate_tokens_from_text candidate_content) (word_of_nat existing_count * 20))) (Some 32)"

definition estimate_llm_summarization_tokens :: "fact list \<Rightarrow> nat option \<Rightarrow> provider_token_usage" where
  "estimate_llm_summarization_tokens facts max_tokens =
     from_counts (Some (tokens_of_chars (sum_list (map (\<lambda>f. char_count (f_content f)) facts))))
       (Some (case max_tokens of Some t \<Rightarrow> word_of_nat t | None \<Rightarrow> 128))"

definition estimate_embedding_tokens :: "string \<Rightarrow> provider_token_usage" where
  "estimate_embedding_tokens text = from_counts (Some (estimate_tokens_from_text text)) None"

definition estimate_embedding_batch_tokens :: "string list \<Rightarrow> provider_token_usage" where
  "estimate_embedding_batch_tokens texts = from_counts (Some (sum_list (map estimate_tokens_from_text texts))) None"

section \<open>Prices (\<open>pricing.rs\<close>)\<close>

record provider_pricing =
  pp_provider_name :: string
  pp_model_name :: string
  pp_input_cost_per_1m_tokens_usd :: f64
  pp_output_cost_per_1m_tokens_usd :: f64

definition per_million :: "u64 \<Rightarrow> f64" where
  "per_million tokens = f64_div (f64_of_nat (unat tokens)) (Fin64 1000000)"

definition estimate_cost_usd :: "provider_pricing \<Rightarrow> u64 option \<Rightarrow> u64 option \<Rightarrow> f64 option" where
  "estimate_cost_usd pricing input_tokens output_tokens =
     (case input_tokens of
        None \<Rightarrow> None
      | Some input \<Rightarrow>
          (case output_tokens of
             None \<Rightarrow> None
           | Some output \<Rightarrow>
               Some (f64_add (f64_mul (per_million input) (pp_input_cost_per_1m_tokens_usd pricing))
                       (f64_mul (per_million output) (pp_output_cost_per_1m_tokens_usd pricing)))))"

definition estimate_embedding_cost_usd :: "provider_pricing \<Rightarrow> u64 option \<Rightarrow> f64 option" where
  "estimate_embedding_cost_usd pricing input_tokens =
     map_option (\<lambda>input. f64_mul (per_million input) (pp_input_cost_per_1m_tokens_usd pricing)) input_tokens"

definition pricing_table :: "(string \<times> f64 \<times> f64) list" where
  "pricing_table =
     [(''gpt-4.1-mini'', f64_of_rat (40 / 100), f64_of_rat (160 / 100)),
      (''gpt-4.1-nano'', f64_of_rat (10 / 100), f64_of_rat (40 / 100)),
      (''gpt-4.1'', Fin64 2, Fin64 8),
      (''gpt-4o-mini'', f64_of_rat (15 / 100), f64_of_rat (60 / 100)),
      (''gpt-4o'', f64_of_rat (250 / 100), Fin64 10),
      (''text-embedding-3-small'', f64_of_rat (2 / 100), Fin64 0),
      (''text-embedding-3-large'', f64_of_rat (13 / 100), Fin64 0),
      (''text-embedding-ada-002'', f64_of_rat (10 / 100), Fin64 0)]"

definition lookup_pricing :: "string \<Rightarrow> string \<Rightarrow> provider_pricing option" where
  "lookup_pricing provider_name model_name =
     (if provider_name \<noteq> ''openai'' then None
      else map_option (\<lambda>(name, input, output).
             \<lparr>pp_provider_name = provider_name, pp_model_name = name, pp_input_cost_per_1m_tokens_usd = input,
              pp_output_cost_per_1m_tokens_usd = output\<rparr>)
             (find (\<lambda>(name, _). name = model_name) pricing_table))"

definition estimate_event_cost ::
  "bool \<Rightarrow> string \<Rightarrow> string option \<Rightarrow> provider_usage_capability \<Rightarrow> u64 option \<Rightarrow> u64 option \<Rightarrow> f64 option" where
  "estimate_event_cost cost_tracking_enabled provider_name model_name capability input_tokens output_tokens =
     (if \<not> cost_tracking_enabled then None
      else case model_name of
             None \<Rightarrow> None
           | Some model \<Rightarrow>
               (case lookup_pricing provider_name model of
                  None \<Rightarrow> None
                | Some pricing \<Rightarrow>
                    (case capability of
                       Embedding \<Rightarrow> estimate_embedding_cost_usd pricing input_tokens
                     | _ \<Rightarrow> estimate_cost_usd pricing input_tokens output_tokens)))"

section \<open>Events and records (\<open>types.rs\<close>)\<close>

record provider_usage_event =
  ev_org_id :: "string option"
  ev_user_id :: "string option"
  ev_provider_name :: string
  ev_model_name :: "string option"
  ev_capability :: provider_usage_capability
  ev_operation_name :: string
  ev_status :: provider_call_status
  ev_input_tokens :: "u64 option"
  ev_output_tokens :: "u64 option"
  ev_retry_count :: u64
  ev_fallback_used :: bool
  ev_circuit_blocked :: bool
  ev_timed_out :: bool
  ev_estimated_cost_usd :: "f64 option"

record provider_usage_record =
  pr_provider_name :: string
  pr_model_name :: "string option"
  pr_capability :: provider_usage_capability
  pr_operation_name :: string
  pr_input_tokens :: "u64 option"
  pr_output_tokens :: "u64 option"
  pr_total_tokens :: "u64 option"
  pr_request_count :: u64
  pr_success_count :: u64
  pr_error_count :: u64
  pr_retry_count :: u64
  pr_fallback_count :: u64
  pr_circuit_blocked_count :: u64
  pr_timeout_count :: u64
  pr_estimated_cost_usd :: "f64 option"

record provider_usage_snapshot =
  ps_records :: "provider_usage_record list"
  ps_total_requests :: u64
  ps_total_successes :: u64
  ps_total_errors :: u64
  ps_total_retries :: u64
  ps_total_fallbacks :: u64
  ps_total_circuit_blocks :: u64
  ps_total_timeouts :: u64
  ps_total_estimated_cost_usd :: "f64 option"

type_synonym usage_aggregate_key = "string \<times> string option \<times> provider_usage_capability \<times> string"

definition usage_key_of_event :: "provider_usage_event \<Rightarrow> usage_aggregate_key" where
  "usage_key_of_event e = (ev_provider_name e, ev_model_name e, ev_capability e, ev_operation_name e)"

definition usage_key_of_record :: "provider_usage_record \<Rightarrow> usage_aggregate_key" where
  "usage_key_of_record r = (pr_provider_name r, pr_model_name r, pr_capability r, pr_operation_name r)"

section \<open>The in-memory recorder (\<open>recorder.rs\<close>)\<close>

definition add_tokens :: "u64 option \<Rightarrow> u64 option \<Rightarrow> u64 option" where
  "add_tokens old new =
     (case new of None \<Rightarrow> old
      | Some n \<Rightarrow> Some (u64_saturating_add (case old of None \<Rightarrow> 0 | Some o' \<Rightarrow> o') n))"

definition add_if :: "bool \<Rightarrow> u64 \<Rightarrow> u64" where
  "add_if b n = (if b then u64_saturating_add n 1 else n)"

text \<open>What \<open>merge_event\<close> does to the record it finds.\<close>

definition update_record :: "provider_usage_event \<Rightarrow> provider_usage_record \<Rightarrow> provider_usage_record" where
  "update_record e r =
     r\<lparr>pr_request_count := u64_saturating_add (pr_request_count r) 1,
       pr_success_count := add_if (ev_status e = CallSuccess) (pr_success_count r),
       pr_error_count := add_if (ev_status e = CallError) (pr_error_count r),
       pr_retry_count := u64_saturating_add (pr_retry_count r) (ev_retry_count e),
       pr_fallback_count := add_if (ev_fallback_used e) (pr_fallback_count r),
       pr_circuit_blocked_count := add_if (ev_circuit_blocked e) (pr_circuit_blocked_count r),
       pr_timeout_count := add_if (ev_timed_out e) (pr_timeout_count r),
       pr_input_tokens := add_tokens (pr_input_tokens r) (ev_input_tokens e),
       pr_output_tokens := add_tokens (pr_output_tokens r) (ev_output_tokens e),
       pr_total_tokens := add_tokens (pr_total_tokens r) (sum_tokens (ev_input_tokens e) (ev_output_tokens e)),
       pr_estimated_cost_usd :=
         (case ev_estimated_cost_usd e of None \<Rightarrow> pr_estimated_cost_usd r
          | Some cost \<Rightarrow> Some (f64_add (case pr_estimated_cost_usd r of None \<Rightarrow> Fin64 0 | Some c \<Rightarrow> c) cost))\<rparr>"

definition new_record :: "provider_usage_event \<Rightarrow> provider_usage_record" where
  "new_record e =
     \<lparr>pr_provider_name = ev_provider_name e, pr_model_name = ev_model_name e, pr_capability = ev_capability e,
      pr_operation_name = ev_operation_name e, pr_input_tokens = ev_input_tokens e, pr_output_tokens = ev_output_tokens e,
      pr_total_tokens = sum_tokens (ev_input_tokens e) (ev_output_tokens e), pr_request_count = 1,
      pr_success_count = (if ev_status e = CallSuccess then 1 else 0),
      pr_error_count = (if ev_status e = CallError then 1 else 0), pr_retry_count = ev_retry_count e,
      pr_fallback_count = (if ev_fallback_used e then 1 else 0),
      pr_circuit_blocked_count = (if ev_circuit_blocked e then 1 else 0),
      pr_timeout_count = (if ev_timed_out e then 1 else 0), pr_estimated_cost_usd = ev_estimated_cost_usd e\<rparr>"

fun merge_event :: "provider_usage_event \<Rightarrow> provider_usage_record list \<Rightarrow> provider_usage_record list" where
  "merge_event e [] = [new_record e]"
| "merge_event e (r # rs) =
     (if usage_key_of_record r = usage_key_of_event e then update_record e r # rs else r # merge_event e rs)"

definition sum_counts :: "(provider_usage_record \<Rightarrow> u64) \<Rightarrow> provider_usage_record list \<Rightarrow> u64" where
  "sum_counts f rs = foldl (\<lambda>n r. u64_saturating_add n (f r)) 0 rs"

definition build_snapshot :: "provider_usage_record list \<Rightarrow> provider_usage_snapshot" where
  "build_snapshot rs =
     \<lparr>ps_records = rs, ps_total_requests = sum_counts pr_request_count rs, ps_total_successes = sum_counts pr_success_count rs,
      ps_total_errors = sum_counts pr_error_count rs, ps_total_retries = sum_counts pr_retry_count rs,
      ps_total_fallbacks = sum_counts pr_fallback_count rs, ps_total_circuit_blocks = sum_counts pr_circuit_blocked_count rs,
      ps_total_timeouts = sum_counts pr_timeout_count rs,
      ps_total_estimated_cost_usd =
        (let costs = List.map_filter pr_estimated_cost_usd rs in
         if costs = [] then None else Some (foldl f64_add (Fin64 0) costs))\<rparr>"

section \<open>Recorders\<close>

text \<open>
  \<open>None\<close> of the inner recorder of \<open>provider_usage_recorder\<close> is the no-op recorder. The persistent recorder
  (\<open>persistent.rs\<close>) passes every event on and spawns a task per event that has an organisation; the writes it has
  spawned are kept in order. The store decides later whether a write fails; it never fails the call.
\<close>

record usage_recorder =
  re_records :: "provider_usage_record list option"
  re_spawned :: "provider_usage_event_record list option"

definition provider_usage_recorder :: "bool \<Rightarrow> usage_recorder" where
  "provider_usage_recorder enabled = \<lparr>re_records = (if enabled then Some [] else None), re_spawned = None\<rparr>"

definition persistent_recorder_new :: "usage_recorder \<Rightarrow> usage_recorder" where
  "persistent_recorder_new inner = inner\<lparr>re_spawned := Some []\<rparr>"

definition usage_event_record :: "uuid \<Rightarrow> datetime \<Rightarrow> string \<Rightarrow> provider_usage_event \<Rightarrow> provider_usage_event_record" where
  "usage_event_record i now org e =
     \<lparr>pu_id = i, pu_org_id = org, pu_user_id = ev_user_id e, pu_provider_name = ev_provider_name e,
      pu_model_name = ev_model_name e, pu_capability = ev_capability e, pu_operation_name = ev_operation_name e,
      pu_status = ev_status e, pu_input_tokens = ev_input_tokens e, pu_output_tokens = ev_output_tokens e,
      pu_total_tokens = sum_tokens (ev_input_tokens e) (ev_output_tokens e), pu_retry_count = ev_retry_count e,
      pu_fallback_used = ev_fallback_used e, pu_circuit_blocked = ev_circuit_blocked e, pu_timed_out = ev_timed_out e,
      pu_estimated_cost_usd = ev_estimated_cost_usd e, pu_metadata = None, pu_created_at = now\<rparr>"

definition record_request :: "uuid \<Rightarrow> datetime \<Rightarrow> provider_usage_event \<Rightarrow> usage_recorder \<Rightarrow> usage_recorder" where
  "record_request i now e r =
     r\<lparr>re_records := map_option (merge_event e) (re_records r),
       re_spawned :=
         (case (re_spawned r, ev_org_id e) of
            (Some ws, Some org) \<Rightarrow> Some (ws @ [usage_event_record i now org e])
          | (ws, _) \<Rightarrow> ws)\<rparr>"

definition recorder_snapshot :: "usage_recorder \<Rightarrow> provider_usage_snapshot" where
  "recorder_snapshot r = build_snapshot (case re_records r of None \<Rightarrow> [] | Some rs \<Rightarrow> rs)"

section \<open>What the totals mean\<close>

lemma unat_u64_less: "unat (n :: u64) < 2 ^ 64"
  using unsigned_less [of n] by simp

lemma unat_add_if: "unat (add_if b n) = min (unat n + (if b then 1 else 0)) (2 ^ 64 - 1)"
  using unat_u64_less [of n] by (auto simp: add_if_def unat_u64_saturating_add)

text \<open>The total of a counter over the records saturates; below the limit it is the sum.\<close>

lemma foldl_saturating: "unat (foldl (\<lambda>n r. u64_saturating_add n (f r)) a rs) = min (unat a + (\<Sum>r\<leftarrow>rs. unat (f r))) (2 ^ 64 - 1)"
proof (induction rs arbitrary: a)
  case Nil
  show ?case using unat_u64_less [of a] by simp
next
  case (Cons r rs)
  then show ?case by (simp add: unat_u64_saturating_add)
qed

lemma unat_sum_counts: "unat (sum_counts f rs) = min (\<Sum>r\<leftarrow>rs. unat (f r)) (2 ^ 64 - 1)"
  by (simp add: sum_counts_def foldl_saturating)

lemma usage_key_update [simp]: "usage_key_of_record (update_record e r) = usage_key_of_record r"
  by (simp add: update_record_def usage_key_of_record_def)

lemma usage_key_new [simp]: "usage_key_of_record (new_record e) = usage_key_of_event e"
  by (simp add: new_record_def usage_key_of_record_def usage_key_of_event_def)

lemma merge_event_keys:
  "map usage_key_of_record (merge_event e rs) =
     (if usage_key_of_event e \<in> usage_key_of_record ` set rs then map usage_key_of_record rs
      else map usage_key_of_record rs @ [usage_key_of_event e])"
  by (induction rs) auto

lemma merge_event_distinct: "distinct (map usage_key_of_record rs) \<Longrightarrow> distinct (map usage_key_of_record (merge_event e rs))"
  by (auto simp: merge_event_keys)

text \<open>A counter that an event raises by \<open>g\<close>: its sum over the records is the sum over the events.\<close>

lemma merge_event_sum:
  assumes "\<And>r. unat (f (update_record e r)) = min (unat (f r) + g e) (2 ^ 64 - 1)" and "unat (f (new_record e)) = g e"
    and "(\<Sum>r\<leftarrow>rs. unat (f r)) + g e < 2 ^ 64"
  shows "(\<Sum>r\<leftarrow>merge_event e rs. unat (f r)) = (\<Sum>r\<leftarrow>rs. unat (f r)) + g e"
  using assms(3) by (induction rs) (auto simp: assms(1,2))

lemma merge_events_sum:
  assumes "\<And>e r. unat (f (update_record e r)) = min (unat (f r) + g e) (2 ^ 64 - 1)" and "\<And>e. unat (f (new_record e)) = g e"
    and "(\<Sum>r\<leftarrow>rs. unat (f r)) + (\<Sum>e\<leftarrow>es. g e) < 2 ^ 64"
  shows "(\<Sum>r\<leftarrow>fold merge_event es rs. unat (f r)) = (\<Sum>r\<leftarrow>rs. unat (f r)) + (\<Sum>e\<leftarrow>es. g e)"
  using assms(3)
proof (induction es arbitrary: rs)
  case (Cons e es)
  have "(\<Sum>r\<leftarrow>merge_event e rs. unat (f r)) = (\<Sum>r\<leftarrow>rs. unat (f r)) + g e"
    by (rule merge_event_sum) (use assms(1,2) Cons.prems in auto)
  with Cons.IH [of "merge_event e rs"] Cons.prems show ?case by simp
qed simp

lemma recorder_total:
  assumes "\<And>e r. unat (f (update_record e r)) = min (unat (f r) + g e) (2 ^ 64 - 1)" and "\<And>e. unat (f (new_record e)) = g e"
    and "(\<Sum>e\<leftarrow>es. g e) < 2 ^ 64"
  shows "unat (sum_counts f (fold merge_event es [])) = (\<Sum>e\<leftarrow>es. g e)"
  using merge_events_sum [of f g "[]" es, OF assms(1,2)] assms(3) by (simp add: unat_sum_counts)

lemma sum_list_indicator: "(\<Sum>e\<leftarrow>es. if P e then 1 else 0 :: nat) = length (filter P es)"
  by (induction es) auto

lemma usage_snapshot_total:
  assumes "length es < 2 ^ 64" and "(\<Sum>e\<leftarrow>es. unat (ev_retry_count e)) < 2 ^ 64"
  defines "sn \<equiv> build_snapshot (fold merge_event es [])"
  shows "unat (ps_total_requests sn) = length es"
    and "unat (ps_total_successes sn) = length (filter (\<lambda>e. ev_status e = CallSuccess) es)"
    and "unat (ps_total_errors sn) = length (filter (\<lambda>e. ev_status e = CallError) es)"
    and "unat (ps_total_retries sn) = (\<Sum>e\<leftarrow>es. unat (ev_retry_count e))"
    and "unat (ps_total_fallbacks sn) = length (filter ev_fallback_used es)"
    and "unat (ps_total_circuit_blocks sn) = length (filter ev_circuit_blocked es)"
    and "unat (ps_total_timeouts sn) = length (filter ev_timed_out es)"
    and "distinct (map usage_key_of_record (ps_records sn))"
    and "usage_key_of_record ` set (ps_records sn) = usage_key_of_event ` set es"
proof -
  have small: "length (filter P es) < 2 ^ 64" for P
    using assms(1) by (meson le_less_trans length_filter_le)
  have total: "unat (sum_counts f (fold merge_event es [])) = length (filter P es)"
    if "\<And>e r. f (update_record e r) = add_if (P e) (f r)" "\<And>e. f (new_record e) = (if P e then 1 else 0)" for f P
    using recorder_total [of f "\<lambda>e. if P e then 1 else 0" es] small [of P]
    by (simp add: that unat_add_if sum_list_indicator)
  have "unat (sum_counts pr_request_count (fold merge_event es [])) = length (filter (\<lambda>_. True) es)"
    by (rule total) (simp_all add: update_record_def new_record_def add_if_def)
  then show "unat (ps_total_requests sn) = length es" by (simp add: sn_def build_snapshot_def)
  show "unat (ps_total_successes sn) = length (filter (\<lambda>e. ev_status e = CallSuccess) es)"
    "unat (ps_total_errors sn) = length (filter (\<lambda>e. ev_status e = CallError) es)"
    "unat (ps_total_fallbacks sn) = length (filter ev_fallback_used es)"
    "unat (ps_total_circuit_blocks sn) = length (filter ev_circuit_blocked es)"
    "unat (ps_total_timeouts sn) = length (filter ev_timed_out es)"
    unfolding sn_def build_snapshot_def provider_usage_snapshot.simps
    by (rule total; simp add: update_record_def new_record_def)+
  show "unat (ps_total_retries sn) = (\<Sum>e\<leftarrow>es. unat (ev_retry_count e))"
    using recorder_total [of pr_retry_count "\<lambda>e. unat (ev_retry_count e)" es] assms(2)
    by (simp add: sn_def build_snapshot_def update_record_def new_record_def unat_u64_saturating_add)
  have "distinct (map usage_key_of_record (fold merge_event es' rs))" if "distinct (map usage_key_of_record rs)" for es' rs
    using that by (induction es' arbitrary: rs) (simp_all add: merge_event_distinct)
  from this [of "[]" es] show "distinct (map usage_key_of_record (ps_records sn))" by (simp add: sn_def build_snapshot_def)
  have "usage_key_of_record ` set (merge_event e rs) = insert (usage_key_of_event e) (usage_key_of_record ` set rs)" for e rs
    by (induction rs) auto
  then have "usage_key_of_record ` set (fold merge_event es' rs) = usage_key_of_event ` set es' \<union> usage_key_of_record ` set rs"
    for es' rs by (induction es' arbitrary: rs) auto
  then show "usage_key_of_record ` set (ps_records sn) = usage_key_of_event ` set es" by (simp add: sn_def build_snapshot_def)
qed

text \<open>C32: The usage snapshot accounts for every provider call: as long as fewer than \<open>2 ^ 64\<close> events (and retries) are
  recorded, its totals are the numbers of requests, successes, errors, retries, fallbacks, blocked calls and
  timeouts of the events, with one record per provider, model, capability and operation.
\<close>

theorem usage_snapshot_totals:
  assumes "length es < 2 ^ 64" and "(\<Sum>e\<leftarrow>es. unat (ev_retry_count e)) < 2 ^ 64"
  defines "sn \<equiv> build_snapshot (fold merge_event es [])"
  shows "unat (ps_total_requests sn) = length es \<and>
    unat (ps_total_successes sn) = length (filter (\<lambda>e. ev_status e = CallSuccess) es) \<and>
    unat (ps_total_errors sn) = length (filter (\<lambda>e. ev_status e = CallError) es) \<and>
    unat (ps_total_retries sn) = (\<Sum>e\<leftarrow>es. unat (ev_retry_count e)) \<and>
    unat (ps_total_fallbacks sn) = length (filter ev_fallback_used es) \<and>
    unat (ps_total_circuit_blocks sn) = length (filter ev_circuit_blocked es) \<and>
    unat (ps_total_timeouts sn) = length (filter ev_timed_out es) \<and>
    distinct (map usage_key_of_record (ps_records sn)) \<and>
    usage_key_of_record ` set (ps_records sn) = usage_key_of_event ` set es"
  using usage_snapshot_total [OF assms(1,2)] by (simp add: sn_def)

definition sample_usage_event :: "string \<Rightarrow> provider_call_status \<Rightarrow> provider_usage_event" where
  "sample_usage_event provider status =
     \<lparr>ev_org_id = None, ev_user_id = None, ev_provider_name = provider, ev_model_name = None, ev_capability = Llm,
      ev_operation_name = ''llm_extract_facts'', ev_status = status, ev_input_tokens = Some 12, ev_output_tokens = Some 3,
      ev_retry_count = 2, ev_fallback_used = False, ev_circuit_blocked = False, ev_timed_out = False,
      ev_estimated_cost_usd = None\<rparr>"

theorem usage_snapshot_totals_witness:
  "unat (ps_total_errors (build_snapshot (fold merge_event
     [sample_usage_event ''a'' CallError, sample_usage_event ''b'' CallSuccess, sample_usage_event ''a'' CallError] []))) = 2"
  using usage_snapshot_totals
    [of "[sample_usage_event ''a'' CallError, sample_usage_event ''b'' CallSuccess, sample_usage_event ''a'' CallError]"]
  by (simp add: sample_usage_event_def)

end
