(* ===== verification/Provider_Call.thy ===== *)
theory Provider_Call
  imports Common_Error Rust_F64_Ops
begin

text \<open>
  \<^verbatim>\<open>crates/memcore-providers/src/policy\<close>: a provider call with a timeout and a bounded number of retries.
  What the provider does is a parameter: a function of the state that answers or lets the timeout elapse. Sleeping
  between attempts changes nothing of the state; how long is \<open>backoff_duration\<close>. Durations are in nanoseconds.
\<close>

section \<open>Policy (\<open>mod.rs\<close>)\<close>

record provider_execution_policy =
  po_timeout :: nat
  po_max_retries :: nat
  po_initial_backoff :: nat
  po_max_backoff :: nat
  po_backoff_multiplier :: f32
  po_jitter_enabled :: bool

definition provider_execution_policy_default :: provider_execution_policy where
  "provider_execution_policy_default =
     \<lparr>po_timeout = 30 * 10 ^ 9, po_max_retries = 2, po_initial_backoff = 250 * 10 ^ 6, po_max_backoff = 2000 * 10 ^ 6,
      po_backoff_multiplier = Fin 2, po_jitter_enabled = True\<rparr>"

definition validate_provider_execution_config :: "u64 \<Rightarrow> u64 \<Rightarrow> u64 \<Rightarrow> f32 \<Rightarrow> unit memcore_result" where
  "validate_provider_execution_config timeout_seconds initial_backoff_ms max_backoff_ms backoff_multiplier =
     (if timeout_seconds = 0
      then Inl (ValidationError ''MEMCORE_PROVIDER_TIMEOUT_SECONDS must be greater than 0'')
      else if initial_backoff_ms = 0
      then Inl (ValidationError ''MEMCORE_PROVIDER_INITIAL_BACKOFF_MS must be greater than 0'')
      else if max_backoff_ms < initial_backoff_ms
      then Inl (ValidationError ''MEMCORE_PROVIDER_MAX_BACKOFF_MS must be >= MEMCORE_PROVIDER_INITIAL_BACKOFF_MS'')
      else if f32_lt backoff_multiplier (Fin 1)
      then Inl (ValidationError ''MEMCORE_PROVIDER_BACKOFF_MULTIPLIER must be >= 1.0'')
      else Inr ())"

definition policy_from_config ::
  "u64 \<Rightarrow> nat \<Rightarrow> u64 \<Rightarrow> u64 \<Rightarrow> f32 \<Rightarrow> bool \<Rightarrow> provider_execution_policy memcore_result" where
  "policy_from_config timeout_seconds max_retries initial_backoff_ms max_backoff_ms backoff_multiplier jitter_enabled =
     and_then (validate_provider_execution_config timeout_seconds initial_backoff_ms max_backoff_ms backoff_multiplier) (\<lambda>_.
     Inr \<lparr>po_timeout = unat timeout_seconds * 10 ^ 9, po_max_retries = max_retries,
          po_initial_backoff = unat initial_backoff_ms * 10 ^ 6, po_max_backoff = unat max_backoff_ms * 10 ^ 6,
          po_backoff_multiplier = backoff_multiplier, po_jitter_enabled = jitter_enabled\<rparr>)"

definition total_attempts :: "provider_execution_policy \<Rightarrow> nat" where
  "total_attempts p = usize_saturating_add (po_max_retries p) 1"

section \<open>What is retried (\<open>retry.rs\<close>)\<close>

definition contains_http_status :: "string \<Rightarrow> string \<Rightarrow> bool" where
  "contains_http_status message code \<longleftrightarrow>
     contains message (''('' @ code @ '')'') \<or> contains message (''status '' @ code)"

definition is_retryable_provider_message :: "string \<Rightarrow> bool" where
  "is_retryable_provider_message message =
     (let lower = to_ascii_lowercase message in
      if contains lower ''unauthorized'' \<or> contains lower ''forbidden'' \<or> contains lower ''invalid api key'' \<or>
         contains lower ''api key is unauthorized'' then False
      else if contains lower ''invalid json'' \<or> contains lower ''malformed'' \<or> contains lower ''dimension mismatch'' \<or>
         contains lower ''validation'' \<or> contains lower ''unsupported model'' then False
      else if contains_http_status message ''400'' \<or> contains_http_status message ''401'' \<or>
         contains_http_status message ''403'' \<or> contains_http_status message ''422'' then False
      else if contains lower ''timed out'' \<or> contains lower ''http request failed'' \<or>
         contains lower ''temporarily unavailable'' \<or> contains lower ''service unavailable'' then True
      else if contains_http_status message ''429'' \<or> contains_http_status message ''500'' \<or>
         contains_http_status message ''502'' \<or> contains_http_status message ''503'' \<or>
         contains_http_status message ''504'' then True
      else False)"

fun is_retryable_provider_error :: "memcore_error \<Rightarrow> bool" where
  "is_retryable_provider_error RateLimited = True"
| "is_retryable_provider_error (Timeout _) = True"
| "is_retryable_provider_error (ProviderError message) = is_retryable_provider_message message"
| "is_retryable_provider_error _ = False"

definition is_provider_health_failure :: "memcore_error \<Rightarrow> bool" where
  "is_provider_health_failure e =
     (if is_provider_circuit_open e then False else is_retryable_provider_error e)"

text \<open>\<open>f64_powi\<close> is the compiler's, to whatever precision; \<open>nanos\<close> is the sub-second part of the clock. The
  cast of the retry number to \<open>i32\<close> wraps.\<close>

definition as_millis :: "nat \<Rightarrow> nat" where
  "as_millis d = d div 10 ^ 6"

fun f64_of_f32 :: "f32 \<Rightarrow> f64" where
  "f64_of_f32 NaN = NaN64"
| "f64_of_f32 NegInf = NegInf64"
| "f64_of_f32 PosInf = PosInf64"
| "f64_of_f32 (Fin r) = Fin64 r"

definition f32_max :: "f32 \<Rightarrow> f32 \<Rightarrow> f32" where
  "f32_max x y = (if x = NaN then y else if y = NaN then x else if f32_lt x y then y else x)"

definition simple_jitter_percent :: "nat \<Rightarrow> nat" where
  "simple_jitter_percent nanos = nanos mod 26"

definition backoff_duration ::
  "(f64 \<Rightarrow> 32 word \<Rightarrow> f64) \<Rightarrow> nat \<Rightarrow> provider_execution_policy \<Rightarrow> nat \<Rightarrow> nat" where
  "backoff_duration f64_powi nanos p retry_number =
     (let n = word_of_nat (max retry_number 1) :: 32 word;
          base_ms = f64_of_nat (as_millis (po_initial_backoff p));
          multiplier = f64_of_f32 (f32_max (po_backoff_multiplier p) (Fin 1));
          max_ms = f64_of_nat (as_millis (po_max_backoff p));
          exp_ms = f64_min (f64_mul base_ms (f64_powi multiplier (n - 1))) max_ms;
          delay_ms = f64_to_u64 (f64_max exp_ms (Fin64 1));
          delay_ms =
            (if po_jitter_enabled p
             then min (min (delay_ms + min (delay_ms * simple_jitter_percent nanos) u64_max div 100) u64_max)
                    (as_millis (po_max_backoff p) mod 2 ^ 64)
             else delay_ms)
      in max delay_ms 1 * 10 ^ 6)"

section \<open>The call (\<open>execute.rs\<close>)\<close>

datatype 'a attempt = Answered "'a memcore_result" | Elapsed

record 'a provider_execution_outcome =
  eo_value :: 'a
  eo_attempts :: nat
  eo_retries :: nat
  eo_timed_out :: bool

record provider_execution_failure =
  ef_error :: memcore_error
  ef_attempts :: nat
  ef_retries :: nat
  ef_timed_out :: bool

text \<open>The loop over the attempts: \<open>n\<close> are left, \<open>k\<close> have been made. It ends with a value or with the last
  error, if any attempt was made.\<close>

fun attempt_loop ::
  "provider_execution_policy \<Rightarrow> ('s \<Rightarrow> 'a attempt \<times> 's) \<Rightarrow> nat \<Rightarrow> nat \<Rightarrow> bool \<Rightarrow> memcore_error option \<Rightarrow> 's \<Rightarrow>
   ((memcore_error option \<times> nat \<times> bool) + 'a provider_execution_outcome) \<times> 's" where
  "attempt_loop p oper 0 k any_timed_out last_error s = (Inl (last_error, k, any_timed_out), s)"
| "attempt_loop p oper (Suc n) k any_timed_out last_error s =
     (case oper s of
        (Answered (Inr v), s') \<Rightarrow>
          (Inr \<lparr>eo_value = v, eo_attempts = k + 1, eo_retries = k, eo_timed_out = any_timed_out\<rparr>, s')
      | (Answered (Inl e), s') \<Rightarrow>
          if \<not> is_retryable_provider_error e \<or> k = po_max_retries p then (Inl (Some e, k + 1, any_timed_out), s')
          else attempt_loop p oper n (k + 1) any_timed_out (Some e) s'
      | (Elapsed, s') \<Rightarrow>
          if \<not> is_retryable_provider_error provider_timeout \<or> k = po_max_retries p
          then (Inl (Some provider_timeout, k + 1, True), s')
          else attempt_loop p oper n (k + 1) True (Some provider_timeout) s')"

definition failure_of ::
  "string \<Rightarrow> provider_execution_policy \<Rightarrow> memcore_error option \<Rightarrow> nat \<Rightarrow> bool \<Rightarrow> provider_execution_failure" where
  "failure_of operation_name p last_error attempts any_timed_out =
     (let failure = (\<lambda>e timed_out. \<lparr>ef_error = e, ef_attempts = attempts, ef_retries = attempts - 1, ef_timed_out = timed_out\<rparr>)
      in case last_error of
           None \<Rightarrow> failure (Internal (operation_name @ '' failed without an error'')) any_timed_out
         | Some e \<Rightarrow>
             if is_provider_timeout e then failure e True
             else if \<not> is_retryable_provider_error e then failure e any_timed_out
             else failure (ProviderError (operation_name @ '' failed after '' @ show_nat (total_attempts p) @ '' attempts: '' @
                    error_message e)) any_timed_out)"

definition execute_provider_call ::
  "string \<Rightarrow> provider_execution_policy \<Rightarrow> ('s \<Rightarrow> 'a attempt \<times> 's) \<Rightarrow>
   ('s, provider_execution_failure, 'a provider_execution_outcome) comp" where
  "execute_provider_call operation_name p oper s =
     (case attempt_loop p oper (total_attempts p) 0 False None s of
        (Inr outcome, s') \<Rightarrow> (Inr outcome, s')
      | (Inl (last_error, attempts, any_timed_out), s') \<Rightarrow> (Inl (failure_of operation_name p last_error attempts any_timed_out), s'))"

section \<open>What the loop does\<close>

fun attempt_error :: "'a attempt \<Rightarrow> memcore_error option" where
  "attempt_error (Answered (Inr _)) = None"
| "attempt_error (Answered (Inl e)) = Some e"
| "attempt_error Elapsed = Some provider_timeout"

definition attempt_retryable :: "'a attempt \<Rightarrow> bool" where
  "attempt_retryable a \<longleftrightarrow> (\<exists>e. attempt_error a = Some e \<and> is_retryable_provider_error e)"

fun nth_state :: "('s \<Rightarrow> 'a attempt \<times> 's) \<Rightarrow> nat \<Rightarrow> 's \<Rightarrow> 's" where
  "nth_state oper 0 s = s"
| "nth_state oper (Suc n) s = nth_state oper n (snd (oper s))"

definition nth_attempt :: "('s \<Rightarrow> 'a attempt \<times> 's) \<Rightarrow> nat \<Rightarrow> 's \<Rightarrow> 'a attempt" where
  "nth_attempt oper n s = fst (oper (nth_state oper n s))"

lemma nth_attempt_simps [simp]:
  "nth_attempt oper 0 s = fst (oper s)" "nth_attempt oper (Suc n) s = nth_attempt oper n (snd (oper s))"
  by (simp_all add: nth_attempt_def)

lemma provider_timeout_retryable [simp]: "is_retryable_provider_error provider_timeout"
  by (simp add: provider_timeout_def)

text \<open>From the \<open>k\<close>-th attempt on, the loop makes \<open>j + 1\<close> more attempts: \<open>j\<close> that are retried and a last one.\<close>

lemma attempt_loop_stops:
  assumes "k + n = Suc (po_max_retries p)" and "0 < n"
  shows "\<exists>j < n. (\<forall>i < j. attempt_retryable (nth_attempt oper i s)) \<and>
    (attempt_retryable (nth_attempt oper j s) \<longrightarrow> k + j = po_max_retries p) \<and>
    attempt_loop p oper n k t le s =
      ((case nth_attempt oper j s of
          Answered (Inr v) \<Rightarrow> Inr \<lparr>eo_value = v, eo_attempts = k + j + 1, eo_retries = k + j,
            eo_timed_out = (t \<or> (\<exists>i < j. nth_attempt oper i s = Elapsed))\<rparr>
        | a \<Rightarrow> Inl (attempt_error a, k + j + 1, t \<or> (\<exists>i \<le> j. nth_attempt oper i s = Elapsed))),
       nth_state oper (Suc j) s)"
  using assms
proof (induction n arbitrary: k t le s)
  case (Suc n)
  obtain a s' where a: "oper s = (a, s')" by (cases "oper s") auto
  show ?case
  proof (cases "attempt_retryable a \<and> k \<noteq> po_max_retries p")
    case False
    with Suc.prems a show ?thesis
      by (intro exI [of _ 0])
        (auto simp: attempt_retryable_def split: attempt.splits sum.splits)
  next
    case True
    with Suc.prems have "k + 1 + n = Suc (po_max_retries p)" "0 < n" by auto
    from Suc.IH [OF this, of s' "t \<or> a = Elapsed" "attempt_error a"] obtain j where
        j: "j < n" "\<forall>i < j. attempt_retryable (nth_attempt oper i s')"
        "attempt_retryable (nth_attempt oper j s') \<longrightarrow> k + 1 + j = po_max_retries p"
      and run: "attempt_loop p oper n (k + 1) (t \<or> a = Elapsed) (attempt_error a) s' =
      ((case nth_attempt oper j s' of
          Answered (Inr v) \<Rightarrow> Inr \<lparr>eo_value = v, eo_attempts = k + 1 + j + 1, eo_retries = k + 1 + j,
            eo_timed_out = ((t \<or> a = Elapsed) \<or> (\<exists>i < j. nth_attempt oper i s' = Elapsed))\<rparr>
        | a' \<Rightarrow> Inl (attempt_error a', k + 1 + j + 1, (t \<or> a = Elapsed) \<or> (\<exists>i \<le> j. nth_attempt oper i s' = Elapsed))),
       nth_state oper (Suc j) s')" by blast
    have "attempt_loop p oper (Suc n) k t le s = attempt_loop p oper n (k + 1) (t \<or> a = Elapsed) (attempt_error a) s'"
      using True a by (auto simp: attempt_retryable_def split: attempt.splits sum.splits)
    moreover have "(\<exists>i < Suc j. nth_attempt oper i s = Elapsed) \<longleftrightarrow> a = Elapsed \<or> (\<exists>i < j. nth_attempt oper i s' = Elapsed)"
      "(\<exists>i \<le> Suc j. nth_attempt oper i s = Elapsed) \<longleftrightarrow> a = Elapsed \<or> (\<exists>i \<le> j. nth_attempt oper i s' = Elapsed)"
      "(\<forall>i < Suc j. attempt_retryable (nth_attempt oper i s)) \<longleftrightarrow> attempt_retryable a \<and> (\<forall>i < j. attempt_retryable (nth_attempt oper i s'))"
      using a by (auto simp: Ex_less_Suc2 All_less_Suc2 simp flip: less_Suc_eq_le)
    ultimately show ?thesis
      using j run a True by (intro exI [of _ "Suc j"]) (auto split: attempt.splits sum.splits)
  qed
qed simp

section \<open>Properties\<close>

text \<open>C31: A provider call ends after at most one more attempt than the configured retries, whatever the
  provider answers. Every attempt before the last failed retryably; the last one succeeded, or failed for good, or used up
  the retries. The answer is that attempt's value or an error, with the number of attempts and retries that were
  made, and the provider is called exactly that often.\<close>

theorem execute_provider_call_bounded:
  assumes "po_max_retries p < usize_max"
  shows "\<exists>j \<le> po_max_retries p.
    (\<forall>i < j. attempt_retryable (nth_attempt oper i s)) \<and>
    (attempt_retryable (nth_attempt oper j s) \<longrightarrow> j = po_max_retries p) \<and>
    snd (execute_provider_call name p oper s) = nth_state oper (Suc j) s \<and>
    (case fst (execute_provider_call name p oper s) of
       Inr out \<Rightarrow> nth_attempt oper j s = Answered (Inr (eo_value out)) \<and> eo_attempts out = Suc j \<and> eo_retries out = j
     | Inl f \<Rightarrow> (\<exists>e. attempt_error (nth_attempt oper j s) = Some e \<and>
         ef_error f = (if is_retryable_provider_error e \<and> \<not> is_provider_timeout e
           then ProviderError (name @ '' failed after '' @ show_nat (Suc (po_max_retries p)) @ '' attempts: '' @ error_message e)
           else e)) \<and> ef_attempts f = Suc j \<and> ef_retries f = j)"
proof -
  have n: "total_attempts p = Suc (po_max_retries p)"
    using assms by (simp add: total_attempts_def usize_saturating_add_def)
  obtain j where j: "j < Suc (po_max_retries p)" "\<forall>i < j. attempt_retryable (nth_attempt oper i s)"
      "attempt_retryable (nth_attempt oper j s) \<longrightarrow> 0 + j = po_max_retries p"
    and run: "attempt_loop p oper (Suc (po_max_retries p)) 0 False None s =
      ((case nth_attempt oper j s of
          Answered (Inr v) \<Rightarrow> Inr \<lparr>eo_value = v, eo_attempts = 0 + j + 1, eo_retries = 0 + j,
            eo_timed_out = (False \<or> (\<exists>i < j. nth_attempt oper i s = Elapsed))\<rparr>
        | a \<Rightarrow> Inl (attempt_error a, 0 + j + 1, False \<or> (\<exists>i \<le> j. nth_attempt oper i s = Elapsed))),
       nth_state oper (Suc j) s)"
    using attempt_loop_stops [of 0 "Suc (po_max_retries p)" p oper s False None] by auto
  show ?thesis
  proof (intro exI [of _ j] conjI)
    show "snd (execute_provider_call name p oper s) = nth_state oper (Suc j) s"
      by (simp add: execute_provider_call_def n run del: attempt_loop.simps nth_state.simps split: attempt.split sum.split)
    show "case fst (execute_provider_call name p oper s) of
       Inr out \<Rightarrow> nth_attempt oper j s = Answered (Inr (eo_value out)) \<and> eo_attempts out = Suc j \<and> eo_retries out = j
     | Inl f \<Rightarrow> (\<exists>e. attempt_error (nth_attempt oper j s) = Some e \<and>
         ef_error f = (if is_retryable_provider_error e \<and> \<not> is_provider_timeout e
           then ProviderError (name @ '' failed after '' @ show_nat (Suc (po_max_retries p)) @ '' attempts: '' @ error_message e)
           else e)) \<and> ef_attempts f = Suc j \<and> ef_retries f = j"
      by (auto simp: execute_provider_call_def n run failure_of_def Let_def simp del: attempt_loop.simps nth_state.simps
          split: attempt.split sum.split)
  qed (use j in auto)
qed

theorem execute_provider_call_bounded_witness:
  "\<exists>j \<le> 2. snd (execute_provider_call ''op'' provider_execution_policy_default (\<lambda>n. (Answered (Inl RateLimited) :: unit attempt, Suc n)) 0)
     = nth_state (\<lambda>n. (Answered (Inl RateLimited) :: unit attempt, Suc n)) (Suc j) 0"
  using execute_provider_call_bounded [of provider_execution_policy_default "\<lambda>n. (Answered (Inl RateLimited) :: unit attempt, Suc n)" 0 "''op''"]
  by (auto simp: provider_execution_policy_default_def usize_max_def)

text \<open>A rate limit is retried, and counts as a failure of the provider's health. Once the retries are used up it is
  reported with a message that no longer counts as one.\<close>

lemma rate_limit_exhausted_not_health:
  "is_provider_health_failure RateLimited \<and>
   \<not> is_provider_health_failure (ef_error (failure_of ''llm_extract_facts'' provider_execution_policy_default (Some RateLimited) 3 False))"
proof -
  let ?m = "''llm_extract_facts failed after 3 attempts: rate limited''"
  have three: "show_nat 3 = ''3''" by code_simp
  have "failure_of ''llm_extract_facts'' provider_execution_policy_default (Some RateLimited) 3 False
      = \<lparr>ef_error = ProviderError ?m, ef_attempts = 3, ef_retries = 2, ef_timed_out = False\<rparr>"
    by (simp add: failure_of_def total_attempts_def provider_execution_policy_default_def usize_saturating_add_def usize_max_def
        three)
  moreover have "is_retryable_provider_message ?m = False" by code_simp
  ultimately show ?thesis by (simp add: is_provider_health_failure_def)
qed

text \<open>The delay before a retry is at least a millisecond, and with jitter at most the configured maximum.\<close>

lemma backoff_duration_bounds:
  "10 ^ 6 \<le> backoff_duration f64_powi nanos p n"
  "po_jitter_enabled p \<Longrightarrow> as_millis (po_max_backoff p) < 2 ^ 64 \<Longrightarrow>
     backoff_duration f64_powi nanos p n \<le> max (as_millis (po_max_backoff p)) 1 * 10 ^ 6"
  by (simp_all add: backoff_duration_def Let_def)

end
