(* ===== verification/Circuit_Breaker.thy ===== *)
theory Circuit_Breaker
  imports Common_Error Uuid
begin

text \<open>
  \<^verbatim>\<open>crates/memcore-providers/src/circuit_breaker\<close>: one circuit per capability, provider and operation.
  The mutex around the map makes each operation one step; the clock is read inside the operations, so the time is an
  argument. Durations are in nanoseconds, like times.
\<close>

section \<open>Configuration and state (\<open>breaker.rs\<close>, \<open>state.rs\<close>)\<close>

datatype circuit_state = Closed | Open | HalfOpen

record circuit_breaker_config =
  cb_enabled :: bool
  cb_failure_threshold :: nat
  cb_reset_timeout :: nat
  cb_half_open_max_calls :: nat

definition circuit_breaker_config_default :: circuit_breaker_config where
  "circuit_breaker_config_default =
     \<lparr>cb_enabled = True, cb_failure_threshold = 5, cb_reset_timeout = 60 * 10 ^ 9, cb_half_open_max_calls = 1\<rparr>"

definition validate_circuit_breaker_config :: "nat \<Rightarrow> u64 \<Rightarrow> nat \<Rightarrow> unit memcore_result" where
  "validate_circuit_breaker_config failure_threshold reset_timeout_seconds half_open_max_calls =
     (if failure_threshold = 0
      then Inl (ValidationError ''MEMCORE_PROVIDER_CIRCUIT_BREAKER_FAILURE_THRESHOLD must be greater than 0'')
      else if reset_timeout_seconds = 0
      then Inl (ValidationError ''MEMCORE_PROVIDER_CIRCUIT_BREAKER_RESET_TIMEOUT_SECONDS must be greater than 0'')
      else if half_open_max_calls = 0
      then Inl (ValidationError ''MEMCORE_PROVIDER_CIRCUIT_BREAKER_HALF_OPEN_MAX_CALLS must be greater than 0'')
      else Inr ())"

definition circuit_breaker_from_config :: "bool \<Rightarrow> nat \<Rightarrow> u64 \<Rightarrow> nat \<Rightarrow> circuit_breaker_config memcore_result" where
  "circuit_breaker_from_config enabled failure_threshold reset_timeout_seconds half_open_max_calls =
     and_then (validate_circuit_breaker_config failure_threshold reset_timeout_seconds half_open_max_calls) (\<lambda>_.
     Inr \<lparr>cb_enabled = enabled, cb_failure_threshold = failure_threshold,
          cb_reset_timeout = unat reset_timeout_seconds * 10 ^ 9, cb_half_open_max_calls = half_open_max_calls\<rparr>)"

record circuit_entry =
  ci_state :: circuit_state
  ci_failure_count :: nat
  ci_opened_at :: "datetime option"
  ci_half_open_calls :: nat

definition circuit_entry_new :: circuit_entry where
  "circuit_entry_new = \<lparr>ci_state = Closed, ci_failure_count = 0, ci_opened_at = None, ci_half_open_calls = 0\<rparr>"

record circuit_breaker_snapshot =
  sn_state :: circuit_state
  sn_failure_count :: nat
  sn_opened_at :: "datetime option"

type_synonym circuits = "string \<rightharpoonup> circuit_entry"

section \<open>Operations\<close>

definition entry_of :: "circuits \<Rightarrow> string \<Rightarrow> circuit_entry" where
  "entry_of m key = (case m key of None \<Rightarrow> circuit_entry_new | Some e \<Rightarrow> e)"

definition circuit_snapshot :: "circuit_breaker_config \<Rightarrow> string \<Rightarrow> circuits \<Rightarrow> circuit_breaker_snapshot" where
  "circuit_snapshot c key m =
     (if \<not> cb_enabled c then \<lparr>sn_state = Closed, sn_failure_count = 0, sn_opened_at = None\<rparr>
      else case m key of
             Some e \<Rightarrow> \<lparr>sn_state = ci_state e, sn_failure_count = ci_failure_count e, sn_opened_at = ci_opened_at e\<rparr>
           | None \<Rightarrow> \<lparr>sn_state = Closed, sn_failure_count = 0, sn_opened_at = None\<rparr>)"

text \<open>A clock that went backwards makes \<open>to_std\<close> fail, which counts as an elapsed timeout.\<close>

definition maybe_transition_open_to_half_open ::
  "circuit_breaker_config \<Rightarrow> datetime \<Rightarrow> circuit_entry \<Rightarrow> circuit_entry" where
  "maybe_transition_open_to_half_open c now e =
     (if ci_state e \<noteq> Open then e
      else case ci_opened_at e of
             None \<Rightarrow> e
           | Some opened_at \<Rightarrow>
               if int (cb_reset_timeout c) \<le> (if now - opened_at < 0 then int (cb_reset_timeout c) else now - opened_at)
               then e\<lparr>ci_state := HalfOpen, ci_half_open_calls := 0\<rparr>
               else e)"

definition check_allow ::
  "circuit_breaker_config \<Rightarrow> string \<Rightarrow> datetime \<Rightarrow> (circuits, memcore_error, circuit_state) comp" where
  "check_allow c key now m =
     (if \<not> cb_enabled c then (Inr Closed, m)
      else let e = maybe_transition_open_to_half_open c now (entry_of m key) in
        case ci_state e of
          Open \<Rightarrow> (Inl provider_circuit_open, m(key \<mapsto> e))
        | Closed \<Rightarrow> (Inr Closed, m(key \<mapsto> e))
        | HalfOpen \<Rightarrow>
            if cb_half_open_max_calls c \<le> ci_half_open_calls e then (Inl provider_circuit_open, m(key \<mapsto> e))
            else (Inr HalfOpen, m(key \<mapsto> e\<lparr>ci_half_open_calls := ci_half_open_calls e + 1\<rparr>)))"

definition record_success :: "circuit_breaker_config \<Rightarrow> string \<Rightarrow> circuits \<Rightarrow> circuits" where
  "record_success c key m =
     (if \<not> cb_enabled c then m
      else m(key \<mapsto> (entry_of m key)\<lparr>ci_state := Closed, ci_failure_count := 0, ci_opened_at := None, ci_half_open_calls := 0\<rparr>))"

definition record_failure :: "circuit_breaker_config \<Rightarrow> string \<Rightarrow> datetime \<Rightarrow> circuits \<Rightarrow> circuits" where
  "record_failure c key now m =
     (if \<not> cb_enabled c then m
      else let e = entry_of m key in
        m(key \<mapsto>
          (case ci_state e of
             Closed \<Rightarrow>
               (let e1 = e\<lparr>ci_failure_count := usize_saturating_add (ci_failure_count e) 1\<rparr> in
                if cb_failure_threshold c \<le> ci_failure_count e1
                then e1\<lparr>ci_state := Open, ci_opened_at := Some now, ci_half_open_calls := 0\<rparr>
                else e1)
           | HalfOpen \<Rightarrow> e\<lparr>ci_state := Open, ci_opened_at := Some now, ci_half_open_calls := 0\<rparr>
           | Open \<Rightarrow> e)))"

section \<open>The breaker as a state machine\<close>

text \<open>Any operation on any key at any time, in any order.\<close>

inductive breaker_step :: "circuit_breaker_config \<Rightarrow> circuits \<Rightarrow> circuits \<Rightarrow> bool" for c where
  allow: "breaker_step c m (snd (check_allow c k now m))"
| success: "breaker_step c m (record_success c k m)"
| failure: "breaker_step c m (record_failure c k now m)"

inductive breaker_reachable :: "circuit_breaker_config \<Rightarrow> circuits \<Rightarrow> bool" for c where
  start: "breaker_reachable c Map.empty"
| step: "breaker_reachable c m \<Longrightarrow> breaker_step c m m' \<Longrightarrow> breaker_reachable c m'"

definition entry_ok :: "circuit_breaker_config \<Rightarrow> circuit_entry \<Rightarrow> bool" where
  "entry_ok c e \<longleftrightarrow>
     (case ci_state e of
        Closed \<Rightarrow> ci_failure_count e < cb_failure_threshold c \<and> ci_opened_at e = None \<and> ci_half_open_calls e = 0
      | Open \<Rightarrow> cb_failure_threshold c \<le> ci_failure_count e \<and> ci_opened_at e \<noteq> None \<and> ci_half_open_calls e = 0
      | HalfOpen \<Rightarrow> cb_failure_threshold c \<le> ci_failure_count e \<and> 1 \<le> ci_half_open_calls e \<and>
          ci_half_open_calls e \<le> cb_half_open_max_calls c)"

definition breaker_ok :: "circuit_breaker_config \<Rightarrow> circuits \<Rightarrow> bool" where
  "breaker_ok c m \<longleftrightarrow> (\<forall>k. entry_ok c (entry_of m k))"

definition breaker_valid :: "circuit_breaker_config \<Rightarrow> bool" where
  "breaker_valid c \<longleftrightarrow> 0 < cb_failure_threshold c \<and> 0 < cb_half_open_max_calls c \<and> cb_failure_threshold c \<le> usize_max"

lemma entry_of_upd: "entry_of (m(k \<mapsto> e)) k' = (if k' = k then e else entry_of m k')"
  by (simp add: entry_of_def)

lemma breaker_ok_upd: "breaker_ok c m \<Longrightarrow> entry_ok c e \<Longrightarrow> breaker_ok c (m(k \<mapsto> e))"
  by (simp add: breaker_ok_def entry_of_upd)

lemma breaker_step_ok:
  assumes "breaker_valid c" and "breaker_step c m m'" and ok: "breaker_ok c m"
  shows "breaker_ok c m'"
  using assms(2)
proof cases
  case (allow k now)
  have "entry_ok c (entry_of m k)" using ok by (simp add: breaker_ok_def)
  with assms(1) ok show ?thesis
    unfolding allow check_allow_def Let_def maybe_transition_open_to_half_open_def
    by (auto split: circuit_state.splits option.splits if_splits intro!: breaker_ok_upd simp: entry_ok_def breaker_valid_def)
next
  case (success k)
  with assms(1) ok show ?thesis
    by (auto simp: record_success_def breaker_valid_def entry_ok_def intro!: breaker_ok_upd)
next
  case (failure k now)
  have "entry_ok c (entry_of m k)" using ok by (simp add: breaker_ok_def)
  with failure assms(1) ok show ?thesis
    by (auto simp: record_failure_def Let_def entry_ok_def split: circuit_state.splits if_splits intro!: breaker_ok_upd)
qed

lemma breaker_reachable_ok: "breaker_reachable c m \<Longrightarrow> breaker_valid c \<Longrightarrow> breaker_ok c m"
proof (induction rule: breaker_reachable.induct)
  case start
  then show ?case by (simp add: breaker_ok_def entry_of_def entry_ok_def circuit_entry_new_def breaker_valid_def)
next
  case (step m m')
  then show ?case using breaker_step_ok by blast
qed

lemma failures_open:
  assumes "cb_enabled c" and "cb_failure_threshold c \<le> usize_max"
  shows "ci_state (entry_of m k) = Closed \<Longrightarrow> ci_failure_count (entry_of m k) < cb_failure_threshold c \<Longrightarrow>
    ci_state (entry_of (fold (\<lambda>now. record_failure c k now) ts m) k) =
      (if cb_failure_threshold c \<le> ci_failure_count (entry_of m k) + length ts then Open else Closed)"
proof (induction ts arbitrary: m)
  case (Cons t ts)
  let ?m = "record_failure c k t m"
  have stays: "ci_state (entry_of m k) = Open \<Longrightarrow> ci_state (entry_of (fold (\<lambda>now. record_failure c k now) ts m) k) = Open" for ts m
    by (induction ts arbitrary: m) (auto simp: record_failure_def entry_of_upd)
  show ?case
  proof (cases "cb_failure_threshold c \<le> ci_failure_count (entry_of m k) + 1")
    case True
    then have "ci_state (entry_of ?m k) = Open"
      using Cons.prems assms by (simp add: record_failure_def Let_def entry_of_upd usize_saturating_add_def)
    with True stays show ?thesis by simp
  next
    case False
    then have "ci_state (entry_of ?m k) = Closed" "ci_failure_count (entry_of ?m k) = ci_failure_count (entry_of m k) + 1"
      using Cons.prems assms by (simp_all add: record_failure_def Let_def entry_of_upd usize_saturating_add_def)
    with Cons.IH [of ?m] False show ?thesis by simp
  qed
qed simp

text \<open>A half-open circuit whose probes have all been used refuses every call, at whatever time. Only a
  recorded outcome of a probe leads out of this state.\<close>

lemma half_open_exhausted:
  assumes "cb_enabled c" and "ci_state (entry_of m k) = HalfOpen" and "cb_half_open_max_calls c \<le> ci_half_open_calls (entry_of m k)"
  shows "check_allow c k now m = (Inl provider_circuit_open, m(k \<mapsto> entry_of m k))"
  using assms by (simp add: check_allow_def Let_def maybe_transition_open_to_half_open_def)

section \<open>Properties\<close>

text \<open>C30: The circuit breaker as a state machine. In every state that operations on any keys at any times lead to:
  a closed circuit has fewer failures than the threshold, an open one knows since when, a half-open one has admitted at
  least one and at most the configured number of probes. An open circuit refuses every call
  until the reset timeout has passed and admits the first one after that; a closed circuit opens exactly
  when consecutive failures reach the threshold.\<close>

theorem circuit_breaker_machine:
  assumes "breaker_reachable c m" and "breaker_valid c" and "cb_enabled c"
  shows "entry_ok c (entry_of m k) \<and>
    (case ci_state (entry_of m k) of
       Closed \<Rightarrow> fst (check_allow c k now m) = Inr Closed \<and>
         ci_state (entry_of (fold (\<lambda>now. record_failure c k now) ts m) k) =
           (if cb_failure_threshold c \<le> ci_failure_count (entry_of m k) + length ts then Open else Closed)
     | Open \<Rightarrow> (\<exists>opened. ci_opened_at (entry_of m k) = Some opened \<and>
         fst (check_allow c k now m) =
           (if opened \<le> now \<and> now < opened + int (cb_reset_timeout c) then Inl provider_circuit_open else Inr HalfOpen))
     | HalfOpen \<Rightarrow> fst (check_allow c k now m) =
         (if ci_half_open_calls (entry_of m k) < cb_half_open_max_calls c then Inr HalfOpen else Inl provider_circuit_open))"
proof -
  have ok: "entry_ok c (entry_of m k)"
    using breaker_reachable_ok [OF assms(1,2)] by (simp add: breaker_ok_def)
  show ?thesis
  proof (cases "ci_state (entry_of m k)")
    case Closed
    with ok assms(2,3) failures_open [OF assms(3), of m k ts] show ?thesis
      by (simp add: entry_ok_def breaker_valid_def check_allow_def maybe_transition_open_to_half_open_def)
  next
    case Open
    with ok assms(2,3) show ?thesis
      by (auto simp: entry_ok_def breaker_valid_def check_allow_def maybe_transition_open_to_half_open_def Let_def)
  next
    case HalfOpen
    with ok assms(3) show ?thesis
      by (simp add: check_allow_def maybe_transition_open_to_half_open_def Let_def)
  qed
qed

theorem circuit_breaker_machine_witness:
  "fst (check_allow circuit_breaker_config_default ''k'' 7 (record_failure circuit_breaker_config_default ''k'' 5 Map.empty)) = Inr Closed"
proof -
  let ?c = circuit_breaker_config_default
  have "breaker_reachable ?c (record_failure ?c ''k'' 5 Map.empty)"
    by (rule breaker_reachable.step [OF breaker_reachable.start breaker_step.failure])
  moreover have "breaker_valid ?c" "cb_enabled ?c"
    by (simp_all add: breaker_valid_def circuit_breaker_config_default_def usize_max_def)
  moreover have "ci_state (entry_of (record_failure ?c ''k'' 5 Map.empty) ''k'') = Closed"
    by (simp add: record_failure_def circuit_breaker_config_default_def entry_of_def circuit_entry_new_def usize_saturating_add_def
        usize_max_def)
  ultimately show ?thesis
    using circuit_breaker_machine [of ?c "record_failure ?c ''k'' 5 Map.empty" "''k''" 7] by simp
qed

end
