(* ===== verification/Guardrails.thy ===== *)
theory Guardrails
  imports Common_Error
begin

text \<open>
  \<^verbatim>\<open>crates/memcore-providers/src/guardrails\<close>: the limits on calls of billed providers. The configuration
  (\<open>types.rs\<close>), the call budget (\<open>budget.rs\<close>, also as threads racing on its atomic counter) and the
  checks made before every provider call (\<open>enforcement.rs\<close>).
\<close>

section \<open>Types (\<open>types.rs\<close>)\<close>

definition MULTI_PROVIDER_VALIDATION_CONFIRMATION :: string where
  "MULTI_PROVIDER_VALIDATION_CONFIRMATION = ''I_UNDERSTAND_THIS_WILL_USE_PROVIDER_CREDITS''"

definition MAX_SAFE_PROVIDER_RETRIES :: nat where
  "MAX_SAFE_PROVIDER_RETRIES = 3"

datatype provider_test_mode = MockOnly | SingleReal | MultiReal | Production

fun provider_test_mode_as_str :: "provider_test_mode \<Rightarrow> string" where
  "provider_test_mode_as_str MockOnly = ''mock_only''"
| "provider_test_mode_as_str SingleReal = ''single_real''"
| "provider_test_mode_as_str MultiReal = ''multi_real''"
| "provider_test_mode_as_str Production = ''production''"

definition parse_provider_test_mode :: "string \<Rightarrow> provider_test_mode memcore_result" where
  "parse_provider_test_mode value =
     (let other = to_ascii_lowercase (trim value) in
      if other = ''mock_only'' then Inr MockOnly
      else if other = ''single_real'' then Inr SingleReal
      else if other = ''multi_real'' then Inr MultiReal
      else if other = ''production'' then Inr Production
      else Inl (ValidationError (''invalid MEMCORE_PROVIDER_TEST_MODE '' @ [CHR 0x27] @ other @ [CHR 0x27] @
             '' (expected mock_only|single_real|multi_real|production)'')))"

datatype provider_call_source = ApiRequest | SmokeTest | LoadTest | BackgroundJob | AdminValidation

fun provider_call_source_as_str :: "provider_call_source \<Rightarrow> string" where
  "provider_call_source_as_str ApiRequest = ''api-request''"
| "provider_call_source_as_str SmokeTest = ''smoke-test''"
| "provider_call_source_as_str LoadTest = ''load-test''"
| "provider_call_source_as_str BackgroundJob = ''background-job''"
| "provider_call_source_as_str AdminValidation = ''admin-validation''"

definition from_test_header :: "string \<Rightarrow> provider_call_source" where
  "from_test_header value =
     (let v = to_ascii_lowercase (trim value) in
      if v = ''smoke-test'' \<or> v = ''smoke_test'' \<or> v = ''smoke'' then SmokeTest
      else if v = ''load-test'' \<or> v = ''load_test'' \<or> v = ''load'' then LoadTest
      else if v = ''admin-validation'' \<or> v = ''admin_validation'' then AdminValidation
      else if v = ''background-job'' \<or> v = ''background_job'' then BackgroundJob
      else ApiRequest)"

text \<open>\<open>timeout\<close> is in nanoseconds.\<close>

record provider_guardrail_config =
  gr_enabled :: bool
  gr_real_provider_calls_enabled :: bool
  gr_test_mode :: provider_test_mode
  gr_max_calls_per_run :: nat
  gr_max_input_chars :: nat
  gr_max_output_tokens :: nat
  gr_max_retries_per_call :: nat
  gr_timeout :: nat
  gr_allow_real_providers_during_load_tests :: bool
  gr_background_jobs_allow_real_providers :: bool
  gr_multi_provider_validation_enabled :: bool
  gr_multi_provider_validation_confirmation :: "string option"

definition provider_guardrail_config_default :: provider_guardrail_config where
  "provider_guardrail_config_default =
     \<lparr>gr_enabled = True, gr_real_provider_calls_enabled = False, gr_test_mode = MockOnly, gr_max_calls_per_run = 10,
      gr_max_input_chars = 4000, gr_max_output_tokens = 300, gr_max_retries_per_call = 1, gr_timeout = 20 * 10 ^ 9,
      gr_allow_real_providers_during_load_tests = False, gr_background_jobs_allow_real_providers = False,
      gr_multi_provider_validation_enabled = False, gr_multi_provider_validation_confirmation = None\<rparr>"

definition validate_guardrail_config :: "provider_guardrail_config \<Rightarrow> unit memcore_result" where
  "validate_guardrail_config c =
     (if gr_max_calls_per_run c = 0
      then Inl (ValidationError ''MEMCORE_PROVIDER_MAX_CALLS_PER_RUN must be greater than 0'')
      else if gr_max_input_chars c = 0
      then Inl (ValidationError ''MEMCORE_PROVIDER_MAX_INPUT_CHARS must be greater than 0'')
      else if gr_max_output_tokens c = 0
      then Inl (ValidationError ''MEMCORE_PROVIDER_MAX_OUTPUT_TOKENS must be greater than 0'')
      else if MAX_SAFE_PROVIDER_RETRIES < gr_max_retries_per_call c
      then Inl (ValidationError (''MEMCORE_PROVIDER_MAX_RETRIES_PER_CALL cannot exceed '' @ show_nat MAX_SAFE_PROVIDER_RETRIES))
      else if gr_timeout c = 0
      then Inl (ValidationError ''MEMCORE_PROVIDER_TIMEOUT_SECONDS (guardrail) must be greater than 0'')
      else if gr_test_mode c = MultiReal \<and> \<not> gr_multi_provider_validation_enabled c
      then Inl (ValidationError ''MEMCORE_MULTI_PROVIDER_VALIDATION_ENABLED must be true when MEMCORE_PROVIDER_TEST_MODE=multi_real'')
      else if gr_test_mode c = MultiReal \<and>
              map_option trim (gr_multi_provider_validation_confirmation c) \<noteq> Some MULTI_PROVIDER_VALIDATION_CONFIRMATION
      then Inl (ValidationError ''MEMCORE_MULTI_PROVIDER_VALIDATION_CONFIRMATION must be exactly I_UNDERSTAND_THIS_WILL_USE_PROVIDER_CREDITS for multi_real mode'')
      else Inr ())"

definition multi_provider_confirmed :: "provider_guardrail_config \<Rightarrow> bool" where
  "multi_provider_confirmed c \<longleftrightarrow>
     gr_multi_provider_validation_enabled c \<and>
     map_option trim (gr_multi_provider_validation_confirmation c) = Some MULTI_PROVIDER_VALIDATION_CONFIRMATION"

record provider_call_guard_input =
  gi_provider_name :: string
  gi_model_name :: string
  gi_operation :: string
  gi_source :: provider_call_source
  gi_input_char_count :: nat
  gi_requested_output_tokens :: "nat option"
  gi_is_real_provider :: bool

datatype provider_guard_decision = Allowed | Blocked (blocked_code: string) (blocked_message: string)

section \<open>The call budget (\<open>budget.rs\<close>)\<close>

record provider_call_budget =
  bu_max_calls_per_run :: nat
  bu_used_calls :: nat

definition provider_call_budget_new :: "nat \<Rightarrow> provider_call_budget" where
  "provider_call_budget_new max_calls_per_run = \<lparr>bu_max_calls_per_run = max_calls_per_run, bu_used_calls = 0\<rparr>"

text \<open>What one call of \<open>try_consume\<close> does when no other thread touches the counter.\<close>

definition try_consume :: "provider_call_budget \<Rightarrow> bool \<times> provider_call_budget" where
  "try_consume b =
     (if bu_max_calls_per_run b \<le> bu_used_calls b then (False, b)
      else (True, b\<lparr>bu_used_calls := bu_used_calls b + 1\<rparr>))"

definition budget_remaining :: "provider_call_budget \<Rightarrow> nat" where
  "budget_remaining b = bu_max_calls_per_run b - bu_used_calls b"

text \<open>
  The loop as it runs: a thread loads the counter, gives up when it is at the limit, and otherwise tries a
  compare-and-exchange that succeeds only if the counter still has the loaded value and may fail without a reason.
\<close>

datatype consumer = Loading | Loaded nat | Returned bool

inductive consume_step ::
  "provider_call_budget \<times> (nat \<Rightarrow> consumer) \<Rightarrow> provider_call_budget \<times> (nat \<Rightarrow> consumer) \<Rightarrow> bool" where
  load_exhausted: "ts t = Loading \<Longrightarrow> bu_max_calls_per_run b \<le> bu_used_calls b \<Longrightarrow>
     consume_step (b, ts) (b, ts(t := Returned False))"
| load: "ts t = Loading \<Longrightarrow> bu_used_calls b < bu_max_calls_per_run b \<Longrightarrow>
     consume_step (b, ts) (b, ts(t := Loaded (bu_used_calls b)))"
| exchange: "ts t = Loaded u \<Longrightarrow> bu_used_calls b = u \<Longrightarrow>
     consume_step (b, ts) (b\<lparr>bu_used_calls := u + 1\<rparr>, ts(t := Returned True))"
| exchange_failed: "ts t = Loaded u \<Longrightarrow>
     consume_step (b, ts) (b, ts(t := Loading))"

section \<open>The checks (\<open>enforcement.rs\<close>)\<close>

definition is_real_provider_name :: "string \<Rightarrow> bool" where
  "is_real_provider_name name =
     (let normalized = to_ascii_lowercase (trim name) in
      \<not> (normalized = [] \<or> normalized = ''mock'' \<or> normalized = ''primary'' \<or> starts_with normalized ''mock-''))"

text \<open>\<open>used_real_providers\<close>, a hash set, is kept as a list without duplicates.\<close>

record guardrail_enforcer =
  ge_config :: provider_guardrail_config
  ge_budget :: provider_call_budget
  ge_used_real_providers :: "string list"

definition guardrail_enforcer_new :: "provider_guardrail_config \<Rightarrow> guardrail_enforcer memcore_result" where
  "guardrail_enforcer_new c =
     and_then (validate_guardrail_config c) (\<lambda>_.
     Inr \<lparr>ge_config = c, ge_budget = provider_call_budget_new (gr_max_calls_per_run c), ge_used_real_providers = []\<rparr>)"

record provider_guardrail_status =
  gs_enabled :: bool
  gs_real_provider_calls_enabled :: bool
  gs_test_mode :: string
  gs_max_calls_per_run :: nat
  gs_used_calls :: nat
  gs_remaining_calls :: nat
  gs_max_input_chars :: nat
  gs_max_output_tokens :: nat
  gs_max_retries_per_call :: nat
  gs_timeout_seconds :: nat
  gs_allow_real_providers_during_load_tests :: bool
  gs_background_jobs_allow_real_providers :: bool
  gs_multi_provider_validation_enabled :: bool

definition status_snapshot :: "guardrail_enforcer \<Rightarrow> provider_guardrail_status" where
  "status_snapshot g =
     (let c = ge_config g; b = ge_budget g in
      \<lparr>gs_enabled = gr_enabled c, gs_real_provider_calls_enabled = gr_real_provider_calls_enabled c,
       gs_test_mode = provider_test_mode_as_str (gr_test_mode c), gs_max_calls_per_run = bu_max_calls_per_run b,
       gs_used_calls = bu_used_calls b, gs_remaining_calls = budget_remaining b,
       gs_max_input_chars = gr_max_input_chars c, gs_max_output_tokens = gr_max_output_tokens c,
       gs_max_retries_per_call = gr_max_retries_per_call c, gs_timeout_seconds = gr_timeout c div 10 ^ 9,
       gs_allow_real_providers_during_load_tests = gr_allow_real_providers_during_load_tests c,
       gs_background_jobs_allow_real_providers = gr_background_jobs_allow_real_providers c,
       gs_multi_provider_validation_enabled = gr_multi_provider_validation_enabled c\<rparr>)"

definition output_tokens_message :: "provider_guardrail_config \<Rightarrow> string" where
  "output_tokens_message c =
     ''requested output tokens exceed guardrail max ('' @ show_nat (gr_max_output_tokens c) @ '')''"

definition resolve_output_tokens :: "guardrail_enforcer \<Rightarrow> nat option \<Rightarrow> nat option memcore_result" where
  "resolve_output_tokens g requested =
     (let c = ge_config g in
      if \<not> gr_enabled c then Inr requested
      else case requested of
        None \<Rightarrow> Inr None
      | Some r \<Rightarrow>
          if r \<le> gr_max_output_tokens c then Inr (Some r)
          else if gr_test_mode c = Production then Inr (Some (gr_max_output_tokens c))
          else Inl (ProviderGuardrailViolation ''output_tokens_exceeded'' (output_tokens_message c)))"

text \<open>The block that holds the lock on \<open>used_real_providers\<close>: the decision that ends the check, if any, and the set.\<close>

definition check_used_providers ::
  "provider_guardrail_config \<Rightarrow> string \<Rightarrow> string list \<Rightarrow> provider_guard_decision option \<times> string list" where
  "check_used_providers c provider_key used =
     (let (early, used') =
        (case gr_test_mode c of
           SingleReal \<Rightarrow>
             if used = [] then (None, [provider_key])
             else if provider_key \<notin> set used
             then (Some (Blocked ''single_real_provider_locked''
                    ''single_real mode allows only one real provider per process; enable multi_real with confirmation to test more''),
                   used)
             else (None, used)
         | MultiReal \<Rightarrow>
             if \<not> multi_provider_confirmed c
             then (Some (Blocked ''multi_provider_confirmation_required''
                    ''multi_real mode requires multi-provider validation confirmation''), used)
             else (None, List.insert provider_key used)
         | Production \<Rightarrow> (None, List.insert provider_key used)
         | MockOnly \<Rightarrow> (None, used))
      in if early \<noteq> None then (early, used')
         else if gr_test_mode c \<noteq> Production \<and> \<not> gr_multi_provider_validation_enabled c \<and> 1 < length used'
         then (Some (Blocked ''multi_provider_validation_disabled''
                ''multiple real providers require MEMCORE_MULTI_PROVIDER_VALIDATION_ENABLED''), used')
         else (None, used'))"

text \<open>The checks before that block, which change nothing: the decision if one of them ends the check.\<close>

definition check_limits :: "provider_guardrail_config \<Rightarrow> provider_call_guard_input \<Rightarrow> provider_guard_decision option" where
  "check_limits c i =
     (if \<not> gr_enabled c then Some Allowed
      else if \<not> gi_is_real_provider i then Some Allowed
      else if \<not> gr_real_provider_calls_enabled c
      then Some (Blocked ''real_provider_calls_disabled''
             ''real provider calls are disabled (set MEMCORE_REAL_PROVIDER_CALLS_ENABLED=true to allow)'')
      else if gr_test_mode c = MockOnly
      then Some (Blocked ''mock_only_mode'' ''provider test mode is mock_only; real providers are not allowed'')
      else if gi_source i = LoadTest \<and> \<not> gr_allow_real_providers_during_load_tests c
      then Some (Blocked ''load_test_real_provider_blocked''
             ''real providers are blocked for load-test source; use mock providers'')
      else if gi_source i = BackgroundJob \<and> \<not> gr_background_jobs_allow_real_providers c
      then Some (Blocked ''background_job_real_provider_blocked''
             ''real providers are blocked for background jobs unless explicitly allowed'')
      else if gr_max_input_chars c < gi_input_char_count i
      then Some (Blocked ''input_chars_exceeded''
             (''provider input exceeds max characters ('' @ show_nat (gr_max_input_chars c) @ '')''))
      else case gi_requested_output_tokens i of
             Some tokens \<Rightarrow>
               if gr_max_output_tokens c < tokens \<and> gr_test_mode c \<noteq> Production
               then Some (Blocked ''output_tokens_exceeded'' (output_tokens_message c)) else None
           | None \<Rightarrow> None)"

definition check_provider_call ::
  "guardrail_enforcer \<Rightarrow> provider_call_guard_input \<Rightarrow> provider_guard_decision \<times> guardrail_enforcer" where
  "check_provider_call g i =
     (case check_limits (ge_config g) i of
        Some d \<Rightarrow> (d, g)
      | None \<Rightarrow>
          let (early, used) =
                check_used_providers (ge_config g) (to_ascii_lowercase (gi_provider_name i)) (ge_used_real_providers g);
              g1 = g\<lparr>ge_used_real_providers := used\<rparr>
          in case early of
               Some d \<Rightarrow> (d, g1)
             | None \<Rightarrow>
                 let (ok, b) = try_consume (ge_budget g1); g2 = g1\<lparr>ge_budget := b\<rparr>
                 in if \<not> ok
                    then (Blocked ''call_budget_exhausted''
                           (''provider call budget exhausted ('' @ show_nat (bu_used_calls b) @ ''/'' @
                            show_nat (bu_max_calls_per_run b) @ '')''), g2)
                    else (Allowed, g2))"

definition decide_or_error :: "guardrail_enforcer \<Rightarrow> provider_call_guard_input \<Rightarrow> unit memcore_result \<times> guardrail_enforcer" where
  "decide_or_error g i =
     (case check_provider_call g i of
        (Allowed, g') \<Rightarrow> (Inr (), g')
      | (Blocked code message, g') \<Rightarrow> (Inl (ProviderGuardrailViolation code message), g'))"

section \<open>Threads racing for the budget\<close>

inductive consume_reachable :: "nat \<Rightarrow> provider_call_budget \<times> (nat \<Rightarrow> consumer) \<Rightarrow> bool" for max_calls where
  start: "consume_reachable max_calls (provider_call_budget_new max_calls, \<lambda>_. Loading)"
| step: "consume_reachable max_calls s \<Longrightarrow> consume_step s s' \<Longrightarrow> consume_reachable max_calls s'"

inductive_cases consume_stepE: "consume_step (b, ts) s'"

definition winners :: "(nat \<Rightarrow> consumer) \<Rightarrow> nat set" where
  "winners ts = {t. ts t = Returned True}"

lemma winners_upd: "winners (ts(t := c)) = (if c = Returned True then insert t (winners ts) else winners ts - {t})"
  by (auto simp: winners_def)

text \<open>The value a thread has loaded may be old but never above the counter, and was below the limit.\<close>

definition consume_inv :: "nat \<Rightarrow> provider_call_budget \<times> (nat \<Rightarrow> consumer) \<Rightarrow> bool" where
  "consume_inv max_calls s =
     (case s of (b, ts) \<Rightarrow>
        bu_max_calls_per_run b = max_calls \<and> bu_used_calls b \<le> max_calls \<and>
        finite (winners ts) \<and> card (winners ts) = bu_used_calls b \<and>
        (\<forall>t u. ts t = Loaded u \<longrightarrow> u \<le> bu_used_calls b \<and> u < max_calls) \<and>
        (\<forall>t. ts t = Returned False \<longrightarrow> bu_used_calls b = max_calls))"

lemma consume_inv_step:
  assumes "consume_inv n s" "consume_step s s'"
  shows "consume_inv n s'"
  using assms(2,1)
proof cases
  case (exchange ts t u b)
  then have "t \<notin> winners ts" "bu_used_calls b < n" using assms(1) by (auto simp: winners_def consume_inv_def)
  with exchange assms(1) show ?thesis
    by (fastforce simp: consume_inv_def winners_upd Suc_le_eq intro: le_SucI)
next
  case (load_exhausted ts t b)
  then have "t \<notin> winners ts" by (simp add: winners_def)
  with load_exhausted assms(1) show ?thesis by (auto simp: consume_inv_def winners_upd)
next
  case (load ts t b)
  then have "t \<notin> winners ts" by (simp add: winners_def)
  with load assms(1) show ?thesis by (auto simp: consume_inv_def winners_upd)
next
  case (exchange_failed ts t u b)
  then have "t \<notin> winners ts" by (simp add: winners_def)
  with exchange_failed assms(1) show ?thesis by (auto simp: consume_inv_def winners_upd)
qed

lemma consume_inv_reachable: "consume_reachable n s \<Longrightarrow> consume_inv n s"
proof (induction rule: consume_reachable.induct)
  case start
  then show ?case by (simp add: consume_inv_def winners_def provider_call_budget_new_def)
next
  case (step s s')
  then show ?case by (blast intro: consume_inv_step)
qed

text \<open>C29: However many threads race on the counter of a call budget, and however their loads and exchanges interleave
  or fail without a reason, exactly as many calls of \<open>try_consume\<close> have returned true as the counter says, the
  counter never passes the limit, and a thread is refused only when the budget is used up for good; every step that
  changes the counter is one whole \<open>try_consume\<close>, and while the budget lasts a thread that runs alone wins.
\<close>

theorem try_consume_threads:
  assumes "consume_reachable max_calls (b, ts)"
  shows "card {t. ts t = Returned True} = bu_used_calls b \<and> bu_used_calls b \<le> max_calls \<and>
    (\<forall>t. ts t = Returned False \<longrightarrow> fst (try_consume b) = False) \<and>
    (\<forall>b' ts'. consume_step (b, ts) (b', ts') \<longrightarrow> b' = b \<or> try_consume b = (True, b')) \<and>
    (\<forall>t. fst (try_consume b) \<longrightarrow> ts t = Loading \<longrightarrow>
       (\<exists>s. consume_step (b, ts) s \<and> consume_step s (snd (try_consume b), ts(t := Returned True))))"
proof (intro conjI allI impI)
  have inv: "consume_inv max_calls (b, ts)" using consume_inv_reachable [OF assms] .
  then show "card {t. ts t = Returned True} = bu_used_calls b" "bu_used_calls b \<le> max_calls"
    "ts t = Returned False \<Longrightarrow> fst (try_consume b) = False" for t
    by (auto simp: consume_inv_def winners_def try_consume_def)
  show "consume_step (b, ts) (b', ts') \<Longrightarrow> b' = b \<or> try_consume b = (True, b')" for b' ts'
    using inv by (fastforce elim!: consume_stepE simp: consume_inv_def try_consume_def)
  show "\<exists>s. consume_step (b, ts) s \<and> consume_step s (snd (try_consume b), ts(t := Returned True))"
    if "fst (try_consume b)" "ts t = Loading" for t
  proof -
    from that have lt: "bu_used_calls b < bu_max_calls_per_run b" by (simp add: try_consume_def split: if_splits)
    have "consume_step (b, ts(t := Loaded (bu_used_calls b)))
        (b\<lparr>bu_used_calls := bu_used_calls b + 1\<rparr>, (ts(t := Loaded (bu_used_calls b)))(t := Returned True))"
      by (rule consume_step.exchange) simp_all
    with consume_step.load [of ts t b, OF that(2) lt] lt show ?thesis
      by (intro exI [of _ "(b, ts(t := Loaded (bu_used_calls b)))"]) (simp add: try_consume_def)
  qed
qed

theorem try_consume_threads_witness:
  "consume_reachable 1 (\<lparr>bu_max_calls_per_run = 1, bu_used_calls = 1\<rparr>, (\<lambda>_. Loading)(0 := Returned True, 1 := Returned False)) \<and>
   fst (try_consume \<lparr>bu_max_calls_per_run = 1, bu_used_calls = 1\<rparr>) = False"
proof -
  let ?b = "provider_call_budget_new 1" and ?full = "\<lparr>bu_max_calls_per_run = 1, bu_used_calls = 1\<rparr>"
  have "consume_reachable 1 (?b, (\<lambda>_. Loading)(0 := Loaded 0))"
    by (rule consume_reachable.step [OF consume_reachable.start])
      (use consume_step.load [of "\<lambda>_. Loading" 0 ?b] in \<open>simp add: provider_call_budget_new_def\<close>)
  then have "consume_reachable 1 (?full, (\<lambda>_. Loading)(0 := Returned True))"
    by (rule consume_reachable.step)
      (use consume_step.exchange [of "(\<lambda>_. Loading)(0 := Loaded 0)" 0 0 ?b] in \<open>simp add: provider_call_budget_new_def\<close>)
  then have r: "consume_reachable 1 (?full, (\<lambda>_. Loading)(0 := Returned True, 1 := Returned False))"
    by (rule consume_reachable.step)
      (use consume_step.load_exhausted [of "(\<lambda>_. Loading)(0 := Returned True)" 1 ?full] in simp)
  with try_consume_threads [OF r] show ?thesis by (simp add: try_consume_def)
qed

section \<open>A run of checks\<close>

text \<open>The real provider calls of a sequence that the guardrails let pass.\<close>

fun admitted :: "guardrail_enforcer \<Rightarrow> provider_call_guard_input list \<Rightarrow> provider_call_guard_input list" where
  "admitted g [] = []"
| "admitted g (i # is) =
     (let (d, g') = check_provider_call g i in
      (if d = Allowed \<and> gi_is_real_provider i then [i] else []) @ admitted g' is)"

definition call_permitted :: "provider_guardrail_config \<Rightarrow> provider_call_guard_input \<Rightarrow> bool" where
  "call_permitted c i \<longleftrightarrow>
     gr_real_provider_calls_enabled c \<and> gr_test_mode c \<noteq> MockOnly \<and>
     (gi_source i = LoadTest \<longrightarrow> gr_allow_real_providers_during_load_tests c) \<and>
     (gi_source i = BackgroundJob \<longrightarrow> gr_background_jobs_allow_real_providers c) \<and>
     gi_input_char_count i \<le> gr_max_input_chars c \<and>
     (\<forall>t. gi_requested_output_tokens i = Some t \<longrightarrow> t \<le> gr_max_output_tokens c \<or> gr_test_mode c = Production)"

definition provider_key :: "provider_call_guard_input \<Rightarrow> string" where
  "provider_key i = to_ascii_lowercase (gi_provider_name i)"

definition enforcer_inv :: "provider_guardrail_config \<Rightarrow> guardrail_enforcer \<Rightarrow> bool" where
  "enforcer_inv c g \<longleftrightarrow>
     ge_config g = c \<and> bu_max_calls_per_run (ge_budget g) = gr_max_calls_per_run c \<and>
     bu_used_calls (ge_budget g) \<le> gr_max_calls_per_run c \<and>
     (gr_test_mode c = SingleReal \<longrightarrow> length (ge_used_real_providers g) \<le> 1)"

lemma check_used_single:
  assumes "gr_test_mode c = SingleReal" "length used \<le> 1" "check_used_providers c k used = (d, used')"
  shows "length used' \<le> 1" "used \<noteq> [] \<Longrightarrow> used' = used" "d = None \<Longrightarrow> used' = [k]"
  using assms by (auto simp: check_used_providers_def le_Suc_eq length_Suc_conv split: if_splits)

lemma check_used_not_allowed: "check_used_providers c k used = (Some e, used') \<Longrightarrow> e \<noteq> Allowed"
  by (auto simp: check_used_providers_def split: if_splits provider_test_mode.splits)

lemma check_limits_real:
  assumes "gr_enabled c" "gi_is_real_provider i"
  shows "check_limits c i = Some d \<Longrightarrow> d \<noteq> Allowed" and "check_limits c i = None \<Longrightarrow> call_permitted c i"
  using assms by (auto simp: check_limits_def call_permitted_def split: if_splits option.splits)

text \<open>A real call is refused outright, or by the block on provider names, or by the budget, or it passes.\<close>

lemma check_provider_call_cases:
  assumes "gr_enabled (ge_config g)" "gi_is_real_provider i" "check_provider_call g i = (d, g')"
  obtains (refused) "d \<noteq> Allowed" "g' = g"
    | (locked) used where "check_used_providers (ge_config g) (provider_key i) (ge_used_real_providers g) = (Some d, used)"
        "d \<noteq> Allowed" "g' = g\<lparr>ge_used_real_providers := used\<rparr>"
    | (spent) used where "check_used_providers (ge_config g) (provider_key i) (ge_used_real_providers g) = (None, used)"
        "d \<noteq> Allowed" "g' = g\<lparr>ge_used_real_providers := used\<rparr>"
    | (passed) used b where "check_used_providers (ge_config g) (provider_key i) (ge_used_real_providers g) = (None, used)"
        "d = Allowed" "call_permitted (ge_config g) i" "try_consume (ge_budget g) = (True, b)"
        "g' = g\<lparr>ge_used_real_providers := used, ge_budget := b\<rparr>"
proof -
  obtain early used where u: "check_used_providers (ge_config g) (provider_key i) (ge_used_real_providers g) = (early, used)"
    by fastforce
  obtain ok b where b: "try_consume (ge_budget g) = (ok, b)" by fastforce
  have same: "\<not> ok \<Longrightarrow> b = ge_budget g" using b by (auto simp: try_consume_def split: if_splits)
  note limits = check_limits_real [OF assms(1,2)]
  show thesis
  proof (cases "check_limits (ge_config g) i")
    case (Some e)
    with assms(3) have "e = d" "g' = g" by (simp_all add: check_provider_call_def)
    with Some limits(1) show thesis by (intro refused) simp_all
  next
    case None
    then have run: "check_provider_call g i =
        (case early of Some e \<Rightarrow> (e, g\<lparr>ge_used_real_providers := used\<rparr>)
         | None \<Rightarrow> if \<not> ok then (Blocked ''call_budget_exhausted''
               (''provider call budget exhausted ('' @ show_nat (bu_used_calls b) @ ''/'' @ show_nat (bu_max_calls_per_run b) @ '')''),
             g\<lparr>ge_used_real_providers := used, ge_budget := b\<rparr>)
           else (Allowed, g\<lparr>ge_used_real_providers := used, ge_budget := b\<rparr>))"
      using u b by (simp add: check_provider_call_def provider_key_def Let_def split: option.split)
    show thesis
    proof (cases early)
      case (Some e)
      with run assms(3) u have "e = d" "g' = g\<lparr>ge_used_real_providers := used\<rparr>" by simp_all
      with Some u have "check_used_providers (ge_config g) (provider_key i) (ge_used_real_providers g) = (Some d, used)" by simp
      moreover from check_used_not_allowed [OF this] have "d \<noteq> Allowed" .
      ultimately show thesis using \<open>g' = g\<lparr>ge_used_real_providers := used\<rparr>\<close> by (rule locked)
    next
      case none: None
      show thesis
      proof (cases ok)
        case True
        with none run assms(3) u b limits(2) [OF None] show thesis by (intro passed [of used b]) simp_all
      next
        case False
        with none run assms(3) u same show thesis by (intro spent [of used]) auto
      qed
    qed
  qed
qed

lemma check_provider_call_mock: "gr_enabled (ge_config g) \<Longrightarrow> \<not> gi_is_real_provider i \<Longrightarrow> check_provider_call g i = (Allowed, g)"
  by (simp add: check_provider_call_def check_limits_def)

lemma check_provider_call_inv:
  assumes "enforcer_inv c g" "gr_enabled c" "check_provider_call g i = (d, g')"
  shows "enforcer_inv c g' \<and>
    bu_used_calls (ge_budget g') = bu_used_calls (ge_budget g) + (if d = Allowed \<and> gi_is_real_provider i then 1 else 0) \<and>
    (d = Allowed \<and> gi_is_real_provider i \<longrightarrow> call_permitted c i)"
proof (cases "gi_is_real_provider i")
  case True
  have c: "ge_config g = c" and en: "gr_enabled (ge_config g)" using assms(1,2) by (simp_all add: enforcer_inv_def)
  from en True assms(3) show ?thesis
  proof (cases rule: check_provider_call_cases)
    case (passed used b)
    with assms(1) c True check_used_single(1) [of c "ge_used_real_providers g"] show ?thesis
      by (auto simp: enforcer_inv_def try_consume_def split: if_splits)
  qed (use assms(1) c check_used_single(1) [of c "ge_used_real_providers g"] in \<open>auto simp: enforcer_inv_def\<close>)
qed (use assms check_provider_call_mock [of g i] in \<open>auto simp: enforcer_inv_def\<close>)

lemma admitted_bounded:
  assumes "enforcer_inv c g" "gr_enabled c"
  shows "length (admitted g is) + bu_used_calls (ge_budget g) \<le> gr_max_calls_per_run c \<and> (\<forall>i \<in> set (admitted g is). call_permitted c i)"
  using assms(1)
proof (induction "is" arbitrary: g)
  case Nil
  then show ?case by (simp add: enforcer_inv_def)
next
  case (Cons i "is")
  obtain d g' where d: "check_provider_call g i = (d, g')" by fastforce
  from check_provider_call_inv [OF Cons.prems assms(2) d] Cons.IH [of g'] d show ?case by (auto split: if_splits)
qed

text \<open>Which calls pass, exactly. A call is eligible when the configuration permits it.\<close>

definition eligible :: "provider_guardrail_config \<Rightarrow> provider_call_guard_input \<Rightarrow> bool" where
  "eligible c i \<longleftrightarrow> gi_is_real_provider i \<and> call_permitted c i"

lemma check_limits_eligible: "gr_enabled c \<Longrightarrow> eligible c i \<Longrightarrow> check_limits c i = None"
  by (auto simp: check_limits_def eligible_def call_permitted_def split: option.splits)

lemma check_ineligible:
  assumes "gr_enabled (ge_config g)" "\<not> eligible (ge_config g) i"
  shows "\<exists>d. check_provider_call g i = (d, g) \<and> \<not> (d = Allowed \<and> gi_is_real_provider i)"
proof (cases "gi_is_real_provider i")
  case True
  with assms check_limits_real [OF assms(1) True] obtain d where "check_limits (ge_config g) i = Some d" "d \<noteq> Allowed"
    by (cases "check_limits (ge_config g) i") (auto simp: eligible_def)
  then show ?thesis by (simp add: check_provider_call_def)
qed (use assms check_provider_call_mock in auto)

text \<open>An eligible call whose provider is not locked out consumes the budget, or finds it spent.\<close>

lemma check_eligible:
  assumes "gr_enabled (ge_config g)" "eligible (ge_config g) i"
    and "check_used_providers (ge_config g) (provider_key i) (ge_used_real_providers g) = (None, used)"
    and "check_provider_call g i = (d, g')" "bu_used_calls (ge_budget g) \<le> bu_max_calls_per_run (ge_budget g)"
  shows "ge_used_real_providers g' = used" "ge_config g' = ge_config g"
    "if bu_used_calls (ge_budget g) < bu_max_calls_per_run (ge_budget g)
     then d = Allowed \<and> ge_budget g' = (ge_budget g)\<lparr>bu_used_calls := bu_used_calls (ge_budget g) + 1\<rparr>
     else d \<noteq> Allowed \<and> ge_budget g' = ge_budget g"
  using assms check_limits_eligible [OF assms(1,2)]
  by (auto simp: check_provider_call_def provider_key_def try_consume_def Let_def split: if_splits)

lemma check_eligible_locked:
  assumes "gr_enabled (ge_config g)" "eligible (ge_config g) i"
    and "check_used_providers (ge_config g) (provider_key i) (ge_used_real_providers g) = (Some e, ge_used_real_providers g)"
  shows "check_provider_call g i = (e, g) \<and> e \<noteq> Allowed"
  using assms check_limits_eligible [OF assms(1,2)] check_used_not_allowed [OF assms(3)]
  by (simp add: check_provider_call_def provider_key_def Let_def)

lemma validated_confirmed:
  "validate_guardrail_config c = Inr () \<Longrightarrow> gr_test_mode c = MultiReal \<Longrightarrow>
     multi_provider_confirmed c \<and> gr_multi_provider_validation_enabled c"
  by (auto simp: validate_guardrail_config_def multi_provider_confirmed_def split: if_splits)

lemma check_used_open:
  assumes "gr_test_mode c = Production \<or> gr_test_mode c = MultiReal \<and> multi_provider_confirmed c"
  shows "\<exists>used'. check_used_providers c k used = (None, used')"
  using assms by (auto simp: check_used_providers_def multi_provider_confirmed_def)

lemma check_used_single_cases:
  assumes "gr_test_mode c = SingleReal"
  shows "check_used_providers c k [] = (None, [k])" "check_used_providers c k [k] = (None, [k])"
    "k \<noteq> k' \<Longrightarrow> \<exists>e. check_used_providers c k [k'] = (Some e, [k'])"
  using assms by (simp_all add: check_used_providers_def)

definition calls_left :: "guardrail_enforcer \<Rightarrow> nat" where
  "calls_left g = bu_max_calls_per_run (ge_budget g) - bu_used_calls (ge_budget g)"

text \<open>One call against a condition \<open>p\<close> under which calls of the sequence pass while the budget lasts.\<close>

lemma admitted_step:
  assumes "check_provider_call g i = (d, g')" and rest: "admitted g' is = take (calls_left g') (filter p is)"
    and "if p i \<and> 0 < calls_left g then d = Allowed \<and> gi_is_real_provider i \<and> Suc (calls_left g') = calls_left g
      else \<not> (d = Allowed \<and> gi_is_real_provider i) \<and> calls_left g' = calls_left g"
  shows "admitted g (i # is) = take (calls_left g) (filter p (i # is))"
proof (cases "p i \<and> 0 < calls_left g")
  case True
  with assms show ?thesis by (cases "calls_left g") auto
next
  case False
  with assms show ?thesis by (cases "p i") auto
qed

lemma enforcer_inv_step: "enforcer_inv c g \<Longrightarrow> gr_enabled c \<Longrightarrow> check_provider_call g i = (d, g') \<Longrightarrow> enforcer_inv c g'"
  using check_provider_call_inv by blast

lemma ineligible_step:
  assumes "enforcer_inv c g" "gr_enabled c" "\<not> p i" "\<not> eligible c i" "check_provider_call g i = (d, g')"
    and "admitted g is = take (calls_left g) (filter p is)"
  shows "admitted g (i # is) = take (calls_left g) (filter p (i # is))"
proof -
  have c: "ge_config g = c" using assms(1) by (simp add: enforcer_inv_def)
  obtain d1 where "check_provider_call g i = (d1, g)" "\<not> (d1 = Allowed \<and> gi_is_real_provider i)"
    using check_ineligible [of g i] assms(2,4) c by auto
  then show ?thesis using assms(3,6) by (intro admitted_step [of g i d1 g]) simp_all
qed

lemma eligible_calls_left:
  assumes "enforcer_inv c g" "gr_enabled c" "eligible c i"
    and "check_used_providers c (provider_key i) (ge_used_real_providers g) = (None, used)" "check_provider_call g i = (d, g')"
  shows "if 0 < calls_left g then d = Allowed \<and> gi_is_real_provider i \<and> Suc (calls_left g') = calls_left g
    else \<not> (d = Allowed \<and> gi_is_real_provider i) \<and> calls_left g' = calls_left g"
  using assms(1,3) check_eligible(3) [of g i used d g'] assms(2,4,5)
  by (auto simp: enforcer_inv_def calls_left_def eligible_def split: if_splits)

lemma admitted_open:
  assumes "enforcer_inv c g" "gr_enabled c"
    and open_mode: "\<And>k used. gr_test_mode c \<noteq> MockOnly \<Longrightarrow> \<exists>used'. check_used_providers c k used = (None, used')"
  shows "admitted g is = take (calls_left g) (filter (eligible c) is)"
  using assms(1)
proof (induction "is" arbitrary: g)
  case (Cons i "is")
  obtain d g' where d: "check_provider_call g i = (d, g')" by fastforce
  have inv: "enforcer_inv c g'" by (rule enforcer_inv_step [OF Cons.prems assms(2) d])
  show ?case
  proof (cases "eligible c i")
    case False
    then show ?thesis using ineligible_step [OF Cons.prems assms(2) _ False d] Cons.IH [OF Cons.prems] by blast
  next
    case True
    then have "gr_test_mode c \<noteq> MockOnly" by (simp add: eligible_def call_permitted_def)
    from open_mode [OF this] obtain used where
        "check_used_providers c (provider_key i) (ge_used_real_providers g) = (None, used)" by blast
    from eligible_calls_left [OF Cons.prems assms(2) True this d] True show ?thesis
      by (intro admitted_step [OF d Cons.IH [OF inv]]) simp
  qed
qed simp

lemma admitted_locked:
  assumes "enforcer_inv c g" "gr_enabled c" "gr_test_mode c = SingleReal" "ge_used_real_providers g = [k]"
  shows "admitted g is = take (calls_left g) (filter (\<lambda>i. eligible c i \<and> provider_key i = k) is)"
  using assms(1,4)
proof (induction "is" arbitrary: g)
  case (Cons i "is")
  obtain d g' where d: "check_provider_call g i = (d, g')" by fastforce
  have inv: "enforcer_inv c g'" by (rule enforcer_inv_step [OF Cons.prems(1) assms(2) d])
  have c: "ge_config g = c" using Cons.prems(1) by (simp add: enforcer_inv_def)
  consider "\<not> eligible c i" | "eligible c i" "provider_key i = k" | "eligible c i" "provider_key i \<noteq> k" by blast
  then show ?case
  proof cases
    case 1
    then show ?thesis using ineligible_step [OF Cons.prems(1) assms(2) _ 1 d] Cons.IH [OF Cons.prems] by simp
  next
    case 2
    then have u: "check_used_providers c (provider_key i) (ge_used_real_providers g) = (None, [k])"
      using check_used_single_cases(2) [OF assms(3)] Cons.prems(2) by simp
    have "bu_used_calls (ge_budget g) \<le> bu_max_calls_per_run (ge_budget g)" using Cons.prems(1) by (simp add: enforcer_inv_def)
    with check_eligible(1) [of g i "[k]" d g'] c assms(2) 2 u d have "ge_used_real_providers g' = [k]" by simp
    from eligible_calls_left [OF Cons.prems(1) assms(2) 2(1) u d] 2 show ?thesis
      by (intro admitted_step [OF d Cons.IH [OF inv \<open>ge_used_real_providers g' = [k]\<close>]]) simp
  next
    case 3
    then obtain e where "check_used_providers c (provider_key i) (ge_used_real_providers g) = (Some e, ge_used_real_providers g)"
      using check_used_single_cases(3) [OF assms(3), of "provider_key i" k] Cons.prems(2) by auto
    from check_eligible_locked [of g i e] c assms(2) 3 this have "check_provider_call g i = (e, g)" "e \<noteq> Allowed" by simp_all
    with 3 show ?thesis by (intro admitted_step [OF _ Cons.IH [OF Cons.prems]]) auto
  qed
qed simp

text \<open>In \<open>single_real\<close> mode the provider of the first eligible call is the one.\<close>

definition first_provider :: "provider_guardrail_config \<Rightarrow> provider_call_guard_input list \<Rightarrow> string" where
  "first_provider c calls = provider_key (hd (filter (eligible c) calls))"

lemma admitted_single:
  assumes "enforcer_inv c g" "gr_enabled c" "gr_test_mode c = SingleReal" "ge_used_real_providers g = []"
  shows "admitted g is = take (calls_left g) (filter (\<lambda>i. eligible c i \<and> provider_key i = first_provider c is) is)"
proof (induction "is")
  case (Cons i "is")
  obtain d g' where d: "check_provider_call g i = (d, g')" by fastforce
  have c: "ge_config g = c" using assms(1) by (simp add: enforcer_inv_def)
  show ?case
  proof (cases "eligible c i")
    case False
    then have "first_provider c (i # is) = first_provider c is" by (simp add: first_provider_def)
    with ineligible_step [OF assms(1,2) _ False d] Cons.IH False show ?thesis by simp
  next
    case True
    have u: "check_used_providers c (provider_key i) (ge_used_real_providers g) = (None, [provider_key i])"
      using check_used_single_cases(1) [OF assms(3)] assms(4) by simp
    have "bu_used_calls (ge_budget g) \<le> bu_max_calls_per_run (ge_budget g)" using assms(1) by (simp add: enforcer_inv_def)
    with check_eligible(1) [of g i "[provider_key i]" d g'] c assms(2) True u d
    have used: "ge_used_real_providers g' = [provider_key i]" by simp
    have "first_provider c (i # is) = provider_key i" using True by (simp add: first_provider_def)
    with eligible_calls_left [OF assms(1,2) True u d] True show ?thesis
      by (intro admitted_step [OF d]) (simp_all add: admitted_locked [OF enforcer_inv_step [OF assms(1,2) d] assms(2,3) used])
  qed
qed simp

text \<open>The guardrails after a sequence of checks.\<close>

fun guard_after :: "guardrail_enforcer \<Rightarrow> provider_call_guard_input list \<Rightarrow> guardrail_enforcer" where
  "guard_after g [] = g"
| "guard_after g (i # is) = guard_after (snd (check_provider_call g i)) is"

lemma guard_after_inv: "enforcer_inv c g \<Longrightarrow> gr_enabled c \<Longrightarrow> enforcer_inv c (guard_after g is)"
  by (induction "is" arbitrary: g) (auto intro: enforcer_inv_step [OF _ _ prod.collapse [symmetric]])


text \<open>A staging configuration with a budget of two calls.\<close>

definition staging_config :: provider_guardrail_config where
  "staging_config = provider_guardrail_config_default
     \<lparr>gr_real_provider_calls_enabled := True, gr_test_mode := SingleReal, gr_max_calls_per_run := 2\<rparr>"

definition sample_call :: "string \<Rightarrow> provider_call_guard_input" where
  "sample_call name =
     \<lparr>gi_provider_name = name, gi_model_name = ''m'', gi_operation = ''llm_extract_facts'', gi_source = SmokeTest,
      gi_input_char_count = 40, gi_requested_output_tokens = Some 64, gi_is_real_provider = True\<rparr>"


end
