(* ===== verification/Provider_Router.thy ===== *)
theory Provider_Router
  imports Provider_Usage Provider_Call Circuit_Breaker Guardrails
begin

text \<open>
  \<^verbatim>\<open>crates/memcore-providers/src/routing\<close> and \<^verbatim>\<open>resilient/mod.rs\<close>: a call is offered to the
  configured providers in order. Guardrails, circuit, retries and usage recording are those of the other provider
  theories; the router passes its state through them. What a provider answers at an attempt is a parameter.
\<close>

section \<open>Types and metrics (\<open>types.rs\<close>, \<open>metrics.rs\<close>)\<close>

datatype provider_capability = LlmCapability | EmbeddingCapability | SummarizationCapability

fun capability_str :: "provider_capability \<Rightarrow> string" where
  "capability_str LlmCapability = ''llm''"
| "capability_str EmbeddingCapability = ''embedding''"
| "capability_str SummarizationCapability = ''summarization''"

definition circuit_key :: "string \<Rightarrow> provider_capability \<Rightarrow> string \<Rightarrow> string" where
  "circuit_key name capability operation_name = capability_str capability @ '':'' @ name @ '':'' @ operation_name"

record provider_routing_metrics =
  rm_call_success :: u64
  rm_call_failure :: u64
  rm_fallback_attempted :: u64
  rm_fallback_succeeded :: u64
  rm_circuit_opened :: u64
  rm_circuit_blocked :: u64
  rm_circuit_half_opened :: u64
  rm_circuit_closed :: u64

definition provider_routing_metrics_default :: provider_routing_metrics where
  "provider_routing_metrics_default =
     \<lparr>rm_call_success = 0, rm_call_failure = 0, rm_fallback_attempted = 0, rm_fallback_succeeded = 0,
      rm_circuit_opened = 0, rm_circuit_blocked = 0, rm_circuit_half_opened = 0, rm_circuit_closed = 0\<rparr>"

definition record_call_success :: "provider_routing_metrics \<Rightarrow> provider_routing_metrics" where
  "record_call_success m = m\<lparr>rm_call_success := rm_call_success m + 1\<rparr>"

definition record_call_failure :: "provider_routing_metrics \<Rightarrow> provider_routing_metrics" where
  "record_call_failure m = m\<lparr>rm_call_failure := rm_call_failure m + 1\<rparr>"

definition record_fallback_attempted :: "provider_routing_metrics \<Rightarrow> provider_routing_metrics" where
  "record_fallback_attempted m = m\<lparr>rm_fallback_attempted := rm_fallback_attempted m + 1\<rparr>"

definition record_fallback_succeeded :: "provider_routing_metrics \<Rightarrow> provider_routing_metrics" where
  "record_fallback_succeeded m = m\<lparr>rm_fallback_succeeded := rm_fallback_succeeded m + 1\<rparr>"

definition record_circuit_opened :: "provider_routing_metrics \<Rightarrow> provider_routing_metrics" where
  "record_circuit_opened m = m\<lparr>rm_circuit_opened := rm_circuit_opened m + 1\<rparr>"

definition record_circuit_blocked :: "provider_routing_metrics \<Rightarrow> provider_routing_metrics" where
  "record_circuit_blocked m = m\<lparr>rm_circuit_blocked := rm_circuit_blocked m + 1\<rparr>"

definition record_circuit_half_opened :: "provider_routing_metrics \<Rightarrow> provider_routing_metrics" where
  "record_circuit_half_opened m = m\<lparr>rm_circuit_half_opened := rm_circuit_half_opened m + 1\<rparr>"

section \<open>The router (\<open>router.rs\<close>)\<close>

text \<open>\<open>ca_token_usage_slot\<close> is the address of the slot a provider publishes its token usage in.\<close>

record 'p provider_candidate =
  ca_name :: string
  ca_provider :: 'p
  ca_model_name :: "string option"
  ca_token_usage_slot :: "nat option"

record provider_router =
  ro_breaker :: circuit_breaker_config
  ro_policy :: provider_execution_policy
  ro_cost_tracking_enabled :: bool
  ro_new_v4 :: "nat \<Rightarrow> uuid"
  ro_utc_now :: "nat \<Rightarrow> datetime"

text \<open>The shared state: what is behind the \<open>Arc\<close>s, each absent component \<open>None\<close>. \<open>rs_tick\<close> counts the
  clock readings and the fresh identifiers.\<close>

record router_state =
  rs_circuits :: circuits
  rs_metrics :: "provider_routing_metrics option"
  rs_usage_recorder :: "usage_recorder option"
  rs_attribution :: "provider_usage_attribution option"
  rs_guardrails :: "guardrail_enforcer option"
  rs_call_source :: "provider_call_source option"
  rs_slots :: "nat \<Rightarrow> provider_token_usage option"
  rs_tick :: nat

definition on_routing_metrics ::
  "(provider_routing_metrics \<Rightarrow> provider_routing_metrics) \<Rightarrow> 'z router_state_scheme \<Rightarrow> 'z router_state_scheme" where
  "on_routing_metrics f s = s\<lparr>rs_metrics := map_option f (rs_metrics s)\<rparr>"

fun usage_capability :: "provider_capability \<Rightarrow> provider_usage_capability" where
  "usage_capability LlmCapability = Llm"
| "usage_capability EmbeddingCapability = Embedding"
| "usage_capability SummarizationCapability = Summarization"

text \<open>Recording takes the token usage out of the slot, so that it is never counted twice.\<close>

definition record_usage ::
  "provider_router \<Rightarrow> provider_capability \<Rightarrow> string \<Rightarrow> 'p provider_candidate \<Rightarrow> provider_call_status \<Rightarrow> nat \<Rightarrow> bool \<Rightarrow> bool \<Rightarrow> bool \<Rightarrow>
   'z router_state_scheme \<Rightarrow> 'z router_state_scheme" where
  "record_usage ro capability operation_name c status retry_count fallback_used circuit_blocked timed_out s =
     (case rs_usage_recorder s of
        None \<Rightarrow> s
      | Some recorder \<Rightarrow>
          let usage = Option.bind (ca_token_usage_slot c) (rs_slots s);
              input_tokens = Option.bind usage tu_input_tokens;
              output_tokens = Option.bind usage tu_output_tokens;
              e = \<lparr>ev_org_id = map_option at_org_id (rs_attribution s),
                   ev_user_id = Option.bind (rs_attribution s) at_user_id,
                   ev_provider_name = ca_name c, ev_model_name = ca_model_name c,
                   ev_capability = usage_capability capability, ev_operation_name = operation_name, ev_status = status,
                   ev_input_tokens = input_tokens, ev_output_tokens = output_tokens,
                   ev_retry_count = word_of_nat retry_count, ev_fallback_used = fallback_used,
                   ev_circuit_blocked = circuit_blocked, ev_timed_out = timed_out,
                   ev_estimated_cost_usd = estimate_event_cost (ro_cost_tracking_enabled ro) (ca_name c) (ca_model_name c)
                     (usage_capability capability) input_tokens output_tokens\<rparr>
          in s\<lparr>rs_usage_recorder := Some (record_request (ro_new_v4 ro (rs_tick s)) (ro_utc_now ro (rs_tick s)) e recorder),
               rs_slots := (case ca_token_usage_slot c of None \<Rightarrow> rs_slots s | Some a \<Rightarrow> (rs_slots s)(a := None)),
               rs_tick := rs_tick s + 1\<rparr>)"

definition guard_call ::
  "string \<Rightarrow> provider_call_source \<Rightarrow> nat \<Rightarrow> nat option \<Rightarrow> 'p provider_candidate \<Rightarrow> ('z router_state_scheme, memcore_error, unit) comp" where
  "guard_call operation_name source input_char_count requested_output_tokens c s =
     (case rs_guardrails s of
        None \<Rightarrow> (Inr (), s)
      | Some g \<Rightarrow>
          let (r, g') = decide_or_error g
                \<lparr>gi_provider_name = ca_name c, gi_model_name = (case ca_model_name c of None \<Rightarrow> [] | Some m \<Rightarrow> m),
                 gi_operation = operation_name, gi_source = source, gi_input_char_count = input_char_count,
                 gi_requested_output_tokens = requested_output_tokens,
                 gi_is_real_provider = is_real_provider_name (ca_name c)\<rparr>
          in (r, s\<lparr>rs_guardrails := Some g'\<rparr>))"

definition allow_call :: "provider_router \<Rightarrow> string \<Rightarrow> ('z router_state_scheme, memcore_error, circuit_state) comp" where
  "allow_call ro key s =
     (let (r, m) = check_allow (ro_breaker ro) key (ro_utc_now ro (rs_tick s)) (rs_circuits s)
      in (r, s\<lparr>rs_circuits := m, rs_tick := rs_tick s + 1\<rparr>))"

text \<open>A health failure counts against the circuit; a failure that opens it is counted by the metrics.\<close>

definition fail_circuit :: "provider_router \<Rightarrow> string \<Rightarrow> 'z router_state_scheme \<Rightarrow> 'z router_state_scheme" where
  "fail_circuit ro key s =
     (let b = ro_breaker ro; m = rs_circuits s;
          m' = record_failure b key (ro_utc_now ro (rs_tick s)) m;
          s' = s\<lparr>rs_circuits := m', rs_tick := rs_tick s + 1\<rparr>
      in if sn_state (circuit_snapshot b key m) \<noteq> sn_state (circuit_snapshot b key m') \<and>
            sn_state (circuit_snapshot b key m') = Open
         then on_routing_metrics record_circuit_opened s' else s')"

text \<open>The body of the loop for one candidate: it returns from the function, or goes on with a last error.\<close>

datatype 'a visit = Return "'a memcore_result" | Proceed memcore_error

definition visit_candidate ::
  "provider_router \<Rightarrow> provider_capability \<Rightarrow> string \<Rightarrow> provider_call_source \<Rightarrow> nat \<Rightarrow> nat option \<Rightarrow>
   ('p \<Rightarrow> nat option \<Rightarrow> 'z router_state_scheme \<Rightarrow> 'a attempt \<times> 'z router_state_scheme) \<Rightarrow> nat \<Rightarrow> 'p provider_candidate \<Rightarrow>
   'z router_state_scheme \<Rightarrow> 'a visit \<times> 'z router_state_scheme" where
  "visit_candidate ro capability operation_name source input_char_count requested_output_tokens call index c s =
     (let key = circuit_key (ca_name c) capability operation_name;
          fallback_used = (0 < index);
          use = (\<lambda>status retries blocked timed_out. record_usage ro capability operation_name c status retries fallback_used blocked timed_out)
      in case guard_call operation_name source input_char_count requested_output_tokens c s of
           (Inl e, s1) \<Rightarrow> (Return (Inl e), use CallError 0 False False s1)
         | (Inr _, s1) \<Rightarrow>
             (case allow_call ro key s1 of
                (Inl e, s2) \<Rightarrow> (Proceed e, use CallError 0 True False (on_routing_metrics record_circuit_blocked s2))
              | (Inr _, s2) \<Rightarrow>
                  let s3 = (if sn_state (circuit_snapshot (ro_breaker ro) key (rs_circuits s2)) = HalfOpen
                            then on_routing_metrics record_circuit_half_opened s2 else s2)
                  in case execute_provider_call operation_name (ro_policy ro) (call (ca_provider c) (ca_token_usage_slot c)) s3 of
                       (Inr out, s4) \<Rightarrow>
                         let s5 = s4\<lparr>rs_circuits := record_success (ro_breaker ro) key (rs_circuits s4)\<rparr>;
                             s6 = on_routing_metrics (\<lambda>m. if 0 < index then record_fallback_succeeded (record_call_success m)
                                                          else record_call_success m) s5
                         in (Return (Inr (eo_value out)), use CallSuccess (eo_retries out) False (eo_timed_out out) s6)
                     | (Inl f, s4) \<Rightarrow>
                         let s5 = on_routing_metrics record_call_failure s4;
                             health = is_provider_health_failure (ef_error f);
                             s6 = (if health then fail_circuit ro key s5 else s5);
                             s7 = use CallError (ef_retries f) False (ef_timed_out f) s6
                         in (if health then Proceed (ef_error f) else Return (Inl (ef_error f)), s7)))"

definition all_failed :: "string \<Rightarrow> memcore_error option \<Rightarrow> memcore_error" where
  "all_failed operation_name last_error =
     (case last_error of
        Some e \<Rightarrow>
          if is_provider_circuit_open e then e
          else if \<not> is_provider_health_failure e then e
          else ProviderError (operation_name @ '' failed for all configured providers: '' @ error_message e)
      | None \<Rightarrow> ProviderError (operation_name @ '' failed: all provider circuits are open''))"

text \<open>The loop breaks after the last candidate. A first fallback is counted once, when it is about to be tried.\<close>

fun route_loop ::
  "provider_router \<Rightarrow> provider_capability \<Rightarrow> string \<Rightarrow> provider_call_source \<Rightarrow> bool \<Rightarrow> nat \<Rightarrow> nat option \<Rightarrow>
   ('p \<Rightarrow> nat option \<Rightarrow> 'z router_state_scheme \<Rightarrow> 'a attempt \<times> 'z router_state_scheme) \<Rightarrow> 'p provider_candidate list \<Rightarrow> nat \<Rightarrow>
   memcore_error option \<Rightarrow> ('z router_state_scheme, memcore_error, 'a) comp" where
  "route_loop ro capability operation_name source fallback_enabled n requested call [] index last_error s =
     (Inl (all_failed operation_name last_error), s)"
| "route_loop ro capability operation_name source fallback_enabled n requested call (c # cs) index last_error s =
     (case visit_candidate ro capability operation_name source n requested call index c s of
        (Return r, s') \<Rightarrow> (r, s')
      | (Proceed e, s') \<Rightarrow>
          if \<not> fallback_enabled \<or> cs = [] then (Inl (all_failed operation_name (Some e)), s')
          else route_loop ro capability operation_name source fallback_enabled n requested call cs (index + 1) (Some e)
                 (if index = 0 then on_routing_metrics record_fallback_attempted s' else s'))"

definition execute_with_fallback ::
  "provider_router \<Rightarrow> provider_capability \<Rightarrow> string \<Rightarrow> bool \<Rightarrow> 'p provider_candidate list \<Rightarrow> nat \<Rightarrow> nat option \<Rightarrow>
   ('p \<Rightarrow> nat option \<Rightarrow> 'z router_state_scheme \<Rightarrow> 'a attempt \<times> 'z router_state_scheme) \<Rightarrow> ('z router_state_scheme, memcore_error, 'a) comp" where
  "execute_with_fallback ro capability operation_name fallback_enabled candidates input_char_count requested_output_tokens call s =
     (if candidates = [] then (Inl (Internal ''no provider candidates configured''), s)
      else
        let providers_to_try = (if fallback_enabled then candidates else take 1 candidates);
            source = (case rs_call_source s of None \<Rightarrow> ApiRequest | Some c \<Rightarrow> c)
        in route_loop ro capability operation_name source fallback_enabled input_char_count requested_output_tokens call
             providers_to_try 0 None s)"

section \<open>Resilient providers (\<open>resilient/mod.rs\<close>)\<close>

text \<open>
  The closure handed to the router: the provider is asked, and an estimate of the tokens goes into the slot only
  after a success. The answers of a provider are a function of the tick and of the input.
\<close>

definition ask_provider ::
  "(nat \<Rightarrow> 'p \<Rightarrow> 'a attempt) \<Rightarrow> provider_token_usage \<Rightarrow> 'p \<Rightarrow> nat option \<Rightarrow> 'z router_state_scheme \<Rightarrow> 'a attempt \<times> 'z router_state_scheme" where
  "ask_provider answer usage p slot s =
     (let a = answer (rs_tick s) p; s1 = s\<lparr>rs_tick := rs_tick s + 1\<rparr>
      in (a, case (a, slot) of
               (Answered (Inr _), Some addr) \<Rightarrow> s1\<lparr>rs_slots := (rs_slots s1)(addr := Some usage)\<rparr>
             | _ \<Rightarrow> s1))"

record 'p resilient_llm_provider =
  rl_providers :: "'p provider_candidate list"
  rl_summarizer_providers :: "'p provider_candidate list"
  rl_router :: provider_router
  rl_fallback_enabled :: bool

definition messages_char_count :: "memory_message list \<Rightarrow> nat" where
  "messages_char_count messages = sum_list (map (\<lambda>m. length (msg_content m)) messages)"

definition resilient_extract_facts ::
  "'p resilient_llm_provider \<Rightarrow> (nat \<Rightarrow> 'p \<Rightarrow> tenant_context \<Rightarrow> memory_message list \<Rightarrow> json \<Rightarrow> candidate_fact list attempt) \<Rightarrow>
   tenant_context \<Rightarrow> memory_message list \<Rightarrow> json \<Rightarrow> (router_state, memcore_error, candidate_fact list) comp" where
  "resilient_extract_facts rl extract tenant messages metadata =
     execute_with_fallback (rl_router rl) LlmCapability ''llm_extract_facts'' (rl_fallback_enabled rl) (rl_providers rl)
       (messages_char_count messages) None
       (ask_provider (\<lambda>n p. extract n p tenant messages metadata) (estimate_llm_extraction_tokens messages))"

definition resilient_classify_fact_operation ::
  "'p resilient_llm_provider \<Rightarrow> (nat \<Rightarrow> 'p \<Rightarrow> tenant_context \<Rightarrow> candidate_fact \<Rightarrow> fact list \<Rightarrow> fact_operation_decision attempt) \<Rightarrow>
   tenant_context \<Rightarrow> candidate_fact \<Rightarrow> fact list \<Rightarrow> (router_state, memcore_error, fact_operation_decision) comp" where
  "resilient_classify_fact_operation rl classify tenant candidate existing =
     execute_with_fallback (rl_router rl) LlmCapability ''llm_classify_fact_operation'' (rl_fallback_enabled rl) (rl_providers rl)
       (length (c_content candidate) + sum_list (map (\<lambda>f. length (f_content f)) existing)) None
       (ask_provider (\<lambda>n p. classify n p tenant candidate existing)
          (estimate_llm_classification_tokens (c_content candidate) (length existing)))"

definition resilient_summarize_memory ::
  "'p resilient_llm_provider \<Rightarrow> (nat \<Rightarrow> 'p \<Rightarrow> tenant_context \<Rightarrow> fact list \<Rightarrow> nat option \<Rightarrow> string attempt) \<Rightarrow>
   tenant_context \<Rightarrow> fact list \<Rightarrow> nat option \<Rightarrow> (router_state, memcore_error, string) comp" where
  "resilient_summarize_memory rl summarize tenant facts max_tokens =
     execute_with_fallback (rl_router rl) SummarizationCapability ''llm_summarize_memory'' (rl_fallback_enabled rl)
       (if rl_summarizer_providers rl = [] then rl_providers rl else rl_summarizer_providers rl)
       (sum_list (map (\<lambda>f. length (f_content f)) facts)) max_tokens
       (ask_provider (\<lambda>n p. summarize n p tenant facts max_tokens) (estimate_llm_summarization_tokens facts max_tokens))"

record 'p resilient_embedding_provider =
  rb_providers :: "'p provider_candidate list"
  rb_router :: provider_router
  rb_fallback_enabled :: bool
  rb_dimensions :: nat

text \<open>\<open>dimensions\<close> is the provider's own.\<close>

definition resilient_embedding_provider_new ::
  "('p \<Rightarrow> nat) \<Rightarrow> 'p provider_candidate list \<Rightarrow> provider_router \<Rightarrow> bool \<Rightarrow> 'p resilient_embedding_provider memcore_result" where
  "resilient_embedding_provider_new dimensions providers router fallback_enabled =
     (case providers of
        [] \<Rightarrow> Inl (ValidationError ''at least one embedding provider is required'')
      | c # cs \<Rightarrow>
          if \<exists>d \<in> set cs. dimensions (ca_provider d) \<noteq> dimensions (ca_provider c)
          then Inl (ValidationError ''all embedding providers in fallback order must share the same dimensions'')
          else Inr \<lparr>rb_providers = providers, rb_router = router, rb_fallback_enabled = fallback_enabled,
                    rb_dimensions = dimensions (ca_provider c)\<rparr>)"

definition resilient_embed_text ::
  "'p resilient_embedding_provider \<Rightarrow> (nat \<Rightarrow> 'p \<Rightarrow> string \<Rightarrow> f32 list attempt) \<Rightarrow> string \<Rightarrow>
   (router_state, memcore_error, f32 list) comp" where
  "resilient_embed_text rb emb text =
     execute_with_fallback (rb_router rb) EmbeddingCapability ''embedding_embed_text'' (rb_fallback_enabled rb) (rb_providers rb)
       (length text) None (ask_provider (\<lambda>n p. emb n p text) (estimate_embedding_tokens text))"

definition resilient_embed_batch ::
  "'p resilient_embedding_provider \<Rightarrow> (nat \<Rightarrow> 'p \<Rightarrow> string list \<Rightarrow> f32 list list attempt) \<Rightarrow> string list \<Rightarrow>
   (router_state, memcore_error, f32 list list) comp" where
  "resilient_embed_batch rb emb texts =
     execute_with_fallback (rb_router rb) EmbeddingCapability ''embedding_embed_batch'' (rb_fallback_enabled rb) (rb_providers rb)
       (sum_list (map length texts)) None (ask_provider (\<lambda>n p. emb n p texts) (estimate_embedding_batch_tokens texts))"

section \<open>What a visit leaves alone\<close>

lemma on_routing_metrics_frame [simp]:
  "rs_circuits (on_routing_metrics f s) = rs_circuits s" "rs_guardrails (on_routing_metrics f s) = rs_guardrails s"
  "router_state.more (on_routing_metrics f s) = router_state.more s" "rs_tick (on_routing_metrics f s) = rs_tick s"
  by (simp_all add: on_routing_metrics_def)

lemma record_usage_frame [simp]:
  "rs_circuits (record_usage ro cap op c st n fb cb t s) = rs_circuits s"
  "rs_guardrails (record_usage ro cap op c st n fb cb t s) = rs_guardrails s"
  "router_state.more (record_usage ro cap op c st n fb cb t s) = router_state.more s"
  by (simp_all add: record_usage_def Let_def split: option.split)

lemma fail_circuit_frame [simp]:
  "rs_circuits (fail_circuit ro k s) = record_failure (ro_breaker ro) k (ro_utc_now ro (rs_tick s)) (rs_circuits s)"
  "rs_guardrails (fail_circuit ro k s) = rs_guardrails s" "router_state.more (fail_circuit ro k s) = router_state.more s"
  by (simp_all add: fail_circuit_def Let_def)

lemma guard_call_frame:
  assumes "guard_call op src n req c s = (r, s')"
  shows "rs_circuits s' = rs_circuits s" "router_state.more s' = router_state.more s" "rs_guardrails s = None \<Longrightarrow> r = Inr () \<and> s' = s"
  using assms by (auto simp: guard_call_def Let_def split: option.splits prod.splits)

lemma allow_call_frame:
  assumes "allow_call ro k s = (r, s')"
  shows "rs_guardrails s' = rs_guardrails s" "router_state.more s' = router_state.more s"
    "(r, rs_circuits s') = check_allow (ro_breaker ro) k (ro_utc_now ro (rs_tick s)) (rs_circuits s)"
  using assms by (auto simp: allow_call_def split: prod.splits)

text \<open>A property of the state that every attempt keeps is kept by the whole call.\<close>

lemma attempt_loop_keeps:
  assumes "\<And>s. f (snd (oper s)) = f s"
  shows "f (snd (attempt_loop p oper n k t le s)) = f s"
proof (induction n arbitrary: k t le s)
  case (Suc n)
  show ?case
    using Suc.IH assms [of s] by (cases "oper s") (auto split: attempt.splits sum.splits)
qed simp

lemma execute_provider_call_keeps:
  assumes "\<And>s. f (snd (oper s)) = f s"
  shows "f (snd (execute_provider_call op p oper s)) = f s"
  using attempt_loop_keeps [of f oper, OF assms, of p "total_attempts p" 0 False None s]
  by (auto simp: execute_provider_call_def split: prod.splits sum.splits)

text \<open>When the answers do not depend on the state, neither does the outcome of the call.\<close>

lemma attempt_loop_const:
  assumes "\<And>s. fst (oper s) = a"
  shows "fst (attempt_loop p oper n k t le s) = fst (attempt_loop p (\<lambda>_. (a, ())) n k t le ())"
proof (induction n arbitrary: k t le s)
  case (Suc n)
  obtain s' where "oper s = (a, s')" using assms [of s] by (cases "oper s") simp
  with Suc.IH show ?case by (auto split: attempt.split sum.split)
qed simp

lemma execute_provider_call_const:
  assumes "\<And>s. fst (oper s) = a"
  shows "fst (execute_provider_call op p oper s) = fst (execute_provider_call op p (\<lambda>_. (a, ())) ())"
  using attempt_loop_const [of oper a, OF assms, of p "total_attempts p" 0 False None s]
  by (auto simp: execute_provider_call_def split: prod.splits sum.splits)

section \<open>Circuits of different providers\<close>

lemma circuit_key_inject [simp]: "circuit_key a cap op = circuit_key b cap op \<longleftrightarrow> a = b"
  by (simp add: circuit_key_def)

lemma check_allow_entry: "entry_of m k = entry_of m' k \<Longrightarrow> fst (check_allow c k now m) = fst (check_allow c k now m')"
  by (simp add: check_allow_def Let_def split: circuit_state.split)

lemma check_allow_other: "k' \<noteq> k \<Longrightarrow> entry_of (snd (check_allow c k now m)) k' = entry_of m k'"
  by (simp add: check_allow_def Let_def entry_of_upd split: circuit_state.split)

lemma record_other:
  "k' \<noteq> k \<Longrightarrow> entry_of (record_success c k m) k' = entry_of m k'"
  "k' \<noteq> k \<Longrightarrow> entry_of (record_failure c k now m) k' = entry_of m k'"
  by (simp_all add: record_success_def record_failure_def Let_def entry_of_upd)

lemma check_allow_error: "check_allow c k now m = (Inl e, m') \<Longrightarrow> e = provider_circuit_open"
  by (auto simp: check_allow_def Let_def split: if_splits circuit_state.splits)

section \<open>Fallback order\<close>

text \<open>
  For providers that answer every attempt alike: \<open>outcome\<close> is what the retried call of one gives, whatever the state;
  a candidate \<open>settles\<close> the request when that is a value or an error that says nothing about the provider's health.
\<close>

definition outcome ::
  "provider_router \<Rightarrow> string \<Rightarrow> 'a attempt \<Rightarrow> provider_execution_failure + 'a provider_execution_outcome" where
  "outcome ro operation_name a = fst (execute_provider_call operation_name (ro_policy ro) (\<lambda>_. (a, ())) ())"

definition result_of :: "provider_execution_failure + 'a provider_execution_outcome \<Rightarrow> 'a memcore_result" where
  "result_of r = (case r of Inr out \<Rightarrow> Inr (eo_value out) | Inl f \<Rightarrow> Inl (ef_error f))"

definition settles :: "'a memcore_result \<Rightarrow> bool" where
  "settles r = (case r of Inr _ \<Rightarrow> True | Inl e \<Rightarrow> \<not> is_provider_health_failure e)"

definition usable ::
  "provider_router \<Rightarrow> provider_capability \<Rightarrow> string \<Rightarrow> circuits \<Rightarrow> nat \<Rightarrow> 'p provider_candidate \<Rightarrow> bool" where
  "usable ro capability operation_name m t c \<longleftrightarrow>
     is_ok (fst (check_allow (ro_breaker ro) (circuit_key (ca_name c) capability operation_name) (ro_utc_now ro t) m))"

lemma visit_candidate_spec:
  assumes "rs_guardrails s = None"
    and "\<And>s. fst (call (ca_provider c) (ca_token_usage_slot c) s) = a"
    and "\<And>s. rs_circuits (snd (call (ca_provider c) (ca_token_usage_slot c) s)) = rs_circuits s"
    and "\<And>s. rs_guardrails (snd (call (ca_provider c) (ca_token_usage_slot c) s)) = rs_guardrails s"
    and "visit_candidate ro cap op src n req call index c s = (v, s')"
  defines "r \<equiv> result_of (outcome ro op a)" and "k \<equiv> circuit_key (ca_name c) cap op"
  shows "v = (if \<not> usable ro cap op (rs_circuits s) (rs_tick s) c then Proceed provider_circuit_open
              else if settles r then Return r else Proceed (projl r))"
    and "rs_guardrails s' = None" and "k' \<noteq> k \<Longrightarrow> entry_of (rs_circuits s') k' = entry_of (rs_circuits s) k'"
proof -
  have guard: "guard_call op src n req c s = (Inr (), s)" using assms(1) by (simp add: guard_call_def)
  obtain al s2 where al: "allow_call ro k s = (al, s2)" by fastforce
  note allow = allow_call_frame [OF al]
  have s2: "rs_guardrails s2 = None" "k' \<noteq> k \<Longrightarrow> entry_of (rs_circuits s2) k' = entry_of (rs_circuits s) k'"
    using allow assms(1) check_allow_other [of k' k] by (simp, metis snd_conv)
  have us: "usable ro cap op (rs_circuits s) (rs_tick s) c = is_ok al"
    unfolding usable_def k_def [symmetric] allow(3) [symmetric] by simp
  have "v = (if \<not> is_ok al then Proceed provider_circuit_open else if settles r then Return r else Proceed (projl r)) \<and>
    rs_guardrails s' = None \<and> (k' \<noteq> k \<longrightarrow> entry_of (rs_circuits s') k' = entry_of (rs_circuits s) k')"
  proof (cases al)
    case (Inl e)
    then have "e = provider_circuit_open" using allow(3) check_allow_error by (metis)
    with assms(5) guard al Inl s2 show ?thesis
      by (auto simp: visit_candidate_def k_def [symmetric] is_ok_def)
  next
    case (Inr st)
    define s3 where "s3 = (if sn_state (circuit_snapshot (ro_breaker ro) k (rs_circuits s2)) = HalfOpen
      then on_routing_metrics record_circuit_half_opened s2 else s2)"
    obtain ex s4 where ex: "execute_provider_call op (ro_policy ro) (call (ca_provider c) (ca_token_usage_slot c)) s3 = (ex, s4)"
      by fastforce
    have s4: "rs_circuits s4 = rs_circuits s2" "rs_guardrails s4 = None"
      using execute_provider_call_keeps [of rs_circuits, OF assms(3), of op "ro_policy ro" s3]
        execute_provider_call_keeps [of rs_guardrails, OF assms(4), of op "ro_policy ro" s3] ex s2(1)
      by (simp_all add: s3_def)
    have r: "r = result_of ex"
      using execute_provider_call_const [of "call (ca_provider c) (ca_token_usage_slot c)" a, OF assms(2), of op "ro_policy ro" s3] ex
      by (simp add: r_def outcome_def)
    show ?thesis
    proof (cases ex)
      case (Inl f)
      with assms(5) guard al Inr ex s4 s2(2) r show ?thesis
        by (auto simp: visit_candidate_def k_def [symmetric] s3_def [symmetric] is_ok_def result_of_def settles_def record_other Let_def)
    next
      case (Inr out)
      with assms(5) guard al \<open>al = Inr st\<close> ex s4 s2(2) r show ?thesis
        by (auto simp: visit_candidate_def k_def [symmetric] s3_def [symmetric] is_ok_def result_of_def settles_def record_other Let_def)
    qed
  qed
  then show "v = (if \<not> usable ro cap op (rs_circuits s) (rs_tick s) c then Proceed provider_circuit_open
              else if settles r then Return r else Proceed (projl r))"
    "rs_guardrails s' = None" "k' \<noteq> k \<Longrightarrow> entry_of (rs_circuits s') k' = entry_of (rs_circuits s) k'"
    by (simp_all add: us)
qed

lemma usable_entry:
  "entry_of m (circuit_key (ca_name c) cap op) = entry_of m' (circuit_key (ca_name c) cap op) \<Longrightarrow>
   usable ro cap op m t c = usable ro cap op m' t c"
  by (simp add: usable_def check_allow_entry [of m _ m'])

definition consistent ::
  "('p \<Rightarrow> nat option \<Rightarrow> 'z router_state_scheme \<Rightarrow> 'a attempt \<times> 'z router_state_scheme) \<Rightarrow> ('p provider_candidate \<Rightarrow> 'a attempt) \<Rightarrow>
   'p provider_candidate \<Rightarrow> bool" where
  "consistent call ans c \<longleftrightarrow>
     (\<forall>s. fst (call (ca_provider c) (ca_token_usage_slot c) s) = ans c \<and>
          rs_circuits (snd (call (ca_provider c) (ca_token_usage_slot c) s)) = rs_circuits s \<and>
          rs_guardrails (snd (call (ca_provider c) (ca_token_usage_slot c) s)) = rs_guardrails s)"

text \<open>The error a candidate leaves behind when the next one is tried.\<close>

definition passing_error :: "bool \<Rightarrow> 'a memcore_result \<Rightarrow> memcore_error" where
  "passing_error u r = (if u then projl r else provider_circuit_open)"

lemma route_loop_spec:
  assumes "\<And>c. c \<in> set cs \<Longrightarrow> consistent call ans c" and "\<And>c t. c \<in> set cs \<Longrightarrow> usable ro cap op (rs_circuits s) t c = u c"
    and "distinct (map ca_name cs)" and "cs \<noteq> []" and "fb \<or> length cs = 1" and "rs_guardrails s = None"
  shows "fst (route_loop ro cap op src fb n req call cs index le s) =
    (case find (\<lambda>c. u c \<and> settles (result_of (outcome ro op (ans c)))) cs of
       Some c \<Rightarrow> result_of (outcome ro op (ans c))
     | None \<Rightarrow> Inl (all_failed op (Some (passing_error (u (last cs)) (result_of (outcome ro op (ans (last cs))))))))"
  using assms
proof (induction cs arbitrary: index le s)
  case (Cons c cs)
  obtain v s1 where v: "visit_candidate ro cap op src n req call index c s = (v, s1)" by fastforce
  have cons: "consistent call ans c" using Cons.prems(1) by simp
  let ?r = "result_of (outcome ro op (ans c))"
  note visit = visit_candidate_spec [OF Cons.prems(6) _ _ _ v, of "ans c"]
  have vv: "v = (if \<not> u c then Proceed provider_circuit_open else if settles ?r then Return ?r else Proceed (projl ?r))"
    and g1: "rs_guardrails s1 = None"
    and other: "\<And>d. ca_name d \<noteq> ca_name c \<Longrightarrow> usable ro cap op (rs_circuits s1) t d = usable ro cap op (rs_circuits s) t d" for t
    using visit cons Cons.prems(2) [of c] by (auto simp: consistent_def intro!: usable_entry)
  define s2 where "s2 = (if index = 0 then on_routing_metrics record_fallback_attempted s1 else s1)"
  have s2: "rs_circuits s2 = rs_circuits s1" "rs_guardrails s2 = None" using g1 by (simp_all add: s2_def)
  show ?case
  proof (cases "u c \<and> settles ?r")
    case True
    with v vv show ?thesis by simp
  next
    case False
    then have pr: "v = Proceed (passing_error (u c) ?r)" using vv by (auto simp: passing_error_def)
    show ?thesis
    proof (cases "cs = []")
      case True
      with v pr False show ?thesis by auto
    next
      case ne: False
      have "fst (route_loop ro cap op src fb n req call cs (index + 1) (Some (passing_error (u c) ?r)) s2) =
        (case find (\<lambda>c. u c \<and> settles (result_of (outcome ro op (ans c)))) cs of
           Some c \<Rightarrow> result_of (outcome ro op (ans c))
         | None \<Rightarrow> Inl (all_failed op (Some (passing_error (u (last cs)) (result_of (outcome ro op (ans (last cs))))))))"
      proof (rule Cons.IH)
        show "usable ro cap op (rs_circuits s2) t d = u d" if "d \<in> set cs" for d t
        proof -
          have "ca_name d \<noteq> ca_name c" using Cons.prems(3) imageI [OF that, of ca_name] by auto
          from other [OF this] s2 Cons.prems(2) [of d] that show ?thesis by simp
        qed
      qed (use Cons.prems s2 ne in auto)
      with v pr False ne Cons.prems(5) show ?thesis unfolding last_ConsR [OF ne, of c] by (auto simp: s2_def)
    qed
  qed
qed simp

text \<open>C27: With guardrails off and providers that answer alike at every attempt, a request gets the answer of the first
  candidate, in configured order, whose circuit lets it through and whose retried call ends with a value or with an
  error that is not about the provider's health; candidates before it are passed over, those after it cannot change
  the answer. If there is none, the error tells of the last candidate. With fallback disabled only the first candidate
  counts. No circuit of one provider affects another's.
\<close>

theorem fallback_first_settling:
  assumes "candidates \<noteq> []" and "rs_guardrails s = None"
    and "tried = (if fallback_enabled then candidates else take 1 candidates)" and "distinct (map ca_name tried)"
    and "\<And>c. c \<in> set tried \<Longrightarrow> consistent call ans c"
    and "\<And>c t. c \<in> set tried \<Longrightarrow> usable ro capability operation_name (rs_circuits s) t c = u c"
  shows "fst (execute_with_fallback ro capability operation_name fallback_enabled candidates n req call s) =
    (case find (\<lambda>c. u c \<and> settles (result_of (outcome ro operation_name (ans c)))) tried of
       Some c \<Rightarrow> result_of (outcome ro operation_name (ans c))
     | None \<Rightarrow> Inl (all_failed operation_name
                 (Some (passing_error (u (last tried)) (result_of (outcome ro operation_name (ans (last tried))))))))"
proof -
  have "tried \<noteq> []" "fallback_enabled \<or> length tried = 1"
    using assms(1,3) by (cases candidates; auto)+
  from route_loop_spec [of tried, OF assms(5,6,4) this assms(2)] assms(1,3) show ?thesis
    by (simp add: execute_with_fallback_def Let_def)
qed

text \<open>Three providers behind a default router: the circuit of the first is open, the second times out, the third answers.\<close>

definition sample_router :: provider_router where
  "sample_router =
     \<lparr>ro_breaker = circuit_breaker_config_default, ro_policy = provider_execution_policy_default, ro_cost_tracking_enabled = True,
      ro_new_v4 = (\<lambda>n. of_nat n), ro_utc_now = (\<lambda>_. 0)\<rparr>"

definition sample_candidate :: "string \<Rightarrow> string provider_candidate" where
  "sample_candidate name = \<lparr>ca_name = name, ca_provider = name, ca_model_name = None, ca_token_usage_slot = Some 0\<rparr>"

definition sample_router_state :: router_state where
  "sample_router_state =
     \<lparr>rs_circuits = [circuit_key ''a'' LlmCapability ''op'' \<mapsto>
        \<lparr>ci_state = Open, ci_failure_count = 5, ci_opened_at = Some 0, ci_half_open_calls = 0\<rparr>],
      rs_metrics = Some provider_routing_metrics_default, rs_usage_recorder = Some (provider_usage_recorder True),
      rs_attribution = None, rs_guardrails = None, rs_call_source = None, rs_slots = (\<lambda>_. None), rs_tick = 0\<rparr>"

definition sample_answer :: "nat \<Rightarrow> string \<Rightarrow> nat attempt" where
  "sample_answer t name = (if name = ''c'' then Answered (Inr 7) else Elapsed)"

theorem fallback_first_settling_witness:
  "fst (execute_with_fallback sample_router LlmCapability ''op'' True (map sample_candidate [''a'', ''b'', ''c'']) 0 None
     (ask_provider sample_answer (from_counts (Some 3) None)) sample_router_state) = Inr 7"
proof -
  let ?cs = "map sample_candidate [''a'', ''b'', ''c'']" and ?call = "ask_provider sample_answer (from_counts (Some 3) None)"
  let ?ans = "\<lambda>c. sample_answer 0 (ca_provider c)" and ?u = "\<lambda>c. ca_name c \<noteq> ''a''"
  have cons: "consistent ?call ?ans c" if "c \<in> set ?cs" for c
    by (auto simp: consistent_def ask_provider_def sample_answer_def Let_def split: option.split)
  have us: "usable sample_router LlmCapability ''op'' (rs_circuits sample_router_state) t c = ?u c" if "c \<in> set ?cs" for c t
    using that
    by (auto simp: usable_def check_allow_def sample_router_def sample_router_state_def circuit_breaker_config_default_def
        entry_of_def circuit_entry_new_def maybe_transition_open_to_half_open_def sample_candidate_def is_ok_def Let_def)
  have c: "result_of (outcome sample_router ''op'' (?ans (sample_candidate ''c''))) = Inr 7"
    by (simp add: result_of_def outcome_def execute_provider_call_def sample_router_def provider_execution_policy_default_def
        total_attempts_def usize_saturating_add_def usize_max_def sample_answer_def sample_candidate_def numeral_3_eq_3)
  have b: "result_of (outcome sample_router ''op'' (?ans (sample_candidate ''b''))) = Inl provider_timeout"
    by (simp add: result_of_def outcome_def execute_provider_call_def sample_router_def provider_execution_policy_default_def
        total_attempts_def usize_saturating_add_def usize_max_def sample_answer_def sample_candidate_def numeral_3_eq_3
        failure_of_def provider_timeout_def)
  have nb: "\<not> settles (Inl provider_timeout :: nat memcore_result)" "settles (Inr 7 :: nat memcore_result)"
    by (simp_all add: settles_def is_provider_health_failure_def provider_timeout_def)
  have "find (\<lambda>c. ?u c \<and> settles (result_of (outcome sample_router ''op'' (?ans c)))) ?cs = Some (sample_candidate ''c'')"
    using b c nb by (simp add: sample_candidate_def)
  with fallback_first_settling [of ?cs sample_router_state ?cs True ?call ?ans sample_router LlmCapability "''op''" ?u 0 None,
      OF _ _ _ _ cons us] c
  show ?thesis by (simp add: sample_router_state_def sample_candidate_def)
qed

end
