(* ===== verification/Redaction.thy ===== *)
theory Redaction
  imports Pagination Context
begin

text \<open>
  \<^verbatim>\<open>crates/memcore-common/src/redaction\<close>: secrets are cut out of messages by scanning for markers. Positions
  are byte offsets; slicing a string between the bytes of a character panics, and the model says where that happens.
  Each loop works on what is left of the message after the part already copied.
\<close>

section \<open>Patterns (\<open>patterns.rs\<close>)\<close>

definition REDACTED_PLACEHOLDER :: string where
  "REDACTED_PLACEHOLDER = ''[REDACTED]''"

definition SENSITIVE_JSON_KEYS :: "string list" where
  "SENSITIVE_JSON_KEYS =
     [''password'', ''secret'', ''token'', ''api_key'', ''apikey'', ''access_token'', ''refresh_token'', ''key_hash'',
      ''provider_secret'', ''authorization'', ''openai_api_key'', ''bearer'', ''raw_key'', ''pepper'']"

record redaction_config =
  rc_redact_emails :: bool
  rc_redact_bearer_tokens :: bool
  rc_redact_api_keys :: bool
  rc_redact_database_urls :: bool
  rc_redact_provider_keys :: bool
  rc_redact_redis_urls :: bool

definition default_redaction_config :: redaction_config where
  "default_redaction_config =
     \<lparr>rc_redact_emails = False, rc_redact_bearer_tokens = True, rc_redact_api_keys = True, rc_redact_database_urls = True,
      rc_redact_provider_keys = True, rc_redact_redis_urls = True\<rparr>"

definition DATABASE_URL_SCHEMES :: "string list" where
  "DATABASE_URL_SCHEMES = [''postgres://'', ''postgresql://'', ''mysql://'', ''mongodb://'', ''sqlite://'']"

definition REDIS_URL_SCHEMES :: "string list" where
  "REDIS_URL_SCHEMES = [''redis://'', ''rediss://'']"

definition KEY_VALUE_SECRET_KEYS :: "string list" where
  "KEY_VALUE_SECRET_KEYS =
     [''api_key'', ''apikey'', ''access_token'', ''refresh_token'', ''password'', ''secret'', ''token'', ''key_hash'',
      ''provider_secret'', ''openai_api_key'', ''memcore_dev_api_key'', ''memcore_api_key_pepper'',
      ''memcore_postgres_url'', ''memcore_redis_url'']"

definition PROVIDER_KEY_PREFIXES :: "string list" where
  "PROVIDER_KEY_PREFIXES = [''sk-'', ''sk_live_'', ''sk_test_'', ''mc_live_'']"

section \<open>Scanning\<close>

text \<open>\<open>str::find\<close> of a pattern: the offset of its first occurrence.\<close>

fun find_sub :: "string \<Rightarrow> string \<Rightarrow> nat option" where
  "find_sub [] needle = (if needle = [] then Some 0 else None)"
| "find_sub (c # s) needle =
     (if take (length needle) (c # s) = needle then Some 0 else map_option Suc (find_sub s needle))"

text \<open>The loops look for the lower-cased pattern in the lower-cased message.\<close>

definition find_ci :: "string \<Rightarrow> string \<Rightarrow> nat option" where
  "find_ci s needle = find_sub (to_ascii_lowercase s) (to_ascii_lowercase needle)"

text \<open>\<open>skip_to ps s\<close>: what is left from the first character that is one of \<open>ps\<close>.\<close>

fun skip_to :: "string list \<Rightarrow> string \<Rightarrow> string" where
  "skip_to ps [] = []"
| "skip_to ps (c # s) = (if match_len ps (c # s) = 0 then skip_to ps s else c # s)"

text \<open>The number of characters, not bytes, of the longest prefix of characters in \<open>ps\<close>.\<close>

function count_while :: "string list \<Rightarrow> string \<Rightarrow> nat" where
  "count_while ps s = (if match_len ps s = 0 then 0 else Suc (count_while ps (drop (match_len ps s) s)))"
  by pat_completeness auto
termination
  by (relation "measure (\<lambda>(ps, s). length s)") (auto, metis diff_less le_zero_eq match_len_le not_gr_zero)

declare count_while.simps [simp del]

definition quote_seqs :: "string list" where
  "quote_seqs = [[CHR 0x22], [CHR 0x27]]"

definition stop_seqs :: "string list" where
  "stop_seqs = ws_seqs @ quote_seqs @ ['','', ''}'']"

text \<open>\<open>&s[n..]\<close> and \<open>&s[..n]\<close> panic when \<open>n\<close> is past the end or inside a character.\<close>

definition split_at :: "string \<Rightarrow> nat \<Rightarrow> (string \<times> string) outcome" where
  "split_at s n =
     (if length s < n \<or> (n < length s \<and> is_continuation (s ! n)) then Inl Panic else Inr (take n s, drop n s))"

lemma find_sub_bound: "find_sub s needle = Some n \<Longrightarrow> n + length needle \<le> length s"
proof (induction s arbitrary: n)
  case (Cons c s)
  then show ?case
    by (auto split: if_splits dest!: arg_cong [where f = length])
qed (auto split: if_splits)

lemma find_ci_bound: "find_ci s needle = Some n \<Longrightarrow> n + length needle \<le> length s"
  using find_sub_bound [of "to_ascii_lowercase s" "to_ascii_lowercase needle" n] by (simp add: find_ci_def)

lemma length_skip_to: "length (skip_to ps s) \<le> length s"
  by (induction s) auto

section \<open>The passes (\<open>sanitizer.rs\<close>)\<close>

text \<open>No caller passes an empty scheme, prefix or pattern, with which the loops would not advance.\<close>

function redact_url_loop :: "string \<Rightarrow> string \<Rightarrow> string" where
  "redact_url_loop scheme s =
     (case find_ci s scheme of
        None \<Rightarrow> s
      | Some rel \<Rightarrow>
          if scheme = [] then s
          else take rel s @ scheme @ REDACTED_PLACEHOLDER @
               redact_url_loop scheme (skip_to ws_seqs (drop (rel + length scheme) s)))"
  by pat_completeness auto
termination
proof (relation "measure (\<lambda>(scheme, s). length s)")
  fix scheme s rel assume "find_ci s scheme = Some rel" "scheme \<noteq> []"
  with find_ci_bound [of s scheme rel] length_skip_to [of ws_seqs "drop (rel + length scheme) s"]
  show "((scheme, skip_to ws_seqs (drop (rel + length scheme) s)), scheme, s) \<in> measure (\<lambda>(scheme, s). length s)"
    by (cases scheme) auto
qed simp

declare redact_url_loop.simps [simp del]

definition redact_url_scheme :: "string \<Rightarrow> string \<Rightarrow> string" where
  "redact_url_scheme message scheme = redact_url_loop scheme message"

text \<open>A match right after a letter, digit or underscore is not one: one byte is copied and the search goes on.
  \<open>prev\<close> is the byte before what is left.\<close>

definition word_byte :: "char \<Rightarrow> bool" where
  "word_byte c \<longleftrightarrow> (let n = of_char c :: nat in
     (48 \<le> n \<and> n \<le> 57) \<or> (65 \<le> n \<and> n \<le> 90) \<or> (97 \<le> n \<and> n \<le> 122) \<or> c = CHR ''_'')"

definition byte_before :: "char option \<Rightarrow> string \<Rightarrow> nat \<Rightarrow> char option" where
  "byte_before prev s n = (if n = 0 then prev else Some (s ! (n - 1)))"

definition mid_word :: "char option \<Rightarrow> bool" where
  "mid_word prev = (case prev of None \<Rightarrow> False | Some c \<Rightarrow> word_byte c)"

definition last_byte :: "char option \<Rightarrow> string \<Rightarrow> char option" where
  "last_byte prev s = byte_before prev s (length s)"

function redact_prefixed_loop :: "string \<Rightarrow> char option \<Rightarrow> string \<Rightarrow> string" where
  "redact_prefixed_loop pfx prev s =
     (case find_ci s pfx of
        None \<Rightarrow> s
      | Some rel \<Rightarrow>
          if pfx = [] then s
          else if mid_word (byte_before prev s rel)
          then take (rel + 1) s @ redact_prefixed_loop pfx (Some (s ! rel)) (drop (rel + 1) s)
          else let val = drop (rel + length pfx) s; rest = skip_to stop_seqs val in
               take (rel + length pfx) s @ REDACTED_PLACEHOLDER @
               redact_prefixed_loop pfx (last_byte prev (take (length s - length rest) s)) rest)"
  by pat_completeness auto
termination
proof (relation "measure (\<lambda>(pfx, prev, s). length s)")
  fix pfx s rel prev val rest
  assume "find_ci s pfx = Some rel" "pfx \<noteq> []"
  note b = find_ci_bound [OF this(1)] this(2)
  show "((pfx, Some (s ! rel), drop (rel + 1) s), pfx, prev, s) \<in> measure (\<lambda>(pfx, prev, s). length s)"
    using b by (cases pfx) auto
  assume "val = drop (rel + length pfx) s" "rest = skip_to stop_seqs val"
  then show "((pfx, last_byte prev (take (length s - length rest) s), rest), pfx, prev, s) \<in> measure (\<lambda>(pfx, prev, s). length s)"
    using b length_skip_to [of stop_seqs val] by (cases pfx) auto
qed simp

declare redact_prefixed_loop.simps [simp del]

definition redact_prefixed_token :: "string \<Rightarrow> string \<Rightarrow> string" where
  "redact_prefixed_token message pfx = redact_prefixed_loop pfx None message"

function redact_after_loop :: "string \<Rightarrow> char option \<Rightarrow> string \<Rightarrow> string outcome" where
  "redact_after_loop pattern prev s =
     (case find_ci s pattern of
        None \<Rightarrow> Inr s
      | Some rel \<Rightarrow>
          if pattern = [] then Inr s
          else if mid_word (byte_before prev s rel)
          then and_then (redact_after_loop pattern (Some (s ! rel)) (drop (rel + 1) s)) (\<lambda>r. Inr (take (rel + 1) s @ r))
          else let val = drop (rel + length pattern) s in
               (case split_at val (count_while (ws_seqs @ quote_seqs) val) of
                 Inl e \<Rightarrow> Inl e
               | Inr (skipped, token) \<Rightarrow>
                   let rest = skip_to stop_seqs token in
                   and_then (redact_after_loop pattern (last_byte prev (take (length s - length rest) s)) rest) (\<lambda>r.
                   Inr (take (rel + length pattern) s @ skipped @ REDACTED_PLACEHOLDER @ r))))"
  by pat_completeness auto
termination
proof (relation "measure (\<lambda>(pattern, prev, s). length s)")
  fix pattern s rel prev val y skipped token rest
  assume "find_ci s pattern = Some rel" "pattern \<noteq> []"
  note b = find_ci_bound [OF this(1)] this(2)
  show "((pattern, Some (s ! rel), drop (rel + 1) s), pattern, prev, s) \<in> measure (\<lambda>(pattern, prev, s). length s)"
    using b by (cases pattern) auto
  assume "val = drop (rel + length pattern) s" "split_at val (count_while (ws_seqs @ quote_seqs) val) = Inr y"
    "(skipped, token) = y" "rest = skip_to stop_seqs token"
  then show "((pattern, last_byte prev (take (length s - length rest) s), rest), pattern, prev, s)
      \<in> measure (\<lambda>(pattern, prev, s). length s)"
    using b length_skip_to [of stop_seqs token] by (cases pattern) (auto simp: split_at_def split: if_splits)
qed simp

declare redact_after_loop.simps [simp del]

definition redact_after_pattern :: "string \<Rightarrow> string \<Rightarrow> string outcome" where
  "redact_after_pattern message pattern = redact_after_loop pattern None message"

text \<open>\<open>for\<close> over passes that may panic.\<close>

fun passes :: "('k \<Rightarrow> string \<Rightarrow> string outcome) \<Rightarrow> 'k list \<Rightarrow> string \<Rightarrow> string outcome" where
  "passes f [] s = Inr s"
| "passes f (k # ks) s = and_then (f k s) (passes f ks)"

definition redact_key_value :: "string \<Rightarrow> string \<Rightarrow> string outcome" where
  "redact_key_value message key =
     passes (\<lambda>pattern s. redact_after_pattern s pattern)
       [key @ ''='', key @ '':'', [CHR 0x22] @ key @ [CHR 0x22] @ '':'', [CHR 0x27] @ key @ [CHR 0x27] @ '':''] message"

function redact_authorization_loop :: "string \<Rightarrow> string outcome" where
  "redact_authorization_loop s =
     (case find_ci s ''authorization:'' of
        None \<Rightarrow> Inr s
      | Some rel \<Rightarrow>
          let after = drop (rel + length ''authorization:'') s in
          (case split_at after (count_while ws_seqs after) of
            Inl e \<Rightarrow> Inl e
          | Inr (blanks, val) \<Rightarrow>
              let bearer = starts_with (to_ascii_lowercase val) ''bearer '';
                  rest = skip_to stop_seqs (if bearer then drop (length ''bearer '') val else val) in
              and_then (redact_authorization_loop rest) (\<lambda>r.
              Inr (take (rel + length ''authorization:'') s @ blanks @ (if bearer then ''Bearer '' else []) @
                   REDACTED_PLACEHOLDER @ r))))"
  by pat_completeness auto
termination
proof (relation "measure length")
  fix s rel after y blanks val bearer rest
  assume "find_ci s ''authorization:'' = Some rel"
  note b = find_ci_bound [OF this]
  assume "after = drop (rel + length ''authorization:'') s" "split_at after (count_while ws_seqs after) = Inr y"
    "(blanks, val) = y" "rest = skip_to stop_seqs (if bearer then drop (length ''bearer '') val else val)"
  then show "(rest, s) \<in> measure length"
    using b length_skip_to [of stop_seqs "if bearer then drop (length ''bearer '') val else val"]
    by (auto simp: split_at_def split: if_splits)
qed simp

declare redact_authorization_loop.simps [simp del]

definition redact_authorization_bearer :: "string \<Rightarrow> string outcome" where
  "redact_authorization_bearer message = redact_authorization_loop message"

section \<open>Emails\<close>

definition email_byte :: "char \<Rightarrow> bool" where
  "email_byte c \<longleftrightarrow> word_byte c \<or> c \<in> set ''.%+-''"

fun find_email_local_start :: "string \<Rightarrow> nat \<Rightarrow> nat" where
  "find_email_local_start message 0 = 0"
| "find_email_local_start message (Suc i) = (if email_byte (message ! i) then find_email_local_start message i else Suc i)"

definition domain_byte :: "char \<Rightarrow> bool" where
  "domain_byte c \<longleftrightarrow> (word_byte c \<and> c \<noteq> CHR ''_'') \<or> c = CHR ''-'' \<or> c = CHR ''.''"

definition find_email_domain_end :: "string \<Rightarrow> nat \<Rightarrow> nat" where
  "find_email_domain_end message start =
     (let run = takeWhile domain_byte (drop start message)
      in if CHR ''.'' \<in> set run then start + length run else start)"

text \<open>\<open>String::pop\<close> removes a character, all its bytes.\<close>

definition pop_char :: "string \<Rightarrow> string" where
  "pop_char out = rev (drop 1 (dropWhile is_continuation (rev out)))"

lemma length_pop_char: "out \<noteq> [] \<Longrightarrow> length (pop_char out) < length out"
  using length_dropWhile_le [of is_continuation "rev out"] by (cases "rev out") (auto simp: pop_char_def)

function pop_to :: "nat \<Rightarrow> string \<Rightarrow> string" where
  "pop_to n out = (if n < length out then pop_to n (pop_char out) else out)"
  by pat_completeness auto
termination
  by (relation "measure (\<lambda>(n, out). length out)") (auto intro!: length_pop_char)

declare pop_to.simps [simp del]

function redact_emails_loop :: "string \<Rightarrow> nat \<Rightarrow> string \<Rightarrow> string" where
  "redact_emails_loop message idx out =
     (if length message \<le> idx then out
      else let local_start = find_email_local_start message idx; domain_end = find_email_domain_end message (idx + 1) in
        if message ! idx = CHR ''@'' \<and> local_start < idx \<and> idx + 1 < domain_end
        then redact_emails_loop message domain_end (pop_to local_start out @ REDACTED_PLACEHOLDER)
        else redact_emails_loop message (idx + 1) (out @ [message ! idx]))"
  by pat_completeness auto
termination
  by (relation "measure (\<lambda>(message, idx, out). length message - idx)") auto

declare redact_emails_loop.simps [simp del]

definition redact_emails :: "string \<Rightarrow> string" where
  "redact_emails message = redact_emails_loop message 0 []"

section \<open>Redactor\<close>

definition redact_bearer :: "string \<Rightarrow> string outcome" where
  "redact_bearer s =
     and_then (redact_authorization_bearer s) (\<lambda>out.
     Inr (redact_prefixed_token (redact_prefixed_token out ''Bearer '') ''bearer ''))"

definition redact_urls :: "string list \<Rightarrow> string \<Rightarrow> string" where
  "redact_urls schemes s = foldl redact_url_scheme s schemes"

definition redact_str_with_config :: "string \<Rightarrow> redaction_config \<Rightarrow> string outcome" where
  "redact_str_with_config input config =
     and_then (if rc_redact_bearer_tokens config then redact_bearer input else Inr input) (\<lambda>out1.
     let out2 = (if rc_redact_database_urls config then redact_urls (DATABASE_URL_SCHEMES @ [''sqlite:'']) out1 else out1);
         out3 = (if rc_redact_redis_urls config then redact_urls REDIS_URL_SCHEMES out2 else out2);
         out4 = (if rc_redact_provider_keys config then foldl redact_prefixed_token out3 PROVIDER_KEY_PREFIXES else out3)
     in and_then (if rc_redact_api_keys config
                  then passes (\<lambda>key s. redact_key_value s key) KEY_VALUE_SECRET_KEYS out4 else Inr out4) (\<lambda>out5.
        Inr (if rc_redact_emails config then redact_emails out5 else out5)))"

definition redact_str :: "string \<Rightarrow> string outcome" where
  "redact_str input = redact_str_with_config input default_redaction_config"

definition is_sensitive_json_key :: "string \<Rightarrow> bool" where
  "is_sensitive_json_key key \<longleftrightarrow>
     map (\<lambda>c. if c = CHR ''-'' then CHR ''_'' else c) (to_ascii_lowercase (trim key)) \<in> set SENSITIVE_JSON_KEYS"

text \<open>An object keeps its keys in order; \<open>redact_object\<close> replaces the value of a sensitive key whole.\<close>

fun redact_json_with_config :: "redaction_config \<Rightarrow> json \<Rightarrow> json outcome"
  and redact_items :: "redaction_config \<Rightarrow> json list \<Rightarrow> json list outcome"
  and redact_object :: "redaction_config \<Rightarrow> (string \<times> json) list \<Rightarrow> (string \<times> json) list outcome" where
  "redact_json_with_config config (JObject kvs) = and_then (redact_object config kvs) (\<lambda>kvs'. Inr (JObject kvs'))"
| "redact_json_with_config config (JArray items) = and_then (redact_items config items) (\<lambda>vs. Inr (JArray vs))"
| "redact_json_with_config config (JString text) = and_then (redact_str_with_config text config) (\<lambda>t. Inr (JString t))"
| "redact_json_with_config config other = Inr other"
| "redact_items config [] = Inr []"
| "redact_items config (v # vs) =
     and_then (redact_json_with_config config v) (\<lambda>v'. and_then (redact_items config vs) (\<lambda>vs'. Inr (v' # vs')))"
| "redact_object config [] = Inr []"
| "redact_object config ((key, v) # kvs) =
     and_then (if is_sensitive_json_key key then Inr (JString REDACTED_PLACEHOLDER) else redact_json_with_config config v) (\<lambda>v'.
     and_then (redact_object config kvs) (\<lambda>kvs'. Inr ((key, v') # kvs')))"

definition looks_like_provider_auth_failure :: "string \<Rightarrow> bool" where
  "looks_like_provider_auth_failure message =
     (let lower = to_ascii_lowercase message in
      contains lower ''unauthorized'' \<or> contains lower ''invalid api key'' \<or> contains lower ''invalid_api_key'' \<or>
      contains lower ''authentication'' \<or> contains lower ''401'')"

fun safe_error_message :: "memcore_error \<Rightarrow> string outcome" where
  "safe_error_message Unauthorized = Inr ''unauthorized''"
| "safe_error_message Forbidden = Inr ''forbidden''"
| "safe_error_message RateLimited = Inr ''rate limit exceeded''"
| "safe_error_message (StorageError _) = Inr ''database operation failed''"
| "safe_error_message (MigrationError _) = Inr ''database migration failed''"
| "safe_error_message (Internal _) = Inr ''internal error''"
| "safe_error_message (ProviderError message) =
     Inr (if message = PROVIDER_CIRCUIT_OPEN_MESSAGE then PROVIDER_CIRCUIT_OPEN_MESSAGE
          else if looks_like_provider_auth_failure message then ''provider authentication failed''
          else ''provider operation failed'')"
| "safe_error_message (Timeout message) =
     Inr (if message = PROVIDER_TIMEOUT_MESSAGE then PROVIDER_TIMEOUT_MESSAGE else ''operation timed out'')"
| "safe_error_message (ValidationError message) = redact_str message"
| "safe_error_message (BadRequest message) = redact_str message"
| "safe_error_message (NotFound message) = redact_str message"
| "safe_error_message (Conflict message) = redact_str message"
| "safe_error_message (QuotaExceeded message _ _ _ _) = redact_str message"
| "safe_error_message (ProviderGuardrailViolation _ message) = redact_str message"

section \<open>What the passes hide\<close>

lemma match_len_append:
  assumes "\<And>w. w \<in> set ps \<Longrightarrow> length w \<le> length u"
  shows "match_len ps (u @ v) = match_len ps u"
proof -
  have "find (\<lambda>w. take (length w) (u @ v) = w) ps = find (\<lambda>w. take (length w) u = w) ps"
    using assms by (intro find_cong) auto
  then show ?thesis by (simp add: match_len_def)
qed

lemma ws_seqs_short: "w \<in> set ws_seqs \<Longrightarrow> length w \<le> 3"
  by (auto simp: ws_seqs_eval)

lemma skip_to_no_heads: "set u \<inter> set ws_heads = {} \<Longrightarrow> skip_to ws_seqs (u @ v) = skip_to ws_seqs v"
  by (induction u) (auto simp: match_len_other)

text \<open>Skipping from before a marker either stops before the marker, at a place that does not depend on what comes
  after it, or goes to the end of the secret behind it.\<close>

lemma skip_to_marker:
  assumes "set u \<inter> set ws_heads = {}" "3 \<le> length u"
  shows "(\<exists>k \<le> length x. \<forall>v. skip_to ws_seqs (x @ u @ v) = drop k x @ u @ v) \<or>
         (\<forall>v. skip_to ws_seqs (x @ u @ v) = skip_to ws_seqs v)"
proof (induction x)
  case Nil
  then show ?case using skip_to_no_heads [OF assms(1)] by simp
next
  case (Cons c x)
  have same: "match_len ws_seqs (c # x @ u @ v) = match_len ws_seqs (c # x @ u)" for v
    using match_len_append [of ws_seqs "c # x @ u" v] ws_seqs_short assms(2) by fastforce
  show ?case
  proof (cases "match_len ws_seqs (c # x @ u) = 0")
    case True
    then have step: "skip_to ws_seqs ((c # x) @ u @ v) = skip_to ws_seqs (x @ u @ v)" for v by (simp add: same)
    from Cons.IH show ?thesis
    proof
      assume "\<exists>k \<le> length x. \<forall>v. skip_to ws_seqs (x @ u @ v) = drop k x @ u @ v"
      then obtain k where "k \<le> length x" "\<forall>v. skip_to ws_seqs (x @ u @ v) = drop k x @ u @ v" by blast
      with step show ?thesis by (intro disjI1 exI [of _ "Suc k"]) simp
    next
      assume "\<forall>v. skip_to ws_seqs (x @ u @ v) = skip_to ws_seqs v"
      with step show ?thesis by simp
    qed
  next
    case False
    then show ?thesis by (intro disjI1 exI [of _ 0]) (simp add: same)
  qed
qed

lemma find_sub_here: "find_sub (n @ b) n = Some 0"
proof (cases "n @ b")
  case (Cons c s)
  have "take (length n) (n @ b) = n" by simp
  with Cons show ?thesis by simp
qed simp

lemma find_sub_prefix:
  assumes "find_sub (a @ b) n = Some r" "r + length n \<le> length a"
  shows "find_sub (a @ b') n = Some r"
  using assms
proof (induction a arbitrary: r)
  case (Cons c a)
  have pre: "take (length n) (c # a @ b) = take (length n) (c # a @ b')"
  proof -
    have "length n \<le> length (c # a)" using Cons.prems(2) by simp
    then show ?thesis by (metis append_Cons take_append diff_is_0_eq take0)
  qed
  show ?case
  proof (cases "take (length n) (c # a @ b) = n")
    case True
    with Cons.prems pre show ?thesis by simp
  next
    case False
    with Cons.prems(1) obtain q where q: "r = Suc q" "find_sub (a @ b) n = Some q" by auto
    with Cons.IH [of q] Cons.prems(2) have "find_sub (a @ b') n = Some q" by simp
    with False pre q(1) show ?thesis by simp
  qed
next
  case Nil
  then show ?case using find_sub_here [of "[]"] by simp
qed

lemma find_sub_le: "\<exists>r \<le> length a. find_sub (a @ n @ b) n = Some r"
proof (induction a)
  case Nil
  show ?case by (simp add: find_sub_here)
next
  case (Cons c a)
  then show ?case by auto
qed

lemma find_ci_marker:
  assumes "to_ascii_lowercase u = to_ascii_lowercase n"
  obtains r where "r \<le> length x" "\<And>v. find_ci (x @ u @ v) n = Some r"
proof -
  let ?l = to_ascii_lowercase
  have app: "?l (a @ b) = ?l a @ ?l b" for a b by (simp add: to_ascii_lowercase_def)
  obtain r where r: "r \<le> length x" "find_sub (?l x @ ?l n @ []) (?l n) = Some r"
    using find_sub_le [of "?l x" "?l n" "[]"] by auto
  have "find_ci (x @ u @ v) n = Some r" for v
    using find_sub_prefix [of "?l x @ ?l n" "[]" "?l n" r "?l v"] r assms by (simp add: find_ci_def app)
  with r(1) show thesis by (rule that)
qed

text \<open>One pass over URLs: what it leaves does not depend on the secret.\<close>

lemma redact_url_loop_hides:
  assumes "to_ascii_lowercase u = to_ascii_lowercase scheme" "set u \<inter> set ws_heads = {}" "3 \<le> length u"
    and "skip_to ws_seqs (s1 @ post) = post" "skip_to ws_seqs (s2 @ post) = post"
  shows "redact_url_loop scheme (pre @ u @ s1 @ post) = redact_url_loop scheme (pre @ u @ s2 @ post)"
proof (induction "length pre" arbitrary: pre rule: less_induct)
  case less
  have len: "length scheme = length u" using assms(1) by (metis length_to_ascii_lowercase)
  obtain r where r: "r \<le> length pre" and found: "\<And>v. find_ci (pre @ u @ v) scheme = Some r"
    using find_ci_marker [OF assms(1)] by blast
  have sk: "redact_url_loop scheme (pre @ u @ v) = take r pre @ scheme @ REDACTED_PLACEHOLDER @
      redact_url_loop scheme (skip_to ws_seqs (drop (r + length scheme) (pre @ u @ v)))" for v
    using found [of v] r len assms(3) by (subst redact_url_loop.simps) auto
  show ?case
  proof (cases "r + length scheme \<le> length pre")
    case True
    let ?x = "drop (r + length scheme) pre"
    have d: "drop (r + length scheme) (pre @ u @ v) = ?x @ u @ v" for v using True by simp
    from skip_to_marker [OF assms(2,3), of ?x] show ?thesis
    proof
      assume "\<exists>k \<le> length ?x. \<forall>v. skip_to ws_seqs (?x @ u @ v) = drop k ?x @ u @ v"
      then obtain k where k: "\<forall>v. skip_to ws_seqs (?x @ u @ v) = drop k ?x @ u @ v" by blast
      have "length (drop k ?x) < length pre" using len assms(3) True by simp
      from less [OF this] sk d k show ?thesis by simp
    next
      assume "\<forall>v. skip_to ws_seqs (?x @ u @ v) = skip_to ws_seqs v"
      with sk d assms(4,5) show ?thesis by simp
    qed
  next
    case False
    let ?j = "r + length scheme - length pre"
    have "set (drop ?j u) \<inter> set ws_heads = {}" using assms(2) by (auto dest: in_set_dropD)
    from skip_to_no_heads [OF this] have "skip_to ws_seqs (drop (r + length scheme) (pre @ u @ v)) = skip_to ws_seqs v" for v
      using False r len by (simp add: drop_append)
    with sk assms(4,5) show ?thesis by simp
  qed
qed

text \<open>A pass that finds no marker changes nothing.\<close>

lemma pass_without_marker:
  "find_ci s n = None \<Longrightarrow> redact_url_scheme s n = s"
  "find_ci s n = None \<Longrightarrow> redact_prefixed_token s n = s"
  "find_ci s ''authorization:'' = None \<Longrightarrow> redact_authorization_bearer s = Inr s"
  by (simp_all add: redact_url_scheme_def redact_prefixed_token_def redact_authorization_bearer_def redact_url_loop.simps
      redact_prefixed_loop.simps redact_authorization_loop.simps)

definition URL_SCHEMES :: "string list" where
  "URL_SCHEMES = DATABASE_URL_SCHEMES @ [''sqlite:''] @ REDIS_URL_SCHEMES"

lemma URL_SCHEMES_eval:
  "URL_SCHEMES = [''postgres://'', ''postgresql://'', ''mysql://'', ''mongodb://'', ''sqlite://'', ''sqlite:'', ''redis://'', ''rediss://'']"
  by (simp add: URL_SCHEMES_def DATABASE_URL_SCHEMES_def REDIS_URL_SCHEMES_def)

lemma ws_heads_lower: "c \<in> set ws_heads \<Longrightarrow> ascii_lower c = c"
  unfolding ws_heads_eval by (auto simp: ascii_lower_def)

lemma url_scheme_ascii:
  assumes "scheme \<in> set URL_SCHEMES" "to_ascii_lowercase u = scheme"
  shows "set u \<inter> set ws_heads = {}" "3 \<le> length u" "to_ascii_lowercase scheme = scheme"
proof -
  have sch: "set scheme \<inter> set ws_heads = {}" "3 \<le> length scheme"
    using assms(1) unfolding URL_SCHEMES_eval ws_heads_eval by auto
  show "to_ascii_lowercase scheme = scheme" using assms(2) by auto
  show "3 \<le> length u" using sch(2) assms(2) by auto
  show "set u \<inter> set ws_heads = {}"
  proof -
    have False if "c \<in> set u" "c \<in> set ws_heads" for c
    proof -
      have "ascii_lower c \<in> set scheme" using that(1) assms(2) by (auto simp: to_ascii_lowercase_def)
      with ws_heads_lower [OF that(2)] that(2) sch(1) show False by auto
    qed
    then show ?thesis by blast
  qed
qed

lemma redact_urls_hides:
  assumes "schemes = before @ scheme # after" "scheme \<in> set URL_SCHEMES" "to_ascii_lowercase u = scheme"
    and "\<And>m n. m \<in> {pre @ u @ s1 @ post, pre @ u @ s2 @ post} \<Longrightarrow> n \<in> set before \<Longrightarrow> find_ci m n = None"
    and "skip_to ws_seqs (s1 @ post) = post" "skip_to ws_seqs (s2 @ post) = post"
  shows "redact_urls schemes (pre @ u @ s1 @ post) = redact_urls schemes (pre @ u @ s2 @ post)"
proof -
  have id: "redact_urls ns m = m" if "\<And>n. n \<in> set ns \<Longrightarrow> find_ci m n = None" for ns m
    using that by (induction ns) (auto simp: redact_urls_def pass_without_marker)
  have "redact_urls schemes m = foldl redact_url_scheme (redact_url_scheme m scheme) after"
    if "m \<in> {pre @ u @ s1 @ post, pre @ u @ s2 @ post}" for m
    using id [of before m] assms(4) [OF that] by (simp add: redact_urls_def assms(1))
  moreover have "redact_url_scheme (pre @ u @ s1 @ post) scheme = redact_url_scheme (pre @ u @ s2 @ post) scheme"
    unfolding redact_url_scheme_def
    by (rule redact_url_loop_hides) (use url_scheme_ascii [OF assms(2,3)] assms(3,5,6) in auto)
  ultimately show ?thesis by simp
qed

text \<open>C37: The default redaction of a message with a database or Redis URL, in any case of letters, does not depend on
  what follows the scheme: two messages that differ only in the address and the credentials up to the next white space
  are redacted to the same text. The claim is for a message with no authorization header or bearer token and no URL
  of a scheme that is looked for earlier.\<close>

theorem redact_str_hides_urls:
  assumes "URL_SCHEMES = before @ scheme # after" "to_ascii_lowercase u = scheme"
    and "\<And>m n. m \<in> {pre @ u @ s1 @ post, pre @ u @ s2 @ post} \<Longrightarrow> n \<in> set ([''authorization:'', ''bearer ''] @ before) \<Longrightarrow>
           find_ci m n = None"
    and "skip_to ws_seqs (s1 @ post) = post" "skip_to ws_seqs (s2 @ post) = post"
  shows "redact_str (pre @ u @ s1 @ post) = redact_str (pre @ u @ s2 @ post)"
proof -
  have "redact_bearer m = Inr m" if "m \<in> {pre @ u @ s1 @ post, pre @ u @ s2 @ post}" for m
  proof -
    have "find_ci m ''authorization:'' = None" "find_ci m ''bearer '' = None" using assms(3) [OF that] by auto
    moreover have "find_ci m ''Bearer '' = find_ci m ''bearer ''"
    proof -
      have "to_ascii_lowercase ''Bearer '' = to_ascii_lowercase ''bearer ''" by code_simp
      then show ?thesis by (simp add: find_ci_def)
    qed
    ultimately show ?thesis by (simp add: redact_bearer_def pass_without_marker and_then_def)
  qed
  moreover have "redact_urls URL_SCHEMES (pre @ u @ s1 @ post) = redact_urls URL_SCHEMES (pre @ u @ s2 @ post)"
  proof (rule redact_urls_hides [OF assms(1) _ assms(2)])
    show "scheme \<in> set URL_SCHEMES" by (simp add: assms(1))
  qed (use assms(3-5) in auto)
  ultimately show ?thesis
    by (simp add: redact_str_def redact_str_with_config_def default_redaction_config_def and_then_def Let_def
        URL_SCHEMES_def redact_urls_def)
qed

theorem redact_str_hides_urls_witness: "redact_str ''POSTGRES://pw x'' = redact_str ''POSTGRES:// x''"
proof -
  let ?u = "''POSTGRES://''" and ?post = "'' x''" and ?s = "''pw''"
  have lower: "to_ascii_lowercase ''POSTGRES://pw x'' = ''postgres://pw x''" "to_ascii_lowercase ''POSTGRES:// x'' = ''postgres:// x''"
    "to_ascii_lowercase ''authorization:'' = ''authorization:''" "to_ascii_lowercase ''bearer '' = ''bearer ''"
    "to_ascii_lowercase ''POSTGRES://'' = ''postgres://''"
    by code_simp+
  have "redact_str ([] @ ?u @ ?s @ ?post) = redact_str ([] @ ?u @ [] @ ?post)"
  proof (rule redact_str_hides_urls)
    show "URL_SCHEMES = [] @ ''postgres://'' # tl URL_SCHEMES" by (simp add: URL_SCHEMES_eval)
    show "to_ascii_lowercase ?u = ''postgres://''" by (rule lower)
    show "skip_to ws_seqs (?s @ ?post) = ?post" "skip_to ws_seqs ([] @ ?post) = ?post"
      by (simp_all add: match_len_other match_len_blank ws_heads_eval ws_blanks_eval)
    show "find_ci m n = None" if "m \<in> {[] @ ?u @ ?s @ ?post, [] @ ?u @ [] @ ?post}"
      "n \<in> set ([''authorization:'', ''bearer ''] @ [])" for m n
      using that by (auto simp: find_ci_def lower)
  qed
  then show ?thesis by simp
qed

section \<open>What they do not hide\<close>

text \<open>The credentials of any other scheme than bearer stay: only the word after the header is cut. A bearer token after
  two blanks stays as well.\<close>

lemma basic_credentials_stay:
  "redact_authorization_bearer ''authorization:Basic a'' = Inr ''authorization:[REDACTED] a''"
  by code_simp

lemma bearer_after_two_blanks_stays: "redact_prefixed_token ''Bearer  abc'' ''Bearer '' = ''Bearer [REDACTED] abc''"
  by code_simp

text \<open>A URL in the place of a bearer token is cut as a token, which ends at a comma; its scheme is gone, so that the passes
  for URLs no longer see the rest.\<close>

lemma url_after_bearer_stays: "redact_bearer ''bearer mysql://u:a,b@h'' = Inr ''bearer [REDACTED],b@h''"
  by code_simp

text \<open>Characters are counted and the count is used as a number of bytes: a no-break space after the header, two bytes
  long, makes the next slice start inside it.\<close>

lemma no_break_space_panics: "redact_str (''authorization:'' @ [CHR 0xC2, CHR 0xA0] @ ''x'') = Inl Panic"
proof -
  have "redact_authorization_bearer (''authorization:'' @ [CHR 0xC2, CHR 0xA0] @ ''x'') = Inl Panic" by code_simp
  then show ?thesis
    by (simp add: redact_str_def redact_str_with_config_def default_redaction_config_def redact_bearer_def and_then_def)
qed

text \<open>From the second address on, the number of bytes to take back is off by what the first replacement changed.\<close>

lemma second_email_stays: "redact_emails ''aaaaaaaaa@b.c d@e.f'' = ''[REDACTED] d[REDACTED]''"
  by code_simp

end
