(* ===== verification/Job_Store.thy ===== *)
theory Job_Store
  imports Redaction Context_Cache Event_Store
begin

text \<open>
  Background jobs: their kinds, states and runs (\<^verbatim>\<open>crates/memcore-core/src/jobs/types.rs\<close>), the history of
  runs (\<^verbatim>\<open>ports/background_job_run_store.rs\<close>, \<^verbatim>\<open>crates/memcore-storage/src/jobs/mock.rs\<close>) and the
  distributed lock that keeps two instances from running the same job
  (\<^verbatim>\<open>ports/background_job_lock_store.rs\<close>, \<^verbatim>\<open>jobs/locks/mock.rs\<close>).
\<close>

section \<open>Kinds, states and runs (\<open>jobs/types.rs\<close>)\<close>

datatype background_job_kind = MemoryUsageSnapshot | ProviderUsageRetention | MemoryRetention

fun job_kind_as_str :: "background_job_kind \<Rightarrow> string" where
  "job_kind_as_str MemoryUsageSnapshot = ''MemoryUsageSnapshot''"
| "job_kind_as_str ProviderUsageRetention = ''ProviderUsageRetention''"
| "job_kind_as_str MemoryRetention = ''MemoryRetention''"

fun job_kind_as_path :: "background_job_kind \<Rightarrow> string" where
  "job_kind_as_path MemoryUsageSnapshot = ''memory-usage-snapshot''"
| "job_kind_as_path ProviderUsageRetention = ''provider-usage-retention''"
| "job_kind_as_path MemoryRetention = ''memory-retention''"

definition job_kind_from_str :: "string \<Rightarrow> background_job_kind memcore_result" where
  "job_kind_from_str s =
     (let t = trim s in
      if t \<in> {''MemoryUsageSnapshot'', ''memory-usage-snapshot'', ''memory_usage_snapshot''} then Inr MemoryUsageSnapshot
      else if t \<in> {''ProviderUsageRetention'', ''provider-usage-retention'', ''provider_usage_retention''}
      then Inr ProviderUsageRetention
      else if t \<in> {''MemoryRetention'', ''memory-retention'', ''memory_retention''} then Inr MemoryRetention
      else Inl (ValidationError (''invalid job_kind: '' @ t)))"

datatype background_job_status = JobIdle | JobRunning | JobSucceeded | JobFailed | JobSkipped | JobCancelled

fun job_status_as_str :: "background_job_status \<Rightarrow> string" where
  "job_status_as_str JobIdle = ''Idle''"
| "job_status_as_str JobRunning = ''Running''"
| "job_status_as_str JobSucceeded = ''Succeeded''"
| "job_status_as_str JobFailed = ''Failed''"
| "job_status_as_str JobSkipped = ''Skipped''"
| "job_status_as_str JobCancelled = ''Cancelled''"

definition job_status_from_str :: "string \<Rightarrow> background_job_status memcore_result" where
  "job_status_from_str s =
     (let t = trim s in
      if t \<in> {''Idle'', ''idle''} then Inr JobIdle
      else if t \<in> {''Running'', ''running''} then Inr JobRunning
      else if t \<in> {''Succeeded'', ''succeeded'', ''success''} then Inr JobSucceeded
      else if t \<in> {''Failed'', ''failed'', ''error''} then Inr JobFailed
      else if t \<in> {''Skipped'', ''skipped''} then Inr JobSkipped
      else if t \<in> {''Cancelled'', ''cancelled'', ''canceled''} then Inr JobCancelled
      else Inl (ValidationError (''invalid job status: '' @ t)))"

text \<open>Durations are in nanoseconds.\<close>

record background_job_definition =
  jd_kind :: background_job_kind
  jd_enabled :: bool
  jd_interval :: nat

record background_job_run =
  jr_id :: uuid
  jr_kind :: background_job_kind
  jr_status :: background_job_status
  jr_started_at :: datetime
  jr_finished_at :: "datetime option"
  jr_duration_ms :: "u64 option"
  jr_attempt_count :: nat
  jr_max_attempts :: nat
  jr_retried :: bool
  jr_error_code :: "string option"
  jr_error_message :: "string option"
  jr_org_count :: u64
  jr_affected_count :: u64

definition run_running :: "uuid \<Rightarrow> datetime \<Rightarrow> background_job_kind \<Rightarrow> background_job_run" where
  "run_running i now kind =
     \<lparr>jr_id = i, jr_kind = kind, jr_status = JobRunning, jr_started_at = now, jr_finished_at = None, jr_duration_ms = None,
      jr_attempt_count = 1, jr_max_attempts = 1, jr_retried = False, jr_error_code = None, jr_error_message = None,
      jr_org_count = 0, jr_affected_count = 0\<rparr>"

text \<open>A negative difference counts as 0.\<close>

definition millis_between :: "datetime \<Rightarrow> datetime \<Rightarrow> u64" where
  "millis_between started finished = word_of_nat (nat ((finished - started) div 1000000))"

definition run_finish :: "datetime \<Rightarrow> background_job_status \<Rightarrow> background_job_run \<Rightarrow> background_job_run" where
  "run_finish now status run =
     run\<lparr>jr_duration_ms := Some (millis_between (jr_started_at run) now), jr_finished_at := Some now, jr_status := status\<rparr>"

definition run_ended ::
  "background_job_status \<Rightarrow> string \<Rightarrow> string \<Rightarrow> uuid \<Rightarrow> datetime \<Rightarrow> datetime \<Rightarrow> background_job_kind \<Rightarrow> background_job_run" where
  "run_ended status code message i started now kind =
     (run_finish now status (run_running i started kind))\<lparr>jr_error_code := Some code, jr_error_message := Some message\<rparr>"

definition run_skipped :: "uuid \<Rightarrow> datetime \<Rightarrow> datetime \<Rightarrow> background_job_kind \<Rightarrow> string \<Rightarrow> background_job_run" where
  "run_skipped i started now kind message = run_ended JobSkipped ''SKIPPED'' message i started now kind"

definition run_failed :: "uuid \<Rightarrow> datetime \<Rightarrow> datetime \<Rightarrow> background_job_kind \<Rightarrow> string \<Rightarrow> string \<Rightarrow> background_job_run" where
  "run_failed i started now kind code message = run_ended JobFailed code message i started now kind"

definition run_cancelled :: "uuid \<Rightarrow> datetime \<Rightarrow> datetime \<Rightarrow> background_job_kind \<Rightarrow> string \<Rightarrow> background_job_run" where
  "run_cancelled i started now kind message = run_ended JobCancelled ''SHUTDOWN_REQUESTED'' message i started now kind"

section \<open>Stored runs (\<open>ports/background_job_run_store.rs\<close>)\<close>

definition DEFAULT_BACKGROUND_JOB_RUN_LIMIT :: nat where
  "DEFAULT_BACKGROUND_JOB_RUN_LIMIT = 50"

definition MAX_BACKGROUND_JOB_RUN_LIMIT :: nat where
  "MAX_BACKGROUND_JOB_RUN_LIMIT = 100"

record stored_background_job_run =
  sj_id :: uuid
  sj_kind :: background_job_kind
  sj_status :: background_job_status
  sj_started_at :: datetime
  sj_finished_at :: "datetime option"
  sj_duration_ms :: "u64 option"
  sj_attempt_count :: nat
  sj_max_attempts :: nat
  sj_retried :: bool
  sj_error_code :: "string option"
  sj_error_message :: "string option"
  sj_metadata :: "json option"

text \<open>\<open>String::truncate\<close> panics when the cut is inside a character.\<close>

definition sanitize_background_job_error_message :: "string \<Rightarrow> string outcome" where
  "sanitize_background_job_error_message message =
     and_then (redact_str message) (\<lambda>sanitized.
     if 512 < length sanitized
     then and_then (split_at sanitized 512) (\<lambda>(kept, _). Inr (kept @ ''...''))
     else Inr sanitized)"

definition run_metadata :: "background_job_run \<Rightarrow> json" where
  "run_metadata run =
     JObject [(''affected_count'', JInt (uint (jr_affected_count run))), (''org_count'', JInt (uint (jr_org_count run))),
       (''retry'', JObject [(''attempt_count'', JInt (int (jr_attempt_count run))),
                            (''max_attempts'', JInt (int (jr_max_attempts run))), (''retried'', JBool (jr_retried run))])]"

definition stored_from_run :: "background_job_run \<Rightarrow> stored_background_job_run outcome" where
  "stored_from_run run =
     and_then (case jr_error_message run of None \<Rightarrow> Inr None
               | Some m \<Rightarrow> and_then (sanitize_background_job_error_message m) (\<lambda>m'. Inr (Some m'))) (\<lambda>message.
     Inr \<lparr>sj_id = jr_id run, sj_kind = jr_kind run, sj_status = jr_status run, sj_started_at = jr_started_at run,
          sj_finished_at = jr_finished_at run, sj_duration_ms = jr_duration_ms run,
          sj_attempt_count = jr_attempt_count run, sj_max_attempts = jr_max_attempts run, sj_retried = jr_retried run,
          sj_error_code = jr_error_code run, sj_error_message = message, sj_metadata = Some (run_metadata run)\<rparr>)"

text \<open>\<open>Value::get\<close>, \<open>as_u64\<close> and \<open>as_bool\<close>.\<close>

definition json_get :: "json option \<Rightarrow> string \<Rightarrow> json option" where
  "json_get v key = Option.bind v (\<lambda>j. Option.bind (json_as_object j) (\<lambda>kvs. map_of kvs key))"

fun json_as_u64 :: "json \<Rightarrow> u64 option" where
  "json_as_u64 (JInt n) = (if 0 \<le> n \<and> n < 2 ^ 64 then Some (word_of_int n) else None)"
| "json_as_u64 _ = None"

fun json_as_bool :: "json \<Rightarrow> bool option" where
  "json_as_bool (JBool b) = Some b"
| "json_as_bool _ = None"

definition or_zero :: "u64 option \<Rightarrow> u64" where
  "or_zero v = (case v of None \<Rightarrow> 0 | Some n \<Rightarrow> n)"

definition run_from_stored :: "stored_background_job_run \<Rightarrow> background_job_run" where
  "run_from_stored run =
     (let meta = sj_metadata run; retry = json_get meta ''retry'';
          count = (\<lambda>key. case Option.bind (json_get retry key) json_as_u64 of None \<Rightarrow> 1 | Some n \<Rightarrow> unat n);
          attempt_count = (if sj_attempt_count run = 0 then count ''attempt_count'' else sj_attempt_count run);
          max_attempts = (if sj_max_attempts run = 0 then count ''max_attempts'' else sj_max_attempts run);
          retried = (sj_retried run \<or> Option.bind (json_get retry ''retried'') json_as_bool = Some True \<or> 1 < attempt_count)
      in \<lparr>jr_id = sj_id run, jr_kind = sj_kind run, jr_status = sj_status run, jr_started_at = sj_started_at run,
          jr_finished_at = sj_finished_at run, jr_duration_ms = sj_duration_ms run, jr_attempt_count = attempt_count,
          jr_max_attempts = max_attempts, jr_retried = retried, jr_error_code = sj_error_code run,
          jr_error_message = sj_error_message run,
          jr_org_count = or_zero (Option.bind (json_get meta ''org_count'') json_as_u64),
          jr_affected_count = or_zero (Option.bind (json_get meta ''affected_count'') json_as_u64)\<rparr>)"

record background_job_run_query =
  jq_kind :: "background_job_kind option"
  jq_status :: "background_job_status option"
  jq_created_after :: "datetime option"
  jq_created_before :: "datetime option"
  jq_limit :: nat
  jq_cursor :: "page_cursor option"

record background_job_run_query_result =
  jp_runs :: "stored_background_job_run list"
  jp_next_cursor :: "string option"

definition validate_background_job_run_limit :: "nat \<Rightarrow> nat memcore_result" where
  "validate_background_job_run_limit limit =
     (if limit = 0 then Inr DEFAULT_BACKGROUND_JOB_RUN_LIMIT
      else if MAX_BACKGROUND_JOB_RUN_LIMIT < limit
      then Inl (ValidationError (''limit must be <= '' @ show_nat MAX_BACKGROUND_JOB_RUN_LIMIT))
      else Inr limit)"

section \<open>The run store (\<open>MockBackgroundJobRunStore\<close>)\<close>

type_synonym job_runs = "stored_background_job_run list"

definition run_matches_query :: "background_job_run_query \<Rightarrow> stored_background_job_run \<Rightarrow> bool" where
  "run_matches_query q run \<longleftrightarrow>
     is_none_or (jq_kind q) (\<lambda>k. sj_kind run = k) \<and> is_none_or (jq_status q) (\<lambda>st. sj_status run = st) \<and>
     is_none_or (jq_created_after q) (\<lambda>d. \<not> sj_started_at run < d) \<and>
     is_none_or (jq_created_before q) (\<lambda>d. \<not> d \<le> sj_started_at run)"

definition insert_run :: "stored_background_job_run \<Rightarrow> (job_runs, fault, stored_background_job_run) comp" where
  "insert_run run s = (Inr run, s @ [run])"

definition run_desc_le :: "stored_background_job_run \<Rightarrow> stored_background_job_run \<Rightarrow> bool" where
  "run_desc_le = lex_le (\<lambda>a b. sj_started_at b \<le> sj_started_at a) (\<lambda>a b. sj_id b \<le> sj_id a)"

definition run_cursor :: "stored_background_job_run \<Rightarrow> page_cursor" where
  "run_cursor run = \<lparr>last_id = uuid_to_string (sj_id run), last_sort_value = sj_started_at run\<rparr>"

definition query_runs :: "codec \<Rightarrow> background_job_run_query \<Rightarrow> (job_runs, fault, background_job_run_query_result) comp" where
  "query_runs cd q s =
     (and_then (lift_err (validate_background_job_run_limit (jq_limit q))) (\<lambda>limit.
        let sorted = sort_by run_desc_le (filter (run_matches_query q) s);
            rest = (case jq_cursor q of
                      Some c \<Rightarrow> filter (\<lambda>r. is_after_cursor_in_desc_order (sj_started_at r) (uuid_to_string (sj_id r)) c) sorted
                    | None \<Rightarrow> sorted)
        in and_then (build_page cd rest limit run_cursor) (\<lambda>page.
             Inr \<lparr>jp_runs = p_items page, jp_next_cursor = p_next_cursor page\<rparr>)), s)"

definition delete_runs_older_than :: "datetime \<Rightarrow> bool \<Rightarrow> (job_runs, fault, nat) comp" where
  "delete_runs_older_than cutoff dry_run s =
     (let matched = length (filter (\<lambda>r. sj_started_at r < cutoff) s)
      in (Inr matched, if dry_run then s else filter (\<lambda>r. cutoff \<le> sj_started_at r) s))"

section \<open>The lock store (\<open>MockBackgroundJobLockStore\<close>)\<close>

record job_lock_record =
  jl_kind :: background_job_kind
  jl_owner_id :: string
  jl_locked_until :: datetime
  jl_acquired_at :: datetime
  jl_heartbeat_at :: "datetime option"

record acquired_job_lock =
  al_kind :: background_job_kind
  al_owner_id :: string
  al_locked_until :: datetime

type_synonym job_locks = "background_job_kind \<rightharpoonup> job_lock_record"

text \<open>\<open>chrono::Duration::from_std\<close> fails above \<open>i64::MAX\<close> milliseconds.\<close>

definition from_std :: "nat \<Rightarrow> int option" where
  "from_std d = (if d \<le> (2 ^ 63 - 1) * 1000000 then Some (int d) else None)"

definition lock_until_from_ttl :: "time_range \<Rightarrow> datetime \<Rightarrow> nat \<Rightarrow> datetime outcome" where
  "lock_until_from_ttl tr now ttl = time_offset tr now (case from_std ttl of None \<Rightarrow> 0 | Some d \<Rightarrow> d)"

definition try_acquire_lock ::
  "time_range \<Rightarrow> datetime \<Rightarrow> background_job_kind \<Rightarrow> string \<Rightarrow> nat \<Rightarrow> (job_locks, fault, acquired_job_lock option) comp" where
  "try_acquire_lock tr now kind owner ttl locks =
     (case lock_until_from_ttl tr now ttl of
        Inl e \<Rightarrow> (Inl e, locks)
      | Inr locked_until \<Rightarrow>
          if (case locks kind of None \<Rightarrow> False | Some l \<Rightarrow> now < jl_locked_until l \<and> jl_owner_id l \<noteq> owner)
          then (Inr None, locks)
          else (Inr (Some \<lparr>al_kind = kind, al_owner_id = owner, al_locked_until = locked_until\<rparr>),
                locks(kind \<mapsto> \<lparr>jl_kind = kind, jl_owner_id = owner, jl_locked_until = locked_until, jl_acquired_at = now,
                                jl_heartbeat_at = None\<rparr>)))"

definition renew_lock ::
  "time_range \<Rightarrow> datetime \<Rightarrow> background_job_kind \<Rightarrow> string \<Rightarrow> nat \<Rightarrow> (job_locks, fault, bool) comp" where
  "renew_lock tr now kind owner ttl locks =
     (case locks kind of
        None \<Rightarrow> (Inr False, locks)
      | Some l \<Rightarrow>
          if jl_owner_id l \<noteq> owner then (Inr False, locks)
          else (case lock_until_from_ttl tr now ttl of
                  Inl e \<Rightarrow> (Inl e, locks)
                | Inr locked_until \<Rightarrow>
                    (Inr True, locks(kind \<mapsto> l\<lparr>jl_locked_until := locked_until, jl_heartbeat_at := Some now\<rparr>))))"

definition release_lock :: "background_job_kind \<Rightarrow> string \<Rightarrow> (job_locks, fault, bool) comp" where
  "release_lock kind owner locks =
     (if map_option jl_owner_id (locks kind) \<noteq> Some owner then (Inr False, locks)
      else (Inr True, locks(kind := None)))"

definition get_lock :: "background_job_kind \<Rightarrow> (job_locks, fault, job_lock_record option) comp" where
  "get_lock kind locks = (Inr (locks kind), locks)"

section \<open>Runs are stored and read back\<close>

lemma job_kind_roundtrip: "job_kind_from_str (job_kind_as_str k) = Inr k" "job_kind_from_str (job_kind_as_path k) = Inr k"
  by (cases k; simp add: job_kind_from_str_def Let_def str_eval ws_heads_eval ws_tails_eval)+

lemma job_status_roundtrip: "job_status_from_str (job_status_as_str st) = Inr st"
  by (cases st) (simp_all add: job_status_from_str_def Let_def str_eval ws_heads_eval ws_tails_eval)

lemma uint_u64_bounds: "uint (n :: u64) < 18446744073709551616" "0 \<le> uint n"
  using uint_lt2p [of n] by simp_all

text \<open>A stored run gives back the run, but for an error message that storing redacts.\<close>

lemma run_stored_roundtrip:
  assumes "stored_from_run run = Inr stored" "0 < jr_attempt_count run" "0 < jr_max_attempts run"
    and "jr_retried run \<longleftrightarrow> 1 < jr_attempt_count run"
  shows "run_from_stored stored = run\<lparr>jr_error_message := sj_error_message stored\<rparr>"
proof -
  from assms(1) obtain message where st: "stored =
      \<lparr>sj_id = jr_id run, sj_kind = jr_kind run, sj_status = jr_status run, sj_started_at = jr_started_at run,
       sj_finished_at = jr_finished_at run, sj_duration_ms = jr_duration_ms run,
       sj_attempt_count = jr_attempt_count run, sj_max_attempts = jr_max_attempts run, sj_retried = jr_retried run,
       sj_error_code = jr_error_code run, sj_error_message = message, sj_metadata = Some (run_metadata run)\<rparr>"
    unfolding stored_from_run_def and_then_eq_Inr by blast
  have "or_zero (Option.bind (json_get (Some (run_metadata run)) ''org_count'') json_as_u64) = jr_org_count run"
    "or_zero (Option.bind (json_get (Some (run_metadata run)) ''affected_count'') json_as_u64) = jr_affected_count run"
    "Option.bind (json_get (json_get (Some (run_metadata run)) ''retry'') ''retried'') json_as_bool = Some (jr_retried run)"
    by (simp_all add: run_metadata_def json_get_def or_zero_def uint_u64_bounds)
  with assms(2-4) show ?thesis
    unfolding run_from_stored_def st by (cases run) (simp add: Let_def)
qed

interpretation job_run_pages: page_order sj_started_at "\<lambda>r. uuid_to_string (sj_id r)" run_desc_le
proof
  fix x y :: stored_background_job_run
  have "uuid_to_string (sj_id y) \<le> uuid_to_string (sj_id x) \<longleftrightarrow> sj_id y \<le> sj_id x"
    by (simp add: uuid_to_string_less flip: not_less)
  then show "run_desc_le x y \<longleftrightarrow> sj_started_at y < sj_started_at x \<or>
      (sj_started_at x = sj_started_at y \<and> uuid_to_string (sj_id y) \<le> uuid_to_string (sj_id x))"
    by (auto simp: run_desc_le_def lex_le_def)
qed

section \<open>Leases\<close>

text \<open>What the runner relies on of a lock store: who holds a job's lease and until when, and what the three operations
  do to the lease of a job.\<close>

datatype lock_op =
    OpAcquire (op_now: datetime) (op_kind: background_job_kind) (op_owner: string) (op_ttl: nat)
  | OpRenew (op_now: datetime) (op_kind: background_job_kind) (op_owner: string) (op_ttl: nat)
  | OpRelease (op_now: datetime) (op_kind: background_job_kind) (op_owner: string)

locale job_lock_port =
  fixes lease :: "'s \<Rightarrow> background_job_kind \<Rightarrow> (string \<times> datetime) option"
    and acquire :: "datetime \<Rightarrow> background_job_kind \<Rightarrow> string \<Rightarrow> nat \<Rightarrow> ('s, fault, acquired_job_lock option) comp"
    and renew :: "datetime \<Rightarrow> background_job_kind \<Rightarrow> string \<Rightarrow> nat \<Rightarrow> ('s, fault, bool) comp"
    and release :: "background_job_kind \<Rightarrow> string \<Rightarrow> ('s, fault, bool) comp"
  assumes acquire_granted: "acquire now k a ttl s = (Inr (Some l), s') \<Longrightarrow> lease s' k = Some (a, al_locked_until l)"
    and acquire_refused: "lease s k = Some (a, u) \<Longrightarrow> b \<noteq> a \<Longrightarrow> now < u \<Longrightarrow>
      fst (acquire now k b ttl s) \<in> {Inr None, Inl Panic} \<and> lease (snd (acquire now k b ttl s)) k = lease s k"
    and acquire_other_kind: "k' \<noteq> k \<Longrightarrow> lease (snd (acquire now k' b ttl s)) k = lease s k"
    and acquire_expired: "(\<And>a u. lease s k = Some (a, u) \<Longrightarrow> u \<le> now) \<Longrightarrow>
      fst (acquire now k b ttl s) = Inl Panic \<or> (\<exists>l. fst (acquire now k b ttl s) = Inr (Some l))"
    and renew_other: "k' \<noteq> k \<or> (\<forall>u. lease s k \<noteq> Some (b, u)) \<Longrightarrow> lease (snd (renew now k' b ttl s)) k = lease s k"
    and release_other: "k' \<noteq> k \<or> (\<forall>u. lease s k \<noteq> Some (b, u)) \<Longrightarrow> lease (snd (release k' b s)) k = lease s k"
    and release_owner: "lease s k = Some (a, u) \<Longrightarrow> fst (release k a s) = Inr True \<and> lease (snd (release k a s)) k = None"
begin

definition lock_exec :: "lock_op \<Rightarrow> 's \<Rightarrow> 's" where
  "lock_exec oper s =
     (case oper of OpAcquire now k b ttl \<Rightarrow> snd (acquire now k b ttl s)
      | OpRenew now k b ttl \<Rightarrow> snd (renew now k b ttl s)
      | OpRelease now k b \<Rightarrow> snd (release k b s))"

lemma lease_survives_step:
  assumes "lease s k = Some (a, u)" "op_owner oper \<noteq> a" "op_now oper < u"
  shows "lease (lock_exec oper s) k = Some (a, u)"
proof (cases oper)
  case (OpAcquire now k' b ttl)
  with assms acquire_refused [of s k a u b now ttl] acquire_other_kind [of k' k now b ttl s] show ?thesis
    by (cases "k' = k") (auto simp: lock_exec_def)
next
  case (OpRenew now k' b ttl)
  with assms renew_other [of k' k s b now ttl] show ?thesis by (simp add: lock_exec_def)
next
  case (OpRelease now k' b)
  with assms release_other [of k' k s b] show ?thesis by (simp add: lock_exec_def)
qed

lemma lease_survives:
  assumes "lease s k = Some (a, u)" "\<forall>oper \<in> set ops. op_owner oper \<noteq> a \<and> op_now oper < u"
  shows "lease (fold lock_exec ops s) k = Some (a, u)"
  using assms by (induction ops arbitrary: s) (auto simp: lease_survives_step)

lemma lease_exclusive:
  assumes "acquire now k a ttl s = (Inr (Some l), s1)"
    and "\<forall>oper \<in> set ops. op_owner oper \<noteq> a \<and> op_now oper < al_locked_until l"
  defines "s2 \<equiv> fold lock_exec ops s1"
  shows "(\<forall>b t ttl'. b \<noteq> a \<longrightarrow> t < al_locked_until l \<longrightarrow> fst (acquire t k b ttl' s2) \<in> {Inr None, Inl Panic}) \<and>
    fst (release k a s2) = Inr True \<and>
    (\<forall>b t ttl'. al_locked_until l \<le> t \<longrightarrow> fst (acquire t k b ttl' s2) = Inl Panic \<or> (\<exists>l'. fst (acquire t k b ttl' s2) = Inr (Some l')))"
proof -
  have held: "lease s2 k = Some (a, al_locked_until l)"
    unfolding s2_def by (rule lease_survives [OF acquire_granted [OF assms(1)] assms(2)])
  with acquire_refused [OF held] release_owner [OF held] acquire_expired [of s2 k] show ?thesis by auto
qed

end

definition lock_lease :: "job_locks \<Rightarrow> background_job_kind \<Rightarrow> (string \<times> datetime) option" where
  "lock_lease locks k = map_option (\<lambda>l. (jl_owner_id l, jl_locked_until l)) (locks k)"

lemma lock_until_no_error: "lock_until_from_ttl tr now ttl = Inl e \<Longrightarrow> e = Panic"
  by (auto simp: lock_until_from_ttl_def time_offset_def split: if_splits)

interpretation mock_locks: job_lock_port lock_lease "try_acquire_lock tr" "renew_lock tr" release_lock for tr
proof (unfold_locales, goal_cases)
  case (1 now k a ttl s l s')
  then show ?case by (auto simp: try_acquire_lock_def lock_lease_def split: sum.splits if_splits)
next
  case (2 s k a u b now ttl)
  then show ?case
    by (auto simp: try_acquire_lock_def lock_lease_def lock_until_no_error split: sum.splits option.splits)
next
  case (3 k' k now b ttl s)
  then show ?case by (auto simp: try_acquire_lock_def lock_lease_def split: sum.splits)
next
  case (4 s k now b ttl)
  then show ?case
    by (force simp: try_acquire_lock_def lock_lease_def lock_until_no_error split: sum.splits option.splits)
next
  case (5 k' k s b now ttl)
  then show ?case by (auto simp: renew_lock_def lock_lease_def split: sum.splits option.splits)
next
  case (6 k' k s b)
  then show ?case by (auto simp: release_lock_def lock_lease_def)
next
  case (7 s k a u)
  then show ?case by (auto simp: release_lock_def lock_lease_def)
qed

definition apply_lock_op :: "time_range \<Rightarrow> lock_op \<Rightarrow> job_locks \<Rightarrow> job_locks" where
  "apply_lock_op tr oper locks =
     (case oper of OpAcquire now k b ttl \<Rightarrow> snd (try_acquire_lock tr now k b ttl locks)
      | OpRenew now k b ttl \<Rightarrow> snd (renew_lock tr now k b ttl locks)
      | OpRelease now k b \<Rightarrow> snd (release_lock k b locks))"

lemma apply_lock_op_eq: "apply_lock_op tr = mock_locks.lock_exec tr"
  by (simp add: fun_eq_iff apply_lock_op_def mock_locks.lock_exec_def)

text \<open>A job lock is exclusive for as long as it was granted: after an instance has acquired it, whatever acquisitions,
  renewals and releases other instances make before it expires, in any order and of any job, no other instance gets it
  before then (it is refused, or its own expiry is beyond the end of time and it panics) and the owner can still release
  it. Once the lease has expired, any instance can take it over, so a crashed owner blocks no one.\<close>

theorem job_lease_exclusive:
  assumes "try_acquire_lock tr now k a ttl s = (Inr (Some l), s1)"
    and "\<forall>oper \<in> set ops. op_owner oper \<noteq> a \<and> op_now oper < al_locked_until l"
    and "s2 = fold (apply_lock_op tr) ops s1"
  shows "(\<forall>b t ttl'. b \<noteq> a \<longrightarrow> t < al_locked_until l \<longrightarrow> fst (try_acquire_lock tr t k b ttl' s2) \<in> {Inr None, Inl Panic}) \<and>
    fst (release_lock k a s2) = Inr True \<and>
    (\<forall>b t ttl'. al_locked_until l \<le> t \<longrightarrow> fst (try_acquire_lock tr t k b ttl' s2) = Inl Panic \<or>
       (\<exists>l'. fst (try_acquire_lock tr t k b ttl' s2) = Inr (Some l')))"
  unfolding assms(3) apply_lock_op_eq by (rule mock_locks.lease_exclusive [OF assms(1,2)])

theorem job_lease_exclusive_witness:
  "fst (try_acquire_lock \<lparr>t_min = - 1000, t_max = 1000\<rparr> 7 MemoryRetention ''b'' 10
     (fold (apply_lock_op \<lparr>t_min = - 1000, t_max = 1000\<rparr>)
       [OpAcquire 5 MemoryRetention ''b'' 10, OpRelease 6 MemoryRetention ''b'']
       (snd (try_acquire_lock \<lparr>t_min = - 1000, t_max = 1000\<rparr> 0 MemoryRetention ''a'' 10 Map.empty)))) \<in> {Inr None, Inl Panic}"
proof -
  let ?tr = "\<lparr>t_min = - 1000, t_max = 1000\<rparr> :: time_range"
  let ?ops = "[OpAcquire 5 MemoryRetention ''b'' 10, OpRelease 6 MemoryRetention ''b'']"
  let ?l = "\<lparr>al_kind = MemoryRetention, al_owner_id = ''a'', al_locked_until = 10\<rparr>"
  have "try_acquire_lock ?tr 0 MemoryRetention ''a'' 10 Map.empty
      = (Inr (Some ?l), snd (try_acquire_lock ?tr 0 MemoryRetention ''a'' 10 Map.empty))"
    by (simp add: try_acquire_lock_def lock_until_from_ttl_def from_std_def time_offset_def)
  from job_lease_exclusive [OF this, of ?ops] show ?thesis by simp
qed

text \<open>The history of a job fails to be written when the redacted message is longer than 512 bytes and a character lies
  across the cut.\<close>

lemma truncated_message_panics:
  assumes "redact_str m = Inr t" "512 < length t" "is_continuation (t ! 512)"
  shows "sanitize_background_job_error_message m = Inl Panic"
  using assms by (simp add: sanitize_background_job_error_message_def split_at_def)

end
