(* ===== verification/Job_Runner.thy ===== *)
theory Job_Runner
  imports Job_Store Engine_Safety Provider_Call
begin

text \<open>
  \<^verbatim>\<open>crates/memcore-core/src/jobs\<close>: the jobs (\<open>registry.rs\<close>), how one is retried (\<open>retry.rs\<close>) and the
  runner that schedules them under the locks (\<open>runner.rs\<close>). The engine is the one of \<open>Engine_Admin\<close>; a panic in
  a job ends the runner's task, with whatever was written before it.
\<close>

section \<open>Retries (\<open>retry.rs\<close>)\<close>

record background_job_retry_policy =
  jp_enabled :: bool
  jp_max_retries :: nat
  jp_initial_backoff :: nat
  jp_max_backoff :: nat
  jp_backoff_multiplier :: f32
  jp_jitter_enabled :: bool

definition job_retry_policy_default :: background_job_retry_policy where
  "job_retry_policy_default =
     \<lparr>jp_enabled = True, jp_max_retries = 2, jp_initial_backoff = 500 * 10 ^ 6, jp_max_backoff = 5000 * 10 ^ 6,
      jp_backoff_multiplier = Fin 2, jp_jitter_enabled = True\<rparr>"

definition job_retry_policy_disabled :: background_job_retry_policy where
  "job_retry_policy_disabled = job_retry_policy_default\<lparr>jp_enabled := False\<rparr>"

definition job_total_attempts :: "background_job_retry_policy \<Rightarrow> nat" where
  "job_total_attempts p = (if jp_enabled p then usize_saturating_add (jp_max_retries p) 1 else 1)"

definition calculate_background_job_backoff ::
  "(f64 \<Rightarrow> 32 word \<Rightarrow> f64) \<Rightarrow> nat \<Rightarrow> nat \<Rightarrow> background_job_retry_policy \<Rightarrow> nat" where
  "calculate_background_job_backoff f64_powi nanos attempt p =
     (let n = word_of_nat (max attempt 1) :: 32 word;
          base_ms = f64_of_nat (as_millis (jp_initial_backoff p));
          multiplier = f64_of_f32 (f32_max (jp_backoff_multiplier p) (Fin 1));
          max_ms = f64_of_nat (as_millis (jp_max_backoff p));
          exp_ms = f64_min (f64_mul base_ms (f64_powi multiplier (n - 1))) max_ms;
          delay_ms = f64_to_u64 (f64_max exp_ms (Fin64 1));
          delay_ms =
            (if jp_jitter_enabled p
             then min (min (delay_ms + min (delay_ms * simple_jitter_percent nanos) u64_max div 100) u64_max)
                    (as_millis (jp_max_backoff p) mod 2 ^ 64)
             else delay_ms)
      in max delay_ms 1 * 10 ^ 6)"

definition is_retryable_job_error_message :: "string \<Rightarrow> bool" where
  "is_retryable_job_error_message message =
     (let lower = to_ascii_lowercase message in
      if contains lower ''unauthorized'' \<or> contains lower ''forbidden'' \<or> contains lower ''invalid config'' \<or>
         contains lower ''validation'' \<or> contains lower ''quota'' \<or> contains lower ''unsupported'' \<or>
         contains lower ''missing required'' then False
      else contains lower ''timed out'' \<or> contains lower ''timeout'' \<or> contains lower ''temporarily unavailable'' \<or>
        contains lower ''service unavailable'' \<or> contains lower ''connection reset'' \<or> contains lower ''connection refused'' \<or>
        contains lower ''database is locked'' \<or> contains lower ''deadlock'' \<or> contains lower ''lock unavailable'' \<or>
        contains lower ''unavailable'' \<or> contains_http_status message ''429'' \<or> contains_http_status message ''500'' \<or>
        contains_http_status message ''502'' \<or> contains_http_status message ''503'' \<or> contains_http_status message ''504'')"

fun is_retryable_job_error :: "memcore_error \<Rightarrow> bool" where
  "is_retryable_job_error (Timeout _) = True"
| "is_retryable_job_error RateLimited = True"
| "is_retryable_job_error (StorageError message) = is_retryable_job_error_message message"
| "is_retryable_job_error (ProviderError message) = is_retryable_job_error_message message"
| "is_retryable_job_error (Internal message) = is_retryable_job_error_message message"
| "is_retryable_job_error _ = False"

section \<open>The jobs (\<open>registry.rs\<close>)\<close>

text \<open>What one organisation adds: the number of affected records, or an error that the loop goes over.\<close>

record org_tally =
  ot_failures :: u64
  ot_successes :: u64
  ot_affected :: u64
  ot_first_retryable :: "memcore_error option"

fun for_each_org :: "(string \<Rightarrow> u64 eng) \<Rightarrow> string list \<Rightarrow> org_tally \<Rightarrow> org_tally eng" where
  "for_each_org work [] tally = ret tally"
| "for_each_org work (org # orgs) tally =
     bindC (catch_err (work org)) (\<lambda>r.
     for_each_org work orgs
       (case r of
          Inr affected \<Rightarrow> tally\<lparr>ot_successes := ot_successes tally + 1, ot_affected := ot_affected tally + affected\<rparr>
        | Inl e \<Rightarrow> tally\<lparr>ot_failures := ot_failures tally + 1,
            ot_first_retryable := (if ot_first_retryable tally = None \<and> is_retryable_job_error e then Some e
                                   else ot_first_retryable tally)\<rparr>))"

definition start_run :: "env \<Rightarrow> background_job_kind \<Rightarrow> background_job_run eng" where
  "start_run env kind = bindC (new_v4 env) (\<lambda>i. bindC (utc_now env) (\<lambda>now. ret (run_running i now kind)))"

definition finish_run :: "env \<Rightarrow> background_job_status \<Rightarrow> background_job_run \<Rightarrow> background_job_run eng" where
  "finish_run env status run = bindC (utc_now env) (\<lambda>now. ret (run_finish now status run))"

definition finish_with :: "env \<Rightarrow> background_job_status \<Rightarrow> string \<Rightarrow> string \<Rightarrow> background_job_run \<Rightarrow> background_job_run eng" where
  "finish_with env status code message run =
     finish_run env status (run\<lparr>jr_error_code := Some code, jr_error_message := Some message\<rparr>)"

text \<open>The end both jobs over organisations share: an error is returned, to be retried, only when nothing succeeded.\<close>

definition conclude_orgs :: "env \<Rightarrow> org_tally \<Rightarrow> background_job_run \<Rightarrow> background_job_run eng" where
  "conclude_orgs env tally run0 =
     (let run = run0\<lparr>jr_affected_count := ot_affected tally\<rparr> in
      if 0 < ot_failures tally
      then (case (ot_successes tally = 0, ot_first_retryable tally) of
              (True, Some e) \<Rightarrow> throw (Err e)
            | _ \<Rightarrow> finish_with env JobFailed ''PARTIAL_FAILURE''
                     (show_nat (unat (ot_failures tally)) @ '' organization(s) failed'') run)
      else finish_run env JobSucceeded run)"

definition tally_new :: org_tally where
  "tally_new = \<lparr>ot_failures = 0, ot_successes = 0, ot_affected = 0, ot_first_retryable = None\<rparr>"

definition snapshot_job_run_once :: "env \<Rightarrow> string list \<Rightarrow> background_job_run eng" where
  "snapshot_job_run_once env org_ids =
     bindC (start_run env MemoryUsageSnapshot) (\<lambda>run0.
     let run = run0\<lparr>jr_org_count := word_of_nat (length org_ids)\<rparr> in
     if org_ids = []
     then finish_with env JobSkipped ''NO_CONFIGURED_ORGS'' ''no organization ids configured for background jobs'' run
     else bindC (for_each_org (\<lambda>org. seqC (create_memory_usage_snapshot env org None) (ret 1)) org_ids tally_new) (\<lambda>tally.
          conclude_orgs env tally run))"

definition retention_job_run_once :: "env \<Rightarrow> string list \<Rightarrow> u32 \<Rightarrow> background_job_run eng" where
  "retention_job_run_once env org_ids retention_days =
     bindC (start_run env ProviderUsageRetention) (\<lambda>run0.
     let run = run0\<lparr>jr_org_count := word_of_nat (length org_ids)\<rparr> in
     if org_ids = []
     then finish_with env JobSkipped ''NO_CONFIGURED_ORGS'' ''no organization ids configured for background jobs'' run
     else if retention_days = 0
     then finish_with env JobSkipped ''RETENTION_DISABLED'' ''provider usage retention days is 0'' run
     else bindC (for_each_org (\<lambda>org. bindC (apply_provider_usage_retention env org retention_days False)
                   (\<lambda>out. ret (word_of_nat (pr_deleted_events out)))) org_ids tally_new) (\<lambda>tally.
          conclude_orgs env tally run))"

definition memory_retention_job_run_once :: "env \<Rightarrow> background_job_run eng" where
  "memory_retention_job_run_once env =
     bindC (start_run env MemoryRetention) (\<lambda>run.
     finish_with env JobSkipped ''USER_DISCOVERY_NOT_IMPLEMENTED''
       ''user discovery for org-wide memory retention is not implemented yet'' run)"

record background_job =
  bj_kind :: background_job_kind
  bj_interval :: nat
  bj_enabled :: bool
  bj_run_once :: "background_job_run eng"

definition job_definition :: "background_job \<Rightarrow> background_job_definition" where
  "job_definition j = \<lparr>jd_kind = bj_kind j, jd_enabled = bj_enabled j, jd_interval = bj_interval j\<rparr>"

section \<open>The world of the runner\<close>

text \<open>
  Of the runtime: whether shutdown has been requested at a tick; whether an attempt is dropped because shutdown took
  too long, or the whole job because its interval has passed, and what the engine's state is then; whether a pause
  between attempts is cut short; the monotonic clock. Of the stores, which may be those of a database that other
  instances share: whether a call fails at a tick, and if it does, whether it had taken effect; and what the other
  instances have done to the locks by the time a job ends.
\<close>

datatype store_call = InsertRun | AcquireLock | ReleaseLock

record job_oracle =
  jo_cancelled :: "nat \<Rightarrow> bool"
  jo_drop :: "sys \<Rightarrow> sys option"
  jo_timer :: "sys \<Rightarrow> sys option"
  jo_sleep_cut :: "nat \<Rightarrow> bool"
  jo_elapsed_ms :: "nat \<Rightarrow> u64"
  jo_store_fault :: "store_call \<Rightarrow> nat \<Rightarrow> (memcore_error \<times> bool) option"
  jo_others :: "sys \<Rightarrow> job_locks \<Rightarrow> job_locks"

text \<open>A store's answer and its contents, when the call may fail.\<close>

fun faulty :: "(memcore_error \<times> bool) option \<Rightarrow> 's \<Rightarrow> 'a outcome \<times> 's \<Rightarrow> 'a outcome \<times> 's" where
  "faulty None old (r, new) = (r, new)"
| "faulty (Some (e, took_effect)) old (r, new) = (Inl (Err e), if took_effect then new else old)"

datatype job_attempt = Completed "background_job_run memcore_result" | ShutdownTimeout

definition attempt_job :: "job_oracle \<Rightarrow> bool \<Rightarrow> background_job_run eng \<Rightarrow> job_attempt eng" where
  "attempt_job w has_token oper x =
     (case (has_token, jo_drop w x) of
        (True, Some x') \<Rightarrow> (Inr ShutdownTimeout, x')
      | _ \<Rightarrow> bindC (catch_err oper) (\<lambda>r. ret (Completed r)) x)"

definition cancelled_run ::
  "env \<Rightarrow> job_oracle \<Rightarrow> background_job_kind \<Rightarrow> datetime \<Rightarrow> nat \<Rightarrow> nat \<Rightarrow> background_job_run eng" where
  "cancelled_run env w kind started_at attempts_made max_attempts =
     bindC (utc_now env) (\<lambda>finished_at.
     bindC (new_v4 env) (\<lambda>i. bindC (utc_now env) (\<lambda>now. bindC (utc_now env) (\<lambda>now'.
     bindC (getsC s_tick) (\<lambda>n.
     ret ((run_cancelled i now now' kind ''shutdown requested'')
            \<lparr>jr_started_at := started_at, jr_finished_at := Some finished_at, jr_duration_ms := Some (jo_elapsed_ms w n),
             jr_attempt_count := attempts_made, jr_max_attempts := max_attempts, jr_retried := (1 < attempts_made)\<rparr>))))))"

definition exhausted_run ::
  "env \<Rightarrow> job_oracle \<Rightarrow> background_job_kind \<Rightarrow> datetime \<Rightarrow> nat \<Rightarrow> nat \<Rightarrow> memcore_error option \<Rightarrow> background_job_run eng" where
  "exhausted_run env w kind started_at attempts_made max_attempts final_error =
     (let e = (case final_error of Some e \<Rightarrow> e | None \<Rightarrow> Internal ''background job failed'') in
      bindC (utc_now env) (\<lambda>finished_at. bindC (new_v4 env) (\<lambda>i. bindC (getsC s_tick) (\<lambda>n.
      ret \<lparr>jr_id = i, jr_kind = kind, jr_status = JobFailed, jr_started_at = started_at, jr_finished_at = Some finished_at,
           jr_duration_ms = Some (jo_elapsed_ms w n), jr_attempt_count = max attempts_made 1, jr_max_attempts = max_attempts,
           jr_retried = (1 < attempts_made), jr_error_code = Some (error_code e), jr_error_message = Some (error_message e),
           jr_org_count = 0, jr_affected_count = 0\<rparr>))))"

text \<open>The loop over the attempts: \<open>n\<close> are left, \<open>k\<close> have been made. A pause, whose length is
  \<open>calculate_background_job_backoff\<close>, changes nothing unless it is cut short.\<close>

fun job_attempts ::
  "env \<Rightarrow> job_oracle \<Rightarrow> bool \<Rightarrow> background_job_kind \<Rightarrow> background_job_retry_policy \<Rightarrow> datetime \<Rightarrow> background_job_run eng \<Rightarrow>
   nat \<Rightarrow> nat \<Rightarrow> memcore_error option \<Rightarrow> background_job_run eng" where
  "job_attempts env w token kind p started_at oper 0 k final_error =
     exhausted_run env w kind started_at k (job_total_attempts p) final_error"
| "job_attempts env w token kind p started_at oper (Suc n) k final_error =
     bindC (getsC s_tick) (\<lambda>t.
     if token \<and> jo_cancelled w t then cancelled_run env w kind started_at k (job_total_attempts p)
     else bindC (attempt_job w token oper) (\<lambda>a.
     case a of
       ShutdownTimeout \<Rightarrow> cancelled_run env w kind started_at (k + 1) (job_total_attempts p)
     | Completed (Inr run) \<Rightarrow>
         ret (run\<lparr>jr_attempt_count := k + 1, jr_max_attempts := job_total_attempts p, jr_retried := (1 < k + 1)\<rparr>)
     | Completed (Inl e) \<Rightarrow>
         if \<not> jp_enabled p \<or> \<not> is_retryable_job_error e \<or> job_total_attempts p \<le> k + 1
         then exhausted_run env w kind started_at (k + 1) (job_total_attempts p) (Some e)
         else bindC (getsC s_tick) (\<lambda>t'.
              if token \<and> jo_sleep_cut w t' then cancelled_run env w kind started_at (k + 1) (job_total_attempts p)
              else job_attempts env w token kind p started_at oper n (k + 1) (Some e))))"

definition execute_background_job_with_retries_and_shutdown ::
  "env \<Rightarrow> job_oracle \<Rightarrow> bool \<Rightarrow> background_job_kind \<Rightarrow> background_job_retry_policy \<Rightarrow> background_job_run eng \<Rightarrow> background_job_run eng" where
  "execute_background_job_with_retries_and_shutdown env w token kind p oper =
     bindC (utc_now env) (\<lambda>started_at.
     job_attempts env w token kind p started_at oper (job_total_attempts p) 0 None)"

section \<open>The state of the runner (\<open>runner.rs\<close>)\<close>

definition DEFAULT_RECENT_RUN_LIMIT :: nat where
  "DEFAULT_RECENT_RUN_LIMIT = 100"

record job_state =
  js_last_runs :: "background_job_kind \<rightharpoonup> datetime"
  js_running :: "background_job_kind set"
  js_recent_runs :: "background_job_run list"
  js_recent_run_limit :: nat

definition job_state_new :: "nat \<Rightarrow> job_state" where
  "job_state_new recent_run_limit =
     \<lparr>js_last_runs = Map.empty, js_running = {}, js_recent_runs = [], js_recent_run_limit = max recent_run_limit 1\<rparr>"

definition try_begin :: "background_job_kind \<Rightarrow> job_state \<Rightarrow> bool \<times> job_state" where
  "try_begin kind st = (kind \<notin> js_running st, st\<lparr>js_running := insert kind (js_running st)\<rparr>)"

text \<open>Adding an interval to a time may panic, like every sum of times.\<close>

definition is_due :: "time_range \<Rightarrow> background_job_definition \<Rightarrow> datetime \<Rightarrow> job_state \<Rightarrow> bool outcome" where
  "is_due tr d now st =
     (if jd_kind d \<in> js_running st then Inr False
      else case js_last_runs st (jd_kind d) of
             None \<Rightarrow> Inr True
           | Some last_run \<Rightarrow>
               (case from_std (jd_interval d) of
                  None \<Rightarrow> Inr False
                | Some interval \<Rightarrow> and_then (time_offset tr last_run interval) (\<lambda>due. Inr (due \<le> now))))"

definition state_record_run :: "background_job_run \<Rightarrow> job_state \<Rightarrow> job_state" where
  "state_record_run run st =
     st\<lparr>js_running := js_running st - {jr_kind run},
        js_last_runs := (js_last_runs st)(jr_kind run \<mapsto> jr_started_at run),
        js_recent_runs := take (js_recent_run_limit st) (run # js_recent_runs st)\<rparr>"

record background_job_runner =
  ru_jobs_enabled :: bool
  ru_jobs :: "(background_job_kind, background_job) hash_map"
  ru_history_enabled :: bool
  ru_lock_enabled :: bool
  ru_lock_owner_id :: string
  ru_lock_ttl :: nat
  ru_retry_policy :: background_job_retry_policy
  ru_has_shutdown_token :: bool
  ru_runner_interval :: nat
  ru_shutdown_timeout :: nat

definition job_runner_new :: "bool \<Rightarrow> nat \<Rightarrow> background_job list \<Rightarrow> background_job_runner" where
  "job_runner_new jobs_enabled runner_interval jobs =
     \<lparr>ru_jobs_enabled = jobs_enabled, ru_jobs = fold (\<lambda>job m. AList.update (bj_kind job) job m) jobs [],
      ru_history_enabled = False, ru_lock_enabled = False, ru_lock_owner_id = [], ru_lock_ttl = 300 * 10 ^ 9,
      ru_retry_policy = job_retry_policy_disabled, ru_has_shutdown_token = False,
      ru_runner_interval = runner_interval, ru_shutdown_timeout = 30 * 10 ^ 9\<rparr>"

definition with_lock_store :: "bool \<Rightarrow> string \<Rightarrow> nat \<Rightarrow> background_job_runner \<Rightarrow> background_job_runner" where
  "with_lock_store lock_enabled owner_id ttl ru =
     ru\<lparr>ru_lock_enabled := lock_enabled, ru_lock_owner_id := owner_id, ru_lock_ttl := ttl\<rparr>"

definition with_shutdown :: "nat \<Rightarrow> background_job_runner \<Rightarrow> background_job_runner" where
  "with_shutdown shutdown_timeout ru =
     ru\<lparr>ru_has_shutdown_token := True, ru_shutdown_timeout := max shutdown_timeout (10 ^ 6)\<rparr>"

text \<open>The stores a runner was given are part of the state it works on.\<close>

record jobs_sys =
  jx_state :: job_state
  jx_runs :: "job_runs option"
  jx_locks :: "job_locks option"
  jx_sys :: sys

type_synonym 'a jobs = "(jobs_sys, fault, 'a) comp"

definition on_sys :: "'a eng \<Rightarrow> 'a jobs" where
  "on_sys m s = (let (r, x) = m (jx_sys s) in (r, s\<lparr>jx_sys := x\<rparr>))"

definition is_shutdown_requested :: "job_oracle \<Rightarrow> background_job_runner \<Rightarrow> bool jobs" where
  "is_shutdown_requested w ru = getsC (\<lambda>s. ru_has_shutdown_token ru \<and> jo_cancelled w (s_tick (jx_sys s)))"

definition fresh_run :: "env \<Rightarrow> (uuid \<Rightarrow> datetime \<Rightarrow> datetime \<Rightarrow> background_job_run) \<Rightarrow> background_job_run jobs" where
  "fresh_run env build =
     on_sys (bindC (new_v4 env) (\<lambda>i. bindC (utc_now env) (\<lambda>started. bindC (utc_now env) (\<lambda>now. ret (build i started now)))))"

definition on_tick :: "(nat \<Rightarrow> 'a) \<Rightarrow> 'a jobs" where
  "on_tick f = getsC (\<lambda>s. f (s_tick (jx_sys s)))"

text \<open>The history is written after the state; an error of the store is logged and dropped.\<close>

definition runner_record_run :: "job_oracle \<Rightarrow> background_job_runner \<Rightarrow> background_job_run \<Rightarrow> unit jobs" where
  "runner_record_run w ru run =
     seqC (modifyC (\<lambda>s. s\<lparr>jx_state := state_record_run run (jx_state s)\<rparr>))
     (bindC (getsC jx_runs) (\<lambda>runs.
      case (ru_history_enabled ru, runs) of
        (True, Some rs) \<Rightarrow>
          bindC (liftR (stored_from_run run)) (\<lambda>stored.
          bindC (on_tick (jo_store_fault w InsertRun)) (\<lambda>fails.
          let (r, rs') = faulty fails rs (insert_run stored rs) in
          seqC (modifyC (\<lambda>s. s\<lparr>jx_runs := Some rs'\<rparr>))
          (case r of Inl Panic \<Rightarrow> throw Panic | _ \<Rightarrow> ret ())))
      | _ \<Rightarrow> ret ()))"

definition runner_acquire_lock ::
  "env \<Rightarrow> job_oracle \<Rightarrow> background_job_runner \<Rightarrow> background_job_kind \<Rightarrow> (background_job_run + acquired_job_lock option) jobs" where
  "runner_acquire_lock env w ru kind =
     (if \<not> ru_lock_enabled ru then ret (Inr None)
      else bindC (getsC jx_locks) (\<lambda>locks.
        case locks of
          None \<Rightarrow>
            bindC (fresh_run env (\<lambda>i a b. run_skipped i a b kind ''distributed job lock store is not configured'')) (\<lambda>run.
            ret (Inl (run\<lparr>jr_error_code := Some ''JOB_LOCK_STORE_NOT_CONFIGURED''\<rparr>)))
        | Some ls \<Rightarrow>
            bindC (on_sys (utc_now env)) (\<lambda>now.
            bindC (on_tick (jo_store_fault w AcquireLock)) (\<lambda>fails.
            let (r, ls') = faulty fails ls (try_acquire_lock (env_time env) now kind (ru_lock_owner_id ru) (ru_lock_ttl ru) ls) in
            seqC (modifyC (\<lambda>s. s\<lparr>jx_locks := Some ls'\<rparr>))
            (case r of
               Inr (Some l) \<Rightarrow> ret (Inr (Some l))
             | Inr None \<Rightarrow>
                 bindC (fresh_run env (\<lambda>i a b. run_skipped i a b kind ''job is already running on another instance'')) (\<lambda>run.
                 ret (Inl (run\<lparr>jr_error_code := Some ''JOB_ALREADY_RUNNING''\<rparr>)))
             | Inl (Err _) \<Rightarrow>
                 bindC (fresh_run env (\<lambda>i a b. run_skipped i a b kind ''distributed job lock unavailable'')) (\<lambda>run.
                 ret (Inl (run\<lparr>jr_error_code := Some ''JOB_LOCK_UNAVAILABLE''\<rparr>)))
             | Inl Panic \<Rightarrow> throw Panic)))))"

text \<open>Whether the lock was released, was another's by then, or could not be released, is only logged.\<close>

definition runner_release_lock ::
  "job_oracle \<Rightarrow> background_job_runner \<Rightarrow> background_job_kind \<Rightarrow> acquired_job_lock option \<Rightarrow> unit jobs" where
  "runner_release_lock w ru kind acquired =
     (if \<not> ru_lock_enabled ru \<or> acquired = None then ret ()
      else bindC (getsC jx_locks) (\<lambda>locks.
        case locks of
          None \<Rightarrow> ret ()
        | Some ls \<Rightarrow>
            bindC (on_tick (jo_store_fault w ReleaseLock)) (\<lambda>fails.
            let (r, ls') = faulty fails ls (release_lock kind (ru_lock_owner_id ru) ls) in
            seqC (modifyC (\<lambda>s. s\<lparr>jx_locks := Some ls'\<rparr>))
            (case r of Inl Panic \<Rightarrow> throw Panic | _ \<Rightarrow> ret ()))))"

text \<open>The job runs under a timer of its own interval; when the timer fires the job is dropped where it is.\<close>

definition timed_job :: "env \<Rightarrow> job_oracle \<Rightarrow> background_job_runner \<Rightarrow> background_job \<Rightarrow> background_job_run jobs" where
  "timed_job env w ru job s =
     (case jo_timer w (jx_sys s) of
        None \<Rightarrow> on_sys (execute_background_job_with_retries_and_shutdown env w (ru_has_shutdown_token ru) (bj_kind job)
                   (ru_retry_policy ru) (bj_run_once job)) s
      | Some x \<Rightarrow>
          bindC (fresh_run env (\<lambda>i a b. run_failed i a b (bj_kind job) ''TIMEOUT'' ''background job timed out'')) (\<lambda>run.
          ret (run\<lparr>jr_max_attempts := job_total_attempts (ru_retry_policy ru)\<rparr>)) (s\<lparr>jx_sys := x\<rparr>))"

text \<open>Meanwhile the other instances go on.\<close>

definition others_work :: "job_oracle \<Rightarrow> unit jobs" where
  "others_work w = modifyC (\<lambda>s. s\<lparr>jx_locks := map_option (jo_others w (jx_sys s)) (jx_locks s)\<rparr>)"

definition run_job :: "env \<Rightarrow> job_oracle \<Rightarrow> background_job_runner \<Rightarrow> background_job \<Rightarrow> background_job_run jobs" where
  "run_job env w ru job =
     (let kind = bj_kind job; recorded = (\<lambda>run. seqC (runner_record_run w ru run) (ret run)) in
      bindC (is_shutdown_requested w ru) (\<lambda>stop.
      if stop then bindC (fresh_run env (\<lambda>i a b. run_cancelled i a b kind ''shutdown requested'')) recorded
      else bindC (\<lambda>s. let (ok, st) = try_begin kind (jx_state s) in (Inr ok, s\<lparr>jx_state := st\<rparr>)) (\<lambda>began.
      if \<not> began then bindC (fresh_run env (\<lambda>i a b. run_skipped i a b kind ''job is already running'')) recorded
      else bindC (runner_acquire_lock env w ru kind) (\<lambda>lock.
      case lock of
        Inl run \<Rightarrow> recorded run
      | Inr acquired \<Rightarrow>
          bindC (timed_job env w ru job) (\<lambda>run.
          seqC (others_work w) (seqC (runner_release_lock w ru kind acquired) (recorded run)))))))"

definition run_manual :: "env \<Rightarrow> job_oracle \<Rightarrow> background_job_runner \<Rightarrow> background_job_kind \<Rightarrow> background_job_run jobs" where
  "run_manual env w ru kind =
     (case map_of (ru_jobs ru) kind of
        None \<Rightarrow> throw (Err (ValidationError (''job is not registered: '' @ job_kind_as_str kind)))
      | Some job \<Rightarrow> run_job env w ru job)"

fun run_due_loop ::
  "env \<Rightarrow> job_oracle \<Rightarrow> background_job_runner \<Rightarrow> datetime \<Rightarrow> background_job list \<Rightarrow> background_job_run list \<Rightarrow> background_job_run list jobs" where
  "run_due_loop env w ru now [] runs = ret runs"
| "run_due_loop env w ru now (job # jobs) runs =
     bindC (is_shutdown_requested w ru) (\<lambda>stop.
     if stop then ret runs
     else bindC (if bj_enabled job then bindC (getsC jx_state) (\<lambda>st. liftR (is_due (env_time env) (job_definition job) now st))
                 else ret False) (\<lambda>due.
     if \<not> due then run_due_loop env w ru now jobs runs
     else bindC (run_job env w ru job) (\<lambda>run. run_due_loop env w ru now jobs (runs @ [run]))))"

definition run_due_once :: "env \<Rightarrow> job_oracle \<Rightarrow> background_job_runner \<Rightarrow> background_job_run list jobs" where
  "run_due_once env w ru =
     (if \<not> ru_jobs_enabled ru then ret []
      else bindC (is_shutdown_requested w ru) (\<lambda>stop.
      if stop then ret []
      else bindC (on_sys (utc_now env)) (\<lambda>now. run_due_loop env w ru now (hm_values (ru_jobs ru)) [])))"

text \<open>\<open>run_forever\<close> over the first \<open>n\<close> ticks of its timer.\<close>

fun run_ticks :: "env \<Rightarrow> job_oracle \<Rightarrow> background_job_runner \<Rightarrow> nat \<Rightarrow> unit jobs" where
  "run_ticks env w ru 0 = ret ()"
| "run_ticks env w ru (Suc n) =
     (if \<not> ru_jobs_enabled ru then ret ()
      else bindC (is_shutdown_requested w ru) (\<lambda>stop.
           if stop then ret () else seqC (run_due_once env w ru) (run_ticks env w ru n)))"

record background_job_snapshot =
  sb_jobs_enabled :: bool
  sb_jobs :: "background_job_definition list"
  sb_recent_runs :: "background_job_run list"

definition runner_snapshot :: "background_job_runner \<Rightarrow> job_state \<Rightarrow> background_job_snapshot" where
  "runner_snapshot ru st =
     \<lparr>sb_jobs_enabled = ru_jobs_enabled ru,
      sb_jobs = sort_by (\<lambda>a b. job_kind_as_str (jd_kind a) \<le> job_kind_as_str (jd_kind b))
        (map job_definition (hm_values (ru_jobs ru))),
      sb_recent_runs = js_recent_runs st\<rparr>"

section \<open>Redaction panics or returns\<close>

text \<open>What the redaction of a message cannot do is return an error.\<close>

definition errorless :: "'a outcome \<Rightarrow> bool" where
  "errorless r \<longleftrightarrow> (\<forall>e. r \<noteq> Inl (Err e))"

lemma errorless_simps [simp]: "errorless (Inr a)" "errorless (Inl Panic)" "\<not> errorless (Inl (Err e))"
  by (simp_all add: errorless_def)

lemma errorless_and_then: "errorless r \<Longrightarrow> (\<And>a. errorless (f a)) \<Longrightarrow> errorless (and_then r f)"
  by (cases r) (auto simp: errorless_def)

lemma errorless_split_at: "errorless (split_at s n)"
  by (simp add: split_at_def)

lemma errorless_split_case: "(\<And>a b. split_at s n = Inr (a, b) \<Longrightarrow> errorless (f a b)) \<Longrightarrow>
    errorless (case split_at s n of Inl e \<Rightarrow> Inl e | Inr (a, b) \<Rightarrow> f a b)"
  using errorless_split_at [of s n] by (auto simp: errorless_def split: sum.split prod.split)

lemma errorless_after: "errorless (redact_after_loop pattern prev s)"
proof (induction pattern prev s rule: redact_after_loop.induct)
  case (1 pattern prev s)
  show ?case
  proof (cases "find_ci s pattern")
    case None
    then show ?thesis by (subst redact_after_loop.simps) simp
  next
    case (Some rel)
    note ih = 1 [OF Some, unfolded Suc_eq_plus1 [symmetric]]
    show ?thesis
      by (subst redact_after_loop.simps, simp only: Some option.case Let_def)
        (auto intro!: errorless_and_then errorless_split_case ih)
  qed
qed

lemma errorless_authorization: "errorless (redact_authorization_loop s)"
proof (induction s rule: redact_authorization_loop.induct)
  case (1 s)
  show ?case
  proof (cases "find_ci s ''authorization:''")
    case None
    then show ?thesis by (subst redact_authorization_loop.simps) simp
  next
    case (Some rel)
    note ih = 1 [OF Some refl]
    show ?thesis
      by (subst redact_authorization_loop.simps, simp only: Some option.case Let_def)
        (auto intro!: errorless_and_then errorless_split_case ih)
  qed
qed

lemma errorless_passes: "(\<And>k s. errorless (f k s)) \<Longrightarrow> errorless (passes f ks s)"
  by (induction ks arbitrary: s) (auto intro!: errorless_and_then)

lemma errorless_redact_str: "errorless (redact_str message)"
  by (auto simp: redact_str_def redact_str_with_config_def redact_bearer_def redact_authorization_bearer_def Let_def
      redact_key_value_def redact_after_pattern_def
      intro!: errorless_and_then errorless_passes errorless_after errorless_authorization)

lemma errorless_stored: "errorless (stored_from_run run)"
  by (auto simp: stored_from_run_def sanitize_background_job_error_message_def
      intro!: errorless_and_then errorless_redact_str errorless_split_at split: option.split)

section \<open>Attempts\<close>

lemma job_total_attempts_pos: "0 < job_total_attempts p"
  by (simp add: job_total_attempts_def usize_saturating_add_def usize_max_def)

lemma tick_ops: "new_v4 env x = (Inr (env_new_v4 env (s_tick x)), x\<lparr>s_tick := Suc (s_tick x)\<rparr>)"
  "utc_now env x = (Inr (env_utc_now env (s_tick x)), x\<lparr>s_tick := Suc (s_tick x)\<rparr>)"
  by (simp_all add: new_v4_def utc_now_def tick_def)

text \<open>Drawing identifiers and times leaves the engine as it is.\<close>

definition only_ticks :: "sys \<Rightarrow> sys \<Rightarrow> bool" where
  "only_ticks x y \<longleftrightarrow> y = x\<lparr>s_tick := s_tick y\<rparr>"

lemma only_ticks_simps [simp]: "only_ticks x x" "only_ticks x (x\<lparr>s_tick := n\<rparr>)"
  by (simp_all add: only_ticks_def)

lemma only_ticks_trans: "only_ticks x y \<Longrightarrow> only_ticks y z \<Longrightarrow> only_ticks x z"
  unfolding only_ticks_def by (cases x, cases y, cases z) simp

text \<open>The attempts that were made, one after the other, each from the state that the one before left.\<close>

inductive attempts_made :: "job_oracle \<Rightarrow> bool \<Rightarrow> background_job_run eng \<Rightarrow> sys \<Rightarrow> job_attempt list \<Rightarrow> sys \<Rightarrow> bool"
  for w token oper where
  no_more: "only_ticks x x' \<Longrightarrow> attempts_made w token oper x [] x'"
| attempt: "only_ticks x y \<Longrightarrow> attempt_job w token oper y = (Inr a, z) \<Longrightarrow> attempts_made w token oper z as x' \<Longrightarrow>
    attempts_made w token oper x (a # as) x'"

definition to_be_retried :: "background_job_retry_policy \<Rightarrow> job_attempt \<Rightarrow> bool" where
  "to_be_retried p a \<longleftrightarrow> (\<exists>e. a = Completed (Inl e) \<and> jp_enabled p \<and> is_retryable_job_error e)"

definition cancelled_by_shutdown :: "background_job_run \<Rightarrow> bool" where
  "cancelled_by_shutdown run \<longleftrightarrow> jr_status run = JobCancelled \<and> jr_error_code run = Some ''SHUTDOWN_REQUESTED''"

definition failed_with :: "memcore_error \<Rightarrow> background_job_run \<Rightarrow> bool" where
  "failed_with e run \<longleftrightarrow>
     jr_status run = JobFailed \<and> jr_error_code run = Some (error_code e) \<and> jr_error_message run = Some (error_message e)"

text \<open>What is reported of them: the run of the attempt that succeeded, the error of the last one, which is not to be retried
  or leaves no attempt, or a shutdown that cut the attempt or the pause after it.\<close>

definition reported :: "job_oracle \<Rightarrow> bool \<Rightarrow> background_job_retry_policy \<Rightarrow> job_attempt list \<Rightarrow> background_job_run \<Rightarrow> bool" where
  "reported w token p as run \<longleftrightarrow>
     length as \<le> job_total_attempts p \<and> jr_attempt_count run = length as \<and> jr_max_attempts run = job_total_attempts p \<and>
     (\<forall>a \<in> set (butlast as). to_be_retried p a) \<and>
     (if as = [] then token \<and> (\<exists>n. jo_cancelled w n) \<and> cancelled_by_shutdown run
      else case last as of
        ShutdownTimeout \<Rightarrow> token \<and> cancelled_by_shutdown run
      | Completed (Inr r) \<Rightarrow>
          run = r\<lparr>jr_attempt_count := length as, jr_max_attempts := job_total_attempts p, jr_retried := 1 < length as\<rparr>
      | Completed (Inl e) \<Rightarrow>
          if to_be_retried p (last as) \<and> length as < job_total_attempts p
          then token \<and> (\<exists>n. jo_cancelled w n \<or> jo_sleep_cut w n) \<and> cancelled_by_shutdown run
          else failed_with e run)"

lemma cancelled_run_spec:
  "cancelled_run env w kind st k m x = (r, x') \<Longrightarrow>
     (\<exists>run. r = Inr run \<and> jr_kind run = kind \<and> jr_attempt_count run = k \<and> jr_max_attempts run = m \<and> cancelled_by_shutdown run) \<and>
     only_ticks x x'"
  by (auto simp: cancelled_run_def tick_ops run_cancelled_def run_ended_def run_finish_def run_running_def
      cancelled_by_shutdown_def)

lemma exhausted_run_spec:
  "exhausted_run env w kind st k m (Some e) x = (r, x') \<Longrightarrow>
     (\<exists>run. r = Inr run \<and> jr_kind run = kind \<and> jr_attempt_count run = max k 1 \<and> jr_max_attempts run = m \<and> failed_with e run) \<and>
     only_ticks x x'"
  by (auto simp: exhausted_run_def tick_ops Let_def failed_with_def)

lemma attempt_job_cases:
  assumes "attempt_job w token oper x = (r, x1)"
  obtains "r = Inr ShutdownTimeout" "token"
  | run where "r = Inr (Completed (Inr run))" "oper x = (Inr run, x1)"
  | e where "r = Inr (Completed (Inl e))"
  | "r = Inl Panic" "fst (oper x) = Inl Panic"
  using assms
  by (auto simp: attempt_job_def catch_err_def bindC_def split: option.splits prod.splits sum.splits fault.splits bool.splits)

lemma attempts_made_snoc:
  assumes "attempts_made w token oper x as y" "attempt_job w token oper y = (Inr a, z)"
  shows "attempts_made w token oper x (as @ [a]) z"
  using assms
proof (induction rule: attempts_made.induct)
  case (no_more x x')
  then have "attempts_made w token oper x [a] z"
    by (intro attempts_made.attempt [OF no_more.hyps no_more.prems] attempts_made.no_more) simp
  then show ?case by simp
next
  case (attempt x y a z as x')
  then show ?case by (auto intro: attempts_made.attempt)
qed

lemma attempts_made_ticks:
  "attempts_made w token oper x as y \<Longrightarrow> only_ticks y z \<Longrightarrow> attempts_made w token oper x as z"
  by (induction rule: attempts_made.induct) (auto intro: attempts_made.intros only_ticks_trans)

text \<open>The loop after \<open>as\<close> have been made: it reports on these and the ones it adds.\<close>

definition loop_post ::
  "job_oracle \<Rightarrow> bool \<Rightarrow> background_job_kind \<Rightarrow> background_job_retry_policy \<Rightarrow> background_job_run eng \<Rightarrow> sys \<Rightarrow>
   background_job_run outcome \<Rightarrow> sys \<Rightarrow> bool" where
  "loop_post w token kind p oper x0 r x' \<longleftrightarrow>
     (case r of
        Inr run \<Rightarrow> jr_kind run = kind \<and> (\<exists>as. attempts_made w token oper x0 as x' \<and> reported w token p as run)
      | Inl e \<Rightarrow> e = Panic \<and> (\<exists>x. fst (oper x) = Inl Panic))"

lemma job_attempts_spec:
  assumes "job_attempts env w token kind p st oper n k err x = (r, x')" and "k + n = job_total_attempts p" and "0 < n"
    and "attempts_made w token oper x0 as x" and "length as = k" and "\<forall>a \<in> set as. to_be_retried p a"
    and "\<And>x r x'. oper x = (Inr r, x') \<Longrightarrow> jr_kind r = kind"
  shows "loop_post w token kind p oper x0 r x'"
  using assms(1-6)
proof (induction n arbitrary: k err x as)
  case (Suc n)
  let ?m = "job_total_attempts p"
  note run = Suc.prems(1) [unfolded job_attempts.simps]
  have cut_short: "loop_post w token kind p oper x0 r x'"
    if c: "cancelled_run env w kind st (length bs) ?m y = (r, x')" and b: "attempts_made w token oper x0 bs y"
      "\<And>run. cancelled_by_shutdown run \<Longrightarrow> jr_attempt_count run = length bs \<Longrightarrow> jr_max_attempts run = ?m \<Longrightarrow>
        reported w token p bs run" for bs y
  proof -
    from cancelled_run_spec [OF c] obtain run where "r = Inr run" "jr_kind run = kind" "jr_attempt_count run = length bs"
      "jr_max_attempts run = ?m" "cancelled_by_shutdown run" "only_ticks y x'" by blast
    with attempts_made_ticks [OF b(1)] b(2) [of run] show ?thesis unfolding loop_post_def by auto
  qed
  show ?case
  proof (cases "token \<and> jo_cancelled w (s_tick x)")
    case True
    with run Suc.prems(5) have c: "cancelled_run env w kind st (length as) ?m x = (r, x')" by simp
    show ?thesis
    proof (rule cut_short [OF c Suc.prems(4)])
      fix run
      assume run: "cancelled_by_shutdown run" "jr_attempt_count run = length as" "jr_max_attempts run = ?m"
      have asked: "\<exists>n. jo_cancelled w n" using True by blast
      show "reported w token p as run"
      proof (cases "as = []")
        case True
        with run asked \<open>token \<and> _\<close> Suc.prems(2,5) show ?thesis by (simp add: reported_def)
      next
        case False
        then have "to_be_retried p (last as)" using Suc.prems(6) by simp
        then obtain e where "last as = Completed (Inl e)" "to_be_retried p (Completed (Inl e))"
          by (auto simp: to_be_retried_def)
        with False run asked \<open>token \<and> _\<close> Suc.prems(2,5,6) show ?thesis
          by (auto simp: reported_def dest: in_set_butlastD)
      qed
    qed
  next
    case False
    obtain r1 x1 where a: "attempt_job w token oper x = (r1, x1)" by fastforce
    have made: "attempts_made w token oper x0 (as @ [b]) x1" if "r1 = Inr b" for b
      using attempts_made_snoc [OF Suc.prems(4)] a that by blast
    from a show ?thesis
    proof (cases rule: attempt_job_cases)
      case 1
      from run a 1 False Suc.prems(5) have c: "cancelled_run env w kind st (length (as @ [ShutdownTimeout])) ?m x1 = (r, x')"
        by (simp add: bindC_def)
      show ?thesis
        by (rule cut_short [OF c made [OF 1(1)]]) (use 1 Suc.prems(2,5,6) in \<open>auto simp: reported_def\<close>)
    next
      case (2 res)
      from run a 2 False have r: "r = Inr (res\<lparr>jr_attempt_count := k + 1, jr_max_attempts := ?m, jr_retried := (1 < k + 1)\<rparr>)"
        "x' = x1" by (auto simp: bindC_def)
      with made [OF 2(1)] 2(2) Suc.prems(2,5,6) assms(7) show ?thesis
        by (auto simp: loop_post_def reported_def intro!: exI [of _ "as @ [Completed (Inr res)]"])
    next
      case (3 e)
      let ?as = "as @ [Completed (Inl e)]"
      consider (ends) "\<not> (to_be_retried p (Completed (Inl e)) \<and> k + 1 < ?m)"
          "exhausted_run env w kind st (k + 1) ?m (Some e) x1 = (r, x')"
        | (cut) "to_be_retried p (Completed (Inl e))" "k + 1 < ?m" "token" "jo_sleep_cut w (s_tick x1)"
          "cancelled_run env w kind st (k + 1) ?m x1 = (r, x')"
        | (again) "to_be_retried p (Completed (Inl e))" "k + 1 < ?m"
          "job_attempts env w token kind p st oper n (k + 1) (Some e) x1 = (r, x')"
        using run a 3 False by (auto simp: bindC_def to_be_retried_def split: if_splits)
      then show ?thesis
      proof cases
        case ends
        then obtain run where "r = Inr run" "jr_kind run = kind" "jr_attempt_count run = max (k + 1) 1" "jr_max_attempts run = ?m"
          "failed_with e run" "only_ticks x1 x'" by (auto dest!: exhausted_run_spec)
        with ends(1) attempts_made_ticks [OF made [OF 3]] Suc.prems(2,5,6) show ?thesis
          by (auto simp: loop_post_def reported_def intro!: exI [of _ ?as])
      next
        case cut
        with Suc.prems(5) have c: "cancelled_run env w kind st (length ?as) ?m x1 = (r, x')" by simp
        show ?thesis
          by (rule cut_short [OF c made [OF 3]]) (use cut Suc.prems(2,5,6) in \<open>auto simp: reported_def\<close>)
      next
        case again
        show ?thesis
          by (rule Suc.IH [OF again(3) _ _ made [OF 3]]) (use again Suc.prems(2,5,6) in auto)
      qed
    next
      case 4
      from run a 4 False have "r = Inl Panic" by (simp add: bindC_def)
      with 4(2) show ?thesis by (auto simp: loop_post_def)
    qed
  qed
qed simp

lemma execute_job_spec:
  assumes "execute_background_job_with_retries_and_shutdown env w token kind p oper x = (r, x')"
    and "\<And>x r x'. oper x = (Inr r, x') \<Longrightarrow> jr_kind r = kind"
  shows "loop_post w token kind p oper x r x'"
proof -
  have "job_attempts env w token kind p (env_utc_now env (s_tick x)) oper (job_total_attempts p) 0 None (x\<lparr>s_tick := Suc (s_tick x)\<rparr>) = (r, x')"
    using assms(1) by (simp add: execute_background_job_with_retries_and_shutdown_def tick_ops)
  moreover have "attempts_made w token oper x [] (x\<lparr>s_tick := Suc (s_tick x)\<rparr>)"
    by (rule attempts_made.no_more) simp
  ultimately show ?thesis
    using job_attempts_spec [of env w token kind p _ oper "job_total_attempts p" 0 None _ r x' x "[]"] assms(2)
      job_total_attempts_pos [of p]
    by simp
qed

section \<open>A run of a job\<close>

lemma fresh_run_eq:
  obtains i a b x where "fresh_run env build s = (Inr (build i a b), s\<lparr>jx_sys := x\<rparr>)" "only_ticks (jx_sys s) x"
  by (rule that [of _ _ _ "(jx_sys s)\<lparr>s_tick := Suc (Suc (Suc (s_tick (jx_sys s))))\<rparr>"])
    (simp_all add: fresh_run_def on_sys_def tick_ops)

definition lease_end :: "env \<Rightarrow> background_job_runner \<Rightarrow> jobs_sys \<Rightarrow> datetime outcome" where
  "lease_end env ru s = lock_until_from_ttl (env_time env) (env_utc_now env (s_tick (jx_sys s))) (ru_lock_ttl ru)"

definition held_elsewhere :: "background_job_runner \<Rightarrow> background_job_kind \<Rightarrow> datetime \<Rightarrow> job_locks \<Rightarrow> bool" where
  "held_elsewhere ru kind now ls \<longleftrightarrow>
     (\<exists>l. ls kind = Some l \<and> now < jl_locked_until l \<and> jl_owner_id l \<noteq> ru_lock_owner_id ru)"

text \<open>Why the lock is refused, if it is: the code of the skipped run. The time is drawn before the store is called.\<close>

definition lock_refusal :: "env \<Rightarrow> job_oracle \<Rightarrow> background_job_runner \<Rightarrow> background_job_kind \<Rightarrow> jobs_sys \<Rightarrow> string option" where
  "lock_refusal env w ru kind s =
     (let n = s_tick (jx_sys s) in
      if \<not> ru_lock_enabled ru then None
      else case jx_locks s of
        None \<Rightarrow> Some ''JOB_LOCK_STORE_NOT_CONFIGURED''
      | Some ls \<Rightarrow>
          if jo_store_fault w AcquireLock (Suc n) \<noteq> None then Some ''JOB_LOCK_UNAVAILABLE''
          else if held_elsewhere ru kind (env_utc_now env n) ls then Some ''JOB_ALREADY_RUNNING''
          else None)"

text \<open>Why the job does not run at all, if it does not: the status and the code of the run that is recorded instead.\<close>

definition job_refusal ::
  "env \<Rightarrow> job_oracle \<Rightarrow> background_job_runner \<Rightarrow> background_job_kind \<Rightarrow> jobs_sys \<Rightarrow> (background_job_status \<times> string) option" where
  "job_refusal env w ru kind s =
     (if ru_has_shutdown_token ru \<and> jo_cancelled w (s_tick (jx_sys s)) then Some (JobCancelled, ''SHUTDOWN_REQUESTED'')
      else if kind \<in> js_running (jx_state s) then Some (JobSkipped, ''SKIPPED'')
      else map_option (Pair JobSkipped) (lock_refusal env w ru kind s))"

definition refused_run :: "background_job_kind \<Rightarrow> background_job_status \<Rightarrow> string \<Rightarrow> background_job_run \<Rightarrow> bool" where
  "refused_run kind status code run \<longleftrightarrow>
     jr_kind run = kind \<and> jr_status run = status \<and> jr_error_code run = Some code \<and> jr_attempt_count run = 1 \<and>
     jr_affected_count run = 0"

text \<open>The locks after the lease is taken, and after it is given back.\<close>

definition leased :: "env \<Rightarrow> background_job_runner \<Rightarrow> background_job_kind \<Rightarrow> jobs_sys \<Rightarrow> job_locks \<Rightarrow> job_locks" where
  "leased env ru kind s ls =
     (case lease_end env ru s of
        Inl _ \<Rightarrow> ls
      | Inr until \<Rightarrow>
          if held_elsewhere ru kind (env_utc_now env (s_tick (jx_sys s))) ls then ls
          else ls(kind \<mapsto> \<lparr>jl_kind = kind, jl_owner_id = ru_lock_owner_id ru, jl_locked_until = until,
                           jl_acquired_at = env_utc_now env (s_tick (jx_sys s)), jl_heartbeat_at = None\<rparr>))"

definition given_back :: "background_job_runner \<Rightarrow> background_job_kind \<Rightarrow> job_locks \<Rightarrow> job_locks" where
  "given_back ru kind ls = (if map_option jl_owner_id (ls kind) = Some (ru_lock_owner_id ru) then ls(kind := None) else ls)"

fun took_effect :: "(memcore_error \<times> bool) option \<Rightarrow> bool" where
  "took_effect None \<longleftrightarrow> True"
| "took_effect (Some (_, b)) \<longleftrightarrow> b"

lemma faulty_snd [simp]: "snd (faulty fails old m) = (if took_effect fails then snd m else old)"
  by (cases fails; cases m) auto

lemma faulty_fst: "fst (faulty fails old m) = (case fails of None \<Rightarrow> fst m | Some (e, _) \<Rightarrow> Inl (Err e))"
  by (cases fails; cases m) auto

lemma try_acquire_leased:
  "snd (try_acquire_lock (env_time env) (env_utc_now env (s_tick (jx_sys s))) kind (ru_lock_owner_id ru) (ru_lock_ttl ru) ls)
     = leased env ru kind s ls"
  by (auto simp: try_acquire_lock_def leased_def lease_end_def held_elsewhere_def split: sum.split option.split)

lemma release_given_back: "release_lock kind (ru_lock_owner_id ru) ls
    = (Inr (map_option jl_owner_id (ls kind) = Some (ru_lock_owner_id ru)), given_back ru kind ls)"
  by (cases "ls kind") (auto simp: release_lock_def given_back_def)

text \<open>What recording leaves: the state of this instance, and the history when it is kept.\<close>

definition recorded_in_state :: "background_job_run \<Rightarrow> jobs_sys \<Rightarrow> jobs_sys \<Rightarrow> bool" where
  "recorded_in_state run s s' \<longleftrightarrow>
     js_running (jx_state s') = js_running (jx_state s) - {jr_kind run} \<and>
     js_last_runs (jx_state s') = (js_last_runs (jx_state s))(jr_kind run \<mapsto> jr_started_at run) \<and>
     js_recent_runs (jx_state s') = take (js_recent_run_limit (jx_state s)) (run # js_recent_runs (jx_state s)) \<and>
     js_recent_run_limit (jx_state s') = js_recent_run_limit (jx_state s)"

definition recorded_in_history :: "job_oracle \<Rightarrow> background_job_runner \<Rightarrow> background_job_run \<Rightarrow> jobs_sys \<Rightarrow> jobs_sys \<Rightarrow> bool" where
  "recorded_in_history w ru run s s' \<longleftrightarrow>
     (case (ru_history_enabled ru, jx_runs s) of
        (True, Some rs) \<Rightarrow> \<exists>stored. stored_from_run run = Inr stored \<and>
          jx_runs s' = Some (if took_effect (jo_store_fault w InsertRun (s_tick (jx_sys s'))) then rs @ [stored] else rs)
      | _ \<Rightarrow> jx_runs s' = jx_runs s)"

text \<open>Recording panics only when the message of the run cannot be redacted for the history.\<close>

definition record_post :: "job_oracle \<Rightarrow> background_job_runner \<Rightarrow> background_job_run \<Rightarrow> jobs_sys \<Rightarrow>
    background_job_run outcome \<Rightarrow> jobs_sys \<Rightarrow> bool" where
  "record_post w ru run s r s' \<longleftrightarrow>
     recorded_in_state run s s' \<and>
     (r = Inr run \<and> recorded_in_history w ru run s s' \<or>
      r = Inl Panic \<and> ru_history_enabled ru \<and> jx_runs s \<noteq> None \<and> stored_from_run run = Inl Panic)"

lemma record_run_spec:
  assumes "seqC (runner_record_run w ru run) (ret run) s = (r, s')"
  shows "record_post w ru run s r s' \<and> jx_locks s' = jx_locks s \<and> jx_sys s' = jx_sys s"
proof (cases "ru_history_enabled ru \<and> jx_runs s \<noteq> None")
  case False
  then have "r = Inr run" "s' = s\<lparr>jx_state := state_record_run run (jx_state s)\<rparr>"
    using assms by (auto simp: runner_record_run_def seqC_def bindC_def modifyC_def getsC_def split: bool.splits option.splits)
  with False show ?thesis
    by (auto simp: record_post_def recorded_in_state_def recorded_in_history_def state_record_run_def split: bool.split option.split)
next
  case True
  then obtain rs where rs: "ru_history_enabled ru" "jx_runs s = Some rs" by blast
  let ?s1 = "s\<lparr>jx_state := state_record_run run (jx_state s)\<rparr>"
  show ?thesis
  proof (cases "stored_from_run run")
    case (Inl e)
    then have "e = Panic" using errorless_stored [of run] by (cases e) auto
    moreover have "r = Inl e" "s' = ?s1"
      using assms rs Inl by (auto simp: runner_record_run_def seqC_def bindC_def modifyC_def getsC_def liftR_def)
    ultimately show ?thesis
      using rs Inl by (simp add: record_post_def recorded_in_state_def state_record_run_def)
  next
    case (Inr stored)
    define fails where "fails = jo_store_fault w InsertRun (s_tick (jx_sys s))"
    obtain r0 rs' where f: "faulty fails rs (insert_run stored rs) = (r0, rs')" by fastforce
    then have rs': "rs' = (if took_effect fails then rs @ [stored] else rs)" and r0: "r0 \<noteq> Inl Panic"
      using faulty_snd [of fails rs "insert_run stored rs"] faulty_fst [of fails rs "insert_run stored rs"]
      by (auto simp: insert_run_def split: option.splits)
    have "seqC (runner_record_run w ru run) (ret run) s = (Inr run, ?s1\<lparr>jx_runs := Some rs'\<rparr>)"
      using rs Inr f [unfolded fails_def] r0
      by (simp add: runner_record_run_def seqC_def bindC_def modifyC_def getsC_def liftR_def on_tick_def
          split: sum.split fault.split)
    with assms rs' have "r = Inr run" "s' = ?s1\<lparr>jx_runs := Some (if took_effect fails then rs @ [stored] else rs)\<rparr>" by simp_all
    with rs Inr show ?thesis
      by (simp add: record_post_def recorded_in_state_def recorded_in_history_def state_record_run_def fails_def)
  qed
qed

text \<open>A job that begins counts as running until its run is recorded.\<close>

lemma record_post_begun:
  assumes "record_post w ru run s1 r s'" "jx_runs s1 = jx_runs s"
    and "jx_state s1 = jx_state s \<or> jx_state s1 = snd (try_begin (jr_kind run) (jx_state s))"
  shows "record_post w ru run s r s'"
proof -
  have "js_running (jx_state s1) - {jr_kind run} = js_running (jx_state s) - {jr_kind run}"
    "js_last_runs (jx_state s1) = js_last_runs (jx_state s)" "js_recent_runs (jx_state s1) = js_recent_runs (jx_state s)"
    "js_recent_run_limit (jx_state s1) = js_recent_run_limit (jx_state s)"
    using assms(3) by (auto simp: try_begin_def)
  with assms(1,2) show ?thesis
    by (simp only: record_post_def recorded_in_state_def recorded_in_history_def)
qed

text \<open>The state in which the job begins: the time of the lease has been drawn.\<close>

definition start_sys :: "background_job_runner \<Rightarrow> jobs_sys \<Rightarrow> sys" where
  "start_sys ru s = (if ru_lock_enabled ru then (jx_sys s)\<lparr>s_tick := Suc (s_tick (jx_sys s))\<rparr> else jx_sys s)"

definition locks_at_start :: "env \<Rightarrow> background_job_runner \<Rightarrow> background_job_kind \<Rightarrow> jobs_sys \<Rightarrow> job_locks option" where
  "locks_at_start env ru kind s = map_option (if ru_lock_enabled ru then leased env ru kind s else id) (jx_locks s)"

text \<open>A refusal leaves the locks alone, except that a call that failed may have taken effect.\<close>

definition locks_when_refused ::
  "env \<Rightarrow> job_oracle \<Rightarrow> background_job_runner \<Rightarrow> background_job_kind \<Rightarrow> string \<Rightarrow> jobs_sys \<Rightarrow> job_locks option" where
  "locks_when_refused env w ru kind code s =
     (if code = ''JOB_LOCK_UNAVAILABLE'' \<and> took_effect (jo_store_fault w AcquireLock (Suc (s_tick (jx_sys s))))
      then map_option (leased env ru kind s) (jx_locks s) else jx_locks s)"

definition acquire_post ::
  "env \<Rightarrow> job_oracle \<Rightarrow> background_job_runner \<Rightarrow> background_job_kind \<Rightarrow> jobs_sys \<Rightarrow>
   (background_job_run + acquired_job_lock option) outcome \<Rightarrow> jobs_sys \<Rightarrow> bool" where
  "acquire_post env w ru kind s r s' \<longleftrightarrow>
     jx_state s' = jx_state s \<and> jx_runs s' = jx_runs s \<and>
     (case r of
        Inl e \<Rightarrow> e = Panic \<and> ru_lock_enabled ru \<and> lease_end env ru s = Inl Panic
      | Inr (Inl run) \<Rightarrow> \<exists>code. lock_refusal env w ru kind s = Some code \<and> refused_run kind JobSkipped code run \<and>
          only_ticks (jx_sys s) (jx_sys s') \<and> jx_locks s' = locks_when_refused env w ru kind code s
      | Inr (Inr acquired) \<Rightarrow> lock_refusal env w ru kind s = None \<and> (acquired \<noteq> None \<longleftrightarrow> ru_lock_enabled ru) \<and>
          jx_sys s' = start_sys ru s \<and> jx_locks s' = locks_at_start env ru kind s)"

lemma skip_with_code:
  "\<exists>run x. bindC (fresh_run env (\<lambda>i a b. run_skipped i a b kind m)) (\<lambda>run. ret (Inl (run\<lparr>jr_error_code := Some c\<rparr>))) s
     = (Inr (Inl run :: background_job_run + acquired_job_lock option), s\<lparr>jx_sys := x\<rparr>) \<and> refused_run kind JobSkipped c run \<and> only_ticks (jx_sys s) x"
proof -
  let ?build = "\<lambda>i a b. run_skipped i a b kind m"
  obtain i a b x where "fresh_run env ?build s = (Inr (?build i a b), s\<lparr>jx_sys := x\<rparr>)" "only_ticks (jx_sys s) x"
    by (rule fresh_run_eq)
  moreover have "refused_run kind JobSkipped c (?build i a b\<lparr>jr_error_code := Some c\<rparr>)"
    by (simp add: refused_run_def run_skipped_def run_ended_def run_finish_def run_running_def)
  ultimately show ?thesis by (intro exI [of _ "?build i a b\<lparr>jr_error_code := Some c\<rparr>"] exI [of _ x]) simp
qed

lemma leased_held: "held_elsewhere ru kind (env_utc_now env (s_tick (jx_sys s))) ls \<Longrightarrow> leased env ru kind s ls = ls"
  by (simp add: leased_def split: sum.split)

lemma try_acquire_answer:
  "fst (try_acquire_lock (env_time env) (env_utc_now env (s_tick (jx_sys s))) kind (ru_lock_owner_id ru) (ru_lock_ttl ru) ls) =
     (case lease_end env ru s of
        Inl e \<Rightarrow> Inl e
      | Inr until \<Rightarrow>
          if held_elsewhere ru kind (env_utc_now env (s_tick (jx_sys s))) ls then Inr None
          else Inr (Some \<lparr>al_kind = kind, al_owner_id = ru_lock_owner_id ru, al_locked_until = until\<rparr>))"
  by (auto simp: try_acquire_lock_def lease_end_def held_elsewhere_def split: sum.split option.split)

lemma lease_end_panics: "lease_end env ru s = Inl e \<Longrightarrow> e = Panic"
  by (auto simp: lease_end_def lock_until_from_ttl_def time_offset_def split: if_splits)

lemma runner_acquire_lock_spec:
  assumes run: "runner_acquire_lock env w ru kind s = (r, s')"
  shows "acquire_post env w ru kind s r s'"
proof (cases "ru_lock_enabled ru")
  case False
  with run show ?thesis
    by (auto simp: runner_acquire_lock_def acquire_post_def lock_refusal_def start_sys_def locks_at_start_def option.map_id)
next
  case en: True
  let ?now = "env_utc_now env (s_tick (jx_sys s))"
  show ?thesis
  proof (cases "jx_locks s")
    case None
    obtain run x where "bindC (fresh_run env (\<lambda>i a b. run_skipped i a b kind ''distributed job lock store is not configured'')) (\<lambda>run.
        ret (Inl (run\<lparr>jr_error_code := Some ''JOB_LOCK_STORE_NOT_CONFIGURED''\<rparr>))) s
        = (Inr (Inl run :: background_job_run + acquired_job_lock option), s\<lparr>jx_sys := x\<rparr>)"
      and post: "refused_run kind JobSkipped ''JOB_LOCK_STORE_NOT_CONFIGURED'' run" "only_ticks (jx_sys s) x"
      using skip_with_code by blast
    with run en None have "r = Inr (Inl run)" "s' = s\<lparr>jx_sys := x\<rparr>" by (simp_all add: runner_acquire_lock_def)
    with en None post show ?thesis by (simp add: acquire_post_def lock_refusal_def locks_when_refused_def)
  next
    case (Some ls)
    define fails where "fails = jo_store_fault w AcquireLock (Suc (s_tick (jx_sys s)))"
    define m where "m = try_acquire_lock (env_time env) ?now kind (ru_lock_owner_id ru) (ru_lock_ttl ru) ls"
    obtain r0 ls' where t: "faulty fails ls m = (r0, ls')" by fastforce
    have ls': "ls' = (if took_effect fails then leased env ru kind s ls else ls)"
      using faulty_snd [of fails ls m, unfolded t] by (simp add: m_def try_acquire_leased)
    have r0: "r0 = (case fails of None \<Rightarrow> fst m | Some (e, _) \<Rightarrow> Inl (Err e))"
      using faulty_fst [of fails ls m, unfolded t] by simp
    define s1 where "s1 = s\<lparr>jx_sys := start_sys ru s, jx_locks := Some ls'\<rparr>"
    have go: "runner_acquire_lock env w ru kind s =
      (case r0 of
         Inr (Some l) \<Rightarrow> ret (Inr (Some l))
       | Inr None \<Rightarrow>
           bindC (fresh_run env (\<lambda>i a b. run_skipped i a b kind ''job is already running on another instance'')) (\<lambda>run.
           ret (Inl (run\<lparr>jr_error_code := Some ''JOB_ALREADY_RUNNING''\<rparr>)))
       | Inl (Err _) \<Rightarrow>
           bindC (fresh_run env (\<lambda>i a b. run_skipped i a b kind ''distributed job lock unavailable'')) (\<lambda>run.
           ret (Inl (run\<lparr>jr_error_code := Some ''JOB_LOCK_UNAVAILABLE''\<rparr>)))
       | Inl Panic \<Rightarrow> throw Panic) s1"
      using en Some t [unfolded fails_def m_def]
      by (simp add: runner_acquire_lock_def on_sys_def on_tick_def tick_ops s1_def start_sys_def)
    have s1: "jx_state s1 = jx_state s" "jx_runs s1 = jx_runs s" "only_ticks (jx_sys s) (jx_sys s1)" "jx_locks s1 = Some ls'"
      by (simp_all add: s1_def start_sys_def)
    have refused: "acquire_post env w ru kind s r s'"
      if "bindC (fresh_run env (\<lambda>i a b. run_skipped i a b kind msg)) (\<lambda>run. ret (Inl (run\<lparr>jr_error_code := Some c\<rparr>))) s1 = (r, s')"
        "lock_refusal env w ru kind s = Some c" "Some ls' = locks_when_refused env w ru kind c s" for msg c
      using that skip_with_code [of env kind msg c s1] s1 only_ticks_trans [OF s1(3)] by (auto simp: acquire_post_def)
    show ?thesis
    proof (cases fails)
      case (Some f)
      then obtain e b where f: "fails = Some (e, b)" by (cases f) auto
      then have "r0 = Inl (Err e)" by (simp add: r0)
      with go run have "bindC (fresh_run env (\<lambda>i a b. run_skipped i a b kind ''distributed job lock unavailable'')) (\<lambda>run.
           ret (Inl (run\<lparr>jr_error_code := Some ''JOB_LOCK_UNAVAILABLE''\<rparr>))) s1 = (r, s')" by simp
      then show ?thesis
        by (rule refused) (use en f ls' \<open>jx_locks s = Some ls\<close> in
          \<open>simp_all add: lock_refusal_def locks_when_refused_def fails_def [symmetric] Let_def\<close>)
    next
      case None
      note ok = None
      show ?thesis
      proof (cases "lease_end env ru s")
        case (Inl e)
        then have "e = Panic" by (rule lease_end_panics)
        with Inl ok have "r0 = Inl Panic" by (simp add: r0 m_def try_acquire_answer)
        with go run s1 Inl en \<open>e = Panic\<close> show ?thesis by (simp add: acquire_post_def)
      next
        case (Inr until)
        show ?thesis
        proof (cases "held_elsewhere ru kind ?now ls")
          case True
          with Inr ok have "r0 = Inr None" by (simp add: r0 m_def try_acquire_answer)
          with go run have "bindC (fresh_run env (\<lambda>i a b. run_skipped i a b kind ''job is already running on another instance'')) (\<lambda>run.
           ret (Inl (run\<lparr>jr_error_code := Some ''JOB_ALREADY_RUNNING''\<rparr>))) s1 = (r, s')" by simp
          then show ?thesis
            by (rule refused) (use en ok True ls' leased_held [OF True] \<open>jx_locks s = Some ls\<close> in
              \<open>simp_all add: lock_refusal_def locks_when_refused_def fails_def [symmetric] Let_def\<close>)
        next
          case False
          with Inr ok obtain l where "r0 = Inr (Some l)" by (simp add: r0 m_def try_acquire_answer)
          with go run have "r = Inr (Inr (Some l))" "s' = s1" by simp_all
          with s1 en False ok ls' \<open>jx_locks s = Some ls\<close> show ?thesis
            by (simp add: acquire_post_def lock_refusal_def locks_at_start_def fails_def [symmetric] Let_def)
              (simp add: s1_def)
        qed
      qed
    qed
  qed
qed

text \<open>How a job that was begun ends.\<close>

definition job_ended :: "job_oracle \<Rightarrow> background_job_runner \<Rightarrow> background_job \<Rightarrow> sys \<Rightarrow> background_job_run \<Rightarrow> sys \<Rightarrow> bool" where
  "job_ended w ru job x run x' \<longleftrightarrow>
     jr_kind run = bj_kind job \<and>
     (case jo_timer w x of
        Some y \<Rightarrow> only_ticks y x' \<and> jr_status run = JobFailed \<and> jr_error_code run = Some ''TIMEOUT'' \<and> jr_attempt_count run = 1 \<and>
          jr_max_attempts run = job_total_attempts (ru_retry_policy ru)
      | None \<Rightarrow> \<exists>as. attempts_made w (ru_has_shutdown_token ru) (bj_run_once job) x as x' \<and>
          reported w (ru_has_shutdown_token ru) (ru_retry_policy ru) as run)"

lemma timed_job_spec:
  assumes "timed_job env w ru job s = (r, s')"
    and "\<And>x r x'. bj_run_once job x = (Inr r, x') \<Longrightarrow> jr_kind r = bj_kind job"
  shows "s' = s\<lparr>jx_sys := jx_sys s'\<rparr> \<and>
    (case r of
       Inr run \<Rightarrow> job_ended w ru job (jx_sys s) run (jx_sys s')
     | Inl e \<Rightarrow> e = Panic \<and> (\<exists>x. fst (bj_run_once job x) = Inl Panic))"
proof (cases "jo_timer w (jx_sys s)")
  case None
  obtain x where x: "execute_background_job_with_retries_and_shutdown env w (ru_has_shutdown_token ru) (bj_kind job)
      (ru_retry_policy ru) (bj_run_once job) (jx_sys s) = (r, x)" "s' = s\<lparr>jx_sys := x\<rparr>"
    using assms(1) None by (auto simp: timed_job_def on_sys_def split: prod.splits)
  have "loop_post w (ru_has_shutdown_token ru) (bj_kind job) (ru_retry_policy ru) (bj_run_once job) (jx_sys s) r x"
    by (rule execute_job_spec [OF x(1)]) (rule assms(2))
  with x(2) None show ?thesis by (auto simp: loop_post_def job_ended_def split: sum.splits)
next
  case (Some x)
  let ?build = "\<lambda>i a b. run_failed i a b (bj_kind job) ''TIMEOUT'' ''background job timed out''"
  obtain i a b x' where "fresh_run env ?build (s\<lparr>jx_sys := x\<rparr>) = (Inr (?build i a b), s\<lparr>jx_sys := x\<rparr>\<lparr>jx_sys := x'\<rparr>)"
    "only_ticks (jx_sys (s\<lparr>jx_sys := x\<rparr>)) x'"
    by (rule fresh_run_eq)
  with Some assms(1) show ?thesis
    by (auto simp: timed_job_def job_ended_def run_failed_def run_ended_def run_finish_def run_running_def)
qed

definition refused_post :: "env \<Rightarrow> job_oracle \<Rightarrow> background_job_runner \<Rightarrow> background_job_kind \<Rightarrow> background_job_status \<times> string \<Rightarrow>
    jobs_sys \<Rightarrow> background_job_run \<Rightarrow> jobs_sys \<Rightarrow> bool" where
  "refused_post env w ru kind why s run s' \<longleftrightarrow>
     refused_run kind (fst why) (snd why) run \<and> only_ticks (jx_sys s) (jx_sys s') \<and>
     jx_locks s' = locks_when_refused env w ru kind (snd why) s"

definition locks_at_end :: "env \<Rightarrow> job_oracle \<Rightarrow> background_job_runner \<Rightarrow> background_job_kind \<Rightarrow> jobs_sys \<Rightarrow> sys \<Rightarrow> job_locks option" where
  "locks_at_end env w ru kind s x' =
     map_option (\<lambda>ls. let ls' = jo_others w x' ls in
         if ru_lock_enabled ru \<and> took_effect (jo_store_fault w ReleaseLock (s_tick x')) then given_back ru kind ls' else ls')
       (locks_at_start env ru kind s)"

definition executed_post :: "env \<Rightarrow> job_oracle \<Rightarrow> background_job_runner \<Rightarrow> background_job \<Rightarrow> jobs_sys \<Rightarrow> background_job_run \<Rightarrow> jobs_sys \<Rightarrow> bool" where
  "executed_post env w ru job s run s' \<longleftrightarrow>
     job_ended w ru job (start_sys ru s) run (jx_sys s') \<and> jx_locks s' = locks_at_end env w ru (bj_kind job) s (jx_sys s')"

definition run_panics :: "env \<Rightarrow> job_oracle \<Rightarrow> background_job_runner \<Rightarrow> background_job \<Rightarrow> jobs_sys \<Rightarrow> jobs_sys \<Rightarrow> bool" where
  "run_panics env w ru job s s' \<longleftrightarrow>
     (job_refusal env w ru (bj_kind job) s = None \<and> (\<exists>x. fst (bj_run_once job x) = Inl Panic)) \<or>
     (ru_lock_enabled ru \<and> lease_end env ru s = Inl Panic) \<or>
     (ru_history_enabled ru \<and> (\<exists>run. recorded_in_state run s s' \<and> stored_from_run run = Inl Panic))"

text \<open>All of it.\<close>

definition run_job_post :: "env \<Rightarrow> job_oracle \<Rightarrow> background_job_runner \<Rightarrow> background_job \<Rightarrow> jobs_sys \<Rightarrow>
    background_job_run outcome \<Rightarrow> jobs_sys \<Rightarrow> bool" where
  "run_job_post env w ru job s r s' \<longleftrightarrow>
     (case r of
        Inl e \<Rightarrow> e = Panic \<and> run_panics env w ru job s s'
      | Inr run \<Rightarrow> recorded_in_state run s s' \<and> recorded_in_history w ru run s s' \<and>
          (case job_refusal env w ru (bj_kind job) s of
             Some why \<Rightarrow> refused_post env w ru (bj_kind job) why s run s'
           | None \<Rightarrow> executed_post env w ru job s run s'))"

lemma record_refused:
  assumes "seqC (runner_record_run w ru run) (ret run) s1 = (r, s')"
    and "job_refusal env w ru (bj_kind job) s = Some why" and "refused_run (bj_kind job) (fst why) (snd why) run"
    and "only_ticks (jx_sys s) (jx_sys s1)" and "jx_locks s1 = locks_when_refused env w ru (bj_kind job) (snd why) s"
    and "jx_runs s1 = jx_runs s" and "jx_state s1 = jx_state s \<or> jx_state s1 = snd (try_begin (bj_kind job) (jx_state s))"
  shows "run_job_post env w ru job s r s'"
proof -
  note rec = record_run_spec [OF assms(1)]
  have "record_post w ru run s r s'"
    by (rule record_post_begun [of _ _ _ s1]) (use rec assms(3,6,7) in \<open>simp_all add: refused_run_def\<close>)
  with rec assms(2-5) show ?thesis
    by (auto simp: run_job_post_def record_post_def refused_post_def run_panics_def)
qed

lemma fresh_refused:
  assumes "bindC (fresh_run env build) (\<lambda>run. seqC (runner_record_run w ru run) (ret run)) s1 = (r, s')"
    and "job_refusal env w ru (bj_kind job) s = Some why" and "\<And>i a b. refused_run (bj_kind job) (fst why) (snd why) (build i a b)"
    and "jx_sys s1 = jx_sys s" and "jx_locks s1 = jx_locks s" and "jx_runs s1 = jx_runs s"
    and "jx_state s1 = jx_state s \<or> jx_state s1 = snd (try_begin (bj_kind job) (jx_state s))"
    and "snd why \<noteq> ''JOB_LOCK_UNAVAILABLE''"
  shows "run_job_post env w ru job s r s'"
proof -
  obtain i a b x where x: "fresh_run env build s1 = (Inr (build i a b), s1\<lparr>jx_sys := x\<rparr>)" "only_ticks (jx_sys s1) x"
    by (rule fresh_run_eq)
  have "locks_when_refused env w ru (bj_kind job) (snd why) s = jx_locks s"
    unfolding locks_when_refused_def using assms(8) by argo
  then show ?thesis
    by (intro record_refused [of w ru "build i a b" "s1\<lparr>jx_sys := x\<rparr>" r s' env job s why]) (use x assms in simp_all)
qed

lemma runner_release_lock_spec:
  "runner_release_lock w ru kind acquired s = (Inr (), if \<not> ru_lock_enabled ru \<or> acquired = None then s
     else s\<lparr>jx_locks := map_option (\<lambda>ls. if took_effect (jo_store_fault w ReleaseLock (s_tick (jx_sys s)))
       then given_back ru kind ls else ls) (jx_locks s)\<rparr>)"
proof (cases "\<not> ru_lock_enabled ru \<or> acquired = None \<or> jx_locks s = None")
  case True
  then show ?thesis by (cases s) (auto simp: runner_release_lock_def)
next
  case False
  then obtain ls where ls: "jx_locks s = Some ls" by blast
  define fails where "fails = jo_store_fault w ReleaseLock (s_tick (jx_sys s))"
  obtain r0 ls' where f: "faulty fails ls (release_lock kind (ru_lock_owner_id ru) ls) = (r0, ls')" by fastforce
  have "ls' = (if took_effect fails then given_back ru kind ls else ls)" "r0 \<noteq> Inl Panic"
    using faulty_snd [of fails ls "release_lock kind (ru_lock_owner_id ru) ls", unfolded f]
      faulty_fst [of fails ls "release_lock kind (ru_lock_owner_id ru) ls", unfolded f]
    by (auto simp: release_given_back split: option.splits)
  with False ls f show ?thesis
    by (auto simp: runner_release_lock_def on_tick_def fails_def split: sum.split fault.split)
qed

lemma begin_eq:
  "bindC (\<lambda>s. case try_begin kind (jx_state s) of (ok, st) \<Rightarrow> (Inr ok, s\<lparr>jx_state := st\<rparr>)) f s =
     f (fst (try_begin kind (jx_state s))) (s\<lparr>jx_state := snd (try_begin kind (jx_state s))\<rparr>)"
  by (simp add: bindC_def case_prod_unfold)

lemma begun_same:
  "lock_refusal env w ru kind (s\<lparr>jx_state := st\<rparr>) = lock_refusal env w ru kind s"
  "locks_when_refused env w ru kind c (s\<lparr>jx_state := st\<rparr>) = locks_when_refused env w ru kind c s"
  "locks_at_start env ru kind (s\<lparr>jx_state := st\<rparr>) = locks_at_start env ru kind s"
  "start_sys ru (s\<lparr>jx_state := st\<rparr>) = start_sys ru s" "lease_end env ru (s\<lparr>jx_state := st\<rparr>) = lease_end env ru s"
proof -
  have l: "lease_end env ru (s\<lparr>jx_state := st\<rparr>) = lease_end env ru s" by (simp add: lease_end_def)
  then have "leased env ru kind (s\<lparr>jx_state := st\<rparr>) = leased env ru kind s" by (simp add: leased_def fun_eq_iff split: sum.split)
  with l show "lock_refusal env w ru kind (s\<lparr>jx_state := st\<rparr>) = lock_refusal env w ru kind s"
    "locks_when_refused env w ru kind c (s\<lparr>jx_state := st\<rparr>) = locks_when_refused env w ru kind c s"
    "locks_at_start env ru kind (s\<lparr>jx_state := st\<rparr>) = locks_at_start env ru kind s"
    "start_sys ru (s\<lparr>jx_state := st\<rparr>) = start_sys ru s" "lease_end env ru (s\<lparr>jx_state := st\<rparr>) = lease_end env ru s"
    by (simp_all add: lock_refusal_def locks_when_refused_def locks_at_start_def start_sys_def Let_def)
qed

lemma execute_begun:
  assumes run: "bindC (timed_job env w ru job) (\<lambda>run.
      seqC (others_work w) (seqC (runner_release_lock w ru (bj_kind job) acquired) (seqC (runner_record_run w ru run) (ret run)))) s2 = (r, s')"
    and kind: "\<And>x r x'. bj_run_once job x = (Inr r, x') \<Longrightarrow> jr_kind r = bj_kind job"
    and "job_refusal env w ru (bj_kind job) s = None" and "acquired \<noteq> None \<longleftrightarrow> ru_lock_enabled ru"
    and "jx_sys s2 = start_sys ru s" and "jx_locks s2 = locks_at_start env ru (bj_kind job) s"
    and "jx_runs s2 = jx_runs s" and "jx_state s2 = snd (try_begin (bj_kind job) (jx_state s))"
  shows "run_job_post env w ru job s r s'"
proof -
  obtain r0 s3 where t: "timed_job env w ru job s2 = (r0, s3)" by fastforce
  have spec: "s3 = s2\<lparr>jx_sys := jx_sys s3\<rparr> \<and>
      (case r0 of
         Inr run \<Rightarrow> job_ended w ru job (jx_sys s2) run (jx_sys s3)
       | Inl e \<Rightarrow> e = Panic \<and> (\<exists>x. fst (bj_run_once job x) = Inl Panic))"
    by (rule timed_job_spec [OF t]) (rule kind)
  show ?thesis
  proof (cases r0)
    case (Inl e)
    with run t have "r = Inl e" by (simp add: bindC_def)
    with spec Inl assms(3) show ?thesis by (auto simp: run_job_post_def run_panics_def)
  next
    case (Inr run0)
    let ?x = "jx_sys s3"
    have ended: "job_ended w ru job (start_sys ru s) run0 ?x" and s3: "jx_locks s3 = jx_locks s2" "jx_runs s3 = jx_runs s2" "jx_state s3 = jx_state s2"
      using spec Inr assms(5) by (auto, (metis jobs_sys.select_convs jobs_sys.surjective jobs_sys.update_convs)+)
    define s3' where "s3' = s3\<lparr>jx_locks := map_option (jo_others w ?x) (jx_locks s3)\<rparr>"
    have ow: "others_work w s3 = (Inr (), s3')" by (simp add: others_work_def s3'_def)
    define s4 where "s4 = snd (runner_release_lock w ru (bj_kind job) acquired s3')"
    have rel: "runner_release_lock w ru (bj_kind job) acquired s3' = (Inr (), s4)"
      by (simp add: s4_def runner_release_lock_spec)
    have s4: "jx_locks s4 = locks_at_end env w ru (bj_kind job) s ?x" "jx_sys s4 = ?x" "jx_runs s4 = jx_runs s" "jx_state s4 = jx_state s2"
      using assms(4,6,7) s3
      by (auto simp: s4_def runner_release_lock_spec s3'_def locks_at_end_def option.map_comp comp_def Let_def)
    have "seqC (runner_record_run w ru run0) (ret run0) s4 = (r, s')"
      using run [unfolded seqC_def bindC_Inr [of "timed_job env w ru job", OF t [unfolded Inr]]
          bindC_Inr [of "others_work w", OF ow] bindC_Inr [of "runner_release_lock w ru (bj_kind job) acquired", OF rel]]
      by (simp only: seqC_def)
    note rec = record_run_spec [OF this]
    have "jr_kind run0 = bj_kind job" using ended by (simp add: job_ended_def)
    with s4(4) assms(8) have begun: "jx_state s4 = snd (try_begin (jr_kind run0) (jx_state s))" by simp
    have post: "record_post w ru run0 s r s'"
      by (rule record_post_begun [OF conjunct1 [OF rec] s4(3)]) (simp add: begun)
    have "executed_post env w ru job s run0 s'"
      unfolding executed_post_def using ended rec s4(1,2) by simp
    with post assms(3) show ?thesis
      unfolding run_job_post_def record_post_def run_panics_def by (elim conjE disjE) auto
  qed
qed

lemma run_job_spec:
  assumes run: "run_job env w ru job s = (r, s')"
    and kind: "\<And>x r x'. bj_run_once job x = (Inr r, x') \<Longrightarrow> jr_kind r = bj_kind job"
  shows "run_job_post env w ru job s r s'"
proof -
  let ?k = "bj_kind job"
  let ?s1 = "s\<lparr>jx_state := snd (try_begin ?k (jx_state s))\<rparr>"
  note unf = run [unfolded run_job_def Let_def]
  consider (stop) "ru_has_shutdown_token ru \<and> jo_cancelled w (s_tick (jx_sys s))"
    | (running) "\<not> (ru_has_shutdown_token ru \<and> jo_cancelled w (s_tick (jx_sys s)))" "?k \<in> js_running (jx_state s)"
    | (begins) "\<not> (ru_has_shutdown_token ru \<and> jo_cancelled w (s_tick (jx_sys s)))" "?k \<notin> js_running (jx_state s)" by blast
  then show ?thesis
  proof cases
    case stop
    with unf have go: "bindC (fresh_run env (\<lambda>i a b. run_cancelled i a b ?k ''shutdown requested''))
        (\<lambda>run. seqC (runner_record_run w ru run) (ret run)) s = (r, s')"
      by (simp add: is_shutdown_requested_def)
    show ?thesis
      by (rule fresh_refused [OF go, of job s "(JobCancelled, ''SHUTDOWN_REQUESTED'')"])
        (use stop in \<open>simp_all add: job_refusal_def refused_run_def run_cancelled_def run_ended_def run_finish_def run_running_def\<close>)
  next
    case running
    with unf have go: "bindC (fresh_run env (\<lambda>i a b. run_skipped i a b ?k ''job is already running''))
        (\<lambda>run. seqC (runner_record_run w ru run) (ret run)) ?s1 = (r, s')"
      by (auto simp: is_shutdown_requested_def begin_eq try_begin_def)
    show ?thesis
      by (rule fresh_refused [OF go, of job s "(JobSkipped, ''SKIPPED'')"])
        (use running in \<open>auto simp: job_refusal_def refused_run_def run_skipped_def run_ended_def run_finish_def run_running_def\<close>)
  next
    case begins
    obtain lock s2 where lock: "runner_acquire_lock env w ru ?k ?s1 = (lock, s2)" by fastforce
    have refusal: "job_refusal env w ru ?k s = map_option (Pair JobSkipped) (lock_refusal env w ru ?k s)"
      using begins by (auto simp: job_refusal_def)
    have go: "bindC (\<lambda>_. (lock, s2)) (\<lambda>lock. case lock of
          Inl run \<Rightarrow> seqC (runner_record_run w ru run) (ret run)
        | Inr acquired \<Rightarrow> bindC (timed_job env w ru job) (\<lambda>run.
            seqC (others_work w) (seqC (runner_release_lock w ru ?k acquired) (seqC (runner_record_run w ru run) (ret run))))) ?s1 = (r, s')"
      using unf begins lock by (auto simp: is_shutdown_requested_def begin_eq bindC_def try_begin_def)
    note post = runner_acquire_lock_spec [OF lock, unfolded acquire_post_def begun_same]
    show ?thesis
    proof (cases lock)
      case (Inl e)
      with go have "r = Inl e" by (simp add: bindC_def)
      with Inl post show ?thesis by (simp add: run_job_post_def run_panics_def)
    next
      case (Inr l)
      show ?thesis
      proof (cases l)
        case (Inl skipped)
        with go Inr have rec: "seqC (runner_record_run w ru skipped) (ret skipped) s2 = (r, s')" by (simp add: bindC_def)
        from post Inr Inl obtain code where "lock_refusal env w ru ?k s = Some code" "refused_run ?k JobSkipped code skipped"
          "only_ticks (jx_sys s) (jx_sys s2)" "jx_locks s2 = locks_when_refused env w ru ?k code s"
          "jx_runs s2 = jx_runs s" "jx_state s2 = snd (try_begin ?k (jx_state s))" by auto
        then show ?thesis
          by (intro record_refused [OF rec, of env job s "(JobSkipped, code)"]) (simp_all add: refusal)
      next
        case acquired: (Inr acquired)
        with go Inr have ex: "bindC (timed_job env w ru job) (\<lambda>run. seqC (others_work w)
            (seqC (runner_release_lock w ru ?k acquired) (seqC (runner_record_run w ru run) (ret run)))) s2 = (r, s')"
          by (simp add: bindC_def)
        show ?thesis
          by (rule execute_begun [OF ex kind]) (use post Inr acquired refusal in simp_all)
      qed
    qed
  qed
qed

section \<open>The registered jobs\<close>

lemma finish_with_kind: "finish_with env st c m run x = (Inr r, x') \<Longrightarrow> jr_kind r = jr_kind run"
  by (auto simp: finish_with_def finish_run_def run_finish_def result_simps)

lemma conclude_orgs_kind: "conclude_orgs env tally run x = (Inr r, x') \<Longrightarrow> jr_kind r = jr_kind run"
  by (auto simp: conclude_orgs_def Let_def finish_run_def run_finish_def result_simps dest!: finish_with_kind
      split: if_splits bool.splits option.splits)

lemma job_run_kinds:
  "snapshot_job_run_once env orgs x = (Inr r, x') \<Longrightarrow> jr_kind r = MemoryUsageSnapshot"
  "retention_job_run_once env orgs d x = (Inr r, x') \<Longrightarrow> jr_kind r = ProviderUsageRetention"
  "memory_retention_job_run_once env x = (Inr r, x') \<Longrightarrow> jr_kind r = MemoryRetention"
  by (auto simp: snapshot_job_run_once_def retention_job_run_once_def memory_retention_job_run_once_def start_run_def
      run_running_def result_simps Let_def dest!: finish_with_kind conclude_orgs_kind split: if_splits)

section \<open>Properties\<close>


definition sample_job :: background_job where
  "sample_job = \<lparr>bj_kind = MemoryRetention, bj_interval = 10 ^ 9, bj_enabled = True,
     bj_run_once = memory_retention_job_run_once sample_env\<rparr>"

definition sample_jobs_sys :: jobs_sys where
  "sample_jobs_sys = \<lparr>jx_state = job_state_new 0, jx_runs = None, jx_locks = Some Map.empty, jx_sys = sys_new\<rparr>"

text \<open>The lock store cannot be reached when the lease is to be given back.\<close>

definition sample_oracle :: job_oracle where
  "sample_oracle = \<lparr>jo_cancelled = (\<lambda>_. False), jo_drop = (\<lambda>_. None), jo_timer = (\<lambda>_. None),
     jo_sleep_cut = (\<lambda>_. False), jo_elapsed_ms = (\<lambda>_. 1),
     jo_store_fault = (\<lambda>c _. if c = ReleaseLock then Some (StorageError ''unreachable'', False) else None),
     jo_others = (\<lambda>_ ls. ls)\<rparr>"

definition sample_runner :: background_job_runner where
  "sample_runner = with_lock_store True ''a'' (10 ^ 9) (job_runner_new True (10 ^ 9) [sample_job])"

lemma sample_attempt:
  "\<exists>run x'. execute_background_job_with_retries_and_shutdown sample_env sample_oracle False MemoryRetention
     job_retry_policy_disabled (memory_retention_job_run_once sample_env) x = (Inr run, x') \<and> jr_status run = JobSkipped"
  by (simp add: execute_background_job_with_retries_and_shutdown_def job_total_attempts_def job_retry_policy_disabled_def
      job_retry_policy_default_def attempt_job_def catch_err_def memory_retention_job_run_once_def start_run_def tick_ops
      finish_with_def finish_run_def run_running_def run_finish_def sample_oracle_def)

lemma sample_run:
  "\<exists>run s'. run_job sample_env sample_oracle sample_runner sample_job sample_jobs_sys = (Inr run, s') \<and> jr_status run = JobSkipped"
proof -
  let ?s1 = "sample_jobs_sys\<lparr>jx_state := snd (try_begin MemoryRetention (jx_state sample_jobs_sys))\<rparr>"
  have acq: "\<exists>l s2. runner_acquire_lock sample_env sample_oracle sample_runner MemoryRetention ?s1 = (Inr (Inr (Some l)), s2)"
    by (simp add: sample_runner_def with_lock_store_def job_runner_new_def sample_jobs_sys_def runner_acquire_lock_def on_sys_def
        on_tick_def sample_oracle_def tick_ops try_acquire_lock_def lock_until_from_ttl_def from_std_def time_offset_def
        sample_env_def sys_new_def)
  then obtain l s2 where l: "runner_acquire_lock sample_env sample_oracle sample_runner MemoryRetention ?s1 = (Inr (Inr (Some l)), s2)" by blast
  obtain run x' where run: "execute_background_job_with_retries_and_shutdown sample_env sample_oracle False MemoryRetention
     job_retry_policy_disabled (memory_retention_job_run_once sample_env) (jx_sys s2) = (Inr run, x')" "jr_status run = JobSkipped"
    using sample_attempt by blast
  have t: "timed_job sample_env sample_oracle sample_runner sample_job s2 = (Inr run, s2\<lparr>jx_sys := x'\<rparr>)"
    using run(1) by (simp add: timed_job_def sample_oracle_def sample_runner_def with_lock_store_def job_runner_new_def
        sample_job_def on_sys_def)
  have rec: "runner_record_run sample_oracle sample_runner run s = (Inr (), s\<lparr>jx_state := state_record_run run (jx_state s)\<rparr>)" for s
    by (simp add: runner_record_run_def sample_runner_def with_lock_store_def job_runner_new_def)
  have "\<not> ru_has_shutdown_token sample_runner" "bj_kind sample_job = MemoryRetention" "fst (try_begin MemoryRetention (jx_state sample_jobs_sys))"
    by (simp_all add: sample_runner_def with_lock_store_def job_runner_new_def sample_job_def try_begin_def sample_jobs_sys_def
        job_state_new_def)
  with l t rec run(2) show ?thesis
    by (simp add: run_job_def [unfolded Let_def] is_shutdown_requested_def begin_eq runner_release_lock_spec others_work_def)
qed


section \<open>Requests for the same job at the same time\<close>

text \<open>
  \<open>run_job\<close> is called by the timer and by requests of administrators, on one shared state. Each call asks to begin,
  and either enters the body or is refused; both ends are recorded.
\<close>

datatype job_phase = Arriving | InBody | Refused | Recorded

inductive race_step :: "background_job_kind \<Rightarrow> job_state \<times> (nat \<Rightarrow> job_phase) \<Rightarrow> job_state \<times> (nat \<Rightarrow> job_phase) \<Rightarrow> bool"
  for kind where
  enter: "ph i = Arriving \<Longrightarrow> try_begin kind st = (True, st') \<Longrightarrow> race_step kind (st, ph) (st', ph(i := InBody))"
| refuse: "ph i = Arriving \<Longrightarrow> try_begin kind st = (False, st') \<Longrightarrow> race_step kind (st, ph) (st', ph(i := Refused))"
| record_end: "ph i \<in> {InBody, Refused} \<Longrightarrow> jr_kind run = kind \<Longrightarrow>
    race_step kind (st, ph) (state_record_run run st, ph(i := Recorded))"

text \<open>Recording a refusal clears the mark of the run that caused it: a third request then runs beside it.\<close>

lemma overlapping_runs:
  assumes "kind \<notin> js_running st"
  shows "\<exists>st' ph. (race_step kind)\<^sup>*\<^sup>* (st, \<lambda>_. Arriving) (st', ph) \<and> ph 0 = InBody \<and> ph 2 = InBody"
proof -
  define st1 where "st1 = snd (try_begin kind st)"
  let ?run = "run_running 0 0 kind"
  let ?p1 = "(\<lambda>_::nat. Arriving)(0 := InBody)" and ?p2 = "(\<lambda>_::nat. Arriving)(0 := InBody, 1 := Refused)"
  let ?p3 = "(\<lambda>_::nat. Arriving)(0 := InBody, 1 := Recorded)" and ?p4 = "(\<lambda>_::nat. Arriving)(0 := InBody, 1 := Recorded, 2 := InBody)"
  have k: "kind \<in> js_running st1" by (simp add: st1_def try_begin_def)
  have 1: "race_step kind (st, \<lambda>_. Arriving) (st1, ?p1)"
    by (rule enter) (use assms in \<open>simp_all add: st1_def try_begin_def\<close>)
  have 2: "race_step kind (st1, ?p1) (snd (try_begin kind st1), ?p2)"
    by (rule refuse) (use k in \<open>simp_all add: try_begin_def\<close>)
  have 3: "race_step kind (snd (try_begin kind st1), ?p2) (state_record_run ?run (snd (try_begin kind st1)), ?p3)"
    using record_end [of ?p2 1 ?run kind "snd (try_begin kind st1)"] by (simp add: run_running_def)
  have 4: "race_step kind (state_record_run ?run (snd (try_begin kind st1)), ?p3)
      (snd (try_begin kind (state_record_run ?run (snd (try_begin kind st1)))), ?p4)"
    by (rule enter) (simp_all add: try_begin_def state_record_run_def run_running_def)
  have "?p4 0 = InBody \<and> ?p4 2 = InBody" by simp
  with 1 2 3 4 show ?thesis by (meson rtranclp.rtrancl_into_rtrancl rtranclp.rtrancl_refl)
qed

end
