(* ===== verification/App_Config.thy ===== *)
theory App_Config
  imports Settings_Unset Provider_Router Job_Runner
begin

text \<open>
  \<^verbatim>\<open>crates/memcore-api/src/state.rs\<close> and \<^verbatim>\<open>provider_guardrails.rs\<close>: how the settings become the
  configurations of the components. Connections to databases, to Redis and to the vector stores are not modelled; the
  HTTP client is a parameter that is either built or refused with a message.
\<close>

section \<open>Providers\<close>

definition provider_execution_policy_of :: "settings \<Rightarrow> provider_execution_policy memcore_result" where
  "provider_execution_policy_of s =
     (let timeout_seconds = se_provider_timeout_seconds s; max_retries = se_provider_max_retries s;
          (timeout_seconds, max_retries) =
            (if se_provider_guardrails_enabled s
             then (min timeout_seconds (se_provider_timeout_seconds s), min max_retries (se_provider_max_retries_per_call s))
             else (timeout_seconds, max_retries))
      in policy_from_config timeout_seconds max_retries (se_provider_initial_backoff_ms s) (se_provider_max_backoff_ms s)
           (se_provider_backoff_multiplier s) (se_provider_retry_jitter_enabled s))"

record provider_runtime =
  pv_breaker :: circuit_breaker_config
  pv_metrics :: provider_routing_metrics
  pv_policy :: provider_execution_policy

definition provider_runtime_of :: "settings \<Rightarrow> provider_runtime memcore_result" where
  "provider_runtime_of s =
     and_then (circuit_breaker_from_config (se_provider_circuit_breaker_enabled s) (se_provider_circuit_breaker_failure_threshold s)
       (se_provider_circuit_breaker_reset_timeout_seconds s) (se_provider_circuit_breaker_half_open_max_calls s)) (\<lambda>cb.
     and_then (provider_execution_policy_of s) (\<lambda>policy.
     Inr \<lparr>pv_breaker = cb, pv_metrics = provider_routing_metrics_default, pv_policy = policy\<rparr>))"

fun llm_provider_kind_name :: "llm_provider_kind \<Rightarrow> string" where
  "llm_provider_kind_name LlmMock = ''mock''"
| "llm_provider_kind_name LlmOpenAi = ''openai''"
| "llm_provider_kind_name LlmOpenRouter = ''openrouter''"
| "llm_provider_kind_name LlmAnthropic = ''anthropic''"
| "llm_provider_kind_name LlmGroq = ''groq''"

fun embedding_provider_kind_name :: "embedding_provider_kind \<Rightarrow> string" where
  "embedding_provider_kind_name EmbMock = ''mock''"
| "embedding_provider_kind_name EmbOpenAi = ''openai''"

definition require_openai_api_key :: "settings \<Rightarrow> string \<Rightarrow> string memcore_result" where
  "require_openai_api_key s message =
     (case map_option trim (se_openai_api_key s) of
        Some key \<Rightarrow> if key = [] then Inl (ValidationError message) else Inr key
      | None \<Rightarrow> Inl (ValidationError message))"

record openai_client =
  oc_api_key :: string
  oc_base_url :: string

definition normalize_base_url :: "string \<Rightarrow> string" where
  "normalize_base_url u =
     (let trimmed = rev (dropWhile (\<lambda>c. c = CHR ''/'') (rev (trim u))) in
      if trimmed = [] then ''https://api.openai.com/v1'' else trimmed)"

definition openai_client_new :: "string option \<Rightarrow> string \<Rightarrow> string \<Rightarrow> openai_client memcore_result" where
  "openai_client_new http api_key base_url =
     (if trim api_key = [] then Inl (ValidationError ''OPENAI_API_KEY cannot be empty'')
      else case http of
             Some message \<Rightarrow> Inl (Internal (''failed to build OpenAI HTTP client: '' @ message))
           | None \<Rightarrow> Inr \<lparr>oc_api_key = trim api_key, oc_base_url = normalize_base_url base_url\<rparr>)"

definition provider_init_error :: "string \<Rightarrow> memcore_error \<Rightarrow> memcore_error" where
  "provider_init_error provider e =
     ValidationError (''failed to initialize '' @ provider @ '' provider: '' @ error_message e)"

definition map_error :: "('e \<Rightarrow> 'f) \<Rightarrow> 'e + 'a \<Rightarrow> 'f + 'a" where
  "map_error f r = (case r of Inl e \<Rightarrow> Inl (f e) | Inr x \<Rightarrow> Inr x)"

datatype llm_backend = MockLlmProvider | OpenAiLlmProvider openai_client string

definition build_llm_provider_by_name :: "string option \<Rightarrow> string \<Rightarrow> settings \<Rightarrow> llm_backend memcore_result" where
  "build_llm_provider_by_name http name s =
     (if name = ''mock'' then Inr MockLlmProvider
      else if name = ''openai'' then
        and_then (require_openai_api_key s ''OPENAI_API_KEY is required when MEMCORE_LLM_PROVIDER=openai'') (\<lambda>api_key.
        and_then (map_error (provider_init_error ''OpenAI LLM'') (openai_client_new http api_key (se_openai_base_url s))) (\<lambda>client.
        Inr (OpenAiLlmProvider client (se_llm_model s))))
      else if name = ''openrouter'' then Inl (ValidationError ''openrouter LLM provider is not wired into the API yet'')
      else if name = ''anthropic'' then Inl (ValidationError ''anthropic LLM provider is not wired into the API yet'')
      else if name = ''groq'' then Inl (ValidationError ''groq LLM provider is not wired into the API yet'')
      else Inl (ValidationError (''unknown LLM provider in fallback order: '' @ name)))"

definition default_embedding_dimensions_for_model :: "string \<Rightarrow> nat" where
  "default_embedding_dimensions_for_model model =
     (let m = to_ascii_lowercase (trim model) in
      if m = ''text-embedding-3-large'' then 3072
      else if m \<in> {''text-embedding-3-small'', ''text-embedding-ada-002''} then 1536
      else if m \<in> {''gemini-embedding-001'', ''gemini-embedding-2'', ''gemini-embedding-2-preview''} then 3072
      else 1536)"

definition MOCK_EMBEDDING_DIMENSIONS :: nat where
  "MOCK_EMBEDDING_DIMENSIONS = 8"

datatype embedding_backend = MockEmbeddingProvider nat | OpenAiEmbeddingProvider openai_client string nat

fun backend_dimensions :: "embedding_backend \<Rightarrow> nat" where
  "backend_dimensions (MockEmbeddingProvider d) = d"
| "backend_dimensions (OpenAiEmbeddingProvider _ _ d) = d"

definition openai_embedding_provider_new :: "openai_client \<Rightarrow> string \<Rightarrow> nat \<Rightarrow> embedding_backend memcore_result" where
  "openai_embedding_provider_new client model dims =
     (if dims = 0 then Inl (ValidationError ''embedding dimensions must be greater than 0'')
      else Inr (OpenAiEmbeddingProvider client model dims))"

definition build_embedding_provider_by_name :: "string option \<Rightarrow> string \<Rightarrow> settings \<Rightarrow> embedding_backend memcore_result" where
  "build_embedding_provider_by_name http name s =
     (if name = ''mock'' then Inr (MockEmbeddingProvider MOCK_EMBEDDING_DIMENSIONS)
      else if name = ''openai'' then
        and_then (require_openai_api_key s ''OPENAI_API_KEY is required when MEMCORE_EMBEDDING_PROVIDER=openai'') (\<lambda>api_key.
        and_then (map_error (provider_init_error ''OpenAI embedding'') (openai_client_new http api_key (se_openai_base_url s))) (\<lambda>client.
        map_error (provider_init_error ''OpenAI embedding'')
          (openai_embedding_provider_new client (se_embedding_model s) (default_embedding_dimensions_for_model (se_embedding_model s)))))
      else Inl (ValidationError (''unknown embedding provider in fallback order: '' @ name)))"

text \<open>The candidates of a list of names, each with a slot of its own for the token usage; slots are numbered.\<close>

fun candidates_from_names :: "(string \<Rightarrow> 'p memcore_result) \<Rightarrow> string \<Rightarrow> nat \<Rightarrow> string list \<Rightarrow> 'p provider_candidate list memcore_result" where
  "candidates_from_names build model slot [] = Inr []"
| "candidates_from_names build model slot (name # names) =
     and_then (build name) (\<lambda>p.
     and_then (candidates_from_names build model (slot + 1) names) (\<lambda>rest.
     Inr (\<lparr>ca_name = name, ca_provider = p, ca_model_name = Some model, ca_token_usage_slot = Some slot\<rparr> # rest)))"

definition validate_llm_provider_name :: "string \<Rightarrow> unit memcore_result" where
  "validate_llm_provider_name name =
     (if to_ascii_lowercase (trim name) \<in> {''mock'', ''openai''} then Inr ()
      else Inl (ValidationError (''unknown LLM provider in fallback order: '' @ name)))"

definition validate_embedding_provider_name :: "string \<Rightarrow> unit memcore_result" where
  "validate_embedding_provider_name name =
     (if to_ascii_lowercase (trim name) \<in> {''mock'', ''openai''} then Inr ()
      else Inl (ValidationError (''unknown embedding provider in fallback order: '' @ name)))"

fun all_ok :: "('a \<Rightarrow> unit memcore_result) \<Rightarrow> 'a list \<Rightarrow> unit memcore_result" where
  "all_ok f [] = Inr ()"
| "all_ok f (x # xs) = and_then (f x) (\<lambda>_. all_ok f xs)"

definition validate_provider_fallback_order :: "string list \<Rightarrow> (string \<Rightarrow> unit memcore_result) \<Rightarrow> unit memcore_result" where
  "validate_provider_fallback_order names f =
     (if names = [] then Inl (ValidationError ''provider fallback order cannot be empty when fallback is enabled'')
      else all_ok f names)"

definition router_of :: "env \<Rightarrow> settings \<Rightarrow> provider_runtime \<Rightarrow> provider_router" where
  "router_of env s rt =
     \<lparr>ro_breaker = pv_breaker rt, ro_policy = pv_policy rt, ro_cost_tracking_enabled = se_provider_cost_tracking_enabled s,
      ro_new_v4 = env_new_v4 env, ro_utc_now = env_utc_now env\<rparr>"

text \<open>A provider that is not wired in is built by name, which is always an error.\<close>

definition create_llm_provider :: "string option \<Rightarrow> env \<Rightarrow> settings \<Rightarrow> llm_backend resilient_llm_provider memcore_result" where
  "create_llm_provider http env s =
     and_then (provider_runtime_of s) (\<lambda>rt.
     let own = [llm_provider_kind_name (se_llm_provider s)];
         llm_names = (if se_provider_fallback_enabled s then se_llm_fallback_order s else own);
         summarizer_names = (if se_provider_fallback_enabled s then se_summarizer_fallback_order s else own);
         build = (\<lambda>name. build_llm_provider_by_name http name s)
     in and_then
          (if se_provider_fallback_enabled s
           then and_then (validate_provider_fallback_order llm_names validate_llm_provider_name) (\<lambda>_.
                validate_provider_fallback_order summarizer_names validate_llm_provider_name)
           else if se_llm_provider s \<in> {LlmOpenRouter, LlmAnthropic, LlmGroq}
           then and_then (build (llm_provider_kind_name (se_llm_provider s))) (\<lambda>_. Inr ())
           else Inr ()) (\<lambda>_.
        and_then (candidates_from_names build (se_llm_model s) 0 llm_names) (\<lambda>providers.
        and_then (candidates_from_names build (se_llm_model s) (length llm_names) summarizer_names) (\<lambda>summarizers.
        Inr \<lparr>rl_providers = providers, rl_summarizer_providers = summarizers, rl_router = router_of env s rt,
             rl_fallback_enabled = se_provider_fallback_enabled s\<rparr>))))"

definition create_embedding_provider ::
  "string option \<Rightarrow> env \<Rightarrow> settings \<Rightarrow> embedding_backend resilient_embedding_provider memcore_result" where
  "create_embedding_provider http env s =
     and_then (provider_runtime_of s) (\<lambda>rt.
     let names = (if se_provider_fallback_enabled s then se_embedding_fallback_order s
                  else [embedding_provider_kind_name (se_embedding_provider s)])
     in and_then
          (if se_provider_fallback_enabled s then validate_provider_fallback_order names validate_embedding_provider_name
           else Inr ()) (\<lambda>_.
        and_then (candidates_from_names (\<lambda>name. build_embedding_provider_by_name http name s) (se_embedding_model s) 0 names) (\<lambda>providers.
        resilient_embedding_provider_new backend_dimensions providers (router_of env s rt) (se_provider_fallback_enabled s))))"

fun test_mode_of :: "config_test_mode \<Rightarrow> provider_test_mode" where
  "test_mode_of TestMockOnly = MockOnly"
| "test_mode_of TestSingleReal = SingleReal"
| "test_mode_of TestMultiReal = MultiReal"
| "test_mode_of TestProduction = Production"

definition guardrail_config_from_settings :: "settings \<Rightarrow> provider_guardrail_config" where
  "guardrail_config_from_settings s =
     \<lparr>gr_enabled = se_provider_guardrails_enabled s, gr_real_provider_calls_enabled = se_real_provider_calls_enabled s,
      gr_test_mode = test_mode_of (se_provider_test_mode s), gr_max_calls_per_run = se_provider_max_calls_per_run s,
      gr_max_input_chars = se_provider_max_input_chars s, gr_max_output_tokens = se_provider_max_output_tokens s,
      gr_max_retries_per_call = se_provider_max_retries_per_call s, gr_timeout = unat (se_provider_timeout_seconds s) * 10 ^ 9,
      gr_allow_real_providers_during_load_tests = se_allow_real_providers_during_load_tests s,
      gr_background_jobs_allow_real_providers = se_background_jobs_allow_real_providers s,
      gr_multi_provider_validation_enabled = se_multi_provider_validation_enabled s,
      gr_multi_provider_validation_confirmation = se_multi_provider_validation_confirmation s\<rparr>"

definition create_provider_guardrails :: "settings \<Rightarrow> guardrail_enforcer memcore_result" where
  "create_provider_guardrails s = guardrail_enforcer_new (guardrail_config_from_settings s)"

section \<open>Jobs, quotas and the context cache\<close>

definition background_job_retry_policy_of :: "settings \<Rightarrow> background_job_retry_policy" where
  "background_job_retry_policy_of s =
     \<lparr>jp_enabled = se_background_job_retries_enabled s, jp_max_retries = se_background_job_max_retries s,
      jp_initial_backoff = unat (se_background_job_initial_backoff_ms s) * 10 ^ 6,
      jp_max_backoff = unat (se_background_job_max_backoff_ms s) * 10 ^ 6,
      jp_backoff_multiplier = se_background_job_backoff_multiplier s,
      jp_jitter_enabled = se_background_job_retry_jitter_enabled s\<rparr>"

definition seconds :: "u64 \<Rightarrow> nat" where
  "seconds n = unat n * 10 ^ 9"

definition settings_jobs :: "env \<Rightarrow> settings \<Rightarrow> background_job list" where
  "settings_jobs env s =
     [\<lparr>bj_kind = MemoryUsageSnapshot, bj_interval = seconds (se_memory_usage_snapshot_job_interval_seconds s),
       bj_enabled = se_memory_usage_snapshot_job_enabled s,
       bj_run_once = snapshot_job_run_once env (se_background_job_org_ids s)\<rparr>,
      \<lparr>bj_kind = ProviderUsageRetention, bj_interval = seconds (se_provider_usage_retention_job_interval_seconds s),
       bj_enabled = se_provider_usage_retention_job_enabled s,
       bj_run_once = retention_job_run_once env (se_background_job_org_ids s) (se_provider_usage_retention_days s)\<rparr>,
      \<lparr>bj_kind = MemoryRetention, bj_interval = seconds (se_memory_retention_job_interval_seconds s),
       bj_enabled = se_memory_retention_job_enabled s, bj_run_once = memory_retention_job_run_once env\<rparr>]"

definition create_background_job_runner :: "env \<Rightarrow> settings \<Rightarrow> string option \<Rightarrow> background_job_runner" where
  "create_background_job_runner env s owner =
     with_shutdown (seconds (se_background_job_shutdown_timeout_seconds s))
       ((with_lock_store (se_background_job_lock_enabled s) (case owner of Some o' \<Rightarrow> o' | None \<Rightarrow> [])
           (seconds (se_background_job_lock_ttl_seconds s))
           ((job_runner_new (se_background_jobs_enabled s) (seconds (se_background_job_runner_interval_seconds s)) (settings_jobs env s))
              \<lparr>ru_history_enabled := se_background_job_history_enabled s\<rparr>))
         \<lparr>ru_retry_policy := background_job_retry_policy_of s\<rparr>)"

definition org_quota_limits_from_settings :: "settings \<Rightarrow> org_quota_limits" where
  "org_quota_limits_from_settings s =
     org_quota_limits_from_raw (se_quotas_enabled s) (se_max_users_per_org s) (se_max_memories_per_user s)
       (se_max_memories_per_org s) (se_daily_provider_request_limit s) (se_daily_provider_token_limit s)"

definition context_cache_config_from_settings :: "settings \<Rightarrow> context_cache_config" where
  "context_cache_config_from_settings s =
     \<lparr>cfg_enabled = se_context_cache_enabled s, cfg_ttl_seconds = se_context_cache_ttl_seconds s,
      cfg_max_entries = se_context_cache_max_entries s,
      cfg_stampede_protection_enabled = se_context_cache_stampede_protection_enabled s,
      cfg_stampede_lock_timeout_seconds = se_context_cache_lock_timeout_seconds s,
      cfg_stale_while_revalidate_enabled = se_context_cache_stale_while_revalidate_enabled s,
      cfg_stale_ttl_seconds = se_context_cache_stale_ttl_seconds s, cfg_metrics_enabled = se_context_cache_metrics_enabled s\<rparr>"

text \<open>The engine with its cache in memory; with Redis the same check is made before the connection.\<close>

definition apply_context_cache :: "engine \<Rightarrow> settings \<Rightarrow> (engine \<times> context_cache) memcore_result" where
  "apply_context_cache en s =
     (if se_context_cache_backend s = CacheRedis
      then Inl (ValidationError ''Redis context cache backend requires async AppState::initialize'')
      else and_then (cache_config_validate (context_cache_config_from_settings s)) (\<lambda>_.
           Inr (en\<lparr>en_context_cache_config := context_cache_config_from_settings s\<rparr>,
                context_cache_new (se_context_cache_max_entries s))))"

datatype storage_migration_mode = MigrateAuto | MigrateValidateOnly | MigrateDisabled

definition storage_migration_mode_of :: "settings \<Rightarrow> storage_migration_mode" where
  "storage_migration_mode_of s =
     (if \<not> se_database_migrations_enabled s then MigrateDisabled
      else case se_database_migration_mode s of
             MigAuto \<Rightarrow> MigrateAuto | MigValidateOnly \<Rightarrow> MigrateValidateOnly | MigDisabled \<Rightarrow> MigrateDisabled)"

definition require_url :: "string option \<Rightarrow> string \<Rightarrow> string memcore_result" where
  "require_url u message =
     (case map_option trim u of
        Some v \<Rightarrow> if v = [] then Inl (ValidationError message) else Inr v
      | None \<Rightarrow> Inl (ValidationError message))"

definition require_postgres_url :: "settings \<Rightarrow> string memcore_result" where
  "require_postgres_url s =
     require_url (se_postgres_url s)
       (if se_event_backend s = EventPostgres \<and> se_fact_backend s \<noteq> FactPostgres
        then ''MEMCORE_POSTGRES_URL is required when MEMCORE_EVENT_BACKEND=postgres''
        else ''MEMCORE_POSTGRES_URL is required when MEMCORE_FACT_BACKEND=postgres'')"

definition require_redis_url :: "settings \<Rightarrow> string memcore_result" where
  "require_redis_url s = require_url (se_redis_url s) ''MEMCORE_REDIS_URL is required when MEMCORE_CONTEXT_CACHE_BACKEND=redis''"

definition require_qdrant_url :: "settings \<Rightarrow> string memcore_result" where
  "require_qdrant_url s =
     require_url (Some (se_qdrant_url s)) ''MEMCORE_QDRANT_URL is required when MEMCORE_VECTOR_BACKEND=qdrant''"

section \<open>Settings that load are settings that start\<close>

lemma blank_option_url: "\<not> blank_option u \<Longrightarrow> \<exists>v. require_url u m = Inr v"
  by (auto simp: blank_option_def require_url_def is_blank_def split: option.splits)

lemma openai_key_present: "\<not> blank_option (se_openai_api_key s) \<Longrightarrow> \<exists>k. require_openai_api_key s m = Inr k \<and> trim k \<noteq> []"
  by (auto simp: blank_option_def require_openai_api_key_def is_blank_def trim_idem split: option.splits)

lemma valid_runtime:
  assumes "validate_settings s = Inr ()"
  shows "\<exists>rt. provider_runtime_of s = Inr rt \<and> po_max_retries (pv_policy rt) \<le> se_provider_max_retries s \<and>
    (se_provider_guardrails_enabled s \<longrightarrow> po_max_retries (pv_policy rt) \<le> MAX_SAFE_PROVIDER_GUARDRAIL_RETRIES)"
  using assms [unfolded validate_settings_ok provider_checks_ok]
  by (auto simp: provider_runtime_of_def provider_execution_policy_of_def policy_from_config_def
      circuit_breaker_from_config_def validate_circuit_breaker_config_def validate_provider_execution_config_def Let_def result_simps)

lemma valid_guardrails: "validate_settings s = Inr () \<Longrightarrow> \<exists>g. create_provider_guardrails s = Inr g"
  unfolding validate_settings_ok provider_checks_ok
  by (cases "se_provider_test_mode s")
    (auto simp: create_provider_guardrails_def guardrail_enforcer_new_def validate_guardrail_config_def
      guardrail_config_from_settings_def MAX_SAFE_PROVIDER_GUARDRAIL_RETRIES_def MAX_SAFE_PROVIDER_RETRIES_def
      MULTI_PROVIDER_CONFIRMATION_def MULTI_PROVIDER_VALIDATION_CONFIRMATION_def unat_eq_0 result_simps)

lemma valid_cache:
  assumes "validate_settings s = Inr ()" "se_context_cache_enabled s \<longleftrightarrow> se_context_cache_backend s \<noteq> CacheDisabled"
    "se_context_cache_backend s = CacheRedis \<longrightarrow> se_context_cache_max_entries s \<noteq> 0"
  shows "cache_config_validate (context_cache_config_from_settings s) = Inr ()"
  using assms(2,3) assms(1) [unfolded validate_settings_ok cache_checks_ok]
  by (cases "se_context_cache_backend s")
    (auto simp: cache_config_validate_def context_cache_config_from_settings_def result_simps)

lemma valid_urls:
  assumes "validate_settings s = Inr ()"
  shows "se_context_cache_backend s = CacheRedis \<Longrightarrow> \<exists>u. require_redis_url s = Inr u"
    and "se_fact_backend s = FactPostgres \<or> se_event_backend s = EventPostgres \<Longrightarrow> \<exists>u. require_postgres_url s = Inr u"
    and "se_vector_backend s = VecQdrant \<Longrightarrow> \<exists>u. require_qdrant_url s = Inr u"
proof -
  note ok = assms [unfolded validate_settings_ok cache_checks_ok backend_checks_ok]
  show "\<exists>u. require_redis_url s = Inr u" if "se_context_cache_backend s = CacheRedis"
    unfolding require_redis_url_def by (rule blank_option_url) (use ok that in blast)
  show "\<exists>u. require_postgres_url s = Inr u" if "se_fact_backend s = FactPostgres \<or> se_event_backend s = EventPostgres"
    unfolding require_postgres_url_def by (rule blank_option_url) (use ok that in blast)
  show "\<exists>u. require_qdrant_url s = Inr u" if "se_vector_backend s = VecQdrant"
  proof -
    have "\<not> is_blank (se_qdrant_url s)" using ok that by blast
    then have "\<not> blank_option (Some (se_qdrant_url s))" by (simp add: blank_option_def)
    then show ?thesis unfolding require_qdrant_url_def by (rule blank_option_url)
  qed
qed

lemma openai_client_ok: "trim k \<noteq> [] \<Longrightarrow> \<exists>c. openai_client_new None k u = Inr c"
  by (simp add: openai_client_new_def)

lemma default_dimensions_pos: "default_embedding_dimensions_for_model m \<noteq> 0"
  by (simp add: default_embedding_dimensions_for_model_def Let_def)

lemma build_by_name:
  assumes "name = ''openai'' \<Longrightarrow> \<not> blank_option (se_openai_api_key s)" "name = ''mock'' \<or> name = ''openai''"
  shows "\<exists>p. build_llm_provider_by_name None name s = Inr p" and "\<exists>p. build_embedding_provider_by_name None name s = Inr p"
proof -
  have "(\<exists>p. build_llm_provider_by_name None name s = Inr p) \<and> (\<exists>p. build_embedding_provider_by_name None name s = Inr p)"
    using assms(2)
  proof
    assume "name = ''mock''"
    then show ?thesis by (simp add: build_llm_provider_by_name_def build_embedding_provider_by_name_def)
  next
    assume n: "name = ''openai''"
    obtain k1 where k1: "require_openai_api_key s ''OPENAI_API_KEY is required when MEMCORE_LLM_PROVIDER=openai'' = Inr k1" "trim k1 \<noteq> []"
      using openai_key_present [OF assms(1) [OF n]] by blast
    obtain k2 where k2: "require_openai_api_key s ''OPENAI_API_KEY is required when MEMCORE_EMBEDDING_PROVIDER=openai'' = Inr k2" "trim k2 \<noteq> []"
      using openai_key_present [OF assms(1) [OF n]] by blast
    obtain c1 c2 where "openai_client_new None k1 (se_openai_base_url s) = Inr c1" "openai_client_new None k2 (se_openai_base_url s) = Inr c2"
      using openai_client_ok [OF k1(2)] openai_client_ok [OF k2(2)] by blast
    with n k1(1) k2(1) default_dimensions_pos show ?thesis
      by (simp add: build_llm_provider_by_name_def build_embedding_provider_by_name_def map_error_def openai_embedding_provider_new_def)
  qed
  then show "\<exists>p. build_llm_provider_by_name None name s = Inr p" and "\<exists>p. build_embedding_provider_by_name None name s = Inr p" by blast+
qed

lemma valid_own_providers:
  assumes "validate_settings s = Inr ()" "\<not> se_provider_fallback_enabled s"
  shows "se_llm_provider s \<in> {LlmMock, LlmOpenAi} \<Longrightarrow> \<exists>p. create_llm_provider None env s = Inr p"
    and "\<exists>p. create_embedding_provider None env s = Inr p"
proof -
  obtain rt where rt: "provider_runtime_of s = Inr rt" using valid_runtime [OF assms(1)] by blast
  have key: "se_llm_provider s = LlmOpenAi \<or> se_embedding_provider s = EmbOpenAi \<Longrightarrow> \<not> blank_option (se_openai_api_key s)"
    using assms(1) [unfolded validate_settings_ok backend_checks_ok] by blast
  show "\<exists>p. create_llm_provider None env s = Inr p" if "se_llm_provider s \<in> {LlmMock, LlmOpenAi}"
  proof -
    have "\<exists>p. build_llm_provider_by_name None (llm_provider_kind_name (se_llm_provider s)) s = Inr p"
      by (rule build_by_name) (use that key in auto)
    with that assms(2) rt show ?thesis by (auto simp: create_llm_provider_def Let_def)
  qed
  have "\<exists>p. build_embedding_provider_by_name None (embedding_provider_kind_name (se_embedding_provider s)) s = Inr p"
    by (rule build_by_name) (use key in \<open>cases "se_embedding_provider s"; auto\<close>)+
  with assms(2) rt show "\<exists>p. create_embedding_provider None env s = Inr p"
    by (auto simp: create_embedding_provider_def resilient_embedding_provider_new_def Let_def)
qed

section \<open>Properties\<close>

text \<open>C40: Settings that \<open>from_env\<close> returns are settings the components accept: the provider runtime and the guardrails are
  built, with at most three retries under guardrails; the cache switch agrees with the chosen backend and its configuration
  passes its own check (unless Redis is chosen with no entries); every URL that a chosen backend needs is there, that of
  the SQLite database (the default), of Postgres, Redis and Qdrant, and so are the path and the table of LanceDB; the
  threshold of importance is a number between 0 and 1. Where the HTTP client can be built, the providers chosen among those
  that are wired in are built too, when fallback is off.\<close>

theorem loaded_settings_start:
  assumes "from_env vars = Inr s"
  shows "(\<exists>rt. provider_runtime_of s = Inr rt \<and> po_max_retries (pv_policy rt) \<le> se_provider_max_retries s \<and>
      (se_provider_guardrails_enabled s \<longrightarrow> po_max_retries (pv_policy rt) \<le> MAX_SAFE_PROVIDER_GUARDRAIL_RETRIES)) \<and>
    (\<exists>g. create_provider_guardrails s = Inr g) \<and>
    (se_context_cache_enabled s \<longleftrightarrow> se_context_cache_backend s \<noteq> CacheDisabled) \<and>
    (\<not> (se_context_cache_backend s = CacheRedis \<and> se_context_cache_max_entries s = 0) \<longrightarrow>
       cache_config_validate (context_cache_config_from_settings s) = Inr ()) \<and>
    \<not> is_blank (se_database_url s) \<and> \<not> is_blank (se_lancedb_path s) \<and> \<not> is_blank (se_lancedb_table s) \<and>
    (se_context_cache_backend s = CacheRedis \<longrightarrow> (\<exists>u. require_redis_url s = Inr u)) \<and>
    (se_fact_backend s = FactPostgres \<or> se_event_backend s = EventPostgres \<longrightarrow> (\<exists>u. require_postgres_url s = Inr u)) \<and>
    (se_vector_backend s = VecQdrant \<longrightarrow> (\<exists>u. require_qdrant_url s = Inr u)) \<and>
    f32_le (Fin 0) (se_min_importance s) \<and> f32_le (se_min_importance s) (Fin 1) \<and>
    (\<not> se_provider_fallback_enabled s \<longrightarrow>
       (se_llm_provider s \<in> {LlmMock, LlmOpenAi} \<longrightarrow> (\<exists>p. create_llm_provider None env s = Inr p)) \<and>
       (\<exists>p. create_embedding_provider None env s = Inr p))"
proof -
  from assms have loaded: "load_steps (settings_steps vars) settings_default = Inr s" and valid: "validate_settings s = Inr ()"
    and "f32_le (Fin 0) (se_min_importance s)" "f32_le (se_min_importance s) (Fin 1)"
    by (simp_all add: from_env_Inr)
  moreover note cache = loaded_cache_enabled [OF loaded]
  moreover have "cache_config_validate (context_cache_config_from_settings s) = Inr ()"
    if "\<not> (se_context_cache_backend s = CacheRedis \<and> se_context_cache_max_entries s = 0)"
    by (rule valid_cache [OF valid cache]) (use that in simp)
  moreover have "\<not> is_blank (se_database_url s)" "\<not> is_blank (se_lancedb_path s)" "\<not> is_blank (se_lancedb_table s)"
    using valid unfolding validate_settings_ok server_checks_ok access_checks_ok by blast+
  ultimately show ?thesis
    using valid_runtime [OF valid] valid_guardrails [OF valid] valid_urls [OF valid] valid_own_providers [OF valid] by blast
qed

theorem loaded_settings_start_witness:
  "\<exists>p. create_llm_provider None sample_env settings_unset = Inr p"
  using loaded_settings_start [OF from_env_unset, of sample_env] by (simp add: settings_unset_def settings_default_def)

text \<open>The case left out: Redis with no entries passes the checks of the settings and is then refused by the cache.\<close>

lemma redis_without_entries_refused:
  assumes "s = settings_unset\<lparr>se_context_cache_backend := CacheRedis, se_context_cache_enabled := True,
    se_redis_url := Some ''redis'', se_context_cache_max_entries := 0\<rparr>"
  shows "validate_settings s = Inr () \<and>
    cache_config_validate (context_cache_config_from_settings s) =
      Inl (ValidationError ''context cache max_entries must be greater than 0 when cache is enabled'')"
proof
  have u: "validate_cors_settings s = validate_cors_settings settings_unset" "validate_metrics_settings s = validate_metrics_settings settings_unset"
    by (simp_all add: assms validate_cors_settings_def validate_metrics_settings_def)
  show "validate_settings s = Inr ()"
    using valid_unset
    unfolding validate_settings_ok server_checks_ok access_checks_ok backend_checks_ok job_checks_ok cache_checks_ok provider_checks_ok u
    by (simp add: assms blank_option_def str_eval) (simp add: settings_unset_def settings_default_def)
  show "cache_config_validate (context_cache_config_from_settings s) =
      Inl (ValidationError ''context cache max_entries must be greater than 0 when cache is enabled'')"
    by (simp add: assms context_cache_config_from_settings_def cache_config_validate_def settings_unset_def settings_default_def)
qed

end
