(* ===== verification/Openai.thy ===== *)
theory Openai
  imports App_Config
begin

text \<open>
  \<^verbatim>\<open>crates/memcore-providers/src/openai\<close>: the provider for OpenAI and compatible services. Requests
  are records, \<open>ow_post\<close> is the HTTP library with the service behind it (its answer may differ at every
  call), and the readers of JSON texts are parameters as well; what the code makes of the answers is
  written out: texts of a response, labels, clamped scores, identifiers, the order of embeddings, and
  errors of the service as errors of the provider. Strings are UTF-8 bytes, so that \<open>&s[..n]\<close> can panic.
\<close>

section \<open>Labels (\<open>types.rs\<close>)\<close>

definition is_ascii_upper :: "char \<Rightarrow> bool" where
  "is_ascii_upper c \<longleftrightarrow> 65 \<le> (of_char c :: nat) \<and> (of_char c :: nat) \<le> 90"

definition to_snake_case :: "string \<Rightarrow> string" where
  "to_snake_case s =
     (case s of
        [] \<Rightarrow> []
      | c # cs \<Rightarrow> ascii_lower c # concat (map (\<lambda>c. if is_ascii_upper c then [CHR ''_'', ascii_lower c] else [c]) cs))"

definition blanks_to_underscores :: "string \<Rightarrow> string" where
  "blanks_to_underscores s = map (\<lambda>c. if c = CHR '' '' then CHR ''_'' else c) s"

definition model_label :: "string \<Rightarrow> string" where
  "model_label s = to_snake_case (blanks_to_underscores (trim s))"

definition parse_model_memory_type :: "string \<Rightarrow> memory_type memcore_result" where
  "parse_model_memory_type v =
     (let l = model_label v in
      if l = ''profile'' then Inr Profile
      else if l = ''preference'' then Inr Preference
      else if l = ''project'' then Inr Project
      else if l = ''conversation'' then Inr Conversation
      else if l = ''task'' then Inr Task
      else if l = ''entity'' then Inr Entity
      else if l = ''skill'' then Inr Skill
      else if l = ''system'' then Inr MTSystem
      else Inl (ValidationError (''invalid memory_type from model: '' @ v)))"

definition parse_fact_operation_label :: "string \<Rightarrow> fact_operation memcore_result" where
  "parse_fact_operation_label v =
     (let l = model_label v in
      if l = ''add'' then Inr OpAdd
      else if l = ''update'' then Inr OpUpdate
      else if l = ''delete'' then Inr OpDelete
      else if l = ''no_op'' \<or> l = ''noop'' then Inr OpNoOp
      else if l = ''archive'' then Inr OpArchive
      else if l = ''summarize'' then Inr OpSummarize
      else Inl (ValidationError (''invalid operation from model: '' @ v)))"

section \<open>Requests and responses (\<open>types.rs\<close>)\<close>

datatype text_format = JsonSchema string bool json | TextFormatText

record responses_create_request =
  rr_model :: string
  rr_input :: json
  rr_instructions :: "string option"
  rr_text :: "text_format option"

record response_output_content =
  ot_content_type :: string
  ot_text :: string

record response_output_item =
  oi_item_type :: string
  oi_content :: "response_output_content list"

text \<open>\<open>ro_error\<close> is the message of an error, if there is an error and if it has a message.\<close>

record responses_create_response =
  ro_status :: "string option"
  ro_output :: "response_output_item list"
  ro_error :: "string option option"

record chat_completion_message =
  cm_role :: string
  cm_content :: string

record chat_completions_request =
  cr_model :: string
  cr_messages :: "chat_completion_message list"
  cr_response_format :: "json option"
  cr_max_tokens :: "u32 option"
  cr_thinking :: "json option"

text \<open>The choices of a chat completion, each with the content of its message.\<close>

type_synonym chat_completions_response = "string option list"

record embeddings_create_request =
  er_model :: string
  er_input :: "string list"
  er_dimensions :: "nat option"

record embedding_data =
  ed_embedding :: "f32 list"
  ed_index :: nat

record fact_extraction_model_fact =
  xf_content :: string
  xf_memory_type :: string
  xf_confidence :: f32
  xf_importance :: f32
  xf_valid_at :: "datetime option"
  xf_metadata :: json

record classification_model_response =
  cl_operation :: string
  cl_target_fact_id :: "string option"
  cl_reason :: "string option"
  cl_confidence :: f32

datatype request_body =
    ResponsesBody responses_create_request
  | ChatBody chat_completions_request
  | EmbeddingsBody embeddings_create_request

datatype http_answer =
    Transport_timeout
  | Transport_failed string
  | Http_response nat string

text \<open>The HTTP library and the service (by the number of the call, the address, the key and the body), and
  the readers of JSON; a reader gives the message of its error or the value read.\<close>

record openai_world =
  ow_post :: "nat \<Rightarrow> string \<Rightarrow> string \<Rightarrow> request_body \<Rightarrow> http_answer"
  ow_read_responses :: "string \<Rightarrow> string + responses_create_response"
  ow_read_chat :: "string \<Rightarrow> string + chat_completions_response"
  ow_read_embeddings :: "string \<Rightarrow> string + embedding_data list"
  ow_read_error :: "string \<Rightarrow> string option"
  ow_read_extraction :: "string \<Rightarrow> string + fact_extraction_model_fact list"
  ow_read_classification :: "string \<Rightarrow> string + classification_model_response"
  ow_json_text :: "json \<Rightarrow> string"
  ow_parse_uuid :: "string \<Rightarrow> uuid option"

section \<open>Reading answers (\<open>types.rs\<close>)\<close>

definition extract_chat_completion_text :: "chat_completions_response \<Rightarrow> string memcore_result" where
  "extract_chat_completion_text choices =
     (case choices of
        Some text # _ \<Rightarrow>
          if trim text \<noteq> [] then Inr (trim text)
          else Inl (ProviderError ''OpenAI chat completion returned empty content'')
      | _ \<Rightarrow> Inl (ProviderError ''OpenAI chat completion returned empty content''))"

definition output_texts :: "response_output_item \<Rightarrow> string list" where
  "output_texts item =
     (if oi_item_type item \<noteq> ''message'' then []
      else [ot_text c. c \<leftarrow> oi_content item, ot_content_type c = ''output_text'' \<and> ot_text c \<noteq> []])"

definition extract_output_text :: "responses_create_response \<Rightarrow> string memcore_result" where
  "extract_output_text response =
     (case ro_error response of
        Some (Some message) \<Rightarrow> Inl (ProviderError message)
      | Some None \<Rightarrow> Inl (ProviderError ''OpenAI response error'')
      | None \<Rightarrow>
          let parts = concat (map output_texts (ro_output response)) in
          if parts = [] then Inl (ProviderError ''OpenAI response contained no output text'')
          else Inr (concat parts))"

definition clamp_unit_interval :: "f32 \<Rightarrow> f32" where
  "clamp_unit_interval v = (if \<not> f32_is_finite v then Fin 0 else f32_clamp v (Fin 0) (Fin 1))"

text \<open>A fact with an unknown type or without content is skipped.\<close>

definition model_candidate :: "fact_extraction_model_fact \<Rightarrow> candidate_fact option" where
  "model_candidate f =
     (case parse_model_memory_type (xf_memory_type f) of
        Inl _ \<Rightarrow> None
      | Inr t \<Rightarrow>
          (case candidate_new (xf_content f) t (clamp_unit_interval (xf_confidence f))
                  (clamp_unit_interval (xf_importance f)) (xf_valid_at f) (xf_metadata f) of
             Inl _ \<Rightarrow> None
           | Inr c \<Rightarrow> Some c))"

definition parse_fact_extraction_response :: "openai_world \<Rightarrow> string \<Rightarrow> candidate_fact list memcore_result" where
  "parse_fact_extraction_response w text =
     (case ow_read_extraction w text of
        Inl e \<Rightarrow> Inl (ProviderError (''invalid fact extraction JSON from model: '' @ e))
      | Inr facts \<Rightarrow> Inr (List.map_filter model_candidate facts))"

definition parse_target_fact_id :: "openai_world \<Rightarrow> string option \<Rightarrow> uuid option memcore_result" where
  "parse_target_fact_id w v =
     (case v of
        Some i \<Rightarrow>
          if trim i = [] then Inr None
          else (case ow_parse_uuid w (trim i) of
                  None \<Rightarrow> Inl (ProviderError ''invalid target_fact_id UUID from model'')
                | Some u \<Rightarrow> Inr (Some u))
      | None \<Rightarrow> Inr None)"

definition parse_classification_response :: "openai_world \<Rightarrow> string \<Rightarrow> fact_operation_decision memcore_result" where
  "parse_classification_response w text =
     (case ow_read_classification w text of
        Inl e \<Rightarrow> Inl (ProviderError (''invalid classification JSON from model: '' @ e))
      | Inr p \<Rightarrow>
          and_then (parse_fact_operation_label (cl_operation p)) (\<lambda>operation.
          and_then (parse_target_fact_id w (cl_target_fact_id p)) (\<lambda>target.
          if \<not> in_unit_interval (cl_confidence p)
          then Inl (ProviderError ''classification confidence must be between 0.0 and 1.0'')
          else Inr \<lparr>d_operation = operation, d_target_fact_id = target, d_reason = cl_reason p,
                    d_confidence = cl_confidence p\<rparr>)))"

text \<open>The schemas sent along; objects are ordered by key.\<close>

definition json_type :: "string \<Rightarrow> json" where
  "json_type t = JObject [(''type'', JString t)]"

definition json_nullable_string :: json where
  "json_nullable_string = JObject [(''type'', JArray [JString ''string'', JString ''null''])]"

definition fact_extraction_json_schema :: json where
  "fact_extraction_json_schema =
     JObject
       [(''additionalProperties'', JBool False),
        (''properties'', JObject
          [(''facts'', JObject
            [(''items'', JObject
              [(''additionalProperties'', JBool False),
               (''properties'', JObject
                 [(''confidence'', json_type ''number''), (''content'', json_type ''string''),
                  (''importance'', json_type ''number''), (''memory_type'', json_type ''string''),
                  (''metadata'', json_type ''object''), (''valid_at'', json_nullable_string)]),
               (''required'', JArray (map JString
                 [''content'', ''memory_type'', ''confidence'', ''importance'', ''valid_at'', ''metadata''])),
               (''type'', JString ''object'')]),
             (''type'', JString ''array'')])]),
        (''required'', JArray [JString ''facts'']),
        (''type'', JString ''object'')]"

definition classification_json_schema :: json where
  "classification_json_schema =
     JObject
       [(''additionalProperties'', JBool False),
        (''properties'', JObject
          [(''confidence'', json_type ''number''), (''operation'', json_type ''string''),
           (''reason'', json_nullable_string), (''target_fact_id'', json_nullable_string)]),
        (''required'', JArray (map JString [''operation'', ''target_fact_id'', ''reason'', ''confidence''])),
        (''type'', JString ''object'')]"

section \<open>The client (\<open>client.rs\<close>)\<close>

definition prefers_chat_completions :: "string \<Rightarrow> bool" where
  "prefers_chat_completions base_url \<longleftrightarrow> \<not> contains (to_ascii_lowercase (trim base_url)) ''api.openai.com''"

definition prefers_disabled_thinking :: "string \<Rightarrow> bool" where
  "prefers_disabled_thinking base_url \<longleftrightarrow> contains (to_ascii_lowercase (trim base_url)) ''api.z.ai''"

definition responses_request_body :: "string \<Rightarrow> string \<Rightarrow> json \<Rightarrow> string \<Rightarrow> json \<Rightarrow> responses_create_request" where
  "responses_request_body model instructions input schema_name schema =
     \<lparr>rr_model = model, rr_input = input, rr_instructions = Some instructions,
      rr_text = Some (JsonSchema schema_name True schema)\<rparr>"

definition responses_text_request_body :: "string \<Rightarrow> string \<Rightarrow> json \<Rightarrow> responses_create_request" where
  "responses_text_request_body model instructions input =
     \<lparr>rr_model = model, rr_input = input, rr_instructions = Some instructions, rr_text = Some TextFormatText\<rparr>"

definition map_http_error :: "openai_world \<Rightarrow> nat \<Rightarrow> string \<Rightarrow> memcore_error" where
  "map_http_error w status body =
     (if status = 401 then ProviderError ''OpenAI API key is unauthorized''
      else case ow_read_error w body of
             Some message \<Rightarrow> ProviderError (''OpenAI API error ('' @ show_nat status @ ''): '' @ message)
           | None \<Rightarrow> ProviderError (''OpenAI API error with status '' @ show_nat status))"

text \<open>\<open>map_transport_error\<close> on the two kinds of transport errors; a status from 200 to 299 is a success.\<close>

definition post_json ::
  "openai_world \<Rightarrow> nat \<Rightarrow> openai_client \<Rightarrow> string \<Rightarrow> request_body \<Rightarrow> (string \<Rightarrow> string + 'r) \<Rightarrow> 'r memcore_result" where
  "post_json w n client path body read =
     (case ow_post w n (oc_base_url client @ path) (oc_api_key client) body of
        Transport_timeout \<Rightarrow> Inl (ProviderError ''OpenAI request timed out'')
      | Transport_failed e \<Rightarrow> Inl (ProviderError (''OpenAI HTTP request failed: '' @ e))
      | Http_response status text \<Rightarrow>
          if 200 \<le> status \<and> status < 300
          then map_error (\<lambda>e. ProviderError (''invalid JSON from OpenAI: '' @ e)) (read text)
          else Inl (map_http_error w status text))"

definition create_response ::
  "openai_world \<Rightarrow> nat \<Rightarrow> openai_client \<Rightarrow> responses_create_request \<Rightarrow> responses_create_response memcore_result" where
  "create_response w n client request = post_json w n client ''/responses'' (ResponsesBody request) (ow_read_responses w)"

definition create_chat_completion ::
  "openai_world \<Rightarrow> nat \<Rightarrow> openai_client \<Rightarrow> chat_completions_request \<Rightarrow> chat_completions_response memcore_result" where
  "create_chat_completion w n client request = post_json w n client ''/chat/completions'' (ChatBody request) (ow_read_chat w)"

definition create_embeddings ::
  "openai_world \<Rightarrow> nat \<Rightarrow> openai_client \<Rightarrow> embeddings_create_request \<Rightarrow> embedding_data list memcore_result" where
  "create_embeddings w n client request = post_json w n client ''/embeddings'' (EmbeddingsBody request) (ow_read_embeddings w)"

section \<open>The provider of language models (\<open>llm.rs\<close>)\<close>

definition FACT_EXTRACTION_INSTRUCTIONS :: string where
  "FACT_EXTRACTION_INSTRUCTIONS = join [CHR 0x0A]
     [''You extract durable long-term memory facts from conversation messages.'',
      ''Rules:'',
      ''- Extract only useful, durable facts worth remembering later.'',
      ''- Do not store random short-lived details.'',
      ''- Do not store sensitive data unless the user clearly asks for it.'',
      ''- Prefer concise fact statements.'',
      ''- confidence and importance must be floating-point numbers between 0.0 and 1.0 inclusive.'',
      ''- memory_type must be one of: Preference, Profile, Goal, Relationship, Event, Knowledge, Instruction, Other.'',
      ''- Return valid JSON only matching the schema.'',
      ''- Do not include markdown or commentary.'']"

definition CLASSIFICATION_INSTRUCTIONS :: string where
  "CLASSIFICATION_INSTRUCTIONS = join [CHR 0x0A]
     [''You classify how a candidate memory fact should be stored relative to existing facts.'',
      ''Return valid JSON only matching the schema.'',
      ''Prefer Add when there is no clear conflict.'']"

definition SUMMARIZATION_INSTRUCTIONS :: string where
  "SUMMARIZATION_INSTRUCTIONS = join [CHR 0x0A]
     [''You summarize memory facts into concise plain text for downstream context.'',
      ''Keep the summary short and factual.'',
      ''Do not use markdown unless it materially improves clarity.'']"

datatype openai_llm_transport = Responses | ChatCompletions

definition transport_for_base_url :: "openai_client \<Rightarrow> openai_llm_transport" where
  "transport_for_base_url client =
     (if prefers_chat_completions (oc_base_url client) then ChatCompletions else Responses)"

definition responses_json ::
  "openai_world \<Rightarrow> nat \<Rightarrow> openai_client \<Rightarrow> string \<Rightarrow> string \<Rightarrow> json \<Rightarrow> string \<Rightarrow> json \<Rightarrow> string memcore_result" where
  "responses_json w n client model instructions input schema_name schema =
     and_then (create_response w n client (responses_request_body model instructions input schema_name schema))
       extract_output_text"

definition responses_plain_text ::
  "openai_world \<Rightarrow> nat \<Rightarrow> openai_client \<Rightarrow> string \<Rightarrow> string \<Rightarrow> json \<Rightarrow> string memcore_result" where
  "responses_plain_text w n client model instructions input =
     and_then (create_response w n client (responses_text_request_body model instructions input)) extract_output_text"

definition chat_thinking_option :: "openai_client \<Rightarrow> json option" where
  "chat_thinking_option client =
     (if prefers_disabled_thinking (oc_base_url client) then Some (json_type ''disabled'') else None)"

definition chat_request :: "openai_client \<Rightarrow> string \<Rightarrow> string \<Rightarrow> string \<Rightarrow> json option \<Rightarrow> chat_completions_request" where
  "chat_request client model system_text user_text response_format =
     \<lparr>cr_model = model,
      cr_messages = [\<lparr>cm_role = ''system'', cm_content = system_text\<rparr>, \<lparr>cm_role = ''user'', cm_content = user_text\<rparr>],
      cr_response_format = response_format, cr_max_tokens = Some 300, cr_thinking = chat_thinking_option client\<rparr>"

definition chat_json ::
  "openai_world \<Rightarrow> nat \<Rightarrow> openai_client \<Rightarrow> string \<Rightarrow> string \<Rightarrow> json \<Rightarrow> json \<Rightarrow> string memcore_result" where
  "chat_json w n client model instructions input schema =
     and_then (create_chat_completion w n client
       (chat_request client model
          (instructions @ [CHR 0x0A] @ ''Return a single JSON object only that matches this JSON Schema:'' @ [CHR 0x0A] @
           ow_json_text w schema)
          (ow_json_text w input) (Some (json_type ''json_object''))))
       extract_chat_completion_text"

definition chat_plain_text ::
  "openai_world \<Rightarrow> nat \<Rightarrow> openai_client \<Rightarrow> string \<Rightarrow> string \<Rightarrow> json \<Rightarrow> string memcore_result" where
  "chat_plain_text w n client model instructions input =
     and_then (create_chat_completion w n client (chat_request client model instructions (ow_json_text w input) None))
       extract_chat_completion_text"

definition request_json ::
  "openai_world \<Rightarrow> nat \<Rightarrow> openai_client \<Rightarrow> openai_llm_transport \<Rightarrow> string \<Rightarrow> string \<Rightarrow> json \<Rightarrow> string \<Rightarrow> json \<Rightarrow> string memcore_result" where
  "request_json w n client transport model instructions input schema_name schema =
     (case transport of
        Responses \<Rightarrow> responses_json w n client model instructions input schema_name schema
      | ChatCompletions \<Rightarrow> chat_json w n client model instructions input schema)"

definition request_plain_text ::
  "openai_world \<Rightarrow> nat \<Rightarrow> openai_client \<Rightarrow> openai_llm_transport \<Rightarrow> string \<Rightarrow> string \<Rightarrow> json \<Rightarrow> string memcore_result" where
  "request_plain_text w n client transport model instructions input =
     (case transport of
        Responses \<Rightarrow> responses_plain_text w n client model instructions input
      | ChatCompletions \<Rightarrow> chat_plain_text w n client model instructions input)"

fun memory_type_name :: "memory_type \<Rightarrow> string" where
  "memory_type_name Profile = ''profile''"
| "memory_type_name Preference = ''preference''"
| "memory_type_name Project = ''project''"
| "memory_type_name Conversation = ''conversation''"
| "memory_type_name Task = ''task''"
| "memory_type_name Entity = ''entity''"
| "memory_type_name Skill = ''skill''"
| "memory_type_name MTSystem = ''system''"

text \<open>A float that is not finite is \<open>null\<close> in JSON.\<close>

fun json_of_f32 :: "f32 \<Rightarrow> json" where
  "json_of_f32 (Fin r) = JFloat r"
| "json_of_f32 _ = JNull"

fun role_name :: "message_role \<Rightarrow> string" where
  "role_name RoleUser = ''user''"
| "role_name RoleAssistant = ''assistant''"
| "role_name RoleSystem = ''system''"

definition messages_to_input :: "memory_message list \<Rightarrow> json" where
  "messages_to_input messages =
     JArray (map (\<lambda>m. JObject [(''content'', JString (msg_content m)), (''role'', JString (role_name (msg_role m)))]) messages)"

definition tenant_json :: "tenant_context \<Rightarrow> json" where
  "tenant_json t = JObject [(''org_id'', JString (tc_org_id t)), (''user_id'', JString (tc_user_id t))]"

definition openai_extract_facts ::
  "openai_world \<Rightarrow> openai_client \<Rightarrow> openai_llm_transport \<Rightarrow> string \<Rightarrow> nat \<Rightarrow> tenant_context \<Rightarrow> memory_message list \<Rightarrow> json \<Rightarrow>
   candidate_fact list memcore_result" where
  "openai_extract_facts w client transport model n t messages metadata =
     and_then (request_json w n client transport model FACT_EXTRACTION_INSTRUCTIONS
       (JObject [(''messages'', messages_to_input messages), (''metadata'', metadata), (''tenant'', tenant_json t)])
       ''memcore_fact_extraction'' fact_extraction_json_schema)
     (parse_fact_extraction_response w)"

definition existing_fact_json :: "fact \<Rightarrow> json" where
  "existing_fact_json f =
     JObject [(''confidence'', json_of_f32 (f_confidence f)), (''content'', JString (f_content f)),
              (''id'', JString (uuid_to_string (f_id f))), (''importance'', json_of_f32 (f_importance f)),
              (''memory_type'', JString (memory_type_name (f_memory_type f)))]"

definition openai_classify_fact_operation ::
  "openai_world \<Rightarrow> openai_client \<Rightarrow> openai_llm_transport \<Rightarrow> string \<Rightarrow> nat \<Rightarrow> tenant_context \<Rightarrow> candidate_fact \<Rightarrow> fact list \<Rightarrow>
   fact_operation_decision memcore_result" where
  "openai_classify_fact_operation w client transport model n t c existing =
     and_then (request_json w n client transport model CLASSIFICATION_INSTRUCTIONS
       (JObject [(''candidate_fact'', JObject
                   [(''confidence'', json_of_f32 (c_confidence c)), (''content'', JString (c_content c)),
                    (''importance'', json_of_f32 (c_importance c)),
                    (''memory_type'', JString (memory_type_name (c_memory_type c)))]),
                 (''existing_facts'', JArray (map existing_fact_json existing)),
                 (''tenant'', tenant_json t)])
       ''memcore_fact_classification'' classification_json_schema)
     (parse_classification_response w)"

text \<open>\<open>&summary[..max_chars]\<close> with \<open>max_chars\<close> counted in bytes.\<close>

definition truncate_summary :: "string \<Rightarrow> nat option \<Rightarrow> string outcome" where
  "truncate_summary summary max_tokens =
     (case max_tokens of
        None \<Rightarrow> Inr summary
      | Some m \<Rightarrow>
          let max_chars = usize_saturating_mul m 4 in
          if max_chars < length summary then and_then (split_at summary max_chars) (\<lambda>(front, _). Inr front)
          else Inr summary)"

definition openai_summarize_memory ::
  "openai_world \<Rightarrow> openai_client \<Rightarrow> openai_llm_transport \<Rightarrow> string \<Rightarrow> nat \<Rightarrow> tenant_context \<Rightarrow> fact list \<Rightarrow> nat option \<Rightarrow>
   string outcome" where
  "openai_summarize_memory w client transport model n t facts max_tokens =
     and_then (lift_err (request_plain_text w n client transport model SUMMARIZATION_INSTRUCTIONS
       (JObject [(''facts'', JArray (map (\<lambda>f. JObject
                    [(''content'', JString (f_content f)), (''importance'', json_of_f32 (f_importance f)),
                     (''memory_type'', JString (memory_type_name (f_memory_type f)))]) facts)),
                 (''max_tokens'', json_opt (\<lambda>m. JInt (int m)) max_tokens),
                 (''tenant'', tenant_json t)])))
     (\<lambda>summary. truncate_summary summary max_tokens)"

section \<open>The provider of embeddings (\<open>embeddings.rs\<close>)\<close>

definition validate_non_empty_text :: "string \<Rightarrow> unit memcore_result" where
  "validate_non_empty_text text =
     (if trim text = [] then Inl (ValidationError ''embedding text cannot be empty'') else Inr ())"

definition validate_embedding_dimensions :: "f32 list \<Rightarrow> nat \<Rightarrow> unit memcore_result" where
  "validate_embedding_dimensions embedding expected =
     (if length embedding \<noteq> expected
      then Inl (ProviderError (''OpenAI embedding dimension mismatch: expected '' @ show_nat expected @ '', got '' @
             show_nat (length embedding)))
      else Inr ())"

fun validate_texts :: "string list \<Rightarrow> unit memcore_result" where
  "validate_texts [] = Inr ()"
| "validate_texts (t # ts) = and_then (validate_non_empty_text t) (\<lambda>_. validate_texts ts)"

fun order_embeddings :: "nat \<Rightarrow> embedding_data list \<Rightarrow> f32 list list \<Rightarrow> f32 list list memcore_result" where
  "order_embeddings dims [] ordered = Inr ordered"
| "order_embeddings dims (item # items) ordered =
     and_then (validate_embedding_dimensions (ed_embedding item) dims) (\<lambda>_.
     if length ordered \<le> ed_index item
     then Inl (ProviderError ''OpenAI embeddings response index out of range'')
     else order_embeddings dims items (ordered[ed_index item := ed_embedding item]))"

definition read_embeddings :: "nat \<Rightarrow> embedding_data list \<Rightarrow> f32 list list memcore_result" where
  "read_embeddings dims items =
     (if items = [] then Inl (ProviderError ''OpenAI embeddings response contained no data'')
      else and_then (order_embeddings dims items (replicate (length items) [])) (\<lambda>ordered.
        if [] \<in> set ordered
        then Inl (ProviderError ''OpenAI embeddings response missing one or more indices'')
        else Inr ordered))"

definition openai_embed_batch ::
  "openai_world \<Rightarrow> openai_client \<Rightarrow> string \<Rightarrow> nat \<Rightarrow> nat \<Rightarrow> string list \<Rightarrow> f32 list list memcore_result" where
  "openai_embed_batch w client model dims n texts =
     (if texts = [] then Inr []
      else
        and_then (validate_texts texts) (\<lambda>_.
        and_then (create_embeddings w n client \<lparr>er_model = model, er_input = texts, er_dimensions = Some dims\<rparr>)
        (read_embeddings dims)))"

definition openai_embed_text ::
  "openai_world \<Rightarrow> openai_client \<Rightarrow> string \<Rightarrow> nat \<Rightarrow> nat \<Rightarrow> string \<Rightarrow> f32 list memcore_result" where
  "openai_embed_text w client model dims n text =
     and_then (openai_embed_batch w client model dims n [text]) (\<lambda>batch.
     if batch = [] then Inl (ProviderError ''OpenAI returned no embedding'') else Inr (last batch))"

section \<open>Labels\<close>

lemma snake_case_words:
  "to_snake_case ''Profile'' = ''profile''" "to_snake_case ''profile'' = ''profile''"
  "to_snake_case ''Preference'' = ''preference''" "to_snake_case ''preference'' = ''preference''"
  "to_snake_case ''Project'' = ''project''" "to_snake_case ''project'' = ''project''"
  "to_snake_case ''Conversation'' = ''conversation''" "to_snake_case ''conversation'' = ''conversation''"
  "to_snake_case ''Task'' = ''task''" "to_snake_case ''task'' = ''task''"
  "to_snake_case ''Entity'' = ''entity''" "to_snake_case ''entity'' = ''entity''"
  "to_snake_case ''Skill'' = ''skill''" "to_snake_case ''skill'' = ''skill''"
  "to_snake_case ''System'' = ''system''" "to_snake_case ''system'' = ''system''"
  "to_snake_case ''Goal'' = ''goal''" "to_snake_case ''Relationship'' = ''relationship''"
  "to_snake_case ''Event'' = ''event''" "to_snake_case ''Knowledge'' = ''knowledge''"
  "to_snake_case ''Instruction'' = ''instruction''" "to_snake_case ''Other'' = ''other''"
  "to_snake_case ''NoOp'' = ''no_op''" "to_snake_case ''no_op'' = ''no_op''"
  "to_snake_case ''ADD'' = ''a_d_d''" "to_snake_case ''NO_OP'' = ''n_o__o_p''"
  by code_simp+

text \<open>Every memory type is read back from both of its names.\<close>

lemma model_memory_type_roundtrip:
  "parse_model_memory_type (memory_type_label t) = Inr t" "parse_model_memory_type (memory_type_name t) = Inr t"
  by (cases t; simp add: parse_model_memory_type_def model_label_def blanks_to_underscores_def snake_case_words str_eval)+

text \<open>The instructions name eight types of memory, of which the code knows two (Preference and Profile): facts
  of the six others are dropped without a word.\<close>

definition UNKNOWN_PROMPTED_TYPES :: "string list" where
  "UNKNOWN_PROMPTED_TYPES = [''Goal'', ''Relationship'', ''Event'', ''Knowledge'', ''Instruction'', ''Other'']"

lemma unknown_prompted_type: "v \<in> set UNKNOWN_PROMPTED_TYPES \<Longrightarrow> \<exists>e. parse_model_memory_type v = Inl e"
  unfolding UNKNOWN_PROMPTED_TYPES_def
  by (elim set_ConsD [THEN disjE] | simp add: parse_model_memory_type_def model_label_def blanks_to_underscores_def
        snake_case_words str_eval)+

lemma prompted_types_dropped:
  assumes "ow_read_extraction w text = Inr facts" "\<And>f. f \<in> set facts \<Longrightarrow> xf_memory_type f \<in> set UNKNOWN_PROMPTED_TYPES"
  shows "parse_fact_extraction_response w text = Inr []"
proof -
  have "model_candidate f = None" if "f \<in> set facts" for f
    using unknown_prompted_type [OF assms(2) [OF that]] by (auto simp: model_candidate_def)
  then have "List.map_filter model_candidate facts = []"
    by (induction facts) (auto simp: List.map_filter_def)
  then show ?thesis using assms(1) by (simp add: parse_fact_extraction_response_def)
qed

text \<open>Labels in capitals are not understood: each capital starts a new word.\<close>

lemma capital_labels_refused:
  "parse_fact_operation_label ''ADD'' = Inl (ValidationError ''invalid operation from model: ADD'')"
  "parse_fact_operation_label ''NO_OP'' = Inl (ValidationError ''invalid operation from model: NO_OP'')"
  "parse_fact_operation_label ''NoOp'' = Inr OpNoOp" "parse_fact_operation_label ''no op'' = Inr OpNoOp"
  by (simp_all add: parse_fact_operation_label_def model_label_def blanks_to_underscores_def snake_case_words str_eval)

section \<open>What is checked of an answer\<close>

lemma clamp_unit_interval_in: "in_unit_interval (clamp_unit_interval v)"
proof (cases "f32_is_finite v")
  case True
  then have "v \<noteq> NaN" by (auto simp: f32_is_finite_def)
  then show ?thesis
    using True f32_clamp_range [of v "Fin 0" "Fin 1"] by (simp add: clamp_unit_interval_def in_unit_interval_def)
qed (simp add: clamp_unit_interval_def in_unit_interval_def)

lemma model_candidate_valid:
  assumes "model_candidate f = Some c"
  shows "\<not> is_blank (c_content c) \<and> in_unit_interval (c_confidence c) \<and> in_unit_interval (c_importance c)"
  using assms
  by (auto simp: model_candidate_def candidate_new_def validate_non_empty_def clamp_unit_interval_in
      validate_unit_interval_def split: sum.splits if_splits)

lemma openai_extraction_valid:
  assumes "openai_extract_facts w client transport model n t messages metadata = Inr cs" "c \<in> set cs"
  shows "\<not> is_blank (c_content c) \<and> in_unit_interval (c_confidence c) \<and> in_unit_interval (c_importance c)"
proof -
  obtain answer where "parse_fact_extraction_response w answer = Inr cs"
    using assms(1) by (auto simp: openai_extract_facts_def and_then_def split: sum.splits)
  then obtain facts where "cs = List.map_filter model_candidate facts"
    by (auto simp: parse_fact_extraction_response_def split: sum.splits)
  then show ?thesis using assms(2) model_candidate_valid by (auto simp: List.map_filter_def)
qed

lemma openai_classification_valid:
  assumes "openai_classify_fact_operation w client transport model n t c existing = Inr d"
  shows "in_unit_interval (d_confidence d)"
  using assms
  by (auto simp: openai_classify_fact_operation_def parse_classification_response_def and_then_def
      split: sum.splits if_splits)

text \<open>The embeddings of a response are put into the order of their indices.\<close>

definition put_embedding :: "f32 list list \<Rightarrow> embedding_data \<Rightarrow> f32 list list" where
  "put_embedding vs item = vs[ed_index item := ed_embedding item]"

lemma length_put_embeddings [simp]: "length (foldl put_embedding vs items) = length vs"
  by (induction items arbitrary: vs) (simp_all add: put_embedding_def)

lemma order_embeddings_iff:
  "order_embeddings dims items acc = Inr vs \<longleftrightarrow>
     (\<forall>item \<in> set items. length (ed_embedding item) = dims \<and> ed_index item < length acc) \<and>
     vs = foldl put_embedding acc items"
  by (induction items arbitrary: acc)
     (auto simp: and_then_def validate_embedding_dimensions_def put_embedding_def not_le split: sum.splits)

lemma put_embeddings_other: "i \<notin> ed_index ` set items \<Longrightarrow> foldl put_embedding vs items ! i = vs ! i"
  by (induction items arbitrary: vs) (simp_all add: put_embedding_def)

lemma put_embeddings_at:
  assumes "distinct (map ed_index items)" "item \<in> set items" "ed_index item < length vs"
  shows "foldl put_embedding vs items ! ed_index item = ed_embedding item"
  using assms
proof (induction items arbitrary: vs)
  case (Cons x xs)
  show ?case
  proof (cases "item = x")
    case True
    then have "ed_index item \<notin> ed_index ` set xs" using Cons.prems(1) by auto
    then show ?thesis using True Cons.prems(3) by (simp add: put_embeddings_other) (simp add: put_embedding_def)
  next
    case False
    then show ?thesis using Cons.IH [of "put_embedding vs x"] Cons.prems by (simp add: put_embedding_def)
  qed
qed simp

lemma embeddings_in_order:
  assumes "0 < dims"
  shows "read_embeddings dims items = Inr vs \<longleftrightarrow>
    items \<noteq> [] \<and> length vs = length items \<and> ed_index ` set items = {0..<length items} \<and>
    (\<forall>item \<in> set items. length (ed_embedding item) = dims \<and> vs ! ed_index item = ed_embedding item)"
proof
  assume read: "read_embeddings dims items = Inr vs"
  let ?acc = "replicate (length items) []"
  have ok: "\<forall>item \<in> set items. length (ed_embedding item) = dims \<and> ed_index item < length items"
    and vs: "vs = foldl put_embedding ?acc items" and full: "[] \<notin> set vs" and ne: "items \<noteq> []"
    using read by (auto simp: read_embeddings_def and_then_def order_embeddings_iff split: if_splits sum.splits)
  have "i \<in> ed_index ` set items" if "i < length items" for i
  proof (rule ccontr)
    assume "i \<notin> ed_index ` set items"
    then have "vs ! i = []" using that by (simp add: vs put_embeddings_other)
    then show False using full that by (metis length_put_embeddings length_replicate nth_mem vs)
  qed
  then have idx: "ed_index ` set items = {0..<length items}" using ok by auto
  then have "card (set (map ed_index items)) = length (map ed_index items)" by simp
  then have "distinct (map ed_index items)" by (rule card_distinct)
  then have "vs ! ed_index item = ed_embedding item" if "item \<in> set items" for item
    using put_embeddings_at that ok by (simp add: vs)
  then show "items \<noteq> [] \<and> length vs = length items \<and> ed_index ` set items = {0..<length items} \<and>
    (\<forall>item \<in> set items. length (ed_embedding item) = dims \<and> vs ! ed_index item = ed_embedding item)"
    using ne idx ok by (simp add: vs)
next
  assume *: "items \<noteq> [] \<and> length vs = length items \<and> ed_index ` set items = {0..<length items} \<and>
    (\<forall>item \<in> set items. length (ed_embedding item) = dims \<and> vs ! ed_index item = ed_embedding item)"
  let ?vs = "foldl put_embedding (replicate (length items) []) items"
  have "card (set (map ed_index items)) = length (map ed_index items)" using * by simp
  then have dist: "distinct (map ed_index items)" by (rule card_distinct)
  have bound: "ed_index item < length items" if "item \<in> set items" for item
    using * that by (metis atLeastLessThan_iff imageI)
  have "?vs ! i = vs ! i" if i: "i < length items" for i
  proof -
    obtain item where "item \<in> set items" "i = ed_index item" using * i by (metis atLeastLessThan_iff imageE le0)
    then show ?thesis using put_embeddings_at [OF dist, of item] * bound by simp
  qed
  then have vs: "?vs = vs" using * by (intro nth_equalityI) simp_all
  have "[] \<notin> set vs"
  proof
    assume "[] \<in> set vs"
    then obtain i where "i < length items" "vs ! i = []" using * by (metis in_set_conv_nth)
    moreover then obtain item where "item \<in> set items" "i = ed_index item"
      using * by (metis atLeastLessThan_iff imageE le0)
    ultimately show False using * assms by (metis less_irrefl list.size(3))
  qed
  then show "read_embeddings dims items = Inr vs"
    using * bound vs by (auto simp: read_embeddings_def and_then_def order_embeddings_iff split: sum.splits)
      (metis order_embeddings_iff sum.distinct(1) length_replicate)
qed

text \<open>The number of embeddings is that of the response, whatever the number of texts.\<close>

lemma embedding_count_unchecked:
  "read_embeddings 1 [\<lparr>ed_embedding = [Fin 1], ed_index = 0\<rparr>] = Inr [[Fin 1]]"
  by (simp add: read_embeddings_def and_then_def validate_embedding_dimensions_def)

section \<open>Errors of the service and the policy of retries\<close>

text \<open>The errors of the client are texts, which \<open>is_retryable_provider_error\<close> reads again: a call is tried
  again after a timeout, and after the statuses of an overloaded or failing service.\<close>

definition client_error :: "openai_world \<Rightarrow> http_answer \<Rightarrow> memcore_error option" where
  "client_error w a =
     (case a of
        Transport_timeout \<Rightarrow> Some (ProviderError ''OpenAI request timed out'')
      | Transport_failed e \<Rightarrow> Some (ProviderError (''OpenAI HTTP request failed: '' @ e))
      | Http_response status text \<Rightarrow>
          if 200 \<le> status \<and> status < 300 then None else Some (map_http_error w status text))"

lemma post_json_error:
  "client_error w (ow_post w n (oc_base_url client @ path) (oc_api_key client) body) = Some e \<Longrightarrow>
   post_json w n client path body read = Inl e"
  by (auto simp: client_error_def post_json_def split: http_answer.splits if_splits)

lemma timeout_retried: "client_error w Transport_timeout = Some e \<Longrightarrow> is_retryable_provider_error e"
proof -
  have "is_retryable_provider_error (ProviderError ''OpenAI request timed out'')" by code_simp
  then show "client_error w Transport_timeout = Some e \<Longrightarrow> is_retryable_provider_error e"
    by (auto simp: client_error_def)
qed

definition overload_statuses :: "nat set" where
  "overload_statuses = {429, 500, 503}"

definition request_statuses :: "nat set" where
  "request_statuses = {400, 404, 422}"

lemma bare_status_retryable:
  "is_retryable_provider_message ''OpenAI API error with status 429''"
  "is_retryable_provider_message ''OpenAI API error with status 500''"
  "is_retryable_provider_message ''OpenAI API error with status 503''"
  "\<not> is_retryable_provider_message ''OpenAI API error with status 400''"
  "\<not> is_retryable_provider_message ''OpenAI API error with status 404''"
  "\<not> is_retryable_provider_message ''OpenAI API error with status 422''"
  by code_simp+

lemma show_status:
  "show_nat 429 = ''429''" "show_nat 500 = ''500''" "show_nat 503 = ''503''"
  "show_nat 400 = ''400''" "show_nat 404 = ''404''" "show_nat 422 = ''422''"
  by code_simp+

lemma bare_status_retried:
  assumes "status \<in> overload_statuses \<union> request_statuses" "ow_read_error w body = None"
    and "client_error w (Http_response status body) = Some e"
  shows "is_retryable_provider_error e \<longleftrightarrow> status \<in> overload_statuses"
proof -
  have "e = ProviderError (''OpenAI API error with status '' @ show_nat status)"
    using assms by (auto simp: client_error_def map_http_error_def overload_statuses_def request_statuses_def split: if_splits)
  then show ?thesis
    using assms(1) bare_status_retryable
    by (auto simp: overload_statuses_def request_statuses_def show_status)
qed

text \<open>A refusal of the key is never tried again, nor is an answer that is not the JSON expected.\<close>

lemma unauthorized_not_retried:
  "client_error w (Http_response 401 body) = Some e \<Longrightarrow> \<not> is_retryable_provider_error e"
proof -
  have "\<not> is_retryable_provider_error (ProviderError ''OpenAI API key is unauthorized'')" by code_simp
  then show "client_error w (Http_response 401 body) = Some e \<Longrightarrow> \<not> is_retryable_provider_error e"
    by (auto simp: client_error_def map_http_error_def)
qed

text \<open>A summary that is cut inside a character of several bytes panics: here a letter with an accent at the
  end of the fourth byte.\<close>

lemma summary_cut_panics: "truncate_summary (''abc'' @ [CHR 0xC3, CHR 0xA9]) (Some 1) = Inl Panic"
  by (simp add: truncate_summary_def usize_saturating_mul_def usize_max_def split_at_def is_continuation_def and_then_def)

lemma summary_truncated:
  assumes "truncate_summary summary (Some m) = Inr t"
  shows "length t \<le> usize_saturating_mul m 4 \<and> t = take (usize_saturating_mul m 4) summary"
  using assms
  by (auto simp: truncate_summary_def Let_def and_then_def split_at_def split: if_splits)

end
