(* ===== verification/Provider_Mocks.thy ===== *)
theory Provider_Mocks
  imports Openai
begin

text \<open>
  \<^verbatim>\<open>crates/memcore-providers/src/mocks.rs\<close>: the providers that run without a service, and the choice
  between them and the OpenAI providers by the configuration of the server. They are concrete values for the
  provider parameters of the engine and of the resilient providers.
\<close>

unbundle bit_operations_syntax

section \<open>Embeddings\<close>

definition check_fail :: "memcore_error option \<Rightarrow> unit memcore_result" where
  "check_fail e = (case e of Some err \<Rightarrow> Inl err | None \<Rightarrow> Inr ())"

definition embedding_slot :: "nat \<Rightarrow> char \<Rightarrow> nat \<Rightarrow> nat" where
  "embedding_slot index b dimensions =
     unat ((word_of_nat index * 17 :: u64) XOR (word_of_nat (of_char b) * 31)) mod dimensions"

definition byte_weight :: "char \<Rightarrow> f32" where
  "byte_weight b = f32_div (f32_of_nat (of_char b)) (Fin 255)"

fun fill_slots :: "nat \<Rightarrow> nat \<Rightarrow> string \<Rightarrow> f32 list \<Rightarrow> f32 list" where
  "fill_slots dimensions index [] v = v"
| "fill_slots dimensions index (b # bs) v =
     (let slot = embedding_slot index b dimensions
      in fill_slots dimensions (index + 1) bs (v[slot := f32_add (v ! slot) (byte_weight b)]))"

definition deterministic_embedding :: "string \<Rightarrow> nat \<Rightarrow> f32 list memcore_result" where
  "deterministic_embedding text dimensions =
     (if trim text = [] then Inl (ValidationError ''embedding text cannot be empty'')
      else if dimensions = 0 then Inl (ValidationError ''embedding dimensions must be greater than 0'')
      else
        let embedding = fill_slots dimensions 0 text (replicate dimensions (Fin 0));
            norm = f32_sqrt (f32_sum (map (\<lambda>v. f32_mul v v) embedding))
        in Inr (if f32_lt (Fin 0) norm then map (\<lambda>v. f32_div v norm) embedding else embedding))"

record mock_embedding_provider =
  me_dimensions :: nat
  me_fail_with :: "memcore_error option"

definition mock_embedding_provider_new :: "nat \<Rightarrow> mock_embedding_provider" where
  "mock_embedding_provider_new dimensions = \<lparr>me_dimensions = dimensions, me_fail_with = None\<rparr>"

definition mock_embed_text :: "mock_embedding_provider \<Rightarrow> string \<Rightarrow> f32 list memcore_result" where
  "mock_embed_text p text = and_then (check_fail (me_fail_with p)) (\<lambda>_. deterministic_embedding text (me_dimensions p))"

fun embed_all :: "nat \<Rightarrow> string list \<Rightarrow> f32 list list memcore_result" where
  "embed_all dimensions [] = Inr []"
| "embed_all dimensions (t # ts) =
     and_then (deterministic_embedding t dimensions) (\<lambda>v. and_then (embed_all dimensions ts) (\<lambda>vs. Inr (v # vs)))"

definition mock_embed_batch :: "mock_embedding_provider \<Rightarrow> string list \<Rightarrow> f32 list list memcore_result" where
  "mock_embed_batch p texts = and_then (check_fail (me_fail_with p)) (\<lambda>_. embed_all (me_dimensions p) texts)"

section \<open>Language models\<close>

record mock_llm_provider =
  ml_extraction_candidates :: "candidate_fact list option"
  ml_classification_decision :: "fact_operation_decision option"
  ml_classification_decisions :: "fact_operation_decision list"
  ml_classification_fail_with :: "memcore_error option"
  ml_summary_prefix :: string
  ml_fail_with :: "memcore_error option"
  ml_last_extraction_messages :: "memory_message list"

definition mock_llm_provider_new :: mock_llm_provider where
  "mock_llm_provider_new =
     \<lparr>ml_extraction_candidates = None, ml_classification_decision = None, ml_classification_decisions = [],
      ml_classification_fail_with = None, ml_summary_prefix = [], ml_fail_with = None,
      ml_last_extraction_messages = []\<rparr>"

fun default_candidates :: "memory_message list \<Rightarrow> candidate_fact list memcore_result" where
  "default_candidates [] = Inr []"
| "default_candidates (m # ms) =
     (if msg_role m \<noteq> RoleUser \<or> trim (msg_content m) = [] then default_candidates ms
      else
        and_then (candidate_new (trim (msg_content m)) Conversation (f32_of_rat (85 / 100)) (f32_of_rat (7 / 10)) None
          (JObject [(''source'', JString ''mock_llm'')])) (\<lambda>c.
        and_then (default_candidates ms) (\<lambda>cs. Inr (c # cs))))"

definition default_classification :: fact_operation_decision where
  "default_classification =
     \<lparr>d_operation = OpAdd, d_target_fact_id = None, d_reason = Some ''mock default add operation'',
      d_confidence = f32_of_rat (9 / 10)\<rparr>"

definition mock_extract_facts ::
  "memory_message list \<Rightarrow> (mock_llm_provider, memcore_error, candidate_fact list) comp" where
  "mock_extract_facts messages p =
     (case ml_fail_with p of
        Some e \<Rightarrow> (Inl e, p)
      | None \<Rightarrow>
          let p' = p\<lparr>ml_last_extraction_messages := messages\<rparr> in
          (case ml_extraction_candidates p of
             Some cs \<Rightarrow> (Inr cs, p')
           | None \<Rightarrow> (default_candidates messages, p')))"

definition mock_classify_fact_operation :: "(mock_llm_provider, memcore_error, fact_operation_decision) comp" where
  "mock_classify_fact_operation p =
     (case ml_fail_with p of
        Some e \<Rightarrow> (Inl e, p)
      | None \<Rightarrow>
          (case ml_classification_fail_with p of
             Some e \<Rightarrow> (Inl e, p)
           | None \<Rightarrow>
               (case ml_classification_decisions p of
                  d # ds \<Rightarrow> (Inr d, p\<lparr>ml_classification_decisions := ds\<rparr>)
                | [] \<Rightarrow>
                    (case ml_classification_decision p of
                       Some d \<Rightarrow> (Inr d, p)
                     | None \<Rightarrow> (Inr default_classification, p)))))"

definition mock_summarize_memory :: "mock_llm_provider \<Rightarrow> fact list \<Rightarrow> nat option \<Rightarrow> string outcome" where
  "mock_summarize_memory p facts max_tokens =
     and_then (lift_err (check_fail (ml_fail_with p))) (\<lambda>_.
     if facts = [] then Inr (ml_summary_prefix p @ ''no facts to summarize'')
     else and_then (truncate_summary (join ''; '' (map f_content facts)) max_tokens) (\<lambda>t. Inr (ml_summary_prefix p @ t)))"

section \<open>Providers by configuration\<close>

text \<open>The methods of the trait objects that the server builds (\<open>build_llm_provider_by_name\<close>,
  \<open>build_embedding_provider_by_name\<close>). The server never reconfigures a mock provider, so its answers depend
  on nothing but the input.\<close>

definition backend_extract_facts ::
  "openai_world \<Rightarrow> nat \<Rightarrow> llm_backend \<Rightarrow> tenant_context \<Rightarrow> memory_message list \<Rightarrow> json \<Rightarrow> candidate_fact list memcore_result" where
  "backend_extract_facts w n p t messages metadata =
     (case p of
        MockLlmProvider \<Rightarrow> fst (mock_extract_facts messages mock_llm_provider_new)
      | OpenAiLlmProvider client model \<Rightarrow>
          openai_extract_facts w client (transport_for_base_url client) model n t messages metadata)"

definition backend_classify_fact_operation ::
  "openai_world \<Rightarrow> nat \<Rightarrow> llm_backend \<Rightarrow> tenant_context \<Rightarrow> candidate_fact \<Rightarrow> fact list \<Rightarrow> fact_operation_decision memcore_result" where
  "backend_classify_fact_operation w n p t c existing =
     (case p of
        MockLlmProvider \<Rightarrow> fst (mock_classify_fact_operation mock_llm_provider_new)
      | OpenAiLlmProvider client model \<Rightarrow>
          openai_classify_fact_operation w client (transport_for_base_url client) model n t c existing)"

definition backend_summarize_memory ::
  "openai_world \<Rightarrow> nat \<Rightarrow> llm_backend \<Rightarrow> tenant_context \<Rightarrow> fact list \<Rightarrow> nat option \<Rightarrow> string outcome" where
  "backend_summarize_memory w n p t facts max_tokens =
     (case p of
        MockLlmProvider \<Rightarrow> mock_summarize_memory mock_llm_provider_new facts max_tokens
      | OpenAiLlmProvider client model \<Rightarrow>
          openai_summarize_memory w client (transport_for_base_url client) model n t facts max_tokens)"

definition backend_embed_text :: "openai_world \<Rightarrow> nat \<Rightarrow> embedding_backend \<Rightarrow> string \<Rightarrow> f32 list memcore_result" where
  "backend_embed_text w n p text =
     (case p of
        MockEmbeddingProvider d \<Rightarrow> mock_embed_text (mock_embedding_provider_new d) text
      | OpenAiEmbeddingProvider client model d \<Rightarrow> openai_embed_text w client model d n text)"

section \<open>What the providers promise\<close>

lemma length_fill_slots [simp]: "length (fill_slots d i bs v) = length v"
  by (induction bs arbitrary: i v) (simp_all add: Let_def)

lemma embedding_slot_bound: "0 < d \<Longrightarrow> embedding_slot i b d < d"
  by (simp add: embedding_slot_def)

lemma length_deterministic_embedding: "deterministic_embedding text d = Inr v \<Longrightarrow> length v = d"
  by (auto simp: deterministic_embedding_def Let_def split: if_splits)

lemma deterministic_embedding_total: "\<not> is_blank text \<Longrightarrow> 0 < d \<Longrightarrow> \<exists>v. deterministic_embedding text d = Inr v"
  by (simp add: deterministic_embedding_def is_blank_def Let_def)

text \<open>Every provider of embeddings answers with vectors of the dimension it declares, by which the providers
  of a fallback order are compared.\<close>

lemma backend_embedding_dimensions:
  assumes "backend_embed_text w n p answer = Inr v" "0 < backend_dimensions p"
  shows "length v = backend_dimensions p"
proof (cases p)
  case (MockEmbeddingProvider d)
  then show ?thesis
    using assms by (simp add: backend_embed_text_def mock_embed_text_def mock_embedding_provider_new_def check_fail_def
        and_then_def length_deterministic_embedding)
next
  case (OpenAiEmbeddingProvider client model d)
  then obtain batch where batch: "openai_embed_batch w client model d n [answer] = Inr batch" "batch \<noteq> []" "v = last batch"
    using assms(1) by (auto simp: backend_embed_text_def openai_embed_text_def and_then_def split: sum.splits if_splits)
  then obtain items where "read_embeddings d items = Inr batch"
    by (auto simp: openai_embed_batch_def and_then_def split: sum.splits if_splits)
  then have "length batch = length items" "ed_index ` set items = {0..<length items}"
    and "\<forall>item \<in> set items. length (ed_embedding item) = d \<and> batch ! ed_index item = ed_embedding item"
    using embeddings_in_order assms(2) OpenAiEmbeddingProvider by simp_all
  moreover have "v = batch ! (length batch - 1)" "length batch - 1 < length batch" using batch(2,3) by (simp_all add: last_conv_nth)
  ultimately have "length v = d" by (metis atLeastLessThan_iff imageE le0)
  then show ?thesis using OpenAiEmbeddingProvider by simp
qed

text \<open>The mock provider extracts what users said, as candidates that the engine accepts.\<close>

lemma mock_scores: "in_unit_interval (f32_of_rat (17 / 20))" "in_unit_interval (f32_of_rat (7 / 10))"
  by code_simp+

lemma default_candidates_ok:
  "\<exists>cs. default_candidates messages = Inr cs \<and>
     map c_content cs = [trim (msg_content m). m \<leftarrow> messages, msg_role m = RoleUser \<and> \<not> is_blank (msg_content m)] \<and>
     (\<forall>c \<in> set cs. in_unit_interval (c_confidence c) \<and> in_unit_interval (c_importance c))"
  by (induction messages)
     (auto simp: candidate_new_def validate_non_empty_def validate_unit_interval_def mock_scores is_blank_def trim_idem and_then_def)

end
