(* ===== verification/Migrations.thy ===== *)
theory Migrations
  imports Context
begin

text \<open>
  \<^verbatim>\<open>crates/memcore-storage/src/migrations\<close>: the migrations of a database, their validation against the
  table \<open>schema_migrations\<close>, and the runner (the SQLite one; the other differs in the SQL it sends). The
  database is that table, the table of an older tool, and everything else as a value of any type that
  \<open>mw_exec\<close> changes by a statement; any call of the database may fail (\<open>mw_fault\<close>, by the number
  of the call). SHA-256 is a parameter.
\<close>

section \<open>Migrations (\<open>types.rs\<close>)\<close>

record migration =
  mi_version :: int
  mi_name :: string
  mi_sql :: string
  mi_checksum :: string

fun replace_crlf :: "string \<Rightarrow> string" where
  "replace_crlf [] = []"
| "replace_crlf [c] = [c]"
| "replace_crlf (c # d # s) =
     (if c = CHR 0x0D \<and> d = CHR 0x0A then CHR 0x0A # replace_crlf s else c # replace_crlf (d # s))"

definition migration_checksum :: "(string \<Rightarrow> string) \<Rightarrow> string \<Rightarrow> string" where
  "migration_checksum sha256_hex sql = sha256_hex (replace_crlf sql)"

definition migration_new :: "(string \<Rightarrow> string) \<Rightarrow> int \<Rightarrow> string \<Rightarrow> string \<Rightarrow> migration" where
  "migration_new sha256_hex version name sql =
     \<lparr>mi_version = version, mi_name = name, mi_sql = sql, mi_checksum = migration_checksum sha256_hex sql\<rparr>"

record applied_migration =
  am_version :: int
  am_name :: string
  am_checksum :: string
  am_applied_at :: int

datatype migration_status = Applied | Pending | ChecksumMismatch | MissingFromCode

fun migration_status_str :: "migration_status \<Rightarrow> string" where
  "migration_status_str Applied = ''applied''"
| "migration_status_str Pending = ''pending''"
| "migration_status_str ChecksumMismatch = ''checksum_mismatch''"
| "migration_status_str MissingFromCode = ''missing_from_code''"

record migration_issue =
  is_version :: int
  is_name :: string
  is_status :: migration_status
  is_message :: string

record migration_validation_report =
  mr_clean :: bool
  mr_applied_count :: nat
  mr_pending_count :: nat
  mr_issues :: "migration_issue list"

definition has_blocking_issues :: "migration_validation_report \<Rightarrow> bool" where
  "has_blocking_issues r \<longleftrightarrow> (\<exists>i \<in> set (mr_issues r). is_status i \<in> {ChecksumMismatch, MissingFromCode})"

text \<open>The first version that is met a second time.\<close>

fun repeated_version :: "int set \<Rightarrow> migration list \<Rightarrow> int option" where
  "repeated_version seen [] = None"
| "repeated_version seen (m # ms) =
     (if mi_version m \<in> seen then Some (mi_version m) else repeated_version (insert (mi_version m) seen) ms)"

definition show_int :: "int \<Rightarrow> string" where
  "show_int i = (if i < 0 then CHR ''-'' # show_nat (nat (- i)) else show_nat (nat i))"

definition sorted_migrations :: "migration list \<Rightarrow> migration list memcore_result" where
  "sorted_migrations ms =
     (let sorted = sort_key mi_version ms in
      case repeated_version {} sorted of
        Some v \<Rightarrow> Inl (MigrationError (''duplicate migration version: '' @ show_int v))
      | None \<Rightarrow> Inr sorted)"

text \<open>\<open>collect\<close> into a \<open>HashMap\<close>: a later entry replaces an earlier one.\<close>

definition applied_by_version :: "applied_migration list \<Rightarrow> int \<rightharpoonup> applied_migration" where
  "applied_by_version applied = map_of (rev (map (\<lambda>a. (am_version a, a)) applied))"

definition coded_issue :: "applied_migration list \<Rightarrow> migration \<Rightarrow> migration_issue list" where
  "coded_issue applied m =
     (case applied_by_version applied (mi_version m) of
        Some a \<Rightarrow>
          if am_checksum a \<noteq> mi_checksum m
          then [\<lparr>is_version = mi_version m, is_name = mi_name m, is_status = ChecksumMismatch,
                 is_message = ''migration checksum mismatch''\<rparr>]
          else []
      | None \<Rightarrow>
          [\<lparr>is_version = mi_version m, is_name = mi_name m, is_status = Pending,
            is_message = ''migration is pending''\<rparr>])"

definition applied_issue :: "migration list \<Rightarrow> applied_migration \<Rightarrow> migration_issue list" where
  "applied_issue ms a =
     (if am_version a \<in> mi_version ` set ms then []
      else [\<lparr>is_version = am_version a, is_name = am_name a, is_status = MissingFromCode,
             is_message = ''applied migration is missing from code''\<rparr>])"

definition validate_applied_migrations ::
  "migration list \<Rightarrow> applied_migration list \<Rightarrow> migration_validation_report memcore_result" where
  "validate_applied_migrations migrations applied =
     and_then (sorted_migrations migrations) (\<lambda>ms.
     let issues = concat (map (coded_issue applied) ms) @ concat (map (applied_issue ms) applied) in
     Inr \<lparr>mr_clean = (issues = []), mr_applied_count = length applied,
          mr_pending_count = length (filter (\<lambda>m. applied_by_version applied (mi_version m) = None) ms),
          mr_issues = issues\<rparr>)"

definition split_sql_statements :: "string \<Rightarrow> string list" where
  "split_sql_statements sql = filter (\<lambda>s. s \<noteq> []) (map trim (split_on (CHR '';'') sql))"

section \<open>The runner (\<open>sqlite.rs\<close>)\<close>

record 'db migration_world =
  mw_exec :: "string \<Rightarrow> 'db \<Rightarrow> string + 'db"
  mw_fault :: "nat \<Rightarrow> string option"
  mw_now :: "nat \<Rightarrow> int"
  mw_conflict :: string

text \<open>\<open>md_schema\<close> is the table \<open>schema_migrations\<close>, \<open>md_legacy\<close> the versions that succeeded in
  \<open>_sqlx_migrations\<close>, each when the table exists.\<close>

record 'db migration_db =
  md_user :: 'db
  md_schema :: "applied_migration list option"
  md_legacy :: "int list option"
  md_calls :: nat

type_synonym ('db, 'a) migrating = "('db migration_db, memcore_error, 'a) comp"

definition migration_error :: "string \<Rightarrow> string \<Rightarrow> memcore_error" where
  "migration_error context e = MigrationError (context @ '': '' @ e)"

definition db_call :: "'db migration_world \<Rightarrow> string \<Rightarrow> ('db, 'a) migrating \<Rightarrow> ('db, 'a) migrating" where
  "db_call w context m s =
     (let s1 = s\<lparr>md_calls := md_calls s + 1\<rparr> in
      case mw_fault w (md_calls s) of
        Some e \<Rightarrow> (Inl (migration_error context e), s1)
      | None \<Rightarrow> m s1)"

definition schema_rows :: "'db migration_db \<Rightarrow> applied_migration list" where
  "schema_rows s = (case md_schema s of None \<Rightarrow> [] | Some rows \<Rightarrow> rows)"

lemma schema_rows_simps [simp]:
  "schema_rows (s\<lparr>md_calls := n\<rparr>) = schema_rows s" "schema_rows (s\<lparr>md_user := u\<rparr>) = schema_rows s"
  "schema_rows (s\<lparr>md_schema := Some rows\<rparr>) = rows"
  by (simp_all add: schema_rows_def)

definition ensure_migration_table :: "'db migration_world \<Rightarrow> ('db, unit) migrating" where
  "ensure_migration_table w =
     db_call w ''create sqlite schema_migrations table'' (modifyC (\<lambda>s. s\<lparr>md_schema := Some (schema_rows s)\<rparr>))"

definition applied_migrations :: "'db migration_world \<Rightarrow> ('db, applied_migration list) migrating" where
  "applied_migrations w =
     seqC (ensure_migration_table w)
     (db_call w ''read sqlite schema migrations'' (getsC (\<lambda>s. sort_key am_version (schema_rows s))))"

definition schema_migration_count :: "'db migration_world \<Rightarrow> ('db, nat) migrating" where
  "schema_migration_count w = db_call w ''count sqlite schema migrations'' (getsC (\<lambda>s. length (schema_rows s)))"

definition legacy_table_exists :: "'db migration_world \<Rightarrow> ('db, bool) migrating" where
  "legacy_table_exists w = db_call w ''check sqlite table existence'' (getsC (\<lambda>s. md_legacy s \<noteq> None))"

definition row_of_migration :: "migration \<Rightarrow> int \<Rightarrow> applied_migration" where
  "row_of_migration m now =
     \<lparr>am_version = mi_version m, am_name = mi_name m, am_checksum = mi_checksum m, am_applied_at = now\<rparr>"

text \<open>\<open>INSERT OR IGNORE\<close> under the primary key \<open>version\<close>.\<close>

definition seed_migration :: "'db migration_world \<Rightarrow> migration \<Rightarrow> unit \<Rightarrow> ('db, unit) migrating" where
  "seed_migration w m _ =
     db_call w ''seed sqlite schema migrations'' (modifyC (\<lambda>s.
       if mi_version m \<in> am_version ` set (schema_rows s) then s
       else s\<lparr>md_schema := Some (schema_rows s @ [row_of_migration m (mw_now w (md_calls s))])\<rparr>))"

definition seed_from_sqlx_migrations :: "'db migration_world \<Rightarrow> migration list \<Rightarrow> ('db, unit) migrating" where
  "seed_from_sqlx_migrations w migrations =
     bindC (schema_migration_count w) (\<lambda>count.
     if 0 < count then ret ()
     else bindC (legacy_table_exists w) (\<lambda>exists.
       if \<not> exists then ret ()
       else bindC (db_call w ''read sqlite legacy sqlx migrations'' (getsC (\<lambda>s. the (md_legacy s)))) (\<lambda>versions.
         if versions = [] then ret ()
         else bindC (liftR (sorted_migrations migrations)) (\<lambda>ms.
           for_eachC (seed_migration w) (filter (\<lambda>m. mi_version m \<in> set versions) ms) ()))))"

definition validate_migrations :: "'db migration_world \<Rightarrow> migration list \<Rightarrow> ('db, migration_validation_report) migrating" where
  "validate_migrations w migrations =
     seqC (ensure_migration_table w)
     (seqC (seed_from_sqlx_migrations w migrations)
     (bindC (applied_migrations w) (\<lambda>applied.
      liftR (validate_applied_migrations migrations applied))))"

text \<open>A transaction that is not committed leaves the database as it was.\<close>

definition in_transaction :: "'db migration_world \<Rightarrow> ('db, unit) migrating \<Rightarrow> ('db, unit) migrating" where
  "in_transaction w m s =
     (case seqC (db_call w ''begin sqlite migration transaction'' (ret ()))
             (seqC m (db_call w ''commit sqlite migration transaction'' (ret ()))) s of
        (Inr a, t) \<Rightarrow> (Inr a, t)
      | (Inl e, t) \<Rightarrow> (Inl e, s\<lparr>md_calls := md_calls t\<rparr>))"

definition apply_statement :: "'db migration_world \<Rightarrow> string \<Rightarrow> unit \<Rightarrow> ('db, unit) migrating" where
  "apply_statement w statement _ =
     db_call w ''apply sqlite migration statement'' (\<lambda>s.
       case mw_exec w statement (md_user s) of
         Inl e \<Rightarrow> (Inl (migration_error ''apply sqlite migration statement'' e), s)
       | Inr db \<Rightarrow> (Inr (), s\<lparr>md_user := db\<rparr>))"

definition record_migration :: "'db migration_world \<Rightarrow> migration \<Rightarrow> ('db, unit) migrating" where
  "record_migration w m =
     db_call w ''record sqlite migration'' (\<lambda>s.
       if mi_version m \<in> am_version ` set (schema_rows s)
       then (Inl (migration_error ''record sqlite migration'' (mw_conflict w)), s)
       else (Inr (), s\<lparr>md_schema := Some (schema_rows s @ [row_of_migration m (mw_now w (md_calls s))])\<rparr>))"

definition apply_migration :: "'db migration_world \<Rightarrow> migration \<Rightarrow> unit \<Rightarrow> ('db, unit) migrating" where
  "apply_migration w m _ =
     in_transaction w
       (seqC (for_eachC (apply_statement w) (split_sql_statements (mi_sql m)) ()) (record_migration w m))"

definition apply_pending_migrations ::
  "'db migration_world \<Rightarrow> migration list \<Rightarrow> ('db, migration_validation_report) migrating" where
  "apply_pending_migrations w migrations =
     seqC (ensure_migration_table w)
     (seqC (seed_from_sqlx_migrations w migrations)
     (bindC (validate_migrations w migrations) (\<lambda>report.
      if has_blocking_issues report
      then throw (MigrationError ''migration validation failed before applying pending migrations'')
      else
        bindC (applied_migrations w) (\<lambda>applied.
        bindC (liftR (sorted_migrations migrations)) (\<lambda>ms.
        seqC (for_eachC (apply_migration w) (filter (\<lambda>m. mi_version m \<notin> am_version ` set applied) ms) ())
        (validate_migrations w migrations))))))"

section \<open>What a run leaves behind\<close>

text \<open>Everything but the number of calls.\<close>

definition same_db :: "'db migration_db \<Rightarrow> 'db migration_db \<Rightarrow> bool" where
  "same_db s t \<longleftrightarrow> md_user t = md_user s \<and> schema_rows t = schema_rows s \<and> md_legacy t = md_legacy s"

lemma same_db_refl [simp, intro]: "same_db s s"
  by (simp add: same_db_def)

lemma same_db_trans: "same_db s t \<Longrightarrow> same_db t u \<Longrightarrow> same_db s u"
  by (simp add: same_db_def)

lemma same_db_calls [simp]: "same_db s (s\<lparr>md_calls := n\<rparr>)"
  by (simp add: same_db_def schema_rows_def)

definition quiet :: "('db, 'a) migrating \<Rightarrow> bool" where
  "quiet m \<longleftrightarrow> (\<forall>s r t. m s = (r, t) \<longrightarrow> same_db s t)"

lemma quiet_ret [intro]: "quiet (ret a)"
  and quiet_throw [intro]: "quiet (throw e)"
  and quiet_gets [intro]: "quiet (getsC f)"
  and quiet_liftR [intro]: "quiet (liftR x)"
  by (auto simp: quiet_def)

lemma quiet_bind [intro]: "quiet m \<Longrightarrow> (\<And>a. quiet (f a)) \<Longrightarrow> quiet (bindC m f)"
  unfolding quiet_def bindC_def by (fastforce intro: same_db_trans split: prod.splits sum.splits)

lemma quiet_seq [intro]: "quiet m \<Longrightarrow> quiet n \<Longrightarrow> quiet (seqC m n)"
  unfolding seqC_def by blast

lemma quiet_call [intro]:
  assumes "quiet m"
  shows "quiet (db_call w context m)"
  unfolding quiet_def
proof (intro allI impI)
  fix s r t
  assume "db_call w context m s = (r, t)"
  then show "same_db s t"
    using assms same_db_trans [OF same_db_calls [of s "md_calls s + 1"]]
    by (auto simp: db_call_def Let_def quiet_def split: option.splits)
qed

lemma quiet_ensure [intro]: "quiet (ensure_migration_table w)"
  unfolding ensure_migration_table_def
  by (rule quiet_call) (simp add: quiet_def same_db_def schema_rows_def)

lemma quiet_applied [intro]: "quiet (applied_migrations w)"
  unfolding applied_migrations_def by auto

lemma applied_migrations_rows:
  assumes "applied_migrations w s = (Inr rows, t)"
  shows "rows = sort_key am_version (schema_rows s) \<and> same_db s t"
proof -
  have "quiet (applied_migrations w)" by auto
  then have "same_db s t" using assms by (auto simp: quiet_def)
  moreover obtain u where u: "ensure_migration_table w s = (Inr (), u)"
    "db_call w ''read sqlite schema migrations'' (getsC (\<lambda>s. sort_key am_version (schema_rows s))) u = (Inr rows, t)"
    using assms by (auto simp: applied_migrations_def seqC_eq_Inr)
  have "quiet (ensure_migration_table w)" by auto
  then have "schema_rows u = schema_rows s" using u(1) by (auto simp: quiet_def same_db_def)
  moreover have "rows = sort_key am_version (schema_rows u)"
    using u(2) by (auto simp: db_call_def Let_def schema_rows_def split: option.splits)
  ultimately show ?thesis by simp
qed

fun run_statements :: "'db migration_world \<Rightarrow> string list \<Rightarrow> 'db \<Rightarrow> string + 'db" where
  "run_statements w [] db = Inr db"
| "run_statements w (x # xs) db = and_then (mw_exec w x db) (run_statements w xs)"

lemma run_statements_append:
  "run_statements w (xs @ ys) db = and_then (run_statements w xs db) (run_statements w ys)"
  by (induction xs arbitrary: db) (auto simp: and_then_def split: sum.split)

definition statements :: "migration list \<Rightarrow> string list" where
  "statements ms = concat (map (\<lambda>m. split_sql_statements (mi_sql m)) ms)"

text \<open>From \<open>s\<close> to \<open>t\<close> the migrations \<open>ds\<close> have run, each as a whole and in order, and nothing else has
  changed the database; the table has grown by rows of known migrations, those of \<open>ds\<close> among them; and no
  version is in the table twice or was run although it was in the table.\<close>

definition progress :: "'db migration_world \<Rightarrow> migration list \<Rightarrow> migration list \<Rightarrow> 'db migration_db \<Rightarrow> 'db migration_db \<Rightarrow> bool" where
  "progress w ms ds s t \<longleftrightarrow>
     run_statements w (statements ds) (md_user s) = Inr (md_user t) \<and> set ds \<subseteq> set ms \<and>
     (\<exists>new. schema_rows t = schema_rows s @ new \<and>
        (\<forall>r \<in> set new. \<exists>m \<in> set ms. \<exists>now. r = row_of_migration m now) \<and>
        mi_version ` set ds \<subseteq> am_version ` set new \<and>
        mi_version ` set ds \<inter> am_version ` set (schema_rows s) = {} \<and>
        (distinct (map am_version (schema_rows s)) \<longrightarrow> distinct (map am_version (schema_rows t))))"

lemma progress_same: "same_db s t \<Longrightarrow> progress w ms [] s t"
  by (simp add: progress_def same_db_def statements_def)

lemma progress_trans:
  assumes "progress w ms d1 s t" "progress w ms d2 t u"
  shows "progress w ms (d1 @ d2) s u"
proof -
  have runs: "run_statements w (statements (d1 @ d2)) (md_user s) = Inr (md_user u)"
    using assms by (simp add: progress_def statements_def run_statements_append and_then_def)
  obtain new1 where new1: "schema_rows t = schema_rows s @ new1"
    "\<forall>r \<in> set new1. \<exists>m \<in> set ms. \<exists>now. r = row_of_migration m now" "mi_version ` set d1 \<subseteq> am_version ` set new1"
    "mi_version ` set d1 \<inter> am_version ` set (schema_rows s) = {}"
    "distinct (map am_version (schema_rows s)) \<longrightarrow> distinct (map am_version (schema_rows t))"
    using assms(1) unfolding progress_def by blast
  obtain new2 where new2: "schema_rows u = schema_rows t @ new2"
    "\<forall>r \<in> set new2. \<exists>m \<in> set ms. \<exists>now. r = row_of_migration m now" "mi_version ` set d2 \<subseteq> am_version ` set new2"
    "mi_version ` set d2 \<inter> am_version ` set (schema_rows t) = {}"
    "distinct (map am_version (schema_rows t)) \<longrightarrow> distinct (map am_version (schema_rows u))"
    using assms(2) unfolding progress_def by blast
  have sub: "set (d1 @ d2) \<subseteq> set ms" using assms by (simp add: progress_def)
  have rows: "schema_rows u = schema_rows s @ (new1 @ new2)" using new1(1) new2(1) by simp
  have dist: "distinct (map am_version (schema_rows s)) \<longrightarrow> distinct (map am_version (schema_rows u))"
    using new1(5) new2(5) by blast
  have known: "\<forall>r \<in> set (new1 @ new2). \<exists>m \<in> set ms. \<exists>now. r = row_of_migration m now" using new1(2) new2(2) by auto
  have recorded: "mi_version ` set (d1 @ d2) \<subseteq> am_version ` set (new1 @ new2)" using new1(3) new2(3) by auto
  have "mi_version ` set (d1 @ d2) \<inter> am_version ` set (schema_rows s) = {}"
    using new1(4) new2(4) unfolding new1(1) by auto
  then show ?thesis using runs sub rows known recorded dist unfolding progress_def by blast
qed

definition progressive :: "'db migration_world \<Rightarrow> migration list \<Rightarrow> ('db, 'a) migrating \<Rightarrow> bool" where
  "progressive w ms m \<longleftrightarrow> (\<forall>s r t. m s = (r, t) \<longrightarrow> (\<exists>ds. progress w ms ds s t))"

lemma progressiveD: "progressive w ms m \<Longrightarrow> m s = (r, t) \<Longrightarrow> \<exists>ds. progress w ms ds s t"
  by (simp add: progressive_def)

lemma progressive_quiet: "quiet m \<Longrightarrow> progressive w ms m"
  unfolding progressive_def quiet_def using progress_same by blast

lemma progressive_bind:
  assumes "progressive w ms m" "\<And>a. progressive w ms (f a)"
  shows "progressive w ms (bindC m f)"
  unfolding progressive_def
proof (intro allI impI)
  fix s r t
  assume run: "bindC m f s = (r, t)"
  obtain r1 u where m: "m s = (r1, u)" by (cases "m s")
  then obtain d1 where d1: "progress w ms d1 s u" using assms(1) progressiveD by blast
  show "\<exists>ds. progress w ms ds s t"
  proof (cases r1)
    case (Inl e)
    then show ?thesis using run m d1 by (auto simp: bindC_def)
  next
    case (Inr a)
    then have "f a u = (r, t)" using run m by (simp add: bindC_def)
    then show ?thesis using assms(2) progressiveD d1 progress_trans by blast
  qed
qed

lemma progressive_seq: "progressive w ms m \<Longrightarrow> progressive w ms n \<Longrightarrow> progressive w ms (seqC m n)"
  unfolding seqC_def by (rule progressive_bind)

lemma progressive_each:
  "(\<And>x. x \<in> set xs \<Longrightarrow> progressive w ms (body x ())) \<Longrightarrow> progressive w ms (for_eachC body xs ())"
proof (induction xs)
  case Nil
  show ?case by (simp only: for_eachC.simps) (rule progressive_quiet [OF quiet_ret])
next
  case (Cons x xs)
  have "progressive w ms (for_eachC body xs a)" for a :: unit using Cons.IH Cons.prems by (cases a) simp
  then show ?case using Cons.prems by (simp add: progressive_bind)
qed

lemma progressive_call:
  assumes "progressive w ms m"
  shows "progressive w ms (db_call w context m)"
  unfolding progressive_def
proof (intro allI impI)
  fix s r t
  assume run: "db_call w context m s = (r, t)"
  let ?s = "s\<lparr>md_calls := md_calls s + 1\<rparr>"
  show "\<exists>ds. progress w ms ds s t"
  proof (cases "mw_fault w (md_calls s)")
    case None
    then have "m ?s = (r, t)" using run by (simp add: db_call_def Let_def)
    then obtain ds where "progress w ms ds ?s t" using assms progressiveD by blast
    then show ?thesis using progress_trans [OF progress_same [OF same_db_calls]] by blast
  next
    case Some
    then have "progress w ms [] s t" using run by (auto simp: db_call_def Let_def intro: progress_same)
    then show ?thesis ..
  qed
qed

lemma progressive_seed: "m \<in> set ms \<Longrightarrow> progressive w ms (seed_migration w m ())"
  unfolding seed_migration_def
  by (rule progressive_call)
     (auto simp: progressive_def progress_def statements_def schema_rows_def row_of_migration_def
       intro!: exI [of _ "[]"] split: if_splits)

lemma sorted_migrations_set: "sorted_migrations ms = Inr xs \<Longrightarrow> set xs = set ms"
  by (auto simp: sorted_migrations_def Let_def split: option.splits)

lemma progressive_if: "progressive w ms m \<Longrightarrow> progressive w ms n \<Longrightarrow> progressive w ms (if b then m else n)"
  by simp

lemma progressive_seed_versions:
  "progressive w ms (bindC (liftR (sorted_migrations ms)) (\<lambda>xs.
     for_eachC (seed_migration w) (filter (\<lambda>m. mi_version m \<in> set versions) xs) ()))"
proof (cases "sorted_migrations ms")
  case (Inr xs)
  have "progressive w ms (for_eachC (seed_migration w) (filter (\<lambda>m. mi_version m \<in> set versions) xs) ())"
    using sorted_migrations_set [OF Inr] by (intro progressive_each progressive_seed) auto
  then show ?thesis by (simp add: Inr progressive_def bindC_def)
next
  case (Inl e)
  then show ?thesis using progress_same by (fastforce simp: progressive_def bindC_def)
qed

lemma progressive_seed_all: "progressive w ms (seed_from_sqlx_migrations w ms)"
  unfolding seed_from_sqlx_migrations_def schema_migration_count_def legacy_table_exists_def
  by (intro progressive_bind progressive_if progressive_seed_versions progressive_quiet [OF quiet_call]
      progressive_quiet [OF quiet_ret] quiet_gets)

text \<open>A migration runs as a whole or not at all.\<close>

lemma call_ok: "db_call w context m s = (Inr a, t) \<Longrightarrow> m (s\<lparr>md_calls := md_calls s + 1\<rparr>) = (Inr a, t)"
  by (simp add: db_call_def Let_def split: option.splits)

lemma apply_statements_ok:
  "for_eachC (apply_statement w) xs () s = (Inr (), t) \<Longrightarrow>
   run_statements w xs (md_user s) = Inr (md_user t) \<and> schema_rows t = schema_rows s \<and> md_legacy t = md_legacy s"
proof (induction xs arbitrary: s)
  case (Cons x xs)
  then obtain u where u: "apply_statement w x () s = (Inr (), u)" "for_eachC (apply_statement w) xs () u = (Inr (), t)"
    by (auto simp: bindC_eq_Inr)
  then have "mw_exec w x (md_user s) = Inr (md_user u) \<and> schema_rows u = schema_rows s \<and> md_legacy u = md_legacy s"
    by (auto simp: apply_statement_def schema_rows_def dest!: call_ok split: sum.splits)
  then show ?case using Cons.IH [OF u(2)] by (simp add: and_then_def)
qed simp

lemma record_migration_ok:
  assumes "record_migration w m s = (Inr (), t)"
  shows "md_user t = md_user s" "schema_rows t = schema_rows s @ [row_of_migration m (mw_now w (md_calls s + 1))]"
    "mi_version m \<notin> am_version ` set (schema_rows s)"
  using assms by (auto simp: record_migration_def dest!: call_ok split: if_splits)

lemma apply_migration_ok:
  assumes "apply_migration w m () s = (Inr (), t)"
  shows "run_statements w (split_sql_statements (mi_sql m)) (md_user s) = Inr (md_user t)"
    "\<exists>now. schema_rows t = schema_rows s @ [row_of_migration m now]" "mi_version m \<notin> am_version ` set (schema_rows s)"
proof -
  obtain u v x where u: "db_call w ''begin sqlite migration transaction'' (ret ()) s = (Inr (), u)"
    "for_eachC (apply_statement w) (split_sql_statements (mi_sql m)) () u = (Inr (), v)"
    "record_migration w m v = (Inr (), x)" "db_call w ''commit sqlite migration transaction'' (ret ()) x = (Inr (), t)"
    using assms by (auto simp: apply_migration_def in_transaction_def seqC_eq_Inr split: prod.splits sum.splits)
  have "md_user u = md_user s" "schema_rows u = schema_rows s" "md_user t = md_user x" "schema_rows t = schema_rows x"
    using u(1,4) by (auto simp: schema_rows_def dest!: call_ok)
  moreover note rec = record_migration_ok [OF u(3)] apply_statements_ok [OF u(2)]
  ultimately have "schema_rows t = schema_rows s @ [row_of_migration m (mw_now w (md_calls v + 1))]"
    "run_statements w (split_sql_statements (mi_sql m)) (md_user s) = Inr (md_user t)"
    "mi_version m \<notin> am_version ` set (schema_rows s)" by simp_all
  then show "run_statements w (split_sql_statements (mi_sql m)) (md_user s) = Inr (md_user t)"
    "\<exists>now. schema_rows t = schema_rows s @ [row_of_migration m now]" "mi_version m \<notin> am_version ` set (schema_rows s)"
    by blast+
qed

lemma apply_migration_failed: "apply_migration w m () s = (Inl e, t) \<Longrightarrow> same_db s t"
  by (auto simp: apply_migration_def in_transaction_def same_db_def schema_rows_def split: prod.splits sum.splits)

lemma apply_migration_progress:
  assumes "apply_migration w m () s = (Inr (), t)" "m \<in> set ms"
  shows "progress w ms [m] s t"
  using apply_migration_ok [OF assms(1)] assms(2)
  by (auto simp: progress_def statements_def row_of_migration_def)

lemma progressive_apply: "m \<in> set ms \<Longrightarrow> progressive w ms (apply_migration w m ())"
  unfolding progressive_def
  by (metis (full_types) apply_migration_failed apply_migration_progress old.unit.exhaust progress_same sum.exhaust)

lemma apply_each_recorded:
  assumes "for_eachC (apply_migration w) xs () s = (Inr (), t)" "set xs \<subseteq> set ms"
  shows "progress w ms xs s t"
  using assms
proof (induction xs arbitrary: s)
  case Nil
  then show ?case by (simp add: progress_same)
next
  case (Cons x xs)
  then obtain u where u: "apply_migration w x () s = (Inr (), u)" "for_eachC (apply_migration w) xs () u = (Inr (), t)"
    by (auto simp: bindC_eq_Inr)
  have "progress w ms ([x] @ xs) s t"
    using Cons apply_migration_progress u by (intro progress_trans [of _ _ "[x]" s u]) auto
  then show ?case by simp
qed

lemma progressive_validate: "progressive w ms (validate_migrations w ms)"
  unfolding validate_migrations_def
  by (intro progressive_seq progressive_bind progressive_seed_all progressive_quiet [OF quiet_ensure]
      progressive_quiet [OF quiet_applied] progressive_quiet [OF quiet_liftR])

lemma progressive_run: "progressive w ms (apply_pending_migrations w ms)"
proof -
  have loop: "progressive w ms (bindC (liftR (sorted_migrations ms)) (\<lambda>xs.
    seqC (for_eachC (apply_migration w) (filter (\<lambda>m. mi_version m \<notin> am_version ` set applied) xs) ())
      (validate_migrations w ms)))" for applied
  proof (cases "sorted_migrations ms")
    case (Inr xs)
    have "progressive w ms (for_eachC (apply_migration w) (filter (\<lambda>m. mi_version m \<notin> am_version ` set applied) xs) ())"
      using sorted_migrations_set [OF Inr] by (intro progressive_each progressive_apply) auto
    then have "progressive w ms (seqC (for_eachC (apply_migration w) (filter (\<lambda>m. mi_version m \<notin> am_version ` set applied) xs) ())
      (validate_migrations w ms))" using progressive_validate by (rule progressive_seq)
    then show ?thesis by (simp add: Inr progressive_def bindC_def)
  next
    case (Inl e)
    then show ?thesis using progress_same by (fastforce simp: progressive_def bindC_def)
  qed
  show ?thesis
    unfolding apply_pending_migrations_def
    by (intro progressive_seq progressive_bind progressive_if loop progressive_validate progressive_seed_all
        progressive_quiet [OF quiet_ensure] progressive_quiet [OF quiet_applied] progressive_quiet [OF quiet_throw])
qed

section \<open>A run that succeeds\<close>

lemma repeated_version_None:
  "repeated_version seen ms = None \<longleftrightarrow> distinct (map mi_version ms) \<and> mi_version ` set ms \<inter> seen = {}"
  by (induction ms arbitrary: seen) auto

lemma sorted_migrations_ok:
  assumes "sorted_migrations ms = Inr xs"
  shows "distinct (map mi_version xs)" "set xs = set ms"
  using assms by (auto simp: sorted_migrations_def Let_def repeated_version_None split: option.splits)

lemma applied_by_version_iff:
  assumes "distinct (map am_version rows)"
  shows "applied_by_version rows v = Some a \<longleftrightarrow> a \<in> set rows \<and> am_version a = v"
proof -
  have "distinct (map fst (rev (map (\<lambda>a. (am_version a, a)) rows)))"
    using assms by (simp add: rev_map [symmetric] comp_def)
  then show ?thesis by (auto simp: applied_by_version_def map_of_eq_Some_iff)
qed

definition rows_known :: "migration list \<Rightarrow> applied_migration list \<Rightarrow> bool" where
  "rows_known ms rows \<longleftrightarrow>
     (\<forall>a \<in> set rows. \<exists>m \<in> set ms. am_version a = mi_version m \<and> am_checksum a = mi_checksum m)"

lemma nonblocking_rows_known:
  assumes "validate_applied_migrations ms rows = Inr rep" "\<not> has_blocking_issues rep" "distinct (map am_version rows)"
  shows "rows_known ms rows"
  unfolding rows_known_def
proof
  fix a
  assume a: "a \<in> set rows"
  obtain xs where xs: "sorted_migrations ms = Inr xs"
    and rep: "mr_issues rep = concat (map (coded_issue rows) xs) @ concat (map (applied_issue xs) rows)"
    using assms(1) by (auto simp: validate_applied_migrations_def and_then_def Let_def split: sum.splits)
  have "\<forall>i \<in> set (applied_issue xs a). is_status i \<noteq> MissingFromCode"
    using assms(2) rep a by (auto simp: has_blocking_issues_def)
  then have "am_version a \<in> mi_version ` set xs" by (simp add: applied_issue_def split: if_splits)
  then obtain m where m: "m \<in> set xs" "mi_version m = am_version a" by auto
  have "\<forall>i \<in> set (coded_issue rows m). is_status i \<noteq> ChecksumMismatch"
    using assms(2) rep m(1) by (auto simp: has_blocking_issues_def)
  moreover have "applied_by_version rows (mi_version m) = Some a"
    using a m(2) by (simp add: applied_by_version_iff [OF assms(3)])
  ultimately have "am_checksum a = mi_checksum m" by (simp add: coded_issue_def split: if_splits)
  then show "\<exists>m \<in> set ms. am_version a = mi_version m \<and> am_checksum a = mi_checksum m"
    using m sorted_migrations_ok(2) [OF xs] by (intro bexI [of _ m]) simp_all
qed

lemma clean_report:
  assumes "validate_applied_migrations ms rows = Inr rep" "rows_known ms rows" "distinct (map am_version rows)"
    and "mi_version ` set ms \<subseteq> am_version ` set rows"
  shows "mr_clean rep"
proof -
  obtain xs where xs: "sorted_migrations ms = Inr xs"
    and rep: "mr_clean rep = (concat (map (coded_issue rows) xs) @ concat (map (applied_issue xs) rows) = [])"
    using assms(1) by (auto simp: validate_applied_migrations_def and_then_def Let_def split: sum.splits)
  note ok = sorted_migrations_ok [OF xs]
  have "applied_issue xs a = []" if "a \<in> set rows" for a
    using assms(2) that ok(2) by (auto simp: rows_known_def applied_issue_def)
  moreover have "coded_issue rows m = []" if m: "m \<in> set xs" for m
  proof -
    obtain a where a: "a \<in> set rows" "am_version a = mi_version m" using assms(4) m ok(2) by auto
    then obtain m' where "m' \<in> set xs" "mi_version m' = mi_version m" "am_checksum a = mi_checksum m'"
      using assms(2) ok(2) unfolding rows_known_def by metis
    then have "am_checksum a = mi_checksum m" using ok(1) m by (metis distinct_map inj_onD)
    moreover have "applied_by_version rows (mi_version m) = Some a"
      using a by (simp add: applied_by_version_iff [OF assms(3)])
    ultimately show ?thesis by (simp add: coded_issue_def)
  qed
  ultimately show ?thesis by (simp add: rep)
qed

lemma validate_migrations_ok:
  assumes "validate_migrations w ms s = (Inr rep, t)"
  shows "validate_applied_migrations ms (sort_key am_version (schema_rows t)) = Inr rep"
proof -
  obtain u rows where "applied_migrations w u = (Inr rows, t)" "validate_applied_migrations ms rows = Inr rep"
    using assms by (auto simp: validate_migrations_def seqC_eq_Inr bindC_eq_Inr)
  then show ?thesis using applied_migrations_rows by (metis same_db_def)
qed

lemma progress_rows:
  assumes "progress w ms ds s t"
  shows "rows_known ms (schema_rows s) \<Longrightarrow> rows_known ms (schema_rows t)"
    "am_version ` set (schema_rows s) \<subseteq> am_version ` set (schema_rows t)"
    "mi_version ` set ds \<subseteq> am_version ` set (schema_rows t)"
    "distinct (map am_version (schema_rows s)) \<Longrightarrow> distinct (map am_version (schema_rows t))"
proof -
  obtain new where new: "schema_rows t = schema_rows s @ new" "\<forall>r \<in> set new. \<exists>m \<in> set ms. \<exists>now. r = row_of_migration m now"
    "mi_version ` set ds \<subseteq> am_version ` set new"
    "distinct (map am_version (schema_rows s)) \<longrightarrow> distinct (map am_version (schema_rows t))"
    using assms unfolding progress_def by blast
  show "rows_known ms (schema_rows t)" if "rows_known ms (schema_rows s)"
    using that new(1,2) by (fastforce simp: rows_known_def row_of_migration_def)
  show "am_version ` set (schema_rows s) \<subseteq> am_version ` set (schema_rows t)" using new(1) by auto
  show "mi_version ` set ds \<subseteq> am_version ` set (schema_rows t)" using new(1,3) by auto
  show "distinct (map am_version (schema_rows t))" if "distinct (map am_version (schema_rows s))"
    using that new(4) by blast
qed

lemma distinct_sort_rows: "distinct (map am_version (sort_key am_version rows)) \<longleftrightarrow> distinct (map am_version rows)"
  by (metis distinct_map distinct_sort set_sort)

text \<open>C35: Running the migrations. However a run ends, on whatever call of the database it fails: the rest of the
  database is the result of running some of the migrations, each as a whole; these were not in the table before
  and are in it now; no version is in the table twice. When the run succeeds, the report is clean, and the
  table has exactly the versions of the code, each with the checksum of its migration.\<close>

theorem migrations_run:
  assumes "apply_pending_migrations w ms s = (r, t)" and "distinct (map am_version (schema_rows s))"
  shows "\<exists>ds. progress w ms ds s t \<and>
    (\<forall>rep. r = Inr rep \<longrightarrow> mr_clean rep \<and> rows_known ms (schema_rows t) \<and>
       am_version ` set (schema_rows t) = mi_version ` set ms)"
proof -
  obtain ds where ds: "progress w ms ds s t" using progressiveD [OF progressive_run assms(1)] by blast
  have "mr_clean rep \<and> rows_known ms (schema_rows t) \<and> am_version ` set (schema_rows t) = mi_version ` set ms"
    if ok: "r = Inr rep" for rep
  proof -
    obtain u0 u1 v1 v2 v3 rep1 rows xs where run:
      "ensure_migration_table w s = (Inr (), u0)" "seed_from_sqlx_migrations w ms u0 = (Inr (), u1)"
      "validate_migrations w ms u1 = (Inr rep1, v1)" "\<not> has_blocking_issues rep1"
      "applied_migrations w v1 = (Inr rows, v2)" "sorted_migrations ms = Inr xs"
      "for_eachC (apply_migration w) (filter (\<lambda>m. mi_version m \<notin> am_version ` set rows) xs) () v2 = (Inr (), v3)"
      "validate_migrations w ms v3 = (Inr rep, t)"
      using assms(1) unfolding ok
      by (auto simp: apply_pending_migrations_def seqC_eq_Inr bindC_eq_Inr split: if_splits)
    note xs = sorted_migrations_ok [OF run(6)]
    have "\<exists>d. progress w ms d s v1"
    proof -
      have "progressive w ms (seqC (ensure_migration_table w) (seqC (seed_from_sqlx_migrations w ms) (validate_migrations w ms)))"
        by (intro progressive_seq progressive_seed_all progressive_validate progressive_quiet [OF quiet_ensure])
      moreover have "seqC (ensure_migration_table w) (seqC (seed_from_sqlx_migrations w ms) (validate_migrations w ms)) s = (Inr rep1, v1)"
        using run(1-3) by (simp add: seqC_eq_Inr)
      ultimately show ?thesis using progressiveD by blast
    qed
    then have d1: "distinct (map am_version (schema_rows v1))" using progress_rows(4) assms(2) by blast
    have known1: "rows_known ms (schema_rows v1)"
      using nonblocking_rows_known [OF validate_migrations_ok [OF run(3)] run(4)] d1
      by (simp add: distinct_sort_rows rows_known_def)
    have v2: "rows = sort_key am_version (schema_rows v1)" "schema_rows v2 = schema_rows v1"
      using applied_migrations_rows [OF run(5)] by (simp_all add: same_db_def)
    have loop: "progress w ms (filter (\<lambda>m. mi_version m \<notin> am_version ` set rows) xs) v2 v3"
      using apply_each_recorded [OF run(7)] xs(2) by auto
    have known3: "rows_known ms (schema_rows v3)" "distinct (map am_version (schema_rows v3))"
      using progress_rows(1,4) [OF loop] known1 d1 v2(2) by simp_all
    have "mi_version m \<in> am_version ` set (schema_rows v3)" if "m \<in> set ms" for m
      using progress_rows(2,3) [OF loop] that xs(2) v2 by (cases "mi_version m \<in> am_version ` set rows") auto
    then have cover3: "mi_version ` set ms \<subseteq> am_version ` set (schema_rows v3)" by blast
    obtain d where last: "progress w ms d v3 t" using progressiveD [OF progressive_validate run(8)] by blast
    have known: "rows_known ms (schema_rows t)" and dist: "distinct (map am_version (schema_rows t))"
      and cover: "mi_version ` set ms \<subseteq> am_version ` set (schema_rows t)"
      using progress_rows [OF last] known3 cover3 by auto
    have "mr_clean rep"
      using clean_report [OF validate_migrations_ok [OF run(8)]] known dist cover
      by (simp add: distinct_sort_rows rows_known_def)
    then show ?thesis using known cover by (auto simp: rows_known_def)
  qed
  then show ?thesis using ds by blast
qed

definition sample_migration_world :: "string list migration_world" where
  "sample_migration_world =
     \<lparr>mw_exec = (\<lambda>sql db. if sql = ''bad'' then Inl ''syntax error'' else Inr (db @ [sql])), mw_fault = (\<lambda>_. None),
      mw_now = int, mw_conflict = ''conflict''\<rparr>"

definition sample_migrations :: "migration list" where
  "sample_migrations = [migration_new id 2 ''two'' ''c;d;'', migration_new id 1 ''one'' ''a;b'', migration_new id 3 ''three'' ''e;bad'']"

definition sample_migration_db :: "string list migration_db" where
  "sample_migration_db = \<lparr>md_user = [], md_schema = None, md_legacy = None, md_calls = 0\<rparr>"

theorem migrations_run_witness:
  "\<exists>ds. progress sample_migration_world sample_migrations ds sample_migration_db
     (snd (apply_pending_migrations sample_migration_world sample_migrations sample_migration_db))"
  using migrations_run [of sample_migration_world sample_migrations sample_migration_db
    "fst (apply_pending_migrations sample_migration_world sample_migrations sample_migration_db)"
    "snd (apply_pending_migrations sample_migration_world sample_migrations sample_migration_db)"]
  by (auto simp: sample_migration_db_def schema_rows_def)

lemma sample_statements:
  "split_sql_statements ''a;b'' = [''a'', ''b'']" "split_sql_statements ''c;d;'' = [''c'', ''d'']"
  "split_sql_statements ''e;bad'' = [''e'', ''bad'']"
  by (simp_all add: split_sql_statements_def str_eval)

text \<open>The third migration fails at its second statement: the first two have run, in the order of their versions,
  and nothing of the third.\<close>

lemma sample_migrations_outcome:
  "md_user (snd (apply_pending_migrations sample_migration_world sample_migrations sample_migration_db)) = [''a'', ''b'', ''c'', ''d''] \<and>
   map am_version (schema_rows (snd (apply_pending_migrations sample_migration_world sample_migrations sample_migration_db))) = [1, 2]"
  by (simp add: sample_migration_db_def sample_migration_world_def sample_migrations_def migration_new_def
      apply_pending_migrations_def ensure_migration_table_def seed_from_sqlx_migrations_def schema_migration_count_def
      legacy_table_exists_def validate_migrations_def applied_migrations_def db_call_def seqC_def bindC_def schema_rows_def
      validate_applied_migrations_def sorted_migrations_def coded_issue_def applied_by_version_def applied_issue_def
      and_then_def has_blocking_issues_def apply_migration_def in_transaction_def sample_statements apply_statement_def
      record_migration_def row_of_migration_def migration_error_def)

end
