(* ===== verification/Backup.thy ===== *)
theory Backup
  imports Context
begin

text \<open>
  \<^verbatim>\<open>crates/memcore-core/src/backup\<close> and \<^verbatim>\<open>crates/memcore-storage/src/backup/sqlite.rs\<close>: names of backup
  files, where they may lie, and the rotation of old ones. Paths are strings of a Unix system, read as
  components the way \<open>std::path\<close> does. A directory is a list of entries in the order the system lists them;
  the format of the time stamp, SHA-256, the database and the failures of the file system are parameters.
\<close>

section \<open>Paths (\<open>std::path\<close>)\<close>

datatype path_component = RootDir | CurDir | ParentDir | Normal string

definition path_part :: "string \<Rightarrow> path_component" where
  "path_part p = (if p = ''..'' then ParentDir else Normal p)"

definition path_components :: "string \<Rightarrow> path_component list" where
  "path_components s =
     (let parts = split_on (CHR ''/'') s in
      (if s \<noteq> [] \<and> hd s = CHR ''/'' then [RootDir] else if hd parts = ''.'' then [CurDir] else []) @
      map path_part (filter (\<lambda>p. p \<noteq> [] \<and> p \<noteq> ''.'') parts))"

definition path_join :: "string \<Rightarrow> string \<Rightarrow> string" where
  "path_join base p =
     (if p \<noteq> [] \<and> hd p = CHR ''/'' then p
      else if base = [] \<or> last base = CHR ''/'' then base @ p
      else base @ ''/'' @ p)"

definition path_file_name :: "string \<Rightarrow> string option" where
  "path_file_name s =
     (case rev (path_components s) of Normal n # _ \<Rightarrow> Some n | _ \<Rightarrow> None)"

definition path_starts_with :: "string \<Rightarrow> string \<Rightarrow> bool" where
  "path_starts_with s base \<longleftrightarrow> take (length (path_components base)) (path_components s) = path_components base"

section \<open>Names (\<open>service.rs\<close>)\<close>

datatype backup_backend = BackupSqlite | BackupPostgres

fun backup_backend_str :: "backup_backend \<Rightarrow> string" where
  "backup_backend_str BackupSqlite = ''sqlite''"
| "backup_backend_str BackupPostgres = ''postgres''"

definition BACKUP_FILE_PREFIX :: string where "BACKUP_FILE_PREFIX = ''memcore-sqlite-''"
definition BACKUP_FILE_SUFFIX :: string where "BACKUP_FILE_SUFFIX = ''.backup.sqlite''"

definition label_char :: "char \<Rightarrow> bool" where
  "label_char c \<longleftrightarrow>
     (let n = (of_char c :: nat) in
      97 \<le> n \<and> n \<le> 122 \<or> 65 \<le> n \<and> n \<le> 90 \<or> 48 \<le> n \<and> n \<le> 57 \<or> c = CHR ''-'' \<or> c = CHR ''_'')"

text \<open>Every character that is not allowed becomes a dash, here every byte of it: runs of dashes collapse.\<close>

definition sanitize_backup_label :: "string option \<Rightarrow> string option" where
  "sanitize_backup_label label =
     (case label of
        None \<Rightarrow> None
      | Some raw \<Rightarrow>
          if trim raw = [] then None
          else
            let sanitized = map (\<lambda>c. if label_char c then c else CHR ''-'') (trim raw);
                collapsed = join ''-'' (filter (\<lambda>part. part \<noteq> []) (split_on (CHR ''-'') sanitized))
            in if collapsed = [] then None else Some collapsed)"

definition build_sqlite_backup_filename :: "(int \<Rightarrow> string) \<Rightarrow> int \<Rightarrow> string option \<Rightarrow> string" where
  "build_sqlite_backup_filename format created_at label =
     BACKUP_FILE_PREFIX @ format created_at @
     (case sanitize_backup_label label of Some l \<Rightarrow> ''-'' @ l | None \<Rightarrow> []) @ BACKUP_FILE_SUFFIX"

definition validate_backup_output_dir :: "string \<Rightarrow> string memcore_result" where
  "validate_backup_output_dir output_dir =
     (if output_dir = [] then Inl (ValidationError ''backup output directory cannot be empty'')
      else if ParentDir \<in> set (path_components output_dir)
      then Inl (ValidationError ''backup output directory cannot contain path traversal'')
      else Inr output_dir)"

definition resolve_backup_path :: "(int \<Rightarrow> string) \<Rightarrow> string \<Rightarrow> int \<Rightarrow> string option \<Rightarrow> string memcore_result" where
  "resolve_backup_path format output_dir created_at label =
     and_then (validate_backup_output_dir output_dir) (\<lambda>dir.
     let filename = build_sqlite_backup_filename format created_at label;
         path = path_join dir filename
     in if path_file_name path \<noteq> Some filename
        then Inl (ValidationError ''backup filename escaped output directory'')
        else if \<not> path_starts_with path dir
        then Inl (ValidationError ''backup path must stay inside backup directory'')
        else Inr path)"

definition ends_with :: "string \<Rightarrow> string \<Rightarrow> bool" where
  "ends_with s p \<longleftrightarrow> length p \<le> length s \<and> drop (length s - length p) s = p"

definition is_memcore_sqlite_backup_filename :: "string \<Rightarrow> bool" where
  "is_memcore_sqlite_backup_filename name \<longleftrightarrow> starts_with name BACKUP_FILE_PREFIX \<and> ends_with name BACKUP_FILE_SUFFIX"

section \<open>Rotation\<close>

text \<open>\<open>de_modified\<close> is the time of the last change, when it can be read.\<close>

record dir_entry =
  de_name :: string
  de_is_file :: bool
  de_modified :: "int option"
  de_content :: string

definition UNIX_EPOCH :: int where "UNIX_EPOCH = 0"

definition entry_modified :: "dir_entry \<Rightarrow> int" where
  "entry_modified e = (case de_modified e of None \<Rightarrow> UNIX_EPOCH | Some t \<Rightarrow> t)"

definition is_backup_entry :: "dir_entry \<Rightarrow> bool" where
  "is_backup_entry e \<longleftrightarrow> de_is_file e \<and> is_memcore_sqlite_backup_filename (de_name e)"

definition rotation_le :: "dir_entry \<Rightarrow> dir_entry \<Rightarrow> bool" where
  "rotation_le a b \<longleftrightarrow>
     entry_modified a < entry_modified b \<or> entry_modified a = entry_modified b \<and> de_name a \<le> de_name b"

text \<open>The order of \<open>sort_by\<close>: by time, then by path, by two stable sorts.\<close>

definition rotation_order :: "dir_entry list \<Rightarrow> dir_entry list" where
  "rotation_order entries = sort_key entry_modified (sort_key de_name (filter is_backup_entry entries))"

record file_world =
  fw_read_dir_error :: "string option"
  fw_read_entry_error :: "string option"
  fw_remove_error :: "string \<Rightarrow> string option"
  fw_format :: "int \<Rightarrow> string"
  fw_now :: int
  fw_modified :: "int option"
  fw_create_dir_error :: "string option"
  fw_connect :: "memcore_error option"
  fw_vacuum :: "string \<Rightarrow> (string \<times> string option) + string"
  fw_source :: "string \<Rightarrow> string option"
  fw_copy_error :: "string option"
  fw_metadata_error :: "string option"
  fw_checksum_error :: "string option"
  fw_sha256_hex :: "string \<Rightarrow> string"

type_synonym 'a dir_op = "(dir_entry list option, memcore_error, 'a) comp"

definition remove_entry :: "string \<Rightarrow> dir_entry list option \<Rightarrow> dir_entry list option" where
  "remove_entry name d = map_option (filter (\<lambda>e. de_name e \<noteq> name)) d"

definition remove_backup :: "file_world \<Rightarrow> dir_entry \<Rightarrow> nat \<Rightarrow> nat dir_op" where
  "remove_backup w e deleted d =
     (case fw_remove_error w (de_name e) of
        Some err \<Rightarrow> (Inl (StorageError (''failed to rotate backup file: '' @ err)), d)
      | None \<Rightarrow> (Inr (deleted + 1), remove_entry (de_name e) d))"

definition rotate_memcore_sqlite_backups :: "file_world \<Rightarrow> nat \<Rightarrow> nat dir_op" where
  "rotate_memcore_sqlite_backups w max_files d =
     (if max_files = 0 then (Inl (ValidationError ''backup_max_files must be greater than 0''), d)
      else case d of
        None \<Rightarrow> (Inr 0, d)
      | Some entries \<Rightarrow>
          (case fw_read_dir_error w of
             Some e \<Rightarrow> (Inl (StorageError (''failed to read backup directory: '' @ e)), d)
           | None \<Rightarrow>
               (case fw_read_entry_error w of
                  Some e \<Rightarrow> (Inl (StorageError (''failed to read backup directory entry: '' @ e)), d)
                | None \<Rightarrow>
                    let backups = rotation_order entries in
                    if length backups \<le> max_files then (Inr 0, d)
                    else for_eachC (remove_backup w) (take (length backups - max_files) backups) 0 d)))"

definition REQUIRED_PHRASE :: string where
  "REQUIRED_PHRASE = ''I_UNDERSTAND_THIS_WILL_REPLACE_THE_DATABASE''"

definition restore_confirmed :: "string \<Rightarrow> bool" where
  "restore_confirmed confirmation \<longleftrightarrow> trim confirmation = REQUIRED_PHRASE"

section \<open>Backups of SQLite (\<open>backup/sqlite.rs\<close>)\<close>

definition strip_prefix :: "string \<Rightarrow> string \<Rightarrow> string option" where
  "strip_prefix p s = (if starts_with s p then Some (drop (length p) s) else None)"

definition unwrap_or :: "'a \<Rightarrow> 'a option \<Rightarrow> 'a" where
  "unwrap_or d v = (case v of None \<Rightarrow> d | Some x \<Rightarrow> x)"

text \<open>\<open>None\<close> for a database in memory.\<close>

definition sqlite_path_from_database_url :: "string \<Rightarrow> string option" where
  "sqlite_path_from_database_url database_url =
     (let normalized = (case strip_prefix ''sqlite://'' database_url of
                          Some rest \<Rightarrow> ''sqlite:'' @ rest | None \<Rightarrow> database_url);
          without_scheme = unwrap_or normalized (strip_prefix ''sqlite:'' normalized)
      in if without_scheme = [] \<or> starts_with without_scheme '':memory:'' then None
         else
           let path_part = trim (hd (split_on (CHR ''?'') without_scheme))
           in if path_part = [] \<or> path_part = '':memory:'' then None else Some path_part)"

definition escape_sqlite_path_literal :: "string \<Rightarrow> string" where
  "escape_sqlite_path_literal path = concat (map (\<lambda>c. if c = CHR 0x27 then [c, c] else [c]) path)"

definition vacuum_statement :: "string \<Rightarrow> string" where
  "vacuum_statement path = ''VACUUM INTO '' @ [CHR 0x27] @ escape_sqlite_path_literal path @ [CHR 0x27]"

record sqlite_backup_provider =
  sb_database_url :: string
  sb_max_files :: nat

definition sqlite_backup_provider_new :: "string \<Rightarrow> nat \<Rightarrow> sqlite_backup_provider memcore_result" where
  "sqlite_backup_provider_new database_url max_files =
     (if max_files = 0 then Inl (ValidationError ''backup_max_files must be greater than 0'')
      else Inr \<lparr>sb_database_url = database_url, sb_max_files = max_files\<rparr>)"

definition write_entry :: "file_world \<Rightarrow> string \<Rightarrow> string \<Rightarrow> dir_entry list option \<Rightarrow> dir_entry list option" where
  "write_entry w name content d =
     map_option (\<lambda>es. filter (\<lambda>e. de_name e \<noteq> name) es @
       [\<lparr>de_name = name, de_is_file = True, de_modified = fw_modified w, de_content = content\<rparr>]) d"

definition storage_error :: "string \<Rightarrow> string \<Rightarrow> memcore_error" where
  "storage_error context e = StorageError (context @ '': '' @ e)"

definition copy_database_file :: "file_world \<Rightarrow> string \<Rightarrow> string \<Rightarrow> unit dir_op" where
  "copy_database_file w source name d =
     (case fw_source w source of
        None \<Rightarrow> (Inl (NotFound ''sqlite database file was not found for backup''), d)
      | Some content \<Rightarrow>
          (case fw_copy_error w of
             Some e \<Rightarrow> (Inl (storage_error ''copy sqlite database file'' e), d)
           | None \<Rightarrow> (Inr (), write_entry w name content d)))"

text \<open>A failed \<open>VACUUM INTO\<close> may leave a part of the file; it is removed before the copy.\<close>

definition create_backup_file :: "file_world \<Rightarrow> sqlite_backup_provider \<Rightarrow> string \<Rightarrow> string \<Rightarrow> unit dir_op" where
  "create_backup_file w p path name d =
     (case fw_create_dir_error w of
        Some e \<Rightarrow> (Inl (storage_error ''create backup directory'' e), d)
      | None \<Rightarrow>
          let d1 = Some (unwrap_or [] d) in
          if name \<in> de_name ` set (unwrap_or [] d) then (Inl (Conflict ''backup file already exists''), d1)
          else case fw_connect w of
            Some e \<Rightarrow> (Inl e, d1)
          | None \<Rightarrow>
              (case fw_vacuum w (vacuum_statement path) of
                 Inr content \<Rightarrow> (Inr (), write_entry w name content d1)
               | Inl (e, partial) \<Rightarrow>
                   (case sqlite_path_from_database_url (sb_database_url p) of
                      Some source \<Rightarrow> copy_database_file w source name d1
                    | None \<Rightarrow>
                        (Inl (storage_error ''sqlite vacuum into backup'' e),
                         case partial of None \<Rightarrow> d1 | Some content \<Rightarrow> write_entry w name content d1))))"

record backup_result =
  br_backend :: backup_backend
  br_backup_path :: string
  br_size_bytes :: nat
  br_created_at :: int
  br_checksum_sha256 :: string

definition content_of :: "string \<Rightarrow> dir_entry list option \<Rightarrow> string" where
  "content_of name d = (case filter (\<lambda>e. de_name e = name) (unwrap_or [] d) of e # _ \<Rightarrow> de_content e | [] \<Rightarrow> [])"

definition create_backup ::
  "file_world \<Rightarrow> sqlite_backup_provider \<Rightarrow> backup_backend \<Rightarrow> string \<Rightarrow> string option \<Rightarrow> backup_result dir_op" where
  "create_backup w p backend output_dir label =
     (if backend \<noteq> BackupSqlite then throw (ValidationError ''SqliteBackupProvider only supports sqlite backups'')
      else
        bindC (liftR (resolve_backup_path (fw_format w) output_dir (fw_now w) label)) (\<lambda>path.
        let name = build_sqlite_backup_filename (fw_format w) (fw_now w) label in
        seqC (create_backup_file w p path name)
        (case fw_metadata_error w of
           Some e \<Rightarrow> throw (storage_error ''read backup file metadata'' e)
         | None \<Rightarrow>
             bindC (getsC (content_of name)) (\<lambda>content.
             if content = []
             then seqC (modifyC (if fw_remove_error w name = None then remove_entry name else (\<lambda>d. d))) (throw (StorageError ''created backup file was empty''))
             else if fw_checksum_error w \<noteq> None
             then throw (StorageError (''failed to read backup file for checksum: '' @ the (fw_checksum_error w)))
             else
               bindC (rotate_memcore_sqlite_backups w (sb_max_files p)) (\<lambda>_.
               ret \<lparr>br_backend = BackupSqlite, br_backup_path = path, br_size_bytes = length content,
                    br_created_at = fw_now w, br_checksum_sha256 = fw_sha256_hex w content\<rparr>)))))"

section \<open>A backup lies in its directory\<close>

lemma split_on_ne [simp]: "split_on sep s \<noteq> []"
  by (induction s) (auto split: list.splits)

lemma split_on_chars: "p \<in> set (split_on sep s) \<Longrightarrow> set p \<subseteq> set s"
  by (induction s arbitrary: p) (fastforce split: list.splits if_splits)+

lemma split_on_append: "split_on sep (s @ sep # t) = split_on sep s @ split_on sep t"
  by (induction s) (auto split: list.splits)

lemma split_on_single: "sep \<notin> set s \<Longrightarrow> split_on sep s = [s]"
  by (induction s) auto

lemma set_join: "set (join sep ps) \<subseteq> set sep \<union> (\<Union>p \<in> set ps. set p)"
  by (induction sep ps rule: join.induct) auto

lemma sanitized_label:
  assumes "sanitize_backup_label label = Some l"
  shows "l \<noteq> []" "c \<in> set l \<Longrightarrow> label_char c"
proof -
  obtain raw where raw: "l = join ''-'' (filter (\<lambda>part. part \<noteq> [])
      (split_on (CHR ''-'') (map (\<lambda>c. if label_char c then c else CHR ''-'') (trim raw))))" "l \<noteq> []"
    using assms by (auto simp: sanitize_backup_label_def Let_def split: option.splits if_splits)
  then show "l \<noteq> []" by simp
  have dash: "label_char CHR ''-''" by (simp add: label_char_def)
  show "label_char c" if "c \<in> set l"
  proof -
    have "c \<in> set ''-'' \<or> (\<exists>p \<in> set (split_on (CHR ''-'') (map (\<lambda>c. if label_char c then c else CHR ''-'') (trim raw))). c \<in> set p)"
      using that set_join raw(1) by fastforce
    then show ?thesis
    proof
      assume "c \<in> set ''-''"
      then show ?thesis using dash by simp
    next
      assume "\<exists>p \<in> set (split_on (CHR ''-'') (map (\<lambda>c. if label_char c then c else CHR ''-'') (trim raw))). c \<in> set p"
      then have "c \<in> set (map (\<lambda>c. if label_char c then c else CHR ''-'') (trim raw))" using split_on_chars by blast
      then show ?thesis using dash by auto
    qed
  qed
qed

lemma no_slash_label: "label_char c \<Longrightarrow> c \<noteq> CHR ''/''"
  by (auto simp: label_char_def)

lemma backup_filename_no_slash:
  assumes "CHR ''/'' \<notin> set (format t)"
  shows "CHR ''/'' \<notin> set (build_sqlite_backup_filename format t label)"
proof -
  have "CHR ''/'' \<notin> set l" if "sanitize_backup_label label = Some l" for l
    using sanitized_label(2) [OF that] no_slash_label by blast
  then show ?thesis
    using assms
    by (cases "sanitize_backup_label label")
       (simp_all add: build_sqlite_backup_filename_def BACKUP_FILE_PREFIX_def BACKUP_FILE_SUFFIX_def)
qed

lemma backup_filename_start: "\<exists>rest. build_sqlite_backup_filename format t label = CHR ''m'' # CHR ''e'' # CHR ''m'' # rest"
  by (simp add: build_sqlite_backup_filename_def BACKUP_FILE_PREFIX_def)

lemma components_join:
  assumes "base \<noteq> []" "CHR ''/'' \<notin> set n" "n \<notin> {[], ''.'', ''..''}"
  shows "path_components (path_join base n) = path_components base @ [Normal n]"
proof -
  have n: "n \<noteq> []" "hd n \<noteq> CHR ''/''" using assms(2,3) by (auto simp: neq_Nil_conv)
  have single: "split_on (CHR ''/'') n = [n]" using assms(2) by (rule split_on_single)
  have part: "path_part n = Normal n" using assms(3) by (simp add: path_part_def)
  show ?thesis
  proof (cases "last base = CHR ''/''")
    case True
    then obtain b where b: "base = b @ [CHR ''/'']" using assms(1) by (metis append_butlast_last_id)
    have join: "path_join (b @ [CHR ''/'']) n = b @ CHR ''/'' # n" using n by (simp add: path_join_def)
    show ?thesis
      unfolding b path_components_def Let_def join
      using n assms(3) part by (auto simp: hd_append split_on_append single)
  next
    case False
    then have join: "path_join base n = base @ CHR ''/'' # n" using n assms(1) by (simp add: path_join_def)
    have "split_on (CHR ''/'') (path_join base n) = split_on (CHR ''/'') base @ [n]" by (simp add: join split_on_append single)
    then show ?thesis
      using n assms(1,3) part by (auto simp: path_components_def Let_def join hd_append)
  qed
qed

lemma starts_with_append [simp]: "starts_with (p @ s) p"
  by (simp add: starts_with_def)

lemma ends_with_append [simp]: "ends_with (s @ p) p"
  by (simp add: ends_with_def)

text \<open>Whatever the label, the path of a backup is its directory and a name that the rotation recognises; the two
  last checks of \<open>resolve_backup_path\<close> never fail.\<close>

lemma resolve_backup_path_inside:
  assumes "CHR ''/'' \<notin> set (format t)"
  shows "resolve_backup_path format dir t label =
    and_then (validate_backup_output_dir dir) (\<lambda>_. Inr (path_join dir (build_sqlite_backup_filename format t label)))"
    "validate_backup_output_dir dir = Inr d \<Longrightarrow>
     path_components (path_join dir (build_sqlite_backup_filename format t label)) =
       path_components dir @ [Normal (build_sqlite_backup_filename format t label)]"
    "is_memcore_sqlite_backup_filename (build_sqlite_backup_filename format t label)"
proof -
  let ?n = "build_sqlite_backup_filename format t label"
  have n: "CHR ''/'' \<notin> set ?n" "?n \<notin> {[], ''.'', ''..''}"
    using backup_filename_no_slash [of format t label] assms backup_filename_start [of format t label] by auto
  show comp: "path_components (path_join dir ?n) = path_components dir @ [Normal ?n]"
    if "validate_backup_output_dir dir = Inr d" for d
    using that n by (intro components_join) (auto simp: validate_backup_output_dir_def split: if_splits)
  show "resolve_backup_path format dir t label = and_then (validate_backup_output_dir dir) (\<lambda>_. Inr (path_join dir ?n))"
  proof (cases "validate_backup_output_dir dir")
    case (Inr d)
    then have "d = dir" by (auto simp: validate_backup_output_dir_def split: if_splits)
    then show ?thesis
      using Inr comp [OF Inr] by (simp add: resolve_backup_path_def and_then_def Let_def path_file_name_def path_starts_with_def)
  qed (simp add: resolve_backup_path_def and_then_def)
  show "is_memcore_sqlite_backup_filename ?n"
    unfolding is_memcore_sqlite_backup_filename_def build_sqlite_backup_filename_def
    by (metis append.assoc ends_with_append starts_with_append)
qed

section \<open>Rotation keeps the newest\<close>

lemma insort_rotation:
  assumes "sorted_wrt rotation_le ys" "\<And>y. y \<in> set ys \<Longrightarrow> de_name x \<le> de_name y"
  shows "sorted_wrt rotation_le (insort_key entry_modified x ys)"
  using assms
proof (induction ys)
  case (Cons y ys)
  show ?case
  proof (cases "entry_modified x \<le> entry_modified y")
    case True
    have "rotation_le x z" if "z \<in> set (y # ys)" for z
    proof -
      have "entry_modified y \<le> entry_modified z" using Cons.prems(1) that by (auto simp: rotation_le_def)
      then show ?thesis using True Cons.prems(2) [OF that] by (auto simp: rotation_le_def)
    qed
    then show ?thesis using True Cons.prems(1) by simp
  next
    case False
    then show ?thesis using Cons by (auto simp: rotation_le_def set_insort_key)
  qed
qed simp

lemma sort_rotation: "sorted (map de_name xs) \<Longrightarrow> sorted_wrt rotation_le (sort_key entry_modified xs)"
proof (induction xs)
  case (Cons x xs)
  then show ?case using insort_rotation [of "sort_key entry_modified xs" x] by (simp add: sort_key_simps)
qed simp

lemma rotation_order_sorted: "sorted_wrt rotation_le (rotation_order entries)"
  by (simp add: rotation_order_def sort_rotation)

lemma rotation_order_set [simp]: "set (rotation_order entries) = {e \<in> set entries. is_backup_entry e}"
  by (auto simp: rotation_order_def)

lemma rotation_order_length [simp]: "length (rotation_order entries) = length (filter is_backup_entry entries)"
  by (simp add: rotation_order_def)

lemma remove_backup_ok:
  "remove_backup w e n (Some entries) = (Inr k, t) \<Longrightarrow>
   k = n + 1 \<and> t = Some (filter (\<lambda>x. de_name x \<noteq> de_name e) entries)"
  by (auto simp: remove_backup_def remove_entry_def split: option.splits)

lemma remove_backups_ok:
  "for_eachC (remove_backup w) es n (Some entries) = (Inr k, t) \<Longrightarrow>
   k = n + length es \<and> t = Some (filter (\<lambda>e. de_name e \<notin> de_name ` set es) entries)"
proof (induction es arbitrary: n entries)
  case (Cons e es)
  then have "for_eachC (remove_backup w) es (n + 1) (Some (filter (\<lambda>x. de_name x \<noteq> de_name e) entries)) = (Inr k, t)"
    by (auto simp: bindC_eq_Inr dest!: remove_backup_ok)
  from Cons.IH [OF this] show ?case by (auto intro: filter_cong)
qed simp

lemma rotation_order_distinct: "distinct (map de_name entries) \<Longrightarrow> distinct (map de_name (rotation_order entries))"
  by (metis (no_types, lifting) distinct_filter distinct_map distinct_sort filter_is_subset inj_on_subset rotation_order_def set_sort)

text \<open>A rotation that succeeds removes nothing but backup files, and of these the oldest (by the time of their last
  change, then by name); as many stay as allowed.\<close>

lemma rotation_keeps_newest:
  assumes "rotate_memcore_sqlite_backups w max_files (Some entries) = (Inr k, t)" "distinct (map de_name entries)"
  obtains kept where "t = Some kept" "set kept \<subseteq> set entries"
    "\<forall>e \<in> set entries. \<not> is_backup_entry e \<longrightarrow> e \<in> set kept"
    "length (filter is_backup_entry kept) = min max_files (length (filter is_backup_entry entries))"
    "\<forall>r \<in> set entries - set kept. is_backup_entry r \<and> (\<forall>b \<in> set kept. is_backup_entry b \<longrightarrow> rotation_le r b)"
proof (cases "length (filter is_backup_entry entries) \<le> max_files")
  case True
  then have "t = Some entries"
    using assms(1) by (auto simp: rotate_memcore_sqlite_backups_def Let_def split: if_splits option.splits)
  then show thesis using True by (intro that) auto
next
  case False
  let ?o = "rotation_order entries"
  let ?n = "length ?o - max_files"
  let ?old = "take ?n ?o"
  have "for_eachC (remove_backup w) ?old 0 (Some entries) = (Inr k, t)"
    using assms(1) False by (auto simp: rotate_memcore_sqlite_backups_def Let_def split: if_splits option.splits)
  from remove_backups_ok [OF this] have t: "t = Some (filter (\<lambda>e. de_name e \<notin> de_name ` set ?old) entries)" by simp
  let ?kept = "filter (\<lambda>e. de_name e \<notin> de_name ` set ?old) entries"
  have old: "set ?old \<subseteq> {e \<in> set entries. is_backup_entry e}" by (metis rotation_order_set set_take_subset)
  have named: "e \<in> set ?old" if "e \<in> set entries" "de_name e \<in> de_name ` set ?old" for e
    using that old assms(2) by (auto simp: distinct_map dest!: inj_onD)
  have kept: "set ?kept = set entries - set ?old" using named by auto
  have dist: "distinct ?o" using rotation_order_distinct [OF assms(2)] by (simp add: distinct_map)
  have "distinct entries" using assms(2) by (simp add: distinct_map)
  then have "length (filter is_backup_entry ?kept) = card ({e \<in> set entries. is_backup_entry e} - set ?old)"
    using kept by (auto simp: distinct_card [symmetric] intro!: arg_cong [of _ _ card])
  also have "{e \<in> set entries. is_backup_entry e} - set ?old = set (drop ?n ?o)"
    using dist by (metis Diff_cancel Diff_disjoint Un_Diff append_take_drop_id distinct_append inf_commute rotation_order_set set_append sup_bot_left Diff_triv)
  also have "card \<dots> = length (drop ?n ?o)" using dist by (intro distinct_card) simp
  also have "\<dots> = min max_files (length (filter is_backup_entry entries))" using False by simp
  finally have count: "length (filter is_backup_entry ?kept) = min max_files (length (filter is_backup_entry entries))" .
  have "rotation_le r b" if "r \<in> set ?old" "b \<in> set entries - set ?old" "is_backup_entry b" for r b
  proof -
    have "b \<in> set (drop ?n ?o)" using that(2,3) by (metis (mono_tags, lifting) Diff_iff UnE append_take_drop_id mem_Collect_eq rotation_order_set set_append)
    moreover have "sorted_wrt rotation_le (?old @ drop ?n ?o)" using rotation_order_sorted by simp
    ultimately show ?thesis using that(1) by (simp only: sorted_wrt_append)
  qed
  then have order: "\<forall>r \<in> set entries - set ?kept. is_backup_entry r \<and> (\<forall>b \<in> set ?kept. is_backup_entry b \<longrightarrow> rotation_le r b)"
    using old unfolding kept by blast
  have others: "\<forall>e \<in> set entries. \<not> is_backup_entry e \<longrightarrow> e \<in> set ?kept" using old unfolding kept by blast
  have "set ?kept \<subseteq> set entries" by auto
  then show thesis using that [OF t _ others count order] by blast
qed

text \<open>C36: The rotation of backups. A rotation that succeeds removes nothing but backup files, and of these the
  oldest (by the time of their last change, then by name): as many stay as allowed, and none that went is younger
  than one that stayed.\<close>

theorem backup_rotation:
  assumes "rotate_memcore_sqlite_backups w max_files (Some entries) = (Inr k, t)" and "distinct (map de_name entries)"
  shows "\<exists>kept. t = Some kept \<and> set kept \<subseteq> set entries \<and>
    (\<forall>e \<in> set entries. \<not> is_backup_entry e \<longrightarrow> e \<in> set kept) \<and>
    length (filter is_backup_entry kept) = min max_files (length (filter is_backup_entry entries)) \<and>
    (\<forall>r \<in> set entries - set kept. is_backup_entry r \<and> (\<forall>b \<in> set kept. is_backup_entry b \<longrightarrow> rotation_le r b))"
  using rotation_keeps_newest [OF assms] by metis

definition sample_file_world :: file_world where
  "sample_file_world =
     \<lparr>fw_read_dir_error = None, fw_read_entry_error = None, fw_remove_error = (\<lambda>_. None),
      fw_format = (\<lambda>_. ''20260101T000000Z''), fw_now = 9,
      fw_modified = Some 9, fw_create_dir_error = None, fw_connect = None, fw_vacuum = (\<lambda>_. Inr ''data''),
      fw_source = (\<lambda>_. None), fw_copy_error = None, fw_metadata_error = None, fw_checksum_error = None, fw_sha256_hex = id\<rparr>"

definition sample_entry_of :: "string \<Rightarrow> int \<Rightarrow> dir_entry" where
  "sample_entry_of name modified = \<lparr>de_name = name, de_is_file = True, de_modified = Some modified, de_content = ''x''\<rparr>"

definition sample_dir :: "dir_entry list" where
  "sample_dir = [sample_entry_of ''memcore-sqlite-b.backup.sqlite'' 2, sample_entry_of ''notes.txt'' 0,
     sample_entry_of ''memcore-sqlite-a.backup.sqlite'' 1]"

lemma sample_names:
  "is_memcore_sqlite_backup_filename ''memcore-sqlite-b.backup.sqlite''" "is_memcore_sqlite_backup_filename ''memcore-sqlite-a.backup.sqlite''"
  "\<not> is_memcore_sqlite_backup_filename ''notes.txt''"
  by code_simp+

lemma sample_rotation:
  "rotate_memcore_sqlite_backups sample_file_world 1 (Some sample_dir) =
     (Inr 1, Some [sample_entry_of ''memcore-sqlite-b.backup.sqlite'' 2, sample_entry_of ''notes.txt'' 0])"
  by (simp add: rotate_memcore_sqlite_backups_def sample_file_world_def sample_dir_def rotation_order_def is_backup_entry_def
      sample_entry_of_def sample_names entry_modified_def remove_backup_def remove_entry_def sort_key_simps bindC_def)

theorem backup_rotation_witness:
  "\<exists>kept. snd (rotate_memcore_sqlite_backups sample_file_world 1 (Some sample_dir)) = Some kept \<and>
     sample_entry_of ''notes.txt'' 0 \<in> set kept \<and> length (filter is_backup_entry kept) = 1"
proof -
  let ?t = "[sample_entry_of ''memcore-sqlite-b.backup.sqlite'' 2, sample_entry_of ''notes.txt'' 0]"
  have "distinct (map de_name sample_dir)" by (simp add: sample_dir_def sample_entry_of_def)
  from backup_rotation [OF sample_rotation this] obtain kept where kept: "Some ?t = Some kept"
    "\<forall>e \<in> set sample_dir. \<not> is_backup_entry e \<longrightarrow> e \<in> set kept"
    "length (filter is_backup_entry kept) = min 1 (length (filter is_backup_entry sample_dir))"
    by blast
  have "\<not> is_backup_entry (sample_entry_of ''notes.txt'' 0)" by (simp add: is_backup_entry_def sample_entry_of_def sample_names)
  moreover have "length (filter is_backup_entry sample_dir) = 2"
    by (simp add: is_backup_entry_def sample_entry_of_def sample_dir_def sample_names)
  ultimately show ?thesis
    using kept sample_rotation by (intro exI [of _ kept]) (simp add: sample_dir_def)
qed

end
