(* ===== verification/Sql_Rows.thy ===== *)
theory Sql_Rows
  imports Models Rust_F64
begin

text \<open>
  \<^verbatim>\<open>crates/memcore-storage/src/sqlite/conversions.rs\<close>: facts and audit events as rows of text and
  numbers, and back. The texts of identifiers, times (RFC 3339) and JSON values are parameters.
\<close>

record row_texts =
  rt_parse_uuid :: "string \<Rightarrow> string + uuid"
  rt_datetime_text :: "datetime \<Rightarrow> string"
  rt_parse_datetime :: "string \<Rightarrow> string + datetime"
  rt_json_text :: "json \<Rightarrow> string + string"
  rt_parse_json :: "string \<Rightarrow> string + json"

definition map_err_to :: "(string \<Rightarrow> memcore_error) \<Rightarrow> string + 'a \<Rightarrow> 'a memcore_result" where
  "map_err_to f r = (case r of Inl e \<Rightarrow> Inl (f e) | Inr x \<Rightarrow> Inr x)"

definition quoted :: "string \<Rightarrow> string" where
  "quoted s = [CHR 0x27] @ s @ [CHR 0x27]"

fun memory_type_to_str :: "memory_type \<Rightarrow> string" where
  "memory_type_to_str Profile = ''profile''"
| "memory_type_to_str Preference = ''preference''"
| "memory_type_to_str Project = ''project''"
| "memory_type_to_str Conversation = ''conversation''"
| "memory_type_to_str Task = ''task''"
| "memory_type_to_str Entity = ''entity''"
| "memory_type_to_str Skill = ''skill''"
| "memory_type_to_str MTSystem = ''system''"

definition memory_type_from_str :: "string \<Rightarrow> memory_type memcore_result" where
  "memory_type_from_str v =
     (if v = ''profile'' then Inr Profile
      else if v = ''preference'' then Inr Preference
      else if v = ''project'' then Inr Project
      else if v = ''conversation'' then Inr Conversation
      else if v = ''task'' then Inr Task
      else if v = ''entity'' then Inr Entity
      else if v = ''skill'' then Inr Skill
      else if v = ''system'' then Inr MTSystem
      else Inl (StorageError (''invalid memory_type value: '' @ v)))"

fun memory_source_to_str :: "memory_source \<Rightarrow> string" where
  "memory_source_to_str UserMessage = ''user_message''"
| "memory_source_to_str AssistantMessage = ''assistant_message''"
| "memory_source_to_str ApiImport = ''api_import''"
| "memory_source_to_str Manual = ''manual''"
| "memory_source_to_str MSSystem = ''system''"

definition memory_source_from_str :: "string \<Rightarrow> memory_source memcore_result" where
  "memory_source_from_str v =
     (if v = ''user_message'' then Inr UserMessage
      else if v = ''assistant_message'' then Inr AssistantMessage
      else if v = ''api_import'' then Inr ApiImport
      else if v = ''manual'' then Inr Manual
      else if v = ''system'' then Inr MSSystem
      else Inl (StorageError (''invalid source value: '' @ v)))"

fun memory_event_operation_to_str :: "memory_event_operation \<Rightarrow> string" where
  "memory_event_operation_to_str EvAdd = ''add''"
| "memory_event_operation_to_str EvUpdate = ''update''"
| "memory_event_operation_to_str EvDelete = ''delete''"
| "memory_event_operation_to_str EvNoOp = ''no_op''"
| "memory_event_operation_to_str EvForgetUser = ''forget_user''"

definition memory_event_operation_from_str :: "string \<Rightarrow> memory_event_operation memcore_result" where
  "memory_event_operation_from_str v =
     (if v = ''add'' then Inr EvAdd
      else if v = ''update'' then Inr EvUpdate
      else if v = ''delete'' then Inr EvDelete
      else if v = ''no_op'' then Inr EvNoOp
      else if v = ''forget_user'' then Inr EvForgetUser
      else Inl (StorageError (''invalid memory event operation value: '' @ v)))"

definition datetime_from_str :: "row_texts \<Rightarrow> string \<Rightarrow> datetime memcore_result" where
  "datetime_from_str rt v =
     map_err_to (\<lambda>e. StorageError (''invalid datetime value '' @ quoted v @ '': '' @ e)) (rt_parse_datetime rt v)"

definition optional_datetime_to_str :: "row_texts \<Rightarrow> datetime option \<Rightarrow> string option" where
  "optional_datetime_to_str rt v = map_option (rt_datetime_text rt) v"

definition optional_datetime_from_str :: "row_texts \<Rightarrow> string option \<Rightarrow> datetime option memcore_result" where
  "optional_datetime_from_str rt v =
     (case v of Some raw \<Rightarrow> and_then (datetime_from_str rt raw) (\<lambda>d. Inr (Some d)) | None \<Rightarrow> Inr None)"

definition metadata_to_str :: "row_texts \<Rightarrow> json \<Rightarrow> string memcore_result" where
  "metadata_to_str rt v = map_err_to (\<lambda>e. StorageError (''failed to serialize metadata: '' @ e)) (rt_json_text rt v)"

definition metadata_from_str :: "row_texts \<Rightarrow> string \<Rightarrow> json memcore_result" where
  "metadata_from_str rt v = map_err_to (\<lambda>e. StorageError (''failed to deserialize metadata: '' @ e)) (rt_parse_json rt v)"

definition optional_uuid_to_str :: "uuid option \<Rightarrow> string option" where
  "optional_uuid_to_str v = map_option uuid_to_string v"

definition optional_uuid_from_str :: "row_texts \<Rightarrow> string option \<Rightarrow> uuid option memcore_result" where
  "optional_uuid_from_str rt v =
     (case v of
        Some raw \<Rightarrow>
          and_then (map_err_to (\<lambda>e. StorageError (''invalid fact_id '' @ quoted raw @ '': '' @ e)) (rt_parse_uuid rt raw))
            (\<lambda>u. Inr (Some u))
      | None \<Rightarrow> Inr None)"

text \<open>A column \<open>REAL\<close> holds an \<open>f64\<close>: the \<open>f32\<close> that is bound is widened, and \<open>as f32\<close> narrows the value read.\<close>

fun f64_from_f32 :: "f32 \<Rightarrow> f64" where
  "f64_from_f32 NaN = NaN64"
| "f64_from_f32 NegInf = NegInf64"
| "f64_from_f32 PosInf = PosInf64"
| "f64_from_f32 (Fin r) = Fin64 r"

fun f64_as_f32 :: "f64 \<Rightarrow> f32" where
  "f64_as_f32 NaN64 = NaN"
| "f64_as_f32 NegInf64 = NegInf"
| "f64_as_f32 PosInf64 = PosInf"
| "f64_as_f32 (Fin64 r) = f32_of_rat r"

section \<open>Rows\<close>

record fact_row =
  fr_id :: string
  fr_org_id :: string
  fr_user_id :: string
  fr_memory_type :: string
  fr_content :: string
  fr_summary :: "string option"
  fr_source :: string
  fr_confidence :: f64
  fr_importance :: f64
  fr_valid_at :: "string option"
  fr_invalid_at :: "string option"
  fr_recorded_at :: string
  fr_updated_at :: string
  fr_metadata :: string

text \<open>The values bound by \<open>insert_fact\<close>, and the columns read back by \<open>parse_row\<close>.\<close>

definition fact_to_row :: "row_texts \<Rightarrow> fact \<Rightarrow> fact_row memcore_result" where
  "fact_to_row rt f =
     and_then (metadata_to_str rt (f_metadata f)) (\<lambda>metadata.
     Inr \<lparr>fr_id = uuid_to_string (f_id f), fr_org_id = f_org_id f, fr_user_id = f_user_id f,
          fr_memory_type = memory_type_to_str (f_memory_type f), fr_content = f_content f, fr_summary = f_summary f,
          fr_source = memory_source_to_str (f_source f), fr_confidence = f64_from_f32 (f_confidence f),
          fr_importance = f64_from_f32 (f_importance f), fr_valid_at = optional_datetime_to_str rt (f_valid_at f),
          fr_invalid_at = optional_datetime_to_str rt (f_invalid_at f), fr_recorded_at = rt_datetime_text rt (f_recorded_at f),
          fr_updated_at = rt_datetime_text rt (f_updated_at f), fr_metadata = metadata\<rparr>)"

definition row_to_fact :: "row_texts \<Rightarrow> fact_row \<Rightarrow> fact memcore_result" where
  "row_to_fact rt r =
     and_then (map_err_to (\<lambda>e. StorageError (''invalid fact id '' @ quoted (fr_id r) @ '': '' @ e)) (rt_parse_uuid rt (fr_id r))) (\<lambda>uid.
     and_then (memory_type_from_str (fr_memory_type r)) (\<lambda>memory_type.
     and_then (memory_source_from_str (fr_source r)) (\<lambda>source.
     and_then (optional_datetime_from_str rt (fr_valid_at r)) (\<lambda>valid_at.
     and_then (optional_datetime_from_str rt (fr_invalid_at r)) (\<lambda>invalid_at.
     and_then (datetime_from_str rt (fr_recorded_at r)) (\<lambda>recorded_at.
     and_then (datetime_from_str rt (fr_updated_at r)) (\<lambda>updated_at.
     and_then (metadata_from_str rt (fr_metadata r)) (\<lambda>metadata.
     Inr \<lparr>f_id = uid, f_org_id = fr_org_id r, f_user_id = fr_user_id r, f_memory_type = memory_type,
          f_content = fr_content r, f_summary = fr_summary r, f_source = source,
          f_confidence = f64_as_f32 (fr_confidence r), f_importance = f64_as_f32 (fr_importance r),
          f_valid_at = valid_at, f_invalid_at = invalid_at, f_recorded_at = recorded_at, f_updated_at = updated_at,
          f_metadata = metadata\<rparr>))))))))"

record event_row =
  vr_id :: string
  vr_org_id :: string
  vr_user_id :: string
  vr_fact_id :: "string option"
  vr_operation :: string
  vr_input_text :: "string option"
  vr_previous_content :: "string option"
  vr_new_content :: "string option"
  vr_provider_name :: "string option"
  vr_model_name :: "string option"
  vr_metadata :: string
  vr_created_at :: string

definition event_to_row :: "row_texts \<Rightarrow> memory_event \<Rightarrow> event_row memcore_result" where
  "event_to_row rt e =
     and_then (metadata_to_str rt (e_metadata e)) (\<lambda>metadata.
     Inr \<lparr>vr_id = uuid_to_string (e_id e), vr_org_id = e_org_id e, vr_user_id = e_user_id e,
          vr_fact_id = optional_uuid_to_str (e_fact_id e), vr_operation = memory_event_operation_to_str (e_operation e),
          vr_input_text = e_input_text e, vr_previous_content = e_previous_content e, vr_new_content = e_new_content e,
          vr_provider_name = e_provider_name e, vr_model_name = e_model_name e, vr_metadata = metadata,
          vr_created_at = rt_datetime_text rt (e_created_at e)\<rparr>)"

definition row_to_memory_event :: "row_texts \<Rightarrow> event_row \<Rightarrow> memory_event memcore_result" where
  "row_to_memory_event rt r =
     and_then (map_err_to (\<lambda>e. StorageError (''invalid memory event id '' @ quoted (vr_id r) @ '': '' @ e)) (rt_parse_uuid rt (vr_id r))) (\<lambda>uid.
     and_then (optional_uuid_from_str rt (vr_fact_id r)) (\<lambda>fact_id.
     and_then (memory_event_operation_from_str (vr_operation r)) (\<lambda>operation.
     and_then (metadata_from_str rt (vr_metadata r)) (\<lambda>metadata.
     and_then (datetime_from_str rt (vr_created_at r)) (\<lambda>created_at.
     Inr \<lparr>e_id = uid, e_org_id = vr_org_id r, e_user_id = vr_user_id r, e_fact_id = fact_id, e_operation = operation,
          e_input_text = vr_input_text r, e_previous_content = vr_previous_content r, e_new_content = vr_new_content r,
          e_provider_name = vr_provider_name r, e_model_name = vr_model_name r, e_metadata = metadata,
          e_created_at = created_at\<rparr>)))))"

section \<open>Round trips\<close>

lemma memory_type_row [simp]: "memory_type_from_str (memory_type_to_str t) = Inr t"
  by (cases t) (simp_all add: memory_type_from_str_def)

lemma memory_source_row [simp]: "memory_source_from_str (memory_source_to_str v) = Inr v"
  by (cases v) (simp_all add: memory_source_from_str_def)

lemma event_operation_row [simp]: "memory_event_operation_from_str (memory_event_operation_to_str v) = Inr v"
  by (cases v) (simp_all add: memory_event_operation_from_str_def)

text \<open>A JSON value as \<open>serde_json\<close> holds it: the keys of an object in order and without duplicates, integers of \<open>i64\<close> or
  \<open>u64\<close>. Without the feature \<open>float_roundtrip\<close>, which the workspace does not select, floats are parsed only with the
  best effort, so that a float read back need not be the one written; nor is a value read back that nests more than
  127 deep. \<open>erase_floats\<close> forgets which floats a value has, not where it has them.\<close>

fun erase_floats :: "json \<Rightarrow> json" where
  "erase_floats (JFloat r) = JFloat 0"
| "erase_floats (JArray vs) = JArray (map erase_floats vs)"
| "erase_floats (JObject kvs) = JObject (map (\<lambda>(k, v). (k, erase_floats v)) kvs)"
| "erase_floats v = v"

fun float_free :: "json \<Rightarrow> bool" where
  "float_free (JFloat r) \<longleftrightarrow> False"
| "float_free (JArray vs) \<longleftrightarrow> (\<forall>v \<in> set vs. float_free v)"
| "float_free (JObject kvs) \<longleftrightarrow> (\<forall>kv \<in> set kvs. float_free (snd kv))"
| "float_free v \<longleftrightarrow> True"

fun json_value :: "json \<Rightarrow> bool" where
  "json_value (JInt n) \<longleftrightarrow> - (2 ^ 63) \<le> n \<and> n < 2 ^ 64"
| "json_value (JArray vs) \<longleftrightarrow> (\<forall>v \<in> set vs. json_value v)"
| "json_value (JObject kvs) \<longleftrightarrow> sorted_wrt (<) (map fst kvs) \<and> (\<forall>kv \<in> set kvs. json_value (snd kv))"
| "json_value v \<longleftrightarrow> True"

fun json_depth :: "json \<Rightarrow> nat" where
  "json_depth (JArray vs) = Suc (foldr max (map json_depth vs) 0)"
| "json_depth (JObject kvs) = Suc (foldr max (map (\<lambda>kv. json_depth (snd kv)) kvs) 0)"
| "json_depth v = 0"

text \<open>What the libraries promise of the texts. Identifiers, and times in the years that RFC 3339 can write (0 to 9999),
  are read back, and the order of times is that of their texts. A JSON value without floats is read back; of any value
  what is read back differs in floats only.\<close>

definition text_time :: "datetime \<Rightarrow> bool" where
  "text_time d \<longleftrightarrow> - 62167219200 * 10 ^ 9 \<le> d \<and> d < 253402300800 * 10 ^ 9"

definition texts_inverse :: "row_texts \<Rightarrow> bool" where
  "texts_inverse rt \<longleftrightarrow>
     (\<forall>u. rt_parse_uuid rt (uuid_to_string u) = Inr u) \<and>
     (\<forall>d. text_time d \<longrightarrow> rt_parse_datetime rt (rt_datetime_text rt d) = Inr d) \<and>
     (\<forall>v t. json_value v \<longrightarrow> rt_json_text rt v = Inr t \<longrightarrow>
        (float_free v \<longrightarrow> json_depth v < 128 \<longrightarrow> rt_parse_json rt t = Inr v) \<and>
        (\<forall>v'. rt_parse_json rt t = Inr v' \<longrightarrow> erase_floats v' = erase_floats v))"

definition texts_ordered :: "row_texts \<Rightarrow> bool" where
  "texts_ordered rt \<longleftrightarrow>
     (\<forall>d d'. text_time d \<longrightarrow> text_time d' \<longrightarrow> (rt_datetime_text rt d < rt_datetime_text rt d' \<longleftrightarrow> d < d'))"

lemma texts_eq: "texts_inverse rt \<Longrightarrow> text_time d \<Longrightarrow> text_time d' \<Longrightarrow> rt_datetime_text rt d = rt_datetime_text rt d' \<longleftrightarrow> d = d'"
  unfolding texts_inverse_def by (metis sum.inject(2))

lemma texts_less: "texts_ordered rt \<Longrightarrow> text_time d \<Longrightarrow> text_time d' \<Longrightarrow> rt_datetime_text rt d < rt_datetime_text rt d' \<longleftrightarrow> d < d'"
  by (simp add: texts_ordered_def)

lemma texts_le:
  "texts_ordered rt \<Longrightarrow> text_time d \<Longrightarrow> text_time d' \<Longrightarrow> rt_datetime_text rt d \<le> rt_datetime_text rt d' \<longleftrightarrow> d \<le> d'"
  using texts_less [of rt d' d] by (simp add: not_less [symmetric])

definition fact_times :: "fact \<Rightarrow> bool" where
  "fact_times f \<longleftrightarrow> text_time (f_recorded_at f) \<and> text_time (f_updated_at f) \<and>
     pred_option text_time (f_valid_at f) \<and> pred_option text_time (f_invalid_at f)"

text \<open>A number is a value of \<open>f32\<close>.\<close>

fun f32_value :: "f32 \<Rightarrow> bool" where
  "f32_value (Fin r) \<longleftrightarrow> f32_of_rat r = Fin r"
| "f32_value _ \<longleftrightarrow> True"

lemma f64_as_f32_from [simp]: "f32_value x \<Longrightarrow> f64_as_f32 (f64_from_f32 x) = x"
  by (cases x) simp_all

lemma optional_datetime_row [simp]:
  "texts_inverse rt \<Longrightarrow> pred_option text_time v \<Longrightarrow> optional_datetime_from_str rt (optional_datetime_to_str rt v) = Inr v"
  by (cases v) (simp_all add: optional_datetime_from_str_def optional_datetime_to_str_def datetime_from_str_def texts_inverse_def
      map_err_to_def and_then_def)

lemma optional_uuid_row [simp]: "texts_inverse rt \<Longrightarrow> optional_uuid_from_str rt (optional_uuid_to_str v) = Inr v"
  by (cases v) (simp_all add: optional_uuid_from_str_def optional_uuid_to_str_def texts_inverse_def map_err_to_def and_then_def)

lemma map_eq_determined: "map g xs = map g ys \<Longrightarrow> (\<And>x y. y \<in> set ys \<Longrightarrow> g x = g y \<Longrightarrow> x = y) \<Longrightarrow> xs = ys"
proof (induction ys arbitrary: xs)
  case (Cons y ys)
  then obtain x xs' where "xs = x # xs'" "g x = g y" "map g xs' = map g ys" by (cases xs) auto
  with Cons show ?case by auto
qed simp

lemma erase_floats_free: "float_free v \<Longrightarrow> erase_floats v' = erase_floats v \<Longrightarrow> v' = v"
proof (induction v arbitrary: v')
  case (JArray vs)
  then obtain vs' where vs': "v' = JArray vs'" "map erase_floats vs' = map erase_floats vs"
    by (cases v') auto
  from vs'(2) have "vs' = vs" by (rule map_eq_determined) (use JArray in auto)
  then show ?case by (simp add: vs')
next
  case (JObject kvs)
  then obtain kvs' where kvs': "v' = JObject kvs'"
      "map (\<lambda>(k, v). (k, erase_floats v)) kvs' = map (\<lambda>(k, v). (k, erase_floats v)) kvs"
    by (cases v') auto
  from kvs'(2) have "kvs' = kvs" by (rule map_eq_determined) (use JObject in \<open>fastforce split: prod.splits\<close>)
  then show ?case by (simp add: kvs')
next
  case JNull
  then show ?case by (cases v') auto
next
  case (JBool b)
  then show ?case by (cases v') auto
next
  case (JInt n)
  then show ?case by (cases v') auto
next
  case (JFloat r)
  then show ?case by (cases v') auto
next
  case (JString t)
  then show ?case by (cases v') auto
qed

text \<open>The value that is read back of a value written, and the metadata that can be written and read.\<close>

definition reread :: "row_texts \<Rightarrow> json \<Rightarrow> json" where
  "reread rt v = (case rt_json_text rt v of Inr t \<Rightarrow> projr (rt_parse_json rt t) | Inl _ \<Rightarrow> v)"

definition readable :: "row_texts \<Rightarrow> json \<Rightarrow> bool" where
  "readable rt v \<longleftrightarrow> json_value v \<and> (\<exists>t v'. rt_json_text rt v = Inr t \<and> rt_parse_json rt t = Inr v')"

lemma readable_text:
  assumes "readable rt v"
  obtains t where "rt_json_text rt v = Inr t" "rt_parse_json rt t = Inr (reread rt v)"
  using assms by (auto simp: readable_def reread_def)

lemma reread_same:
  assumes "texts_inverse rt" "readable rt v"
  shows "erase_floats (reread rt v) = erase_floats v" "float_free v \<Longrightarrow> reread rt v = v"
proof -
  show e: "erase_floats (reread rt v) = erase_floats v"
    using readable_text [OF assms(2)] assms by (metis readable_def texts_inverse_def)
  then show "float_free v \<Longrightarrow> reread rt v = v" by (simp add: erase_floats_free)
qed

lemma float_free_readable:
  "texts_inverse rt \<Longrightarrow> json_value v \<Longrightarrow> float_free v \<Longrightarrow> json_depth v < 128 \<Longrightarrow> rt_json_text rt v = Inr t \<Longrightarrow> readable rt v"
  by (auto simp: readable_def texts_inverse_def)

lemma metadata_row: "readable rt v \<Longrightarrow> metadata_to_str rt v = Inr t \<Longrightarrow> metadata_from_str rt t = Inr (reread rt v)"
  by (auto simp: metadata_to_str_def metadata_from_str_def map_err_to_def elim!: readable_text)

text \<open>The fact and the event that a table gives back.\<close>

definition stored_form :: "row_texts \<Rightarrow> fact \<Rightarrow> fact" where
  "stored_form rt f = f\<lparr>f_metadata := reread rt (f_metadata f)\<rparr>"

definition stored_event :: "row_texts \<Rightarrow> memory_event \<Rightarrow> memory_event" where
  "stored_event rt e = e\<lparr>e_metadata := reread rt (e_metadata e)\<rparr>"

lemma stored_form_fields [simp]:
  "f_id (stored_form rt f) = f_id f" "f_org_id (stored_form rt f) = f_org_id f" "f_user_id (stored_form rt f) = f_user_id f"
  "f_memory_type (stored_form rt f) = f_memory_type f" "f_content (stored_form rt f) = f_content f"
  "f_summary (stored_form rt f) = f_summary f" "f_updated_at (stored_form rt f) = f_updated_at f"
  by (simp_all add: stored_form_def)

lemma stored_event_fields [simp]:
  "e_id (stored_event rt e) = e_id e" "e_org_id (stored_event rt e) = e_org_id e" "e_user_id (stored_event rt e) = e_user_id e"
  "e_fact_id (stored_event rt e) = e_fact_id e" "e_operation (stored_event rt e) = e_operation e"
  "e_previous_content (stored_event rt e) = e_previous_content e" "e_new_content (stored_event rt e) = e_new_content e"
  "e_provider_name (stored_event rt e) = e_provider_name e" "e_model_name (stored_event rt e) = e_model_name e"
  "e_created_at (stored_event rt e) = e_created_at e"
  by (simp_all add: stored_event_def)

text \<open>It is the one that was written, but for floats of its metadata.\<close>

definition same_but_floats :: "fact \<Rightarrow> fact \<Rightarrow> bool" where
  "same_but_floats f g \<longleftrightarrow>
     g\<lparr>f_metadata := JNull\<rparr> = f\<lparr>f_metadata := JNull\<rparr> \<and> erase_floats (f_metadata g) = erase_floats (f_metadata f) \<and>
     (float_free (f_metadata f) \<longrightarrow> g = f)"

definition same_event_but_floats :: "memory_event \<Rightarrow> memory_event \<Rightarrow> bool" where
  "same_event_but_floats e g \<longleftrightarrow>
     g\<lparr>e_metadata := JNull\<rparr> = e\<lparr>e_metadata := JNull\<rparr> \<and> erase_floats (e_metadata g) = erase_floats (e_metadata e) \<and>
     (float_free (e_metadata e) \<longrightarrow> g = e)"

lemma stored_form_same: "texts_inverse rt \<Longrightarrow> readable rt (f_metadata f) \<Longrightarrow> same_but_floats f (stored_form rt f)"
  by (simp add: same_but_floats_def stored_form_def reread_same)

lemma stored_event_same:
  "texts_inverse rt \<Longrightarrow> readable rt (e_metadata e) \<Longrightarrow> same_event_but_floats e (stored_event rt e)"
  by (simp add: same_event_but_floats_def stored_event_def reread_same)

lemma fact_row_roundtrip:
  assumes "texts_inverse rt" "f32_value (f_confidence f)" "f32_value (f_importance f)" "fact_times f"
    "readable rt (f_metadata f)" "fact_to_row rt f = Inr r"
  shows "row_to_fact rt r = Inr (stored_form rt f)"
proof -
  obtain m where m: "metadata_to_str rt (f_metadata f) = Inr m"
    using assms(6) by (auto simp: fact_to_row_def and_then_def split: sum.splits)
  then show ?thesis
    using assms metadata_row [OF assms(5) m]
    by (auto simp: fact_to_row_def row_to_fact_def and_then_def datetime_from_str_def map_err_to_def texts_inverse_def
        fact_times_def stored_form_def)
qed

lemma event_row_roundtrip:
  assumes "texts_inverse rt" "text_time (e_created_at e)" "readable rt (e_metadata e)" "event_to_row rt e = Inr r"
  shows "row_to_memory_event rt r = Inr (stored_event rt e)"
proof -
  obtain m where m: "metadata_to_str rt (e_metadata e) = Inr m"
    using assms(4) by (auto simp: event_to_row_def and_then_def split: sum.splits)
  then show ?thesis
    using assms metadata_row [OF assms(3) m]
    by (auto simp: event_to_row_def row_to_memory_event_def and_then_def datetime_from_str_def map_err_to_def texts_inverse_def
        stored_event_def)
qed

section \<open>A concrete choice of the texts\<close>

text \<open>Times as hexadecimal numbers of a fixed width; of the JSON values \<open>null\<close> has a text, and floats have, all of
  which are read back as the same float.\<close>

definition hex_step :: "nat \<Rightarrow> char \<Rightarrow> nat" where
  "hex_step n c = 16 * n + (if of_char c < (58 :: nat) then of_char c - 48 else of_char c - 87)"

definition hex_value :: "string \<Rightarrow> nat" where
  "hex_value s = foldl hex_step 0 s"

definition sample_texts :: row_texts where
  "sample_texts =
     \<lparr>rt_parse_uuid = (\<lambda>s. Inr (word_of_nat (hex_value (filter (\<lambda>c. c \<noteq> CHR ''-'') s)))),
      rt_datetime_text = (\<lambda>d. hex_digits 18 (nat (d + 62167219200 * 10 ^ 9))),
      rt_parse_datetime = (\<lambda>s. Inr (int (hex_value s) - 62167219200 * 10 ^ 9)),
      rt_json_text = (\<lambda>v. case v of JNull \<Rightarrow> Inr ''null'' | JFloat r \<Rightarrow> Inr ''0.5'' | _ \<Rightarrow> Inl ''unsupported''),
      rt_parse_json = (\<lambda>s. Inr (if s = ''null'' then JNull else JFloat (1 / 2)))\<rparr>"

lemma hex_step_digit: "d < 16 \<Longrightarrow> hex_step a (hex_digit d) = 16 * a + d"
  by (auto simp: hex_step_def hex_digit_def)

lemma foldl_hex_digits: "n < 16 ^ k \<Longrightarrow> foldl hex_step a (hex_digits k n) = a * 16 ^ k + n"
proof (induction k arbitrary: a n)
  case (Suc k)
  have d: "n div 16 ^ k < 16" using Suc.prems by (simp add: less_mult_imp_div_less mult.commute)
  have "foldl hex_step a (hex_digits (Suc k) n) = (16 * a + n div 16 ^ k) * 16 ^ k + n mod 16 ^ k"
    using Suc.IH [of "n mod 16 ^ k" "16 * a + n div 16 ^ k"] d by (simp add: hex_step_digit)
  also have "\<dots> = a * 16 ^ Suc k + (n div 16 ^ k * 16 ^ k + n mod 16 ^ k)" by (simp add: algebra_simps)
  finally show ?case by (simp only: div_mult_mod_eq)
qed simp

lemma hex_value_digits: "n < 16 ^ k \<Longrightarrow> hex_value (hex_digits k n) = n"
  by (simp add: hex_value_def foldl_hex_digits)

lemma hex_digits_no_hyphen: "filter (\<lambda>c. c \<noteq> CHR ''-'') (hex_digits k n) = hex_digits k n"
proof (induction k arbitrary: n)
  case (Suc k)
  have "hex_digit (n div 16 ^ k mod 16) \<noteq> CHR ''-''"
    by (auto simp: hex_digit_def dest: arg_cong [of _ _ "of_char :: char \<Rightarrow> nat"])
  with Suc show ?case by simp
qed simp

lemma foldl_hex_groups:
  "n < 16 ^ sum_list js \<Longrightarrow> foldl hex_step a (filter (\<lambda>c. c \<noteq> CHR ''-'') (hex_groups js n)) = a * 16 ^ sum_list js + n"
proof (induction js n arbitrary: a rule: hex_groups.induct)
  case (3 j i js n)
  define k where "k = i + sum_list js"
  have "n div 16 ^ k < 16 ^ j" using "3.prems" by (simp add: k_def less_mult_imp_div_less power_add)
  moreover have "foldl hex_step b (filter (\<lambda>c. c \<noteq> CHR ''-'') (hex_groups (i # js) (n mod 16 ^ k))) = b * 16 ^ k + n mod 16 ^ k" for b
    using "3.IH" [of b] by (simp add: k_def)
  ultimately have "foldl hex_step a (filter (\<lambda>c. c \<noteq> CHR ''-'') (hex_groups (j # i # js) n))
      = (a * 16 ^ j + n div 16 ^ k) * 16 ^ k + n mod 16 ^ k"
    by (simp add: hex_digits_no_hyphen foldl_hex_digits flip: k_def)
  also have "\<dots> = a * 16 ^ (j + k) + (n div 16 ^ k * 16 ^ k + n mod 16 ^ k)" by (simp add: algebra_simps power_add)
  finally show ?case by (simp only: div_mult_mod_eq) (simp add: k_def)
qed (simp_all add: hex_digits_no_hyphen foldl_hex_digits)

lemma text_time_width: "text_time d \<Longrightarrow> nat (d + 62167219200 * 10 ^ 9) < 16 ^ 18"
  by (auto simp: text_time_def nat_less_iff)

lemma parse_hex_uuid: "hex_value (filter (\<lambda>c. c \<noteq> CHR ''-'') (uuid_to_string u)) = unat u"
proof -
  have "unat u < 16 ^ sum_list [8, 4, 4, 4, 12]" using unsigned_less [of u] by simp
  from foldl_hex_groups [OF this, of 0] show ?thesis by (simp only: hex_value_def uuid_to_string_def mult_0 add_0)
qed

lemma parse_hex_time:
  "text_time d \<Longrightarrow> int (hex_value (hex_digits 18 (nat (d + 62167219200 * 10 ^ 9)))) - 62167219200 * 10 ^ 9 = d"
  unfolding hex_value_digits [OF text_time_width] by (auto simp: text_time_def)

lemma sample_texts_inverse: "texts_inverse sample_texts"
  unfolding texts_inverse_def sample_texts_def row_texts.simps
proof (intro conjI allI impI)
  show "Inr (word_of_nat (hex_value (filter (\<lambda>c. c \<noteq> CHR ''-'') (uuid_to_string u)))) = Inr u" for u :: uuid
    unfolding parse_hex_uuid by simp
qed (simp_all only: parse_hex_time, auto split: json.splits)

lemma sample_texts_ordered: "texts_ordered sample_texts"
proof -
  have "hex_digits 18 (nat (d + 62167219200 * 10 ^ 9)) < hex_digits 18 (nat (d' + 62167219200 * 10 ^ 9)) \<longleftrightarrow> d < d'"
    if "text_time d" "text_time d'" for d d'
    unfolding hex_digits_less [OF text_time_width [OF that(1)] text_time_width [OF that(2)]]
    using that by (auto simp: text_time_def)
  then show ?thesis unfolding texts_ordered_def sample_texts_def row_texts.simps by blast
qed

end
