(* ===== verification/Sql_Table.thy ===== *)
theory Sql_Table
  imports Sql_Rows Fact_Store Context
begin

text \<open>
  What the SQLite stores use of SQL: a table is the list of its rows in the order in which they were
  inserted, a statement is a function on it, and \<open>sql_run\<close> is \<open>sqlx\<close> sending one. The database may
  fail any statement for reasons of its own (\<open>tb_faults\<close>, one entry per statement to come); what it
  says of a violated constraint is \<open>tb_violation\<close>. Also the operator \<open>LIKE\<close> with the keyword filter of
  \<^verbatim>\<open>crates/memcore-storage/src/keyword_search/sqlite.rs\<close>, and the cursor filter of \<^verbatim>\<open>pagination/sqlite.rs\<close>.
\<close>

section \<open>Statements\<close>

record 'r sql_table =
  tb_rows :: "'r list"
  tb_faults :: "string option list"
  tb_violation :: "string \<Rightarrow> string"

text \<open>A statement refuses with the column of a violated constraint, or answers.\<close>

type_synonym ('r, 'a) sql_statement = "'r list \<Rightarrow> (string + 'a) \<times> 'r list"

definition sql_error :: "string \<Rightarrow> string \<Rightarrow> memcore_error" where
  "sql_error context error = StorageError (context @ '': '' @ error)"

definition sql_run :: "string \<Rightarrow> ('r, 'a) sql_statement \<Rightarrow> ('r sql_table, memcore_error, 'a) comp" where
  "sql_run context stmt t =
     (let t' = t\<lparr>tb_faults := tl (tb_faults t)\<rparr>;
          run = (case stmt (tb_rows t) of
              (Inl column, _) \<Rightarrow> (Inl (sql_error context (tb_violation t column)), t')
            | (Inr a, rows) \<Rightarrow> (Inr a, t'\<lparr>tb_rows := rows\<rparr>))
      in case tb_faults t of
           [] \<Rightarrow> run
         | None # _ \<Rightarrow> run
         | Some e # _ \<Rightarrow> (Inl (sql_error context e), t'))"

definition sql_select :: "('r \<Rightarrow> bool) \<Rightarrow> ('r, 'r list) sql_statement" where
  "sql_select p rows = (Inr (filter p rows), rows)"

definition sql_select_page :: "('r \<Rightarrow> bool) \<Rightarrow> ('r \<Rightarrow> 'r \<Rightarrow> bool) \<Rightarrow> nat \<Rightarrow> ('r, 'r list) sql_statement" where
  "sql_select_page p le limit rows = (Inr (take limit (sort_by le (filter p rows))), rows)"

definition sql_count :: "('r \<Rightarrow> bool) \<Rightarrow> ('r, nat) sql_statement" where
  "sql_count p rows = (Inr (length (filter p rows)), rows)"

definition sql_insert :: "('r list \<Rightarrow> string option) \<Rightarrow> 'r \<Rightarrow> ('r, unit) sql_statement" where
  "sql_insert violated r rows =
     (case violated rows of Some column \<Rightarrow> (Inl column, rows) | None \<Rightarrow> (Inr (), rows @ [r]))"

text \<open>The number of rows is \<open>rows_affected\<close>. Constraints on the new values bind only when a row is updated.\<close>

definition sql_update :: "string option \<Rightarrow> ('r \<Rightarrow> bool) \<Rightarrow> ('r \<Rightarrow> 'r) \<Rightarrow> ('r, nat) sql_statement" where
  "sql_update violated p f rows =
     (case (violated, filter p rows) of
        (Some column, _ # _) \<Rightarrow> (Inl column, rows)
      | (_, affected) \<Rightarrow> (Inr (length affected), map (\<lambda>r. if p r then f r else r) rows))"

definition sql_delete :: "('r \<Rightarrow> bool) \<Rightarrow> ('r, nat) sql_statement" where
  "sql_delete p rows = (Inr (length (filter p rows)), filter (\<lambda>r. \<not> p r) rows)"

lemmas sql_statements = sql_select_def sql_select_page_def sql_count_def sql_insert_def sql_delete_def

text \<open>\<open>rows.iter().map(parse).collect()\<close>\<close>

fun read_rows :: "('r \<Rightarrow> 'a memcore_result) \<Rightarrow> 'r list \<Rightarrow> 'a list memcore_result" where
  "read_rows parse [] = Inr []"
| "read_rows parse (r # rs) = and_then (parse r) (\<lambda>a. and_then (read_rows parse rs) (\<lambda>as. Inr (a # as)))"

text \<open>\<open>i64::try_from\<close> of the number of rows to fetch.\<close>

definition sql_limit :: "string \<Rightarrow> nat \<Rightarrow> nat memcore_result" where
  "sql_limit context limit =
     (let n = page_fetch_limit limit in
      if n < 2 ^ 63 then Inr n
      else Inl (sql_error context ''out of range integral type conversion attempted''))"

lemma tb_rows_same [simp]: "t\<lparr>tb_rows := tb_rows t\<rparr> = (t :: 'r sql_table)"
  by (cases t) simp

lemma sql_run_ok:
  "tb_faults t = [] \<Longrightarrow> stmt (tb_rows t) = (Inr a, rows) \<Longrightarrow> sql_run context stmt t = (Inr a, t\<lparr>tb_rows := rows\<rparr>)"
  by (cases t) (simp add: sql_run_def)

lemma sql_run_violation:
  "tb_faults t = [] \<Longrightarrow> stmt (tb_rows t) = (Inl column, rows) \<Longrightarrow>
     sql_run context stmt t = (Inl (sql_error context (tb_violation t column)), t)"
  by (cases t) (simp add: sql_run_def)

text \<open>A statement that is refused, or fails, changes no row.\<close>

lemma sql_run_error: "sql_run context stmt t = (Inl e, t') \<Longrightarrow> tb_rows t' = tb_rows t"
  by (auto simp: sql_run_def Let_def split: list.splits option.splits prod.splits sum.splits)

lemma sql_update_None [simp]:
  "sql_update None p f rows = (Inr (length (filter p rows)), map (\<lambda>r. if p r then f r else r) rows)"
  by (simp add: sql_update_def)

text \<open>A database without faults answers.\<close>

lemma sql_run_select [simp]: "tb_faults t = [] \<Longrightarrow> sql_run c (sql_select p) t = (Inr (filter p (tb_rows t)), t)"
  by (simp add: sql_run_ok sql_select_def)

lemma sql_run_select_page [simp]:
  "tb_faults t = [] \<Longrightarrow> sql_run c (sql_select_page p le n) t = (Inr (take n (sort_by le (filter p (tb_rows t)))), t)"
  by (simp add: sql_run_ok sql_select_page_def)

lemma sql_run_count [simp]: "tb_faults t = [] \<Longrightarrow> sql_run c (sql_count p) t = (Inr (length (filter p (tb_rows t))), t)"
  by (simp add: sql_run_ok sql_count_def)

lemma sql_run_query [simp]: "tb_faults t = [] \<Longrightarrow> sql_run c (\<lambda>rows. (Inr (f rows), rows)) t = (Inr (f (tb_rows t)), t)"
  by (simp add: sql_run_ok)

lemma sql_run_insert [simp]:
  "tb_faults t = [] \<Longrightarrow> violated (tb_rows t) = None \<Longrightarrow>
     sql_run c (sql_insert violated r) t = (Inr (), t\<lparr>tb_rows := tb_rows t @ [r]\<rparr>)"
  by (simp add: sql_run_ok sql_insert_def)

lemma sql_run_insert_refused [simp]:
  "tb_faults t = [] \<Longrightarrow> violated (tb_rows t) = Some column \<Longrightarrow>
     sql_run c (sql_insert violated r) t = (Inl (sql_error c (tb_violation t column)), t)"
  by (simp add: sql_run_violation sql_insert_def)

lemma sql_run_update [simp]:
  "tb_faults t = [] \<Longrightarrow> sql_run c (sql_update None p f) t =
     (Inr (length (filter p (tb_rows t))), t\<lparr>tb_rows := map (\<lambda>r. if p r then f r else r) (tb_rows t)\<rparr>)"
  by (simp add: sql_run_ok)

lemma sql_run_delete [simp]:
  "tb_faults t = [] \<Longrightarrow> sql_run c (sql_delete p) t =
     (Inr (length (filter p (tb_rows t))), t\<lparr>tb_rows := filter (\<lambda>r. \<not> p r) (tb_rows t)\<rparr>)"
  by (simp add: sql_run_ok sql_delete_def)

lemma read_rows_map: "(\<And>r. r \<in> set rows \<Longrightarrow> parse r = Inr (g r)) \<Longrightarrow> read_rows parse rows = Inr (map g rows)"
  by (induction rows) auto

lemma sql_limit_small [simp]: "limit < 2 ^ 63 - 1 \<Longrightarrow> sql_limit context limit = Inr (page_fetch_limit limit)"
  by (simp add: sql_limit_def page_fetch_limit_def usize_saturating_add_def usize_max_def)

section \<open>Failures of the database\<close>

text \<open>An operation that changes rows with its last statement only leaves them as they were when it ends with an error,
  whatever the database fails or refuses.\<close>

definition rows_kept_on_error :: "('r sql_table, memcore_error, 'a) comp \<Rightarrow> bool" where
  "rows_kept_on_error m \<longleftrightarrow> (\<forall>tb e tb'. m tb = (Inl e, tb') \<longrightarrow> tb_rows tb' = tb_rows tb)"

definition only_reads :: "('r sql_table, 'e, 'a) comp \<Rightarrow> bool" where
  "only_reads m \<longleftrightarrow> (\<forall>tb. tb_rows (snd (m tb)) = tb_rows tb)"

lemma run_reads:
  fixes stmt :: "('r, 'a) sql_statement"
  assumes "\<And>rows. snd (stmt rows) = rows"
  shows "only_reads (sql_run c stmt)"
  unfolding only_reads_def
proof
  fix tb :: "'r sql_table"
  from assms obtain a where "stmt (tb_rows tb) = (a, tb_rows tb)" by (metis prod.collapse)
  then show "tb_rows (snd (sql_run c stmt tb)) = tb_rows tb"
    by (simp add: sql_run_def Let_def split: list.split option.split sum.split)
qed

lemma lift_reads: "only_reads (liftR r)"
  by (simp add: only_reads_def)

lemma kept_reads: "only_reads m \<Longrightarrow> rows_kept_on_error m"
  unfolding only_reads_def rows_kept_on_error_def by (metis snd_conv)

lemma kept_throw: "rows_kept_on_error (throw e)"
  by (simp add: rows_kept_on_error_def)

lemma kept_run: "rows_kept_on_error (sql_run c stmt)"
  by (simp add: rows_kept_on_error_def sql_run_error)

lemma kept_bind:
  fixes m :: "('r sql_table, memcore_error, 'a) comp"
  assumes "only_reads m" "\<And>a. rows_kept_on_error (f a)"
  shows "rows_kept_on_error (bindC m f)"
  unfolding rows_kept_on_error_def
proof (intro allI impI)
  fix tb :: "'r sql_table" and e tb'
  assume "bindC m f tb = (Inl e, tb')"
  moreover have "tb_rows (snd (m tb)) = tb_rows tb" using assms(1) by (simp add: only_reads_def)
  ultimately show "tb_rows tb' = tb_rows tb"
    using assms(2) by (auto simp: bindC_eq_Inl rows_kept_on_error_def)
qed

lemma kept_seq: "only_reads m \<Longrightarrow> rows_kept_on_error n \<Longrightarrow> rows_kept_on_error (seqC m n)"
  unfolding seqC_def by (rule kept_bind)

lemma kept_bind_ret: "rows_kept_on_error m \<Longrightarrow> rows_kept_on_error (bindC m (\<lambda>a. ret (f a)))"
  by (auto simp: rows_kept_on_error_def bindC_eq_Inl)

lemma kept_seq_ret: "rows_kept_on_error m \<Longrightarrow> rows_kept_on_error (seqC m (ret a))"
  unfolding seqC_def by (rule kept_bind_ret)

lemma kept_if: "rows_kept_on_error m \<Longrightarrow> rows_kept_on_error n \<Longrightarrow> rows_kept_on_error (if b then m else n)"
  by simp

lemma kept_ret: "rows_kept_on_error (ret a)"
  by (simp add: rows_kept_on_error_def)

text \<open>An update that affects no row changes none, so that it can be answered with an error.\<close>

lemma kept_update:
  fixes f :: "'r \<Rightarrow> 'r"
  shows "rows_kept_on_error (bindC (sql_run c (sql_update v p f)) (\<lambda>n. if n = 0 then throw e else ret a))"
  unfolding rows_kept_on_error_def
proof (intro allI impI)
  fix tb :: "'r sql_table" and e' tb'
  assume "bindC (sql_run c (sql_update v p f)) (\<lambda>n. if n = 0 then throw e else ret a) tb = (Inl e', tb')"
  then consider "sql_run c (sql_update v p f) tb = (Inl e', tb')" | "sql_run c (sql_update v p f) tb = (Inr 0, tb')"
    by (auto simp: bindC_eq_Inl split: if_splits)
  then show "tb_rows tb' = tb_rows tb"
  proof cases
    case 2
    obtain r rows where r: "sql_update v p f (tb_rows tb) = (r, rows)" by fastforce
    with 2 have "r = Inr 0" "tb_rows tb' = rows"
      by (auto simp: sql_run_def Let_def split: list.splits option.splits sum.splits)
    moreover from r this(1) have "filter p (tb_rows tb) = []" "rows = map (\<lambda>r. if p r then f r else r) (tb_rows tb)"
      by (auto simp: sql_update_def split: list.splits option.splits)
    ultimately show ?thesis by (simp add: filter_empty_conv map_idI)
  qed (rule sql_run_error)
qed

lemma read_statements: "snd (sql_count p rows) = rows" "snd (sql_select p rows) = rows"
  by (simp_all add: sql_count_def sql_select_def)

lemmas rows_kept = kept_update kept_seq_ret kept_bind_ret kept_run kept_throw kept_ret kept_if kept_seq kept_bind
  lift_reads run_reads read_statements

section \<open>Sorting and filtering through a correspondence\<close>

lemma insert_by_map:
  assumes "\<And>y. y \<in> set ys \<Longrightarrow> le x y = le' (g x) (g y)"
  shows "map g (insert_by le x ys) = insert_by le' (g x) (map g ys)"
  using assms by (induction ys) auto

lemma sort_by_map:
  assumes "\<And>x y. x \<in> set xs \<Longrightarrow> y \<in> set xs \<Longrightarrow> le x y = le' (g x) (g y)"
  shows "map g (sort_by le xs) = sort_by le' (map g xs)"
  using assms
proof (induction xs)
  case (Cons x xs)
  have "map g (insert_by le x (sort_by le xs)) = insert_by le' (g x) (map g (sort_by le xs))"
    by (rule insert_by_map) (simp add: Cons.prems)
  with Cons show ?case by simp
qed simp

lemma filter_map_cong:
  assumes "\<And>x. x \<in> set xs \<Longrightarrow> p x = q (g x)"
  shows "map g (filter p xs) = filter q (map g xs)"
  using assms by (induction xs) auto

section \<open>\<open>LIKE\<close>\<close>

text \<open>\<open>%\<close> is any text and \<open>_\<close> one character of one or more bytes; letters of ASCII are compared without case.\<close>

function sql_like :: "string \<Rightarrow> string \<Rightarrow> bool" where
  "sql_like [] t \<longleftrightarrow> t = []"
| "sql_like (p # ps) t \<longleftrightarrow>
     (if p = CHR ''%'' then sql_like ps t \<or> (case t of [] \<Rightarrow> False | c # cs \<Rightarrow> sql_like (p # ps) cs)
      else case t of
        [] \<Rightarrow> False
      | c # cs \<Rightarrow>
          if p = CHR ''_'' then sql_like ps (dropWhile is_continuation cs)
          else ascii_lower c = ascii_lower p \<and> sql_like ps cs)"
  by pat_completeness auto
termination
  by (relation "measure (\<lambda>(p, t). length p + length t)") (auto intro: le_less_trans [OF length_dropWhile_le])

definition sqlite_like_pattern :: "string \<Rightarrow> string" where
  "sqlite_like_pattern query = ''%'' @ to_ascii_lowercase query @ ''%''"

text \<open>\<open>LOWER(column) LIKE ?\<close> and \<open>LOWER(COALESCE(column, '')) LIKE ?\<close>\<close>

definition keyword_like :: "string \<Rightarrow> string \<Rightarrow> bool" where
  "keyword_like query column \<longleftrightarrow> sql_like (sqlite_like_pattern query) (to_ascii_lowercase column)"

definition keyword_like_opt :: "string \<Rightarrow> string option \<Rightarrow> bool" where
  "keyword_like_opt query column \<longleftrightarrow> keyword_like query (case column of Some s \<Rightarrow> s | None \<Rightarrow> [])"

definition push_sqlite_fact_keyword_filter :: "string \<Rightarrow> fact_row \<Rightarrow> bool" where
  "push_sqlite_fact_keyword_filter query r \<longleftrightarrow> keyword_like query (fr_content r) \<or> keyword_like_opt query (fr_summary r)"

definition push_sqlite_event_keyword_filter :: "string \<Rightarrow> bool \<Rightarrow> event_row \<Rightarrow> bool" where
  "push_sqlite_event_keyword_filter query include_user_id r \<longleftrightarrow>
     keyword_like_opt query (vr_previous_content r) \<or> keyword_like_opt query (vr_new_content r) \<or>
     keyword_like_opt query (vr_provider_name r) \<or> keyword_like_opt query (vr_model_name r) \<or>
     (include_user_id \<and> keyword_like query (vr_user_id r))"

definition push_sqlite_desc_cursor :: "row_texts \<Rightarrow> string \<Rightarrow> string \<Rightarrow> page_cursor \<Rightarrow> bool" where
  "push_sqlite_desc_cursor rt sort_column id_column cursor \<longleftrightarrow>
     (let sort_value = rt_datetime_text rt (last_sort_value cursor) in
      sort_column < sort_value \<or> (sort_column = sort_value \<and> id_column < last_id cursor))"

lemma cursor_row:
  assumes "texts_inverse rt" "texts_ordered rt" "text_time d" "text_time (last_sort_value c)"
  shows "push_sqlite_desc_cursor rt (rt_datetime_text rt d) i c \<longleftrightarrow> is_after_cursor_in_desc_order d i c"
  by (simp add: push_sqlite_desc_cursor_def is_after_cursor_in_desc_order_def Let_def
      texts_less [OF assms(2-4)] texts_eq [OF assms(1,3,4)])

text \<open>A query without the two wildcards is found as it is; with one of them it also finds other texts.\<close>

definition wildcard_free :: "string \<Rightarrow> bool" where
  "wildcard_free query \<longleftrightarrow> CHR ''%'' \<notin> set query \<and> CHR ''_'' \<notin> set query"

lemma ascii_lower_other:
  assumes "(of_char d :: nat) < 65 \<or> (90 < (of_char d :: nat) \<and> (of_char d :: nat) < 97)"
  shows "ascii_lower c = d \<longleftrightarrow> c = d"
proof (cases "65 \<le> (of_char c :: nat) \<and> (of_char c :: nat) \<le> 90")
  case True
  then have "(of_char (ascii_lower c) :: nat) = of_char c + 32"
    by (simp add: ascii_lower_def)
  with True assms show ?thesis by auto
next
  case False
  then have "ascii_lower c = c" unfolding ascii_lower_def by (rule if_not_P)
  then show ?thesis by simp
qed

lemma ascii_lower_wildcard:
  "ascii_lower c = CHR ''%'' \<longleftrightarrow> c = CHR ''%''" "ascii_lower c = CHR ''_'' \<longleftrightarrow> c = CHR ''_''"
  by (rule ascii_lower_other; simp)+

lemma wildcard_free_lower [simp]: "wildcard_free (to_ascii_lowercase q) = wildcard_free q"
  unfolding wildcard_free_def to_ascii_lowercase_def set_map image_iff by (metis ascii_lower_wildcard)

lemma sql_like_anything [simp]: "sql_like ''%'' t"
  by (induction t) auto

lemma starts_with_Cons:
  "starts_with s [] = True"
  "starts_with [] (p # ps) = False"
  "starts_with (c # cs) (p # ps) \<longleftrightarrow> c = p \<and> starts_with cs ps"
  by (simp_all add: starts_with_def)

lemma sql_like_literal:
  "wildcard_free q \<Longrightarrow> sql_like (q @ ''%'') t \<longleftrightarrow> starts_with (to_ascii_lowercase t) (to_ascii_lowercase q)"
proof (induction q arbitrary: t)
  case Nil
  show ?case by (simp add: to_ascii_lowercase_def starts_with_Cons del: sql_like.simps)
next
  case (Cons p q)
  then show ?case
    by (cases t) (auto simp: to_ascii_lowercase_def starts_with_Cons wildcard_free_def)
qed

lemma sql_like_pattern:
  "wildcard_free q \<Longrightarrow> sql_like (''%'' @ q @ ''%'') t \<longleftrightarrow> contains (to_ascii_lowercase t) (to_ascii_lowercase q)"
proof (induction t)
  case Nil
  then have "sql_like (''%'' @ q @ ''%'') [] \<longleftrightarrow> sql_like (q @ ''%'') []" by simp
  with Nil show ?case by (simp add: sql_like_literal to_ascii_lowercase_def starts_with_def del: sql_like.simps)
next
  case (Cons c t)
  have "sql_like (''%'' @ q @ ''%'') (c # t) \<longleftrightarrow> sql_like (q @ ''%'') (c # t) \<or> sql_like (''%'' @ q @ ''%'') t"
    by simp
  with Cons show ?case by (simp add: sql_like_literal to_ascii_lowercase_def del: sql_like.simps)
qed

lemma keyword_like_contains: "wildcard_free q \<Longrightarrow> keyword_like q s \<longleftrightarrow> contains_case_insensitive s q"
  using sql_like_pattern [of "to_ascii_lowercase q"]
  by (simp add: keyword_like_def sqlite_like_pattern_def contains_case_insensitive_def del: sql_like.simps)

lemma keyword_like_wildcards: "keyword_like ''_%'' ''tea''" "\<not> contains_case_insensitive ''tea'' ''_%''"
  by (simp_all add: keyword_like_def sqlite_like_pattern_def contains_case_insensitive_def to_ascii_lowercase_def
      ascii_lower_def starts_with_def)

end
