(* ===== verification/Sql_Facts.thy ===== *)
theory Sql_Facts
  imports Sql_Table
begin

text \<open>
  \<^verbatim>\<open>crates/memcore-storage/src/sqlite/fact_store.rs\<close>: the \<open>FactStore\<close> port over the table \<open>facts\<close>. The
  statements are written out as conditions on rows. Read as a \<open>MockFactStore\<close> (\<open>fact_table_abs\<close>),
  the table changes as that store does, so that what is shown of it holds for an installation on SQLite too,
  but for the differences that the lemmas name.
\<close>

section \<open>The table\<close>

record stored_fact =
  sd_row :: fact_row
  sd_deleted_at :: "string option"

type_synonym fact_table = "stored_fact sql_table"
type_synonym 'a fact_sql = "(fact_table, memcore_error, 'a) comp"

definition tenant_row :: "tenant_context \<Rightarrow> stored_fact \<Rightarrow> bool" where
  "tenant_row t r \<longleftrightarrow> fr_org_id (sd_row r) = tc_org_id t \<and> fr_user_id (sd_row r) = tc_user_id t"

definition fact_row_of :: "tenant_context \<Rightarrow> uuid \<Rightarrow> stored_fact \<Rightarrow> bool" where
  "fact_row_of t i r \<longleftrightarrow> fr_id (sd_row r) = uuid_to_string i \<and> tenant_row t r"

definition not_deleted :: "stored_fact \<Rightarrow> bool" where
  "not_deleted r \<longleftrightarrow> sd_deleted_at r = None"

text \<open>The constraints of the table: two columns of numbers are \<open>NOT NULL\<close>, and SQLite stores NaN as \<open>NULL\<close>; the
  identifier is the primary key.\<close>

definition null_number :: "fact_row \<Rightarrow> string option" where
  "null_number r =
     (if fr_confidence r = NaN64 then Some ''facts.confidence''
      else if fr_importance r = NaN64 then Some ''facts.importance'' else None)"

definition fact_violation :: "fact_row \<Rightarrow> stored_fact list \<Rightarrow> string option" where
  "fact_violation row rows =
     (case null_number row of
        Some column \<Rightarrow> Some column
      | None \<Rightarrow> if \<exists>r \<in> set rows. fr_id (sd_row r) = fr_id row then Some ''facts.id'' else None)"

section \<open>Operations\<close>

definition sqlite_insert_fact :: "row_texts \<Rightarrow> tenant_context \<Rightarrow> fact \<Rightarrow> fact fact_sql" where
  "sqlite_insert_fact rt t f =
     seqC (liftR (ensure_fact_tenant f t))
     (bindC (sql_run ''failed to check existing fact'' (sql_count (fact_row_of t (f_id f)))) (\<lambda>found.
      if 0 < found then throw (Conflict (''fact already exists: '' @ uuid_to_string (f_id f)))
      else bindC (liftR (fact_to_row rt f)) (\<lambda>row.
        seqC (sql_run ''failed to insert fact''
          (sql_insert (fact_violation row) \<lparr>sd_row = row, sd_deleted_at = None\<rparr>))
        (ret f))))"

text \<open>The columns that \<open>UPDATE\<close> sets: all but the identifier, the tenant and \<open>deleted_at\<close>.\<close>

definition set_fact_columns :: "fact_row \<Rightarrow> stored_fact \<Rightarrow> stored_fact" where
  "set_fact_columns row r =
     r\<lparr>sd_row := row\<lparr>fr_id := fr_id (sd_row r), fr_org_id := fr_org_id (sd_row r), fr_user_id := fr_user_id (sd_row r)\<rparr>\<rparr>"

definition sqlite_update_fact :: "row_texts \<Rightarrow> tenant_context \<Rightarrow> fact \<Rightarrow> fact fact_sql" where
  "sqlite_update_fact rt t f =
     seqC (liftR (ensure_fact_tenant f t))
     (bindC (liftR (fact_to_row rt f)) (\<lambda>row.
      bindC (sql_run ''failed to update fact''
        (sql_update (null_number row) (\<lambda>r. fact_row_of t (f_id f) r \<and> not_deleted r) (set_fact_columns row))) (\<lambda>affected.
      if affected = 0 then throw (NotFound (''fact not found: '' @ uuid_to_string (f_id f)))
      else ret f)))"

definition fetch_fact_row :: "row_texts \<Rightarrow> tenant_context \<Rightarrow> uuid \<Rightarrow> bool \<Rightarrow> fact option fact_sql" where
  "fetch_fact_row rt t i include_deleted =
     bindC (sql_run ''failed to fetch fact''
       (sql_select (\<lambda>r. fact_row_of t i r \<and> (include_deleted \<or> not_deleted r)))) (\<lambda>rows.
     case rows of
       [] \<Rightarrow> ret None
     | r # _ \<Rightarrow> bindC (liftR (row_to_fact rt (sd_row r))) (\<lambda>f. ret (Some f)))"

definition sqlite_get_fact :: "row_texts \<Rightarrow> tenant_context \<Rightarrow> uuid \<Rightarrow> fact option fact_sql" where
  "sqlite_get_fact rt t i = fetch_fact_row rt t i False"

definition fact_where :: "row_texts \<Rightarrow> fact_search_query \<Rightarrow> stored_fact \<Rightarrow> bool" where
  "fact_where rt q r \<longleftrightarrow>
     tenant_row (q_tenant q) r \<and>
     (q_include_deleted q \<or> not_deleted r) \<and>
     is_none_or (q_memory_types q) (\<lambda>types. types = [] \<or> fr_memory_type (sd_row r) \<in> memory_type_to_str ` set types) \<and>
     is_none_or (q_query_text q) (\<lambda>text. push_sqlite_fact_keyword_filter text (sd_row r)) \<and>
     is_none_or (q_cursor q) (push_sqlite_desc_cursor rt (fr_updated_at (sd_row r)) (fr_id (sd_row r)))"

definition fact_row_desc_le :: "stored_fact \<Rightarrow> stored_fact \<Rightarrow> bool" where
  "fact_row_desc_le = lex_le (\<lambda>a b. fr_updated_at (sd_row b) \<le> fr_updated_at (sd_row a))
     (\<lambda>a b. fr_id (sd_row b) \<le> fr_id (sd_row a))"

definition sqlite_search_facts :: "row_texts \<Rightarrow> fact_search_query \<Rightarrow> fact list fact_sql" where
  "sqlite_search_facts rt q =
     bindC (liftR (sql_limit ''fact search limit out of range for sqlite'' (q_limit q))) (\<lambda>limit.
     bindC (sql_run ''failed to search facts'' (sql_select_page (fact_where rt q) fact_row_desc_le limit)) (\<lambda>rows.
     liftR (read_rows (\<lambda>r. row_to_fact rt (sd_row r)) rows)))"

definition set_deleted_at :: "string \<Rightarrow> stored_fact \<Rightarrow> stored_fact" where
  "set_deleted_at deleted_at r = r\<lparr>sd_deleted_at := Some deleted_at\<rparr>"

definition sqlite_soft_delete_fact :: "row_texts \<Rightarrow> datetime \<Rightarrow> tenant_context \<Rightarrow> uuid \<Rightarrow> unit fact_sql" where
  "sqlite_soft_delete_fact rt now t i =
     bindC (sql_run ''failed to soft delete fact''
       (sql_update None (\<lambda>r. fact_row_of t i r \<and> not_deleted r) (set_deleted_at (rt_datetime_text rt now)))) (\<lambda>affected.
     if affected = 0 then throw (NotFound (''fact not found: '' @ uuid_to_string i)) else ret ())"

definition sqlite_delete_user_data :: "tenant_context \<Rightarrow> unit fact_sql" where
  "sqlite_delete_user_data t =
     seqC (sql_run ''failed to delete user data'' (sql_delete (tenant_row t))) (ret ())"

text \<open>Without \<open>ORDER BY\<close> the rows come in the order of the table.\<close>

definition stale_row :: "tenant_context \<Rightarrow> string \<Rightarrow> stored_fact \<Rightarrow> bool" where
  "stale_row t cutoff r \<longleftrightarrow> tenant_row t r \<and> not_deleted r \<and> fr_updated_at (sd_row r) < cutoff"

definition sqlite_delete_facts_older_than ::
  "row_texts \<Rightarrow> datetime \<Rightarrow> tenant_context \<Rightarrow> datetime \<Rightarrow> bool \<Rightarrow> retention_prune_result fact_sql" where
  "sqlite_delete_facts_older_than rt now t cutoff dry_run =
     (let cutoff_str = rt_datetime_text rt cutoff in
      bindC (sql_run ''failed to list facts for retention'' (sql_select (stale_row t cutoff_str))) (\<lambda>rows.
      bindC (liftR (read_rows (\<lambda>r. map_err_to (sql_error ''invalid fact id'') (rt_parse_uuid rt (fr_id (sd_row r)))) rows)) (\<lambda>fact_ids.
      if dry_run then ret \<lparr>prune_count = length fact_ids, prune_fact_ids = []\<rparr>
      else if fact_ids = [] then ret \<lparr>prune_count = 0, prune_fact_ids = []\<rparr>
      else bindC (sql_run ''failed to soft delete facts for retention''
          (sql_update None (stale_row t cutoff_str) (set_deleted_at (rt_datetime_text rt now)))) (\<lambda>affected.
        ret \<lparr>prune_count = affected, prune_fact_ids = fact_ids\<rparr>))))"

definition sqlite_count_facts_by_org :: "string \<Rightarrow> nat fact_sql" where
  "sqlite_count_facts_by_org org =
     sql_run ''failed to count facts by org'' (sql_count (\<lambda>r. fr_org_id (sd_row r) = org \<and> not_deleted r))"

definition sqlite_count_facts_by_user :: "tenant_context \<Rightarrow> nat fact_sql" where
  "sqlite_count_facts_by_user t =
     sql_run ''failed to count facts by user'' (sql_count (\<lambda>r. tenant_row t r \<and> not_deleted r))"

definition sqlite_count_users_by_org :: "string \<Rightarrow> nat fact_sql" where
  "sqlite_count_users_by_org org =
     bindC (sql_run ''failed to count users by org'' (sql_select (\<lambda>r. fr_org_id (sd_row r) = org \<and> not_deleted r))) (\<lambda>rows.
     ret (card (set (map (\<lambda>r. fr_user_id (sd_row r)) rows))))"

text \<open>\<open>GROUP BY user_id\<close> with the number of rows and the greatest \<open>updated_at\<close> of each group.\<close>

record user_group =
  ug_user_id :: string
  ug_memory_count :: nat
  ug_last_memory_at :: string

definition user_groups :: "stored_fact list \<Rightarrow> user_group list" where
  "user_groups rows =
     map (\<lambda>u. let mine = filter (\<lambda>r. fr_user_id (sd_row r) = u) rows in
         \<lparr>ug_user_id = u, ug_memory_count = length mine,
          ug_last_memory_at = Max (set (map (\<lambda>r. fr_updated_at (sd_row r)) mine))\<rparr>)
       (remdups (map (\<lambda>r. fr_user_id (sd_row r)) rows))"

definition user_group_desc_le :: "user_group \<Rightarrow> user_group \<Rightarrow> bool" where
  "user_group_desc_le = lex_le (\<lambda>a b. ug_last_memory_at b \<le> ug_last_memory_at a) (\<lambda>a b. ug_user_id b \<le> ug_user_id a)"

definition user_groups_page :: "row_texts \<Rightarrow> org_user_list_query \<Rightarrow> nat \<Rightarrow> stored_fact list \<Rightarrow> user_group list" where
  "user_groups_page rt q limit rows =
     take limit (sort_by user_group_desc_le
       (filter (\<lambda>g. is_none_or (ou_cursor q) (push_sqlite_desc_cursor rt (ug_last_memory_at g) (ug_user_id g)))
         (user_groups (filter (\<lambda>r. fr_org_id (sd_row r) = ou_org_id q \<and> not_deleted r) rows))))"

definition org_user_of :: "row_texts \<Rightarrow> user_group \<Rightarrow> org_user_summary memcore_result" where
  "org_user_of rt g =
     and_then (case datetime_from_str rt (ug_last_memory_at g) of
         Inl e \<Rightarrow> Inl (sql_error ''invalid last_memory_at'' (error_message e))
       | Inr d \<Rightarrow> Inr d) (\<lambda>d.
     Inr \<lparr>u_user_id = ug_user_id g, u_memory_count = ug_memory_count g, u_last_memory_at = Some d\<rparr>)"

definition sqlite_list_users_by_org :: "row_texts \<Rightarrow> org_user_list_query \<Rightarrow> org_user_summary list fact_sql" where
  "sqlite_list_users_by_org rt q =
     bindC (liftR (sql_limit ''org users list limit out of range for sqlite'' (ou_limit q))) (\<lambda>limit.
     bindC (sql_run ''failed to list users by org'' (\<lambda>rows. (Inr (user_groups_page rt q limit rows), rows))) (\<lambda>groups.
     liftR (read_rows (org_user_of rt) groups)))"

section \<open>The table as a store in memory\<close>

definition storable :: "row_texts \<Rightarrow> fact \<Rightarrow> bool" where
  "storable rt f \<longleftrightarrow>
     f32_value (f_confidence f) \<and> f32_value (f_importance f) \<and> f_confidence f \<noteq> NaN \<and> f_importance f \<noteq> NaN \<and>
     fact_times f \<and> readable rt (f_metadata f)"

definition fact_table_ok :: "row_texts \<Rightarrow> fact_table \<Rightarrow> bool" where
  "fact_table_ok rt tb \<longleftrightarrow>
     tb_faults tb = [] \<and> distinct (map (\<lambda>r. fr_id (sd_row r)) (tb_rows tb)) \<and>
     (\<forall>r \<in> set (tb_rows tb). \<exists>f. storable rt f \<and> fact_to_row rt f = Inr (sd_row r))"

definition row_fact :: "row_texts \<Rightarrow> stored_fact \<Rightarrow> fact" where
  "row_fact rt r = projr (row_to_fact rt (sd_row r))"

definition fact_table_abs :: "row_texts \<Rightarrow> fact_table \<Rightarrow> mock_fact_store" where
  "fact_table_abs rt tb =
     \<lparr>fs_facts = map (\<lambda>r. (f_id (row_fact rt r), row_fact rt r)) (tb_rows tb),
      fs_deleted = {f_id (row_fact rt r) | r. r \<in> set (tb_rows tb) \<and> \<not> not_deleted r}\<rparr>"

lemma fact_to_row_fields:
  assumes "fact_to_row rt f = Inr r"
  shows "fr_id r = uuid_to_string (f_id f)" "fr_org_id r = f_org_id f" "fr_user_id r = f_user_id f"
    "fr_memory_type r = memory_type_to_str (f_memory_type f)" "fr_content r = f_content f" "fr_summary r = f_summary f"
    "fr_updated_at r = rt_datetime_text rt (f_updated_at f)"
    "fr_confidence r = f64_from_f32 (f_confidence f)" "fr_importance r = f64_from_f32 (f_importance f)"
  using assms by (auto simp: fact_to_row_def result_simps)

lemma f64_from_f32_NaN [simp]: "f64_from_f32 x = NaN64 \<longleftrightarrow> x = NaN"
  by (cases x) simp_all

lemma storable_row:
  assumes "texts_inverse rt" "storable rt f" "fact_to_row rt f = Inr r"
  shows "row_to_fact rt r = Inr (stored_form rt f)" "null_number r = None"
  using assms fact_row_roundtrip [of rt f r] fact_to_row_fields [OF assms(3)]
  by (auto simp: storable_def null_number_def)

lemma row_fact_of:
  assumes "texts_inverse rt" "storable rt f" "fact_to_row rt f = Inr (sd_row r)"
  shows "row_fact rt r = stored_form rt f"
  using storable_row(1) [OF assms] by (simp add: row_fact_def)

text \<open>A row was written from some fact; what it reads as has the columns of that fact.\<close>

lemma fact_table_source:
  assumes "texts_inverse rt" "fact_table_ok rt tb" "r \<in> set (tb_rows tb)"
  obtains f where "storable rt f" "fact_to_row rt f = Inr (sd_row r)" "row_fact rt r = stored_form rt f"
  using assms row_fact_of by (auto simp: fact_table_ok_def)

lemma fact_table_row:
  assumes "texts_inverse rt" "fact_table_ok rt tb" "r \<in> set (tb_rows tb)"
  shows "row_to_fact rt (sd_row r) = Inr (row_fact rt r)"
  by (rule fact_table_source [OF assms]) (simp add: storable_row(1) [OF assms(1)])

lemma fact_table_fields:
  assumes "texts_inverse rt" "fact_table_ok rt tb" "r \<in> set (tb_rows tb)"
  shows "fr_id (sd_row r) = uuid_to_string (f_id (row_fact rt r))" "fr_org_id (sd_row r) = f_org_id (row_fact rt r)"
    "fr_user_id (sd_row r) = f_user_id (row_fact rt r)"
    "fr_memory_type (sd_row r) = memory_type_to_str (f_memory_type (row_fact rt r))"
    "fr_content (sd_row r) = f_content (row_fact rt r)" "fr_summary (sd_row r) = f_summary (row_fact rt r)"
    "fr_updated_at (sd_row r) = rt_datetime_text rt (f_updated_at (row_fact rt r))"
    "text_time (f_updated_at (row_fact rt r))"
  by (rule fact_table_source [OF assms]; simp add: fact_to_row_fields storable_def fact_times_def)+

lemma fact_table_values: "hm_values (fs_facts (fact_table_abs rt tb)) = map (row_fact rt) (tb_rows tb)"
  by (simp add: hm_values_def fact_table_abs_def)

lemma same_row:
  assumes "texts_inverse rt" "fact_table_ok rt tb" "r \<in> set (tb_rows tb)" "r' \<in> set (tb_rows tb)"
    "f_id (row_fact rt r) = f_id (row_fact rt r')"
  shows "r = r'"
proof -
  have "inj_on (\<lambda>r. fr_id (sd_row r)) (set (tb_rows tb))"
    using assms(2) by (simp add: fact_table_ok_def distinct_map)
  then show ?thesis
    by (rule inj_onD) (simp_all add: assms fact_table_fields(1) [OF assms(1,2)])
qed

lemma deleted_row:
  assumes "texts_inverse rt" "fact_table_ok rt tb" "r \<in> set (tb_rows tb)"
  shows "f_id (row_fact rt r) \<in> fs_deleted (fact_table_abs rt tb) \<longleftrightarrow> \<not> not_deleted r"
  using assms same_row [OF assms(1,2)] by (auto simp: fact_table_abs_def)

lemma distinct_fact_ids:
  assumes "texts_inverse rt" "fact_table_ok rt tb"
  shows "distinct (map (\<lambda>r. f_id (row_fact rt r)) (tb_rows tb))"
proof -
  have "map (\<lambda>r. fr_id (sd_row r)) (tb_rows tb) = map uuid_to_string (map (\<lambda>r. f_id (row_fact rt r)) (tb_rows tb))"
    using fact_table_fields(1) [OF assms] by simp
  with assms(2) show ?thesis by (simp add: fact_table_ok_def distinct_map del: map_map)
qed

lemma fact_table_abs_wf:
  assumes "texts_inverse rt" "fact_table_ok rt tb"
  shows "fs_wf (fact_table_abs rt tb)"
  using distinct_fact_ids [OF assms]
  by (auto simp: fs_wf_def hm_wf_def fact_table_abs_def comp_def dom_map_of_conv_image_fst image_image dest!: map_of_SomeD)

lemma fact_table_lookup:
  assumes "texts_inverse rt" "fact_table_ok rt tb"
  shows "map_of (fs_facts (fact_table_abs rt tb)) i = Some f \<longleftrightarrow>
    (\<exists>r \<in> set (tb_rows tb). fr_id (sd_row r) = uuid_to_string i \<and> row_fact rt r = f)"
proof -
  have "hm_wf (fs_facts (fact_table_abs rt tb))"
    using fact_table_abs_wf [OF assms] by (simp add: fs_wf_def)
  then have "map_of (fs_facts (fact_table_abs rt tb)) i = Some f \<longleftrightarrow> (i, f) \<in> set (fs_facts (fact_table_abs rt tb))"
    by (simp add: in_hm_iff)
  then show ?thesis
    using fact_table_fields(1) [OF assms] by (auto simp: fact_table_abs_def)
qed

lemma tenant_row_iff:
  assumes "texts_inverse rt" "fact_table_ok rt tb" "r \<in> set (tb_rows tb)"
  shows "tenant_row t r \<longleftrightarrow> fact_matches_tenant (row_fact rt r) t"
  using fact_table_fields(2,3) [OF assms] by (simp add: tenant_row_def fact_matches_tenant_def)

lemma fact_row_of_iff:
  assumes "texts_inverse rt" "fact_table_ok rt tb" "r \<in> set (tb_rows tb)"
  shows "fact_row_of t i r \<longleftrightarrow> f_id (row_fact rt r) = i \<and> fact_matches_tenant (row_fact rt r) t"
  using fact_table_fields(1) [OF assms] tenant_row_iff [OF assms] by (simp add: fact_row_of_def)

text \<open>The two stores agree on a result when both succeed with the same value, or both fail.\<close>

fun agree :: "'a memcore_result \<Rightarrow> 'a memcore_result \<Rightarrow> bool" where
  "agree (Inr a) r = (r = Inr a)"
| "agree (Inl e) r = (\<exists>e'. r = Inl e')"

definition refines_mock :: "row_texts \<Rightarrow> fact_table \<Rightarrow> 'a fact_sql \<Rightarrow> 'a fact_op \<Rightarrow> bool" where
  "refines_mock rt tb sql mock \<longleftrightarrow>
     fact_table_ok rt (snd (sql tb)) \<and>
     fact_table_abs rt (snd (sql tb)) = snd (mock (fact_table_abs rt tb)) \<and>
     agree (fst (sql tb)) (fst (mock (fact_table_abs rt tb)))"

text \<open>A fact that is written is answered as it was given; the store in memory, which is given the fact as the table gives it
  back, answers with that.\<close>

definition written :: "row_texts \<Rightarrow> fact fact_sql \<Rightarrow> fact fact_sql" where
  "written rt sql tb = (map_sum id (stored_form rt) (fst (sql tb)), snd (sql tb))"

lemma table_values_filter:
  assumes "\<And>r. r \<in> set (tb_rows tb) \<Longrightarrow> p r \<longleftrightarrow> q (row_fact rt r)"
  shows "map (row_fact rt) (filter p (tb_rows tb)) = filter q (hm_values (fs_facts (fact_table_abs rt tb)))"
  unfolding fact_table_values by (rule filter_map_cong) (rule assms)

lemma table_count:
  assumes "\<And>r. r \<in> set (tb_rows tb) \<Longrightarrow> p r \<longleftrightarrow> q (row_fact rt r)"
  shows "length (filter p (tb_rows tb)) = length (filter q (hm_values (fs_facts (fact_table_abs rt tb))))"
proof -
  have "length (map (row_fact rt) (filter p (tb_rows tb))) = length (filter q (hm_values (fs_facts (fact_table_abs rt tb))))"
    by (rule arg_cong [where f = length], rule table_values_filter) (rule assms)
  then show ?thesis by simp
qed

section \<open>Reading\<close>

lemma get_refines:
  assumes "texts_inverse rt" "fact_table_ok rt tb"
  shows "sqlite_get_fact rt t i tb = (Inr (active_facts (fact_table_abs rt tb) t i), tb)"
proof -
  let ?p = "\<lambda>r. fact_row_of t i r \<and> (False \<or> not_deleted r)"
  have f: "tb_faults tb = []" using assms(2) by (simp add: fact_table_ok_def)
  have run: "sql_run c (sql_select ?p) tb = (Inr (filter ?p (tb_rows tb)), tb)" for c
    using f by simp
  show ?thesis
  proof (cases "filter ?p (tb_rows tb)")
    case Nil
    have "active_facts (fact_table_abs rt tb) t i = None"
    proof (rule ccontr)
      assume "active_facts (fact_table_abs rt tb) t i \<noteq> None"
      then obtain g where g: "active_facts (fact_table_abs rt tb) t i = Some g" by blast
      then obtain r where r: "r \<in> set (tb_rows tb)" "row_fact rt r = g" "fr_id (sd_row r) = uuid_to_string i"
        by (auto simp: active_facts_Some fact_table_lookup [OF assms])
      with g fact_table_fields(1) [OF assms r(1)] have "?p r"
        using deleted_row [OF assms r(1)] fact_row_of_iff [OF assms r(1)] by (auto simp: active_facts_Some)
      with r(1) Nil show False by (auto simp: filter_empty_conv)
    qed
    with run Nil show ?thesis by (simp add: sqlite_get_fact_def fetch_fact_row_def)
  next
    case (Cons r rs)
    then have "r \<in> set (filter ?p (tb_rows tb))" by simp
    then have r: "r \<in> set (tb_rows tb)" "?p r" by simp_all
    then have "active_facts (fact_table_abs rt tb) t i = Some (row_fact rt r)"
      using deleted_row [OF assms r(1)] fact_row_of_iff [OF assms r(1)] fact_table_fields(1) [OF assms r(1)]
      by (auto simp: active_facts_Some fact_table_lookup [OF assms])
    with run Cons fact_table_row [OF assms r(1)] show ?thesis
      by (simp add: sqlite_get_fact_def fetch_fact_row_def)
  qed
qed

lemma count_refines:
  assumes "texts_inverse rt" "fact_table_ok rt tb"
  shows "refines_mock rt tb (sqlite_count_facts_by_org org) (count_facts_by_org org)"
    "refines_mock rt tb (sqlite_count_facts_by_user t) (count_facts_by_user t)"
    "refines_mock rt tb (sqlite_count_users_by_org org) (count_users_by_org org)"
proof -
  have f: "tb_faults tb = []" using assms(2) by (simp add: fact_table_ok_def)
  let ?s = "fact_table_abs rt tb"
  have o: "fr_org_id (sd_row r) = org \<and> not_deleted r \<longleftrightarrow>
      f_org_id (row_fact rt r) = org \<and> f_id (row_fact rt r) \<notin> fs_deleted ?s" if "r \<in> set (tb_rows tb)" for r
    using fact_table_fields(2) [OF assms that] deleted_row [OF assms that] by simp
  have u: "tenant_row t r \<and> not_deleted r \<longleftrightarrow>
      fact_matches_tenant (row_fact rt r) t \<and> f_id (row_fact rt r) \<notin> fs_deleted ?s" if "r \<in> set (tb_rows tb)" for r
    using tenant_row_iff [OF assms that] deleted_row [OF assms that] by simp
  have "length (filter (\<lambda>r. fr_org_id (sd_row r) = org \<and> not_deleted r) (tb_rows tb))
      = length (filter (\<lambda>f. f_org_id f = org \<and> f_id f \<notin> fs_deleted ?s) (hm_values (fs_facts ?s)))"
    by (rule table_count) (rule o)
  then show "refines_mock rt tb (sqlite_count_facts_by_org org) (count_facts_by_org org)"
    using f assms(2)
    by (simp add: refines_mock_def sqlite_count_facts_by_org_def count_facts_by_org_def)
  have "length (filter (\<lambda>r. tenant_row t r \<and> not_deleted r) (tb_rows tb))
      = length (filter (\<lambda>f. fact_matches_tenant f t \<and> f_id f \<notin> fs_deleted ?s) (hm_values (fs_facts ?s)))"
    by (rule table_count) (rule u)
  then show "refines_mock rt tb (sqlite_count_facts_by_user t) (count_facts_by_user t)"
    using f assms(2)
    by (simp add: refines_mock_def sqlite_count_facts_by_user_def count_facts_by_user_def)
  have v: "map (row_fact rt) (filter (\<lambda>r. fr_org_id (sd_row r) = org \<and> not_deleted r) (tb_rows tb))
      = filter (\<lambda>f. f_org_id f = org \<and> f_id f \<notin> fs_deleted ?s) (hm_values (fs_facts ?s))"
    by (rule table_values_filter) (rule o)
  have "map (\<lambda>r. fr_user_id (sd_row r)) (filter (\<lambda>r. fr_org_id (sd_row r) = org \<and> not_deleted r) (tb_rows tb))
      = map f_user_id (filter (\<lambda>f. f_org_id f = org \<and> f_id f \<notin> fs_deleted ?s) (hm_values (fs_facts ?s)))"
    unfolding v [symmetric] using fact_table_fields(3) [OF assms] by simp
  then show "refines_mock rt tb (sqlite_count_users_by_org org) (count_users_by_org org)"
    using f assms(2)
    by (simp add: refines_mock_def sqlite_count_users_by_org_def count_users_by_org_def bindC_def del: set_map)
qed

text \<open>A query for which the two stores mean the same: no wildcard in the text, no empty list of types, and times and
  limits that the columns can hold.\<close>

definition plain_query :: "fact_search_query \<Rightarrow> bool" where
  "plain_query q \<longleftrightarrow>
     is_none_or (q_memory_types q) (\<lambda>types. types \<noteq> []) \<and>
     is_none_or (q_query_text q) (\<lambda>text. wildcard_free text \<and> text \<noteq> []) \<and>
     is_none_or (q_cursor q) (\<lambda>c. text_time (last_sort_value c)) \<and>
     q_limit q < 2 ^ 63 - 1"

lemma memory_type_to_str_inj [simp]: "memory_type_to_str a = memory_type_to_str b \<longleftrightarrow> a = b"
  by (metis memory_type_row sum.inject(2))

lemma keyword_row:
  assumes "texts_inverse rt" "fact_table_ok rt tb" "r \<in> set (tb_rows tb)" "wildcard_free text" "text \<noteq> []"
  shows "push_sqlite_fact_keyword_filter text (sd_row r) \<longleftrightarrow>
    contains_case_insensitive (f_content (row_fact rt r)) text \<or> optional_contains (f_summary (row_fact rt r)) text"
  using assms(4,5) fact_table_fields(5,6) [OF assms(1-3)]
  by (auto simp: push_sqlite_fact_keyword_filter_def keyword_like_opt_def keyword_like_contains optional_contains_def
      contains_case_insensitive_def to_ascii_lowercase_def split: option.splits)

lemma updated_text_time:
  assumes "texts_inverse rt" "fact_table_ok rt tb" "r \<in> set (tb_rows tb)"
  shows "text_time (f_updated_at (row_fact rt r))"
  using fact_table_fields(8) [OF assms] .

lemma fact_where_iff:
  assumes "texts_inverse rt" "texts_ordered rt" "fact_table_ok rt tb" "plain_query q" "r \<in> set (tb_rows tb)"
  shows "fact_where rt q r \<longleftrightarrow>
    fact_query_matches (fact_table_abs rt tb) q (row_fact rt r) \<and> fact_after_cursor (q_cursor q) (row_fact rt r)"
proof -
  note r = assms(1,3,5)
  have "is_none_or (q_cursor q) (push_sqlite_desc_cursor rt (fr_updated_at (sd_row r)) (fr_id (sd_row r)))
      \<longleftrightarrow> fact_after_cursor (q_cursor q) (row_fact rt r)"
    using assms(4) cursor_row [OF assms(1,2) updated_text_time [OF r]] fact_table_fields(1,7) [OF r]
    by (cases "q_cursor q") (simp_all add: fact_after_cursor_def plain_query_def)
  moreover have "is_none_or (q_query_text q) (\<lambda>text. push_sqlite_fact_keyword_filter text (sd_row r)) \<longleftrightarrow>
      is_none_or (q_query_text q) (\<lambda>text. contains_case_insensitive (f_content (row_fact rt r)) text \<or>
        optional_contains (f_summary (row_fact rt r)) text)"
    using assms(4) keyword_row [OF r] by (cases "q_query_text q") (simp_all add: plain_query_def)
  moreover have "is_none_or (q_memory_types q)
      (\<lambda>types. types = [] \<or> fr_memory_type (sd_row r) \<in> memory_type_to_str ` set types) \<longleftrightarrow>
      is_none_or (q_memory_types q) (\<lambda>types. f_memory_type (row_fact rt r) \<in> set types)"
    using assms(4) fact_table_fields(4) [OF r] by (cases "q_memory_types q") (auto simp: plain_query_def)
  ultimately show ?thesis
    using tenant_row_iff [OF r] deleted_row [OF r] by (auto simp: fact_where_def fact_query_matches_def fact_query_hits_def)
qed

lemma fact_row_order:
  assumes "texts_inverse rt" "texts_ordered rt" "fact_table_ok rt tb" "r \<in> set (tb_rows tb)" "r' \<in> set (tb_rows tb)"
  shows "fact_row_desc_le r r' \<longleftrightarrow> fact_desc_le (row_fact rt r) (row_fact rt r')"
proof -
  have le: "uuid_to_string u \<le> uuid_to_string v \<longleftrightarrow> u \<le> v" for u v
    by (simp add: uuid_to_string_less flip: not_less)
  note r = fact_table_fields(1,7) [OF assms(1,3,4)] and r' = fact_table_fields(1,7) [OF assms(1,3,5)]
    and t = updated_text_time [OF assms(1,3,4)] updated_text_time [OF assms(1,3,5)]
  show ?thesis
    by (simp add: fact_row_desc_le_def fact_desc_le_def lex_le_def r r' texts_le [OF assms(2) t] texts_le [OF assms(2) t(2,1)] le)
qed

lemma search_refines:
  assumes "texts_inverse rt" "texts_ordered rt" "fact_table_ok rt tb" "plain_query q"
  shows "sqlite_search_facts rt q tb = (fst (search_facts q (fact_table_abs rt tb)), tb)"
proof -
  let ?s = "fact_table_abs rt tb"
  let ?rows = "take (page_fetch_limit (q_limit q)) (sort_by fact_row_desc_le (filter (fact_where rt q) (tb_rows tb)))"
  have f: "tb_faults tb = []" using assms(3) by (simp add: fact_table_ok_def)
  have l: "q_limit q < 2 ^ 63 - 1" using assms(4) by (simp add: plain_query_def)
  have sub: "r \<in> set (tb_rows tb)" if "r \<in> set ?rows" for r
    using set_take_subset that by fastforce
  then have "read_rows (\<lambda>r. row_to_fact rt (sd_row r)) ?rows = Inr (map (row_fact rt) ?rows)"
    by (intro read_rows_map fact_table_row [OF assms(1,3)])
  moreover have "map (row_fact rt) (sort_by fact_row_desc_le (filter (fact_where rt q) (tb_rows tb)))
      = sort_by fact_desc_le (map (row_fact rt) (filter (fact_where rt q) (tb_rows tb)))"
    by (rule sort_by_map) (rule fact_row_order [OF assms(1-3)]; simp)
  moreover have "map (row_fact rt) (filter (fact_where rt q) (tb_rows tb))
      = filter (fact_after_cursor (q_cursor q)) (filter (fact_query_matches ?s q) (hm_values (fs_facts ?s)))"
    unfolding filter_filter fact_table_values by (rule filter_map_cong) (rule fact_where_iff [OF assms])
  ultimately show ?thesis
    using f l by (simp add: sqlite_search_facts_def search_facts_def take_map [symmetric] del: filter_filter)
qed

section \<open>Writing\<close>

lemma update_keyed:
  "hm_wf m \<Longrightarrow> k \<in> fst ` set m \<Longrightarrow> AList.update k v m = map (\<lambda>(k', v'). if k' = k then (k, v) else (k', v')) m"
proof (induction m)
  case (Cons kv m)
  obtain k' v' where kv: "kv = (k', v')" by (cases kv)
  show ?case
  proof (cases "k' = k")
    case True
    with Cons.prems kv have "\<forall>x \<in> set m. fst x \<noteq> k" by (auto simp: hm_wf_def)
    then have "map (\<lambda>(k', v'). if k' = k then (k, v) else (k', v')) m = m" by (intro map_idI) auto
    with True kv show ?thesis by simp
  next
    case False
    with Cons kv show ?thesis by (auto simp: hm_wf_def)
  qed
qed simp

lemma update_new: "k \<notin> fst ` set m \<Longrightarrow> AList.update k v m = m @ [(k, v)]"
  by (induction m) auto

lemma fact_keys: "fst ` set (fs_facts (fact_table_abs rt tb)) = (\<lambda>r. f_id (row_fact rt r)) ` set (tb_rows tb)"
  by (force simp: fact_table_abs_def)

lemma insert_refines:
  assumes "texts_inverse rt" "fact_table_ok rt tb" "storable rt f"
  shows "refines_mock rt tb (written rt (sqlite_insert_fact rt t f)) (insert_fact t (stored_form rt f))"
proof -
  let ?s = "fact_table_abs rt tb" and ?f = "stored_form rt f"
  have f: "tb_faults tb = []" using assms(2) by (simp add: fact_table_ok_def)
  have same: "fact_matches_tenant ?f t \<longleftrightarrow> fact_matches_tenant f t" by (simp add: fact_matches_tenant_def)
  from assms(3) obtain row where row: "fact_to_row rt f = Inr row"
    by (auto simp: storable_def readable_def fact_to_row_def metadata_to_str_def map_err_to_def)
  note fields = fact_to_row_fields [OF row]
  have free: "null_number row = None" using storable_row(2) [OF assms(1,3) row] .
  define taken where "taken \<longleftrightarrow> (\<exists>r \<in> set (tb_rows tb). fr_id (sd_row r) = uuid_to_string (f_id f))"
  have mock: "map_of (fs_facts ?s) (f_id f) \<noteq> None \<longleftrightarrow> taken"
    using fact_table_lookup [OF assms(1,2), of "f_id f"] by (auto simp: taken_def)
  show ?thesis
  proof (cases "fact_matches_tenant f t")
    case False
    then show ?thesis
      using assms(2) same by (simp add: refines_mock_def written_def sqlite_insert_fact_def insert_fact_def ensure_fact_tenant_def)
  next
    case tenant: True
    show ?thesis
    proof (cases taken)
      case True
      then have "fact_violation row (tb_rows tb) = Some ''facts.id''"
        using free fields(1) by (simp add: fact_violation_def taken_def)
      with True mock tenant f row assms(2) same show ?thesis
        by (auto simp: refines_mock_def written_def sqlite_insert_fact_def insert_fact_def ensure_fact_tenant_def)
    next
      case False
      let ?r = "\<lparr>sd_row = row, sd_deleted_at = None\<rparr>"
      have "fact_violation row (tb_rows tb) = None"
        using False free fields(1) by (simp add: fact_violation_def taken_def)
      moreover have "filter (fact_row_of t (f_id f)) (tb_rows tb) = []"
        using False by (auto simp: taken_def fact_row_of_def filter_empty_conv)
      ultimately have sql: "sqlite_insert_fact rt t f tb = (Inr f, tb\<lparr>tb_rows := tb_rows tb @ [?r]\<rparr>)"
        using tenant f row by (simp add: sqlite_insert_fact_def ensure_fact_tenant_def)
      have new: "row_fact rt ?r = ?f" by (rule row_fact_of [OF assms(1,3)]) (simp add: row)
      have "f_id f \<notin> fst ` set (fs_facts ?s)"
        using mock False by (simp add: dom_map_of_conv_image_fst [symmetric] domIff)
      then have "insert_fact t ?f ?s = (Inr ?f, fact_table_abs rt (tb\<lparr>tb_rows := tb_rows tb @ [?r]\<rparr>))"
        using mock False tenant new same
        by (auto simp: insert_fact_def ensure_fact_tenant_def update_new fact_table_abs_def not_deleted_def)
      moreover have "fact_table_ok rt (tb\<lparr>tb_rows := tb_rows tb @ [?r]\<rparr>)"
        using assms(2,3) row False fields(1) by (auto simp: fact_table_ok_def taken_def)
      ultimately show ?thesis using sql by (simp add: refines_mock_def written_def)
    qed
  qed
qed

text \<open>An update of a fact that is not marked deleted.\<close>

lemma set_fact_row:
  assumes "texts_inverse rt" "fact_table_ok rt tb" "r \<in> set (tb_rows tb)" "fact_to_row rt f = Inr row"
    "fact_row_of t (f_id f) r" "fact_matches_tenant f t"
  shows "set_fact_columns row r = r\<lparr>sd_row := row\<rparr>"
  using assms(5,6) fact_to_row_fields(1-3) [OF assms(4)]
  by (cases row) (auto simp: set_fact_columns_def fact_row_of_def tenant_row_def fact_matches_tenant_def)

lemma update_refines:
  assumes "texts_inverse rt" "fact_table_ok rt tb" "storable rt f" "f_id f \<notin> fs_deleted (fact_table_abs rt tb)"
  shows "refines_mock rt tb (written rt (sqlite_update_fact rt t f)) (update_fact t (stored_form rt f))"
proof -
  let ?s = "fact_table_abs rt tb" and ?p = "\<lambda>r. fact_row_of t (f_id f) r \<and> not_deleted r" and ?f = "stored_form rt f"
  have same: "fact_matches_tenant ?f t \<longleftrightarrow> fact_matches_tenant f t" by (simp add: fact_matches_tenant_def)
  have f: "tb_faults tb = []" using assms(2) by (simp add: fact_table_ok_def)
  have wf: "hm_wf (fs_facts ?s)" using fact_table_abs_wf [OF assms(1,2)] by (simp add: fs_wf_def)
  from assms(3) obtain row where row: "fact_to_row rt f = Inr row"
    by (auto simp: storable_def readable_def fact_to_row_def metadata_to_str_def map_err_to_def)
  have free: "null_number row = None" using storable_row(2) [OF assms(1,3) row] .
  have hit: "?p r \<longleftrightarrow> f_id (row_fact rt r) = f_id f \<and> fact_matches_tenant (row_fact rt r) t" if "r \<in> set (tb_rows tb)" for r
    using assms(4) deleted_row [OF assms(1,2) that] fact_row_of_iff [OF assms(1,2) that] by auto
  let ?tb = "tb\<lparr>tb_rows := map (\<lambda>r. if ?p r then set_fact_columns row r else r) (tb_rows tb)\<rparr>"
  have sql: "sqlite_update_fact rt t f tb = (if \<not> fact_matches_tenant f t then (Inl Forbidden, tb)
      else if filter ?p (tb_rows tb) = [] then (Inl (NotFound (''fact not found: '' @ uuid_to_string (f_id f))), ?tb)
      else (Inr f, ?tb))"
    using f row free by (simp add: sqlite_update_fact_def ensure_fact_tenant_def)
  show ?thesis
  proof (cases "fact_matches_tenant f t \<and> filter ?p (tb_rows tb) \<noteq> []")
    case False
    have "map (\<lambda>r. if ?p r then set_fact_columns row r else r) (tb_rows tb) = tb_rows tb" if "filter ?p (tb_rows tb) = []"
      using that by (intro map_idI) (auto simp: filter_empty_conv)
    moreover have "\<exists>e. update_fact t ?f ?s = (Inl e, ?s)"
    proof (cases "fact_matches_tenant f t")
      case True
      with False have none: "\<forall>r \<in> set (tb_rows tb). \<not> ?p r" by (simp add: filter_empty_conv)
      have "\<not> fact_matches_tenant g t" if "map_of (fs_facts ?s) (f_id f) = Some g" for g
      proof -
        from that obtain r where r: "r \<in> set (tb_rows tb)" "fr_id (sd_row r) = uuid_to_string (f_id f)" "row_fact rt r = g"
          by (auto simp: fact_table_lookup [OF assms(1,2)])
        with none hit [OF r(1)] fact_table_fields(1) [OF assms(1,2) r(1)] show ?thesis by auto
      qed
      then show ?thesis using True same by (auto simp: update_fact_def ensure_fact_tenant_def split: option.splits)
    qed (simp add: update_fact_def ensure_fact_tenant_def same)
    ultimately show ?thesis using False sql assms(2) by (auto simp: refines_mock_def written_def)
  next
    case True
    then obtain r0 where r0: "r0 \<in> set (tb_rows tb)" "?p r0" by (auto simp: filter_empty_conv)
    have only: "?p r \<longleftrightarrow> f_id (row_fact rt r) = f_id f" if "r \<in> set (tb_rows tb)" for r
      using hit [OF that] hit [OF r0(1)] r0(2) same_row [OF assms(1,2) that r0(1)] by auto
    have new: "row_fact rt (set_fact_columns row r) = ?f" "not_deleted (set_fact_columns row r)" "sd_row (set_fact_columns row r) = row"
      if "r \<in> set (tb_rows tb)" "?p r" for r
      using set_fact_row [OF assms(1,2) that(1) row] that True
      by (auto simp: not_deleted_def intro!: row_fact_of [OF assms(1,3)] row)
    have "f_id f \<in> fst ` set (fs_facts ?s)"
      unfolding fact_keys using r0 only [OF r0(1)] by (metis image_eqI)
    then have "AList.update (f_id f) ?f (fs_facts ?s) = map (\<lambda>(k, v). if k = f_id f then (f_id f, ?f) else (k, v)) (fs_facts ?s)"
      by (rule update_keyed [OF wf])
    also have "\<dots> = fs_facts (fact_table_abs rt ?tb)"
      using only new(1) by (simp add: fact_table_abs_def)
    finally have facts: "fs_facts (fact_table_abs rt ?tb) = AList.update (f_id f) ?f (fs_facts ?s)" by simp
    have "fs_deleted (fact_table_abs rt ?tb) = fs_deleted ?s"
      using new(2) by (fastforce simp: fact_table_abs_def)
    with facts have abs: "fact_table_abs rt ?tb = ?s\<lparr>fs_facts := AList.update (f_id f) ?f (fs_facts ?s)\<rparr>" by simp
    have "map (\<lambda>r. fr_id (sd_row r)) (tb_rows ?tb) = map (\<lambda>r. fr_id (sd_row r)) (tb_rows tb)"
      using only new(3) fact_to_row_fields(1) [OF row] fact_table_fields(1) [OF assms(1,2)] by simp
    with assms(2) have "distinct (map (\<lambda>r. fr_id (sd_row r)) (tb_rows ?tb))" by (simp only: fact_table_ok_def)
    then have ok: "fact_table_ok rt ?tb"
      using assms(2,3) row new(3) unfolding fact_table_ok_def by auto
    have "map_of (fs_facts ?s) (f_id f) = Some (row_fact rt r0)"
      using fact_table_lookup [OF assms(1,2)] r0 by (auto simp: fact_row_of_def)
    then have "update_fact t ?f ?s = (Inr ?f, fact_table_abs rt ?tb)"
      using True hit [OF r0(1)] r0(2) abs same by (simp add: update_fact_def ensure_fact_tenant_def)
    with sql True ok show ?thesis by (simp add: refines_mock_def written_def)
  qed
qed

lemma mark_deleted:
  assumes "texts_inverse rt" "fact_table_ok rt tb"
    and tb': "tb' = tb\<lparr>tb_rows := map (\<lambda>r. if p r then set_deleted_at d r else r) (tb_rows tb)\<rparr>"
  shows "fact_table_ok rt tb'"
    "fact_table_abs rt tb' = (fact_table_abs rt tb)\<lparr>fs_deleted := fs_deleted (fact_table_abs rt tb) \<union>
       {f_id (row_fact rt r) | r. r \<in> set (tb_rows tb) \<and> p r}\<rparr>"
proof -
  define g where "g r = (if p r then set_deleted_at d r else r)" for r
  have row: "sd_row (g r) = sd_row r" for r by (simp add: g_def set_deleted_at_def)
  then have fact: "row_fact rt (g r) = row_fact rt r" for r by (simp add: row_fact_def)
  have nd: "not_deleted (g r) \<longleftrightarrow> not_deleted r \<and> \<not> p r" for r
    by (simp add: g_def not_deleted_def set_deleted_at_def)
  have tb'': "tb' = tb\<lparr>tb_rows := map g (tb_rows tb)\<rparr>" by (simp add: tb' g_def)
  show "fact_table_ok rt tb'"
    using assms(2) by (simp add: fact_table_ok_def tb'' row comp_def)
  have "fs_deleted (fact_table_abs rt tb') = {f_id (row_fact rt r) | r. r \<in> set (tb_rows tb) \<and> (\<not> not_deleted r \<or> p r)}"
    unfolding tb'' fact_table_abs_def using fact nd by (auto simp: image_iff) metis+
  then show "fact_table_abs rt tb' = (fact_table_abs rt tb)\<lparr>fs_deleted := fs_deleted (fact_table_abs rt tb) \<union>
       {f_id (row_fact rt r) | r. r \<in> set (tb_rows tb) \<and> p r}\<rparr>"
    by (auto simp: fact_table_abs_def tb'' fact)
qed

lemma soft_delete_refines:
  assumes "texts_inverse rt" "fact_table_ok rt tb" "i \<notin> fs_deleted (fact_table_abs rt tb)"
  shows "refines_mock rt tb (sqlite_soft_delete_fact rt now t i) (soft_delete_fact t i)"
proof -
  let ?s = "fact_table_abs rt tb" and ?p = "\<lambda>r. fact_row_of t i r \<and> not_deleted r"
  let ?tb = "tb\<lparr>tb_rows := map (\<lambda>r. if ?p r then set_deleted_at (rt_datetime_text rt now) r else r) (tb_rows tb)\<rparr>"
  have f: "tb_faults tb = []" using assms(2) by (simp add: fact_table_ok_def)
  note marked = mark_deleted [OF assms(1,2) refl, of ?p "rt_datetime_text rt now"]
  have hit: "?p r \<longleftrightarrow> f_id (row_fact rt r) = i \<and> fact_matches_tenant (row_fact rt r) t" if "r \<in> set (tb_rows tb)" for r
    using assms(3) deleted_row [OF assms(1,2) that] fact_row_of_iff [OF assms(1,2) that] by auto
  have look: "map_of (fs_facts ?s) i = Some g \<longleftrightarrow> (\<exists>r \<in> set (tb_rows tb). f_id (row_fact rt r) = i \<and> row_fact rt r = g)" for g
    using fact_table_lookup [OF assms(1,2)] fact_table_fields(1) [OF assms(1,2)] by auto
  show ?thesis
  proof (cases "filter ?p (tb_rows tb) = []")
    case True
    then have none: "\<forall>r \<in> set (tb_rows tb). \<not> ?p r" by (simp add: filter_empty_conv)
    then have "map (\<lambda>r. if ?p r then set_deleted_at (rt_datetime_text rt now) r else r) (tb_rows tb) = tb_rows tb"
      by (intro map_idI) auto
    then have "sqlite_soft_delete_fact rt now t i tb = (Inl (NotFound (''fact not found: '' @ uuid_to_string i)), tb)"
      using f True by (simp add: sqlite_soft_delete_fact_def)
    moreover have "\<exists>e. soft_delete_fact t i ?s = (Inl e, ?s)"
      using none hit look by (auto simp: soft_delete_fact_def split: option.splits)
    ultimately show ?thesis using assms(2) by (auto simp: refines_mock_def)
  next
    case False
    then obtain r0 where r0: "r0 \<in> set (tb_rows tb)" "?p r0" by (auto simp: filter_empty_conv)
    with hit [OF r0(1)] have m: "map_of (fs_facts ?s) i = Some (row_fact rt r0)" "fact_matches_tenant (row_fact rt r0) t"
      by (auto simp: look)
    have "{f_id (row_fact rt r) | r. r \<in> set (tb_rows tb) \<and> ?p r} = {i}"
      using hit r0 by auto
    with marked(2) have "fact_table_abs rt ?tb = ?s\<lparr>fs_deleted := insert i (fs_deleted ?s)\<rparr>" by simp
    moreover have "sqlite_soft_delete_fact rt now t i tb = (Inr (), ?tb)"
      using f False by (simp add: sqlite_soft_delete_fact_def)
    ultimately show ?thesis using m marked(1) by (simp add: refines_mock_def soft_delete_fact_def)
  qed
qed

lemma delete_user_refines:
  assumes "texts_inverse rt" "fact_table_ok rt tb"
  shows "refines_mock rt tb (sqlite_delete_user_data t) (delete_user_data t)"
proof -
  let ?s = "fact_table_abs rt tb" and ?tb = "tb\<lparr>tb_rows := filter (\<lambda>r. \<not> tenant_row t r) (tb_rows tb)\<rparr>"
  have f: "tb_faults tb = []" using assms(2) by (simp add: fact_table_ok_def)
  have other: "\<not> tenant_row t r \<longleftrightarrow> not_of_tenant t (row_fact rt r)" if "r \<in> set (tb_rows tb)" for r
    using tenant_row_iff [OF assms that] by (auto simp: not_of_tenant_def fact_matches_tenant_def)
  have "fs_facts (fact_table_abs rt ?tb) = hm_retain (\<lambda>_. not_of_tenant t) (fs_facts ?s)"
    using filter_map_cong [of "tb_rows tb" "\<lambda>r. \<not> tenant_row t r" "\<lambda>(i, f). not_of_tenant t f"
        "\<lambda>r. (f_id (row_fact rt r), row_fact rt r)"] other
    by (simp add: fact_table_abs_def hm_retain_def)
  moreover have "fs_deleted (fact_table_abs rt ?tb)
      = {i \<in> fs_deleted ?s. i \<in> fst ` set (fs_facts (fact_table_abs rt ?tb))}"
    unfolding fact_keys using same_row [OF assms] by (fastforce simp: fact_table_abs_def)
  moreover have "fact_table_ok rt ?tb"
    using assms(2) by (auto simp: fact_table_ok_def distinct_map_filter)
  ultimately show ?thesis
    using f by (simp add: refines_mock_def sqlite_delete_user_data_def delete_user_data_def Let_def)
qed

lemma prune_refines:
  assumes "texts_inverse rt" "texts_ordered rt" "fact_table_ok rt tb" "text_time cutoff"
  shows "refines_mock rt tb (sqlite_delete_facts_older_than rt now t cutoff dry) (delete_facts_older_than t cutoff dry)"
proof -
  let ?s = "fact_table_abs rt tb" and ?p = "stale_row t (rt_datetime_text rt cutoff)"
  let ?old = "\<lambda>f. fact_matches_tenant f t \<and> f_id f \<notin> fs_deleted ?s \<and> f_updated_at f < cutoff"
  let ?tb = "tb\<lparr>tb_rows := map (\<lambda>r. if ?p r then set_deleted_at (rt_datetime_text rt now) r else r) (tb_rows tb)\<rparr>"
  let ?ids = "map f_id (filter ?old (hm_values (fs_facts ?s)))"
  have f: "tb_faults tb = []" using assms(3) by (simp add: fact_table_ok_def)
  note marked = mark_deleted [OF assms(1,3) refl, of ?p "rt_datetime_text rt now"]
  have hit: "?p r \<longleftrightarrow> ?old (row_fact rt r)" if "r \<in> set (tb_rows tb)" for r
    using tenant_row_iff [OF assms(1,3) that] deleted_row [OF assms(1,3) that] fact_table_fields(7) [OF assms(1,3) that]
      texts_less [OF assms(2) updated_text_time [OF assms(1,3) that] assms(4)]
    by (auto simp: stale_row_def)
  have v: "map (row_fact rt) (filter ?p (tb_rows tb)) = filter ?old (hm_values (fs_facts ?s))"
    by (rule table_values_filter) (rule hit)
  have "read_rows (\<lambda>r. map_err_to (sql_error ''invalid fact id'') (rt_parse_uuid rt (fr_id (sd_row r)))) (filter ?p (tb_rows tb))
      = Inr (map (\<lambda>r. f_id (row_fact rt r)) (filter ?p (tb_rows tb)))"
    using fact_table_fields(1) [OF assms(1,3)] assms(1)
    by (intro read_rows_map) (simp add: texts_inverse_def map_err_to_def)
  then have read: "read_rows (\<lambda>r. map_err_to (sql_error ''invalid fact id'') (rt_parse_uuid rt (fr_id (sd_row r)))) (filter ?p (tb_rows tb))
      = Inr ?ids"
    by (simp add: v [symmetric])
  have len: "length (filter ?p (tb_rows tb)) = length ?ids" by (simp add: v [symmetric])
  have ids: "{f_id (row_fact rt r) | r. r \<in> set (tb_rows tb) \<and> ?p r} = set ?ids"
    unfolding v [symmetric] by auto
  show ?thesis
  proof (cases "dry \<or> ?ids = []")
    case True
    then show ?thesis
      using f read assms(3)
      by (cases dry) (simp_all add: refines_mock_def sqlite_delete_facts_older_than_def delete_facts_older_than_def Let_def
          del: set_map set_filter map_is_Nil_conv)
  next
    case False
    then have "sqlite_delete_facts_older_than rt now t cutoff dry tb
        = (Inr \<lparr>prune_count = length ?ids, prune_fact_ids = ?ids\<rparr>, ?tb)"
      using f read len by (simp add: sqlite_delete_facts_older_than_def Let_def)
    moreover have "fact_table_abs rt ?tb = ?s\<lparr>fs_deleted := fs_deleted ?s \<union> set ?ids\<rparr>"
      using marked(2) unfolding ids .
    ultimately show ?thesis
      using False marked(1) by (simp add: refines_mock_def delete_facts_older_than_def Let_def)
  qed
qed

section \<open>The user directory\<close>

lemma Max_text:
  assumes "texts_ordered rt" "finite X" "X \<noteq> {}" "\<And>d. d \<in> X \<Longrightarrow> text_time d"
  shows "Max (rt_datetime_text rt ` X) = rt_datetime_text rt (Max X)"
proof (rule Max_eqI)
  have m: "Max X \<in> X" using assms(2,3) by (rule Max_in)
  then show "rt_datetime_text rt (Max X) \<in> rt_datetime_text rt ` X" by simp
  fix y
  assume "y \<in> rt_datetime_text rt ` X"
  then obtain d where "d \<in> X" "y = rt_datetime_text rt d" by auto
  with m assms show "y \<le> rt_datetime_text rt (Max X)" by (simp add: texts_le)
qed (simp add: assms(2))

text \<open>The summary that the database computes for a user.\<close>

definition user_summary :: "string \<Rightarrow> mock_fact_store \<Rightarrow> string \<Rightarrow> org_user_summary" where
  "user_summary org s u =
     (let mine = filter (counted org (fs_deleted s) u) (hm_values (fs_facts s)) in
      \<lparr>u_user_id = u, u_memory_count = length mine, u_last_memory_at = Some (Max (f_updated_at ` set mine))\<rparr>)"

lemma user_groups_summaries:
  assumes "texts_inverse rt" "texts_ordered rt" "fact_table_ok rt tb"
    and s_def: "s = fact_table_abs rt tb"
    and g: "g \<in> set (user_groups (filter (\<lambda>r. fr_org_id (sd_row r) = org \<and> not_deleted r) (tb_rows tb)))"
  shows "\<exists>d. text_time d \<and> ug_last_memory_at g = rt_datetime_text rt d \<and> u_last_memory_at (user_summary org s (ug_user_id g)) = Some d"
    "org_user_of rt g = Inr (user_summary org s (ug_user_id g))"
proof -
  let ?rows = "filter (\<lambda>r. fr_org_id (sd_row r) = org \<and> not_deleted r) (tb_rows tb)" and ?u = "ug_user_id g"
  let ?mine = "filter (\<lambda>r. fr_user_id (sd_row r) = ?u) ?rows"
  let ?facts = "filter (counted org (fs_deleted s) ?u) (hm_values (fs_facts s))"
  define M where "M = ?mine"
  define F where "F = ?facts"
  from g have gs: "ug_memory_count g = length M" "ug_last_memory_at g = Max (set (map (\<lambda>r. fr_updated_at (sd_row r)) M))"
    and ne: "M \<noteq> []"
    by (auto simp: user_groups_def Let_def filter_empty_conv M_def)
  have facts: "F = map (row_fact rt) M"
    unfolding F_def M_def s_def filter_filter
  proof (rule table_values_filter [symmetric])
    fix r
    assume "r \<in> set (tb_rows tb)"
    note r = fact_table_fields(2,3) [OF assms(1,3) this] deleted_row [OF assms(1,3) this]
    show "(fr_org_id (sd_row r) = org \<and> not_deleted r) \<and> fr_user_id (sd_row r) = ?u \<longleftrightarrow>
        counted org (fs_deleted (fact_table_abs rt tb)) ?u (row_fact rt r)"
      by (simp add: counted_def r)
  qed
  have sub: "r \<in> set (tb_rows tb)" if "r \<in> set M" for r using that by (simp add: M_def)
  define X where "X = f_updated_at ` set F"
  have X: "finite X" "X \<noteq> {}" "text_time d" if "d \<in> X" for d
    using that ne sub updated_text_time [OF assms(1,3)] by (auto simp: X_def facts)
  have ne': "X \<noteq> {}" using ne by (simp add: X_def facts)
  have "set (map (\<lambda>r. fr_updated_at (sd_row r)) M) = rt_datetime_text rt ` X"
    using fact_table_fields(7) [OF assms(1,3) sub] by (auto simp: X_def facts image_image)
  with gs(2) have last: "ug_last_memory_at g = rt_datetime_text rt (Max X)"
    using Max_text [OF assms(2) _ ne' X(3)] by (simp add: X_def)
  have max: "text_time (Max X)"
    using X(3) Max_in [OF _ ne'] by (simp add: X_def)
  have sum: "user_summary org s ?u = \<lparr>u_user_id = ?u, u_memory_count = length F, u_last_memory_at = Some (Max X)\<rparr>"
    by (simp only: user_summary_def Let_def F_def X_def)
  with last max show "\<exists>d. text_time d \<and> ug_last_memory_at g = rt_datetime_text rt d \<and>
      u_last_memory_at (user_summary org s ?u) = Some d"
    by simp
  from last max gs(1) assms(1) facts show "org_user_of rt g = Inr (user_summary org s ?u)"
    by (simp add: org_user_of_def sum datetime_from_str_def texts_inverse_def map_err_to_def)
qed

lemma user_groups_mset:
  assumes "texts_inverse rt" "fact_table_ok rt tb" and s_def: "s = fact_table_abs rt tb"
  shows "mset (map (\<lambda>g. user_summary org s (ug_user_id g))
      (user_groups (filter (\<lambda>r. fr_org_id (sd_row r) = org \<and> not_deleted r) (tb_rows tb))))
    = mset (org_user_summaries org s)"
proof -
  let ?rows = "filter (\<lambda>r. fr_org_id (sd_row r) = org \<and> not_deleted r) (tb_rows tb)"
  have users: "map (\<lambda>g. user_summary org s (ug_user_id g)) (user_groups ?rows)
      = map (user_summary org s) (remdups (map (\<lambda>r. fr_user_id (sd_row r)) ?rows))"
    by (simp add: user_groups_def Let_def comp_def)
  have id: "u_user_id (user_summary org s u) = u" for u by (simp add: user_summary_def Let_def)
  have inj: "distinct (map (user_summary org s) (remdups xs))" for xs
    by (simp add: distinct_map) (metis id inj_onI)
  have mine: "u \<in> set (map (\<lambda>r. fr_user_id (sd_row r)) ?rows) \<longleftrightarrow>
      filter (counted org (fs_deleted s) u) (hm_values (fs_facts s)) \<noteq> []" for u
  proof -
    have c: "counted org (fs_deleted s) u (row_fact rt r) \<longleftrightarrow>
        fr_org_id (sd_row r) = org \<and> not_deleted r \<and> fr_user_id (sd_row r) = u" if "r \<in> set (tb_rows tb)" for r
      unfolding counted_def s_def fact_table_fields(2,3) [OF assms(1,2) that] deleted_row [OF assms(1,2) that] by simp
    have "filter (counted org (fs_deleted s) u) (hm_values (fs_facts s)) \<noteq> [] \<longleftrightarrow>
        (\<exists>r \<in> set (tb_rows tb). counted org (fs_deleted s) u (row_fact rt r))"
      by (simp add: s_def fact_table_values filter_empty_conv)
    with c show ?thesis by auto
  qed
  have "x \<in> set (org_user_summaries org s) \<longleftrightarrow> x \<in> user_summary org s ` set (map (\<lambda>r. fr_user_id (sd_row r)) ?rows)" for x
  proof -
    define M where "M = filter (counted org (fs_deleted s) (u_user_id x)) (hm_values (fs_facts s))"
    have i: "x \<in> user_summary org s ` U \<longleftrightarrow> u_user_id x \<in> U \<and> x = user_summary org s (u_user_id x)" for U
      by (auto simp: id)
    have e: "x = user_summary org s (u_user_id x) \<longleftrightarrow> u_memory_count x = length M \<and> u_last_memory_at x = Some (Max (f_updated_at ` set M))"
      unfolding user_summary_def Let_def M_def [symmetric] by (cases x) simp
    have m: "x \<in> set (org_user_summaries org s) \<longleftrightarrow>
        (if M = [] then None else Some (length M, Some (Max (f_updated_at ` set M)))) = Some (u_memory_count x, u_last_memory_at x)"
      unfolding in_org_user_summaries user_entry_def Let_def M_def ..
    show ?thesis
      unfolding i e m mine M_def [symmetric] by auto
  qed
  then have "set (org_user_summaries org s) = set (map (user_summary org s) (remdups (map (\<lambda>r. fr_user_id (sd_row r)) ?rows)))"
    by auto
  moreover have "distinct (org_user_summaries org s)"
    using org_user_summaries_ids [of org s] by (simp add: distinct_map)
  ultimately show ?thesis
    unfolding users using inj by (metis set_eq_iff_mset_eq_distinct)
qed

lemma list_users_refines:
  assumes "texts_inverse rt" "texts_ordered rt" "fact_table_ok rt tb"
    and "ou_limit q < 2 ^ 63 - 1" "is_none_or (ou_cursor q) (\<lambda>c. text_time (last_sort_value c))"
  shows "sqlite_list_users_by_org rt q tb = (fst (list_users_by_org min_utc q (fact_table_abs rt tb)), tb)"
proof -
  let ?s = "fact_table_abs rt tb" and ?org = "ou_org_id q"
  define gs where "gs = user_groups (filter (\<lambda>r. fr_org_id (sd_row r) = ?org \<and> not_deleted r) (tb_rows tb))"
  define sm where "sm g = user_summary ?org ?s (ug_user_id g)" for g :: user_group
  let ?after = "\<lambda>g. is_none_or (ou_cursor q) (push_sqlite_desc_cursor rt (ug_last_memory_at g) (ug_user_id g))"
  let ?after' = "\<lambda>u. is_none_or (ou_cursor q) (is_after_cursor_in_desc_order (user_sort_value min_utc u) (u_user_id u))"
  let ?page = "take (page_fetch_limit (ou_limit q)) (sort_by user_group_desc_le (filter ?after gs))"
  have f: "tb_faults tb = []" using assms(3) by (simp add: fact_table_ok_def)
  have sm_id: "u_user_id (sm g) = ug_user_id g" for g by (simp add: sm_def user_summary_def Let_def)
  have last: "text_time (user_sort_value min_utc (sm g)) \<and> ug_last_memory_at g = rt_datetime_text rt (user_sort_value min_utc (sm g))"
    if "g \<in> set gs" for g
    using user_groups_summaries(1) [OF assms(1-3) refl that [unfolded gs_def]]
    by (auto simp: sm_def user_sort_value_def)
  have after: "?after g \<longleftrightarrow> ?after' (sm g)" if "g \<in> set gs" for g
    using last [OF that] assms(5) cursor_row [OF assms(1,2)] by (cases "ou_cursor q") (simp_all add: sm_id)
  have le: "user_group_desc_le g g' \<longleftrightarrow> user_desc_le min_utc (sm g) (sm g')" if "g \<in> set gs" "g' \<in> set gs" for g g'
    using last [OF that(1)] last [OF that(2)]
    by (simp add: user_group_desc_le_def user_desc_le_def lex_le_def sm_id texts_le [OF assms(2)])
  have sub: "set ?page \<subseteq> set gs" using set_take_subset by fastforce
  then have "read_rows (org_user_of rt) ?page = Inr (map sm ?page)"
    unfolding sm_def gs_def by (intro read_rows_map user_groups_summaries(2) [OF assms(1-3) refl]) auto
  moreover have "map sm (sort_by user_group_desc_le (filter ?after gs)) = sort_by (user_desc_le min_utc) (map sm (filter ?after gs))"
    by (rule sort_by_map) (rule le; simp)
  moreover have "map sm (filter ?after gs) = filter ?after' (map sm gs)"
    by (rule filter_map_cong) (rule after)
  moreover have "sort_by (user_desc_le min_utc) (filter ?after' (map sm gs))
      = sort_by (user_desc_le min_utc) (filter ?after' (org_user_summaries ?org ?s))"
  proof (rule sort_by_perm)
    show "total_preorder (user_desc_le min_utc)"
      unfolding user_desc_le_def by (intro total_preorder_lex_le total_preorder_key_rev)
    show "mset (filter ?after' (map sm gs)) = mset (filter ?after' (org_user_summaries ?org ?s))"
      using user_groups_mset [OF assms(1,3) refl] unfolding sm_def gs_def by (simp only: mset_filter)
    fix x y
    assume "x \<in> set (filter ?after' (map sm gs))" "y \<in> set (filter ?after' (map sm gs))"
      and eq: "user_desc_le min_utc x y" "user_desc_le min_utc y x"
    then obtain g g' where g: "x = sm g" "y = sm g'" unfolding set_filter set_map by blast
    from eq have "u_user_id x = u_user_id y" unfolding user_desc_le_iff by force
    then have "ug_user_id g = ug_user_id g'" by (simp only: g sm_id)
    then show "x = y" unfolding g sm_def by (rule arg_cong)
  qed
  ultimately have read: "read_rows (org_user_of rt) ?page
      = Inr (take (page_fetch_limit (ou_limit q)) (sort_by (user_desc_le min_utc) (filter ?after' (org_user_summaries ?org ?s))))"
    by (simp only: take_map [symmetric])
  have "sqlite_list_users_by_org rt q tb = (read_rows (org_user_of rt) ?page, tb)"
    using f assms(4) by (simp add: sqlite_list_users_by_org_def user_groups_page_def gs_def)
  then show ?thesis
    unfolding read list_users_by_org_def by (simp only: fst_conv)
qed

section \<open>Failures of the database\<close>

text \<open>Whatever the database fails or refuses, and whenever, an operation that ends with an error leaves the rows as they
  were: no operation changes rows before its last statement.\<close>

lemma sqlite_errors_change_nothing:
  "rows_kept_on_error (sqlite_insert_fact rt t f)"
  "rows_kept_on_error (sqlite_update_fact rt t f)"
  "rows_kept_on_error (sqlite_soft_delete_fact rt now t i)"
  "rows_kept_on_error (sqlite_delete_user_data t)"
  "rows_kept_on_error (sqlite_delete_facts_older_than rt now t cutoff dry)"
  unfolding sqlite_insert_fact_def sqlite_update_fact_def sqlite_soft_delete_fact_def sqlite_delete_user_data_def
    sqlite_delete_facts_older_than_def Let_def
  by (rule rows_kept)+

section \<open>The refinement\<close>


definition empty_fact_table :: fact_table where
  "empty_fact_table = \<lparr>tb_rows = [], tb_faults = [], tb_violation = (\<lambda>column. ''UNIQUE constraint failed: '' @ column)\<rparr>"

definition alice_table :: fact_table where
  "alice_table = snd (sqlite_insert_fact sample_texts alice (sample_fact 1 alice ''likes tea'' 10) empty_fact_table)"

text \<open>A fact with a float in its metadata, which is read back as another one.\<close>

definition rated_fact :: fact where
  "rated_fact = (sample_fact 2 bob ''likes rust'' 20)\<lparr>f_metadata := JFloat 1\<rparr>"

lemma sample_fact_storable:
  "text_time stamp \<Longrightarrow> storable sample_texts (sample_fact i t content stamp)"
  "storable sample_texts rated_fact"
  by (simp_all add: rated_fact_def text_time_def storable_def sample_fact_def fact_times_def readable_def sample_texts_def
      f32_of_rat_1)

lemma alice_table_ok: "fact_table_ok sample_texts alice_table"
proof -
  have "fact_table_ok sample_texts empty_fact_table" by (simp add: fact_table_ok_def empty_fact_table_def)
  from insert_refines [OF sample_texts_inverse this sample_fact_storable(1) [of 10]]
  show ?thesis by (simp add: alice_table_def refines_mock_def written_def text_time_def)
qed


text \<open>Where the stores differ: a query text with a wildcard, and an empty list of types, find more in the database.\<close>

lemma empty_types_no_filter:
  "q_memory_types q = Some [] \<Longrightarrow> fact_where rt q r = fact_where rt (q\<lparr>q_memory_types := None\<rparr>) r"
  "q_memory_types q = Some [] \<Longrightarrow> \<not> fact_query_hits q f"
  by (simp_all add: fact_where_def fact_query_hits_def)

text \<open>A fact that is marked deleted can be updated and deleted again in the one store and not in the other.\<close>

lemma deleted_again:
  assumes "texts_inverse rt" "fact_table_ok rt tb" "i \<in> fs_deleted (fact_table_abs rt tb)"
  shows "fst (sqlite_soft_delete_fact rt now t i tb) = Inl (NotFound (''fact not found: '' @ uuid_to_string i))"
proof -
  let ?p = "\<lambda>r. fact_row_of t i r \<and> not_deleted r"
  have "\<not> ?p r" if "r \<in> set (tb_rows tb)" for r
    using assms(3) deleted_row [OF assms(1,2) that] fact_row_of_iff [OF assms(1,2) that] by auto
  then have "filter ?p (tb_rows tb) = []" by (simp add: filter_empty_conv)
  moreover have "tb_faults tb = []" using assms(2) by (simp add: fact_table_ok_def)
  ultimately show ?thesis by (simp add: sqlite_soft_delete_fact_def)
qed

end
