(* ===== verification/Sql_Events.thy ===== *)
theory Sql_Events
  imports Sql_Table Event_Store
begin

text \<open>
  \<^verbatim>\<open>crates/memcore-storage/src/sqlite/event_store.rs\<close>: the \<open>MemoryEventStore\<close> port over the table
  \<open>memory_events\<close>, and its refinement of the log in memory (\<open>MockMemoryEventStore\<close>).
\<close>

section \<open>Operations\<close>

type_synonym event_table = "event_row sql_table"
type_synonym 'a event_sql = "(event_table, memcore_error, 'a) comp"

definition event_tenant_row :: "tenant_context \<Rightarrow> event_row \<Rightarrow> bool" where
  "event_tenant_row t r \<longleftrightarrow> vr_org_id r = tc_org_id t \<and> vr_user_id r = tc_user_id t"

text \<open>The identifier is the primary key.\<close>

definition event_violation :: "event_row \<Rightarrow> event_row list \<Rightarrow> string option" where
  "event_violation row rows = (if \<exists>r \<in> set rows. vr_id r = vr_id row then Some ''memory_events.id'' else None)"

definition sqlite_record_event :: "row_texts \<Rightarrow> tenant_context \<Rightarrow> memory_event \<Rightarrow> memory_event event_sql" where
  "sqlite_record_event rt t e =
     seqC (liftR (ensure_event_tenant e t))
     (bindC (liftR (event_to_row rt e)) (\<lambda>row.
      seqC (sql_run ''failed to insert memory event'' (sql_insert (event_violation row) row))
      (ret e)))"

text \<open>The filters that both listings push.\<close>

definition event_filters ::
  "row_texts \<Rightarrow> uuid option \<Rightarrow> memory_event_operation option \<Rightarrow> datetime option \<Rightarrow> datetime option \<Rightarrow> event_row \<Rightarrow> bool" where
  "event_filters rt fact_id oper created_after created_before r \<longleftrightarrow>
     is_none_or fact_id (\<lambda>i. vr_fact_id r = Some (uuid_to_string i)) \<and>
     is_none_or oper (\<lambda>oper. vr_operation r = memory_event_operation_to_str oper) \<and>
     is_none_or created_after (\<lambda>d. rt_datetime_text rt d \<le> vr_created_at r) \<and>
     is_none_or created_before (\<lambda>d. vr_created_at r < rt_datetime_text rt d)"

definition event_where :: "row_texts \<Rightarrow> memory_event_query \<Rightarrow> event_row \<Rightarrow> bool" where
  "event_where rt q r \<longleftrightarrow>
     event_tenant_row (eq_tenant q) r \<and>
     event_filters rt (eq_fact_id q) (eq_operation q) (eq_created_after q) (eq_created_before q) r \<and>
     is_none_or (eq_query_text q) (\<lambda>text. push_sqlite_event_keyword_filter text False r) \<and>
     is_none_or (eq_cursor q) (push_sqlite_desc_cursor rt (vr_created_at r) (vr_id r))"

definition event_row_desc_le :: "event_row \<Rightarrow> event_row \<Rightarrow> bool" where
  "event_row_desc_le = lex_le (\<lambda>a b. vr_created_at b \<le> vr_created_at a) (\<lambda>a b. vr_id b \<le> vr_id a)"

definition sqlite_list_events :: "row_texts \<Rightarrow> memory_event_query \<Rightarrow> memory_event list event_sql" where
  "sqlite_list_events rt q =
     bindC (liftR (sql_limit ''event list limit out of range for sqlite'' (eq_limit q))) (\<lambda>limit.
     bindC (sql_run ''failed to list memory events'' (sql_select_page (event_where rt q) event_row_desc_le limit)) (\<lambda>rows.
     liftR (read_rows (row_to_memory_event rt) rows)))"

definition org_event_where :: "row_texts \<Rightarrow> org_memory_event_query \<Rightarrow> event_row \<Rightarrow> bool" where
  "org_event_where rt q r \<longleftrightarrow>
     vr_org_id r = oq_org_id q \<and>
     is_none_or (oq_user_id q) (\<lambda>u. vr_user_id r = u) \<and>
     event_filters rt (oq_fact_id q) (oq_operation q) (oq_created_after q) (oq_created_before q) r \<and>
     is_none_or (oq_query_text q) (\<lambda>text. push_sqlite_event_keyword_filter text True r) \<and>
     is_none_or (oq_cursor q) (push_sqlite_desc_cursor rt (vr_created_at r) (vr_id r))"

definition sqlite_list_events_by_org :: "row_texts \<Rightarrow> org_memory_event_query \<Rightarrow> memory_event list event_sql" where
  "sqlite_list_events_by_org rt q =
     bindC (liftR (sql_limit ''org event list limit out of range for sqlite'' (oq_limit q))) (\<lambda>limit.
     bindC (sql_run ''failed to list org memory events'' (sql_select_page (org_event_where rt q) event_row_desc_le limit)) (\<lambda>rows.
     liftR (read_rows (row_to_memory_event rt) rows)))"

definition old_event_row :: "tenant_context \<Rightarrow> string \<Rightarrow> event_row \<Rightarrow> bool" where
  "old_event_row t cutoff r \<longleftrightarrow> event_tenant_row t r \<and> vr_created_at r < cutoff"

definition sqlite_delete_events_older_than ::
  "row_texts \<Rightarrow> tenant_context \<Rightarrow> datetime \<Rightarrow> bool \<Rightarrow> nat event_sql" where
  "sqlite_delete_events_older_than rt t cutoff dry_run =
     (let cutoff_str = rt_datetime_text rt cutoff in
      if dry_run then sql_run ''failed to count events for retention'' (sql_count (old_event_row t cutoff_str))
      else sql_run ''failed to delete events for retention'' (sql_delete (old_event_row t cutoff_str)))"

definition sqlite_count_events_by_org :: "string \<Rightarrow> nat event_sql" where
  "sqlite_count_events_by_org org = sql_run ''failed to count events by org'' (sql_count (\<lambda>r. vr_org_id r = org))"

section \<open>The table as a log in memory\<close>

definition storable_event :: "row_texts \<Rightarrow> memory_event \<Rightarrow> bool" where
  "storable_event rt e \<longleftrightarrow> text_time (e_created_at e) \<and> readable rt (e_metadata e)"

definition event_table_ok :: "row_texts \<Rightarrow> event_table \<Rightarrow> bool" where
  "event_table_ok rt tb \<longleftrightarrow>
     tb_faults tb = [] \<and> (\<forall>r \<in> set (tb_rows tb). \<exists>e. storable_event rt e \<and> event_to_row rt e = Inr r)"

definition row_event :: "row_texts \<Rightarrow> event_row \<Rightarrow> memory_event" where
  "row_event rt r = projr (row_to_memory_event rt r)"

definition event_table_abs :: "row_texts \<Rightarrow> event_table \<Rightarrow> mock_event_store" where
  "event_table_abs rt tb = \<lparr>es_events = map (row_event rt) (tb_rows tb)\<rparr>"

lemma event_to_row_fields:
  assumes "event_to_row rt e = Inr r"
  shows "vr_id r = uuid_to_string (e_id e)" "vr_org_id r = e_org_id e" "vr_user_id r = e_user_id e"
    "vr_fact_id r = map_option uuid_to_string (e_fact_id e)" "vr_operation r = memory_event_operation_to_str (e_operation e)"
    "vr_previous_content r = e_previous_content e" "vr_new_content r = e_new_content e"
    "vr_provider_name r = e_provider_name e" "vr_model_name r = e_model_name e"
    "vr_created_at r = rt_datetime_text rt (e_created_at e)"
  using assms by (auto simp: event_to_row_def optional_uuid_to_str_def result_simps)

lemma storable_event_row:
  assumes "texts_inverse rt" "storable_event rt e" "event_to_row rt e = Inr r"
  shows "row_to_memory_event rt r = Inr (stored_event rt e)" "row_event rt r = stored_event rt e"
  using event_row_roundtrip [OF assms(1) _ _ assms(3)] assms(2) by (simp_all add: storable_event_def row_event_def)

lemma event_table_source:
  assumes "texts_inverse rt" "event_table_ok rt tb" "r \<in> set (tb_rows tb)"
  obtains e where "storable_event rt e" "event_to_row rt e = Inr r" "row_event rt r = stored_event rt e"
  using assms storable_event_row(2) by (auto simp: event_table_ok_def)

lemma event_table_row:
  assumes "texts_inverse rt" "event_table_ok rt tb" "r \<in> set (tb_rows tb)"
  shows "row_to_memory_event rt r = Inr (row_event rt r)"
  by (rule event_table_source [OF assms]) (simp add: storable_event_row(1) [OF assms(1)])

lemma event_table_fields:
  assumes "texts_inverse rt" "event_table_ok rt tb" "r \<in> set (tb_rows tb)"
  shows "vr_id r = uuid_to_string (e_id (row_event rt r))" "vr_org_id r = e_org_id (row_event rt r)"
    "vr_user_id r = e_user_id (row_event rt r)" "vr_fact_id r = map_option uuid_to_string (e_fact_id (row_event rt r))"
    "vr_operation r = memory_event_operation_to_str (e_operation (row_event rt r))"
    "vr_previous_content r = e_previous_content (row_event rt r)" "vr_new_content r = e_new_content (row_event rt r)"
    "vr_provider_name r = e_provider_name (row_event rt r)" "vr_model_name r = e_model_name (row_event rt r)"
    "vr_created_at r = rt_datetime_text rt (e_created_at (row_event rt r))"
  by (rule event_table_source [OF assms]; simp add: event_to_row_fields)+

lemma event_text_time:
  assumes "texts_inverse rt" "event_table_ok rt tb" "r \<in> set (tb_rows tb)"
  shows "text_time (e_created_at (row_event rt r))"
  by (rule event_table_source [OF assms]) (simp add: storable_event_def)

definition refines_log :: "row_texts \<Rightarrow> event_table \<Rightarrow> 'a event_sql \<Rightarrow> 'a event_op \<Rightarrow> bool" where
  "refines_log rt tb sql mock \<longleftrightarrow>
     event_table_ok rt (snd (sql tb)) \<and> mock (event_table_abs rt tb) = (fst (sql tb), event_table_abs rt (snd (sql tb)))"

text \<open>An event is answered as it was given; the log in memory, given the event as the table gives it back, answers with
  that.\<close>

definition written_event :: "row_texts \<Rightarrow> memory_event event_sql \<Rightarrow> memory_event event_sql" where
  "written_event rt sql tb = (map_sum id (stored_event rt) (fst (sql tb)), snd (sql tb))"

text \<open>The parts of a query that mean the same in both: no wildcard in the text, and times that the columns can hold.\<close>

definition plain_parts :: "datetime option \<Rightarrow> datetime option \<Rightarrow> string option \<Rightarrow> page_cursor option \<Rightarrow> bool" where
  "plain_parts created_after created_before query_text cursor \<longleftrightarrow>
     is_none_or created_after text_time \<and> is_none_or created_before text_time \<and>
     is_none_or query_text (\<lambda>text. wildcard_free text \<and> text \<noteq> []) \<and>
     is_none_or cursor (\<lambda>c. text_time (last_sort_value c))"

lemma event_operation_to_str_inj [simp]:
  "memory_event_operation_to_str a = memory_event_operation_to_str b \<longleftrightarrow> a = b"
  by (metis event_operation_row sum.inject(2))

lemma keyword_like_opt_contains:
  "wildcard_free text \<Longrightarrow> text \<noteq> [] \<Longrightarrow> keyword_like_opt text v \<longleftrightarrow> optional_contains v text"
  by (auto simp: keyword_like_opt_def keyword_like_contains optional_contains_def contains_case_insensitive_def
      to_ascii_lowercase_def split: option.splits)

lemma event_parts:
  assumes "texts_inverse rt" "texts_ordered rt" "event_table_ok rt tb" "r \<in> set (tb_rows tb)"
    and "plain_parts created_after created_before query_text cursor"
  defines "e \<equiv> row_event rt r"
  shows "event_filters rt fact_id oper created_after created_before r \<longleftrightarrow>
      is_none_or fact_id (\<lambda>i. e_fact_id e = Some i) \<and> is_none_or oper (\<lambda>oper. e_operation e = oper) \<and>
      is_none_or created_after (\<lambda>d. d \<le> e_created_at e) \<and> is_none_or created_before (\<lambda>d. e_created_at e < d)"
    "is_none_or query_text (\<lambda>text. push_sqlite_event_keyword_filter text b r) \<longleftrightarrow>
      is_none_or query_text (\<lambda>text. event_matches_keyword e text b)"
    "is_none_or cursor (push_sqlite_desc_cursor rt (vr_created_at r) (vr_id r)) \<longleftrightarrow> event_after_cursor cursor e"
proof -
  note f = event_table_fields [OF assms(1,3,4), folded e_def] and t = event_text_time [OF assms(1,3,4), folded e_def]
  have times: "is_none_or created_after text_time" "is_none_or created_before text_time"
    using assms(5) by (simp_all add: plain_parts_def)
  have "is_none_or fact_id (\<lambda>i. vr_fact_id r = Some (uuid_to_string i)) \<longleftrightarrow> is_none_or fact_id (\<lambda>i. e_fact_id e = Some i)"
    by (cases fact_id) (auto simp: f)
  moreover have "is_none_or created_after (\<lambda>d. rt_datetime_text rt d \<le> vr_created_at r)
      \<longleftrightarrow> is_none_or created_after (\<lambda>d. d \<le> e_created_at e)"
    using times(1) by (cases created_after) (simp_all add: f texts_le [OF assms(2) _ t])
  moreover have "is_none_or created_before (\<lambda>d. vr_created_at r < rt_datetime_text rt d)
      \<longleftrightarrow> is_none_or created_before (\<lambda>d. e_created_at e < d)"
    using times(2) by (cases created_before) (simp_all add: f texts_less [OF assms(2) t])
  ultimately show "event_filters rt fact_id oper created_after created_before r \<longleftrightarrow>
      is_none_or fact_id (\<lambda>i. e_fact_id e = Some i) \<and> is_none_or oper (\<lambda>oper. e_operation e = oper) \<and>
      is_none_or created_after (\<lambda>d. d \<le> e_created_at e) \<and> is_none_or created_before (\<lambda>d. e_created_at e < d)"
    by (simp only: event_filters_def f(5) event_operation_to_str_inj)
  show "is_none_or query_text (\<lambda>text. push_sqlite_event_keyword_filter text b r) \<longleftrightarrow>
      is_none_or query_text (\<lambda>text. event_matches_keyword e text b)"
    using assms(5) by (cases query_text)
      (simp_all add: plain_parts_def push_sqlite_event_keyword_filter_def event_matches_keyword_def f
        keyword_like_opt_contains keyword_like_contains)
  show "is_none_or cursor (push_sqlite_desc_cursor rt (vr_created_at r) (vr_id r)) \<longleftrightarrow> event_after_cursor cursor e"
    using assms(5) cursor_row [OF assms(1,2) t] by (cases cursor) (simp_all add: plain_parts_def event_after_cursor_def f)
qed

lemma event_row_order:
  assumes "texts_inverse rt" "texts_ordered rt" "event_table_ok rt tb" "r \<in> set (tb_rows tb)" "r' \<in> set (tb_rows tb)"
  shows "event_row_desc_le r r' \<longleftrightarrow> event_desc_le (row_event rt r) (row_event rt r')"
proof -
  have le: "uuid_to_string u \<le> uuid_to_string v \<longleftrightarrow> u \<le> v" for u v
    by (simp add: uuid_to_string_less flip: not_less)
  note r = event_table_fields(1,10) [OF assms(1,3,4)] event_table_fields(1,10) [OF assms(1,3,5)]
    and t = event_text_time [OF assms(1,3,4)] event_text_time [OF assms(1,3,5)]
  show ?thesis
    by (simp add: event_row_desc_le_def event_desc_le_def lex_le_def r texts_le [OF assms(2) t] texts_le [OF assms(2) t(2,1)] le)
qed

text \<open>A page of rows, read back, is the page of the events that the conditions select.\<close>

lemma event_page:
  assumes "texts_inverse rt" "texts_ordered rt" "event_table_ok rt tb"
    and p: "\<And>r. r \<in> set (tb_rows tb) \<Longrightarrow> p r \<longleftrightarrow> q (row_event rt r)"
  shows "read_rows (row_to_memory_event rt) (take n (sort_by event_row_desc_le (filter p (tb_rows tb))))
    = Inr (take n (sort_by event_desc_le (filter q (map (row_event rt) (tb_rows tb)))))"
proof -
  let ?page = "take n (sort_by event_row_desc_le (filter p (tb_rows tb)))"
  have "r \<in> set (tb_rows tb)" if "r \<in> set ?page" for r
    using set_take_subset that by fastforce
  then have "read_rows (row_to_memory_event rt) ?page = Inr (map (row_event rt) ?page)"
    by (intro read_rows_map event_table_row [OF assms(1,3)])
  moreover have "map (row_event rt) (sort_by event_row_desc_le (filter p (tb_rows tb)))
      = sort_by event_desc_le (map (row_event rt) (filter p (tb_rows tb)))"
    by (rule sort_by_map) (rule event_row_order [OF assms(1-3)]; simp)
  moreover have "map (row_event rt) (filter p (tb_rows tb)) = filter q (map (row_event rt) (tb_rows tb))"
    by (rule filter_map_cong) (rule p)
  ultimately show ?thesis by (simp only: take_map [symmetric])
qed

lemma list_events_refines:
  assumes "texts_inverse rt" "texts_ordered rt" "event_table_ok rt tb"
    and "eq_limit q \<le> MAX_MEMORY_EVENT_LIST_LIMIT"
    and plain: "plain_parts (eq_created_after q) (eq_created_before q) (eq_query_text q) (eq_cursor q)"
  shows "refines_log rt tb (sqlite_list_events rt q) (list_events q)"
proof -
  have hit: "event_where rt q r \<longleftrightarrow> event_query_hits q (row_event rt r) \<and> event_after_cursor (eq_cursor q) (row_event rt r)"
    if "r \<in> set (tb_rows tb)" for r
  proof -
    have "event_tenant_row (eq_tenant q) r \<longleftrightarrow> event_matches_tenant (row_event rt r) (eq_tenant q)"
      by (simp add: event_tenant_row_def event_matches_tenant_def event_table_fields(2,3) [OF assms(1,3) that])
    then show ?thesis
      unfolding event_where_def event_query_hits_def event_parts [OF assms(1-3) that plain] by blast
  qed
  have l: "sql_limit c (eq_limit q) = Inr (page_fetch_limit (eq_limit q))" for c
    using assms(4) by (simp add: MAX_MEMORY_EVENT_LIST_LIMIT_def)
  have n: "\<exists>m. normalize_event_list_limit (eq_limit q) = Inr m"
    using assms(4) by (simp add: normalize_event_list_limit_def)
  have f: "tb_faults tb = []" using assms(3) by (simp add: event_table_ok_def)
  have "sqlite_list_events rt q tb = (Inr (take (page_fetch_limit (eq_limit q)) (sort_by event_desc_le
      (filter (\<lambda>e. event_query_hits q e \<and> event_after_cursor (eq_cursor q) e) (map (row_event rt) (tb_rows tb))))), tb)"
    unfolding sqlite_list_events_def using f l event_page [where q =
        "\<lambda>e. event_query_hits q e \<and> event_after_cursor (eq_cursor q) e", OF assms(1-3) hit] by simp
  with n assms(3) show ?thesis
    by (auto simp: refines_log_def list_events_def event_table_abs_def)
qed

lemma list_org_events_refines:
  assumes "texts_inverse rt" "texts_ordered rt" "event_table_ok rt tb"
    and "0 < oq_limit q" "oq_limit q \<le> MAX_MEMORY_EVENT_LIST_LIMIT"
    and plain: "plain_parts (oq_created_after q) (oq_created_before q) (oq_query_text q) (oq_cursor q)"
  shows "refines_log rt tb (sqlite_list_events_by_org rt q) (list_events_by_org q)"
proof -
  have hit: "org_event_where rt q r \<longleftrightarrow> org_event_query_hits q (row_event rt r) \<and> event_after_cursor (oq_cursor q) (row_event rt r)"
    if "r \<in> set (tb_rows tb)" for r
    unfolding org_event_where_def org_event_query_hits_def event_parts [OF assms(1-3) that plain]
      event_table_fields(2,3) [OF assms(1,3) that] by blast
  have l: "sql_limit c (oq_limit q) = Inr (page_fetch_limit (oq_limit q))" for c
    using assms(5) by (simp add: MAX_MEMORY_EVENT_LIST_LIMIT_def)
  have n: "normalize_event_list_limit (oq_limit q) = Inr (oq_limit q)"
    using assms(4,5) by (simp add: normalize_event_list_limit_def)
  have f: "tb_faults tb = []" using assms(3) by (simp add: event_table_ok_def)
  have "sqlite_list_events_by_org rt q tb = (Inr (take (page_fetch_limit (oq_limit q)) (sort_by event_desc_le
      (filter (\<lambda>e. org_event_query_hits q e \<and> event_after_cursor (oq_cursor q) e) (map (row_event rt) (tb_rows tb))))), tb)"
    unfolding sqlite_list_events_by_org_def using f l event_page [where q =
        "\<lambda>e. org_event_query_hits q e \<and> event_after_cursor (oq_cursor q) e", OF assms(1-3) hit] by simp
  with n assms(3) show ?thesis
    by (auto simp: refines_log_def list_events_by_org_def event_table_abs_def)
qed

lemma record_event_refines:
  assumes "texts_inverse rt" "event_table_ok rt tb" "storable_event rt e"
    and fresh: "\<forall>e' \<in> set (es_events (event_table_abs rt tb)). e_id e' \<noteq> e_id e"
  shows "refines_log rt tb (written_event rt (sqlite_record_event rt t e)) (record_event t (stored_event rt e))"
proof -
  have same: "event_matches_tenant (stored_event rt e) t \<longleftrightarrow> event_matches_tenant e t" by (simp add: event_matches_tenant_def)
  have f: "tb_faults tb = []" using assms(2) by (simp add: event_table_ok_def)
  from assms(3) obtain row where row: "event_to_row rt e = Inr row"
    by (auto simp: storable_event_def readable_def event_to_row_def metadata_to_str_def map_err_to_def)
  have "event_violation row (tb_rows tb) = None"
    using fresh event_table_fields(1) [OF assms(1,2)] event_to_row_fields(1) [OF row]
    by (auto simp: event_violation_def event_table_abs_def)
  then have "sqlite_record_event rt t e tb = (if event_matches_tenant e t
      then (Inr e, tb\<lparr>tb_rows := tb_rows tb @ [row]\<rparr>) else (Inl Forbidden, tb))"
    using f row by (simp add: sqlite_record_event_def ensure_event_tenant_def)
  moreover have "event_table_ok rt (tb\<lparr>tb_rows := tb_rows tb @ [row]\<rparr>)"
    using assms(2,3) row by (auto simp: event_table_ok_def)
  ultimately show ?thesis
    using assms(2) storable_event_row(2) [OF assms(1,3) row]
    by (simp add: refines_log_def written_event_def same record_event_def ensure_event_tenant_def event_table_abs_def)
qed

lemma delete_events_refines:
  assumes "texts_inverse rt" "texts_ordered rt" "event_table_ok rt tb" "text_time cutoff"
  shows "refines_log rt tb (sqlite_delete_events_older_than rt t cutoff dry) (delete_events_older_than t cutoff dry)"
proof -
  let ?p = "old_event_row t (rt_datetime_text rt cutoff)"
  let ?old = "\<lambda>e. event_matches_tenant e t \<and> e_created_at e < cutoff"
  let ?log = "map (row_event rt) (tb_rows tb)"
  have f: "tb_faults tb = []" using assms(3) by (simp add: event_table_ok_def)
  have hit: "?p r \<longleftrightarrow> ?old (row_event rt r)" if "r \<in> set (tb_rows tb)" for r
    by (simp add: old_event_row_def event_tenant_row_def event_matches_tenant_def
        event_table_fields(2,3,10) [OF assms(1,3) that] texts_less [OF assms(2) event_text_time [OF assms(1,3) that] assms(4)])
  have "map (row_event rt) (filter ?p (tb_rows tb)) = filter ?old ?log"
    by (rule filter_map_cong) (rule hit)
  then have n: "length (filter ?p (tb_rows tb)) = length (filter ?old ?log)" by (metis length_map)
  have k: "map (row_event rt) (filter (\<lambda>r. \<not> ?p r) (tb_rows tb)) = filter (\<lambda>e. \<not> ?old e) ?log"
    by (rule filter_map_cong) (simp add: hit)
  have "event_table_ok rt (tb\<lparr>tb_rows := filter (\<lambda>r. \<not> ?p r) (tb_rows tb)\<rparr>)"
    using assms(3) by (auto simp: event_table_ok_def)
  moreover have "length ?log - length (filter (\<lambda>e. \<not> ?old e) ?log) = length (filter ?old ?log)"
    by (rule length_filter_complement)
  moreover have "filter (\<lambda>e. e_created_at e < cutoff) (filter (\<lambda>e. event_matches_tenant e t) ?log) = filter ?old ?log"
    by (simp add: conj_commute)
  ultimately show ?thesis
    using f n k assms(3)
    by (cases dry) (simp_all add: refines_log_def sqlite_delete_events_older_than_def delete_events_older_than_def
        event_table_abs_def Let_def del: filter_filter)
qed

lemma count_events_refines:
  assumes "texts_inverse rt" "event_table_ok rt tb"
  shows "refines_log rt tb (sqlite_count_events_by_org org) (count_events_by_org org)"
proof -
  have f: "tb_faults tb = []" using assms(2) by (simp add: event_table_ok_def)
  have "map (row_event rt) (filter (\<lambda>r. vr_org_id r = org) (tb_rows tb))
      = filter (\<lambda>e. e_org_id e = org) (map (row_event rt) (tb_rows tb))"
    by (rule filter_map_cong) (simp add: event_table_fields(2) [OF assms])
  then have "length (filter (\<lambda>r. vr_org_id r = org) (tb_rows tb))
      = length (filter (\<lambda>e. e_org_id e = org) (map (row_event rt) (tb_rows tb)))"
    by (metis length_map)
  with f assms(2) show ?thesis
    by (simp add: refines_log_def sqlite_count_events_by_org_def count_events_by_org_def event_table_abs_def)
qed

lemma event_errors_change_nothing:
  "rows_kept_on_error (sqlite_record_event rt t e)" "rows_kept_on_error (sqlite_delete_events_older_than rt t cutoff dry)"
  unfolding sqlite_record_event_def sqlite_delete_events_older_than_def Let_def by (rule rows_kept)+

section \<open>The refinement\<close>


definition sample_log_event :: "uuid \<Rightarrow> tenant_context \<Rightarrow> datetime \<Rightarrow> memory_event" where
  "sample_log_event i t stamp = memory_event_new i stamp (tc_org_id t) (tc_user_id t) (Some 7) EvAdd None (Some ''likes tea'') None None JNull"

definition empty_event_table :: event_table where
  "empty_event_table = \<lparr>tb_rows = [], tb_faults = [], tb_violation = (\<lambda>column. ''UNIQUE constraint failed: '' @ column)\<rparr>"

definition alice_log_table :: event_table where
  "alice_log_table = snd (sqlite_record_event sample_texts alice (sample_log_event 1 alice 10) empty_event_table)"

lemma sample_event_storable: "text_time stamp \<Longrightarrow> storable_event sample_texts (sample_log_event i t stamp)"
  by (simp add: storable_event_def sample_log_event_def memory_event_new_def readable_def sample_texts_def)

lemma alice_log_table_ok: "event_table_ok sample_texts alice_log_table"
proof -
  have "event_table_ok sample_texts empty_event_table" by (simp add: event_table_ok_def empty_event_table_def)
  from record_event_refines [OF sample_texts_inverse this sample_event_storable [of 10]]
  show ?thesis by (simp add: alice_log_table_def refines_log_def written_event_def text_time_def event_table_abs_def empty_event_table_def)
qed


end
