(* ===== verification/Sql_Locks.thy ===== *)
theory Sql_Locks
  imports Sql_Table Job_Store
begin

text \<open>
  \<^verbatim>\<open>crates/memcore-storage/src/jobs/locks/sqlite.rs\<close>: the locks that instances share through the table
  \<open>background_job_locks\<close>, and their refinement of the store in memory. An acquisition is a transaction: an error
  in it, or at its end, brings the rows back.
\<close>

section \<open>Operations\<close>

record lock_row =
  lr_kind :: string
  lr_owner_id :: string
  lr_locked_until :: string
  lr_acquired_at :: string
  lr_heartbeat_at :: "string option"

type_synonym lock_table = "lock_row sql_table"
type_synonym 'a lock_sql = "(lock_table, memcore_error, 'a) comp"

definition lock_datetime_from_str :: "row_texts \<Rightarrow> string \<Rightarrow> datetime memcore_result" where
  "lock_datetime_from_str rt v =
     map_err_to (sql_error ''parse sqlite background job lock timestamp'') (rt_parse_datetime rt v)"

definition row_to_lock :: "row_texts \<Rightarrow> lock_row \<Rightarrow> job_lock_record memcore_result" where
  "row_to_lock rt r =
     and_then (job_kind_from_str (lr_kind r)) (\<lambda>kind.
     and_then (lock_datetime_from_str rt (lr_locked_until r)) (\<lambda>locked_until.
     and_then (lock_datetime_from_str rt (lr_acquired_at r)) (\<lambda>acquired_at.
     and_then (case lr_heartbeat_at r of
         None \<Rightarrow> Inr None
       | Some v \<Rightarrow> and_then (lock_datetime_from_str rt v) (\<lambda>d. Inr (Some d))) (\<lambda>heartbeat_at.
     Inr \<lparr>jl_kind = kind, jl_owner_id = lr_owner_id r, jl_locked_until = locked_until, jl_acquired_at = acquired_at,
          jl_heartbeat_at = heartbeat_at\<rparr>))))"

definition kind_row :: "background_job_kind \<Rightarrow> lock_row \<Rightarrow> bool" where
  "kind_row kind r \<longleftrightarrow> lr_kind r = job_kind_as_str kind"

definition fetch_lock :: "row_texts \<Rightarrow> background_job_kind \<Rightarrow> job_lock_record option lock_sql" where
  "fetch_lock rt kind =
     bindC (sql_run ''fetch sqlite background job lock'' (sql_select (kind_row kind))) (\<lambda>rows.
     case rows of
       [] \<Rightarrow> ret None
     | r # _ \<Rightarrow> bindC (liftR (row_to_lock rt r)) (\<lambda>l. ret (Some l)))"

text \<open>\<open>begin\<close>, the body, \<open>commit\<close>; the transaction is rolled back when it is dropped.\<close>

definition sql_begin :: "('r, unit) sql_statement" where
  "sql_begin rows = (Inr (), rows)"

definition lock_transaction :: "'a lock_sql \<Rightarrow> 'a lock_sql" where
  "lock_transaction body tb =
     (case seqC (sql_run ''begin sqlite background job lock transaction'' sql_begin)
        (bindC body (\<lambda>a. seqC (sql_run ''commit sqlite background job lock transaction'' sql_begin) (ret a))) tb of
        (Inl e, tb') \<Rightarrow> (Inl e, tb'\<lparr>tb_rows := tb_rows tb\<rparr>)
      | (Inr a, tb') \<Rightarrow> (Inr a, tb'))"

definition lock_violation :: "string \<Rightarrow> lock_row list \<Rightarrow> string option" where
  "lock_violation kind rows = (if \<exists>r \<in> set rows. lr_kind r = kind then Some ''background_job_locks.kind'' else None)"

definition write_lock :: "row_texts \<Rightarrow> datetime \<Rightarrow> datetime \<Rightarrow> background_job_kind \<Rightarrow> string \<Rightarrow> bool \<Rightarrow> unit lock_sql" where
  "write_lock rt now locked_until kind owner exists =
     (if exists
      then seqC (sql_run ''update sqlite background job lock'' (sql_update None (kind_row kind)
          (\<lambda>r. r\<lparr>lr_owner_id := owner, lr_locked_until := rt_datetime_text rt locked_until,
               lr_acquired_at := rt_datetime_text rt now, lr_heartbeat_at := None\<rparr>))) (ret ())
      else sql_run ''insert sqlite background job lock'' (sql_insert (lock_violation (job_kind_as_str kind))
          \<lparr>lr_kind = job_kind_as_str kind, lr_owner_id = owner, lr_locked_until = rt_datetime_text rt locked_until,
           lr_acquired_at = rt_datetime_text rt now, lr_heartbeat_at = None\<rparr>))"

definition acquire_body ::
  "row_texts \<Rightarrow> datetime \<Rightarrow> datetime \<Rightarrow> background_job_kind \<Rightarrow> string \<Rightarrow> acquired_job_lock option lock_sql" where
  "acquire_body rt now locked_until kind owner =
     bindC (fetch_lock rt kind) (\<lambda>existing.
     if (case existing of None \<Rightarrow> False | Some l \<Rightarrow> now < jl_locked_until l \<and> jl_owner_id l \<noteq> owner) then ret None
     else seqC (write_lock rt now locked_until kind owner (existing \<noteq> None))
       (ret (Some \<lparr>al_kind = kind, al_owner_id = owner, al_locked_until = locked_until\<rparr>)))"

definition or_panic :: "datetime outcome \<Rightarrow> (datetime \<Rightarrow> 'a lock_sql) \<Rightarrow> (lock_table, fault, 'a) comp" where
  "or_panic r f tb = (case r of Inl e \<Rightarrow> (Inl e, tb) | Inr d \<Rightarrow> (case f d tb of (x, tb') \<Rightarrow> (lift_err x, tb')))"

definition sqlite_try_acquire_lock ::
  "row_texts \<Rightarrow> time_range \<Rightarrow> datetime \<Rightarrow> background_job_kind \<Rightarrow> string \<Rightarrow> nat \<Rightarrow>
   (lock_table, fault, acquired_job_lock option) comp" where
  "sqlite_try_acquire_lock rt tr now kind owner ttl =
     or_panic (lock_until_from_ttl tr now ttl) (\<lambda>locked_until.
       lock_transaction (acquire_body rt now locked_until kind owner))"

definition owned_row :: "background_job_kind \<Rightarrow> string \<Rightarrow> lock_row \<Rightarrow> bool" where
  "owned_row kind owner r \<longleftrightarrow> kind_row kind r \<and> lr_owner_id r = owner"

definition sqlite_renew_lock ::
  "row_texts \<Rightarrow> time_range \<Rightarrow> datetime \<Rightarrow> background_job_kind \<Rightarrow> string \<Rightarrow> nat \<Rightarrow> (lock_table, fault, bool) comp" where
  "sqlite_renew_lock rt tr now kind owner ttl =
     or_panic (lock_until_from_ttl tr now ttl) (\<lambda>locked_until.
       bindC (sql_run ''renew sqlite background job lock'' (sql_update None (owned_row kind owner)
         (\<lambda>r. r\<lparr>lr_locked_until := rt_datetime_text rt locked_until, lr_heartbeat_at := Some (rt_datetime_text rt now)\<rparr>)))
       (\<lambda>affected. ret (0 < affected)))"

definition sqlite_release_lock :: "background_job_kind \<Rightarrow> string \<Rightarrow> bool lock_sql" where
  "sqlite_release_lock kind owner =
     bindC (sql_run ''release sqlite background job lock'' (sql_delete (owned_row kind owner)))
       (\<lambda>affected. ret (0 < affected))"

definition sqlite_get_lock :: "row_texts \<Rightarrow> background_job_kind \<Rightarrow> job_lock_record option lock_sql" where
  "sqlite_get_lock rt kind = fetch_lock rt kind"

section \<open>The table as locks in memory\<close>

definition lock_times :: "job_lock_record \<Rightarrow> bool" where
  "lock_times l \<longleftrightarrow> text_time (jl_locked_until l) \<and> text_time (jl_acquired_at l) \<and> pred_option text_time (jl_heartbeat_at l)"

definition lock_to_row :: "row_texts \<Rightarrow> job_lock_record \<Rightarrow> lock_row" where
  "lock_to_row rt l =
     \<lparr>lr_kind = job_kind_as_str (jl_kind l), lr_owner_id = jl_owner_id l, lr_locked_until = rt_datetime_text rt (jl_locked_until l),
      lr_acquired_at = rt_datetime_text rt (jl_acquired_at l), lr_heartbeat_at = map_option (rt_datetime_text rt) (jl_heartbeat_at l)\<rparr>"

text \<open>The rows are those of locks \<open>ls\<close>, at most one of each kind.\<close>

definition lock_table_of :: "row_texts \<Rightarrow> job_lock_record list \<Rightarrow> lock_table \<Rightarrow> bool" where
  "lock_table_of rt ls tb \<longleftrightarrow>
     tb_faults tb = [] \<and> tb_rows tb = map (lock_to_row rt) ls \<and> distinct (map jl_kind ls) \<and> (\<forall>l \<in> set ls. lock_times l)"

definition locks_of :: "job_lock_record list \<Rightarrow> job_locks" where
  "locks_of ls = map_of (map (\<lambda>l. (jl_kind l, l)) ls)"

lemma job_kind_as_str_inj [simp]: "job_kind_as_str a = job_kind_as_str b \<longleftrightarrow> a = b"
  by (cases a; cases b) simp_all

lemma kind_row_iff [simp]: "kind_row k (lock_to_row rt l) \<longleftrightarrow> jl_kind l = k"
  by (auto simp: kind_row_def lock_to_row_def)

lemma owned_row_iff [simp]: "owned_row k a (lock_to_row rt l) \<longleftrightarrow> jl_kind l = k \<and> jl_owner_id l = a"
  by (auto simp: owned_row_def lock_to_row_def kind_row_def)

lemma row_to_lock_row: "texts_inverse rt \<Longrightarrow> lock_times l \<Longrightarrow> row_to_lock rt (lock_to_row rt l) = Inr l"
  by (cases l; cases "jl_heartbeat_at l")
    (auto simp: row_to_lock_def lock_to_row_def job_kind_roundtrip lock_datetime_from_str_def texts_inverse_def
      map_err_to_def lock_times_def)

lemma locks_of_Some:
  "distinct (map jl_kind ls) \<Longrightarrow> locks_of ls k = Some l \<longleftrightarrow> l \<in> set ls \<and> jl_kind l = k"
  by (auto simp: locks_of_def comp_def intro!: map_of_is_SomeI dest!: map_of_SomeD)

lemma kind_rows:
  assumes "distinct (map jl_kind ls)"
  shows "filter (\<lambda>l. jl_kind l = k) ls = (case locks_of ls k of None \<Rightarrow> [] | Some l \<Rightarrow> [l])"
  using assms
proof (induction ls)
  case (Cons l ls)
  have "filter (\<lambda>l'. jl_kind l' = jl_kind l) ls = []"
    using Cons.prems by (auto simp: filter_empty_conv) (metis image_eqI)
  with Cons show ?case by (auto simp: locks_of_def)
qed (simp add: locks_of_def)

lemma fetch_lock_of:
  assumes "texts_inverse rt" "lock_table_of rt ls tb"
  shows "fetch_lock rt k tb = (Inr (locks_of ls k), tb)"
proof -
  from assms(2) have t: "tb_faults tb = []" "tb_rows tb = map (lock_to_row rt) ls" "distinct (map jl_kind ls)"
    by (simp_all add: lock_table_of_def)
  have "filter (kind_row k) (tb_rows tb) = map (lock_to_row rt) (filter (\<lambda>l. jl_kind l = k) ls)"
    unfolding t(2) filter_map comp_def kind_row_iff ..
  also have "\<dots> = map (lock_to_row rt) (case locks_of ls k of None \<Rightarrow> [] | Some l \<Rightarrow> [l])"
    unfolding kind_rows [OF t(3)] ..
  finally have rows: "filter (kind_row k) (tb_rows tb) = map (lock_to_row rt) (case locks_of ls k of None \<Rightarrow> [] | Some l \<Rightarrow> [l])" .
  show ?thesis
  proof (cases "locks_of ls k")
    case (Some l)
    with t(3) assms(2) have "lock_times l" by (auto simp: locks_of_Some lock_table_of_def)
    with Some rows t(1) show ?thesis by (simp add: fetch_lock_def row_to_lock_row [OF assms(1)])
  qed (use rows t(1) in \<open>simp add: fetch_lock_def\<close>)
qed

lemma locks_of_update:
  assumes "distinct (map jl_kind ls)" "\<And>l. l \<in> set ls \<Longrightarrow> jl_kind l = k \<Longrightarrow> jl_kind (g l) = k"
  shows "locks_of (map (\<lambda>l. if jl_kind l = k then g l else l) ls) = (locks_of ls)(k := map_option g (locks_of ls k))"
  using assms by (induction ls) (auto simp: locks_of_def fun_eq_iff)

lemma locks_of_delete:
  assumes "distinct (map jl_kind ls)"
  shows "locks_of (filter (\<lambda>l. jl_kind l \<noteq> k) ls) = (locks_of ls)(k := None)"
  using assms by (induction ls) (auto simp: locks_of_def fun_eq_iff)

lemma locks_of_snoc: "\<forall>l \<in> set ls. jl_kind l \<noteq> jl_kind n \<Longrightarrow> locks_of (ls @ [n]) = (locks_of ls)(jl_kind n \<mapsto> n)"
  by (induction ls) (auto simp: locks_of_def fun_eq_iff)

lemma lock_table_map:
  assumes "lock_table_of rt ls tb" "rows = map (lock_to_row rt) ls'" "distinct (map jl_kind ls')" "\<And>l. l \<in> set ls' \<Longrightarrow> lock_times l"
  shows "lock_table_of rt ls' (tb\<lparr>tb_rows := rows\<rparr>)"
  using assms by (simp add: lock_table_of_def)

lemma acquire_refines:
  assumes "texts_inverse rt" "lock_table_of rt ls tb" "text_time now" "\<And>u. lock_until_from_ttl tr now ttl = Inr u \<Longrightarrow> text_time u"
  shows "\<exists>ls'. lock_table_of rt ls' (snd (sqlite_try_acquire_lock rt tr now k a ttl tb)) \<and>
    try_acquire_lock tr now k a ttl (locks_of ls) = (fst (sqlite_try_acquire_lock rt tr now k a ttl tb), locks_of ls')"
proof (cases "lock_until_from_ttl tr now ttl")
  case (Inl e)
  with assms(2) show ?thesis by (auto simp: sqlite_try_acquire_lock_def or_panic_def try_acquire_lock_def)
next
  case (Inr u)
  let ?new = "\<lparr>jl_kind = k, jl_owner_id = a, jl_locked_until = u, jl_acquired_at = now, jl_heartbeat_at = None\<rparr>"
  let ?got = "\<lparr>al_kind = k, al_owner_id = a, al_locked_until = u\<rparr>"
  from assms(2) have t: "tb_faults tb = []" "tb_rows tb = map (lock_to_row rt) ls" "distinct (map jl_kind ls)"
    "\<forall>l \<in> set ls. lock_times l"
    by (simp_all add: lock_table_of_def)
  have new: "lock_times ?new" using assms(3) assms(4) [OF Inr] by (simp add: lock_times_def)
  have run: "lock_transaction m tb = (x, tb')" if "m tb = (x, tb')" "tb_faults tb' = []" "is_ok x" for m :: "'b lock_sql" and x tb'
    using that t(1) by (cases x) (simp_all add: lock_transaction_def sql_run_ok sql_begin_def)
  note fetch = fetch_lock_of [OF assms(1,2), of k]
  consider (held) l where "locks_of ls k = Some l" "now < jl_locked_until l" "jl_owner_id l \<noteq> a"
    | (over) l where "locks_of ls k = Some l" "\<not> (now < jl_locked_until l \<and> jl_owner_id l \<noteq> a)"
    | (free) "locks_of ls k = None"
    by (cases "locks_of ls k") auto
  then show ?thesis
  proof cases
    case held
    then have "acquire_body rt now u k a tb = (Inr None, tb)" by (simp add: acquire_body_def fetch)
    then have "lock_transaction (acquire_body rt now u k a) tb = (Inr None, tb)" by (rule run) (simp_all add: t(1))
    with held Inr assms(2) show ?thesis
      by (auto simp: sqlite_try_acquire_lock_def or_panic_def try_acquire_lock_def)
  next
    case over
    let ?ls = "map (\<lambda>l. if jl_kind l = k then ?new else l) ls"
    let ?set = "\<lambda>r. r\<lparr>lr_owner_id := a, lr_locked_until := rt_datetime_text rt u, lr_acquired_at := rt_datetime_text rt now,
        lr_heartbeat_at := None\<rparr>"
    let ?tb = "tb\<lparr>tb_rows := map (\<lambda>r. if kind_row k r then ?set r else r) (tb_rows tb)\<rparr>"
    have rows: "map (\<lambda>r. if kind_row k r then ?set r else r) (tb_rows tb) = map (lock_to_row rt) ?ls"
      unfolding t(2) by (auto simp: lock_to_row_def kind_row_def)
    have "map jl_kind ?ls = map jl_kind ls" by simp
    then have "distinct (map jl_kind ?ls)" using t(3) by (simp only:)
    then have ok: "lock_table_of rt ?ls ?tb"
      using t(4) new by (intro lock_table_map [OF assms(2) rows]) auto
    have "acquire_body rt now u k a tb = (Inr (Some ?got), ?tb)"
      using over t(1) by (auto simp: acquire_body_def fetch write_lock_def)
    moreover have "tb_faults ?tb = []" using t(1) by simp
    ultimately have "lock_transaction (acquire_body rt now u k a) tb = (Inr (Some ?got), ?tb)" by (intro run) simp_all
    moreover have "locks_of ?ls = (locks_of ls)(k \<mapsto> ?new)"
      using locks_of_update [OF t(3), of k "\<lambda>_. ?new"] over(1) by simp
    ultimately show ?thesis
      using over Inr ok by (auto simp: sqlite_try_acquire_lock_def or_panic_def try_acquire_lock_def intro!: exI [of _ ?ls])
  next
    case free
    let ?ls = "ls @ [?new]" and ?tb = "tb\<lparr>tb_rows := tb_rows tb @ [lock_to_row rt ?new]\<rparr>"
    have none: "jl_kind l \<noteq> k" if "l \<in> set ls" for l
      using free that t(3) locks_of_Some [OF t(3), of k] by (metis option.distinct(1))
    then have "lock_violation (job_kind_as_str k) (tb_rows tb) = None"
      by (auto simp: lock_violation_def t(2) lock_to_row_def)
    then have "acquire_body rt now u k a tb = (Inr (Some ?got), ?tb)"
      using free t(1) by (simp add: acquire_body_def fetch write_lock_def lock_to_row_def)
    moreover have "tb_faults ?tb = []" using t(1) by simp
    ultimately have "lock_transaction (acquire_body rt now u k a) tb = (Inr (Some ?got), ?tb)" by (intro run) simp_all
    moreover have "locks_of ?ls = (locks_of ls)(k \<mapsto> ?new)"
      using none locks_of_snoc [of ls ?new] by simp
    moreover have "lock_table_of rt ?ls ?tb"
      using t none new by (auto simp: lock_table_of_def)
    ultimately show ?thesis
      using free Inr by (auto simp: sqlite_try_acquire_lock_def or_panic_def try_acquire_lock_def intro!: exI [of _ ?ls])
  qed
qed

lemma owned_rows:
  assumes "lock_table_of rt ls tb"
  shows "0 < length (filter (owned_row k a) (tb_rows tb)) \<longleftrightarrow> map_option jl_owner_id (locks_of ls k) = Some a"
proof -
  from assms have t: "tb_rows tb = map (lock_to_row rt) ls" "distinct (map jl_kind ls)" by (simp_all add: lock_table_of_def)
  have "0 < length (filter (owned_row k a) (tb_rows tb)) \<longleftrightarrow> (\<exists>l \<in> set ls. jl_kind l = k \<and> jl_owner_id l = a)"
    by (auto simp: t(1) filter_empty_conv)
  with t(2) show ?thesis by (auto simp: locks_of_Some)
qed

lemma renew_refines:
  assumes "texts_inverse rt" "lock_table_of rt ls tb" "text_time now" "\<And>u. lock_until_from_ttl tr now ttl = Inr u \<Longrightarrow> text_time u"
  shows "\<exists>ls'. lock_table_of rt ls' (snd (sqlite_renew_lock rt tr now k a ttl tb)) \<and>
    snd (renew_lock tr now k a ttl (locks_of ls)) = locks_of ls' \<and>
    (fst (sqlite_renew_lock rt tr now k a ttl tb) = fst (renew_lock tr now k a ttl (locks_of ls)) \<or>
     fst (sqlite_renew_lock rt tr now k a ttl tb) = Inl Panic \<and> fst (renew_lock tr now k a ttl (locks_of ls)) = Inr False)"
proof (cases "lock_until_from_ttl tr now ttl")
  case (Inl e)
  with assms(2) lock_until_no_error [OF Inl] show ?thesis
    by (auto simp: sqlite_renew_lock_def or_panic_def renew_lock_def split: option.splits)
next
  case (Inr u)
  let ?g = "\<lambda>l. if jl_owner_id l = a then l\<lparr>jl_locked_until := u, jl_heartbeat_at := Some now\<rparr> else l"
  let ?ls = "map (\<lambda>l. if jl_kind l = k then ?g l else l) ls"
  let ?set = "\<lambda>r. r\<lparr>lr_locked_until := rt_datetime_text rt u, lr_heartbeat_at := Some (rt_datetime_text rt now)\<rparr>"
  let ?tb = "tb\<lparr>tb_rows := map (\<lambda>r. if owned_row k a r then ?set r else r) (tb_rows tb)\<rparr>"
  from assms(2) have t: "tb_faults tb = []" "tb_rows tb = map (lock_to_row rt) ls" "distinct (map jl_kind ls)"
    "\<forall>l \<in> set ls. lock_times l"
    by (simp_all add: lock_table_of_def)
  have rows: "map (\<lambda>r. if owned_row k a r then ?set r else r) (tb_rows tb) = map (lock_to_row rt) ?ls"
    unfolding t(2) by (auto simp: lock_to_row_def owned_row_def kind_row_def)
  have "map jl_kind ?ls = map jl_kind ls" by simp
  then have "distinct (map jl_kind ?ls)" using t(3) by (simp only:)
  then have ok: "lock_table_of rt ?ls ?tb"
    using t(4) assms(3) assms(4) [OF Inr] by (intro lock_table_map [OF assms(2) rows]) (auto simp: lock_times_def)
  have sql: "sqlite_renew_lock rt tr now k a ttl tb = (Inr (map_option jl_owner_id (locks_of ls k) = Some a), ?tb)"
    using Inr t(1) owned_rows [OF assms(2)] by (simp add: sqlite_renew_lock_def or_panic_def)
  have new: "locks_of ?ls = (locks_of ls)(k := map_option ?g (locks_of ls k))"
    by (rule locks_of_update [OF t(3)]) simp
  have "renew_lock tr now k a ttl (locks_of ls) = (Inr (map_option jl_owner_id (locks_of ls k) = Some a), locks_of ?ls)"
    unfolding new using Inr by (auto simp: renew_lock_def fun_eq_iff split: option.split)
  with sql ok show ?thesis by (intro exI [of _ ?ls]) simp
qed

lemma release_refines:
  assumes "lock_table_of rt ls tb"
  shows "\<exists>ls'. lock_table_of rt ls' (snd (sqlite_release_lock k a tb)) \<and>
    release_lock k a (locks_of ls) = (lift_err (fst (sqlite_release_lock k a tb)), locks_of ls')"
proof -
  from assms have t: "tb_faults tb = []" "tb_rows tb = map (lock_to_row rt) ls" "distinct (map jl_kind ls)"
    "\<forall>l \<in> set ls. lock_times l"
    by (simp_all add: lock_table_of_def)
  let ?ls = "filter (\<lambda>l. \<not> (jl_kind l = k \<and> jl_owner_id l = a)) ls"
  let ?tb = "tb\<lparr>tb_rows := filter (\<lambda>r. \<not> owned_row k a r) (tb_rows tb)\<rparr>"
  have rows: "filter (\<lambda>r. \<not> owned_row k a r) (tb_rows tb) = map (lock_to_row rt) ?ls"
    by (simp add: t(2) filter_map comp_def)
  have ok: "lock_table_of rt ?ls ?tb"
    using t(3,4) by (intro lock_table_map [OF assms rows]) (auto simp: distinct_map_filter)
  have sql: "sqlite_release_lock k a tb = (Inr (map_option jl_owner_id (locks_of ls k) = Some a), ?tb)"
    using t(1) owned_rows [OF assms] by (simp add: sqlite_release_lock_def)
  have "locks_of ?ls = (if map_option jl_owner_id (locks_of ls k) = Some a then (locks_of ls)(k := None) else locks_of ls)"
  proof (cases "map_option jl_owner_id (locks_of ls k) = Some a")
    case True
    then obtain l0 where l0: "locks_of ls k = Some l0" "jl_owner_id l0 = a" by auto
    have "(jl_kind l = k \<and> jl_owner_id l = a) = (jl_kind l = k)" if "l \<in> set ls" for l
      using that l0 locks_of_Some [OF t(3), of k l] by auto
    then have "?ls = filter (\<lambda>l. jl_kind l \<noteq> k) ls" by (intro filter_cong) auto
    with True locks_of_delete [OF t(3)] show ?thesis by simp
  next
    case False
    then have "?ls = ls" using locks_of_Some [OF t(3)] by (intro filter_True) fastforce
    with False show ?thesis by (simp only: if_False)
  qed
  with sql ok show ?thesis by (intro exI [of _ ?ls]) (auto simp: release_lock_def)
qed

section \<open>Leases of instances that share a database\<close>

definition sqlite_lock_op :: "row_texts \<Rightarrow> time_range \<Rightarrow> lock_op \<Rightarrow> lock_table \<Rightarrow> lock_table" where
  "sqlite_lock_op rt tr oper tb =
     (case oper of OpAcquire now k b ttl \<Rightarrow> snd (sqlite_try_acquire_lock rt tr now k b ttl tb)
      | OpRenew now k b ttl \<Rightarrow> snd (sqlite_renew_lock rt tr now k b ttl tb)
      | OpRelease now k b \<Rightarrow> snd (sqlite_release_lock k b tb))"

text \<open>The times of an operation are ones the columns can hold.\<close>

fun op_times :: "time_range \<Rightarrow> lock_op \<Rightarrow> bool" where
  "op_times tr (OpAcquire now k b ttl) \<longleftrightarrow> text_time now \<and> (case lock_until_from_ttl tr now ttl of Inl _ \<Rightarrow> True | Inr u \<Rightarrow> text_time u)"
| "op_times tr (OpRenew now k b ttl) \<longleftrightarrow> text_time now \<and> (case lock_until_from_ttl tr now ttl of Inl _ \<Rightarrow> True | Inr u \<Rightarrow> text_time u)"
| "op_times tr (OpRelease now k b) \<longleftrightarrow> True"

lemma sqlite_lock_op_refines:
  assumes "texts_inverse rt" "lock_table_of rt ls tb" "op_times tr oper"
  shows "\<exists>ls'. lock_table_of rt ls' (sqlite_lock_op rt tr oper tb) \<and> locks_of ls' = apply_lock_op tr oper (locks_of ls)"
proof (cases oper)
  case (OpAcquire now k b ttl)
  with assms(3) have "text_time now" "\<And>u. lock_until_from_ttl tr now ttl = Inr u \<Longrightarrow> text_time u" by simp_all
  from acquire_refines [where k = k and a = b, OF assms(1,2) this] OpAcquire show ?thesis
    by (force simp: sqlite_lock_op_def apply_lock_op_def)
next
  case (OpRenew now k b ttl)
  with assms(3) have "text_time now" "\<And>u. lock_until_from_ttl tr now ttl = Inr u \<Longrightarrow> text_time u" by simp_all
  from renew_refines [where k = k and a = b, OF assms(1,2) this] OpRenew show ?thesis
    by (force simp: sqlite_lock_op_def apply_lock_op_def)
next
  case (OpRelease now k b)
  from release_refines [OF assms(2), of k b] OpRelease show ?thesis
    by (force simp: sqlite_lock_op_def apply_lock_op_def)
qed

lemma sqlite_lock_ops_refine:
  assumes "texts_inverse rt" "lock_table_of rt ls tb" "\<forall>oper \<in> set ops. op_times tr oper"
  shows "\<exists>ls'. lock_table_of rt ls' (fold (sqlite_lock_op rt tr) ops tb) \<and> locks_of ls' = fold (apply_lock_op tr) ops (locks_of ls)"
  using assms(2,3)
proof (induction ops arbitrary: ls tb)
  case (Cons oper ops)
  from sqlite_lock_op_refines [OF assms(1) Cons.prems(1), of tr oper] Cons.prems(2) obtain ls1
    where "lock_table_of rt ls1 (sqlite_lock_op rt tr oper tb)" "locks_of ls1 = apply_lock_op tr oper (locks_of ls)" by auto
  with Cons.IH [OF this(1)] Cons.prems(2) show ?case by auto
qed auto

text \<open>C38: A lease in the shared database is exclusive: after an instance has acquired a job's lock through the table, whatever
  acquisitions, renewals and releases other instances make before it expires, in any order, no other instance gets it
  before then (it is refused, or the end of its own lease is beyond the end of time and it panics), and the owner can
  release it.\<close>

theorem sqlite_lease_exclusive:
  assumes "texts_inverse rt" and "lock_table_of rt ls tb" and "op_times tr (OpAcquire now k a ttl)"
    and "sqlite_try_acquire_lock rt tr now k a ttl tb = (Inr (Some l), tb1)"
    and "\<forall>oper \<in> set ops. op_times tr oper \<and> op_owner oper \<noteq> a \<and> op_now oper < al_locked_until l"
    and "tb2 = fold (sqlite_lock_op rt tr) ops tb1"
  shows "(\<forall>b t ttl'. b \<noteq> a \<longrightarrow> t < al_locked_until l \<longrightarrow> op_times tr (OpAcquire t k b ttl') \<longrightarrow>
      fst (sqlite_try_acquire_lock rt tr t k b ttl' tb2) \<in> {Inr None, Inl Panic}) \<and>
    fst (sqlite_release_lock k a tb2) = Inr True"
proof -
  have acq: "\<exists>ls'. lock_table_of rt ls' (snd (sqlite_try_acquire_lock rt tr t k b ttl' tb')) \<and>
      try_acquire_lock tr t k b ttl' (locks_of ls0) = (fst (sqlite_try_acquire_lock rt tr t k b ttl' tb'), locks_of ls')"
    if "lock_table_of rt ls0 tb'" "op_times tr (OpAcquire t k b ttl')" for ls0 tb' t b ttl'
    using that(2) by (intro acquire_refines [OF assms(1) that(1)]) simp_all
  from acq [OF assms(2,3)] assms(4) obtain ls1 where ls1: "lock_table_of rt ls1 tb1"
    "try_acquire_lock tr now k a ttl (locks_of ls) = (Inr (Some l), locks_of ls1)" by auto
  from sqlite_lock_ops_refine [OF assms(1) ls1(1), of ops tr] assms(5,6) obtain ls2 where ls2: "lock_table_of rt ls2 tb2"
    "locks_of ls2 = fold (apply_lock_op tr) ops (locks_of ls1)" by auto
  note ex = mock_locks.lease_exclusive [OF ls1(2), of ops, folded apply_lock_op_eq ls2(2)]
  have "fst (sqlite_try_acquire_lock rt tr t k b ttl' tb2) = fst (try_acquire_lock tr t k b ttl' (locks_of ls2))"
    if "op_times tr (OpAcquire t k b ttl')" for t b ttl'
    using acq [OF ls2(1) that] by auto
  moreover have "lift_err (fst (sqlite_release_lock k a tb2)) = fst (release_lock k a (locks_of ls2))"
    using release_refines [OF ls2(1), of k a] by auto
  ultimately show ?thesis
    using ex assms(5) by (auto simp: lift_err_eq_Inr)
qed

theorem sqlite_lease_exclusive_witness:
  "fst (sqlite_try_acquire_lock sample_texts \<lparr>t_min = - 1000, t_max = 1000\<rparr> 7 MemoryRetention ''b'' 10
     (fold (sqlite_lock_op sample_texts \<lparr>t_min = - 1000, t_max = 1000\<rparr>)
       [OpAcquire 5 MemoryRetention ''b'' 10, OpRelease 6 MemoryRetention ''b'']
       (snd (sqlite_try_acquire_lock sample_texts \<lparr>t_min = - 1000, t_max = 1000\<rparr> 0 MemoryRetention ''a'' 10
         \<lparr>tb_rows = [], tb_faults = [], tb_violation = id\<rparr>)))) \<in> {Inr None, Inl Panic}"
proof -
  let ?tr = "\<lparr>t_min = - 1000, t_max = 1000\<rparr> :: time_range" and ?tb = "\<lparr>tb_rows = [], tb_faults = [], tb_violation = id\<rparr> :: lock_table"
  let ?ops = "[OpAcquire 5 MemoryRetention ''b'' 10, OpRelease 6 MemoryRetention ''b'']"
  let ?l = "\<lparr>al_kind = MemoryRetention, al_owner_id = ''a'', al_locked_until = 10\<rparr>"
  have tb: "lock_table_of sample_texts [] ?tb" by (simp add: lock_table_of_def)
  have times: "op_times ?tr (OpAcquire t k b 10)" if "t \<in> {0, 5, 7}" for t k b
    using that by (auto simp: lock_until_from_ttl_def from_std_def time_offset_def text_time_def)
  have "sqlite_try_acquire_lock sample_texts ?tr 0 MemoryRetention ''a'' 10 ?tb
      = (Inr (Some ?l), snd (sqlite_try_acquire_lock sample_texts ?tr 0 MemoryRetention ''a'' 10 ?tb))"
    by (simp add: sqlite_try_acquire_lock_def or_panic_def lock_until_from_ttl_def from_std_def time_offset_def
        lock_transaction_def acquire_body_def fetch_lock_of [OF sample_texts_inverse tb] locks_of_def write_lock_def
        lock_violation_def sql_run_ok sql_begin_def)
  from sqlite_lease_exclusive [OF sample_texts_inverse tb times this, of ?ops] times show ?thesis by simp
qed

end
