(* ===== verification/Rate_Limit.thy ===== *)
theory Rate_Limit
  imports Prelude
begin

text \<open>
  \<^verbatim>\<open>crates/memcore-api/src/middleware/rate_limit.rs\<close>: requests are counted per organisation in windows of
  a minute. Instants are nanoseconds of a monotonic clock.
\<close>

section \<open>The limiter\<close>

definition WINDOW :: nat where
  "WINDOW = 60 * 10 ^ 9"

datatype rate_limit_decision = Allowed | Limited u64

record rate_limit_window =
  rw_start :: nat
  rw_count :: u32

record rate_limiter =
  lm_enabled :: bool
  lm_requests_per_minute :: u32
  lm_windows :: "(string, rate_limit_window) hash_map"

definition rate_limiter_new :: "bool \<Rightarrow> u32 \<Rightarrow> rate_limiter" where
  "rate_limiter_new enabled requests_per_minute =
     \<lparr>lm_enabled = enabled, lm_requests_per_minute = requests_per_minute, lm_windows = []\<rparr>"

text \<open>Windows are swept out, two minutes after their start, once there are more than 1024.\<close>

definition sweep_windows :: "nat \<Rightarrow> (string, rate_limit_window) hash_map \<Rightarrow> (string, rate_limit_window) hash_map" where
  "sweep_windows now ws = (if 1024 < length ws then hm_retain (\<lambda>_ w. now - rw_start w < WINDOW * 2) ws else ws)"

definition current_window :: "nat \<Rightarrow> rate_limit_window option \<Rightarrow> rate_limit_window" where
  "current_window now found =
     (let entry = (case found of Some w \<Rightarrow> w | None \<Rightarrow> \<lparr>rw_start = now, rw_count = 0\<rparr>)
      in if WINDOW \<le> now - rw_start entry then \<lparr>rw_start = now, rw_count = 0\<rparr> else entry)"

definition count_request :: "u32 \<Rightarrow> nat \<Rightarrow> rate_limit_window \<Rightarrow> rate_limit_decision \<times> rate_limit_window" where
  "count_request limit now entry =
     (if limit \<le> rw_count entry
      then (let elapsed = now - rw_start entry in (Limited (of_nat (max ((WINDOW - elapsed) div 10 ^ 9) 1)), entry))
      else (Allowed, entry\<lparr>rw_count := rw_count entry + 1\<rparr>))"

definition limiter_check :: "nat \<Rightarrow> string \<Rightarrow> rate_limiter \<Rightarrow> rate_limit_decision \<times> rate_limiter" where
  "limiter_check now org_id rl =
     (if \<not> lm_enabled rl then (Allowed, rl)
      else
        let windows = sweep_windows now (lm_windows rl);
            (decision, entry) = count_request (lm_requests_per_minute rl) now (current_window now (map_of windows org_id))
        in (decision, rl\<lparr>lm_windows := AList.update org_id entry windows\<rparr>))"

fun limiter_run :: "rate_limiter \<Rightarrow> (nat \<times> string) list \<Rightarrow> (string \<times> nat \<times> rate_limit_decision) list" where
  "limiter_run rl [] = []"
| "limiter_run rl ((now, org_id) # cs) =
     (org_id, now, fst (limiter_check now org_id rl)) # limiter_run (snd (limiter_check now org_id rl)) cs"

section \<open>One organisation on its own\<close>

text \<open>What an organisation may expect: its own requests are counted, nothing else.\<close>

fun window_run :: "u32 \<Rightarrow> rate_limit_window option \<Rightarrow> nat list \<Rightarrow> (nat \<times> rate_limit_decision) list" where
  "window_run limit found [] = []"
| "window_run limit found (now # ts) =
     (let (decision, entry) = count_request limit now (current_window now found)
      in (now, decision) # window_run limit (Some entry) ts)"

text \<open>The limiter may have swept out a window that the organisation still remembers, but only one that is over.\<close>

definition agrees :: "nat \<Rightarrow> rate_limit_window option \<Rightarrow> rate_limit_window option \<Rightarrow> bool" where
  "agrees now kept remembered \<longleftrightarrow>
     kept = remembered \<or> (kept = None \<and> (\<exists>w. remembered = Some w \<and> WINDOW * 2 \<le> now - rw_start w))"

lemma agrees_later: "agrees now a b \<Longrightarrow> now \<le> t \<Longrightarrow> agrees t a b"
  by (auto simp: agrees_def)

lemma agrees_current: "agrees now a b \<Longrightarrow> current_window now a = current_window now b"
  by (auto simp: agrees_def current_window_def WINDOW_def)

lemma agrees_sweep: "hm_wf ws \<Longrightarrow> agrees now (map_of ws k) b \<Longrightarrow> agrees now (map_of (sweep_windows now ws) k) b"
  by (auto simp: agrees_def sweep_windows_def map_of_hm_retain split: option.splits if_splits)

lemma hm_wf_sweep: "hm_wf ws \<Longrightarrow> hm_wf (sweep_windows now ws)"
  by (simp add: sweep_windows_def)

lemma check_windows:
  assumes "lm_enabled rl" "hm_wf (lm_windows rl)" "agrees t (map_of (lm_windows rl) org) w" "t \<le> now"
  shows "hm_wf (lm_windows (snd (limiter_check now org' rl)))"
    and "org' \<noteq> org \<Longrightarrow> agrees now (map_of (lm_windows (snd (limiter_check now org' rl))) org) w"
    and "fst (limiter_check now org rl) = fst (count_request (lm_requests_per_minute rl) now (current_window now w))"
    and "map_of (lm_windows (snd (limiter_check now org rl))) org =
      Some (snd (count_request (lm_requests_per_minute rl) now (current_window now w)))"
proof -
  have a: "agrees now (map_of (sweep_windows now (lm_windows rl)) org) w"
    using agrees_sweep [OF assms(2) agrees_later [OF assms(3,4)]] .
  show "hm_wf (lm_windows (snd (limiter_check now org' rl)))"
    using assms(1,2) by (simp add: limiter_check_def Let_def split_def hm_wf_sweep)
  show "agrees now (map_of (lm_windows (snd (limiter_check now org' rl))) org) w" if "org' \<noteq> org"
    using a that assms(1) by (simp add: limiter_check_def Let_def split_def map_of_update)
  show "fst (limiter_check now org rl) = fst (count_request (lm_requests_per_minute rl) now (current_window now w))"
    "map_of (lm_windows (snd (limiter_check now org rl))) org =
      Some (snd (count_request (lm_requests_per_minute rl) now (current_window now w)))"
    using agrees_current [OF a] assms(1) by (simp_all add: limiter_check_def Let_def split_def map_of_update)
qed

lemma check_config: "lm_enabled (snd (limiter_check now org rl)) = lm_enabled rl"
  "lm_requests_per_minute (snd (limiter_check now org rl)) = lm_requests_per_minute rl"
  by (simp_all add: limiter_check_def Let_def split_def)

lemma limiter_run_refines:
  assumes "lm_enabled rl" "hm_wf (lm_windows rl)" "agrees t (map_of (lm_windows rl) org) w" "sorted (t # map fst cs)"
  shows "filter (\<lambda>(org', _). org' = org) (limiter_run rl cs) =
    map (\<lambda>(now, d). (org, now, d)) (window_run (lm_requests_per_minute rl) w (map fst (filter (\<lambda>(_, org'). org' = org) cs)))"
  using assms
proof (induction rl cs arbitrary: t w rule: limiter_run.induct)
  case (2 rl now org' cs)
  note step = check_windows [OF "2.prems"(1-3), of now]
  let ?rl = "snd (limiter_check now org' rl)"
  have le: "t \<le> now" using "2.prems"(4) by simp
  have s: "sorted (now # map fst cs)" using "2.prems"(4) by simp
  show ?case
  proof (cases "org' = org")
    case True
    let ?w = "Some (snd (count_request (lm_requests_per_minute rl) now (current_window now w)))"
    have "agrees now (map_of (lm_windows ?rl) org) ?w"
      using step(4) [OF le] True by (simp add: agrees_def)
    from "2.IH" [OF _ step(1) [OF le] this s] True step(3) [OF le] "2.prems"(1) show ?thesis
      by (simp add: check_config Let_def split_def)
  next
    case False
    from "2.IH" [OF _ step(1) [OF le] step(2) [OF le False] s] False "2.prems"(1) show ?thesis
      by (simp add: check_config)
  qed
qed simp

section \<open>How much may pass\<close>

definition passed :: "nat \<Rightarrow> (nat \<times> rate_limit_decision) list \<Rightarrow> nat" where
  "passed t ds = length (filter (\<lambda>(now, d). t \<le> now \<and> now < t + WINDOW \<and> d = Allowed) ds)"

lemma window_run_first:
  assumes "sorted (s # ts)" "rw_start w = s" "rw_count w \<le> limit"
  shows "length (filter (\<lambda>(now, d). now < s + WINDOW \<and> d = Allowed) (window_run limit (Some w) ts)) \<le> unat (limit - rw_count w)"
  using assms
proof (induction ts arbitrary: w)
  case (Cons now ts)
  show ?case
  proof (cases "now < s + WINDOW")
    case True
    then have "current_window now (Some w) = w" using Cons.prems by (auto simp: current_window_def)
    moreover have "unat (limit - (rw_count w + 1)) + 1 = unat (limit - rw_count w)" "rw_count w + 1 \<le> limit" if "\<not> limit \<le> rw_count w"
      using that by (unat_arith, unat_arith)
    ultimately show ?thesis
      using Cons.prems Cons.IH [of w] Cons.IH [of "w\<lparr>rw_count := rw_count w + 1\<rparr>"]
      by (auto simp: count_request_def Let_def)
  next
    case False
    then have "\<forall>x \<in> set (now # ts). \<not> x < s + WINDOW" using Cons.prems(1) by auto
    moreover have "fst ` set (window_run limit u vs) \<subseteq> set vs" for u vs
      by (induction vs arbitrary: u) (auto simp: Let_def split_def)
    ultimately have "filter (\<lambda>(now, d). now < s + WINDOW \<and> d = Allowed) (window_run limit (Some w) (now # ts)) = []"
      by (fastforce simp: filter_empty_conv)
    then show ?thesis by simp
  qed
qed simp

lemma window_run_from: "sorted (t # ts) \<Longrightarrow> (now, d) \<in> set (window_run limit w ts) \<Longrightarrow> t \<le> now"
  by (induction ts arbitrary: w t) (auto simp: Let_def split_def)

text \<open>A window that is opened at \<open>now\<close> lets through at most the limit of what comes before its end.\<close>

lemma passed_fresh:
  assumes "sorted (now # ts)" "t \<le> now" "current_window now w = \<lparr>rw_start = now, rw_count = 0\<rparr>"
  shows "passed t (window_run limit w (now # ts)) \<le> unat limit"
proof -
  let ?w = "\<lparr>rw_start = now, rw_count = 0\<rparr>"
  have "current_window now (Some ?w) = ?w" by (simp add: current_window_def WINDOW_def)
  then have "window_run limit w (now # ts) = window_run limit (Some ?w) (now # ts)" using assms(3) by simp
  moreover have "length (filter (\<lambda>(x, d). x < now + WINDOW \<and> d = Allowed) (window_run limit (Some ?w) (now # ts))) \<le> unat limit"
    using window_run_first [of now "now # ts" ?w limit] assms(1) by simp
  moreover have "passed t ds \<le> length (filter (\<lambda>(x, d). x < now + WINDOW \<and> d = Allowed) ds)" for ds
    unfolding passed_def by (induction ds) (use assms(2) in auto)
  ultimately show ?thesis by (metis le_trans)
qed

lemma passed_twice:
  assumes "sorted (rw_start w # ts)" "rw_count w \<le> limit"
  shows "passed t (window_run limit (Some w) ts) \<le>
    (if t < rw_start w + WINDOW then unat (limit - rw_count w) else unat limit) + unat limit"
  using assms
proof (induction ts arbitrary: w)
  case (Cons now ts)
  let ?u = "current_window now (Some w)"
  show ?case
  proof (cases "now < rw_start w + WINDOW")
    case True
    with Cons.prems(1) have u: "?u = w" by (auto simp: current_window_def)
    have less: "unat (limit - (rw_count w + 1)) + 1 = unat (limit - rw_count w)" "rw_count w + 1 \<le> limit" if "\<not> limit \<le> rw_count w"
      using that by (unat_arith, unat_arith)
    show ?thesis
    proof (cases "limit \<le> rw_count w")
      case True
      with Cons.IH [of w] Cons.prems u show ?thesis by (simp add: count_request_def Let_def passed_def)
    next
      case False
      let ?v = "w\<lparr>rw_count := rw_count w + 1\<rparr>"
      have "passed t (window_run limit (Some ?v) ts) \<le>
          (if t < rw_start w + WINDOW then unat (limit - (rw_count w + 1)) else unat limit) + unat limit"
        using Cons.IH [of ?v] Cons.prems less(2) [OF False] by (auto split: if_splits)
      moreover have "passed t (window_run limit (Some w) (now # ts)) \<le>
          (if t < rw_start w + WINDOW then 1 else 0) + passed t (window_run limit (Some ?v) ts)"
        using True u False by (auto simp: passed_def count_request_def)
      ultimately show ?thesis using less(1) [OF False] by (auto split: if_splits)
    qed
  next
    case over: False
    then have u: "?u = \<lparr>rw_start = now, rw_count = 0\<rparr>" by (auto simp: current_window_def)
    show ?thesis
    proof (cases "t \<le> now")
      case True
      from passed_fresh [OF _ this u, of ts limit] Cons.prems(1) show ?thesis by simp
    next
      case False
      let ?v = "snd (count_request limit now ?u)"
      have v: "rw_start ?v = now" "rw_count ?v \<le> limit" by (auto simp: u count_request_def Let_def) unat_arith
      have "passed t (window_run limit (Some w) (now # ts)) = passed t (window_run limit (Some ?v) ts)"
        using False by (simp add: passed_def split_def Let_def)
      moreover have "passed t (window_run limit (Some ?v) ts) \<le>
          (if t < now + WINDOW then unat (limit - rw_count ?v) else unat limit) + unat limit"
        using Cons.IH [of ?v] Cons.prems(1) v by simp
      moreover have "unat (limit - rw_count ?v) \<le> unat limit" using v(2) by unat_arith
      moreover have "\<not> t < rw_start w + WINDOW" using over False by simp
      ultimately show ?thesis by (auto split: if_splits)
    qed
  qed
qed (simp add: passed_def)

lemma passed_bound: "sorted ts \<Longrightarrow> passed t (window_run limit None ts) \<le> 2 * unat limit"
proof (cases ts)
  case (Cons now us)
  assume s: "sorted ts"
  let ?w = "\<lparr>rw_start = now, rw_count = 0\<rparr>"
  have "window_run limit None ts = window_run limit (Some ?w) ts" by (simp add: Cons current_window_def WINDOW_def)
  with passed_twice [of ?w ts limit t] s show ?thesis by (auto simp: Cons split: if_splits)
qed (simp add: passed_def)

section \<open>Properties\<close>

text \<open>C34: The limiter treats each organisation as if it were alone: whatever the others ask, and although windows are swept out when there are many, its decisions are those of counting its own requests. Within any sixty seconds it is let through at most twice its limit.\<close>

theorem rate_limit_per_org:
  assumes "sorted (map fst cs)"
  shows "filter (\<lambda>(org', _). org' = org) (limiter_run (rate_limiter_new True limit) cs) =
      map (\<lambda>(now, d). (org, now, d)) (window_run limit None (map fst (filter (\<lambda>(_, org'). org' = org) cs))) \<and>
    passed t (window_run limit None (map fst (filter (\<lambda>(_, org'). org' = org) cs))) \<le> 2 * unat limit"
proof
  have "sorted (0 # map fst cs)" using assms by simp
  then show "filter (\<lambda>(org', _). org' = org) (limiter_run (rate_limiter_new True limit) cs) =
      map (\<lambda>(now, d). (org, now, d)) (window_run limit None (map fst (filter (\<lambda>(_, org'). org' = org) cs)))"
    using limiter_run_refines [of "rate_limiter_new True limit" 0 org None cs]
    by (simp add: rate_limiter_new_def agrees_def)
  have "sorted (map fst (filter (\<lambda>(_, org'). org' = org) cs))" using assms by (simp add: sorted_filter)
  then show "passed t (window_run limit None (map fst (filter (\<lambda>(_, org'). org' = org) cs))) \<le> 2 * unat limit"
    by (rule passed_bound)
qed

theorem rate_limit_per_org_witness:
  "filter (\<lambda>(org', _). org' = ''a'') (limiter_run (rate_limiter_new True 1) [(0, ''a''), (5, ''b''), (6, ''a''), (60 * 10 ^ 9, ''a'')])
     = [(''a'', 0, Allowed), (''a'', 6, Limited 59), (''a'', 60 * 10 ^ 9, Allowed)]"
  using rate_limit_per_org [of "[(0, ''a''), (5, ''b''), (6, ''a''), (60 * 10 ^ 9, ''a'')]" "''a''" 1]
  by (simp add: count_request_def current_window_def WINDOW_def)

end
