(* ===== verification/Api_Access.thy ===== *)
theory Api_Access
  imports Rate_Limit Settings Redaction Fact_Store
begin

text \<open>
  Who may ask for what: \<^verbatim>\<open>crates/memcore-api/src\<close> with \<open>middleware\<close>, \<open>security\<close>, \<open>response/error.rs\<close>,
  \<open>routes/common.rs\<close>, \<open>routes/api_keys.rs\<close> and \<open>dto/api_keys.rs\<close>, and the key store of
  \<^verbatim>\<open>crates/memcore-storage/src/mocks.rs\<close>. The HTTP library is a parameter: a request comes with its method,
  its path and, for a header name, the first value of that name, as text where it is text. The hash of a key under a
  pepper is a parameter.
\<close>

section \<open>Errors (\<open>response/error.rs\<close>)\<close>

record api_error =
  ae_status :: nat
  ae_code :: string
  ae_message :: string
  ae_details :: json

definition api_error_new :: "nat \<Rightarrow> string \<Rightarrow> string \<Rightarrow> api_error" where
  "api_error_new status code message = \<lparr>ae_status = status, ae_code = code, ae_message = message, ae_details = JNull\<rparr>"

fun error_status :: "memcore_error \<Rightarrow> nat" where
  "error_status Unauthorized = 401"
| "error_status Forbidden = 403"
| "error_status (BadRequest _) = 400"
| "error_status (NotFound _) = 404"
| "error_status (Conflict _) = 409"
| "error_status RateLimited = 429"
| "error_status (ProviderError _) = 502"
| "error_status (StorageError _) = 500"
| "error_status (MigrationError _) = 500"
| "error_status (ValidationError _) = 400"
| "error_status (Internal _) = 500"
| "error_status (Timeout _) = 504"
| "error_status (QuotaExceeded _ _ _ _ _) = 429"
| "error_status (ProviderGuardrailViolation _ _) = 403"

fun response_code :: "memcore_error \<Rightarrow> string" where
  "response_code Unauthorized = ''UNAUTHORIZED''"
| "response_code Forbidden = ''FORBIDDEN''"
| "response_code (BadRequest _) = ''BAD_REQUEST''"
| "response_code (NotFound _) = ''NOT_FOUND''"
| "response_code (Conflict _) = ''CONFLICT''"
| "response_code RateLimited = ''RATE_LIMITED''"
| "response_code (ProviderError _) = ''PROVIDER_ERROR''"
| "response_code (StorageError _) = ''STORAGE_ERROR''"
| "response_code (MigrationError _) = ''MIGRATION_ERROR''"
| "response_code (ValidationError _) = ''VALIDATION_ERROR''"
| "response_code (Internal _) = ''INTERNAL_ERROR''"
| "response_code (Timeout _) = ''TIMEOUT''"
| "response_code (QuotaExceeded _ _ _ _ _) = ''QUOTA_EXCEEDED''"
| "response_code (ProviderGuardrailViolation _ _) = ''PROVIDER_GUARDRAIL_VIOLATION''"


text \<open>A request that fails is refused with an error or, when the message cannot be made safe, crashes.\<close>

datatype api_fault = Refused api_error | Crashed

type_synonym 'a api_result = "api_fault + 'a"

definition from_memcore_error :: "memcore_error \<Rightarrow> api_fault" where
  "from_memcore_error e =
     (case safe_error_message e of
        Inl _ \<Rightarrow> Crashed
      | Inr message \<Rightarrow>
          Refused ((api_error_new (error_status e) (response_code e) message)
            \<lparr>ae_details := (case e of
               QuotaExceeded _ kind limit current requested \<Rightarrow>
                 JObject [(''kind'', JString kind), (''limit'', JInt (uint limit)), (''current'', JInt (uint current)),
                          (''requested'', JInt (uint requested))]
             | ProviderGuardrailViolation guard_code _ \<Rightarrow> JObject [(''guardrail_code'', JString guard_code)]
             | _ \<Rightarrow> JNull)\<rparr>))"

definition refuse :: "nat \<Rightarrow> string \<Rightarrow> string \<Rightarrow> 'a api_result" where
  "refuse status code message = Inl (Refused (api_error_new status code message))"

definition api :: "'a memcore_result \<Rightarrow> 'a api_result" where
  "api r = (case r of Inl e \<Rightarrow> Inl (from_memcore_error e) | Inr x \<Rightarrow> Inr x)"

fun api_fault_of :: "fault \<Rightarrow> api_fault" where
  "api_fault_of (Err e) = from_memcore_error e"
| "api_fault_of Panic = Crashed"

section \<open>The key store (\<open>MockApiKeyStore\<close>)\<close>

type_synonym api_keys = "api_key_record list"

definition find_by_hash :: "string \<Rightarrow> api_keys \<Rightarrow> api_key_record option" where
  "find_by_hash key_hash keys = find (\<lambda>k. k_key_hash k = key_hash \<and> is_active k) keys"

definition insert_api_key :: "api_key_record \<Rightarrow> api_keys \<Rightarrow> api_keys" where
  "insert_api_key record keys = keys @ [record]"

fun revoke_first :: "(api_key_record \<Rightarrow> bool) \<Rightarrow> datetime \<Rightarrow> api_keys \<Rightarrow> api_keys option" where
  "revoke_first p now [] = None"
| "revoke_first p now (k # keys) =
     (if p k then Some (k\<lparr>k_revoked_at := Some now\<rparr> # keys) else map_option ((#) k) (revoke_first p now keys))"

definition revoke_api_key :: "datetime \<Rightarrow> string \<Rightarrow> uuid \<Rightarrow> api_keys \<Rightarrow> unit memcore_result \<times> api_keys" where
  "revoke_api_key now org_id key_id keys =
     (case revoke_first (\<lambda>k. k_id k = key_id \<and> k_org_id k = org_id \<and> is_active k) now keys of
        None \<Rightarrow> (Inl (NotFound (''api key not found: '' @ uuid_to_string key_id)), keys)
      | Some keys' \<Rightarrow> (Inr (), keys'))"

record api_key_list_query =
  kq_org_id :: string
  kq_include_revoked :: bool
  kq_limit :: nat
  kq_cursor :: "page_cursor option"

definition key_desc_le :: "api_key_record \<Rightarrow> api_key_record \<Rightarrow> bool" where
  "key_desc_le = lex_le (\<lambda>a b. k_created_at b \<le> k_created_at a) (\<lambda>a b. k_id b \<le> k_id a)"

definition list_stored_keys :: "api_key_list_query \<Rightarrow> api_keys \<Rightarrow> api_key_record list" where
  "list_stored_keys q keys =
     take (page_fetch_limit (kq_limit q)) (sort_by key_desc_le
       (filter (\<lambda>k. is_none_or (kq_cursor q) (is_after_cursor_in_desc_order (k_created_at k) (uuid_to_string (k_id k))))
         (filter (\<lambda>k. kq_include_revoked q \<or> is_active k) (filter (\<lambda>k. k_org_id k = kq_org_id q) keys))))"

section \<open>Authentication (\<open>middleware/auth.rs\<close>, \<open>security\<close>)\<close>

record http_request =
  hr_method :: string
  hr_path :: string
  hr_header :: "string \<Rightarrow> string option option"

record auth_context =
  au_org_id :: string
  au_api_key_id :: uuid
  au_scopes :: "api_key_scope list"

definition BEARER_PREFIX :: string where
  "BEARER_PREFIX = ''Bearer ''"

definition extract_bearer_token :: "http_request \<Rightarrow> string api_result" where
  "extract_bearer_token rq =
     (case hr_header rq ''authorization'' of
        None \<Rightarrow> refuse 401 ''UNAUTHORIZED'' ''missing authorization header''
      | Some None \<Rightarrow> refuse 401 ''UNAUTHORIZED'' ''invalid authorization header''
      | Some (Some header) \<Rightarrow>
          if \<not> starts_with header BEARER_PREFIX then refuse 401 ''UNAUTHORIZED'' ''invalid authorization header''
          else (let token = drop (length BEARER_PREFIX) header in
                if token = [] then refuse 401 ''UNAUTHORIZED'' ''invalid authorization header'' else Inr token))"

definition validate_dev_authorization :: "http_request \<Rightarrow> string \<Rightarrow> unit api_result" where
  "validate_dev_authorization rq expected_key =
     and_then (extract_bearer_token rq) (\<lambda>token.
     if token \<noteq> expected_key then refuse 401 ''UNAUTHORIZED'' ''invalid api key'' else Inr ())"

definition usable_pepper :: "settings \<Rightarrow> string option" where
  "usable_pepper s = (case se_api_key_pepper s of Some p \<Rightarrow> if is_blank p then None else Some p | None \<Rightarrow> None)"

definition validate_database_authorization ::
  "settings \<Rightarrow> (string \<Rightarrow> string \<Rightarrow> string) \<Rightarrow> api_keys \<Rightarrow> http_request \<Rightarrow> auth_context api_result" where
  "validate_database_authorization s hash keys rq =
     and_then (extract_bearer_token rq) (\<lambda>token.
     case usable_pepper s of
       None \<Rightarrow> refuse 500 ''INTERNAL_ERROR'' ''api key pepper is not configured''
     | Some pepper \<Rightarrow>
         (case find_by_hash (hash pepper token) keys of
            None \<Rightarrow> refuse 401 ''UNAUTHORIZED'' ''invalid api key''
          | Some k \<Rightarrow>
              if is_active k then Inr \<lparr>au_org_id = k_org_id k, au_api_key_id = k_id k, au_scopes = k_scopes k\<rparr>
              else refuse 401 ''UNAUTHORIZED'' ''invalid api key''))"

definition require_api_key ::
  "settings \<Rightarrow> (string \<Rightarrow> string \<Rightarrow> string) \<Rightarrow> api_keys \<Rightarrow> http_request \<Rightarrow> auth_context option api_result" where
  "require_api_key s hash keys rq =
     (if \<not> se_auth_enabled s then Inr None
      else case se_auth_mode s of
             AuthDev \<Rightarrow> and_then (validate_dev_authorization rq (se_dev_api_key s)) (\<lambda>_. Inr None)
           | AuthDatabase \<Rightarrow> and_then (validate_database_authorization s hash keys rq) (\<lambda>a. Inr (Some a)))"

definition has_scope :: "auth_context \<Rightarrow> api_key_scope \<Rightarrow> bool" where
  "has_scope a scope \<longleftrightarrow> scope \<in> set (au_scopes a)"

definition ensure_scope :: "auth_context \<Rightarrow> api_key_scope \<Rightarrow> unit api_result" where
  "ensure_scope a scope = (if has_scope a scope then Inr () else refuse 403 ''FORBIDDEN'' ''insufficient api key scope'')"

definition ensure_any_scope :: "auth_context \<Rightarrow> api_key_scope list \<Rightarrow> unit api_result" where
  "ensure_any_scope a scopes =
     (if list_ex (has_scope a) scopes then Inr () else refuse 403 ''FORBIDDEN'' ''missing required scope'')"

definition check_scope :: "auth_context option \<Rightarrow> api_key_scope \<Rightarrow> unit api_result" where
  "check_scope auth scope = (case auth of Some a \<Rightarrow> ensure_scope a scope | None \<Rightarrow> Inr ())"

definition check_any_scope :: "auth_context option \<Rightarrow> api_key_scope list \<Rightarrow> unit api_result" where
  "check_any_scope auth scopes = (case auth of Some a \<Rightarrow> ensure_any_scope a scopes | None \<Rightarrow> Inr ())"

subsection \<open>The metrics endpoint (\<open>metrics/middleware.rs\<close>)\<close>

definition validate_metrics_authorization ::
  "settings \<Rightarrow> (string \<Rightarrow> string \<Rightarrow> string) \<Rightarrow> api_keys \<Rightarrow> http_request \<Rightarrow> unit api_result" where
  "validate_metrics_authorization s hash keys rq =
     (case se_auth_mode s of
        AuthDev \<Rightarrow>
          and_then (extract_bearer_token rq) (\<lambda>token.
          if token \<noteq> se_dev_api_key s then refuse 401 ''UNAUTHORIZED'' ''invalid api key'' else Inr ())
      | AuthDatabase \<Rightarrow>
          and_then (extract_bearer_token rq) (\<lambda>token.
          case usable_pepper s of
            None \<Rightarrow> refuse 500 ''INTERNAL_ERROR'' ''api key pepper is not configured''
          | Some pepper \<Rightarrow>
              (case find_by_hash (hash pepper token) keys of
                 None \<Rightarrow> refuse 401 ''UNAUTHORIZED'' ''invalid api key''
               | Some k \<Rightarrow>
                   if \<not> is_active k then refuse 401 ''UNAUTHORIZED'' ''invalid api key''
                   else
                     let auth = \<lparr>au_org_id = k_org_id k, au_api_key_id = k_id k, au_scopes = k_scopes k\<rparr>
                     in if \<not> has_scope auth AdminRead \<and> \<not> has_scope auth AdminWrite
                        then refuse 403 ''FORBIDDEN'' ''admin read scope required for metrics'' else Inr ())))"

definition require_metrics_auth ::
  "settings \<Rightarrow> (string \<Rightarrow> string \<Rightarrow> string) \<Rightarrow> api_keys \<Rightarrow> http_request \<Rightarrow> unit api_result" where
  "require_metrics_auth s hash keys rq =
     (if \<not> se_metrics_require_auth s then Inr () else validate_metrics_authorization s hash keys rq)"

section \<open>Organisation, limits and media type\<close>

definition extract_organization :: "http_request \<Rightarrow> string api_result" where
  "extract_organization rq =
     (case hr_header rq ''x-organization-id'' of
        None \<Rightarrow> refuse 400 ''VALIDATION_ERROR'' ''missing X-Organization-ID header''
      | Some None \<Rightarrow> refuse 400 ''VALIDATION_ERROR'' ''X-Organization-ID must be valid UTF-8''
      | Some (Some header) \<Rightarrow>
          if trim header = [] then refuse 400 ''VALIDATION_ERROR'' ''X-Organization-ID cannot be empty''
          else Inr (trim header))"

definition require_organization :: "auth_context option \<Rightarrow> http_request \<Rightarrow> string api_result" where
  "require_organization auth rq =
     and_then (extract_organization rq) (\<lambda>org.
     if (case auth of Some a \<Rightarrow> au_org_id a \<noteq> org | None \<Rightarrow> False)
     then refuse 403 ''FORBIDDEN'' ''organization header does not match api key'' else Inr org)"

definition enforce_rate_limit :: "nat \<Rightarrow> string \<Rightarrow> rate_limiter \<Rightarrow> unit api_result \<times> rate_limiter" where
  "enforce_rate_limit now org rl =
     (let (decision, rl') = limiter_check now org rl
      in (case decision of Allowed \<Rightarrow> Inr () | Limited _ \<Rightarrow> refuse 429 ''RATE_LIMITED'' ''rate limit exceeded'', rl'))"

definition content_length_bytes :: "http_request \<Rightarrow> nat option" where
  "content_length_bytes rq =
     (case hr_header rq ''content-length'' of Some (Some v) \<Rightarrow> parse_unsigned (2 ^ 64 - 1) v | _ \<Rightarrow> None)"

definition enforce_request_body_limit :: "settings \<Rightarrow> http_request \<Rightarrow> unit api_result" where
  "enforce_request_body_limit s rq =
     (case content_length_bytes rq of
        Some n \<Rightarrow> if se_max_request_body_bytes s < n then refuse 413 ''PAYLOAD_TOO_LARGE'' ''request body is too large'' else Inr ()
      | None \<Rightarrow> Inr ())"

definition is_exempt_path :: "string \<Rightarrow> bool" where
  "is_exempt_path path \<longleftrightarrow>
     path \<in> {''/health'', ''/ready'', ''/metrics'', ''/api/v1/version'', ''/openapi.json'', ''/docs'', ''/docs/''} \<or>
     starts_with path ''/docs/''"

definition should_validate_json_content_type :: "http_request \<Rightarrow> bool" where
  "should_validate_json_content_type rq \<longleftrightarrow> hr_method rq \<in> {''POST'', ''PUT'', ''PATCH''} \<and> \<not> is_exempt_path (hr_path rq)"

definition is_json_content_type :: "http_request \<Rightarrow> bool" where
  "is_json_content_type rq =
     (case hr_header rq ''content-type'' of
        Some (Some v) \<Rightarrow> to_ascii_lowercase (trim (takeWhile (\<lambda>c. c \<noteq> CHR '';'') v)) = ''application/json''
      | _ \<Rightarrow> False)"

definition is_allowed_json_request :: "http_request \<Rightarrow> bool" where
  "is_allowed_json_request rq =
     (case hr_header rq ''content-type'' of
        Some _ \<Rightarrow> is_json_content_type rq
      | None \<Rightarrow> (case content_length_bytes rq of Some n \<Rightarrow> n = 0 | None \<Rightarrow> True))"

definition enforce_json_content_type :: "http_request \<Rightarrow> unit api_result" where
  "enforce_json_content_type rq =
     (if should_validate_json_content_type rq \<and> \<not> is_allowed_json_request rq
      then refuse 415 ''UNSUPPORTED_MEDIA_TYPE'' ''Content-Type must be application/json'' else Inr ())"

text \<open>What comes before a protected handler, in the order of \<open>routes/mod.rs\<close>.\<close>

definition admit ::
  "settings \<Rightarrow> (string \<Rightarrow> string \<Rightarrow> string) \<Rightarrow> api_keys \<Rightarrow> nat \<Rightarrow> http_request \<Rightarrow> rate_limiter \<Rightarrow>
   (auth_context option \<times> string) api_result \<times> rate_limiter" where
  "admit s hash keys now rq rl =
     (case and_then (enforce_request_body_limit s rq) (\<lambda>_.
           and_then (enforce_json_content_type rq) (\<lambda>_.
           and_then (require_api_key s hash keys rq) (\<lambda>auth.
           and_then (require_organization auth rq) (\<lambda>org. Inr (auth, org))))) of
        Inl e \<Rightarrow> (Inl e, rl)
      | Inr (auth, org) \<Rightarrow>
          let (r, rl') = enforce_rate_limit now org rl in (and_then r (\<lambda>_. Inr (auth, org)), rl'))"

end
