(* ===== verification/Api_Keys.thy ===== *)
theory Api_Keys
  imports Api_Access
begin

text \<open>
  The life of an API key: \<^verbatim>\<open>routes/api_keys.rs\<close> and \<^verbatim>\<open>dto/api_keys.rs\<close>. What the handlers and the
  authentication rely on of a key store is the locale \<open>key_store\<close>; the store of \<^verbatim>\<open>mocks.rs\<close> provides it.
  Fresh identifiers and the time are arguments; parsing an identifier is a parameter.
\<close>

section \<open>Requests and responses\<close>

record create_api_key_request =
  ck_name :: string
  ck_scopes :: "string list"

record api_key_item =
  ki_id :: uuid
  ki_org_id :: string
  ki_name :: string
  ki_scopes :: "api_key_scope list"
  ki_created_at :: datetime
  ki_revoked_at :: "datetime option"

record create_api_key_response =
  cr_api_key :: api_key_item
  cr_raw_key :: string

record list_api_keys_query =
  lq_include_revoked :: bool
  lq_limit :: nat
  lq_cursor :: "string option"

definition MAX_LIST_API_KEYS_LIMIT :: nat where
  "MAX_LIST_API_KEYS_LIMIT = 100"

definition api_key_item_of :: "api_key_record \<Rightarrow> api_key_item" where
  "api_key_item_of k =
     \<lparr>ki_id = k_id k, ki_org_id = k_org_id k, ki_name = k_name k, ki_scopes = k_scopes k,
      ki_created_at = k_created_at k, ki_revoked_at = k_revoked_at k\<rparr>"

definition scope_labels :: "(string \<times> api_key_scope) list" where
  "scope_labels =
     [(''MemoryRead'', MemoryRead), (''MemoryWrite'', MemoryWrite), (''MemoryDelete'', MemoryDelete),
      (''UserDelete'', UserDelete), (''AuditRead'', AuditRead), (''AdminRead'', AdminRead), (''AdminWrite'', AdminWrite)]"

definition parse_api_key_scope_label :: "string \<Rightarrow> api_key_scope memcore_result" where
  "parse_api_key_scope_label v =
     (case map_of scope_labels (trim v) of
        Some scope \<Rightarrow> Inr scope | None \<Rightarrow> Inl (ValidationError ''invalid API key scope''))"

fun parse_scopes :: "string list \<Rightarrow> api_key_scope list memcore_result" where
  "parse_scopes [] = Inr []"
| "parse_scopes (v # vs) =
     and_then (parse_api_key_scope_label v) (\<lambda>scope. and_then (parse_scopes vs) (\<lambda>scopes. Inr (scope # scopes)))"

definition parse_create_api_key_request :: "create_api_key_request \<Rightarrow> (string \<times> api_key_scope list) memcore_result" where
  "parse_create_api_key_request r =
     (if trim (ck_name r) = [] then Inl (ValidationError ''name cannot be empty'')
      else if ck_scopes r = [] then Inl (ValidationError ''scopes cannot be empty'')
      else and_then (parse_scopes (ck_scopes r)) (\<lambda>scopes. Inr (trim (ck_name r), scopes)))"

section \<open>Handlers\<close>

type_synonym 'a keys_handler = "(api_keys, api_fault, 'a) comp"

definition DEV_MODE_PEPPER :: string where
  "DEV_MODE_PEPPER = ''memcore-dev-pepper''"

definition resolve_api_key_pepper :: "settings \<Rightarrow> string api_result" where
  "resolve_api_key_pepper s =
     (case usable_pepper s of
        Some pepper \<Rightarrow> Inr pepper
      | None \<Rightarrow>
          if se_auth_mode s = AuthDev then Inr DEV_MODE_PEPPER
          else api (Inl (Internal ''api key pepper is not configured'')))"

definition generate_raw_api_key :: "uuid \<Rightarrow> string" where
  "generate_raw_api_key random = ''mc_live_'' @ hex_digits 32 (unat random)"

definition create_api_key ::
  "settings \<Rightarrow> (string \<Rightarrow> string \<Rightarrow> string) \<Rightarrow> uuid \<Rightarrow> uuid \<Rightarrow> datetime \<Rightarrow> auth_context option \<Rightarrow> string \<Rightarrow>
   create_api_key_request \<Rightarrow> create_api_key_response keys_handler" where
  "create_api_key s hash random key_id now auth org request =
     seqC (liftR (check_any_scope auth [AdminWrite]))
     (bindC (liftR (api (parse_create_api_key_request request))) (\<lambda>(name, scopes).
      bindC (liftR (resolve_api_key_pepper s)) (\<lambda>pepper.
      let raw_key = generate_raw_api_key random;
          record = \<lparr>k_id = key_id, k_org_id = org, k_name = name, k_key_hash = hash pepper raw_key,
            k_scopes = scopes, k_created_at = now, k_revoked_at = None\<rparr>
      in seqC (modifyC (insert_api_key record))
         (ret \<lparr>cr_api_key = api_key_item_of record, cr_raw_key = raw_key\<rparr>))))"

definition api_outcome :: "'a outcome \<Rightarrow> 'a api_result" where
  "api_outcome r = (case r of Inl e \<Rightarrow> Inl (api_fault_of e) | Inr x \<Rightarrow> Inr x)"

definition list_api_keys ::
  "codec \<Rightarrow> auth_context option \<Rightarrow> string \<Rightarrow> list_api_keys_query \<Rightarrow> api_key_item page keys_handler" where
  "list_api_keys cd auth org q =
     seqC (liftR (check_any_scope auth [AdminRead, AdminWrite]))
     (if lq_limit q = 0 then liftR (api (Inl (ValidationError ''limit must be greater than 0'')))
      else if MAX_LIST_API_KEYS_LIMIT < lq_limit q
      then liftR (api (Inl (ValidationError (''limit cannot exceed '' @ show_nat MAX_LIST_API_KEYS_LIMIT))))
      else bindC (liftR (api (parse_optional_cursor cd (lq_cursor q)))) (\<lambda>cursor.
           bindC (getsC (list_stored_keys \<lparr>kq_org_id = org, kq_include_revoked = lq_include_revoked q,
             kq_limit = lq_limit q, kq_cursor = cursor\<rparr>)) (\<lambda>records.
           bindC (liftR (api_outcome (build_page cd records (lq_limit q)
             (\<lambda>k. \<lparr>last_id = uuid_to_string (k_id k), last_sort_value = k_created_at k\<rparr>)))) (\<lambda>page.
           ret \<lparr>p_items = map api_key_item_of (p_items page), p_next_cursor = p_next_cursor page\<rparr>))))"

definition revoke_api_key_handler ::
  "(string \<Rightarrow> uuid option) \<Rightarrow> datetime \<Rightarrow> auth_context option \<Rightarrow> string \<Rightarrow> string \<Rightarrow> bool keys_handler" where
  "revoke_api_key_handler parse_uuid now auth org api_key_id =
     seqC (liftR (check_any_scope auth [AdminWrite]))
     (bindC (liftR (api (ok_or (ValidationError ''invalid api_key_id'') (parse_uuid (trim api_key_id))))) (\<lambda>key_id.
      seqC (\<lambda>keys. let (r, keys') = revoke_api_key now org key_id keys in (api r, keys'))
      (ret True)))"

section \<open>What a key store promises\<close>

locale key_store =
  fixes find_key :: "string \<Rightarrow> 'k \<Rightarrow> api_key_record option"
    and insert_key :: "api_key_record \<Rightarrow> 'k \<Rightarrow> 'k"
    and revoke_key :: "datetime \<Rightarrow> string \<Rightarrow> uuid \<Rightarrow> 'k \<Rightarrow> unit memcore_result \<times> 'k"
    and active_keys :: "'k \<Rightarrow> api_key_record multiset"
  assumes find_active: "find_key h ks = Some k \<Longrightarrow> k \<in># active_keys ks \<and> k_key_hash k = h"
    and find_complete: "k \<in># active_keys ks \<Longrightarrow> find_key (k_key_hash k) ks \<noteq> None"
    and insert_active: "is_active k \<Longrightarrow> active_keys (insert_key k ks) = add_mset k (active_keys ks)"
    and revoke_found: "revoke_key now org i ks = (Inr u, ks') \<Longrightarrow>
      \<exists>k \<in># active_keys ks. k_id k = i \<and> k_org_id k = org \<and> active_keys ks' = active_keys ks - {#k#} \<and>
        (\<forall>h. h \<noteq> k_key_hash k \<longrightarrow> find_key h ks' = find_key h ks)"
    and revoke_missing: "revoke_key now org i ks = (Inl e, ks') \<Longrightarrow>
      ks' = ks \<and> (\<forall>k \<in># active_keys ks. \<not> (k_id k = i \<and> k_org_id k = org))"
begin

lemma find_None: "find_key h ks = None \<longleftrightarrow> (\<forall>k \<in># active_keys ks. k_key_hash k \<noteq> h)"
  using find_complete by (metis find_active not_Some_eq)

lemma find_only:
  assumes "k \<in># active_keys ks" "\<forall>k' \<in># active_keys ks. k_key_hash k' = k_key_hash k \<longrightarrow> k' = k"
  shows "find_key (k_key_hash k) ks = Some k"
proof (cases "find_key (k_key_hash k) ks")
  case None
  with find_complete [OF assms(1)] show ?thesis by simp
next
  case (Some k')
  with find_active [OF Some] assms(2) show ?thesis by auto
qed

text \<open>A key whose hash and identifier no other active key has.\<close>

definition holds :: "api_key_record \<Rightarrow> 'k \<Rightarrow> bool" where
  "holds k ks \<longleftrightarrow> (\<exists>others. active_keys ks = add_mset k others \<and>
     (\<forall>k' \<in># others. k_key_hash k' \<noteq> k_key_hash k \<and> k_id k' \<noteq> k_id k))"

definition unknown_hash :: "string \<Rightarrow> 'k \<Rightarrow> bool" where
  "unknown_hash h ks \<longleftrightarrow> (\<forall>k \<in># active_keys ks. k_key_hash k \<noteq> h)"

lemma holds_found: "holds k ks \<Longrightarrow> find_key (k_key_hash k) ks = Some k"
  by (rule find_only) (auto simp: holds_def)

lemma unknown_not_found: "unknown_hash h ks \<Longrightarrow> find_key h ks = None"
  by (simp add: unknown_hash_def find_None)

lemma holds_new: "is_active k \<Longrightarrow> \<forall>k' \<in># active_keys ks. k_key_hash k' \<noteq> k_key_hash k \<and> k_id k' \<noteq> k_id k \<Longrightarrow> holds k (insert_key k ks)"
  by (simp add: holds_def insert_active)

lemma holds_insert:
  assumes "holds k ks" "is_active k'" "k_key_hash k' \<noteq> k_key_hash k" "k_id k' \<noteq> k_id k"
  shows "holds k (insert_key k' ks)"
proof -
  from assms(1) obtain M where "active_keys ks = add_mset k M" "\<forall>k' \<in># M. k_key_hash k' \<noteq> k_key_hash k \<and> k_id k' \<noteq> k_id k"
    by (auto simp: holds_def)
  with assms(2-4) show ?thesis
    unfolding holds_def by (intro exI [of _ "add_mset k' M"]) (auto simp: insert_active)
qed

lemma unknown_insert: "unknown_hash h ks \<Longrightarrow> is_active k \<Longrightarrow> k_key_hash k \<noteq> h \<Longrightarrow> unknown_hash h (insert_key k ks)"
  by (auto simp: unknown_hash_def insert_active)

lemma revoke_state:
  obtains (none) "snd (revoke_key now org i ks) = ks"
    | (one) k' ks' where "revoke_key now org i ks = (Inr (), ks')" "k_id k' = i" "k_org_id k' = org"
        "active_keys ks = add_mset k' (active_keys ks')" "\<forall>h. h \<noteq> k_key_hash k' \<longrightarrow> find_key h ks' = find_key h ks"
proof (cases "fst (revoke_key now org i ks)")
  case (Inl e)
  then show thesis using none revoke_missing by (metis prod.collapse)
next
  case (Inr u)
  then obtain ks' where r: "revoke_key now org i ks = (Inr u, ks')" by (metis prod.collapse)
  from revoke_found [OF r] r show thesis by (auto intro!: one dest: insert_DiffM)
qed

lemma holds_revoke:
  assumes "holds k ks" "\<not> (org = k_org_id k \<and> i = k_id k)"
  shows "holds k (snd (revoke_key now org i ks))"
proof (cases rule: revoke_state [of now org i ks])
  case (one k' ks')
  from assms(1) obtain M where M: "active_keys ks = add_mset k M" "\<forall>k' \<in># M. k_key_hash k' \<noteq> k_key_hash k \<and> k_id k' \<noteq> k_id k"
    by (auto simp: holds_def)
  have "k' \<noteq> k" using one assms(2) by auto
  with M(1) one(4) obtain N where "active_keys ks' = add_mset k N" "M = add_mset k' N"
    by (metis add_eq_conv_ex)
  with M(2) one(1) show ?thesis by (auto simp: holds_def)
qed (use assms in simp)

lemma unknown_revoke: "unknown_hash h ks \<Longrightarrow> unknown_hash h (snd (revoke_key now org i ks))"
  by (cases rule: revoke_state [of now org i ks]) (auto simp: unknown_hash_def)

lemma own_revoke:
  assumes "holds k ks"
  shows "\<exists>ks'. revoke_key now (k_org_id k) (k_id k) ks = (Inr (), ks') \<and> unknown_hash (k_key_hash k) ks' \<and>
    (\<forall>h. h \<noteq> k_key_hash k \<longrightarrow> find_key h ks' = find_key h ks)"
proof -
  from assms obtain M where M: "active_keys ks = add_mset k M" "\<forall>k' \<in># M. k_key_hash k' \<noteq> k_key_hash k \<and> k_id k' \<noteq> k_id k"
    by (auto simp: holds_def)
  obtain r ks' where r: "revoke_key now (k_org_id k) (k_id k) ks = (r, ks')" by fastforce
  with M obtain u where u: "r = Inr u"
    using revoke_missing [of now "k_org_id k" "k_id k" ks _ ks'] by (cases r) auto
  from revoke_found [OF r [unfolded u]] obtain k' where k': "k' \<in># add_mset k M" "k_id k' = k_id k"
    "active_keys ks' = add_mset k M - {#k'#}" "\<forall>h. h \<noteq> k_key_hash k' \<longrightarrow> find_key h ks' = find_key h ks"
    unfolding M(1) by blast
  from k'(1,2) M(2) have "k' = k" by auto
  with k' M(2) r u show ?thesis by (auto simp: unknown_hash_def)
qed

end

text \<open>The store of \<open>mocks.rs\<close> keeps the promise.\<close>

definition active_of :: "api_keys \<Rightarrow> api_key_record multiset" where
  "active_of keys = mset (filter is_active keys)"

lemma revoke_first_None: "revoke_first p now keys = None \<longleftrightarrow> (\<forall>k \<in> set keys. \<not> p k)"
  by (induction keys) auto

lemma revoke_first_Some:
  assumes "revoke_first p now keys = Some keys'" "\<And>k. p k \<Longrightarrow> is_active k"
  shows "\<exists>k \<in> set keys. p k \<and> active_of keys' = active_of keys - {#k#} \<and>
    (\<forall>h. h \<noteq> k_key_hash k \<longrightarrow> find_by_hash h keys' = find_by_hash h keys)"
  using assms
proof (induction keys arbitrary: keys')
  case (Cons k keys)
  show ?case
  proof (cases "p k")
    case True
    with Cons.prems show ?thesis by (auto simp: active_of_def is_active_def find_by_hash_def)
  next
    case False
    with Cons.prems(1) obtain ks where ks: "revoke_first p now keys = Some ks" "keys' = k # ks" by auto
    from Cons.IH [OF ks(1) Cons.prems(2)] obtain k' where k': "k' \<in> set keys" "p k'" "active_of ks = active_of keys - {#k'#}"
      "\<forall>h. h \<noteq> k_key_hash k' \<longrightarrow> find_by_hash h ks = find_by_hash h keys"
      by blast
    then have "k' \<in># active_of keys" using Cons.prems(2) by (simp add: active_of_def)
    with k' ks(2) show ?thesis by (intro bexI [of _ k']) (auto simp: active_of_def find_by_hash_def)
  qed
qed simp

interpretation mock_keys: key_store find_by_hash insert_api_key revoke_api_key active_of
proof
  show "k \<in># active_of ks \<and> k_key_hash k = h" if "find_by_hash h ks = Some k" for h ks k
    using that by (auto simp: find_by_hash_def find_Some_iff active_of_def)
  show "find_by_hash (k_key_hash k) ks \<noteq> None" if "k \<in># active_of ks" for k ks
    using that by (auto simp: find_by_hash_def find_None_iff active_of_def)
  show "active_of (insert_api_key k ks) = add_mset k (active_of ks)" if "is_active k" for k ks
    using that by (simp add: active_of_def insert_api_key_def)
  show "\<exists>k \<in># active_of ks. k_id k = i \<and> k_org_id k = org \<and> active_of ks' = active_of ks - {#k#} \<and>
      (\<forall>h. h \<noteq> k_key_hash k \<longrightarrow> find_by_hash h ks' = find_by_hash h ks)"
    if "revoke_api_key now org i ks = (Inr u, ks')" for now org i ks u ks'
  proof -
    from that obtain "revoke_first (\<lambda>k. k_id k = i \<and> k_org_id k = org \<and> is_active k) now ks = Some ks'"
      by (auto simp: revoke_api_key_def split: option.splits)
    from revoke_first_Some [OF this] show ?thesis by (auto simp: active_of_def)
  qed
  show "ks' = ks \<and> (\<forall>k \<in># active_of ks. \<not> (k_id k = i \<and> k_org_id k = org))"
    if "revoke_api_key now org i ks = (Inl e, ks')" for now org i ks e ks'
    using that by (auto simp: revoke_api_key_def active_of_def revoke_first_None split: option.splits)
qed

section \<open>Properties\<close>

lemma scope_labels_exact: "parse_api_key_scope_label v = Inr scope \<longleftrightarrow> (trim v, scope) \<in> set scope_labels"
  by (auto simp: parse_api_key_scope_label_def scope_labels_def split: if_splits)

lemma revoke_then_401:
  assumes "se_auth_enabled s" "se_auth_mode s = AuthDatabase" "usable_pepper s = Some pepper"
    and "extract_bearer_token rq = Inr raw" "find_by_hash (hash pepper raw) keys = None"
  shows "require_api_key s hash keys rq = refuse 401 ''UNAUTHORIZED'' ''invalid api key''"
  using assms by (simp add: require_api_key_def validate_database_authorization_def refuse_def)

lemma known_key_admitted:
  assumes "se_auth_enabled s" "se_auth_mode s = AuthDatabase" "usable_pepper s = Some pepper"
    and "extract_bearer_token rq = Inr raw" "find_by_hash (hash pepper raw) keys = Some k"
  shows "require_api_key s hash keys rq = Inr (Some \<lparr>au_org_id = k_org_id k, au_api_key_id = k_id k, au_scopes = k_scopes k\<rparr>)"
proof -
  have "is_active k" using mock_keys.find_active [OF assms(5)] by (auto simp: active_of_def)
  with assms show ?thesis by (simp add: require_api_key_def validate_database_authorization_def)
qed

lemma api_eq_Inr [result_simps]: "api r = Inr x \<longleftrightarrow> r = Inr x"
  by (cases r) (auto simp: api_def)

lemma bearer_of_raw: "hr_header rq ''authorization'' = Some (Some (''Bearer '' @ raw)) \<Longrightarrow> raw \<noteq> [] \<Longrightarrow> extract_bearer_token rq = Inr raw"
  by (simp add: extract_bearer_token_def BEARER_PREFIX_def starts_with_def)

lemma create_api_key_ok:
  assumes "create_api_key s hash random key_id now auth org request keys = (Inr created, keys1)" "se_auth_mode s = AuthDatabase"
  shows "\<exists>pepper name scopes k. usable_pepper s = Some pepper \<and> parse_create_api_key_request request = Inr (name, scopes) \<and>
    k = \<lparr>k_id = key_id, k_org_id = org, k_name = name, k_key_hash = hash pepper (generate_raw_api_key random),
      k_scopes = scopes, k_created_at = now, k_revoked_at = None\<rparr> \<and>
    keys1 = insert_api_key k keys \<and> created = \<lparr>cr_api_key = api_key_item_of k, cr_raw_key = generate_raw_api_key random\<rparr>"
  using assms by (auto simp: create_api_key_def resolve_api_key_pepper_def result_simps Let_def split: option.splits)

lemma parse_scopes_labels:
  "parse_scopes vs = Inr scopes \<Longrightarrow> list_all2 (\<lambda>v scope. (trim v, scope) \<in> set scope_labels) vs scopes"
  by (induction vs arbitrary: scopes) (auto simp: result_simps scope_labels_exact)

lemma parse_create_labels:
  "parse_create_api_key_request r = Inr (name, scopes) \<Longrightarrow>
     list_all2 (\<lambda>v scope. (trim v, scope) \<in> set scope_labels) (ck_scopes r) scopes"
  by (auto simp: parse_create_api_key_request_def result_simps parse_scopes_labels split: if_splits)

lemma revoke_handler_eq:
  assumes "check_any_scope auth [AdminWrite] = Inr ()" "parse_uuid (trim text) = Some i"
  shows "snd (revoke_api_key_handler parse_uuid now auth org text keys) = snd (revoke_api_key now org i keys)"
    "fst (revoke_api_key now org i keys) = Inr () \<Longrightarrow> fst (revoke_api_key_handler parse_uuid now auth org text keys) = Inr True"
  using assms by (auto simp: revoke_api_key_handler_def seqC_def bindC_def Let_def split_def api_def split: sum.splits)

section \<open>Requests to the key routes, in any order\<close>

datatype key_request =
    CreateKey uuid uuid datetime "auth_context option" string create_api_key_request
  | RevokeKey datetime "auth_context option" string string
  | ListKeys "auth_context option" string list_api_keys_query

fun serve_key ::
  "settings \<Rightarrow> (string \<Rightarrow> string \<Rightarrow> string) \<Rightarrow> (string \<Rightarrow> uuid option) \<Rightarrow> codec \<Rightarrow> key_request \<Rightarrow> api_keys \<Rightarrow> api_keys" where
  "serve_key s hash parse_uuid cd (CreateKey random i now auth org request) keys =
     snd (create_api_key s hash random i now auth org request keys)"
| "serve_key s hash parse_uuid cd (RevokeKey now auth org text) keys = snd (revoke_api_key_handler parse_uuid now auth org text keys)"
| "serve_key s hash parse_uuid cd (ListKeys auth org q) keys = snd (list_api_keys cd auth org q keys)"

definition key_hash :: "settings \<Rightarrow> (string \<Rightarrow> string \<Rightarrow> string) \<Rightarrow> string \<Rightarrow> string option" where
  "key_hash s hash raw = map_option (\<lambda>pepper. hash pepper raw) (usable_pepper s)"

text \<open>What a request must not do to a key, given by its raw text and identifier: draw it again, or revoke it for its
  organisation with the scope to do so.\<close>

fun draws_other :: "settings \<Rightarrow> (string \<Rightarrow> string \<Rightarrow> string) \<Rightarrow> string \<Rightarrow> uuid \<Rightarrow> key_request \<Rightarrow> bool" where
  "draws_other s hash raw key_id (CreateKey random i _ _ _ _) \<longleftrightarrow>
     i \<noteq> key_id \<and> key_hash s hash (generate_raw_api_key random) \<noteq> key_hash s hash raw"
| "draws_other s hash raw key_id _ \<longleftrightarrow> True"

fun revokes :: "(string \<Rightarrow> uuid option) \<Rightarrow> string \<Rightarrow> uuid \<Rightarrow> key_request \<Rightarrow> bool" where
  "revokes parse_uuid org key_id (RevokeKey _ auth org' text) \<longleftrightarrow>
     org' = org \<and> parse_uuid (trim text) = Some key_id \<and> check_any_scope auth [AdminWrite] = Inr ()"
| "revokes parse_uuid org key_id _ \<longleftrightarrow> False"

lemma create_state:
  assumes "se_auth_mode s = AuthDatabase"
  obtains "snd (create_api_key s hash random i now auth org request keys) = keys"
    | k where "snd (create_api_key s hash random i now auth org request keys) = insert_api_key k keys" "is_active k" "k_id k = i"
        "key_hash s hash (generate_raw_api_key random) = Some (k_key_hash k)"
proof (cases "create_api_key s hash random i now auth org request keys")
  case (Pair r keys1)
  show thesis
  proof (cases r)
    case (Inl e)
    with Pair have "keys1 = keys"
      by (auto simp: create_api_key_def seqC_def bindC_def Let_def split: sum.splits prod.splits)
    with Pair show thesis by (intro that(1)) simp
  next
    case (Inr created)
    from create_api_key_ok [OF Pair [unfolded Inr] assms] obtain pepper k where "usable_pepper s = Some pepper"
        "keys1 = insert_api_key k keys" "k_id k = i" "k_revoked_at k = None" "k_key_hash k = hash pepper (generate_raw_api_key random)"
      by auto
    with Pair show thesis by (intro that(2) [of k]) (simp_all add: is_active_def key_hash_def)
  qed
qed

lemma revoke_handler_state:
  obtains "snd (revoke_api_key_handler parse_uuid now auth org text keys) = keys"
    | i where "snd (revoke_api_key_handler parse_uuid now auth org text keys) = snd (revoke_api_key now org i keys)"
        "parse_uuid (trim text) = Some i" "check_any_scope auth [AdminWrite] = Inr ()"
proof (cases "check_any_scope auth [AdminWrite] = Inr () \<and> parse_uuid (trim text) \<noteq> None")
  case True
  then show thesis using that(2) revoke_handler_eq(1) by blast
next
  case False
  then have "snd (revoke_api_key_handler parse_uuid now auth org text keys) = keys"
    by (auto simp: revoke_api_key_handler_def seqC_def bindC_def api_def ok_or_def split: sum.split)
  then show thesis by (rule that(1))
qed

lemma list_keys_state: "snd (list_api_keys cd auth org q keys) = keys"
  by (simp add: list_api_keys_def seqC_def bindC_def split: sum.split prod.split)

lemma serve_key_holds:
  assumes "se_auth_mode s = AuthDatabase" "mock_keys.holds k keys" "key_hash s hash raw = Some (k_key_hash k)"
    and "draws_other s hash raw (k_id k) rq" "\<not> revokes parse_uuid (k_org_id k) (k_id k) rq"
  shows "mock_keys.holds k (serve_key s hash parse_uuid cd rq keys)"
proof (cases rq)
  case (CreateKey random i now auth org request)
  with assms show ?thesis
    by (cases rule: create_state [OF assms(1), of hash random i now auth org request keys]) (auto intro: mock_keys.holds_insert)
next
  case (RevokeKey now auth org key_text)
  with assms show ?thesis
    by (cases rule: revoke_handler_state [of parse_uuid now auth org key_text keys]) (auto intro: mock_keys.holds_revoke)
next
  case (ListKeys auth org q)
  with assms(2) show ?thesis by (simp add: list_keys_state)
qed

lemma serve_key_unknown:
  assumes "se_auth_mode s = AuthDatabase" "mock_keys.unknown_hash h keys" "key_hash s hash raw = Some h" "draws_other s hash raw i rq"
  shows "mock_keys.unknown_hash h (serve_key s hash parse_uuid cd rq keys)"
proof (cases rq)
  case (CreateKey random i now auth org request)
  with assms show ?thesis
    by (cases rule: create_state [OF assms(1), of hash random i now auth org request keys]) (auto intro: mock_keys.unknown_insert)
next
  case (RevokeKey now auth org key_text)
  with assms show ?thesis
    by (cases rule: revoke_handler_state [of parse_uuid now auth org key_text keys]) (auto intro: mock_keys.unknown_revoke)
next
  case (ListKeys auth org q)
  with assms(2) show ?thesis by (simp add: list_keys_state)
qed

definition serve_keys where
  "serve_keys s hash parse_uuid cd rqs keys = fold (serve_key s hash parse_uuid cd) rqs keys"

lemma serve_keys_holds:
  assumes "se_auth_mode s = AuthDatabase" "mock_keys.holds k keys" "key_hash s hash raw = Some (k_key_hash k)"
    and "\<forall>rq \<in> set rqs. draws_other s hash raw (k_id k) rq \<and> \<not> revokes parse_uuid (k_org_id k) (k_id k) rq"
  shows "mock_keys.holds k (serve_keys s hash parse_uuid cd rqs keys)"
  using assms(2,4) unfolding serve_keys_def
  by (induction rqs arbitrary: keys) (auto intro: serve_key_holds [OF assms(1) _ assms(3)])

lemma serve_keys_unknown:
  assumes "se_auth_mode s = AuthDatabase" "mock_keys.unknown_hash h keys" "key_hash s hash raw = Some h"
    and "\<forall>rq \<in> set rqs. draws_other s hash raw i rq"
  shows "mock_keys.unknown_hash h (serve_keys s hash parse_uuid cd rqs keys)"
  using assms(2,4) unfolding serve_keys_def
  by (induction rqs arbitrary: keys) (auto intro: serve_key_unknown [OF assms(1) _ assms(3)])

lemma admission_by_hash:
  assumes "\<And>raw pepper. extract_bearer_token rq = Inr raw \<Longrightarrow> usable_pepper s = Some pepper \<Longrightarrow>
    find_by_hash (hash pepper raw) keys = find_by_hash (hash pepper raw) keys'"
  shows "require_api_key s hash keys rq = require_api_key s hash keys' rq"
  using assms by (auto simp: require_api_key_def validate_database_authorization_def and_then_def
      split: auth_mode.split sum.split option.split)

text \<open>C33: In database mode a key that was created lets its holder in, for its organisation and with exactly the scopes that
  were asked for, for as long as its organisation does not revoke it: after any sequence of other requests to the key
  routes (creations, listings, revocations of other keys, and attempts of other organisations, or without the scope,
  to revoke this one). Then the organisation can revoke it; that changes for no other token whether and as whom it is
  admitted; and from then on, after any further sequence of requests, the key is refused with 401. Relied on: no other
  key, stored before or created by these requests, has the key's hash or identifier.\<close>

theorem api_key_lifecycle:
  assumes "se_auth_enabled s" and "se_auth_mode s = AuthDatabase"
    and created: "create_api_key s hash random key_id now auth org request keys = (Inr created, keys1)"
    and fresh: "\<forall>k \<in> set keys. k_id k \<noteq> key_id \<and> key_hash s hash (cr_raw_key created) \<noteq> Some (k_key_hash k)"
    and bearer: "hr_header rq ''authorization'' = Some (Some (''Bearer '' @ cr_raw_key created))"
    and before: "\<forall>r \<in> set rqs. draws_other s hash (cr_raw_key created) key_id r \<and> \<not> revokes parse_uuid org key_id r"
    and admin: "check_any_scope admin [AdminWrite] = Inr ()" and id_text: "parse_uuid (trim text) = Some key_id"
    and afterwards: "\<forall>r \<in> set rqs'. draws_other s hash (cr_raw_key created) key_id r"
  shows "\<exists>scopes keys2 keys3.
    keys2 = serve_keys s hash parse_uuid cd rqs keys1 \<and>
    list_all2 (\<lambda>v scope. (trim v, scope) \<in> set scope_labels) (ck_scopes request) scopes \<and>
    require_api_key s hash keys2 rq = Inr (Some \<lparr>au_org_id = org, au_api_key_id = key_id, au_scopes = scopes\<rparr>) \<and>
    revoke_api_key_handler parse_uuid later admin org text keys2 = (Inr True, keys3) \<and>
    (\<forall>rq'. (\<forall>raw. extract_bearer_token rq' = Inr raw \<longrightarrow> key_hash s hash raw \<noteq> key_hash s hash (cr_raw_key created)) \<longrightarrow>
       require_api_key s hash keys3 rq' = require_api_key s hash keys2 rq') \<and>
    require_api_key s hash (serve_keys s hash parse_uuid cd rqs' keys3) rq = refuse 401 ''UNAUTHORIZED'' ''invalid api key''"
proof -
  from create_api_key_ok [OF created assms(2)] obtain pepper name scopes k where
      pepper: "usable_pepper s = Some pepper" and scopes: "parse_create_api_key_request request = Inr (name, scopes)"
    and k: "k = \<lparr>k_id = key_id, k_org_id = org, k_name = name, k_key_hash = hash pepper (cr_raw_key created),
      k_scopes = scopes, k_created_at = now, k_revoked_at = None\<rparr>" and keys1: "keys1 = insert_api_key k keys"
    and raw: "cr_raw_key created = generate_raw_api_key random"
    by fastforce
  have token: "extract_bearer_token rq = Inr (cr_raw_key created)"
    using bearer_of_raw [OF bearer] by (simp add: raw generate_raw_api_key_def)
  have h: "k_key_hash k = hash pepper (cr_raw_key created)" "k_id k = key_id" "k_org_id k = org" "k_scopes k = scopes"
    by (simp_all add: k)
  have kh: "key_hash s hash (cr_raw_key created) = Some (k_key_hash k)" by (simp add: key_hash_def pepper h)
  have "mock_keys.holds k keys1"
    unfolding keys1 by (rule mock_keys.holds_new) (use fresh kh in \<open>auto simp: k is_active_def active_of_def\<close>)
  define keys2 where "keys2 = serve_keys s hash parse_uuid cd rqs keys1"
  have held: "mock_keys.holds k keys2"
    unfolding keys2_def by (rule serve_keys_holds [OF assms(2) \<open>mock_keys.holds k keys1\<close> kh]) (use before h in simp)
  obtain keys3 where keys3: "revoke_api_key later org key_id keys2 = (Inr (), keys3)"
      and gone: "mock_keys.unknown_hash (k_key_hash k) keys3"
      and others: "\<forall>h. h \<noteq> k_key_hash k \<longrightarrow> find_by_hash h keys3 = find_by_hash h keys2"
    using mock_keys.own_revoke [OF held, of later] by (auto simp: h)
  have "mock_keys.unknown_hash (k_key_hash k) (serve_keys s hash parse_uuid cd rqs' keys3)"
    by (rule serve_keys_unknown [OF assms(2) gone kh afterwards])
  then have "require_api_key s hash (serve_keys s hash parse_uuid cd rqs' keys3) rq = refuse 401 ''UNAUTHORIZED'' ''invalid api key''"
    using revoke_then_401 [where hash = hash, OF assms(1,2) pepper token] mock_keys.unknown_not_found by (simp add: h)
  moreover have "require_api_key s hash keys2 rq = Inr (Some \<lparr>au_org_id = org, au_api_key_id = key_id, au_scopes = scopes\<rparr>)"
    using known_key_admitted [where hash = hash, OF assms(1,2) pepper token] mock_keys.holds_found [OF held] by (simp add: h)
  moreover have "revoke_api_key_handler parse_uuid later admin org text keys2 = (Inr True, keys3)"
    using revoke_handler_eq [where parse_uuid = parse_uuid, OF admin id_text, of later org keys2] keys3
    by (simp add: prod_eq_iff)
  moreover have "require_api_key s hash keys3 rq' = require_api_key s hash keys2 rq'"
    if "\<forall>raw. extract_bearer_token rq' = Inr raw \<longrightarrow> key_hash s hash raw \<noteq> key_hash s hash (cr_raw_key created)" for rq'
    by (rule admission_by_hash) (use that others in \<open>auto simp: h key_hash_def pepper\<close>)
  ultimately show ?thesis
    using parse_create_labels [OF scopes] keys2_def by blast
qed

definition database_settings :: settings where
  "database_settings = settings_default\<lparr>se_auth_mode := AuthDatabase, se_api_key_pepper := Some ''pepper''\<rparr>"

definition bearer_request :: "string \<Rightarrow> http_request" where
  "bearer_request token = \<lparr>hr_method = ''GET'', hr_path = ''/api/v1/api-keys'',
     hr_header = (\<lambda>name. if name = ''authorization'' then Some (Some (''Bearer '' @ token)) else None)\<rparr>"

lemma created_in_database_mode:
  "create_api_key database_settings (\<lambda>p t. p @ t) 7 9 0 None ''acme'' \<lparr>ck_name = ''ci'', ck_scopes = [''MemoryRead'']\<rparr> [] =
     (Inr \<lparr>cr_api_key = \<lparr>ki_id = 9, ki_org_id = ''acme'', ki_name = ''ci'', ki_scopes = [MemoryRead], ki_created_at = 0, ki_revoked_at = None\<rparr>,
           cr_raw_key = generate_raw_api_key 7\<rparr>,
      [\<lparr>k_id = 9, k_org_id = ''acme'', k_name = ''ci'', k_key_hash = ''pepper'' @ generate_raw_api_key 7,
        k_scopes = [MemoryRead], k_created_at = 0, k_revoked_at = None\<rparr>])"
  by (simp add: create_api_key_def check_any_scope_def parse_create_api_key_request_def parse_api_key_scope_label_def
      scope_labels_def resolve_api_key_pepper_def usable_pepper_def database_settings_def settings_default_def
      insert_api_key_def api_key_item_of_def api_def str_eval seqC_def bindC_def Let_def)

text \<open>Another key is created and revoked, and another organisation tries to revoke this one.\<close>

definition other_requests :: "key_request list" where
  "other_requests =
     [CreateKey 8 10 1 None ''acme'' \<lparr>ck_name = ''cd'', ck_scopes = [''MemoryWrite'']\<rparr>,
      RevokeKey 2 None ''globex'' ''9'', RevokeKey 3 None ''acme'' ''10'']"

definition sample_parse_uuid :: "string \<Rightarrow> uuid option" where
  "sample_parse_uuid v = map_of [(''9'', 9), (''10'', 10)] v"

lemma other_key_hash: "generate_raw_api_key 8 \<noteq> generate_raw_api_key 7"
  by (simp add: generate_raw_api_key_def hex_digits_inj)

theorem api_key_lifecycle_witness:
  "\<forall>cd. \<exists>created keys1 keys3. create_api_key database_settings (\<lambda>p t. p @ t) 7 9 0 None ''acme'' \<lparr>ck_name = ''ci'', ck_scopes = [''MemoryRead'']\<rparr> [] =
      (Inr created, keys1) \<and>
    revoke_api_key_handler sample_parse_uuid 4 None ''acme'' ''9''
      (serve_keys database_settings (\<lambda>p t. p @ t) sample_parse_uuid cd other_requests keys1) = (Inr True, keys3) \<and>
    require_api_key database_settings (\<lambda>p t. p @ t) (serve_keys database_settings (\<lambda>p t. p @ t) sample_parse_uuid cd other_requests keys3)
      (bearer_request (cr_raw_key created)) = refuse 401 ''UNAUTHORIZED'' ''invalid api key''" (is "\<forall>cd. ?P cd")
proof
  fix cd :: codec
  let ?rq = "bearer_request (generate_raw_api_key 7)"
  have "se_auth_enabled database_settings" "se_auth_mode database_settings = AuthDatabase"
    by (simp_all add: database_settings_def settings_default_def)
  moreover have "hr_header ?rq ''authorization'' = Some (Some (''Bearer '' @ generate_raw_api_key 7))"
    by (simp add: bearer_request_def)
  moreover have "check_any_scope None [AdminWrite] = Inr ()" by (simp add: check_any_scope_def)
  moreover have "sample_parse_uuid (trim ''9'') = Some 9" by (simp add: sample_parse_uuid_def str_eval)
  moreover have "\<forall>r \<in> set other_requests. draws_other database_settings (\<lambda>p t. p @ t) (generate_raw_api_key 7) 9 r \<and>
      \<not> revokes sample_parse_uuid ''acme'' 9 r"
    by (simp add: other_requests_def key_hash_def usable_pepper_def database_settings_def str_eval other_key_hash sample_parse_uuid_def)
  ultimately show "?P cd"
    using api_key_lifecycle [OF _ _ created_in_database_mode, of ?rq other_requests sample_parse_uuid None "''9''" other_requests cd 4]
    unfolding created_in_database_mode by auto
qed

end
