(* ===== verification/Api_Dto.thy ===== *)
theory Api_Dto
  imports Engine_Admin Settings
begin

text \<open>
  What crosses the wire: \<^verbatim>\<open>crates/memcore-api/src/dto\<close>, the bodies and queries of the memory, context, user and
  audit routes, and the conversions to and from the engine's types. A body is taken as its parsed value. The response
  enumerations (\<open>MemoryTypeResponse\<close>, \<open>ExportMemorySourceResponse\<close>, \<open>MemoryEventOperationResponse\<close>) copy the
  model's constructor by constructor and are identified with them; the constant \<open>status\<close> field of the responses is
  left out. \<open>Uuid::parse_str\<close> and \<open>DateTime::parse_from_rfc3339\<close> are parameters.
\<close>

section \<open>Memories (\<open>dto/memories.rs\<close>)\<close>

record memory_message_request =
  mm_role :: string
  mm_content :: string

record add_memory_request =
  am_user_id :: string
  am_messages :: "memory_message_request list"
  am_metadata :: json

record memory_item_response =
  mi_id :: uuid
  mi_content :: string
  mi_memory_type :: memory_type
  mi_confidence :: f32
  mi_importance :: f32

record memory_operation_summary =
  ms_added :: nat
  ms_updated :: nat
  ms_deleted :: nat
  ms_noop :: nat

record add_memory_response =
  ar_summary :: memory_operation_summary
  ar_memories :: "memory_item_response list"

record search_memory_request =
  sm_user_id :: string
  sm_query :: string
  sm_limit :: nat
  sm_memory_type :: "string list option"

record search_result_response =
  rr_fact_id :: uuid
  rr_content :: string
  rr_memory_type :: memory_type
  rr_score :: f32
  rr_metadata :: json

record list_memories_query =
  lm_memory_type :: "string option"
  lm_q :: "string option"
  lm_limit :: nat
  lm_cursor :: "string option"
  lm_include_deleted :: bool

record list_memory_item =
  lt_id :: uuid
  lt_content :: string
  lt_memory_type :: memory_type
  lt_confidence :: f32
  lt_importance :: f32
  lt_metadata :: json

definition memory_item_of :: "fact \<Rightarrow> memory_item_response" where
  "memory_item_of f =
     \<lparr>mi_id = f_id f, mi_content = f_content f, mi_memory_type = f_memory_type f, mi_confidence = f_confidence f,
      mi_importance = f_importance f\<rparr>"

definition add_memory_response_of :: "add_memory_output \<Rightarrow> add_memory_response" where
  "add_memory_response_of out =
     \<lparr>ar_summary = \<lparr>ms_added = ao_added out, ms_updated = ao_updated out, ms_deleted = ao_deleted out, ms_noop = ao_noop out\<rparr>,
      ar_memories = map memory_item_of (ao_memories out)\<rparr>"

definition search_result_of :: "memory_search_result \<Rightarrow> search_result_response" where
  "search_result_of r =
     \<lparr>rr_fact_id = r_fact_id r, rr_content = r_content r, rr_memory_type = r_memory_type r, rr_score = r_score r,
      rr_metadata = r_metadata r\<rparr>"

definition list_memory_item_of :: "fact \<Rightarrow> list_memory_item" where
  "list_memory_item_of f =
     \<lparr>lt_id = f_id f, lt_content = f_content f, lt_memory_type = f_memory_type f, lt_confidence = f_confidence f,
      lt_importance = f_importance f, lt_metadata = f_metadata f\<rparr>"

definition memory_types :: "memory_type list" where
  "memory_types = [Profile, Preference, Project, Conversation, Task, Entity, Skill, MTSystem]"

definition parse_memory_type_label :: "string \<Rightarrow> memory_type memcore_result" where
  "parse_memory_type_label label =
     (case map_of (map (\<lambda>t. (memory_type_label t, t)) memory_types) (trim label) of
        Some t \<Rightarrow> Inr t
      | None \<Rightarrow> Inl (ValidationError (''invalid memory type: '' @ trim label)))"

text \<open>\<open>iter().map(f).collect::<Result<Vec<_>, _>>()\<close>: the first error ends it.\<close>

fun collect_results :: "('a \<Rightarrow> 'e + 'b) \<Rightarrow> 'a list \<Rightarrow> 'e + 'b list" where
  "collect_results f [] = Inr []"
| "collect_results f (x # xs) = and_then (f x) (\<lambda>y. and_then (collect_results f xs) (\<lambda>ys. Inr (y # ys)))"

definition transpose_option :: "('a \<Rightarrow> 'e + 'b) \<Rightarrow> 'a option \<Rightarrow> 'e + 'b option" where
  "transpose_option f v = (case v of None \<Rightarrow> Inr None | Some x \<Rightarrow> and_then (f x) (\<lambda>y. Inr (Some y)))"

definition parse_memory_types :: "string list option \<Rightarrow> memory_type list option memcore_result" where
  "parse_memory_types types =
     (case types of
        None \<Rightarrow> Inr None
      | Some vs \<Rightarrow>
          if vs = [] then Inr None
          else and_then (collect_results parse_memory_type_label vs) (\<lambda>ts. Inr (Some ts)))"

definition MAX_KEYWORD_QUERY_LENGTH :: nat where
  "MAX_KEYWORD_QUERY_LENGTH = 200"

definition parse_keyword_query :: "string option \<Rightarrow> string option memcore_result" where
  "parse_keyword_query q =
     (case q of
        None \<Rightarrow> Inr None
      | Some v \<Rightarrow>
          if trim v = [] then Inr None
          else if MAX_KEYWORD_QUERY_LENGTH < char_count (trim v)
          then Inl (ValidationError ''q must be 200 characters or less'')
          else Inr (Some (trim v)))"

section \<open>Context (\<open>dto/context.rs\<close>)\<close>

record build_context_request =
  br_user_id :: string
  br_query :: string
  br_max_memories :: nat
  br_max_tokens :: nat
  br_reserved_tokens :: nat
  br_include_metadata :: bool
  br_format :: "string option"
  br_section_by_memory_type :: "bool option"
  br_include_memory_ids :: "bool option"
  br_include_memory_types :: "bool option"
  br_include_scores :: "bool option"
  br_include_timestamps :: "bool option"
  br_include_confidence :: "bool option"
  br_include_importance :: "bool option"
  br_compression_mode :: "string option"
  br_summary_max_tokens :: "nat option"
  br_include_summary_section :: "bool option"
  br_memory_type :: "string list option"

record context_compression_response =
  cs_enabled :: bool
  cs_mode :: string
  cs_summarized_memories :: nat
  cs_summary_tokens :: nat

record build_context_response =
  bs_context :: string
  bs_memories :: "search_result_response list"
  bs_budget :: context_budget_usage
  bs_compression :: context_compression_response
  bs_cache :: context_cache_usage

fun compression_mode_label :: "context_compression_mode \<Rightarrow> string" where
  "compression_mode_label CompressionDisabled = ''disabled''"
| "compression_mode_label SimpleExtractive = ''simple_extractive''"
| "compression_mode_label ProviderSummary = ''provider_summary''"

definition compression_response_of :: "context_compression_usage \<Rightarrow> context_compression_response" where
  "compression_response_of u =
     \<lparr>cs_enabled = cu_enabled u, cs_mode = compression_mode_label (cu_mode u),
      cs_summarized_memories = cu_summarized_memories u, cs_summary_tokens = cu_summary_tokens u\<rparr>"

text \<open>\<open>ContextBudgetResponse\<close> and \<open>ContextCacheResponse\<close> copy the engine's records field by field.\<close>

definition build_context_response_of :: "build_context_output \<Rightarrow> build_context_response" where
  "build_context_response_of out =
     \<lparr>bs_context = bo_context out, bs_memories = map search_result_of (bo_memories out), bs_budget = bo_budget out,
      bs_compression = compression_response_of (bo_compression out), bs_cache = bo_cache out\<rparr>"

definition override :: "'a option \<Rightarrow> 'a \<Rightarrow> 'a" where
  "override v d = (case v of Some x \<Rightarrow> x | None \<Rightarrow> d)"

definition format_options_from_request :: "build_context_request \<Rightarrow> context_format_options memcore_result" where
  "format_options_from_request r =
     (let d = context_format_options_default in
      and_then (transpose_option context_format_parse (br_format r)) (\<lambda>format.
      Inr \<lparr>fo_format = override format (fo_format d),
           fo_section_by_memory_type = override (br_section_by_memory_type r) (fo_section_by_memory_type d),
           fo_include_memory_ids = override (br_include_memory_ids r) (fo_include_memory_ids d),
           fo_include_memory_types = override (br_include_memory_types r) (fo_include_memory_types d),
           fo_include_scores = override (br_include_scores r) (fo_include_scores d),
           fo_include_timestamps = override (br_include_timestamps r) (fo_include_timestamps d),
           fo_include_confidence = override (br_include_confidence r) (fo_include_confidence d),
           fo_include_importance = override (br_include_importance r) (fo_include_importance d)\<rparr>))"

definition compression_options_from_request ::
  "build_context_request \<Rightarrow> nat \<Rightarrow> context_compression_options memcore_result" where
  "compression_options_from_request r available =
     (let d = context_compression_options_default in
      and_then (transpose_option compression_mode_parse (br_compression_mode r)) (\<lambda>mode.
      let options = \<lparr>co_mode = override mode (co_mode d),
            co_summary_max_tokens = override (br_summary_max_tokens r) (co_summary_max_tokens d),
            co_include_summary_section = override (br_include_summary_section r) (co_include_summary_section d)\<rparr>
      in and_then (compression_validate options available) (\<lambda>_. Inr options)))"

definition request_budget :: "build_context_request \<Rightarrow> context_budget" where
  "request_budget r = \<lparr>b_max_tokens = br_max_tokens r, b_reserved_tokens = br_reserved_tokens r\<rparr>"

definition validate_build_context_request :: "build_context_request \<Rightarrow> unit memcore_result" where
  "validate_build_context_request r =
     (if trim (br_user_id r) = [] then Inl (ValidationError ''user_id cannot be empty'')
      else if trim (br_query r) = [] then Inl (ValidationError ''query cannot be empty'')
      else if br_max_memories r = 0 then Inl (ValidationError ''max_memories must be greater than 0'')
      else if MAX_CONTEXT_MAX_MEMORIES < br_max_memories r
      then Inl (ValidationError (''max_memories cannot exceed '' @ show_nat MAX_CONTEXT_MAX_MEMORIES))
      else and_then (budget_validate (request_budget r)) (\<lambda>_.
           and_then (format_options_from_request r) (\<lambda>_.
           and_then (compression_options_from_request r (available_tokens (request_budget r))) (\<lambda>_.
           and_then (case br_summary_max_tokens r of
                       None \<Rightarrow> Inr ()
                     | Some n \<Rightarrow>
                         if n = 0 then Inl (ValidationError ''summary_max_tokens must be greater than 0'')
                         else if MAX_SUMMARY_MAX_TOKENS < n
                         then Inl (ValidationError (''summary_max_tokens cannot exceed '' @ show_nat MAX_SUMMARY_MAX_TOKENS))
                         else Inr ()) (\<lambda>_.
           and_then (transpose_option compression_mode_parse (br_compression_mode r)) (\<lambda>_. Inr ()))))))"

section \<open>Retention (\<open>dto/retention.rs\<close>)\<close>

record apply_retention_request =
  rq_dry_run :: bool
  rq_fact_retention_days :: "u32 option"
  rq_event_retention_days :: "u32 option"

definition resolve_retention_days :: "u32 option \<Rightarrow> u32 \<Rightarrow> u32 option" where
  "resolve_retention_days override_days default_days =
     (case override_days of
        Some d \<Rightarrow> if d = 0 then None else Some d
      | None \<Rightarrow> if default_days = 0 then None else Some default_days)"

definition retention_policy_from_settings :: "settings \<Rightarrow> apply_retention_request \<Rightarrow> retention_policy" where
  "retention_policy_from_settings s r =
     \<lparr>rp_enabled = se_retention_enabled s,
      rp_fact_retention_days = resolve_retention_days (rq_fact_retention_days r) (se_fact_retention_days s),
      rp_event_retention_days = resolve_retention_days (rq_event_retention_days r) (se_event_retention_days s)\<rparr>"

section \<open>The audit log (\<open>dto/memory_events.rs\<close>)\<close>

record list_memory_events_query =
  ev_operation :: "string option"
  ev_fact_id :: "string option"
  ev_created_after :: "string option"
  ev_created_before :: "string option"
  ev_q :: "string option"
  ev_limit :: nat
  ev_cursor :: "string option"

record memory_event_item =
  ei_id :: uuid
  ei_fact_id :: "uuid option"
  ei_operation :: memory_event_operation
  ei_previous_content :: "string option"
  ei_new_content :: "string option"
  ei_provider_name :: "string option"
  ei_model_name :: "string option"
  ei_metadata :: json
  ei_created_at :: datetime

definition memory_event_item_of :: "memory_event \<Rightarrow> memory_event_item" where
  "memory_event_item_of e =
     \<lparr>ei_id = e_id e, ei_fact_id = e_fact_id e, ei_operation = e_operation e, ei_previous_content = e_previous_content e,
      ei_new_content = e_new_content e, ei_provider_name = e_provider_name e, ei_model_name = e_model_name e,
      ei_metadata = e_metadata e, ei_created_at = e_created_at e\<rparr>"

definition operation_labels :: "(string \<times> memory_event_operation) list" where
  "operation_labels =
     [(''Add'', EvAdd), (''Update'', EvUpdate), (''Delete'', EvDelete), (''NoOp'', EvNoOp), (''ForgetUser'', EvForgetUser)]"

definition parse_memory_event_operation_label :: "string \<Rightarrow> memory_event_operation memcore_result" where
  "parse_memory_event_operation_label label =
     (case map_of operation_labels (trim label) of Some x \<Rightarrow> Inr x | None \<Rightarrow> Inl (ValidationError ''invalid operation''))"

definition parse_optional_rfc3339_timestamp ::
  "(string \<Rightarrow> datetime option) \<Rightarrow> string option \<Rightarrow> string \<Rightarrow> datetime option memcore_result" where
  "parse_optional_rfc3339_timestamp parse_rfc3339 v field_name =
     transpose_option (\<lambda>raw. ok_or (ValidationError (''invalid '' @ field_name @ '' timestamp'')) (parse_rfc3339 (trim raw))) v"

definition parse_event_date_filters ::
  "(string \<Rightarrow> datetime option) \<Rightarrow> string option \<Rightarrow> string option \<Rightarrow> (datetime option \<times> datetime option) memcore_result" where
  "parse_event_date_filters parse_rfc3339 created_after created_before =
     and_then (parse_optional_rfc3339_timestamp parse_rfc3339 created_after ''created_after'') (\<lambda>after.
     and_then (parse_optional_rfc3339_timestamp parse_rfc3339 created_before ''created_before'') (\<lambda>before.
     and_then (validate_event_date_range after before) (\<lambda>_. Inr (after, before))))"

section \<open>Export and import (\<open>dto/export.rs\<close>, \<open>dto/import.rs\<close>)\<close>

record export_fact_item =
  xf_id :: uuid
  xf_org_id :: string
  xf_user_id :: string
  xf_content :: string
  xf_summary :: "string option"
  xf_memory_type :: memory_type
  xf_source :: memory_source
  xf_confidence :: f32
  xf_importance :: f32
  xf_valid_at :: "datetime option"
  xf_invalid_at :: "datetime option"
  xf_recorded_at :: datetime
  xf_updated_at :: datetime
  xf_metadata :: json

record user_memory_export_response =
  xr_org_id :: string
  xr_user_id :: string
  xr_exported_at :: datetime
  xr_format_version :: string
  xr_facts :: "export_fact_item list"
  xr_memory_events :: "memory_event_item list"

definition export_fact_item_of :: "fact \<Rightarrow> export_fact_item" where
  "export_fact_item_of f =
     \<lparr>xf_id = f_id f, xf_org_id = f_org_id f, xf_user_id = f_user_id f, xf_content = f_content f, xf_summary = f_summary f,
      xf_memory_type = f_memory_type f, xf_source = f_source f, xf_confidence = f_confidence f,
      xf_importance = f_importance f, xf_valid_at = f_valid_at f, xf_invalid_at = f_invalid_at f,
      xf_recorded_at = f_recorded_at f, xf_updated_at = f_updated_at f, xf_metadata = f_metadata f\<rparr>"

definition fact_from_export_item :: "export_fact_item \<Rightarrow> fact memcore_result" where
  "fact_from_export_item x =
     fact_new (xf_id x) (xf_org_id x) (xf_user_id x) (xf_memory_type x) (xf_content x) (xf_summary x) (xf_source x)
       (xf_confidence x) (xf_importance x) (xf_valid_at x) (xf_invalid_at x) (xf_recorded_at x) (xf_updated_at x)
       (xf_metadata x)"

definition memory_event_from_api_item :: "string \<Rightarrow> string \<Rightarrow> memory_event_item \<Rightarrow> memory_event" where
  "memory_event_from_api_item org_id user_id x =
     \<lparr>e_id = ei_id x, e_org_id = org_id, e_user_id = user_id, e_fact_id = ei_fact_id x, e_operation = ei_operation x,
      e_input_text = None, e_previous_content = ei_previous_content x, e_new_content = ei_new_content x,
      e_provider_name = ei_provider_name x, e_model_name = ei_model_name x, e_metadata = ei_metadata x,
      e_created_at = ei_created_at x\<rparr>"

definition user_memory_export_from_response :: "user_memory_export_response \<Rightarrow> user_memory_export memcore_result" where
  "user_memory_export_from_response r =
     and_then (collect_results fact_from_export_item (xr_facts r)) (\<lambda>facts.
     Inr \<lparr>ex_org_id = xr_org_id r, ex_user_id = xr_user_id r, ex_exported_at = xr_exported_at r,
          ex_format_version = xr_format_version r, ex_facts = facts,
          ex_memory_events = map (memory_event_from_api_item (xr_org_id r) (xr_user_id r)) (xr_memory_events r)\<rparr>)"

definition export_response_of :: "user_memory_export \<Rightarrow> user_memory_export_response" where
  "export_response_of e =
     \<lparr>xr_org_id = ex_org_id e, xr_user_id = ex_user_id e, xr_exported_at = ex_exported_at e,
      xr_format_version = ex_format_version e, xr_facts = map export_fact_item_of (ex_facts e),
      xr_memory_events = map memory_event_item_of (ex_memory_events e)\<rparr>"

text \<open>\<open>deserialize_import_export\<close>: the value has the shape of an API export, or else that of the core model.\<close>

datatype import_body = ApiExport user_memory_export_response | CoreExport user_memory_export

fun deserialize_import_export :: "import_body \<Rightarrow> user_memory_export memcore_result" where
  "deserialize_import_export (ApiExport r) = user_memory_export_from_response r"
| "deserialize_import_export (CoreExport e) = Inr e"

record import_user_data_request =
  ir_export :: user_memory_export
  ir_mode :: import_mode
  ir_restore_events :: bool
  ir_dry_run :: bool

definition import_input_of :: "import_user_data_request \<Rightarrow> tenant_context \<Rightarrow> import_user_data_input" where
  "import_input_of r t =
     \<lparr>im_tenant = t, im_export = ir_export r, im_mode = ir_mode r, im_restore_events = ir_restore_events r,
      im_dry_run = ir_dry_run r\<rparr>"

record export_user_query =
  xq_include_events :: bool
  xq_include_deleted :: bool

end
