(* ===== verification/Api_Routes.thy ===== *)
theory Api_Routes
  imports Api_Keys Api_Dto
begin

text \<open>
  The handlers of \<^verbatim>\<open>crates/memcore-api/src/routes\<close> for memories, context, users and the audit log. A handler is
  a computation over the server: the engine's state, the key store, the rate limiter and the refreshes that have been
  spawned. Its faults are what the client sees.
\<close>

section \<open>The server (\<open>AppState\<close>)\<close>

record deployment =
  dp_settings :: settings
  dp_env :: env
  dp_engine :: engine
  dp_hash :: "string \<Rightarrow> string \<Rightarrow> string"
  dp_parse_uuid :: "string \<Rightarrow> uuid option"
  dp_parse_rfc3339 :: "string \<Rightarrow> datetime option"

record server =
  sv_sys :: sys
  sv_keys :: api_keys
  sv_limiter :: rate_limiter
  sv_shutdown :: bool
  sv_tasks :: "build_context_input list"

type_synonym 'a handler = "(server, api_fault, 'a) comp"

definition on_engine :: "'a eng \<Rightarrow> 'a handler" where
  "on_engine m s = (case m (sv_sys s) of (r, x) \<Rightarrow> (api_outcome r, s\<lparr>sv_sys := x\<rparr>))"

definition on_keys :: "'a keys_handler \<Rightarrow> 'a handler" where
  "on_keys m s = (case m (sv_keys s) of (r, x) \<Rightarrow> (r, s\<lparr>sv_keys := x\<rparr>))"

definition check :: "'a memcore_result \<Rightarrow> 'a handler" where
  "check r = liftR (api r)"

definition invalid :: "string \<Rightarrow> 'a memcore_result" where
  "invalid message = Inl (ValidationError message)"

section \<open>Memories (\<open>routes/memories.rs\<close>)\<close>

definition validate_path_user_id :: "string \<Rightarrow> unit memcore_result" where
  "validate_path_user_id user_id = (if trim user_id = [] then invalid ''user_id cannot be empty'' else Inr ())"

definition validate_add_memory_request :: "add_memory_request \<Rightarrow> unit memcore_result" where
  "validate_add_memory_request r =
     (if trim (am_user_id r) = [] then invalid ''user_id cannot be empty''
      else if am_messages r = [] then invalid ''messages cannot be empty''
      else if list_ex (\<lambda>m. trim (mm_content m) = []) (am_messages r) then invalid ''message content cannot be empty''
      else Inr ())"

definition map_message :: "memory_message_request \<Rightarrow> memory_message memcore_result" where
  "map_message m =
     (let role = to_ascii_lowercase (trim (mm_role m)) in
      if role = ''user'' then Inr \<lparr>msg_role = RoleUser, msg_content = mm_content m\<rparr>
      else if role = ''assistant'' then Inr \<lparr>msg_role = RoleAssistant, msg_content = mm_content m\<rparr>
      else if role = ''system'' then Inr \<lparr>msg_role = RoleSystem, msg_content = mm_content m\<rparr>
      else invalid (''invalid message role: '' @ role))"

definition post_memories :: "deployment \<Rightarrow> auth_context option \<Rightarrow> string \<Rightarrow> add_memory_request \<Rightarrow> add_memory_response handler" where
  "post_memories dp auth org r =
     seqC (liftR (check_scope auth MemoryWrite))
     (seqC (check (validate_add_memory_request r))
     (bindC (check (tenant_new org (am_user_id r))) (\<lambda>tenant.
      bindC (check (collect_results map_message (am_messages r))) (\<lambda>messages.
      bindC (on_engine (check_memory_write_quota (dp_env dp) (dp_engine dp) (tc_org_id tenant) (tc_user_id tenant) 1)) (\<lambda>quota.
      case qr_violations quota of
        v # _ \<Rightarrow> check (Inl (into_error v))
      | [] \<Rightarrow>
          bindC (on_engine (add_memory (dp_env dp) (dp_engine dp)
            \<lparr>ai_tenant = tenant, ai_messages = messages, ai_metadata = am_metadata r\<rparr>)) (\<lambda>out.
          ret (add_memory_response_of out)))))))"

definition validate_search_memory_request :: "search_memory_request \<Rightarrow> unit memcore_result" where
  "validate_search_memory_request r =
     (if trim (sm_user_id r) = [] then invalid ''user_id cannot be empty''
      else if trim (sm_query r) = [] then invalid ''query cannot be empty''
      else if sm_limit r = 0 then invalid ''limit must be greater than 0''
      else if MAX_SEARCH_LIMIT < sm_limit r then invalid (''limit cannot exceed '' @ show_nat MAX_SEARCH_LIMIT)
      else Inr ())"

definition post_search ::
  "deployment \<Rightarrow> auth_context option \<Rightarrow> string \<Rightarrow> search_memory_request \<Rightarrow> search_result_response list handler" where
  "post_search dp auth org r =
     seqC (liftR (check_scope auth MemoryRead))
     (seqC (check (validate_search_memory_request r))
     (bindC (check (tenant_new org (sm_user_id r))) (\<lambda>tenant.
      bindC (check (parse_memory_types (sm_memory_type r))) (\<lambda>types.
      bindC (on_engine (search_memory (dp_env dp) (dp_engine dp)
        \<lparr>si_tenant = tenant, si_query = sm_query r, si_limit = sm_limit r, si_memory_types = types,
         si_metadata_filter = None\<rparr>)) (\<lambda>results.
      ret (map search_result_of results))))))"

definition get_memories ::
  "deployment \<Rightarrow> auth_context option \<Rightarrow> string \<Rightarrow> string \<Rightarrow> list_memories_query \<Rightarrow> list_memory_item page handler" where
  "get_memories dp auth org user_id q =
     seqC (liftR (check_scope auth MemoryRead))
     (seqC (check (validate_path_user_id user_id))
     (bindC (check (transpose_option parse_memory_type_label (lm_memory_type q))) (\<lambda>memory_type.
      if lm_limit q = 0 then check (invalid ''limit must be greater than 0'')
      else if MAX_LIST_MEMORIES_LIMIT < lm_limit q
      then check (invalid (''limit cannot exceed '' @ show_nat MAX_LIST_MEMORIES_LIMIT))
      else
        bindC (check (parse_keyword_query (lm_q q))) (\<lambda>query_text.
        bindC (check (tenant_new org user_id)) (\<lambda>tenant.
        bindC (on_engine (list_memories (dp_env dp)
          \<lparr>li_tenant = tenant, li_memory_type = memory_type, li_query_text = query_text, li_limit = lm_limit q,
           li_cursor = lm_cursor q, li_include_deleted = lm_include_deleted q\<rparr>)) (\<lambda>page.
        ret \<lparr>p_items = map list_memory_item_of (p_items page), p_next_cursor = p_next_cursor page\<rparr>))))))"

definition delete_user_memory :: "deployment \<Rightarrow> auth_context option \<Rightarrow> string \<Rightarrow> string \<Rightarrow> string \<Rightarrow> bool handler" where
  "delete_user_memory dp auth org user_id memory_id =
     seqC (liftR (check_scope auth MemoryDelete))
     (seqC (check (validate_path_user_id user_id))
     (bindC (check (ok_or (ValidationError ''invalid memory_id'') (dp_parse_uuid dp (trim memory_id)))) (\<lambda>i.
      bindC (check (tenant_new org user_id)) (\<lambda>tenant.
      on_engine (delete_memory (dp_env dp) (dp_engine dp) tenant i)))))"

section \<open>Context (\<open>routes/context.rs\<close>)\<close>

text \<open>A stale answer that announces a refresh spawns it, unless the server is shutting down.\<close>

definition post_context ::
  "deployment \<Rightarrow> auth_context option \<Rightarrow> string \<Rightarrow> build_context_request \<Rightarrow> build_context_response handler" where
  "post_context dp auth org r =
     seqC (liftR (check_scope auth MemoryRead))
     (seqC (check (validate_build_context_request r))
     (bindC (check (format_options_from_request r)) (\<lambda>format_options.
      bindC (check (compression_options_from_request r (available_tokens (request_budget r)))) (\<lambda>compression_options.
      bindC (check (tenant_new org (br_user_id r))) (\<lambda>tenant.
      bindC (check (parse_memory_types (br_memory_type r))) (\<lambda>types.
      let input = \<lparr>bc_tenant = tenant, bc_query = br_query r, bc_max_memories = br_max_memories r, bc_memory_types = types,
            bc_include_metadata = br_include_metadata r, bc_budget = request_budget r,
            bc_format_options = format_options, bc_compression_options = compression_options\<rparr>
      in bindC (on_engine (build_context (dp_env dp) (dp_engine dp) input)) (\<lambda>out.
         seqC (modifyC (\<lambda>s. if cx_refresh_started (bo_cache out) \<and> \<not> sv_shutdown s
                             then s\<lparr>sv_tasks := sv_tasks s @ [input]\<rparr> else s))
         (ret (build_context_response_of out)))))))))"

text \<open>The spawned task; its result is dropped.\<close>

definition run_refresh :: "deployment \<Rightarrow> build_context_input \<Rightarrow> unit handler" where
  "run_refresh dp input s =
     (if sv_shutdown s then (Inr (), s)
      else (Inr (), snd (on_engine (refresh_stale_context (dp_env dp) (dp_engine dp) input) s)))"

section \<open>Users (\<open>routes/users.rs\<close>)\<close>

definition delete_user :: "deployment \<Rightarrow> auth_context option \<Rightarrow> string \<Rightarrow> string \<Rightarrow> bool handler" where
  "delete_user dp auth org user_id =
     seqC (liftR (check_scope auth UserDelete))
     (seqC (check (validate_path_user_id user_id))
     (bindC (check (tenant_new org user_id)) (\<lambda>tenant.
      on_engine (forget_user (dp_env dp) (dp_engine dp) tenant))))"

definition get_export ::
  "deployment \<Rightarrow> auth_context option \<Rightarrow> string \<Rightarrow> string \<Rightarrow> export_user_query \<Rightarrow> user_memory_export_response handler" where
  "get_export dp auth org user_id q =
     seqC (liftR (check_any_scope auth [AdminRead, UserDelete, AuditRead]))
     (seqC (check (validate_path_user_id user_id))
     (bindC (check (tenant_new org user_id)) (\<lambda>tenant.
      bindC (on_engine (export_user_data (dp_env dp) tenant (xq_include_events q) (xq_include_deleted q))) (\<lambda>e.
      ret (export_response_of e)))))"

definition post_import ::
  "deployment \<Rightarrow> auth_context option \<Rightarrow> string \<Rightarrow> string \<Rightarrow> import_user_data_request \<Rightarrow> import_user_data_output handler" where
  "post_import dp auth org user_id body =
     seqC (liftR (check_any_scope auth [AdminWrite, MemoryWrite]))
     (seqC (check (validate_path_user_id user_id))
     (bindC (check (tenant_new org user_id)) (\<lambda>tenant.
      on_engine (import_user_data (dp_env dp) (dp_engine dp) (import_input_of body tenant)))))"

definition post_retention ::
  "deployment \<Rightarrow> auth_context option \<Rightarrow> string \<Rightarrow> string \<Rightarrow> apply_retention_request \<Rightarrow> apply_retention_output handler" where
  "post_retention dp auth org user_id body =
     seqC (liftR (check_any_scope auth [AdminWrite, UserDelete]))
     (seqC (check (validate_path_user_id user_id))
     (bindC (check (tenant_new org user_id)) (\<lambda>tenant.
      on_engine (apply_retention (dp_env dp) (dp_engine dp) tenant
        (retention_policy_from_settings (dp_settings dp) body) (rq_dry_run body)))))"

section \<open>The audit log (\<open>routes/memory_events.rs\<close>)\<close>

definition get_memory_events ::
  "deployment \<Rightarrow> auth_context option \<Rightarrow> string \<Rightarrow> string \<Rightarrow> list_memory_events_query \<Rightarrow> memory_event_item page handler" where
  "get_memory_events dp auth org user_id q =
     seqC (liftR (check_scope auth AuditRead))
     (seqC (check (validate_path_user_id user_id))
     (bindC (check (transpose_option parse_memory_event_operation_label (ev_operation q))) (\<lambda>operation.
      bindC (check (transpose_option (\<lambda>v. ok_or (ValidationError ''invalid fact_id'') (dp_parse_uuid dp (trim v))) (ev_fact_id q)))
        (\<lambda>fact_id.
      bindC (check (parse_event_date_filters (dp_parse_rfc3339 dp) (ev_created_after q) (ev_created_before q))) (\<lambda>(after, before).
      bindC (check (parse_keyword_query (ev_q q))) (\<lambda>query_text.
      if ev_limit q = 0 then check (invalid ''limit must be greater than 0'')
      else if MAX_LIST_MEMORY_EVENTS_LIMIT < ev_limit q
      then check (invalid (''limit cannot exceed '' @ show_nat MAX_LIST_MEMORY_EVENTS_LIMIT))
      else
        bindC (check (tenant_new org user_id)) (\<lambda>tenant.
        bindC (on_engine (list_memory_events (dp_env dp)
          \<lparr>le_tenant = tenant, le_fact_id = fact_id, le_operation = operation, le_created_after = after,
           le_created_before = before, le_query_text = query_text, le_limit = ev_limit q, le_cursor = ev_cursor q\<rparr>)) (\<lambda>page.
        ret \<lparr>p_items = map memory_event_item_of (p_items page), p_next_cursor = p_next_cursor page\<rparr>))))))))"

end
