(* ===== verification/Api_Admin.thy ===== *)
theory Api_Admin
  imports Api_Routes Provider_Usage
begin

text \<open>
  The routes of an organisation's administrator: \<^verbatim>\<open>routes/admin.rs\<close> with \<^verbatim>\<open>dto/admin.rs\<close> and
  \<^verbatim>\<open>dto/provider_usage_retention.rs\<close>. The routes of the background jobs are in \<open>Api_Jobs\<close>. A response that copies an
  engine output field by field is that output; enumerations become labels where the response has strings.
\<close>

section \<open>Summary, users and audit log\<close>

record list_org_users_query =
  ouq_limit :: nat
  ouq_cursor :: "string option"

record search_org_memory_events_query =
  oe_user_id :: "string option"
  oe_fact_id :: "string option"
  oe_operation :: "string option"
  oe_created_after :: "string option"
  oe_created_before :: "string option"
  oe_q :: "string option"
  oe_limit :: nat
  oe_cursor :: "string option"

definition reads_admin :: "api_key_scope list" where
  "reads_admin = [AdminRead, AdminWrite]"

definition validate_admin_limit :: "nat \<Rightarrow> nat \<Rightarrow> unit memcore_result" where
  "validate_admin_limit maximum limit =
     (if limit = 0 then invalid ''limit must be greater than 0''
      else if maximum < limit then invalid (''limit cannot exceed '' @ show_nat maximum)
      else Inr ())"

definition get_org_summary_route :: "auth_context option \<Rightarrow> string \<Rightarrow> org_summary_output handler" where
  "get_org_summary_route auth org =
     seqC (liftR (check_any_scope auth reads_admin)) (on_engine (get_org_summary org))"

definition list_org_users_route ::
  "deployment \<Rightarrow> auth_context option \<Rightarrow> string \<Rightarrow> list_org_users_query \<Rightarrow> org_user_summary page handler" where
  "list_org_users_route dp auth org q =
     seqC (liftR (check_any_scope auth reads_admin))
     (seqC (check (validate_admin_limit MAX_LIST_ORG_USERS_LIMIT (ouq_limit q)))
     (on_engine (list_org_users (dp_env dp) org (ouq_limit q) (ouq_cursor q))))"

record admin_event_item = memory_event_item +
  ei_user_id :: string

definition admin_event_item_of :: "memory_event \<Rightarrow> admin_event_item" where
  "admin_event_item_of e =
     \<lparr>ei_id = e_id e, ei_fact_id = e_fact_id e, ei_operation = e_operation e, ei_previous_content = e_previous_content e,
      ei_new_content = e_new_content e, ei_provider_name = e_provider_name e, ei_model_name = e_model_name e,
      ei_metadata = e_metadata e, ei_created_at = e_created_at e, ei_user_id = e_user_id e\<rparr>"

definition search_org_memory_events_route ::
  "deployment \<Rightarrow> auth_context option \<Rightarrow> string \<Rightarrow> search_org_memory_events_query \<Rightarrow> admin_event_item page handler" where
  "search_org_memory_events_route dp auth org q =
     seqC (liftR (check_any_scope auth [AdminRead, AdminWrite, AuditRead]))
     (seqC (check (validate_admin_limit MAX_SEARCH_ORG_MEMORY_EVENTS_LIMIT (oe_limit q)))
     (bindC (check (transpose_option parse_memory_event_operation_label (oe_operation q))) (\<lambda>operation.
      bindC (check (transpose_option (\<lambda>v. ok_or (ValidationError ''invalid fact_id'') (dp_parse_uuid dp (trim v))) (oe_fact_id q)))
        (\<lambda>fact_id.
      bindC (check (parse_event_date_filters (dp_parse_rfc3339 dp) (oe_created_after q) (oe_created_before q))) (\<lambda>(after, before).
      bindC (check (parse_keyword_query (oe_q q))) (\<lambda>query_text.
      bindC (on_engine (search_org_memory_events (dp_env dp)
        \<lparr>so_org_id = org, so_user_id = oe_user_id q, so_fact_id = fact_id, so_operation = operation,
         so_created_after = after, so_created_before = before, so_query_text = query_text, so_limit = oe_limit q,
         so_cursor = oe_cursor q\<rparr>)) (\<lambda>page.
      ret \<lparr>p_items = map admin_event_item_of (p_items page), p_next_cursor = p_next_cursor page\<rparr>)))))))"

text \<open>A disabled recorder answers with zeros.\<close>

definition get_context_cache_metrics_route :: "auth_context option \<Rightarrow> context_cache_metrics handler" where
  "get_context_cache_metrics_route auth =
     seqC (liftR (check_any_scope auth reads_admin))
     (getsC (\<lambda>s. case s_metrics (sv_sys s) of Some m \<Rightarrow> m | None \<Rightarrow> context_cache_metrics_new))"

section \<open>Quotas and plans\<close>

record quota_violation_response =
  vr_kind :: string
  vr_limit :: u64
  vr_current :: u64
  vr_requested :: u64
  vr_message :: string

record quota_status_response =
  qs_source :: string
  qs_allowed :: bool
  qs_limits :: org_quota_limits
  qs_usage_body :: org_quota_usage
  qs_violations :: "quota_violation_response list"

record org_plan_response =
  or_org_id :: string
  or_tier :: string
  or_limits :: org_plan_limits
  or_is_active :: bool
  or_metadata :: "json option"
  or_created_at :: datetime
  or_updated_at :: datetime

record get_org_plan_response =
  gp_plan :: "org_plan_response option"
  gp_resolved_source :: string
  gp_resolved_limits :: org_quota_limits

record upsert_org_plan_request =
  up_tier :: string
  up_max_users_per_org :: "int option"
  up_max_memories_per_user :: "int option"
  up_max_memories_per_org :: "int option"
  up_daily_provider_request_limit :: "int option"
  up_daily_provider_token_limit :: "int option"
  up_is_active :: bool
  up_metadata :: "json option"

definition quota_violation_response_of :: "quota_violation \<Rightarrow> quota_violation_response" where
  "quota_violation_response_of v =
     \<lparr>vr_kind = kind_as_str (qv_kind v), vr_limit = qv_limit v, vr_current = qv_current v,
      vr_requested = qv_requested v, vr_message = qv_message v\<rparr>"

definition org_quota_status_response :: "quota_check_result \<Rightarrow> quota_status_response" where
  "org_quota_status_response r =
     \<lparr>qs_source = source_as_str (qr_source r), qs_allowed = qr_allowed r, qs_limits = qr_limits r,
      qs_usage_body = qr_usage r, qs_violations = map quota_violation_response_of (qr_violations r)\<rparr>"

definition org_plan_response_of :: "org_plan_config \<Rightarrow> org_plan_response" where
  "org_plan_response_of p =
     \<lparr>or_org_id = op_org_id p, or_tier = tier_as_str (op_tier p), or_limits = op_limits p, or_is_active = op_is_active p,
      or_metadata = op_metadata p, or_created_at = op_created_at p, or_updated_at = op_updated_at p\<rparr>"

definition get_org_quotas_route ::
  "deployment \<Rightarrow> auth_context option \<Rightarrow> string \<Rightarrow> string option \<Rightarrow> quota_status_response handler" where
  "get_org_quotas_route dp auth org user_id =
     seqC (liftR (check_any_scope auth reads_admin))
     (bindC (on_engine (engine_get_org_quota_status (dp_env dp) (dp_engine dp) org user_id)) (\<lambda>r.
      ret (org_quota_status_response r)))"

text \<open>The plan store of \<open>AppState\<close> is the one the engine was given (\<open>with_org_plan_store\<close>), so it is always there.\<close>

definition on_plans :: "'a plan_op \<Rightarrow> 'a eng" where
  "on_plans oper s =
     (case s_plans s of
        Some store \<Rightarrow> (case oper store of (r, x) \<Rightarrow> (lift_err r, s\<lparr>s_plans := Some x\<rparr>))
      | None \<Rightarrow> (Inl Panic, s))"

definition get_org_plan_route :: "deployment \<Rightarrow> auth_context option \<Rightarrow> string \<Rightarrow> get_org_plan_response handler" where
  "get_org_plan_route dp auth org =
     seqC (liftR (check_any_scope auth reads_admin))
     (bindC (on_engine (on_plans (get_org_plan org))) (\<lambda>plan.
      bindC (on_engine (engine_resolve_org_quota_limits (dp_env dp) (dp_engine dp) org)) (\<lambda>resolved.
      ret \<lparr>gp_plan = map_option org_plan_response_of plan, gp_resolved_source = source_as_str (rq_source resolved),
           gp_resolved_limits = rq_limits resolved\<rparr>)))"

text \<open>An \<open>Option<i64>\<close>; a positive one fits into \<open>u64\<close>.\<close>

definition normalize_plan_limit :: "int option \<Rightarrow> string \<Rightarrow> u64 option memcore_result" where
  "normalize_plan_limit v field =
     (case v of
        None \<Rightarrow> Inr None
      | Some n \<Rightarrow>
          if n < 0 then invalid (field @ '' cannot be negative'')
          else if n = 0 then Inr None else Inr (Some (word_of_int n)))"

definition into_limits :: "upsert_org_plan_request \<Rightarrow> org_plan_limits memcore_result" where
  "into_limits r =
     and_then (normalize_plan_limit (up_max_users_per_org r) ''max_users_per_org'') (\<lambda>users.
     and_then (normalize_plan_limit (up_max_memories_per_user r) ''max_memories_per_user'') (\<lambda>mem_user.
     and_then (normalize_plan_limit (up_max_memories_per_org r) ''max_memories_per_org'') (\<lambda>mem_org.
     and_then (normalize_plan_limit (up_daily_provider_request_limit r) ''daily_provider_request_limit'') (\<lambda>requests.
     and_then (normalize_plan_limit (up_daily_provider_token_limit r) ''daily_provider_token_limit'') (\<lambda>tokens.
     Inr \<lparr>pl_max_users_per_org = users, pl_max_memories_per_user = mem_user, pl_max_memories_per_org = mem_org,
          pl_daily_provider_request_limit = requests, pl_daily_provider_token_limit = tokens\<rparr>)))))"

definition into_plan ::
  "datetime \<Rightarrow> upsert_org_plan_request \<Rightarrow> string \<Rightarrow> org_plan_config option \<Rightarrow> org_plan_config memcore_result" where
  "into_plan now r org existing =
     and_then (tier_from_str (up_tier r)) (\<lambda>tier.
     and_then (validate_org_plan_metadata (up_metadata r)) (\<lambda>_.
     and_then (into_limits r) (\<lambda>limits.
     let plan = \<lparr>op_org_id = org, op_tier = tier, op_limits = limits, op_is_active = up_is_active r,
           op_metadata = up_metadata r,
           op_created_at = (case existing of Some p \<Rightarrow> op_created_at p | None \<Rightarrow> now), op_updated_at = now\<rparr>
     in and_then (org_plan_validate plan) (\<lambda>_. Inr plan))))"

definition upsert_org_plan_route ::
  "deployment \<Rightarrow> auth_context option \<Rightarrow> string \<Rightarrow> upsert_org_plan_request \<Rightarrow> org_plan_response handler" where
  "upsert_org_plan_route dp auth org body =
     seqC (liftR (check_any_scope auth [AdminWrite]))
     (bindC (on_engine (on_plans (get_org_plan org))) (\<lambda>existing.
      bindC (on_engine (utc_now (dp_env dp))) (\<lambda>now.
      bindC (check (into_plan now body org existing)) (\<lambda>plan.
      bindC (on_engine (on_plans (upsert_org_plan plan))) (\<lambda>stored.
      ret (org_plan_response_of stored))))))"

definition delete_org_plan_route :: "auth_context option \<Rightarrow> string \<Rightarrow> bool handler" where
  "delete_org_plan_route auth org =
     seqC (liftR (check_any_scope auth [AdminWrite])) (on_engine (on_plans (delete_org_plan org)))"

section \<open>Usage\<close>

record provider_usage_query_params =
  pq_user_id :: "string option"
  pq_provider_name :: "string option"
  pq_model_name :: "string option"
  pq_capability :: "string option"
  pq_operation_name :: "string option"
  pq_created_after :: "string option"
  pq_created_before :: "string option"
  pq_limit :: nat
  pq_cursor :: "string option"
  pq_source :: "string option"

record provider_usage_event_item =
  pi_id :: uuid
  pi_provider_name :: string
  pi_model_name :: "string option"
  pi_capability :: string
  pi_operation_name :: string
  pi_status :: string
  pi_input_tokens :: "u64 option"
  pi_output_tokens :: "u64 option"
  pi_total_tokens :: "u64 option"
  pi_retry_count :: u64
  pi_fallback_used :: bool
  pi_circuit_blocked :: bool
  pi_timed_out :: bool
  pi_estimated_cost_usd :: "f64 option"
  pi_created_at :: datetime

record provider_usage_response =
  px_source :: string
  px_summary :: provider_usage_summary
  px_events :: "provider_usage_event_item list"
  px_next_cursor :: "string option"

fun capability_label :: "provider_usage_capability \<Rightarrow> string" where
  "capability_label Llm = ''Llm''"
| "capability_label Embedding = ''Embedding''"
| "capability_label Summarization = ''Summarization''"

fun status_label :: "provider_call_status \<Rightarrow> string" where
  "status_label CallSuccess = ''Success''"
| "status_label CallError = ''Error''"

definition parse_provider_usage_capability :: "string \<Rightarrow> provider_usage_capability memcore_result" where
  "parse_provider_usage_capability v =
     (let t = to_ascii_lowercase (trim v) in
      if t = ''llm'' then Inr Llm
      else if t = ''embedding'' then Inr Embedding
      else if t = ''summarization'' then Inr Summarization
      else invalid (''invalid capability: '' @ v))"

definition provider_usage_event_item_of :: "provider_usage_event_record \<Rightarrow> provider_usage_event_item" where
  "provider_usage_event_item_of e =
     \<lparr>pi_id = pu_id e, pi_provider_name = pu_provider_name e, pi_model_name = pu_model_name e,
      pi_capability = capability_label (pu_capability e), pi_operation_name = pu_operation_name e,
      pi_status = status_label (pu_status e), pi_input_tokens = pu_input_tokens e, pi_output_tokens = pu_output_tokens e,
      pi_total_tokens = pu_total_tokens e, pi_retry_count = pu_retry_count e, pi_fallback_used = pu_fallback_used e,
      pi_circuit_blocked = pu_circuit_blocked e, pi_timed_out = pu_timed_out e,
      pi_estimated_cost_usd = pu_estimated_cost_usd e, pi_created_at = pu_created_at e\<rparr>"

definition provider_usage_persisted_response :: "string \<Rightarrow> provider_usage_query_result \<Rightarrow> provider_usage_response" where
  "provider_usage_persisted_response source r =
     \<lparr>px_source = source, px_summary = ur_summary r, px_events = map provider_usage_event_item_of (ur_events r),
      px_next_cursor = ur_next_cursor r\<rparr>"

definition sum_tokens_of :: "(provider_usage_record \<Rightarrow> u64 option) \<Rightarrow> provider_usage_record list \<Rightarrow> u64" where
  "sum_tokens_of f rs = fold (\<lambda>r acc. u64_saturating_add acc (case f r of Some n \<Rightarrow> n | None \<Rightarrow> 0)) rs 0"

text \<open>The process-local counters, over all organisations.\<close>

definition provider_usage_memory_response :: "provider_usage_snapshot \<Rightarrow> provider_usage_response" where
  "provider_usage_memory_response sn =
     \<lparr>px_source = ''memory'',
      px_summary =
        \<lparr>su_requests = ps_total_requests sn, su_successes = ps_total_successes sn, su_errors = ps_total_errors sn,
         su_retries = ps_total_retries sn, su_fallbacks = ps_total_fallbacks sn, su_circuit_blocks = ps_total_circuit_blocks sn,
         su_timeouts = ps_total_timeouts sn, su_input_tokens = sum_tokens_of pr_input_tokens (ps_records sn),
         su_output_tokens = sum_tokens_of pr_output_tokens (ps_records sn),
         su_tokens = sum_tokens_of pr_total_tokens (ps_records sn),
         su_estimated_cost_usd = ps_total_estimated_cost_usd sn\<rparr>,
      px_events = [], px_next_cursor = None\<rparr>"

definition get_provider_usage_route ::
  "deployment \<Rightarrow> provider_usage_snapshot \<Rightarrow> auth_context option \<Rightarrow> string \<Rightarrow> provider_usage_query_params \<Rightarrow>
   provider_usage_response handler" where
  "get_provider_usage_route dp counters auth org q =
     seqC (liftR (check_any_scope auth reads_admin))
     (bindC (check (validate_provider_usage_limit (pq_limit q))) (\<lambda>limit.
      bindC (check (transpose_option parse_provider_usage_capability (pq_capability q))) (\<lambda>capability.
      bindC (check (parse_event_date_filters (dp_parse_rfc3339 dp) (pq_created_after q) (pq_created_before q))) (\<lambda>(after, before).
      bindC (check (parse_optional_cursor (env_codec (dp_env dp)) (pq_cursor q))) (\<lambda>cursor.
      bindC (getsC (s_usage \<circ> sv_sys)) (\<lambda>usage.
      bindC (check (case pq_source q of
                      None \<Rightarrow> Inr (usage \<noteq> None)
                    | Some source \<Rightarrow>
                        if source = ''memory'' then Inr False
                        else if source = ''persistent'' then Inr True
                        else invalid (''invalid source: '' @ source))) (\<lambda>use_persistent.
      case (use_persistent, usage) of
        (True, Some store) \<Rightarrow>
          bindC (on_engine (on_usage store (query_usage (env_codec (dp_env dp))
            \<lparr>uq_org_id = org, uq_user_id = pq_user_id q, uq_provider_name = pq_provider_name q,
             uq_model_name = pq_model_name q, uq_capability = capability, uq_operation_name = pq_operation_name q,
             uq_created_after = after, uq_created_before = before, uq_limit = limit, uq_cursor = cursor\<rparr>))) (\<lambda>r.
          ret (provider_usage_persisted_response ''persistent'' r))
      | _ \<Rightarrow> ret (provider_usage_memory_response counters))))))))"

definition parse_org_usage_window ::
  "deployment \<Rightarrow> string option \<Rightarrow> string option \<Rightarrow> u32 option \<Rightarrow> (datetime \<times> datetime) handler" where
  "parse_org_usage_window dp created_after created_before d =
     bindC (check (parse_event_date_filters (dp_parse_rfc3339 dp) created_after created_before)) (\<lambda>(after, before).
     bindC (on_engine (utc_now (dp_env dp))) (\<lambda>now.
     check (resolve_org_usage_window after before d now)))"

record org_usage_date_range_query =
  dr_created_after :: "string option"
  dr_created_before :: "string option"
  dr_days :: "u32 option"

record org_usage_dashboard_response =
  db_org_id :: string
  db_generated_at :: datetime
  db_window_start :: datetime
  db_window_end :: datetime
  db_plan :: "org_plan_response option"
  db_quota :: quota_status_response
  db_memory :: org_memory_usage_summary
  db_provider :: provider_usage_summary

definition org_usage_dashboard_response_of :: "org_usage_dashboard_output \<Rightarrow> org_usage_dashboard_response" where
  "org_usage_dashboard_response_of out =
     \<lparr>db_org_id = od_org_id out, db_generated_at = od_generated_at out, db_window_start = od_window_start out,
      db_window_end = od_window_end out, db_plan = map_option org_plan_response_of (od_plan out),
      db_quota = org_quota_status_response (od_quota out), db_memory = od_memory out, db_provider = od_provider out\<rparr>"

definition get_org_usage_dashboard_route ::
  "deployment \<Rightarrow> auth_context option \<Rightarrow> string \<Rightarrow> org_usage_date_range_query \<Rightarrow> org_usage_dashboard_response handler" where
  "get_org_usage_dashboard_route dp auth org q =
     seqC (liftR (check_any_scope auth reads_admin))
     (bindC (parse_org_usage_window dp (dr_created_after q) (dr_created_before q) (dr_days q)) (\<lambda>(after, before).
      bindC (on_engine (get_org_usage_dashboard (dp_env dp) (dp_engine dp) org after before)) (\<lambda>out.
      ret (org_usage_dashboard_response_of out))))"

record provider_usage_daily_params =
  dl_provider_name :: "string option"
  dl_model_name :: "string option"
  dl_capability :: "string option"
  dl_created_after :: "string option"
  dl_created_before :: "string option"
  dl_days :: "u32 option"

definition get_provider_usage_daily_route ::
  "deployment \<Rightarrow> auth_context option \<Rightarrow> string \<Rightarrow> provider_usage_daily_params \<Rightarrow> provider_usage_daily_bucket list handler" where
  "get_provider_usage_daily_route dp auth org q =
     seqC (liftR (check_any_scope auth reads_admin))
     (bindC (check (transpose_option parse_provider_usage_capability (dl_capability q))) (\<lambda>capability.
      bindC (parse_org_usage_window dp (dl_created_after q) (dl_created_before q) (dl_days q)) (\<lambda>(after, before).
      on_engine (get_provider_usage_daily
        \<lparr>dq_org_id = org, dq_provider_name = dl_provider_name q, dq_model_name = dl_model_name q,
         dq_capability = capability, dq_created_after = after, dq_created_before = before\<rparr>))))"

record memory_usage_snapshot_response =
  mr_id :: uuid
  mr_org_id :: string
  mr_total_users :: u64
  mr_total_memories :: u64
  mr_active_memories :: u64
  mr_deleted_memories :: "u64 option"
  mr_captured_at :: datetime

record query_memory_usage_snapshots_response =
  mq_snapshots :: "memory_usage_snapshot_response list"
  mq_next_cursor :: "string option"

definition memory_usage_snapshot_response_of :: "memory_usage_snapshot \<Rightarrow> memory_usage_snapshot_response" where
  "memory_usage_snapshot_response_of m =
     \<lparr>mr_id = ms_id m, mr_org_id = ms_org_id m, mr_total_users = ms_total_users m, mr_total_memories = ms_total_memories m,
      mr_active_memories = ms_active_memories m, mr_deleted_memories = ms_deleted_memories m,
      mr_captured_at = ms_captured_at m\<rparr>"

text \<open>Without a body the time of capture is left to the engine.\<close>

definition create_memory_usage_snapshot_route ::
  "deployment \<Rightarrow> auth_context option \<Rightarrow> string \<Rightarrow> string option \<Rightarrow> memory_usage_snapshot_response handler" where
  "create_memory_usage_snapshot_route dp auth org captured_at =
     seqC (liftR (check_any_scope auth [AdminWrite]))
     (bindC (check (transpose_option (\<lambda>v. ok_or (ValidationError ''invalid captured_at timestamp'') (dp_parse_rfc3339 dp v))
        captured_at)) (\<lambda>at_time.
      bindC (on_engine (create_memory_usage_snapshot (dp_env dp) org at_time)) (\<lambda>m.
      ret (memory_usage_snapshot_response_of m))))"

record query_memory_usage_snapshots_params =
  qp_created_after :: "string option"
  qp_created_before :: "string option"
  qp_limit :: nat
  qp_cursor :: "string option"

definition query_memory_usage_snapshots_route ::
  "deployment \<Rightarrow> auth_context option \<Rightarrow> string \<Rightarrow> query_memory_usage_snapshots_params \<Rightarrow>
   query_memory_usage_snapshots_response handler" where
  "query_memory_usage_snapshots_route dp auth org q =
     seqC (liftR (check_any_scope auth reads_admin))
     (bindC (check (parse_event_date_filters (dp_parse_rfc3339 dp) (qp_created_after q) (qp_created_before q))) (\<lambda>(after, before).
      bindC (check (validate_memory_usage_snapshot_limit (qp_limit q))) (\<lambda>limit.
      bindC (check (parse_optional_cursor (env_codec (dp_env dp)) (qp_cursor q))) (\<lambda>cursor.
      bindC (on_engine (query_memory_usage_snapshots (dp_env dp)
        \<lparr>sq_org_id = org, sq_created_after = after, sq_created_before = before, sq_limit = limit, sq_cursor = cursor\<rparr>)) (\<lambda>r.
      ret \<lparr>mq_snapshots = map memory_usage_snapshot_response_of (sr_snapshots r), mq_next_cursor = sr_next_cursor r\<rparr>)))))"

record usage_retention_request =
  ur_dry_run :: bool
  ur_retention_days :: "u32 option"

definition resolve_usage_retention_days :: "u32 option \<Rightarrow> u32 \<Rightarrow> u32" where
  "resolve_usage_retention_days override_days default_days =
     (case override_days of Some d \<Rightarrow> d | None \<Rightarrow> default_days)"

definition apply_provider_usage_retention_route ::
  "deployment \<Rightarrow> auth_context option \<Rightarrow> string \<Rightarrow> usage_retention_request \<Rightarrow> provider_usage_retention_output handler" where
  "apply_provider_usage_retention_route dp auth org body =
     seqC (liftR (check_any_scope auth [AdminWrite]))
     (on_engine (apply_provider_usage_retention (dp_env dp) org
        (resolve_usage_retention_days (ur_retention_days body) (se_provider_usage_retention_days (dp_settings dp)))
        (ur_dry_run body)))"

end
