(* ===== verification/Api_Jobs.thy ===== *)
theory Api_Jobs
  imports Api_Admin Job_Runner
begin

text \<open>
  The routes of the background jobs (\<^verbatim>\<open>routes/admin.rs\<close>, \<^verbatim>\<open>dto/jobs.rs\<close>), over the runner's state. They are open to
  the administrators of every organisation and speak of the jobs of all of them.
\<close>

section \<open>Responses\<close>

record background_job_run_response =
  jy_id :: uuid
  jy_kind :: string
  jy_status :: string
  jy_started_at :: datetime
  jy_finished_at :: "datetime option"
  jy_duration_ms :: "u64 option"
  jy_attempt_count :: nat
  jy_max_attempts :: nat
  jy_retried :: bool
  jy_error_code :: "string option"
  jy_error_message :: "string option"
  jy_org_count :: u64
  jy_affected_count :: u64

record background_job_lock_status =
  kl_owner_id :: "string option"
  kl_locked_until :: "datetime option"
  kl_is_locked :: bool

record background_job_definition_response =
  kd_kind :: string
  kd_enabled :: bool
  kd_interval_seconds :: u64
  kd_lock :: "background_job_lock_status option"

record background_jobs_response =
  kr_jobs_enabled :: bool
  kr_jobs :: "background_job_definition_response list"
  kr_recent_runs :: "background_job_run_response list"
  kr_latest_persisted_runs :: "background_job_run_response list option"

definition run_response_of :: "background_job_run \<Rightarrow> background_job_run_response outcome" where
  "run_response_of run =
     and_then (transpose_option sanitize_background_job_error_message (jr_error_message run)) (\<lambda>message.
     Inr \<lparr>jy_id = jr_id run, jy_kind = job_kind_as_str (jr_kind run), jy_status = job_status_as_str (jr_status run),
          jy_started_at = jr_started_at run, jy_finished_at = jr_finished_at run, jy_duration_ms = jr_duration_ms run,
          jy_attempt_count = jr_attempt_count run, jy_max_attempts = jr_max_attempts run, jy_retried = jr_retried run,
          jy_error_code = jr_error_code run, jy_error_message = message, jy_org_count = jr_org_count run,
          jy_affected_count = jr_affected_count run\<rparr>)"

definition stored_run_response_of :: "stored_background_job_run \<Rightarrow> background_job_run_response outcome" where
  "stored_run_response_of run = run_response_of (run_from_stored run)"

definition definition_response_of :: "background_job_definition \<Rightarrow> background_job_definition_response" where
  "definition_response_of d =
     \<lparr>kd_kind = job_kind_as_str (jd_kind d), kd_enabled = jd_enabled d,
      kd_interval_seconds = word_of_nat (jd_interval d div 10 ^ 9), kd_lock = None\<rparr>"

definition background_jobs_response_of :: "background_job_snapshot \<Rightarrow> background_jobs_response outcome" where
  "background_jobs_response_of sn =
     and_then (collect_results run_response_of (sb_recent_runs sn)) (\<lambda>runs.
     Inr \<lparr>kr_jobs_enabled = sb_jobs_enabled sn, kr_jobs = map definition_response_of (sb_jobs sn),
          kr_recent_runs = runs, kr_latest_persisted_runs = None\<rparr>)"

definition lock_status_of :: "datetime \<Rightarrow> job_lock_record option \<Rightarrow> background_job_lock_status" where
  "lock_status_of now l =
     \<lparr>kl_owner_id = map_option jl_owner_id l, kl_locked_until = map_option jl_locked_until l,
      kl_is_locked = (case l of Some l \<Rightarrow> now < jl_locked_until l | None \<Rightarrow> False)\<rparr>"

definition with_lock :: "datetime \<Rightarrow> (background_job_kind \<times> job_lock_record option) list \<Rightarrow>
    background_job_definition_response \<Rightarrow> background_job_definition_response" where
  "with_lock now locks d =
     d\<lparr>kd_lock := Some (lock_status_of now
        (case job_kind_from_str (kd_kind d) of
           Inl _ \<Rightarrow> None
         | Inr kind \<Rightarrow> (case find (\<lambda>(k, _). k = kind) locks of Some (_, l) \<Rightarrow> l | None \<Rightarrow> None)))\<rparr>"

definition response_with_runs_and_locks ::
  "datetime \<Rightarrow> background_job_snapshot \<Rightarrow> stored_background_job_run list option \<Rightarrow> bool \<Rightarrow>
   (background_job_kind \<times> job_lock_record option) list \<Rightarrow> background_jobs_response outcome" where
  "response_with_runs_and_locks now sn latest locks_enabled locks =
     and_then (background_jobs_response_of sn) (\<lambda>r.
     and_then (transpose_option (collect_results stored_run_response_of) latest) (\<lambda>runs.
     Inr (r\<lparr>kr_latest_persisted_runs := runs,
            kr_jobs := (if locks_enabled then map (with_lock now locks) (kr_jobs r) else kr_jobs r)\<rparr>)))"

section \<open>Routes\<close>

type_synonym 'a job_handler = "(jobs_sys, api_fault, 'a) comp"

definition on_runner :: "'a jobs \<Rightarrow> 'a job_handler" where
  "on_runner m s = (case m s of (r, x) \<Rightarrow> (api_outcome r, x))"

definition recent_runs_query :: background_job_run_query where
  "recent_runs_query =
     \<lparr>jq_kind = None, jq_status = None, jq_created_after = None, jq_created_before = None, jq_limit = 10, jq_cursor = None\<rparr>"

text \<open>An error of the history or of a lock is logged and left out; a panic is not caught.\<close>

definition logged :: "'a \<Rightarrow> 'a outcome \<Rightarrow> 'a outcome" where
  "logged fallback r = (case r of Inl (Err _) \<Rightarrow> Inr fallback | _ \<Rightarrow> r)"

definition latest_runs :: "codec \<Rightarrow> jobs_sys \<Rightarrow> stored_background_job_run list option outcome" where
  "latest_runs cd s =
     (case jx_runs s of
        None \<Rightarrow> Inr None
      | Some store \<Rightarrow> logged None (and_then (fst (query_runs cd recent_runs_query store)) (\<lambda>r. Inr (Some (jp_runs r)))))"

definition lock_statuses :: "background_job_snapshot \<Rightarrow> jobs_sys \<Rightarrow> (background_job_kind \<times> job_lock_record option) list outcome" where
  "lock_statuses sn s =
     (case jx_locks s of
        None \<Rightarrow> Inr []
      | Some store \<Rightarrow>
          collect_results (\<lambda>d. and_then (logged None (fst (get_lock (jd_kind d) store))) (\<lambda>l. Inr (jd_kind d, l))) (sb_jobs sn))"

text \<open>Whether a lease has expired is asked at one time for all locks.\<close>

definition get_background_jobs_route ::
  "settings \<Rightarrow> env \<Rightarrow> background_job_runner \<Rightarrow> auth_context option \<Rightarrow> background_jobs_response job_handler" where
  "get_background_jobs_route s env ru auth =
     seqC (liftR (check_any_scope auth reads_admin))
     (on_runner (bindC (getsC (\<lambda>x. runner_snapshot ru (jx_state x))) (\<lambda>sn.
      bindC (\<lambda>x. (latest_runs (env_codec env) x, x)) (\<lambda>latest.
      if se_background_job_lock_enabled s
      then bindC (\<lambda>x. (lock_statuses sn x, x)) (\<lambda>locks.
           bindC (on_sys (utc_now env)) (\<lambda>now. liftR (response_with_runs_and_locks now sn latest True locks)))
      else case latest of
             Some runs \<Rightarrow> liftR (response_with_runs_and_locks 0 sn (Some runs) False [])
           | None \<Rightarrow> liftR (background_jobs_response_of sn)))))"

definition run_background_job_route ::
  "env \<Rightarrow> job_oracle \<Rightarrow> background_job_runner \<Rightarrow> auth_context option \<Rightarrow> string \<Rightarrow> background_job_run_response job_handler" where
  "run_background_job_route env w ru auth job_kind =
     seqC (liftR (check_any_scope auth [AdminWrite]))
     (bindC (liftR (api (job_kind_from_str job_kind))) (\<lambda>kind.
      bindC (on_runner (run_manual env w ru kind)) (\<lambda>run.
      liftR (api_outcome (run_response_of run)))))"

record query_background_job_runs_params =
  bp_kind :: "string option"
  bp_status :: "string option"
  bp_created_after :: "string option"
  bp_created_before :: "string option"
  bp_limit :: nat
  bp_cursor :: "string option"

definition query_background_job_runs_input ::
  "codec \<Rightarrow> (string \<Rightarrow> datetime option) \<Rightarrow> query_background_job_runs_params \<Rightarrow> background_job_run_query memcore_result" where
  "query_background_job_runs_input cd parse_rfc3339 p =
     and_then (transpose_option job_kind_from_str (bp_kind p)) (\<lambda>kind.
     and_then (transpose_option job_status_from_str (bp_status p)) (\<lambda>status.
     and_then (parse_optional_rfc3339_timestamp parse_rfc3339 (bp_created_after p) ''created_after'') (\<lambda>after.
     and_then (parse_optional_rfc3339_timestamp parse_rfc3339 (bp_created_before p) ''created_before'') (\<lambda>before.
     if (case (after, before) of (Some a, Some b) \<Rightarrow> b \<le> a | _ \<Rightarrow> False)
     then invalid ''created_after must be earlier than created_before''
     else and_then (parse_optional_cursor cd (bp_cursor p)) (\<lambda>cursor.
          Inr \<lparr>jq_kind = kind, jq_status = status, jq_created_after = after, jq_created_before = before,
               jq_limit = bp_limit p, jq_cursor = cursor\<rparr>)))))"

definition query_background_job_runs_route ::
  "codec \<Rightarrow> (string \<Rightarrow> datetime option) \<Rightarrow> auth_context option \<Rightarrow> query_background_job_runs_params \<Rightarrow>
   (background_job_run_response list \<times> string option) job_handler" where
  "query_background_job_runs_route cd parse_rfc3339 auth p =
     seqC (liftR (check_any_scope auth reads_admin))
     (seqC (liftR (api (validate_background_job_run_limit (bp_limit p))))
     (bindC (liftR (api (query_background_job_runs_input cd parse_rfc3339 p))) (\<lambda>q.
      bindC (getsC jx_runs) (\<lambda>runs.
      case runs of
        None \<Rightarrow> ret ([], None)
      | Some store \<Rightarrow>
          bindC (liftR (api_outcome (fst (query_runs cd q store)))) (\<lambda>r.
          bindC (liftR (api_outcome (collect_results stored_run_response_of (jp_runs r)))) (\<lambda>found.
          ret (found, jp_next_cursor r)))))))"

record job_run_retention_request =
  hr_dry_run :: bool
  hr_retention_days :: "u32 option"

record job_run_retention_response =
  hs_dry_run :: bool
  hs_matched_runs :: nat
  hs_deleted_runs :: nat
  hs_cutoff :: datetime

definition job_run_retention_response_of :: "job_run_retention_request \<Rightarrow> datetime \<Rightarrow> nat \<Rightarrow> job_run_retention_response" where
  "job_run_retention_response_of r cutoff matched =
     \<lparr>hs_dry_run = hr_dry_run r, hs_matched_runs = matched, hs_deleted_runs = (if hr_dry_run r then 0 else matched),
      hs_cutoff = cutoff\<rparr>"

text \<open>Without a body it is a dry run. The cutoff is computed first, also when there is nothing to retain.\<close>

definition apply_background_job_run_retention_route ::
  "settings \<Rightarrow> env \<Rightarrow> auth_context option \<Rightarrow> job_run_retention_request option \<Rightarrow> job_run_retention_response job_handler" where
  "apply_background_job_run_retention_route s env auth body =
     seqC (liftR (check_any_scope auth [AdminWrite]))
     (let request = (case body of Some r \<Rightarrow> r | None \<Rightarrow> \<lparr>hr_dry_run = True, hr_retention_days = None\<rparr>);
          retention_days = resolve_usage_retention_days (hr_retention_days request) (se_background_job_history_retention_days s)
      in bindC (on_runner (on_sys (utc_now env))) (\<lambda>now.
         bindC (liftR (api_outcome (time_offset (env_time env) now (- days (unat retention_days))))) (\<lambda>cutoff.
         bindC (getsC jx_runs) (\<lambda>runs.
         case (retention_days = 0, runs) of
           (False, Some store) \<Rightarrow>
             bindC (\<lambda>x. case delete_runs_older_than cutoff (hr_dry_run request) store of
                         (r, store') \<Rightarrow> (api_outcome r, x\<lparr>jx_runs := Some store'\<rparr>)) (\<lambda>n.
             ret (job_run_retention_response_of request cutoff n))
         | _ \<Rightarrow> ret (job_run_retention_response_of request cutoff 0)))))"

end
