(* ===== verification/Api_Server.thy ===== *)
theory Api_Server
  imports Api_Jobs App_Config
begin

text \<open>
  The protected routes of \<^verbatim>\<open>routes/mod.rs\<close> as one function: the middleware of \<open>Api_Access\<close>, then the handler of the
  route. What a key of an organisation can bring about is confined to that organisation. The routes of the background
  jobs, which are of no organisation, touch only what the jobs keep of the usage of all, the history and the locks.
\<close>

section \<open>Calls\<close>

datatype user_call =
    PostMemories add_memory_request
  | PostSearch search_memory_request
  | PostContext build_context_request
  | GetMemories string list_memories_query
  | GetMemoryEvents string list_memory_events_query
  | DeleteUserMemory string string
  | GetExport string export_user_query
  | PostImport string import_user_data_request
  | PostRetention string apply_retention_request
  | DeleteUser string

datatype key_call =
    PostApiKeys create_api_key_request
  | GetApiKeys list_api_keys_query
  | DeleteApiKey string

datatype admin_call =
    GetSummary
  | GetUsers list_org_users_query
  | GetOrgEvents search_org_memory_events_query
  | GetCacheMetrics
  | GetQuotas "string option"
  | GetPlan
  | PutPlan upsert_org_plan_request
  | DeletePlan
  | GetUsage provider_usage_query_params
  | GetDashboard org_usage_date_range_query
  | PostSnapshot "string option"
  | GetSnapshots query_memory_usage_snapshots_params
  | GetDaily provider_usage_daily_params
  | PostUsageRetention usage_retention_request
  | GetGuardrails

datatype job_call =
    GetJobs
  | PostJobRun string
  | GetJobRuns query_background_job_runs_params
  | PostJobRunRetention "job_run_retention_request option"

datatype api_call = User user_call | Keys key_call | Admin admin_call | Jobs job_call

datatype api_response =
    MemoriesAdded add_memory_response
  | MemoriesFound "search_result_response list"
  | ContextBuilt build_context_response
  | MemoriesListed "list_memory_item page"
  | EventsListed "memory_event_item page"
  | Deleted bool
  | UserExported user_memory_export_response
  | UserImported import_user_data_output
  | RetentionApplied apply_retention_output
  | KeyCreated create_api_key_response
  | KeysListed "api_key_item page"
  | KeyRevoked bool
  | OrgSummary org_summary_output
  | OrgUsers "org_user_summary page"
  | OrgEvents "admin_event_item page"
  | CacheMetrics context_cache_metrics
  | Quotas quota_status_response
  | Plan get_org_plan_response
  | PlanStored org_plan_response
  | ProviderUsage provider_usage_response
  | Dashboard org_usage_dashboard_response
  | SnapshotTaken memory_usage_snapshot_response
  | SnapshotsListed query_memory_usage_snapshots_response
  | DailyUsage "provider_usage_daily_bucket list"
  | UsageRetention provider_usage_retention_output
  | GuardrailStatus provider_guardrail_status
  | JobsOverview background_jobs_response
  | JobRan background_job_run_response
  | JobRunsFound "background_job_run_response list" "string option"
  | JobRunRetention job_run_retention_response

definition answer :: "('a \<Rightarrow> api_response) \<Rightarrow> 'a handler \<Rightarrow> api_response handler" where
  "answer f m = bindC m (\<lambda>x. ret (f x))"

fun handle_user :: "deployment \<Rightarrow> auth_context option \<Rightarrow> string \<Rightarrow> user_call \<Rightarrow> api_response handler" where
  "handle_user dp auth org (PostMemories r) = answer MemoriesAdded (post_memories dp auth org r)"
| "handle_user dp auth org (PostSearch r) = answer MemoriesFound (post_search dp auth org r)"
| "handle_user dp auth org (PostContext r) = answer ContextBuilt (post_context dp auth org r)"
| "handle_user dp auth org (GetMemories u q) = answer MemoriesListed (get_memories dp auth org u q)"
| "handle_user dp auth org (GetMemoryEvents u q) = answer EventsListed (get_memory_events dp auth org u q)"
| "handle_user dp auth org (DeleteUserMemory u i) = answer Deleted (delete_user_memory dp auth org u i)"
| "handle_user dp auth org (GetExport u q) = answer UserExported (get_export dp auth org u q)"
| "handle_user dp auth org (PostImport u r) = answer UserImported (post_import dp auth org u r)"
| "handle_user dp auth org (PostRetention u r) = answer RetentionApplied (post_retention dp auth org u r)"
| "handle_user dp auth org (DeleteUser u) = answer Deleted (delete_user dp auth org u)"

text \<open>The key routes draw their identifiers and the time where the handlers of \<open>Api_Keys\<close> take them as arguments.\<close>

fun handle_key :: "deployment \<Rightarrow> auth_context option \<Rightarrow> string \<Rightarrow> key_call \<Rightarrow> api_response handler" where
  "handle_key dp auth org (PostApiKeys r) =
     seqC (liftR (check_any_scope auth [AdminWrite]))
     (bindC (on_engine (new_v4 (dp_env dp))) (\<lambda>random.
      bindC (on_engine (new_v4 (dp_env dp))) (\<lambda>key_id.
      bindC (on_engine (utc_now (dp_env dp))) (\<lambda>now.
      answer KeyCreated (on_keys (create_api_key (dp_settings dp) (dp_hash dp) random key_id now auth org r))))))"
| "handle_key dp auth org (GetApiKeys q) =
     answer KeysListed (on_keys (list_api_keys (env_codec (dp_env dp)) auth org q))"
| "handle_key dp auth org (DeleteApiKey i) =
     seqC (liftR (check_any_scope auth [AdminWrite]))
     (bindC (on_engine (utc_now (dp_env dp))) (\<lambda>now.
      answer KeyRevoked (on_keys (revoke_api_key_handler (dp_parse_uuid dp) now auth org i))))"

text \<open>What the process counts of its provider calls, and its guardrails, are read as they are at the time of the request.\<close>

record process_state =
  pc_provider_usage :: provider_usage_snapshot
  pc_guardrails :: guardrail_enforcer

fun handle_admin ::
  "deployment \<Rightarrow> process_state \<Rightarrow> auth_context option \<Rightarrow> string \<Rightarrow> admin_call \<Rightarrow> api_response handler" where
  "handle_admin dp pc auth org GetSummary = answer OrgSummary (get_org_summary_route auth org)"
| "handle_admin dp pc auth org (GetUsers q) = answer OrgUsers (list_org_users_route dp auth org q)"
| "handle_admin dp pc auth org (GetOrgEvents q) = answer OrgEvents (search_org_memory_events_route dp auth org q)"
| "handle_admin dp pc auth org GetCacheMetrics = answer CacheMetrics (get_context_cache_metrics_route auth)"
| "handle_admin dp pc auth org (GetQuotas u) = answer Quotas (get_org_quotas_route dp auth org u)"
| "handle_admin dp pc auth org GetPlan = answer Plan (get_org_plan_route dp auth org)"
| "handle_admin dp pc auth org (PutPlan r) = answer PlanStored (upsert_org_plan_route dp auth org r)"
| "handle_admin dp pc auth org DeletePlan = answer Deleted (delete_org_plan_route auth org)"
| "handle_admin dp pc auth org (GetUsage q) = answer ProviderUsage (get_provider_usage_route dp (pc_provider_usage pc) auth org q)"
| "handle_admin dp pc auth org (GetDashboard q) = answer Dashboard (get_org_usage_dashboard_route dp auth org q)"
| "handle_admin dp pc auth org (PostSnapshot d) = answer SnapshotTaken (create_memory_usage_snapshot_route dp auth org d)"
| "handle_admin dp pc auth org (GetSnapshots q) = answer SnapshotsListed (query_memory_usage_snapshots_route dp auth org q)"
| "handle_admin dp pc auth org (GetDaily q) = answer DailyUsage (get_provider_usage_daily_route dp auth org q)"
| "handle_admin dp pc auth org (PostUsageRetention r) = answer UsageRetention (apply_provider_usage_retention_route dp auth org r)"
| "handle_admin dp pc auth org GetGuardrails =
     answer GuardrailStatus (seqC (liftR (check_any_scope auth reads_admin)) (ret (status_snapshot (pc_guardrails pc))))"

section \<open>The routes of the background jobs\<close>

text \<open>\<open>AppState\<close> with the runner's state and stores. The runner is built from the settings and works on the engine that the
  other routes use.\<close>

record app_state =
  ap_server :: server
  ap_jobs :: job_state
  ap_job_runs :: "job_runs option"
  ap_job_locks :: "job_locks option"

record job_deployment =
  jd_lock_owner_id :: "string option"
  jd_oracle :: job_oracle

type_synonym 'a app_handler = "(app_state, api_fault, 'a) comp"

definition on_server :: "'a handler \<Rightarrow> 'a app_handler" where
  "on_server m s = (case m (ap_server s) of (r, x) \<Rightarrow> (r, s\<lparr>ap_server := x\<rparr>))"

definition on_jobs :: "'a job_handler \<Rightarrow> 'a app_handler" where
  "on_jobs m s =
     (case m \<lparr>jx_state = ap_jobs s, jx_runs = ap_job_runs s, jx_locks = ap_job_locks s, jx_sys = sv_sys (ap_server s)\<rparr> of
        (r, x) \<Rightarrow> (r, s\<lparr>ap_server := (ap_server s)\<lparr>sv_sys := jx_sys x\<rparr>, ap_jobs := jx_state x, ap_job_runs := jx_runs x,
                      ap_job_locks := jx_locks x\<rparr>))"

definition background_jobs :: "deployment \<Rightarrow> job_deployment \<Rightarrow> background_job_runner" where
  "background_jobs dp jd = create_background_job_runner (dp_env dp) (dp_settings dp) (jd_lock_owner_id jd)"

fun handle_jobs :: "deployment \<Rightarrow> job_deployment \<Rightarrow> auth_context option \<Rightarrow> job_call \<Rightarrow> api_response job_handler" where
  "handle_jobs dp jd auth GetJobs =
     bindC (get_background_jobs_route (dp_settings dp) (dp_env dp) (background_jobs dp jd) auth) (\<lambda>x. ret (JobsOverview x))"
| "handle_jobs dp jd auth (PostJobRun kind) =
     bindC (run_background_job_route (dp_env dp) (jd_oracle jd) (background_jobs dp jd) auth kind) (\<lambda>x. ret (JobRan x))"
| "handle_jobs dp jd auth (GetJobRuns p) =
     bindC (query_background_job_runs_route (env_codec (dp_env dp)) (dp_parse_rfc3339 dp) auth p) (\<lambda>(runs, cursor).
     ret (JobRunsFound runs cursor))"
| "handle_jobs dp jd auth (PostJobRunRetention body) =
     bindC (apply_background_job_run_retention_route (dp_settings dp) (dp_env dp) auth body) (\<lambda>x. ret (JobRunRetention x))"

section \<open>All protected routes\<close>

fun handle ::
  "deployment \<Rightarrow> job_deployment \<Rightarrow> process_state \<Rightarrow> auth_context option \<Rightarrow> string \<Rightarrow> api_call \<Rightarrow> api_response app_handler" where
  "handle dp jd pc auth org (User c) = on_server (handle_user dp auth org c)"
| "handle dp jd pc auth org (Keys c) = on_server (handle_key dp auth org c)"
| "handle dp jd pc auth org (Admin c) = on_server (handle_admin dp pc auth org c)"
| "handle dp jd pc auth org (Jobs c) = on_jobs (handle_jobs dp jd auth c)"

definition limited :: "rate_limiter \<Rightarrow> app_state \<Rightarrow> app_state" where
  "limited rl s = s\<lparr>ap_server := (ap_server s)\<lparr>sv_limiter := rl\<rparr>\<rparr>"

definition protected ::
  "deployment \<Rightarrow> job_deployment \<Rightarrow> process_state \<Rightarrow> nat \<Rightarrow> http_request \<Rightarrow> api_call \<Rightarrow> api_response app_handler" where
  "protected dp jd pc instant rq c s =
     (case admit (dp_settings dp) (dp_hash dp) (sv_keys (ap_server s)) instant rq (sv_limiter (ap_server s)) of
        (Inl e, rl) \<Rightarrow> (Inl e, limited rl s)
      | (Inr (auth, org), rl) \<Rightarrow> handle dp jd pc auth org c (limited rl s))"

text \<open>The scopes of which a call needs one.\<close>

fun user_scopes :: "user_call \<Rightarrow> api_key_scope list" where
  "user_scopes (PostMemories _) = [MemoryWrite]"
| "user_scopes (PostSearch _) = [MemoryRead]"
| "user_scopes (PostContext _) = [MemoryRead]"
| "user_scopes (GetMemories _ _) = [MemoryRead]"
| "user_scopes (GetMemoryEvents _ _) = [AuditRead]"
| "user_scopes (DeleteUserMemory _ _) = [MemoryDelete]"
| "user_scopes (GetExport _ _) = [AdminRead, UserDelete, AuditRead]"
| "user_scopes (PostImport _ _) = [AdminWrite, MemoryWrite]"
| "user_scopes (PostRetention _ _) = [AdminWrite, UserDelete]"
| "user_scopes (DeleteUser _) = [UserDelete]"

fun admin_scopes :: "admin_call \<Rightarrow> api_key_scope list" where
  "admin_scopes (GetOrgEvents _) = [AdminRead, AdminWrite, AuditRead]"
| "admin_scopes (PutPlan _) = [AdminWrite]"
| "admin_scopes DeletePlan = [AdminWrite]"
| "admin_scopes (PostSnapshot _) = [AdminWrite]"
| "admin_scopes (PostUsageRetention _) = [AdminWrite]"
| "admin_scopes _ = [AdminRead, AdminWrite]"

fun job_scopes :: "job_call \<Rightarrow> api_key_scope list" where
  "job_scopes GetJobs = [AdminRead, AdminWrite]"
| "job_scopes (GetJobRuns _) = [AdminRead, AdminWrite]"
| "job_scopes _ = [AdminWrite]"

fun call_scopes :: "api_call \<Rightarrow> api_key_scope list" where
  "call_scopes (User c) = user_scopes c"
| "call_scopes (Keys (GetApiKeys _)) = [AdminRead, AdminWrite]"
| "call_scopes (Keys _) = [AdminWrite]"
| "call_scopes (Admin c) = admin_scopes c"
| "call_scopes (Jobs c) = job_scopes c"

section \<open>Scopes\<close>

definition held :: "auth_context \<Rightarrow> api_key_scope list \<Rightarrow> bool" where
  "held a scopes \<longleftrightarrow> (\<exists>scope \<in> set scopes. scope \<in> set (au_scopes a))"

lemma scope_refused:
  "\<not> held a [scope] \<Longrightarrow> check_scope (Some a) scope = refuse 403 ''FORBIDDEN'' ''insufficient api key scope''"
  "\<not> held a scopes \<Longrightarrow> check_any_scope (Some a) scopes = refuse 403 ''FORBIDDEN'' ''missing required scope''"
  by (auto simp: held_def check_scope_def check_any_scope_def ensure_scope_def ensure_any_scope_def has_scope_def list_ex_iff)

lemma refused_first: "seqC (liftR (refuse st code msg)) m s = (refuse st code msg, s)"
  by (simp add: refuse_def seqC_def bindC_def)

lemmas route_defs = post_memories_def post_search_def post_context_def get_memories_def get_memory_events_def
  delete_user_memory_def get_export_def post_import_def post_retention_def delete_user_def
  get_org_summary_route_def list_org_users_route_def search_org_memory_events_route_def get_context_cache_metrics_route_def
  get_org_quotas_route_def get_org_plan_route_def upsert_org_plan_route_def delete_org_plan_route_def
  get_provider_usage_route_def get_org_usage_dashboard_route_def create_memory_usage_snapshot_route_def
  query_memory_usage_snapshots_route_def get_provider_usage_daily_route_def apply_provider_usage_retention_route_def

lemmas refusing = answer_def scope_refused refused_first refuse_def seqC_def bindC_def

lemma user_refused: "\<not> held a (user_scopes c) \<Longrightarrow> \<exists>e. handle_user dp (Some a) org c s = (Inl e, s)"
  by (cases c) (simp_all add: route_defs refusing)

lemma admin_refused: "\<not> held a (admin_scopes c) \<Longrightarrow> \<exists>e. handle_admin dp pc (Some a) org c s = (Inl e, s)"
  by (cases c) (simp_all add: route_defs refusing reads_admin_def)

lemma key_refused: "\<not> held a (call_scopes (Keys c)) \<Longrightarrow> \<exists>e. handle_key dp (Some a) org c s = (Inl e, s)"
  by (cases c) (simp_all add: refusing list_api_keys_def on_keys_def)

lemma job_refused: "\<not> held a (job_scopes c) \<Longrightarrow> \<exists>e. handle_jobs dp jd (Some a) c s = (Inl e, s)"
  by (cases c) (simp_all add: refusing reads_admin_def run_background_job_route_def query_background_job_runs_route_def
      get_background_jobs_route_def apply_background_job_run_retention_route_def)

lemma on_server_same: "m (ap_server s) = (Inl e, ap_server s) \<Longrightarrow> on_server m s = (Inl e, s)"
  by (cases s) (simp add: on_server_def)

lemma on_jobs_same:
  assumes "\<And>x. \<exists>e. m x = (Inl e, x)"
  shows "\<exists>e. on_jobs m s = (Inl e, s)"
proof -
  obtain e where "m \<lparr>jx_state = ap_jobs s, jx_runs = ap_job_runs s, jx_locks = ap_job_locks s, jx_sys = sv_sys (ap_server s)\<rparr>
      = (Inl e, \<lparr>jx_state = ap_jobs s, jx_runs = ap_job_runs s, jx_locks = ap_job_locks s, jx_sys = sv_sys (ap_server s)\<rparr>)"
    using assms by blast
  then show ?thesis by (cases s) (simp add: on_jobs_def)
qed

lemma handle_refused:
  assumes "\<not> held a (call_scopes c)"
  shows "\<exists>e. handle dp jd pc (Some a) org c s = (Inl e, s)"
proof (cases c)
  case (User u)
  with assms user_refused [of a u dp org "ap_server s"] show ?thesis by (auto intro: on_server_same)
next
  case (Keys u)
  with assms key_refused [of a u dp org "ap_server s"] show ?thesis by (auto intro: on_server_same simp del: call_scopes.simps(2,3))
next
  case (Admin u)
  with assms admin_refused [of a u dp pc org "ap_server s"] show ?thesis by (auto intro: on_server_same)
next
  case (Jobs u)
  with assms show ?thesis by (simp add: on_jobs_same job_refused)
qed

section \<open>Confinement\<close>

definition same_keys :: "string \<Rightarrow> api_keys \<Rightarrow> api_keys \<Rightarrow> bool" where
  "same_keys org keys0 keys \<longleftrightarrow> filter (\<lambda>k. k_org_id k \<noteq> org) keys = filter (\<lambda>k. k_org_id k \<noteq> org) keys0"

definition inside :: "(sys \<Rightarrow> bool) \<Rightarrow> (api_keys \<Rightarrow> bool) \<Rightarrow> server \<Rightarrow> bool" where
  "inside P Q s \<longleftrightarrow> P (sv_sys s) \<and> Q (sv_keys s)"

lemma inside_engine [pres_intro]: "preserves P m \<Longrightarrow> preserves (inside P Q) (on_engine m)"
  by (auto simp: preserves_def inside_def on_engine_def split: prod.split)

lemma inside_keys: "preserves Q m \<Longrightarrow> preserves (inside P Q) (on_keys m)"
  by (auto simp: preserves_def inside_def on_keys_def split: prod.split)

lemma preserves_check [pres_intro]:
  "(\<And>x. r = Inr x \<Longrightarrow> preserves P (f x)) \<Longrightarrow> preserves P (bindC (check r) f)"
  by (cases r) (auto simp: preserves_def check_def api_def bindC_def)

lemma preserves_check_last [pres_intro]: "preserves P (check r)"
  by (simp add: preserves_def check_def)

lemma preserves_answer [pres_intro]: "preserves P m \<Longrightarrow> preserves P (answer f m)"
  unfolding answer_def by (intro preserves_bindC preserves_ret)

lemma inside_spawn [pres_intro]:
  "preserves (inside P Q) (modifyC (\<lambda>s. if b s then s\<lparr>sv_tasks := ts s\<rparr> else s))"
  by (simp add: preserves_def inside_def)

lemma preserves_tenant:
  "preserves P (f \<lparr>tc_org_id = org, tc_user_id = user\<rparr>) \<Longrightarrow> preserves P (bindC (check (tenant_new org user)) f)"
  by (rule preserves_check) (auto simp: tenant_new_def result_simps)

lemma preserves_case_list [pres_intro]:
  "(xs = [] \<Longrightarrow> preserves P m) \<Longrightarrow> (\<And>y ys. xs = y # ys \<Longrightarrow> preserves P (f y ys)) \<Longrightarrow>
     preserves P (case xs of [] \<Rightarrow> m | y # ys \<Rightarrow> f y ys)"
  by (cases xs) auto

fun call_user :: "user_call \<Rightarrow> string" where
  "call_user (PostMemories r) = am_user_id r"
| "call_user (PostSearch r) = sm_user_id r"
| "call_user (PostContext r) = br_user_id r"
| "call_user (GetMemories u _) = u"
| "call_user (GetMemoryEvents u _) = u"
| "call_user (DeleteUserMemory u _) = u"
| "call_user (GetExport u _) = u"
| "call_user (PostImport u _) = u"
| "call_user (PostRetention u _) = u"
| "call_user (DeleteUser u) = u"

lemma iso_quota [pres_intro]: "preserves (iso env hi t s0 {}) (check_memory_write_quota env' en org user n)"
  unfolding check_memory_write_quota_def quota_service_of_def utc_now_def by (intro pres_intro)

lemma iso_of_inputs:
  "ai_tenant a = t \<Longrightarrow> preserves (iso env hi t s0 {}) (add_memory env en a)"
  "bc_tenant b = t \<Longrightarrow> preserves (iso env hi t s0 {}) (build_context env' en b)"
  "im_tenant i = t \<Longrightarrow> preserves (iso env hi t s0 {}) (import_user_data env en i)"
  using iso_add_memory iso_build_context(1) iso_import_user_data by metis+

lemmas iso_calls = iso_of_inputs iso_search_memory iso_list_memories iso_delete_memory iso_forget_user
  iso_export_user_data iso_list_memory_events iso_apply_retention

lemmas user_routes = post_memories_def post_search_def post_context_def get_memories_def get_memory_events_def
  delete_user_memory_def get_export_def post_import_def post_retention_def delete_user_def

lemma user_iso:
  "preserves (inside (iso (dp_env dp) hi \<lparr>tc_org_id = org, tc_user_id = call_user c\<rparr> s0 {}) Q) (handle_user dp auth org c)"
  by (cases c) (simp_all only: handle_user.simps call_user.simps user_routes Let_def,
    (intro preserves_tenant preserves_check iso_calls pres_intro; simp add: import_input_of_def)+)

lemma keeps_on_plans [pres_intro]: "preserves (keeps s0) (on_plans oper)"
  by (auto simp: preserves_def keeps_def on_plans_def split: option.split prod.split)

lemmas keeps_calls = keeps_get_org_summary keeps_search_org_memory_events keeps_quota keeps_usage

lemmas admin_routes = get_org_summary_route_def list_org_users_route_def search_org_memory_events_route_def
  get_context_cache_metrics_route_def get_org_quotas_route_def get_org_plan_route_def upsert_org_plan_route_def
  delete_org_plan_route_def get_provider_usage_route_def get_org_usage_dashboard_route_def
  create_memory_usage_snapshot_route_def query_memory_usage_snapshots_route_def get_provider_usage_daily_route_def
  apply_provider_usage_retention_route_def parse_org_usage_window_def

lemma preserves_case_bool [pres_intro]:
  "preserves P m \<Longrightarrow> preserves P n \<Longrightarrow> preserves P (case b of True \<Rightarrow> m | False \<Rightarrow> n)"
  by (cases b) auto

lemma admin_keeps: "preserves (inside (keeps s0) Q) (handle_admin dp pc auth org c)"
  by (cases c) (simp_all only: handle_admin.simps admin_routes, (intro keeps_calls pres_intro)+)

section \<open>The background jobs\<close>

lemma preserves_case_fault [pres_intro]:
  "(\<And>e. preserves P (f e)) \<Longrightarrow> preserves P g \<Longrightarrow> preserves P (case x of Err e \<Rightarrow> f e | Panic \<Rightarrow> g)"
  by (cases x) auto

lemma preserves_case_attempt [pres_intro]:
  "(\<And>r. preserves P (f r)) \<Longrightarrow> preserves P g \<Longrightarrow> preserves P (case x of Completed r \<Rightarrow> f r | ShutdownTimeout \<Rightarrow> g)"
  by (cases x) auto

lemma keeps_trans: "keeps s0 s \<Longrightarrow> keeps s s' \<Longrightarrow> keeps s0 s'"
  by (simp add: keeps_def)

lemma keeps_for_each_org:
  "(\<And>org. preserves (keeps s0) (work org)) \<Longrightarrow> preserves (keeps s0) (for_each_org work orgs tally)"
  by (induction orgs arbitrary: tally) (simp_all only: for_each_org.simps, (intro pres_intro; simp)+)

lemma keeps_job_parts:
  "preserves (keeps s0) (start_run env kind)" "preserves (keeps s0) (finish_with env st code m run)"
  "preserves (keeps s0) (conclude_orgs env tally run)"
  unfolding start_run_def finish_with_def finish_run_def conclude_orgs_def Let_def by (intro pres_intro)+

lemma keeps_jobs:
  "preserves (keeps s0) (snapshot_job_run_once env orgs)" "preserves (keeps s0) (retention_job_run_once env orgs d)"
  "preserves (keeps s0) (memory_retention_job_run_once env)"
  unfolding snapshot_job_run_once_def retention_job_run_once_def memory_retention_job_run_once_def Let_def
  by (intro keeps_for_each_org keeps_job_parts keeps_usage pres_intro)+

text \<open>Of what the runtime drops in the middle: what a job has done by then is among what a job does, so that it has not
  written to the stores of facts, index records and events or to the cache.\<close>

definition drops_keep :: "job_oracle \<Rightarrow> bool" where
  "drops_keep w \<longleftrightarrow> (\<forall>x x'. jo_drop w x = Some x' \<or> jo_timer w x = Some x' \<longrightarrow> keeps x x')"

lemma keeps_attempt_job:
  assumes "drops_keep w" "preserves (keeps s0) oper"
  shows "preserves (keeps s0) (attempt_job w token oper)"
proof -
  have "preserves (keeps s0) (bindC (catch_err oper) (\<lambda>r. ret (Completed r)))"
    by (intro pres_intro assms(2))
  then show ?thesis
    using assms(1) keeps_trans [of s0] unfolding preserves_def attempt_job_def drops_keep_def
    by (auto split: bool.split option.split)
qed

lemma keeps_job_attempts:
  assumes "drops_keep w" "preserves (keeps s0) oper"
  shows "preserves (keeps s0) (job_attempts env w token kind p st oper n k err)"
proof (induction n arbitrary: k err)
  case 0
  show ?case unfolding job_attempts.simps exhausted_run_def Let_def by (intro pres_intro)
next
  case (Suc n)
  show ?case
    unfolding job_attempts.simps exhausted_run_def cancelled_run_def Let_def
    by (intro keeps_attempt_job [OF assms] Suc.IH pres_intro)
qed

text \<open>The same of the runner, which keeps the engine's state among its own.\<close>

definition engine_keeps :: "sys \<Rightarrow> jobs_sys \<Rightarrow> bool" where
  "engine_keeps s0 s \<longleftrightarrow> keeps s0 (jx_sys s)"

lemma engine_keeps_on_sys [pres_intro]: "preserves (keeps s0) m \<Longrightarrow> preserves (engine_keeps s0) (on_sys m)"
  by (auto simp: preserves_def engine_keeps_def on_sys_def Let_def split: prod.split)

lemma engine_keeps_fresh [pres_intro]: "preserves (engine_keeps s0) (fresh_run env build)"
  unfolding fresh_run_def by (intro pres_intro)

lemma engine_keeps_runner:
  "preserves (engine_keeps s0) (runner_record_run w ru run)" "preserves (engine_keeps s0) (runner_acquire_lock env w ru kind)"
  "preserves (engine_keeps s0) (runner_release_lock w ru kind acquired)" "preserves (engine_keeps s0) (others_work w)"
  "preserves (engine_keeps s0) (is_shutdown_requested w ru)"
  unfolding runner_record_run_def runner_acquire_lock_def runner_release_lock_def others_work_def is_shutdown_requested_def
    on_tick_def Let_def
  by ((intro pres_intro)+; simp add: engine_keeps_def)+

lemma engine_keeps_timed_job:
  assumes "drops_keep w" "preserves (keeps s0) (bj_run_once job)"
  shows "preserves (engine_keeps s0) (timed_job env w ru job)"
proof
  fix s
  assume s: "engine_keeps s0 s"
  have "preserves (engine_keeps s0) (on_sys (execute_background_job_with_retries_and_shutdown env w (ru_has_shutdown_token ru)
      (bj_kind job) (ru_retry_policy ru) (bj_run_once job)))"
    unfolding execute_background_job_with_retries_and_shutdown_def by (intro keeps_job_attempts [OF assms] pres_intro)
  moreover have "preserves (engine_keeps s0)
      (bindC (fresh_run env (\<lambda>i a b. run_failed i a b (bj_kind job) ''TIMEOUT'' ''background job timed out'')) (\<lambda>run.
       ret (run\<lparr>jr_max_attempts := job_total_attempts (ru_retry_policy ru)\<rparr>)))"
    by (intro pres_intro)
  moreover have "engine_keeps s0 (s\<lparr>jx_sys := x\<rparr>)" if "jo_timer w (jx_sys s) = Some x" for x
    using s that assms(1) keeps_trans unfolding drops_keep_def engine_keeps_def by auto
  ultimately show "engine_keeps s0 (snd (timed_job env w ru job s))"
    using s by (auto simp: timed_job_def preserves_def split: option.split)
qed

lemma engine_keeps_begin: "preserves (engine_keeps s0) (\<lambda>s. case try_begin kind (jx_state s) of (ok, st) \<Rightarrow> (Inr ok, s\<lparr>jx_state := st\<rparr>))"
  by (simp add: preserves_def engine_keeps_def split_def)

lemma engine_keeps_run_job:
  assumes "drops_keep w" "preserves (keeps s0) (bj_run_once job)"
  shows "preserves (engine_keeps s0) (run_job env w ru job)"
  unfolding run_job_def Let_def
  by (intro engine_keeps_runner engine_keeps_begin engine_keeps_timed_job [OF assms] pres_intro)

lemma registered_jobs:
  assumes "map_of (ru_jobs (background_jobs dp jd)) kind = Some job"
  shows "preserves (keeps s0) (bj_run_once job)"
proof -
  have "ru_jobs (background_jobs dp jd) = ru_jobs (job_runner_new b i (settings_jobs (dp_env dp) (dp_settings dp)))" for b i
    by (simp add: background_jobs_def create_background_job_runner_def with_shutdown_def with_lock_store_def job_runner_new_def)
  with assms have "bj_run_once job \<in> bj_run_once ` set (settings_jobs (dp_env dp) (dp_settings dp))"
    by (auto simp: job_runner_new_def settings_jobs_def split: if_splits)
  then show ?thesis by (auto simp: settings_jobs_def keeps_jobs)
qed

lemma engine_keeps_on_runner [pres_intro]: "preserves P m \<Longrightarrow> preserves P (on_runner m)"
  by (auto simp: preserves_def on_runner_def split: prod.split)

lemma engine_keeps_reads [pres_intro]: "preserves P (\<lambda>x. (f x, x))"
  by (simp add: preserves_def)

lemma engine_keeps_prune: "preserves (engine_keeps s0) (\<lambda>x. case f x of (r, store') \<Rightarrow> (g r, x\<lparr>jx_runs := Some store'\<rparr>))"
  by (simp add: preserves_def engine_keeps_def split_def)

lemma job_routes_keep:
  assumes "drops_keep (jd_oracle jd)"
  shows "preserves (engine_keeps s0) (handle_jobs dp jd auth c)"
proof (cases c)
  case (PostJobRun kind)
  have "preserves (engine_keeps s0) (run_manual (dp_env dp) (jd_oracle jd) (background_jobs dp jd) k)" for k
    unfolding run_manual_def by (intro pres_intro engine_keeps_run_job [OF assms] registered_jobs)
  then show ?thesis
    unfolding PostJobRun handle_jobs.simps run_background_job_route_def by (intro pres_intro)
qed (simp_all only: handle_jobs.simps get_background_jobs_route_def query_background_job_runs_route_def
    apply_background_job_run_retention_route_def Let_def, (intro pres_intro engine_keeps_prune)+)

lemma jobs_keep:
  assumes "drops_keep (jd_oracle jd)" "on_jobs (handle_jobs dp jd auth c) s = (r, s')"
  shows "keeps (sv_sys (ap_server s)) (sv_sys (ap_server s'))" "sv_keys (ap_server s') = sv_keys (ap_server s)"
proof -
  let ?x = "\<lparr>jx_state = ap_jobs s, jx_runs = ap_job_runs s, jx_locks = ap_job_locks s, jx_sys = sv_sys (ap_server s)\<rparr>"
  have "engine_keeps (sv_sys (ap_server s)) ?x" by (simp add: engine_keeps_def keeps_def)
  from preserves_result [OF job_routes_keep [OF assms(1)] this]
  show "keeps (sv_sys (ap_server s)) (sv_sys (ap_server s'))" "sv_keys (ap_server s') = sv_keys (ap_server s)"
    using assms(2) by (auto simp: on_jobs_def engine_keeps_def split: prod.splits)
qed

section \<open>Keys\<close>

lemma same_keys_insert: "same_keys org keys0 keys \<Longrightarrow> k_org_id k = org \<Longrightarrow> same_keys org keys0 (insert_api_key k keys)"
  by (simp add: same_keys_def insert_api_key_def)

lemma revoke_first_others:
  assumes "revoke_first p now keys = Some keys'" "\<And>k. p k \<Longrightarrow> k_org_id k = org"
  shows "filter (\<lambda>k. k_org_id k \<noteq> org) keys' = filter (\<lambda>k. k_org_id k \<noteq> org) keys"
  using assms
proof (induction keys arbitrary: keys')
  case (Cons k keys)
  then show ?case by (cases "p k") auto
qed simp

lemma same_keys_revoke: "same_keys org keys0 keys \<Longrightarrow> same_keys org keys0 (snd (revoke_api_key now org i keys))"
  by (auto simp: same_keys_def revoke_api_key_def dest!: revoke_first_others [where org = org] split: option.split)

lemma preserves_create: "preserves (same_keys org keys0) (create_api_key s hash random key_id now auth org r)"
  unfolding create_api_key_def Let_def
  by (intro pres_intro) (simp_all add: same_keys_insert)

lemma preserves_list_keys: "preserves Q (list_api_keys cd auth org q)"
  unfolding list_api_keys_def by (intro pres_intro)

lemma preserves_revoke: "preserves (same_keys org keys0) (revoke_api_key_handler parse_uuid now auth org i)"
proof -
  have "preserves (same_keys org keys0) (\<lambda>keys. let (r, keys') = revoke_api_key now org key_id keys in (api r, keys'))" for key_id
    using same_keys_revoke by (auto simp: preserves_def Let_def split_def)
  then show ?thesis
    unfolding revoke_api_key_handler_def by (intro pres_intro)
qed

lemma key_keeps: "preserves (inside (keeps s0) (same_keys org keys0)) (handle_key dp auth org c)"
  by (cases c) (simp_all only: handle_key.simps,
    (intro pres_intro inside_keys preserves_create preserves_list_keys preserves_revoke)+)

section \<open>Admission\<close>

text \<open>The active key whose holder sent the request.\<close>

definition bearer_key :: "deployment \<Rightarrow> http_request \<Rightarrow> server \<Rightarrow> api_key_record option" where
  "bearer_key dp rq s =
     (case (extract_bearer_token rq, usable_pepper (dp_settings dp)) of
        (Inr token, Some pepper) \<Rightarrow> find_by_hash (dp_hash dp pepper token) (sv_keys s)
      | _ \<Rightarrow> None)"

lemma admit_database:
  assumes "se_auth_enabled (dp_settings dp)" "se_auth_mode (dp_settings dp) = AuthDatabase"
    and "admit (dp_settings dp) (dp_hash dp) (sv_keys s) instant rq rl = (Inr (auth, org), rl')"
  shows "\<exists>k. bearer_key dp rq s = Some k \<and> org = k_org_id k \<and>
    auth = Some \<lparr>au_org_id = k_org_id k, au_api_key_id = k_id k, au_scopes = k_scopes k\<rparr>"
proof -
  from assms(3) have "require_api_key (dp_settings dp) (dp_hash dp) (sv_keys s) rq = Inr auth" "require_organization auth rq = Inr org"
    by (auto simp: admit_def result_simps split: sum.splits prod.splits)
  then show ?thesis
    using assms(1,2)
    by (auto simp: require_api_key_def validate_database_authorization_def bearer_key_def require_organization_def
        result_simps refuse_def split: option.splits if_splits)
qed

definition undisturbed :: "string \<Rightarrow> server \<Rightarrow> server \<Rightarrow> bool" where
  "undisturbed org s s' \<longleftrightarrow>
     (\<forall>t. tc_org_id t \<noteq> org \<longrightarrow>
        active_facts (s_facts (sv_sys s')) t = active_facts (s_facts (sv_sys s)) t \<and>
        tenant_vectors (s_vectors (sv_sys s')) t = tenant_vectors (s_vectors (sv_sys s)) t \<and>
        sys_log (sv_sys s') t = sys_log (sv_sys s) t \<and>
        (\<forall>k e. key_of_tenant t k \<longrightarrow> cache_lookup (s_cache (sv_sys s')) k = Some e \<longrightarrow>
           cache_lookup (s_cache (sv_sys s)) k = Some e)) \<and>
     same_keys org (sv_keys s) (sv_keys s')"

lemma undisturbed_keeps: "keeps (sv_sys s) (sv_sys s') \<Longrightarrow> same_keys org (sv_keys s) (sv_keys s') \<Longrightarrow> undisturbed org s s'"
  by (simp add: undisturbed_def keeps_def sys_log_def)

lemma undisturbed_iso:
  assumes "iso env hi t (sv_sys s) {} (sv_sys s')" "tc_org_id t = org" "s_tick (sv_sys s') \<le> hi" "sv_keys s' = sv_keys s"
  shows "undisturbed org s s'"
proof -
  have "t' \<noteq> t \<and> (key_of_tenant t' k \<longrightarrow> \<not> key_of_tenant t k)" if "tc_org_id t' \<noteq> org" for t' k
    using that assms(2) by (auto simp: key_of_tenant_def)
  then show ?thesis
    using assms(1,3,4) unfolding undisturbed_def iso_def frame_def vec_frame_def same_keys_def by metis
qed

lemma sys_inv_keeps: "keeps s s' \<Longrightarrow> sys_inv s \<Longrightarrow> sys_inv s'"
  by (simp add: keeps_def sys_inv_def stores_wf_def)

lemma user_confined:
  assumes "sys_inv (sv_sys s)" "fresh_ids (dp_env dp) hi (sv_sys s)" "handle_user dp auth org u s = (r, s')" "s_tick (sv_sys s') \<le> hi"
  shows "sys_inv (sv_sys s') \<and> undisturbed org s s'"
proof -
  let ?t = "\<lparr>tc_org_id = org, tc_user_id = call_user u\<rparr>"
  have "inside (iso (dp_env dp) hi ?t (sv_sys s) {}) ((=) (sv_keys s)) s"
    using iso_start [OF assms(1,2)] by (simp add: inside_def)
  from preserves_result [OF user_iso this assms(3)]
  have "iso (dp_env dp) hi ?t (sv_sys s) {} (sv_sys s')" "sv_keys s' = sv_keys s" by (auto simp: inside_def)
  then show ?thesis using undisturbed_iso [OF _ _ assms(4)] iso_sys_inv by fastforce
qed

lemma keeping_confined:
  assumes "preserves (inside (keeps (sv_sys s)) (same_keys org (sv_keys s))) m" "m s = (r, s')" "sys_inv (sv_sys s)"
  shows "sys_inv (sv_sys s') \<and> undisturbed org s s'"
proof -
  have "inside (keeps (sv_sys s)) (same_keys org (sv_keys s)) s" by (simp add: inside_def keeps_def same_keys_def)
  from preserves_result [OF assms(1) this assms(2)] show ?thesis
    using undisturbed_keeps sys_inv_keeps [OF _ assms(3)] by (simp add: inside_def)
qed

lemma on_server_Inr: "on_server m s = (r, s') \<Longrightarrow> m (ap_server s) = (r, ap_server s')"
  by (auto simp: on_server_def split: prod.splits)

lemma handle_confined:
  assumes "sys_inv (sv_sys (ap_server s))" "fresh_ids (dp_env dp) hi (sv_sys (ap_server s))"
    and "handle dp jd pc auth org c s = (r, s')" "s_tick (sv_sys (ap_server s')) \<le> hi" "drops_keep (jd_oracle jd)"
  shows "sys_inv (sv_sys (ap_server s')) \<and> undisturbed org (ap_server s) (ap_server s')"
proof (cases c)
  case (User u)
  with assms(3) have "on_server (handle_user dp auth org u) s = (r, s')" by simp
  from user_confined [OF assms(1,2) on_server_Inr [OF this] assms(4)] show ?thesis .
next
  case (Keys u)
  with assms(3) have "on_server (handle_key dp auth org u) s = (r, s')" by simp
  from keeping_confined [OF key_keeps on_server_Inr [OF this] assms(1)] show ?thesis .
next
  case (Admin u)
  with assms(3) have "on_server (handle_admin dp pc auth org u) s = (r, s')" by simp
  from keeping_confined [OF admin_keeps on_server_Inr [OF this] assms(1)] show ?thesis .
next
  case (Jobs u)
  with assms(3) have "on_jobs (handle_jobs dp jd auth u) s = (r, s')" by simp
  from jobs_keep [OF assms(5) this] show ?thesis
    using undisturbed_keeps sys_inv_keeps [OF _ assms(1)] by (simp add: same_keys_def)
qed

section \<open>Properties\<close>

text \<open>C3: With keys from the database, whatever is sent to a protected route, the invariant of the state is kept, and: a request without the token of an active key is refused and changes nothing but the rate limiter; so is, and does, one whose key has none of the scopes of the route; and a request with a key can change facts, index records, audit log, cached contexts and API keys only of the organisation the key was made for. The routes of the background jobs, which an administrator of any organisation may call and which speak of the jobs of all, change none of these, of no organisation. The identifiers that are drawn must be unused, which is asked up to the tick at which the request ends, and a job that the runtime drops in the middle must have written only where the jobs write.\<close>

theorem api_tenant_confinement:
  assumes "se_auth_enabled (dp_settings dp)" and "se_auth_mode (dp_settings dp) = AuthDatabase"
    and "sys_inv (sv_sys (ap_server s))" and "fresh_ids (dp_env dp) hi (sv_sys (ap_server s))"
    and served: "protected dp jd pc instant rq c s = (r, s')" and "s_tick (sv_sys (ap_server s')) \<le> hi"
    and "drops_keep (jd_oracle jd)"
  shows "sys_inv (sv_sys (ap_server s')) \<and>
    (case bearer_key dp rq (ap_server s) of
       None \<Rightarrow> \<not> is_ok r \<and> (\<exists>rl. s' = limited rl s)
     | Some k \<Rightarrow>
         undisturbed (k_org_id k) (ap_server s) (ap_server s') \<and>
         (set (call_scopes c) \<inter> set (k_scopes k) = {} \<longrightarrow> \<not> is_ok r \<and> (\<exists>rl. s' = limited rl s)) \<and>
         (\<forall>j. c = Jobs j \<longrightarrow> keeps (sv_sys (ap_server s)) (sv_sys (ap_server s')) \<and>
            sv_keys (ap_server s') = sv_keys (ap_server s)))"
proof -
  let ?v = "ap_server s"
  obtain a rl where adm: "admit (dp_settings dp) (dp_hash dp) (sv_keys ?v) instant rq (sv_limiter ?v) = (a, rl)" by fastforce
  show ?thesis
  proof (cases a)
    case (Inl e)
    then have "r = Inl e" "s' = limited rl s" using served adm by (simp_all add: protected_def)
    then show ?thesis
      using assms(3) by (auto simp: limited_def undisturbed_def same_keys_def keeps_def split: option.split)
  next
    case (Inr x)
    then obtain auth org where x: "a = Inr (auth, org)" by (cases x) auto
    from admit_database [OF assms(1,2), of ?v] adm x obtain k where k: "bearer_key dp rq ?v = Some k" "org = k_org_id k"
        and auth: "auth = Some \<lparr>au_org_id = k_org_id k, au_api_key_id = k_id k, au_scopes = k_scopes k\<rparr>"
      by metis
    let ?s = "limited rl s"
    have h: "handle dp jd pc auth org c ?s = (r, s')" using served adm x by (simp add: protected_def)
    have v: "sv_sys (ap_server ?s) = sv_sys ?v" "sv_keys (ap_server ?s) = sv_keys ?v" by (simp_all add: limited_def)
    have "sys_inv (sv_sys (ap_server s')) \<and> undisturbed org (ap_server ?s) (ap_server s')"
      using handle_confined [of ?s, OF _ _ h assms(6,7)] assms(3,4) v by simp
    moreover have "\<not> is_ok r \<and> s' = ?s" if "set (call_scopes c) \<inter> set (k_scopes k) = {}"
    proof -
      have "\<not> held \<lparr>au_org_id = k_org_id k, au_api_key_id = k_id k, au_scopes = k_scopes k\<rparr> (call_scopes c)"
        using that by (auto simp: held_def)
      from handle_refused [OF this, of dp jd pc org ?s] h auth show ?thesis by auto
    qed
    moreover have "keeps (sv_sys ?v) (sv_sys (ap_server s')) \<and> sv_keys (ap_server s') = sv_keys ?v" if "c = Jobs j" for j
      using jobs_keep [OF assms(7), of dp auth j ?s r s'] h that v by simp
    ultimately show ?thesis using k v by (auto simp: undisturbed_def)
  qed
qed

definition sample_deployment :: deployment where
  "sample_deployment = \<lparr>dp_settings = database_settings, dp_env = sample_env, dp_engine = sample_engine,
     dp_hash = (\<lambda>p t. p @ t), dp_parse_uuid = (\<lambda>_. None), dp_parse_rfc3339 = (\<lambda>_. None)\<rparr>"

definition sample_key :: api_key_record where
  "sample_key = \<lparr>k_id = 9, k_org_id = ''acme'', k_name = ''ci'', k_key_hash = ''pepperk'', k_scopes = [UserDelete],
     k_created_at = 0, k_revoked_at = None\<rparr>"

definition sample_server :: server where
  "sample_server = \<lparr>sv_sys = sys_new, sv_keys = [sample_key], sv_limiter = rate_limiter_new False 0, sv_shutdown = False, sv_tasks = []\<rparr>"

definition sample_request :: http_request where
  "sample_request = \<lparr>hr_method = ''DELETE'', hr_path = ''/api/v1/users/alice'',
     hr_header = map_option Some \<circ> map_of [(''authorization'', ''Bearer k''), (''x-organization-id'', ''acme'')]\<rparr>"

lemma sample_admitted:
  "admit database_settings (\<lambda>p t. p @ t) [sample_key] 0 sample_request (rate_limiter_new False 0) =
     (Inr (Some \<lparr>au_org_id = ''acme'', au_api_key_id = 9, au_scopes = [UserDelete]\<rparr>, ''acme''), rate_limiter_new False 0)"
proof -
  have "enforce_request_body_limit database_settings sample_request = Inr ()" "enforce_json_content_type sample_request = Inr ()"
    by (simp_all add: enforce_request_body_limit_def content_length_bytes_def sample_request_def
        enforce_json_content_type_def should_validate_json_content_type_def)
  moreover have "extract_bearer_token sample_request = Inr ''k''"
    by (simp add: extract_bearer_token_def sample_request_def BEARER_PREFIX_def starts_with_def)
  moreover have "usable_pepper database_settings = Some ''pepper''"
    by (simp add: usable_pepper_def database_settings_def str_eval)
  moreover have "se_auth_enabled database_settings" "se_auth_mode database_settings = AuthDatabase"
    by (simp_all add: database_settings_def settings_default_def)
  moreover have "find_by_hash ''pepperk'' [sample_key] = Some sample_key"
    by (simp add: find_by_hash_def sample_key_def is_active_def)
  moreover have "extract_organization sample_request = Inr ''acme''"
    by (simp add: extract_organization_def sample_request_def str_eval)
  ultimately show ?thesis
    by (simp add: admit_def require_api_key_def validate_database_authorization_def require_organization_def
        enforce_rate_limit_def limiter_check_def rate_limiter_new_def sample_key_def is_active_def)
qed

lemma forget_ticks: "s_tick (snd (forget_user sample_env sample_engine alice sys_new)) \<le> 50"
  by (simp add: forget_user_def seqC_def bindC_def validate_tenant_def alice_def str_eval on_facts_def on_vectors_def
      delete_user_data_def delete_by_user_def Let_def record_audit_def new_v4_def utc_now_def tick_def
      invalidate_user_context_cache_def catch_err_def on_cache_def invalidate_user_def on_metrics_def sys_new_def)

lemma sample_bearer: "bearer_key sample_deployment sample_request sample_server = Some sample_key"
  by (simp add: bearer_key_def extract_bearer_token_def sample_request_def BEARER_PREFIX_def starts_with_def
      sample_deployment_def usable_pepper_def database_settings_def str_eval find_by_hash_def sample_server_def
      sample_key_def is_active_def)

definition sample_app :: app_state where
  "sample_app = \<lparr>ap_server = sample_server, ap_jobs = job_state_new 0, ap_job_runs = None, ap_job_locks = None\<rparr>"

definition sample_jobs :: job_deployment where
  "sample_jobs = \<lparr>jd_lock_owner_id = None, jd_oracle = sample_oracle\<rparr>"

theorem api_tenant_confinement_witness:
  "bearer_key sample_deployment sample_request sample_server = Some sample_key \<and>
   (\<forall>pc. undisturbed ''acme'' sample_server
     (ap_server (snd (protected sample_deployment sample_jobs pc 0 sample_request (User (DeleteUser ''alice'')) sample_app))))"
proof (intro conjI allI)
  fix pc
  let ?r = "protected sample_deployment sample_jobs pc 0 sample_request (User (DeleteUser ''alice'')) sample_app"
  have "check_scope (Some \<lparr>au_org_id = ''acme'', au_api_key_id = 9, au_scopes = [UserDelete]\<rparr>) UserDelete = Inr ()"
    by (simp add: check_scope_def ensure_scope_def has_scope_def)
  moreover have "validate_path_user_id ''alice'' = Inr ()" by (simp add: validate_path_user_id_def str_eval)
  ultimately have "sv_sys (ap_server (snd ?r)) = snd (forget_user sample_env sample_engine alice sys_new)"
    by (simp add: protected_def sample_deployment_def sample_server_def sample_app_def limited_def on_server_def sample_admitted
        delete_user_def answer_def check_def api_def tenant_new_def validate_non_empty_def str_eval on_engine_def seqC_def
        bindC_def split_def alice_def split: sum.split)
  then have "s_tick (sv_sys (ap_server (snd ?r))) \<le> 50" using forget_ticks by simp
  moreover have "sys_inv (sv_sys (ap_server sample_app))" "fresh_ids (dp_env sample_deployment) 50 (sv_sys (ap_server sample_app))"
    using sys_inv_new fresh_sample by (simp_all add: sample_app_def sample_server_def sample_deployment_def)
  moreover have "se_auth_enabled (dp_settings sample_deployment)" "se_auth_mode (dp_settings sample_deployment) = AuthDatabase"
    by (simp_all add: sample_deployment_def database_settings_def settings_default_def)
  moreover have "drops_keep (jd_oracle sample_jobs)" by (simp add: drops_keep_def sample_jobs_def sample_oracle_def)
  ultimately show "undisturbed ''acme'' sample_server (ap_server (snd ?r))"
    using api_tenant_confinement [of sample_deployment sample_app 50 sample_jobs pc 0 sample_request "User (DeleteUser ''alice'')"
        "fst ?r" "snd ?r"] sample_bearer
    by (auto simp: sample_key_def sample_app_def)
qed (rule sample_bearer)

end
