(* ===== verification/Spec2Isabelle.thy ===== *)
theory Spec2Isabelle
  imports Engine_Reads Stampede Provider_Mocks Migrations Backup Sql_Facts Sql_Events Sql_Locks Api_Server Api_Jobs
begin

text \<open>
  A verification of memcore, a service that keeps the long-term memory of agents: it extracts facts from
  conversations with a language model, stores them per tenant (an organisation and one of its users) with
  their embeddings and an audit log, searches them, and assembles them into contexts. The program is the
  Rust workspace under \<^verbatim>\<open>src/crates\<close>; the theories model its crates as functions over explicit states.

  \<^bold>\<open>How the program is put together.\<close>
  A request reaches the server (\<^verbatim>\<open>memcore-api\<close>): middleware limits its size, authenticates the key, compares
  the organisation, counts the request; a handler checks the scopes of the key, parses the body, checks the quota
  and calls the engine (\<^verbatim>\<open>memcore-core/src/engine/mod.rs\<close>). The engine calls its ports: a store of facts, a
  store of vectors, an audit log, a store of usage, a context cache with its coordinator, and providers of
  embeddings and of text. Providers (\<^verbatim>\<open>memcore-providers\<close>) are wrapped by a router with guardrails, retries,
  circuit breakers and usage recording. Stores are in \<^verbatim>\<open>memcore-storage\<close>, settings in \<^verbatim>\<open>memcore-config\<close>, errors
  and the redaction of secrets in \<^verbatim>\<open>memcore-common\<close>. Background jobs run the engine's retention and snapshots
  under a lock that instances share.

  \<^bold>\<open>Conventions.\<close>
  \<^item> A struct is a record with the fields in the order of the source and a prefix of its own, an enum a datatype.
  \<^item> A fallible function returns \<open>memcore_error + 'a\<close> (\<open>Inl\<close> is \<open>Err\<close>); one that may panic returns \<open>fault + 'a\<close>,
    where \<open>fault\<close> is an error or \<open>Panic\<close>. A stateful one is a \<open>comp\<close>: from a state to a result and the
    new state, which is there in the error case too, so that what was written before an error stays written.
  \<^item> Sizes are \<open>nat\<close>, with the saturation or overflow of the source written out; counters and settings of a
    fixed width are words; times are \<open>int\<close> nanoseconds; \<open>f32\<close> and \<open>f64\<close> are exact rationals that are rounded
    after every operation, with infinities and NaN; a string is its UTF-8 bytes.
  \<^item> A hash map is an association list with distinct keys; what the program returns is shown not to depend on the
    order of iteration, or is given for each order.
  \<^item> Code outside the repository is a parameter: the record \<open>env\<close> of the engine (fresh identifiers, clock,
    provider answers, regular expressions, hashes, JSON texts), the codec of cursors, the HTTP library and service
    of \<open>Openai\<close>, the file system of \<open>Backup\<close>, the database of \<open>Migrations\<close>, the texts of times, identifiers
    and JSON values of \<open>Sql_Rows\<close>. Calls whose answer may change are numbered by a tick of the state.

  \<^bold>\<open>The theories.\<close>
  \<^item> Base: \<open>Prelude\<close> (results, computations, stable sorting, hash maps, the collections of lemmas), \<open>Rust_Str\<close>,
    \<open>Uuid\<close>, \<open>Rust_F32\<close>, \<open>Rust_F64\<close>, \<open>Rust_F64_Ops\<close>, \<open>Json\<close>.
  \<^item> \<^verbatim>\<open>memcore-common\<close>: \<open>Common_Error\<close> (\<open>error.rs\<close>), \<open>Redaction\<close> (\<open>redaction\<close>: the text after the scheme
    of a database or Redis URL, up to the next white space, does not reach the result when the message has no authorization
    header, no bearer token and no URL of a scheme that is looked for earlier).
  \<^item> Data and stores: \<open>Models\<close> (\<open>models\<close>), \<open>Pagination\<close> (\<open>pagination\<close>, and the locale \<open>page_order\<close>: a client that
    follows the cursors visits every item once), \<open>Fact_Store\<close>, \<open>Vector_Store\<close>, \<open>Event_Store\<close> (the ports and their
    implementations in \<open>mocks.rs\<close>; the locales \<open>fact_store_port\<close>, \<open>vector_store_port\<close> and \<open>event_store_port\<close> are
    what the engine relies on, each interpreted on the implementation), \<open>Usage_Store\<close> (provider usage and memory
    snapshots), \<open>Org_Plan\<close> and \<open>Quota\<close> (plans, limits and their checks).
  \<^item> SQLite: \<open>Sql_Rows\<close> (\<^verbatim>\<open>sqlite/conversions.rs\<close>: rows and back), \<open>Sql_Table\<close> (what the statements mean: a table is
    a list of rows, any statement may fail), \<open>Sql_Facts\<close>, \<open>Sql_Events\<close> and \<open>Sql_Locks\<close> (the stores of facts, events and
    job locks as statements). In a database that fails no statement each is shown to refine the store in memory of
    the same port through the reading of its rows, so that the theorems about those carry over; the lemmas say where the
    two differ. JSON metadata is read back up to its floats, which \<open>serde_json\<close> parses with its best effort only
    (\<open>stored_form\<close>, \<open>stored_event\<close>). Whatever the database fails, an operation on facts or events that ends with an
    error leaves the rows as they were.
  \<^item> Algorithms of the core: \<open>Dedup\<close> (duplicates, importance), \<open>Ranking\<close> (scores, rank fusion), \<open>Context\<close> (budget,
    formatting, compression, assembly), \<open>Context_Cache\<close> (the cache and the locale \<open>context_cache_port\<close>),
    \<open>Lifecycle\<close> (a classifier's decision carried out), \<open>Import_Export\<close>. A context stays within its budget of tokens
    but for what its format and the summary of what was left out may add, which \<open>Context\<close> bounds; as JSON it may not.
  \<^item> Engine: \<open>Runtime\<close> (state and parameters), \<open>Coordinator\<close> (cache lookups of one request), \<open>Engine\<close> and \<open>Engine_Admin\<close>
    (every operation). \<open>Engine_Inv\<close> shows what each operation keeps on every path, \<open>Engine_Safety\<close> that a server
    answering any sequence of requests keeps the invariant and separates tenants, \<open>Engine_Effects\<close> what the writing
    operations do (the lifecycle refines updates of a finite map; adding memories is this for each candidate in turn), \<open>Engine_Reads\<close> what the reading ones answer,
    \<open>Engine_Data\<close> retention, import and export. \<open>Stampede\<close> models requests for the cache that interleave
    at every \<open>await\<close> as a step relation: tasks wait for a key's lock, time out or are dropped.
  \<^item> Providers: \<open>Provider_Call\<close> (timeouts and retries), \<open>Circuit_Breaker\<close> (as functions and as a state machine),
    \<open>Guardrails\<close> (limits, the call budget, also as racing threads), \<open>Provider_Usage\<close>, \<open>Provider_Router\<close>, \<open>Openai\<close>,
    \<open>Provider_Mocks\<close>.
  \<^item> Jobs: \<open>Job_Store\<close> (runs and locks, the locale \<open>job_lock_port\<close>), \<open>Job_Runner\<close> (retries, the three jobs,
    scheduling, locking, history; the stores of locks and of the history may fail at any call, and other instances may
    change the locks while a job runs).
  \<^item> Configuration: \<open>Settings\<close> (\<open>from_env\<close> and \<open>validate\<close>, every variable), \<open>Settings_Unset\<close>, \<open>App_Config\<close> (how settings
    become the configuration of each component).
  \<^item> Storage tools: \<open>Migrations\<close>, \<open>Backup\<close>.
  \<^item> API: \<open>Rate_Limit\<close>, \<open>Api_Access\<close> (middleware, authentication, scopes), \<open>Api_Keys\<close> (the life of a key and the
    locale \<open>key_store\<close>), \<open>Api_Dto\<close>, \<open>Api_Routes\<close>, \<open>Api_Admin\<close>, \<open>Api_Jobs\<close> (bodies and handlers), \<open>Api_Server\<close> (the
    protected routes, those of the background jobs among them, as one function: what a key can bring about is confined
    to its organisation).

  \<^bold>\<open>Bounds and fuel.\<close>
  \<open>page_walk\<close> of \<open>Pagination\<close> and \<open>list_walk\<close> of \<open>Engine_Reads\<close> follow cursors for a number of pages; the theorems ask
  for more pages than items, and every page but the last takes at least one item. The attempts of a provider call and of
  a job recurse on the attempts that are left. The scheduler of \<open>Job_Runner\<close> (\<open>run_ticks\<close>) runs for any given number
  of ticks of its timer. The waits and cancellations of a job are an oracle by number. Times are unbounded integers;
  where \<open>chrono\<close> would leave its range, \<open>time_range\<close> holds the bounds and the operation panics or fails as the
  source's does. Everything else is structural recursion or has a termination proof.

  \<^bold>\<open>Not modelled.\<close>
  \<^item> The other SQLite stores (keys, runs, plans, usage), the Postgres stores, and the adapters that send Redis commands
    or requests to Qdrant and LanceDB: their work is done by other programs.
  \<^item> Log lines, traces and metrics of the server, the OpenAPI document, response headers, health probes, the start of
    the process and its shutdown: input and output without a decision of the core.
  \<^item> Serialisation by \<open>serde\<close> and the texts of times: parameters where the code depends on them.
  \<^item> Interleaving is modelled where the code coordinates it (\<open>Stampede\<close>, \<open>Guardrails\<close>, \<open>Job_Runner\<close>, the locks);
    elsewhere an operation of the engine runs without interruption.
\<close>

end
